(* ===== verification/Prelude.thy ===== *)
theory Prelude
  imports Main "HOL-Library.Word"
begin

text \<open>
  The part of the library every component shares: the machine integers of the C sources as
  words, little-endian byte images of words (what a pointer cast to \<open>uint32_t\<close> reads on
  the supported targets), the error numbers, and the collections of hints the component
  theories extend. \<open>bitfield\<close> holds the facts that turn C masks into \<open>mask\<close>
  terms, so that a register field is a bit range; \<open>iodefs\<close> holds the definitions of the
  input/output monad of theory \<open>Lowlevel\<close>.
\<close>

unbundle bit_operations_syntax

section \<open>Machine integers and hint collections\<close>

type_synonym u8 = "8 word"
type_synonym u16 = "16 word"
type_synonym u32 = "32 word"
type_synonym u64 = "64 word"

named_theorems bitfield
named_theorems iodefs
named_theorems iosuccess
named_theorems ioerror

text \<open>The masks of the sources, as bit ranges.\<close>

lemma bit_mask_word: "bit (mask m :: 'a::len word) n \<longleftrightarrow> n < m \<and> n < LENGTH('a)"
  by (auto simp: bit_mask_iff possible_bit_word)

lemma bit_word_high: "LENGTH('a) \<le> n \<Longrightarrow> \<not> bit (w :: 'a::len word) n"
  using bit_imp_le_length [of w n] by auto

lemma mask_numerals_int:
  "(3 :: int) = mask 2"
  "(7 :: int) = mask 3"
  "(0xf :: int) = mask 4"
  "(0x1f :: int) = mask 5"
  "(0x3f :: int) = mask 6"
  "(0x7f :: int) = mask 7"
  "(0xff :: int) = mask 8"
  "(0x3ff :: int) = mask 10"
  "(0xfff :: int) = mask 12"
  "(0x1fff :: int) = mask 13"
  "(0x7fff :: int) = mask 15"
  "(0xffff :: int) = mask 16"
  "(0xffffff :: int) = mask 24"
  by (simp_all add: mask_eq_exp_minus_1)

lemma bit_masks [bitfield]:
  "bit (3 :: int) n \<longleftrightarrow> n < 2"
  "bit (7 :: int) n \<longleftrightarrow> n < 3"
  "bit (0xf :: int) n \<longleftrightarrow> n < 4"
  "bit (0x1f :: int) n \<longleftrightarrow> n < 5"
  "bit (0x3f :: int) n \<longleftrightarrow> n < 6"
  "bit (0x7f :: int) n \<longleftrightarrow> n < 7"
  "bit (0xff :: int) n \<longleftrightarrow> n < 8"
  "bit (0x3ff :: int) n \<longleftrightarrow> n < 10"
  "bit (0xfff :: int) n \<longleftrightarrow> n < 12"
  "bit (0x1fff :: int) n \<longleftrightarrow> n < 13"
  "bit (0x7fff :: int) n \<longleftrightarrow> n < 15"
  "bit (0xffff :: int) n \<longleftrightarrow> n < 16"
  "bit (0xffffff :: int) n \<longleftrightarrow> n < 24"
  by (simp_all only: mask_numerals_int bit_mask_iff possible_bit_int simp_thms)

section \<open>Little-endian images of words\<close>

fun le_bytes :: "nat \<Rightarrow> 'a::len word \<Rightarrow> u8 list" where
  "le_bytes 0 w = []"
| "le_bytes (Suc n) w = ucast w # le_bytes n (drop_bit 8 w)"

fun of_le_bytes :: "u8 list \<Rightarrow> 'a::len word" where
  "of_le_bytes [] = 0"
| "of_le_bytes (b # bs) = ucast b OR push_bit 8 (of_le_bytes bs)"

lemma shifted_masks_int:
  "(0xf0 :: int) = push_bit 4 (mask 4)" "(0xfff0 :: int) = push_bit 4 (mask 12)"
  "(0xfff00 :: int) = push_bit 8 (mask 12)" "(0xfff00000 :: int) = push_bit 20 (mask 12)"
  by (simp_all add: push_bit_eq_mult mask_eq_exp_minus_1)

lemma bit_shifted_masks [bitfield]:
  "bit (0xf0 :: int) n \<longleftrightarrow> 4 \<le> n \<and> n < 8"
  "bit (0xfff0 :: int) n \<longleftrightarrow> 4 \<le> n \<and> n < 16"
  "bit (0xfff00 :: int) n \<longleftrightarrow> 8 \<le> n \<and> n < 20"
  "bit (0xfff00000 :: int) n \<longleftrightarrow> 20 \<le> n \<and> n < 32"
  unfolding shifted_masks_int bit_push_bit_iff bit_mask_iff by auto

lemma bit_of_le_bytes:
  "bit (of_le_bytes bs :: 'a::len word) n \<longleftrightarrow> n < LENGTH('a) \<and> n div 8 < length bs \<and> bit (bs ! (n div 8)) (n mod 8)"
proof (induction bs arbitrary: n)
  case (Cons b bs)
  show ?case
  proof (cases "n < 8")
    case True
    then show ?thesis by (auto simp: bit_simps)
  next
    case False
    then obtain k where k: "n = 8 + k" by (metis le_add_diff_inverse not_less)
    have "bit (of_le_bytes (b # bs) :: 'a word) n \<longleftrightarrow> n < LENGTH('a) \<and> bit (of_le_bytes bs :: 'a word) k"
      by (auto simp: k bit_or_iff bit_push_bit_iff bit_ucast_iff dest: bit_imp_le_length)
    also have "\<dots> \<longleftrightarrow> n < LENGTH('a) \<and> k div 8 < length bs \<and> bit (bs ! (k div 8)) (k mod 8)"
      by (auto simp: Cons.IH k)
    finally show ?thesis
      using div_add_self1 [of 8 k] by (simp add: k)
  qed
qed simp

lemma length_le_bytes [simp]: "length (le_bytes n w) = n"
  by (induction n arbitrary: w) auto

lemma nth_le_bytes: "i < n \<Longrightarrow> le_bytes n w ! i = ucast (drop_bit (8 * i) w)"
proof (induction n arbitrary: i w)
  case (Suc n)
  then show ?case by (cases i) (auto simp: add.commute)
qed simp

lemma of_le_bytes_le_bytes: 
  fixes w :: "'a::len word"
  assumes "LENGTH('a) \<le> 8 * n"
  shows "of_le_bytes (le_bytes n w) = w"
proof (rule bit_word_eqI)
  fix m assume m: "m < LENGTH('a)"
  with assms have "m div 8 < n" by linarith
  with m show "bit (of_le_bytes (le_bytes n w) :: 'a word) m = bit w m"
    by (simp add: bit_of_le_bytes nth_le_bytes bit_simps)
qed

lemma le_bytes_of_le_bytes:
  assumes "8 * length bs \<le> LENGTH('a)"
  shows "le_bytes (length bs) (of_le_bytes bs :: 'a::len word) = bs"
proof (rule nth_equalityI)
  fix i assume "i < length (le_bytes (length bs) (of_le_bytes bs :: 'a::len word))"
  then have i: "i < length bs" by simp
  show "le_bytes (length bs) (of_le_bytes bs :: 'a word) ! i = bs ! i"
  proof (rule bit_word_eqI)
    fix m assume "m < LENGTH(8)"
    with i assms show "bit (le_bytes (length bs) (of_le_bytes bs :: 'a word) ! i) m = bit (bs ! i) m"
      by (auto simp: bit_of_le_bytes nth_le_bytes bit_simps)
  qed
qed simp

section \<open>Error numbers (errno.h)\<close>

definition ENOENT :: int where "ENOENT = 2"
definition EIO :: int where "EIO = 5"
definition E2BIG :: int where "E2BIG = 7"
definition ENOMEM :: int where "ENOMEM = 12"
definition EFAULT :: int where "EFAULT = 14"
definition EPERM :: int where "EPERM = 1"
definition EINTR :: int where "EINTR = 4"
definition ENXIO :: int where "ENXIO = 6"
definition EAGAIN :: int where "EAGAIN = 11"
definition EBUSY :: int where "EBUSY = 16"
definition ENODEV :: int where "ENODEV = 19"
definition ERANGE :: int where "ERANGE = 34"
definition ENOSYS :: int where "ENOSYS = 38"
definition EPROTO :: int where "EPROTO = 71"
definition EOVERFLOW :: int where "EOVERFLOW = 75"
definition EINVAL :: int where "EINVAL = 22"
definition ENODATA :: int where "ENODATA = 61"
definition ENOTSUP :: int where "ENOTSUP = 95"
definition ETIMEDOUT :: int where "ETIMEDOUT = 110"
definition ECONNRESET :: int where "ECONNRESET = 104"

text \<open>Ends of a run that are no return value: a division by zero, a loop that never ends, an
  access outside an array.\<close>

definition ASSERT_ABORT :: int where "ASSERT_ABORT = 1000000"
definition CRASH_FPE :: int where "CRASH_FPE = 1000001"
definition HANG :: int where "HANG = 1000002"
definition OUT_OF_BOUNDS :: int where "OUT_OF_BOUNDS = 1000003"

lemmas errno_defs = ECONNRESET_def ASSERT_ABORT_def CRASH_FPE_def HANG_def OUT_OF_BOUNDS_def EINTR_def ENXIO_def EAGAIN_def EBUSY_def ENODEV_def ERANGE_def ENOSYS_def
  EPROTO_def EOVERFLOW_def ENOENT_def EIO_def E2BIG_def ENOMEM_def EFAULT_def EPERM_def EINVAL_def
  ENODATA_def ENOTSUP_def ETIMEDOUT_def

section \<open>Lists and words\<close>

text \<open>The C idiom of a buffer of a known size: cut or zero-padded to \<open>n\<close> elements.\<close>

definition fit :: "nat \<Rightarrow> 'a \<Rightarrow> 'a list \<Rightarrow> 'a list" where
  "fit n z xs = take n (xs @ replicate n z)"

lemma length_fit [simp]: "length (fit n z xs) = n"
  by (simp add: fit_def)

lemma fit_id [simp]: "length xs = n \<Longrightarrow> fit n z xs = xs"
  by (simp add: fit_def)

lemma and_mask_take_bit: "w AND mask n = take_bit n (w :: 'a::len word)"
  by (simp add: take_bit_eq_mask)

lemma unat_ucast_up [simp]:
  "LENGTH('a) \<le> LENGTH('b) \<Longrightarrow> unat (ucast (x :: 'a::len word) :: 'b::len word) = unat x"
  by (simp add: unsigned_ucast_eq take_bit_nat_eq_self order_less_le_trans [OF unsigned_less])

lemma unat_of_nat_fits: "n < 2 ^ LENGTH('a) \<Longrightarrow> unat (of_nat n :: 'a::len word) = n"
  by (simp add: unsigned_of_nat take_bit_nat_eq_self)

lemma unat_of_nat32: "n < 2 ^ 32 \<Longrightarrow> unat (of_nat n :: u32) = n"
  by (rule unat_of_nat_fits) simp

lemma unat_of_nat64: "n < 2 ^ 64 \<Longrightarrow> unat (of_nat n :: u64) = n"
  by (rule unat_of_nat_fits) simp

lemma unat_exp32: "k < 32 \<Longrightarrow> unat (2 ^ k :: u32) = 2 ^ k"
  using unat_of_nat32 [of "2 ^ k"] power_strict_increasing [of k 32 "2 :: nat"] by simp

lemma unat_plus_one: "w + 1 \<noteq> 0 \<Longrightarrow> unat (w + 1 :: 'a::len word) = unat w + 1"
  using unatSuc [of w] by (simp add: add.commute)

text \<open>The measure of a loop that counts a 32-bit variable up.\<close>

definition to_top :: "u32 \<Rightarrow> nat" where
  "to_top b = (if b = 0 then 0 else 2 ^ 32 - unat b)"

lemma to_top_step: "b \<noteq> 0 \<Longrightarrow> to_top (b + 1) < to_top b"
  using unsigned_less [of b, where ?'a = nat] unat_plus_one [of b] by (auto simp: to_top_def)

text \<open>A field value below its width is its own truncation; a field read back from a register.\<close>

lemma take_bit_fits: "unat (w :: 'a::len word) < 2 ^ n \<Longrightarrow> take_bit n w = w"
  by (simp add: word_unat_eq_iff unsigned_take_bit_eq take_bit_nat_eq_self)

definition fld :: "nat \<Rightarrow> nat \<Rightarrow> 'a::len word \<Rightarrow> 'a word" where
  "fld k n w = take_bit n (drop_bit k w)"

lemma fld_or [bitfield]: "fld k n (v OR w) = fld k n v OR fld k n (w :: 'a::len word)"
  by (simp add: fld_def)

lemma fld_push_above [bitfield]: "k + n \<le> m \<Longrightarrow> fld k n (push_bit m (w :: 'a::len word)) = 0"
  unfolding fld_def by (rule bit_word_eqI) (simp add: bit_simps)

lemma fld_push_below: "m + l \<le> k \<Longrightarrow> unat (w :: 'a::len word) < 2 ^ l \<Longrightarrow> fld k n (push_bit m w) = 0"
  unfolding fld_def
  by (subst take_bit_fits [of w l, symmetric], assumption, rule bit_word_eqI) (auto simp: bit_simps)

lemma fld_push_same [bitfield]:
  "k + n \<le> LENGTH('a) \<Longrightarrow> unat (w :: 'a::len word) < 2 ^ n \<Longrightarrow> fld k n (push_bit k w) = w"
  unfolding fld_def
  by (subst (2) take_bit_fits [of w n, symmetric], assumption, rule bit_word_eqI) (auto simp: bit_simps)

lemma fld_low [bitfield]: "unat (w :: 'a::len word) < 2 ^ n \<Longrightarrow> fld 0 n w = w"
  by (simp add: fld_def take_bit_fits)

lemma fld_low_below: "l \<le> k \<Longrightarrow> unat (w :: 'a::len word) < 2 ^ l \<Longrightarrow> fld k n w = 0"
  using fld_push_below [of 0 l k w n] by simp

lemma fld_0 [simp]: "fld k n (0 :: 'a::len word) = 0"
  by (simp add: fld_def)

lemma numeral_le_one_word [simp]: "(numeral k :: 'a::len word) \<le> 1 \<longleftrightarrow> unat (numeral k :: 'a word) \<le> 1"
  by (cases "LENGTH('a) = 1") (simp_all add: word_le_nat_alt unsigned_1)

lemma unat_mask_less: "unat (w AND mask n :: 'a::len word) < 2 ^ n"
  by (simp add: and_mask_take_bit unsigned_take_bit_eq)

lemma le_bytes_inject:
  assumes "LENGTH('a) \<le> 8 * n"
  shows "le_bytes n (v :: 'a::len word) = le_bytes n w \<longleftrightarrow> v = w"
  using of_le_bytes_le_bytes [OF assms] by metis

section \<open>Tilings\<close>

text \<open>
  \<open>tiles a b rs\<close>: the regions (start, length) of \<open>rs\<close> follow each other without a gap or
  an overlap from \<open>a\<close> to \<open>b\<close>.
\<close>

fun tiles :: "nat \<Rightarrow> nat \<Rightarrow> (nat \<times> nat) list \<Rightarrow> bool" where
  "tiles a b [] \<longleftrightarrow> a = b"
| "tiles a b ((x, n) # rs) \<longleftrightarrow> x = a \<and> 0 < n \<and> tiles (a + n) b rs"

lemma tiles_append: "tiles a b rs \<Longrightarrow> tiles b c ss \<Longrightarrow> tiles a c (rs @ ss)"
  by (induction a b rs rule: tiles.induct) auto

lemma tiles_le: "tiles a b rs \<Longrightarrow> a \<le> b"
  by (induction a b rs rule: tiles.induct) auto

lemma tiles_union: "tiles a b rs \<Longrightarrow> (\<Union>(x, n) \<in> set rs. {x..<x + n}) = {a..<b}"
proof (induction a b rs rule: tiles.induct)
  case (2 a b x n rs)
  then have "a + n \<le> b" by (auto dest: tiles_le)
  with 2 show ?case by (auto simp: ivl_disj_un)
qed simp

end
