(* ===== verification/Lowlevel.thy ===== *)
theory Lowlevel
  imports Prelude
begin

text \<open>
  The low-level interface (\<open>src/lib/lowlevel/usdr_lowlevel.h\<close>): every access of the
  library to a device is one call of \<open>lowlevel_ops.ls_op\<close>. The transport behind it (a
  kernel driver, libusb, a simulator) and the hardware are not in this model: they are an
  \<open>env\<close>, a function from the history of the device to the answer of the next request,
  universally quantified in the theorems. A program is a function of the environment and the
  trace of the events so far; it returns its result and the longer trace.

  \<open>fail_stop\<close> is the contract that all the register-level code of the library keeps:
  nothing is issued after the first request that fails, and its error code is the result.
  The locale \<open>checked_io\<close> states what a caller gets from it.
\<close>

section \<open>Requests, events and environments\<close>

datatype lowlevel_ls_ops =
    USDR_LSOP_HWREG | USDR_LSOP_SPI | USDR_LSOP_I2C_DEV | USDR_LSOP_URAM
  | USDR_LSOP_DRP | USDR_LSOP_GPI | USDR_LSOP_GPO | USDR_LSOP_CUSTOM_CMD

record lsreq =
  rq_op :: lowlevel_ls_ops
  rq_addr :: u32
  rq_insz :: nat
  rq_out :: "u8 list"

datatype event = LsOp lsreq | USleep nat

type_synonym trace = "event list"
type_synonym env = "trace \<Rightarrow> lsreq \<Rightarrow> int \<times> u8 list"
type_synonym 'a io = "env \<Rightarrow> trace \<Rightarrow> 'a \<times> trace"

section \<open>The monad of C functions that return an error code\<close>

definition ioreturn :: "'a \<Rightarrow> (int + 'a) io" where
  [iodefs]: "ioreturn a = (\<lambda>env tr. (Inr a, tr))"

definition iofail :: "int \<Rightarrow> (int + 'a) io" where
  [iodefs]: "iofail e = (\<lambda>env tr. (Inl e, tr))"

definition iobind :: "(int + 'a) io \<Rightarrow> ('a \<Rightarrow> (int + 'b) io) \<Rightarrow> (int + 'b) io" where
  [iodefs]: "iobind m k = (\<lambda>env tr. case m env tr of
     (Inl e, tr') \<Rightarrow> (Inl e, tr') | (Inr a, tr') \<Rightarrow> k a env tr')"

definition ioseq :: "(int + 'a) io \<Rightarrow> (int + 'b) io \<Rightarrow> (int + 'b) io" where
  [iodefs]: "ioseq m k = iobind m (\<lambda>_. k)"

definition usleep :: "nat \<Rightarrow> (int + unit) io" where
  [iodefs]: "usleep n = (\<lambda>env tr. (Inr (), tr @ [USleep n]))"

primrec iolist :: "(int + unit) io list \<Rightarrow> (int + unit) io" where
  "iolist [] = ioreturn ()"
| "iolist (m # ms) = ioseq m (iolist ms)"

lemma iobind_cong [fundef_cong]:
  "m = m' \<Longrightarrow> (\<And>a. k a = k' a) \<Longrightarrow> iobind m k = iobind m' k'"
  by (metis ext)

section \<open>The request functions of usdr_lowlevel.h\<close>

definition lowlevel_ls_op ::
  "lowlevel_ls_ops \<Rightarrow> u32 \<Rightarrow> nat \<Rightarrow> u8 list \<Rightarrow> (int + u8 list) io" where
  "lowlevel_ls_op opc a n out = (\<lambda>env tr.
     let r = \<lparr>rq_op = opc, rq_addr = a, rq_insz = n, rq_out = out\<rparr>;
         (res, d) = env tr r
     in (if res \<noteq> 0 then Inl res else Inr (fit n 0 d), tr @ [LsOp r]))"

definition lowlevel_reg_wr32 :: "u32 \<Rightarrow> u32 \<Rightarrow> (int + unit) io" where
  "lowlevel_reg_wr32 a w =
     iobind (lowlevel_ls_op USDR_LSOP_HWREG a 0 (le_bytes 4 w)) (\<lambda>_. ioreturn ())"

definition lowlevel_reg_rd32 :: "u32 \<Rightarrow> (int + u32) io" where
  "lowlevel_reg_rd32 a =
     iobind (lowlevel_ls_op USDR_LSOP_HWREG a 4 []) (\<lambda>d. ioreturn (of_le_bytes d))"

definition lowlevel_drp_wr16 :: "u32 \<Rightarrow> u16 \<Rightarrow> u16 \<Rightarrow> (int + unit) io" where
  "lowlevel_drp_wr16 port regaddr w =
     iobind (lowlevel_ls_op USDR_LSOP_DRP (push_bit 16 port OR ucast regaddr) 0 (le_bytes 2 w))
       (\<lambda>_. ioreturn ())"

definition lowlevel_drp_rd16 :: "u32 \<Rightarrow> u16 \<Rightarrow> (int + u16) io" where
  "lowlevel_drp_rd16 port regaddr =
     iobind (lowlevel_ls_op USDR_LSOP_DRP (push_bit 16 port OR ucast regaddr) 2 [])
       (\<lambda>d. ioreturn (of_le_bytes d))"

definition lowlevel_reg_rdndw :: "u32 \<Rightarrow> nat \<Rightarrow> (int + u32 list) io" where
  "lowlevel_reg_rdndw a ndw =
     iobind (lowlevel_ls_op USDR_LSOP_HWREG a (4 * ndw) [])
       (\<lambda>d. ioreturn (map (\<lambda>i. of_le_bytes (take 4 (drop (4 * i) d))) [0..<ndw]))"

text \<open>The events these functions leave.\<close>

abbreviation ev_wr32 :: "u32 \<Rightarrow> u32 \<Rightarrow> event" where
  "ev_wr32 a w \<equiv> LsOp \<lparr>rq_op = USDR_LSOP_HWREG, rq_addr = a, rq_insz = 0, rq_out = le_bytes 4 w\<rparr>"

abbreviation ev_rd32 :: "u32 \<Rightarrow> event" where
  "ev_rd32 a \<equiv> LsOp \<lparr>rq_op = USDR_LSOP_HWREG, rq_addr = a, rq_insz = 4, rq_out = []\<rparr>"

abbreviation ev_drp_wr16 :: "u32 \<Rightarrow> u16 \<Rightarrow> u16 \<Rightarrow> event" where
  "ev_drp_wr16 p a w \<equiv> LsOp \<lparr>rq_op = USDR_LSOP_DRP, rq_addr = push_bit 16 p OR ucast a,
     rq_insz = 0, rq_out = le_bytes 2 w\<rparr>"

abbreviation ev_drp_rd16 :: "u32 \<Rightarrow> u16 \<Rightarrow> event" where
  "ev_drp_rd16 p a \<equiv> LsOp \<lparr>rq_op = USDR_LSOP_DRP, rq_addr = push_bit 16 p OR ucast a,
     rq_insz = 2, rq_out = []\<rparr>"

lemma ev_wr32_inject [simp]: "ev_wr32 a v = ev_wr32 b w \<longleftrightarrow> a = b \<and> v = w"
  by (simp add: le_bytes_inject)

section \<open>The contract of register-level code\<close>

text \<open>Every request among the events succeeded, each asked after the events before it.\<close>

fun bus_ok :: "env \<Rightarrow> trace \<Rightarrow> event list \<Rightarrow> bool" where
  "bus_ok env tr [] = True"
| "bus_ok env tr (LsOp r # es) = (fst (env tr r) = 0 \<and> bus_ok env (tr @ [LsOp r]) es)"
| "bus_ok env tr (USleep n # es) = bus_ok env (tr @ [USleep n]) es"

lemma bus_ok_append [simp]:
  "bus_ok env tr (es @ fs) \<longleftrightarrow> bus_ok env tr es \<and> bus_ok env (tr @ es) fs"
  by (induction env tr es rule: bus_ok.induct) auto

text \<open>The last event is a request that failed with code \<open>e\<close>, the ones before succeeded.\<close>

definition bus_fail :: "env \<Rightarrow> trace \<Rightarrow> event list \<Rightarrow> int \<Rightarrow> bool" where
  "bus_fail env tr es e \<longleftrightarrow> (\<exists>fs r. es = fs @ [LsOp r] \<and> bus_ok env tr fs \<and>
     fst (env (tr @ fs) r) = e \<and> e \<noteq> 0)"

text \<open>
  \<open>fail_stop C m\<close>: the program only adds events; if it succeeds every request it issued
  succeeded; if it fails, it is with a code of \<open>C\<close> after successful requests only, or with
  the code of its last request, the only one that failed.
\<close>

definition fail_stop :: "int set \<Rightarrow> (int + 'a) io \<Rightarrow> bool" where
  "fail_stop C m \<longleftrightarrow> (\<forall>env tr. \<exists>es. snd (m env tr) = tr @ es \<and>
     (case fst (m env tr) of
        Inr a \<Rightarrow> bus_ok env tr es
      | Inl e \<Rightarrow> (e \<in> C \<and> bus_ok env tr es) \<or> bus_fail env tr es e))"

named_theorems fail_stop_intros

lemma fail_stop_return [fail_stop_intros]: "fail_stop C (ioreturn a)"
  by (auto simp: fail_stop_def ioreturn_def)

lemma fail_stop_fail [fail_stop_intros]: "e \<in> C \<Longrightarrow> fail_stop C (iofail e)"
  by (auto simp: fail_stop_def iofail_def)

lemma fail_stop_usleep [fail_stop_intros]: "fail_stop C (usleep n)"
  by (auto simp: fail_stop_def usleep_def)

lemma fail_stop_ls_op [fail_stop_intros]: "fail_stop C (lowlevel_ls_op opc a n out)"
proof -
  have "\<exists>es. snd (lowlevel_ls_op opc a n out env tr) = tr @ es \<and>
     (case fst (lowlevel_ls_op opc a n out env tr) of
        Inr a \<Rightarrow> bus_ok env tr es
      | Inl e \<Rightarrow> (e \<in> C \<and> bus_ok env tr es) \<or> bus_fail env tr es e)" for env tr
    by (auto simp: lowlevel_ls_op_def bus_fail_def Let_def split: prod.splits)
  then show ?thesis by (simp add: fail_stop_def)
qed

lemma bus_fail_append:
  "bus_ok env tr es \<Longrightarrow> bus_fail env (tr @ es) fs e \<Longrightarrow> bus_fail env tr (es @ fs) e"
  by (force simp: bus_fail_def)

lemma fail_stop_iobind [fail_stop_intros]:
  assumes m: "fail_stop C m" and k: "\<And>a. fail_stop C (k a)"
  shows "fail_stop C (iobind m k)"
  unfolding fail_stop_def
proof (intro allI)
  fix env tr
  obtain r tr' where mr: "m env tr = (r, tr')" by force
  from m obtain es where es: "tr' = tr @ es"
    "case r of Inr a \<Rightarrow> bus_ok env tr es
     | Inl e \<Rightarrow> (e \<in> C \<and> bus_ok env tr es) \<or> bus_fail env tr es e"
    unfolding fail_stop_def by (metis mr fst_conv snd_conv)
  show "\<exists>es. snd (iobind m k env tr) = tr @ es \<and> (case fst (iobind m k env tr) of
      Inr a \<Rightarrow> bus_ok env tr es
    | Inl e \<Rightarrow> (e \<in> C \<and> bus_ok env tr es) \<or> bus_fail env tr es e)"
  proof (cases r)
    case (Inl e)
    with es mr show ?thesis by (auto simp: iobind_def)
  next
    case (Inr a)
    from k [of a] obtain fs where fs: "snd (k a env tr') = tr' @ fs"
      "case fst (k a env tr') of Inr a \<Rightarrow> bus_ok env tr' fs
       | Inl e \<Rightarrow> (e \<in> C \<and> bus_ok env tr' fs) \<or> bus_fail env tr' fs e"
      unfolding fail_stop_def by blast
    with es Inr mr show ?thesis
      by (intro exI [of _ "es @ fs"])
        (auto simp: iobind_def bus_fail_append split: sum.splits)
  qed
qed

lemma fail_stop_ioseq [fail_stop_intros]:
  "fail_stop C m \<Longrightarrow> fail_stop C k \<Longrightarrow> fail_stop C (ioseq m k)"
  by (simp add: ioseq_def fail_stop_iobind)

lemma fail_stop_iolist [fail_stop_intros]:
  "(\<And>m. m \<in> set ms \<Longrightarrow> fail_stop C m) \<Longrightarrow> fail_stop C (iolist ms)"
  by (induction ms) (auto intro: fail_stop_intros)

lemma fail_stop_if [fail_stop_intros]:
  "(b \<Longrightarrow> fail_stop C m) \<Longrightarrow> (\<not> b \<Longrightarrow> fail_stop C k) \<Longrightarrow> fail_stop C (if b then m else k)"
  by simp

lemma fail_stop_wr32 [fail_stop_intros]: "fail_stop C (lowlevel_reg_wr32 a w)"
  unfolding lowlevel_reg_wr32_def by (intro fail_stop_intros)

lemma fail_stop_rd32 [fail_stop_intros]: "fail_stop C (lowlevel_reg_rd32 a)"
  unfolding lowlevel_reg_rd32_def by (intro fail_stop_intros)

lemma fail_stop_drp_wr16 [fail_stop_intros]: "fail_stop C (lowlevel_drp_wr16 p a w)"
  unfolding lowlevel_drp_wr16_def by (intro fail_stop_intros)

lemma fail_stop_drp_rd16 [fail_stop_intros]: "fail_stop C (lowlevel_drp_rd16 p a)"
  unfolding lowlevel_drp_rd16_def by (intro fail_stop_intros)

lemma fail_stop_rdndw [fail_stop_intros]: "fail_stop C (lowlevel_reg_rdndw a n)"
  unfolding lowlevel_reg_rdndw_def by (intro fail_stop_intros)

text \<open>What a caller gets from the contract.\<close>

locale checked_io =
  fixes C :: "int set" and prog :: "(int + 'a) io"
  assumes stops: "fail_stop C prog"
begin

lemma error_is_last_request:
  assumes "prog env tr = (Inl e, tr')" and "e \<notin> C"
  shows "\<exists>es r. tr' = tr @ es @ [LsOp r] \<and> bus_ok env tr es \<and> fst (env (tr @ es) r) = e \<and> e \<noteq> 0"
proof -
  from stops obtain es where "tr' = tr @ es" "bus_fail env tr es e"
    using assms unfolding fail_stop_def by (metis (mono_tags, lifting) fst_conv old.sum.simps(5) snd_conv)
  then show ?thesis by (auto simp: bus_fail_def)
qed

lemma success_all_ok:
  assumes "prog env tr = (Inr a, tr')"
  shows "\<exists>es. tr' = tr @ es \<and> bus_ok env tr es"
  using stops assms unfolding fail_stop_def by (metis (mono_tags, lifting) fst_conv old.sum.simps(6) snd_conv)

lemma trace_grows: "\<exists>es. snd (prog env tr) = tr @ es"
  using stops unfolding fail_stop_def by blast

end

section \<open>Observers of the trace\<close>

text \<open>
  An observer is a state machine that reads the events, such as the protocol of a chip behind
  the registers. \<open>ensures step R m\<close>: whenever \<open>m\<close> succeeds with \<open>a\<close>, its
  events take the observer from any \<open>s\<close> to an \<open>s'\<close> with \<open>R a s s'\<close>, whatever the
  device answered.
\<close>

definition ensures ::
  "(event \<Rightarrow> 's \<Rightarrow> 's) \<Rightarrow> ('a \<Rightarrow> 's \<Rightarrow> 's \<Rightarrow> bool) \<Rightarrow> (int + 'a) io \<Rightarrow> bool" where
  "ensures step R m \<longleftrightarrow> (\<forall>env tr a tr'. m env tr = (Inr a, tr') \<longrightarrow>
     (\<exists>es. tr' = tr @ es \<and> (\<forall>s. R a s (fold step es s))))"

lemma ensuresD:
  "ensures step R m \<Longrightarrow> m env tr = (Inr a, tr') \<Longrightarrow>
   \<exists>es. tr' = tr @ es \<and> (\<forall>s. R a s (fold step es s))"
  by (simp add: ensures_def)

lemma ensures_return: "(\<And>s. R a s s) \<Longrightarrow> ensures step R (ioreturn a)"
  by (auto simp: ensures_def ioreturn_def)

lemma ensures_fail: "ensures step R (iofail e)"
  by (auto simp: ensures_def iofail_def)

lemma ensures_usleep: "(\<And>s. R () s (step (USleep n) s)) \<Longrightarrow> ensures step R (usleep n)"
  by (auto simp: ensures_def usleep_def intro!: exI [of _ "[USleep n]"])

lemma ensures_ls_op:
  assumes "\<And>d s. length d = n \<Longrightarrow>
    R d s (step (LsOp \<lparr>rq_op = opc, rq_addr = a, rq_insz = n, rq_out = out\<rparr>) s)"
  shows "ensures step R (lowlevel_ls_op opc a n out)"
  using assms by (auto simp: ensures_def lowlevel_ls_op_def Let_def split: prod.splits if_splits
      intro!: exI [of _ "[LsOp \<lparr>rq_op = opc, rq_addr = a, rq_insz = n, rq_out = out\<rparr>]"])

lemma ensures_iobind:
  assumes m: "ensures step R m" and k: "\<And>a. ensures step (S a) (k a)"
    and T: "\<And>a b s s' s''. R a s s' \<Longrightarrow> S a b s' s'' \<Longrightarrow> T b s s''"
  shows "ensures step T (iobind m k)"
  unfolding ensures_def
proof (intro allI impI)
  fix env tr b tr'
  assume "iobind m k env tr = (Inr b, tr')"
  then obtain a tr1 where 1: "m env tr = (Inr a, tr1)" and 2: "k a env tr1 = (Inr b, tr')"
    by (auto simp: iobind_def split: prod.splits sum.splits)
  from ensuresD [OF m 1] obtain es where es: "tr1 = tr @ es" "\<forall>s. R a s (fold step es s)" by blast
  from ensuresD [OF k 2] obtain fs where fs: "tr' = tr1 @ fs" "\<forall>s. S a b s (fold step fs s)" by blast
  from es fs T show "\<exists>es. tr' = tr @ es \<and> (\<forall>s. T b s (fold step es s))"
    by (intro exI [of _ "es @ fs"]) (simp, blast)
qed

lemma ensures_ioseq:
  assumes "ensures step R m" and "ensures step S k"
    and "\<And>a b s s' s''. R a s s' \<Longrightarrow> S b s' s'' \<Longrightarrow> T b s s''"
  shows "ensures step T (ioseq m k)"
  unfolding ioseq_def using assms by (intro ensures_iobind [where R = R and S = "\<lambda>_. S"])

lemma ensures_mono: "ensures step R m \<Longrightarrow> (\<And>a s s'. R a s s' \<Longrightarrow> S a s s') \<Longrightarrow> ensures step S m"
  unfolding ensures_def by blast

lemma ensures_wr32: "(\<And>s. R () s (step (ev_wr32 a w) s)) \<Longrightarrow> ensures step R (lowlevel_reg_wr32 a w)"
  unfolding lowlevel_reg_wr32_def
  by (rule ensures_iobind [where R = "\<lambda>d s s'. s' = step (ev_wr32 a w) s" and S = "\<lambda>_ _ s s'. s' = s"])
    (auto intro: ensures_ls_op ensures_return)

lemma ensures_rd32: "(\<And>v s. R v s (step (ev_rd32 a) s)) \<Longrightarrow> ensures step R (lowlevel_reg_rd32 a)"
  unfolding lowlevel_reg_rd32_def
  by (rule ensures_iobind [where R = "\<lambda>d s s'. s' = step (ev_rd32 a) s" and S = "\<lambda>_ _ s s'. s' = s"])
    (auto intro: ensures_ls_op ensures_return)

text \<open>A program is \<open>quiet\<close> for an observer that does not move on its events.\<close>

definition quiet :: "(event \<Rightarrow> 's \<Rightarrow> 's) \<Rightarrow> (int + 'a) io \<Rightarrow> bool" where
  "quiet step m \<longleftrightarrow> ensures step (\<lambda>_ s s'. s' = s) m"

named_theorems quiet_intros

lemma quiet_return [quiet_intros]: "quiet step (ioreturn a)"
  by (simp add: quiet_def ensures_return)

lemma quiet_fail [quiet_intros]: "quiet step (iofail e)"
  by (simp add: quiet_def ensures_fail)

lemma quiet_iobind [quiet_intros]:
  "quiet step m \<Longrightarrow> (\<And>a. quiet step (k a)) \<Longrightarrow> quiet step (iobind m k)"
  unfolding quiet_def
  by (rule ensures_iobind [where R = "\<lambda>_ s s'. s' = s" and S = "\<lambda>_ _ s s'. s' = s"]) auto

lemma quiet_ioseq [quiet_intros]: "quiet step m \<Longrightarrow> quiet step k \<Longrightarrow> quiet step (ioseq m k)"
  by (simp add: ioseq_def quiet_iobind)

lemma quiet_if [quiet_intros]:
  "(b \<Longrightarrow> quiet step m) \<Longrightarrow> (\<not> b \<Longrightarrow> quiet step k) \<Longrightarrow> quiet step (if b then m else k)"
  by simp

lemma quiet_usleep: "(\<And>s. step (USleep n) s = s) \<Longrightarrow> quiet step (usleep n)"
  by (simp add: quiet_def ensures_usleep)

lemma quiet_wr32: "(\<And>s. step (ev_wr32 a w) s = s) \<Longrightarrow> quiet step (lowlevel_reg_wr32 a w)"
  by (simp add: quiet_def ensures_wr32)

lemma quiet_rd32: "(\<And>s. step (ev_rd32 a) s = s) \<Longrightarrow> quiet step (lowlevel_reg_rd32 a)"
  by (simp add: quiet_def ensures_rd32)

section \<open>Evaluation of programs\<close>

text \<open>
  Rules to run a straight-line program: under an environment whose answer to the next request
  is known, one request is one event. \<open>bus_accepts env\<close> says that every request succeeds.
\<close>

definition bus_accepts :: "env \<Rightarrow> bool" where
  "bus_accepts env \<longleftrightarrow> (\<forall>tr r. fst (env tr r) = 0)"

definition accept_all :: env where
  "accept_all = (\<lambda>_ _. (0, []))"

lemma bus_accepts_accept_all [simp]: "bus_accepts accept_all"
  by (simp add: bus_accepts_def accept_all_def)

lemma iobind_return [simp]: "iobind (ioreturn a) k = k a"
  by (simp add: iobind_def ioreturn_def)

lemma iobind_fail [simp]: "iobind (iofail e) k = iofail e"
  by (simp add: iobind_def iofail_def)

lemma ioseq_simps [simp]: "ioseq (ioreturn a) k = k" "ioseq (iofail e) k = iofail e"
  by (simp_all add: ioseq_def)

lemma lowlevel_reg_wr32_ok:
  "bus_accepts env \<Longrightarrow> lowlevel_reg_wr32 a w env tr = (Inr (), tr @ [ev_wr32 a w])"
  by (auto simp: lowlevel_reg_wr32_def lowlevel_ls_op_def iodefs bus_accepts_def Let_def
      split: prod.splits) (metis fst_conv)

lemma of_le_bytes_replicate [simp]: "of_le_bytes (replicate n 0) = 0"
  by (induction n) auto

text \<open>The device that accepts everything and answers zeros: an idle device.\<close>

lemma accept_all_ops [simp]:
  "lowlevel_ls_op opc a n out accept_all tr =
     (Inr (replicate n 0), tr @ [LsOp \<lparr>rq_op = opc, rq_addr = a, rq_insz = n, rq_out = out\<rparr>])"
  "lowlevel_reg_rd32 a accept_all tr = (Inr 0, tr @ [ev_rd32 a])"
  "lowlevel_reg_wr32 a w accept_all tr = (Inr (), tr @ [ev_wr32 a w])"
  "usleep n accept_all tr = (Inr (), tr @ [USleep n])"
  "ioreturn x accept_all tr = (Inr x, tr)"
  "iofail e accept_all tr = (Inl e, tr)"
  by (simp_all add: lowlevel_ls_op_def lowlevel_reg_rd32_def lowlevel_reg_wr32_def iodefs
      accept_all_def fit_def)

lemma accept_all_binds [simp]:
  "iobind m k accept_all tr = (case m accept_all tr of
     (Inl e, tr') \<Rightarrow> (Inl e, tr') | (Inr a, tr') \<Rightarrow> k a accept_all tr')"
  "ioseq m m' accept_all tr = (case m accept_all tr of
     (Inl e, tr') \<Rightarrow> (Inl e, tr') | (Inr a, tr') \<Rightarrow> m' accept_all tr')"
  by (simp_all add: iodefs)

section \<open>Successful runs\<close>

text \<open>
  What a program that reports success has done: \<open>iosuccess\<close> turns the success of a sequence
  into the successes of its requests and the events they leave.
\<close>

lemma wr32_Inr [iosuccess]:
  "lowlevel_reg_wr32 a w env tr = (Inr u, tr') \<longleftrightarrow>
   fst (env tr \<lparr>rq_op = USDR_LSOP_HWREG, rq_addr = a, rq_insz = 0, rq_out = le_bytes 4 w\<rparr>) = 0 \<and>
   tr' = tr @ [ev_wr32 a w]"
  by (auto simp: lowlevel_reg_wr32_def lowlevel_ls_op_def iodefs Let_def split: prod.splits if_splits)

lemma wr32_Inl [ioerror]:
  "lowlevel_reg_wr32 a w env tr = (Inl e, tr') \<longleftrightarrow> e \<noteq> 0 \<and>
   fst (env tr \<lparr>rq_op = USDR_LSOP_HWREG, rq_addr = a, rq_insz = 0, rq_out = le_bytes 4 w\<rparr>) = e \<and>
   tr' = tr @ [ev_wr32 a w]"
  by (auto simp: lowlevel_reg_wr32_def lowlevel_ls_op_def iodefs Let_def split: prod.splits if_splits)

lemma iobind_Inr [iosuccess]:
  "iobind m k env tr = (Inr x, tr') \<longleftrightarrow> (\<exists>y tr1. m env tr = (Inr y, tr1) \<and> k y env tr1 = (Inr x, tr'))"
  by (auto simp: iobind_def split: prod.splits sum.splits)

lemma ioseq_Inr [iosuccess]:
  "ioseq m k env tr = (Inr x, tr') \<longleftrightarrow> (\<exists>y tr1. m env tr = (Inr y, tr1) \<and> k env tr1 = (Inr x, tr'))"
  by (simp add: ioseq_def iobind_Inr)

lemma ioreturn_Inr [iosuccess]: "ioreturn a env tr = (Inr x, tr') \<longleftrightarrow> x = a \<and> tr' = tr"
  by (auto simp: iodefs)

lemma iofail_Inr [iosuccess]: "iofail e env tr = (Inr x, tr') \<longleftrightarrow> False"
  by (simp add: iodefs)

lemma iobind_Inl [ioerror]:
  "iobind m k env tr = (Inl e, tr') \<longleftrightarrow>
   m env tr = (Inl e, tr') \<or> (\<exists>y tr1. m env tr = (Inr y, tr1) \<and> k y env tr1 = (Inl e, tr'))"
  by (auto simp: iobind_def split: prod.splits sum.splits)

lemma ioseq_Inl [ioerror]:
  "ioseq m k env tr = (Inl e, tr') \<longleftrightarrow>
   m env tr = (Inl e, tr') \<or> (\<exists>y tr1. m env tr = (Inr y, tr1) \<and> k env tr1 = (Inl e, tr'))"
  by (simp add: ioseq_def iobind_Inl)

lemma ioreturn_Inl [ioerror]: "ioreturn a env tr = (Inl e, tr') \<longleftrightarrow> False"
  by (simp add: iodefs)

lemma iofail_Inl [ioerror]: "iofail x env tr = (Inl e, tr') \<longleftrightarrow> e = x \<and> tr' = tr"
  by (auto simp: iodefs)

text \<open>A list of register writes.\<close>

definition reg_script :: "(u32 \<times> u32) list \<Rightarrow> (int + unit) io" where
  "reg_script ws = iolist (map (\<lambda>(a, w). lowlevel_reg_wr32 a w) ws)"

lemma reg_script_simps [simp]:
  "reg_script [] = ioreturn ()"
  "reg_script ((a, w) # ws) = ioseq (lowlevel_reg_wr32 a w) (reg_script ws)"
  by (simp_all add: reg_script_def)

lemma reg_script_Inr:
  "reg_script ws env tr = (Inr u, tr') \<Longrightarrow> tr' = tr @ map (\<lambda>(a, w). ev_wr32 a w) ws"
proof (induction ws arbitrary: tr)
  case (Cons x ws)
  obtain a w where x: "x = (a, w)" by fastforce
  with Cons.prems have "reg_script ws env (tr @ [ev_wr32 a w]) = (Inr u, tr')" by (auto simp: iosuccess)
  from Cons.IH [OF this] x show ?case by simp
qed (simp add: iosuccess)

lemma reg_script_ok:
  "bus_accepts env \<Longrightarrow> reg_script ws env tr = (Inr (), tr @ map (\<lambda>(a, w). ev_wr32 a w) ws)"
  by (induction ws arbitrary: tr) (auto simp: iodefs lowlevel_reg_wr32_ok)

text \<open>What the writes leave in a register file.\<close>

fun reg_step :: "event \<Rightarrow> (u32 \<Rightarrow> u32) \<Rightarrow> u32 \<Rightarrow> u32" where
  "reg_step (LsOp r) regs =
    (if rq_op r = USDR_LSOP_HWREG \<and> rq_insz r = 0 \<and> length (rq_out r) = 4
     then regs(rq_addr r := of_le_bytes (rq_out r)) else regs)"
| "reg_step (USleep n) regs = regs"

lemma reg_step_wr32 [simp]: "reg_step (ev_wr32 a w) regs = regs(a := w)"
  by (simp add: of_le_bytes_le_bytes)

lemma reg_step_rd32 [simp]: "reg_step (ev_rd32 a) regs = regs"
  by simp

end
