(* ===== verification/EspiFlash.thy ===== *)
theory EspiFlash
  imports Lowlevel
begin

text \<open>
  The SPI NOR flash driver (\<open>src/lib/ipblks/espi_flash.c\<close>): the soft core is driven by two
  registers at \<open>cfg_base\<close> (command/status and address/data) and a window of local memory at
  \<open>cfg_mmap_base\<close>. Erase and write split a range of the flash into sectors, subsectors and
  blocks of 128 bytes. The observer \<open>nor_step\<close> reads the commands off the trace as a NOR flash
  does (write enable, erase, program); the lemmas show what the driver makes it do.
\<close>

section \<open>Registers and commands\<close>

definition ESPI_CMD_QCFR_0 :: u8 where "ESPI_CMD_QCFR_0 = 0x0B"
definition ESPI_CMD_WREN :: u8 where "ESPI_CMD_WREN = 0x06"
definition ESPI_CMD_QCPP_0 :: u8 where "ESPI_CMD_QCPP_0 = 0x02"
definition ESPI_CMD_SSE :: u8 where "ESPI_CMD_SSE = 0x20"
definition ESPI_CMD_SE :: u8 where "ESPI_CMD_SE = 0xD8"
definition ESPI_CMD_BE :: u8 where "ESPI_CMD_BE = 0xC7"
definition ESPI_CMD_RDSR :: u8 where "ESPI_CMD_RDSR = 0x05"
definition ESPI_CMD_RDID_1 :: u8 where "ESPI_CMD_RDID_1 = 0x9F"

lemmas jedec_cmds = ESPI_CMD_QCFR_0_def ESPI_CMD_WREN_def ESPI_CMD_QCPP_0_def ESPI_CMD_SSE_def
  ESPI_CMD_SE_def ESPI_CMD_BE_def ESPI_CMD_RDSR_def ESPI_CMD_RDID_1_def

definition ESPI_STAT :: u32 where "ESPI_STAT = 0"
definition ESPI_DATA :: u32 where "ESPI_DATA = 1"
definition ESPI_CMD :: u32 where "ESPI_CMD = 0"
definition ESPI_FADDR :: u32 where "ESPI_FADDR = 1"

lemmas espi_core_regs = ESPI_STAT_def ESPI_DATA_def ESPI_CMD_def ESPI_FADDR_def

definition LOCAL_BLK_LEN :: u32 where "LOCAL_BLK_LEN = 128"
definition LOCAL_MEM_TOP :: u32 where "LOCAL_MEM_TOP = 0"
definition WATCHDOG_LIMIT :: nat where "WATCHDOG_LIMIT = 300000"
definition RDSR_BUSY_BIT :: u8 where "RDSR_BUSY_BIT = 1"
definition ESPI_FLASH_DONT_ERASE :: u32 where "ESPI_FLASH_DONT_ERASE = 2"
definition ESPI_FLASH_DONT_WRITE_HEADER :: u32 where "ESPI_FLASH_DONT_WRITE_HEADER = 1"

definition MAKE_ESPI_CORE_CMD :: "u8 \<Rightarrow> u8 \<Rightarrow> u32 \<Rightarrow> u32 \<Rightarrow> u32 \<Rightarrow> u32 \<Rightarrow> u32" where
  "MAKE_ESPI_CORE_CMD cmd sz la16 lbe ab wb =
     push_bit 24 (ucast cmd) OR push_bit 16 (ucast sz) OR push_bit 4 (la16 AND 0xfff)
     OR push_bit 3 (lbe AND 1) OR push_bit 1 (ab AND 3) OR (wb AND 1)"

section \<open>Waiting for the core and for the chip\<close>

function espi_flash_wait_done_from :: "u32 \<Rightarrow> nat \<Rightarrow> (int + unit) io" where
  "espi_flash_wait_done_from base limit =
     iobind (lowlevel_reg_rd32 (base + ESPI_STAT)) (\<lambda>stat.
       if limit > 1000000 then iofail (- ETIMEDOUT)
       else ioseq (usleep 1)
         (if stat AND 1 \<noteq> 0 then espi_flash_wait_done_from base (Suc limit) else ioreturn ()))"
  by pat_completeness auto
termination
  by (relation "measure (\<lambda>(base, limit). 1000001 - limit)") auto

declare espi_flash_wait_done_from.simps [simp del]

definition espi_flash_wait_done :: "u32 \<Rightarrow> (int + unit) io" where
  "espi_flash_wait_done base = espi_flash_wait_done_from base 0"

definition espi_flash_read_reg :: "u32 \<Rightarrow> u8 \<Rightarrow> u8 \<Rightarrow> (int + u32) io" where
  "espi_flash_read_reg base reg sz =
     ioseq (lowlevel_reg_wr32 (base + ESPI_CMD) (MAKE_ESPI_CORE_CMD reg sz 0 0 0 0))
    (ioseq (espi_flash_wait_done base)
           (lowlevel_reg_rd32 (base + ESPI_DATA)))"

definition espi_flash_cmd_rdsr :: "u32 \<Rightarrow> (int + u8) io" where
  "espi_flash_cmd_rdsr base =
     iobind (espi_flash_read_reg base ESPI_CMD_RDSR 4) (\<lambda>v. ioreturn (ucast v))"

function espi_flash_wait_ready_from :: "u32 \<Rightarrow> nat \<Rightarrow> (int + unit) io" where
  "espi_flash_wait_ready_from base limit =
     iobind (espi_flash_cmd_rdsr base) (\<lambda>status.
       if status AND RDSR_BUSY_BIT \<noteq> RDSR_BUSY_BIT then ioreturn ()
       else ioseq (usleep 1)
         (if Suc limit < WATCHDOG_LIMIT then espi_flash_wait_ready_from base (Suc limit)
          else iofail (- ETIMEDOUT)))"
  by pat_completeness auto
termination
  by (relation "measure (\<lambda>(base, limit). WATCHDOG_LIMIT - limit)") auto

declare espi_flash_wait_ready_from.simps [simp del]

definition espi_flash_wait_ready :: "u32 \<Rightarrow> (int + unit) io" where
  "espi_flash_wait_ready base = espi_flash_wait_ready_from base 0"

section \<open>Identification\<close>

text \<open>
  \<open>_espi_flash_id_to_str\<close> formats a description; the model returns the vendor family it
  recognises with the capacity in Mb, and the code's error for an unknown chip.
\<close>

datatype flash_family = MicronNor33 | MicronNor18 | MacronixMX u8 | AdestoQPI | UnknownFlash u8 u8

definition espi_flash_id_parse :: "u32 \<Rightarrow> int \<times> flash_family \<times> u32" where
  "espi_flash_id_parse flash_id =
    (let manufacture_id = ucast (flash_id AND 0xff) :: u8;
         flash_type = ucast (drop_bit 8 flash_id AND 0xff) :: u8;
         flash_size = ucast (drop_bit 16 flash_id AND 0xff) :: u8;
         cap = push_bit (unat flash_size) 1 :: u32;
         mb = 8 * cap div 1024 div 1024
     in if manufacture_id = 0x20 \<and> (flash_type = 0xBA \<or> flash_type = 0xBB)
          then (0, if flash_type = 0xBA then MicronNor33 else MicronNor18, mb)
        else if manufacture_id = 0xC2 then (0, MacronixMX flash_type, mb)
        else if manufacture_id = 0x1F \<and> flash_type = 0x42 then (0, AdestoQPI, mb)
        else (- ENODATA, UnknownFlash manufacture_id flash_type, mb))"

definition espi_flash_get_id :: "u32 \<Rightarrow> (int + (u32 \<times> int \<times> flash_family \<times> u32)) io" where
  "espi_flash_get_id base =
     iobind (espi_flash_read_reg base ESPI_CMD_RDID_1 4) (\<lambda>flash_id.
       ioreturn (flash_id, espi_flash_id_parse flash_id))"

section \<open>Erase\<close>

definition espi_flash_cmd_wren :: "u32 \<Rightarrow> (int + unit) io" where
  "espi_flash_cmd_wren base =
     lowlevel_reg_wr32 (base + ESPI_CMD) (MAKE_ESPI_CORE_CMD ESPI_CMD_WREN 0 0 0 0 0)"

definition espi_flash_bulk_erase :: "u32 \<Rightarrow> (int + unit) io" where
  "espi_flash_bulk_erase base =
     lowlevel_reg_wr32 (base + ESPI_CMD) (MAKE_ESPI_CORE_CMD ESPI_CMD_BE 0 0 0 0 0)"

definition espi_flash_subsector_erase :: "u32 \<Rightarrow> u32 \<Rightarrow> (int + unit) io" where
  "espi_flash_subsector_erase base addr =
     ioseq (lowlevel_reg_wr32 (base + ESPI_FADDR) addr)
           (lowlevel_reg_wr32 (base + ESPI_CMD) (MAKE_ESPI_CORE_CMD ESPI_CMD_SSE 0 0 0 2 0))"

definition espi_flash_sector_erase :: "u32 \<Rightarrow> u32 \<Rightarrow> (int + unit) io" where
  "espi_flash_sector_erase base addr =
     ioseq (lowlevel_reg_wr32 (base + ESPI_FADDR) addr)
           (lowlevel_reg_wr32 (base + ESPI_CMD) (MAKE_ESPI_CORE_CMD ESPI_CMD_SE 0 0 0 2 0))"

definition subsector_msk :: u32 where "subsector_msk = 0x0fff"
definition sector_msk :: u32 where "sector_msk = 0xffff"

lemma unat_minus_step:
  assumes "m < (sz :: u32)" and "unat k = unat m + 1"
  shows "unat (sz - k) = unat sz - unat k" and "unat k \<le> unat sz"
proof -
  from assms show "unat k \<le> unat sz" by (simp add: word_less_nat_alt)
  then show "unat (sz - k) = unat sz - unat k" by (simp add: unat_sub word_le_nat_alt)
qed

function espi_flash_erase_loop :: "u32 \<Rightarrow> u32 \<Rightarrow> u32 \<Rightarrow> (int + unit) io" where
  "espi_flash_erase_loop base addr sz =
    (if addr = 0 \<and> sz = 0xffffffff then
       ioseq (espi_flash_cmd_wren base)
      (ioseq (espi_flash_bulk_erase base)
             (espi_flash_wait_ready base))
     else if addr AND sector_msk = 0 \<and> sz > sector_msk then
       ioseq (espi_flash_cmd_wren base)
      (ioseq (espi_flash_sector_erase base addr)
      (ioseq (usleep 10000)
      (ioseq (espi_flash_wait_ready base)
             (if sz - (sector_msk + 1) \<noteq> 0
              then espi_flash_erase_loop base (addr + (sector_msk + 1)) (sz - (sector_msk + 1))
              else ioreturn ()))))
     else if addr AND subsector_msk = 0 \<and> sz > subsector_msk then
       ioseq (espi_flash_cmd_wren base)
      (ioseq (espi_flash_subsector_erase base addr)
      (ioseq (usleep 1000)
      (ioseq (espi_flash_wait_ready base)
             (if sz - (subsector_msk + 1) \<noteq> 0
              then espi_flash_erase_loop base (addr + (subsector_msk + 1)) (sz - (subsector_msk + 1))
              else ioreturn ()))))
     else iofail (- EINVAL))"
  by pat_completeness auto
termination
proof (relation "measure (\<lambda>(base, addr, sz). unat sz)", goal_cases)
  case (2 base addr sz)
  then show ?case using unat_minus_step [of sector_msk sz "sector_msk + 1"] by (simp add: sector_msk_def)
next
  case (3 base addr sz)
  then show ?case using unat_minus_step [of subsector_msk sz "subsector_msk + 1"] by (simp add: subsector_msk_def)
qed simp

declare espi_flash_erase_loop.simps [simp del]

definition espi_flash_erase :: "u32 \<Rightarrow> u32 \<Rightarrow> u32 \<Rightarrow> (int + unit) io" where
  "espi_flash_erase base sz flash_off =
    (if sz \<le> subsector_msk then iofail (- EINVAL) else espi_flash_erase_loop base flash_off sz)"

section \<open>Read\<close>

text \<open>
  The caller's buffer is a memory of bytes indexed from the \<open>out\<close> pointer, so that a
  transfer longer than the buffer is visible. \<open>iosz\<close> rounds the block up to words.
\<close>

definition mem_write :: "(nat \<Rightarrow> u8) \<Rightarrow> nat \<Rightarrow> u8 list \<Rightarrow> (nat \<Rightarrow> u8)" where
  "mem_write m p d = (\<lambda>i. if p \<le> i \<and> i < p + length d then d ! (i - p) else m i)"

definition espi_blk :: "u32 \<Rightarrow> u32" where
  "espi_blk sz = (if sz > LOCAL_BLK_LEN then LOCAL_BLK_LEN else sz)"

definition espi_iosz :: "u32 \<Rightarrow> u32" where
  "espi_iosz bsz = ((bsz + 3) div 4) * 4"

definition espi_flash_read_to_local :: "u32 \<Rightarrow> u8 \<Rightarrow> u8 \<Rightarrow> u32 \<Rightarrow> (int + unit) io" where
  "espi_flash_read_to_local base cmd sz flash_addr =
     ioseq (lowlevel_reg_wr32 (base + ESPI_FADDR) flash_addr)
    (ioseq (lowlevel_reg_wr32 (base + ESPI_CMD)
             (MAKE_ESPI_CORE_CMD cmd sz (drop_bit 4 LOCAL_MEM_TOP) 1 2 0))
           (espi_flash_wait_done base))"

lemma espi_blk_le: "espi_blk sz \<le> sz" "espi_blk sz \<le> 128"
  by (auto simp: espi_blk_def LOCAL_BLK_LEN_def)

lemma unat_espi_blk: "unat (espi_blk sz) = min 128 (unat sz)"
  by (auto simp: espi_blk_def LOCAL_BLK_LEN_def word_less_nat_alt)

lemma unat_minus_espi_blk: "unat (sz - espi_blk sz) = unat sz - unat (espi_blk sz)"
  using espi_blk_le(1) by (simp add: unat_sub)

function espi_flash_read_loop ::
  "u32 \<Rightarrow> u32 \<Rightarrow> u32 \<Rightarrow> u32 \<Rightarrow> nat \<Rightarrow> (nat \<Rightarrow> u8) \<Rightarrow> (int + (nat \<Rightarrow> u8)) io" where
  "espi_flash_read_loop base mmap addr sz p mem =
    (if sz > 0 then
       let bsz = espi_blk sz; iosz = espi_iosz bsz
       in ioseq (espi_flash_read_to_local base ESPI_CMD_QCFR_0 (ucast bsz) addr)
         (iobind (lowlevel_ls_op USDR_LSOP_HWREG mmap (unat iosz) []) (\<lambda>d.
            espi_flash_read_loop base mmap (addr + bsz) (sz - bsz) (p + unat bsz) (mem_write mem p d)))
     else ioreturn mem)"
  by pat_completeness auto
termination
  by (relation "measure (\<lambda>(base, mmap, addr, sz, p, mem). unat sz)")
    (auto simp: unat_minus_espi_blk unat_espi_blk word_less_nat_alt)

declare espi_flash_read_loop.simps [simp del]

definition espi_flash_read :: "u32 \<Rightarrow> u32 \<Rightarrow> u32 \<Rightarrow> u32 \<Rightarrow> (nat \<Rightarrow> u8) \<Rightarrow> (int + (nat \<Rightarrow> u8)) io" where
  "espi_flash_read base mmap flash_off sz out = espi_flash_read_loop base mmap flash_off sz 0 out"

section \<open>Write\<close>

definition espi_flash_write_blk :: "u32 \<Rightarrow> u8 \<Rightarrow> u8 \<Rightarrow> u32 \<Rightarrow> (int + unit) io" where
  "espi_flash_write_blk base cmd sz flash_addr =
     ioseq (espi_flash_cmd_wren base)
    (ioseq (lowlevel_reg_wr32 (base + ESPI_FADDR) flash_addr)
    (ioseq (lowlevel_reg_wr32 (base + ESPI_CMD)
             (MAKE_ESPI_CORE_CMD cmd sz (drop_bit 4 LOCAL_MEM_TOP) 1 2 1))
    (ioseq (usleep 1000)
    (ioseq (espi_flash_wait_done base)
           (espi_flash_wait_ready base)))))"

text \<open>
  \<open>inp\<close> is the memory from the \<open>in\<close> pointer on, \<open>p\<close> the distance the pointer has
  advanced. A failing \<open>assert\<close> ends the process; the model ends with a code no transport
  returns. \<open>res0\<close> is the value of the local \<open>res\<close> when the loop is entered.
\<close>


function espi_flash_write_loop ::
  "u32 \<Rightarrow> u32 \<Rightarrow> (nat \<Rightarrow> u8) \<Rightarrow> nat \<Rightarrow> u32 \<Rightarrow> u32 \<Rightarrow> int \<Rightarrow> (int + unit) io" where
  "espi_flash_write_loop base mmap inp p sz addr res =
    (if sz > 0 then
       let bsz = espi_blk sz; iosz = espi_iosz bsz; d = map inp [p..<p + unat iosz]
       in ioseq (lowlevel_ls_op USDR_LSOP_HWREG mmap 0 d)
         (iobind (lowlevel_ls_op USDR_LSOP_HWREG mmap (unat iosz) []) (\<lambda>tmp.
            if tmp \<noteq> d then iofail ASSERT_ABORT
            else ioseq (espi_flash_write_blk base ESPI_CMD_QCPP_0 (ucast bsz) addr)
              (espi_flash_write_loop base mmap inp (p + unat bsz) (sz - bsz) (addr + bsz) 0)))
     else if res = 0 then ioreturn () else iofail res)"
  by pat_completeness auto
termination
  by (relation "measure (\<lambda>(base, mmap, inp, p, sz, addr, res). unat sz)")
    (auto simp: unat_minus_espi_blk unat_espi_blk word_less_nat_alt)

declare espi_flash_write_loop.simps [simp del]

definition espi_flash_write ::
  "u32 \<Rightarrow> u32 \<Rightarrow> (nat \<Rightarrow> u8) \<Rightarrow> u32 \<Rightarrow> u32 \<Rightarrow> u32 \<Rightarrow> int \<Rightarrow> (int + unit) io" where
  "espi_flash_write base mmap inp sz flash_off flags res0 =
    (let erase = (flags AND ESPI_FLASH_DONT_ERASE \<noteq> ESPI_FLASH_DONT_ERASE);
         skip = (flags AND ESPI_FLASH_DONT_WRITE_HEADER = ESPI_FLASH_DONT_WRITE_HEADER)
     in ioseq (if erase then espi_flash_erase base sz flash_off else ioreturn ())
          (espi_flash_write_loop base mmap inp (if skip then 256 else 0)
             (if skip then sz - 256 else sz) (if skip then flash_off + 256 else flash_off)
             (if erase then 0 else res0)))"

section \<open>The flash protocol as an observer\<close>

text \<open>
  What a NOR flash behind the core sees: the address register, the local memory, the write
  enable latch (set by \<open>WREN\<close>, consumed by the next erase or program), the regions erased and
  the blocks programmed. An erase or program without the latch is ignored by the chip and
  counted as \<open>nor_bad\<close>.
\<close>

record nor =
  nor_addr :: u32
  nor_ram :: "u8 list"
  nor_wel :: bool
  nor_erased :: "(nat \<times> nat) list"
  nor_progs :: "(nat \<times> u8 list) list"
  nor_reads :: "(nat \<times> nat) list"
  nor_bad :: nat

definition nor_cmd :: "u8 \<Rightarrow> nat \<Rightarrow> nor \<Rightarrow> nor" where
  "nor_cmd c n s =
    (if c = ESPI_CMD_WREN then s\<lparr>nor_wel := True\<rparr>
     else if c = ESPI_CMD_SE \<or> c = ESPI_CMD_SSE \<or> c = ESPI_CMD_BE \<or> c = ESPI_CMD_QCPP_0 then
       if \<not> nor_wel s then s\<lparr>nor_bad := nor_bad s + 1\<rparr>
       else if c = ESPI_CMD_SE then
         s\<lparr>nor_wel := False, nor_erased := nor_erased s @ [(unat (nor_addr s), 0x10000)]\<rparr>
       else if c = ESPI_CMD_SSE then
         s\<lparr>nor_wel := False, nor_erased := nor_erased s @ [(unat (nor_addr s), 0x1000)]\<rparr>
       else if c = ESPI_CMD_BE then
         s\<lparr>nor_wel := False, nor_erased := nor_erased s @ [(0, 0xffffffff)]\<rparr>
       else s\<lparr>nor_wel := False, nor_progs := nor_progs s @ [(unat (nor_addr s), take n (nor_ram s))]\<rparr>
     else if c = ESPI_CMD_QCFR_0 then s\<lparr>nor_reads := nor_reads s @ [(unat (nor_addr s), n)]\<rparr>
     else s)"

definition nor_step :: "u32 \<Rightarrow> u32 \<Rightarrow> event \<Rightarrow> nor \<Rightarrow> nor" where
  "nor_step base mmap ev s = (case ev of USleep _ \<Rightarrow> s
   | LsOp r \<Rightarrow>
      if rq_op r = USDR_LSOP_HWREG \<and> rq_insz r = 0 then
        if rq_addr r = mmap then s\<lparr>nor_ram := rq_out r\<rparr>
        else let w = of_le_bytes (rq_out r) :: u32 in
          if rq_addr r = base + ESPI_FADDR then s\<lparr>nor_addr := w\<rparr>
          else if rq_addr r = base + ESPI_CMD then
            nor_cmd (ucast (drop_bit 24 w)) (unat (drop_bit 16 w AND 0xff)) s
          else s
      else s)"

lemma make_cmd_fields [simp]:
  "ucast (drop_bit 24 (MAKE_ESPI_CORE_CMD c sz la lbe ab wb)) = c"
  "drop_bit 16 (MAKE_ESPI_CORE_CMD c sz la lbe ab wb) AND 0xff = ucast sz"
  by (intro bit_word_eqI; auto simp: MAKE_ESPI_CORE_CMD_def bit_simps bitfield dest: bit_imp_le_length)+

lemma nor_step_simps [simp]:
  "nor_step base mmap (USleep n) s = s"
  "nor_step base mmap (ev_rd32 a) s = s"
  "mmap \<noteq> a \<Longrightarrow> a = base + ESPI_FADDR \<Longrightarrow> nor_step base mmap (ev_wr32 a w) s = s\<lparr>nor_addr := w\<rparr>"
  "mmap \<noteq> a \<Longrightarrow> a = base + ESPI_CMD \<Longrightarrow>
    nor_step base mmap (ev_wr32 a (MAKE_ESPI_CORE_CMD c sz la lbe ab wb)) s = nor_cmd c (unat sz) s"
  by (auto simp: nor_step_def of_le_bytes_le_bytes espi_core_regs)

text \<open>Polling leaves the chip as it is.\<close>

lemma quiet_wait_done: "quiet (nor_step base mmap) (espi_flash_wait_done_from base limit)"
proof (induction base limit rule: espi_flash_wait_done_from.induct)
  case (1 base limit)
  then show ?case
    by (subst espi_flash_wait_done_from.simps)
      (auto intro!: quiet_iobind quiet_ioseq quiet_if quiet_rd32 quiet_usleep quiet_fail quiet_return)
qed

lemma quiet_rdsr:
  "mmap \<noteq> base + ESPI_CMD \<Longrightarrow> quiet (nor_step base mmap) (espi_flash_cmd_rdsr base)"
  unfolding espi_flash_cmd_rdsr_def espi_flash_read_reg_def espi_flash_wait_done_def
  by (intro quiet_intros quiet_wr32 quiet_rd32 quiet_wait_done) (auto simp: nor_cmd_def jedec_cmds)

lemma quiet_wait_ready:
  assumes "mmap \<noteq> base + ESPI_CMD"
  shows "quiet (nor_step base mmap) (espi_flash_wait_ready_from base limit)"
  using assms
proof (induction base limit rule: espi_flash_wait_ready_from.induct)
  case (1 base limit)
  then show ?case
    by (subst espi_flash_wait_ready_from.simps)
      (auto intro!: quiet_iobind quiet_ioseq quiet_if quiet_rdsr quiet_usleep quiet_fail quiet_return)
qed

text \<open>A command that needs the write enable latch, with the latch set just before.\<close>

lemma ensures_wren:
  "mmap \<noteq> base + ESPI_CMD \<Longrightarrow>
   ensures (nor_step base mmap) (\<lambda>_ s s'. s' = s\<lparr>nor_wel := True\<rparr>) (espi_flash_cmd_wren base)"
  unfolding espi_flash_cmd_wren_def by (rule ensures_wr32) (simp add: nor_cmd_def)

abbreviation erased_more :: "(nat \<times> nat) list \<Rightarrow> nor \<Rightarrow> nor \<Rightarrow> bool" where
  "erased_more rs s s' \<equiv> nor_bad s' = nor_bad s \<and> nor_progs s' = nor_progs s \<and>
     nor_ram s' = nor_ram s \<and> nor_erased s' = nor_erased s @ rs"

lemma ensures_addr_cmd:
  "mmap \<noteq> base + ESPI_CMD \<Longrightarrow> mmap \<noteq> base + ESPI_FADDR \<Longrightarrow>
   ensures (nor_step base mmap) (\<lambda>_ s s'. s' = nor_cmd c (unat n) (s\<lparr>nor_addr := addr\<rparr>))
     (ioseq (lowlevel_reg_wr32 (base + ESPI_FADDR) addr)
       (lowlevel_reg_wr32 (base + ESPI_CMD) (MAKE_ESPI_CORE_CMD c n la lbe ab wb)))"
  by (rule ensures_ioseq [where R = "\<lambda>_ s s'. s' = s\<lparr>nor_addr := addr\<rparr>"
        and S = "\<lambda>_ s s'. s' = nor_cmd c (unat n) s"])
    (auto intro!: ensures_wr32)

lemma ensures_sector_erase:
  assumes "mmap \<noteq> base + ESPI_CMD" and "mmap \<noteq> base + ESPI_FADDR"
  shows "ensures (nor_step base mmap) (\<lambda>_ s s'. nor_wel s \<longrightarrow> erased_more [(unat addr, 0x10000)] s s')
      (espi_flash_sector_erase base addr)"
    and "ensures (nor_step base mmap) (\<lambda>_ s s'. nor_wel s \<longrightarrow> erased_more [(unat addr, 0x1000)] s s')
      (espi_flash_subsector_erase base addr)"
    and "ensures (nor_step base mmap) (\<lambda>_ s s'. nor_wel s \<longrightarrow> erased_more [(0, 0xffffffff)] s s')
      (espi_flash_bulk_erase base)"
  unfolding espi_flash_sector_erase_def espi_flash_subsector_erase_def espi_flash_bulk_erase_def
  using assms
  by (auto intro!: ensures_mono [OF ensures_addr_cmd] ensures_wr32 simp: nor_cmd_def jedec_cmds)

text \<open>One round of the erase loop: enable, erase, wait; then the rest.\<close>

lemma ensures_erase_round:
  assumes ne: "mmap \<noteq> base + ESPI_CMD"
    and er: "ensures (nor_step base mmap) (\<lambda>_ s s'. nor_wel s \<longrightarrow> erased_more [r] s s') er"
    and rest: "ensures (nor_step base mmap) (\<lambda>_ s s'. \<exists>rs. P rs \<and> erased_more rs s s') rest"
  shows "ensures (nor_step base mmap) (\<lambda>_ s s'. \<exists>rs. P rs \<and> erased_more (r # rs) s s')
    (ioseq (espi_flash_cmd_wren base) (ioseq er (ioseq (usleep n)
      (ioseq (espi_flash_wait_ready base) rest))))"
proof -
  have tail: "ensures (nor_step base mmap) (\<lambda>_ s s'. \<exists>rs. P rs \<and> erased_more rs s s')
      (ioseq (usleep n) (ioseq (espi_flash_wait_ready base) rest))"
    using quiet_wait_ready [OF ne, of 0] rest
    by (intro ensures_ioseq [where R = "\<lambda>_ s s'. s' = s"
          and S = "\<lambda>_ s s'. \<exists>rs. P rs \<and> erased_more rs s s'"])
      (auto simp: quiet_def espi_flash_wait_ready_def intro!: ensures_usleep)
  show ?thesis
    by (rule ensures_ioseq [OF ensures_wren [OF ne] ensures_ioseq [OF er tail
          , where T = "\<lambda>_ s s'. nor_wel s \<longrightarrow> (\<exists>rs. P rs \<and> erased_more (r # rs) s s')"]]) auto
qed

lemma ensures_erased_last:
  assumes ne: "mmap \<noteq> base + ESPI_CMD"
    and er: "ensures (nor_step base mmap) (\<lambda>_ s s'. nor_wel s \<longrightarrow> erased_more [r] s s') er"
  shows "ensures (nor_step base mmap) (\<lambda>_ s s'. erased_more [r] s s')
    (ioseq (espi_flash_cmd_wren base) (ioseq er (espi_flash_wait_ready base)))"
proof -
  have "ensures (nor_step base mmap) (\<lambda>_ s s'. nor_wel s \<longrightarrow> erased_more [r] s s')
      (ioseq er (espi_flash_wait_ready base))"
    using quiet_wait_ready [OF ne, of 0]
    by (intro ensures_ioseq [OF er, where S = "\<lambda>_ s s'. s' = s"])
      (auto simp: quiet_def espi_flash_wait_ready_def)
  then show ?thesis by (rule ensures_ioseq [OF ensures_wren [OF ne]]) auto
qed

lemma ensures_erase_loop:
  assumes "mmap \<noteq> base + ESPI_CMD" and "mmap \<noteq> base + ESPI_FADDR"
    and "unat addr + unat sz \<le> 2 ^ 32"
  shows "ensures (nor_step base mmap)
    (\<lambda>_ s s'. \<exists>rs. tiles (unat addr) (unat addr + unat sz) rs \<and> erased_more rs s s')
    (espi_flash_erase_loop base addr sz)"
  using assms
proof (induction base addr sz rule: espi_flash_erase_loop.induct)
  case (1 base addr sz)
  let ?I = "\<lambda>a b. ensures (nor_step base mmap) (\<lambda>_ s s'. \<exists>rs. tiles a b rs \<and> erased_more rs s s')"
  let ?b = "unat addr + unat sz"
  note ne = 1(3,4)
  have tail: "?I (unat addr + unat k) ?b
      (if sz - k \<noteq> 0 then espi_flash_erase_loop base (addr + k) (sz - k) else ioreturn ())"
    if k: "m < sz" "unat k = unat m + 1"
      and IH: "sz - k \<noteq> 0 \<Longrightarrow> unat (addr + k) + unat (sz - k) \<le> 2 ^ 32 \<Longrightarrow>
        ?I (unat (addr + k)) (unat (addr + k) + unat (sz - k)) (espi_flash_erase_loop base (addr + k) (sz - k))"
    for k m
  proof (cases "sz - k = 0")
    case True
    with k show ?thesis by (auto intro!: ensures_return simp: word_less_nat_alt)
  next
    case False
    have le: "unat (sz - k) = unat sz - unat k" "unat k \<le> unat sz"
      using unat_minus_step [OF k] by auto
    with False have "unat k < unat sz" by (metis diff_is_0_eq' eq_iff_diff_eq_0 le_neq_implies_less unat_eq_zero)
    with 1(5) have "unat (addr + k) = unat addr + unat k" by (simp add: unat_add_lem [THEN iffD1])
    with False IH le 1(5) show ?thesis by simp
  qed
  have cons: "?I (unat addr) ?b (ioseq (espi_flash_cmd_wren base) (ioseq er (ioseq (usleep n)
      (ioseq (espi_flash_wait_ready base) rest))))"
    if "ensures (nor_step base mmap) (\<lambda>_ s s'. nor_wel s \<longrightarrow> erased_more [(unat addr, k)] s s') er"
      and "?I (unat addr + k) ?b rest" and "0 < k" for er rest n k
    using that(3)
    by (rule_tac ensures_mono [OF ensures_erase_round [OF ne(1) that(1,2)]]) force
  show ?case
  proof (cases "addr = 0 \<and> sz = 0xffffffff")
    case True
    then show ?thesis
      by (subst espi_flash_erase_loop.simps)
        (auto intro!: ensures_mono [OF ensures_erased_last [OF ne(1) ensures_sector_erase(3) [OF ne]]]
          exI [of _ "[(0, 0xffffffff)]"])
  next
    case not_full: False
    show ?thesis
    proof (cases "addr AND sector_msk = 0 \<and> sz > sector_msk")
      case True
      have k: "unat (sector_msk + 1) = 0x10000" by (simp add: sector_msk_def)
      show ?thesis
        using cons [OF ensures_sector_erase(1) [OF ne] tail [of sector_msk "sector_msk + 1", unfolded k]]
          1(1) [OF not_full True] True ne
        by (subst espi_flash_erase_loop.simps) (simp only: not_full True if_False if_True, simp add: sector_msk_def)
    next
      case not_sector: False
      show ?thesis
      proof (cases "addr AND subsector_msk = 0 \<and> sz > subsector_msk")
        case True
        have k: "unat (subsector_msk + 1) = 0x1000" by (simp add: subsector_msk_def)
        show ?thesis
          using cons [OF ensures_sector_erase(2) [OF ne] tail [of subsector_msk "subsector_msk + 1", unfolded k]]
            1(2) [OF not_full not_sector True] True ne
          by (subst espi_flash_erase_loop.simps)
            (simp only: not_full not_sector True if_False if_True, simp add: subsector_msk_def)
      next
        case False
        then show ?thesis
          by (subst espi_flash_erase_loop.simps)
            (simp only: not_full not_sector False if_False ensures_fail)
      qed
    qed
  qed
qed

section \<open>Programming\<close>

lemma unat_espi_iosz: "unat (espi_iosz (espi_blk sz)) = ((min 128 (unat sz) + 3) div 4) * 4"
proof -
  let ?b = "espi_blk sz"
  have b: "unat ?b \<le> 128" by (simp add: unat_espi_blk)
  then have "unat (?b + 3) = unat ?b + 3" by (simp add: unat_word_ariths)
  then have "unat ((?b + 3) div 4) = (unat ?b + 3) div 4" by (simp add: unat_div)
  with b have "unat (espi_iosz ?b) = ((unat ?b + 3) div 4) * 4"
    by (simp add: espi_iosz_def unat_word_ariths)
  then show ?thesis by (simp add: unat_espi_blk)
qed

abbreviation progd_more :: "(nat \<times> u8 list) list \<Rightarrow> nor \<Rightarrow> nor \<Rightarrow> bool" where
  "progd_more ps s s' \<equiv> nor_bad s' = nor_bad s \<and> nor_erased s' = nor_erased s \<and>
     nor_progs s' = nor_progs s @ ps"

lemma ensures_write_blk:
  assumes ne: "mmap \<noteq> base + ESPI_CMD" "mmap \<noteq> base + ESPI_FADDR"
  shows "ensures (nor_step base mmap)
    (\<lambda>_ s s'. progd_more [(unat addr, take (unat n) (nor_ram s))] s s')
    (espi_flash_write_blk base ESPI_CMD_QCPP_0 n addr)"
proof -
  have q: "quiet (nor_step base mmap)
      (ioseq (usleep 1000) (ioseq (espi_flash_wait_done base) (espi_flash_wait_ready base)))"
    unfolding espi_flash_wait_done_def espi_flash_wait_ready_def
    using ne by (intro quiet_intros quiet_wait_done quiet_wait_ready quiet_usleep) auto
  have assoc: "ioseq (ioseq a b) c = ioseq a (ioseq b c)" for a b c :: "(int + unit) io"
    by (auto simp: ioseq_def iobind_def fun_eq_iff split: prod.splits sum.splits)
  show ?thesis
    unfolding espi_flash_write_blk_def assoc [symmetric]
    unfolding assoc
    by (rule ensures_ioseq [OF ensures_wren [OF ne(1)]
        ensures_ioseq [OF ensures_addr_cmd [OF ne] q [unfolded quiet_def],
          unfolded assoc, where T = "\<lambda>_ s s'. s' = nor_cmd ESPI_CMD_QCPP_0 (unat n) (s\<lparr>nor_addr := addr\<rparr>)"]])
      (auto simp: nor_cmd_def jedec_cmds)
qed

definition prog_blocks :: "nat \<Rightarrow> nat \<Rightarrow> u8 list \<Rightarrow> (nat \<times> u8 list) list \<Rightarrow> bool" where
  "prog_blocks a b d ps \<longleftrightarrow> tiles a b (map (\<lambda>(x, d). (x, length d)) ps) \<and>
     concat (map snd ps) = d \<and> (\<forall>(x, d) \<in> set ps. length d \<le> 128)"

lemma ensures_write_loop:
  assumes "mmap \<noteq> base + ESPI_CMD" and "mmap \<noteq> base + ESPI_FADDR"
    and "unat addr + unat sz \<le> 2 ^ 32"
  shows "ensures (nor_step base mmap)
    (\<lambda>_ s s'. \<exists>ps. prog_blocks (unat addr) (unat addr + unat sz) (map inp [p..<p + unat sz]) ps
        \<and> progd_more ps s s')
    (espi_flash_write_loop base mmap inp p sz addr res)"
  using assms
proof (induction base mmap inp p sz addr res rule: espi_flash_write_loop.induct)
  case (1 base mmap inp p sz addr res)
  note ne = 1(2,3)
  show ?case
  proof (cases "sz > 0")
    case False
    then have "sz = 0" by (simp add: word_gt_0)
    then show ?thesis
      by (subst espi_flash_write_loop.simps)
        (auto intro!: ensures_return ensures_fail exI [of _ "[]"] simp: prog_blocks_def)
  next
    case True
    define bsz where "bsz = espi_blk sz"
    define iosz where "iosz = espi_iosz bsz"
    define d where "d = map inp [p..<p + unat iosz]"
    have b: "unat bsz = min 128 (unat sz)" "0 < unat bsz"
      using True by (auto simp: bsz_def unat_espi_blk word_less_nat_alt)
    have io: "unat bsz \<le> unat iosz" "0 < unat iosz"
      using b by (auto simp: iosz_def bsz_def unat_espi_iosz)
    have rest_sz: "unat (sz - bsz) = unat sz - unat bsz"
      unfolding bsz_def by (rule unat_minus_espi_blk)
    let ?I = "\<lambda>a l d. ensures (nor_step base mmap)
      (\<lambda>_ s s'. \<exists>ps. prog_blocks a (a + l) d ps \<and> progd_more ps s s')"
    have IH: "?I (unat addr + unat bsz) (unat sz - unat bsz) (map inp [p + unat bsz..<p + unat sz])
      (espi_flash_write_loop base mmap inp (p + unat bsz) (sz - bsz) (addr + bsz) 0)"
    proof (cases "sz - bsz = 0")
      case True
      then have u: "unat sz = unat bsz" by simp
      have "?I (unat addr + unat bsz) 0 [] (espi_flash_write_loop base mmap inp (p + unat bsz) 0 (addr + bsz) 0)"
        by (subst espi_flash_write_loop.simps)
          (auto intro!: ensures_return exI [of _ "[]"] simp: prog_blocks_def)
      then show ?thesis unfolding True by (simp add: u)
    next
      case False
      with rest_sz b have "unat bsz < unat sz" by (metis diff_is_0_eq' not_less unat_eq_zero)
      with 1(4) have "unat (addr + bsz) = unat addr + unat bsz" by (simp add: unat_add_lem [THEN iffD1])
      with 1(1) [OF True bsz_def iosz_def d_def] ne rest_sz 1(4) \<open>unat bsz < unat sz\<close>
      show ?thesis by simp
    qed
    have blk: "ensures (nor_step base mmap)
      (\<lambda>_ s s'. nor_ram s = d \<longrightarrow> (\<exists>ps. prog_blocks (unat addr) (unat addr + unat sz) (map inp [p..<p + unat sz]) ps
        \<and> progd_more ps s s'))
      (ioseq (espi_flash_write_blk base ESPI_CMD_QCPP_0 (ucast bsz) addr)
        (espi_flash_write_loop base mmap inp (p + unat bsz) (sz - bsz) (addr + bsz) 0))"
    proof (rule ensures_ioseq [OF ensures_write_blk [OF ne] IH], intro impI, elim exE conjE)
      fix s s' s'' :: nor and ps
      let ?blk = "map inp [p..<p + unat bsz]"
      assume ram: "nor_ram s = d" and s': "nor_bad s' = nor_bad s" "nor_erased s' = nor_erased s"
        "nor_progs s' = nor_progs s @ [(unat addr, take (unat (ucast bsz :: u8)) (nor_ram s))]"
        and ps: "prog_blocks (unat addr + unat bsz) (unat addr + unat bsz + (unat sz - unat bsz))
          (map inp [p + unat bsz..<p + unat sz]) ps"
        and s'': "nor_bad s'' = nor_bad s'" "nor_erased s'' = nor_erased s'" "nor_progs s'' = nor_progs s' @ ps"
      have "unat (ucast bsz :: u8) = unat bsz"
        using b by (simp add: unsigned_ucast_eq take_bit_nat_eq_self)
      with io have blk: "take (unat (ucast bsz :: u8)) d = ?blk"
        by (simp add: d_def take_map min_def)
      have "map inp [p..<p + unat sz] = ?blk @ map inp [p + unat bsz..<p + unat sz]"
        using upt_add_eq_append [of p "p + unat bsz" "unat sz - unat bsz"] b by simp
      then have "prog_blocks (unat addr) (unat addr + unat sz) (map inp [p..<p + unat sz]) ((unat addr, ?blk) # ps)"
        using ps b by (auto simp: prog_blocks_def)
      then show "\<exists>ps. prog_blocks (unat addr) (unat addr + unat sz) (map inp [p..<p + unat sz]) ps \<and> progd_more ps s s''"
        using s' s'' ram blk by (intro exI [of _ "(unat addr, ?blk) # ps"]) simp
    qed
    let ?Q = "\<lambda>_ s s'. nor_ram s = d \<longrightarrow> (\<exists>ps. prog_blocks (unat addr) (unat addr + unat sz)
      (map inp [p..<p + unat sz]) ps \<and> progd_more ps s s')"
    have rd: "ensures (nor_step base mmap) (\<lambda>_ s s'. s' = s)
        (lowlevel_ls_op USDR_LSOP_HWREG mmap (unat iosz) [])"
      using io by (auto intro!: ensures_ls_op simp: nor_step_def)
    have wr: "ensures (nor_step base mmap) (\<lambda>_ s s'. s' = s\<lparr>nor_ram := d\<rparr>)
        (lowlevel_ls_op USDR_LSOP_HWREG mmap 0 d)"
      by (auto intro!: ensures_ls_op simp: nor_step_def)
    show ?thesis
      by (subst espi_flash_write_loop.simps,
          simp only: Let_def if_True True bsz_def [symmetric] iosz_def [symmetric] d_def [symmetric])
        (rule ensures_ioseq [OF wr ensures_iobind [OF rd, where S = "\<lambda>_. ?Q" and T = ?Q]],
          use blk in \<open>auto simp: ensures_fail\<close>)
  qed
qed

section \<open>Reading\<close>

lemma mem_write_outside: "i < p \<or> p + length d \<le> i \<Longrightarrow> mem_write m p d i = m i"
  by (auto simp: mem_write_def)

lemma ensures_read_to_local:
  assumes "mmap \<noteq> base + ESPI_CMD" and "mmap \<noteq> base + ESPI_FADDR"
  shows "ensures (nor_step base mmap)
    (\<lambda>_ s s'. nor_reads s' = nor_reads s @ [(unat addr, unat n)] \<and> nor_bad s' = nor_bad s \<and>
       nor_erased s' = nor_erased s \<and> nor_progs s' = nor_progs s)
    (espi_flash_read_to_local base ESPI_CMD_QCFR_0 n addr)"
proof -
  have assoc: "ioseq a (ioseq b c) = ioseq (ioseq a b) c" for a b c :: "(int + unit) io"
    by (auto simp: ioseq_def iobind_def fun_eq_iff split: prod.splits sum.splits)
  show ?thesis
    unfolding espi_flash_read_to_local_def assoc espi_flash_wait_done_def
    by (rule ensures_ioseq [OF ensures_addr_cmd [OF assms] quiet_wait_done [unfolded quiet_def]])
      (simp add: nor_cmd_def jedec_cmds)
qed

definition round4 :: "nat \<Rightarrow> nat" where
  "round4 n = ((n + 3) div 4) * 4"

abbreviation read_more :: "(nat \<times> nat) list \<Rightarrow> nor \<Rightarrow> nor \<Rightarrow> bool" where
  "read_more rs s s' \<equiv> nor_bad s' = nor_bad s \<and> nor_erased s' = nor_erased s \<and>
     nor_progs s' = nor_progs s \<and> nor_reads s' = nor_reads s @ rs"

lemma ensures_read_loop:
  assumes "mmap \<noteq> base + ESPI_CMD" and "mmap \<noteq> base + ESPI_FADDR"
    and "unat addr + unat sz < 2 ^ 32"
  shows "ensures (nor_step base mmap)
    (\<lambda>m s s'. (\<forall>i. i < p \<or> p + round4 (unat sz) \<le> i \<longrightarrow> m i = mem i) \<and>
       (\<exists>rs. tiles (unat addr) (unat addr + unat sz) rs \<and> read_more rs s s'))
    (espi_flash_read_loop base mmap addr sz p mem)"
  using assms
proof (induction base mmap addr sz p mem rule: espi_flash_read_loop.induct)
  case (1 base mmap addr sz p mem)
  note ne = 1(2,3)
  show ?case
  proof (cases "sz > 0")
    case False
    then have "sz = 0" by (simp add: word_gt_0)
    then show ?thesis
      by (subst espi_flash_read_loop.simps)
        (auto intro!: ensures_return exI [of _ "[]"])
  next
    case True
    define bsz where "bsz = espi_blk sz"
    define iosz where "iosz = espi_iosz bsz"
    have b: "unat bsz = min 128 (unat sz)" "0 < unat bsz"
      using True by (auto simp: bsz_def unat_espi_blk word_less_nat_alt)
    have io: "unat iosz = round4 (unat bsz)"
      by (simp add: iosz_def bsz_def unat_espi_iosz unat_espi_blk round4_def)
    have rest_sz: "unat (sz - bsz) = unat sz - unat bsz"
      unfolding bsz_def by (rule unat_minus_espi_blk)
    have addr: "unat (addr + bsz) = unat addr + unat bsz"
      using 1(4) b by (simp add: unat_add_lem [THEN iffD1])
    have r4: "unat bsz + round4 (unat sz - unat bsz) \<le> round4 (unat sz)"
      "round4 (unat bsz) \<le> round4 (unat sz)"
      unfolding b(1) round4_def by (cases "unat sz \<le> 128"; simp; presburger)+
    have IH: "ensures (nor_step base mmap)
      (\<lambda>m s s'. (\<forall>i. i < p + unat bsz \<or> p + unat bsz + round4 (unat sz - unat bsz) \<le> i
           \<longrightarrow> m i = mem_write mem p d i) \<and>
         (\<exists>rs. tiles (unat addr + unat bsz) (unat addr + unat sz) rs \<and> read_more rs s s'))
      (espi_flash_read_loop base mmap (addr + bsz) (sz - bsz) (p + unat bsz) (mem_write mem p d))" for d
      using 1(1) [OF True bsz_def iosz_def ne] 1(4) b rest_sz addr by simp
    have rd: "ensures (nor_step base mmap) (\<lambda>d s s'. s' = s \<and> length d = unat iosz)
        (lowlevel_ls_op USDR_LSOP_HWREG mmap (unat iosz) [])"
      using io b by (auto intro!: ensures_ls_op simp: nor_step_def round4_def)
    have blk: "ensures (nor_step base mmap)
      (\<lambda>m s s'. (\<forall>i. i < p \<or> p + round4 (unat sz) \<le> i \<longrightarrow> m i = mem i) \<and>
         (\<exists>rs. tiles (unat addr + unat bsz) (unat addr + unat sz) rs \<and> read_more rs s s'))
      (iobind (lowlevel_ls_op USDR_LSOP_HWREG mmap (unat iosz) [])
        (\<lambda>d. espi_flash_read_loop base mmap (addr + bsz) (sz - bsz) (p + unat bsz) (mem_write mem p d)))"
      by (rule ensures_iobind [OF rd IH]) (use io r4 in \<open>auto simp: mem_write_outside\<close>)
    show ?thesis
      by (subst espi_flash_read_loop.simps,
          simp only: Let_def if_True True bsz_def [symmetric] iosz_def [symmetric])
        (rule ensures_ioseq [OF ensures_read_to_local [OF ne] blk],
          use b in \<open>auto simp: unsigned_ucast_eq take_bit_nat_eq_self\<close>)
  qed
qed

section \<open>The contract of the entry points\<close>

lemma fail_stop_wait_done [fail_stop_intros]:
  "- ETIMEDOUT \<in> C \<Longrightarrow> fail_stop C (espi_flash_wait_done_from base limit)"
proof (induction base limit rule: espi_flash_wait_done_from.induct)
  case (1 base limit)
  then show ?case
    by (subst espi_flash_wait_done_from.simps) (auto intro!: fail_stop_intros)
qed

lemma fail_stop_rdsr [fail_stop_intros]: "- ETIMEDOUT \<in> C \<Longrightarrow> fail_stop C (espi_flash_cmd_rdsr base)"
  unfolding espi_flash_cmd_rdsr_def espi_flash_read_reg_def espi_flash_wait_done_def
  by (intro fail_stop_intros)

lemma fail_stop_wait_ready [fail_stop_intros]:
  "- ETIMEDOUT \<in> C \<Longrightarrow> fail_stop C (espi_flash_wait_ready_from base limit)"
proof (induction base limit rule: espi_flash_wait_ready_from.induct)
  case (1 base limit)
  then show ?case
    by (subst espi_flash_wait_ready_from.simps) (auto intro!: fail_stop_intros)
qed

lemmas espi_cmd_defs = espi_flash_cmd_wren_def espi_flash_bulk_erase_def espi_flash_sector_erase_def
  espi_flash_subsector_erase_def espi_flash_wait_ready_def espi_flash_wait_done_def

lemma fail_stop_erase [fail_stop_intros]:
  "- ETIMEDOUT \<in> C \<Longrightarrow> - EINVAL \<in> C \<Longrightarrow> fail_stop C (espi_flash_erase_loop base addr sz)"
proof (induction base addr sz rule: espi_flash_erase_loop.induct)
  case (1 base addr sz)
  then show ?case
    by (subst espi_flash_erase_loop.simps)
      (auto intro!: fail_stop_intros simp: espi_cmd_defs)
qed

lemma fail_stop_write [fail_stop_intros]:
  "- ETIMEDOUT \<in> C \<Longrightarrow> ASSERT_ABORT \<in> C \<Longrightarrow> res = 0 \<or> res \<in> C \<Longrightarrow>
   fail_stop C (espi_flash_write_loop base mmap inp p sz addr res)"
proof (induction base mmap inp p sz addr res rule: espi_flash_write_loop.induct)
  case (1 base mmap inp p sz addr res)
  then show ?case
    by (subst espi_flash_write_loop.simps)
      (auto intro!: fail_stop_intros simp: espi_cmd_defs espi_flash_write_blk_def Let_def)
qed

lemma fail_stop_read [fail_stop_intros]:
  "- ETIMEDOUT \<in> C \<Longrightarrow> fail_stop C (espi_flash_read_loop base mmap addr sz p mem)"
proof (induction base mmap addr sz p mem rule: espi_flash_read_loop.induct)
  case (1 base mmap addr sz p mem)
  then show ?case
    by (subst espi_flash_read_loop.simps)
      (auto intro!: fail_stop_intros simp: espi_flash_read_to_local_def espi_cmd_defs Let_def)
qed

interpretation flash_erase: checked_io "{- EINVAL, - ETIMEDOUT}" "espi_flash_erase base sz off"
  for base sz off
  by unfold_locales (auto simp: espi_flash_erase_def intro!: fail_stop_intros)

interpretation flash_read: checked_io "{- ETIMEDOUT}" "espi_flash_read base mmap off sz out"
  for base mmap off sz out
  by unfold_locales (auto simp: espi_flash_read_def intro!: fail_stop_intros)

lemma fail_stop_flash_write:
  "fail_stop {- EINVAL, - ETIMEDOUT, ASSERT_ABORT, res0}
     (espi_flash_write base mmap inp sz off flags res0)"
  unfolding espi_flash_write_def espi_flash_erase_def Let_def
  by (intro fail_stop_ioseq fail_stop_if fail_stop_erase fail_stop_write fail_stop_fail fail_stop_return)
    simp_all

interpretation flash_write: checked_io "{- EINVAL, - ETIMEDOUT, ASSERT_ABORT, res0}"
  "espi_flash_write base mmap inp sz off flags res0" for base mmap inp sz off flags res0
  by unfold_locales (rule fail_stop_flash_write)

section \<open>An idle chip\<close>

lemma wait_done_idle [simp]:
  "limit \<le> 1000000 \<Longrightarrow> espi_flash_wait_done_from base limit accept_all tr =
     (Inr (), tr @ [ev_rd32 (base + ESPI_STAT), USleep 1])"
  by (subst espi_flash_wait_done_from.simps) simp

definition rdsr_events :: "u32 \<Rightarrow> event list" where
  "rdsr_events base =
     [ev_wr32 (base + ESPI_CMD) (MAKE_ESPI_CORE_CMD ESPI_CMD_RDSR 4 0 0 0 0),
      ev_rd32 (base + ESPI_STAT), USleep 1, ev_rd32 (base + ESPI_DATA)]"

lemma rdsr_idle [simp]:
  "espi_flash_cmd_rdsr base accept_all tr = (Inr 0, tr @ rdsr_events base)"
  by (simp add: espi_flash_cmd_rdsr_def espi_flash_read_reg_def espi_flash_wait_done_def rdsr_events_def)

lemma wait_ready_idle [simp]:
  "espi_flash_wait_ready_from base limit accept_all tr = (Inr (), tr @ rdsr_events base)"
  by (subst espi_flash_wait_ready_from.simps) (simp add: RDSR_BUSY_BIT_def)

text \<open>A range the erase accepts: the whole chip, or whole subsectors.\<close>

definition erasable :: "u32 \<Rightarrow> u32 \<Rightarrow> bool" where
  "erasable off sz \<longleftrightarrow> off = 0 \<and> sz = 0xffffffff \<or>
     sz \<noteq> 0 \<and> off AND subsector_msk = 0 \<and> sz AND subsector_msk = 0"

lemma and_subsector_msk: "w AND subsector_msk = 0 \<longleftrightarrow> unat w mod 0x1000 = 0"
proof -
  have "w AND subsector_msk = take_bit 12 w"
    by (simp add: subsector_msk_def flip: and_mask_take_bit) (simp add: mask_eq_exp_minus_1)
  then show ?thesis by (simp add: unat_eq_0 [symmetric] unsigned_take_bit_eq take_bit_nat_def del: unsigned_eq_0_iff)
qed

lemma erasable_step:
  assumes "m < sz" and k: "unat k = unat m + 1" and "unat k mod 0x1000 = 0"
    and "sz - k \<noteq> 0" and nf: "\<not> (addr = 0 \<and> sz = 0xffffffff)"
  shows "erasable (addr + k) (sz - k) \<longleftrightarrow> erasable addr sz"
proof -
  note s = unat_minus_step [OF assms(1,2)]
  obtain q where q: "unat k = 0x1000 * q" using assms(3) by fastforce
  have "unat (addr + k) mod 0x1000 = unat addr mod 0x1000"
    by (simp add: unat_word_ariths mod_mod_cancel q)
  moreover have "unat (sz - k) mod 0x1000 = unat sz mod 0x1000"
    using s q by (metis le_add_diff_inverse mod_mult_self4 add.commute mult.commute)
  moreover have "sz - k \<noteq> 0xffffffff"
  proof
    assume "sz - k = 0xffffffff"
    then have "unat sz - unat k = 0xffffffff" using s(1) by simp
    with k s(2) unsigned_less [of sz, where ?'a = nat] show False by simp
  qed
  ultimately show ?thesis
    using assms(1,4) nf by (auto simp: erasable_def and_subsector_msk)
qed

lemma erase_loop_idle:
  "sz \<noteq> 0 \<Longrightarrow> fst (espi_flash_erase_loop base addr sz accept_all tr) =
     (if erasable addr sz then Inr () else Inl (- EINVAL))"
proof (induction base addr sz arbitrary: tr rule: espi_flash_erase_loop.induct)
  case (1 base addr sz)
  have k: "unat (sector_msk + 1) = unat sector_msk + 1" "unat (subsector_msk + 1) = unat subsector_msk + 1"
    "unat (sector_msk + 1) mod 0x1000 = 0" "unat (subsector_msk + 1) mod 0x1000 = 0"
    by (simp_all add: sector_msk_def subsector_msk_def)
  have z: "sz - m = 0 \<Longrightarrow> unat m mod 0x1000 = 0 \<Longrightarrow> addr AND subsector_msk = 0 \<Longrightarrow> erasable addr sz" for m
    using 1(3) by (auto simp: erasable_def and_subsector_msk)
  have sec: "addr AND sector_msk = 0 \<Longrightarrow> addr AND subsector_msk = 0"
  proof -
    assume "addr AND sector_msk = 0"
    then have "addr AND (sector_msk AND subsector_msk) = 0" by (simp add: and.assoc [symmetric])
    then show ?thesis by (simp add: sector_msk_def subsector_msk_def)
  qed
  show ?case
  proof (cases "addr = 0 \<and> sz = 0xffffffff")
    case True
    then show ?thesis
      by (subst espi_flash_erase_loop.simps) (simp add: erasable_def espi_cmd_defs)
  next
    case nf: False
    consider (sector) "addr AND sector_msk = 0 \<and> sz > sector_msk"
      | (sub) "\<not> (addr AND sector_msk = 0 \<and> sz > sector_msk)" "addr AND subsector_msk = 0 \<and> sz > subsector_msk"
      | (bad) "\<not> (addr AND sector_msk = 0 \<and> sz > sector_msk)" "\<not> (addr AND subsector_msk = 0 \<and> sz > subsector_msk)"
      by blast
    then show ?thesis
    proof cases
      case sector
      show ?thesis
        using 1(1) [OF nf sector] erasable_step [OF _ k(1,3) _ nf] sector z [OF _ k(3)] sec
        by (subst espi_flash_erase_loop.simps, simp only: nf if_False sector if_True) (simp add: espi_cmd_defs)
    next
      case sub
      show ?thesis
        using 1(2) [OF nf sub] erasable_step [OF _ k(2,4) _ nf] sub(2) z [OF _ k(4)]
        by (subst espi_flash_erase_loop.simps, simp only: nf if_False sub if_True) (simp add: espi_cmd_defs)
    next
      case bad
      have "\<not> erasable addr sz"
      proof
        assume "erasable addr sz"
        with nf have "addr AND subsector_msk = 0" "unat sz mod 0x1000 = 0"
          by (auto simp: erasable_def and_subsector_msk)
        with bad(2) have "unat sz = 0" by (simp add: subsector_msk_def word_less_nat_alt)
        with 1(3) show False by (simp add: unat_eq_0)
      qed
      then show ?thesis
        by (subst espi_flash_erase_loop.simps, simp only: nf if_False bad) simp
    qed
  qed
qed

section \<open>Properties\<close>

lemma erase_idle_decides:
  "fst (espi_flash_erase base sz off accept_all tr) =
     (if erasable off sz then Inr () else Inl (- EINVAL))"
proof (cases "sz \<le> subsector_msk")
  case True
  have "\<not> erasable off sz"
  proof
    assume "erasable off sz"
    moreover from True have lt: "unat sz < 0x1000" by (simp add: subsector_msk_def word_le_nat_alt)
    ultimately have "unat sz mod 0x1000 = 0" "sz \<noteq> 0"
      by (auto simp: erasable_def and_subsector_msk)
    with lt show False by (simp add: unat_eq_0)
  qed
  with True show ?thesis by (simp add: espi_flash_erase_def)
next
  case False
  then have "sz \<noteq> 0" by auto
  from erase_loop_idle [OF this] False show ?thesis by (simp add: espi_flash_erase_def)
qed

text \<open>C13: A flash erase that reports success has erased exactly the requested range: the chip
  saw, each with the write enable latch set, erases of regions that tile
  \<open>[off, off + size)\<close> without gap or overlap, no program, and no command without the latch.\<close>

theorem espi_flash_erase_covers:
  assumes "espi_flash_erase base sz off env tr = (Inr (), tr')"
    and "mmap \<noteq> base + ESPI_CMD" and "mmap \<noteq> base + ESPI_FADDR"
    and "unat off + unat sz \<le> 2 ^ 32"
  shows "\<exists>es. tr' = tr @ es \<and> (\<forall>s. let s' = fold (nor_step base mmap) es s in
    (\<exists>rs. tiles (unat off) (unat off + unat sz) rs \<and> nor_erased s' = nor_erased s @ rs) \<and>
    nor_progs s' = nor_progs s \<and> nor_bad s' = nor_bad s)"
proof -
  from assms(1) have "espi_flash_erase_loop base off sz env tr = (Inr (), tr')"
    by (auto simp: espi_flash_erase_def iofail_def split: if_splits)
  from ensuresD [OF ensures_erase_loop [OF assms(2,3,4)] this] show ?thesis
    unfolding Let_def by metis
qed

text \<open>On a device that is idle and never fails, an erase succeeds exactly for the ranges made
  of whole 4 KiB subsectors (and for the full-chip request), and is refused with
  \<open>-EINVAL\<close> otherwise; in particular the loop ends for every range.\<close>

theorem espi_flash_erase_decides:
  "fst (espi_flash_erase base sz off accept_all tr) =
     (if erasable off sz then Inr () else Inl (- EINVAL))"
  by (rule erase_idle_decides)

text \<open>The first subsector of a chip, on the idle device.\<close>

lemma espi_flash_erase_idle_run:
  "\<exists>tr'. espi_flash_erase 0 0x1000 0 accept_all [] = (Inr (), tr')"
  using erase_idle_decides [where base = 0 and sz = "0x1000" and off = 0 and tr = "[]"]
  by (cases "espi_flash_erase 0 0x1000 0 accept_all []")
    (auto simp: erasable_def subsector_msk_def split: if_splits)

definition nor0 :: nor where
  "nor0 = \<lparr>nor_addr = 0, nor_ram = [], nor_wel = False, nor_erased = [], nor_progs = [],
     nor_reads = [], nor_bad = 0\<rparr>"

theorem espi_flash_erase_covers_witness:
  "\<exists>es. espi_flash_erase 0 0x1000 0 accept_all [] = (Inr (), es) \<and>
     (\<exists>rs. tiles 0 0x1000 rs \<and> nor_erased (fold (nor_step 0 16) es
       nor0) = rs)"
proof -
  obtain es where es: "espi_flash_erase 0 0x1000 0 accept_all [] = (Inr (), es)"
    using espi_flash_erase_idle_run by blast
  from espi_flash_erase_covers [OF es, of 16]
  have "\<exists>rs. tiles 0 0x1000 rs \<and> nor_erased (fold (nor_step 0 16) es nor0) = nor_erased nor0 @ rs"
    by (simp add: espi_core_regs Let_def)
  then show ?thesis by (simp add: es nor0_def)
qed

text \<open>C5: A flash write that reports success has worked in two phases. In the first, unless told not to erase, it has erased
  ranges that tile the whole of the requested one; when told not to, nothing is erased. Only after it, it has programmed
  exactly the caller's bytes: in blocks of at most 128 bytes that tile the range after the optional 256-byte header, each
  enabled by the latch, whose contents concatenated are the input. No erase follows a program.\<close>

theorem espi_flash_write_programs:
  assumes run: "espi_flash_write base mmap inp sz off flags res0 env tr = (Inr (), tr')"
    and ne: "mmap \<noteq> base + ESPI_CMD" "mmap \<noteq> base + ESPI_FADDR"
    and fits: "unat off + unat sz < 2 ^ 32"
    and h: "h = (if flags AND ESPI_FLASH_DONT_WRITE_HEADER = ESPI_FLASH_DONT_WRITE_HEADER then 256 else 0)"
    and "h \<le> unat sz"
  shows "\<exists>es1 es2. tr' = tr @ es1 @ es2 \<and> (\<forall>s. let s1 = fold (nor_step base mmap) es1 s; s2 = fold (nor_step base mmap) es2 s1 in
    (\<exists>rs. nor_erased s1 = nor_erased s @ rs \<and>
       (if flags AND ESPI_FLASH_DONT_ERASE = ESPI_FLASH_DONT_ERASE then rs = [] else tiles (unat off) (unat off + unat sz) rs)) \<and>
    nor_progs s1 = nor_progs s \<and> nor_erased s2 = nor_erased s1 \<and>
    (\<exists>ps. nor_progs s2 = nor_progs s1 @ ps \<and>
       prog_blocks (unat off + h) (unat off + unat sz) (map inp [h..<unat sz]) ps) \<and>
    nor_bad s2 = nor_bad s)"
proof -
  let ?er = "flags AND ESPI_FLASH_DONT_ERASE \<noteq> ESPI_FLASH_DONT_ERASE"
  define off' sz' :: u32 where "off' = (if h = 256 then off + 256 else off)"
    and "sz' = (if h = 256 then sz - 256 else sz)"
  have sz': "unat sz' = unat sz - h" and off': "unat off' = unat off + h"
    using assms(6) fits h
    by (auto simp: sz'_def off'_def unat_sub word_le_nat_alt unat_add_lem [THEN iffD1] split: if_splits)
  have er: "ensures (nor_step base mmap)
      (\<lambda>_ s s'. \<exists>rs. (if ?er then tiles (unat off) (unat off + unat sz) rs else rs = []) \<and> erased_more rs s s')
      (if ?er then espi_flash_erase base sz off else ioreturn ())"
    using ensures_mono [OF ensures_erase_loop [OF ne, of off sz]] fits
    by (auto simp: espi_flash_erase_def intro!: ensures_return ensures_fail)
  have wr: "ensures (nor_step base mmap)
      (\<lambda>_ s s'. \<exists>ps. prog_blocks (unat off + h) (unat off + unat sz) (map inp [h..<unat sz]) ps \<and> progd_more ps s s')
      (espi_flash_write_loop base mmap inp h sz' off' r)" for r
    using ensures_write_loop [OF ne, of off' sz' inp h r] fits assms(6) by (simp add: sz' off')
  from run obtain tr1 where r1: "(if ?er then espi_flash_erase base sz off else ioreturn ()) env tr = (Inr (), tr1)"
    and r2: "espi_flash_write_loop base mmap inp h sz' off' (if ?er then 0 else res0) env tr1 = (Inr (), tr')"
    by (auto simp: espi_flash_write_def Let_def h sz'_def off'_def iosuccess split: if_splits)
  obtain es1 where es1: "tr1 = tr @ es1" "\<forall>s. \<exists>rs. (if ?er then tiles (unat off) (unat off + unat sz) rs else rs = []) \<and>
      erased_more rs s (fold (nor_step base mmap) es1 s)"
    using ensuresD [OF er r1] by blast
  obtain es2 where es2: "tr' = tr1 @ es2" "\<forall>s. \<exists>ps. prog_blocks (unat off + h) (unat off + unat sz) (map inp [h..<unat sz]) ps \<and>
      progd_more ps s (fold (nor_step base mmap) es2 s)"
    using ensuresD [OF wr r2] by blast
  note phases = es1(1) es2(1) es1(2) es2(2)
  show ?thesis
  proof (intro exI conjI allI)
    show "tr' = tr @ es1 @ es2" using phases(1,2) by simp
    fix s
    define s1 s2 where "s1 = fold (nor_step base mmap) es1 s" and "s2 = fold (nor_step base mmap) es2 s1"
    obtain rs where rs: "if ?er then tiles (unat off) (unat off + unat sz) rs else rs = []" and a: "erased_more rs s s1"
      using phases(3) unfolding s1_def by blast
    obtain ps where ps: "prog_blocks (unat off + h) (unat off + unat sz) (map inp [h..<unat sz]) ps" and b: "progd_more ps s1 s2"
      using phases(4) unfolding s2_def by blast
    have "(if flags AND ESPI_FLASH_DONT_ERASE = ESPI_FLASH_DONT_ERASE then rs = [] else tiles (unat off) (unat off + unat sz) rs)"
      using rs by argo
    with a ps b show "let s1 = fold (nor_step base mmap) es1 s; s2 = fold (nor_step base mmap) es2 s1 in
      (\<exists>rs. nor_erased s1 = nor_erased s @ rs \<and>
         (if flags AND ESPI_FLASH_DONT_ERASE = ESPI_FLASH_DONT_ERASE then rs = [] else tiles (unat off) (unat off + unat sz) rs)) \<and>
      nor_progs s1 = nor_progs s \<and> nor_erased s2 = nor_erased s1 \<and>
      (\<exists>ps. nor_progs s2 = nor_progs s1 @ ps \<and> prog_blocks (unat off + h) (unat off + unat sz) (map inp [h..<unat sz]) ps) \<and>
      nor_bad s2 = nor_bad s"
      unfolding Let_def s1_def [symmetric] s2_def [symmetric] by metis
  qed
qed

text \<open>On the idle device zero bytes are written at any place and of any length.\<close>

lemma write_loop_idle:
  "\<exists>tr'. espi_flash_write_loop 0 16 (\<lambda>_. 0) p sz addr 0 accept_all tr = (Inr (), tr')"
proof (induction "unat sz" arbitrary: p sz addr tr rule: less_induct)
  case less
  have z: "map (\<lambda>_. 0 :: u8) [i..<i + n] = replicate n 0" for i n by (simp add: map_replicate_trivial map_replicate_const)
  show ?case
  proof (cases "0 < sz")
    case True
    have "unat (sz - espi_blk sz) < unat sz" using True by (simp add: unat_minus_espi_blk unat_espi_blk word_less_nat_alt)
    from less [OF this] True show ?thesis
      by (subst espi_flash_write_loop.simps) (simp add: Let_def z espi_flash_write_blk_def espi_cmd_defs)
  next
    case False
    then show ?thesis by (subst espi_flash_write_loop.simps) simp
  qed
qed

lemma espi_flash_write_idle_run:
  "\<exists>tr'. espi_flash_write 0 16 (\<lambda>_. 0) 0x1000 0 0 7 accept_all [] = (Inr (), tr')"
proof -
  obtain tr1 where "espi_flash_erase 0 0x1000 0 accept_all [] = (Inr (), tr1)" using espi_flash_erase_idle_run by blast
  with write_loop_idle [of 0 "0x1000" 0 tr1] show ?thesis
    by (auto simp: espi_flash_write_def Let_def ESPI_FLASH_DONT_ERASE_def ESPI_FLASH_DONT_WRITE_HEADER_def)
qed

text \<open>A whole subsector, erased and written on the idle device.\<close>

theorem espi_flash_write_programs_witness:
  "\<exists>es1 es2 rs ps. espi_flash_write 0 16 (\<lambda>_. 0) 0x1000 0 0 7 accept_all [] = (Inr (), es1 @ es2) \<and>
     nor_erased (fold (nor_step 0 16) es1 nor0) = rs \<and> tiles 0 0x1000 rs \<and> nor_progs (fold (nor_step 0 16) es1 nor0) = [] \<and>
     nor_erased (fold (nor_step 0 16) (es1 @ es2) nor0) = rs \<and> nor_progs (fold (nor_step 0 16) (es1 @ es2) nor0) = ps \<and>
     prog_blocks 0 0x1000 (replicate 0x1000 0) ps"
proof -
  obtain es where es: "espi_flash_write 0 16 (\<lambda>_. 0) 0x1000 0 0 7 accept_all [] = (Inr (), es)"
    using espi_flash_write_idle_run by blast
  have z: "map (\<lambda>_. 0 :: u8) [0..<0x1000] = replicate 0x1000 0"
    by (simp add: map_replicate_const)
  obtain es1 es2 where e: "es = [] @ es1 @ es2" and "\<forall>s. let s1 = fold (nor_step 0 16) es1 s; s2 = fold (nor_step 0 16) es2 s1 in
      (\<exists>rs. nor_erased s1 = nor_erased s @ rs \<and>
         (if (0 :: u32) AND ESPI_FLASH_DONT_ERASE = ESPI_FLASH_DONT_ERASE then rs = []
          else tiles (unat (0 :: u32)) (unat (0 :: u32) + unat (0x1000 :: u32)) rs)) \<and>
      nor_progs s1 = nor_progs s \<and> nor_erased s2 = nor_erased s1 \<and>
      (\<exists>ps. nor_progs s2 = nor_progs s1 @ ps \<and>
        prog_blocks (unat (0 :: u32) + 0) (unat (0 :: u32) + unat (0x1000 :: u32)) (map (\<lambda>_. 0) [0..<unat (0x1000 :: u32)]) ps) \<and>
      nor_bad s2 = nor_bad s"
    using espi_flash_write_programs [OF es, of 0] by (auto simp: espi_core_regs ESPI_FLASH_DONT_WRITE_HEADER_def)
  then have "\<exists>rs ps. nor_erased (fold (nor_step 0 16) es1 nor0) = rs \<and> tiles 0 0x1000 rs \<and> nor_progs (fold (nor_step 0 16) es1 nor0) = [] \<and>
     nor_erased (fold (nor_step 0 16) (es1 @ es2) nor0) = rs \<and> nor_progs (fold (nor_step 0 16) (es1 @ es2) nor0) = ps \<and>
     prog_blocks 0 0x1000 (map (\<lambda>_. 0) [0..<0x1000]) ps"
    by (auto simp: Let_def nor0_def ESPI_FLASH_DONT_ERASE_def dest!: spec [of _ nor0])
  with es e show ?thesis unfolding z by auto
qed

text \<open>A flash read that reports success has asked the chip for blocks that tile exactly the
  requested range, has erased and programmed nothing, and has written at most the caller's
  buffer rounded up to a multiple of four bytes.\<close>

theorem espi_flash_read_range:
  assumes run: "espi_flash_read base mmap off sz out env tr = (Inr out', tr')"
    and ne: "mmap \<noteq> base + ESPI_CMD" "mmap \<noteq> base + ESPI_FADDR"
    and fits: "unat off + unat sz < 2 ^ 32"
  shows "(\<forall>i \<ge> round4 (unat sz). out' i = out i) \<and>
    (\<exists>es. tr' = tr @ es \<and> (\<forall>s. let s' = fold (nor_step base mmap) es s in
      (\<exists>rs. nor_reads s' = nor_reads s @ rs \<and> tiles (unat off) (unat off + unat sz) rs) \<and>
      nor_erased s' = nor_erased s \<and> nor_progs s' = nor_progs s))"
proof -
  from run have "espi_flash_read_loop base mmap off sz 0 out env tr = (Inr out', tr')"
    by (simp add: espi_flash_read_def)
  from ensuresD [OF ensures_read_loop [OF ne fits] this] show ?thesis
    unfolding Let_def by (metis add_0)
qed

text \<open>The buffer itself is not a bound: with a size that is not a multiple of four the last
  transfer runs past it. One byte is asked for, and byte 3 changes.\<close>

definition ones_env :: "u32 \<Rightarrow> env" where
  "ones_env mmap tr r = (0, if rq_addr r = mmap then replicate (rq_insz r) 0xff else [])"

lemma espi_flash_read_ones_run:
  "\<exists>out' tr'. espi_flash_read 0 16 0 1 (\<lambda>_. 0) (ones_env 16) [] = (Inr out', tr') \<and>
     out' 0 = 0xff \<and> out' 1 = 0xff \<and> out' 3 = 0xff \<and> out' 4 = 0"
proof -
  have blk: "espi_blk 1 = 1" "espi_iosz 1 = 4"
    by (simp_all add: espi_blk_def espi_iosz_def LOCAL_BLK_LEN_def)
  have r4: "replicate 4 x = [x, x, x, x]" for x :: u8 by (simp add: eval_nat_numeral)
  show ?thesis
    unfolding espi_flash_read_def
    apply (subst espi_flash_read_loop.simps)
    apply (simp add: Let_def blk espi_flash_read_to_local_def espi_flash_wait_done_def iodefs
        lowlevel_reg_wr32_def lowlevel_ls_op_def ones_env_def espi_core_regs)
    apply (subst espi_flash_wait_done_from.simps)
    apply (simp add: iodefs lowlevel_reg_rd32_def lowlevel_ls_op_def ones_env_def espi_core_regs blk)
    apply (simp add: iodefs mem_write_def r4 fit_def blk espi_flash_read_loop.simps [of _ _ _ 0])
    done
qed

text \<open>The last transfer of a read is rounded up to whole words: asked for one byte, the read
  overwrites the three bytes after it in the caller's memory.\<close>

theorem espi_flash_read_overruns:
  "\<exists>out' tr'. espi_flash_read 0 16 0 1 (\<lambda>_. 0) (ones_env 16) [] = (Inr out', tr') \<and>
     out' 0 = 0xff \<and> out' 1 = 0xff \<and> out' 3 = 0xff \<and> out' 4 = 0"
  by (rule espi_flash_read_ones_run)

theorem espi_flash_read_range_witness:
  "\<exists>out' es. espi_flash_read 0 16 0 1 (\<lambda>_. 0) (ones_env 16) [] = (Inr out', es) \<and> out' 4 = 0 \<and>
     tiles 0 1 (nor_reads (fold (nor_step 0 16) es nor0))"
proof -
  obtain out' es where run: "espi_flash_read 0 16 0 1 (\<lambda>_. 0) (ones_env 16) [] = (Inr out', es)"
    and o4: "out' 4 = 0"
    using espi_flash_read_ones_run by blast
  have "\<forall>s. \<exists>rs. nor_reads (fold (nor_step 0 16) es s) = nor_reads s @ rs \<and> tiles 0 1 rs"
    using espi_flash_read_range [OF run] by (simp add: espi_core_regs Let_def)
  from spec [OF this, of nor0] have "tiles 0 1 (nor_reads (fold (nor_step 0 16) es nor0))"
    by (auto simp: nor0_def)
  with run o4 show ?thesis by blast
qed

text \<open>C25: The flash driver stops at the first failing request: an error other than its own
  argument, timeout and verification codes is the code of the last request issued, every
  request before it having succeeded.\<close>

theorem espi_flash_write_fail_stop:
  assumes "espi_flash_write base mmap inp sz off flags res0 env tr = (Inl e, tr')"
    and "e \<notin> {- EINVAL, - ETIMEDOUT, ASSERT_ABORT, res0}"
  shows "\<exists>es r. tr' = tr @ es @ [LsOp r] \<and> bus_ok env tr es \<and> fst (env (tr @ es) r) = e \<and> e \<noteq> 0"
  using flash_write.error_is_last_request [OF assms] .

theorem espi_flash_write_fail_stop_witness:
  "\<exists>es r tr'. espi_flash_write 0 16 (\<lambda>_. 0) 5 0 ESPI_FLASH_DONT_ERASE 0 (\<lambda>_ _. (- 5, [])) [] =
      (Inl (- 5), tr') \<and> tr' = es @ [LsOp r] \<and> bus_ok (\<lambda>_ _. (- 5, [])) [] es"
proof -
  obtain tr' where run:
    "espi_flash_write 0 16 (\<lambda>_. 0) 5 0 ESPI_FLASH_DONT_ERASE 0 (\<lambda>_ _. (- 5, [])) [] = (Inl (- 5), tr')"
    by (simp add: espi_flash_write_def ESPI_FLASH_DONT_ERASE_def ESPI_FLASH_DONT_WRITE_HEADER_def,
        subst (asm) espi_flash_write_loop.simps) (simp add: Let_def iodefs lowlevel_ls_op_def)
  from espi_flash_write_fail_stop [OF run] run show ?thesis
    by (auto simp: EINVAL_def ETIMEDOUT_def ASSERT_ABORT_def)
qed

end
