(* ===== verification/CircBuf.thy ===== *)
theory CircBuf
  imports Prelude
begin

text \<open>
  The circular byte buffer (\<open>src/lib/common/ring_circbuf.c\<close>, \<open>ring_circbuf.h\<close>): two
  64-bit counters that only grow and a block of \<open>size\<close> bytes they index modulo its size.
  \<open>None\<close> is a failed \<open>assert\<close>, a division by a zero size or a copy outside the block. The
  locale \<open>byte_fifo\<close> is what its clients rely on; the interpretation shows that the buffer
  is a FIFO of bytes as long as the caller respects the free space.
\<close>

section \<open>The buffer\<close>

record ring_circbuf =
  cb_size :: u64
  cb_wpos :: u64
  cb_rpos :: u64
  cb_data :: "u8 list"

text \<open>\<open>mem\<close> is the uninitialised block \<open>posix_memalign\<close> returns.\<close>

definition ring_circbuf_create :: "u64 \<Rightarrow> u8 list \<Rightarrow> ring_circbuf" where
  "ring_circbuf_create max_size mem = \<lparr>cb_size = max_size, cb_wpos = 0, cb_rpos = 0, cb_data = mem\<rparr>"

definition ring_circbuf_rspace :: "ring_circbuf \<Rightarrow> u64" where
  "ring_circbuf_rspace rb = cb_wpos rb - cb_rpos rb"

definition ring_circbuf_wspace :: "ring_circbuf \<Rightarrow> u64" where
  "ring_circbuf_wspace rb = cb_size rb - (cb_wpos rb - cb_rpos rb)"

definition upd_at :: "'a list \<Rightarrow> nat \<Rightarrow> 'a list \<Rightarrow> 'a list" where
  "upd_at xs p ys = take p xs @ ys @ drop (p + length ys) xs"

definition ring_circbuf_read :: "ring_circbuf \<Rightarrow> u64 \<Rightarrow> (u8 list \<times> ring_circbuf) option" where
  "ring_circbuf_read rb sz =
    (if cb_size rb = 0 then None else
     let pos = cb_rpos rb mod cb_size rb;
         p1 = cb_size rb - pos;
         rsz = (if sz > p1 then p1 else sz);
         out1 = take (unat rsz) (drop (unat pos) (cb_data rb));
         rb1 = rb\<lparr>cb_rpos := cb_rpos rb + rsz\<rparr>
     in if \<not> cb_rpos rb1 \<le> cb_wpos rb1 then None
        else if rsz = sz then Some (out1, rb1)
        else let rsz2 = sz - rsz;
                 out2 = take (unat rsz2) (cb_data rb);
                 rb2 = rb1\<lparr>cb_rpos := cb_rpos rb1 + rsz2\<rparr>
             in if rsz2 > cb_size rb \<or> \<not> cb_rpos rb2 \<le> cb_wpos rb2 then None
                else Some (out1 @ out2, rb2))"

definition ring_circbuf_write :: "ring_circbuf \<Rightarrow> u8 list \<Rightarrow> u64 \<Rightarrow> ring_circbuf option" where
  "ring_circbuf_write rb ptr sz =
    (if cb_size rb = 0 then None else
     let pos = cb_wpos rb mod cb_size rb;
         p1 = cb_size rb - pos;
         rsz = (if sz > p1 then p1 else sz);
         rb1 = rb\<lparr>cb_data := upd_at (cb_data rb) (unat pos) (take (unat rsz) ptr),
                  cb_wpos := cb_wpos rb + rsz\<rparr>
     in if rsz = sz then Some rb1
        else let rsz2 = sz - rsz
             in if rsz2 > cb_size rb then None
                else Some (rb1\<lparr>cb_data := upd_at (cb_data rb1) 0 (take (unat rsz2) (drop (unat rsz) ptr)),
                               cb_wpos := cb_wpos rb1 + rsz2\<rparr>))"

section \<open>The interface\<close>

text \<open>
  \<open>room\<close> is the free space, \<open>life\<close> the number of bytes the 64-bit counters can still
  count. \<open>relay\<close> is a producer and a consumer that take turns.
\<close>

fun relay :: "('q \<Rightarrow> u8 list \<Rightarrow> 'q option) \<Rightarrow> ('q \<Rightarrow> nat \<Rightarrow> (u8 list \<times> 'q) option) \<Rightarrow>
    'q \<Rightarrow> u8 list list \<Rightarrow> (u8 list \<times> 'q) option" where
  "relay put get q [] = Some ([], q)"
| "relay put get q (bs # bss) = (case put q bs of None \<Rightarrow> None | Some q1 \<Rightarrow>
     (case get q1 (length bs) of None \<Rightarrow> None | Some (out, q2) \<Rightarrow>
        (case relay put get q2 bss of None \<Rightarrow> None | Some (outs, q3) \<Rightarrow> Some (out @ outs, q3))))"

locale byte_fifo =
  fixes inv :: "'q \<Rightarrow> bool" and content :: "'q \<Rightarrow> u8 list"
    and room :: "'q \<Rightarrow> nat" and life :: "'q \<Rightarrow> nat"
    and put :: "'q \<Rightarrow> u8 list \<Rightarrow> 'q option" and get :: "'q \<Rightarrow> nat \<Rightarrow> (u8 list \<times> 'q) option"
  assumes put_ok: "inv q \<Longrightarrow> length bs \<le> room q \<Longrightarrow> length bs \<le> life q \<Longrightarrow>
      \<exists>q'. put q bs = Some q' \<and> inv q' \<and> content q' = content q @ bs \<and>
        room q = room q' + length bs \<and> life q = life q' + length bs"
    and get_ok: "inv q \<Longrightarrow> n \<le> length (content q) \<Longrightarrow>
      \<exists>q'. get q n = Some (take n (content q), q') \<and> inv q' \<and> content q' = drop n (content q) \<and>
        room q' = room q + n \<and> life q' = life q"
begin

text \<open>What goes in comes out, in order, behind what was in the buffer before.\<close>

lemma put_get:
  assumes "inv q" and "length bs \<le> room q" and "length bs \<le> life q"
  shows "\<exists>q1 q2. put q bs = Some q1 \<and>
    get q1 (length (content q) + length bs) = Some (content q @ bs, q2) \<and> inv q2 \<and> content q2 = []"
proof -
  from put_ok [OF assms] obtain q1 where 1: "put q bs = Some q1" "inv q1" "content q1 = content q @ bs"
    by blast
  from get_ok [OF 1(2), of "length (content q) + length bs"] 1(3) show ?thesis
    using 1(1) by fastforce
qed

text \<open>The stream out is the stream in.\<close>

lemma relay_ok:
  assumes "inv q" and "content q = []" and "\<forall>bs \<in> set bss. length bs \<le> room q"
    and "length (concat bss) \<le> life q"
  shows "\<exists>q'. relay put get q bss = Some (concat bss, q') \<and> inv q' \<and> content q' = []"
  using assms
proof (induction bss arbitrary: q)
  case (Cons bs bss)
  from Cons.prems put_ok [of q bs] obtain q1 where
    1: "put q bs = Some q1" "inv q1" "content q1 = bs" "room q = room q1 + length bs" "life q = life q1 + length bs"
    by auto
  from get_ok [OF 1(2), of "length bs"] 1(3) obtain q2 where
    2: "get q1 (length bs) = Some (bs, q2)" "inv q2" "content q2 = []" "room q2 = room q1 + length bs" "life q2 = life q1"
    by auto
  from Cons.IH [OF 2(2,3)] 1 2 Cons.prems obtain q3 where
    "relay put get q2 bss = Some (concat bss, q3)" "inv q3" "content q3 = []" by auto
  with 1 2 show ?case by simp
qed simp

end

section \<open>The code is a byte FIFO\<close>

definition cb_inv :: "ring_circbuf \<Rightarrow> bool" where
  "cb_inv rb \<longleftrightarrow> 0 < unat (cb_size rb) \<and> length (cb_data rb) = unat (cb_size rb) \<and>
     unat (cb_rpos rb) \<le> unat (cb_wpos rb) \<and> unat (cb_wpos rb) - unat (cb_rpos rb) \<le> unat (cb_size rb)"

definition cb_content :: "ring_circbuf \<Rightarrow> u8 list" where
  "cb_content rb = map (\<lambda>i. cb_data rb ! (i mod unat (cb_size rb))) [unat (cb_rpos rb)..<unat (cb_wpos rb)]"

definition cb_room :: "ring_circbuf \<Rightarrow> nat" where
  "cb_room rb = unat (ring_circbuf_wspace rb)"

definition cb_life :: "ring_circbuf \<Rightarrow> nat" where
  "cb_life rb = 2 ^ 64 - 1 - unat (cb_wpos rb)"

lemma length_cb_content [simp]: "length (cb_content rb) = unat (cb_wpos rb) - unat (cb_rpos rb)"
  by (simp add: cb_content_def)

lemma cb_spaces:
  assumes "cb_inv rb"
  shows "unat (ring_circbuf_rspace rb) = length (cb_content rb)"
    and "cb_room rb = unat (cb_size rb) - length (cb_content rb)"
  using assms
  by (auto simp: cb_inv_def ring_circbuf_rspace_def ring_circbuf_wspace_def cb_room_def unat_sub word_le_nat_alt)

lemma length_upd_at [simp]: "p + length ys \<le> length xs \<Longrightarrow> length (upd_at xs p ys) = length xs"
  by (simp add: upd_at_def)

lemma nth_upd_at:
  "p + length ys \<le> length xs \<Longrightarrow> i < length xs \<Longrightarrow>
   upd_at xs p ys ! i = (if p \<le> i \<and> i < p + length ys then ys ! (i - p) else xs ! i)"
  by (auto simp: upd_at_def nth_append min_def)

lemma unat_add_fits: "unat (a :: u64) + unat b < 2 ^ 64 \<Longrightarrow> unat (a + b) = unat a + unat b"
  by (simp add: unat_add_lem [THEN iffD1])

text \<open>
  Both halves of a write together put byte \<open>i\<close> of the source at \<open>(wpos + i) mod size\<close>.
\<close>

lemma wrap_write:
  fixes xs bs :: "'a list"
  assumes len: "length xs = n" and pos: "pos < n" and le: "length bs \<le> n" and i: "i < n"
    and r: "r = min (length bs) (n - pos)"
  shows "upd_at (upd_at xs pos (take r bs)) 0 (drop r bs) ! i =
     (if (i + n - pos) mod n < length bs then bs ! ((i + n - pos) mod n) else xs ! i)"
proof -
  have r': "pos + r \<le> n" "r \<le> length bs" "length bs - r \<le> pos" using le pos by (auto simp: r)
  have k: "(i + n - pos) mod n = (if pos \<le> i then i - pos else i + n - pos)"
    using pos i by (auto simp: mod_if)
  have 1: "upd_at xs pos (take r bs) ! i = (if pos \<le> i \<and> i < pos + r then bs ! (i - pos) else xs ! i)"
    using r' pos i len by (auto simp: nth_upd_at)
  have 2: "upd_at ys 0 (drop r bs) ! i = (if i < length bs - r then bs ! (r + i) else ys ! i)"
    if "length ys = n" for ys :: "'a list" using that r' pos i by (simp add: nth_upd_at)
  have "length (upd_at xs pos (take r bs)) = n" using r' len by simp
  note 2 = 2 [OF this, unfolded 1]
  show ?thesis
  proof (cases "length bs \<le> n - pos")
    case True
    then have "r = length bs" using r by simp
    with 2 k i pos le True show ?thesis by auto
  next
    case False
    then have "r = n - pos" using r by simp
    moreover have "i < pos \<Longrightarrow> n - pos + i = i + n - pos" using pos by simp
    ultimately show ?thesis using 2 k i pos le False by auto
  qed
qed

lemma mod_shift:
  assumes "(W :: nat) \<le> j + n" and "0 < n"
  shows "(j mod n + n - W mod n) mod n = (j + n - W) mod n"
proof -
  have "W mod n \<le> j mod n + n" using assms by (meson le_add2 mod_less_divisor nat_less_le order_trans)
  then have "int ((j mod n + n - W mod n) mod n) = int ((j + n - W) mod n)"
    using assms by (simp add: zmod_int of_nat_diff mod_simps) (metis add_diff_eq mod_add_left_eq)
  then show ?thesis by simp
qed

lemma write_step:
  assumes inv: "cb_inv rb" and room: "length bs \<le> cb_room rb" and life: "length bs \<le> cb_life rb"
  shows "\<exists>rb'. ring_circbuf_write rb bs (of_nat (length bs)) = Some rb' \<and> cb_inv rb' \<and>
    cb_content rb' = cb_content rb @ bs \<and> cb_room rb = cb_room rb' + length bs \<and>
    cb_life rb = cb_life rb' + length bs"
proof -
  define n W R where "n = unat (cb_size rb)" and "W = unat (cb_wpos rb)" and "R = unat (cb_rpos rb)"
  define pos r where "pos = W mod n" and "r = min (length bs) (n - pos)"
  define d' where "d' = upd_at (upd_at (cb_data rb) pos (take r bs)) 0 (drop r bs)"
  from inv have n: "0 < n" "length (cb_data rb) = n" "R \<le> W" "W - R \<le> n"
    by (auto simp: cb_inv_def n_def W_def R_def)
  have W: "W < 2 ^ 64" "n < 2 ^ 64" using unsigned_less [of "cb_wpos rb", where ?'a = nat] unsigned_less [of "cb_size rb", where ?'a = nat]
    by (simp_all add: W_def n_def)
  have len: "length bs \<le> n - (W - R)" "W + length bs < 2 ^ 64"
    using room life cb_spaces(2) [OF inv] W by (auto simp: cb_life_def n_def W_def R_def)
  have pos: "pos < n" using n by (simp add: pos_def)
  have sz: "unat (of_nat (length bs) :: u64) = length bs"
    using len W by (simp add: unsigned_of_nat take_bit_nat_eq_self)
  have p1: "unat (cb_size rb - cb_wpos rb mod cb_size rb) = n - pos"
    using pos by (simp add: unat_sub word_le_nat_alt unat_mod n_def W_def pos_def less_imp_le)
  let ?p1 = "cb_size rb - cb_wpos rb mod cb_size rb"
  define rsz where "rsz = (if of_nat (length bs) > ?p1 then ?p1 else of_nat (length bs))"
  have rsz: "unat rsz = r"
    using sz p1 by (auto simp: rsz_def r_def word_less_nat_alt)
  have r': "r \<le> length bs" "length bs - r \<le> pos" "pos + r \<le> n" using len pos by (auto simp: r_def)
  let ?sz = "of_nat (length bs) :: u64"
  have nz: "cb_size rb \<noteq> 0" using n(1) by (auto simp: n_def)
  have posw: "unat (cb_wpos rb mod cb_size rb) = pos" by (simp add: unat_mod pos_def W_def n_def)
  have run: "ring_circbuf_write rb bs ?sz = Some (rb\<lparr>cb_data := d', cb_wpos := cb_wpos rb + ?sz\<rparr>)"
  proof (cases "rsz = ?sz")
    case True
    then have r: "r = length bs" using rsz sz by simp
    then have "d' = upd_at (cb_data rb) pos (take r bs)" by (simp add: d'_def upd_at_def)
    with True nz show ?thesis
      unfolding ring_circbuf_write_def Let_def rsz_def [symmetric] posw rsz by simp
  next
    case False
    have u: "unat (?sz - rsz) = length bs - r"
      using r' sz rsz by (simp add: unat_sub word_le_nat_alt)
    with r' pos have c: "\<not> ?sz - rsz > cb_size rb" by (simp add: word_less_nat_alt n_def)
    have t: "take (length bs - r) (drop r bs) = drop r bs" by simp
    show ?thesis
      unfolding ring_circbuf_write_def Let_def rsz_def [symmetric] posw rsz u t
      using False nz c by (simp add: d'_def)
  qed
  have wpos: "unat (cb_wpos rb + ?sz) = W + length bs"
    using len sz by (simp add: W_def unat_add_fits)
  have d'_len: "length d' = n" using r' pos n by (simp add: d'_def)
  have nth: "d' ! (j mod n) = (if j < W then cb_data rb ! (j mod n) else bs ! (j - W))"
    if "R \<le> j" "j < W + length bs" for j
  proof -
    have "W \<le> j + n" using that n by simp
    note m = mod_shift [OF this n(1)]
    have k: "(j mod n + n - pos) mod n = (if j < W then j + n - W else j - W)"
    proof (cases "j < W")
      case True
      with \<open>W \<le> j + n\<close> m show ?thesis by (simp add: pos_def)
    next
      case False
      then have e: "j + n - W = (j - W) + n" by simp
      have "j - W < n" using that len False n(1) by linarith
      then have "(j + n - W) mod n = j - W" unfolding e by simp
      then show ?thesis using m False by (simp only: pos_def if_False)
    qed
    have le: "length bs \<le> n" and jn: "j mod n < n" using len n by simp_all
    show ?thesis
    proof (cases "j < W")
      case True
      then have "\<not> j + n - W < length bs" using that len n by linarith
      with True show ?thesis unfolding d'_def wrap_write [OF n(2) pos le jn r_def] k by simp
    next
      case False
      then have "j - W < length bs" using that n by linarith
      with False show ?thesis unfolding d'_def wrap_write [OF n(2) pos le jn r_def] k by simp
    qed
  qed
  have "cb_content (rb\<lparr>cb_data := d', cb_wpos := cb_wpos rb + ?sz\<rparr>) = cb_content rb @ bs"
  proof (rule nth_equalityI)
    fix k assume "k < length (cb_content (rb\<lparr>cb_data := d', cb_wpos := cb_wpos rb + ?sz\<rparr>))"
    then have "k < W + length bs - R" by (simp add: wpos R_def)
    with nth [of "R + k"] n show "cb_content (rb\<lparr>cb_data := d', cb_wpos := cb_wpos rb + ?sz\<rparr>) ! k = (cb_content rb @ bs) ! k"
      by (auto simp: cb_content_def wpos nth_append add.commute [of k] simp flip: n_def R_def W_def)
  qed (use n in \<open>simp add: wpos flip: R_def W_def\<close>)
  then show ?thesis
    using run d'_len wpos n len cb_spaces(2) [OF inv] inv
    by (auto simp: cb_inv_def cb_life_def cb_spaces(2) n_def R_def W_def)
qed

lemma read_step:
  assumes inv: "cb_inv rb" and le: "m \<le> length (cb_content rb)"
  shows "\<exists>rb'. ring_circbuf_read rb (of_nat m) = Some (take m (cb_content rb), rb') \<and> cb_inv rb' \<and>
    cb_content rb' = drop m (cb_content rb) \<and> cb_room rb' = cb_room rb + m \<and> cb_life rb' = cb_life rb"
proof -
  define n W R where "n = unat (cb_size rb)" and "W = unat (cb_wpos rb)" and "R = unat (cb_rpos rb)"
  define pos r where "pos = R mod n" and "r = min m (n - pos)"
  define rb' where "rb' = rb\<lparr>cb_rpos := cb_rpos rb + of_nat m\<rparr>"
  let ?sz = "of_nat m :: u64"
  from inv have n: "0 < n" "length (cb_data rb) = n" "R \<le> W" "W - R \<le> n"
    by (auto simp: cb_inv_def n_def W_def R_def)
  have W: "W < 2 ^ 64" using unsigned_less [of "cb_wpos rb", where ?'a = nat] by (simp add: W_def)
  have m: "m \<le> W - R" "R + m \<le> W" "m \<le> n" using le n by (auto simp: R_def W_def)
  have sz: "unat ?sz = m" using m W by (simp add: unsigned_of_nat take_bit_nat_eq_self)
  have pos: "pos < n" using n by (simp add: pos_def)
  have nz: "cb_size rb \<noteq> 0" using n(1) by (auto simp: n_def)
  have posw: "unat (cb_rpos rb mod cb_size rb) = pos" by (simp add: unat_mod pos_def R_def n_def)
  let ?p1 = "cb_size rb - cb_rpos rb mod cb_size rb"
  have p1: "unat ?p1 = n - pos"
    using pos posw by (simp add: unat_sub word_le_nat_alt n_def less_imp_le)
  define rsz where "rsz = (if ?sz > ?p1 then ?p1 else ?sz)"
  have rsz: "unat rsz = r" using sz p1 by (auto simp: rsz_def r_def word_less_nat_alt)
  have r': "r \<le> m" "m - r \<le> pos" "pos + r \<le> n" using m pos by (auto simp: r_def)
  have rp: "unat (cb_rpos rb + rsz) = R + r" "unat (cb_rpos rb + ?sz) = R + m"
    using r' m W sz rsz by (simp_all add: R_def unat_add_fits)
  have ok: "cb_rpos rb + rsz \<le> cb_wpos rb" "cb_rpos rb + ?sz \<le> cb_wpos rb"
    using r' m rp by (simp_all add: word_le_nat_alt flip: W_def)
  define out where "out = take r (drop pos (cb_data rb)) @ take (m - r) (cb_data rb)"
  have run: "ring_circbuf_read rb ?sz = Some (out, rb')"
  proof (cases "rsz = ?sz")
    case True
    then have "r = m" using rsz sz by simp
    with True nz ok show ?thesis
      unfolding ring_circbuf_read_def Let_def rsz_def [symmetric] posw rsz out_def rb'_def by simp
  next
    case False
    have u: "unat (?sz - rsz) = m - r" using r' sz rsz by (simp add: unat_sub word_le_nat_alt)
    with r' pos have c: "\<not> ?sz - rsz > cb_size rb" by (simp add: word_less_nat_alt n_def)
    have "cb_rpos rb + rsz + (?sz - rsz) = cb_rpos rb + ?sz" by simp
    then show ?thesis
      unfolding ring_circbuf_read_def Let_def rsz_def [symmetric] posw rsz u out_def rb'_def
      using False nz c ok by simp
  qed
  have out: "out = take m (cb_content rb)"
  proof (rule nth_equalityI)
    show "length out = length (take m (cb_content rb))" using r' m n by (simp add: out_def flip: R_def W_def)
    fix i assume "i < length out"
    then have i: "i < m" using r' n by (simp add: out_def)
    have k: "(R + i) mod n = (if i < r then pos + i else i - r)"
    proof (cases "i < r")
      case True
      then have "pos + i < n" using r' by simp
      then show ?thesis using True by (simp add: pos_def flip: mod_add_left_eq [of R])
    next
      case False
      then have "r = n - pos" using i by (auto simp: r_def)
      then have e: "pos + i = (i - r) + n" using False pos by simp
      have "i - r < n" using i m by simp
      then have "(pos + i) mod n = i - r" unfolding e by simp
      then show ?thesis using False by (simp add: pos_def mod_add_left_eq)
    qed
    show "out ! i = take m (cb_content rb) ! i"
      using i m r' n pos by (simp add: out_def cb_content_def nth_append k flip: R_def W_def n_def)
  qed
  have "cb_content rb' = drop m (cb_content rb)"
    using m by (simp add: cb_content_def rb'_def rp(2) drop_map flip: R_def)
  moreover have "cb_inv rb'"
    using inv m rp(2) by (auto simp: cb_inv_def rb'_def simp flip: R_def W_def n_def)
  ultimately show ?thesis
    using run out cb_spaces(2) [OF inv] cb_spaces(2) [of rb'] m n
    by (auto simp: rb'_def cb_life_def rp(2) simp flip: R_def W_def n_def)
qed

interpretation circbuf: byte_fifo cb_inv cb_content cb_room cb_life
  "\<lambda>rb bs. ring_circbuf_write rb bs (of_nat (length bs))" "\<lambda>rb n. ring_circbuf_read rb (of_nat n)"
  by unfold_locales (auto intro: write_step read_step)

lemma cb_create:
  assumes "length mem = unat max_size" and "max_size \<noteq> 0"
  shows "cb_inv (ring_circbuf_create max_size mem)" "cb_content (ring_circbuf_create max_size mem) = []"
    "cb_room (ring_circbuf_create max_size mem) = unat max_size"
    "cb_life (ring_circbuf_create max_size mem) = 2 ^ 64 - 1"
  using assms by (simp_all add: cb_inv_def cb_content_def cb_room_def cb_life_def ring_circbuf_create_def
      ring_circbuf_wspace_def unat_gt_0)

section \<open>Properties\<close>

text \<open>A write that fits the free space and the read of everything buffered return, without a
  failed assertion, the old contents followed by the written bytes, also where the copy wraps
  around the end of the block; the buffer is empty afterwards.\<close>

theorem ring_circbuf_fifo:
  assumes "cb_inv rb" and "length bs \<le> unat (ring_circbuf_wspace rb)"
    and "unat (cb_wpos rb) + length bs < 2 ^ 64"
  shows "\<exists>rb1 rb2. ring_circbuf_write rb bs (of_nat (length bs)) = Some rb1 \<and>
    ring_circbuf_read rb1 (of_nat (length (cb_content rb) + length bs)) = Some (cb_content rb @ bs, rb2) \<and>
    cb_inv rb2 \<and> cb_content rb2 = []"
  using circbuf.put_get [OF assms(1), of bs] assms(2,3) by (auto simp: cb_room_def cb_life_def)

theorem ring_circbuf_fifo_witness:
  "\<exists>rb1 rb2. ring_circbuf_write (ring_circbuf_create 3 [0, 0, 0]) [1, 2] (of_nat 2) = Some rb1 \<and>
     ring_circbuf_read rb1 (of_nat 2) = Some ([1, 2], rb2)"
  using ring_circbuf_fifo [of "ring_circbuf_create 3 [0, 0, 0]" "[1, 2]"]
    cb_create [of "[0, 0, 0]" 3]
  by (auto simp: cb_room_def ring_circbuf_create_def)

text \<open>C26: A producer and a consumer that take turns through a fresh buffer pass any sequence of
  chunks, none larger than the buffer, unchanged and in order.\<close>

theorem ring_circbuf_relay:
  assumes "length mem = unat max_size" and "max_size \<noteq> 0"
    and "\<forall>bs \<in> set bss. length bs \<le> unat max_size" and "length (concat bss) < 2 ^ 64"
  shows "\<exists>rb. relay (\<lambda>rb bs. ring_circbuf_write rb bs (of_nat (length bs)))
      (\<lambda>rb n. ring_circbuf_read rb (of_nat n)) (ring_circbuf_create max_size mem) bss = Some (concat bss, rb)"
  using circbuf.relay_ok [of "ring_circbuf_create max_size mem" bss] assms cb_create [OF assms(1,2)]
  by auto

theorem ring_circbuf_relay_witness:
  "\<exists>rb. relay (\<lambda>rb bs. ring_circbuf_write rb bs (of_nat (length bs)))
      (\<lambda>rb n. ring_circbuf_read rb (of_nat n)) (ring_circbuf_create 3 [9, 9, 9]) [[1, 2], [3, 4], [5, 6, 7]]
    = Some ([1, 2, 3, 4, 5, 6, 7], rb)"
  using ring_circbuf_relay [of "[9, 9, 9]" 3 "[[1, 2], [3, 4], [5, 6, 7]]"] by simp

end
