(* ===== verification/RingBuffer.thy ===== *)
theory RingBuffer
  imports Prelude "HOL-Library.Signed_Division" "HOL-Library.Sublist"
begin

text \<open>
  The ring of fixed-size items shared by a producer and a consumer thread
  (\<open>src/lib/common/ring_buffer.c\<close>, \<open>ring_buffer.h\<close>). The POSIX semaphores are counters and every
  \<open>sem_*wait\<close> call answers according to \<open>sem_answer\<close>; a wait is given the list of clock
  readings and wake-ups it meets, one per turn of its \<open>EINTR\<close> loop. The interleavings of the
  two threads are the step relation \<open>rb_step\<close>.
\<close>

section \<open>Semaphores\<close>

datatype sem_call = Sem_wait | Sem_trywait | Sem_timedwait (abs_sec: int) (abs_nsec: int)

datatype wakeup = Still_blocked | Signal | Deadline

text \<open>
  The error code (0 for success) and the new count, or \<open>None\<close> for a call that stays blocked.
  POSIX checks the deadline of \<open>sem_timedwait\<close> only where the semaphore cannot be taken at once.
\<close>

fun sem_answer :: "sem_call \<Rightarrow> wakeup \<Rightarrow> nat \<Rightarrow> (int \<times> nat) option" where
  "sem_answer c w (Suc n) = Some (0, n)"
| "sem_answer Sem_trywait w 0 = Some (EAGAIN, 0)"
| "sem_answer Sem_wait w 0 = (if w = Signal then Some (EINTR, 0) else None)"
| "sem_answer (Sem_timedwait s ns) w 0 =
    (if ns < 0 \<or> ns \<ge> 1000000000 then Some (EINVAL, 0)
     else case w of Signal \<Rightarrow> Some (EINTR, 0) | Deadline \<Rightarrow> Some (ETIMEDOUT, 0) | Still_blocked \<Rightarrow> None)"

section \<open>The buffer\<close>

record ring_buffer =
  rb_items :: u32
  rb_isize :: u32
  rb_pidx :: u32
  rb_cidx :: u32
  rb_producer :: nat
  rb_consumer :: nat

definition IDX_TIMEDOUT :: u32 where "IDX_TIMEDOUT = NOT 0"

text \<open>\<open>sizeof(struct ring_buffer)\<close>: a cache line for the indices and two 32-byte semaphores.\<close>

definition RING_HDR :: u64 where "RING_HDR = 128"

text \<open>The bytes allocated and the object; the three flags are the outcomes of
  \<open>posix_memalign\<close> and of the two \<open>sem_init\<close> calls.\<close>

definition ring_buffer_create :: "u32 \<Rightarrow> u32 \<Rightarrow> bool \<Rightarrow> bool \<Rightarrow> bool \<Rightarrow> (u64 \<times> ring_buffer) option" where
  "ring_buffer_create items isize alloc_ok sem1_ok sem2_ok =
    (let sz = ucast (items * isize) + RING_HDR in
     if items = 0 \<or> isize = 0 then None
     else if \<not> alloc_ok then None
     else if \<not> sem1_ok \<or> \<not> sem2_ok then None
     else Some (sz, \<lparr>rb_items = items, rb_isize = isize, rb_pidx = 0, rb_cidx = 0,
                     rb_producer = unat items, rb_consumer = 0\<rparr>))"

text \<open>The slot of an index, and its byte offset in \<open>data\<close>.\<close>

definition int_idx :: "ring_buffer \<Rightarrow> u32 \<Rightarrow> u32" where
  "int_idx rb idx = (rb_items rb - 1) AND idx"

definition ring_buffer_at :: "ring_buffer \<Rightarrow> u32 \<Rightarrow> u32" where
  "ring_buffer_at rb idx = rb_isize rb * int_idx rb idx"

text \<open>The call \<open>ring_buffer_stdwait\<close> makes; \<open>now\<close> is the reading of the real-time clock.\<close>

definition deadline :: "int \<times> int \<Rightarrow> int \<Rightarrow> int \<times> int" where
  "deadline now usecs =
    (let nsec = snd now + (usecs smod 1000000) * 1000;
         sec = fst now + usecs sdiv 1000000
     in if nsec > 1000000000 then (sec + 1, nsec - 1000000000) else (sec, nsec))"

definition ring_buffer_stdwait :: "nat \<Rightarrow> int \<Rightarrow> (int \<times> int) option \<Rightarrow> wakeup \<Rightarrow> (int \<times> nat) option" where
  "ring_buffer_stdwait sem usecs now w =
    (if usecs = - 1 then sem_answer Sem_wait w sem
     else if usecs = 0 then sem_answer Sem_trywait w sem
     else case now of
       None \<Rightarrow> Some (EINVAL, sem)
     | Some t \<Rightarrow> (case deadline t usecs of (s, ns) \<Rightarrow> sem_answer (Sem_timedwait s ns) w sem))"

type_synonym turn = "(int \<times> int) option \<times> wakeup"

text \<open>The value returned and the new state; \<open>None\<close> is a caller that still waits when its
  turns are used up.\<close>

fun ring_buffer_pwait :: "ring_buffer \<Rightarrow> int \<Rightarrow> turn list \<Rightarrow> (u32 \<times> ring_buffer) option" where
  "ring_buffer_pwait rb usecs [] = None"
| "ring_buffer_pwait rb usecs (t # ts) =
    (case ring_buffer_stdwait (rb_producer rb) usecs (fst t) (snd t) of
       None \<Rightarrow> None
     | Some (res, n) \<Rightarrow>
         if res = EINTR then ring_buffer_pwait rb usecs ts
         else if res = 0 then Some (rb_pidx rb, rb\<lparr>rb_producer := n, rb_pidx := rb_pidx rb + 1\<rparr>)
         else Some (IDX_TIMEDOUT, rb))"

definition ring_buffer_ppost :: "ring_buffer \<Rightarrow> ring_buffer" where
  "ring_buffer_ppost rb = rb\<lparr>rb_consumer := rb_consumer rb + 1\<rparr>"

fun ring_buffer_cwait :: "ring_buffer \<Rightarrow> int \<Rightarrow> turn list \<Rightarrow> (u32 \<times> ring_buffer) option" where
  "ring_buffer_cwait rb usecs [] = None"
| "ring_buffer_cwait rb usecs (t # ts) =
    (case ring_buffer_stdwait (rb_consumer rb) usecs (fst t) (snd t) of
       None \<Rightarrow> None
     | Some (res, n) \<Rightarrow>
         if res = EINTR then ring_buffer_cwait rb usecs ts
         else if res = 0 then Some (rb_cidx rb, rb\<lparr>rb_consumer := n, rb_cidx := rb_cidx rb + 1\<rparr>)
         else Some (IDX_TIMEDOUT, rb))"

definition ring_buffer_cpost :: "ring_buffer \<Rightarrow> ring_buffer" where
  "ring_buffer_cpost rb = rb\<lparr>rb_producer := rb_producer rb + 1\<rparr>"

section \<open>What one wait does\<close>

lemma sem_answer_cases:
  "sem_answer c w n = Some (res, n') \<Longrightarrow> res = 0 \<and> n = Suc n' \<or> res \<noteq> 0 \<and> n = 0 \<and> n' = 0"
  by (cases "(c, w, n)" rule: sem_answer.cases)
    (auto simp: errno_defs split: if_splits wakeup.splits)

lemma stdwait_cases:
  "ring_buffer_stdwait n usecs now w = Some (res, n') \<Longrightarrow>
   res = 0 \<and> n = Suc n' \<or> res \<noteq> 0 \<and> n' = n"
  by (auto simp: ring_buffer_stdwait_def errno_defs dest: sem_answer_cases
      split: if_splits option.splits prod.splits)

lemma pwait_cases:
  assumes "ring_buffer_pwait rb usecs ts = Some (idx, rb')"
  shows "idx = rb_pidx rb \<and> 0 < rb_producer rb \<and>
           rb' = rb\<lparr>rb_producer := rb_producer rb - 1, rb_pidx := rb_pidx rb + 1\<rparr> \<or>
         idx = IDX_TIMEDOUT \<and> rb' = rb"
  using assms
  by (induction rb usecs ts rule: ring_buffer_pwait.induct)
    (auto dest: stdwait_cases split: option.splits prod.splits if_splits)

lemma cwait_cases:
  assumes "ring_buffer_cwait rb usecs ts = Some (idx, rb')"
  shows "idx = rb_cidx rb \<and> 0 < rb_consumer rb \<and>
           rb' = rb\<lparr>rb_consumer := rb_consumer rb - 1, rb_cidx := rb_cidx rb + 1\<rparr> \<or>
         idx = IDX_TIMEDOUT \<and> rb' = rb"
  using assms
  by (induction rb usecs ts rule: ring_buffer_cwait.induct)
    (auto dest: stdwait_cases split: option.splits prod.splits if_splits)

lemmas wait_cases = pwait_cases cwait_cases

section \<open>The two threads\<close>

text \<open>
  The indices a side has been given and has not posted are in \<open>rr_filling\<close> and
  \<open>rr_draining\<close>; \<open>rr_posted\<close> and \<open>rr_taken\<close> are the histories of what was published and what
  the consumer was given. The producer and the consumer each post what they hold in order.
\<close>

record ring_run =
  rr_rb :: ring_buffer
  rr_filling :: "u32 list"
  rr_posted :: "u32 list"
  rr_draining :: "u32 list"
  rr_taken :: "u32 list"

definition ring_start :: "ring_buffer \<Rightarrow> ring_run" where
  "ring_start rb = \<lparr>rr_rb = rb, rr_filling = [], rr_posted = [], rr_draining = [], rr_taken = []\<rparr>"

inductive rb_step :: "ring_run \<Rightarrow> ring_run \<Rightarrow> bool" where
  acquire: "ring_buffer_pwait (rr_rb s) usecs ts = Some (idx, rb') \<Longrightarrow> idx \<noteq> IDX_TIMEDOUT \<Longrightarrow>
    rb_step s (s\<lparr>rr_rb := rb', rr_filling := rr_filling s @ [idx]\<rparr>)"
| acquire_timeout: "ring_buffer_pwait (rr_rb s) usecs ts = Some (IDX_TIMEDOUT, rb') \<Longrightarrow>
    rb_step s (s\<lparr>rr_rb := rb'\<rparr>)"
| publish: "rr_filling s = idx # rest \<Longrightarrow>
    rb_step s (s\<lparr>rr_rb := ring_buffer_ppost (rr_rb s), rr_filling := rest, rr_posted := rr_posted s @ [idx]\<rparr>)"
| take_item: "ring_buffer_cwait (rr_rb s) usecs ts = Some (idx, rb') \<Longrightarrow> idx \<noteq> IDX_TIMEDOUT \<Longrightarrow>
    rb_step s (s\<lparr>rr_rb := rb', rr_draining := rr_draining s @ [idx], rr_taken := rr_taken s @ [idx]\<rparr>)"
| take_timeout: "ring_buffer_cwait (rr_rb s) usecs ts = Some (IDX_TIMEDOUT, rb') \<Longrightarrow>
    rb_step s (s\<lparr>rr_rb := rb'\<rparr>)"
| release: "rr_draining s = idx # rest \<Longrightarrow>
    rb_step s (s\<lparr>rr_rb := ring_buffer_cpost (rr_rb s), rr_draining := rest\<rparr>)"

inductive rb_reach :: "ring_run \<Rightarrow> ring_run \<Rightarrow> bool" for s0 where
  reach_start: "rb_reach s0 s0"
| reach_step: "rb_reach s0 s \<Longrightarrow> rb_step s s' \<Longrightarrow> rb_reach s0 s'"

inductive_cases rb_stepE: "rb_step s s'"

text \<open>Everything the run has been given, as numbers instead of 32-bit indices.\<close>

definition nr_made :: "ring_run \<Rightarrow> nat" where
  "nr_made s = length (rr_posted s) + length (rr_filling s)"

definition nr_released :: "ring_run \<Rightarrow> nat" where
  "nr_released s = length (rr_taken s) - length (rr_draining s)"

definition ring_inv :: "nat \<Rightarrow> ring_run \<Rightarrow> bool" where
  "ring_inv n s \<longleftrightarrow>
     unat (rb_items (rr_rb s)) = n \<and>
     rb_pidx (rr_rb s) = of_nat (nr_made s) \<and> rb_cidx (rr_rb s) = of_nat (length (rr_taken s)) \<and>
     rr_posted s @ rr_filling s = map of_nat [0..<nr_made s] \<and>
     rr_taken s = map of_nat [0..<length (rr_taken s)] \<and>
     length (rr_draining s) \<le> length (rr_taken s) \<and>
     rr_draining s = map of_nat [nr_released s..<length (rr_taken s)] \<and>
     length (rr_taken s) + rb_consumer (rr_rb s) = length (rr_posted s) \<and>
     nr_made s + rb_producer (rr_rb s) = nr_released s + n"

lemma of_nat_not_timedout: "n < 2 ^ 32 - 1 \<Longrightarrow> of_nat n \<noteq> IDX_TIMEDOUT"
proof
  assume "n < 2 ^ 32 - 1" "of_nat n = IDX_TIMEDOUT"
  then have "n = unat IDX_TIMEDOUT" using unat_of_nat32 [of n] by (simp del: unat_of_nat)
  moreover have "unat IDX_TIMEDOUT = 2 ^ 32 - 1"
    by (simp add: IDX_TIMEDOUT_def unsigned_minus_1_eq_mask mask_eq_exp_minus_1)
  ultimately show False using \<open>n < 2 ^ 32 - 1\<close> by simp
qed

lemma ring_inv_step:
  assumes "ring_inv n s" and "rb_step s s'" and "nr_made s' < 2 ^ 32 - 1"
  shows "ring_inv n s' \<and> nr_made s \<le> nr_made s'"
  using assms(2)
proof cases
  case (acquire usecs ts idx rb')
  with pwait_cases [OF acquire(2)] assms(1,3) show ?thesis
    by (auto simp: ring_inv_def nr_made_def nr_released_def)
next
  case (acquire_timeout usecs ts rb')
  then have "of_nat (nr_made s) \<noteq> IDX_TIMEDOUT"
    using assms(3) by (intro of_nat_not_timedout) (simp add: nr_made_def)
  with pwait_cases [OF acquire_timeout(2)] acquire_timeout(1) assms(1) show ?thesis
    by (auto simp: ring_inv_def nr_made_def nr_released_def)
next
  case (publish idx rest)
  then show ?thesis using assms(1,3) by (auto simp: ring_inv_def nr_made_def nr_released_def ring_buffer_ppost_def)
next
  case (take_item usecs ts idx rb')
  with cwait_cases [OF take_item(2)] assms(1,3) show ?thesis
    by (auto simp: ring_inv_def nr_made_def nr_released_def)
next
  case (take_timeout usecs ts rb')
  then have "of_nat (length (rr_taken s)) \<noteq> IDX_TIMEDOUT"
    using assms(1,3) by (intro of_nat_not_timedout) (simp add: nr_made_def ring_inv_def)
  with cwait_cases [OF take_timeout(2)] take_timeout(1) assms(1) show ?thesis
    by (auto simp: ring_inv_def nr_made_def nr_released_def)
next
  case (release idx rest)
  from assms(1) release(2) have "nr_released s < length (rr_taken s)" 
    and "rest = map of_nat [Suc (nr_released s)..<length (rr_taken s)]"
    by (auto simp: ring_inv_def upt_conv_Cons Cons_eq_map_conv upt_eq_Cons_conv)
  moreover have "nr_released s' = Suc (nr_released s)"
    using release assms(1) by (auto simp: ring_inv_def nr_released_def)
  ultimately show ?thesis using assms(1,3) release
    by (auto simp: ring_inv_def nr_made_def ring_buffer_cpost_def simp del: upt_Suc)
qed

lemma reach_inv:
  assumes "rb_reach s0 s" and "ring_inv n s0" and "nr_made s < 2 ^ 32 - 1"
  shows "ring_inv n s"
  using assms(1,3)
proof induction
  case reach_start
  then show ?case using assms(2) by simp
next
  case (reach_step s s')
  have "nr_made s \<le> nr_made s'" using reach_step(2)
    by cases (auto simp: nr_made_def)
  with reach_step ring_inv_step [of n s s'] show ?case by auto
qed

lemma ring_start_inv:
  "ring_buffer_create items isize a b c = Some (sz, rb) \<Longrightarrow> ring_inv (unat items) (ring_start rb)"
  by (auto simp: ring_buffer_create_def ring_start_def ring_inv_def nr_made_def nr_released_def Let_def split: if_splits)

text \<open>Slots are indices modulo the number of items, a power of two.\<close>

lemma int_idx_mod:
  assumes "rb_items rb = 2 ^ k" and "k < 32"
  shows "int_idx rb w = take_bit k w"
  using assms by (simp add: int_idx_def and.commute [of _ w] and_mask_take_bit flip: mask_eq_decr_exp)

lemma mod_window:
  assumes "(i :: nat) mod n = j mod n" and "i \<le> j" and "j < i + n"
  shows "i = j"
proof -
  have "n dvd j - i" using assms by (metis mod_eq_dvd_iff_nat)
  with assms(2,3) show ?thesis by (auto dest: dvd_imp_le)
qed

lemma window_slots:
  assumes "rb_items rb = 2 ^ k" and "k < 32" and "b \<le> a + 2 ^ k" and "b < 2 ^ 32"
  shows "inj_on (\<lambda>i. int_idx rb (of_nat i)) {a..<b}"
proof (rule inj_onI)
  fix i j assume ij: "i \<in> {a..<b}" "j \<in> {a..<b}" "int_idx rb (of_nat i) = int_idx rb (of_nat j)"
  from ij(3) have "unat (take_bit k (of_nat i) :: u32) = unat (take_bit k (of_nat j) :: u32)"
    using assms int_idx_mod by metis
  then have m: "i mod 2 ^ k = j mod 2 ^ k"
    using ij assms(2,4) unat_of_nat32 [of i] unat_of_nat32 [of j]
    by (simp add: unsigned_take_bit_eq flip: take_bit_eq_mod del: unat_of_nat)
  from mod_window [OF m] mod_window [OF m [symmetric]] ij assms(3) show "i = j"
    by (cases "i \<le> j") auto
qed

section \<open>Properties\<close>

text \<open>C3: In every interleaving of the two threads, until 2^32 - 1 items have been produced, the
  slots held by the consumer, waiting to be consumed and held by the producer are pairwise
  different, every slot is accounted for by a semaphore or by a thread, and the consumer is
  given the published indices in the order they were published.\<close>

theorem ring_buffer_no_sharing:
  assumes "ring_buffer_create (2 ^ k) isize True True True = Some (sz, rb0)" and "k < 32"
    and "rb_reach (ring_start rb0) s"
    and "length (rr_posted s) + length (rr_filling s) < 2 ^ 32 - 1"
  shows "distinct (map (int_idx (rr_rb s)) (rr_draining s @ drop (length (rr_taken s)) (rr_posted s) @ rr_filling s)) \<and>
    rb_producer (rr_rb s) + length (rr_filling s) + rb_consumer (rr_rb s) + length (rr_draining s) = 2 ^ k \<and>
    prefix (rr_taken s) (rr_posted s)"
proof -
  have items: "unat (2 ^ k :: u32) = 2 ^ k" using assms(2) by (rule unat_exp32)
  from reach_inv [OF assms(3) ring_start_inv [OF assms(1)]] assms(4)
  have inv: "ring_inv (2 ^ k) s" by (simp add: nr_made_def items)
  then have it: "rb_items (rr_rb s) = 2 ^ k"
    using items by (simp add: ring_inv_def word_unat_eq_iff)
  let ?all = "rr_draining s @ drop (length (rr_taken s)) (rr_posted s) @ rr_filling s"
  have le: "length (rr_taken s) \<le> length (rr_posted s)" "nr_made s \<le> nr_released s + 2 ^ k" "nr_released s \<le> length (rr_taken s)"
    using inv by (auto simp: ring_inv_def nr_released_def)
  have "drop (length (rr_taken s)) (rr_posted s) @ rr_filling s = drop (length (rr_taken s)) (rr_posted s @ rr_filling s)"
    using le by simp
  also have "\<dots> = map of_nat [length (rr_taken s)..<nr_made s]"
    using inv by (simp add: ring_inv_def drop_map)
  finally have all: "?all = map of_nat [nr_released s..<nr_made s]"
    using inv upt_add_eq_append [of "nr_released s" "length (rr_taken s)" "nr_made s - length (rr_taken s)"] le
    by (simp add: ring_inv_def nr_made_def flip: map_append)
  from window_slots [OF it assms(2) le(2)] assms(4)
  have "distinct (map (int_idx (rr_rb s)) ?all)"
    unfolding all by (simp add: distinct_map nr_made_def inj_on_def)
  moreover have "rb_producer (rr_rb s) + length (rr_filling s) + rb_consumer (rr_rb s) + length (rr_draining s) = 2 ^ k"
    using inv by (auto simp: ring_inv_def nr_made_def nr_released_def)
  moreover have "rr_taken s = take (length (rr_taken s)) (rr_posted s)"
  proof -
    have "take (length (rr_taken s)) (rr_posted s @ rr_filling s) = map of_nat [0..<length (rr_taken s)]"
      using inv le by (simp add: ring_inv_def take_map nr_made_def)
    also have "\<dots> = rr_taken s" using inv unfolding ring_inv_def by metis
    finally show ?thesis using le by simp
  qed
  ultimately show ?thesis by (metis take_is_prefix)
qed

text \<open>Two places, the producer fills one and the consumer has taken it.\<close>

theorem ring_buffer_no_sharing_witness:
  "\<exists>sz rb0 s. ring_buffer_create (2 ^ 1) 16 True True True = Some (sz, rb0) \<and> rb_reach (ring_start rb0) s \<and>
     rr_filling s = [0] \<and> rb_producer (rr_rb s) = 1 \<and> prefix (rr_taken s) (rr_posted s)"
proof -
  obtain sz rb0 where c: "ring_buffer_create (2 ^ 1) 16 True True True = Some (sz, rb0)"
    and rb0: "rb_pidx rb0 = 0" "rb_producer rb0 = 2"
    by (simp add: ring_buffer_create_def Let_def)
  define s where "s = (ring_start rb0)\<lparr>rr_rb := rb0\<lparr>rb_producer := 1, rb_pidx := 1\<rparr>, rr_filling := [0]\<rparr>"
  have "ring_buffer_pwait rb0 0 [(None, Deadline)] = Some (0, rb0\<lparr>rb_producer := 1, rb_pidx := 1\<rparr>)"
    using rb0 by (simp add: ring_buffer_stdwait_def errno_defs eval_nat_numeral)
  then have "rb_step (ring_start rb0) s"
    using acquire [of "ring_start rb0" 0 "[(None, Deadline)]" 0] 
    by (simp add: ring_start_def s_def IDX_TIMEDOUT_def)
  then have r: "rb_reach (ring_start rb0) s" by (blast intro: reach_start reach_step)
  from ring_buffer_no_sharing [OF c _ r] have "prefix (rr_taken s) (rr_posted s)"
    by (simp add: s_def ring_start_def)
  with c r show ?thesis by (auto simp: s_def)
qed

text \<open>The deadline of a timed wait is exactly \<open>usecs\<close> microseconds after the clock reading, and
  its nanoseconds are at most 10^9.\<close>

theorem ring_buffer_deadline:
  assumes "deadline (sec, nsec) usecs = (sec', nsec')"
    and "0 \<le> usecs" and "0 \<le> nsec" "nsec < 1000000000"
  shows "sec' * 1000000000 + nsec' = sec * 1000000000 + nsec + usecs * 1000 \<and> 0 \<le> nsec' \<and> nsec' \<le> 1000000000"
proof -
  have q: "usecs div 1000000 * 1000000000 + usecs mod 1000000 * 1000 = usecs * 1000"
    using div_mult_mod_eq [of usecs 1000000] by linarith
  have "0 \<le> usecs mod 1000000" "usecs mod 1000000 < 1000000" by simp_all
  moreover have "usecs smod 1000000 = usecs mod 1000000" "usecs sdiv 1000000 = usecs div 1000000"
    using assms(2) by (cases "usecs = 0"; simp add: signed_modulo_int_def signed_divide_int_def)+
  ultimately show ?thesis
    using assms q by (auto simp: deadline_def Let_def split: if_splits)
qed

theorem ring_buffer_deadline_witness:
  "\<exists>sec' nsec'. deadline (10, 999999999) 2500000 = (sec', nsec') \<and> nsec' \<le> 1000000000 \<and>
    sec' * 1000000000 + nsec' = 13499999999"
  using ring_buffer_deadline [of 10 999999999 2500000] by (cases "deadline (10, 999999999) 2500000") simp

text \<open>One deadline is not normalised: where clock and timeout sum to a full second the call is
  made with 10^9 nanoseconds, which POSIX rejects, so a consumer with an empty ring is told at
  once that it timed out.\<close>

theorem ring_buffer_deadline_full_second:
  "ring_buffer_cwait (rb\<lparr>rb_consumer := 0\<rparr>) 1000 [(Some (sec, 999000000), Still_blocked)]
    = Some (IDX_TIMEDOUT, rb\<lparr>rb_consumer := 0\<rparr>) \<and>
   ring_buffer_cwait (rb\<lparr>rb_consumer := 0\<rparr>) 1001 [(Some (sec, 999000000), Still_blocked)] = None"
  by (simp add: ring_buffer_stdwait_def deadline_def signed_modulo_int_def signed_divide_int_def errno_defs)

text \<open>The index after 2^32 - 1 items equals the timeout code: the wait takes a slot from the
  semaphore and reports a timeout, so the slot is lost.\<close>

theorem ring_buffer_wrap_loses_slot:
  "ring_buffer_pwait (rb\<lparr>rb_pidx := NOT 0, rb_producer := Suc n\<rparr>) usecs ((Some now, w) # ts)
    = Some (IDX_TIMEDOUT, rb\<lparr>rb_pidx := 0, rb_producer := n\<rparr>)"
  by (cases now) (simp add: ring_buffer_stdwait_def IDX_TIMEDOUT_def errno_defs split: prod.splits)

text \<open>With a power-of-two number of items and a block of less than 4 GiB every item lies inside
  the allocation.\<close>

theorem ring_buffer_at_inside:
  assumes "ring_buffer_create (2 ^ k) isize True True True = Some (sz, rb)" and "k < 32"
    and "2 ^ k * unat isize < 2 ^ 32"
  shows "unat RING_HDR + unat (ring_buffer_at rb idx) + unat isize \<le> unat sz"
proof -
  have rb: "rb_items rb = 2 ^ k" "rb_isize rb = isize" "sz = ucast (2 ^ k * isize) + RING_HDR"
    using assms(1) by (auto simp: ring_buffer_create_def Let_def split: if_splits)
  have m: "unat (2 ^ k * isize) = 2 ^ k * unat isize"
    using assms(2,3) unat_exp32 [of k] by (simp add: unat_mult_lem [THEN iffD1])
  then have sz: "unat sz = 2 ^ k * unat isize + 128"
    using assms(3) rb by (simp add: RING_HDR_def unat_add_lem [THEN iffD1])
  have lt: "unat (int_idx rb idx) < 2 ^ k"
    using int_idx_mod [OF rb(1) assms(2)] by (simp add: unsigned_take_bit_eq)
  then have "unat isize * (unat (int_idx rb idx) + 1) \<le> unat isize * 2 ^ k"
    by (intro mult_le_mono2) simp
  then have le: "unat isize * unat (int_idx rb idx) + unat isize \<le> 2 ^ k * unat isize"
    by (simp add: mult.commute)
  then have "unat (ring_buffer_at rb idx) = unat isize * unat (int_idx rb idx)"
    using assms(3) rb by (simp add: ring_buffer_at_def unat_mult_lem [THEN iffD1])
  with le sz show ?thesis by (simp add: RING_HDR_def)
qed

theorem ring_buffer_at_inside_witness:
  "\<exists>sz rb. ring_buffer_create (2 ^ 2) 24 True True True = Some (sz, rb) \<and>
     unat RING_HDR + unat (ring_buffer_at rb 7) + 24 \<le> unat sz"
  using ring_buffer_at_inside [of 2 24 _ _ 7]
  by (simp add: ring_buffer_create_def Let_def)

end
