(* ===== verification/CString.thy ===== *)
theory CString
  imports Prelude "HOL-Library.Char_ord"
begin

text \<open>
  The string functions of the C library the code calls, on HOL strings: a C string is the list
  of its characters before the terminating zero.
\<close>

section \<open>Characters\<close>

definition isdigit :: "char \<Rightarrow> bool" where
  "isdigit c \<longleftrightarrow> CHR ''0'' \<le> c \<and> c \<le> CHR ''9''"

definition isalpha :: "char \<Rightarrow> bool" where
  "isalpha c \<longleftrightarrow> (CHR ''A'' \<le> c \<and> CHR ''Z'' \<ge> c) \<or> (CHR ''a'' \<le> c \<and> CHR ''z'' \<ge> c)"

definition tolower :: "char \<Rightarrow> char" where
  "tolower c = (if CHR ''A'' \<le> c \<and> c \<le> CHR ''Z'' then char_of (of_char c + 32 :: nat) else c)"

definition strcaseeq :: "string \<Rightarrow> string \<Rightarrow> bool" where
  "strcaseeq a b \<longleftrightarrow> map tolower a = map tolower b"

lemma strcaseeq_refl [simp]: "strcaseeq a a"
  by (simp add: strcaseeq_def)

lemma isdigit_not_isalpha: "isdigit c \<Longrightarrow> \<not> isalpha c"
  by (auto simp: isdigit_def isalpha_def less_eq_char_def)

section \<open>Numbers\<close>

definition digit_val :: "char \<Rightarrow> nat" where
  "digit_val c = of_char c - of_char (CHR ''0'')"

text \<open>\<open>atoi\<close> of a string that starts with a digit; the value goes through \<open>long\<close> as in glibc.\<close>

definition atoi_digits :: "string \<Rightarrow> u32" where
  "atoi_digits s = of_nat (min (2 ^ 63 - 1)
     (foldl (\<lambda>a c. 10 * a + digit_val c) 0 (takeWhile isdigit s)))"

section \<open>\<open>strtok_r\<close>\<close>

text \<open>The token, \<open>None\<close> at the end, and what is left to scan.\<close>

definition strtok_r :: "string \<Rightarrow> string \<Rightarrow> string option \<times> string" where
  "strtok_r delim s =
    (let s' = dropWhile (\<lambda>c. c \<in> set delim) s in
     if s' = [] then (None, [])
     else (Some (takeWhile (\<lambda>c. c \<notin> set delim) s'), drop 1 (dropWhile (\<lambda>c. c \<notin> set delim) s')))"

lemma strtok_r_none: "strtok_r d [] = (None, [])"
  by (simp add: strtok_r_def)

lemma strtok_r_shorter:
  "strtok_r d s = (Some t, s') \<Longrightarrow> length s' < length s"
  using length_dropWhile_le [of "\<lambda>c. c \<in> set d" s]
    length_dropWhile_le [of "\<lambda>c. c \<notin> set d" "tl (dropWhile (\<lambda>c. c \<in> set d) s)"]
  by (auto simp: strtok_r_def Let_def split: if_splits)
   (smt (verit) Suc_leI diff_le_self dropWhile_eq_Nil_conv length_0_conv length_dropWhile_le less_le_trans not_less length_greater_0_conv diff_less le_trans zero_less_one drop_Suc_Cons length_drop One_nat_def diff_Suc_less)

text \<open>A token without delimiters, followed by a delimiter or the end.\<close>

lemma strtok_r_token:
  assumes "t \<noteq> []" and "\<forall>c \<in> set t. c \<notin> set d"
  shows "strtok_r d t = (Some t, [])"
    and "x \<in> set d \<Longrightarrow> strtok_r d (t @ x # s) = (Some t, s)"
proof -
  have 1: "dropWhile (\<lambda>c. c \<in> set d) (t @ s) = t @ s" for s
    using assms by (cases t) auto
  have 2: "takeWhile (\<lambda>c. c \<notin> set d) (t @ s) = t @ takeWhile (\<lambda>c. c \<notin> set d) s"
    "dropWhile (\<lambda>c. c \<notin> set d) (t @ s) = dropWhile (\<lambda>c. c \<notin> set d) s" for s
    using assms(2) by (auto simp: takeWhile_append2 dropWhile_append2)
  have e: "dropWhile (\<lambda>c. c \<notin> set d) t = []" "takeWhile (\<lambda>c. c \<notin> set d) t = t"
    using assms(2) by auto
  show "strtok_r d t = (Some t, [])"
    using assms(1) by (simp add: strtok_r_def 1 [of "[]", simplified] e)
  show "strtok_r d (t @ x # s) = (Some t, s)" if "x \<in> set d"
    using 1 [of "x # s"] 2 [of "x # s"] assms(1) that by (simp add: strtok_r_def)
qed

text \<open>The tokens joined by one delimiter.\<close>

fun join :: "char \<Rightarrow> string list \<Rightarrow> string" where
  "join x [] = []"
| "join x [t] = t"
| "join x (t # ts) = t @ x # join x ts"

lemma join_Cons: "ts \<noteq> [] \<Longrightarrow> join x (t # ts) = t @ x # join x ts"
  by (cases ts) auto

end
