(* ===== verification/StreamFormat.thy ===== *)
theory StreamFormat
  imports CString
begin

text \<open>
  Stream formats and channel lists (\<open>src/lib/ipblks/streams/streams.c\<close>, \<open>streams.h\<close>,
  \<open>streams_api.c\<close>): the sample format of a string, the split of \<open>host@wire\<close>, the channel list of
  a device parameter and its translation to hardware channels. A write outside the 64-entry
  channel map is \<open>None\<close>.
\<close>

section \<open>Formats\<close>

record bitsfmt =
  bf_bits :: u8
  bf_complex :: bool
  bf_func :: string

definition get_bits_fmt :: "string \<Rightarrow> bitsfmt" where
  "get_bits_fmt fmt =
    (let cplx = fmt \<noteq> [] \<and> (hd fmt = CHR ''c'' \<or> hd fmt = CHR ''C'');
         f = (if cplx then tl fmt else fmt)
     in if strcaseeq f ''i12'' then \<lparr>bf_bits = 12, bf_complex = cplx, bf_func = []\<rparr>
        else if strcaseeq f ''i16'' then \<lparr>bf_bits = 16, bf_complex = cplx, bf_func = []\<rparr>
        else \<lparr>bf_bits = 0, bf_complex = cplx, bf_func = take 30 f\<rparr>)"

record parsed_data_format =
  host_fmt :: "string option"
  wire_fmt :: "string option"

definition stream_parse_dformat :: "string \<Rightarrow> parsed_data_format" where
  "stream_parse_dformat dmft =
    (case strtok_r ''@'' dmft of (h, rest) \<Rightarrow>
       \<lparr>host_fmt = h, wire_fmt = fst (strtok_r ''@'' rest)\<rparr>)"

section \<open>Channel maps\<close>

definition MAX_CHANNELS :: nat where "MAX_CHANNELS = 64"

type_synonym channel_info = "u8 list"

definition chmap_set :: "channel_info \<Rightarrow> nat \<Rightarrow> u32 \<Rightarrow> channel_info option" where
  "chmap_set m i v = (if i < length m then Some (m[i := ucast v]) else None)"

text \<open>A table is its named entries and the index its terminating entry carries. The whole list
  is translated even after an unknown name.\<close>

definition chan_lookup :: "(string \<times> u32) list \<Rightarrow> string \<Rightarrow> u32 option" where
  "chan_lookup table n = map_option snd (find (\<lambda>t. strcaseeq n (fst t)) table)"

definition chan_hwidx :: "(string \<times> u32) list \<Rightarrow> u32 \<Rightarrow> string \<Rightarrow> u32" where
  "chan_hwidx table hw_end n = (case chan_lookup table n of Some h \<Rightarrow> h | None \<Rightarrow> hw_end)"

fun channel_info_remap_from ::
  "nat \<Rightarrow> int \<Rightarrow> string list \<Rightarrow> (string \<times> u32) list \<Rightarrow> u32 \<Rightarrow> channel_info \<Rightarrow> (int \<times> channel_info) option" where
  "channel_info_remap_from i res [] table hw_end out = Some (res, out)"
| "channel_info_remap_from i res (n # ns) table hw_end out =
    (case chmap_set out i (chan_hwidx table hw_end n) of
       None \<Rightarrow> None
     | Some out' \<Rightarrow>
         channel_info_remap_from (i + 1) (if chan_lookup table n = None then - EINVAL else res) ns table hw_end out')"

definition channel_info_remap ::
  "string list \<Rightarrow> (string \<times> u32) list \<Rightarrow> u32 \<Rightarrow> channel_info \<Rightarrow> (int \<times> channel_info) option" where
  "channel_info_remap names table hw_end out = channel_info_remap_from 0 0 names table hw_end out"

text \<open>\<open>usdr_channel_info_t\<close>; an absent list is a NULL pointer.\<close>

record usdr_channel_info =
  ci_count :: nat
  ci_names :: "string list option"
  ci_nums :: "u32 list option"

fun chmap_fill :: "nat \<Rightarrow> u32 list \<Rightarrow> u32 \<Rightarrow> channel_info \<Rightarrow> (int \<times> channel_info) option" where
  "chmap_fill i [] max_chnum m = Some (0, m)"
| "chmap_fill i (n # ns) max_chnum m =
    (if n \<ge> max_chnum then Some (- EINVAL, m)
     else case chmap_set m i n of None \<Rightarrow> None | Some m' \<Rightarrow> chmap_fill (i + 1) ns max_chnum m')"

fun chmap_count :: "nat \<Rightarrow> nat \<Rightarrow> channel_info \<Rightarrow> channel_info option" where
  "chmap_count i 0 m = Some m"
| "chmap_count i (Suc k) m =
    (case chmap_set m i (of_nat i) of None \<Rightarrow> None | Some m' \<Rightarrow> chmap_count (i + 1) k m')"

definition usdr_channel_info_map_default ::
  "usdr_channel_info \<Rightarrow> (string \<times> u32) list \<Rightarrow> u32 \<Rightarrow> u32 \<Rightarrow> channel_info \<Rightarrow> (int \<times> channel_info) option" where
  "usdr_channel_info_map_default ci table hw_end max_chnum core =
    (case (ci_names ci, ci_nums ci) of
       (None, None) \<Rightarrow> map_option (\<lambda>m. (0, m)) (chmap_count 0 (ci_count ci) core)
     | (Some names, _) \<Rightarrow> channel_info_remap (take (ci_count ci) names) table hw_end core
     | (None, Some nums) \<Rightarrow> chmap_fill 0 (take (ci_count ci) nums) max_chnum core)"

section \<open>Channel lists\<close>

definition chan_delim :: string where "chan_delim = '':_-/''"

function chan_tokens :: "nat \<Rightarrow> bool \<Rightarrow> bool \<Rightarrow> string \<Rightarrow> u32 list \<Rightarrow> string list \<Rightarrow> (u32 list \<times> string list) option" where
  "chan_tokens maxc has_nums has_names rest nums names =
    (if \<not> (length nums < maxc \<and> length names < maxc) then Some (nums, names)
     else case strtok_r chan_delim rest of
       (None, _) \<Rightarrow> Some (nums, names)
     | (Some t, rest') \<Rightarrow>
         if isdigit (hd t) \<and> has_nums then chan_tokens maxc has_nums has_names rest' (nums @ [atoi_digits t]) names
         else if isalpha (hd t) \<and> has_names then chan_tokens maxc has_nums has_names rest' nums (names @ [t])
         else None)"
  by pat_completeness auto
termination
  by (relation "measure (\<lambda>(_, _, _, rest, _, _). length rest)") (auto dest: strtok_r_shorter [OF sym])

declare chan_tokens.simps [simp del]

text \<open>The arrays the caller supplies have \<open>maxc\<close> entries, cleared first.\<close>

definition usdr_channel_info_string_parse ::
  "string \<Rightarrow> nat \<Rightarrow> bool \<Rightarrow> bool \<Rightarrow> int + usdr_channel_info" where
  "usdr_channel_info_string_parse chanlist maxc has_nums has_names =
    (case chan_tokens maxc has_nums has_names chanlist [] [] of
       None \<Rightarrow> Inl (- EINVAL)
     | Some (nums, names) \<Rightarrow>
         if 0 < length nums \<and> 0 < length names then Inl (- EINVAL)
         else Inr \<lparr>ci_count = (if 0 < length nums then length nums else length names),
                   ci_names = (if length names = 0 then None else Some (names @ replicate (maxc - length names) [])),
                   ci_nums = (if length nums = 0 then None else Some (nums @ replicate (maxc - length nums) 0xffffffff))\<rparr>)"

section \<open>Lemmas\<close>

lemma get_bits_fmt_bits: "bf_bits (get_bits_fmt fmt) \<in> {0, 12, 16}"
  by (simp add: get_bits_fmt_def Let_def)

lemma chan_tokens_names:
  assumes "\<forall>t \<in> set ts. t \<noteq> [] \<and> isalpha (hd t) \<and> (\<forall>c \<in> set t. c \<notin> set chan_delim)"
    and "length names + length ts \<le> maxc" and "nums = []" "x \<in> set chan_delim"
  shows "chan_tokens maxc has_nums True (join x ts) nums names = Some ([], names @ ts)"
  using assms
proof (induction ts arbitrary: names)
  case Nil
  then show ?case by (subst chan_tokens.simps) (simp add: strtok_r_none)
next
  case (Cons t ts)
  have tok: "strtok_r chan_delim (join x (t # ts)) = (Some t, join x ts)"
    using Cons.prems strtok_r_token [of t chan_delim] by (cases ts) auto
  have "\<not> isdigit (hd t)" using Cons.prems isdigit_not_isalpha by auto
  with Cons show ?case by (subst chan_tokens.simps) (simp add: tok)
qed

lemma chan_tokens_nums:
  assumes "\<forall>t \<in> set ts. t \<noteq> [] \<and> isdigit (hd t) \<and> (\<forall>c \<in> set t. c \<notin> set chan_delim)"
    and "length nums + length ts \<le> maxc" and "names = []" "x \<in> set chan_delim"
  shows "chan_tokens maxc True has_names (join x ts) nums names = Some (nums @ map atoi_digits ts, [])"
  using assms
proof (induction ts arbitrary: nums)
  case Nil
  then show ?case by (subst chan_tokens.simps) (simp add: strtok_r_none)
next
  case (Cons t ts)
  have tok: "strtok_r chan_delim (join x (t # ts)) = (Some t, join x ts)"
    using Cons.prems strtok_r_token [of t chan_delim] by (cases ts) auto
  with Cons show ?case by (subst chan_tokens.simps) (simp add: tok)
qed

lemma remap_from_res:
  "channel_info_remap_from i res ns table hw_end out = Some (res', out') \<Longrightarrow>
   res' = (if \<forall>n \<in> set ns. chan_lookup table n \<noteq> None then res else - EINVAL)"
  by (induction i res ns table hw_end out rule: channel_info_remap_from.induct)
    (simp, fastforce split: option.splits if_splits)

lemma remap_from_map:
  "i + length ns \<le> length out \<Longrightarrow>
   \<exists>res'. channel_info_remap_from i res ns table hw_end out =
     Some (res', take i out @ map (\<lambda>n. ucast (chan_hwidx table hw_end n)) ns @ drop (i + length ns) out)"
proof (induction ns arbitrary: i res out)
  case Nil
  then show ?case by simp
next
  case (Cons n ns)
  let ?out = "out[i := ucast (chan_hwidx table hw_end n)]"
  have "take (Suc i) ?out = take i out @ [ucast (chan_hwidx table hw_end n)]"
    "drop (Suc (i + length ns)) ?out = drop (Suc (i + length ns)) out"
    using Cons.prems by (auto simp: take_Suc_conv_app_nth)
  with Cons.IH [of "Suc i" ?out] Cons.prems show ?case
    by (simp add: chmap_set_def)
qed

lemma channel_info_remap_ok:
  assumes "length ns \<le> length out" and "\<forall>n \<in> set ns. chan_lookup table n \<noteq> None"
  shows "channel_info_remap ns table hw_end out =
    Some (0, map (\<lambda>n. ucast (the (chan_lookup table n))) ns @ drop (length ns) out)"
proof -
  from remap_from_map [of 0 ns out 0 table hw_end] assms(1) obtain res where
    r: "channel_info_remap ns table hw_end out =
     Some (res, map (\<lambda>n. ucast (chan_hwidx table hw_end n)) ns @ drop (length ns) out)"
    by (auto simp: channel_info_remap_def)
  moreover have "res = 0"
    using remap_from_res [OF r [unfolded channel_info_remap_def]] assms(2) by simp
  moreover have "chan_hwidx table hw_end n = the (chan_lookup table n)" if "n \<in> set ns" for n
    using that assms(2) by (auto simp: chan_hwidx_def)
  ultimately show ?thesis by simp
qed

lemma chmap_fill_ok:
  "i + length ns \<le> length m \<Longrightarrow> \<forall>n \<in> set ns. n < mx \<Longrightarrow>
   chmap_fill i ns mx m = Some (0, take i m @ map ucast ns @ drop (i + length ns) m)"
proof (induction ns arbitrary: i m)
  case (Cons n ns)
  have "take (Suc i) (m[i := ucast n]) = take i m @ [ucast n]"
    "drop (Suc (i + length ns)) (m[i := ucast n]) = drop (Suc (i + length ns)) m"
    using Cons.prems by (auto simp: take_Suc_conv_app_nth)
  moreover have "\<not> mx \<le> n" using Cons.prems(2) by auto
  ultimately show ?case using Cons by (simp add: chmap_set_def)
qed simp

lemma chmap_fill_error:
  "i + length ns \<le> length m \<Longrightarrow> \<exists>n \<in> set ns. mx \<le> n \<Longrightarrow> \<exists>m'. chmap_fill i ns mx m = Some (- EINVAL, m')"
proof (induction ns arbitrary: i m)
  case (Cons n ns)
  from Cons.IH [of "Suc i" "m[i := ucast n]"] Cons.prems show ?case
    by (cases "mx \<le> n") (simp_all add: chmap_set_def)
qed simp

section \<open>Properties\<close>

lemma channel_info_remap_names:
  assumes "length ns \<le> length out"
  shows "\<exists>res m. channel_info_remap ns table hw_end out = Some (res, m) \<and>
    (if \<forall>n \<in> set ns. chan_lookup table n \<noteq> None
     then res = 0 \<and> m = map (\<lambda>n. ucast (the (chan_lookup table n))) ns @ drop (length ns) out else res = - EINVAL)"
proof (cases "\<forall>n \<in> set ns. chan_lookup table n \<noteq> None")
  case True
  then show ?thesis using channel_info_remap_ok [OF assms] by simp
next
  case False
  from remap_from_map [of 0 ns out 0 table hw_end] assms obtain res m where
    r: "channel_info_remap ns table hw_end out = Some (res, m)"
    by (auto simp: channel_info_remap_def)
  from remap_from_res [OF r [unfolded channel_info_remap_def]] False have "res = - EINVAL" by argo
  with r False show ?thesis by auto
qed

text \<open>C27: A channel list of names, written with any of the separators, is parsed to exactly these
  names. When the device's table knows them all, they are mapped to the hardware index of each (the
  first entry that matches without regard to case) and the rest of the map is kept; when it does not know one of them the
  list is refused as invalid.\<close>

theorem channel_names_mapped:
  assumes "\<forall>n \<in> set ns. n \<noteq> [] \<and> isalpha (hd n) \<and> (\<forall>c \<in> set n. c \<notin> set chan_delim)"
    and "ns \<noteq> []" and "length ns \<le> maxc" and "length ns \<le> length core" and "x \<in> set chan_delim"
  shows "\<exists>ci res m. usdr_channel_info_string_parse (join x ns) maxc has_nums True = Inr ci \<and> ci_count ci = length ns \<and>
    usdr_channel_info_map_default ci table hw_end mx core = Some (res, m) \<and>
    (if \<forall>n \<in> set ns. chan_lookup table n \<noteq> None
     then res = 0 \<and> m = map (\<lambda>n. ucast (the (chan_lookup table n))) ns @ drop (length ns) core
     else res = - EINVAL)"
  using chan_tokens_names [of ns "[]" maxc "[]" x has_nums] assms channel_info_remap_names [of ns core table hw_end]
  by (simp add: usdr_channel_info_string_parse_def usdr_channel_info_map_default_def)

theorem channel_names_mapped_witness:
  "(\<exists>ci. usdr_channel_info_string_parse (join (CHR '':'') [''B'', ''a'']) 4 False True = Inr ci \<and>
     usdr_channel_info_map_default ci [(''a'', 0), (''b'', 1)] 255 4 [9, 9, 9] = Some (0, [1, 0, 9])) \<and>
   (\<exists>ci m. usdr_channel_info_string_parse (join (CHR '':'') [''B'', ''c'']) 4 False True = Inr ci \<and>
     usdr_channel_info_map_default ci [(''a'', 0), (''b'', 1)] 255 4 [9, 9, 9] = Some (- EINVAL, m))"
proof -
  have "chan_lookup [(''a'', 0), (''b'', 1)] ''B'' = Some 1" "chan_lookup [(''a'', 0), (''b'', 1)] ''a'' = Some 0"
    "chan_lookup [(''a'', 0), (''b'', 1)] ''c'' = None"
    by (code_simp, code_simp, code_simp)
  with channel_names_mapped [of "[''B'', ''a'']" 4 "[9, 9, 9]" "CHR '':''" False "[(''a'', 0), (''b'', 1)]" 255 4]
    channel_names_mapped [of "[''B'', ''c'']" 4 "[9, 9, 9]" "CHR '':''" False "[(''a'', 0), (''b'', 1)]" 255 4]
  show ?thesis by (auto simp: isalpha_def chan_delim_def less_eq_char_def)
qed

text \<open>A list of channel numbers is parsed to their values and accepted exactly when every
  number is below the device's channel count; then the map holds the numbers in order.\<close>

theorem channel_numbers_checked:
  assumes "\<forall>t \<in> set ts. t \<noteq> [] \<and> isdigit (hd t) \<and> (\<forall>c \<in> set t. c \<notin> set chan_delim)"
    and "ts \<noteq> []" and "length ts \<le> maxc" and "length ts \<le> length core" and "x \<in> set chan_delim"
  shows "\<exists>ci res m. usdr_channel_info_string_parse (join x ts) maxc True has_names = Inr ci \<and>
    usdr_channel_info_map_default ci table hw_end mx core = Some (res, m) \<and>
    (if \<forall>t \<in> set ts. atoi_digits t < mx
     then res = 0 \<and> m = map (ucast \<circ> atoi_digits) ts @ drop (length ts) core
     else res = - EINVAL)"
proof -
  let ?ns = "map atoi_digits ts"
  define ci where "ci = \<lparr>ci_count = length ts, ci_names = None,
    ci_nums = Some (?ns @ replicate (maxc - length ts) 0xffffffff)\<rparr>"
  have p: "usdr_channel_info_string_parse (join x ts) maxc True has_names = Inr ci"
    using chan_tokens_nums [of ts "[]" maxc "[]" x has_names] assms
    by (simp add: usdr_channel_info_string_parse_def ci_def)
  have m: "usdr_channel_info_map_default ci table hw_end mx core = chmap_fill 0 ?ns mx core"
    by (simp add: usdr_channel_info_map_default_def ci_def)
  show ?thesis
  proof (cases "\<forall>t \<in> set ts. atoi_digits t < mx")
    case True
    with chmap_fill_ok [of 0 ?ns core mx] assms(4) show ?thesis using p m by auto
  next
    case False
    then have "\<exists>n \<in> set ?ns. mx \<le> n" by (auto simp: not_less)
    with chmap_fill_error [of 0 ?ns core mx] assms(4) False show ?thesis using p m by auto
  qed
qed

theorem channel_numbers_checked_witness:
  "\<exists>ci m. usdr_channel_info_string_parse (join (CHR ''-'') [''12'', ''3'']) 4 True True = Inr ci \<and>
    usdr_channel_info_map_default ci [] 255 8 [9, 9, 9] = Some (- EINVAL, m)"
proof -
  have a: "atoi_digits ''12'' = 12"
    by (simp add: atoi_digits_def isdigit_def digit_val_def less_eq_char_def)
  have "\<forall>t \<in> set [''12'', ''3'']. t \<noteq> [] \<and> isdigit (hd t) \<and> (\<forall>c \<in> set t. c \<notin> set chan_delim)"
    by code_simp
  from channel_numbers_checked [OF this, of 4 "[9, 9, 9]" "CHR ''-''" True "[]" 255 8] a
  show ?thesis by (simp add: chan_delim_def)
qed

end
