(* ===== verification/SfeRx.thy ===== *)
theory SfeRx
  imports Lowlevel StreamFormat
begin

text \<open>
  The receive front end (\<open>src/lib/ipblks/streams/sfe_rx_4.c\<close>, \<open>sfe_txrx_4.h\<close>): how the samples
  of a block are cut into bursts for the FIFO of the core, the register programs that configure,
  throttle, start and stop it, and the butterfly network that permutes channels. A division by
  zero, which ends the process, is \<open>None\<close> in a calculation and \<open>CRASH_FPE\<close> in a program.
\<close>

section \<open>Configuration\<close>

record sfe_cfg =
  cfg_fecore_id :: u32
  cfg_base :: u32
  cfg_fifomaxbytes :: u32
  cfg_word_bytes :: u32
  cfg_dma_align_bytes :: u32
  cfg_raw_chans :: u32

record stream_config =
  sc_sfmt :: string
  sc_spburst :: u32
  sc_burstspblk :: u32
  sc_chcnt :: u32
  sc_channels :: channel_info

record fifo_config =
  fc_bpb :: u32
  fc_burstspblk :: u32
  fc_oob_off :: u32
  fc_oob_len :: u32

definition FE_CMD_REG_ROUTE :: u32 where "FE_CMD_REG_ROUTE = 0"
definition FE_CMD_REG_FREQ_CORDIC :: u32 where "FE_CMD_REG_FREQ_CORDIC = 4"
definition FE_CMD_REG_CFG_CORDIC :: u32 where "FE_CMD_REG_CFG_CORDIC = 5"
definition CMD_REG_ROUTE_OFF :: nat where "CMD_REG_ROUTE_OFF = 28"

definition FE_CMD_BURST_SAMPLES :: u32 where "FE_CMD_BURST_SAMPLES = 0"
definition FE_CMD_BURST_FORMAT :: u32 where "FE_CMD_BURST_FORMAT = 1"
definition FE_CMD_BURST_THROTTLE :: u32 where "FE_CMD_BURST_THROTTLE = 2"
definition FE_CMD_RESET :: u32 where "FE_CMD_RESET = 3"

definition RX_SCMD_IDLE :: u32 where "RX_SCMD_IDLE = 0"
definition RX_SCMD_START_IMM :: u32 where "RX_SCMD_START_IMM = 2"
definition RX_SCMD_STOP_IMM :: u32 where "RX_SCMD_STOP_IMM = 4"

definition IPBLK_PARAM_BUFFER_SIZE_ADDR :: nat where "IPBLK_PARAM_BUFFER_SIZE_ADDR = 16"
definition IPBLK_PARAM_BWORDS :: nat where "IPBLK_PARAM_BWORDS = IPBLK_PARAM_BUFFER_SIZE_ADDR - 3"
definition IPBLK_PARAM_BBURSTS :: nat where "IPBLK_PARAM_BBURSTS = IPBLK_PARAM_BUFFER_SIZE_ADDR - 6"

definition IFMT_DSP :: u32 where "IFMT_DSP = 0"
definition IFMT_8BIT :: u32 where "IFMT_8BIT = 1"
definition IFMT_12BIT :: u32 where "IFMT_12BIT = 2"
definition IFMT_16BIT :: u32 where "IFMT_16BIT = 3"

definition IFMT_CH_3210 :: u32 where "IFMT_CH_3210 = 0"
definition IFMT_CH_xx10 :: u32 where "IFMT_CH_xx10 = 1"
definition IFMT_CH_xxx0 :: u32 where "IFMT_CH_xxx0 = 2"
definition IFMT_CH_xx1x :: u32 where "IFMT_CH_xx1x = 3"
definition IFMT_CH_x2x0 :: u32 where "IFMT_CH_x2x0 = 4"
definition IFMT_CH_32xx :: u32 where "IFMT_CH_32xx = 5"
definition IFMT_CH_x2xx :: u32 where "IFMT_CH_x2xx = 6"
definition IFMT_CH_3xxx :: u32 where "IFMT_CH_3xxx = 7"

definition SFE_CMD_BF_IFMT_OFF :: nat where "SFE_CMD_BF_IFMT_OFF = 0"
definition SFE_CMD_BF_CHFMT_OFF :: nat where "SFE_CMD_BF_CHFMT_OFF = SFE_CMD_BF_IFMT_OFF + 2"
definition SFE_CMD_BF_BWORDS_OFF :: nat where "SFE_CMD_BF_BWORDS_OFF = SFE_CMD_BF_CHFMT_OFF + 3"
definition SFE_CMD_BF_BWORDS_WIDTH :: nat where "SFE_CMD_BF_BWORDS_WIDTH = IPBLK_PARAM_BWORDS"
definition SFE_CMD_BF_BTOTAL_OFF :: nat where "SFE_CMD_BF_BTOTAL_OFF = SFE_CMD_BF_BWORDS_OFF + SFE_CMD_BF_BWORDS_WIDTH"
definition SFE_CMD_BF_BTOTAL_MASK :: u32 where "SFE_CMD_BF_BTOTAL_MASK = push_bit IPBLK_PARAM_BBURSTS 1 - 1"

definition SFE_CMD_RST_DSP_OFF :: nat where "SFE_CMD_RST_DSP_OFF = 8"
definition SFE_CMD_RST_DDR_OFF :: nat where "SFE_CMD_RST_DDR_OFF = 13"
definition SFE_CMD_RST_RXSA_OFF :: nat where "SFE_CMD_RST_RXSA_OFF = 14"
definition SFE_CMD_RST_BURSTER_OFF :: nat where "SFE_CMD_RST_BURSTER_OFF = 15"
definition SFE_CMD_THRT_BURST_NUM_OFF :: nat where "SFE_CMD_THRT_BURST_NUM_OFF = 8"
definition SFE_CMD_THRT_SKIP_NUM_OFF :: nat where "SFE_CMD_THRT_SKIP_NUM_OFF = 0"
definition SFE_CMD_THRT_ENABLE_OFF :: nat where "SFE_CMD_THRT_ENABLE_OFF = 16"

definition MAX_BURSTS_RX_IN_BUFF :: u32 where "MAX_BURSTS_RX_IN_BUFF = 32"

lemmas fe_cmd_defs = FE_CMD_REG_ROUTE_def CMD_REG_ROUTE_OFF_def FE_CMD_BURST_SAMPLES_def
  FE_CMD_BURST_FORMAT_def FE_CMD_BURST_THROTTLE_def FE_CMD_RESET_def RX_SCMD_IDLE_def
  RX_SCMD_START_IMM_def RX_SCMD_STOP_IMM_def FE_CMD_REG_FREQ_CORDIC_def FE_CMD_REG_CFG_CORDIC_def

lemmas fe_field_defs = IPBLK_PARAM_BUFFER_SIZE_ADDR_def IPBLK_PARAM_BWORDS_def IPBLK_PARAM_BBURSTS_def
  SFE_CMD_BF_IFMT_OFF_def SFE_CMD_BF_CHFMT_OFF_def SFE_CMD_BF_BWORDS_OFF_def SFE_CMD_BF_BWORDS_WIDTH_def
  SFE_CMD_BF_BTOTAL_OFF_def SFE_CMD_BF_BTOTAL_MASK_def

text \<open>\<open>&DSPFUNC_CFFT_LPWR_I16[1]\<close>: the name without its leading \<open>c\<close>.\<close>

definition DSPFUNC_FFT_LPWR :: string where "DSPFUNC_FFT_LPWR = ''fftlpwri16''"

definition sfe_rx4_check_format :: "stream_config \<Rightarrow> int" where
  "sfe_rx4_check_format psc =
    (let bfmt = get_bits_fmt (sc_sfmt psc) in
     if bf_bits bfmt \<noteq> 0 then 0
     else if bf_func bfmt = DSPFUNC_FFT_LPWR then 0
     else - EINVAL)"

section \<open>Cutting a block into bursts\<close>

record rfe_config =
  cfg_max_bursts :: u32
  cfg_fifo_ram_bytes :: u32
  cfg_data_lanes_bytes :: u32
  cfg_data_lanes :: u32
  limit_samples_mod :: u32
  limit_burst_words :: u32
  limit_burst_samples :: u32

record rfe_burster_data =
  bd_bytes :: u32
  bd_capacity :: u32
  bd_count :: u32
  bd_samples :: u32

text \<open>The search loop: burst count, FIFO capacity and best inexact count where it ends.\<close>

function burst_search :: "rfe_config \<Rightarrow> u32 \<Rightarrow> u32 \<Rightarrow> u32 \<Rightarrow> u32 \<Rightarrow> u32 \<Rightarrow> u32 \<Rightarrow> (u32 \<times> u32 \<times> u32) option" where
  "burst_search cfg bwords samples bursts cap best extra =
    (if \<not> bursts \<le> cfg_max_bursts cfg then Some (bursts, cap, best)
     else if bursts = 0 then None
     else if samples mod bursts \<noteq> 0 then burst_search cfg bwords samples (bursts + 1) cap best extra
     else if limit_samples_mod cfg = 0 then None
     else if (samples div bursts) mod limit_samples_mod cfg \<noteq> 0 then burst_search cfg bwords samples (bursts + 1) cap best extra
     else if (bwords div bursts) * cfg_data_lanes_bytes cfg = 0 then None
     else let cap' = cfg_fifo_ram_bytes cfg div ((bwords div bursts) * cfg_data_lanes_bytes cfg) in
       if cap' \<le> 1 \<or> samples div bursts > limit_burst_samples cfg \<or> bwords div bursts > limit_burst_words cfg
       then burst_search cfg bwords samples (bursts + 1) cap' best extra
       else if bwords mod bursts = 0 then Some (bursts, cap', best)
       else let ex = ((bwords + bursts - 1) div bursts) * bursts - bwords in
         if ex < extra then burst_search cfg bwords samples (bursts + 1) cap' bursts ex
         else burst_search cfg bwords samples (bursts + 1) cap' best extra)"
  by pat_completeness auto
termination
  by (relation "measure (\<lambda>(_, _, _, b, _, _, _). to_top b)") (simp_all add: to_top_step)

declare burst_search.simps [simp del]

text \<open>Words of the FE bus a burst takes, and the capacity clipped to its register field.\<close>

definition burst_words :: "rfe_config \<Rightarrow> stream_config \<Rightarrow> u32 \<Rightarrow> u32 \<Rightarrow> u32" where
  "burst_words cfg psc chans_raw ch_bits =
    (chans_raw * ch_bits * sc_spburst psc + cfg_data_lanes_bytes cfg * 8 - 1) div (cfg_data_lanes_bytes cfg * 8)"

definition burst_cap :: "u32 \<Rightarrow> u32" where
  "burst_cap c = (if c > SFE_CMD_BF_BTOTAL_MASK then SFE_CMD_BF_BTOTAL_MASK else c)"

text \<open>The last checks and the result.\<close>

definition burst_out :: "rfe_config \<Rightarrow> u32 \<Rightarrow> u32 \<Rightarrow> u32 \<Rightarrow> u32 \<Rightarrow> (int + rfe_burster_data) option" where
  "burst_out cfg bwords bursts cap samples =
    (if limit_samples_mod cfg = 0 then None
     else if samples mod limit_samples_mod cfg \<noteq> 0 then Some (Inl (- EINVAL))
     else Some (Inr \<lparr>bd_bytes = bwords * cfg_data_lanes_bytes cfg, bd_capacity = burst_cap cap,
                     bd_count = bursts, bd_samples = samples\<rparr>))"

definition burst_fe_calculate ::
  "rfe_config \<Rightarrow> stream_config \<Rightarrow> u32 \<Rightarrow> u32 \<Rightarrow> (int + rfe_burster_data) option" where
  "burst_fe_calculate cfg psc chans_raw ch_bits =
    (if sc_burstspblk psc > cfg_max_bursts cfg then Some (Inl (- EINVAL))
     else if chans_raw > cfg_data_lanes cfg then Some (Inl (- EINVAL))
     else if cfg_data_lanes_bytes cfg * 8 = 0 then None
     else
       let bwords = burst_words cfg psc chans_raw ch_bits;
           cap0 = cfg_fifo_ram_bytes cfg div (bwords * cfg_data_lanes_bytes cfg)
       in if bwords = 0 then Some (Inl (- EINVAL))
       else if bwords * cfg_data_lanes_bytes cfg = 0 then None
       else if sc_burstspblk psc \<noteq> 0 \<and> bwords > limit_burst_words cfg then Some (Inl (- EINVAL))
       else if sc_burstspblk psc = 0 then
         (case burst_search cfg bwords (sc_spburst psc) 1 cap0 0 bwords of
            None \<Rightarrow> None
          | Some (bursts, cap, best) \<Rightarrow>
              if bursts > cfg_max_bursts cfg \<and> best = 0 then Some (Inl (- EINVAL))
              else let b = (if bursts > cfg_max_bursts cfg then best else bursts)
                in burst_out cfg ((bwords + b - 1) div b) b cap (sc_spburst psc div b))
       else if sc_spburst psc > limit_burst_samples cfg then Some (Inl (- EINVAL))
       else if bwords > limit_burst_words cfg then Some (Inl (- EINVAL))
       else burst_out cfg bwords (sc_burstspblk psc) cap0 (sc_spburst psc))"

section \<open>Register programs\<close>

definition sfe_srx4_reg_set :: "sfe_cfg \<Rightarrow> u32 \<Rightarrow> u32 \<Rightarrow> (int + unit) io" where
  "sfe_srx4_reg_set fe reg val =
    lowlevel_reg_wr32 (cfg_base fe + FE_CMD_REG_ROUTE) (push_bit CMD_REG_ROUTE_OFF reg OR val)"

definition MAKE_EXFE_REG :: "u32 \<Rightarrow> u32 \<Rightarrow> u32" where
  "MAKE_EXFE_REG a d = push_bit 24 a OR (d AND 0xffffff)"

definition sfe_exrx_reg_set :: "sfe_cfg \<Rightarrow> u32 \<Rightarrow> u32 \<Rightarrow> (int + unit) io" where
  "sfe_exrx_reg_set fe reg val =
    lowlevel_reg_wr32 (cfg_base fe + FE_CMD_REG_ROUTE) (MAKE_EXFE_REG reg val)"

definition rst_all :: u32 where
  "rst_all = RX_SCMD_IDLE OR push_bit SFE_CMD_RST_DSP_OFF 1 OR push_bit SFE_CMD_RST_DDR_OFF 1 OR
     push_bit SFE_CMD_RST_RXSA_OFF 1 OR push_bit SFE_CMD_RST_BURSTER_OFF 1"

definition burst_format :: "u32 \<Rightarrow> u32 \<Rightarrow> u32 \<Rightarrow> u32 \<Rightarrow> u32" where
  "burst_format chfmt fe_format bwords fifo_capacity =
     push_bit SFE_CMD_BF_CHFMT_OFF chfmt OR push_bit SFE_CMD_BF_IFMT_OFF fe_format OR
     push_bit SFE_CMD_BF_BWORDS_OFF (bwords - 1) OR push_bit SFE_CMD_BF_BTOTAL_OFF fifo_capacity"

text \<open>The structure the callers fill is returned on success only: they drop it on an error.\<close>

definition simple_fe_config :: "sfe_cfg \<Rightarrow> u32 \<Rightarrow> rfe_config" where
  "simple_fe_config fe samples_mod =
    \<lparr>cfg_max_bursts = MAX_BURSTS_RX_IN_BUFF, cfg_fifo_ram_bytes = cfg_fifomaxbytes fe,
     cfg_data_lanes_bytes = cfg_word_bytes fe, cfg_data_lanes = cfg_raw_chans fe,
     limit_samples_mod = samples_mod, limit_burst_words = push_bit SFE_CMD_BF_BWORDS_WIDTH 1,
     limit_burst_samples = push_bit IPBLK_PARAM_BWORDS 1\<rparr>"

definition configure_simple_fe_generic ::
  "sfe_cfg \<Rightarrow> stream_config \<Rightarrow> u32 \<Rightarrow> u32 \<Rightarrow> u32 \<Rightarrow> u32 \<Rightarrow> u32 \<Rightarrow> (int + fifo_config) io" where
  "configure_simple_fe_generic fe psc bps samples_mod fe_format chfmt chns =
    (if push_bit IPBLK_PARAM_BUFFER_SIZE_ADDR 1 \<noteq> cfg_fifomaxbytes fe then iofail (- EINVAL)
     else case burst_fe_calculate (simple_fe_config fe samples_mod) psc chns bps of
       None \<Rightarrow> iofail CRASH_FPE
     | Some (Inl e) \<Rightarrow> iofail e
     | Some (Inr d) \<Rightarrow>
         let bwords = bd_bytes d div cfg_word_bytes fe in
         ioseq (iolist
           [sfe_srx4_reg_set fe FE_CMD_RESET rst_all,
            sfe_srx4_reg_set fe FE_CMD_BURST_SAMPLES (bd_samples d - 1),
            sfe_srx4_reg_set fe FE_CMD_RESET RX_SCMD_IDLE,
            sfe_srx4_reg_set fe FE_CMD_BURST_FORMAT (burst_format chfmt fe_format bwords (bd_capacity d))])
         (ioreturn \<lparr>fc_bpb = bd_bytes d, fc_burstspblk = bd_count d, fc_oob_off = 0, fc_oob_len = 0\<rparr>))"

text \<open>Channel format and number of raw channels; \<open>None\<close> where the code keeps \<open>chns = 0\<close>.\<close>

definition sfe_rx4_chfmt :: "bool \<Rightarrow> u32 \<Rightarrow> channel_info \<Rightarrow> (u32 \<times> u32) option" where
  "sfe_rx4_chfmt cplx chcnt m =
    (if cplx then
       (if chcnt = 2 then Some (IFMT_CH_3210, 4)
        else if chcnt = 1 then
          (if m ! 0 = 0 then Some (IFMT_CH_xx10, 2)
           else if m ! 0 = 1 then Some (IFMT_CH_32xx, 2) else None)
        else None)
     else if chcnt = 4 then Some (IFMT_CH_3210, 4)
     else if chcnt = 2 then
       (if m ! 0 = 0 \<and> m ! 1 = 1 \<or> m ! 0 = 1 \<and> m ! 1 = 0 then Some (IFMT_CH_xx10, 2)
        else if m ! 0 = 2 \<and> m ! 1 = 3 \<or> m ! 0 = 3 \<and> m ! 1 = 2 then Some (IFMT_CH_32xx, 2)
        else if m ! 0 = 2 \<and> m ! 1 = 0 \<or> m ! 0 = 0 \<and> m ! 1 = 2 then Some (IFMT_CH_x2x0, 2)
        else None)
     else if chcnt = 1 then
       (if m ! 0 = 0 then Some (IFMT_CH_xxx0, 1)
        else if m ! 0 = 1 then Some (IFMT_CH_xx1x, 1)
        else if m ! 0 = 2 then Some (IFMT_CH_x2xx, 1)
        else if m ! 0 = 3 then Some (IFMT_CH_3xxx, 1)
        else None)
     else None)"

definition sfe_rx4_configure :: "sfe_cfg \<Rightarrow> stream_config \<Rightarrow> (int + fifo_config) io" where
  "sfe_rx4_configure fe psc =
    (let bfmt = get_bits_fmt (sc_sfmt psc) in
     if bf_func bfmt = DSPFUNC_FFT_LPWR then
       (let bwords = (16 * sc_spburst psc + 63) div 64 in
        if sc_burstspblk psc \<noteq> 0 \<and> bwords > push_bit SFE_CMD_BF_BWORDS_WIDTH 1 div 2 then iofail (- EINVAL)
        else configure_simple_fe_generic fe psc 16 512 IFMT_DSP IFMT_CH_xx10 1)
     else if bf_bits bfmt = 0 then iofail (- EINVAL)
     else case sfe_rx4_chfmt (bf_complex bfmt) (sc_chcnt psc) (sc_channels psc) of
       None \<Rightarrow> iofail (- EINVAL)
     | Some (chfmt, chns) \<Rightarrow>
         configure_simple_fe_generic fe psc (ucast (bf_bits bfmt)) 1
           (if bf_bits bfmt = 8 then IFMT_8BIT else if bf_bits bfmt = 12 then IFMT_12BIT else IFMT_16BIT)
           chfmt chns)"

definition sfe_rx4_throttle :: "sfe_cfg \<Rightarrow> bool \<Rightarrow> u8 \<Rightarrow> u8 \<Rightarrow> (int + unit) io" where
  "sfe_rx4_throttle fe enable send skip =
    sfe_srx4_reg_set fe FE_CMD_BURST_THROTTLE
      (RX_SCMD_IDLE OR push_bit SFE_CMD_THRT_BURST_NUM_OFF (ucast send) OR
       push_bit SFE_CMD_THRT_SKIP_NUM_OFF (ucast skip) OR
       (if enable then push_bit SFE_CMD_THRT_ENABLE_OFF 1 else 0))"

definition sfe_rx4_startstop :: "sfe_cfg \<Rightarrow> bool \<Rightarrow> (int + unit) io" where
  "sfe_rx4_startstop fe start =
    sfe_srx4_reg_set fe FE_CMD_RESET (if start then RX_SCMD_START_IMM else RX_SCMD_STOP_IMM)"

definition sfe_rf4_nco_enable :: "sfe_cfg \<Rightarrow> bool \<Rightarrow> u32 \<Rightarrow> (int + unit) io" where
  "sfe_rf4_nco_enable fe enable iqaccum =
    (if enable then iolist
       [lowlevel_reg_wr32 (cfg_base fe + FE_CMD_REG_CFG_CORDIC) (push_bit 2 (iqaccum AND 7) OR 3),
        lowlevel_reg_wr32 (cfg_base fe + FE_CMD_REG_CFG_CORDIC) (push_bit 2 (iqaccum AND 7) OR 1)]
     else lowlevel_reg_wr32 (cfg_base fe + FE_CMD_REG_CFG_CORDIC) 0)"

definition sfe_rf4_nco_freq :: "sfe_cfg \<Rightarrow> u32 \<Rightarrow> (int + unit) io" where
  "sfe_rf4_nco_freq fe freq = lowlevel_reg_wr32 (cfg_base fe + FE_CMD_REG_FREQ_CORDIC) freq"

section \<open>The extended front end\<close>

definition EXFE_CMD_BURST_SAMPLES :: u32 where "EXFE_CMD_BURST_SAMPLES = 0x00"
definition EXFE_CMD_BURST_BYTES :: u32 where "EXFE_CMD_BURST_BYTES = 0x01"
definition EXFE_CMD_BURST_CAPACITY :: u32 where "EXFE_CMD_BURST_CAPACITY = 0x02"
definition EXFE_CMD_COMPACTER :: u32 where "EXFE_CMD_COMPACTER = 0x03"
definition EXFE_CMD_PACKER :: u32 where "EXFE_CMD_PACKER = 0x04"
definition EXFE_CMD_EXPAND :: u32 where "EXFE_CMD_EXPAND = 0x0d"
definition EXFE_CMD_TXFMT12 :: u32 where "EXFE_CMD_TXFMT12 = 0x0e"
definition EXFE_CMD_MUTE :: u32 where "EXFE_CMD_MUTE = 0x0f"
definition EXFE_CMD_SHUFFLE_0 :: u32 where "EXFE_CMD_SHUFFLE_0 = 0x10"
definition EXFE_CMD_SHUFFLE_1 :: u32 where "EXFE_CMD_SHUFFLE_1 = 0x11"
definition EXFE_CMD_SHUFFLE_2 :: u32 where "EXFE_CMD_SHUFFLE_2 = 0x12"
definition EXFE_CMD_SHUFFLE_3 :: u32 where "EXFE_CMD_SHUFFLE_3 = 0x13"
definition EXFE_CMD_RESET :: u32 where "EXFE_CMD_RESET = 0x30"

lemmas exfe_cmd_defs = EXFE_CMD_BURST_SAMPLES_def EXFE_CMD_BURST_BYTES_def EXFE_CMD_BURST_CAPACITY_def
  EXFE_CMD_COMPACTER_def EXFE_CMD_PACKER_def EXFE_CMD_EXPAND_def EXFE_CMD_TXFMT12_def EXFE_CMD_MUTE_def
  EXFE_CMD_SHUFFLE_0_def EXFE_CMD_SHUFFLE_1_def EXFE_CMD_SHUFFLE_2_def EXFE_CMD_SHUFFLE_3_def
  EXFE_CMD_RESET_def

definition MAX_EX_CHANS :: nat where "MAX_EX_CHANS = 16"
definition CH_SWAP_IQ_FLAG :: u8 where "CH_SWAP_IQ_FLAG = 128"

text \<open>
  The channel network. Output \<open>p\<close> is position \<open>f = p mod total_chans\<close> of a group of \<open>total_chans\<close>
  channels; \<open>exfe_src\<close> is the channel it is to carry (\<open>chmap_o\<close> of the code).
\<close>

definition exfe_src :: "bool \<Rightarrow> u32 \<Rightarrow> nat \<Rightarrow> channel_info \<Rightarrow> nat \<Rightarrow> u8" where
  "exfe_src cplx msk total_chans newmap p =
    (let f = p mod total_chans in
     if cplx then
       (let ch = newmap ! (f div 2);
            swap_iq = (if ch AND CH_SWAP_IQ_FLAG \<noteq> 0 then 1 else 0)
        in ucast (2 * (ucast ch AND msk) + (of_nat (f mod 2) XOR swap_iq) :: u32))
     else ucast (ucast (newmap ! f) AND msk :: u32))"

definition exfe_lg_chans :: "u32 \<Rightarrow> nat" where
  "exfe_lg_chans raw = (if raw = 16 then 4 else if raw = 8 then 3 else if raw = 4 then 2 else if raw = 2 then 1 else 0)"

text \<open>One stage: bit \<open>g\<close> is set where bit \<open>f\<close> of the source differs from that of the output.\<close>

definition ch_remapped :: "(nat \<Rightarrow> u8) \<Rightarrow> nat \<Rightarrow> nat \<Rightarrow> nat \<Rightarrow> u16" where
  "ch_remapped chmap raw lg f =
    (if f < lg then foldl (\<lambda>w g. if bit (chmap g) f then w OR push_bit g 1 else w) 0 [0..<raw] else 0)"

definition exfe_trx4_update_chmap :: "sfe_cfg \<Rightarrow> bool \<Rightarrow> bool \<Rightarrow> u32 \<Rightarrow> channel_info \<Rightarrow> (int + unit) io" where
  "exfe_trx4_update_chmap fe msk cplx total_chans newmap =
    (let m = (if msk then (if cplx then total_chans div 2 else total_chans) - 1 else 0xff);
         src = exfe_src cplx m (unat total_chans) newmap;
         chmap = (\<lambda>p. src p XOR of_nat p);
         raw = unat (cfg_raw_chans fe);
         lg = exfe_lg_chans (cfg_raw_chans fe)
     in if total_chans = 0 \<and> cfg_raw_chans fe \<noteq> 0 then iofail HANG
        else if ((raw + unat total_chans - 1) div unat total_chans) * unat total_chans > MAX_EX_CHANS then iofail OUT_OF_BOUNDS
        else iolist
         [sfe_exrx_reg_set fe EXFE_CMD_SHUFFLE_0 (ucast (ch_remapped chmap raw lg 0)),
          sfe_exrx_reg_set fe EXFE_CMD_SHUFFLE_1 (ucast (ch_remapped chmap raw lg 1)),
          sfe_exrx_reg_set fe EXFE_CMD_SHUFFLE_2 (ucast (ch_remapped chmap raw lg 2)),
          sfe_exrx_reg_set fe EXFE_CMD_SHUFFLE_3 (ucast (ch_remapped chmap raw lg 3))])"

text \<open>The base-2 logarithm of the channel count, by doubling; \<open>j\<close> wraps to 0 after 32 turns.\<close>

datatype chlg_result = Chans nat | Unsupported | Spins

function exfe_chlg :: "u32 \<Rightarrow> u32 \<Rightarrow> nat \<Rightarrow> chlg_result" where
  "exfe_chlg chns raw chlg =
    (if chlg \<ge> 32 then (if chns = 0 then Unsupported else Spins)
     else if \<not> push_bit chlg 1 \<le> raw then Unsupported
     else if chns = push_bit chlg 1 then Chans chlg
     else exfe_chlg chns raw (chlg + 1))"
  by pat_completeness auto
termination
  by (relation "measure (\<lambda>(_, _, c). 32 - c)") auto

declare exfe_chlg.simps [simp del]

definition exfe_config :: "sfe_cfg \<Rightarrow> rfe_config" where
  "exfe_config fe =
    \<lparr>cfg_max_bursts = MAX_BURSTS_RX_IN_BUFF, cfg_fifo_ram_bytes = cfg_fifomaxbytes fe,
     cfg_data_lanes_bytes = cfg_word_bytes fe, cfg_data_lanes = cfg_raw_chans fe,
     limit_samples_mod = 1, limit_burst_words = cfg_fifomaxbytes fe div cfg_word_bytes fe,
     limit_burst_samples = cfg_fifomaxbytes fe\<rparr>"

definition exfe_rx4_configure :: "sfe_cfg \<Rightarrow> stream_config \<Rightarrow> (int + fifo_config) io" where
  "exfe_rx4_configure fe psc =
    (let bfmt = get_bits_fmt (sc_sfmt psc);
         bps = ucast (bf_bits bfmt) :: u32;
         chns = (if bf_complex bfmt then sc_chcnt psc * 2 else sc_chcnt psc)
     in if bps \<noteq> 12 \<and> bps \<noteq> 16 then iofail (- EINVAL)
     else case exfe_chlg chns (cfg_raw_chans fe) 0 of
       Unsupported \<Rightarrow> iofail (- EINVAL)
     | Spins \<Rightarrow> iofail HANG
     | Chans chlg \<Rightarrow>
         if unat (cfg_raw_chans fe) \<ge> MAX_EX_CHANS then iofail (- EINVAL)
         else if cfg_word_bytes fe = 0 then iofail CRASH_FPE
         else case burst_fe_calculate (exfe_config fe) psc chns bps of
           None \<Rightarrow> iofail CRASH_FPE
         | Some (Inl e) \<Rightarrow> iofail e
         | Some (Inr d) \<Rightarrow>
             ioseq (iolist
               [sfe_exrx_reg_set fe EXFE_CMD_RESET (RX_SCMD_IDLE OR push_bit SFE_CMD_RST_DDR_OFF 1 OR
                  push_bit SFE_CMD_RST_RXSA_OFF 1 OR push_bit SFE_CMD_RST_BURSTER_OFF 1),
                sfe_exrx_reg_set fe EXFE_CMD_BURST_SAMPLES (bd_samples d - 1),
                sfe_exrx_reg_set fe EXFE_CMD_RESET RX_SCMD_IDLE,
                sfe_exrx_reg_set fe EXFE_CMD_BURST_BYTES (bd_bytes d - 1),
                sfe_exrx_reg_set fe EXFE_CMD_BURST_CAPACITY (bd_capacity d),
                sfe_exrx_reg_set fe EXFE_CMD_COMPACTER (of_nat chlg),
                sfe_exrx_reg_set fe EXFE_CMD_PACKER (if bps = 12 then 1 else 0),
                exfe_trx4_update_chmap fe False (bf_complex bfmt) chns (sc_channels psc)])
             (ioreturn \<lparr>fc_bpb = bd_bytes d, fc_burstspblk = bd_count d, fc_oob_off = 0, fc_oob_len = 0\<rparr>))"

definition exfe_tx4_config :: "sfe_cfg \<Rightarrow> u32 \<Rightarrow> u32 \<Rightarrow> (int + unit) io" where
  "exfe_tx4_config fe bmt expand = iolist
    [sfe_exrx_reg_set fe EXFE_CMD_EXPAND expand,
     sfe_exrx_reg_set fe EXFE_CMD_TXFMT12 (if bmt = 12 then 1 else 0)]"

definition exfe_tx4_mute :: "sfe_cfg \<Rightarrow> u64 \<Rightarrow> (int + unit) io" where
  "exfe_tx4_mute fe mutemask = sfe_exrx_reg_set fe EXFE_CMD_MUTE (ucast mutemask)"

section \<open>The cut\<close>

text \<open>What the search requires of a burst count.\<close>

definition burst_ok :: "rfe_config \<Rightarrow> u32 \<Rightarrow> u32 \<Rightarrow> u32 \<Rightarrow> bool" where
  "burst_ok cfg bwords samples b \<longleftrightarrow> b \<noteq> 0 \<and> b \<le> cfg_max_bursts cfg \<and> samples mod b = 0 \<and>
     (samples div b) mod limit_samples_mod cfg = 0 \<and> samples div b \<le> limit_burst_samples cfg \<and>
     bwords div b \<le> limit_burst_words cfg \<and>
     1 < cfg_fifo_ram_bytes cfg div ((bwords div b) * cfg_data_lanes_bytes cfg)"

lemma burst_search_ok:
  assumes "burst_search cfg bwords samples bursts cap best extra = Some (b, c, best')"
    and "best \<noteq> 0 \<longrightarrow> burst_ok cfg bwords samples best"
  shows "(b \<le> cfg_max_bursts cfg \<longrightarrow> burst_ok cfg bwords samples b \<and> bwords mod b = 0) \<and>
    (best' \<noteq> 0 \<longrightarrow> burst_ok cfg bwords samples best')"
  using assms
proof (induction cfg bwords samples bursts cap best extra rule: burst_search.induct)
  case (1 cfg bwords samples bursts cap best extra)
  note IH = "1.IH"
  from "1.prems"(1) show ?case
    apply (subst (asm) burst_search.simps)
    apply (simp only: Let_def split: if_splits)
    subgoal using "1.prems" by (auto simp: burst_ok_def)
    subgoal by simp
    subgoal by (rule IH(1)) (use "1.prems"(2) in auto)
    subgoal by simp
    subgoal by (rule IH(2)) (use "1.prems"(2) in auto)
    subgoal by simp
    subgoal by (rule IH(3) [OF _ _ _ _ _ _ refl]) (use "1.prems"(2) in auto)
    subgoal using "1.prems"(2) by (auto simp: burst_ok_def)
    subgoal by (rule IH(4) [OF _ _ _ _ _ _ refl _ _ refl]) (use "1.prems"(2) in \<open>auto simp: burst_ok_def\<close>)
    subgoal by (rule IH(5) [OF _ _ _ _ _ _ refl _ _ refl]) (use "1.prems"(2) in auto)
    done
qed

text \<open>The capacity the search returns is that of the count it returns; a count it falls back on divides the samples but not the words.\<close>

lemma burst_search_exact:
  assumes "burst_search cfg bwords samples bursts cap best extra = Some (b, c, best')"
    and "best \<noteq> 0 \<longrightarrow> bwords mod best \<noteq> 0"
  shows "(b \<le> cfg_max_bursts cfg \<longrightarrow> bwords mod b = 0 \<and> c = cfg_fifo_ram_bytes cfg div ((bwords div b) * cfg_data_lanes_bytes cfg)) \<and>
    (best' \<noteq> 0 \<longrightarrow> bwords mod best' \<noteq> 0)"
  using assms
proof (induction cfg bwords samples bursts cap best extra rule: burst_search.induct)
  case (1 cfg bwords samples bursts cap best extra)
  note IH = "1.IH"
  from "1.prems"(1) show ?case
    apply (subst (asm) burst_search.simps)
    apply (simp only: Let_def split: if_split_asm)
    subgoal using "1.prems"(2) by auto
    subgoal by simp
    subgoal by (rule IH(1)) (use "1.prems"(2) in auto)
    subgoal by simp
    subgoal by (rule IH(2)) (use "1.prems"(2) in auto)
    subgoal by simp
    subgoal by (rule IH(3) [OF _ _ _ _ _ _ refl]) (use "1.prems"(2) in auto)
    subgoal using "1.prems"(2) by auto
    subgoal by (rule IH(4) [OF _ _ _ _ _ _ refl _ _ refl]) (use "1.prems"(2) in auto)
    subgoal by (rule IH(5) [OF _ _ _ _ _ _ refl _ _ refl]) (use "1.prems"(2) in auto)
    done
qed

lemma burst_fe_calculate_cases:
  assumes "burst_fe_calculate cfg psc chans_raw ch_bits = Some (Inr d)"
  defines "W \<equiv> burst_words cfg psc chans_raw ch_bits" and "L \<equiv> cfg_data_lanes_bytes cfg"
  shows "L * 8 \<noteq> 0 \<and> W \<noteq> 0 \<and> W * L \<noteq> 0 \<and> sc_burstspblk psc \<le> cfg_max_bursts cfg \<and>
    bd_samples d mod limit_samples_mod cfg = 0 \<and>
    (if sc_burstspblk psc = 0
     then \<exists>b c. burst_ok cfg W (sc_spburst psc) b \<and>
       d = \<lparr>bd_bytes = (W + b - 1) div b * L, bd_capacity = burst_cap c, bd_count = b,
            bd_samples = sc_spburst psc div b\<rparr>
     else sc_spburst psc \<le> limit_burst_samples cfg \<and> W \<le> limit_burst_words cfg \<and>
       d = \<lparr>bd_bytes = W * L, bd_capacity = burst_cap (cfg_fifo_ram_bytes cfg div (W * L)),
            bd_count = sc_burstspblk psc, bd_samples = sc_spburst psc\<rparr>)"
proof (cases "sc_burstspblk psc = 0")
  case True
  from assms(1) True obtain b c best where
    s: "burst_search cfg W (sc_spburst psc) 1 (cfg_fifo_ram_bytes cfg div (W * L)) 0 W = Some (b, c, best)"
    by (auto simp: burst_fe_calculate_def Let_def W_def L_def split: if_splits option.splits)
  define b' where "b' = (if b > cfg_max_bursts cfg then best else b)"
  from assms(1) True s have "b > cfg_max_bursts cfg \<longrightarrow> best \<noteq> 0" and
    d: "burst_out cfg ((W + b' - 1) div b') b' c (sc_spburst psc div b') = Some (Inr d)"
    and nz: "L * 8 \<noteq> 0" "W \<noteq> 0" "W * L \<noteq> 0"
    by (auto simp: burst_fe_calculate_def Let_def W_def L_def b'_def split: if_splits)
  with burst_search_ok [OF s] have "burst_ok cfg W (sc_spburst psc) b'"
    by (auto simp: b'_def not_le)
  moreover from d have "bd_samples d mod limit_samples_mod cfg = 0"
    and "d = \<lparr>bd_bytes = (W + b' - 1) div b' * L, bd_capacity = burst_cap c, bd_count = b',
            bd_samples = sc_spburst psc div b'\<rparr>"
    by (simp_all add: burst_out_def L_def split: if_splits) (erule subst, simp)
  ultimately show ?thesis using nz True by (simp only: if_True word_zero_le simp_thms) blast
next
  case False
  with assms(1) show ?thesis
    by (auto simp: burst_fe_calculate_def burst_out_def Let_def W_def L_def not_less
        split: if_splits del: mod_0_imp_dvd)
qed

lemma burst_cap_le: "burst_cap c \<le> 1023" "burst_cap c \<le> c"
  by (auto simp: burst_cap_def fe_field_defs)

lemma ceil_div_le:
  assumes "0 < (b :: nat)"
  shows "W \<le> (W + b - 1) div b * b" and "(W + b - 1) div b \<le> W div b + 1" and "1 \<le> W \<Longrightarrow> (W + b - 1) div b \<le> W"
proof -
  have e: "W + b - 1 = (W + b - 1) div b * b + (W + b - 1) mod b" by simp
  have "(W + b - 1) mod b < b" using assms by simp
  with e assms show "W \<le> (W + b - 1) div b * b" by linarith
  have "(W + b - 1) div b \<le> (W + b) div b" by (intro div_le_mono) simp
  moreover have "(W + b) div b = W div b + 1" using assms by (intro div_add_self2) simp
  ultimately show "(W + b - 1) div b \<le> W div b + 1" by linarith
  show "(W + b - 1) div b \<le> W" if "1 \<le> W"
  proof -
    have "W + b - 1 \<le> W * b"
      using that assms by (cases W; cases b) auto
    then have "(W + b - 1) div b \<le> W * b div b" by (rule div_le_mono)
    then show ?thesis using assms by simp
  qed
qed

lemma burst_words_unat:
  assumes "unat c * unat w < 2 ^ 32" and "0 < unat (cfg_data_lanes_bytes cfg)"
    and "unat c * unat w * unat (sc_spburst psc) + 8 * unat (cfg_data_lanes_bytes cfg) < 2 ^ 32"
  shows "unat (burst_words cfg psc c w) = 
    (unat c * unat w * unat (sc_spburst psc) + 8 * unat (cfg_data_lanes_bytes cfg) - 1) div (8 * unat (cfg_data_lanes_bytes cfg))"
proof -
  let ?L = "cfg_data_lanes_bytes cfg" and ?s = "sc_spburst psc"
  have 1: "unat (c * w) = unat c * unat w" using assms(1) by (simp add: unat_mult_lem [THEN iffD1])
  have 2: "unat (c * w * ?s) = unat c * unat w * unat ?s"
    using assms(3) 1 by (simp add: unat_mult_lem [THEN iffD1])
  have 3: "unat (?L * 8) = 8 * unat ?L"
    using assms(3) by (simp add: unat_mult_lem [THEN iffD1])
  have 4: "unat (c * w * ?s + ?L * 8) = unat c * unat w * unat ?s + 8 * unat ?L"
    using assms(3) 2 3 by (simp add: unat_add_lem [THEN iffD1])
  have "unat (c * w * ?s + ?L * 8 - 1) = unat c * unat w * unat ?s + 8 * unat ?L - 1"
    using 4 assms(2) by (simp add: unat_sub word_le_nat_alt)
  with 3 show ?thesis by (simp add: burst_words_def unat_div)
qed

text \<open>The byte count of a burst cut out of \<open>W\<close> words, without wrap-around.\<close>

lemma burst_bytes_unat:
  assumes "unat (W :: u32) * unat (L :: u32) < 2 ^ 29" and "W \<noteq> 0" and "b \<noteq> 0" and "unat b < 2 ^ 31" and "L \<noteq> 0"
  shows "unat ((W + b - 1) div b * L) = (unat W + unat b - 1) div unat b * unat L"
    and "(unat W + unat b - 1) div unat b * unat L \<le> unat W * unat L"
proof -
  have pos: "0 < unat b" "0 < unat W" "0 < unat L" using assms by (simp_all add: unat_gt_0)
  have "unat W * 1 \<le> unat W * unat L" by (rule mult_le_mono2) (use pos in simp)
  then have W: "unat W < 2 ^ 29" using assms(1) by linarith
  then have "unat (W + b) = unat W + unat b" using assms(4) by (simp add: unat_add_lem [THEN iffD1])
  then have "unat (W + b - 1) = unat W + unat b - 1" using pos by (simp add: unat_sub word_le_nat_alt)
  then have d: "unat ((W + b - 1) div b) = (unat W + unat b - 1) div unat b" by (simp add: unat_div)
  show le: "(unat W + unat b - 1) div unat b * unat L \<le> unat W * unat L"
    using ceil_div_le(3) [OF pos(1), of "unat W"] pos by (intro mult_le_mono1) simp
  then have "(unat W + unat b - 1) div unat b * unat L < 2 ^ 32"
    by (rule le_less_trans [OF _ less_trans [OF assms(1)]]) simp
  with d show "unat ((W + b - 1) div b * L) = (unat W + unat b - 1) div unat b * unat L"
    by (simp add: unat_mult_lem [THEN iffD1])
qed

lemma unat_div_mult:
  assumes "(s :: u32) mod b = 0" "b \<noteq> 0"
  shows "unat (s div b) * unat b = unat s"
proof -
  have "unat s mod unat b = 0" using assms(1) by (metis unat_mod unsigned_0)
  then show ?thesis using div_mult_mod_eq [of "unat s" "unat b"] by (simp add: unat_div)
qed

text \<open>What a finished calculation guarantees of any burst count and word count it settles on.\<close>

definition burst_fits :: "rfe_config \<Rightarrow> stream_config \<Rightarrow> nat \<Rightarrow> rfe_burster_data \<Rightarrow> bool" where
  "burst_fits cfg psc bps d \<longleftrightarrow>
     bd_count d \<noteq> 0 \<and> bd_count d \<le> cfg_max_bursts cfg \<and> bd_samples d \<noteq> 0 \<and>
     (if sc_burstspblk psc = 0 then unat (bd_samples d) * unat (bd_count d) = unat (sc_spburst psc)
      else bd_count d = sc_burstspblk psc \<and> bd_samples d = sc_spburst psc) \<and>
     bd_samples d mod limit_samples_mod cfg = 0 \<and> bd_samples d \<le> limit_burst_samples cfg \<and>
     bps * unat (bd_samples d) \<le> 8 * unat (bd_bytes d) \<and> 0 < bps \<and>
     unat (cfg_data_lanes_bytes cfg) dvd unat (bd_bytes d) \<and>
     unat (bd_bytes d) \<le> unat (cfg_data_lanes_bytes cfg) *
       (unat (limit_burst_words cfg) + (if sc_burstspblk psc = 0 then 1 else 0)) \<and>
     unat (bd_capacity d) \<le> 1023 \<and>
     (sc_burstspblk psc = 0 \<longrightarrow>
        2 * unat (bd_bytes d) \<le> unat (cfg_fifo_ram_bytes cfg) + 2 * unat (cfg_data_lanes_bytes cfg)) \<and>
     (sc_burstspblk psc \<noteq> 0 \<longrightarrow> unat (bd_capacity d) * unat (bd_bytes d) \<le> unat (cfg_fifo_ram_bytes cfg))"

lemma burst_fe_calculate_fits:
  assumes calc: "burst_fe_calculate cfg psc chans_raw ch_bits = Some (Inr d)"
    and bps: "unat chans_raw * unat ch_bits < 2 ^ 32"
    and fits: "unat chans_raw * unat ch_bits * unat (sc_spburst psc) + 8 * unat (cfg_data_lanes_bytes cfg) < 2 ^ 32"
    and max: "unat (cfg_max_bursts cfg) < 2 ^ 31"
  shows "burst_fits cfg psc (unat chans_raw * unat ch_bits) d"
proof -
  define W L B S where "W = burst_words cfg psc chans_raw ch_bits" and "L = cfg_data_lanes_bytes cfg"
    and "B = unat chans_raw * unat ch_bits" and "S = unat (sc_spburst psc)"
  note cases = burst_fe_calculate_cases [OF calc, folded W_def L_def]
  from cases have L0: "L \<noteq> 0" and W0: "W \<noteq> 0" by auto
  then have L: "0 < unat L" and Wp: "0 < unat W" by (simp_all add: unat_gt_0)
  have W: "unat W = (B * S + 8 * unat L - 1) div (8 * unat L)"
    using burst_words_unat [OF bps _ fits] L by (simp add: W_def B_def S_def L_def)
  have WL: "B * S \<le> unat W * (8 * unat L)"
    using ceil_div_le(1) [of "8 * unat L" "B * S"] L by (simp add: W)
  have "unat W * (8 * unat L) \<le> B * S + 8 * unat L - 1" unfolding W by (rule div_times_less_eq_dividend)
  with fits have WL2: "unat W * unat L < 2 ^ 29" by (simp add: B_def S_def L_def)
  have "0 < B * S"
  proof (rule ccontr)
    assume "\<not> 0 < B * S"
    then have "unat W = (8 * unat L - 1) div (8 * unat L)" by (auto simp: W)
    then show False using Wp L by simp
  qed
  then have S: "0 < S" "0 < B" by simp_all
  have cap: "unat (burst_cap c) \<le> 1023" "unat (burst_cap c) \<le> unat c" for c
    using burst_cap_le [of c] by (simp_all add: word_le_nat_alt)
  show ?thesis
  proof (cases "sc_burstspblk psc = 0")
    case True
    with cases obtain b c where ok: "burst_ok cfg W (sc_spburst psc) b"
      and d: "d = \<lparr>bd_bytes = (W + b - 1) div b * L, bd_capacity = burst_cap c, bd_count = b,
            bd_samples = sc_spburst psc div b\<rparr>" by auto
    from ok max have b: "b \<noteq> 0" "unat b < 2 ^ 31" "0 < unat b"
      by (auto simp: burst_ok_def word_le_nat_alt unat_gt_0)
    have s: "unat (sc_spburst psc div b) * unat b = S"
      using ok unat_div_mult [of "sc_spburst psc" b] by (simp add: burst_ok_def S_def)
    have nz: "sc_spburst psc div b \<noteq> 0" using s S(1) by (metis mult_0 unsigned_0 less_irrefl)
    note bytes = burst_bytes_unat [OF WL2 W0 b(1,2) L0]
    let ?n = "(unat W + unat b - 1) div unat b"
    have "unat b * (B * unat (sc_spburst psc div b)) = B * S" using s by (simp add: ac_simps flip: s)
    also have "\<dots> \<le> ?n * unat b * (8 * unat L)"
      using WL ceil_div_le(1) [OF b(3), of "unat W"] by (meson le_trans mult_le_mono1)
    finally have "unat b * (B * unat (sc_spburst psc div b)) \<le> unat b * (8 * (?n * unat L))" by (simp add: ac_simps)
    then have hold: "B * unat (sc_spburst psc div b) \<le> 8 * (?n * unat L)" using b(3) by simp
    have "unat (W div b) \<le> unat (limit_burst_words cfg)" using ok by (simp add: burst_ok_def word_le_nat_alt)
    then have "?n \<le> unat (limit_burst_words cfg) + 1"
      using ceil_div_le(2) [OF b(3), of "unat W"] by (simp add: unat_div)
    then have lim: "?n * unat L \<le> unat L * (unat (limit_burst_words cfg) + 1)"
      by (subst mult.commute) (rule mult_le_mono2)
    have "2 * (?n * unat L) \<le> unat (cfg_fifo_ram_bytes cfg) + 2 * unat L"
    proof -
      have "unat (W div b * L) = unat W div unat b * unat L"
      proof -
        have "unat W div unat b * unat L \<le> unat W * unat L" by (rule mult_le_mono1) simp
        then have "unat W div unat b * unat L < 2 ^ 32"
          by (rule le_less_trans [OF _ less_trans [OF WL2]]) simp
        then show ?thesis by (simp add: unat_mult_lem [THEN iffD1] unat_div)
      qed
      with ok have "2 \<le> unat (cfg_fifo_ram_bytes cfg) div (unat W div unat b * unat L)"
        by (simp add: burst_ok_def word_less_nat_alt unat_div L_def)
      then have "2 * (unat W div unat b * unat L) \<le> unat (cfg_fifo_ram_bytes cfg)"
        by (meson div_times_less_eq_dividend le_trans mult_le_mono1)
      moreover have "?n * unat L \<le> (unat W div unat b + 1) * unat L"
        using ceil_div_le(2) [OF b(3), of "unat W"] by (rule mult_le_mono1)
      ultimately show ?thesis by simp
    qed
    with True ok cases d b s nz S(2) bytes hold lim cap show ?thesis
      by (simp add: burst_fits_def burst_ok_def flip: L_def B_def S_def)
  next
    case False
    with cases have d: "d = \<lparr>bd_bytes = W * L, bd_capacity = burst_cap (cfg_fifo_ram_bytes cfg div (W * L)),
            bd_count = sc_burstspblk psc, bd_samples = sc_spburst psc\<rparr>"
      and lim: "unat W \<le> unat (limit_burst_words cfg)" by (auto simp: word_le_nat_alt)
    have m: "unat (W * L) = unat W * unat L" using WL2 by (simp add: unat_mult_lem [THEN iffD1])
    have "unat (burst_cap (cfg_fifo_ram_bytes cfg div (W * L))) \<le> unat (cfg_fifo_ram_bytes cfg) div (unat W * unat L)"
      using cap(2) by (metis m unat_div)
    then have c: "unat (burst_cap (cfg_fifo_ram_bytes cfg div (W * L))) * (unat W * unat L) \<le> unat (cfg_fifo_ram_bytes cfg)"
      by (meson div_times_less_eq_dividend le_trans mult_le_mono1)
    have "unat W * unat L \<le> unat L * unat (limit_burst_words cfg)"
      by (subst mult.commute) (rule mult_le_mono2 [OF lim])
    moreover have "B * S \<le> 8 * (unat W * unat L)" using WL by (simp add: ac_simps)
    moreover have "sc_spburst psc \<noteq> 0" using S(1) by (auto simp: S_def)
    ultimately show ?thesis using False cases d m c cap S(2)
      by (simp add: burst_fits_def flip: L_def B_def S_def)
  qed
qed

text \<open>The capacity fits whenever the bursts together take no more words of the bus than the packet needs; otherwise it is the
  capacity of another count, see \<open>rx_capacity_overcommit\<close> below.\<close>

definition words_needed :: "u32 \<Rightarrow> nat \<Rightarrow> u32 \<Rightarrow> nat" where
  "words_needed lanes bps samples = (bps * unat samples + 8 * unat lanes - 1) div (8 * unat lanes)"

lemma burst_fe_calculate_capacity:
  assumes calc: "burst_fe_calculate cfg psc chans_raw ch_bits = Some (Inr d)"
    and bps: "unat chans_raw * unat ch_bits < 2 ^ 32"
    and fits: "unat chans_raw * unat ch_bits * unat (sc_spburst psc) + 8 * unat (cfg_data_lanes_bytes cfg) < 2 ^ 32"
    and max: "unat (cfg_max_bursts cfg) < 2 ^ 31" and auto: "sc_burstspblk psc = 0"
    and even: "unat (bd_count d) * unat (bd_bytes d) =
      words_needed (cfg_data_lanes_bytes cfg) (unat chans_raw * unat ch_bits) (sc_spburst psc) * unat (cfg_data_lanes_bytes cfg)"
  shows "unat (bd_capacity d) * unat (bd_bytes d) \<le> unat (cfg_fifo_ram_bytes cfg)"
proof -
  define W L B S where "W = burst_words cfg psc chans_raw ch_bits" and "L = cfg_data_lanes_bytes cfg"
    and "B = unat chans_raw * unat ch_bits" and "S = unat (sc_spburst psc)"
  note cases = burst_fe_calculate_cases [OF calc, folded W_def L_def]
  from cases have L0: "L \<noteq> 0" and W0: "W \<noteq> 0" by auto
  then have L: "0 < unat L" by (simp add: unat_gt_0)
  have W: "unat W = words_needed L B (sc_spburst psc)"
    using burst_words_unat [OF bps _ fits] L by (simp add: W_def B_def L_def words_needed_def)
  have "unat W * (8 * unat L) \<le> B * S + 8 * unat L - 1" unfolding W words_needed_def S_def by (rule div_times_less_eq_dividend)
  with fits have WL2: "unat W * unat L < 2 ^ 29" by (simp add: B_def S_def L_def)
  from calc auto obtain b0 c best where
    s: "burst_search cfg W (sc_spburst psc) 1 (cfg_fifo_ram_bytes cfg div (W * L)) 0 W = Some (b0, c, best)"
    by (auto simp: burst_fe_calculate_def Let_def W_def L_def split: if_splits option.splits)
  define b where "b = (if b0 > cfg_max_bursts cfg then best else b0)"
  from calc auto s have fb: "b0 > cfg_max_bursts cfg \<longrightarrow> best \<noteq> 0"
    and d: "burst_out cfg ((W + b - 1) div b) b c (sc_spburst psc div b) = Some (Inr d)"
    by (auto simp: burst_fe_calculate_def Let_def W_def L_def b_def split: if_splits)
  then have d: "d = \<lparr>bd_bytes = (W + b - 1) div b * L, bd_capacity = burst_cap c, bd_count = b, bd_samples = sc_spburst psc div b\<rparr>"
    by (simp add: burst_out_def L_def split: if_splits)
  from cases auto d have b: "b \<noteq> 0" "unat b < 2 ^ 31" "0 < unat b" using max
    by (auto simp: burst_ok_def word_le_nat_alt unat_gt_0)
  let ?n = "(unat W + unat b - 1) div unat b"
  note bb = burst_bytes_unat [OF WL2 W0 b(1,2) L0]
  have bytes: "unat (bd_bytes d) = ?n * unat L" using bb d by simp
  have "unat b * unat ((W + b - 1) div b * L) = unat W * unat L" using even W by (simp add: d flip: L_def B_def)
  then have "(unat b * ?n) * unat L = unat W * unat L" by (simp only: bb mult.assoc)
  then have dvd: "unat b * ?n = unat W" using L by simp
  then have m: "W mod b = 0" by (metis dvd_triv_left mod_0_imp_dvd mod_eq_0_iff_dvd unat_mod unsigned_0 word_unat_eq_iff)
  have "(b0 \<le> cfg_max_bursts cfg \<longrightarrow> W mod b0 = 0 \<and> c = cfg_fifo_ram_bytes cfg div ((W div b0) * L)) \<and> (best \<noteq> 0 \<longrightarrow> W mod best \<noteq> 0)"
    using burst_search_exact [OF s] by (simp add: L_def)
  with m fb have c: "c = cfg_fifo_ram_bytes cfg div ((W div b) * L)"
    by (auto simp: b_def not_less dest: leD split: if_split_asm)
  have n: "unat (W div b) = ?n" using dvd b(3) by (metis nonzero_mult_div_cancel_left not_less0 unat_div)
  have "?n * unat L \<le> unat W * unat L" using dvd b(3) by (metis mult_le_mono1 le_add2 mult_Suc gr0_implies_Suc add.commute le_add1)
  then have "?n * unat L < 2 ^ 32" by (rule le_less_trans [OF _ less_trans [OF WL2]]) simp
  then have wl: "unat ((W div b) * L) = ?n * unat L" by (simp add: unat_mult_lem [THEN iffD1] n)
  have "unat (burst_cap c) \<le> unat c" using burst_cap_le [of c] by (simp add: word_le_nat_alt)
  then have "unat (burst_cap c) \<le> unat (cfg_fifo_ram_bytes cfg) div (?n * unat L)" by (simp add: c unat_div wl)
  then have "unat (burst_cap c) * (?n * unat L) \<le> unat (cfg_fifo_ram_bytes cfg)"
    by (meson div_times_less_eq_dividend le_trans mult_le_mono1)
  then show ?thesis by (simp add: bytes) (simp add: d)
qed

section \<open>The registers\<close>

lemma fe_offsets:
  "SFE_CMD_BF_IFMT_OFF = 0" "SFE_CMD_BF_CHFMT_OFF = 2" "SFE_CMD_BF_BWORDS_OFF = 5" "SFE_CMD_BF_BTOTAL_OFF = 18"
  by (simp_all add: fe_field_defs)

lemma burst_format_fields:
  assumes "unat chfmt < 8" and "unat fe_format < 4" and "unat (bwords - 1) < 2 ^ 13" and "unat cap < 2 ^ 10"
  defines "w \<equiv> push_bit CMD_REG_ROUTE_OFF FE_CMD_BURST_FORMAT OR burst_format chfmt fe_format bwords cap"
  shows "fld 0 2 w = fe_format" "fld 2 3 w = chfmt" "fld 5 13 w = bwords - 1" "fld 18 10 w = cap" "fld 28 4 w = FE_CMD_BURST_FORMAT"
proof -
  have lo: "unat chfmt < 2 ^ 3" "unat fe_format < 2 ^ 2" using assms by simp_all
  note below = fld_push_below [OF _ lo(1)] fld_push_below [OF _ assms(3)] fld_push_below [OF _ assms(4)]
    fld_low_below [OF _ lo(2)]
  have w: "w = push_bit 28 1 OR (push_bit 2 chfmt OR fe_format OR push_bit 5 (bwords - 1) OR push_bit 18 cap)"
    unfolding w_def burst_format_def fe_offsets FE_CMD_BURST_FORMAT_def CMD_REG_ROUTE_OFF_def by simp
  show "fld 0 2 w = fe_format" "fld 2 3 w = chfmt" "fld 5 13 w = bwords - 1" "fld 18 10 w = cap" "fld 28 4 w = FE_CMD_BURST_FORMAT"
    using lo assms(3,4) unfolding w
    by (simp_all add: bitfield below FE_CMD_BURST_FORMAT_def del: push_bit_of_1)
qed

lemma configure_simple_run:
  assumes run: "configure_simple_fe_generic fe psc bps samples_mod fe_format chfmt chns env tr = (Inr pfc, tr')"
    and f: "unat chfmt < 8" "unat fe_format < 4" and L: "8 \<le> unat (cfg_word_bytes fe)"
    and bps: "unat chns * unat bps \<le> 64"
    and fits: "64 * unat (sc_spburst psc) + 8 * unat (cfg_word_bytes fe) < 2 ^ 32"
  shows "\<exists>samples w. tr' = tr @
      [ev_wr32 (cfg_base fe) (push_bit 28 FE_CMD_RESET OR rst_all), ev_wr32 (cfg_base fe) (samples - 1),
       ev_wr32 (cfg_base fe) (push_bit 28 FE_CMD_RESET OR RX_SCMD_IDLE), ev_wr32 (cfg_base fe) w] \<and>
    burst_fits (simple_fe_config fe samples_mod) psc (unat chns * unat bps)
      \<lparr>bd_bytes = fc_bpb pfc, bd_capacity = fld 18 10 w, bd_count = fc_burstspblk pfc, bd_samples = samples\<rparr> \<and>
    fld 0 2 w = fe_format \<and> fld 2 3 w = chfmt \<and> fld 28 4 w = FE_CMD_BURST_FORMAT \<and>
    (unat (fld 5 13 w) + 1) * unat (cfg_word_bytes fe) = unat (fc_bpb pfc) \<and>
    (unat (fc_burstspblk pfc) * unat (fc_bpb pfc) =
       words_needed (cfg_word_bytes fe) (unat chns * unat bps) (sc_spburst psc) * unat (cfg_word_bytes fe) \<longrightarrow>
     unat (fld 18 10 w) * unat (fc_bpb pfc) \<le> unat (cfg_fifomaxbytes fe))"
proof -
  let ?cfg = "simple_fe_config fe samples_mod" and ?L = "cfg_word_bytes fe"
  from run obtain d where ram: "push_bit IPBLK_PARAM_BUFFER_SIZE_ADDR 1 = cfg_fifomaxbytes fe"
    and calc: "burst_fe_calculate ?cfg psc chns bps = Some (Inr d)"
    by (auto simp: configure_simple_fe_generic_def iosuccess split: if_splits option.splits sum.splits)
  define w where "w = push_bit CMD_REG_ROUTE_OFF FE_CMD_BURST_FORMAT OR
    burst_format chfmt fe_format (bd_bytes d div ?L) (bd_capacity d)"
  from run ram calc have tr': "tr' = tr @
      [ev_wr32 (cfg_base fe) (push_bit 28 FE_CMD_RESET OR rst_all), ev_wr32 (cfg_base fe) (bd_samples d - 1),
       ev_wr32 (cfg_base fe) (push_bit 28 FE_CMD_RESET OR RX_SCMD_IDLE), ev_wr32 (cfg_base fe) w]"
    and pfc: "fc_bpb pfc = bd_bytes d" "fc_burstspblk pfc = bd_count d"
    by (auto simp: configure_simple_fe_generic_def iosuccess sfe_srx4_reg_set_def w_def
        FE_CMD_REG_ROUTE_def FE_CMD_BURST_SAMPLES_def CMD_REG_ROUTE_OFF_def Let_def)
  have le: "unat chns * unat bps * unat (sc_spburst psc) \<le> 64 * unat (sc_spburst psc)"
    by (rule mult_le_mono1 [OF bps])
  have bf: "burst_fits ?cfg psc (unat chns * unat bps) d"
    by (rule burst_fe_calculate_fits [OF calc])
      (use bps fits le in \<open>simp_all only: simple_fe_config_def rfe_config.simps MAX_BURSTS_RX_IN_BUFF_def, simp_all\<close>)
  have cap: "unat (bd_capacity d) * unat (bd_bytes d) \<le> unat (cfg_fifomaxbytes fe)"
    if "unat (bd_count d) * unat (bd_bytes d) = words_needed ?L (unat chns * unat bps) (sc_spburst psc) * unat ?L"
  proof (cases "sc_burstspblk psc = 0")
    case True
    have "unat (bd_capacity d) * unat (bd_bytes d) \<le> unat (cfg_fifo_ram_bytes ?cfg)"
      by (rule burst_fe_calculate_capacity [OF calc _ _ _ True])
        (use bps fits le that in \<open>simp_all only: simple_fe_config_def rfe_config.simps MAX_BURSTS_RX_IN_BUFF_def, simp_all\<close>)
    then show ?thesis by (simp add: simple_fe_config_def)
  next
    case False
    then show ?thesis using bf by (simp add: burst_fits_def simple_fe_config_def)
  qed
  have lims: "cfg_fifo_ram_bytes ?cfg = 65536" "cfg_data_lanes_bytes ?cfg = ?L" "limit_burst_words ?cfg = 8192"
    using ram by (simp_all add: simple_fe_config_def fe_field_defs)
  define n where "n = unat (bd_bytes d) div unat ?L"
  have "unat ?L dvd unat (bd_bytes d)" using bf lims by (simp add: burst_fits_def)
  then have n: "unat (bd_bytes d) = n * unat ?L" by (simp add: n_def)
  have "0 < unat chns * unat bps * unat (bd_samples d)" 
    using bf by (auto simp: burst_fits_def unat_gt_0)
  also have "\<dots> \<le> 8 * unat (bd_bytes d)" using bf by (simp add: burst_fits_def)
  finally have pos: "0 < n" using n by (cases n) auto
  have "n \<le> 8192"
  proof (cases "sc_burstspblk psc = 0")
    case True
    with bf lims n have "2 * (n * unat ?L) \<le> 65536 + 2 * unat ?L" by (simp add: burst_fits_def)
    then have "(n - 1) * unat ?L \<le> 32768" by (simp add: algebra_simps)
    moreover have "(n - 1) * 8 \<le> (n - 1) * unat ?L" by (rule mult_le_mono2 [OF L])
    ultimately show ?thesis by linarith
  next
    case False
    with bf lims n have "n * unat ?L \<le> 8192 * unat ?L" by (simp add: burst_fits_def)
    then show ?thesis using L by simp
  qed
  have fld: "unat (bd_bytes d div ?L - 1) = n - 1"
    using pos by (simp add: unat_sub word_le_nat_alt unat_div n_def)
  note fields = burst_format_fields [OF f, of "bd_bytes d div ?L" "bd_capacity d", folded w_def]
  have "unat (bd_bytes d div ?L - 1) < 2 ^ 13" "unat (bd_capacity d) < 2 ^ 10"
    using fld \<open>n \<le> 8192\<close> pos bf by (auto simp: burst_fits_def)
  note fields = fields [OF this]
  show ?thesis
  proof (intro exI conjI)
    show "tr' = tr @
      [ev_wr32 (cfg_base fe) (push_bit 28 FE_CMD_RESET OR rst_all), ev_wr32 (cfg_base fe) (bd_samples d - 1),
       ev_wr32 (cfg_base fe) (push_bit 28 FE_CMD_RESET OR RX_SCMD_IDLE), ev_wr32 (cfg_base fe) w]" by (rule tr')
    have eq: "\<lparr>bd_bytes = bd_bytes d, bd_capacity = bd_capacity d, bd_count = bd_count d, bd_samples = bd_samples d\<rparr> = d"
      by (cases d) simp
    show "burst_fits ?cfg psc (unat chns * unat bps)
      \<lparr>bd_bytes = fc_bpb pfc, bd_capacity = fld 18 10 w, bd_count = fc_burstspblk pfc, bd_samples = bd_samples d\<rparr>"
      unfolding pfc fields(4) eq by (rule bf)
  qed (use pfc fields fld pos n cap in simp_all)
qed

section \<open>The channel network\<close>

text \<open>The channel the network delivers at an output, read back from the four stage registers.\<close>

definition exfe_route :: "(nat \<Rightarrow> u16) \<Rightarrow> nat \<Rightarrow> u8" where
  "exfe_route ws p = of_nat p XOR horner_sum of_bool 2 (map (\<lambda>f. bit (ws f) p) [0..<4])"

lemma bit_foldl_or:
  "bit (foldl (\<lambda>w g. if P g then w OR push_bit g (1 :: u16) else w) w0 gs) n \<longleftrightarrow>
     bit w0 n \<or> n < 16 \<and> n \<in> set gs \<and> P n"
  by (induction gs arbitrary: w0) (auto simp: bit_simps)

lemma bit_ch_remapped:
  "bit (ch_remapped chmap raw lg f) g \<longleftrightarrow> f < lg \<and> g < raw \<and> g < 16 \<and> bit (chmap g) f"
  by (auto simp: ch_remapped_def bit_foldl_or)

lemma exfe_route_ok:
  assumes "raw \<in> {1, 2, 4, 8, 16}" and "p < unat raw" and "unat (src p) < unat raw"
  shows "exfe_route (ch_remapped (\<lambda>p. src p XOR of_nat p) (unat raw) (exfe_lg_chans raw)) p = src p"
proof -
  define lg where "lg = exfe_lg_chans raw"
  have lg: "unat raw = 2 ^ lg" "lg \<le> 4" using assms(1) by (auto simp: lg_def exfe_lg_chans_def)
  have "(2 :: nat) ^ lg \<le> 2 ^ 4" using lg(2) by (intro power_increasing) simp_all
  then have p16: "p < 16" using assms(2) lg by simp
  have hi: "\<not> bit (src p) n" "\<not> bit (of_nat p :: u8) n" if "lg \<le> n" for n
  proof -
    have "take_bit lg (src p) = src p" using assms(3) lg by (simp add: take_bit_fits)
    then show "\<not> bit (src p) n" using that by (metis bit_take_bit_iff not_le)
    have "take_bit lg p = p" using assms(2) lg by (simp add: take_bit_nat_eq_self)
    then show "\<not> bit (of_nat p :: u8) n" using that
      by (metis bit_of_nat_iff bit_take_bit_iff not_le)
  qed
  show ?thesis
  proof (rule bit_word_eqI)
    fix n assume "n < LENGTH(8)"
    then show "bit (exfe_route (ch_remapped (\<lambda>p. src p XOR of_nat p) (unat raw) (exfe_lg_chans raw)) p) n = bit (src p) n"
      using hi [of n] lg p16 assms(2)
      by (auto simp: exfe_route_def bit_simps bit_horner_sum_bit_iff bit_ch_remapped not_le simp flip: lg_def)
  qed
qed

text \<open>Bits per sample of all channels together.\<close>

definition rx_bps :: "stream_config \<Rightarrow> nat" where
  "rx_bps psc = (let bfmt = get_bits_fmt (sc_sfmt psc) in
     if bf_func bfmt = DSPFUNC_FFT_LPWR then 16
     else unat (bf_bits bfmt) * (if bf_complex bfmt then 2 else 1) * unat (sc_chcnt psc))"

text \<open>The raw lanes of the front end that the channel code of the format register names: the digits in the name of each
  code, in the order the codes are numbered.\<close>

definition format_lanes :: "u32 \<Rightarrow> nat set" where
  "format_lanes code = [{3, 2, 1, 0}, {1, 0}, {0}, {1}, {2, 0}, {3, 2}, {2}, {3}] ! unat code"

text \<open>The lanes of the channels a stream asks for: a complex channel is two lanes. All channels of the core are all its lanes,
  and a spectrum is taken of the first complex channel.\<close>

definition wanted_lanes :: "stream_config \<Rightarrow> nat set" where
  "wanted_lanes psc = (let bfmt = get_bits_fmt (sc_sfmt psc); chs = unat ` set (take (unat (sc_chcnt psc)) (sc_channels psc)) in
     if bf_func bfmt = DSPFUNC_FFT_LPWR then {0, 1}
     else if (if bf_complex bfmt then 2 else 1) * unat (sc_chcnt psc) = 4 then {0, 1, 2, 3}
     else if bf_complex bfmt then (\<Union>c\<in>chs. {2 * c, 2 * c + 1}) else chs)"

text \<open>The code of the sample format: the spectrum block, 8, 12 or 16 bits.\<close>

definition sample_code :: "stream_config \<Rightarrow> nat" where
  "sample_code psc = (let bfmt = get_bits_fmt (sc_sfmt psc) in
     if bf_func bfmt = DSPFUNC_FFT_LPWR then 0 else if bf_bits bfmt = 8 then 1 else if bf_bits bfmt = 12 then 2 else 3)"

lemmas ifmt_ch_defs = IFMT_CH_3210_def IFMT_CH_xx10_def IFMT_CH_xxx0_def IFMT_CH_xx1x_def IFMT_CH_x2x0_def IFMT_CH_32xx_def
  IFMT_CH_x2xx_def IFMT_CH_3xxx_def

lemma sfe_rx4_chfmt_lanes:
  assumes "sfe_rx4_chfmt (bf_complex bfmt) (sc_chcnt psc) (sc_channels psc) = Some (chfmt, chns)"
    and "bfmt = get_bits_fmt (sc_sfmt psc)" and "bf_func bfmt \<noteq> DSPFUNC_FFT_LPWR" and "2 \<le> length (sc_channels psc)"
  shows "format_lanes chfmt = wanted_lanes psc"
proof -
  from assms(4) obtain a b m where "sc_channels psc = a # b # m"
    by (metis One_nat_def Suc_1 Suc_le_length_iff)
  with assms(1-3) show ?thesis
    by (auto simp: sfe_rx4_chfmt_def wanted_lanes_def format_lanes_def ifmt_ch_defs split: if_splits)
qed

lemma sfe_rx4_chfmt_fits:
  "sfe_rx4_chfmt cplx chcnt m = Some (chfmt, chns) \<Longrightarrow>
   unat chfmt < 8 \<and> unat chns \<le> 4 \<and> unat chns = (if cplx then 2 else 1) * unat chcnt"
  by (auto simp: sfe_rx4_chfmt_def IFMT_CH_3210_def IFMT_CH_xx10_def IFMT_CH_xxx0_def IFMT_CH_xx1x_def
      IFMT_CH_x2x0_def IFMT_CH_32xx_def IFMT_CH_x2xx_def IFMT_CH_3xxx_def split: if_splits)

section \<open>Properties\<close>

lemma sfe_rx4_configure_full:
  assumes run: "sfe_rx4_configure fe psc env tr = (Inr pfc, tr')"
    and L: "8 \<le> unat (cfg_word_bytes fe)"
    and fits: "64 * unat (sc_spburst psc) + 8 * unat (cfg_word_bytes fe) < 2 ^ 32"
  shows "\<exists>samples w. tr' = tr @
      [ev_wr32 (cfg_base fe) (push_bit 28 FE_CMD_RESET OR rst_all), ev_wr32 (cfg_base fe) (samples - 1),
       ev_wr32 (cfg_base fe) (push_bit 28 FE_CMD_RESET OR RX_SCMD_IDLE), ev_wr32 (cfg_base fe) w] \<and>
    burst_fits (simple_fe_config fe (if bf_func (get_bits_fmt (sc_sfmt psc)) = DSPFUNC_FFT_LPWR then 512 else 1)) psc (rx_bps psc)
      \<lparr>bd_bytes = fc_bpb pfc, bd_capacity = fld 18 10 w, bd_count = fc_burstspblk pfc, bd_samples = samples\<rparr> \<and>
    fld 28 4 w = FE_CMD_BURST_FORMAT \<and>
    (unat (fld 5 13 w) + 1) * unat (cfg_word_bytes fe) = unat (fc_bpb pfc) \<and>
    unat (fld 0 2 w) = sample_code psc \<and> (2 \<le> length (sc_channels psc) \<longrightarrow> format_lanes (fld 2 3 w) = wanted_lanes psc) \<and>
    (unat (fc_burstspblk pfc) * unat (fc_bpb pfc) =
       words_needed (cfg_word_bytes fe) (rx_bps psc) (sc_spburst psc) * unat (cfg_word_bytes fe) \<longrightarrow>
     unat (fld 18 10 w) * unat (fc_bpb pfc) \<le> unat (cfg_fifomaxbytes fe))"
proof (cases "bf_func (get_bits_fmt (sc_sfmt psc)) = DSPFUNC_FFT_LPWR")
  case True
  with run have r: "configure_simple_fe_generic fe psc 16 512 IFMT_DSP IFMT_CH_xx10 1 env tr = (Inr pfc, tr')"
    by (simp add: sfe_rx4_configure_def Let_def iosuccess split: if_splits)
  have e: "rx_bps psc = unat (1 :: u32) * unat (16 :: u32)" using True by (simp add: rx_bps_def)
  have c: "sample_code psc = unat IFMT_DSP" "wanted_lanes psc = format_lanes IFMT_CH_xx10"
    using True by (auto simp: sample_code_def wanted_lanes_def format_lanes_def IFMT_DSP_def IFMT_CH_xx10_def)
  from configure_simple_run [OF r _ _ L _ fits] True show ?thesis
    unfolding e c by (fastforce simp: IFMT_DSP_def IFMT_CH_xx10_def)
next
  case False
  let ?b = "get_bits_fmt (sc_sfmt psc)"
  define code where "code = (if bf_bits ?b = 8 then IFMT_8BIT else if bf_bits ?b = 12 then IFMT_12BIT else IFMT_16BIT)"
  from False run obtain chfmt chns where c: "sfe_rx4_chfmt (bf_complex ?b) (sc_chcnt psc) (sc_channels psc) = Some (chfmt, chns)"
    and r: "configure_simple_fe_generic fe psc (ucast (bf_bits ?b)) 1 code chfmt chns env tr = (Inr pfc, tr')"
    by (auto simp: sfe_rx4_configure_def Let_def iosuccess code_def split: if_splits option.splits)
  from sfe_rx4_chfmt_fits [OF c] have chns: "unat chfmt < 8" "unat chns \<le> 4"
    and e: "rx_bps psc = unat chns * unat (ucast (bf_bits ?b) :: u32)"
    using False by (simp_all add: rx_bps_def Let_def)
  have "unat (bf_bits ?b) \<le> 16" using get_bits_fmt_bits [of "sc_sfmt psc"] by auto
  then have "unat chns * unat (ucast (bf_bits ?b) :: u32) \<le> 4 * 16"
    using chns(2) by (intro mult_le_mono) simp_all
  moreover have "unat code < 4" by (simp add: code_def IFMT_8BIT_def IFMT_12BIT_def IFMT_16BIT_def)
  moreover have "sample_code psc = unat code"
    using False by (simp add: sample_code_def code_def IFMT_8BIT_def IFMT_12BIT_def IFMT_16BIT_def)
  moreover have "2 \<le> length (sc_channels psc) \<longrightarrow> format_lanes chfmt = wanted_lanes psc" using sfe_rx4_chfmt_lanes [OF c refl False] by blast
  ultimately show ?thesis
    using configure_simple_run [OF r chns(1) _ L _ fits] False unfolding e by fastforce
qed

lemma sfe_rx4_configure_run:
  assumes "sfe_rx4_configure fe psc env tr = (Inr pfc, tr')" and "8 \<le> unat (cfg_word_bytes fe)"
    and "64 * unat (sc_spburst psc) + 8 * unat (cfg_word_bytes fe) < 2 ^ 32"
  shows "\<exists>samples_mod samples w. tr' = tr @
      [ev_wr32 (cfg_base fe) (push_bit 28 FE_CMD_RESET OR rst_all), ev_wr32 (cfg_base fe) (samples - 1),
       ev_wr32 (cfg_base fe) (push_bit 28 FE_CMD_RESET OR RX_SCMD_IDLE), ev_wr32 (cfg_base fe) w] \<and>
    burst_fits (simple_fe_config fe samples_mod) psc (rx_bps psc)
      \<lparr>bd_bytes = fc_bpb pfc, bd_capacity = fld 18 10 w, bd_count = fc_burstspblk pfc, bd_samples = samples\<rparr>"
  using sfe_rx4_configure_full [OF assms] by blast

text \<open>C4: A receive front end that was configured has been sent exactly four register writes,
  samples per burst between the two reset writes, and the format register agrees with what the
  DMA is then told: the burst length in it is the bytes per burst, the bursts hold all samples of
  the packet and together are the packet, their number and length fit the core. The register names the sample format and exactly
  the lanes of the channels asked for. The number of bursts kept in the memory of the core fits it when the burst count is
  given, and when it is searched for if the bursts take no more words than the packet; otherwise it need not, which
  \<open>rx_capacity_overcommit\<close> shows.\<close>

theorem sfe_rx4_configure_programs:
  assumes run: "sfe_rx4_configure fe psc env tr = (Inr pfc, tr')"
    and L: "8 \<le> unat (cfg_word_bytes fe)"
    and fits: "64 * unat (sc_spburst psc) + 8 * unat (cfg_word_bytes fe) < 2 ^ 32"
    and map: "2 \<le> length (sc_channels psc)"
  shows "\<exists>samples w. tr' = tr @
      [ev_wr32 (cfg_base fe) (push_bit 28 FE_CMD_RESET OR rst_all), ev_wr32 (cfg_base fe) (samples - 1),
       ev_wr32 (cfg_base fe) (push_bit 28 FE_CMD_RESET OR RX_SCMD_IDLE), ev_wr32 (cfg_base fe) w] \<and>
    burst_fits (simple_fe_config fe (if bf_func (get_bits_fmt (sc_sfmt psc)) = DSPFUNC_FFT_LPWR then 512 else 1)) psc (rx_bps psc)
      \<lparr>bd_bytes = fc_bpb pfc, bd_capacity = fld 18 10 w, bd_count = fc_burstspblk pfc, bd_samples = samples\<rparr> \<and>
    fld 28 4 w = FE_CMD_BURST_FORMAT \<and>
    (unat (fld 5 13 w) + 1) * unat (cfg_word_bytes fe) = unat (fc_bpb pfc) \<and>
    unat (fld 0 2 w) = sample_code psc \<and> format_lanes (fld 2 3 w) = wanted_lanes psc \<and>
    (unat (fc_burstspblk pfc) * unat (fc_bpb pfc) =
       words_needed (cfg_word_bytes fe) (rx_bps psc) (sc_spburst psc) * unat (cfg_word_bytes fe) \<longrightarrow>
     unat (fld 18 10 w) * unat (fc_bpb pfc) \<le> unat (cfg_fifomaxbytes fe))"
  using sfe_rx4_configure_full [OF run L fits] map by simp

definition fe4 :: sfe_cfg where
  "fe4 = \<lparr>cfg_fecore_id = 0, cfg_base = 0, cfg_fifomaxbytes = 65536, cfg_word_bytes = 8,
     cfg_dma_align_bytes = 8, cfg_raw_chans = 4\<rparr>"

definition psc_ci16 :: "u32 \<Rightarrow> u32 \<Rightarrow> stream_config" where
  "psc_ci16 spburst burstspblk = \<lparr>sc_sfmt = ''ci16'', sc_spburst = spburst, sc_burstspblk = burstspblk,
     sc_chcnt = 1, sc_channels = replicate 64 0\<rparr>"

lemma ci16_fmt: "get_bits_fmt ''ci16'' = \<lparr>bf_bits = 16, bf_complex = True, bf_func = []\<rparr>"
  by (simp add: get_bits_fmt_def strcaseeq_def tolower_def less_eq_char_def)

lemma fe4_calculate: "burst_fe_calculate (simple_fe_config fe4 1) (psc_ci16 1024 1) 2 16 =
    Some (Inr \<lparr>bd_bytes = 4096, bd_capacity = 16, bd_count = 1, bd_samples = 1024\<rparr>)"
  by (simp add: burst_fe_calculate_def Let_def burst_words_def burst_out_def burst_cap_def fe4_def
      psc_ci16_def simple_fe_config_def fe_field_defs MAX_BURSTS_RX_IN_BUFF_def)

theorem sfe_rx4_configure_programs_witness:
  "\<exists>pfc w. sfe_rx4_configure fe4 (psc_ci16 1024 1) accept_all [] = (Inr pfc,
      [ev_wr32 0 (push_bit 28 FE_CMD_RESET OR rst_all), ev_wr32 0 (1024 - 1),
       ev_wr32 0 (push_bit 28 FE_CMD_RESET OR RX_SCMD_IDLE), ev_wr32 0 w]) \<and>
     (unat (fld 5 13 w) + 1) * 8 = 4096 \<and> unat (fld 0 2 w) = 3 \<and> format_lanes (fld 2 3 w) = {0, 1}"
proof -
  obtain tr' where run: "sfe_rx4_configure fe4 (psc_ci16 1024 1) accept_all [] =
    (Inr \<lparr>fc_bpb = 4096, fc_burstspblk = 1, fc_oob_off = 0, fc_oob_len = 0\<rparr>, tr')"
    using fe4_calculate
    by (simp add: sfe_rx4_configure_def ci16_fmt psc_ci16_def sfe_rx4_chfmt_def DSPFUNC_FFT_LPWR_def
        configure_simple_fe_generic_def fe4_def fe_field_defs sfe_srx4_reg_set_def)
  have "8 \<le> unat (cfg_word_bytes fe4)"
    "64 * unat (sc_spburst (psc_ci16 1024 1)) + 8 * unat (cfg_word_bytes fe4) < 2 ^ 32"
    "2 \<le> length (sc_channels (psc_ci16 1024 1))"
    by (simp_all add: fe4_def psc_ci16_def)
  note ok = sfe_rx4_configure_programs [OF run this]
  have "sample_code (psc_ci16 1024 1) = 3" "wanted_lanes (psc_ci16 1024 1) = {0, 1}"
    by (simp_all add: sample_code_def wanted_lanes_def ci16_fmt psc_ci16_def DSPFUNC_FFT_LPWR_def)
  with ok obtain samples w where
    "tr' = [ev_wr32 0 (push_bit 28 FE_CMD_RESET OR rst_all), ev_wr32 0 (samples - 1),
       ev_wr32 0 (push_bit 28 FE_CMD_RESET OR RX_SCMD_IDLE), ev_wr32 0 w]"
    and "bd_samples \<lparr>bd_bytes = 4096, bd_capacity = fld 18 10 w, bd_count = 1, bd_samples = samples\<rparr> = 1024"
    and "(unat (fld 5 13 w) + 1) * 8 = 4096" "unat (fld 0 2 w) = 3" "format_lanes (fld 2 3 w) = {0, 1}"
    by (auto simp: fe4_def psc_ci16_def burst_fits_def simp del: ev_wr32_inject)
  with run show ?thesis by auto
qed

text \<open>When no burst count divides the packet evenly, the FIFO capacity is the one of the last
  count the search looked at, not of the count it settles on: for 9009 complex 16-bit samples it plans three
  bursts of 12016 bytes and programs a capacity of 38 of them, 456608 bytes in a FIFO of
  65536.\<close>

theorem rx_capacity_overcommit:
  "burst_fe_calculate (simple_fe_config fe4 1) (psc_ci16 9009 0) 2 16 =
    Some (Inr \<lparr>bd_bytes = 12016, bd_capacity = 38, bd_count = 3, bd_samples = 3003\<rparr>) \<and>
   unat (cfg_fifomaxbytes fe4) < 38 * 12016"
  by (simp add: burst_fe_calculate_def Let_def burst_words_def burst_out_def burst_cap_def fe4_def
      psc_ci16_def simple_fe_config_def fe_field_defs MAX_BURSTS_RX_IN_BUFF_def burst_search.simps)

text \<open>The bit count of a packet is computed in 32 bits: with four raw channels of 16 bits and
  2^26 + 1 samples it wraps to one word, and the search for a burst count divides by zero.\<close>

theorem rx_plan_divides_by_zero:
  "burst_fe_calculate (simple_fe_config fe4 1) (psc_ci16 67108865 0) 4 16 = None"
  by (simp add: burst_fe_calculate_def Let_def burst_words_def burst_out_def burst_cap_def fe4_def
      psc_ci16_def simple_fe_config_def fe_field_defs MAX_BURSTS_RX_IN_BUFF_def burst_search.simps)

text \<open>The raw lane an output is to carry, from the entry \<open>c\<close> of the channel map and the output's place \<open>q\<close> in its channel. An
  entry of a complex stream is a channel in its low seven bits, each of two lanes, I before Q, and a flag in the top bit that
  swaps them; an entry of a real stream is a lane. With a mask the channels repeat after the \<open>n\<close> of the stream.\<close>

definition wanted_lane :: "bool \<Rightarrow> bool \<Rightarrow> nat \<Rightarrow> nat \<Rightarrow> nat \<Rightarrow> nat" where
  "wanted_lane msk cplx n c q =
    (let ch = (if cplx then c mod 128 else c); k = (if msk then ch mod n else ch)
     in if cplx then 2 * k + (if 128 \<le> c then 1 - q else q) else k)"

lemma mask_of_chans:
  assumes "unat (t :: u32) = 2 ^ j"
  shows "unat (ucast (c :: u8) AND (t - 1)) = unat c mod 2 ^ j"
proof -
  have "of_nat (unat t) = (2 :: u32) ^ j" by (simp only: assms of_nat_power of_nat_numeral)
  then have "t = 2 ^ j" by simp
  then have "ucast c AND (t - 1) = take_bit j (ucast c :: u32)" by (simp add: take_bit_eq_mask mask_eq_exp_minus_1)
  moreover have "(2 :: nat) ^ j < 2 ^ 32" using assms unsigned_less [of t, where 'a = nat] by simp
  then have "j < 32" by (metis nat_power_less_imp_less zero_less_numeral)
  then have "unat (take_bit j (ucast c :: u32)) = take_bit j (unat c)" by (simp add: unsigned_take_bit_eq unsigned_ucast_eq)
  ultimately show ?thesis by (simp only: take_bit_eq_mod)
qed

lemma swap_flag: "(c :: u8) AND CH_SWAP_IQ_FLAG \<noteq> 0 \<longleftrightarrow> 128 \<le> unat c"
proof -
  have "CH_SWAP_IQ_FLAG = push_bit 7 1" by (simp add: CH_SWAP_IQ_FLAG_def)
  then have "CH_SWAP_IQ_FLAG = 2 ^ 7" by simp
  then have "c AND CH_SWAP_IQ_FLAG \<noteq> 0 \<longleftrightarrow> bit c 7" by (metis and_exp_eq_0_iff_not_bit)
  also have "bit c 7 \<longleftrightarrow> bit (unat c) 7" by (simp add: bit_unsigned_iff)
  also have "\<dots> \<longleftrightarrow> odd (unat c div 2 ^ 7)" by (rule bit_iff_odd)
  also have "\<dots> \<longleftrightarrow> 128 \<le> unat c"
  proof -
    have "unat c < 256" using unsigned_less [of c, where 'a = nat] by simp
    then have "unat c div 2 ^ 7 = (if 128 \<le> unat c then 1 else 0)" by (auto intro!: div_nat_eqI)
    then show ?thesis by simp
  qed
  finally show ?thesis .
qed

lemma mask_of_chans_all: "unat (ucast (c :: u8) AND (0xff :: u32)) = unat c"
proof -
  have "ucast c AND 0xff = (take_bit 8 (ucast c) :: u32)" by (simp add: take_bit_eq_mask mask_eq_exp_minus_1)
  moreover have "take_bit 8 (unat c) = unat c" using unsigned_less [of c, where 'a = nat] by (simp add: take_bit_nat_eq_self)
  ultimately show ?thesis by (simp add: unsigned_take_bit_eq unsigned_ucast_eq)
qed

lemma chans_le_rounded: "0 < (raw :: nat) \<Longrightarrow> 0 < t \<Longrightarrow> t \<le> ((raw + t - 1) div t) * t"
proof -
  assume "0 < raw" "0 < t"
  then have "1 \<le> (raw + t - 1) div t" by (simp add: div_greater_zero_iff Suc_le_eq)
  then show ?thesis by (metis mult_1 mult_le_mono1)
qed

lemma exfe_src_wanted:
  assumes "if cplx then unat t = 2 * n else unat t = n" and "n < 128" and "msk \<Longrightarrow> n = 2 ^ j"
  shows "unat (exfe_src cplx (if msk then (if cplx then t div 2 else t) - 1 else 0xff) (unat t) newmap p) =
    wanted_lane msk cplx n (unat (newmap ! (if cplx then p mod unat t div 2 else p mod unat t))) (p mod unat t mod 2) mod 256"
proof -
  define f where "f = p mod unat t"
  define c where "c = newmap ! (if cplx then f div 2 else f)"
  define m where "m = (if msk then (if cplx then t div 2 else t) - 1 else 0xff :: u32)"
  define k where "k = (if msk then unat c mod n else unat c)"
  have c256: "unat c < 256" using unsigned_less [of c, where 'a = nat] by simp
  have "unat (if cplx then t div 2 else t) = n" using assms(1) by (auto simp: unat_div split: if_splits)
  then have m: "unat (ucast c AND m) = k"
    using mask_of_chans [of _ j c] assms(3) mask_of_chans_all [of c] by (auto simp: m_def k_def)
  show ?thesis
  proof (cases cplx)
    case False
    have "unat (ucast (ucast c AND m) :: u8) = k mod 256" using m by (simp add: unsigned_ucast_eq take_bit_eq_mod)
    then show ?thesis using False assms(3) by (simp add: exfe_src_def wanted_lane_def Let_def k_def flip: f_def c_def m_def) (simp add: c_def)
  next
    case True
    define q where "q = (if 128 \<le> unat c then 1 - f mod 2 else f mod 2)"
    have "of_nat (f mod 2) XOR (if c AND CH_SWAP_IQ_FLAG \<noteq> 0 then 1 else 0) = (of_nat q :: u32)"
      by (simp add: swap_flag q_def mod_2_eq_odd)
    moreover have "unat (ucast (2 * (ucast c AND m) + of_nat q :: u32) :: u8) = (2 * k + q) mod 256"
    proof -
      have "unat (ucast c AND m) < 256" using word_and_le2 [of "ucast c" m] c256
        by (metis (no_types, lifting) m k_def le_less_trans mod_le_divisor mod_less_eq_dividend)
      then have "unat (2 * (ucast c AND m) + of_nat q :: u32) = 2 * k + q"
        using m by (simp add: q_def unat_word_ariths unat_of_nat)
      then show ?thesis by (simp add: unsigned_ucast_eq take_bit_eq_mod)
    qed
    moreover have "(2 * k + q) mod 256 = wanted_lane msk cplx n (unat c) (f mod 2) mod 256"
    proof (cases msk)
      case True
      have "(2 :: nat) ^ j < 2 ^ 7" using assms(2,3) True by simp
      then have "j < 7" by (metis nat_power_less_imp_less zero_less_numeral)
      then have "(2 :: nat) ^ j dvd 2 ^ 7" by (intro le_imp_power_dvd) simp
      then have "n dvd 2 ^ 7" using assms(3) True by simp
      then have "unat c mod 128 mod n = unat c mod n" by (intro mod_mod_cancel) simp
      then show ?thesis using True \<open>cplx\<close> by (simp add: k_def wanted_lane_def q_def)
    next
      case False
      have "(2 * unat c + q) mod 256 = (2 * (unat c mod 128) + q) mod 256"
        using mult_mod_right [of 2 "unat c" 128] by (metis mod_add_left_eq mod_mod_trivial numeral_times_numeral semiring_norm(12,13,14) mult_2 numeral_Bit0)
      then show ?thesis using False \<open>cplx\<close> by (simp add: k_def wanted_lane_def q_def)
    qed
    moreover have "exfe_src cplx m (unat t) newmap p =
        ucast (2 * (ucast c AND m) + (of_nat (f mod 2) XOR (if c AND CH_SWAP_IQ_FLAG \<noteq> 0 then 1 else 0)) :: u32)"
      using True by (simp add: exfe_src_def Let_def c_def f_def)
    ultimately show ?thesis unfolding m_def [symmetric] f_def [symmetric] c_def [symmetric] by (simp only:)
  qed
qed

text \<open>C12: The four stage registers of the channel network, as they are programmed, deliver at every output the lane its entry
  of the map asks for: the channel of the entry, I and Q swapped where its flag says so, the channels of the stream repeated over
  the outputs of the core and, with a mask, over the channels there are; for every lane count the core is built with.\<close>

theorem exfe_chmap_routes:
  assumes "exfe_trx4_update_chmap fe msk cplx total_chans newmap env tr = (Inr (), tr')"
    and "cfg_raw_chans fe \<in> {1, 2, 4, 8, 16}" and "unat total_chans = (if cplx then 2 * n else n)" and "msk \<Longrightarrow> n = 2 ^ j"
  shows "\<exists>ws :: nat \<Rightarrow> u16. tr' = tr @ map (\<lambda>i. ev_wr32 (cfg_base fe) (push_bit 24 (0x10 + of_nat i) OR ucast (ws i))) [0..<4] \<and>
    (\<forall>p < unat (cfg_raw_chans fe). let f = p mod unat total_chans;
         w = wanted_lane msk cplx n (unat (newmap ! (if cplx then f div 2 else f))) (f mod 2)
       in w < unat (cfg_raw_chans fe) \<longrightarrow> unat (exfe_route ws p) = w)"
proof -
  let ?m = "if msk then (if cplx then total_chans div 2 else total_chans) - 1 else 0xff"
  define src where "src = exfe_src cplx ?m (unat total_chans) newmap"
  define ws where "ws = ch_remapped (\<lambda>p. src p XOR of_nat p) (unat (cfg_raw_chans fe)) (exfe_lg_chans (cfg_raw_chans fe))"
  have m: "ucast (w :: u16) AND (0xffffff :: u32) = ucast w" for w
    by (rule bit_word_eqI) (auto simp: bit_simps bitfield dest: bit_imp_le_length)
  have four: "[0..<4] = [0, 1, 2, 3 :: nat]" by (simp add: upt_rec)
  have tr': "tr' = tr @ map (\<lambda>i. ev_wr32 (cfg_base fe) (push_bit 24 (0x10 + of_nat i) OR ucast (ws i))) [0..<4]"
    using assms(1)
    by (simp add: exfe_trx4_update_chmap_def Let_def iosuccess sfe_exrx_reg_set_def MAKE_EXFE_REG_def m four
        exfe_cmd_defs FE_CMD_REG_ROUTE_def ws_def src_def split: if_splits)
  have raw: "0 < unat (cfg_raw_chans fe)" "unat (cfg_raw_chans fe) \<le> 16" using assms(2) by auto
  have "((unat (cfg_raw_chans fe) + unat total_chans - 1) div unat total_chans) * unat total_chans \<le> 16" "total_chans \<noteq> 0"
    using assms(1) raw by (auto simp: exfe_trx4_update_chmap_def Let_def iosuccess MAX_EX_CHANS_def not_less split: if_splits)
  then have "unat total_chans \<le> 16"
    by (intro le_trans [OF chans_le_rounded [OF raw(1), of "unat total_chans"]]) (simp_all add: unat_gt_0)
  then have n: "n < 128" using assms(3) by (auto split: if_splits)
  have src: "unat (src p) = wanted_lane msk cplx n (unat (newmap ! (if cplx then p mod unat total_chans div 2 else p mod unat total_chans)))
      (p mod unat total_chans mod 2) mod 256" for p
    unfolding src_def by (rule exfe_src_wanted [OF _ n assms(4)]) (use assms(3) in auto)
  show ?thesis
  proof (intro exI [of _ ws] conjI allI impI tr', unfold Let_def, intro impI)
    fix p
    let ?f = "p mod unat total_chans"
    let ?w = "wanted_lane msk cplx n (unat (newmap ! (if cplx then ?f div 2 else ?f))) (?f mod 2)"
    assume p: "p < unat (cfg_raw_chans fe)" and w: "?w < unat (cfg_raw_chans fe)"
    then have "unat (src p) = ?w" using src [of p] raw(2) by simp
    moreover have "exfe_route ws p = src p" unfolding ws_def by (rule exfe_route_ok [OF assms(2) p]) (use calculation w in simp)
    ultimately show "unat (exfe_route ws p) = ?w" by simp
  qed
qed

text \<open>Two complex channels of two, exchanged, with I and Q of the second swapped.\<close>

theorem exfe_chmap_routes_witness:
  "\<exists>ws tr'. exfe_trx4_update_chmap fe4 False True 4 [1, 0x80] accept_all [] = (Inr (), tr') \<and>
     map (\<lambda>p. unat (exfe_route ws p)) [0..<4] = [2, 3, 1, 0] \<and>
     tr' = map (\<lambda>i. ev_wr32 0 (push_bit 24 (0x10 + of_nat i) OR ucast (ws i))) [0..<4]"
proof -
  obtain tr' where run: "exfe_trx4_update_chmap fe4 False True 4 [1, 0x80] accept_all [] = (Inr (), tr')"
    by (simp add: exfe_trx4_update_chmap_def Let_def fe4_def MAX_EX_CHANS_def sfe_exrx_reg_set_def)
  have four: "[0..<4] = [0, 1, 2, 3 :: nat]" by (simp add: upt_rec)
  from exfe_chmap_routes [OF run, of 2 0] obtain ws :: "nat \<Rightarrow> u16" where
    tr: "tr' = map (\<lambda>i. ev_wr32 0 (push_bit 24 (0x10 + of_nat i) OR ucast (ws i))) [0..<4]"
    and r: "\<forall>p<4. let f = p mod 4; w = wanted_lane False True 2 (unat ([1, 0x80 :: u8] ! (f div 2))) (f mod 2)
       in w < 4 \<longrightarrow> unat (exfe_route ws p) = w"
    by (auto simp: fe4_def)
  have "unat (exfe_route ws 0) = 2" "unat (exfe_route ws 1) = 3" "unat (exfe_route ws 2) = 1" "unat (exfe_route ws 3) = 0"
    using r [rule_format, of 0] r [rule_format, of 1] r [rule_format, of 2] r [rule_format, of 3] by (simp_all add: wanted_lane_def)
  with run tr show ?thesis by (auto simp: four)
qed

end
