(* ===== verification/SfeTx.thy ===== *)
theory SfeTx
  imports SfeRx
begin

text \<open>
  The transmit front end and the receive DMA (\<open>src/lib/ipblks/streams/sfe_tx_4.c\<close>,
  \<open>dma_rx_32.c\<close>): the descriptor that hands a buffer of samples to the core, in its plain form and
  in the extended form that skips registers its cache says are already set, the control commands
  of the TX core, and reset and set-up of the RX DMA.
\<close>

section \<open>Transmit\<close>

definition MAX_TX_FIFO_SZ :: int where "MAX_TX_FIFO_SZ = 126976"

definition sfe_tx4_check_format :: "stream_config \<Rightarrow> int" where
  "sfe_tx4_check_format psc = (if bf_bits (get_bits_fmt (sc_sfmt psc)) \<noteq> 0 then 0 else - EINVAL)"

definition sfe_tx4_mtu_get :: "stream_config \<Rightarrow> int" where
  "sfe_tx4_mtu_get sc = MAX_TX_FIFO_SZ"

text \<open>Time stamps are signed 64-bit integers: bit 63 is the sign.\<close>

definition tx_desc0 :: "u32 \<Rightarrow> u64 \<Rightarrow> u32" where
  "tx_desc0 samples timestamp =
    (ucast (signed_drop_bit 32 timestamp) AND 0x7fff) OR push_bit 15 ((samples - 1) AND 0x7fff) OR
    (if bit timestamp 63 then 0x40000000 else 0)"

definition sfe_tx4_push_ring_buffer :: "u32 \<Rightarrow> u32 \<Rightarrow> u64 \<Rightarrow> (int + u8 list) io" where
  "sfe_tx4_push_ring_buffer base samples timestamp =
    lowlevel_ls_op USDR_LSOP_HWREG base 0 (le_bytes 4 (tx_desc0 samples timestamp) @ le_bytes 4 (ucast timestamp :: u32))"

text \<open>The extended descriptor. The three registers the caller caches are updated whether or not
  the writes succeed; the result is the return code and the new cache.\<close>

type_synonym creg = "u32 \<times> u32 \<times> u32"

definition extx_cfg0 :: "u32 \<Rightarrow> u32" where
  "extx_cfg0 bytes = (bytes - 1) AND 0xffffff"

definition extx_cfg1 :: "u32 \<Rightarrow> nat \<Rightarrow> u32" where
  "extx_cfg1 samples lgbursts = push_bit 24 (push_bit lgbursts 1 - 1) OR ((samples - 1) AND 0xffffff)"

definition wr_if :: "bool \<Rightarrow> u32 \<Rightarrow> u32 \<Rightarrow> (int + unit) io" where
  "wr_if c a w = (if c then lowlevel_reg_wr32 a w else ioreturn ())"

definition sfe_extx4_push_ring_buffer ::
  "u32 \<Rightarrow> creg \<Rightarrow> u32 \<Rightarrow> u32 \<Rightarrow> nat \<Rightarrow> u64 \<Rightarrow> (int \<times> creg) io" where
  "sfe_extx4_push_ring_buffer base c bytes samples lgbursts timestamp =
    (case c of (c0, c1, c2) \<Rightarrow>
     if bytes > push_bit 20 1 \<or> samples > push_bit 20 1 then (\<lambda>env tr. ((- EINVAL, c), tr))
     else
       let cfg0 = extx_cfg0 bytes; cfg1 = extx_cfg1 samples lgbursts;
           tsh = ucast (signed_drop_bit 32 timestamp); tsl = ucast timestamp
       in (\<lambda>env tr. case iolist
            [wr_if (c0 \<noteq> cfg0) base cfg0, wr_if (c1 \<noteq> cfg1) (base + 1) cfg1,
             wr_if (c2 \<noteq> tsh) (base + 2) tsh, lowlevel_reg_wr32 (base + 3) tsl] env tr of
          (Inl e, tr') \<Rightarrow> ((e, (cfg0, cfg1, tsh)), tr')
        | (Inr u, tr') \<Rightarrow> ((0, (cfg0, cfg1, tsh)), tr')))"

definition GP_PORT_TXDMA_CTRL_MODE_REP :: nat where "GP_PORT_TXDMA_CTRL_MODE_REP = 2"
definition GP_PORT_TXDMA_CTRL_MODE_FMT :: nat where "GP_PORT_TXDMA_CTRL_MODE_FMT = 3"
definition GP_PORT_TXDMA_CTRL_RESET_BUFS :: nat where "GP_PORT_TXDMA_CTRL_RESET_BUFS = 7"
definition GP_PORT_TXDMA_CTRL_MODE_MUTEB :: nat where "GP_PORT_TXDMA_CTRL_MODE_MUTEB = 8"
definition GP_PORT_TXDMA_CTRL_MODE_MUTEA :: nat where "GP_PORT_TXDMA_CTRL_MODE_MUTEA = 9"
definition GP_PORT_TXDMA_CTRL_MODE_SWAP_AB :: nat where "GP_PORT_TXDMA_CTRL_MODE_SWAP_AB = 10"
definition TX_CMD_STOP :: u32 where "TX_CMD_STOP = 0"
definition TX_CMD_UPD_FLAGS :: u32 where "TX_CMD_UPD_FLAGS = 1"
definition TX_CMD_START_16BIT :: u32 where "TX_CMD_START_16BIT = 3"

lemmas txdma_defs = GP_PORT_TXDMA_CTRL_MODE_REP_def GP_PORT_TXDMA_CTRL_MODE_FMT_def
  GP_PORT_TXDMA_CTRL_RESET_BUFS_def GP_PORT_TXDMA_CTRL_MODE_MUTEB_def GP_PORT_TXDMA_CTRL_MODE_MUTEA_def
  GP_PORT_TXDMA_CTRL_MODE_SWAP_AB_def TX_CMD_STOP_def TX_CMD_UPD_FLAGS_def TX_CMD_START_16BIT_def

definition fe_tx4_swap_ab_get :: "u32 \<Rightarrow> channel_info \<Rightarrow> int + u32" where
  "fe_tx4_swap_ab_get channels newmap =
    (if channels = 2 \<and> newmap ! 0 = newmap ! 1 then Inl (- EINVAL)
     else Inr (if newmap ! 0 = 1 then 1 else 0))"

definition tx_ctl_cmd :: "u32 \<Rightarrow> u8 \<Rightarrow> u8 \<Rightarrow> bool \<Rightarrow> u32" where
  "tx_ctl_cmd chans swap_ab_flag mute_flag repeat =
    (push_bit GP_PORT_TXDMA_CTRL_MODE_FMT (chans AND 3) OR
     (if mute_flag AND 1 \<noteq> 0 then push_bit GP_PORT_TXDMA_CTRL_MODE_MUTEA 1 else 0) OR
     (if mute_flag AND 2 \<noteq> 0 then push_bit GP_PORT_TXDMA_CTRL_MODE_MUTEB 1 else 0) OR
     (if swap_ab_flag \<noteq> 0 then push_bit GP_PORT_TXDMA_CTRL_MODE_SWAP_AB 1 else 0) OR
     (if repeat then push_bit GP_PORT_TXDMA_CTRL_MODE_REP 1 else 0))"

definition sfe_tx4_ctl :: "u32 \<Rightarrow> u32 \<Rightarrow> u8 \<Rightarrow> u8 \<Rightarrow> bool \<Rightarrow> bool \<Rightarrow> (int + unit) io" where
  "sfe_tx4_ctl sync_base chans swap_ab_flag mute_flag repeat start =
    ioseq (lowlevel_reg_wr32 sync_base TX_CMD_STOP)
      (if \<not> start then ioreturn ()
       else ioseq (lowlevel_reg_wr32 sync_base (push_bit GP_PORT_TXDMA_CTRL_RESET_BUFS 1))
         (lowlevel_reg_wr32 sync_base (tx_ctl_cmd chans swap_ab_flag mute_flag repeat OR TX_CMD_START_16BIT)))"

definition tx_upd_cmd :: "u32 \<Rightarrow> u32 \<Rightarrow> u32" where
  "tx_upd_cmd mute_flags swap_ab_flag =
    push_bit GP_PORT_TXDMA_CTRL_MODE_SWAP_AB (swap_ab_flag AND 1) OR
    push_bit GP_PORT_TXDMA_CTRL_MODE_MUTEA (mute_flags AND 1) OR
    push_bit GP_PORT_TXDMA_CTRL_MODE_MUTEB (drop_bit 1 mute_flags AND 1)"

definition sfe_tx4_upd :: "u32 \<Rightarrow> u32 \<Rightarrow> u32 \<Rightarrow> (int + unit) io" where
  "sfe_tx4_upd sync_base mute_flags swap_ab_flag =
    lowlevel_reg_wr32 sync_base (tx_upd_cmd mute_flags swap_ab_flag OR TX_CMD_UPD_FLAGS)"

section \<open>Receive DMA\<close>

definition DRX32_CFG_BWORDSZ :: u32 where "DRX32_CFG_BWORDSZ = 32"
definition DRX32_CFG_BBURSTSZ :: u32 where "DRX32_CFG_BBURSTSZ = 64"

definition dma_rx32_reset :: "u32 \<Rightarrow> (int + unit) io" where
  "dma_rx32_reset sx_base =
    iobind (lowlevel_reg_rd32 (sx_base + 2)) (\<lambda>tmp.
      if tmp AND 0x40000000 \<noteq> 0 \<and> tmp = 0xffffffff then iofail (- EIO)
      else ioseq (lowlevel_reg_wr32 (sx_base + 1) 2) (lowlevel_reg_wr32 (sx_base + 1) 0))"

definition dma_rx32_configure :: "u32 \<Rightarrow> fifo_config \<Rightarrow> (int + unit) io" where
  "dma_rx32_configure cfg_dma_base pfc =
    ioseq (lowlevel_reg_wr32 (cfg_dma_base + DRX32_CFG_BWORDSZ) (fc_bpb pfc div 8 - 1))
      (lowlevel_reg_wr32 (cfg_dma_base + DRX32_CFG_BBURSTSZ) (fc_burstspblk pfc - 1))"

section \<open>Lemmas\<close>

lemma wr_if_Inr [iosuccess]:
  "wr_if c a w env tr = (Inr u, tr') \<longleftrightarrow>
   (if c then fst (env tr \<lparr>rq_op = USDR_LSOP_HWREG, rq_addr = a, rq_insz = 0, rq_out = le_bytes 4 w\<rparr>) = 0 \<and> tr' = tr @ [ev_wr32 a w]
    else tr' = tr)"
  by (auto simp: wr_if_def iosuccess)

lemma wr_if_Inl [ioerror]: "wr_if c a w env tr = (Inl e, tr') \<longleftrightarrow> c \<and> lowlevel_reg_wr32 a w env tr = (Inl e, tr')"
  by (auto simp: wr_if_def ioerror)

text \<open>A conditional write leaves the register with the value, where the condition says that it
  differs.\<close>

lemma wr_if_regs:
  "wr_if (regs a \<noteq> w) a w env tr = (Inr u, tr') \<Longrightarrow>
   \<exists>es. tr' = tr @ es \<and> fold reg_step es regs = regs(a := w)"
  by (auto simp: iosuccess simp del: reg_step.simps split: if_splits)

lemma extx_push_cases:
  assumes "sfe_extx4_push_ring_buffer base (c0, c1, c2) bytes samples lgb ts env tr = ((res, c'), tr')"
  shows "res = - EINVAL \<and> c' = (c0, c1, c2) \<and> tr' = tr \<or>
    c' = (extx_cfg0 bytes, extx_cfg1 samples lgb, ucast (signed_drop_bit 32 ts)) \<and>
    iolist [wr_if (c0 \<noteq> extx_cfg0 bytes) base (extx_cfg0 bytes),
      wr_if (c1 \<noteq> extx_cfg1 samples lgb) (base + 1) (extx_cfg1 samples lgb),
      wr_if (c2 \<noteq> ucast (signed_drop_bit 32 ts)) (base + 2) (ucast (signed_drop_bit 32 ts)),
      lowlevel_reg_wr32 (base + 3) (ucast ts)] env tr = (if res = 0 then Inr () else Inl res, tr')"
proof -
  define p where "p = iolist [wr_if (c0 \<noteq> extx_cfg0 bytes) base (extx_cfg0 bytes),
      wr_if (c1 \<noteq> extx_cfg1 samples lgb) (base + 1) (extx_cfg1 samples lgb),
      wr_if (c2 \<noteq> ucast (signed_drop_bit 32 ts)) (base + 2) (ucast (signed_drop_bit 32 ts)),
      lowlevel_reg_wr32 (base + 3) (ucast ts)]"
  have e: "e \<noteq> 0" if "p env tr = (Inl e, tr1)" for e tr1
    using that by (auto simp: p_def ioerror iosuccess)
  show ?thesis
  proof (cases "bytes > push_bit 20 1 \<or> samples > push_bit 20 1")
    case True
    with assms show ?thesis by (simp add: sfe_extx4_push_ring_buffer_def)
  next
    case False
    obtain x tr1 where p: "p env tr = (x, tr1)" by fastforce
    show ?thesis
    proof (cases x)
      case (Inl y)
      with False p assms e [of y tr1] show ?thesis
        by (simp add: sfe_extx4_push_ring_buffer_def Let_def p_def)
    next
      case (Inr y)
      with False p assms show ?thesis
        by (simp add: sfe_extx4_push_ring_buffer_def Let_def p_def)
    qed
  qed
qed

section \<open>Properties\<close>

text \<open>Skipping the registers the cache says are set is transparent: if the cache mirrors the
  device, a descriptor that is pushed successfully leaves all four descriptor registers with the
  values of this buffer, touches no other register, and the cache mirrors the device again.\<close>

theorem extx_push_refreshes:
  assumes "sfe_extx4_push_ring_buffer base (c0, c1, c2) bytes samples lgb ts env tr = ((0, (c0', c1', c2')), tr')"
    and "regs base = c0" "regs (base + 1) = c1" "regs (base + 2) = c2"
  shows "\<exists>es. tr' = tr @ es \<and> fold reg_step es regs =
    regs(base := extx_cfg0 bytes, base + 1 := extx_cfg1 samples lgb,
         base + 2 := ucast (signed_drop_bit 32 ts), base + 3 := ucast ts) \<and>
    (c0', c1', c2') = (extx_cfg0 bytes, extx_cfg1 samples lgb, ucast (signed_drop_bit 32 ts))"
proof -
  let ?c0 = "extx_cfg0 bytes" and ?c1 = "extx_cfg1 samples lgb" and ?c2 = "ucast (signed_drop_bit 32 ts) :: u32"
  from extx_push_cases [OF assms(1)] have c': "(c0', c1', c2') = (?c0, ?c1, ?c2)"
    and "iolist [wr_if (regs base \<noteq> ?c0) base ?c0, wr_if (regs (base + 1) \<noteq> ?c1) (base + 1) ?c1,
      wr_if (regs (base + 2) \<noteq> ?c2) (base + 2) ?c2, lowlevel_reg_wr32 (base + 3) (ucast ts)] env tr = (Inr (), tr')"
    using assms(2-4) by (auto simp: EINVAL_def)
  then obtain tr1 tr2 tr3 where
    1: "wr_if (regs base \<noteq> ?c0) base ?c0 env tr = (Inr (), tr1)" and
    2: "wr_if (regs (base + 1) \<noteq> ?c1) (base + 1) ?c1 env tr1 = (Inr (), tr2)" and
    3: "wr_if (regs (base + 2) \<noteq> ?c2) (base + 2) ?c2 env tr2 = (Inr (), tr3)" and
    4: "tr' = tr3 @ [ev_wr32 (base + 3) (ucast ts)]"
    by (auto simp: ioseq_Inr ioreturn_Inr wr32_Inr)
  from wr_if_regs [where regs = regs, OF 1] obtain es1 where e1: "tr1 = tr @ es1" "fold reg_step es1 regs = regs(base := ?c0)" by blast
  define r1 where "r1 = regs(base := ?c0)"
  have "wr_if (r1 (base + 1) \<noteq> ?c1) (base + 1) ?c1 env tr1 = (Inr (), tr2)" using 2 by (simp add: r1_def)
  from wr_if_regs [where regs = r1, OF this] obtain es2 where e2: "tr2 = tr1 @ es2" "fold reg_step es2 r1 = r1(base + 1 := ?c1)" by blast
  define r2 where "r2 = r1(base + 1 := ?c1)"
  have "wr_if (r2 (base + 2) \<noteq> ?c2) (base + 2) ?c2 env tr2 = (Inr (), tr3)" using 3 by (simp add: r1_def r2_def)
  from wr_if_regs [where regs = r2, OF this] obtain es3 where e3: "tr3 = tr2 @ es3" "fold reg_step es3 r2 = r2(base + 2 := ?c2)" by blast
  have "tr' = tr @ (es1 @ es2 @ es3 @ [ev_wr32 (base + 3) (ucast ts)])" using 4 e1 e2 e3 by simp
  moreover have "fold reg_step (es1 @ es2 @ es3 @ [ev_wr32 (base + 3) (ucast ts)]) regs =
    regs(base := ?c0, base + 1 := ?c1, base + 2 := ?c2, base + 3 := ucast ts)"
    using e1(2) e2(2) e3(2) by (simp add: r1_def r2_def del: reg_step.simps)
  ultimately show ?thesis using c' by blast
qed

theorem extx_push_refreshes_witness:
  "\<exists>c' es. sfe_extx4_push_ring_buffer 0 (15, 0, 0) 16 4 0 5 accept_all [] = ((0, c'), es) \<and>
     fold reg_step es ((\<lambda>_. 0)(0 := 15)) 3 = 5 \<and> fold reg_step es ((\<lambda>_. 0)(0 := 15)) 1 = 3"
proof -
  obtain c' es where run: "sfe_extx4_push_ring_buffer 0 (15, 0, 0) 16 4 0 5 accept_all [] = ((0, c'), es)"
    by (simp add: sfe_extx4_push_ring_buffer_def Let_def wr_if_def extx_cfg0_def extx_cfg1_def)
  obtain a b c where c': "c' = (a, b, c)" by (cases c')
  from extx_push_refreshes [OF run [unfolded c'], of "(\<lambda>_. 0)(0 := 15)"]
  have "fold reg_step es ((\<lambda>_. 0)(0 := 15)) 3 = 5" "fold reg_step es ((\<lambda>_. 0)(0 := 15)) 1 = 3"
    by (auto simp: extx_cfg1_def)
  with run show ?thesis by blast
qed

text \<open>A failed push leaves the cache ahead of the device: after the first register write has
  failed once, the repeated push succeeds without writing it, and the buffer is started with the
  byte count of the previous one.\<close>

theorem extx_stale_after_error:
  "\<exists>e c tr1 es. sfe_extx4_push_ring_buffer 0 (0, 0, 0) 4096 1024 0 0 (\<lambda>_ _. (- 5, [])) [] = ((- 5, c), tr1) \<and>
     sfe_extx4_push_ring_buffer 0 c 4096 1024 0 0 accept_all [] = ((0, c), es) \<and>
     c = (4095, 1023, 0) \<and> fold reg_step es (\<lambda>_. 0) 0 = 0"
proof -
  have "sfe_extx4_push_ring_buffer 0 (0, 0, 0) 4096 1024 0 0 (\<lambda>_ _. (- 5, [])) [] = ((- 5, (4095, 1023, 0)), [ev_wr32 0 4095])"
    by (simp add: sfe_extx4_push_ring_buffer_def Let_def wr_if_def iodefs lowlevel_reg_wr32_def
      lowlevel_ls_op_def extx_cfg0_def extx_cfg1_def)
  moreover have "sfe_extx4_push_ring_buffer 0 (4095, 1023, 0) 4096 1024 0 0 accept_all [] = ((0, (4095, 1023, 0)), [ev_wr32 3 0])"
    by (simp add: sfe_extx4_push_ring_buffer_def Let_def wr_if_def extx_cfg0_def extx_cfg1_def)
  moreover have "fold reg_step [ev_wr32 3 0] (\<lambda>_. 0) 0 = 0" by (simp del: reg_step.simps)
  ultimately show ?thesis by blast
qed

text \<open>The plain descriptor is decoded to what was encoded: the upper time stamp bits, the
  sample count and the sign flag come back for every buffer of up to 2^15 samples and every
  time stamp below 2^47.\<close>

theorem tx_desc_round_trip:
  assumes "0 < unat samples" and "unat samples \<le> 2 ^ 15" and "unat timestamp < 2 ^ 47"
  shows "unat (fld 15 15 (tx_desc0 samples timestamp)) + 1 = unat samples \<and>
    \<not> bit (tx_desc0 samples timestamp) 30 \<and>
    push_bit 32 (ucast (fld 0 15 (tx_desc0 samples timestamp))) OR ucast (ucast timestamp :: u32) = timestamp"
proof -
  have t: "take_bit 47 timestamp = timestamp" using assms(3) by (rule take_bit_fits)
  have tb: "bit timestamp n \<Longrightarrow> n < 47" for n using t by (metis bit_take_bit_iff)
  have s: "unat (samples - 1) = unat samples - 1" using assms(1) by (simp add: unat_sub word_le_nat_alt)
  then have f: "unat (samples - 1) < 2 ^ 15" using assms(1,2) by simp
  have "fld 15 15 (tx_desc0 samples timestamp) = samples - 1"
  proof -
    have "fld 15 15 (tx_desc0 samples timestamp) = take_bit 15 (samples - 1)"
      unfolding fld_def by (rule bit_word_eqI) (auto simp: tx_desc0_def bit_simps bitfield dest: tb)
    then show ?thesis by (simp add: take_bit_fits [OF f])
  qed
  moreover have "\<not> bit (tx_desc0 samples timestamp) 30"
    by (auto simp: tx_desc0_def bit_simps bitfield dest: tb)
  moreover have "push_bit 32 (ucast (fld 0 15 (tx_desc0 samples timestamp))) OR ucast (ucast timestamp :: u32) = timestamp"
    by (rule bit_word_eqI) (auto simp: fld_def tx_desc0_def bit_simps bitfield dest: tb)
  ultimately show ?thesis using s assms(1) by simp
qed

theorem tx_desc_round_trip_witness:
  "unat (fld 15 15 (tx_desc0 0x1000 0x123456789abc)) + 1 = 0x1000 \<and>
   push_bit 32 (ucast (fld 0 15 (tx_desc0 0x1000 0x123456789abc))) OR ucast (ucast (0x123456789abc :: u64) :: u32) = (0x123456789abc :: u64)"
  using tx_desc_round_trip [where samples = "0x1000" and timestamp = "0x123456789abc"] by simp

end
