(* ===== verification/Conv.thy ===== *)
theory Conv
  imports CString
begin

text \<open>
  Sample conversion (\<open>src/lib/xdsp/conv.c\<close> and the portable integer kernels in
  \<open>src/lib/xdsp/templates/*_generic.t\<close>): which kernel and which size function a pair of formats
  gets, the sizes, and the kernels that pack 16-bit samples into 12 bits and merge or split the
  channels of a stream. A sample is its 16-bit pattern; a kernel reads its buffers as lists, and a
  read past their end is \<open>None\<close>. The vector variants the build may select instead are not
  modelled.
\<close>

section \<open>Kernel selection\<close>

text \<open>The kernels by name; \<open>Tr_dummy\<close> copies.\<close>

datatype conv_function = Tr_dummy | Tr_i16_f32 | Tr_f32_i16 | Tr_i12_f32 | Tr_f32_i12 | Tr_i16_i12 | Tr_i12_i16
  | Tr_ci16_2cf32 | Tr_ci12_2cf32 | Tr_ci16_2ci16 | Tr_ci12_2ci16
  | Tr_2cf32_ci16 | Tr_2ci16_ci16 | Tr_2cf32_ci12 | Tr_2ci16_ci12
  | Tr_i16_4f32 | Tr_ci16_4ci16 | Tr_ci16_4cf32 | Tr_ci12_4cf32 | Tr_ci12_4ci16
  | Tr_4ci16_ci16 | Tr_4cf32_ci16 | Tr_4cf32_ci12 | Tr_4ci16_ci12

definition isI12 :: "string \<Rightarrow> bool" where "isI12 s = strcaseeq s ''i12''"
definition isI16 :: "string \<Rightarrow> bool" where "isI16 s = strcaseeq s ''i16''"
definition isF32 :: "string \<Rightarrow> bool" where "isF32 s = strcaseeq s ''f32''"
definition isCI12 :: "string \<Rightarrow> bool" where "isCI12 s = strcaseeq s ''ci12''"
definition isCI16 :: "string \<Rightarrow> bool" where "isCI16 s = strcaseeq s ''ci16''"
definition isCF32 :: "string \<Rightarrow> bool" where "isCF32 s = strcaseeq s ''cf32''"

lemmas fmt_tests = isI12_def isI16_def isF32_def isCI12_def isCI16_def isCF32_def

type_synonym size_function = "u32 \<Rightarrow> bool \<Rightarrow> u32"

definition tr_dummy_sz :: size_function where
  "tr_dummy_sz inbytes reverse = inbytes"

definition tr_conv_i12_f32_sz :: size_function where
  "tr_conv_i12_f32_sz inbytes reverse = (if reverse then inbytes * 3 div 8 else inbytes * 8 div 3)"

definition tr_conv_f32_i12_sz :: size_function where
  "tr_conv_f32_i12_sz inbytes reverse = tr_conv_i12_f32_sz inbytes (\<not> reverse)"

definition tr_conv_i16_f32_sz :: size_function where
  "tr_conv_i16_f32_sz inbytes reverse = (if reverse then drop_bit 1 inbytes else push_bit 1 inbytes)"

definition tr_conv_f32_i16_sz :: size_function where
  "tr_conv_f32_i16_sz inbytes reverse = tr_conv_i16_f32_sz inbytes (\<not> reverse)"

definition tr_conv_i12_i16_sz :: size_function where
  "tr_conv_i12_i16_sz inbytes reverse = (if reverse then inbytes * 3 div 4 else inbytes * 4 div 3)"

definition tr_conv_i16_i12_sz :: size_function where
  "tr_conv_i16_i12_sz inbytes reverse = tr_conv_i12_i16_sz inbytes (\<not> reverse)"

lemmas tr_sz_defs = tr_dummy_sz_def tr_conv_i12_f32_sz_def tr_conv_f32_i12_sz_def tr_conv_i16_f32_sz_def
  tr_conv_f32_i16_sz_def tr_conv_i12_i16_sz_def tr_conv_i16_i12_sz_def

text \<open>\<open>None\<close> is the pair of NULL pointers.\<close>

definition get_transform_fn :: "string \<Rightarrow> string \<Rightarrow> nat \<Rightarrow> nat \<Rightarrow> (conv_function \<times> size_function) option" where
  "get_transform_fn from to inveccnt outveccnt =
    (if inveccnt = 4 \<and> outveccnt = 1 \<and> isCI16 from \<and> isCI16 to then Some (Tr_4ci16_ci16, tr_dummy_sz)
     else if inveccnt = 4 \<and> outveccnt = 1 \<and> isCF32 from \<and> isCI16 to then Some (Tr_4cf32_ci16, tr_conv_f32_i16_sz)
     else if inveccnt = 4 \<and> outveccnt = 1 \<and> isCF32 from \<and> isCI12 to then Some (Tr_4cf32_ci12, tr_conv_f32_i12_sz)
     else if inveccnt = 4 \<and> outveccnt = 1 \<and> isCI16 from \<and> isCI12 to then Some (Tr_4ci16_ci12, tr_conv_i16_i12_sz)
     else if inveccnt = 1 \<and> outveccnt = 4 \<and> isI16 from \<and> isF32 to then Some (Tr_i16_4f32, tr_conv_i16_f32_sz)
     else if inveccnt = 1 \<and> outveccnt = 4 \<and> isCI16 from \<and> isCI16 to then Some (Tr_ci16_4ci16, tr_dummy_sz)
     else if inveccnt = 1 \<and> outveccnt = 4 \<and> isCI16 from \<and> isCF32 to then Some (Tr_ci16_4cf32, tr_conv_i16_f32_sz)
     else if inveccnt = 1 \<and> outveccnt = 4 \<and> isCI12 from \<and> isCF32 to then Some (Tr_ci12_4cf32, tr_conv_i12_f32_sz)
     else if inveccnt = 1 \<and> outveccnt = 4 \<and> isCI12 from \<and> isCI16 to then Some (Tr_ci12_4ci16, tr_conv_i12_i16_sz)
     else if inveccnt = 2 \<and> outveccnt = 1 \<and> isCF32 from \<and> isCI16 to then Some (Tr_2cf32_ci16, tr_conv_f32_i16_sz)
     else if inveccnt = 2 \<and> outveccnt = 1 \<and> isCI16 from \<and> isCI16 to then Some (Tr_2ci16_ci16, tr_dummy_sz)
     else if inveccnt = 2 \<and> outveccnt = 1 \<and> isCF32 from \<and> isCI12 to then Some (Tr_2cf32_ci12, tr_conv_f32_i12_sz)
     else if inveccnt = 2 \<and> outveccnt = 1 \<and> isCI16 from \<and> isCI12 to then Some (Tr_2ci16_ci12, tr_conv_i16_i12_sz)
     else if inveccnt = 1 \<and> outveccnt = 2 \<and> isCI16 from \<and> isCF32 to then Some (Tr_ci16_2cf32, tr_conv_i16_f32_sz)
     else if inveccnt = 1 \<and> outveccnt = 2 \<and> isCI12 from \<and> isCF32 to then Some (Tr_ci12_2cf32, tr_conv_i12_f32_sz)
     else if inveccnt = 1 \<and> outveccnt = 2 \<and> isCI16 from \<and> isCI16 to then Some (Tr_ci16_2ci16, tr_dummy_sz)
     else if inveccnt = 1 \<and> outveccnt = 2 \<and> isCI12 from \<and> isCI16 to then Some (Tr_ci12_2ci16, tr_conv_i12_i16_sz)
     else if inveccnt \<noteq> 1 \<or> outveccnt \<noteq> 1 then None
     else if isI16 from \<and> isF32 to \<or> isCI16 from \<and> isCF32 to then Some (Tr_i16_f32, tr_conv_i16_f32_sz)
     else if isF32 from \<and> isI16 to \<or> isCF32 from \<and> isCI16 to then Some (Tr_f32_i16, tr_conv_f32_i16_sz)
     else if isI12 from \<and> isF32 to \<or> isCI12 from \<and> isCF32 to then Some (Tr_i12_f32, tr_conv_i12_f32_sz)
     else if isF32 from \<and> isI12 to \<or> isCF32 from \<and> isCI12 to then Some (Tr_f32_i12, tr_conv_f32_i12_sz)
     else if isI16 from \<and> isI12 to \<or> isCI16 from \<and> isCI12 to then Some (Tr_i16_i12, tr_conv_i16_i12_sz)
     else if isI12 from \<and> isI16 to \<or> isCI12 from \<and> isCI16 to then Some (Tr_i12_i16, tr_conv_i12_i16_sz)
     else Some (Tr_dummy, tr_dummy_sz))"

definition is_transform_dummy :: "conv_function \<Rightarrow> bool" where
  "is_transform_dummy t \<longleftrightarrow> t = Tr_dummy"

section \<open>12-bit packing\<close>

text \<open>The bytes of a 32-bit value, \<open>wu_u32b_t\<close>.\<close>

definition u32b :: "u32 \<Rightarrow> nat \<Rightarrow> u8" where
  "u32b c k = ucast (drop_bit (8 * k) c)"

text \<open>Two samples in the upper 24 bits of a word, and the three bytes written.\<close>

definition packed12 :: "u16 \<Rightarrow> u16 \<Rightarrow> u32" where
  "packed12 b0 b1 =
    (let a = ucast b0 OR push_bit 16 (ucast b1) :: u32
     in (a AND 0xfff00000) OR (push_bit 4 a AND 0x000fff00))"

definition pack12 :: "u16 \<Rightarrow> u16 \<Rightarrow> u8 list" where
  "pack12 b0 b1 = (let c = packed12 b0 b1 in [u32b c 1, u32b c 2, u32b c 3])"

fun conv_i16_i12_loop :: "nat \<Rightarrow> u16 list \<Rightarrow> u8 list option" where
  "conv_i16_i12_loop i xs =
    (if i \<ge> 4 then
       (case xs of b0 # b1 # rest \<Rightarrow> map_option (\<lambda>out. pack12 b0 b1 @ out) (conv_i16_i12_loop (i - 4) rest)
        | _ \<Rightarrow> None)
     else if i \<ge> 2 then
       (case xs of c # _ \<Rightarrow> Some [ucast c, drop_bit 4 (ucast (drop_bit 8 c))] | _ \<Rightarrow> None)
     else Some [])"

declare conv_i16_i12_loop.simps [simp del]

definition conv_i16_i12 :: "u16 list \<Rightarrow> u32 \<Rightarrow> u32 \<Rightarrow> u8 list option" where
  "conv_i16_i12 indata indatabsz outdatabsz =
    conv_i16_i12_loop (unat (if outdatabsz * 4 div 3 < indatabsz then outdatabsz * 4 div 3 else indatabsz)) indata"

definition unpack12_a :: "u8 \<Rightarrow> u8 \<Rightarrow> u16" where
  "unpack12_a v0 v1 = push_bit 4 (ucast v0) OR push_bit 12 (ucast v1)"

definition unpack12_b :: "u8 \<Rightarrow> u8 \<Rightarrow> u16" where
  "unpack12_b v1 v2 = push_bit 8 (ucast v2) OR ucast (v1 AND 0xf0)"

fun conv_i12_i16_loop :: "nat \<Rightarrow> u8 list \<Rightarrow> u16 list option" where
  "conv_i12_i16_loop i xs =
    (if i \<ge> 3 then
       (case xs of v0 # v1 # v2 # rest \<Rightarrow>
          map_option (\<lambda>out. unpack12_a v0 v1 # unpack12_b v1 v2 # out) (conv_i12_i16_loop (i - 3) rest)
        | _ \<Rightarrow> None)
     else if i \<ge> 2 then
       (case xs of v0 # v1 # _ \<Rightarrow> Some [push_bit 4 (of_le_bytes [v0, v1])] | _ \<Rightarrow> None)
     else Some [])"

declare conv_i12_i16_loop.simps [simp del]

definition conv_i12_i16 :: "u8 list \<Rightarrow> u32 \<Rightarrow> u32 \<Rightarrow> u16 list option" where
  "conv_i12_i16 indata indatabsz outdatabsz =
    conv_i12_i16_loop (unat (if outdatabsz * 3 div 4 < indatabsz then outdatabsz * 3 div 4 else indatabsz)) indata"

section \<open>Channels\<close>

text \<open>Two complex channels into one stream, and back.\<close>

fun conv_2ci16_ci16_loop :: "nat \<Rightarrow> u16 list \<Rightarrow> u16 list \<Rightarrow> u16 list option" where
  "conv_2ci16_ci16_loop i d0 d1 =
    (if i \<ge> 8 then
       (case (d0, d1) of (a # b # r0, c # d # r1) \<Rightarrow>
          map_option (\<lambda>out. a # b # c # d # out) (conv_2ci16_ci16_loop (i - 8) r0 r1)
        | _ \<Rightarrow> None)
     else Some [])"

declare conv_2ci16_ci16_loop.simps [simp del]

definition conv_2ci16_ci16 :: "u16 list \<Rightarrow> u16 list \<Rightarrow> u32 \<Rightarrow> u32 \<Rightarrow> u16 list option" where
  "conv_2ci16_ci16 d0 d1 indatabsz outdatabsz =
    conv_2ci16_ci16_loop (unat (if outdatabsz < indatabsz then outdatabsz else indatabsz)) d0 d1"

fun conv_ci16_2ci16_loop :: "nat \<Rightarrow> u16 list \<Rightarrow> (u16 list \<times> u16 list) option" where
  "conv_ci16_2ci16_loop i xs =
    (if i \<ge> 8 then
       (case xs of a # b # c # d # rest \<Rightarrow>
          map_option (\<lambda>(o0, o1). (a # b # o0, c # d # o1)) (conv_ci16_2ci16_loop (i - 8) rest)
        | _ \<Rightarrow> None)
     else Some ([], []))"

declare conv_ci16_2ci16_loop.simps [simp del]

definition conv_ci16_2ci16 :: "u16 list \<Rightarrow> u32 \<Rightarrow> u32 \<Rightarrow> (u16 list \<times> u16 list) option" where
  "conv_ci16_2ci16 xs indatabsz outdatabsz =
    conv_ci16_2ci16_loop (unat (if outdatabsz < indatabsz then outdatabsz else indatabsz)) xs"

text \<open>The same with 12-bit packing; the unpacking kernel reads eight bytes for every six.\<close>

fun conv_2ci16_ci12_loop :: "nat \<Rightarrow> u16 list \<Rightarrow> u16 list \<Rightarrow> u8 list option" where
  "conv_2ci16_ci12_loop i d0 d1 =
    (if i \<ge> 8 then
       (case (d0, d1) of (i0 # q0 # r0, i1 # q1 # r1) \<Rightarrow>
          map_option (\<lambda>out. pack12 i0 q0 @ pack12 i1 q1 @ out) (conv_2ci16_ci12_loop (i - 8) r0 r1)
        | _ \<Rightarrow> None)
     else Some [])"

declare conv_2ci16_ci12_loop.simps [simp del]

definition conv_2ci16_ci12 :: "u16 list \<Rightarrow> u16 list \<Rightarrow> u32 \<Rightarrow> u32 \<Rightarrow> u8 list option" where
  "conv_2ci16_ci12 d0 d1 indatabsz outdatabsz =
    conv_2ci16_ci12_loop (unat (if outdatabsz * 4 div 3 < indatabsz then outdatabsz * 4 div 3 else indatabsz)) d0 d1"

definition unpack48 :: "u64 \<Rightarrow> u16 \<times> u16 \<times> u16 \<times> u16" where
  "unpack48 v = (ucast (push_bit 4 v), ucast (drop_bit 8 v AND 0xfff0), ucast (drop_bit 20 v AND 0xfff0),
     ucast (drop_bit 32 v AND 0xfff0))"

fun conv_ci12_2ci16_loop :: "nat \<Rightarrow> u8 list \<Rightarrow> (u16 list \<times> u16 list) option" where
  "conv_ci12_2ci16_loop i xs =
    (if i \<ge> 6 then
       (if length xs < 8 then None
        else case unpack48 (of_le_bytes (take 8 xs)) of (a, b, c, d) \<Rightarrow>
          map_option (\<lambda>(o0, o1). (a # b # o0, c # d # o1)) (conv_ci12_2ci16_loop (i - 6) (drop 6 xs)))
     else Some ([], []))"

declare conv_ci12_2ci16_loop.simps [simp del]

definition conv_ci12_2ci16 :: "u8 list \<Rightarrow> u32 \<Rightarrow> u32 \<Rightarrow> (u16 list \<times> u16 list) option" where
  "conv_ci12_2ci16 xs indatabsz outdatabsz =
    conv_ci12_2ci16_loop (unat (if outdatabsz * 3 div 4 < indatabsz then outdatabsz * 3 div 4 else indatabsz)) xs"

section \<open>Lemmas\<close>

definition mask12 :: "u16 \<Rightarrow> u16" where
  "mask12 x = x AND 0xfff0"

lemma bit_u32b: "bit (u32b c k) n \<longleftrightarrow> n < 8 \<and> bit c (8 * k + n)"
  by (simp add: u32b_def bit_simps conj_commute)

lemma bit_packed12:
  "bit (packed12 x y) n \<longleftrightarrow> 8 \<le> n \<and> n < 20 \<and> bit x (n - 4) \<or> 20 \<le> n \<and> n < 32 \<and> bit y (n - 16)"
proof (cases "n < 20")
  case True
  then show ?thesis
    by (auto simp: packed12_def Let_def bit_simps bit_shifted_masks)
next
  case False
  then have "\<not> bit x n" by (intro bit_word_high) simp
  with False show ?thesis
    by (auto simp: packed12_def Let_def bit_simps bit_shifted_masks)
qed

lemma pack12_unpack:
  assumes "pack12 x y = [v0, v1, v2]"
  shows "unpack12_a v0 v1 = mask12 x" "unpack12_b v1 v2 = mask12 y"
proof -
  have v: "v0 = u32b (packed12 x y) 1" "v1 = u32b (packed12 x y) 2" "v2 = u32b (packed12 x y) 3"
    using assms by (auto simp: pack12_def Let_def)
  note bits = unpack12_a_def unpack12_b_def mask12_def bit_or_iff bit_and_iff bit_push_bit_iff
    bit_ucast_iff bit_u32b bit_packed12 bit_shifted_masks
  show "unpack12_a v0 v1 = mask12 x"
  proof (rule bit_word_eqI)
    fix n assume "n < LENGTH(16)"
    then have "n < 16" by simp
    then show "bit (unpack12_a v0 v1) n = bit (mask12 x) n"
      unfolding v unfolding bits
      by simp (cases "n < 4"; cases "n < 12"; simp add: bit_shifted_masks; auto)
  qed
  show "unpack12_b v1 v2 = mask12 y"
  proof (rule bit_word_eqI)
    fix n assume "n < LENGTH(16)"
    then have "n < 16" by simp
    then show "bit (unpack12_b v1 v2) n = bit (mask12 y) n"
      unfolding v unfolding bits
      by simp (cases "n < 4"; cases "n < 8"; simp add: bit_shifted_masks; auto)
  qed
qed

lemma pack12_bytes: "\<exists>v0 v1 v2. pack12 x y = [v0, v1, v2]"
  by (simp add: pack12_def Let_def)

lemma unpack48_pack12:
  assumes "take 6 xs = pack12 a b @ pack12 c d" and "8 \<le> length xs"
  shows "unpack48 (of_le_bytes (take 8 xs)) = (mask12 a, mask12 b, mask12 c, mask12 d)"
proof -
  obtain v0 v1 v2 where 0: "pack12 a b = [v0, v1, v2]" using pack12_bytes by blast
  obtain v3 v4 v5 where 1: "pack12 c d = [v3, v4, v5]" using pack12_bytes by blast
  have "take 8 xs = [v0, v1, v2, v3, v4, v5, xs ! 6, xs ! 7]"
  proof -
    have "take 8 xs = take 6 xs @ [xs ! 6, xs ! 7]"
      using assms(2) by (simp add: take_Suc_conv_app_nth eval_nat_numeral)
    then show ?thesis using assms(1) 0 1 by simp
  qed
  then have "unpack48 (of_le_bytes (take 8 xs)) = (unpack12_a v0 v1, unpack12_b v1 v2, unpack12_a v3 v4, unpack12_b v4 v5)"
    by (auto simp: unpack48_def unpack12_a_def unpack12_b_def bit_simps bit_shifted_masks bit_word_high
        intro!: bit_word_eqI)
  then show ?thesis using pack12_unpack [OF 0] pack12_unpack [OF 1] by simp
qed

lemma conv_i16_i12_Cons2: "conv_i16_i12_loop (i + 4) (x # y # xs) = map_option (\<lambda>out. pack12 x y @ out) (conv_i16_i12_loop i xs)"
  by (subst conv_i16_i12_loop.simps) simp

lemma conv_i12_i16_Cons2:
  "conv_i12_i16_loop (i + 3) (pack12 x y @ bs) = map_option (\<lambda>out. mask12 x # mask12 y # out) (conv_i12_i16_loop i bs)"
proof -
  obtain v0 v1 v2 where p: "pack12 x y = [v0, v1, v2]" using pack12_bytes by blast
  show ?thesis unfolding p pack12_unpack [OF p, symmetric] by (subst conv_i12_i16_loop.simps) simp
qed

text \<open>Pairs of samples survive the trip through the 12-bit wire format but for their low bits.\<close>

lemma i12_loops:
  "length xs = 2 * n \<Longrightarrow> \<exists>bs. conv_i16_i12_loop (4 * n) xs = Some bs \<and> length bs = 3 * n \<and>
     conv_i12_i16_loop (3 * n) bs = Some (map mask12 xs)"
proof (induction n arbitrary: xs)
  case 0
  then show ?case by (simp add: conv_i16_i12_loop.simps conv_i12_i16_loop.simps)
next
  case (Suc n)
  then obtain x y ys where xs: "xs = x # y # ys" "length ys = 2 * n"
    by (auto simp: length_Suc_conv eval_nat_numeral)
  from Suc.IH [OF xs(2)] obtain bs where "conv_i16_i12_loop (4 * n) ys = Some bs" "length bs = 3 * n"
    "conv_i12_i16_loop (3 * n) bs = Some (map mask12 ys)" by blast
  then show ?case
    using xs conv_i16_i12_Cons2 [of "4 * n" x y ys] conv_i12_i16_Cons2 [of "3 * n" x y bs] pack12_bytes [of x y]
    by (auto simp: add.commute)
qed

lemma ci16_loops:
  "length d0 = 2 * n \<Longrightarrow> length d1 = 2 * n \<Longrightarrow>
   \<exists>xs. conv_2ci16_ci16_loop (8 * n) d0 d1 = Some xs \<and> length xs = 4 * n \<and>
     conv_ci16_2ci16_loop (8 * n) xs = Some (d0, d1)"
proof (induction n arbitrary: d0 d1)
  case 0
  then show ?case by (simp add: conv_2ci16_ci16_loop.simps conv_ci16_2ci16_loop.simps)
next
  case (Suc n)
  then obtain a b r0 c d r1 where d: "d0 = a # b # r0" "length r0 = 2 * n" "d1 = c # d # r1" "length r1 = 2 * n"
    by (auto simp: length_Suc_conv eval_nat_numeral)
  from Suc.IH [OF d(2,4)] obtain xs where "conv_2ci16_ci16_loop (8 * n) r0 r1 = Some xs" "length xs = 4 * n"
    "conv_ci16_2ci16_loop (8 * n) xs = Some (r0, r1)" by blast
  with d show ?case
    by (subst conv_2ci16_ci16_loop.simps, simp, subst conv_ci16_2ci16_loop.simps, simp)
qed

lemma ci12_loops:
  "length d0 = 2 * n \<Longrightarrow> length d1 = 2 * n \<Longrightarrow> 2 \<le> length after \<Longrightarrow>
   \<exists>bs. conv_2ci16_ci12_loop (8 * n) d0 d1 = Some bs \<and> length bs = 6 * n \<and>
     conv_ci12_2ci16_loop (6 * n) (bs @ after) = Some (map mask12 d0, map mask12 d1)"
proof (induction n arbitrary: d0 d1)
  case 0
  then show ?case by (simp add: conv_2ci16_ci12_loop.simps conv_ci12_2ci16_loop.simps)
next
  case (Suc n)
  then obtain a b r0 c d r1 where d: "d0 = a # b # r0" "length r0 = 2 * n" "d1 = c # d # r1" "length r1 = 2 * n"
    by (auto simp: length_Suc_conv eval_nat_numeral)
  from Suc.IH [OF d(2,4) Suc.prems(3)] obtain bs where
    bs: "conv_2ci16_ci12_loop (8 * n) r0 r1 = Some bs" "length bs = 6 * n"
    "conv_ci12_2ci16_loop (6 * n) (bs @ after) = Some (map mask12 r0, map mask12 r1)" by blast
  obtain v0 v1 v2 where 0: "pack12 a b = [v0, v1, v2]" using pack12_bytes by blast
  obtain v3 v4 v5 where 1: "pack12 c d = [v3, v4, v5]" using pack12_bytes by blast
  let ?xs = "pack12 a b @ pack12 c d @ bs @ after"
  have u: "unpack48 (of_le_bytes (take 8 ?xs)) = (mask12 a, mask12 b, mask12 c, mask12 d)"
    by (rule unpack48_pack12) (use 0 1 Suc.prems(3) in simp_all)
  have dec: "conv_ci12_2ci16_loop (6 * Suc n) ?xs = Some (map mask12 d0, map mask12 d1)"
    using u bs(3) d(1,3) Suc.prems(3) 0 1
    by (subst conv_ci12_2ci16_loop.simps) (simp del: of_le_bytes.simps)
  have "conv_2ci16_ci12_loop (8 * Suc n) d0 d1 = Some (pack12 a b @ pack12 c d @ bs)"
    using bs(1) d(1,3) by (subst conv_2ci16_ci12_loop.simps) simp
  with dec bs(2) 0 1 show ?case by auto
qed

text \<open>The two size limits of a kernel do not cut the data of matching buffers.\<close>

lemma sizes_match:
  assumes "12 * n < 2 ^ 32"
  shows "unat (if of_nat (3 * n) * 4 div 3 < (of_nat (4 * n) :: u32) then of_nat (3 * n) * 4 div 3 else (of_nat (4 * n) :: u32)) = 4 * n"
    and "unat (if of_nat (4 * n) * 3 div 4 < (of_nat (3 * n) :: u32) then of_nat (4 * n) * 3 div 4 else (of_nat (3 * n) :: u32)) = 3 * n"
proof -
  have 3: "unat (of_nat (3 * n) :: u32) = 3 * n" and 4: "unat (of_nat (4 * n) :: u32) = 4 * n"
    using unat_of_nat32 [of "3 * n"] unat_of_nat32 [of "4 * n"] assms by (simp_all del: of_nat_mult)
  have "unat (of_nat (3 * n) * 4 :: u32) = 12 * n" "unat (of_nat (4 * n) * 3 :: u32) = 12 * n"
    using 3 4 assms by (simp_all add: unat_mult_lem [THEN iffD1] del: of_nat_mult)
  then have e: "of_nat (3 * n) * 4 div 3 = (of_nat (4 * n) :: u32)" "of_nat (4 * n) * 3 div 4 = (of_nat (3 * n) :: u32)"
    using 3 4 by (simp_all add: word_unat_eq_iff unat_div del: of_nat_mult)
  show "unat (if of_nat (3 * n) * 4 div 3 < (of_nat (4 * n) :: u32) then of_nat (3 * n) * 4 div 3 else (of_nat (4 * n) :: u32)) = 4 * n"
    "unat (if of_nat (4 * n) * 3 div 4 < (of_nat (3 * n) :: u32) then of_nat (4 * n) * 3 div 4 else (of_nat (3 * n) :: u32)) = 3 * n"
    unfolding e by (simp_all only: order_less_irrefl if_False) (rule 4 3)+
qed

text \<open>Bits of one component of a sample.\<close>

definition fmt_bits :: "string \<Rightarrow> nat" where
  "fmt_bits s = (if isI12 s \<or> isCI12 s then 12 else if isI16 s \<or> isCI16 s then 16 else 32)"

lemma fmt_bits_simps:
  "isI12 s \<Longrightarrow> fmt_bits s = 12" "isCI12 s \<Longrightarrow> fmt_bits s = 12" "isI16 s \<Longrightarrow> fmt_bits s = 16"
  "isCI16 s \<Longrightarrow> fmt_bits s = 16" "isF32 s \<Longrightarrow> fmt_bits s = 32" "isCF32 s \<Longrightarrow> fmt_bits s = 32"
  by (auto simp: fmt_bits_def fmt_tests strcaseeq_def tolower_def less_eq_char_def)

lemma size_ratios:
  assumes "8 * unat b < 2 ^ 32"
  shows "unat (tr_conv_i12_f32_sz b False) = unat b * 32 div 12" "unat (tr_conv_i12_f32_sz b True) = unat b * 12 div 32"
    "unat (tr_conv_i16_f32_sz b False) = unat b * 32 div 16" "unat (tr_conv_i16_f32_sz b True) = unat b * 16 div 32"
    "unat (tr_conv_i12_i16_sz b False) = unat b * 16 div 12" "unat (tr_conv_i12_i16_sz b True) = unat b * 12 div 16"
proof -
  have m: "unat (b * 8) = unat b * 8" "unat (b * 3) = unat b * 3" "unat (b * 4) = unat b * 4" "unat (b * 2) = unat b * 2"
    using assms by (simp_all add: unat_mult_lem [THEN iffD1])
  have c: "x * 32 div 12 = x * 8 div 3" "x * 12 div 32 = x * 3 div 8" "x * 16 div 12 = x * 4 div 3" "x * 12 div 16 = x * 3 div 4"
    "x * 32 div 16 = x * 2" "x * 16 div 32 = x div 2" for x :: nat
    using div_mult_mult1 [of 4 "x * 8" 3] div_mult_mult1 [of 4 "x * 3" 8] div_mult_mult1 [of 4 "x * 4" 3]
      div_mult_mult1 [of 4 "x * 3" 4] div_mult_mult1 [of 16 x 2] by (simp_all add: algebra_simps)
  have "push_bit 1 b = b * 2" "drop_bit 1 b = b div 2" by (simp_all add: push_bit_eq_mult drop_bit_eq_div mult.commute)
  with m c show "unat (tr_conv_i12_f32_sz b False) = unat b * 32 div 12" "unat (tr_conv_i12_f32_sz b True) = unat b * 12 div 32"
    "unat (tr_conv_i16_f32_sz b False) = unat b * 32 div 16" "unat (tr_conv_i16_f32_sz b True) = unat b * 16 div 32"
    "unat (tr_conv_i12_i16_sz b False) = unat b * 16 div 12" "unat (tr_conv_i12_i16_sz b True) = unat b * 12 div 16"
    by (simp_all add: tr_sz_defs unat_div)
qed

lemma if_drop:
  "(if c then Some y else d) = Some x \<Longrightarrow> (c \<Longrightarrow> y = x \<Longrightarrow> P) \<Longrightarrow> (d = Some x \<Longrightarrow> P) \<Longrightarrow> P"
  by (cases c) auto

lemma if_none: "(if c then None else d) = Some x \<Longrightarrow> (d = Some x \<Longrightarrow> P) \<Longrightarrow> P"
  by (cases c) auto

lemma transform_classes:
  assumes "get_transform_fn from to inc outc = Some (f, sz)" and "f \<noteq> Tr_dummy"
  shows "sz = tr_dummy_sz \<and> fmt_bits from = 16 \<and> fmt_bits to = 16 \<or>
    sz = tr_conv_i12_f32_sz \<and> fmt_bits from = 12 \<and> fmt_bits to = 32 \<or>
    sz = tr_conv_f32_i12_sz \<and> fmt_bits from = 32 \<and> fmt_bits to = 12 \<or>
    sz = tr_conv_i16_f32_sz \<and> fmt_bits from = 16 \<and> fmt_bits to = 32 \<or>
    sz = tr_conv_f32_i16_sz \<and> fmt_bits from = 32 \<and> fmt_bits to = 16 \<or>
    sz = tr_conv_i12_i16_sz \<and> fmt_bits from = 12 \<and> fmt_bits to = 16 \<or>
    sz = tr_conv_i16_i12_sz \<and> fmt_bits from = 16 \<and> fmt_bits to = 12"
  using assms(1) unfolding get_transform_fn_def
  by (elim if_drop if_none disjE conjE; use assms(2) in \<open>simp add: fmt_bits_simps\<close>)

section \<open>Properties\<close>

text \<open>For every pair of formats and channel counts that has a conversion kernel, the size
  function that comes with it scales byte counts by the ratio of the sample widths, in both
  directions.\<close>

theorem transform_sizes:
  assumes "get_transform_fn from to inc outc = Some (f, sz)" and "f \<noteq> Tr_dummy" and "8 * unat b < 2 ^ 32"
  shows "unat (sz b False) = unat b * fmt_bits to div fmt_bits from \<and>
    unat (sz b True) = unat b * fmt_bits from div fmt_bits to"
proof -
  note r = size_ratios [OF assms(3)]
  have d: "unat (tr_dummy_sz b x) = unat b" for x by (simp add: tr_dummy_sz_def)
  have n: "tr_conv_f32_i12_sz b x = tr_conv_i12_f32_sz b (\<not> x)" "tr_conv_f32_i16_sz b x = tr_conv_i16_f32_sz b (\<not> x)"
    "tr_conv_i16_i12_sz b x = tr_conv_i12_i16_sz b (\<not> x)" for x
    by (simp_all add: tr_conv_f32_i12_sz_def tr_conv_f32_i16_sz_def tr_conv_i16_i12_sz_def)
  from transform_classes [OF assms(1,2)] show ?thesis
    by (elim disjE conjE) (simp_all add: r d n)
qed

theorem transform_sizes_witness:
  "get_transform_fn ''ci12'' ''cf32'' 1 2 = Some (Tr_ci12_2cf32, tr_conv_i12_f32_sz) \<and>
   unat (tr_conv_i12_f32_sz 48 False) = 128"
proof -
  have t: "get_transform_fn ''ci12'' ''cf32'' 1 2 = Some (Tr_ci12_2cf32, tr_conv_i12_f32_sz)"
    by (simp add: get_transform_fn_def fmt_tests strcaseeq_def tolower_def less_eq_char_def)
  from transform_sizes [OF t, of 48] t show ?thesis
    by (simp add: fmt_bits_def fmt_tests strcaseeq_def tolower_def less_eq_char_def)
qed

text \<open>Real samples that are packed to 12 bits and unpacked again come back with their low four
  bits cleared, for every even number of samples, with the byte counts the size functions
  give.\<close>

theorem i12_round_trip:
  assumes "length xs = 2 * n" and "12 * n < 2 ^ 32"
  shows "\<exists>bs. conv_i16_i12 xs (of_nat (4 * n)) (of_nat (3 * n)) = Some bs \<and> length bs = 3 * n \<and>
    conv_i12_i16 bs (of_nat (3 * n)) (of_nat (4 * n)) = Some (map mask12 xs)"
  using i12_loops [OF assms(1)] sizes_match [OF assms(2)]
  unfolding conv_i16_i12_def conv_i12_i16_def by metis

theorem i12_round_trip_witness:
  "\<exists>bs. conv_i16_i12 [0x1234, 0xabcd] 4 3 = Some bs \<and> conv_i12_i16 bs 3 4 = Some [0x1230, 0xabc0]"
  using i12_round_trip [of "[0x1234, 0xabcd]" 1] by (auto simp: mask12_def)

text \<open>The last sample of an odd count is not packed like the others: its low byte is kept in
  place of its upper bits, so that 0x1234 arrives as 0x1340.\<close>

theorem i12_odd_sample_lost:
  "conv_i16_i12 [0x1234] 2 2 = Some [0x34, 0x01] \<and> conv_i12_i16 [0x34, 0x01] 2 4 = Some [0x1340] \<and>
   mask12 0x1234 = 0x1230"
  by (simp add: conv_i16_i12_def conv_i12_i16_def conv_i16_i12_loop.simps conv_i12_i16_loop.simps mask12_def)

text \<open>Two channels that are merged into one stream and split again come back unchanged.\<close>

theorem ci16_channels_round_trip:
  assumes "length d0 = 2 * n" and "length d1 = 2 * n" and "8 * n < 2 ^ 32"
  shows "\<exists>xs. conv_2ci16_ci16 d0 d1 (of_nat (8 * n)) (of_nat (8 * n)) = Some xs \<and> length xs = 4 * n \<and>
    conv_ci16_2ci16 xs (of_nat (8 * n)) (of_nat (8 * n)) = Some (d0, d1)"
proof -
  have "unat (of_nat (8 * n) :: u32) = 8 * n" using assms(3) by (rule unat_of_nat32)
  then show ?thesis using ci16_loops [OF assms(1,2)] unfolding conv_2ci16_ci16_def conv_ci16_2ci16_def if_cancel by metis
qed

theorem ci16_channels_round_trip_witness:
  "\<exists>xs. conv_2ci16_ci16 [1, 2] [3, 4] 8 8 = Some xs \<and> conv_ci16_2ci16 xs 8 8 = Some ([1, 2], [3, 4])"
  using ci16_channels_round_trip [of "[1, 2]" 1 "[3, 4]"] by auto

text \<open>Two channels that are packed to 12 bits and merged come back, their low bits cleared, from
  a receive buffer that is two bytes longer than the data; a buffer of exactly the data is read
  past its end.\<close>

theorem ci12_channels_round_trip:
  assumes "length d0 = 2 * n" and "length d1 = 2 * n" and "24 * n < 2 ^ 32"
  shows "\<exists>bs. conv_2ci16_ci12 d0 d1 (of_nat (8 * n)) (of_nat (6 * n)) = Some bs \<and> length bs = 6 * n \<and>
    (2 \<le> length after \<longrightarrow>
      conv_ci12_2ci16 (bs @ after) (of_nat (6 * n)) (of_nat (8 * n)) = Some (map mask12 d0, map mask12 d1)) \<and>
    (0 < n \<longrightarrow> conv_ci12_2ci16 bs (of_nat (6 * n)) (of_nat (8 * n)) = None)"
proof -
  have s: "12 * (2 * n) < 2 ^ 32" "4 * (2 * n) = 8 * n" "3 * (2 * n) = 6 * n" using assms(3) by simp_all
  note sz = sizes_match [OF s(1), unfolded s(2,3)]
  obtain bs where bs: "conv_2ci16_ci12_loop (8 * n) d0 d1 = Some bs" "length bs = 6 * n"
    using ci12_loops [OF assms(1,2), of "[0, 0]"] by auto
  have "conv_ci12_2ci16_loop (6 * n) (bs @ after) = Some (map mask12 d0, map mask12 d1)" if "2 \<le> length after"
    using ci12_loops [OF assms(1,2) that] bs(1) by auto
  moreover have "conv_ci12_2ci16_loop (6 * n) bs = None" if "0 < n"
    using bs(2) that
  proof (induction n arbitrary: bs)
    case (Suc n)
    show ?case
    proof (cases "n = 0")
      case True
      with Suc.prems show ?thesis by (subst conv_ci12_2ci16_loop.simps) simp
    next
      case False
      have "conv_ci12_2ci16_loop (6 * n) (drop 6 bs) = None" using Suc.prems False by (intro Suc.IH) auto
      with Suc.prems False show ?thesis
        by (subst conv_ci12_2ci16_loop.simps) (simp add: unpack48_def)
    qed
  qed simp
  ultimately show ?thesis
    using bs unfolding conv_2ci16_ci12_def conv_ci12_2ci16_def sz by blast
qed

theorem ci12_channels_round_trip_witness:
  "\<exists>bs. conv_2ci16_ci12 [0x1234, 2] [3, 0xabcd] 8 6 = Some bs \<and>
     conv_ci12_2ci16 (bs @ [7, 7]) 6 8 = Some ([0x1230, 0], [0, 0xabc0]) \<and> conv_ci12_2ci16 bs 6 8 = None"
  using ci12_channels_round_trip [of "[0x1234, 2]" 1 "[3, 0xabcd]" "[7, 7]"] by (auto simp: mask12_def)

end
