(* ===== verification/StreamDma.thy ===== *)
theory StreamDma
  imports SfeTx Conv
begin

text \<open>
  The stream engine (\<open>src/lib/ipblks/streams/stream_sfetrx4_dma32.c\<close>): the object behind an open
  receive or transmit stream and its operations. The DMA driver behind \<open>recv_dma_*\<close> and
  \<open>send_dma_*\<close> is an argument: its answers to the \<open>k\<close>-th call, quantified in the theorems. The
  calls the engine makes are a list of \<open>dma_ev\<close>; register accesses go through \<open>Lowlevel\<close>. Host
  and DMA buffers appear by address, so that which bytes a conversion reads and where it writes
  can be stated.
\<close>

section \<open>State\<close>

record stream_stats =
  ss_wirebytes :: u64
  ss_symbols :: u64
  ss_pktok :: u64
  ss_fe_drop :: u64
  ss_dma_drop :: u64

datatype usdr_str_type = USDR_ZCPY_RX | USDR_ZCPY_TX

definition extxcfg_cache_init :: creg where
  "extxcfg_cache_init = (0, 0, NOT 1)"

record stream_dma =
  sd_type :: usdr_str_type
  sd_channels :: u32
  sd_hwchannels :: u32
  sd_ll_streamo :: u32
  sd_cnf_base :: u32
  sd_sync_base :: u32
  sd_cnfrd_base :: u32
  sd_pkt_symbs :: u32
  sd_pkt_bytes :: u32
  sd_host_bytes :: u32
  sd_wire_bps :: u32
  sd_tf_data :: conv_function
  sd_tf_size :: size_function
  sd_rcnt :: u64
  sd_r_ts :: u64
  sd_burst_mask :: u32
  sd_stats :: stream_stats
  sd_fd :: int
  sd_burst_count :: u32
  sd_burst_align_bytes :: u32
  sd_fe_old_tx_mute :: u8
  sd_fe_old_tx_swap :: u8
  sd_fe_chans :: u32
  sd_fe_complex :: bool
  sd_srx4 :: sfe_cfg
  sd_cstx4 :: creg

definition CORE_SFERX_DMA32_R0 :: u32 where "CORE_SFERX_DMA32_R0 = 0"
definition CORE_SFETX_DMA32_R0 :: u32 where "CORE_SFETX_DMA32_R0 = 1"
definition CORE_EXFERX_DMA32_R0 :: u32 where "CORE_EXFERX_DMA32_R0 = 256"
definition CORE_EXFETX_DMA32_R0 :: u32 where "CORE_EXFETX_DMA32_R0 = 257"

lemmas core_defs = CORE_SFERX_DMA32_R0_def CORE_SFETX_DMA32_R0_def CORE_EXFERX_DMA32_R0_def CORE_EXFETX_DMA32_R0_def

text \<open>The calls to the DMA driver and the conversions between them. \<open>Transform srcs n dst m\<close>
  converts from the host addresses \<open>srcs\<close>, with sizes \<open>n\<close> and \<open>m\<close>, to offset \<open>dst\<close> of the DMA
  buffer; \<open>TransformRx n m\<close> converts the DMA buffer to the host buffers.\<close>

datatype dma_ev =
    RecvDmaWait u32
  | TransformRx u32 u32
  | RecvDmaRelease
  | SendDmaGet u32
  | Transform "nat list" u32 nat u32
  | SendDmaCommit u32 u64 u64 u64

text \<open>A return code next to a stream that may have changed.\<close>

definition with_code :: "'s \<Rightarrow> (int + unit) io \<Rightarrow> (int \<times> 's) io" where
  "with_code s m = (\<lambda>env tr. case m env tr of (Inl e, tr') \<Rightarrow> ((e, s), tr') | (Inr u, tr') \<Rightarrow> ((0, s), tr'))"

section \<open>Receive\<close>

record recv_wait =
  rw_res :: int
  rw_oob0 :: u64
  rw_oob1 :: u64
  rw_oob_size :: u32

record recv_nfo =
  nfo_fsymtime :: u64
  nfo_totsyms :: u32
  nfo_totlost :: u32
  nfo_extra :: u64

definition oob_lost :: "u64 \<Rightarrow> u32" where
  "oob_lost w = ucast (w AND 0xffffff)"

text \<open>The part of the receive call after the driver delivered a buffer.\<close>

definition recv_account :: "recv_wait \<Rightarrow> stream_dma \<Rightarrow> stream_dma \<times> recv_nfo" where
  "recv_account w s =
    (let lost = oob_lost (rw_oob0 w);
         st = sd_stats s;
         st1 = (if lost \<noteq> 0 then st\<lparr>ss_fe_drop := ss_fe_drop st + ucast lost\<rparr> else st);
         ts = (if lost \<noteq> 0 then sd_r_ts s + ucast (sd_pkt_symbs s * lost) else sd_r_ts s);
         st2 = st1\<lparr>ss_pktok := ss_pktok st1 + 1, ss_wirebytes := ss_wirebytes st1 + ucast (sd_pkt_bytes s),
                   ss_symbols := ss_symbols st1 + ucast (sd_pkt_symbs s)\<rparr>
     in (s\<lparr>sd_stats := st2, sd_rcnt := sd_rcnt s + 1, sd_r_ts := ts + ucast (sd_pkt_symbs s)\<rparr>,
         \<lparr>nfo_fsymtime = ts, nfo_totsyms = sd_pkt_symbs s, nfo_totlost = ucast (ss_fe_drop st2),
          nfo_extra = (if rw_oob_size w \<ge> 16 then rw_oob1 w else 0)\<rparr>))"

text \<open>\<open>release\<close> is the answer of \<open>recv_dma_release\<close>. The information is \<open>None\<close> where the code
  returns before it fills it.\<close>

definition stream_recv ::
  "recv_wait \<Rightarrow> int \<Rightarrow> u32 \<Rightarrow> stream_dma \<Rightarrow> (int \<times> stream_dma \<times> recv_nfo option \<times> dma_ev list) io" where
  "stream_recv w release timeout s = (\<lambda>env tr.
    if sd_type s \<noteq> USDR_ZCPY_RX then ((- ENOTSUP, s, None, []), tr)
    else case (if sd_rcnt s = 0 then lowlevel_reg_wr32 (sd_cnf_base s + 1) 4 else ioreturn ()) env tr of
      (Inl e, tr') \<Rightarrow> ((e, s, None, []), tr')
    | (Inr u, tr') \<Rightarrow>
        if rw_res w < 0 then ((rw_res w, s, None, [RecvDmaWait timeout]), tr')
        else let (s', nfo) = recv_account w s in
          ((release, s', Some nfo,
            [RecvDmaWait timeout, TransformRx (sd_pkt_bytes s) (sd_host_bytes s), RecvDmaRelease]), tr'))"

section \<open>The statistics words of the transmit core\<close>

record txcore_statistics =
  tx_usrbuf_completed :: u8
  tx_usrbuf_posted :: u8
  tx_usrbuf_aired :: u8
  tx_usrbuf_requested :: u8
  tx_pcietags :: u32
  tx_fifo_used :: u32
  tx_drop_fe :: u32
  tx_drop_dma :: u32
  tx_timestamp_low :: u32
  tx_bursts_sent :: u32
  tx_stat_cpl_nodata :: u32
  tx_fifo_full :: u8
  tx_stat_dmareq_ovf :: u8
  tx_notlp :: u8
  tx_core_ready :: u8

definition parse_txcore_stat :: "u32 \<Rightarrow> u32 \<Rightarrow> u32 \<Rightarrow> u32 \<Rightarrow> txcore_statistics" where
  "parse_txcore_stat w0 w1 w2 w3 =
    (if w0 AND 8 \<noteq> 0 then
       \<lparr>tx_usrbuf_completed = 0, tx_usrbuf_posted = 0, tx_usrbuf_aired = 0, tx_usrbuf_requested = 0,
        tx_pcietags = 0, tx_fifo_used = 0,
        tx_drop_fe = drop_bit 8 w0 AND 0xff,
        tx_drop_dma = drop_bit 16 w1 AND 0xffff,
        tx_timestamp_low = 0,
        tx_bursts_sent = drop_bit 16 w3 AND 0xffff,
        tx_stat_cpl_nodata = w3 AND 0xffff,
        tx_fifo_full = 0, tx_stat_dmareq_ovf = 0,
        tx_notlp = ucast (drop_bit 1 w0 AND 1),
        tx_core_ready = ucast (drop_bit 4 w0 AND 1)\<rparr>
     else
       \<lparr>tx_usrbuf_completed = ucast (push_bit 4 (drop_bit 30 w0) OR push_bit 2 (drop_bit 22 w0 AND 3) OR (drop_bit 14 w0 AND 3)),
        tx_usrbuf_posted = ucast (drop_bit 24 w0 AND 0x3f),
        tx_usrbuf_aired = ucast (drop_bit 16 w0 AND 0x3f),
        tx_usrbuf_requested = ucast (drop_bit 8 w0 AND 0x3f),
        tx_pcietags = drop_bit 24 w1 AND 0xff,
        tx_fifo_used = drop_bit 16 w1 AND 0xff,
        tx_drop_fe = drop_bit 8 w1 AND 0xff,
        tx_drop_dma = w1 AND 0xff,
        tx_timestamp_low = w2,
        tx_bursts_sent = drop_bit 16 w3 AND 0xffff,
        tx_stat_cpl_nodata = drop_bit 8 w3 AND 0xff,
        tx_fifo_full = ucast (drop_bit 7 w3 AND 1),
        tx_stat_dmareq_ovf = ucast (drop_bit 6 w3 AND 1),
        tx_notlp = ucast (drop_bit 1 w0 AND 1),
        tx_core_ready = ucast (w0 AND 1)\<rparr>)"

text \<open>The 64-bit total of a counter the hardware reports modulo 256.\<close>

definition drop_unwrap :: "u64 \<Rightarrow> u32 \<Rightarrow> u64" where
  "drop_unwrap total_drop hw =
    (if total_drop AND 0xff \<noteq> ucast hw then
       (let t = (if total_drop AND 0xff > ucast hw then total_drop + 0x100 else total_drop)
        in (t AND NOT 0xff) OR ucast hw)
     else total_drop)"

section \<open>Transmit\<close>

fun extx_burstup_from :: "nat \<Rightarrow> nat \<Rightarrow> u32 \<Rightarrow> u32 \<Rightarrow> nat option" where
  "extx_burstup_from 0 lg n brst_max = None"
| "extx_burstup_from (Suc k) lg n brst_max =
    (if n div push_bit lg 1 \<le> brst_max \<and> n mod push_bit lg 1 = 0 then Some lg
     else extx_burstup_from k (lg + 1) n brst_max)"

definition extx_burstup :: "u32 \<Rightarrow> u32 \<Rightarrow> int + nat" where
  "extx_burstup total_samples brst_samples_max =
    (case extx_burstup_from 4 0 total_samples brst_samples_max of None \<Rightarrow> Inl (- EINVAL) | Some lg \<Rightarrow> Inr lg)"

record send_get =
  sg_res :: int
  sg_stat :: "u32 \<times> u32 \<times> u32 \<times> u32"
  sg_stat_sz :: u32

record send_stat =
  os_lhwtime :: u64
  os_opkttime :: u64
  os_ktime :: u32
  os_underruns :: u32
  os_fifo_used :: u8

record dma_answers =
  da_get :: "nat \<Rightarrow> send_get"
  da_commit :: "nat \<Rightarrow> int"

text \<open>The statistics after the driver handed out a buffer.\<close>

definition send_account ::
  "send_get \<Rightarrow> u32 \<Rightarrow> u32 \<Rightarrow> stream_dma \<Rightarrow> stream_dma \<times> send_stat option" where
  "send_account g wire_total smps s =
    (let st = sd_stats s;
         st1 = st\<lparr>ss_wirebytes := ss_wirebytes st + ucast wire_total, ss_symbols := ss_symbols st + ucast smps\<rparr>
     in if sg_stat_sz g > 0 then
       (case sg_stat g of (w0, w1, w2, w3) \<Rightarrow>
        let p = parse_txcore_stat w0 w1 w2 w3;
            st2 = st1\<lparr>ss_fe_drop := drop_unwrap (ss_fe_drop st1) (tx_drop_fe p),
                      ss_dma_drop := drop_unwrap (ss_dma_drop st1) (tx_drop_dma p),
                      ss_pktok := ss_pktok st1 + 1\<rparr>
        in (s\<lparr>sd_stats := st2\<rparr>,
            Some \<lparr>os_lhwtime = ucast w2, os_opkttime = 0, os_ktime = w3,
                  os_underruns = ucast (ss_fe_drop st2 + ss_dma_drop st2), os_fifo_used = ucast (tx_fifo_used p)\<rparr>))
     else (s\<lparr>sd_stats := st1\<lparr>ss_pktok := ss_pktok st1 + 1\<rparr>\<rparr>, None))"

text \<open>The conversions of one packet and the length written: one conversion per burst, each aligned,
  or one for all bursts.\<close>

definition send_transforms ::
  "stream_dma \<Rightarrow> nat list \<Rightarrow> u32 \<Rightarrow> u32 \<Rightarrow> u32 \<Rightarrow> dma_ev list \<times> u64" where
  "send_transforms s bufs wire_bytes host_bytes bursts =
    (let align = sd_burst_align_bytes s - 1 in
     if bursts > 1 \<and> wire_bytes AND align \<noteq> 0 then
       (let off = unat (host_bytes div sd_channels s);
            step = unat ((wire_bytes + align) AND NOT align)
        in (map (\<lambda>b. Transform (map (\<lambda>p. p + b * off) bufs) host_bytes (b * step) wire_bytes) [0..<unat bursts],
            of_nat (unat bursts * step)))
     else ([Transform bufs (host_bytes * bursts) 0 (wire_bytes * bursts)], ucast (wire_bytes * bursts)))"

type_synonym send_result = "int \<times> stream_dma \<times> send_stat option \<times> dma_ev list"

text \<open>One packet of \<open>2 ^ lgbursts\<close> bursts of \<open>samples\<close> samples; \<open>k\<close> counts the packets of the call.\<close>

definition send_packet ::
  "dma_answers \<Rightarrow> nat \<Rightarrow> u32 \<Rightarrow> stream_dma \<Rightarrow> nat list \<Rightarrow> nat \<Rightarrow> u32 \<Rightarrow> u64 \<Rightarrow> send_result io" where
  "send_packet dma k timeout s bufs lgbursts samples timestamp = (\<lambda>env tr.
    let g = da_get dma k in
    if sg_res g < 0 then
      (if sg_res g = - ETIMEDOUT then
         (case lowlevel_reg_rdndw (sd_cnfrd_base s) 4 env tr of
            (Inl e, tr') \<Rightarrow> ((e, s, None, [SendDmaGet timeout]), tr')
          | (Inr ws, tr') \<Rightarrow> ((- ETIMEDOUT, s, None, [SendDmaGet timeout]), tr'))
       else ((sg_res g, s, None, [SendDmaGet timeout]), tr))
    else
      let wire_bytes = sd_channels s * samples * sd_wire_bps s div 8;
          host_bytes = sd_tf_size s wire_bytes True;
          bursts = push_bit lgbursts 1 :: u32;
          (s1, st) = send_account g (wire_bytes * bursts) (samples * bursts) s;
          align = sd_burst_align_bytes s - 1
      in if bursts > 1 \<and> wire_bytes AND align \<noteq> 0 \<and> sd_channels s = 0 then ((CRASH_FPE, s1, st, [SendDmaGet timeout]), tr)
         else let (tfs, wire_len) = send_transforms s bufs wire_bytes host_bytes bursts in
         ((da_commit dma k, s1\<lparr>sd_rcnt := sd_rcnt s1 + 1\<rparr>, st,
           SendDmaGet timeout # tfs @ [SendDmaCommit wire_bytes timestamp (of_nat lgbursts) wire_len]), tr))"

text \<open>
  The call. It is recursive in the source: a request longer than a burst is cut into calls of at
  most a burst each, which take the other branch; \<open>send_chunks\<close> is that loop. A burst size of 0
  makes it endless as long as the driver accepts: no result.
\<close>

definition next_ts :: "u64 \<Rightarrow> u32 \<Rightarrow> u64" where
  "next_ts ts ns = (if ts < 0x7fffffffffffffff then ts + ucast ns else ts)"

partial_function (option) send_chunks ::
  "dma_answers \<Rightarrow> u32 \<Rightarrow> u32 \<Rightarrow> nat \<Rightarrow> nat \<Rightarrow> stream_dma \<Rightarrow> nat list \<Rightarrow> u32 \<Rightarrow> u64 \<Rightarrow> env \<Rightarrow> trace \<Rightarrow> (send_result \<times> trace) option" where
  "send_chunks dma timeout brst host_off k s nstreams samples timestamp env tr =
    (let ns = (if samples < brst then samples else brst) in
     case send_packet dma k timeout s nstreams 0 ns timestamp env tr of
       ((res, s1, st, evs), tr1) \<Rightarrow>
         if res \<noteq> 0 then Some ((res, s1, st, evs), tr1)
         else if samples - ns = 0 then Some ((0, s1, st, evs), tr1)
         else Option.bind
           (send_chunks dma timeout brst host_off (k + 1) s1 (map (\<lambda>p. p + host_off) nstreams) (samples - ns) (next_ts timestamp ns) env tr1)
           (\<lambda>((res2, s2, st2, evs2), tr2). Some ((res2, s2, (if st2 = None then st else st2), evs @ evs2), tr2)))"

definition stream_send ::
  "dma_answers \<Rightarrow> u32 \<Rightarrow> stream_dma \<Rightarrow> nat list \<Rightarrow> u32 \<Rightarrow> u64 \<Rightarrow> env \<Rightarrow> trace \<Rightarrow> (send_result \<times> trace) option" where
  "stream_send dma timeout s bufs samples timestamp env tr =
    (if sd_burst_count s = 0 then Some ((CRASH_FPE, s, None, []), tr)
     else if sd_type s \<noteq> USDR_ZCPY_TX then Some ((- ENOTSUP, s, None, []), tr)
     else
       let brst = sd_pkt_symbs s div sd_burst_count s;
           extx = (cfg_fecore_id (sd_srx4 s) = CORE_EXFETX_DMA32_R0)
       in case (if extx then extx_burstup samples brst else Inr 0) of
         Inl e \<Rightarrow> Some ((e, s, None, []), tr)
       | Inr lg \<Rightarrow>
           let n = (if extx then samples div push_bit lg 1 else samples) in
           if brst < n then
             (if sd_channels s = 0 then Some ((CRASH_FPE, s, None, []), tr)
              else if sd_channels s > 16 then Some ((ASSERT_ABORT, s, None, []), tr)
              else send_chunks dma timeout brst
                (unat (sd_tf_size s (brst * sd_wire_bps s div 8) True div sd_channels s)) 0 s bufs n timestamp env tr)
           else Some (send_packet dma 0 timeout s bufs lg n timestamp env tr))"

text \<open>What the driver calls back when a transmit buffer is committed.\<close>

definition commit_samples :: "stream_dma \<Rightarrow> u32 \<Rightarrow> u32" where
  "commit_samples s sz = sz * 8 div (sd_hwchannels s * sd_wire_bps s)"

definition stream_soft_tx_commit :: "u32 \<Rightarrow> u64 list option \<Rightarrow> stream_dma \<Rightarrow> (int + u8 list) io" where
  "stream_soft_tx_commit sz oob s =
    (if sd_hwchannels s * sd_wire_bps s = 0 then iofail CRASH_FPE
     else sfe_tx4_push_ring_buffer (sd_cnf_base s) (commit_samples s sz)
       (case oob of None \<Rightarrow> - 1 | Some ws \<Rightarrow> ws ! 0))"

definition stream_soft_extx_commit :: "u32 \<Rightarrow> u64 list option \<Rightarrow> stream_dma \<Rightarrow> (int \<times> stream_dma) io" where
  "stream_soft_extx_commit sz oob s =
    (let timestamp = (case oob of None \<Rightarrow> - 1 | Some ws \<Rightarrow> ws ! 0);
         lbursts = (case oob of Some ws \<Rightarrow> if length ws \<ge> 2 then ucast (ws ! 1) else 0 | None \<Rightarrow> 0) :: u32
     in if sd_hwchannels s * sd_wire_bps s = 0 then (\<lambda>env tr. ((CRASH_FPE, s), tr))
     else if lbursts > 3 then (\<lambda>env tr. ((- EINVAL, s), tr))
     else if sd_burst_count s = 0 then (\<lambda>env tr. ((CRASH_FPE, s), tr))
     else if commit_samples s sz > sd_pkt_symbs s div sd_burst_count s then (\<lambda>env tr. ((- EINVAL, s), tr))
     else (\<lambda>env tr. case sfe_extx4_push_ring_buffer (sd_cnf_base s) (sd_cstx4 s) sz (commit_samples s sz) (unat lbursts) timestamp env tr of
       ((e, c), tr') \<Rightarrow> ((e, s\<lparr>sd_cstx4 := c\<rparr>), tr')))"

section \<open>Control\<close>

datatype usdr_dms_op_types = USDR_DMS_START | USDR_DMS_STOP | USDR_DMS_START_AT | USDR_DMS_STOP_AT

definition stream_lgchcnt :: "u32 \<Rightarrow> u32" where
  "stream_lgchcnt n = (if n = 1 then 0 else if n = 2 then 1 else if n = 4 then 2 else 3)"

definition stream_op :: "usdr_dms_op_types \<Rightarrow> stream_dma \<Rightarrow> (int + unit) io" where
  "stream_op command s =
    (let start = (command = USDR_DMS_START \<or> command = USDR_DMS_START_AT) in
     if sd_type s = USDR_ZCPY_RX then
       ioseq (lowlevel_reg_wr32 (sd_cnf_base s + 1) (if start then 1 else 0)) (sfe_rx4_startstop (sd_srx4 s) start)
     else sfe_tx4_ctl (sd_sync_base s) (stream_lgchcnt (sd_fe_chans s)) (sd_fe_old_tx_swap s) (sd_fe_old_tx_mute s) False start)"

definition stream_destroy :: "int \<Rightarrow> stream_dma \<Rightarrow> int io" where
  "stream_destroy deinit s = (\<lambda>env tr.
    case (if sd_type s = USDR_ZCPY_RX
          then ioseq (lowlevel_reg_wr32 (sd_cnf_base s + 1) 0) (sfe_rx4_startstop (sd_srx4 s) False)
          else lowlevel_reg_wr32 (sd_sync_base s) 0) env tr of
      (Inl e, tr') \<Rightarrow> (e, tr') | (Inr u, tr') \<Rightarrow> (deinit, tr'))"

definition stream_option_get :: "string \<Rightarrow> stream_dma \<Rightarrow> int + int" where
  "stream_option_get name s = (if name = ''fd'' then Inr (sd_fd s) else Inl (- EINVAL))"

text \<open>For \<open>chmap\<close> the value is a pointer: \<open>deref\<close> is the map it points to.\<close>

definition tx_old_chmap :: "channel_info \<Rightarrow> stream_dma \<Rightarrow> (int \<times> stream_dma) io" where
  "tx_old_chmap m s =
    (case fe_tx4_swap_ab_get (sd_fe_chans s) m of
       Inl e \<Rightarrow> (\<lambda>env tr. ((e, s), tr))
     | Inr swap \<Rightarrow>
         let s1 = s\<lparr>sd_fe_old_tx_swap := ucast swap\<rparr>;
             s2 = (if sd_fe_chans s = 1 \<and> sd_fe_old_tx_mute s \<noteq> 0
                   then s1\<lparr>sd_fe_old_tx_mute := (if sd_fe_old_tx_swap s1 \<noteq> 0 then 1 else 2)\<rparr> else s1)
         in with_code s2 (sfe_tx4_upd (sd_sync_base s2) (ucast (sd_fe_old_tx_mute s2)) (ucast (sd_fe_old_tx_swap s2))))"

definition stream_option_set :: "string \<Rightarrow> u64 \<Rightarrow> channel_info \<Rightarrow> stream_dma \<Rightarrow> (int \<times> stream_dma) io" where
  "stream_option_set name v deref s =
    (let extx = (cfg_fecore_id (sd_srx4 s) = CORE_EXFETX_DMA32_R0);
         rx = (sd_type s = USDR_ZCPY_RX)
     in if name = ''ready'' then
       (if \<not> rx then (\<lambda>env tr. ((- ENOTSUP, s), tr)) else with_code s (lowlevel_reg_wr32 (sd_cnf_base s + 1) 4))
     else if rx \<and> name = ''throttle'' then
       with_code s (sfe_rx4_throttle (sd_srx4 s) (bit v 16) (ucast (drop_bit 8 v)) (ucast v))
     else if name = ''chmap'' then
       (if rx \<and> cfg_fecore_id (sd_srx4 s) \<noteq> CORE_EXFERX_DMA32_R0 then (\<lambda>env tr. ((- ENOTSUP, s), tr))
        else if \<not> rx \<and> \<not> extx then tx_old_chmap deref s
        else with_code s (exfe_trx4_update_chmap (sd_srx4 s) (\<not> rx) (sd_fe_complex s)
               ((if sd_fe_complex s then 2 else 1) * sd_fe_chans s) deref))
     else if \<not> rx \<and> name = ''mute'' then
       (if \<not> extx then
          (let s1 = s\<lparr>sd_fe_old_tx_mute := ucast (v AND 3)\<rparr> in
           with_code s1 (sfe_tx4_upd (sd_sync_base s1) (ucast (sd_fe_old_tx_mute s1)) (ucast (sd_fe_old_tx_swap s1))))
        else with_code s (exfe_tx4_mute (sd_srx4 s) v))
     else (\<lambda>env tr. ((- EINVAL, s), tr)))"

record dms_nfo =
  dn_rx :: bool
  dn_channels :: u32
  dn_pktbszie :: u32
  dn_pktsyms :: u32
  dn_burst_count :: u32

definition stream_stat :: "stream_dma \<Rightarrow> int + dms_nfo" where
  "stream_stat s =
    (if sd_channels s = 0 then Inl CRASH_FPE
     else Inr \<lparr>dn_rx = (sd_type s = USDR_ZCPY_RX), dn_channels = sd_channels s,
               dn_pktbszie = sd_host_bytes s div sd_channels s, dn_pktsyms = sd_pkt_symbs s,
               dn_burst_count = sd_burst_count s\<rparr>)"

section \<open>Statistics\<close>

text \<open>The words of the transmit core as the comment in the source lays them out (the PCIe form).\<close>

definition txcore_word0 :: "u8 \<Rightarrow> u8 \<Rightarrow> u8 \<Rightarrow> u8 \<Rightarrow> u8 \<Rightarrow> u32" where
  "txcore_word0 completed posted aired requested low =
     push_bit 30 (ucast (drop_bit 4 completed)) OR push_bit 24 (ucast posted) OR
     push_bit 22 (ucast (drop_bit 2 completed AND 3)) OR push_bit 16 (ucast aired) OR
     push_bit 14 (ucast (completed AND 3)) OR push_bit 8 (ucast requested) OR ucast low"

definition txcore_word1 :: "u8 \<Rightarrow> u8 \<Rightarrow> u8 \<Rightarrow> u8 \<Rightarrow> u32" where
  "txcore_word1 tags fifo drop_fe drop_dma =
     push_bit 24 (ucast tags) OR push_bit 16 (ucast fifo) OR push_bit 8 (ucast drop_fe) OR ucast drop_dma"

definition txcore_word3 :: "u16 \<Rightarrow> u8 \<Rightarrow> bool \<Rightarrow> bool \<Rightarrow> u32" where
  "txcore_word3 sent nodata full ovf =
     push_bit 16 (ucast sent) OR push_bit 8 (ucast nodata) OR push_bit 7 (of_bool full) OR push_bit 6 (of_bool ovf)"

end
