(* ===== verification/StreamRecv.thy ===== *)
theory StreamRecv
  imports StreamDma
begin

text \<open>
  Receiving: the decoding of the statistics words, the drop counters that are widened from what
  the hardware reports, and the time stamps of received buffers.
\<close>

section \<open>Statistics words and counters\<close>

lemma unat64_lt: "unat (x :: u64) < 18446744073709551616"
  by (rule order_less_le_trans [OF unsigned_less]) simp

lemma take6: "unat (x :: u8) < 64 \<Longrightarrow> bit x n \<Longrightarrow> n < 6"
proof -
  assume a: "unat x < 64" and b: "bit x n"
  from a have "take_bit 6 x = x" by (intro take_bit_fits) simp
  with b show "n < 6" by (metis bit_take_bit_iff)
qed

lemma txcore_word0_fields:
  assumes "unat c < 64" "unat p < 64" "unat a < 64" "unat r < 64"
  shows "ucast (push_bit 4 (drop_bit 30 (txcore_word0 c p a r low)) OR push_bit 2 (drop_bit 22 (txcore_word0 c p a r low) AND 3) OR
      (drop_bit 14 (txcore_word0 c p a r low) AND 3)) = c"
    and "ucast (drop_bit 24 (txcore_word0 c p a r low) AND 0x3f) = p"
    and "ucast (drop_bit 16 (txcore_word0 c p a r low) AND 0x3f) = a"
    and "ucast (drop_bit 8 (txcore_word0 c p a r low) AND 0x3f) = r"
    and "ucast (drop_bit 1 (txcore_word0 c p a r low) AND 1) = (of_bool (bit low 1) :: u8)"
    and "ucast (txcore_word0 c p a r low AND 1) = (of_bool (bit low 0) :: u8)"
proof -
  have b: "bit c n \<Longrightarrow> n < 6" "bit p n \<Longrightarrow> n < 6" "bit a n \<Longrightarrow> n < 6" "bit r n \<Longrightarrow> n < 6" for n
    using assms take6 by blast+
  have nn: "\<not> bit c n \<and> \<not> bit p n \<and> \<not> bit a n \<and> \<not> bit r n" if "n \<ge> 6" for n using b that by (meson not_less)
  have nl: "\<not> bit low 8" "\<not> bit low 9" "\<not> bit low 10" "\<not> bit low 11" "\<not> bit low 12" "\<not> bit low 13" "\<not> bit low 14" "\<not> bit low 15" "\<not> bit low 16" "\<not> bit low 17" "\<not> bit low 18" "\<not> bit low 19" "\<not> bit low 20" "\<not> bit low 21" "\<not> bit low 22" "\<not> bit low 23" "\<not> bit low 24" "\<not> bit low 25" "\<not> bit low 26" "\<not> bit low 27" "\<not> bit low 28" "\<not> bit low 29" "\<not> bit low 30" "\<not> bit low 31"
    by (simp_all add: bit_word_high)
  note B = txcore_word0_def bit_simps bitfield nn nl
  have s: "n < 8 \<Longrightarrow> n = 0 \<or> n = 1 \<or> n = 2 \<or> n = 3 \<or> n = 4 \<or> n = 5 \<or> n = 6 \<or> n = 7" for n :: nat by linarith
  show "ucast (drop_bit 24 (txcore_word0 c p a r low) AND 0x3f) = p"
    by (rule bit_word_eqI, simp, drule s, elim disjE) (simp_all add: B)
  show "ucast (drop_bit 16 (txcore_word0 c p a r low) AND 0x3f) = a"
    by (rule bit_word_eqI, simp, drule s, elim disjE) (simp_all add: B)
  show "ucast (drop_bit 8 (txcore_word0 c p a r low) AND 0x3f) = r"
    by (rule bit_word_eqI, simp, drule s, elim disjE) (simp_all add: B)
  show "ucast (push_bit 4 (drop_bit 30 (txcore_word0 c p a r low)) OR push_bit 2 (drop_bit 22 (txcore_word0 c p a r low) AND 3) OR
      (drop_bit 14 (txcore_word0 c p a r low) AND 3)) = c"
    by (rule bit_word_eqI, simp, drule s, elim disjE) (simp_all add: B)
  show "ucast (drop_bit 1 (txcore_word0 c p a r low) AND 1) = (of_bool (bit low 1) :: u8)"
    by (rule bit_word_eqI, simp, drule s, elim disjE) (simp_all add: B)
  show "ucast (txcore_word0 c p a r low AND 1) = (of_bool (bit low 0) :: u8)"
    by (rule bit_word_eqI, simp, drule s, elim disjE) (simp_all add: B)
qed

lemma drop_unwrap_tracks1:
  assumes "old \<le> t" and "t - old < 256"
  shows "drop_unwrap old (ucast (t AND 0xff)) = t"
proof -
  have m: "(0xff :: u64) = mask 8" by (simp add: mask_eq_exp_minus_1)
  have u: "ucast (ucast (t AND 0xff) :: u32) = t AND 0xff"
    by (rule bit_word_eqI) (auto simp: bit_simps bitfield)
  have n: "unat (x AND 0xff) = unat x mod 256" for x :: u64
    by (simp add: m flip: take_bit_eq_mask) (simp only: unsigned_take_bit_eq, simp add: take_bit_eq_mod)
  have j: "unat ((x AND NOT 0xff) OR (t AND 0xff)) = unat x div 256 * 256 + unat t mod 256" for x :: u64
  proof -
    have 1: "(x AND NOT 0xff) OR (t AND 0xff) = (x AND NOT 0xff) + (t AND 0xff)"
      by (rule disjunctive_add [symmetric]) (auto simp: bit_simps m)
    have "x AND NOT 0xff = push_bit 8 (drop_bit 8 x)"
      by (rule bit_word_eqI) (auto simp: bit_simps m)
    also have "\<dots> = of_nat (unat x div 256 * 256)"
    proof -
      have "unat x div 256 < 2 ^ 64" "unat x div 256 * 256 < 2 ^ 64" using unat64_lt [of x] by simp_all
      then show ?thesis by (simp add: push_bit_eq_mult drop_bit_eq_div word_unat_eq_iff unat_div unat_mult_lem [THEN iffD1] unat_of_nat_fits)
    qed
    finally have 2: "x AND NOT 0xff = of_nat (unat x div 256 * 256)" .
    have 3: "t AND 0xff = of_nat (unat t mod 256)" by (simp flip: n)
    have e: "(x AND NOT 0xff) OR (t AND 0xff) = of_nat (unat x div 256 * 256 + unat t mod 256)"
      unfolding 1 unfolding 2 3 by simp
    have "unat x div 256 * 256 + unat t mod 256 < 2 ^ 64" proof -
      have "unat x div 256 \<le> 2 ^ 56 - 1" using unat64_lt [of x] by (simp add: div_le_dividend less_mult_imp_div_less flip: less_Suc_eq_le)
      moreover have "unat t mod 256 < 256" by simp
      ultimately show ?thesis by simp
    qed
    then show ?thesis unfolding e by (simp add: unat_of_nat_fits del: of_nat_add)
  qed
  have d: "unat old \<le> unat t" "unat t < unat old + 256"
    using assms by (auto simp: word_le_nat_alt word_less_nat_alt unat_sub)
  have e: "unat old div 256 * 256 + unat old mod 256 = unat old" "unat t div 256 * 256 + unat t mod 256 = unat t"
    "unat old mod 256 < 256" "unat t mod 256 < 256" by (simp_all add: mult.commute)
  have qq: "unat old div 256 \<le> unat t div 256" "unat t div 256 < unat old div 256 + 2"
    using d e by (simp_all add: div_le_mono) linarith?
  show ?thesis
  proof (cases "unat old mod 256 = unat t mod 256")
    case True
    then have "unat old = unat t" using d e qq by (cases "unat t div 256 = unat old div 256 + 1") linarith+
    with True show ?thesis by (simp add: drop_unwrap_def u word_unat_eq_iff n)
  next
    case False
    show ?thesis
    proof (cases "unat old mod 256 > unat t mod 256")
      case gt: True
      then have q: "unat t div 256 = unat old div 256 + 1" using d e qq by linarith
      have "unat t div 256 < 2 ^ 56" using unat64_lt [of t] by (simp add: less_mult_imp_div_less)
      then have "unat old + 256 < 2 ^ 64" using q div_mult_mod_eq [of "unat old" 256] mod_less_divisor [of 256 "unat old"] by simp
      then have "unat (old + 0x100) = unat old + 256" using unat_add_lem [of old "0x100"] by simp
      moreover have "old AND 0xff > t AND 0xff" "old AND 0xff \<noteq> t AND 0xff" using False gt by (auto simp: word_less_nat_alt n word_unat_eq_iff)
      then have "drop_unwrap old (ucast (t AND 0xff)) = ((old + 0x100) AND NOT 0xff) OR (t AND 0xff)" by (simp add: drop_unwrap_def u)
      ultimately have "unat (drop_unwrap old (ucast (t AND 0xff))) = (unat old + 256) div 256 * 256 + unat t mod 256"
        by (simp only: j)
      then show ?thesis using q e by (simp only: word_unat_eq_iff div_add_self2)
    next
      case le: False
      with False have q: "unat t div 256 = unat old div 256" using d e qq by linarith
      have "\<not> old AND 0xff > t AND 0xff" "old AND 0xff \<noteq> t AND 0xff" using False le by (auto simp: word_less_nat_alt n word_unat_eq_iff)
      then have "drop_unwrap old (ucast (t AND 0xff)) = (old AND NOT 0xff) OR (t AND 0xff)" by (simp add: drop_unwrap_def u)
      then have "unat (drop_unwrap old (ucast (t AND 0xff))) = unat old div 256 * 256 + unat t mod 256"
        by (simp only: j)
      then show ?thesis using q e by (simp only: word_unat_eq_iff)
    qed
  qed
qed

lemma txcore_word1_fields:
  "drop_bit 24 (txcore_word1 tags fifo dfe ddma) AND 0xff = ucast tags"
  "drop_bit 16 (txcore_word1 tags fifo dfe ddma) AND 0xff = ucast fifo"
  "drop_bit 8 (txcore_word1 tags fifo dfe ddma) AND 0xff = ucast dfe"
  "txcore_word1 tags fifo dfe ddma AND 0xff = ucast ddma"
  by (rule bit_word_eqI; auto simp: txcore_word1_def bit_simps bitfield bit_word_high dest: bit_imp_le_length)+

text \<open>A status report of the transmit core over PCIe: the words carry the low eight bits of its two counters of lost packets, \<open>fe\<close>
  in the front end and \<open>dma\<close> for want of data. Bit 3 of the first word is clear; it marks the core over USB, whose words are laid
  out otherwise.\<close>

definition reports_drops :: "send_get \<Rightarrow> u64 \<Rightarrow> u64 \<Rightarrow> bool" where
  "reports_drops g fe dma \<longleftrightarrow> 0 < sg_stat_sz g \<and>
    (\<exists>w0 tags fifo w2 w3. \<not> bit w0 3 \<and> sg_stat g = (w0, txcore_word1 tags fifo (ucast fe) (ucast dma), w2, w3))"

lemma send_account_drops:
  assumes "reports_drops g fe dma" and "ss_fe_drop (sd_stats s) \<le> fe" "fe - ss_fe_drop (sd_stats s) < 256"
    and "ss_dma_drop (sd_stats s) \<le> dma" "dma - ss_dma_drop (sd_stats s) < 256"
  shows "ss_fe_drop (sd_stats (fst (send_account g wire smps s))) = fe \<and> ss_dma_drop (sd_stats (fst (send_account g wire smps s))) = dma"
proof -
  obtain w0 tags fifo w2 w3 where w: "0 < sg_stat_sz g" "\<not> bit w0 3"
    "sg_stat g = (w0, txcore_word1 tags fifo (ucast fe) (ucast dma), w2, w3)"
    using assms(1) by (auto simp: reports_drops_def)
  have "w0 AND 8 = 0" using w(2) and_exp_eq_0_iff_not_bit [of w0 3] by simp
  moreover have "ucast (ucast x :: u8) = (ucast (x AND 0xff) :: u32)" for x :: u64
    by (rule bit_word_eqI) (auto simp: bit_simps bitfield)
  ultimately show ?thesis
    using w(1,3) drop_unwrap_tracks1 [OF assms(2,3)] drop_unwrap_tracks1 [OF assms(4,5)]
    by (simp add: send_account_def Let_def parse_txcore_stat_def txcore_word1_fields)
qed

text \<open>C11: The 64-bit drop counters of a transmit stream over PCIe follow those of the core through all its reports, although a
  report has only their low eight bits, as long as fewer than 256 packets are lost of each kind between two reports. (Over USB one
  counter has 16 bits and is miscounted, see below.)\<close>

theorem drop_counters_tracked:
  assumes "\<forall>(g, wire, smps, fe, dma) \<in> set rs. reports_drops g fe dma"
    and "successively (\<lambda>a b. a \<le> b \<and> b - a < 256) (ss_fe_drop (sd_stats s) # map (\<lambda>(g, wire, smps, fe, dma). fe) rs)"
    and "successively (\<lambda>a b. a \<le> b \<and> b - a < 256) (ss_dma_drop (sd_stats s) # map (\<lambda>(g, wire, smps, fe, dma). dma) rs)"
  shows "let s' = foldl (\<lambda>s (g, wire, smps, fe, dma). fst (send_account g wire smps s)) s rs in
    ss_fe_drop (sd_stats s') = last (ss_fe_drop (sd_stats s) # map (\<lambda>(g, wire, smps, fe, dma). fe) rs) \<and>
    ss_dma_drop (sd_stats s') = last (ss_dma_drop (sd_stats s) # map (\<lambda>(g, wire, smps, fe, dma). dma) rs)"
  using assms
proof (induction rs arbitrary: s)
  case (Cons r rs)
  obtain g wire smps fe dma where r: "r = (g, wire, smps, fe, dma)" by (cases r)
  have "ss_fe_drop (sd_stats (fst (send_account g wire smps s))) = fe \<and> ss_dma_drop (sd_stats (fst (send_account g wire smps s))) = dma"
    by (rule send_account_drops) (use Cons.prems r in auto)
  with Cons.IH [of "fst (send_account g wire smps s)"] Cons.prems r show ?case by (auto simp: Let_def)
qed simp

definition drop_report :: "u64 \<Rightarrow> u64 \<Rightarrow> send_get" where
  "drop_report fe dma = \<lparr>sg_res = 0, sg_stat = (0, txcore_word1 0 0 (ucast fe) (ucast dma), 0, 0), sg_stat_sz = 16\<rparr>"

theorem drop_counters_tracked_witness:
  "\<forall>s. let s0 = s\<lparr>sd_stats := \<lparr>ss_wirebytes = 0, ss_symbols = 0, ss_pktok = 0, ss_fe_drop = 255, ss_dma_drop = 255\<rparr>\<rparr>;
       s' = foldl (\<lambda>s (g, wire, smps, fe, dma). fst (send_account g wire smps s)) s0
         [(drop_report 260 300, 16, 4, 260 :: u64, 300 :: u64), (drop_report 510 300, 16, 4, 510, 300)]
     in ss_fe_drop (sd_stats s') = 510 \<and> ss_dma_drop (sd_stats s') = 300"
proof
  fix s :: stream_dma
  let ?s = "s\<lparr>sd_stats := \<lparr>ss_wirebytes = 0, ss_symbols = 0, ss_pktok = 0, ss_fe_drop = 255, ss_dma_drop = 255\<rparr>\<rparr>"
  let ?rs = "[(drop_report 260 300, 16, 4, 260, 300), (drop_report 510 300, 16, 4, 510, 300)] :: (send_get \<times> u32 \<times> u32 \<times> u64 \<times> u64) list"
  have r: "reports_drops (drop_report fe dma) fe dma" for fe dma
    unfolding reports_drops_def drop_report_def
    by (rule conjI, simp) (rule exI [of _ 0], rule exI [of _ 0], rule exI [of _ 0], rule exI [of _ 0], rule exI [of _ 0], simp)
  have "\<forall>(g, wire, smps, fe, dma) \<in> set ?rs. reports_drops g fe dma" using r by simp
  from drop_counters_tracked [OF this, of ?s] show "let s0 = ?s;
       s' = foldl (\<lambda>s (g, wire, smps, fe, dma). fst (send_account g wire smps s)) s0 ?rs
     in ss_fe_drop (sd_stats s') = 510 \<and> ss_dma_drop (sd_stats s') = 300"
    by (simp add: Let_def)
qed

text \<open>Over USB the DMA drop counter has 16 bits but is still joined as an 8-bit one: after 0x1ff
  drops one more is counted as 0x101.\<close>

theorem usb_drops_miscounted:
  "tx_drop_dma (parse_txcore_stat 8 0x02000000 0 0) = 0x200 \<and>
   drop_unwrap 0x1ff (tx_drop_dma (parse_txcore_stat 8 0x02000000 0 0)) = 0x300"
  by (simp add: parse_txcore_stat_def drop_unwrap_def)

lemma txcore_word3_fields:
  "drop_bit 16 (txcore_word3 sent nodata full ovf) AND 0xffff = ucast sent"
  "drop_bit 8 (txcore_word3 sent nodata full ovf) AND 0xff = ucast nodata"
  "ucast (drop_bit 7 (txcore_word3 sent nodata full ovf) AND 1) = (of_bool full :: u8)"
  "ucast (drop_bit 6 (txcore_word3 sent nodata full ovf) AND 1) = (of_bool ovf :: u8)"
  by (rule bit_word_eqI; auto simp: txcore_word3_def bit_simps bitfield bit_word_high dest: bit_imp_le_length)+

text \<open>Each field of the transmit statistics is read from where the documented layout of the four
  words puts it.\<close>

theorem txcore_words_parsed:
  assumes "unat completed < 64" "unat posted < 64" "unat aired < 64" "unat requested < 64" and "\<not> bit low 3"
  shows "parse_txcore_stat (txcore_word0 completed posted aired requested low) (txcore_word1 tags fifo drop_fe drop_dma)
      time (txcore_word3 sent nodata full ovf) =
    \<lparr>tx_usrbuf_completed = completed, tx_usrbuf_posted = posted, tx_usrbuf_aired = aired, tx_usrbuf_requested = requested,
     tx_pcietags = ucast tags, tx_fifo_used = ucast fifo, tx_drop_fe = ucast drop_fe, tx_drop_dma = ucast drop_dma,
     tx_timestamp_low = time, tx_bursts_sent = ucast sent, tx_stat_cpl_nodata = ucast nodata,
     tx_fifo_full = of_bool full, tx_stat_dmareq_ovf = of_bool ovf,
     tx_notlp = of_bool (bit low 1), tx_core_ready = of_bool (bit low 0)\<rparr>"
proof -
  have "\<not> bit (txcore_word0 completed posted aired requested low) 3"
    using assms(5) by (simp add: txcore_word0_def bit_simps)
  then have "txcore_word0 completed posted aired requested low AND 8 = 0"
    using and_exp_eq_0_iff_not_bit [of "txcore_word0 completed posted aired requested low" 3] by simp
  then show ?thesis
    unfolding parse_txcore_stat_def
    by (simp only: txcore_word0_fields [OF assms(1-4)] txcore_word1_fields txcore_word3_fields simp_thms if_False)
qed
theorem txcore_words_parsed_witness:
  "tx_usrbuf_completed (parse_txcore_stat (txcore_word0 0x2a 0x15 7 9 3) (txcore_word1 1 2 3 4) 5 (txcore_word3 6 7 True False)) = 0x2a"
  using txcore_words_parsed [of "0x2a" "0x15" 7 9 3 1 2 3 4 5 6 7 True False] by simp

section \<open>Receive\<close>

text \<open>Buffers taken one after the other, all accepted.\<close>

fun recv_all :: "recv_wait list \<Rightarrow> u32 \<Rightarrow> stream_dma \<Rightarrow> (int \<times> stream_dma \<times> recv_nfo list) io" where
  "recv_all [] timeout s = (\<lambda>env tr. ((0, s, []), tr))"
| "recv_all (w # ws) timeout s = (\<lambda>env tr. case stream_recv w 0 timeout s env tr of
     ((e, s', Some n, evs), tr') \<Rightarrow> (case recv_all ws timeout s' env tr' of ((e', s'', ns), tr'') \<Rightarrow> ((e', s'', n # ns), tr''))
   | ((e, s', None, evs), tr') \<Rightarrow> ((e, s', []), tr'))"

definition lost_upto :: "recv_wait list \<Rightarrow> nat \<Rightarrow> nat" where
  "lost_upto ws i = (\<Sum>w\<leftarrow>take i ws. unat (oob_lost (rw_oob0 w)))"

lemma recv_account_ts:
  assumes "unat (sd_pkt_symbs s) * unat (oob_lost (rw_oob0 w)) < 2 ^ 32" and "recv_account w s = (s', n)"
  shows "nfo_fsymtime n = sd_r_ts s + of_nat (unat (sd_pkt_symbs s) * unat (oob_lost (rw_oob0 w)))"
    and "sd_r_ts s' = nfo_fsymtime n + of_nat (unat (sd_pkt_symbs s))"
    and "sd_pkt_symbs s' = sd_pkt_symbs s"
    and "ss_fe_drop (sd_stats s') = ss_fe_drop (sd_stats s) + of_nat (unat (oob_lost (rw_oob0 w)))"
    and "nfo_totlost n = ucast (ss_fe_drop (sd_stats s'))"
proof -
  have "unat (sd_pkt_symbs s * oob_lost (rw_oob0 w)) = unat (sd_pkt_symbs s) * unat (oob_lost (rw_oob0 w))"
    using assms(1) by (intro unat_mult_lem [THEN iffD1]) simp
  then have u: "ucast (sd_pkt_symbs s * oob_lost (rw_oob0 w)) = (of_nat (unat (sd_pkt_symbs s) * unat (oob_lost (rw_oob0 w))) :: u64)"
    by (metis of_nat_unat)
  have v: "ucast x = (of_nat (unat x) :: u64)" for x :: u32 by simp
  show "nfo_fsymtime n = sd_r_ts s + of_nat (unat (sd_pkt_symbs s) * unat (oob_lost (rw_oob0 w)))"
    using assms(2) u by (auto simp: recv_account_def Let_def simp del: of_nat_mult)
  show "sd_r_ts s' = nfo_fsymtime n + of_nat (unat (sd_pkt_symbs s))" "sd_pkt_symbs s' = sd_pkt_symbs s"
    "nfo_totlost n = ucast (ss_fe_drop (sd_stats s'))"
    using assms(2) by (auto simp: recv_account_def Let_def)
  show "ss_fe_drop (sd_stats s') = ss_fe_drop (sd_stats s) + of_nat (unat (oob_lost (rw_oob0 w)))"
    using assms(2) by (auto simp: recv_account_def Let_def)
qed

lemma stream_recv_cases:
  "stream_recv w 0 timeout s env tr = ((e, s', no, evs), tr') \<Longrightarrow>
   case no of None \<Rightarrow> e \<noteq> 0 | Some n \<Rightarrow> e = 0 \<and> recv_account w s = (s', n)"
  by (auto simp: stream_recv_def Let_def iosuccess ioerror errno_defs split: prod.splits sum.splits if_splits)

lemma recv_all_Cons:
  assumes "recv_all (w # ws) timeout s env tr = ((0, s', ns), tr')"
  obtains s1 n ns1 tr1 where "recv_account w s = (s1, n)" "recv_all ws timeout s1 env tr1 = ((0, s', ns1), tr')" "ns = n # ns1"
proof -
  obtain e s1 no evs tr1 where r: "stream_recv w 0 timeout s env tr = ((e, s1, no, evs), tr1)"
    by (cases "stream_recv w 0 timeout s env tr") auto
  note stream_recv_cases [OF r]
  with r assms that show thesis by (auto split: option.splits prod.splits)
qed

lemma lost_upto_Cons: "lost_upto (w # ws) (Suc i) = unat (oob_lost (rw_oob0 w)) + lost_upto ws i"
  by (simp add: lost_upto_def)

text \<open>C28: The time stamp of every received buffer counts all samples before it, the ones that were
  delivered and the ones in packets the hardware reports as lost, and the total of lost packets is
  kept.\<close>

theorem recv_timestamps:
  assumes "\<forall>w\<in>set ws. unat (sd_pkt_symbs s) * unat (oob_lost (rw_oob0 w)) < 2 ^ 32"
    and "recv_all ws timeout s env tr = ((0, s', ns), tr')"
  shows "length ns = length ws \<and>
    (\<forall>i<length ws. nfo_fsymtime (ns ! i) = sd_r_ts s + of_nat (unat (sd_pkt_symbs s) * (i + lost_upto ws (i + 1)))) \<and>
    ss_fe_drop (sd_stats s') = ss_fe_drop (sd_stats s) + of_nat (lost_upto ws (length ws))"
  using assms
proof (induction ws arbitrary: s tr ns)
  case (Cons w ws)
  obtain s1 n ns1 tr1 where r: "recv_account w s = (s1, n)" "recv_all ws timeout s1 env tr1 = ((0, s', ns1), tr')" "ns = n # ns1"
    using recv_all_Cons [OF Cons.prems(2)] .
  let ?P = "unat (sd_pkt_symbs s)" and ?l = "unat (oob_lost (rw_oob0 w))"
  note a = recv_account_ts [OF _ r(1)]
  have p: "sd_pkt_symbs s1 = sd_pkt_symbs s" using a(3) Cons.prems(1) by simp
  have ih: "length ns1 = length ws \<and>
    (\<forall>i<length ws. nfo_fsymtime (ns1 ! i) = sd_r_ts s1 + of_nat (?P * (i + lost_upto ws (i + 1)))) \<and>
    ss_fe_drop (sd_stats s') = ss_fe_drop (sd_stats s1) + of_nat (lost_upto ws (length ws))"
    using Cons.IH [OF _ r(2)] Cons.prems(1) by (simp add: p)
  have t: "nfo_fsymtime n = sd_r_ts s + of_nat (?P * ?l)" "sd_r_ts s1 = nfo_fsymtime n + of_nat ?P"
    "ss_fe_drop (sd_stats s1) = ss_fe_drop (sd_stats s) + of_nat ?l"
    using a(1,2,4) Cons.prems(1) by simp_all
  have "nfo_fsymtime (ns ! i) = sd_r_ts s + of_nat (?P * (i + lost_upto (w # ws) (i + 1)))" if "i < length (w # ws)" for i
  proof (cases i)
    case 0
    then show ?thesis using t by (simp add: r(3) lost_upto_def)
  next
    case (Suc j)
    then have "nfo_fsymtime (ns ! i) = sd_r_ts s1 + of_nat (?P * (j + lost_upto ws (j + 1)))" using ih that r(3) by simp
    also have "\<dots> = sd_r_ts s + of_nat (?P * ?l + ?P + ?P * (j + lost_upto ws (j + 1)))" unfolding t by (simp only: of_nat_add add.assoc)
    also have "?P * ?l + ?P + ?P * (j + lost_upto ws (j + 1)) = ?P * (i + lost_upto (w # ws) (i + 1))"
      unfolding Suc lost_upto_Cons Suc_eq_plus1 [symmetric] by (simp add: algebra_simps)
    finally show ?thesis .
  qed
  with ih r(3) t show ?case by (simp add: lost_upto_Cons)
qed (simp add: lost_upto_def)

definition rx0 :: stream_dma where
  "rx0 = \<lparr>sd_type = USDR_ZCPY_RX, sd_channels = 1, sd_hwchannels = 1, sd_ll_streamo = 0, sd_cnf_base = 16, sd_sync_base = 0,
     sd_cnfrd_base = 0, sd_pkt_symbs = 1000, sd_pkt_bytes = 4000, sd_host_bytes = 4000, sd_wire_bps = 32,
     sd_tf_data = Tr_dummy, sd_tf_size = tr_dummy_sz, sd_rcnt = 0, sd_r_ts = 0, sd_burst_mask = 0x80000000,
     sd_stats = \<lparr>ss_wirebytes = 0, ss_symbols = 0, ss_pktok = 0, ss_fe_drop = 0, ss_dma_drop = 0\<rparr>, sd_fd = - 1,
     sd_burst_count = 1, sd_burst_align_bytes = 8, sd_fe_old_tx_mute = 0, sd_fe_old_tx_swap = 0, sd_fe_chans = 1,
     sd_fe_complex = True, sd_srx4 = fe4, sd_cstx4 = (0, 0, 0)\<rparr>"

definition got :: "u64 \<Rightarrow> recv_wait" where
  "got lost = \<lparr>rw_res = 0, rw_oob0 = lost, rw_oob1 = 0, rw_oob_size = 16\<rparr>"

theorem recv_timestamps_witness:
  "map nfo_fsymtime (snd (snd (fst (recv_all [got 0, got 3, got 0] 100 rx0 accept_all [])))) = [0, 4000, 5000]"
proof -
  obtain s' ns tr' where r: "recv_all [got 0, got 3, got 0] 100 rx0 accept_all [] = ((0, s', ns), tr')"
    by (simp add: stream_recv_def got_def rx0_def recv_account_def Let_def oob_lost_def)
  have l: "lost_upto [got 0, got 3, got 0] 1 = 0" "lost_upto [got 0, got 3, got 0] 2 = 3" "lost_upto [got 0, got 3, got 0] 3 = 3"
    "lost_upto [got 0, got 3, got 0] (Suc (Suc 0)) = 3"
    by (simp_all add: lost_upto_def got_def oob_lost_def)
  have "\<forall>w\<in>set [got 0, got 3, got 0]. unat (sd_pkt_symbs rx0) * unat (oob_lost (rw_oob0 w)) < 2 ^ 32"
    by (simp add: rx0_def got_def oob_lost_def)
  from recv_timestamps [OF this r]
  have n: "length ns = 3" "\<forall>i<3. nfo_fsymtime (ns ! i) = sd_r_ts rx0 + of_nat (unat (sd_pkt_symbs rx0) * (i + lost_upto [got 0, got 3, got 0] (i + 1)))"
    by simp_all
  have "ns ! 0 = ns ! 0 \<and> nfo_fsymtime (ns ! 0) = 0 \<and> nfo_fsymtime (ns ! 1) = 4000 \<and> nfo_fsymtime (ns ! 2) = 5000"
    using n(2) [rule_format, of 0] n(2) [rule_format, of 1] n(2) [rule_format, of 2] l by (simp add: rx0_def)
  with n(1) have "map nfo_fsymtime ns = [0, 4000, 5000]"
    by (auto simp: list_eq_iff_nth_eq less_Suc_eq numeral_3_eq_3 numeral_2_eq_2)
  with r show ?thesis by simp
qed

text \<open>The product of lost packets and packet size is taken in 32 bits: after 0x10000 lost packets
  of 0x10000 samples the time stamp has not moved.\<close>

theorem recv_lost_wraps:
  "nfo_fsymtime (snd (recv_account (got 0x10000) (rx0\<lparr>sd_pkt_symbs := 0x10000\<rparr>))) = 0"
  by (simp add: recv_account_def got_def rx0_def oob_lost_def Let_def)

end
