(* ===== verification/StreamSend.thy ===== *)
theory StreamSend
  imports StreamDma
begin

text \<open>
  Transmitting: the split into bursts, the cut of a long request into packets, the call-back that
  turns a committed packet into a descriptor, and the control flags of the simple core. The packet
  plan of a request is stated with \<open>chunks\<close>, \<open>chunk_n\<close> and \<open>chunk_ts\<close>.
\<close>

lemma unat_ucast64: "unat (ucast (x :: u32) :: u64) = unat x"
proof -
  have "unat x < 2 ^ 64" by (rule order_less_le_trans [OF unsigned_less]) simp
  then show ?thesis by (simp add: unsigned_ucast_eq take_bit_nat_eq_self)
qed

section \<open>Transmit\<close>

definition burst_split_ok :: "nat \<Rightarrow> nat \<Rightarrow> nat \<Rightarrow> bool" where
  "burst_split_ok n b lg \<longleftrightarrow> 2 ^ lg dvd n \<and> n div 2 ^ lg \<le> b"

lemma unat_push1: "lg < 32 \<Longrightarrow> unat (push_bit lg 1 :: u32) = 2 ^ lg"
  by (simp add: push_bit_eq_mult unat_exp32)

lemma extx_burstup_from_spec:
  "lg + k \<le> 32 \<Longrightarrow>
   (case extx_burstup_from k lg n b of
      None \<Rightarrow> \<forall>j. lg \<le> j \<and> j < lg + k \<longrightarrow> \<not> burst_split_ok (unat n) (unat b) j
    | Some r \<Rightarrow> lg \<le> r \<and> r < lg + k \<and> burst_split_ok (unat n) (unat b) r \<and>
        (\<forall>j. lg \<le> j \<and> j < r \<longrightarrow> \<not> burst_split_ok (unat n) (unat b) j))"
proof (induction k lg n b rule: extx_burstup_from.induct)
  case (2 k lg n b)
  have c: "(n div push_bit lg 1 \<le> b \<and> n mod push_bit lg 1 = 0) = burst_split_ok (unat n) (unat b) lg"
    using 2(2) by (simp only: burst_split_ok_def word_le_nat_alt unat_div unat_push1 word_unat_eq_iff unat_mod unat_0 dvd_eq_mod_eq_0 conj_commute)
  show ?case
  proof (cases "burst_split_ok (unat n) (unat b) lg")
    case True
    then show ?thesis unfolding extx_burstup_from.simps c by auto
  next
    case False
    then have s: "\<forall>j. lg \<le> j \<and> j < x \<longrightarrow> \<not> burst_split_ok (unat n) (unat b) j"
      if "\<forall>j. lg + 1 \<le> j \<and> j < x \<longrightarrow> \<not> burst_split_ok (unat n) (unat b) j" for x
      using that by (metis Suc_eq_plus1 Suc_leI le_neq_implies_less)
    have "\<not> (n div push_bit lg 1 \<le> b \<and> n mod push_bit lg 1 = 0)" using c False by simp
    from 2(1) [OF this] 2(2) s False show ?thesis unfolding extx_burstup_from.simps c
      by (auto split: option.splits)
  qed
qed auto

lemma extx_burstup_spec:
  "(extx_burstup n b = Inr lg \<longleftrightarrow> lg < 4 \<and> burst_split_ok (unat n) (unat b) lg \<and> (\<forall>j<lg. \<not> burst_split_ok (unat n) (unat b) j)) \<and>
   (extx_burstup n b = Inl (- EINVAL) \<longleftrightarrow> (\<forall>j<4. \<not> burst_split_ok (unat n) (unat b) j))"
proof -
  have "case extx_burstup_from 4 0 n b of
      None \<Rightarrow> \<forall>j<4. \<not> burst_split_ok (unat n) (unat b) j
    | Some r \<Rightarrow> r < 4 \<and> burst_split_ok (unat n) (unat b) r \<and> (\<forall>j<r. \<not> burst_split_ok (unat n) (unat b) j)"
    using extx_burstup_from_spec [of 0 4 n b] by (auto split: option.splits)
  then show ?thesis unfolding extx_burstup_def by (auto split: option.splits) (metis linorder_neqE_nat)+
qed


text \<open>C30: A request is split into the smallest number of bursts, out of 1, 2, 4 and 8, that divides it
  and makes each fit; it is rejected exactly if there is none.\<close>

theorem extx_burstup_least:
  "(extx_burstup n b = Inr lg \<longleftrightarrow> lg < 4 \<and> burst_split_ok (unat n) (unat b) lg \<and> (\<forall>j<lg. \<not> burst_split_ok (unat n) (unat b) j)) \<and>
   (extx_burstup n b = Inl (- EINVAL) \<longleftrightarrow> (\<forall>j<4. \<not> burst_split_ok (unat n) (unat b) j))"
  by (rule extx_burstup_spec)

theorem extx_burstup_least_witness:
  "extx_burstup 3000 750 = Inr 2 \<and> extx_burstup 9001 4000 = Inl (- EINVAL)"
proof -
  have c: "j = 0 \<or> j = 1 \<or> j = 2 \<or> j = 3" if "j < 4" for j :: nat using that by linarith
  have d: "j = 0 \<or> j = 1" if "j < 2" for j :: nat using that by linarith
  have "burst_split_ok 3000 750 2" "\<forall>j<2. \<not> burst_split_ok 3000 750 j" "\<forall>j<4. \<not> burst_split_ok 9001 4000 j"
    by (auto simp: burst_split_ok_def dest!: c d)
  then show ?thesis using extx_burstup_least [of 3000 750 2] extx_burstup_least [of 9001 4000] by simp
qed

text \<open>The \<open>i\<close>-th part of \<open>n\<close> samples cut into parts of \<open>B\<close>, and its time stamp.\<close>

definition chunk_n :: "nat \<Rightarrow> nat \<Rightarrow> nat \<Rightarrow> nat" where
  "chunk_n n B i = min B (n - i * B)"

definition chunks :: "nat \<Rightarrow> nat \<Rightarrow> nat" where
  "chunks n B = (n + B - 1) div B"

definition chunk_ts :: "u64 \<Rightarrow> nat \<Rightarrow> nat \<Rightarrow> u64" where
  "chunk_ts ts B i = (if ts < 0x7fffffffffffffff then ts + of_nat (i * B) else ts)"

definition wire_bytes :: "stream_dma \<Rightarrow> u32 \<Rightarrow> u32" where
  "wire_bytes s ns = sd_channels s * ns * sd_wire_bps s div 8"

definition packet_evs :: "u32 \<Rightarrow> stream_dma \<Rightarrow> nat list \<Rightarrow> u32 \<Rightarrow> u64 \<Rightarrow> dma_ev list" where
  "packet_evs timeout s bufs ns ts =
    [SendDmaGet timeout, Transform bufs (sd_tf_size s (wire_bytes s ns) True) 0 (wire_bytes s ns),
     SendDmaCommit (wire_bytes s ns) ts 0 (ucast (wire_bytes s ns))]"

definition driver_accepts :: "dma_answers \<Rightarrow> bool" where
  "driver_accepts dma \<longleftrightarrow> (\<forall>k. 0 \<le> sg_res (da_get dma k) \<and> da_commit dma k = 0)"

lemma chunks_rec: "0 < B \<Longrightarrow> 0 < n \<Longrightarrow> chunks n B = Suc (chunks (n - B) B)"
proof (cases "n \<le> B")
  case True
  assume "0 < B" "0 < n"
  with True have "(n + B - 1) div B = 1" by (intro div_nat_eqI) auto
  with True \<open>0 < B\<close> show ?thesis by (simp add: chunks_def)
next
  case False
  assume "0 < B"
  then have e: "n + B - 1 = (n - B + B - 1) + B" using False by simp
  show ?thesis unfolding chunks_def by (subst e, subst div_add_self2) (use \<open>0 < B\<close> in simp_all)
qed

text \<open>Only the statistics and the packet counter differ.\<close>

definition same_setup :: "stream_dma \<Rightarrow> stream_dma \<Rightarrow> bool" where
  "same_setup s s' \<longleftrightarrow> s' = s\<lparr>sd_stats := sd_stats s', sd_rcnt := sd_rcnt s'\<rparr>"

lemma same_setup_trans:
  assumes "same_setup s s1" and "same_setup s1 s2" shows "same_setup s s2"
proof -
  have "s2 = s1\<lparr>sd_stats := sd_stats s2, sd_rcnt := sd_rcnt s2\<rparr>" using assms(2) unfolding same_setup_def .
  also have "s1 = s\<lparr>sd_stats := sd_stats s1, sd_rcnt := sd_rcnt s1\<rparr>" using assms(1) unfolding same_setup_def .
  finally have e: "s2 = s\<lparr>sd_stats := sd_stats s1, sd_rcnt := sd_rcnt s1\<rparr>\<lparr>sd_stats := sd_stats s2, sd_rcnt := sd_rcnt s2\<rparr>" .
  have "s\<lparr>sd_stats := a, sd_rcnt := b\<rparr>\<lparr>sd_stats := c, sd_rcnt := d\<rparr> = s\<lparr>sd_stats := c, sd_rcnt := d\<rparr>" for a b c d by simp
  from trans [OF e this] show ?thesis unfolding same_setup_def .
qed

lemma send_account_frame:
  assumes "send_account g wt n s = (s', st)"
  shows "\<exists>x. s' = s\<lparr>sd_stats := x\<rparr>"
proof (cases "sg_stat g")
  case (fields w0 w1 w2 w3)
  with assms show ?thesis
    unfolding send_account_def Let_def by (cases "sg_stat_sz g > 0") (simp_all, blast+)
qed

lemma send_packet_one:
  assumes "driver_accepts dma"
  shows "\<exists>s' st. same_setup s s' \<and> send_packet dma k timeout s bufs 0 ns ts env tr = ((0, s', st, packet_evs timeout s bufs ns ts), tr)"
proof -
  obtain s1 st where a: "send_account (da_get dma k) (wire_bytes s ns) ns s = (s1, st)" by fastforce
  let ?s = "s1\<lparr>sd_rcnt := sd_rcnt s1 + 1\<rparr>"
  have "?s = s\<lparr>sd_stats := sd_stats ?s, sd_rcnt := sd_rcnt ?s\<rparr>"
    using send_account_frame [OF a] by auto
  moreover from assms have "\<not> sg_res (da_get dma k) < 0" "da_commit dma k = 0" by (simp_all add: driver_accepts_def not_less)
  with a have "send_packet dma k timeout s bufs 0 ns ts env tr = ((0, ?s, st, packet_evs timeout s bufs ns ts), tr)"
    by (simp add: send_packet_def send_transforms_def packet_evs_def Let_def flip: wire_bytes_def)
  ultimately show ?thesis unfolding same_setup_def by blast
qed

lemma packet_evs_frame: "same_setup s s' \<Longrightarrow> packet_evs timeout s' bufs ns ts = packet_evs timeout s bufs ns ts"
  unfolding same_setup_def by (erule ssubst) (simp add: packet_evs_def wire_bytes_def)

lemma chunk_ts_next:
  assumes "0x7fffffffffffffff \<le> ts \<or> unat ts + n < 0x7fffffffffffffff" and "unat ns \<le> n"
  shows "chunk_ts (next_ts ts ns) B i = (if 0x7fffffffffffffff \<le> ts then ts else ts + ucast ns + of_nat (i * B))"
    and "0x7fffffffffffffff \<le> next_ts ts ns \<or> unat (next_ts ts ns) + (n - unat ns) < 0x7fffffffffffffff"
proof -
  have "unat (ts + ucast ns) = unat ts + unat ns" if "unat ts + n < 0x7fffffffffffffff"
    using that assms(2) unat_add_lem [of ts "ucast ns"] by (simp add: unat_ucast64)
  then show "chunk_ts (next_ts ts ns) B i = (if 0x7fffffffffffffff \<le> ts then ts else ts + ucast ns + of_nat (i * B))"
    "0x7fffffffffffffff \<le> next_ts ts ns \<or> unat (next_ts ts ns) + (n - unat ns) < 0x7fffffffffffffff"
    using assms by (auto simp: chunk_ts_def next_ts_def word_less_nat_alt word_le_nat_alt not_less not_le)
qed


lemma send_chunks_spec:
  assumes "driver_accepts dma" and "0 < brst"
  shows "0 < n \<Longrightarrow> 0x7fffffffffffffff \<le> ts \<or> unat ts + unat n < 0x7fffffffffffffff \<Longrightarrow>
   \<exists>s' st. same_setup s s' \<and> send_chunks dma timeout brst off k s bufs n ts env tr = Some ((0, s', st,
     concat (map (\<lambda>i. packet_evs timeout s (map (\<lambda>p. p + i * off) bufs) (of_nat (chunk_n (unat n) (unat brst) i))
       (chunk_ts ts (unat brst) i)) [0..<chunks (unat n) (unat brst)])), tr)"
proof (induction "unat n" arbitrary: k s bufs n ts rule: less_induct)
  case less
  let ?ns = "if n < brst then n else brst"
  have ns: "unat ?ns = min (unat brst) (unat n)" "0 < unat ?ns" using less.prems(1) assms(2) by (auto simp: word_less_nat_alt)
  then have d: "unat (n - ?ns) = unat n - unat brst" by (auto simp: unat_sub word_less_nat_alt word_le_nat_alt split: if_splits)
  obtain s1 st where s1: "same_setup s s1" and p: "send_packet dma k timeout s bufs 0 ?ns ts env tr =
    ((0, s1, st, packet_evs timeout s bufs ?ns ts), tr)"
    using send_packet_one [OF assms(1)] by blast
  have cr: "chunks (unat n) (unat brst) = Suc (chunks (unat n - unat brst) (unat brst))"
    using assms(2) less.prems(1) by (intro chunks_rec) (simp_all add: word_less_nat_alt)
  have c0: "of_nat (chunk_n (unat n) (unat brst) 0) = ?ns" "chunk_ts ts (unat brst) 0 = ts"
    using ns(1) by (simp_all add: chunk_n_def chunk_ts_def word_unat_eq_iff min_def)
  show ?case
  proof (cases "n - ?ns = 0")
    case True
    with d have "chunks (unat n - unat brst) (unat brst) = 0" using assms(2) by (simp add: chunks_def word_less_nat_alt)
    with True p cr c0 s1 show ?thesis by (intro exI [of _ s1] exI [of _ st], subst send_chunks.simps) (simp add: Let_def)
  next
    case False
    have "unat (n - ?ns) \<noteq> 0" using False unfolding unsigned_eq_0_iff .
    moreover have "0 < unat brst" using assms(2) by (simp add: word_less_nat_alt)
    ultimately have n': "unat (n - ?ns) < unat n" "0 < n - ?ns" using d False by (simp_all only: word_gt_0)
    have le: "unat ?ns \<le> unat n" using ns by simp
    note T = chunk_ts_next [OF less.prems(2) le]
    have nb: "?ns = brst" using False by (simp split: if_splits)
    have cs: "chunk_n (unat n - unat brst) (unat brst) i = chunk_n (unat n) (unat brst) (Suc i)" for i
      by (simp add: chunk_n_def algebra_simps)
    have ct: "chunk_ts (next_ts ts ?ns) (unat brst) i = chunk_ts ts (unat brst) (Suc i)" for i
      unfolding T(1) by (auto simp: chunk_ts_def nb not_le algebra_simps simp del: of_nat_mult)
    have "unat (n - ?ns) = unat n - unat ?ns" using d ns(1) by simp
    then have pre: "0x7fffffffffffffff \<le> next_ts ts ?ns \<or> unat (next_ts ts ?ns) + unat (n - ?ns) < 0x7fffffffffffffff"
      using T(2) by simp
    obtain s2 st' where s2: "same_setup s1 s2" and c: "send_chunks dma timeout brst off (k + 1) s1 (map (\<lambda>p. p + off) bufs)
       (n - ?ns) (next_ts ts ?ns) env tr = Some ((0, s2, st',
       concat (map (\<lambda>i. packet_evs timeout s (map (\<lambda>p. p + Suc i * off) bufs) (of_nat (chunk_n (unat n) (unat brst) (Suc i)))
         (chunk_ts ts (unat brst) (Suc i))) [0..<chunks (unat n - unat brst) (unat brst)])), tr)"
      using less.hyps [OF n' pre, of s1 "k + 1" "map (\<lambda>p. p + off) bufs"]
      by (auto simp: d cs ct comp_def algebra_simps packet_evs_frame [OF s1])
    have "[0..<chunks (unat n) (unat brst)] = 0 # map Suc [0..<chunks (unat n - unat brst) (unat brst)]"
      unfolding cr by (simp add: upt_conv_Cons map_Suc_upt del: upt_Suc)
    with False p c c0 same_setup_trans [OF s1 s2] show ?thesis
      by (intro exI [of _ s2] exI [of _ "if st' = None then st else st'"], subst send_chunks.simps) (simp add: Let_def comp_def)
  qed
qed

lemma chunk_n_full: "0 < B \<Longrightarrow> i + 1 < chunks n B \<Longrightarrow> chunk_n n B i = B"
proof -
  assume "0 < B" "i + 1 < chunks n B"
  then have "i + 2 \<le> (n + B - 1) div B" by (simp add: chunks_def)
  with \<open>0 < B\<close> have "(i + 2) * B \<le> n + B - 1" by (simp only: less_eq_div_iff_mult_less_eq)
  then show ?thesis by (simp add: chunk_n_def algebra_simps)
qed

lemma chunk_n_sum: "0 < B \<Longrightarrow> (\<Sum>i<chunks n B. chunk_n n B i) = n"
proof (induction n rule: less_induct)
  case (less n)
  show ?case
  proof (cases "n = 0")
    case True
    then show ?thesis using less.prems by (simp add: chunks_def)
  next
    case False
    have "chunk_n n B (Suc i) = chunk_n (n - B) B i" for i by (simp add: chunk_n_def algebra_simps)
    then have "(\<Sum>i<chunks n B. chunk_n n B i) = chunk_n n B 0 + (n - B)"
      using False less by (simp add: chunks_rec sum.lessThan_Suc_shift del: sum.lessThan_Suc)
    then show ?thesis by (simp add: chunk_n_def)
  qed
qed

text \<open>C1: On a stream of one channel, over a core other than the extended transmit core and a driver that takes every packet, a
  request that is longer than a burst is sent by as many packets as it takes (two channels are cut wrongly, see
  \<open>send_cuts_overlap\<close>): each starts in the host buffer where the one before ended, all samples are sent, and the
  time stamps advance by the samples sent before (the stamp that stands for no time is repeated).\<close>

theorem send_cuts_stream:
  assumes "sd_type s = USDR_ZCPY_TX" and "sd_burst_count s \<noteq> 0" and "cfg_fecore_id (sd_srx4 s) \<noteq> CORE_EXFETX_DMA32_R0"
    and "sd_channels s = 1" and "brst = sd_pkt_symbs s div sd_burst_count s" and "0 < brst" and "brst < n"
    and "0x7fffffffffffffff \<le> ts \<or> unat ts + unat n < 0x7fffffffffffffff" and "driver_accepts dma"
    and "parts = chunks (unat n) (unat brst)" and "part = chunk_n (unat n) (unat brst)"
    and "H = unat (sd_tf_size s (wire_bytes s brst) True)"
  shows "(\<exists>s' st. same_setup s s' \<and> stream_send dma timeout s [p] n ts env tr = Some ((0, s', st,
      concat (map (\<lambda>i. packet_evs timeout s [p + i * H] (of_nat (part i)) (chunk_ts ts (unat brst) i)) [0..<parts])), tr)) \<and>
    (\<forall>i. i + 1 < parts \<longrightarrow> unat (sd_tf_size s (wire_bytes s (of_nat (part i))) True) = H) \<and>
    (\<Sum>i<parts. part i) = unat n"
proof -
  have b: "0 < unat brst" "0 < n" using assms(6,7) by (auto simp: word_less_nat_alt)
  have H: "unat (sd_tf_size s (brst * sd_wire_bps s div 8) True div sd_channels s) = H"
    using assms(4,12) by (simp add: wire_bytes_def)
  obtain s' st where "same_setup s s'" "send_chunks dma timeout brst H 0 s [p] n ts env tr = Some ((0, s', st,
      concat (map (\<lambda>i. packet_evs timeout s [p + i * H] (of_nat (part i)) (chunk_ts ts (unat brst) i)) [0..<parts])), tr)"
    using send_chunks_spec [OF assms(9,6) b(2) assms(8), of s timeout H 0 "[p]" env tr] assms(10,11) by auto
  moreover have "stream_send dma timeout s [p] n ts env tr = send_chunks dma timeout brst H 0 s [p] n ts env tr"
    unfolding stream_send_def Let_def H [symmetric] using assms by simp
  ultimately show ?thesis
    using assms(10-12) b(1) by (auto simp: chunk_n_full chunk_n_sum)
qed

definition tx1 :: stream_dma where
  "tx1 = \<lparr>sd_type = USDR_ZCPY_TX, sd_channels = 1, sd_hwchannels = 1, sd_ll_streamo = 0, sd_cnf_base = 16, sd_sync_base = 20,
     sd_cnfrd_base = 28, sd_pkt_symbs = 4, sd_pkt_bytes = 16, sd_host_bytes = 16, sd_wire_bps = 32,
     sd_tf_data = Tr_dummy, sd_tf_size = tr_dummy_sz, sd_rcnt = 0, sd_r_ts = 0, sd_burst_mask = 0,
     sd_stats = \<lparr>ss_wirebytes = 0, ss_symbols = 0, ss_pktok = 0, ss_fe_drop = 0, ss_dma_drop = 0\<rparr>, sd_fd = - 1,
     sd_burst_count = 1, sd_burst_align_bytes = 1, sd_fe_old_tx_mute = 2, sd_fe_old_tx_swap = 0, sd_fe_chans = 1,
     sd_fe_complex = True, sd_srx4 = fe4\<lparr>cfg_fecore_id := CORE_SFETX_DMA32_R0\<rparr>, sd_cstx4 = (0, 0, 0)\<rparr>"

lemma tx1_sel [simp]:
  "sd_type tx1 = USDR_ZCPY_TX" "sd_channels tx1 = 1" "sd_hwchannels tx1 = 1" "sd_pkt_symbs tx1 = 4" "sd_wire_bps tx1 = 32"
  "sd_tf_size tx1 = tr_dummy_sz" "sd_burst_count tx1 = 1" "cfg_fecore_id (sd_srx4 tx1) = 1" "sd_cnf_base tx1 = 16" "sd_sync_base tx1 = 20"
  "sd_fe_chans tx1 = 1" "sd_fe_old_tx_mute tx1 = 2" "sd_fe_old_tx_swap tx1 = 0" "sd_burst_align_bytes tx1 = 1" "sd_cstx4 tx1 = (0, 0, 0)"
  by (simp_all add: tx1_def core_defs)

definition all_accepted :: dma_answers where
  "all_accepted = \<lparr>da_get = (\<lambda>k. \<lparr>sg_res = 0, sg_stat = (0, 0, 0, 0), sg_stat_sz = 0\<rparr>), da_commit = (\<lambda>k. 0)\<rparr>"

lemma upt_two: "[0..<2] = [0, Suc 0]"
  by (simp add: upt_rec)

lemma driver_accepts_all: "driver_accepts all_accepted"
  by (simp add: driver_accepts_def all_accepted_def)

theorem send_cuts_stream_witness:
  "\<exists>s' st. stream_send all_accepted 9 tx1 [0x1000] 6 100 accept_all [] = Some ((0, s', st,
     [SendDmaGet 9, Transform [0x1000] 16 0 16, SendDmaCommit 16 100 0 16,
      SendDmaGet 9, Transform [0x1010] 8 0 8, SendDmaCommit 8 104 0 8]), [])"
proof -
  have e: "tx1 = tx1" "sd_type tx1 = USDR_ZCPY_TX" "sd_burst_count tx1 \<noteq> 0" "cfg_fecore_id (sd_srx4 tx1) \<noteq> CORE_EXFETX_DMA32_R0"
    "sd_channels tx1 = 1" "(4 :: u32) = sd_pkt_symbs tx1 div sd_burst_count tx1" "0 < (4 :: u32)" "4 < (6 :: u32)"
    "0x7fffffffffffffff \<le> (100 :: u64) \<or> unat (100 :: u64) + unat (6 :: u32) < 0x7fffffffffffffff"
    by (simp_all add: core_defs)
  from send_cuts_stream [OF e(2-9) driver_accepts_all refl refl refl, of 9 "0x1000" accept_all "[]"]
  show ?thesis
    by (simp add: chunks_def chunk_n_def chunk_ts_def packet_evs_def wire_bytes_def tr_dummy_sz_def upt_two) blast
qed

text \<open>With two channels the second packet starts in the middle of the first: the advance of
  the host pointers is computed from one channel's share of the packet and divided by the channels
  once more.\<close>

theorem send_cuts_overlap:
  "\<exists>s' st. stream_send all_accepted 9 (tx1\<lparr>sd_channels := 2, sd_hwchannels := 2\<rparr>) [0x1000, 0x2000] 8 100 accept_all [] =
     Some ((0, s', st,
     [SendDmaGet 9, Transform [0x1000, 0x2000] 32 0 32, SendDmaCommit 32 100 0 32,
      SendDmaGet 9, Transform [0x1008, 0x2008] 32 0 32, SendDmaCommit 32 104 0 32]), [])"
proof -
  let ?s = "tx1\<lparr>sd_channels := 2, sd_hwchannels := 2\<rparr>"
  have "stream_send all_accepted 9 ?s [0x1000, 0x2000] 8 100 accept_all [] =
    send_chunks all_accepted 9 4 8 0 ?s [0x1000, 0x2000] 8 100 accept_all []"
    by (simp add: stream_send_def core_defs tr_dummy_sz_def)
  moreover have "\<exists>s' st. same_setup ?s s' \<and> send_chunks all_accepted 9 4 8 0 ?s [0x1000, 0x2000] 8 100 accept_all [] =
    Some ((0, s', st, concat (map (\<lambda>i. packet_evs 9 ?s (map (\<lambda>p. p + i * 8) [0x1000, 0x2000]) (of_nat (chunk_n 8 4 i)) (chunk_ts 100 4 i))
      [0..<chunks 8 4])), [])"
    using send_chunks_spec [OF driver_accepts_all, of 4 8 100 ?s 9 8 0 "[0x1000, 0x2000]" accept_all "[]"] by simp
  ultimately show ?thesis
    by (simp add: chunks_def chunk_n_def chunk_ts_def packet_evs_def wire_bytes_def tr_dummy_sz_def upt_two) blast
qed

section \<open>The commit call-back\<close>









section \<open>Flags of the simple transmit core\<close>

lemma upd_reg:
  "sfe_tx4_upd base m w env tr = (Inr u, tr') \<Longrightarrow> tr' = tr @ [ev_wr32 base (tx_upd_cmd m w OR TX_CMD_UPD_FLAGS)]"
  by (simp add: sfe_tx4_upd_def wr32_Inr)

lemma with_code_wr: "with_code s (sfe_tx4_upd base m w) env tr = ((0, s'), tr') \<Longrightarrow>
    s' = s \<and> tr' = tr @ [ev_wr32 base (tx_upd_cmd m w OR TX_CMD_UPD_FLAGS)]"
  by (auto simp: with_code_def sfe_tx4_upd_def wr32_Inr wr32_Inl split: prod.splits sum.splits)

lemma option_set_flags:
  assumes "sd_type s = USDR_ZCPY_TX" and "cfg_fecore_id (sd_srx4 s) \<noteq> CORE_EXFETX_DMA32_R0"
    and "name = ''chmap'' \<or> name = ''mute''" and "stream_option_set name v m s env tr = ((0, s'), tr')"
    and "sd_fe_old_tx_swap s \<le> 1"
  shows "tr' = tr @ [ev_wr32 (sd_sync_base s) (tx_upd_cmd (ucast (sd_fe_old_tx_mute s')) (ucast (sd_fe_old_tx_swap s')) OR TX_CMD_UPD_FLAGS)] \<and>
    sd_type s' = USDR_ZCPY_TX \<and> sd_sync_base s' = sd_sync_base s \<and> sd_fe_old_tx_swap s' \<le> 1"
  using assms(3)
proof
  assume n: "name = ''mute''"
  let ?s = "s\<lparr>sd_fe_old_tx_mute := ucast (v AND 3)\<rparr>"
  have "with_code ?s (sfe_tx4_upd (sd_sync_base ?s) (ucast (sd_fe_old_tx_mute ?s)) (ucast (sd_fe_old_tx_swap ?s))) env tr = ((0, s'), tr')"
    using assms(1,2,4) unfolding n stream_option_set_def Let_def by simp
  from with_code_wr [OF this] show ?thesis using assms(1,5) by auto
next
  assume n: "name = ''chmap''"
  have "tx_old_chmap m s env tr = ((0, s'), tr')"
    using assms(1,2,4) unfolding n stream_option_set_def Let_def by simp
  then obtain swap where sw: "fe_tx4_swap_ab_get (sd_fe_chans s) m = Inr swap"
    by (auto simp: tx_old_chmap_def fe_tx4_swap_ab_get_def errno_defs split: if_splits)
  then have "swap = 0 \<or> swap = 1" by (auto simp: fe_tx4_swap_ab_get_def split: if_splits)
  moreover let ?s1 = "s\<lparr>sd_fe_old_tx_swap := ucast swap\<rparr>"
  let ?q = "if sd_fe_chans s = 1 \<and> sd_fe_old_tx_mute s \<noteq> 0
    then ?s1\<lparr>sd_fe_old_tx_mute := (if sd_fe_old_tx_swap ?s1 \<noteq> 0 then 1 else 2)\<rparr> else ?s1"
  have "with_code ?q (sfe_tx4_upd (sd_sync_base ?q) (ucast (sd_fe_old_tx_mute ?q)) (ucast (sd_fe_old_tx_swap ?q))) env tr = ((0, s'), tr')"
    using \<open>tx_old_chmap m s env tr = ((0, s'), tr')\<close> unfolding tx_old_chmap_def sw Let_def sum.case .
  note with_code_wr [OF this]
  moreover have "sd_sync_base ?q = sd_sync_base s" "sd_type ?q = sd_type s" "sd_fe_old_tx_swap ?q = ucast swap" by simp_all
  ultimately show ?thesis using assms(1) by (elim disjE conjE) simp_all
qed

lemma flag_bits:
  assumes "swap \<le> 1"
  shows "(tx_upd_cmd (ucast mute) (ucast swap) OR TX_CMD_UPD_FLAGS) AND 0x700 = (tx_ctl_cmd c swap mute False OR TX_CMD_START_16BIT) AND 0x700"
proof -
  have s: "swap = 0 \<or> swap = 1" using assms by (auto simp: word_le_nat_alt word_unat_eq_iff) 
  have b: "mute AND 1 \<noteq> 0 \<longleftrightarrow> bit mute 0" "mute AND 2 \<noteq> 0 \<longleftrightarrow> bit mute 1"
    using and_exp_eq_0_iff_not_bit [of mute 0] and_exp_eq_0_iff_not_bit [of mute 1] by simp_all
  have m: "(0x700 :: int) = push_bit 8 (mask 3)" by (simp add: push_bit_eq_mult mask_eq_exp_minus_1)
  have b7: "bit (0x700 :: int) n \<longleftrightarrow> 8 \<le> n \<and> n < 11" for n unfolding m bit_push_bit_iff bit_mask_iff by auto
  have "bit (tx_upd_cmd (ucast mute) (ucast swap) OR TX_CMD_UPD_FLAGS) n = bit (tx_ctl_cmd c swap mute False OR TX_CMD_START_16BIT) n"
    if "n = 8 \<or> n = 9 \<or> n = 10" for n
    using that s unfolding tx_upd_cmd_def tx_ctl_cmd_def txdma_defs b
    by (elim disjE) (simp_all add: bit_simps bitfield)
  moreover have "\<not> bit (0x700 :: u32) n" if "\<not> (n = 8 \<or> n = 9 \<or> n = 10)" for n
    using that by (simp add: bit_simps b7) linarith?
  ultimately show ?thesis by (intro bit_word_eqI) (metis bit_and_iff)
qed

text \<open>C10: The flags of the simple transmit core that the host keeps stay those of the hardware: after
  the channel map or the mute mask was set, the control register holds the new ones, and a start
  writes the same again.\<close>

theorem tx_flags_in_sync:
  assumes "sd_type s = USDR_ZCPY_TX" and "cfg_fecore_id (sd_srx4 s) \<noteq> CORE_EXFETX_DMA32_R0"
    and "name = ''chmap'' \<or> name = ''mute''" and "sd_fe_old_tx_swap s \<le> 1"
    and "stream_option_set name v m s env tr = ((0, s'), tr1)"
    and "stream_op USDR_DMS_START s' env tr1 = (Inr u, tr2)"
  shows "\<exists>es1 es2. tr1 = tr @ es1 \<and> tr2 = tr1 @ es2 \<and>
    (\<forall>regs. let set_reg = fold reg_step es1 regs (sd_sync_base s);
                start_reg = fold reg_step es2 (fold reg_step es1 regs) (sd_sync_base s)
     in set_reg = tx_upd_cmd (ucast (sd_fe_old_tx_mute s')) (ucast (sd_fe_old_tx_swap s')) OR TX_CMD_UPD_FLAGS \<and>
        start_reg AND 0x700 = set_reg AND 0x700)"
proof -
  note f = option_set_flags [OF assms(1-3,5,4)]
  let ?ctl = "tx_ctl_cmd (stream_lgchcnt (sd_fe_chans s')) (sd_fe_old_tx_swap s') (sd_fe_old_tx_mute s') False OR TX_CMD_START_16BIT"
  have "tr2 = tr1 @ [ev_wr32 (sd_sync_base s) TX_CMD_STOP, ev_wr32 (sd_sync_base s) (push_bit GP_PORT_TXDMA_CTRL_RESET_BUFS 1), ev_wr32 (sd_sync_base s) ?ctl]"
    using assms(6) f by (auto simp: stream_op_def sfe_tx4_ctl_def iosuccess)
  then show ?thesis
    using f by (intro exI conjI) (auto simp: Let_def flag_bits [symmetric] simp del: reg_step.simps)
qed

theorem tx_flags_in_sync_witness:
  "\<exists>tr2. stream_op USDR_DMS_START (tx1\<lparr>sd_fe_old_tx_mute := 3\<rparr>) accept_all
      [ev_wr32 20 (tx_upd_cmd 3 0 OR TX_CMD_UPD_FLAGS)] = (Inr (), tr2) \<and>
     fold reg_step tr2 (\<lambda>_. 0) 20 AND 0x700 = 0x300"
proof -
  have s: "stream_option_set ''mute'' 3 [] tx1 accept_all [] = ((0, tx1\<lparr>sd_fe_old_tx_mute := 3\<rparr>), [ev_wr32 20 (tx_upd_cmd 3 0 OR TX_CMD_UPD_FLAGS)])"
    by (simp add: stream_option_set_def with_code_def sfe_tx4_upd_def core_defs Let_def)
  obtain tr2 where o: "stream_op USDR_DMS_START (tx1\<lparr>sd_fe_old_tx_mute := 3\<rparr>) accept_all
      [ev_wr32 20 (tx_upd_cmd 3 0 OR TX_CMD_UPD_FLAGS)] = (Inr (), tr2)"
    by (simp add: stream_op_def sfe_tx4_ctl_def)
  from tx_flags_in_sync [OF _ _ _ _ s o] have "fold reg_step tr2 (\<lambda>_. 0) 20 AND 0x700 = (tx_upd_cmd 3 0 OR TX_CMD_UPD_FLAGS) AND 0x700"
    by (auto simp: core_defs Let_def simp del: reg_step.simps)
  moreover have "(tx_upd_cmd 3 0 OR TX_CMD_UPD_FLAGS) AND 0x700 = 0x300" by (simp add: tx_upd_cmd_def txdma_defs)
  ultimately show ?thesis using o by auto
qed
end
