(* ===== verification/Bitstream.thy ===== *)
theory Bitstream
  imports Prelude
begin

text \<open>
  FPGA images (\<open>src/lib/ipblks/xlnx_bitstream.c\<close>, \<open>xlnx_bitstream.h\<close>): the header of a
  configuration stream is scanned for the device id, the start address of the next image and the
  reconfiguration command, and an update of the flash is only allowed for a fitting image.
\<close>

section \<open>Revision numbers\<close>

definition get_xilinx_rev_h :: "u32 \<Rightarrow> u64" where
  "get_xilinx_rev_h r =
    (let day = ucast (drop_bit 27 r AND 0x1f); month = ucast (drop_bit 23 r AND 0x0f);
         year = ucast (drop_bit 17 r AND 0x3f); hour = ucast (drop_bit 12 r AND 0x1f);
         min = ucast (drop_bit 6 r AND 0x3f); sec = ucast (r AND 0x3f)
     in sec + (min + (hour + (day + (month + (2000 + year) * 100) * 100) * 100) * 100) * 100)"

section \<open>The header\<close>

record xlnx_image_params =
  ip_devid :: u32
  ip_wbstar :: u32
  ip_usr_access2 :: u32
  ip_iprog :: bool

definition W_DUMMY :: u32 where "W_DUMMY = 0xffffffff"
definition W_BYTEORD :: u32 where "W_BYTEORD = 0x000000bb"
definition W_BUSWIDTH :: u32 where "W_BUSWIDTH = 0x11220044"
definition W_SYNCWORD :: u32 where "W_SYNCWORD = 0xAA995566"
definition W_NOP :: u32 where "W_NOP = 0x20000000"

lemmas btstrm_words = W_DUMMY_def W_BYTEORD_def W_BUSWIDTH_def W_SYNCWORD_def W_NOP_def

definition be32toh :: "u32 \<Rightarrow> u32" where
  "be32toh m = of_le_bytes (rev (le_bytes 4 m))"

fun btstrm_sync :: "u32 list \<Rightarrow> bool \<Rightarrow> bool \<Rightarrow> int + u32 list \<times> bool \<times> bool" where
  "btstrm_sync [] bo_seen bw_seen = Inr ([], bo_seen, bw_seen)"
| "btstrm_sync (m # mem) bo_seen bw_seen =
    (let w = be32toh m in
     if w = W_DUMMY then btstrm_sync mem bo_seen bw_seen
     else if w = W_BYTEORD then btstrm_sync mem True bw_seen
     else if w = W_BUSWIDTH then btstrm_sync mem bo_seen True
     else if w = W_SYNCWORD then Inr (mem, bo_seen, bw_seen)
     else Inl (- EINVAL))"

record btstrm_state =
  bs_in_param :: bool
  bs_blk_param :: u16
  bs_blk_pcount :: u16
  bs_devid_found :: bool
  bs_wbstar_found :: bool
  bs_stat :: xlnx_image_params

definition btstrm_param :: "u16 \<Rightarrow> u32 \<Rightarrow> btstrm_state \<Rightarrow> btstrm_state" where
  "btstrm_param blk_param w s =
    (if blk_param = 0x0180 then s\<lparr>bs_stat := (bs_stat s)\<lparr>ip_devid := w\<rparr>, bs_devid_found := True\<rparr>
     else if blk_param = 0x0200 then s\<lparr>bs_stat := (bs_stat s)\<lparr>ip_wbstar := w\<rparr>, bs_wbstar_found := True\<rparr>
     else if blk_param = 0x0080 then (if w = 0x0000000f then s\<lparr>bs_stat := (bs_stat s)\<lparr>ip_iprog := True\<rparr>\<rparr> else s)
     else if blk_param = 0x01A0 then s\<lparr>bs_stat := (bs_stat s)\<lparr>ip_usr_access2 := w\<rparr>\<rparr>
     else s)"

fun btstrm_blocks :: "u32 list \<Rightarrow> btstrm_state \<Rightarrow> int + btstrm_state" where
  "btstrm_blocks [] s = Inr s"
| "btstrm_blocks (m # mem) s =
    (let w = be32toh m in
     if bs_in_param s then
       (let s1 = s\<lparr>bs_blk_pcount := bs_blk_pcount s - 1\<rparr>;
            s2 = (if bs_blk_pcount s1 = 0 then s1\<lparr>bs_in_param := False\<rparr> else s1)
        in btstrm_blocks mem (btstrm_param (bs_blk_param s) w s2))
     else if w = W_NOP then btstrm_blocks mem s
     else if drop_bit 24 w = 0x30 then
       (let count = ucast (w AND 0xff) :: u16 in
        if count > 0 then btstrm_blocks mem (s\<lparr>bs_in_param := True, bs_blk_param := ucast (drop_bit 8 w AND 0xffff), bs_blk_pcount := count\<rparr>)
        else btstrm_blocks mem (s\<lparr>bs_blk_pcount := count\<rparr>))
     else Inl (- EINVAL))"

definition no_params :: xlnx_image_params where
  "no_params = \<lparr>ip_devid = 0, ip_wbstar = 0, ip_usr_access2 = 0, ip_iprog = False\<rparr>"

definition xlnx_btstrm_parse_header :: "u32 list \<Rightarrow> int + xlnx_image_params" where
  "xlnx_btstrm_parse_header mem =
    (case btstrm_sync mem False False of
       Inl e \<Rightarrow> Inl e
     | Inr (mem1, bo_seen, bw_seen) \<Rightarrow>
         if \<not> bo_seen \<or> \<not> bw_seen then Inl (- EINVAL)
         else case btstrm_blocks mem1 \<lparr>bs_in_param = False, bs_blk_param = 0, bs_blk_pcount = 0,
             bs_devid_found = False, bs_wbstar_found = False, bs_stat = no_params\<rparr> of
           Inl e \<Rightarrow> Inl e
         | Inr s \<Rightarrow> if bs_devid_found s \<and> bs_wbstar_found s then Inr (bs_stat s) else Inl (- ENOENT))"

definition xlnx_btstrm_iprgcheck :: "xlnx_image_params \<Rightarrow> xlnx_image_params \<Rightarrow> u32 \<Rightarrow> bool \<Rightarrow> int" where
  "xlnx_btstrm_iprgcheck internal_golden newimg wbstar golden_image =
    (if ip_devid internal_golden \<noteq> ip_devid newimg then - EINVAL
     else if ip_wbstar newimg = wbstar \<and> \<not> golden_image then - EINVAL
     else if golden_image \<and> (ip_wbstar newimg \<noteq> wbstar \<or> \<not> ip_iprog newimg) then - EINVAL
     else if \<not> golden_image \<and> ip_wbstar newimg \<noteq> 0 then - EINVAL
     else if \<not> golden_image \<and> ip_wbstar internal_golden \<noteq> wbstar then - EINVAL
     else 0)"

section \<open>What a header means\<close>

text \<open>A stream of commands and the words a tool writes for it.\<close>

datatype btstrm_item = Nop | Block u16 "u32 list"

definition block_head :: "u16 \<Rightarrow> nat \<Rightarrow> u32" where
  "block_head p n = 0x30000000 OR push_bit 8 (ucast p) OR of_nat n"

fun item_words :: "btstrm_item \<Rightarrow> u32 list" where
  "item_words Nop = [W_NOP]"
| "item_words (Block p ws) = block_head p (length ws) # ws"

fun item_ok :: "btstrm_item \<Rightarrow> bool" where
  "item_ok Nop = True"
| "item_ok (Block p ws) = (length ws < 256)"

text \<open>Its meaning: the last word written to a register counts, and the reconfiguration command may be
  any of the command words.\<close>

definition writes :: "u16 \<Rightarrow> btstrm_item list \<Rightarrow> u32 list" where
  "writes reg items = concat (map (\<lambda>i. case i of Nop \<Rightarrow> [] | Block p ws \<Rightarrow> if p = reg then ws else []) items)"

definition last_or :: "'a \<Rightarrow> 'a list \<Rightarrow> 'a" where
  "last_or d xs = (if xs = [] then d else last xs)"

lemma be32toh_involution [simp]: "be32toh (be32toh w) = w"
  using le_bytes_of_le_bytes [of "rev (le_bytes 4 w)", where 'a = 32] of_le_bytes_le_bytes [of 4 w]
  by (simp add: be32toh_def)

text \<open>What the scan keeps of a state.\<close>

type_synonym btstrm_view = "xlnx_image_params \<times> bool \<times> bool"

definition btstrm_view_of :: "btstrm_state \<Rightarrow> btstrm_view" where
  "btstrm_view_of s = (bs_stat s, bs_devid_found s, bs_wbstar_found s)"

definition view_param :: "u16 \<Rightarrow> u32 \<Rightarrow> btstrm_view \<Rightarrow> btstrm_view" where
  "view_param p w v = (case v of (st, d, b) \<Rightarrow>
    (if p = 0x0180 then (st\<lparr>ip_devid := w\<rparr>, True, b)
     else if p = 0x0200 then (st\<lparr>ip_wbstar := w\<rparr>, d, True)
     else if p = 0x0080 then (if w = 0x0000000f then st\<lparr>ip_iprog := True\<rparr> else st, d, b)
     else if p = 0x01A0 then (st\<lparr>ip_usr_access2 := w\<rparr>, d, b)
     else v))"

fun view_item :: "btstrm_item \<Rightarrow> btstrm_view \<Rightarrow> btstrm_view" where
  "view_item Nop v = v"
| "view_item (Block p ws) v = fold (view_param p) ws v"

lemma view_of_param [simp]: "btstrm_view_of (btstrm_param p w s) = view_param p w (btstrm_view_of s)"
  by (simp add: btstrm_view_of_def btstrm_param_def view_param_def)

lemma param_frame [simp]:
  "bs_in_param (btstrm_param p w s) = bs_in_param s" "bs_blk_param (btstrm_param p w s) = bs_blk_param s"
  "bs_blk_pcount (btstrm_param p w s) = bs_blk_pcount s"
  by (simp_all add: btstrm_param_def)

lemma view_of_update [simp]:
  "btstrm_view_of (s\<lparr>bs_in_param := x\<rparr>) = btstrm_view_of s" "btstrm_view_of (s\<lparr>bs_blk_param := y\<rparr>) = btstrm_view_of s"
  "btstrm_view_of (s\<lparr>bs_blk_pcount := z\<rparr>) = btstrm_view_of s"
  by (simp_all add: btstrm_view_of_def)

lemma blocks_params:
  assumes "bs_in_param s" and "unat (bs_blk_pcount s) = length ws" and "ws \<noteq> []"
  shows "\<exists>s'. btstrm_blocks (map be32toh ws @ rest) s = btstrm_blocks rest s' \<and> \<not> bs_in_param s' \<and>
    btstrm_view_of s' = fold (view_param (bs_blk_param s)) ws (btstrm_view_of s)"
  using assms
proof (induction ws arbitrary: s)
  case (Cons w ws)
  let ?s1 = "s\<lparr>bs_blk_pcount := bs_blk_pcount s - 1\<rparr>"
  have c: "unat (bs_blk_pcount s - 1) = length ws" proof -
    have "bs_blk_pcount s \<noteq> 0" using Cons.prems(2) by auto
    then show ?thesis using Cons.prems(2) by (simp add: unat_minus_one)
  qed
  show ?case
  proof (cases "ws = []")
    case True
    with c have "bs_blk_pcount s - 1 = 0" by (simp add: word_unat_eq_iff)
    with Cons.prems True show ?thesis by (auto simp: Let_def)
  next
    case False
    with c have "bs_blk_pcount s - 1 \<noteq> 0" by (metis length_0_conv unat_0)
    with Cons.IH [of "btstrm_param (bs_blk_param s) w ?s1"] Cons.prems(1) c False show ?thesis by (simp add: Let_def)
  qed
qed simp

lemma block_head_fields:
  assumes "n < 256"
  shows "drop_bit 24 (block_head p n) = 0x30" and "ucast (drop_bit 8 (block_head p n) AND 0xffff) = p"
    and "unat (ucast (block_head p n AND 0xff) :: u16) = n" and "block_head p n \<noteq> W_NOP"
proof -
  have "unat (of_nat n :: u32) = n" using assms by (intro unat_of_nat_fits) simp_all
  then have t: "take_bit 8 (of_nat n :: u32) = of_nat n" using assms by (intro take_bit_fits) simp
  have b: "bit (of_nat n :: u32) k \<Longrightarrow> k < 8" for k using t by (metis bit_take_bit_iff)
  have h: "(0x30000000 :: int) = push_bit 28 3" by (simp add: push_bit_eq_mult)
  have bh: "bit (0x30000000 :: int) k \<longleftrightarrow> k = 28 \<or> k = 29" for k
    unfolding h bit_push_bit_iff using less_Suc_eq by (auto simp: bitfield)
  have "take_bit 8 n = n" using assms by (simp add: take_bit_nat_eq_self)
  then have bn: "bit n k \<Longrightarrow> k < 8" for k by (metis bit_take_bit_iff)
  have h30: "(0x30 :: int) = push_bit 4 3" by (simp add: push_bit_eq_mult)
  have b30: "bit (0x30 :: int) k \<longleftrightarrow> k = 4 \<or> k = 5" for k
    unfolding h30 bit_push_bit_iff by (auto simp: bitfield)
  show d: "drop_bit 24 (block_head p n) = 0x30"
    unfolding block_head_def by (rule bit_word_eqI) (auto simp: bit_simps bitfield bh b30 dest: b bn bit_imp_le_length)
  have h3: "(0x300000 :: int) = push_bit 20 3" by (simp add: push_bit_eq_mult)
  have b3: "bit (0x300000 :: int) k \<longleftrightarrow> k = 20 \<or> k = 21" for k
    unfolding h3 bit_push_bit_iff by (auto simp: bitfield)
  show "ucast (drop_bit 8 (block_head p n) AND 0xffff) = p"
    unfolding block_head_def by (rule bit_word_eqI) (auto simp: bit_simps bitfield bh b3 dest: b bn)
  have m: "block_head p n AND 0xff = of_nat n"
    unfolding block_head_def by (rule bit_word_eqI) (auto simp: bit_simps bitfield bh dest: b bn)
  show "unat (ucast (block_head p n AND 0xff) :: u16) = n"
    unfolding m using \<open>unat (of_nat n :: u32) = n\<close> assms by (simp add: unsigned_ucast_eq take_bit_nat_eq_self)
  show "block_head p n \<noteq> W_NOP" using d by (auto simp: W_NOP_def)
qed

lemma blocks_items:
  assumes "\<forall>i\<in>set items. item_ok i" and "\<not> bs_in_param s"
  shows "\<exists>s'. btstrm_blocks (map be32toh (concat (map item_words items))) s = Inr s' \<and>
    btstrm_view_of s' = fold view_item items (btstrm_view_of s)"
  using assms
proof (induction items arbitrary: s)
  case (Cons i items)
  show ?case
  proof (cases i)
    case Nop
    with Cons show ?thesis by (simp add: Let_def)
  next
    case (Block p ws)
    note h = block_head_fields [of "length ws" p]
    have l: "length ws < 256" using Cons.prems(1) Block by simp
    have c: "ucast (block_head p (length ws) AND 0xff) = (0 :: u16) \<longleftrightarrow> ws = []"
      using h(3) [OF l] by (auto simp: word_unat_eq_iff)
    show ?thesis
    proof (cases "ws = []")
      case True
      with Cons.IH [of "s\<lparr>bs_blk_pcount := ucast (block_head p 0 AND 0xff)\<rparr>"] Cons.prems Block h(1,4) [OF l] c show ?thesis
        by (simp add: Let_def)
    next
      case False
      let ?s = "s\<lparr>bs_in_param := True, bs_blk_param := ucast (drop_bit 8 (block_head p (length ws)) AND 0xffff),
        bs_blk_pcount := ucast (block_head p (length ws) AND 0xff)\<rparr>"
      obtain s1 where s1: "btstrm_blocks (map be32toh ws @ map be32toh (concat (map item_words items))) ?s =
          btstrm_blocks (map be32toh (concat (map item_words items))) s1" "\<not> bs_in_param s1"
        "btstrm_view_of s1 = fold (view_param p) ws (btstrm_view_of s)"
        using blocks_params [of ?s ws "map be32toh (concat (map item_words items))"] False h(2,3) [OF l] by auto
      have "(0 :: u16) < ucast (block_head p (length ws) AND 0xff)" using c False by (simp add: word_gt_0)
      with s1(1) have "btstrm_blocks (map be32toh (concat (map item_words (i # items)))) s = btstrm_blocks (map be32toh (concat (map item_words items))) s1"
        using Block Cons.prems(2) h(1,4) [OF l] by (simp add: Let_def)
      with Cons.IH [OF _ s1(2)] Cons.prems(1) s1(3) Block show ?thesis by simp
    qed
  qed
qed simp

lemma fold_view_param:
  "fold (view_param p) ws (st, d, b) =
    (if p = 0x0180 then (if ws = [] then (st, d, b) else (st\<lparr>ip_devid := last ws\<rparr>, True, b))
     else if p = 0x0200 then (if ws = [] then (st, d, b) else (st\<lparr>ip_wbstar := last ws\<rparr>, d, True))
     else if p = 0x0080 then (if 0x0000000f \<in> set ws then st\<lparr>ip_iprog := True\<rparr> else st, d, b)
     else if p = 0x01A0 then (if ws = [] then (st, d, b) else (st\<lparr>ip_usr_access2 := last ws\<rparr>, d, b))
     else (st, d, b))"
  by (induction ws arbitrary: st d b) (auto simp: view_param_def)

lemma writes_simps [simp]:
  "writes r [] = []" "writes r (Nop # items) = writes r items"
  "writes r (Block p ws # items) = (if p = r then ws @ writes r items else writes r items)"
  by (simp_all add: writes_def)

lemma last_or_append: "last_or d (xs @ ys) = last_or (last_or d xs) ys"
  by (simp add: last_or_def)

lemma fold_view_items:
  "fold view_item items (st, d, b) =
    (\<lparr>ip_devid = last_or (ip_devid st) (writes 0x0180 items), ip_wbstar = last_or (ip_wbstar st) (writes 0x0200 items),
      ip_usr_access2 = last_or (ip_usr_access2 st) (writes 0x01A0 items), ip_iprog = (ip_iprog st \<or> 0x0000000f \<in> set (writes 0x0080 items))\<rparr>,
     d \<or> writes 0x0180 items \<noteq> [], b \<or> writes 0x0200 items \<noteq> [])"
proof (induction items arbitrary: st d b)
  case (Cons i items)
  then show ?case by (cases i) (auto simp: fold_view_param last_or_append, simp_all add: last_or_def)
qed (simp add: last_or_def)

text \<open>The words before the synchronisation word.\<close>

definition sync_prefix :: "u32 list \<Rightarrow> bool" where
  "sync_prefix ws \<longleftrightarrow> set ws \<subseteq> {W_DUMMY, W_BYTEORD, W_BUSWIDTH} \<and> W_BYTEORD \<in> set ws \<and> W_BUSWIDTH \<in> set ws"

lemma sync_words:
  "set ws \<subseteq> {W_DUMMY, W_BYTEORD, W_BUSWIDTH} \<Longrightarrow>
   btstrm_sync (map be32toh (ws @ W_SYNCWORD # rest)) bo bw = Inr (map be32toh rest, bo \<or> W_BYTEORD \<in> set ws, bw \<or> W_BUSWIDTH \<in> set ws)"
  by (induction ws arbitrary: bo bw) (auto simp: Let_def btstrm_words)

text \<open>C9: The header parser reads every image a tool writes as what it means: the last device id and
  start address written, the last user word, and whether the reconfiguration command occurs; an image
  without an id or an address is rejected as such.\<close>

theorem btstrm_header_parsed:
  assumes "sync_prefix pre" and "\<forall>i\<in>set items. item_ok i"
  shows "xlnx_btstrm_parse_header (map be32toh (pre @ W_SYNCWORD # concat (map item_words items))) =
    (if writes 0x0180 items = [] \<or> writes 0x0200 items = [] then Inl (- ENOENT)
     else Inr \<lparr>ip_devid = last (writes 0x0180 items), ip_wbstar = last (writes 0x0200 items),
       ip_usr_access2 = last_or 0 (writes 0x01A0 items), ip_iprog = (0x0000000f \<in> set (writes 0x0080 items))\<rparr>)"
proof -
  let ?s = "\<lparr>bs_in_param = False, bs_blk_param = 0, bs_blk_pcount = 0, bs_devid_found = False, bs_wbstar_found = False, bs_stat = no_params\<rparr>"
  obtain s' where s': "btstrm_blocks (map be32toh (concat (map item_words items))) ?s = Inr s'"
    "btstrm_view_of s' = fold view_item items (no_params, False, False)"
    using blocks_items [OF assms(2), of ?s] by (auto simp: btstrm_view_of_def)
  have "bs_stat s' = \<lparr>ip_devid = last_or 0 (writes 0x0180 items), ip_wbstar = last_or 0 (writes 0x0200 items),
       ip_usr_access2 = last_or 0 (writes 0x01A0 items), ip_iprog = (0x0000000f \<in> set (writes 0x0080 items))\<rparr>"
    "bs_devid_found s' = (writes 0x0180 items \<noteq> [])" "bs_wbstar_found s' = (writes 0x0200 items \<noteq> [])"
    using s'(2) unfolding fold_view_items by (simp_all add: btstrm_view_of_def no_params_def)
  with s'(1) assms(1) show ?thesis
    unfolding xlnx_btstrm_parse_header_def sync_prefix_def using sync_words [of pre "concat (map item_words items)" False False]
    by (auto simp: last_or_def)
qed

theorem btstrm_header_parsed_witness:
  "xlnx_btstrm_parse_header (map be32toh ([W_DUMMY, W_BYTEORD, W_BUSWIDTH, W_DUMMY] @ W_SYNCWORD #
     concat (map item_words [Nop, Block 0x0180 [0x0362D093], Block 0x0200 [0x1c0000], Block 0x0080 [0xf], Nop]))) =
   Inr \<lparr>ip_devid = 0x0362D093, ip_wbstar = 0x1c0000, ip_usr_access2 = 0, ip_iprog = True\<rparr>"
  by (subst btstrm_header_parsed) (auto simp: sync_prefix_def last_or_def)

end
