(* ===== verification/StreamInit.thy ===== *)
theory StreamInit
  imports StreamSend Bitstream
begin

text \<open>
  Creation of streams (second half of \<open>src/lib/ipblks/streams/stream_sfetrx4_dma32.c\<close>): the format
  is chosen and checked, the front end and the DMA are programmed, the driver is asked for buffers and
  the stream object is filled. \<open>vfs\<close> is the look-up of a device parameter
  (\<open>usdr_device_vfs_obj_val_get_u64\<close>) and \<open>ll\<close> the answer of the driver's \<open>stream_initialize\<close>; both
  are quantified in the theorems. Memory allocation succeeds.
\<close>

type_synonym vfs = "string \<Rightarrow> int + u64"

section \<open>Synchronisation\<close>

definition ST_STOP :: u32 where "ST_STOP = 0"
definition ST_ONEPPS :: u32 where "ST_ONEPPS = 1"
definition ST_ADCACT :: u32 where "ST_ADCACT = 2"
definition ST_DACACT :: u32 where "ST_DACACT = 3"
definition ST_ADCORDACACT :: u32 where "ST_ADCORDACACT = 5"
definition ST_DELAYADCDAC :: u32 where "ST_DELAYADCDAC = 6"
definition ST_FREERUN :: u32 where "ST_FREERUN = 7"
definition ST_SYSREF_GEN :: u32 where "ST_SYSREF_GEN = 8"

lemmas st_defs = ST_STOP_def ST_ONEPPS_def ST_ADCACT_def ST_DACACT_def ST_ADCORDACACT_def ST_DELAYADCDAC_def
  ST_FREERUN_def ST_SYSREF_GEN_def

text \<open>Streams by their direction; \<open>None\<close> is a NULL entry.\<close>

definition sync_all_cmd :: "usdr_str_type option list \<Rightarrow> nat \<Rightarrow> u32" where
  "sync_all_cmd streams scount =
    (let rxsync = Some USDR_ZCPY_RX \<in> set (take scount streams);
         txsync = Some USDR_ZCPY_TX \<in> set (take scount streams)
     in if rxsync \<and> txsync then ST_DELAYADCDAC else if rxsync then ST_ADCACT else if txsync then ST_DACACT else ST_FREERUN)"

definition sync_cmd :: "usdr_str_type option list \<Rightarrow> nat \<Rightarrow> string option \<Rightarrow> int + u32" where
  "sync_cmd streams scount synctype =
    (case synctype of
       None \<Rightarrow> Inr ST_FREERUN
     | Some t \<Rightarrow>
         if t = ''none'' then Inr ST_FREERUN
         else if t = ''sysref'' \<or> t = ''1pps'' then Inr ST_ONEPPS
         else if t = ''sysref+gen'' then Inr (ST_ONEPPS OR ST_SYSREF_GEN)
         else if t = ''rx'' then Inr ST_ADCACT
         else if t = ''tx'' then Inr ST_DACACT
         else if t = ''any'' then Inr ST_ADCORDACACT
         else if t = ''all'' then (if scount > 2 \<or> scount < 1 then Inl (- EINVAL) else Inr (sync_all_cmd streams scount))
         else if t = ''off'' then Inr ST_STOP
         else Inl (- EINVAL))"

definition sfetrx4_stream_sync :: "vfs \<Rightarrow> usdr_str_type option list \<Rightarrow> nat \<Rightarrow> string option \<Rightarrow> (int + unit) io" where
  "sfetrx4_stream_sync vfs streams scount synctype =
    (case vfs ''/ll/sync/0/base'' of
       Inl e \<Rightarrow> iofail e
     | Inr base \<Rightarrow>
         (case sync_cmd streams scount synctype of
            Inl e \<Rightarrow> iofail e
          | Inr cmd \<Rightarrow> lowlevel_reg_wr32 (ucast base) (push_bit 31 1 OR push_bit 16 cmd)))"

section \<open>Configuration of a stream without a device\<close>

record sfetrx4_config =
  cf_sc :: stream_config
  cf_sc_b :: stream_config
  cf_cfgchs :: u32
  cf_logicchs :: u32
  cf_bifurcation_valid :: bool

definition fmt_select :: "parsed_data_format \<Rightarrow> string option" where
  "fmt_select p = (case wire_fmt p of None \<Rightarrow> host_fmt p | Some w \<Rightarrow> Some w)"

definition fmt_raw :: "string \<Rightarrow> bool" where
  "fmt_raw f \<longleftrightarrow> f \<noteq> [] \<and> hd f = CHR ''&''"

text \<open>The buffer for the format has 256 characters; a longer one is read past its end.\<close>

definition parse_sfetrx4 :: "string \<Rightarrow> channel_info \<Rightarrow> u32 \<Rightarrow> u32 \<Rightarrow> int + sfetrx4_config" where
  "parse_sfetrx4 dformat channels pktsyms chcnt =
    (if length dformat \<ge> 256 then Inl OUT_OF_BOUNDS
     else case fmt_select (stream_parse_dformat dformat) of
       None \<Rightarrow> Inl OUT_OF_BOUNDS
     | Some f \<Rightarrow>
         let cfgchs = 0;
             logicchs = (if fmt_raw f then 1 else cfgchs);
             sc = \<lparr>sc_sfmt = (if fmt_raw f then tl f else f), sc_spburst = pktsyms, sc_burstspblk = 0,
                   sc_chcnt = chcnt, sc_channels = channels\<rparr>;
             bfmt = get_bits_fmt (sc_sfmt sc);
             (sc_b, bif) =
               (if bf_complex bfmt \<and> chcnt = 1 then (sc\<lparr>sc_chcnt := 2\<rparr>, True)
                else if \<not> bf_complex bfmt \<and> chcnt = 2 then (sc\<lparr>sc_chcnt := 4\<rparr>, True)
                else (sc, False))
         in Inr \<lparr>cf_sc = sc,
                 cf_sc_b = (if pktsyms mod 2 \<noteq> 0 then sc_b else sc_b\<lparr>sc_spburst := pktsyms div 2\<rparr>),
                 cf_cfgchs = cfgchs, cf_logicchs = logicchs,
                 cf_bifurcation_valid = (if pktsyms mod 2 \<noteq> 0 then False else bif)\<rparr>)"

section \<open>Receive streams\<close>

definition LLSF_NEED_FDPOLL :: u32 where "LLSF_NEED_FDPOLL = 2"

record stream_params =
  sp_streamno :: u32
  sp_flags :: u32
  sp_block_size :: u32
  sp_buffer_count :: u32
  sp_channels :: u32
  sp_bits_per_sym :: u32
  sp_dma_core_id :: u32
  sp_out_max_bursts :: u32

record stream_init =
  si_res :: int
  si_sid :: u32
  si_fd :: int
  si_out_mtu_size :: u64
  si_out_max_bursts :: u32

definition zero_stats :: stream_stats where
  "zero_stats = \<lparr>ss_wirebytes = 0, ss_symbols = 0, ss_pktok = 0, ss_fe_drop = 0, ss_dma_drop = 0\<rparr>"

text \<open>The wire format: the requested one, or 16-bit integers where the core lacks it and the host
  left the choice.\<close>

definition fallback_fmt :: "string \<Rightarrow> string" where
  "fallback_fmt host = (if host \<noteq> [] \<and> (hd host = CHR ''C'' \<or> hd host = CHR ''c'') then ''ci16'' else ''i16'')"

definition rx_bifurcate :: "bool \<Rightarrow> bitsfmt \<Rightarrow> stream_config \<Rightarrow> int + stream_config" where
  "rx_bifurcate bif bfmt sc =
    (if \<not> bif then Inr sc
     else
       let m = sc_channels sc;
           sc1 = (if bf_complex bfmt \<and> sc_chcnt sc = 1 then Some (sc\<lparr>sc_chcnt := 2, sc_channels := m[1 := m ! 0 + 1]\<rparr>)
                  else if \<not> bf_complex bfmt \<and> sc_chcnt sc = 2
                    then Some (sc\<lparr>sc_chcnt := 4, sc_channels := m[2 := m ! 0 + 2, 3 := m ! 1 + 2]\<rparr>)
                  else None)
       in case sc1 of
            None \<Rightarrow> Inl (- EINVAL)
          | Some s \<Rightarrow> if sc_spburst s mod 2 \<noteq> 0 then Inl (- EINVAL) else Inr (s\<lparr>sc_spburst := sc_spburst s div 2\<rparr>))"

definition rx_burst_mask :: "u32 \<Rightarrow> u32" where
  "rx_burst_mask n = ucast (push_bit (32 - unat n) (push_bit (unat n) 1 - 1 :: u64))"

text \<open>The fields the code leaves unset in a receive stream are 0 here; no operation reads them.\<close>

definition rx_stream ::
  "sfe_cfg \<Rightarrow> u32 \<Rightarrow> u32 \<Rightarrow> u32 \<Rightarrow> stream_config \<Rightarrow> bitsfmt \<Rightarrow> conv_function \<times> size_function \<Rightarrow> fifo_config \<Rightarrow> stream_init \<Rightarrow> stream_dma" where
  "rx_stream fe sx_base pktsyms logicchs sc bfmt funcs fc ans =
    (let bytes = fc_bpb fc * fc_burstspblk fc in
     \<lparr>sd_type = USDR_ZCPY_RX, sd_channels = logicchs, sd_hwchannels = 0, sd_ll_streamo = si_sid ans, sd_cnf_base = sx_base,
      sd_sync_base = 0, sd_cnfrd_base = 0, sd_pkt_symbs = pktsyms, sd_pkt_bytes = bytes, sd_host_bytes = snd funcs bytes False,
      sd_wire_bps = 8 * bytes div pktsyms, sd_tf_data = fst funcs, sd_tf_size = snd funcs, sd_rcnt = 0, sd_r_ts = 0,
      sd_burst_mask = rx_burst_mask (fc_burstspblk fc), sd_stats = zero_stats, sd_fd = si_fd ans,
      sd_burst_count = fc_burstspblk fc, sd_burst_align_bytes = cfg_dma_align_bytes fe, sd_fe_old_tx_mute = 0,
      sd_fe_old_tx_swap = 0, sd_fe_chans = sc_chcnt sc, sd_fe_complex = bf_complex bfmt, sd_srx4 = fe, sd_cstx4 = (0, 0, 0)\<rparr>)"

definition initialize_stream_rx_32 ::
  "vfs \<Rightarrow> (stream_params \<Rightarrow> stream_init) \<Rightarrow> u32 \<Rightarrow> channel_info \<Rightarrow> u32 \<Rightarrow> sfe_cfg \<Rightarrow> u32 \<Rightarrow> u32 \<Rightarrow> parsed_data_format \<Rightarrow> bool \<Rightarrow> bool
   \<Rightarrow> (int + stream_dma) io" where
  "initialize_stream_rx_32 vfs ll chcount channels pktsyms fe sx_base sx_cfg_base pfmt need_fd bif =
    ioseq (dma_rx32_reset sx_base)
    (case (fmt_select pfmt, host_fmt pfmt) of
      (Some f, Some host) \<Rightarrow>
        let logicchs = (if fmt_raw f then 1 else chcount);
            sc0 = \<lparr>sc_sfmt = (if fmt_raw f then tl f else f), sc_spburst = pktsyms, sc_burstspblk = 0,
                   sc_chcnt = chcount, sc_channels = channels\<rparr>;
            chk = sfe_rx4_check_format sc0
        in if chk \<noteq> 0 \<and> wire_fmt pfmt \<noteq> None then iofail chk
        else let sc = (if chk \<noteq> 0 then sc0\<lparr>sc_sfmt := fallback_fmt host\<rparr> else sc0) in
        (case get_transform_fn (sc_sfmt sc) host 1 (unat logicchs) of
          None \<Rightarrow> iofail (- EINVAL)
        | Some funcs \<Rightarrow>
            let bfmt = get_bits_fmt (sc_sfmt sc) in
            (case rx_bifurcate bif bfmt sc of
              Inl e \<Rightarrow> iofail e
            | Inr sc1 \<Rightarrow>
                iobind (if cfg_fecore_id fe = CORE_EXFERX_DMA32_R0 then exfe_rx4_configure fe sc1 else sfe_rx4_configure fe sc1)
                (\<lambda>fc. ioseq (dma_rx32_configure sx_cfg_base fc)
                 (ioseq (sfetrx4_stream_sync vfs [] 0 (Some ''off''))
                 (let ans = ll \<lparr>sp_streamno = 0, sp_flags = (if need_fd then LLSF_NEED_FDPOLL else 0),
                        sp_block_size = fc_bpb fc * fc_burstspblk fc, sp_buffer_count = 32, sp_channels = 0, sp_bits_per_sym = 0,
                        sp_dma_core_id = cfg_fecore_id fe, sp_out_max_bursts = 0\<rparr>
                  in if si_res ans \<noteq> 0 then iofail (si_res ans)
                     else if pktsyms = 0 then iofail CRASH_FPE
                     else ioreturn (rx_stream fe sx_base pktsyms logicchs sc1 bfmt funcs fc ans))))))
    | _ \<Rightarrow> iofail OUT_OF_BOUNDS)"

section \<open>Transmit streams\<close>

definition MINIM_FWID_COMPAT :: u32 where "MINIM_FWID_COMPAT = 0xd2b10c09"

text \<open>The firmware check. If the revision cannot be read the local variable keeps what was on the
  stack, \<open>garbage\<close>.\<close>

definition fw_outdated :: "vfs \<Rightarrow> u64 \<Rightarrow> bool" where
  "fw_outdated vfs garbage \<longleftrightarrow>
    (let fwid = (case vfs ''/dm/revision'' of Inl e \<Rightarrow> garbage | Inr v \<Rightarrow> v)
     in get_xilinx_rev_h (ucast (fwid AND 0xffffffff)) < get_xilinx_rev_h MINIM_FWID_COMPAT)"

definition tx_expand :: "u32 \<Rightarrow> u32 option" where
  "tx_expand n = (if n = 1 then Some 0 else if n = 2 then Some 1 else if n = 4 then Some 2 else if n = 8 then Some 3
     else if n = 16 then Some 4 else if n = 32 then Some 5 else None)"

text \<open>The front end of the transmit core: the swap and mute flags of the simple core, or the set-up of
  the extended one.\<close>

definition tx_frontend :: "sfe_cfg \<Rightarrow> bitsfmt \<Rightarrow> stream_config \<Rightarrow> (int + u8 \<times> u8) io" where
  "tx_frontend fe bfmt sc =
    (if cfg_fecore_id fe = CORE_SFETX_DMA32_R0 then
       (if \<not> bf_complex bfmt \<or> bf_bits bfmt \<noteq> 16 then iofail (- EINVAL)
        else if sc_chcnt sc > 2 then iofail (- EINVAL)
        else case fe_tx4_swap_ab_get (sc_chcnt sc) (sc_channels sc) of
          Inl e \<Rightarrow> iofail e
        | Inr swap \<Rightarrow> ioreturn (ucast swap, if sc_chcnt sc = 1 then (if swap \<noteq> 0 then 1 else 2) else 0))
     else if sc_chcnt sc > cfg_raw_chans fe div (if bf_complex bfmt then 2 else 1) then iofail (- EINVAL)
     else
       let llchans = (if bf_complex bfmt then 2 else 1) * sc_chcnt sc in
       case tx_expand llchans of
         None \<Rightarrow> iofail (- EINVAL)
       | Some expand \<Rightarrow>
           ioseq (iolist [exfe_tx4_mute fe 0, exfe_tx4_config fe (ucast (bf_bits bfmt)) expand,
                          exfe_trx4_update_chmap fe True (bf_complex bfmt) llchans (sc_channels sc)])
             (ioreturn (0, 0)))"

text \<open>The number of bursts a block needs.\<close>

definition tx_bursts :: "sfe_cfg \<Rightarrow> u32 \<Rightarrow> u32 \<Rightarrow> u32 \<Rightarrow> u32 \<Rightarrow> int + u32" where
  "tx_bursts fe max_mtu block_size bits_per_sym pktsyms =
    (if block_size > max_mtu then
       (if cfg_fecore_id fe = CORE_EXFETX_DMA32_R0 then
          (if bits_per_sym = 0 then Inl CRASH_FPE
           else case extx_burstup pktsyms (8 * max_mtu div bits_per_sym) of
             Inl e \<Rightarrow> Inl e | Inr lg \<Rightarrow> Inr (push_bit lg 1))
        else Inl (- EINVAL))
     else Inr 1)"

text \<open>Packet size, block size and bursts once the driver has answered: a request without a packet size
  takes what the driver offers.\<close>

definition tx_packet :: "u32 \<Rightarrow> u32 \<Rightarrow> u32 \<Rightarrow> u32 \<Rightarrow> stream_init \<Rightarrow> int + u32 \<times> u32 \<times> u32" where
  "tx_packet max_mtu block_size bits_per_sym pktsyms ans =
    (if pktsyms \<noteq> 0 then Inr (pktsyms, block_size, si_out_max_bursts ans)
     else if bits_per_sym = 0 then Inl CRASH_FPE
     else
       let big = si_out_mtu_size ans > ucast max_mtu;
           bursts = (if big then ucast (si_out_mtu_size ans div ucast max_mtu) else si_out_max_bursts ans);
           mtu = (if big then ucast max_mtu else si_out_mtu_size ans)
       in Inr (ucast (8 * mtu div ucast bits_per_sym), ucast mtu, bursts))"

definition tx_stream ::
  "sfe_cfg \<Rightarrow> u32 \<Rightarrow> u32 \<Rightarrow> u32 \<Rightarrow> u32 \<times> u32 \<times> u32 \<Rightarrow> u32 \<Rightarrow> u32 \<Rightarrow> u32 \<Rightarrow> stream_config \<Rightarrow> bitsfmt \<Rightarrow> conv_function \<times> size_function
   \<Rightarrow> u8 \<times> u8 \<Rightarrow> stream_init \<Rightarrow> stream_dma" where
  "tx_stream fe sx_base sx_sync sx_base_rb pkt logicchs hwchs bits sc bfmt funcs flags ans =
    (case pkt of (pktsyms, block_size, bursts) \<Rightarrow>
     \<lparr>sd_type = USDR_ZCPY_TX, sd_channels = logicchs, sd_hwchannels = hwchs, sd_ll_streamo = si_sid ans, sd_cnf_base = sx_base,
      sd_sync_base = sx_sync, sd_cnfrd_base = sx_base_rb, sd_pkt_symbs = pktsyms, sd_pkt_bytes = block_size,
      sd_host_bytes = snd funcs block_size True, sd_wire_bps = bits, sd_tf_data = fst funcs, sd_tf_size = snd funcs,
      sd_rcnt = 0, sd_r_ts = 0, sd_burst_mask = 0, sd_stats = zero_stats, sd_fd = si_fd ans, sd_burst_count = bursts,
      sd_burst_align_bytes = (if cfg_fecore_id fe = CORE_EXFETX_DMA32_R0 then 16 else 1),
      sd_fe_old_tx_mute = snd flags, sd_fe_old_tx_swap = fst flags, sd_fe_chans = sc_chcnt sc,
      sd_fe_complex = bf_complex bfmt, sd_srx4 = fe, sd_cstx4 = extxcfg_cache_init\<rparr>)"

definition tx_bifurcate :: "bool \<Rightarrow> bitsfmt \<Rightarrow> stream_config \<Rightarrow> int + stream_config" where
  "tx_bifurcate bif bfmt sc =
    (if \<not> bif then Inr sc
     else if bf_complex bfmt \<and> sc_chcnt sc = 1 then Inr (sc\<lparr>sc_chcnt := 2\<rparr>)
     else Inl (- EINVAL))"

text \<open>The part after the format is settled: front end, synchronisation, buffers, stream object.\<close>

definition tx_finish ::
  "vfs \<Rightarrow> (stream_params \<Rightarrow> stream_init) \<Rightarrow> u32 \<Rightarrow> u32 \<Rightarrow> sfe_cfg \<Rightarrow> u32 \<Rightarrow> u32 \<Rightarrow> u32 \<Rightarrow> bool \<Rightarrow> u32 \<Rightarrow> stream_config \<Rightarrow> bitsfmt
   \<Rightarrow> conv_function \<times> size_function \<Rightarrow> (int + stream_dma) io" where
  "tx_finish vfs ll chcount pktsyms fe sx_base sx_sync sx_base_rb need_fd logicchs sc bfmt funcs =
    (let bits = ucast (bf_bits bfmt) * (if bf_complex bfmt then 2 else 1);
         max_mtu = of_int (sfe_tx4_mtu_get sc);
         block_size = pktsyms * chcount * bits div 8
     in iobind (tx_frontend fe bfmt sc) (\<lambda>flags.
        ioseq (sfetrx4_stream_sync vfs [] 0 (Some ''off''))
        (case tx_bursts fe max_mtu block_size (chcount * bits) pktsyms of
           Inl e \<Rightarrow> iofail e
         | Inr bursts \<Rightarrow>
            let ans = ll \<lparr>sp_streamno = 1, sp_flags = (if need_fd then LLSF_NEED_FDPOLL else 0),
               sp_block_size = block_size, sp_buffer_count = 32, sp_channels = chcount, sp_bits_per_sym = chcount * bits,
               sp_dma_core_id = cfg_fecore_id fe, sp_out_max_bursts = bursts\<rparr>
            in if si_res ans \<noteq> 0 then iofail (si_res ans)
               else (case tx_packet max_mtu block_size (chcount * bits) pktsyms ans of
                 Inl e \<Rightarrow> iofail e
               | Inr pkt \<Rightarrow> ioreturn (tx_stream fe sx_base sx_sync sx_base_rb pkt logicchs chcount bits sc bfmt funcs flags ans)))))"

definition initialize_stream_tx_32 ::
  "vfs \<Rightarrow> (stream_params \<Rightarrow> stream_init) \<Rightarrow> u64 \<Rightarrow> u32 \<Rightarrow> channel_info \<Rightarrow> u32 \<Rightarrow> sfe_cfg \<Rightarrow> u32 \<Rightarrow> u32 \<Rightarrow> u32 \<Rightarrow> parsed_data_format
   \<Rightarrow> bool \<Rightarrow> bool \<Rightarrow> bool \<Rightarrow> (int + stream_dma) io" where
  "initialize_stream_tx_32 vfs ll garbage chcount channels pktsyms fe sx_base sx_sync sx_base_rb pfmt need_fd bif dont_check_fw =
    (if chcount > cfg_raw_chans fe then iofail (- EINVAL)
     else if \<not> dont_check_fw \<and> fw_outdated vfs garbage then iofail (- ECONNRESET)
     else case (fmt_select pfmt, host_fmt pfmt) of
      (Some f, Some host) \<Rightarrow>
        let logicchs = (if fmt_raw f then 1 else chcount);
            sc0 = \<lparr>sc_sfmt = (if fmt_raw f then tl f else f), sc_spburst = pktsyms, sc_burstspblk = 0,
                   sc_chcnt = chcount, sc_channels = channels\<rparr>;
            chk = sfe_tx4_check_format sc0
        in if chk \<noteq> 0 \<and> wire_fmt pfmt \<noteq> None then iofail chk
        else let sc = (if chk \<noteq> 0 then sc0\<lparr>sc_sfmt := fallback_fmt host\<rparr> else sc0) in
        (case get_transform_fn host (sc_sfmt sc) (unat logicchs) 1 of
          None \<Rightarrow> iofail (- EINVAL)
        | Some funcs \<Rightarrow>
            (case tx_bifurcate bif (get_bits_fmt (sc_sfmt sc)) sc of
              Inl e \<Rightarrow> iofail e
            | Inr sc1 \<Rightarrow>
                tx_finish vfs ll chcount pktsyms fe sx_base sx_sync sx_base_rb need_fd logicchs sc1 (get_bits_fmt (sc_sfmt sc)) funcs))
    | _ \<Rightarrow> iofail OUT_OF_BOUNDS)"

section \<open>Creation\<close>

definition DMS_FLAG_NEED_FD :: u32 where "DMS_FLAG_NEED_FD = 1"
definition DMS_FLAG_BIFURCATION :: u32 where "DMS_FLAG_BIFURCATION = 65536"
definition DMS_DONT_CHECK_FWID :: u32 where "DMS_DONT_CHECK_FWID = 131072"

definition core_fe_cfg :: "u32 \<Rightarrow> u32 \<Rightarrow> u32 \<Rightarrow> bool \<Rightarrow> sfe_cfg" where
  "core_fe_cfg core_id fe_fifobsz fe_base simple =
    (let wb = (if simple then 8 else 16) in
     \<lparr>cfg_fecore_id = core_id, cfg_base = fe_base, cfg_fifomaxbytes = fe_fifobsz, cfg_word_bytes = wb,
      cfg_dma_align_bytes = wb, cfg_raw_chans = (if simple then 4 else 8)\<rparr>)"

definition create_sfetrx4_stream ::
  "vfs \<Rightarrow> (stream_params \<Rightarrow> stream_init) \<Rightarrow> u64 \<Rightarrow> u32 \<Rightarrow> string \<Rightarrow> u32 \<Rightarrow> channel_info \<Rightarrow> u32 \<Rightarrow> u32 \<Rightarrow> u32 \<Rightarrow> u32 \<Rightarrow> u32 \<Rightarrow> u32 \<Rightarrow> u32
   \<Rightarrow> (int + stream_dma \<times> u32) io" where
  "create_sfetrx4_stream vfs ll garbage core_id dformat chcount channels pktsyms flags sx_base sx_cfg_base sx_base_rb fe_fifobsz fe_base =
    (let need_fd = (flags AND DMS_FLAG_NEED_FD = DMS_FLAG_NEED_FD);
         bif = (flags AND DMS_FLAG_BIFURCATION = DMS_FLAG_BIFURCATION);
         dontcheck = (flags AND DMS_DONT_CHECK_FWID = DMS_DONT_CHECK_FWID)
     in if length dformat \<ge> 256 then iofail OUT_OF_BOUNDS
     else let pfmt = stream_parse_dformat dformat in
     iobind
      (if core_id = CORE_SFERX_DMA32_R0 \<or> core_id = CORE_EXFERX_DMA32_R0 then
         initialize_stream_rx_32 vfs ll chcount channels pktsyms (core_fe_cfg core_id fe_fifobsz fe_base (core_id = CORE_SFERX_DMA32_R0))
           sx_base sx_cfg_base pfmt need_fd bif
       else if core_id = CORE_SFETX_DMA32_R0 \<or> core_id = CORE_EXFETX_DMA32_R0 then
         initialize_stream_tx_32 vfs ll garbage chcount channels pktsyms (core_fe_cfg core_id fe_fifobsz fe_base (core_id = CORE_SFETX_DMA32_R0))
           sx_base sx_cfg_base sx_base_rb pfmt need_fd bif dontcheck
       else iofail (- EINVAL))
      (\<lambda>s. ioreturn (s, sd_channels s)))"

section \<open>Lemmas\<close>

definition rx_wire :: "parsed_data_format \<Rightarrow> string" where
  "rx_wire p =
    (let f = the (fmt_select p); g = (if fmt_raw f then tl f else f); b = get_bits_fmt g in
     if bf_bits b \<noteq> 0 \<or> bf_func b = DSPFUNC_FFT_LPWR then g else fallback_fmt (the (host_fmt p)))"

definition payload_bits :: "string \<Rightarrow> u32 \<Rightarrow> u32 \<Rightarrow> nat" where
  "payload_bits fmt chans n =
    unat (bf_bits (get_bits_fmt fmt)) * (if bf_complex (get_bits_fmt fmt) then 2 else 1) * unat chans * unat n"

lemma initialize_rx_run:
  assumes "initialize_stream_rx_32 vfs ll chcount channels pktsyms fe sx_base sx_cfg_base pfmt need_fd bif env tr = (Inr s, tr')"
    and "cfg_fecore_id fe \<noteq> CORE_EXFERX_DMA32_R0"
  obtains sc1 fc funcs ans t1 t2 logicchs where
    "rx_bifurcate bif (get_bits_fmt (rx_wire pfmt)) \<lparr>sc_sfmt = rx_wire pfmt, sc_spburst = pktsyms, sc_burstspblk = 0,
       sc_chcnt = chcount, sc_channels = channels\<rparr> = Inr sc1"
    "sfe_rx4_configure fe sc1 env t1 = (Inr fc, t2)" "pktsyms \<noteq> 0"
    "s = rx_stream fe sx_base pktsyms logicchs sc1 (get_bits_fmt (rx_wire pfmt)) funcs fc ans"
proof -
  obtain f where f: "fmt_select pfmt = Some f"
    using assms(1) by (cases "fmt_select pfmt") (auto simp: initialize_stream_rx_32_def iosuccess)
  obtain host where h: "host_fmt pfmt = Some host"
    using assms(1) f by (cases "host_fmt pfmt") (auto simp: initialize_stream_rx_32_def iosuccess)
  let ?g = "if fmt_raw f then tl f else f"
  let ?sc0 = "\<lparr>sc_sfmt = ?g, sc_spburst = pktsyms, sc_burstspblk = 0, sc_chcnt = chcount, sc_channels = channels\<rparr>"
  have chk: "sfe_rx4_check_format ?sc0 \<noteq> 0 \<longleftrightarrow> \<not> (bf_bits (get_bits_fmt ?g) \<noteq> 0 \<or> bf_func (get_bits_fmt ?g) = DSPFUNC_FFT_LPWR)"
    by (simp add: sfe_rx4_check_format_def Let_def EINVAL_def)
  have sc: "(if sfe_rx4_check_format ?sc0 \<noteq> 0 then ?sc0\<lparr>sc_sfmt := fallback_fmt host\<rparr> else ?sc0) =
    \<lparr>sc_sfmt = rx_wire pfmt, sc_spburst = pktsyms, sc_burstspblk = 0, sc_chcnt = chcount, sc_channels = channels\<rparr>"
    unfolding chk by (simp add: rx_wire_def f h Let_def)
  show thesis
    using assms that unfolding initialize_stream_rx_32_def f h Let_def prod.case option.case sc
    by (auto simp: iosuccess split: if_splits option.splits sum.splits)
qed

lemma rx_bifurcate_size:
  assumes "rx_bifurcate bif b sc = Inr sc1"
  shows "sc_sfmt sc1 = sc_sfmt sc" and "sc_burstspblk sc1 = sc_burstspblk sc"
    and "unat (sc_chcnt sc1) * unat (sc_spburst sc1) = unat (sc_chcnt sc) * unat (sc_spburst sc)"
    and "unat (sc_spburst sc1) \<le> unat (sc_spburst sc)"
proof -
  have e: "2 * (unat n div 2) = unat n" if "n mod 2 = 0" for n :: u32
  proof -
    have "unat n mod 2 = 0" using that by (simp add: word_unat_eq_iff unat_mod)
    then show ?thesis using mult_div_mod_eq [of 2 "unat n"] by simp
  qed
  show "sc_sfmt sc1 = sc_sfmt sc" "sc_burstspblk sc1 = sc_burstspblk sc" "unat (sc_spburst sc1) \<le> unat (sc_spburst sc)"
    "unat (sc_chcnt sc1) * unat (sc_spburst sc1) = unat (sc_chcnt sc) * unat (sc_spburst sc)"
    using assms by (auto simp: rx_bifurcate_def Let_def unat_div split: if_splits simp del: mod_0_imp_dvd dest!: e)
qed

lemma bit_rx_burst_mask:
  assumes "0 < unat n" and "unat n \<le> 32"
  shows "bit (rx_burst_mask n) k \<longleftrightarrow> 32 - unat n \<le> k \<and> k < 32"
proof -
  have m: "(push_bit (unat n) 1 - 1 :: u64) = mask (unat n)" by (simp add: mask_eq_exp_minus_1)
  show ?thesis unfolding rx_burst_mask_def m using assms by (auto simp: bit_simps bit_mask_word)
qed

text \<open>A receive stream that was created has packets on the wire with room for all samples of all
  channels in the format that was chosen, in at most 32 bursts, the size of a packet in the host's
  format follows from it, and the mask of expected bursts has one bit for each.\<close>

theorem rx_stream_holds_packet:
  assumes "initialize_stream_rx_32 vfs ll chcount channels pktsyms fe sx_base sx_cfg_base pfmt need_fd bif env tr = (Inr s, tr')"
    and "cfg_fecore_id fe \<noteq> CORE_EXFERX_DMA32_R0" and "8 \<le> unat (cfg_word_bytes fe)" and "unat (cfg_word_bytes fe) \<le> 16"
    and "64 * unat pktsyms + 128 < 2 ^ 32" and "bf_func (get_bits_fmt (rx_wire pfmt)) \<noteq> DSPFUNC_FFT_LPWR"
  shows "payload_bits (rx_wire pfmt) chcount pktsyms \<le> 8 * unat (sd_pkt_bytes s) \<and> sd_pkt_symbs s = pktsyms \<and> pktsyms \<noteq> 0 \<and>
    sd_burst_count s \<noteq> 0 \<and> sd_burst_count s \<le> 32 \<and> sd_host_bytes s = sd_tf_size s (sd_pkt_bytes s) False \<and>
    (\<forall>k. bit (sd_burst_mask s) k \<longleftrightarrow> 32 - unat (sd_burst_count s) \<le> k \<and> k < 32)"
proof -
  obtain sc1 fc funcs ans t1 t2 lc where
    bi: "rx_bifurcate bif (get_bits_fmt (rx_wire pfmt)) \<lparr>sc_sfmt = rx_wire pfmt, sc_spburst = pktsyms, sc_burstspblk = 0,
       sc_chcnt = chcount, sc_channels = channels\<rparr> = Inr sc1"
    and cf: "sfe_rx4_configure fe sc1 env t1 = (Inr fc, t2)" and nz: "pktsyms \<noteq> 0"
    and s: "s = rx_stream fe sx_base pktsyms lc sc1 (get_bits_fmt (rx_wire pfmt)) funcs fc ans"
    using initialize_rx_run [OF assms(1,2)] by metis
  note b = rx_bifurcate_size [OF bi, simplified]
  have lim: "64 * unat (sc_spburst sc1) + 8 * unat (cfg_word_bytes fe) < 2 ^ 32" using b(4) assms(4,5) by simp
  obtain sm samples cap where bf: "burst_fits (simple_fe_config fe sm) sc1 (rx_bps sc1)
      \<lparr>bd_bytes = fc_bpb fc, bd_capacity = cap, bd_count = fc_burstspblk fc, bd_samples = samples\<rparr>"
    using sfe_rx4_configure_run [OF cf assms(3) lim] by blast
  let ?c = "unat (fc_burstspblk fc)" and ?b = "unat (fc_bpb fc)"
  have f: "fc_burstspblk fc \<noteq> 0" "fc_burstspblk fc \<le> 32" "unat samples * ?c = unat (sc_spburst sc1)"
    "rx_bps sc1 * unat samples \<le> 8 * ?b" "?b \<le> unat (cfg_word_bytes fe) * 8193"
    using bf b(2) by (simp_all add: burst_fits_def simple_fe_config_def MAX_BURSTS_RX_IN_BUFF_def fe_field_defs push_bit_eq_mult)
  then have c: "0 < ?c" "?c \<le> 32" by (simp_all add: unat_gt_0 word_le_nat_alt)
  have "?b \<le> 16 * 8193" using le_trans [OF f(5) mult_le_mono1 [OF assms(4)]] .
  then have "?b * ?c \<le> (16 * 8193) * 32" using c(2) by (rule mult_le_mono)
  then have m: "unat (fc_bpb fc * fc_burstspblk fc) = ?b * ?c" by (intro unat_mult_lem [THEN iffD1]) simp
  have "payload_bits (rx_wire pfmt) chcount pktsyms = rx_bps sc1 * unat (sc_spburst sc1)"
    using b(1,3) assms(6) by (simp add: payload_bits_def rx_bps_def Let_def mult.assoc)
  also have "\<dots> = rx_bps sc1 * unat samples * ?c" using f(3) by simp
  also have "\<dots> \<le> 8 * ?b * ?c" using f(4) by simp
  finally have "payload_bits (rx_wire pfmt) chcount pktsyms \<le> 8 * unat (fc_bpb fc * fc_burstspblk fc)" unfolding m by simp
  then show ?thesis using s nz f(1,2) bit_rx_burst_mask [OF c] by (simp add: rx_stream_def Let_def)
qed

definition no_vfs :: vfs where
  "no_vfs = (\<lambda>name. if name = ''/ll/sync/0/base'' then Inr 32 else Inl (- ENOENT))"

definition ll_ok :: "stream_params \<Rightarrow> stream_init" where
  "ll_ok p = \<lparr>si_res = 0, si_sid = 0, si_fd = - 1, si_out_mtu_size = 65536, si_out_max_bursts = sp_out_max_bursts p\<rparr>"

theorem rx_stream_holds_packet_witness:
  "\<exists>s tr'. initialize_stream_rx_32 no_vfs ll_ok 1 (replicate 64 0) 1024 fe4 48 0 \<lparr>host_fmt = Some ''cf32'', wire_fmt = Some ''ci16''\<rparr> False False accept_all [] = (Inr s, tr') \<and>
     32 * 1024 \<le> 8 * unat (sd_pkt_bytes s)"
proof -
  let ?p = "\<lparr>host_fmt = Some ''cf32'', wire_fmt = Some ''ci16''\<rparr>"
  have w: "rx_wire ?p = ''ci16''"
    by (simp add: rx_wire_def fmt_select_def fmt_raw_def ci16_fmt)
  have t: "get_transform_fn ''ci16'' ''cf32'' (Suc 0) (Suc 0) = Some (Tr_i16_f32, tr_conv_i16_f32_sz)"
    by (simp add: get_transform_fn_def fmt_tests strcaseeq_def tolower_def less_eq_char_def)
  have c: "burst_fe_calculate (simple_fe_config fe4 1) (psc_ci16 1024 0) 2 16 = Some (Inr \<lparr>bd_bytes = 4096, bd_capacity = 16, bd_count = 1, bd_samples = 1024\<rparr>)"
    by (simp add: burst_fe_calculate_def Let_def burst_words_def burst_out_def burst_cap_def fe4_def
      psc_ci16_def simple_fe_config_def fe_field_defs MAX_BURSTS_RX_IN_BUFF_def burst_search.simps)
  have f: "cfg_fecore_id fe4 = 0" "cfg_word_bytes fe4 = 8" "cfg_base fe4 = 0" "2 ^ IPBLK_PARAM_BUFFER_SIZE_ADDR = cfg_fifomaxbytes fe4"
    by (simp_all add: fe4_def fe_field_defs)
  have "\<exists>s tr'. initialize_stream_rx_32 no_vfs ll_ok 1 (replicate 64 0) 1024 fe4 48 0 ?p False False accept_all [] = (Inr s, tr')"
    using c [unfolded psc_ci16_def]
    by (simp add: initialize_stream_rx_32_def fmt_select_def fmt_raw_def sfe_rx4_check_format_def ci16_fmt t rx_bifurcate_def
      dma_rx32_reset_def dma_rx32_configure_def sfe_rx4_configure_def sfe_rx4_chfmt_def configure_simple_fe_generic_def Let_def
      sfetrx4_stream_sync_def no_vfs_def sync_cmd_def ll_ok_def DSPFUNC_FFT_LPWR_def sfe_srx4_reg_set_def core_defs f)
  then obtain s tr' where r: "initialize_stream_rx_32 no_vfs ll_ok 1 (replicate 64 0) 1024 fe4 48 0 ?p False False accept_all [] = (Inr s, tr')" by blast
  have "payload_bits (rx_wire ?p) 1 1024 \<le> 8 * unat (sd_pkt_bytes s)"
    using rx_stream_holds_packet [OF r] f unfolding w by (simp add: ci16_fmt DSPFUNC_FFT_LPWR_def core_defs)
  with r show ?thesis unfolding w by (auto simp: payload_bits_def ci16_fmt)
qed





text \<open>If the firmware revision cannot be read, the check of the transmit stream compares what happens
  to be on the stack: the same failure lets one call through and stops another.\<close>

theorem fw_unreadable_undefined:
  "fw_outdated (\<lambda>_. Inl (- ENOENT)) 0 \<and> \<not> fw_outdated (\<lambda>_. Inl (- ENOENT)) (ucast MINIM_FWID_COMPAT)"
  by (simp add: fw_outdated_def get_xilinx_rev_h_def MINIM_FWID_COMPAT_def)

text \<open>The format parser reports no logical channels for every format that is not raw, whatever the
  number of channels of the request.\<close>

lemma parse_sfetrx4_no_channels:
  assumes "parse_sfetrx4 dformat channels pktsyms chcnt = Inr cfg" 
    and "fmt_select (stream_parse_dformat dformat) = Some f" and "\<not> fmt_raw f"
  shows "cf_logicchs cfg = 0 \<and> cf_cfgchs cfg = 0 \<and> sc_chcnt (cf_sc cfg) = chcnt"
  using assms by (auto simp: parse_sfetrx4_def Let_def split: if_splits)

end
