(* ===== verification/Base64.thy ===== *)
theory Base64
  imports Prelude
begin

text \<open>
  Base 64 (\<open>src/lib/json_controller/base64.c\<close>): bytes to text in groups of three with the unsigned
  loop bounds of the code, and back. Texts are HOL strings without the terminating zero.
\<close>

section \<open>The code\<close>

definition schar :: "char \<Rightarrow> u32" where
  "schar c = scast (of_char c :: u8)"

definition b64_int :: "u32 \<Rightarrow> u32" where
  "b64_int ch =
    (if ch = 43 then 62 else if ch = 47 then 63 else if ch = 61 then 64
     else if ch > 47 \<and> ch < 58 then ch + 4
     else if ch > 64 \<and> ch < 91 then ch - 65
     else if ch > 96 \<and> ch < 123 then (ch - 97) + 26
     else 0)"

definition b64_chr :: string where
  "b64_chr = ''ABCDEFGHIJKLMNOPQRSTUVWXYZabcdefghijklmnopqrstuvwxyz0123456789+/''"

definition b64_c0 :: "u8 \<Rightarrow> char" where
  "b64_c0 s0 = b64_chr ! unat (drop_bit 2 (ucast s0 AND 0xff :: u32))"
definition b64_c1 :: "u8 \<Rightarrow> u8 \<Rightarrow> char" where
  "b64_c1 s0 s1 = b64_chr ! unat (push_bit 4 (ucast s0 AND 0x03) + drop_bit 4 (ucast s1 AND 0xf0) :: u32)"
definition b64_c2 :: "u8 \<Rightarrow> u8 \<Rightarrow> char" where
  "b64_c2 s1 s2 = b64_chr ! unat (push_bit 2 (ucast s1 AND 0x0f) + drop_bit 6 (ucast s2 AND 0xc0) :: u32)"
definition b64_c3 :: "u8 \<Rightarrow> char" where
  "b64_c3 s2 = b64_chr ! unat (ucast s2 AND 0x3f :: u32)"

text \<open>The loop over whole groups from position \<open>i\<close>, where \<open>src\<close> is what is left of the buffer: the
  text so far, the position and the rest. Reading past the buffer is \<open>OUT_OF_BOUNDS\<close>.\<close>

fun b64_groups :: "u32 \<Rightarrow> u32 \<Rightarrow> u8 list \<Rightarrow> int + string \<times> u32 \<times> u8 list" where
  "b64_groups bsz i (a # b # c # r) =
    (if i < bsz - 2 then
       (case b64_groups bsz (i + 3) r of
          Inl e \<Rightarrow> Inl e
        | Inr (out, i', r') \<Rightarrow> Inr (b64_c0 a # b64_c1 a b # b64_c2 b c # b64_c3 c # out, i', r'))
     else Inr ([], i, a # b # c # r))"
| "b64_groups bsz i r = (if i < bsz - 2 then Inl OUT_OF_BOUNDS else Inr ([], i, r))"

definition b64_tail :: "u8 list \<Rightarrow> int + string" where
  "b64_tail s =
    (case s of
      [] \<Rightarrow> Inr []
    | [a] \<Rightarrow> Inr [b64_c0 a, b64_c1 a 0, CHR ''='', CHR ''='']
    | [a, b] \<Rightarrow> Inr [b64_c0 a, b64_c1 a b, b64_c2 b 0, CHR ''='']
    | _ \<Rightarrow> Inl OUT_OF_BOUNDS)"

definition base64_encode :: "u8 list \<Rightarrow> u32 \<Rightarrow> int + string" where
  "base64_encode src bsz =
    (case b64_groups bsz 0 src of
      Inl e \<Rightarrow> Inl e
    | Inr (out, i, r) \<Rightarrow>
        let left = (if i < bsz then unat (bsz - i) else 0) in
        if left > length r then Inl OUT_OF_BOUNDS
        else (case b64_tail (take left r) of Inl e \<Rightarrow> Inl e | Inr t \<Rightarrow> Inr (out @ t)))"

definition b64_quad :: "u32 \<Rightarrow> u32 \<Rightarrow> u32 \<Rightarrow> u32 \<Rightarrow> u8 list" where
  "b64_quad s0 s1 s2 s3 =
    ucast (push_bit 2 (s0 AND 0xff) + drop_bit 4 (s1 AND 0x30)) #
    (if s2 \<noteq> 64 then
       ucast (push_bit 4 (s1 AND 0x0f) + drop_bit 2 (s2 AND 0x3c)) #
       (if s3 \<noteq> 64 then [ucast (push_bit 6 (s2 AND 0x03) + s3)] else [])
     else [])"

fun b64_quads :: "u32 list \<Rightarrow> u8 list" where
  "b64_quads (a # b # c # d # r) = b64_quad a b c d @ b64_quads r"
| "b64_quads _ = []"

definition base64_decode :: "string \<Rightarrow> u32 \<Rightarrow> int + u8 list" where
  "base64_decode src bsz =
    (if unat bsz > length src then Inl OUT_OF_BOUNDS
     else Inr (b64_quads (map (\<lambda>c. b64_int (schar c)) (take (unat bsz) src))))"

section \<open>Lemmas\<close>

lemma b64_chr_all: "map (\<lambda>c. b64_int (schar c)) b64_chr = map of_nat [0..<64]"
  by (simp add: b64_chr_def schar_def b64_int_def upt_conv_Cons)

lemma b64_int_chr: "n < 64 \<Longrightarrow> b64_int (schar (b64_chr ! n)) = of_nat n"
proof -
  assume n: "n < 64"
  have l: "length b64_chr = 64" by (simp add: b64_chr_def)
  have "map (\<lambda>c. b64_int (schar c)) b64_chr ! n = map of_nat [0..<64] ! n" by (simp only: b64_chr_all)
  then show ?thesis using n by (simp add: l)
qed

lemma b64_int_eq [simp]: "b64_int (schar (CHR ''='')) = 64"
  by (simp add: schar_def b64_int_def)

lemma b64_idx: "w < 64 \<Longrightarrow> b64_int (schar (b64_chr ! unat w)) = w"
  using b64_int_chr [of "unat w"] by (simp add: word_less_nat_alt)

lemma b64_masks_int:
  "(0x30 :: int) = push_bit 4 (mask 2)" "(0x3c :: int) = push_bit 2 (mask 4)" "(0xc0 :: int) = push_bit 6 (mask 2)"
  "(0xc :: int) = push_bit 2 (mask 2)" "(0xfc :: int) = push_bit 2 (mask 6)"
  "(0x3fc :: int) = push_bit 2 (mask 8)"
  by (simp_all add: push_bit_eq_mult mask_eq_exp_minus_1)

lemma bit_b64_masks [bitfield]:
  "bit (0x30 :: int) n \<longleftrightarrow> 4 \<le> n \<and> n < 6" "bit (0x3c :: int) n \<longleftrightarrow> 2 \<le> n \<and> n < 6"
  "bit (0xc0 :: int) n \<longleftrightarrow> 6 \<le> n \<and> n < 8" "bit (0xc :: int) n \<longleftrightarrow> 2 \<le> n \<and> n < 4"
  "bit (0xfc :: int) n \<longleftrightarrow> 2 \<le> n \<and> n < 8"
  "bit (0x3fc :: int) n \<longleftrightarrow> 2 \<le> n \<and> n < 10"
  unfolding b64_masks_int bit_push_bit_iff bit_mask_iff by auto

lemma b64_or:
  "push_bit 4 (ucast (a :: u8) AND 0x03 :: u32) + drop_bit 4 (ucast (b :: u8) AND 0xf0) = push_bit 4 (ucast a AND 0x03) OR drop_bit 4 (ucast b AND 0xf0)"
  "push_bit 2 (ucast b AND 0x0f :: u32) + drop_bit 6 (ucast (c :: u8) AND 0xc0) = push_bit 2 (ucast b AND 0x0f) OR drop_bit 6 (ucast c AND 0xc0)"
  by (rule disjunctive_add_eq_or; auto intro!: bit_word_eqI simp: bit_simps bitfield dest: bit_imp_le_length)+

lemma below_64: "(\<And>n. bit w n \<Longrightarrow> n < 6) \<Longrightarrow> w < (64 :: u32)"
proof -
  assume "\<And>n. bit w n \<Longrightarrow> n < 6"
  then have "w = w AND mask 6" by (auto intro!: bit_word_eqI simp: bit_simps bit_mask_word)
  also have "\<dots> < 2 ^ 6" by (rule and_mask_less') simp
  finally show ?thesis by simp
qed

lemma b64_sextets:
  "drop_bit 2 (ucast (a :: u8) AND 0xff :: u32) < 64"
  "push_bit 4 (ucast a AND 0x03) + drop_bit 4 (ucast (b :: u8) AND 0xf0) < (64 :: u32)"
  "push_bit 2 (ucast b AND 0x0f) + drop_bit 6 (ucast (c :: u8) AND 0xc0) < (64 :: u32)"
  "(ucast c AND 0x3f :: u32) < 64"
     apply (rule below_64, auto simp: bit_simps bitfield dest: bit_imp_le_length)[1]
    apply (rule below_64, unfold b64_or, auto simp: bit_simps bitfield dest: bit_imp_le_length)[1]
   apply (rule below_64, unfold b64_or, auto simp: bit_simps bitfield dest: bit_imp_le_length)[1]
  apply (rule below_64, auto simp: bit_simps bitfield dest: bit_imp_le_length)[1]
  done

text \<open>The bits of the four sextets of a group, and what the decoder makes of them.\<close>

lemma sextet_bits:
  "bit (drop_bit 2 (ucast (a :: u8) AND 0xff :: u32)) n \<longleftrightarrow> bit a (n + 2)"
  "bit (push_bit 4 (ucast a AND 0x03) + drop_bit 4 (ucast (b :: u8) AND 0xf0) :: u32) n \<longleftrightarrow>
     (if n < 4 then bit b (n + 4) else n < 6 \<and> bit a (n - 4))"
  "bit (push_bit 2 (ucast b AND 0x0f) + drop_bit 6 (ucast (c :: u8) AND 0xc0) :: u32) n \<longleftrightarrow>
     (if n < 2 then bit c (n + 6) else n < 6 \<and> bit b (n - 2))"
  "bit (ucast c AND 0x3f :: u32) n \<longleftrightarrow> n < 6 \<and> bit c n"
     apply (auto simp: bit_simps bitfield dest: bit_imp_le_length)[1]
    apply (unfold b64_or)
    apply (auto simp: bit_simps bitfield add.commute dest: bit_imp_le_length)
  done

lemma sextets_dec:
  assumes x: "\<And>n. bit x n \<longleftrightarrow> bit (a :: u8) (n + 2)"
    and y: "\<And>n. bit y n \<longleftrightarrow> (if n < 4 then bit (b :: u8) (n + 4) else n < 6 \<and> bit a (n - 4))"
    and z: "\<And>n. bit z n \<longleftrightarrow> (if n < 2 then bit (c :: u8) (n + 6) else n < 6 \<and> bit b (n - 2))"
    and w: "\<And>n. bit w n \<longleftrightarrow> n < 6 \<and> bit c n"
  shows "ucast (push_bit 2 (x AND 0xff) + drop_bit 4 (y AND 0x30) :: u32) = a"
    and "ucast (push_bit 4 (y AND 0x0f) + drop_bit 2 (z AND 0x3c) :: u32) = b"
    and "ucast (push_bit 6 (z AND 0x03) + w :: u32) = c"
proof -
  have suc2: "Suc (Suc (n - 2)) = n" if "2 \<le> n" for n using that by arith
  have o: "push_bit 2 (x AND 0xff) + drop_bit 4 (y AND 0x30) = push_bit 2 (x AND 0xff) OR drop_bit 4 (y AND 0x30)"
    "push_bit 4 (y AND 0x0f) + drop_bit 2 (z AND 0x3c) = push_bit 4 (y AND 0x0f) OR drop_bit 2 (z AND 0x3c)"
    "push_bit 6 (z AND 0x03) + w = push_bit 6 (z AND 0x03) OR w"
    by (rule disjunctive_add_eq_or; auto intro!: bit_word_eqI simp: bit_simps bitfield w dest: bit_imp_le_length)+
  show "ucast (push_bit 2 (x AND 0xff) + drop_bit 4 (y AND 0x30) :: u32) = a" unfolding o
    by (rule bit_word_eqI) (auto simp: bit_simps bitfield x y suc2 not_less)
  show "ucast (push_bit 4 (y AND 0x0f) + drop_bit 2 (z AND 0x3c) :: u32) = b" unfolding o
    by (rule bit_word_eqI) (auto simp: bit_simps bitfield y z)
  show "ucast (push_bit 6 (z AND 0x03) + w :: u32) = c" unfolding o
    by (rule bit_word_eqI) (auto simp: bit_simps bitfield z w)
qed


lemma b64_idx_c:
  "b64_int (schar (b64_c0 a)) = drop_bit 2 (ucast a AND 0xff)"
  "b64_int (schar (b64_c1 a b)) = push_bit 4 (ucast a AND 0x03) + drop_bit 4 (ucast b AND 0xf0)"
  "b64_int (schar (b64_c2 b c)) = push_bit 2 (ucast b AND 0x0f) + drop_bit 6 (ucast c AND 0xc0)"
  "b64_int (schar (b64_c3 c)) = ucast c AND 0x3f"
  unfolding b64_c0_def b64_c1_def b64_c2_def b64_c3_def by (rule b64_idx, rule b64_sextets)+

lemma b64_quad_chars:
  "b64_quad (b64_int (schar (b64_c0 a))) (b64_int (schar (b64_c1 a b))) (b64_int (schar (b64_c2 b c))) (b64_int (schar (b64_c3 c))) = [a, b, c]"
  "b64_quad (b64_int (schar (b64_c0 a))) (b64_int (schar (b64_c1 a b))) (b64_int (schar (b64_c2 b 0))) 64 = [a, b]"
  "b64_quad (b64_int (schar (b64_c0 a))) (b64_int (schar (b64_c1 a 0))) 64 64 = [a]"
proof -
  have n: "w < 64 \<Longrightarrow> w \<noteq> 64" for w :: u32 by auto
  note ne = n [OF b64_sextets(3)] n [OF b64_sextets(4)]
  note d = sextets_dec [OF sextet_bits]
  show "b64_quad (b64_int (schar (b64_c0 a))) (b64_int (schar (b64_c1 a b))) (b64_int (schar (b64_c2 b c))) (b64_int (schar (b64_c3 c))) = [a, b, c]"
    "b64_quad (b64_int (schar (b64_c0 a))) (b64_int (schar (b64_c1 a b))) (b64_int (schar (b64_c2 b 0))) 64 = [a, b]"
    "b64_quad (b64_int (schar (b64_c0 a))) (b64_int (schar (b64_c1 a 0))) 64 64 = [a]"
    unfolding b64_idx_c b64_quad_def d by (simp_all only: ne if_True if_False not_False_eq_True simp_thms)
qed

lemma b64_groups_spec:
  assumes "2 \<le> unat bsz" and "unat i + length xs = unat bsz"
  shows "\<exists>out i' ys r. b64_groups bsz i xs = Inr (out, i', r) \<and> xs = ys @ r \<and> length r < 3 \<and> unat i' + length r = unat bsz \<and>
    3 * length out = 4 * length ys \<and>
    (\<forall>q. b64_quads (map (\<lambda>c. b64_int (schar c)) (out @ q)) = ys @ b64_quads (map (\<lambda>c. b64_int (schar c)) q))"
  using assms
proof (induction bsz i xs rule: b64_groups.induct)
  case (1 bsz i a b c r)
  have m: "unat (bsz - 2) = unat bsz - 2" using 1(2) by (simp add: unat_sub word_le_nat_alt)
  then have lt: "i < bsz - 2" using 1(3) by (simp add: word_less_nat_alt)
  have "unat i + unat (3 :: u32) < 2 ^ LENGTH(32)" using 1(3) unsigned_less [of bsz, where ?'a = nat] by simp
  then have "unat (i + 3) = unat i + 3" by (simp add: unat_add_lem [THEN iffD1])
  then have "unat (i + 3) + length r = unat bsz" using 1(3) by simp
  from 1(1) [OF lt 1(2) this] obtain out i' ys r' where
    h: "b64_groups bsz (i + 3) r = Inr (out, i', r')" "r = ys @ r'" "length r' < 3" "unat i' + length r' = unat bsz"
      "3 * length out = 4 * length ys"
      "\<forall>q. b64_quads (map (\<lambda>c. b64_int (schar c)) (out @ q)) = ys @ b64_quads (map (\<lambda>c. b64_int (schar c)) q)" by blast
  show ?case
    by (intro exI [of _ "b64_c0 a # b64_c1 a b # b64_c2 b c # b64_c3 c # out"] exI [of _ i'] exI [of _ "a # b # c # ys"] exI [of _ r'])
      (use h lt in \<open>simp add: b64_quad_chars\<close>)
qed (auto simp: word_less_nat_alt unat_sub word_le_nat_alt)

text \<open>C33: Decoding what the encoder made of a buffer of two bytes or more gives the buffer back, and the text
  has four characters for every three bytes begun.\<close>

theorem base64_round_trip:
  assumes "2 \<le> length xs" and "length xs < 2 ^ 31"
  shows "\<exists>out. base64_encode xs (of_nat (length xs)) = Inr out \<and> length out = 4 * ((length xs + 2) div 3) \<and>
    base64_decode out (of_nat (length out)) = Inr xs"
proof -
  let ?n = "of_nat (length xs) :: u32" and ?f = "\<lambda>c. b64_int (schar c)"
  have n: "unat ?n = length xs" using assms(2) by (intro unat_of_nat32) simp
  obtain out i ys r where g: "b64_groups ?n 0 xs = Inr (out, i, r)" and xs: "xs = ys @ r" and r: "length r < 3" "unat i + length r = length xs"
    and l: "3 * length out = 4 * length ys" and q: "\<And>q. b64_quads (map ?f (out @ q)) = ys @ b64_quads (map ?f q)"
    using b64_groups_spec [of ?n 0 xs] assms(1) n by auto
  have left: "(if i < ?n then unat (?n - i) else 0) = length r"
    using r(2) n by (cases "r = []") (auto simp: word_less_nat_alt unat_sub word_le_nat_alt simp flip: length_greater_0_conv)
  have "\<exists>t. b64_tail r = Inr t \<and> length t = 4 * ((length r + 2) div 3) \<and> b64_quads (map ?f t) = r"
  proof -
    consider "r = []" | a where "r = [a]" | a b where "r = [a, b]"
      using r(1) by (cases r; cases "tl r"; cases "tl (tl r)") auto
    then show ?thesis by cases (simp_all add: b64_tail_def b64_quad_chars)
  qed
  then obtain t where t: "b64_tail r = Inr t" "length t = 4 * ((length r + 2) div 3)" "b64_quads (map ?f t) = r" by blast
  have e: "base64_encode xs ?n = Inr (out @ t)" using left t(1) by (simp add: base64_encode_def g Let_def)
  have len: "length (out @ t) = 4 * ((length xs + 2) div 3)"
  proof -
    have "3 dvd length ys" using l by presburger
    then obtain k where k: "length ys = 3 * k" by (auto elim: dvdE)
    moreover have "(3 * k + length r + 2) div 3 = k + (length r + 2) div 3" by presburger
    ultimately show ?thesis using l t(2) by (simp add: xs del: add_2_eq_Suc')
  qed
  have u: "unat (of_nat (length (out @ t)) :: u32) = length (out @ t)"
    using assms(2) by (intro unat_of_nat32) (simp only: len, simp)
  have "base64_decode (out @ t) (of_nat (length (out @ t))) = Inr xs"
    unfolding base64_decode_def u using q [of t] t(3) by (simp add: xs)
  with e len show ?thesis by blast
qed

theorem base64_round_trip_witness:
  "\<exists>out. base64_encode [1, 2, 255, 0] 4 = Inr out \<and> length out = 8 \<and> base64_decode out 8 = Inr [1, 2, 255, 0]"
proof -
  have "\<exists>out. base64_encode [1, 2, 255, 0] 4 = Inr out \<and> length out = 8 \<and> base64_decode out (of_nat (length out)) = Inr [1, 2, 255, 0]"
    using base64_round_trip [of "[1, 2, 255, 0]"] by simp
  then show ?thesis by auto
qed

text \<open>The bound of the encoder's loop is \<open>bsz - 2\<close> in unsigned arithmetic: a buffer of one byte makes it
  wrap and the loop reads past the end.\<close>

theorem base64_encode_overruns: "base64_encode [x] 1 = Inl OUT_OF_BOUNDS \<and> base64_encode [] 0 = Inl OUT_OF_BOUNDS"
proof -
  have "(0 :: u32) < - 1" "(0 :: u32) < - 2" by (simp_all add: word_gt_0)
  then show ?thesis by (simp add: base64_encode_def)
qed

end
