(* ===== verification/ClockGen.thy ===== *)
theory ClockGen
  imports Prelude
begin

text \<open>
  Clock planning (\<open>src/lib/common/clock_gen.c\<close>): the integer and fractional part of a PLL, the choice
  of a divider from a range with forbidden values, and the search for a VCO whose band holds a
  multiple of all requested frequencies. Products and sums are in the widths of the code.
\<close>

section \<open>The code\<close>

record pll_vals =
  pv_nint :: u32
  pv_nfrac :: u64

definition pll_solver :: "u64 \<Rightarrow> u32 \<Rightarrow> u64 \<Rightarrow> int + pll_vals" where
  "pll_solver vco ref den =
    (if ref = 0 then Inl CRASH_FPE
     else
       let n = ucast (vco div ucast ref) :: u32;
           fi = ucast ref * ucast n :: u64
       in Inr \<lparr>pv_nint = n, pv_nfrac = ucast ((ucast (vco - fi) * ucast den :: 128 word) div ucast ref)\<rparr>)"

record vco_range =
  vcomin :: u64
  vcomax :: u64

record div_range =
  mindiv :: u32
  maxdiv :: u32
  dr_step :: u32
  dr_count :: u32
  pinvlid :: "u32 list option"

text \<open>The first entry that is not below \<open>d\<close>, and the entries after it. \<open>None\<close>: the scan ran past the
  array.\<close>

fun skip_below :: "u32 \<Rightarrow> u32 list \<Rightarrow> (u32 \<times> u32 list) option" where
  "skip_below d [] = None"
| "skip_below d (s # r) = (if s < d then skip_below d r else Some (s, r))"

fun skip_invalid :: "u32 \<Rightarrow> u32 \<Rightarrow> u32 \<Rightarrow> u32 \<Rightarrow> u32 list \<Rightarrow> u32 option" where
  "skip_invalid hi step d s r =
    (if d \<le> hi \<and> s = d then
       (case r of [] \<Rightarrow> None | s' # r' \<Rightarrow> skip_invalid hi step (d + step) s' r')
     else Some d)"

text \<open>The result is an \<open>int\<close> in the code: \<open>- 1\<close> for a request above the range.\<close>

definition find_divg :: "div_range \<Rightarrow> u32 \<Rightarrow> int + u32" where
  "find_divg r req =
    (if mindiv r \<ge> req then Inr (mindiv r)
     else if maxdiv r < req then Inr (- 1)
     else if dr_step r = 0 then Inl CRASH_FPE
     else
       let k = (req - mindiv r + dr_step r - 1) div dr_step r;
           d = mindiv r + k * dr_step r
       in case pinvlid r of
            None \<Rightarrow> Inr d
          | Some l \<Rightarrow>
              (case skip_below d l of
                 None \<Rightarrow> Inl OUT_OF_BOUNDS
               | Some (s, l') \<Rightarrow>
                   (case skip_invalid (maxdiv r) (dr_step r) d s l' of
                      None \<Rightarrow> Inl OUT_OF_BOUNDS
                    | Some d' \<Rightarrow> Inr d')))"

definition nodiv :: div_range where
  "nodiv = \<lparr>mindiv = 1, maxdiv = 1, dr_step = 1, dr_count = 1, pinvlid = None\<rparr>"

definition lcm_freq :: "u64 list \<Rightarrow> u64" where
  "lcm_freq freqs = foldl (\<lambda>m f. if m < f then f else m) 0 freqs"

text \<open>The dividers of the requests below the highest of them.\<close>

fun req_divs :: "u64 \<Rightarrow> u64 list \<Rightarrow> int + u32 list" where
  "req_divs lf [] = Inr []"
| "req_divs lf (f # fs) =
    (if f - 3 = 0 then Inl CRASH_FPE
     else if lf mod (f - 3) > 2 * 2500 then Inl (- 2)
     else if f - 2500 = 0 then Inl CRASH_FPE
     else (case req_divs lf fs of Inl e \<Rightarrow> Inl e | Inr ds \<Rightarrow> Inr (ucast (lf div (f - 2500)) # ds)))"

text \<open>The loop over the dividers of the second stage for one VCO: \<open>Inr None\<close> when it is exhausted,
  otherwise the two dividers.\<close>

partial_function (option) vco_search :: "vco_range \<Rightarrow> div_range \<Rightarrow> div_range \<Rightarrow> u64 \<Rightarrow> u32 \<Rightarrow> (int + (u32 \<times> u32) option) option" where
  "vco_search v d0 dn lf nxt =
    (case find_divg dn (nxt + 1) of
       Inl e \<Rightarrow> Some (Inl e)
     | Inr fr \<Rightarrow>
         if sint fr \<le> 0 then Some (Inr None)
         else
           let rfreq = lf * ucast fr in
           if rfreq = 0 then Some (Inl CRASH_FPE)
           else (case find_divg d0 (ucast (vcomax v div rfreq)) of
               Inl e \<Rightarrow> Some (Inl e)
             | Inr sdiv \<Rightarrow>
                 if sint sdiv < 0 \<or> vcomax v < rfreq * scast sdiv \<or> vcomin v > rfreq * scast sdiv
                 then vco_search v d0 dn lf fr
                 else Some (Inr (Some (sdiv, fr)))))"

definition vco_start :: "vco_range \<Rightarrow> div_range \<Rightarrow> u64 \<Rightarrow> u32" where
  "vco_start v d0 lf =
    (let n = ucast (vcomin v div lf div ucast (maxdiv d0)) in if n > 1 then n - 1 else n)"

fun vco_first :: "nat \<Rightarrow> vco_range list \<Rightarrow> div_range \<Rightarrow> div_range \<Rightarrow> u64 \<Rightarrow> (int + (nat \<times> u32 \<times> u32)) option" where
  "vco_first i [] d0 dn lf = Some (Inl (- 1))"
| "vco_first i (v # vs) d0 dn lf =
    (if maxdiv d0 = 0 \<or> lf = 0 then Some (Inl CRASH_FPE)
     else (case vco_search v d0 dn lf (vco_start v d0 lf) of
         None \<Rightarrow> None
       | Some (Inl e) \<Rightarrow> Some (Inl e)
       | Some (Inr None) \<Rightarrow> vco_first (Suc i) vs d0 dn lf
       | Some (Inr (Some (sdiv, fr))) \<Rightarrow> Some (Inr (i, sdiv, fr))))"

text \<open>The dividers go to \<open>out_freq_divs\<close>: the first stage at 0, the second from \<open>count\<close> of the first on.
  With a single stage the code has no place for the second.\<close>

definition second_stage :: "div_range list \<Rightarrow> div_range" where
  "second_stage divs = (if length divs > 1 then divs ! 1 else nodiv)"

definition find_best_vco :: "vco_range list \<Rightarrow> div_range list \<Rightarrow> u64 list \<Rightarrow> u32 list \<Rightarrow> (int + (nat \<times> u32 list)) option" where
  "find_best_vco vcos divs freqs out =
    (let lf = lcm_freq freqs in
     case req_divs lf freqs of
       Inl e \<Rightarrow> Some (Inl e)
     | Inr rds \<Rightarrow>
         (if divs = [] \<and> vcos \<noteq> [] then Some (Inl OUT_OF_BOUNDS)
          else (case vco_first 0 vcos (hd divs) (second_stage divs) lf of
              None \<Rightarrow> None
            | Some (Inl e) \<Rightarrow> Some (Inl e)
            | Some (Inr (i, sdiv, fr)) \<Rightarrow>
                let off = unat (dr_count (hd divs)) in
                if length divs < 2 \<and> freqs \<noteq> [] \<or> length out = 0 \<or> length out < off + length freqs then Some (Inl OUT_OF_BOUNDS)
                else Some (Inr (i, take off (out[0 := sdiv]) @ map (\<lambda>r. fr * r) rds @ drop (off + length freqs) (out[0 := sdiv]))))))"

definition calc_serder_clock :: "u64 \<Rightarrow> u32 \<Rightarrow> u64" where
  "calc_serder_clock samplerate f = samplerate * ucast f * 10"

definition calc_lmfc_clock :: "u64 \<Rightarrow> u32 \<Rightarrow> int + u32" where
  "calc_lmfc_clock samplerate k = (if k = 0 then Inl CRASH_FPE else Inr (ucast (samplerate div ucast k)))"

section \<open>Lemmas\<close>

text \<open>A range the code can work with: no wrap-around at its end, and a list of forbidden dividers that are
  dividers of the range, sorted, with the largest number as the end mark.\<close>

definition on_grid :: "div_range \<Rightarrow> nat \<Rightarrow> bool" where
  "on_grid r n \<longleftrightarrow> unat (mindiv r) \<le> n \<and> unat (dr_step r) dvd n - unat (mindiv r)"

definition forbidden :: "div_range \<Rightarrow> u32 set" where
  "forbidden r = (case pinvlid r of None \<Rightarrow> {} | Some l \<Rightarrow> set (butlast l))"

definition range_ok :: "div_range \<Rightarrow> bool" where
  "range_ok r \<longleftrightarrow> dr_step r \<noteq> 0 \<and> unat (maxdiv r) + unat (dr_step r) < 2 ^ 31 \<and> mindiv r \<le> maxdiv r \<and>
     (\<forall>l. pinvlid r = Some l \<longrightarrow> l \<noteq> [] \<and> last l = - 1 \<and> sorted_wrt (<) l \<and> (\<forall>x\<in>set (butlast l). on_grid r (unat x)))"

lemma skip_below_spec:
  assumes "l \<noteq> []" and "last l = - 1" and "sorted_wrt (<) l"
  shows "\<exists>s r. skip_below d l = Some (s, r) \<and> d \<le> s \<and> s # r \<noteq> [] \<and> last (s # r) = - 1 \<and> sorted_wrt (<) (s # r) \<and>
    set (butlast (s # r)) \<subseteq> set (butlast l) \<and> (\<forall>x\<in>set (butlast l). d \<le> x \<longrightarrow> x \<in> set (butlast (s # r)))"
  using assms
proof (induction d l rule: skip_below.induct)
  case (2 d s r)
  show ?case
  proof (cases "s < d")
    case True
    then have r: "r \<noteq> []" using 2(3) by (cases r) (auto simp: not_less)
    from 2(1) [OF True r] 2(3,4) r obtain s' r' where
      "skip_below d r = Some (s', r') \<and> d \<le> s' \<and> last (s' # r') = - 1 \<and> sorted_wrt (<) (s' # r') \<and>
       set (butlast (s' # r')) \<subseteq> set (butlast r) \<and> (\<forall>x\<in>set (butlast r). d \<le> x \<longrightarrow> x \<in> set (butlast (s' # r')))" by auto
    then show ?thesis using True r by auto
  next
    case False
    then show ?thesis using 2(3,4) by auto
  qed
qed simp

lemma skip_invalid_spec:
  assumes "0 < unat step" and "unat hi + unat step < 2 ^ 31" and "d \<le> s" and "last (s # r) = - 1" and "sorted_wrt (<) (s # r)"
    and "\<forall>x\<in>set (butlast (s # r)). unat step dvd unat x - unat d"
  shows "\<exists>d'. skip_invalid hi step d s r = Some d' \<and> d \<le> d' \<and> unat step dvd unat d' - unat d \<and>
    (d' \<le> hi \<longrightarrow> d' \<notin> set (butlast (s # r))) \<and> (unat d \<le> unat hi + unat step \<longrightarrow> unat d' \<le> unat hi + unat step) \<and>
    (\<forall>e. d \<le> e \<longrightarrow> e < d' \<longrightarrow> unat step dvd unat e - unat d \<longrightarrow> e \<in> set (butlast (s # r)))"
  using assms
proof (induction hi step d s r rule: skip_invalid.induct)
  case (1 hi step d s r)
  show ?case
  proof (cases "d \<le> hi \<and> s = d")
    case False
    moreover have "d \<notin> set (butlast (s # r))" if "s \<noteq> d"
    proof
      assume "d \<in> set (butlast (s # r))"
      then have "d \<in> set r" using that by (auto split: if_splits dest: in_set_butlastD)
      then show False using 1(4,6) by auto
    qed
    ultimately show ?thesis by (subst skip_invalid.simps) auto
  next
    case True
    have hi: "unat d \<le> unat hi" using True by (simp add: word_le_nat_alt)
    have "unat (- 1 :: u32) = 2 ^ 32 - 1" by (simp add: unsigned_minus_1_eq_mask mask_eq_exp_minus_1)
    then have "s \<noteq> - 1" using True hi 1(3) by auto
    then obtain s' r' where r: "r = s' # r'" using 1(5) by (cases r) auto
    have u: "unat (d + step) = unat d + unat step" using hi 1(3) by (intro unat_add_lem [THEN iffD1]) simp
    have lt: "unat d < unat s'" using 1(6) True by (simp add: r word_less_nat_alt)
    have ge: "d + step \<le> s'"
    proof (cases "r' = []")
      case T: True
      then have "s' = - 1" using 1(5) by (simp add: r)
      then show ?thesis by simp
    next
      case F: False
      then have "s' \<in> set (butlast (s # r))" by (simp add: r)
      then have "unat step dvd unat s' - unat d" using 1(7) by blast
      then have "unat step \<le> unat s' - unat d" using lt by (intro dvd_imp_le) auto
      then show ?thesis using lt by (simp add: word_le_nat_alt u)
    qed
    have sub: "set (butlast (s' # r')) \<subseteq> set (butlast (s # r))" by (auto simp: r)
    have dv: "\<forall>x\<in>set (butlast (s' # r')). unat step dvd unat x - unat (d + step)"
    proof
      fix x assume x: "x \<in> set (butlast (s' # r'))"
      then have "unat step dvd unat x - unat d" using 1(7) sub by blast
      moreover have "unat x - unat (d + step) = unat x - unat d - unat step" by (simp add: u)
      ultimately show "unat step dvd unat x - unat (d + step)" by (metis dvd_diff_nat dvd_refl)
    qed
    have so: "last (s' # r') = - 1" "sorted_wrt (<) (s' # r')" using 1(5,6) by (simp_all add: r)
    from 1(1) [OF True r 1(2,3) ge so dv] obtain d' where h:
      "skip_invalid hi step (d + step) s' r' = Some d'" "d + step \<le> d'" "unat step dvd unat d' - unat (d + step)"
      "d' \<le> hi \<longrightarrow> d' \<notin> set (butlast (s' # r'))" "unat d' \<le> unat hi + unat step"
      "\<forall>e. d + step \<le> e \<longrightarrow> e < d' \<longrightarrow> unat step dvd unat e - unat (d + step) \<longrightarrow> e \<in> set (butlast (s' # r'))"
      using hi u by auto
    have 1: "d \<le> d'" "unat d < unat d'" using h(2) u 1(2) by (simp_all add: word_le_nat_alt)
    have 2: "unat step dvd unat d' - unat d"
    proof -
      have "unat d' - unat d = (unat d' - unat (d + step)) + unat step" using h(2) u by (simp add: word_le_nat_alt)
      then show ?thesis using h(3) by simp
    qed
    have 3: "e \<in> set (butlast (s # r))" if "d \<le> e" "e < d'" "unat step dvd unat e - unat d" for e
    proof (cases "e = d")
      case True
      then show ?thesis using \<open>d \<le> hi \<and> s = d\<close> by (simp add: r)
    next
      case False
      then have "unat step \<le> unat e - unat d" using that by (intro dvd_imp_le) (auto simp: word_le_nat_alt word_unat_eq_iff)
      then have a: "d + step \<le> e" using that(1) by (simp add: word_le_nat_alt u)
      have "unat e - unat (d + step) = unat e - unat d - unat step" by (simp add: u)
      then have "unat step dvd unat e - unat (d + step)" using that(3) by (metis dvd_diff_nat dvd_refl)
      then show ?thesis using h(6) a that(2) sub by blast
    qed
    have 4: "d' \<notin> set (butlast (s # r))" if "d' \<le> hi"
      using h(4) that True 1(2) by (auto simp: r)
    show ?thesis using h(1,5) 1 2 3 4 True by (subst skip_invalid.simps) (auto simp: r)
  qed
qed


text \<open>The first divider of the range that is not below a request.\<close>

lemma ceil_grid:
  fixes a s :: nat
  assumes "0 < s"
  shows "a \<le> (a + s - 1) div s * s" and "(a + s - 1) div s * s < a + s"
    and "s dvd e \<Longrightarrow> a \<le> e \<Longrightarrow> (a + s - 1) div s * s \<le> e"
proof -
  let ?q = "(a + s - 1) div s"
  have m: "?q * s + (a + s - 1) mod s = a + s - 1" by simp
  have "(a + s - 1) mod s < s" using assms by simp
  then show 1: "a \<le> ?q * s" and 2: "?q * s < a + s" using m assms by linarith+
  show "s dvd e \<Longrightarrow> a \<le> e \<Longrightarrow> ?q * s \<le> e"
  proof -
    assume "s dvd e" "a \<le> e"
    then obtain k where k: "e = k * s" by (metis dvd_def mult.commute)
    have "?q * s < (k + 1) * s" using 2 \<open>a \<le> e\<close> k by simp
    then have "?q < k + 1" using mult_less_cancel2 by blast
    then show "?q * s \<le> e" by (simp add: k)
  qed
qed

lemma find_divg_spec:
  assumes r: "range_ok r" and "mindiv r < req" and "req \<le> maxdiv r"
  shows "\<exists>d. find_divg r req = Inr d \<and> req \<le> d \<and> on_grid r (unat d) \<and> (d \<le> maxdiv r \<longrightarrow> d \<notin> forbidden r) \<and>
    unat d < unat (maxdiv r) + unat (dr_step r) + 1 \<and>
    (\<forall>e. req \<le> e \<longrightarrow> e < d \<longrightarrow> on_grid r (unat e) \<longrightarrow> e \<in> forbidden r)"
proof -
  let ?m = "unat (mindiv r)" and ?s = "unat (dr_step r)" and ?a = "unat (req - mindiv r)"
  have s: "0 < ?s" and w: "unat (maxdiv r) + ?s < 2 ^ 31" using r by (simp_all add: range_ok_def unat_gt_0)
  have a: "?a = unat req - ?m" using assms(2) by (simp add: unat_sub order_less_imp_le)
  have le: "unat req \<le> unat (maxdiv r)" "?m < unat req" using assms(2,3) by (simp_all add: word_le_nat_alt word_less_nat_alt)
  define d where "d = mindiv r + (req - mindiv r + dr_step r - 1) div dr_step r * dr_step r"
  have "?a + ?s < 2 ^ 32" using a le w by simp
  then have 1: "unat (req - mindiv r + dr_step r) = ?a + ?s" by (intro unat_add_lem [THEN iffD1]) simp
  then have 2: "unat (req - mindiv r + dr_step r - 1) = ?a + ?s - 1" using s by (subst unat_minus_one) (auto simp: unat_gt_0 [symmetric])
  let ?q = "(?a + ?s - 1) div ?s * ?s"
  note c = ceil_grid [OF s, where a = ?a]
  have "?q < 2 ^ LENGTH(32)" using c(2) \<open>?a + ?s < 2 ^ 32\<close> by simp
  then have 3: "unat ((req - mindiv r + dr_step r - 1) div dr_step r * dr_step r) = ?q"
    using unat_mult_lem [of "(req - mindiv r + dr_step r - 1) div dr_step r" "dr_step r"] by (simp add: unat_div 2)
  have "?m + ?q < 2 ^ LENGTH(32)" using c(2) a le w by simp
  then have d: "unat d = ?m + ?q" using unat_add_lem [of "mindiv r" "(req - mindiv r + dr_step r - 1) div dr_step r * dr_step r"] by (simp add: d_def 3)
  have dg: "?s dvd unat d - ?m" by (simp add: d)
  have dr: "unat req \<le> unat d" "unat d < unat req + ?s" using c(1,2) a le by (simp_all add: d)
  have dmin: "unat d \<le> unat e" if "unat req \<le> unat e" "on_grid r (unat e)" for e :: u32
  proof -
    have "?q \<le> unat e - ?m" using that by (intro c(3)) (simp_all add: on_grid_def a)
    then show ?thesis using that le by (simp add: d)
  qed
  have e: "find_divg r req = (case pinvlid r of None \<Rightarrow> Inr d
      | Some l \<Rightarrow> (case skip_below d l of None \<Rightarrow> Inl OUT_OF_BOUNDS | Some (s, l') \<Rightarrow>
          (case skip_invalid (maxdiv r) (dr_step r) d s l' of None \<Rightarrow> Inl OUT_OF_BOUNDS | Some d' \<Rightarrow> Inr d')))"
  proof -
    have "\<not> req \<le> mindiv r" "\<not> maxdiv r < req" "dr_step r \<noteq> 0" using assms r by (auto simp: range_ok_def)
    then show ?thesis unfolding find_divg_def Let_def d_def [symmetric] by simp
  qed
  show ?thesis
  proof (cases "pinvlid r")
    case None
    have "\<not> (req \<le> e \<and> e < d \<and> on_grid r (unat e))" for e using dmin [of e] by (auto simp: word_le_nat_alt word_less_nat_alt)
    then show ?thesis using None dr dg le d by (intro exI [of _ d]) (auto simp: e on_grid_def forbidden_def word_le_nat_alt)
  next
    case (Some l)
    have l: "l \<noteq> []" "last l = - 1" "sorted_wrt (<) l" "\<forall>x\<in>set (butlast l). on_grid r (unat x)"
      using r Some by (auto simp: range_ok_def)
    obtain t l' where b: "skip_below d l = Some (t, l')" "d \<le> t" "last (t # l') = - 1" "sorted_wrt (<) (t # l')"
      "set (butlast (t # l')) \<subseteq> set (butlast l)" "\<forall>x\<in>set (butlast l). d \<le> x \<longrightarrow> x \<in> set (butlast (t # l'))"
      using skip_below_spec [OF l(1-3), of d] by blast
    have rel: "?s dvd n - unat d" if "?s dvd n - ?m" for n
    proof -
      have "n - unat d = (n - ?m) - (unat d - ?m)" using d by simp
      then show ?thesis using that dg by (metis dvd_diff_nat)
    qed
    have dv: "\<forall>x\<in>set (butlast (t # l')). ?s dvd unat x - unat d"
    proof
      fix x assume "x \<in> set (butlast (t # l'))"
      then have "on_grid r (unat x)" using b(5) l(4) by blast
      then show "?s dvd unat x - unat d" by (simp add: on_grid_def rel)
    qed
    obtain d' where k: "skip_invalid (maxdiv r) (dr_step r) d t l' = Some d'" "d \<le> d'" "?s dvd unat d' - unat d"
      "d' \<le> maxdiv r \<longrightarrow> d' \<notin> set (butlast (t # l'))" "unat d' \<le> unat (maxdiv r) + ?s"
      "\<forall>e. d \<le> e \<longrightarrow> e < d' \<longrightarrow> ?s dvd unat e - unat d \<longrightarrow> e \<in> set (butlast (t # l'))"
      using skip_invalid_spec [OF s w b(2-4) dv] dr le by auto
    have "unat d' - ?m = (unat d' - unat d) + (unat d - ?m)" using k(2) d by (simp add: word_le_nat_alt)
    then have "?s dvd unat d' - ?m" using dvd_add [OF k(3) dg] by simp
    moreover have "?m \<le> unat d'" using k(2) d by (simp add: word_le_nat_alt)
    ultimately have g: "on_grid r (unat d')" by (simp add: on_grid_def)
    have f: "d' \<notin> forbidden r" if "d' \<le> maxdiv r" using k(2,4) b(6) that by (auto simp: forbidden_def Some)
    have m: "x \<in> forbidden r" if "req \<le> x" "x < d'" "on_grid r (unat x)" for x
    proof -
      have "?s dvd unat x - unat d" using that(3) by (simp add: on_grid_def rel)
      moreover have "d \<le> x" using dmin [of x] that by (simp add: word_le_nat_alt)
      ultimately show ?thesis using k(6) that(2) b(5) by (auto simp: forbidden_def Some)
    qed
    have "find_divg r req = Inr d'" by (simp add: e Some b(1) k(1) del: skip_invalid.simps)
    then show ?thesis using g f m k(2,5) dr by (intro exI [of _ d']) (auto simp: word_le_nat_alt)
  qed
qed


text \<open>The divider chosen for a request inside a range is the first one of the range, from the request
  on, that is not forbidden, or lies beyond the end of the range.\<close>

theorem find_divg_least:
  assumes "range_ok r" and "mindiv r < req" and "req \<le> maxdiv r"
  shows "\<exists>d. find_divg r req = Inr d \<and> req \<le> d \<and> on_grid r (unat d) \<and> (d \<le> maxdiv r \<longrightarrow> d \<notin> forbidden r) \<and>
    (\<forall>e. req \<le> e \<longrightarrow> e < d \<longrightarrow> on_grid r (unat e) \<longrightarrow> e \<in> forbidden r)"
  using find_divg_spec [OF assms] by blast

definition prescaler :: div_range where
  "prescaler = \<lparr>mindiv = 4, maxdiv = 13, dr_step = 1, dr_count = 1, pinvlid = Some [10, 12, 0xffffffff]\<rparr>"

lemma prescaler_ok: "range_ok prescaler"
  by (simp add: range_ok_def prescaler_def on_grid_def)

theorem find_divg_least_witness:
  "\<exists>d. find_divg prescaler 10 = Inr d \<and> d \<noteq> 10 \<and> d \<noteq> 12 \<and> 10 \<le> d"
proof -
  obtain d where d: "find_divg prescaler 10 = Inr d" "10 \<le> d" "d \<le> maxdiv prescaler \<longrightarrow> d \<notin> forbidden prescaler"
    using find_divg_least [OF prescaler_ok, of 10] by (auto simp: prescaler_def)
  then show ?thesis by (auto simp: prescaler_def forbidden_def)
qed

text \<open>The result can lie beyond the end of the range although the request is inside: the last divider is
  forbidden, or the steps do not end at the end of the range.\<close>

theorem find_divg_overshoots:
  "find_divg (prescaler\<lparr>pinvlid := Some [13, 0xffffffff]\<rparr>) 13 = Inr 14 \<and>
   find_divg (prescaler\<lparr>dr_step := 2, pinvlid := None\<rparr>) 13 = Inr 14"
  by (simp add: find_divg_def prescaler_def skip_invalid.simps)

text \<open>The integer and the fractional part of the PLL are exact: their value does not exceed the
  frequency asked for, and one more unit of the fraction would.\<close>

theorem pll_solver_exact:
  assumes "ref \<noteq> 0" and "unat vco div unat ref < 2 ^ 32"
  shows "\<exists>p. pll_solver vco ref den = Inr p \<and>
    (unat (pv_nint p) * unat den + unat (pv_nfrac p)) * unat ref \<le> unat vco * unat den \<and>
    unat vco * unat den < (unat (pv_nint p) * unat den + unat (pv_nfrac p) + 1) * unat ref \<and>
    (0 < unat den \<longrightarrow> unat (pv_nfrac p) < unat den)"
proof -
  let ?V = "unat vco" and ?R = "unat ref" and ?D = "unat den"
  have R: "0 < ?R" using assms(1) by (simp add: unat_gt_0)
  define n where "n = (ucast (vco div ucast ref) :: u32)"
  have "unat (vco div ucast ref) = ?V div ?R" by (simp add: unat_div)
  then have n: "unat n = ?V div ?R" using assms(2) by (simp add: n_def unsigned_ucast_eq take_bit_nat_eq_self)
  define fi where "fi = (ucast ref * ucast n :: u64)"
  have le: "?R * (?V div ?R) \<le> ?V" by simp
  then have "?R * (?V div ?R) < 2 ^ LENGTH(64)" using unsigned_less [of vco, where ?'a = nat] by (rule le_less_trans)
  then have fi: "unat fi = ?R * (?V div ?R)" using unat_mult_lem [of "ucast ref :: u64" "ucast n"] by (simp add: fi_def n)
  have m: "unat (vco - fi) = ?V mod ?R" using le fi by (simp add: unat_sub word_le_nat_alt minus_mult_div_eq_mod)
  have lt: "?V mod ?R < 2 ^ 32" using R unsigned_less [of ref, where ?'a = nat] by (intro less_trans [OF mod_less_divisor]) simp_all
  have "?V mod ?R * ?D < 2 ^ 32 * 2 ^ 64" using lt unsigned_less [of den, where ?'a = nat] by (intro mult_strict_mono') auto
  also have "\<dots> \<le> 2 ^ LENGTH(128)" by simp
  finally have p: "unat (ucast (vco - fi) * ucast den :: 128 word) = ?V mod ?R * ?D"
    using unat_mult_lem [of "ucast (vco - fi) :: 128 word" "ucast den"] by (simp add: m)
  let ?f = "?V mod ?R * ?D div ?R"
  have f1: "?f * ?R \<le> ?V mod ?R * ?D" by (rule div_times_less_eq_dividend)
  have f2: "?V mod ?R * ?D < (?f + 1) * ?R" using R dividend_less_times_div [of ?R "?V mod ?R * ?D"] by (simp add: algebra_simps)
  have fD: "?f < ?D" if "0 < ?D"
  proof -
    have "?V mod ?R * ?D < ?R * ?D" using R that by simp
    then show ?thesis using R by (simp add: div_less_iff_less_mult mult.commute)
  qed
  have "?f \<le> ?D" using fD by (cases "?D = 0") auto
  then have f64: "?f < 2 ^ 64" using unsigned_less [of den, where ?'a = nat] by simp
  have nf: "unat (ucast ((ucast (vco - fi) * ucast den :: 128 word) div ucast ref) :: u64) = ?f"
  proof -
    have "unat ((ucast (vco - fi) * ucast den :: 128 word) div ucast ref) = ?f" by (simp add: unat_div p)
    then show ?thesis using f64 by (simp add: unsigned_ucast_eq take_bit_nat_eq_self)
  qed
  have V: "?V * ?D = (?V div ?R * ?D) * ?R + ?V mod ?R * ?D"
  proof -
    have "?V * ?D = (?V div ?R * ?R + ?V mod ?R) * ?D" by simp
    then show ?thesis by (simp only: distrib_right mult.assoc mult.commute [of ?R ?D])
  qed
  show ?thesis
    by (intro exI [of _ "\<lparr>pv_nint = n, pv_nfrac = ucast ((ucast (vco - fi) * ucast den :: 128 word) div ucast ref)\<rparr>"])
      (use assms(1) fD f1 f2 in \<open>simp add: pll_solver_def Let_def n_def [symmetric] fi_def [symmetric] nf n V distrib_right\<close>)
qed

theorem pll_solver_exact_witness:
  "\<exists>p. pll_solver 5000000001 100000000 1048576 = Inr p \<and> (unat (pv_nint p) * 1048576 + unat (pv_nfrac p)) * 100000000 \<le> 5000000001 * 1048576"
  using pll_solver_exact [of 100000000 5000000001 1048576] by auto


text \<open>With ranges the code can work with the loop over the second divider ends: it grows.\<close>

lemma find_divg_grows:
  assumes "range_ok r" and "find_divg r req = Inr d" and "0 < sint d"
  shows "req \<le> d \<and> unat d \<le> unat (maxdiv r) + unat (dr_step r)"
proof -
  have m: "sint (- 1 :: u32) = - 1" by simp
  consider "req \<le> mindiv r" | "maxdiv r < req" "mindiv r < req" | "mindiv r < req" "req \<le> maxdiv r" by fastforce
  then show ?thesis
  proof cases
    case 1
    have "mindiv r \<le> maxdiv r" using assms(1) by (simp add: range_ok_def)
    then show ?thesis using 1 assms(2) by (auto simp: find_divg_def word_le_nat_alt)
  next
    case 2
    then have "\<not> req \<le> mindiv r" by simp
    then have "d = - 1" using 2(1) assms(2) by (simp add: find_divg_def)
    then show ?thesis using m assms(3) by simp
  next
    case 3
    then show ?thesis using find_divg_spec [OF assms(1) 3] assms(2) by auto
  qed
qed

lemma find_divg_runs: "range_ok r \<Longrightarrow> \<exists>d. find_divg r req = Inr d"
proof (cases "mindiv r < req \<and> req \<le> maxdiv r")
  case True
  assume "range_ok r"
  then show ?thesis using find_divg_spec [of r req] True by blast
qed (auto simp: find_divg_def not_less not_le)

lemma vco_search_ends_below:
  assumes "range_ok dn" and "unat nxt < 2 ^ 31"
  shows "vco_search v d0 dn lf nxt \<noteq> None"
  using assms(2)
proof (induction "2 ^ 31 - unat nxt" arbitrary: nxt rule: less_induct)
  case less
  obtain fr where fr: "find_divg dn (nxt + 1) = Inr fr" using find_divg_runs [OF assms(1)] by blast
  show ?case
  proof (cases "0 < sint fr")
    case True
    have g: "nxt + 1 \<le> fr" "unat fr < 2 ^ 31" using find_divg_grows [OF assms(1) fr True] assms(1) by (auto simp: range_ok_def)
    have "unat (nxt + 1) = unat nxt + 1" using less(2) by (subst unat_add_lem [THEN iffD1]) simp_all
    then have "unat nxt < unat fr" using g by (simp add: word_le_nat_alt)
    then have "vco_search v d0 dn lf fr \<noteq> None" using less g(2) by simp
    then show ?thesis using True fr by (subst vco_search.simps) (auto simp: Let_def find_divg_def split: sum.splits)
  next
    case False
    then show ?thesis using fr by (subst vco_search.simps) (simp add: not_less)
  qed
qed

lemma vco_search_ends:
  assumes "range_ok dn"
  shows "vco_search v d0 dn lf nxt \<noteq> None"
proof -
  obtain fr where fr: "find_divg dn (nxt + 1) = Inr fr" using find_divg_runs [OF assms] by blast
  show ?thesis
  proof (cases "0 < sint fr")
    case True
    then have "unat fr < 2 ^ 31" using find_divg_grows [OF assms fr True] assms by (auto simp: range_ok_def)
    then have "vco_search v d0 dn lf fr \<noteq> None" by (rule vco_search_ends_below [OF assms])
    then show ?thesis using True fr by (subst vco_search.simps) (auto simp: Let_def split: sum.splits)
  next
    case False
    then show ?thesis using fr by (subst vco_search.simps) (simp add: not_less)
  qed
qed


lemma vco_first_ends: "range_ok dn \<Longrightarrow> vco_first i vcos d0 dn lf \<noteq> None"
  by (induction i vcos d0 dn lf rule: vco_first.induct) (auto simp: vco_search_ends split: option.splits sum.splits)

lemma nodiv_ok: "range_ok nodiv"
  by (simp add: range_ok_def nodiv_def)

text \<open>C32: The search for a VCO returns, whatever frequencies are asked for, if the range of the second
  divider is one the code can work with.\<close>

theorem find_best_vco_returns:
  assumes "length divs > 1 \<longrightarrow> range_ok (divs ! 1)"
  shows "\<exists>r. find_best_vco vcos divs freqs out = Some r"
proof -
  have "range_ok (second_stage divs)" using assms nodiv_ok by (simp add: second_stage_def)
  then obtain r where "vco_first 0 vcos (hd divs) (second_stage divs) (lcm_freq freqs) = Some r" using vco_first_ends by blast
  then show ?thesis by (auto simp: find_best_vco_def Let_def split: sum.splits option.splits)
qed








definition vco_lmk05028 :: "vco_range list" where
  "vco_lmk05028 = [\<lparr>vcomin = 4800000000, vcomax = 5400000000\<rparr>, \<lparr>vcomin = 5500000000, vcomax = 6200000000\<rparr>]"

definition final_div :: div_range where
  "final_div = \<lparr>mindiv = 2, maxdiv = 0x100000, dr_step = 2, dr_count = 1, pinvlid = None\<rparr>"

lemma final_div_ok: "range_ok final_div"
  by (simp add: range_ok_def final_div_def)

theorem find_best_vco_returns_witness:
  "\<exists>r. find_best_vco vco_lmk05028 [prescaler, final_div] [122880000, 30720000, 61440001] [0, 0, 0, 0, 0] = Some r"
  using find_best_vco_returns [of "[prescaler, final_div]"] final_div_ok by simp



end
