(* ===== verification/BusCores.thy ===== *)
theory BusCores
  imports Lowlevel
begin

text \<open>
  The small bus cores of the FPGA (\<open>src/lib/ipblks\<close>): the command words and the address table of the I2C
  core (\<open>si2c.c\<close>), the data words of the SPI core (\<open>spiext.c\<close>), the commands of the GPIO core
  (\<open>gpio.c\<close>) and reception from the UART (\<open>uart.c\<close>).
\<close>

section \<open>I2C\<close>

definition MAKE_I2C_CMD :: "u32 \<Rightarrow> u32 \<Rightarrow> u32 \<Rightarrow> u32 \<Rightarrow> u32 \<Rightarrow> u32" where
  "MAKE_I2C_CMD rd rdzsz wrsz devno data =
    push_bit 31 (rd AND 1) OR push_bit 28 (rdzsz AND 7) OR push_bit 26 (wrsz AND 3) OR push_bit 24 (devno AND 3) OR (data AND 0xffffff)"

definition i2c_data :: "u32 \<Rightarrow> u8 list \<Rightarrow> u32" where
  "i2c_data memoutsz dd =
    (if memoutsz > 0 then ucast (dd ! 0) else 0) OR (if memoutsz > 1 then push_bit 8 (ucast (dd ! 1)) else 0) OR
    (if memoutsz > 2 then push_bit 16 (ucast (dd ! 2)) else 0)"

definition si2c_make_ctrl_reg :: "u8 \<Rightarrow> u8 list \<Rightarrow> u32 \<Rightarrow> u32 \<Rightarrow> int + u32" where
  "si2c_make_ctrl_reg idx dd memoutsz meminsz =
    (if memoutsz > 3 \<or> meminsz > 4 then Inl (- EINVAL)
     else if unat memoutsz > length dd then Inl OUT_OF_BOUNDS
     else Inr (MAKE_I2C_CMD (if meminsz > 0 then 1 else 0) (meminsz - 1) memoutsz (ucast idx) (i2c_data memoutsz dd)))"

record i2c_cache =
  ic_busn :: "1 word"
  ic_addr :: "7 word"
  ic_lrui :: u8

definition lut_byte :: "i2c_cache \<Rightarrow> u32" where
  "lut_byte c = ucast (ic_addr c) OR (if ic_busn c \<noteq> 0 then 0x80 else 0)"

definition si2c_get_lut :: "i2c_cache list \<Rightarrow> u32" where
  "si2c_get_lut cd = foldl (\<lambda>l i. l OR push_bit (8 * i) (lut_byte (cd ! i))) 0x80000000 [0..<4]"

definition lut_hit :: "i2c_cache list \<Rightarrow> u32 \<Rightarrow> u32 \<Rightarrow> nat \<Rightarrow> bool" where
  "lut_hit cd addr busno i \<longleftrightarrow> ucast (ic_addr (cd ! i)) = addr \<and> ucast (ic_busn (cd ! i)) = busno"

text \<open>The scan over the first entries: the entry that matches, or the lowest use count and its entry.\<close>

fun lut_scan :: "i2c_cache list \<Rightarrow> u32 \<Rightarrow> u32 \<Rightarrow> nat list \<Rightarrow> u32 \<Rightarrow> nat \<Rightarrow> nat + u32 \<times> nat" where
  "lut_scan cd addr busno [] smin sidx = Inr (smin, sidx)"
| "lut_scan cd addr busno (i # js) smin sidx =
    (if lut_hit cd addr busno i then Inl i
     else if smin > ucast (ic_lrui (cd ! i)) then lut_scan cd addr busno js (ucast (ic_lrui (cd ! i))) i
     else lut_scan cd addr busno js smin sidx)"

definition lut_touch :: "i2c_cache list \<Rightarrow> nat \<Rightarrow> nat \<Rightarrow> i2c_cache list" where
  "lut_touch cd n i =
    (case List.find (\<lambda>j. unat (ic_lrui (cd ! j)) = unat (ic_lrui (cd ! i)) + 1) [0..<n] of
      None \<Rightarrow> cd
    | Some j \<Rightarrow>
        (let cd' = cd[j := (cd ! j)\<lparr>ic_lrui := ic_lrui (cd ! i)\<rparr>] in cd'[i := (cd' ! i)\<lparr>ic_lrui := ic_lrui (cd' ! i) + 1\<rparr>]))"

definition lut_age :: "nat \<Rightarrow> i2c_cache list \<Rightarrow> i2c_cache list" where
  "lut_age n cd = map (\<lambda>j. if j < n \<and> ic_lrui (cd ! j) > 0 then (cd ! j)\<lparr>ic_lrui := ic_lrui (cd ! j) + 1\<rparr> else cd ! j) [0..<length cd]"

definition si2c_update_lut_idx :: "i2c_cache list \<Rightarrow> u32 \<Rightarrow> u32 \<Rightarrow> nat \<times> i2c_cache list" where
  "si2c_update_lut_idx cd addr busno =
    (let n = (if busno = 0 then 3 else 4) in
     case lut_scan cd addr busno [0..<n] 0xffffffff 0 of
       Inl i \<Rightarrow> (i, lut_touch cd n i)
     | Inr (smin, sidx) \<Rightarrow>
         (let cd1 = (if smin = 0 then (let c = lut_age n cd in c[sidx := (c ! sidx)\<lparr>ic_lrui := ic_lrui (c ! sidx) + 1\<rparr>]) else cd)
          in (sidx, cd1[sidx := (cd1 ! sidx)\<lparr>ic_busn := ucast busno, ic_addr := ucast addr\<rparr>])))"

section \<open>SPI\<close>

text \<open>A shift by 32 bits or more has no defined value.\<close>

definition spiext_make_data_reg :: "u8 list \<Rightarrow> int + u32" where
  "spiext_make_data_reg pout =
    (if length pout > 4 then Inl OUT_OF_BOUNDS
     else Inr (foldl (\<lambda>w k. w OR push_bit (8 * k) (ucast (pout ! k))) 0 [0..<length pout]))"

definition spiext_parse_data_reg :: "u32 \<Rightarrow> nat \<Rightarrow> int + u8 list" where
  "spiext_parse_data_reg spin meminsz =
    (if meminsz > 4 then Inl OUT_OF_BOUNDS else Inr (map (\<lambda>k. ucast (drop_bit (8 * k) spin)) [0..<meminsz]))"

definition MAKE_SPIEXT_CFG :: "u32 \<Rightarrow> u32 \<Rightarrow> u32 \<Rightarrow> u32" where
  "MAKE_SPIEXT_CFG b cs d = push_bit 14 (b AND 3) OR push_bit 8 (cs AND 7) OR (d AND 0xff)"

definition MAKE_SPIEXT_LSOPADR :: "u32 \<Rightarrow> u32 \<Rightarrow> u32 \<Rightarrow> u32" where
  "MAKE_SPIEXT_LSOPADR cfg eaddr baddr = push_bit 16 cfg OR push_bit 8 (eaddr AND 0xff) OR (baddr AND 0xff)"

definition SPIEXT_LSOP_GET_CSR :: "u32 \<Rightarrow> u32" where "SPIEXT_LSOP_GET_CSR x = drop_bit 8 x AND 0xff"
definition SPIEXT_LSOP_GET_CFG :: "u32 \<Rightarrow> u32" where "SPIEXT_LSOP_GET_CFG x = drop_bit 16 x"
definition SPIEXT_LSOP_GET_BUS :: "u32 \<Rightarrow> u32" where "SPIEXT_LSOP_GET_BUS x = x AND 0xff"

section \<open>GPIO\<close>

definition GPIO_CFG_REG :: u32 where "GPIO_CFG_REG = 3"
definition GPIO_CMD_OFF :: nat where "GPIO_CMD_OFF = 30"
definition GPIO_CFG_IDX_OFF :: nat where "GPIO_CFG_IDX_OFF = 26"
definition GPIO_CFG_IDX_MASK :: u32 where "GPIO_CFG_IDX_MASK = 0xf"
definition GPIO_CFG_VAL_MASK :: u32 where "GPIO_CFG_VAL_MASK = 0x3"
definition GPIO_CMD_MASK_OFF :: nat where "GPIO_CMD_MASK_OFF = 15"
definition GPIO_CMD_MASK_MASK :: u32 where "GPIO_CMD_MASK_MASK = 0x7fff"

lemmas gpio_defs = GPIO_CFG_REG_def GPIO_CMD_OFF_def GPIO_CFG_IDX_OFF_def GPIO_CFG_IDX_MASK_def GPIO_CFG_VAL_MASK_def
  GPIO_CMD_MASK_OFF_def GPIO_CMD_MASK_MASK_def

definition gpio_config :: "u32 \<Rightarrow> u32 \<Rightarrow> u32 \<Rightarrow> (int + unit) io" where
  "gpio_config base portno cfg =
    lowlevel_reg_wr32 base (push_bit GPIO_CMD_OFF GPIO_CFG_REG OR
      push_bit GPIO_CFG_IDX_OFF (portno AND GPIO_CFG_IDX_MASK) OR (cfg AND GPIO_CFG_VAL_MASK))"

definition gpio_cmd :: "u32 \<Rightarrow> u32 \<Rightarrow> u32 \<Rightarrow> u32 \<Rightarrow> (int + unit) io" where
  "gpio_cmd base cmd msk val =
    (if cmd > 2 then iofail (- EINVAL)
     else lowlevel_reg_wr32 base (push_bit GPIO_CMD_OFF cmd OR
       push_bit GPIO_CMD_MASK_OFF (msk AND GPIO_CMD_MASK_MASK) OR (val AND GPIO_CMD_MASK_MASK)))"

definition gpio_in :: "u32 \<Rightarrow> (int + u32) io" where
  "gpio_in base = lowlevel_reg_rd32 base"

section \<open>UART\<close>

text \<open>The return value, an error code or the number of characters, and the buffer; the characters go
  to the buffer from \<open>off\<close> on, \<open>k\<close> at most. \<open>None\<close> is a write outside the buffer.\<close>

fun uart_rx_from :: "u32 \<Rightarrow> nat \<Rightarrow> nat \<Rightarrow> nat \<Rightarrow> u8 list \<Rightarrow> (int option \<times> u8 list) io" where
  "uart_rx_from base off pos 0 b env tr = ((Some (int pos), b), tr)"
| "uart_rx_from base off pos (Suc k) b env tr =
    (case lowlevel_reg_rd32 base env tr of
       (Inl e, tr') \<Rightarrow> ((Some e, b), tr')
     | (Inr reg, tr') \<Rightarrow>
         if bit reg 15 then ((Some (int pos), b), tr')
         else if off + pos \<ge> length b then ((None, b), tr')
         else uart_rx_from base off (Suc pos) k (b[off + pos := ucast reg]) env tr')"

definition uart_core_rx_get :: "u32 \<Rightarrow> nat \<Rightarrow> u32 \<Rightarrow> u8 list \<Rightarrow> (int option \<times> u8 list) io" where
  "uart_core_rx_get base off max_buf b = uart_rx_from base off 0 (unat max_buf) b"

text \<open>The loop of \<open>uart_core_rx_collect\<close>: the final \<open>p\<close>, or the negative return value.\<close>

fun uart_collect :: "u32 \<Rightarrow> u32 \<Rightarrow> nat \<Rightarrow> u32 \<Rightarrow> u8 list \<Rightarrow> ((int + u32) \<times> u8 list) io" where
  "uart_collect base sz 0 p b env tr = ((Inr p, b), tr)"
| "uart_collect base sz (Suc n) p b env tr =
    (case uart_core_rx_get base (unat p) (sz - p) b env tr of
      ((None, b'), tr') \<Rightarrow> ((Inl OUT_OF_BOUNDS, b'), tr')
    | ((Some z, b'), tr') \<Rightarrow>
        if z < 0 then ((Inl z, b'), tr')
        else
          let p' = p + of_int z in
          if p' = sz then ((Inr p', b'), tr') else uart_collect base sz n p' b' env (tr' @ [USleep 10000]))"

text \<open>\<open>char\<close> is signed: characters from 128 on are below 32.\<close>

definition uart_clean :: "u8 \<Rightarrow> u8" where
  "uart_clean c = (if c = 10 then c else if sint c < 32 then 32 else c)"

definition uart_core_rx_collect :: "u32 \<Rightarrow> u32 \<Rightarrow> u32 \<Rightarrow> u8 list \<Rightarrow> ((int + nat) \<times> u8 list) io" where
  "uart_core_rx_collect base max_buf timeout_ms b env tr =
    (case uart_collect base (max_buf - 1) (unat timeout_ms div 10) 0 b env tr of
      ((Inl z, b'), tr') \<Rightarrow> ((Inl z, b'), tr')
    | ((Inr p, b'), tr') \<Rightarrow>
        if unat p \<ge> length b' then ((Inl OUT_OF_BOUNDS, b'), tr')
        else ((Inr (unat p), map uart_clean (take (unat p) b') @ 0 # drop (Suc (unat p)) b'), tr'))"

section \<open>Lemmas\<close>

lemma lut_scan_result:
  "case lut_scan cd addr busno js smin sidx of
     Inl i \<Rightarrow> i \<in> set js \<and> lut_hit cd addr busno i
   | Inr (m, s) \<Rightarrow> s \<in> insert sidx (set js) \<and> (\<forall>i\<in>set js. \<not> lut_hit cd addr busno i)"
  by (induction cd addr busno js smin sidx rule: lut_scan.induct) (auto split: sum.splits)

definition keys :: "i2c_cache list \<Rightarrow> (7 word \<times> 1 word) list" where
  "keys cd = map (\<lambda>c. (ic_addr c, ic_busn c)) cd"

lemma one_bit: "ucast (w :: 1 word) = (0 :: u32) \<longleftrightarrow> w = 0" "ucast (w :: 1 word) = (1 :: u32) \<longleftrightarrow> w \<noteq> 0"
proof -
  have "unat w < 2" using unsigned_less [of w, where ?'a = nat] by simp
  then have "w = 0 \<or> w = 1" by (simp add: word_unat_eq_iff) linarith
  then show "ucast w = (0 :: u32) \<longleftrightarrow> w = 0" "ucast w = (1 :: u32) \<longleftrightarrow> w \<noteq> 0" by auto
qed

lemma keys_same [simp]: "i < length cd \<Longrightarrow> keys (cd[i := (cd ! i)\<lparr>ic_lrui := x\<rparr>]) = keys cd"
  by (auto simp: keys_def map_update intro!: list_update_same_conv [THEN iffD2])

lemma keys_touch [simp]: "n \<le> length cd \<Longrightarrow> i < length cd \<Longrightarrow> keys (lut_touch cd n i) = keys cd"
  by (auto simp: lut_touch_def Let_def find_Some_iff split: option.splits)

lemma keys_age [simp]: "keys (lut_age n cd) = keys cd"
  by (auto simp: keys_def lut_age_def intro: nth_equalityI)

lemma length_keys: "keys a = keys b \<Longrightarrow> length a = length b"
  by (metis keys_def length_map)

lemma si2c_get_lut_keys: "length a = 4 \<Longrightarrow> keys a = keys b \<Longrightarrow> si2c_get_lut a = si2c_get_lut b"
proof -
  assume l: "length a = 4" and k: "keys a = keys b"
  have "lut_byte (a ! i) = lut_byte (b ! i)" if "i < 4" for i
  proof -
    have "keys a ! i = keys b ! i" by (simp add: k)
    then show ?thesis using that l length_keys [OF k] by (simp add: keys_def lut_byte_def)
  qed
  then show ?thesis unfolding si2c_get_lut_def by (intro foldl_cong) auto
qed

lemma bit_0x80_int [bitfield]: "bit (0x80 :: int) n \<longleftrightarrow> n = 7" "bit (0x80000000 :: int) n \<longleftrightarrow> n = 31"
proof -
  have "(0x80 :: int) = push_bit 7 (mask 1)" "(0x80000000 :: int) = push_bit 31 (mask 1)" by (simp_all add: push_bit_eq_mult)
  note m = this
  show "bit (0x80 :: int) n \<longleftrightarrow> n = 7" "bit (0x80000000 :: int) n \<longleftrightarrow> n = 31"
    unfolding m bit_push_bit_iff bit_mask_iff by auto
qed

lemma bit_lut_byte: "bit (lut_byte c) n \<longleftrightarrow> n < 7 \<and> bit (ic_addr c) n \<or> n = 7 \<and> ic_busn c \<noteq> 0"
  by (auto simp: lut_byte_def bit_simps bitfield dest: bit_imp_le_length)

lemma bit_si2c_get_lut:
  assumes "k < 8" and "i < 4"
  shows "bit (si2c_get_lut cd) (8 * i + k) \<longleftrightarrow> bit (lut_byte (cd ! i)) k \<or> i = 3 \<and> k = 7"
proof -
  have e: "si2c_get_lut cd = 0x80000000 OR lut_byte (cd ! 0) OR push_bit 8 (lut_byte (cd ! 1)) OR push_bit 16 (lut_byte (cd ! 2)) OR
      push_bit 24 (lut_byte (cd ! 3))"
    by (simp add: si2c_get_lut_def upt_rec or.assoc numeral_2_eq_2 numeral_3_eq_3)
  have "i = 0 \<or> i = 1 \<or> i = 2 \<or> i = 3" using assms(2) by linarith
  then show ?thesis unfolding e using assms(1) by (elim disjE) (auto simp: bit_simps bitfield bit_lut_byte)
qed

lemma si2c_lut_field:
  assumes "i < 4"
  shows "take_bit 7 (drop_bit (8 * i) (si2c_get_lut cd)) = ucast (ic_addr (cd ! i))"
    and "bit (si2c_get_lut cd) (8 * i + 7) \<longleftrightarrow> ic_busn (cd ! i) \<noteq> 0 \<or> i = 3"
proof -
  show "take_bit 7 (drop_bit (8 * i) (si2c_get_lut cd)) = ucast (ic_addr (cd ! i))"
  proof (rule bit_word_eqI)
    fix n assume "n < LENGTH(32)"
    have "bit (ic_addr (cd ! i)) n \<Longrightarrow> n < 7" using bit_imp_le_length [of "ic_addr (cd ! i)" n] by simp
    then show "bit (take_bit 7 (drop_bit (8 * i) (si2c_get_lut cd))) n = bit (ucast (ic_addr (cd ! i)) :: u32) n"
      using bit_si2c_get_lut [of n i cd] assms \<open>n < LENGTH(32)\<close> by (auto simp: bit_simps bit_lut_byte)
  qed
  show "bit (si2c_get_lut cd) (8 * i + 7) \<longleftrightarrow> ic_busn (cd ! i) \<noteq> 0 \<or> i = 3"
    using bit_si2c_get_lut [of 7 i cd] assms by (simp add: bit_lut_byte)
qed

text \<open>The look-up of an I2C address gives an entry of the table that holds it, leaves the other entries
  alone and the word for the core unchanged if the address was there, and the byte of that entry in
  the word selects the address and the bus.\<close>

theorem i2c_lut_lookup:
  assumes "length cd = 4" and "addr < 128" and "busno < 2" and "si2c_update_lut_idx cd addr busno = (i, cd')"
  shows "i < 4 \<and> length cd' = 4 \<and>
    take_bit 7 (drop_bit (8 * i) (si2c_get_lut cd')) = addr \<and> (bit (si2c_get_lut cd') (8 * i + 7) \<longleftrightarrow> busno = 1) \<and>
    (\<forall>j<4. j \<noteq> i \<longrightarrow> ic_addr (cd' ! j) = ic_addr (cd ! j) \<and> ic_busn (cd' ! j) = ic_busn (cd ! j)) \<and>
    ((\<exists>j<if busno = 0 then 3 else 4. lut_hit cd addr busno j) \<longrightarrow> si2c_get_lut cd' = si2c_get_lut cd)"
proof -
  let ?n = "if busno = 0 then 3 else 4 :: nat"
  have b: "busno = 0 \<or> busno = 1" using assms(3) by (auto simp: word_less_nat_alt word_unat_eq_iff)
  note scan = lut_scan_result [where cd = cd and addr = addr and busno = busno and js = "[0..<?n]" and smin = "0xffffffff" and sidx = 0]
  show ?thesis
  proof (cases "lut_scan cd addr busno [0..<?n] 0xffffffff 0")
    case (Inl k)
    then have k: "i = k" "cd' = lut_touch cd ?n k" "k < ?n" "lut_hit cd addr busno k"
      using assms(4) scan by (auto simp: si2c_update_lut_idx_def Let_def)
    have ks: "keys cd' = keys cd" using k assms(1) by (simp split: if_splits)
    then have l: "length cd' = 4" using length_keys assms(1) by metis
    have e: "ic_addr (cd' ! j) = ic_addr (cd ! j) \<and> ic_busn (cd' ! j) = ic_busn (cd ! j)" if "j < 4" for j
    proof -
      have "keys cd' ! j = keys cd ! j" by (simp add: ks)
      then show ?thesis using that l assms(1) by (simp add: keys_def)
    qed
    have "si2c_get_lut cd' = si2c_get_lut cd" using si2c_get_lut_keys [OF l ks] .
    moreover have "i < 4" "i = 3 \<longrightarrow> busno = 1" using k(1,3) b by (auto split: if_splits)
    ultimately show ?thesis using k(1,4) l e si2c_lut_field [of i cd] b by (auto simp: lut_hit_def one_bit)
  next
    case (Inr r)
    obtain m k where r: "r = (m, k)" by fastforce
    have k: "k < ?n" and none: "\<forall>j<?n. \<not> lut_hit cd addr busno j" using scan Inr r by (auto split: if_splits)
    define c1 where "c1 = (if m = 0 then (let c = lut_age ?n cd in c[k := (c ! k)\<lparr>ic_lrui := ic_lrui (c ! k) + 1\<rparr>]) else cd)"
    have i: "i = k" and c: "cd' = c1[k := (c1 ! k)\<lparr>ic_busn := ucast busno, ic_addr := ucast addr\<rparr>]"
      using assms(4) Inr r by (auto simp: si2c_update_lut_idx_def Let_def c1_def)
    have k4: "k < 4" using k by (simp split: if_splits)
    have "length (lut_age ?n cd) = 4" using assms(1) by (simp add: lut_age_def)
    then have ks: "keys c1 = keys cd" using k4 by (simp add: c1_def Let_def)
    then have l1: "length c1 = 4" using length_keys assms(1) by metis
    have e: "ic_addr (cd' ! j) = ic_addr (cd ! j) \<and> ic_busn (cd' ! j) = ic_busn (cd ! j)" if "j < 4" "j \<noteq> k" for j
    proof -
      have "keys c1 ! j = keys cd ! j" by (simp add: ks)
      then show ?thesis using that l1 assms(1) by (simp add: c keys_def)
    qed
    have v: "ic_addr (cd' ! k) = ucast addr" "ic_busn (cd' ! k) = ucast busno" using k4 l1 by (simp_all add: c)
    have "ucast (ucast addr :: 7 word) = addr"
      using assms(2) by (simp add: word_unat_eq_iff unsigned_ucast_eq unsigned_take_bit_eq take_bit_nat_eq_self word_less_nat_alt)
    moreover have "(ucast busno :: 1 word) \<noteq> 0 \<longleftrightarrow> busno = 1" using b by auto
    moreover have "k = 3 \<longrightarrow> busno = 1" using k b by (auto split: if_splits)
    ultimately show ?thesis using i k4 l1 c e v none si2c_lut_field [OF k4, of cd'] by auto
  qed
qed

definition lut0 :: "i2c_cache list" where
  "lut0 = replicate 4 \<lparr>ic_busn = 0, ic_addr = 0, ic_lrui = 0\<rparr>"

theorem i2c_lut_lookup_witness:
  "\<exists>i cd'. si2c_update_lut_idx lut0 0x50 1 = (i, cd') \<and> i < 4 \<and> take_bit 7 (drop_bit (8 * i) (si2c_get_lut cd')) = 0x50"
proof -
  obtain i cd' where r: "si2c_update_lut_idx lut0 0x50 1 = (i, cd')" by fastforce
  from i2c_lut_lookup [OF _ _ _ r] have "i < 4 \<and> take_bit 7 (drop_bit (8 * i) (si2c_get_lut cd')) = 0x50" by (simp add: lut0_def)
  with r show ?thesis by blast
qed

lemma bit_0xff00_int [bitfield]: "bit (0xff00 :: int) n \<longleftrightarrow> 8 \<le> n \<and> n < 16"
proof -
  have "(0xff00 :: int) = push_bit 8 (mask 8)" by (simp add: push_bit_eq_mult mask_eq_exp_minus_1)
  note m = this
  show ?thesis unfolding m bit_push_bit_iff bit_mask_iff by auto
qed

lemma bit_spi_word:
  "n \<le> 4 \<Longrightarrow> bit (foldl (\<lambda>w k. w OR push_bit (8 * k) (ucast ((bs ! k) :: u8))) 0 [0..<n] :: u32) m \<longleftrightarrow>
    m div 8 < n \<and> bit (bs ! (m div 8)) (m mod 8)"
proof (induction n)
  case (Suc n)
  let ?b = "bs ! n"
  have p: "bit (push_bit (8 * n) (ucast ?b) :: u32) m \<longleftrightarrow> m div 8 = n \<and> bit ?b (m mod 8)"
  proof (cases "m div 8 = n")
    case True
    then have m: "m = 8 * n + m mod 8" using mult_div_mod_eq [of 8 m] by simp
    then have "m < 32" using Suc.prems mod_less_divisor [of 8 m] by linarith
    moreover have "m - 8 * n = m mod 8" using m by simp
    ultimately show ?thesis using True m by (auto simp: bit_simps)
  next
    case False
    have "bit ?b (m - 8 * n) \<Longrightarrow> m - 8 * n < 8" using bit_imp_le_length [of ?b] by simp
    then show ?thesis using False by (auto simp: bit_simps) 
  qed
  show ?case using Suc by (auto simp: bit_or_iff p less_Suc_eq)
qed simp

lemma bit_below: "x < 2 ^ k \<Longrightarrow> k < 32 \<Longrightarrow> bit (x :: u32) n \<Longrightarrow> n < k"
proof -
  assume "x < 2 ^ k" "k < 32" and b: "bit x n"
  then have "unat x < 2 ^ k" by (simp add: word_less_nat_alt unat_exp32)
  then have "x = take_bit k x" by (simp add: take_bit_fits)
  with b show "n < k" by (metis bit_take_bit_iff)
qed

text \<open>The data word of an SPI transfer gives its bytes back, and the address word of a transfer gives
  back the configuration, the register and the bus.\<close>

theorem spiext_round_trip:
  assumes "length bs \<le> 4" and "cfg < 2 ^ 16" and "eaddr < 2 ^ 8" and "baddr < 2 ^ 8"
  shows "\<exists>w. spiext_make_data_reg bs = Inr w \<and> spiext_parse_data_reg w (length bs) = Inr bs \<and>
    (let a = MAKE_SPIEXT_LSOPADR cfg eaddr baddr in
     SPIEXT_LSOP_GET_CFG a = cfg \<and> SPIEXT_LSOP_GET_CSR a = eaddr \<and> SPIEXT_LSOP_GET_BUS a = baddr)"
proof -
  let ?w = "foldl (\<lambda>w k. w OR push_bit (8 * k) (ucast (bs ! k))) 0 [0..<length bs] :: u32"
  have "ucast (drop_bit (8 * k) ?w) = bs ! k" if "k < length bs" for k
    using that assms(1) by (intro bit_word_eqI) (auto simp: bit_simps bit_spi_word)
  then have "map (\<lambda>k. ucast (drop_bit (8 * k) ?w)) [0..<length bs] = bs" by (intro nth_equalityI) auto
  note m = this
  have c: "16 \<le> n \<Longrightarrow> \<not> bit cfg n" "8 \<le> n \<Longrightarrow> \<not> bit eaddr n" "8 \<le> n \<Longrightarrow> \<not> bit baddr n" for n
    using bit_below [OF assms(2), of n] bit_below [OF assms(3), of n] bit_below [OF assms(4), of n] by auto
  have "SPIEXT_LSOP_GET_CFG (MAKE_SPIEXT_LSOPADR cfg eaddr baddr) = cfg" "SPIEXT_LSOP_GET_CSR (MAKE_SPIEXT_LSOPADR cfg eaddr baddr) = eaddr"
    "SPIEXT_LSOP_GET_BUS (MAKE_SPIEXT_LSOPADR cfg eaddr baddr) = baddr"
    by (auto intro!: bit_word_eqI simp: SPIEXT_LSOP_GET_CFG_def SPIEXT_LSOP_GET_CSR_def SPIEXT_LSOP_GET_BUS_def MAKE_SPIEXT_LSOPADR_def
      bit_simps bitfield c not_less) (metis c not_less)+
  then show ?thesis using m assms(1) by (simp add: spiext_make_data_reg_def spiext_parse_data_reg_def Let_def)
qed

theorem spiext_round_trip_witness:
  "\<exists>w. spiext_make_data_reg [1, 2, 3] = Inr w \<and> spiext_parse_data_reg w 3 = Inr [1, 2, 3]"
proof -
  obtain w where "spiext_make_data_reg [1, 2, 3] = Inr w" "spiext_parse_data_reg w (length [1, 2, 3 :: u8]) = Inr [1, 2, 3]"
    using spiext_round_trip [of "[1, 2, 3]" 0 0 0] by auto
  then show ?thesis by (intro exI [of _ w]) (simp add: numeral_3_eq_3)
qed

text \<open>Reception, from a device whose requests fail with negative codes only.\<close>

lemma rd32_negative: "lowlevel_reg_rd32 a env tr = (Inl e, tr') \<Longrightarrow> \<forall>tr r. fst (env tr r) \<le> 0 \<Longrightarrow> e < 0"
  by (auto simp: lowlevel_reg_rd32_def lowlevel_ls_op_def iodefs Let_def split: prod.splits if_splits)
    (metis fst_conv order_le_less)

lemma uart_rx_from_bounds:
  assumes env: "\<forall>tr r. fst (env tr r) \<le> 0"
  shows "uart_rx_from base off pos k b env tr = ((r, b'), tr') \<Longrightarrow> off + pos + k \<le> length b \<Longrightarrow>
    length b' = length b \<and> (\<exists>z. r = Some z \<and> z \<le> int (pos + k))"
proof (induction k arbitrary: pos b tr)
  case (Suc k)
  obtain v t where v: "lowlevel_reg_rd32 base env tr = (v, t)" by fastforce
  show ?case
  proof (cases v)
    case (Inl x)
    then have "x < 0" using rd32_negative v env by blast
    then show ?thesis using Suc.prems v Inl by auto
  next
    case (Inr reg)
    show ?thesis
    proof (cases "bit reg 15")
      case True
      then show ?thesis using Suc.prems v Inr by auto
    next
      case False
      then have "uart_rx_from base off (Suc pos) k (b[off + pos := ucast reg]) env t = ((r, b'), tr')"
        using Suc.prems v Inr by simp
      from Suc.IH [OF this] Suc.prems(2) show ?thesis by auto
    qed
  qed
qed auto

lemma uart_advance:
  assumes "p \<le> sz" and "0 \<le> z" and "z \<le> int (unat sz - unat p)"
  shows "p + of_int z \<le> (sz :: u32)"
proof -
  have u: "unat p \<le> unat sz" using assms(1) by (simp add: word_le_nat_alt)
  have i: "(of_int z :: u32) = of_nat (nat z)" using assms(2) by simp
  have zl: "nat z \<le> unat sz - unat p" using assms(2,3) by simp
  then have n: "unat (of_nat (nat z) :: u32) = nat z"
    using unsigned_less [of sz, where ?'a = nat] by (intro unat_of_nat32) simp
  then have "unat p + unat (of_nat (nat z) :: u32) < 2 ^ LENGTH(32)"
    using zl u unsigned_less [of sz, where ?'a = nat] by linarith
  then have "unat (p + of_int z) = unat p + nat z" using unat_add_lem [of p "of_nat (nat z)"] n by (simp only: i)
  then show ?thesis using zl u by (simp add: word_le_nat_alt)
qed

lemma uart_get_bounds:
  assumes "\<forall>tr r. fst (env tr r) \<le> 0" and "uart_core_rx_get base (unat p) (sz - p) b env tr = ((r, c), t)"
    and "p \<le> sz" and "unat sz \<le> length b"
  shows "length c = length b \<and> (\<exists>z. r = Some z \<and> z \<le> int (unat sz - unat p))"
proof -
  have u: "unat (sz - p) = unat sz - unat p" "unat p \<le> unat sz" using assms(3) by (simp_all add: unat_sub word_le_nat_alt)
  from uart_rx_from_bounds [OF assms(1), of base "unat p" 0 "unat (sz - p)" b tr r c t] assms(2,4) u
  show ?thesis by (simp add: uart_core_rx_get_def)
qed

lemma uart_collect_bounds:
  assumes env: "\<forall>tr r. fst (env tr r) \<le> 0"
  shows "uart_collect base sz n p b env tr = ((Inr q, b'), tr') \<Longrightarrow> p \<le> sz \<Longrightarrow> unat sz \<le> length b \<Longrightarrow>
    length b' = length b \<and> q \<le> sz"
proof (induction n arbitrary: p b tr)
  case (Suc n)
  obtain r c t where g: "uart_core_rx_get base (unat p) (sz - p) b env tr = ((r, c), t)" by (metis prod.exhaust)
  obtain z where z: "r = Some z" "z \<le> int (unat sz - unat p)" "length c = length b"
    using uart_get_bounds [OF env g Suc.prems(2,3)] by blast
  have nz: "\<not> z < 0" using Suc.prems(1) g z(1) by auto
  then have le: "p + of_int z \<le> sz" using uart_advance [OF Suc.prems(2) _ z(2)] by simp
  show ?case
  proof (cases "p + of_int z = sz")
    case True
    then show ?thesis using Suc.prems(1) g z nz by (auto simp: Let_def)
  next
    case False
    then have "uart_collect base sz n (p + of_int z) c env (t @ [USleep 10000]) = ((Inr q, b'), tr')"
      using Suc.prems(1) g z nz by (auto simp: Let_def)
    from Suc.IH [OF this le] Suc.prems(3) z(3) show ?thesis by simp
  qed
qed auto

lemma uart_clean_char: "uart_clean c = 10 \<or> 32 \<le> unat (uart_clean c) \<and> unat (uart_clean c) < 128"
proof (cases "c = 10 \<or> sint c < 32")
  case False
  have "sint c < 128" using sint_lt [of c] by simp
  then have "uint c = sint c" using False uint_sint [of c] by (simp add: take_bit_int_eq_self)
  then show ?thesis using False \<open>sint c < 128\<close> by (simp add: uart_clean_def unat_eq_nat_uint le_nat_iff nat_less_iff)
qed (auto simp: uart_clean_def)

text \<open>Whatever the UART sends, what is collected from it is a string that fits the caller's buffer: it
  ends with a zero inside, and before it there are only line feeds and printable characters of
  seven bits.\<close>

theorem uart_collect_string:
  assumes "unat max_buf \<le> length b" and "max_buf \<noteq> 0" and "\<forall>tr r. fst (env tr r) \<le> 0"
    and "uart_core_rx_collect base max_buf timeout_ms b env tr = ((Inr p, b'), tr')"
  shows "p < unat max_buf \<and> length b' = length b \<and> b' ! p = 0 \<and> (\<forall>h<p. b' ! h = 10 \<or> 32 \<le> unat (b' ! h) \<and> unat (b' ! h) < 128)"
proof -
  obtain q c where c: "uart_collect base (max_buf - 1) (unat timeout_ms div 10) 0 b env tr = ((Inr q, c), tr')"
    and q: "unat q < length c" "p = unat q" "b' = map uart_clean (take p c) @ 0 # drop (Suc p) c"
    using assms(4) by (auto simp: uart_core_rx_collect_def split: prod.splits sum.splits if_splits)
  have m: "unat (max_buf - 1) = unat max_buf - 1" "0 < unat max_buf" using assms(2) by (simp_all add: unat_minus_one unat_gt_0)
  have "length c = length b \<and> q \<le> max_buf - 1" using uart_collect_bounds [OF assms(3) c] assms(1) m by simp
  then have "p < unat max_buf" "length c = length b" using q(2) m by (auto simp: word_le_nat_alt)
  with q show ?thesis using uart_clean_char by (auto simp: nth_append)
qed

text \<open>A line on which three characters wait.\<close>

definition uart_line :: env where
  "uart_line = (\<lambda>tr r. (0, if length tr < 3 then [0x41, 0, 0, 0] else [0, 0x80, 0, 0]))"

lemma uart_rx_from_accepts:
  assumes "bus_accepts env"
  shows "uart_rx_from base off pos k b env tr = ((Some z, b'), tr') \<Longrightarrow> 0 \<le> z"
proof (induction k arbitrary: pos b tr)
  case (Suc k)
  have "lowlevel_reg_rd32 base env tr \<noteq> (Inl e, t)" for e t
    using assms by (auto simp: bus_accepts_def lowlevel_reg_rd32_def lowlevel_ls_op_def iodefs Let_def split: prod.splits) (metis fst_conv)
  then show ?case using Suc by (auto split: prod.splits sum.splits if_splits)
qed auto

lemma uart_collect_accepts:
  assumes env: "bus_accepts env"
  shows "p \<le> sz \<Longrightarrow> unat sz \<le> length b \<Longrightarrow> \<exists>q b' tr'. uart_collect base sz n p b env tr = ((Inr q, b'), tr')"
proof (induction n arbitrary: p b tr)
  case (Suc n)
  have e: "\<forall>tr r. fst (env tr r) \<le> 0" using env by (simp add: bus_accepts_def)
  obtain r c t where g: "uart_core_rx_get base (unat p) (sz - p) b env tr = ((r, c), t)" by (metis prod.exhaust)
  obtain z where z: "r = Some z" "z \<le> int (unat sz - unat p)" "length c = length b"
    using uart_get_bounds [OF e g Suc.prems] by blast
  have nz: "0 \<le> z" using uart_rx_from_accepts [OF env] g z(1) by (auto simp: uart_core_rx_get_def)
  have le: "p + of_int z \<le> sz" by (rule uart_advance [OF Suc.prems(1) nz z(2)])
  then show ?case using Suc.IH [OF le, of c "t @ [USleep 10000]"] Suc.prems(2) g z(1,3) nz by (simp add: Let_def)
qed auto

theorem uart_collect_string_witness:
  "\<exists>p b' tr'. uart_core_rx_collect 0 8 20 (replicate 8 0) uart_line [] = ((Inr p, b'), tr') \<and> p < 8 \<and> b' ! p = 0"
proof -
  have a: "bus_accepts uart_line" by (simp add: bus_accepts_def uart_line_def)
  have e: "\<forall>tr r. fst (uart_line tr r) \<le> 0" by (simp add: uart_line_def)
  obtain q c tr' where c: "uart_collect 0 7 2 0 (replicate 8 0) uart_line [] = ((Inr q, c), tr')"
    using uart_collect_accepts [OF a, of 0 7 "replicate 8 0"] by fastforce
  have "length c = 8 \<and> q \<le> 7" using uart_collect_bounds [OF e c] by simp
  then have "uart_core_rx_collect 0 8 20 (replicate 8 0) uart_line [] =
      ((Inr (unat q), map uart_clean (take (unat q) c) @ 0 # drop (Suc (unat q)) c), tr')"
    using c by (auto simp: uart_core_rx_collect_def word_le_nat_alt)
  then obtain p b' where r: "uart_core_rx_collect 0 8 20 (replicate 8 0) uart_line [] = ((Inr p, b'), tr')" by blast
  from r uart_collect_string [OF _ _ e r] show ?thesis by auto
qed

end
