(* ===== verification/Lms64c.thy ===== *)
theory Lms64c
  imports Prelude
begin

text \<open>
  The packets of the LMS64C protocol (\<open>src/lib/ipblks/lms64c_proto.c\<close>): a request is cut into packets of
  64 bytes with the words turned to the byte order of the device, and replies are put together
  again. The reply array is one piece of memory: a read past one packet is a read of the next one.
\<close>

section \<open>Commands\<close>

definition CMD_GET_INFO :: u8 where "CMD_GET_INFO = 0x00"
definition CMD_SI5356_WR :: u8 where "CMD_SI5356_WR = 0x11"
definition CMD_SI5356_RD :: u8 where "CMD_SI5356_RD = 0x12"
definition CMD_SI5351_WR :: u8 where "CMD_SI5351_WR = 0x13"
definition CMD_SI5351_RD :: u8 where "CMD_SI5351_RD = 0x14"
definition CMD_LMS7002_WR :: u8 where "CMD_LMS7002_WR = 0x21"
definition CMD_LMS7002_RD :: u8 where "CMD_LMS7002_RD = 0x22"
definition CMD_PROG_MCU :: u8 where "CMD_PROG_MCU = 0x2C"
definition CMD_ADF4002_WR :: u8 where "CMD_ADF4002_WR = 0x31"
definition CMD_BRDSPI_WR :: u8 where "CMD_BRDSPI_WR = 0x55"
definition CMD_BRDSPI_RD :: u8 where "CMD_BRDSPI_RD = 0x56"
definition CMD_BRDSPI8_RD :: u8 where "CMD_BRDSPI8_RD = 0x58"
definition CMD_ANALOG_VAL_WR :: u8 where "CMD_ANALOG_VAL_WR = 0x61"
definition CMD_ANALOG_VAL_RD :: u8 where "CMD_ANALOG_VAL_RD = 0x62"
definition LMS64C_DATA_LENGTH :: nat where "LMS64C_DATA_LENGTH = 56"

lemmas lms64c_cmds = CMD_GET_INFO_def CMD_SI5356_WR_def CMD_SI5356_RD_def CMD_SI5351_WR_def CMD_SI5351_RD_def
  CMD_LMS7002_WR_def CMD_LMS7002_RD_def CMD_PROG_MCU_def CMD_ADF4002_WR_def CMD_BRDSPI_WR_def CMD_BRDSPI_RD_def
  CMD_BRDSPI8_RD_def CMD_ANALOG_VAL_WR_def CMD_ANALOG_VAL_RD_def

definition lms64c_get_block_count :: "u8 \<Rightarrow> nat" where
  "lms64c_get_block_count cmd =
    (if cmd \<in> {CMD_PROG_MCU, CMD_GET_INFO, CMD_SI5351_RD, CMD_SI5356_RD} then 1
     else if cmd \<in> {CMD_SI5351_WR, CMD_SI5356_WR} then 2
     else if cmd \<in> {CMD_LMS7002_RD, CMD_BRDSPI_RD, CMD_BRDSPI8_RD} then 2
     else if cmd = CMD_ADF4002_WR then 3
     else if cmd \<in> {CMD_LMS7002_WR, CMD_BRDSPI_WR, CMD_ANALOG_VAL_WR} then 4
     else 1)"

definition lms64c_get_maxdata :: "u8 \<Rightarrow> nat" where
  "lms64c_get_maxdata cmd =
    (if cmd \<in> {CMD_LMS7002_RD, CMD_BRDSPI_RD} then LMS64C_DATA_LENGTH div 2
     else if cmd = CMD_ANALOG_VAL_RD then LMS64C_DATA_LENGTH div 4
     else LMS64C_DATA_LENGTH)"

datatype lms64c_mod = MOD_NONE | MOD_INT16 | MOD_INT32 | MOD_INT32_16

definition lms64c_get_modifier :: "u8 \<Rightarrow> lms64c_mod" where
  "lms64c_get_modifier cmd =
    (if cmd \<in> {CMD_LMS7002_WR, CMD_BRDSPI_WR} then MOD_INT32
     else if cmd \<in> {CMD_LMS7002_RD, CMD_BRDSPI_RD} then MOD_INT16 else MOD_NONE)"

definition lms64c_get_modifier_rep :: "u8 \<Rightarrow> lms64c_mod" where
  "lms64c_get_modifier_rep cmd = (if cmd \<in> {CMD_LMS7002_RD, CMD_BRDSPI_RD} then MOD_INT32_16 else MOD_NONE)"

section \<open>Packets\<close>

record proto_lms64c =
  lp_cmd :: u8
  lp_status :: u8
  lp_blockCount :: u8
  lp_periphID :: u8
  lp_reserved :: "u8 list"
  lp_data :: "u8 list"

definition packet_bytes :: "proto_lms64c \<Rightarrow> u8 list" where
  "packet_bytes p = [lp_cmd p, lp_status p, lp_blockCount p, lp_periphID p] @ lp_reserved p @ lp_data p"

text \<open>The bytes of words of \<open>w\<close> bytes, each with its bytes reversed; \<open>k\<close> words from \<open>off\<close> on.\<close>

definition swapped :: "nat \<Rightarrow> nat \<Rightarrow> nat \<Rightarrow> u8 list \<Rightarrow> u8 list" where
  "swapped w k off d = concat (map (\<lambda>i. rev (take w (drop (off + w * i) d))) [0..<k])"

definition lms64c_payload :: "lms64c_mod \<Rightarrow> u8 list option \<Rightarrow> nat \<Rightarrow> nat \<Rightarrow> u8 list \<Rightarrow> int + u8 list" where
  "lms64c_payload m d off n old =
    (case d of
      None \<Rightarrow> Inr (take n old)
    | Some d \<Rightarrow>
        let w = (case m of MOD_INT32 \<Rightarrow> 4 | MOD_INT16 \<Rightarrow> 2 | _ \<Rightarrow> 1);
            k = (n + w - 1) div w
        in if off + w * k > length d then Inl OUT_OF_BOUNDS else Inr (take n (swapped w k off d)))"

text \<open>The packets, how many were filled, and what remains.\<close>

fun lms64c_fill :: "u8 \<Rightarrow> u8 \<Rightarrow> u8 \<Rightarrow> u8 list option \<Rightarrow> nat \<Rightarrow> nat \<Rightarrow> proto_lms64c list \<Rightarrow> int + proto_lms64c list \<times> nat \<times> nat" where
  "lms64c_fill cmd status ident d off remaining [] = Inr ([], 0, remaining)"
| "lms64c_fill cmd status ident d off remaining (p # ps) =
    (if remaining = 0 then Inr (p # ps, 0, 0)
     else
       let n = min remaining (lms64c_get_maxdata cmd) in
       (case lms64c_payload (lms64c_get_modifier cmd) d off n (lp_data p) of
          Inl e \<Rightarrow> Inl e
        | Inr pl \<Rightarrow>
           (case lms64c_fill cmd status ident d (off + n) (remaining - n) ps of
              Inl e \<Rightarrow> Inl e
            | Inr (ps', k, r) \<Rightarrow>
                Inr (\<lparr>lp_cmd = cmd, lp_status = status, lp_blockCount = of_nat (n div lms64c_get_block_count cmd), lp_periphID = ident,
                      lp_reserved = replicate 4 0, lp_data = pl @ replicate (LMS64C_DATA_LENGTH - n) 0\<rparr> # ps', Suc k, r))))"

definition lms64c_fill_packet :: "u8 \<Rightarrow> u8 \<Rightarrow> u8 \<Rightarrow> u8 list option \<Rightarrow> nat \<Rightarrow> proto_lms64c list \<Rightarrow> int + int \<times> proto_lms64c list" where
  "lms64c_fill_packet cmd status ident d len out =
    (case lms64c_fill cmd status ident d 0 len out of
      Inl e \<Rightarrow> Inl e | Inr (ps, k, r) \<Rightarrow> Inr (if r = 0 then int k else - 1, ps))"

text \<open>Bytes of packet \<open>i\<close> from position \<open>a\<close> of its data on, in the memory of the whole array.\<close>

definition reply_byte :: "proto_lms64c list \<Rightarrow> nat \<Rightarrow> nat \<Rightarrow> int + u8" where
  "reply_byte ps i a =
    (let m = concat (map packet_bytes ps); x = 64 * i + 8 + a in if x < length m then Inr (m ! x) else Inl OUT_OF_BOUNDS)"

fun reply_words :: "proto_lms64c list \<Rightarrow> nat \<Rightarrow> nat \<Rightarrow> nat \<Rightarrow> int + u8 list" where
  "reply_words ps i j 0 = Inr []"
| "reply_words ps i j (Suc k) =
    (case reply_byte ps i (2 * (j + 1) + 1) of Inl e \<Rightarrow> Inl e
     | Inr hi \<Rightarrow> (case reply_byte ps i (2 * (j + 1)) of Inl e \<Rightarrow> Inl e
         | Inr lo \<Rightarrow> (case reply_words ps i (j + 2) k of Inl e \<Rightarrow> Inl e | Inr r \<Rightarrow> Inr (hi # lo # r))))"

definition reply_chunk :: "lms64c_mod \<Rightarrow> proto_lms64c list \<Rightarrow> nat \<Rightarrow> nat \<Rightarrow> int + u8 list" where
  "reply_chunk m ps i n =
    (if m = MOD_INT32_16 then (if odd n then Inl OUT_OF_BOUNDS else reply_words ps i 0 (n div 2))
     else Inr (take n (lp_data (ps ! i))))"

fun lms64c_parse :: "lms64c_mod \<Rightarrow> proto_lms64c list \<Rightarrow> nat list \<Rightarrow> nat \<Rightarrow> int + u8 list \<times> nat" where
  "lms64c_parse m ps [] remaining = Inr ([], remaining)"
| "lms64c_parse m ps (i # is) remaining =
    (if remaining = 0 then Inr ([], 0)
     else
       let n = min remaining LMS64C_DATA_LENGTH in
       (case reply_chunk m ps i n of Inl e \<Rightarrow> Inl e
        | Inr c \<Rightarrow> (case lms64c_parse m ps is (remaining - n) of Inl e \<Rightarrow> Inl e | Inr (r, rem) \<Rightarrow> Inr (c @ r, rem))))"

definition lms64c_parse_packet :: "u8 \<Rightarrow> proto_lms64c list \<Rightarrow> nat \<Rightarrow> int + int \<times> u8 list" where
  "lms64c_parse_packet cmd ps len =
    (case lms64c_parse (lms64c_get_modifier_rep cmd) ps [0..<length ps] len of
      Inl e \<Rightarrow> Inl e | Inr (d, r) \<Rightarrow> Inr (if r = 0 then 0 else - 1, d))"

definition lms64c_fill_get_fpga_info :: "proto_lms64c \<Rightarrow> int + int \<times> proto_lms64c list" where
  "lms64c_fill_get_fpga_info out =
    lms64c_fill_packet CMD_BRDSPI_RD 0 0 (Some (concat (map (\<lambda>a. le_bytes 2 (of_nat a :: u16)) [0..<4]))) 8 [out]"

definition lms64c_fill_get_board_info :: "proto_lms64c \<Rightarrow> int + int \<times> proto_lms64c list" where
  "lms64c_fill_get_board_info out = lms64c_fill_packet CMD_GET_INFO 0 0 (Some [0]) 1 [out]"

section \<open>Filling and parsing plain packets\<close>

definition plain_cmd :: "u8 \<Rightarrow> bool" where
  "plain_cmd cmd \<longleftrightarrow> lms64c_get_modifier cmd = MOD_NONE \<and> lms64c_get_modifier_rep cmd = MOD_NONE \<and>
     lms64c_get_maxdata cmd = LMS64C_DATA_LENGTH"

lemma swapped_bytes: "off + k \<le> length d \<Longrightarrow> swapped 1 k off d = take k (drop off d)"
proof (induction k)
  case (Suc k)
  then have "take (Suc k) (drop off d) = take k (drop off d) @ [d ! (off + k)]" by (simp add: take_Suc_conv_app_nth)
  moreover have "rev (take 1 (drop (off + k) d)) = [d ! (off + k)]"
    using Suc.prems by (simp add: Cons_nth_drop_Suc [symmetric])
  ultimately show ?case using Suc by (simp add: swapped_def)
qed (simp add: swapped_def)

lemma payload_plain: "off + n \<le> length d \<Longrightarrow> lms64c_payload MOD_NONE (Some d) off n old = Inr (take n (drop off d))"
  using swapped_bytes [of off n d] by (simp add: lms64c_payload_def Let_def)

lemma fill_plain:
  assumes "plain_cmd cmd" "off + rem = length d" "rem \<le> 56 * length ps"
  shows "\<exists>ps'. lms64c_fill cmd st ident (Some d) off rem ps = Inr (ps', (rem + 55) div 56, 0) \<and> length ps' = length ps \<and>
     (\<forall>qs. lms64c_parse MOD_NONE (qs @ ps') [length qs..<length qs + length ps'] rem = Inr (drop off d, 0))"
  using assms(2,3)
proof (induction ps arbitrary: off rem)
  case (Cons p ps)
  show ?case
  proof (cases "rem = 0")
    case True
    then show ?thesis using Cons.prems by (simp add: upt_conv_Cons del: upt_Suc)
  next
    case False
    define n where "n = min rem 56"
    have n: "n \<le> rem" "0 < n" "rem - n \<le> 56 * length ps" "off + n + (rem - n) = length d"
      using False Cons.prems by (auto simp: n_def)
    obtain ps' where ps': "lms64c_fill cmd st ident (Some d) (off + n) (rem - n) ps = Inr (ps', (rem - n + 55) div 56, 0)"
      "length ps' = length ps"
      "\<And>qs. lms64c_parse MOD_NONE (qs @ ps') [length qs..<length qs + length ps'] (rem - n) = Inr (drop (off + n) d, 0)"
      using Cons.IH [OF n(4,3)] by blast
    define q where "q = \<lparr>lp_cmd = cmd, lp_status = st, lp_blockCount = of_nat (n div lms64c_get_block_count cmd), lp_periphID = ident,
                      lp_reserved = replicate 4 0, lp_data = take n (drop off d) @ replicate (LMS64C_DATA_LENGTH - n) 0\<rparr>"
    have m: "min rem (lms64c_get_maxdata cmd) = n" "lms64c_get_modifier cmd = MOD_NONE"
      using assms(1) by (auto simp: plain_cmd_def n_def LMS64C_DATA_LENGTH_def)
    have k: "Suc ((rem - n + 55) div 56) = (rem + 55) div 56" 
    proof (cases "rem \<le> 56")
      case True
      then have "(rem + 55) div 56 = 1" using False by (auto intro: div_nat_eqI)
      then show ?thesis using True by (simp add: n_def)
    next
      case False
      then have "rem + 55 = (rem - n + 55) + 56" by (simp add: n_def)
      then show ?thesis by (metis Suc_eq_plus1 div_add_self2 zero_neq_numeral)
    qed
    have "lms64c_fill cmd st ident (Some d) off rem (p # ps) = Inr (q # ps', (rem + 55) div 56, 0)"
      using False n ps' k by (simp add: m payload_plain Let_def q_def)
    moreover have "lms64c_parse MOD_NONE (qs @ q # ps') [length qs..<length qs + length (q # ps')] rem = Inr (drop off d, 0)" for qs
    proof -
      have "min rem LMS64C_DATA_LENGTH = n" by (simp add: n_def LMS64C_DATA_LENGTH_def)
      moreover have "reply_chunk MOD_NONE (qs @ q # ps') (length qs) n = Inr (take n (drop off d))"
        using n by (simp add: reply_chunk_def q_def)
      moreover have "take n (drop off d) @ drop (off + n) d = drop off d" by (metis add.commute append_take_drop_id drop_drop)
      ultimately show ?thesis using False ps'(3) [of "qs @ [q]"] by (simp add: upt_conv_Cons Let_def del: upt_Suc)
    qed
    ultimately show ?thesis using ps'(2) by auto
  qed
qed (simp)

text \<open>C34: for a command without a byte order of its own (all but the register commands of the transceiver and of the board and the
reading of analog values), filling packets with data that fits and parsing the packets
gives the data back; the number of packets is the least that holds them.\<close>
theorem lms64c_round_trip:
  assumes "cmd \<notin> {CMD_LMS7002_WR, CMD_LMS7002_RD, CMD_BRDSPI_WR, CMD_BRDSPI_RD, CMD_ANALOG_VAL_RD}"
    and "length d \<le> 56 * length out"
  shows "\<exists>ps. lms64c_fill_packet cmd st ident (Some d) (length d) out = Inr (int ((length d + 55) div 56), ps) \<and>
     lms64c_parse_packet cmd ps (length d) = Inr (0, d)"
proof -
  have c: "plain_cmd cmd"
    using assms(1) by (simp add: plain_cmd_def lms64c_get_modifier_def lms64c_get_modifier_rep_def lms64c_get_maxdata_def)
  then obtain ps where "lms64c_fill cmd st ident (Some d) 0 (length d) out = Inr (ps, (length d + 55) div 56, 0)"
    "lms64c_parse MOD_NONE ps [0..<length ps] (length d) = Inr (d, 0)"
    using fill_plain [OF c, of 0 "length d" d out st ident] assms(2) by (metis add_0 append_Nil drop0 list.size(3))
  then show ?thesis using c by (auto simp: lms64c_fill_packet_def lms64c_parse_packet_def plain_cmd_def)
qed

definition packet0 :: proto_lms64c where
  "packet0 = \<lparr>lp_cmd = 0, lp_status = 0, lp_blockCount = 0, lp_periphID = 0, lp_reserved = replicate 4 0,
     lp_data = replicate 56 0\<rparr>"

lemma lms64c_round_trip_witness:
  "\<exists>ps. lms64c_fill_packet CMD_PROG_MCU 0 1 (Some [1, 2, 3]) 3 [packet0] = Inr (1, ps) \<and>
     lms64c_parse_packet CMD_PROG_MCU ps 3 = Inr (0, [1, 2, 3])"
  using lms64c_round_trip [of CMD_PROG_MCU "[1, 2, 3]" "[packet0]" 0 1] by (simp add: lms64c_cmds numeral_3_eq_3)

section \<open>Replies to register reads\<close>

text \<open>The reply of a register read: \<open>rs\<close> are the values read, each in its block of four bytes behind the address.\<close>

definition read_reply :: "u16 list \<Rightarrow> proto_lms64c" where
  "read_reply rs = packet0\<lparr>lp_data :=
     take 56 (concat (map (\<lambda>r. [0, 0, ucast r, ucast (drop_bit 8 r)]) rs) @ replicate 56 0)\<rparr>"

text \<open>A reply packet of a register read holds 14 values, but the parser takes 28 from it: of 15 values that are
all 1 the 15th is read from the header of the second packet, as 0; with one packet it is read past its end.\<close>
theorem lms64c_read_overruns:
  "lms64c_parse_packet CMD_LMS7002_RD [read_reply (replicate 14 1), read_reply [1]] 30 =
     Inr (0, concat (replicate 14 [0, 1]) @ [0, 0]) \<and>
   lms64c_parse_packet CMD_LMS7002_RD [read_reply (replicate 14 1)] 30 = Inl OUT_OF_BOUNDS"
  by code_simp

end
