(* ===== verification/Transport.thy ===== *)
theory Transport
  imports Lowlevel
begin

text \<open>
  A transport is code too: a low-level request ends in operations on its own state. \<open>dev\<close> is the monad
  of its functions, which return an error code or a value and change the state. \<open>machine_env\<close> makes an
  environment for the drivers out of a transport: the answer to a request is what the transport does
  after the requests before it. \<open>asks\<close> bounds the requests a driver makes, so that two environments
  that agree on them cannot be told apart.
\<close>

section \<open>Functions over a state\<close>

type_synonym ('s, 'a) dev = "'s \<Rightarrow> (int + 'a) \<times> 's"

definition dreturn :: "'a \<Rightarrow> ('s, 'a) dev" where "dreturn a = (\<lambda>s. (Inr a, s))"
definition dfail :: "int \<Rightarrow> ('s, 'a) dev" where "dfail e = (\<lambda>s. (Inl e, s))"

definition dbind :: "('s, 'a) dev \<Rightarrow> ('a \<Rightarrow> ('s, 'b) dev) \<Rightarrow> ('s, 'b) dev" where
  "dbind m k = (\<lambda>s. case m s of (Inl e, s') \<Rightarrow> (Inl e, s') | (Inr a, s') \<Rightarrow> k a s')"

definition dseq :: "('s, 'a) dev \<Rightarrow> ('s, 'b) dev \<Rightarrow> ('s, 'b) dev" where "dseq m k = dbind m (\<lambda>_. k)"

primrec dlist :: "('s, unit) dev list \<Rightarrow> ('s, unit) dev" where
  "dlist [] = dreturn ()"
| "dlist (m # ms) = dseq m (dlist ms)"

lemma dbind_cong [fundef_cong]: "m = m' \<Longrightarrow> (\<And>a. k a = k' a) \<Longrightarrow> dbind m k = dbind m' k'"
  by (metis ext)

lemma dev_simps [simp]:
  "dreturn a s = (Inr a, s)" "dfail e s = (Inl e, s)"
  "m s = (Inr a, s') \<Longrightarrow> dbind m k s = k a s'" "m s = (Inl e, s') \<Longrightarrow> dbind m k s = (Inl e, s')"
  "m s = (Inr a, s') \<Longrightarrow> dseq m k' s = k' s'" "m s = (Inl e, s') \<Longrightarrow> dseq m k' s = (Inl e, s')"
  by (simp_all add: dreturn_def dfail_def dbind_def dseq_def)

section \<open>A transport as an environment\<close>

fun replay :: "(lsreq \<Rightarrow> ('s, u8 list) dev) \<Rightarrow> trace \<Rightarrow> 's \<Rightarrow> 's" where
  "replay step [] s = s"
| "replay step (LsOp r # es) s = replay step es (snd (step r s))"
| "replay step (USleep n # es) s = replay step es s"

definition machine_env :: "(lsreq \<Rightarrow> ('s, u8 list) dev) \<Rightarrow> 's \<Rightarrow> env" where
  "machine_env step s = (\<lambda>tr r. case fst (step r (replay step tr s)) of Inl e \<Rightarrow> (e, []) | Inr d \<Rightarrow> (0, d))"

definition run_over :: "(lsreq \<Rightarrow> ('s, u8 list) dev) \<Rightarrow> (int + 'a) io \<Rightarrow> ('s, 'a) dev" where
  "run_over step m s = (case m (machine_env step s) [] of (x, tr) \<Rightarrow> (x, replay step tr s))"

lemma replay_append [simp]: "replay step (tr @ tr') s = replay step tr' (replay step tr s)"
  by (induction step tr s rule: replay.induct) auto

section \<open>The requests of a program\<close>

definition trace_of :: "(lsreq \<Rightarrow> bool) \<Rightarrow> trace \<Rightarrow> bool" where
  "trace_of P tr \<longleftrightarrow> (\<forall>r. LsOp r \<in> set tr \<longrightarrow> P r)"

definition asks :: "(lsreq \<Rightarrow> bool) \<Rightarrow> (int + 'a) io \<Rightarrow> bool" where
  "asks P m \<longleftrightarrow> (\<forall>(env :: env) (env' :: env) tr. (\<forall>t r. trace_of P t \<longrightarrow> P r \<longrightarrow> env t r = env' t r) \<longrightarrow> trace_of P tr \<longrightarrow>
     m env tr = m env' tr \<and> trace_of P (snd (m env tr)))"

named_theorems asks_intros

lemma asks_return [asks_intros]: "asks P (ioreturn a)" and asks_fail [asks_intros]: "asks P (iofail e)"
  and asks_usleep [asks_intros]: "asks P (usleep n)"
  by (auto simp: asks_def iodefs trace_of_def)

lemma asks_ls_op [asks_intros]:
  "P \<lparr>rq_op = opc, rq_addr = a, rq_insz = n, rq_out = out\<rparr> \<Longrightarrow> asks P (lowlevel_ls_op opc a n out)"
  by (auto simp: asks_def lowlevel_ls_op_def trace_of_def Let_def split: prod.splits)

lemma asks_iobind [asks_intros]:
  assumes m: "asks P m" and k: "\<And>a. asks P (k a)"
  shows "asks P (iobind m k)"
  unfolding asks_def
proof (intro allI impI)
  fix env env' :: env and tr
  assume e: "\<forall>t r. trace_of P t \<longrightarrow> P r \<longrightarrow> env t r = env' t r" and tr: "trace_of P tr"
  obtain x tr1 where x: "m env tr = (x, tr1)" by force
  then have x': "m env' tr = (x, tr1)" "trace_of P tr1" using m e tr unfolding asks_def by (metis, metis snd_conv)
  show "iobind m k env tr = iobind m k env' tr \<and> trace_of P (snd (iobind m k env tr))"
  proof (cases x)
    case (Inl c)
    with x x' show ?thesis by (simp add: iobind_def)
  next
    case (Inr a)
    then have "k a env tr1 = k a env' tr1 \<and> trace_of P (snd (k a env tr1))" using k x'(2) e unfolding asks_def by blast
    with x x' Inr show ?thesis by (simp add: iobind_def) metis
  qed
qed

lemma asks_ioseq [asks_intros]: "asks P m \<Longrightarrow> asks P k \<Longrightarrow> asks P (ioseq m k)"
  by (simp add: ioseq_def asks_iobind)

lemma asks_iolist [asks_intros]: "(\<And>m. m \<in> set ms \<Longrightarrow> asks P m) \<Longrightarrow> asks P (iolist ms)"
  by (induction ms) (auto intro: asks_intros)

lemma asks_if [asks_intros]: "(b \<Longrightarrow> asks P m) \<Longrightarrow> (\<not> b \<Longrightarrow> asks P k) \<Longrightarrow> asks P (if b then m else k)"
  by simp

text \<open>What can be shown of a program on an environment that only answers the requests it makes.\<close>

definition only_env :: "(lsreq \<Rightarrow> bool) \<Rightarrow> int \<Rightarrow> env \<Rightarrow> env" where
  "only_env P d env = (\<lambda>tr r. if trace_of P tr \<and> P r then env tr r else (d, []))"

lemma only_env_run:
  assumes "asks P m" and "trace_of P tr"
  shows "m (only_env P d env) tr = m env tr"
proof -
  have "\<forall>t r. trace_of P t \<longrightarrow> P r \<longrightarrow> only_env P d env t r = env t r" by (simp add: only_env_def)
  then show ?thesis using assms unfolding asks_def by blast
qed

lemma asks_trace: "asks P m \<Longrightarrow> trace_of P tr \<Longrightarrow> m env tr = (x, tr') \<Longrightarrow> trace_of P tr'"
  unfolding asks_def by (metis snd_conv)

end
