(* ===== verification/DeviceBus.thy ===== *)
theory DeviceBus
  imports Lowlevel
begin

text \<open>
  What a device says about its buses (\<open>src/lib/device/device_bus.c\<close>): counts, base addresses and core
  numbers are read from the parameter tree of the device, and the generic operations on DRP, GPI and
  GPO buses look them up. The tree is the function \<open>params\<close>, the answer of
  \<open>usdr_device_vfs_obj_val_get_u64\<close>.
\<close>

type_synonym params = "string \<Rightarrow> int + u64"

section \<open>The buses of a device\<close>

definition DBMAX_SPI_BUSES :: nat where "DBMAX_SPI_BUSES = 8"
definition DBMAX_I2C_BUSES :: nat where "DBMAX_I2C_BUSES = 4"
definition DBMAX_IDXREG_MAPS :: nat where "DBMAX_IDXREG_MAPS = 2"
definition DBMAX_SRX :: nat where "DBMAX_SRX = 16"
definition DBMAX_STX :: nat where "DBMAX_STX = 16"
definition DBMAX_RFE :: nat where "DBMAX_RFE = 8"
definition DBMAX_TFE :: nat where "DBMAX_TFE = 8"
definition DBMAX_DRP :: nat where "DBMAX_DRP = 8"
definition DBMAX_BUCKET :: nat where "DBMAX_BUCKET = 1"
definition DBMAX_GPO :: nat where "DBMAX_GPO = 1"
definition DBMAX_GPI :: nat where "DBMAX_GPI = 1"

lemmas dbmax_defs = DBMAX_SPI_BUSES_def DBMAX_I2C_BUSES_def DBMAX_IDXREG_MAPS_def DBMAX_SRX_def DBMAX_STX_def DBMAX_RFE_def DBMAX_TFE_def DBMAX_DRP_def DBMAX_BUCKET_def DBMAX_GPO_def DBMAX_GPI_def

record device_bus =
  db_spi_count :: u32
  db_i2c_count :: u32
  db_idx_regsps :: u32
  db_srx_count :: u32
  db_stx_count :: u32
  db_rfe_count :: u32
  db_tfe_count :: u32
  db_drp_count :: u32
  db_bucket_count :: u32
  db_gpi_count :: u32
  db_gpo_count :: u32
  db_spi_core :: "u32 list"
  db_i2c_core :: "u32 list"
  db_spi_base :: "u32 list"
  db_i2c_base :: "u32 list"
  db_idxreg_base :: "u32 list"
  db_idxreg_virt_base :: "u32 list"
  db_srx_base :: "u32 list"
  db_stx_base :: "u32 list"
  db_srx_cfg_base :: "u32 list"
  db_stx_cfg_base :: "u32 list"
  db_srx_core :: "u32 list"
  db_stx_core :: "u32 list"
  db_rfe_base :: "u32 list"
  db_tfe_base :: "u32 list"
  db_rfe_core :: "u32 list"
  db_tfe_core :: "u32 list"
  db_drp_base :: "u32 list"
  db_drp_core :: "u32 list"
  db_bucket_core :: "u32 list"
  db_bucket_base :: "u32 list"
  db_gpo_core :: "u32 list"
  db_gpo_base :: "u32 list"
  db_gpi_core :: "u32 list"
  db_gpi_base :: "u32 list"
  db_poll_event_rd :: u32
  db_poll_event_wr :: u32

text \<open>Names in the tree: \<open>DNLLC(x)\<close> and \<open>DNLLFP_NAME(b, "%d", name)\<close> with the number printed in decimal.\<close>

fun dec :: "nat \<Rightarrow> string" where
  "dec n = (if n < 10 then [char_of (48 + n)] else dec (n div 10) @ [char_of (48 + n mod 10)])"

definition DNLLC :: "string \<Rightarrow> string" where
  "DNLLC x = ''/ll/'' @ x @ ''_count''"

definition DNLLFP_NAME :: "string \<Rightarrow> nat \<Rightarrow> string \<Rightarrow> string" where
  "DNLLFP_NAME b i name = ''/ll/'' @ b @ ''/'' @ dec i @ ''/'' @ name"

text \<open>A row of the table: the parameter of the count, the size of the array, where the count goes, the
  device, the name of the values and the array they go to.\<close>

record enum_params =
  ep_count_path :: string
  ep_max_count :: nat
  ep_storage_count :: "u32 \<Rightarrow> device_bus \<Rightarrow> device_bus"
  ep_dev :: string
  ep_name :: string
  ep_base_array :: "(u32 list \<Rightarrow> u32 list) \<Rightarrow> device_bus \<Rightarrow> device_bus"

definition params_table :: "enum_params list" where
  "params_table =
    [\<lparr>ep_count_path = DNLLC ''idx_regsp'', ep_max_count = DBMAX_IDXREG_MAPS, ep_storage_count = (\<lambda>v. db_idx_regsps_update (\<lambda>_. v)),
      ep_dev = ''idx_regsp'', ep_name = ''base'', ep_base_array = db_idxreg_base_update\<rparr>,
     \<lparr>ep_count_path = DNLLC ''spi'', ep_max_count = DBMAX_SPI_BUSES, ep_storage_count = (\<lambda>v. db_spi_count_update (\<lambda>_. v)),
      ep_dev = ''spi'', ep_name = ''base'', ep_base_array = db_spi_base_update\<rparr>,
     \<lparr>ep_count_path = DNLLC ''i2c'', ep_max_count = DBMAX_I2C_BUSES, ep_storage_count = (\<lambda>v. db_i2c_count_update (\<lambda>_. v)),
      ep_dev = ''i2c'', ep_name = ''base'', ep_base_array = db_i2c_base_update\<rparr>,
     \<lparr>ep_count_path = DNLLC ''spi'', ep_max_count = DBMAX_SPI_BUSES, ep_storage_count = (\<lambda>v. db_spi_count_update (\<lambda>_. v)),
      ep_dev = ''spi'', ep_name = ''core'', ep_base_array = db_spi_core_update\<rparr>,
     \<lparr>ep_count_path = DNLLC ''i2c'', ep_max_count = DBMAX_I2C_BUSES, ep_storage_count = (\<lambda>v. db_i2c_count_update (\<lambda>_. v)),
      ep_dev = ''i2c'', ep_name = ''core'', ep_base_array = db_i2c_core_update\<rparr>,
     \<lparr>ep_count_path = DNLLC ''srx'', ep_max_count = DBMAX_SRX, ep_storage_count = (\<lambda>v. db_srx_count_update (\<lambda>_. v)),
      ep_dev = ''srx'', ep_name = ''base'', ep_base_array = db_srx_base_update\<rparr>,
     \<lparr>ep_count_path = DNLLC ''stx'', ep_max_count = DBMAX_STX, ep_storage_count = (\<lambda>v. db_stx_count_update (\<lambda>_. v)),
      ep_dev = ''stx'', ep_name = ''base'', ep_base_array = db_stx_base_update\<rparr>,
     \<lparr>ep_count_path = DNLLC ''srx'', ep_max_count = DBMAX_SRX, ep_storage_count = (\<lambda>v. db_srx_count_update (\<lambda>_. v)),
      ep_dev = ''srx'', ep_name = ''cfg_base'', ep_base_array = db_srx_cfg_base_update\<rparr>,
     \<lparr>ep_count_path = DNLLC ''stx'', ep_max_count = DBMAX_STX, ep_storage_count = (\<lambda>v. db_stx_count_update (\<lambda>_. v)),
      ep_dev = ''stx'', ep_name = ''cfg_base'', ep_base_array = db_stx_cfg_base_update\<rparr>,
     \<lparr>ep_count_path = DNLLC ''srx'', ep_max_count = DBMAX_SRX, ep_storage_count = (\<lambda>v. db_srx_count_update (\<lambda>_. v)),
      ep_dev = ''srx'', ep_name = ''core'', ep_base_array = db_srx_core_update\<rparr>,
     \<lparr>ep_count_path = DNLLC ''stx'', ep_max_count = DBMAX_STX, ep_storage_count = (\<lambda>v. db_stx_count_update (\<lambda>_. v)),
      ep_dev = ''stx'', ep_name = ''core'', ep_base_array = db_stx_core_update\<rparr>,
     \<lparr>ep_count_path = DNLLC ''srx'', ep_max_count = DBMAX_RFE, ep_storage_count = (\<lambda>v. db_rfe_count_update (\<lambda>_. v)),
      ep_dev = ''rfe'', ep_name = ''base'', ep_base_array = db_rfe_base_update\<rparr>,
     \<lparr>ep_count_path = DNLLC ''tfe'', ep_max_count = DBMAX_TFE, ep_storage_count = (\<lambda>v. db_tfe_count_update (\<lambda>_. v)),
      ep_dev = ''tfe'', ep_name = ''base'', ep_base_array = db_tfe_base_update\<rparr>,
     \<lparr>ep_count_path = DNLLC ''rfe'', ep_max_count = DBMAX_RFE, ep_storage_count = (\<lambda>v. db_rfe_count_update (\<lambda>_. v)),
      ep_dev = ''rfe'', ep_name = ''core'', ep_base_array = db_rfe_core_update\<rparr>,
     \<lparr>ep_count_path = DNLLC ''tfe'', ep_max_count = DBMAX_TFE, ep_storage_count = (\<lambda>v. db_tfe_count_update (\<lambda>_. v)),
      ep_dev = ''tfe'', ep_name = ''core'', ep_base_array = db_tfe_core_update\<rparr>,
     \<lparr>ep_count_path = DNLLC ''drp'', ep_max_count = DBMAX_DRP, ep_storage_count = (\<lambda>v. db_drp_count_update (\<lambda>_. v)),
      ep_dev = ''drp'', ep_name = ''core'', ep_base_array = db_drp_core_update\<rparr>,
     \<lparr>ep_count_path = DNLLC ''drp'', ep_max_count = DBMAX_DRP, ep_storage_count = (\<lambda>v. db_drp_count_update (\<lambda>_. v)),
      ep_dev = ''drp'', ep_name = ''base'', ep_base_array = db_drp_base_update\<rparr>,
     \<lparr>ep_count_path = DNLLC ''bucket'', ep_max_count = DBMAX_BUCKET, ep_storage_count = (\<lambda>v. db_bucket_count_update (\<lambda>_. v)),
      ep_dev = ''bucket'', ep_name = ''core'', ep_base_array = db_bucket_core_update\<rparr>,
     \<lparr>ep_count_path = DNLLC ''bucket'', ep_max_count = DBMAX_BUCKET, ep_storage_count = (\<lambda>v. db_bucket_count_update (\<lambda>_. v)),
      ep_dev = ''bucket'', ep_name = ''base'', ep_base_array = db_bucket_base_update\<rparr>,
     \<lparr>ep_count_path = DNLLC ''gpi'', ep_max_count = DBMAX_GPI, ep_storage_count = (\<lambda>v. db_gpi_count_update (\<lambda>_. v)),
      ep_dev = ''gpi'', ep_name = ''core'', ep_base_array = db_gpi_core_update\<rparr>,
     \<lparr>ep_count_path = DNLLC ''gpi'', ep_max_count = DBMAX_GPI, ep_storage_count = (\<lambda>v. db_gpi_count_update (\<lambda>_. v)),
      ep_dev = ''gpi'', ep_name = ''base'', ep_base_array = db_gpi_base_update\<rparr>,
     \<lparr>ep_count_path = DNLLC ''gpo'', ep_max_count = DBMAX_GPO, ep_storage_count = (\<lambda>v. db_gpo_count_update (\<lambda>_. v)),
      ep_dev = ''gpo'', ep_name = ''core'', ep_base_array = db_gpo_core_update\<rparr>,
     \<lparr>ep_count_path = DNLLC ''gpo'', ep_max_count = DBMAX_GPO, ep_storage_count = (\<lambda>v. db_gpo_count_update (\<lambda>_. v)),
      ep_dev = ''gpo'', ep_name = ''base'', ep_base_array = db_gpo_base_update\<rparr>]"

definition or_absent :: "int + u64 \<Rightarrow> u64 \<Rightarrow> int + u64" where
  "or_absent r v = (case r of Inl e \<Rightarrow> if e = - ENOENT then Inr v else Inl e | Inr x \<Rightarrow> Inr x)"

text \<open>\<open>n\<close> values from index \<open>j\<close> on go to the array.\<close>

fun load_values :: "params \<Rightarrow> (nat \<Rightarrow> string) \<Rightarrow> ((u32 list \<Rightarrow> u32 list) \<Rightarrow> device_bus \<Rightarrow> device_bus) \<Rightarrow> nat \<Rightarrow> nat \<Rightarrow> device_bus \<Rightarrow> int + device_bus" where
  "load_values vfs name arr j 0 b = Inr b"
| "load_values vfs name arr j (Suc n) b =
    (case vfs (name j) of Inl e \<Rightarrow> Inl e
     | Inr v \<Rightarrow> load_values vfs name arr (Suc j) n (arr (\<lambda>xs. xs[j := ucast v]) b))"

definition load_row :: "params \<Rightarrow> enum_params \<Rightarrow> device_bus \<Rightarrow> int + device_bus" where
  "load_row vfs r b =
    (case or_absent (vfs (ep_count_path r)) 0 of Inl e \<Rightarrow> Inl e
     | Inr v \<Rightarrow>
        if unat v > ep_max_count r then Inl (- EINVAL)
        else load_values vfs (\<lambda>j. DNLLFP_NAME (ep_dev r) j (ep_name r)) (ep_base_array r) 0 (unat v)
          (ep_storage_count r (ucast v) b))"

fun load_rows :: "params \<Rightarrow> enum_params list \<Rightarrow> device_bus \<Rightarrow> int + device_bus" where
  "load_rows vfs [] b = Inr b"
| "load_rows vfs (r # rs) b = (case load_row vfs r b of Inl e \<Rightarrow> Inl e | Inr b' \<Rightarrow> load_rows vfs rs b')"

definition device_bus_init :: "params \<Rightarrow> device_bus \<Rightarrow> int + device_bus" where
  "device_bus_init vfs b =
    (case or_absent (vfs ''/ll/poll_event/in'') 0xffffffff of Inl e \<Rightarrow> Inl e
     | Inr rd \<Rightarrow>
      (case or_absent (vfs ''/ll/poll_event/out'') 0xffffffff of Inl e \<Rightarrow> Inl e
       | Inr wr \<Rightarrow>
        (case load_rows vfs params_table (b\<lparr>db_poll_event_rd := ucast rd, db_poll_event_wr := ucast wr\<rparr>) of Inl e \<Rightarrow> Inl e
         | Inr b' \<Rightarrow> load_values vfs (\<lambda>j. DNLLFP_NAME ''idx_regsp'' j ''virt_base'') db_idxreg_virt_base_update 0 (unat (db_idx_regsps b')) b')))"

section \<open>Operations on the buses\<close>

definition array_at :: "u32 list \<Rightarrow> u32 \<Rightarrow> int + u32" where
  "array_at xs i = (if unat i < length xs then Inr (xs ! unat i) else Inl OUT_OF_BOUNDS)"

text \<open>The result of a read is its little-endian image; \<open>pout\<close> holds the data of a write.\<close>

definition device_bus_drp_generic_op :: "device_bus \<Rightarrow> u32 \<Rightarrow> nat \<Rightarrow> u8 list \<Rightarrow> (int + u8 list) io" where
  "device_bus_drp_generic_op db addr meminsz pout =
    (let bus = drop_bit 16 addr; a = push_bit 16 (addr AND 0xff) in
     if bus > db_drp_count db then iofail (- EINVAL)
     else if \<not> (meminsz = 2 \<and> length pout = 0 \<or> meminsz = 0 \<and> length pout = 2) then iofail (- EINVAL)
     else
       let cmd = (if meminsz = 2 then 0x01000000 OR a else 0x81000000 OR a OR ucast (of_le_bytes pout :: u16)) in
       (case array_at (db_drp_base db) bus of Inl e \<Rightarrow> iofail e
        | Inr base \<Rightarrow>
           ioseq (lowlevel_reg_wr32 base cmd)
            (if meminsz = 0 then ioreturn []
             else ioseq (usleep 1000) (iobind (lowlevel_reg_rd32 base) (\<lambda>d. ioreturn (le_bytes 2 d))))))"

definition USDR_CS_GPI :: u32 where "USDR_CS_GPI = 0xA"
definition USDR_CS_GPO :: u32 where "USDR_CS_GPO = 0xB"
definition USDR_GPI_32BIT_12 :: u32 where "USDR_GPI_32BIT_12 = 0"
definition USDR_GPO_8BIT :: u32 where "USDR_GPO_8BIT = 0"

definition USDR_MAKE_COREID :: "u32 \<Rightarrow> u32 \<Rightarrow> u32" where
  "USDR_MAKE_COREID family coreid = (family AND 0xff) OR push_bit 8 coreid"

definition device_bus_gpi_generic_op :: "device_bus \<Rightarrow> u32 \<Rightarrow> nat \<Rightarrow> u8 list \<Rightarrow> (int + u8 list) io" where
  "device_bus_gpi_generic_op db addr meminsz pout =
    (let gpidx = drop_bit 24 addr; bank = addr AND 0xffffff in
     if gpidx \<ge> db_gpi_count db then iofail (- EINVAL)
     else case array_at (db_gpi_core db) gpidx of Inl e \<Rightarrow> iofail e
     | Inr core \<Rightarrow>
        if core \<noteq> USDR_MAKE_COREID USDR_CS_GPI USDR_GPI_32BIT_12 then iofail (- EINVAL)
        else if length pout \<noteq> 0 \<or> meminsz \<noteq> 4 then iofail (- EINVAL)
        else if bank \<ge> 12 * 4 then iofail (- EFAULT)
        else case array_at (db_gpi_base db) gpidx of Inl e \<Rightarrow> iofail e
        | Inr base \<Rightarrow> iobind (lowlevel_reg_rd32 (base + bank div 4)) (\<lambda>d. ioreturn (le_bytes 4 d)))"

definition gpo_word :: "u32 \<Rightarrow> u8 \<Rightarrow> u32" where
  "gpo_word bank d = push_bit 24 (bank AND 0x7f) OR (ucast d AND 0xff)"

definition device_bus_gpo_generic_op :: "device_bus \<Rightarrow> u32 \<Rightarrow> nat \<Rightarrow> u8 list \<Rightarrow> (int + unit) io" where
  "device_bus_gpo_generic_op db addr meminsz pout =
    (let gpodx = drop_bit 24 addr; bank = addr AND 0xffffff in
     if gpodx \<ge> db_gpo_count db then iofail (- EINVAL)
     else case array_at (db_gpo_core db) gpodx of Inl e \<Rightarrow> iofail e
     | Inr core \<Rightarrow>
        if core \<noteq> USDR_MAKE_COREID USDR_CS_GPO USDR_GPO_8BIT then iofail (- EINVAL)
        else if bank > 127 then iofail (- EINVAL)
        else if length pout \<noteq> 1 \<or> meminsz \<noteq> 0 then iofail (- EINVAL)
        else case array_at (db_gpo_base db) gpodx of Inl e \<Rightarrow> iofail e
        | Inr base \<Rightarrow> lowlevel_reg_wr32 base (gpo_word bank (hd pout)))"

section \<open>Lemmas\<close>

lemma load_values_two:
  "load_values vfs name arr j 2 b = (case vfs (name j) of Inl e \<Rightarrow> Inl e
     | Inr v \<Rightarrow> load_values vfs name arr (Suc j) (Suc 0) (arr (\<lambda>xs. xs[j := ucast v]) b))"
  by (simp add: numeral_2_eq_2)

declare dec.simps [simp del]

lemma dec_digits [simp]: "dec 0 = ''0''" "dec 1 = ''1''" "dec (Suc 0) = ''1''"
  by code_simp+

text \<open>A row keeps every field but its own count and its own array, and its count is within the array.\<close>

lemma load_values_keep:
  assumes "load_values vfs name arr j n b = Inr b'" and "\<And>f b. g (arr f b) = g b"
  shows "g b' = g b"
  using assms by (induction vfs name arr j n b rule: load_values.induct) (auto split: sum.splits)

lemma load_values_read:
  assumes "load_values vfs name arr j n b = Inr b'" and "\<And>f b. g (arr f b) = f (g b)"
  shows "length (g b') = length (g b) \<and> (\<forall>i<length (g b). g b' ! i =
    (if j \<le> i \<and> i < j + n then (case vfs (name i) of Inl e \<Rightarrow> 0 | Inr v \<Rightarrow> ucast v) else g b ! i))"
  using assms
proof (induction vfs name arr j n b rule: load_values.induct)
  case (2 vfs name arr j n b)
  obtain v where v: "vfs (name j) = Inr v" using 2(2) by (auto split: sum.splits)
  then have r: "load_values vfs name arr (Suc j) n (arr (\<lambda>xs. xs[j := ucast v]) b) = Inr b'" using 2(2) by simp
  have i: "i = j" if "j \<le> i" "\<not> Suc j \<le> i" for i using that by simp
  show ?case using 2(1) [OF v r 2(3)] v 2(3) by (auto simp: nth_list_update dest: i)
qed auto

lemma load_row_keep:
  assumes "load_row vfs r b = Inr b'" and "\<And>v b. g (ep_storage_count r v b) = g b" and "\<And>f b. g (ep_base_array r f b) = g b"
  shows "g b' = g b"
proof -
  obtain v :: u64 where "load_values vfs (\<lambda>j. DNLLFP_NAME (ep_dev r) j (ep_name r)) (ep_base_array r) 0 (unat v)
          (ep_storage_count r (ucast v) b) = Inr b'"
    using assms(1) by (auto simp: load_row_def split: sum.splits if_splits)
  from load_values_keep [OF this, of g] assms(2,3) show ?thesis by simp
qed

lemma load_row_count:
  assumes "load_row vfs r b = Inr b'" and "\<And>v b. g (ep_storage_count r v b) = v" and "\<And>f b. g (ep_base_array r f b) = g b"
    and "ep_max_count r < 2 ^ 32"
  shows "unat (g b' :: u32) \<le> ep_max_count r"
proof -
  obtain v where v: "unat (v :: u64) \<le> ep_max_count r" and "load_values vfs (\<lambda>j. DNLLFP_NAME (ep_dev r) j (ep_name r)) (ep_base_array r) 0 (unat v)
          (ep_storage_count r (ucast v) b) = Inr b'"
    using assms(1) by (auto simp: load_row_def not_less split: sum.splits if_splits)
  from load_values_keep [OF this(2), of g] assms(2,3) have "g b' = ucast v" by simp
  then show ?thesis using v assms(4) by (simp add: unsigned_ucast_eq take_bit_nat_eq_self)
qed

lemma load_rows_Cons_Inr:
  "load_rows vfs (r # rs) b = Inr b' \<longleftrightarrow> (\<exists>b1. load_row vfs r b = Inr b1 \<and> load_rows vfs rs b1 = Inr b')"
  by (auto split: sum.splits)

lemma load_rows_append:
  "load_rows vfs (xs @ ys) b = Inr b' \<longleftrightarrow> (\<exists>b1. load_rows vfs xs b = Inr b1 \<and> load_rows vfs ys b1 = Inr b')"
  by (induction xs arbitrary: b) (auto split: sum.splits)

lemma load_rows_keep:
  assumes "load_rows vfs rs b = Inr b'" and "\<forall>r\<in>set rs. (\<forall>v b. g (ep_storage_count r v b) = g b) \<and> (\<forall>f b. g (ep_base_array r f b) = g b)"
  shows "g b' = g b"
  using assms
proof (induction rs arbitrary: b)
  case (Cons r rs)
  obtain b1 where 1: "load_row vfs r b = Inr b1" and 2: "load_rows vfs rs b1 = Inr b'" using Cons.prems(1) by (auto split: sum.splits)
  have "g b1 = g b" using load_row_keep [OF 1, of g] Cons.prems(2) by simp
  with Cons.IH [OF 2] Cons.prems(2) show ?case by simp
qed simp

lemma load_rows_count:
  assumes "load_rows vfs rs b = Inr b'" and "k < length rs" and "ep_max_count (rs ! k) < 2 ^ 32"
    and "\<And>v b. g (ep_storage_count (rs ! k) v b) = v" and "\<And>f b. g (ep_base_array (rs ! k) f b) = g b"
    and "\<forall>r\<in>set (drop (Suc k) rs). (\<forall>v b. g (ep_storage_count r v b) = g b) \<and> (\<forall>f b. g (ep_base_array r f b) = g b)"
  shows "unat (g b' :: u32) \<le> ep_max_count (rs ! k)"
proof -
  have "rs = take k rs @ rs ! k # drop (Suc k) rs" using assms(2) by (simp add: id_take_nth_drop)
  then have "load_rows vfs (take k rs @ rs ! k # drop (Suc k) rs) b = Inr b'" using assms(1) by simp
  then obtain b1 where "load_rows vfs (rs ! k # drop (Suc k) rs) b1 = Inr b'" by (auto simp only: load_rows_append)
  then obtain b2 where "load_row vfs (rs ! k) b1 = Inr b2" "load_rows vfs (drop (Suc k) rs) b2 = Inr b'"
    by (auto split: sum.splits)
  then show ?thesis using load_row_count [of vfs "rs ! k" b1 b2 g] load_rows_keep [of vfs _ b2 b' g] assms by simp
qed

text \<open>The counts and the sizes of the arrays they count.\<close>

definition bus_sized :: "device_bus \<Rightarrow> bool" where
  "bus_sized b \<longleftrightarrow>
    unat (db_spi_count b) \<le> DBMAX_SPI_BUSES \<and> unat (db_i2c_count b) \<le> DBMAX_I2C_BUSES \<and> unat (db_idx_regsps b) \<le> DBMAX_IDXREG_MAPS \<and>
    unat (db_srx_count b) \<le> DBMAX_SRX \<and> unat (db_stx_count b) \<le> DBMAX_STX \<and> unat (db_rfe_count b) \<le> DBMAX_RFE \<and>
    unat (db_tfe_count b) \<le> DBMAX_TFE \<and> unat (db_drp_count b) \<le> DBMAX_DRP \<and> unat (db_bucket_count b) \<le> DBMAX_BUCKET \<and>
    unat (db_gpi_count b) \<le> DBMAX_GPI \<and> unat (db_gpo_count b) \<le> DBMAX_GPO"

lemma device_bus_init_sized_run:
  assumes "device_bus_init vfs b = Inr b'"
  shows "bus_sized b'"
proof -
  obtain b1 b2 where r: "load_rows vfs params_table b1 = Inr b2"
    and l: "load_values vfs (\<lambda>j. DNLLFP_NAME ''idx_regsp'' j ''virt_base'') db_idxreg_virt_base_update 0 (unat (db_idx_regsps b2)) b2 = Inr b'"
    using assms by (auto simp: device_bus_init_def split: sum.splits)
  note k = load_values_keep [OF l]
  note c = load_rows_count [OF r]
  have "unat (db_idx_regsps b2) \<le> 2" using c [of 0 db_idx_regsps] by (simp add: params_table_def dbmax_defs)
  moreover have "unat (db_spi_count b2) \<le> 8" using c [of 3 db_spi_count] by (simp add: params_table_def dbmax_defs)
  moreover have "unat (db_i2c_count b2) \<le> 4" using c [of 4 db_i2c_count] by (simp add: params_table_def dbmax_defs)
  moreover have "unat (db_srx_count b2) \<le> 16" using c [of 9 db_srx_count] by (simp add: params_table_def dbmax_defs)
  moreover have "unat (db_stx_count b2) \<le> 16" using c [of 10 db_stx_count] by (simp add: params_table_def dbmax_defs)
  moreover have "unat (db_rfe_count b2) \<le> 8" using c [of 13 db_rfe_count] by (simp add: params_table_def dbmax_defs)
  moreover have "unat (db_tfe_count b2) \<le> 8" using c [of 14 db_tfe_count] by (simp add: params_table_def dbmax_defs)
  moreover have "unat (db_drp_count b2) \<le> 8" using c [of 16 db_drp_count] by (simp add: params_table_def dbmax_defs)
  moreover have "unat (db_bucket_count b2) \<le> 1" using c [of 18 db_bucket_count] by (simp add: params_table_def dbmax_defs)
  moreover have "unat (db_gpi_count b2) \<le> 1" using c [of 20 db_gpi_count] by (simp add: params_table_def dbmax_defs)
  moreover have "unat (db_gpo_count b2) \<le> 1" using c [of 22 db_gpo_count] by (simp add: params_table_def dbmax_defs)
  ultimately show ?thesis by (simp add: bus_sized_def dbmax_defs k)
qed

text \<open>C14: After a successful start every count is at most the size of the arrays it counts, whatever the
  parameter tree says.\<close>

theorem device_bus_init_sized: "device_bus_init vfs b = Inr b' \<Longrightarrow> bus_sized b'"
  by (rule device_bus_init_sized_run)

text \<open>A structure before the start, with \<open>g\<close> in every array element.\<close>

definition bus0 :: "u32 \<Rightarrow> device_bus" where
  "bus0 g =
    \<lparr>db_spi_count = 0, db_i2c_count = 0, db_idx_regsps = 0, db_srx_count = 0, db_stx_count = 0, db_rfe_count = 0, db_tfe_count = 0, db_drp_count = 0, db_bucket_count = 0, db_gpi_count = 0, db_gpo_count = 0,
     db_spi_core = replicate 8 g,
     db_i2c_core = replicate 4 g,
     db_spi_base = replicate 8 g,
     db_i2c_base = replicate 4 g,
     db_idxreg_base = replicate 2 g,
     db_idxreg_virt_base = replicate 2 g,
     db_srx_base = replicate 16 g,
     db_stx_base = replicate 16 g,
     db_srx_cfg_base = replicate 16 g,
     db_stx_cfg_base = replicate 16 g,
     db_srx_core = replicate 16 g,
     db_stx_core = replicate 16 g,
     db_rfe_base = replicate 8 g,
     db_tfe_base = replicate 8 g,
     db_rfe_core = replicate 8 g,
     db_tfe_core = replicate 8 g,
     db_drp_base = replicate 8 g,
     db_drp_core = replicate 8 g,
     db_bucket_core = replicate 1 g,
     db_bucket_base = replicate 1 g,
     db_gpo_core = replicate 1 g,
     db_gpo_base = replicate 1 g,
     db_gpi_core = replicate 1 g,
     db_gpi_base = replicate 1 g,
     db_poll_event_rd = 0, db_poll_event_wr = 0\<rparr>"

definition tree :: "(string \<times> u64) list \<Rightarrow> params" where
  "tree kvs name = (case map_of kvs name of None \<Rightarrow> Inl (- ENOENT) | Some v \<Rightarrow> Inr v)"

definition drp_tree :: params where
  "drp_tree = tree [(''/ll/drp_count'', 1), (''/ll/drp/0/core'', 3), (''/ll/drp/0/base'', 0x40)]"

lemma drp_tree_run: "\<exists>b'. device_bus_init drp_tree (bus0 0) = Inr b' \<and> db_drp_count b' = 1 \<and> length (db_drp_base b') = 8"
  by (simp add: device_bus_init_def params_table_def load_row_def or_absent_def drp_tree_def tree_def DNLLC_def DNLLFP_NAME_def dbmax_defs
    bus0_def)

theorem device_bus_init_sized_witness:
  "\<exists>b'. device_bus_init drp_tree (bus0 0) = Inr b' \<and> bus_sized b'"
  using drp_tree_run device_bus_init_sized by blast

lemma load_values_ok:
  "load_values vfs name arr j n b = Inr b' \<Longrightarrow> j \<le> i \<Longrightarrow> i < j + n \<Longrightarrow> \<exists>v. vfs (name i) = Inr v"
proof (induction vfs name arr j n b rule: load_values.induct)
  case (2 vfs name arr j n b)
  then show ?case by (cases "i = j") (auto split: sum.splits)
qed simp

lemma load_row_read:
  assumes "load_row vfs r b = Inr b'" and "\<And>v b. cnt (ep_storage_count r v b) = v" and "\<And>f b. cnt (ep_base_array r f b) = cnt b"
    and "\<And>v b. g (ep_storage_count r v b) = g b" and "\<And>f b. g (ep_base_array r f b) = f (g b)"
    and "i < unat (cnt b' :: u32)" and "i < length (g b)" and "ep_max_count r < 2 ^ 32"
  shows "\<exists>v. vfs (DNLLFP_NAME (ep_dev r) i (ep_name r)) = Inr v \<and> g b' ! i = ucast v"
proof -
  obtain v :: u64 where v: "unat v \<le> ep_max_count r" and l: "load_values vfs (\<lambda>j. DNLLFP_NAME (ep_dev r) j (ep_name r)) (ep_base_array r) 0 (unat v)
          (ep_storage_count r (ucast v) b) = Inr b'"
    using assms(1) by (auto simp: load_row_def not_less split: sum.splits if_splits)
  have "cnt b' = ucast v" using load_values_keep [OF l, of cnt] assms(2,3) by simp
  then have i: "i < unat v" using assms(6,8) v by (simp add: unsigned_ucast_eq take_bit_nat_eq_self)
  then show ?thesis using load_values_ok [OF l, of i] load_values_read [OF l, of g] assms(4,5,7) by auto
qed

text \<open>After a successful start a register access on a DRP bus of the device goes to the register the
  parameter tree names for that bus.\<close>

theorem device_bus_drp_from_tree:
  assumes "device_bus_init vfs b = Inr b'" and "length (db_drp_base b) = DBMAX_DRP"
    and "drop_bit 16 addr < db_drp_count b'" and "device_bus_drp_generic_op b' addr 0 [x, y] env tr = (Inr d, tr')"
  shows "\<exists>v. vfs (DNLLFP_NAME ''drp'' (unat (drop_bit 16 addr)) ''base'') = Inr v \<and>
    tr' = tr @ [ev_wr32 (ucast v) (0x81000000 OR push_bit 16 (addr AND 0xff) OR ucast (of_le_bytes [x, y] :: u16))]"
proof -
  obtain b1 b2 where r: "load_rows vfs params_table b1 = Inr b2" and b1: "db_drp_base b1 = db_drp_base b"
    and l: "load_values vfs (\<lambda>j. DNLLFP_NAME ''idx_regsp'' j ''virt_base'') db_idxreg_virt_base_update 0 (unat (db_idx_regsps b2)) b2 = Inr b'"
    using assms(1) by (auto simp: device_bus_init_def split: sum.splits)
  let ?i = "unat (drop_bit 16 addr)" and ?row = "params_table ! 16"
  have t: "params_table = take 16 params_table @ ?row # drop 17 params_table" by (simp add: params_table_def)
  then have "load_rows vfs (take 16 params_table @ ?row # drop 17 params_table) b1 = Inr b2" using r by simp
  then obtain b3 b4 where 3: "load_rows vfs (take 16 params_table) b1 = Inr b3" and 4: "load_row vfs ?row b3 = Inr b4"
    and 5: "load_rows vfs (drop 17 params_table) b4 = Inr b2"
    unfolding load_rows_append load_rows_Cons_Inr by blast
  have len: "length (db_drp_base b3) = 8"
    using load_rows_keep [OF 3, of db_drp_base] b1 assms(2) by (simp add: params_table_def dbmax_defs)
  have cnt: "db_drp_count b' = db_drp_count b4" "db_drp_base b' = db_drp_base b4"
    using load_values_keep [OF l, of db_drp_count] load_values_keep [OF l, of db_drp_base]
      load_rows_keep [OF 5, of db_drp_count] load_rows_keep [OF 5, of db_drp_base] by (simp_all add: params_table_def)
  have sz: "unat (db_drp_count b') \<le> 8" using device_bus_init_sized_run [OF assms(1)] by (simp add: bus_sized_def dbmax_defs)
  have i: "?i < unat (db_drp_count b4)" using assms(3) cnt by (simp add: word_less_nat_alt)
  obtain v where v: "vfs (DNLLFP_NAME ''drp'' ?i ''base'') = Inr v" "db_drp_base b4 ! ?i = ucast v"
    using load_row_read [OF 4, of db_drp_count db_drp_base ?i] i len sz cnt by (auto simp: params_table_def dbmax_defs)
  have "tr' = tr @ [ev_wr32 (db_drp_base b' ! ?i) (0x81000000 OR push_bit 16 (addr AND 0xff) OR ucast (of_le_bytes [x, y] :: u16))]"
    using assms(3,4) by (auto simp: device_bus_drp_generic_op_def Let_def array_at_def iosuccess split: sum.splits if_splits)
  then show ?thesis using v cnt by auto
qed

theorem device_bus_drp_from_tree_witness:
  "\<exists>b' tr'. device_bus_init drp_tree (bus0 0) = Inr b' \<and> device_bus_drp_generic_op b' 5 0 [1, 0] accept_all [] = (Inr [], tr') \<and>
     tr' = [ev_wr32 0x40 0x81050001]"
proof -
  obtain b' where b: "device_bus_init drp_tree (bus0 0) = Inr b'" "db_drp_count b' = 1" "length (db_drp_base b') = 8" using drp_tree_run by blast
  have "\<exists>tr'. device_bus_drp_generic_op b' 5 0 [1, 0] accept_all [] = (Inr [], tr')"
    by (simp add: device_bus_drp_generic_op_def b array_at_def)
  then obtain tr' where r: "device_bus_drp_generic_op b' 5 0 [1, 0] accept_all [] = (Inr [], tr')" by blast
  have "length (db_drp_base (bus0 0)) = DBMAX_DRP" by (simp add: bus0_def dbmax_defs)
  from device_bus_drp_from_tree [OF b(1) this _ r] b r show ?thesis
    by (auto simp: drp_tree_def tree_def DNLLFP_NAME_def)
qed

text \<open>Bus number \<open>drp_count\<close> is accepted: on a device without DRP buses a request goes to the
  register in a place of the array that was never filled.\<close>

theorem device_bus_drp_off_by_one:
  "device_bus_drp_generic_op (bus0 0xdead) 0 0 [1, 0] accept_all [] = (Inr [], [ev_wr32 0xdead 0x81000001])"
  by (simp add: device_bus_drp_generic_op_def bus0_def array_at_def)

text \<open>The addresses of the receive front ends are read for as many as there are receive streams: with
  one stream and two front ends the start succeeds and the second address was never filled.\<close>

definition rfe_tree :: params where
  "rfe_tree = tree [(''/ll/srx_count'', 1), (''/ll/srx/0/base'', 1), (''/ll/srx/0/core'', 2), (''/ll/srx/0/cfg_base'', 3),
     (''/ll/rfe_count'', 2), (''/ll/rfe/0/base'', 4), (''/ll/rfe/1/base'', 5), (''/ll/rfe/0/core'', 6), (''/ll/rfe/1/core'', 7)]"

theorem device_bus_rfe_unfilled:
  "\<exists>b'. device_bus_init rfe_tree (bus0 0xdead) = Inr b' \<and> db_rfe_count b' = 2 \<and> db_rfe_base b' ! 1 = 0xdead"
  by (simp add: device_bus_init_def params_table_def load_row_def or_absent_def rfe_tree_def tree_def DNLLC_def DNLLFP_NAME_def dbmax_defs
    bus0_def load_values_two)

end
