(* ===== verification/UsbUram.thy ===== *)
theory UsbUram
  imports Transport BusCores DeviceBus
begin

text \<open>
  The USB transport (\<open>src/lib/lowlevel/usb_uram/usb_uram_generic.c\<close>): low-level requests become register
  transfers, with indexed register spaces behind an address and a data register, SPI and I2C transactions
  through their cores, and the generic DRP, GPI and GPO operations, which come back as register
  requests. The functions that move words over the cable (\<open>io_ops\<close>) are an argument, with a state of
  their own; what a failing one leaves in the output is not used.
\<close>

section \<open>The transport\<close>

record 'h usb_uram_io_ops =
  io_read_fn :: "u32 \<Rightarrow> nat \<Rightarrow> 'h \<Rightarrow> (int \<times> u32 list) \<times> 'h"
  io_write_fn :: "u32 \<Rightarrow> u32 list \<Rightarrow> 'h \<Rightarrow> int \<times> 'h"
  io_read_bus_fn :: "u32 \<Rightarrow> u32 \<Rightarrow> nat \<Rightarrow> 'h \<Rightarrow> (int \<times> u8 list) \<times> 'h"

record 'h usb_uram_generic =
  gen_db :: device_bus
  gen_spi_int_number :: "u32 list"
  gen_i2c_int_number :: "u32 list"
  gen_i2cc :: "i2c_cache list"
  gen_hw :: 'h

definition MAX_INTERRUPTS :: nat where "MAX_INTERRUPTS = 32"
definition EOPNOTSUPP :: int where "EOPNOTSUPP = 95"

definition words_of :: "u8 list \<Rightarrow> u32 list" where
  "words_of d = map (\<lambda>i. of_le_bytes (take 4 (drop (4 * i) d))) [0..<length d div 4]"

definition bytes_of :: "u32 list \<Rightarrow> u8 list" where
  "bytes_of ws = concat (map (le_bytes 4) ws)"

section \<open>Registers\<close>

definition usb_uram_reg_out_n :: "'h usb_uram_io_ops \<Rightarrow> u32 \<Rightarrow> u32 list \<Rightarrow> ('h usb_uram_generic, unit) dev" where
  "usb_uram_reg_out_n ops reg ws = (\<lambda>s. case io_write_fn ops reg ws (gen_hw s) of
     (res, h) \<Rightarrow> (if res \<noteq> 0 then Inl res else Inr (), s\<lparr>gen_hw := h\<rparr>))"

definition usb_uram_reg_out :: "'h usb_uram_io_ops \<Rightarrow> u32 \<Rightarrow> u32 \<Rightarrow> ('h usb_uram_generic, unit) dev" where
  "usb_uram_reg_out ops reg w = usb_uram_reg_out_n ops reg [w]"

definition usb_read :: "'h usb_uram_io_ops \<Rightarrow> u32 \<Rightarrow> nat \<Rightarrow> ('h usb_uram_generic, u32 list) dev" where
  "usb_read ops reg n = (\<lambda>s. case io_read_fn ops reg n (gen_hw s) of
     ((res, ws), h) \<Rightarrow> (if res \<noteq> 0 then Inl res else Inr (fit n 0 ws), s\<lparr>gen_hw := h\<rparr>))"

definition usb_uram_reg_in :: "'h usb_uram_io_ops \<Rightarrow> u32 \<Rightarrow> ('h usb_uram_generic, u32) dev" where
  "usb_uram_reg_in ops reg = dbind (usb_read ops reg 1) (\<lambda>ws. dreturn (ws ! 0))"

text \<open>
  The transfers of an array: \<open>sz\<close> is only ever cut to 64 words and never to what remains, so a last
  transfer larger than the rest writes past the caller's array.
\<close>

function usb_reg_in_from :: "'h usb_uram_io_ops \<Rightarrow> u32 \<Rightarrow> nat \<Rightarrow> nat \<Rightarrow> ('h usb_uram_generic, u32 list) dev" where
  "usb_reg_in_from ops reg sz rem =
    (if rem = 0 then dreturn []
     else
       let n = (if sz > 64 then 64 else sz) in
       if n = 0 then dfail HANG
       else dbind (usb_read ops reg n) (\<lambda>ws.
         if n > rem then dfail OUT_OF_BOUNDS
         else dbind (usb_reg_in_from ops (reg + of_nat n) n (rem - n)) (\<lambda>r. dreturn (ws @ r))))"
  by pat_completeness auto
termination by (relation "measure (\<lambda>(ops, reg, sz, rem). rem)") auto

declare usb_reg_in_from.simps [simp del]

definition usb_uram_reg_in_n :: "'h usb_uram_io_ops \<Rightarrow> u32 \<Rightarrow> nat \<Rightarrow> ('h usb_uram_generic, u32 list) dev" where
  "usb_uram_reg_in_n ops reg dwcnt = usb_reg_in_from ops reg dwcnt dwcnt"

text \<open>An indexed space: for every word its address, then the word to write, then the word to read.\<close>

fun usb_idx_op :: "'h usb_uram_io_ops \<Rightarrow> u32 \<Rightarrow> u32 \<Rightarrow> u32 list \<Rightarrow> nat \<Rightarrow> ('h usb_uram_generic, u32 list) dev" where
  "usb_idx_op ops base a [] 0 = dreturn []"
| "usb_idx_op ops base a [] (Suc n) =
    dseq (usb_uram_reg_out ops base a)
      (dbind (usb_uram_reg_in ops (base + 1)) (\<lambda>v. dbind (usb_idx_op ops base (a + 1) [] n) (\<lambda>r. dreturn (v # r))))"
| "usb_idx_op ops base a (w # ws) 0 =
    dseq (usb_uram_reg_out ops base a) (dseq (usb_uram_reg_out ops (base + 1) w) (usb_idx_op ops base (a + 1) ws 0))"
| "usb_idx_op ops base a (w # ws) (Suc n) =
    dseq (usb_uram_reg_out ops base a) (dseq (usb_uram_reg_out ops (base + 1) w)
      (dbind (usb_uram_reg_in ops (base + 1)) (\<lambda>v. dbind (usb_idx_op ops base (a + 1) ws n) (\<lambda>r. dreturn (v # r)))))"

definition usb_plain_op :: "'h usb_uram_io_ops \<Rightarrow> u32 \<Rightarrow> u32 list \<Rightarrow> nat \<Rightarrow> ('h usb_uram_generic, u32 list) dev" where
  "usb_plain_op ops addr outa n =
    dseq (if length outa > 1 then usb_uram_reg_out_n ops addr outa
          else if length outa = 1 then usb_uram_reg_out ops addr (outa ! 0) else dreturn ())
     (if n > 1 then usb_uram_reg_in_n ops addr n
      else if n = 1 then dbind (usb_uram_reg_in ops addr) (\<lambda>v. dreturn [v]) else dreturn [])"

definition usb_uram_reg_op :: "'h usb_uram_io_ops \<Rightarrow> u32 \<Rightarrow> nat \<Rightarrow> u8 list \<Rightarrow> ('h usb_uram_generic, u8 list) dev" where
  "usb_uram_reg_op ops addr meminsz pout = (\<lambda>s.
    if meminsz mod 4 \<noteq> 0 \<or> length pout mod 4 \<noteq> 0 then dfail (- EINVAL) s
    else
      let db = gen_db s; outa = words_of pout; n = meminsz div 4 in
      dbind
       (case List.find (\<lambda>k. addr \<ge> db_idxreg_virt_base db ! k) [0..<unat (db_idx_regsps db)] of
          Some k \<Rightarrow> usb_idx_op ops (db_idxreg_base db ! k) (addr - db_idxreg_virt_base db ! k) outa n
        | None \<Rightarrow> usb_plain_op ops addr outa n)
       (\<lambda>ws. dreturn (bytes_of ws)) s)"

section \<open>Transactions\<close>

definition USDR_CS_BUS :: u32 where "USDR_CS_BUS = 1"
definition I2C_CORE_AUTO_LUTUPD :: u32 where "I2C_CORE_AUTO_LUTUPD = USDR_MAKE_COREID USDR_CS_BUS 1"
definition SPI_CORE_32W :: u32 where "SPI_CORE_32W = USDR_MAKE_COREID USDR_CS_BUS 0"
definition SPI_CORE_CFGW_CS8 :: u32 where "SPI_CORE_CFGW_CS8 = USDR_MAKE_COREID USDR_CS_BUS 16"

definition LSOP_I2C_INSTANCE :: "u32 \<Rightarrow> u32" where "LSOP_I2C_INSTANCE ls = drop_bit 24 ls AND 0xff"
definition LSOP_I2C_BUSNO :: "u32 \<Rightarrow> u32" where "LSOP_I2C_BUSNO ls = drop_bit 16 ls AND 0xff"
definition LSOP_I2C_ADDR :: "u32 \<Rightarrow> u32" where "LSOP_I2C_ADDR ls = ls AND 0xffff"

definition dlookup :: "int + u32 \<Rightarrow> (u32 \<Rightarrow> ('s, 'a) dev) \<Rightarrow> ('s, 'a) dev" where
  "dlookup r k = (case r of Inl e \<Rightarrow> dfail e | Inr v \<Rightarrow> k v)"

text \<open>The interrupt number and the register: for SPI both tables are indexed by the whole address, and
  the register is the core number.\<close>

definition usb_uram_read_wait ::
  "'h usb_uram_io_ops \<Rightarrow> lowlevel_ls_ops \<Rightarrow> u32 \<Rightarrow> nat \<Rightarrow> ('h usb_uram_generic, u8 list) dev" where
  "usb_uram_read_wait ops lsop addr meminsz = (\<lambda>s.
    let rd = (\<lambda>ints regs. dlookup (array_at ints addr) (\<lambda>int_number. dlookup (array_at regs addr) (\<lambda>reg s.
      (case io_read_bus_fn ops int_number reg meminsz (gen_hw s) of
        ((res, d), h) \<Rightarrow> (if res \<noteq> 0 then Inl res else Inr (fit meminsz 0 d), s\<lparr>gen_hw := h\<rparr>))))) in
    case lsop of
      USDR_LSOP_SPI \<Rightarrow> rd (gen_spi_int_number s) (db_spi_core (gen_db s)) s
    | USDR_LSOP_I2C_DEV \<Rightarrow> rd (gen_i2c_int_number s) (db_i2c_base (gen_db s)) s
    | _ \<Rightarrow> dfail (- EOPNOTSUPP) s)"

definition usb_spi_op :: "'h usb_uram_io_ops \<Rightarrow> u32 \<Rightarrow> nat \<Rightarrow> u8 list \<Rightarrow> ('h usb_uram_generic, u8 list) dev" where
  "usb_spi_op ops addr meminsz pout = (\<lambda>s.
    let db = gen_db s; bus = SPIEXT_LSOP_GET_BUS addr in
    if bus \<ge> db_spi_count db then dfail (- EINVAL) s
    else dlookup (array_at (db_spi_core db) addr) (\<lambda>core.
      dseq
       (if core = SPI_CORE_32W then
          (if meminsz \<noteq> 4 \<and> meminsz \<noteq> 0 \<or> length pout \<noteq> 4 then dfail (- EINVAL)
           else dlookup (array_at (db_spi_base db) bus) (\<lambda>b. usb_uram_reg_out ops b (of_le_bytes pout)))
        else if core = SPI_CORE_CFGW_CS8 then
          dlookup (spiext_make_data_reg pout) (\<lambda>w.
          dlookup (array_at (db_spi_base db) bus) (\<lambda>b. usb_uram_reg_out_n ops (b - 1) [SPIEXT_LSOP_GET_CFG addr, w]))
        else dfail (- EINVAL))
       (usb_uram_read_wait ops USDR_LSOP_SPI addr meminsz)) s)"

definition usb_i2c_op :: "'h usb_uram_io_ops \<Rightarrow> u32 \<Rightarrow> nat \<Rightarrow> u8 list \<Rightarrow> ('h usb_uram_generic, u8 list) dev" where
  "usb_i2c_op ops addr meminsz pout = (\<lambda>s.
    let db = gen_db s; inst = LSOP_I2C_INSTANCE addr; bus_no = LSOP_I2C_BUSNO addr in
    if inst \<ge> db_i2c_count db then dfail (- EINVAL) s
    else dlookup (array_at (db_i2c_core db) inst) (\<lambda>core s.
      if core \<noteq> I2C_CORE_AUTO_LUTUPD then dfail (- EINVAL) s
      else if bus_no > 1 then dfail (- EINVAL) s
      else
        let o4 = 4 * unat inst; cd = take 4 (drop o4 (gen_i2cc s));
            i2caddr = ucast (ucast (LSOP_I2C_ADDR addr) :: u8);
            (lidx, cd') = si2c_update_lut_idx cd i2caddr bus_no;
            s1 = s\<lparr>gen_i2cc := take o4 (gen_i2cc s) @ cd' @ drop (o4 + 4) (gen_i2cc s)\<rparr>
        in dlookup (si2c_make_ctrl_reg (of_nat lidx) pout (of_nat (length pout)) (of_nat meminsz)) (\<lambda>cmd.
             dlookup (array_at (db_i2c_base db) inst) (\<lambda>b.
              dseq (usb_uram_reg_out_n ops (b - 1) [si2c_get_lut cd', cmd])
               (if meminsz > 0 then usb_uram_read_wait ops USDR_LSOP_I2C_DEV inst meminsz else dreturn []))) s1) s)"

text \<open>The generic operations issue register requests on the same device.\<close>

definition usb_hwreg :: "'h usb_uram_io_ops \<Rightarrow> lsreq \<Rightarrow> ('h usb_uram_generic, u8 list) dev" where
  "usb_hwreg ops r = usb_uram_reg_op ops (rq_addr r) (rq_insz r) (rq_out r)"

definition usb_uram_ls_op :: "'h usb_uram_io_ops \<Rightarrow> lsreq \<Rightarrow> ('h usb_uram_generic, u8 list) dev" where
  "usb_uram_ls_op ops r = (\<lambda>s.
    case rq_op r of
      USDR_LSOP_HWREG \<Rightarrow> usb_hwreg ops r s
    | USDR_LSOP_SPI \<Rightarrow> usb_spi_op ops (rq_addr r) (rq_insz r) (rq_out r) s
    | USDR_LSOP_I2C_DEV \<Rightarrow> usb_i2c_op ops (rq_addr r) (rq_insz r) (rq_out r) s
    | USDR_LSOP_DRP \<Rightarrow> run_over (usb_hwreg ops) (device_bus_drp_generic_op (gen_db s) (rq_addr r) (rq_insz r) (rq_out r)) s
    | USDR_LSOP_GPI \<Rightarrow> run_over (usb_hwreg ops) (device_bus_gpi_generic_op (gen_db s) (rq_addr r) (rq_insz r) (rq_out r)) s
    | USDR_LSOP_GPO \<Rightarrow> dbind (run_over (usb_hwreg ops) (device_bus_gpo_generic_op (gen_db s) (rq_addr r) (rq_insz r) (rq_out r))) (\<lambda>_. dreturn []) s
    | _ \<Rightarrow> dfail (- EOPNOTSUPP) s)"

section \<open>Start-up\<close>

text \<open>The interrupt numbers of a kind of bus, and the mask of all; a shift by 32 or more is undefined.\<close>

fun usb_load_irqs :: "params \<Rightarrow> string \<Rightarrow> nat \<Rightarrow> nat \<Rightarrow> u32 list \<times> u32 \<Rightarrow> int + u32 list \<times> u32" where
  "usb_load_irqs vfs b j 0 acc = Inr acc"
| "usb_load_irqs vfs b j (Suc n) (xs, m) =
    (case vfs (DNLLFP_NAME b j ''irq'') of Inl e \<Rightarrow> Inl e
     | Inr v \<Rightarrow> if v \<ge> 32 then Inl OUT_OF_BOUNDS
               else usb_load_irqs vfs b (Suc j) n (xs[j := ucast v], m OR push_bit (unat v) 1))"

definition REG_WR_PNTFY_CFG :: u32 where "REG_WR_PNTFY_CFG = 8"
definition REG_WR_PNTFY_ACK :: u32 where "REG_WR_PNTFY_ACK = 9"
definition IGPI_HWID :: u32 where "IGPI_HWID = 12"

definition usb_route_irqs :: "'h usb_uram_io_ops \<Rightarrow> u32 \<Rightarrow> u32 \<Rightarrow> ('h usb_uram_generic, unit) dev" where
  "usb_route_irqs ops interrupt_count interrupt_base =
    dlist (map (usb_uram_reg_out ops REG_WR_PNTFY_CFG)
        [0xdeadb000, 0xeeadb001, 0xfeadb002, 0xaeadb003, 0xbeadb004, 0xceadb005, 0x9eadb006, 0x8eadb007] @
      concat (map (\<lambda>i. [usb_uram_reg_out ops interrupt_base (of_nat i OR push_bit 8 (of_nat i) OR push_bit 16 1 OR push_bit 20 7),
                        usb_uram_reg_out ops REG_WR_PNTFY_ACK (push_bit 16 (of_nat i))]) [0..<unat interrupt_count]) @
      [usb_uram_reg_out ops 0 (push_bit 24 15 OR 0x80)])"

definition usb_init_irqs :: "'h usb_uram_io_ops \<Rightarrow> params \<Rightarrow> u32 \<Rightarrow> ('h usb_uram_generic, unit) dev" where
  "usb_init_irqs ops vfs int_mask =
    dseq (usb_uram_reg_out ops 0xf int_mask)
     (case vfs (DNLLC ''irq'') of Inl e \<Rightarrow> dfail e
      | Inr n \<Rightarrow> (case vfs (DNLLFP_NAME ''irq'' 0 ''base'') of Inl e \<Rightarrow> dfail e
         | Inr b \<Rightarrow> usb_route_irqs ops (ucast n) (ucast b)))"

text \<open>\<open>create\<close> is the result of \<open>usdr_device_create\<close>, \<open>initialize\<close> the operation of the device it made.\<close>

definition usb_uram_generic_create_and_init ::
  "'h usb_uram_io_ops \<Rightarrow> int \<Rightarrow> params \<Rightarrow> ('h usb_uram_generic, unit) dev \<Rightarrow> ('h usb_uram_generic, unit) dev" where
  "usb_uram_generic_create_and_init ops create vfs initialize = (\<lambda>s.
    if create \<noteq> 0 then dfail create s
    else (case device_bus_init vfs (gen_db s) of Inl e \<Rightarrow> dfail e s
     | Inr db \<Rightarrow>
        (case usb_load_irqs vfs ''spi'' 0 (unat (db_spi_count db)) (gen_spi_int_number s, 0) of Inl e \<Rightarrow> dfail e s
         | Inr (spis, m) \<Rightarrow>
            (case usb_load_irqs vfs ''i2c'' 0 (unat (db_i2c_count db)) (gen_i2c_int_number s, m) of Inl e \<Rightarrow> dfail e s
             | Inr (i2cs, int_mask) \<Rightarrow>
                dbind (usb_uram_reg_in ops (16 + IGPI_HWID div 4)) (\<lambda>hwid.
                  dseq (if hwid AND 0x40000000 \<noteq> 0 then usb_init_irqs ops vfs int_mask else dreturn ()) initialize)
                 (s\<lparr>gen_db := db, gen_spi_int_number := spis, gen_i2c_int_number := i2cs\<rparr>)))))"

section \<open>A device on the cable\<close>

text \<open>
  An FPGA whose transfers succeed: plain registers, an indexed space with its address register at \<open>ib\<close>, and
  a dynamic reconfiguration port behind the register \<open>dp\<close>, which takes a command and returns the register
  it named.
\<close>

record fpga =
  fp_regs :: "u32 \<Rightarrow> u32"
  fp_sel :: u32
  fp_virt :: "u32 \<Rightarrow> u32"
  fp_dsel :: u8
  fp_drp :: "u8 \<Rightarrow> u16"

definition fpga_set :: "u32 \<Rightarrow> u32 \<Rightarrow> u32 \<Rightarrow> u32 \<Rightarrow> fpga \<Rightarrow> fpga" where
  "fpga_set ib dp r w h =
    (if r = dp then (if bit w 31 then h\<lparr>fp_drp := (fp_drp h)(ucast (drop_bit 16 w) := ucast w)\<rparr> else h\<lparr>fp_dsel := ucast (drop_bit 16 w)\<rparr>)
     else if r = ib then h\<lparr>fp_sel := w\<rparr>
     else if r = ib + 1 then h\<lparr>fp_virt := (fp_virt h)(fp_sel h := w)\<rparr>
     else h\<lparr>fp_regs := (fp_regs h)(r := w)\<rparr>)"

definition fpga_get :: "u32 \<Rightarrow> u32 \<Rightarrow> u32 \<Rightarrow> fpga \<Rightarrow> u32" where
  "fpga_get ib dp r h =
    (if r = dp then ucast (fp_drp h (fp_dsel h)) else if r = ib + 1 then fp_virt h (fp_sel h) else fp_regs h r)"

fun fpga_write :: "u32 \<Rightarrow> u32 \<Rightarrow> u32 \<Rightarrow> u32 list \<Rightarrow> fpga \<Rightarrow> fpga" where
  "fpga_write ib dp r [] h = h"
| "fpga_write ib dp r (w # ws) h = fpga_write ib dp (r + 1) ws (fpga_set ib dp r w h)"

definition usb_fpga :: "u32 \<Rightarrow> u32 \<Rightarrow> fpga usb_uram_io_ops" where
  "usb_fpga ib dp = \<lparr>io_read_fn = (\<lambda>r n h. ((0, map (\<lambda>i. fpga_get ib dp (r + of_nat i) h) [0..<n]), h)),
     io_write_fn = (\<lambda>r ws h. (0, fpga_write ib dp r ws h)), io_read_bus_fn = (\<lambda>i r n h. ((0, replicate n 0), h))\<rparr>"

lemma usb_out_fpga [simp]: "usb_uram_reg_out (usb_fpga ib dp) r w s = (Inr (), s\<lparr>gen_hw := fpga_set ib dp r w (gen_hw s)\<rparr>)"
  by (simp add: usb_uram_reg_out_def usb_uram_reg_out_n_def usb_fpga_def)

lemma usb_out_n_fpga [simp]: "usb_uram_reg_out_n (usb_fpga ib dp) r ws s = (Inr (), s\<lparr>gen_hw := fpga_write ib dp r ws (gen_hw s)\<rparr>)"
  by (simp add: usb_uram_reg_out_n_def usb_fpga_def)

lemma usb_read_fpga [simp]: "usb_read (usb_fpga ib dp) r n s = (Inr (map (\<lambda>i. fpga_get ib dp (r + of_nat i) (gen_hw s)) [0..<n]), s)"
  by (simp add: usb_read_def usb_fpga_def)

lemma usb_in_fpga [simp]: "usb_uram_reg_in (usb_fpga ib dp) r s = (Inr (fpga_get ib dp r (gen_hw s)), s)"
  by (simp add: usb_uram_reg_in_def)

section \<open>Byte images of words\<close>

lemma length_bytes_of [simp]: "length (bytes_of ws) = 4 * length ws"
  by (induction ws) (simp_all add: bytes_of_def)

lemma words_of_Cons: "words_of (le_bytes 4 w @ d) = w # words_of d"
proof -
  let ?x = "le_bytes 4 w @ d"
  have n: "length ?x div 4 = Suc (length d div 4)" by simp
  have u: "[0..<Suc n] = 0 # map Suc [0..<n]" for n by (simp add: map_Suc_upt upt_conv_Cons del: upt_Suc)
  have "of_le_bytes (le_bytes 4 w) = w" by (rule of_le_bytes_le_bytes) simp
  moreover have "drop (4 * Suc i) ?x = drop (4 * i) d" for i by simp
  ultimately show ?thesis unfolding words_of_def n u by (simp del: upt_Suc)
qed

lemma words_of_bytes_of [simp]: "words_of (bytes_of ws) = ws"
proof (induction ws)
  case (Cons w ws)
  then show ?case using words_of_Cons [of w "bytes_of ws"] by (simp add: bytes_of_def del: le_bytes.simps)
qed (simp add: bytes_of_def words_of_def)

section \<open>Indexed registers\<close>

fun virt_put :: "u32 \<Rightarrow> u32 list \<Rightarrow> (u32 \<Rightarrow> u32) \<Rightarrow> u32 \<Rightarrow> u32" where
  "virt_put a [] v = v"
| "virt_put a (w # ws) v = virt_put (a + 1) ws (v(a := w))"

lemma of_nat_neq_u32: "i < 2 ^ 32 \<Longrightarrow> 0 < i \<Longrightarrow> (of_nat i :: u32) \<noteq> 0"
  by (metis unat_of_nat32 unsigned_0 less_irrefl)

lemma virt_put_nth: "length ws \<le> 2 ^ 32 \<Longrightarrow> i < length ws \<Longrightarrow> virt_put a ws v (a + of_nat i) = ws ! i"
  and virt_put_other: "(\<And>i. i < length ws \<Longrightarrow> x \<noteq> a + of_nat i) \<Longrightarrow> virt_put a ws v x = v x"
proof (induction ws arbitrary: a i v x)
  case (Cons w ws)
  {
    case 1
    have tail: "virt_put (a + 1) ws v' a = v' a" for v'
    proof (rule Cons.IH(2))
      fix j assume "j < length ws"
      then have "(of_nat (Suc j) :: u32) \<noteq> 0" using 1 by (intro of_nat_neq_u32) auto
      then show "a \<noteq> a + 1 + of_nat j" by (simp add: add.assoc)
    qed
    show ?case
    proof (cases i)
      case 0
      then show ?thesis using tail by simp
    next
      case (Suc j)
      then show ?thesis using Cons.IH(1) [of j "a + 1"] 1 by (simp add: add.assoc)
    qed
  next
    case 2
    have "x \<noteq> a" using 2 [of 0] by simp
    moreover have "x \<noteq> a + 1 + of_nat j" if "j < length ws" for j using 2 [of "Suc j"] that by (simp add: add.assoc)
    ultimately show ?case using Cons.IH(2) by simp
  }
qed auto

lemma idx_write:
  assumes "dp \<noteq> ib" "dp \<noteq> ib + 1"
  shows "\<exists>sel. usb_idx_op (usb_fpga ib dp) ib a ws 0 s =
    (Inr [], s\<lparr>gen_hw := (gen_hw s)\<lparr>fp_sel := sel, fp_virt := virt_put a ws (fp_virt (gen_hw s))\<rparr>\<rparr>)"
proof (induction ws arbitrary: a s)
  case Nil
  show ?case by (auto intro: exI [of _ "fp_sel (gen_hw s)"])
next
  case (Cons w ws)
  define h where "h = (gen_hw s)\<lparr>fp_sel := a, fp_virt := (fp_virt (gen_hw s))(a := w)\<rparr>"
  obtain sel where "usb_idx_op (usb_fpga ib dp) ib (a + 1) ws 0 (s\<lparr>gen_hw := h\<rparr>) =
    (Inr [], s\<lparr>gen_hw := h\<rparr>\<lparr>gen_hw := h\<lparr>fp_sel := sel, fp_virt := virt_put (a + 1) ws (fp_virt h)\<rparr>\<rparr>)"
    using Cons.IH [of "a + 1" "s\<lparr>gen_hw := h\<rparr>"] by auto
  then show ?case using assms by (intro exI [of _ sel]) (simp add: fpga_set_def h_def)
qed

lemma idx_read:
  assumes "dp \<noteq> ib" "dp \<noteq> ib + 1"
  shows "\<exists>sel. usb_idx_op (usb_fpga ib dp) ib a [] n s =
    (Inr (map (\<lambda>i. fp_virt (gen_hw s) (a + of_nat i)) [0..<n]), s\<lparr>gen_hw := (gen_hw s)\<lparr>fp_sel := sel\<rparr>\<rparr>)"
proof (induction n arbitrary: a s)
  case 0
  show ?case by (auto intro: exI [of _ "fp_sel (gen_hw s)"])
next
  case (Suc n)
  define s1 where "s1 = s\<lparr>gen_hw := (gen_hw s)\<lparr>fp_sel := a\<rparr>\<rparr>"
  obtain sel where "usb_idx_op (usb_fpga ib dp) ib (a + 1) [] n s1 =
    (Inr (map (\<lambda>i. fp_virt (gen_hw s1) (a + 1 + of_nat i)) [0..<n]), s1\<lparr>gen_hw := (gen_hw s1)\<lparr>fp_sel := sel\<rparr>\<rparr>)"
    using Suc.IH by blast
  moreover have "[0..<Suc n] = 0 # map Suc [0..<n]" by (simp add: map_Suc_upt upt_conv_Cons del: upt_Suc)
  ultimately show ?case using assms
    by (intro exI [of _ sel]) (simp add: fpga_set_def fpga_get_def s1_def add.assoc comp_def del: upt_Suc)
qed

text \<open>A device with one indexed space, at \<open>vb\<close> and above.\<close>

definition one_space :: "u32 \<Rightarrow> u32 \<Rightarrow> device_bus \<Rightarrow> bool" where
  "one_space ib vb db \<longleftrightarrow> db_idx_regsps db = 1 \<and> db_idxreg_base db ! 0 = ib \<and> db_idxreg_virt_base db ! 0 = vb"

lemma reg_op_one_space:
  assumes "one_space ib vb (gen_db s)" and "n mod 4 = 0" "length d mod 4 = 0"
  shows "usb_uram_reg_op ops addr n d s =
    dbind (if vb \<le> addr then usb_idx_op ops ib (addr - vb) (words_of d) (n div 4) else usb_plain_op ops addr (words_of d) (n div 4))
      (\<lambda>ws. dreturn (bytes_of ws)) s"
  using assms by (simp add: usb_uram_reg_op_def one_space_def Let_def)

text \<open>C31: Words written to an indexed space over USB end in the registers behind the index pair, each at its own
  address, nothing else changes, and reading the same range gives them back.\<close>

theorem usb_indexed_space:
  assumes "one_space ib vb (gen_db s)" and "vb \<le> addr" and "dp \<noteq> ib" and "dp \<noteq> ib + 1" and "length ws \<le> 2 ^ 32"
  shows "\<exists>s1 s2. usb_uram_reg_op (usb_fpga ib dp) addr 0 (bytes_of ws) s = (Inr [], s1) \<and>
    usb_uram_reg_op (usb_fpga ib dp) addr (4 * length ws) [] s1 = (Inr (bytes_of ws), s2) \<and>
    (\<forall>i<length ws. fp_virt (gen_hw s1) (addr - vb + of_nat i) = ws ! i) \<and>
    (\<forall>x. (\<forall>i<length ws. x \<noteq> addr - vb + of_nat i) \<longrightarrow> fp_virt (gen_hw s1) x = fp_virt (gen_hw s) x) \<and>
    fp_virt (gen_hw s2) = fp_virt (gen_hw s1) \<and> fp_regs (gen_hw s2) = fp_regs (gen_hw s) \<and> fp_drp (gen_hw s2) = fp_drp (gen_hw s)"
proof -
  obtain sel where w: "usb_idx_op (usb_fpga ib dp) ib (addr - vb) ws 0 s =
    (Inr [], s\<lparr>gen_hw := (gen_hw s)\<lparr>fp_sel := sel, fp_virt := virt_put (addr - vb) ws (fp_virt (gen_hw s))\<rparr>\<rparr>)"
    (is "_ = (_, ?s1)") using idx_write [OF assms(3,4)] by blast
  have "gen_db ?s1 = gen_db s" by simp
  moreover obtain sel2 where r: "usb_idx_op (usb_fpga ib dp) ib (addr - vb) [] (length ws) ?s1 =
    (Inr (map (\<lambda>i. fp_virt (gen_hw ?s1) (addr - vb + of_nat i)) [0..<length ws]), ?s1\<lparr>gen_hw := (gen_hw ?s1)\<lparr>fp_sel := sel2\<rparr>\<rparr>)"
    using idx_read [OF assms(3,4)] by blast
  moreover have "map (\<lambda>i. fp_virt (gen_hw ?s1) (addr - vb + of_nat i)) [0..<length ws] = ws"
    using virt_put_nth [OF assms(5)] by (intro nth_equalityI) auto
  moreover have "words_of [] = []" "bytes_of [] = []" by (simp_all add: words_of_def bytes_of_def)
  ultimately show ?thesis
    using w assms virt_put_nth [OF assms(5)] virt_put_other [of ws] by (simp add: reg_op_one_space)
qed

definition bus_one_space :: device_bus where
  "bus_one_space = (bus0 0)\<lparr>db_idx_regsps := 1, db_idxreg_base := [16, 0], db_idxreg_virt_base := [0x10000, 0]\<rparr>"

definition usb0 :: "fpga usb_uram_generic" where
  "usb0 = \<lparr>gen_db = bus_one_space, gen_spi_int_number = replicate 32 0, gen_i2c_int_number = replicate 32 0,
     gen_i2cc = replicate 16 \<lparr>ic_busn = 0, ic_addr = 0, ic_lrui = 0\<rparr>,
     gen_hw = \<lparr>fp_regs = (\<lambda>_. 0), fp_sel = 0, fp_virt = (\<lambda>_. 0), fp_dsel = 0, fp_drp = (\<lambda>_. 0)\<rparr>\<rparr>"

lemma usb_indexed_space_witness:
  "\<exists>s1. usb_uram_reg_op (usb_fpga 16 20) 0x10100 0 (bytes_of [7, 8]) usb0 = (Inr [], s1) \<and> fp_virt (gen_hw s1) 0x101 = 8"
proof -
  have "one_space 16 0x10000 (gen_db usb0)" by (simp add: one_space_def usb0_def bus_one_space_def)
  moreover have "(0x10000 :: u32) \<le> 0x10100" "(20 :: u32) \<noteq> 16" "(20 :: u32) \<noteq> 16 + 1" by simp_all
  moreover have "length [7 :: u32, 8] \<le> 2 ^ 32" by simp
  ultimately have "\<exists>s1 s2. usb_uram_reg_op (usb_fpga 16 20) 0x10100 0 (bytes_of [7, 8]) usb0 = (Inr [], s1) \<and>
    usb_uram_reg_op (usb_fpga 16 20) 0x10100 (4 * length [7 :: u32, 8]) [] s1 = (Inr (bytes_of [7, 8]), s2) \<and>
    (\<forall>i<length [7 :: u32, 8]. fp_virt (gen_hw s1) (0x10100 - 0x10000 + of_nat i) = [7, 8] ! i) \<and>
    (\<forall>x. (\<forall>i<length [7 :: u32, 8]. x \<noteq> 0x10100 - 0x10000 + of_nat i) \<longrightarrow> fp_virt (gen_hw s1) x = fp_virt (gen_hw usb0) x) \<and>
    fp_virt (gen_hw s2) = fp_virt (gen_hw s1) \<and> fp_regs (gen_hw s2) = fp_regs (gen_hw usb0) \<and> fp_drp (gen_hw s2) = fp_drp (gen_hw usb0)"
    by (rule usb_indexed_space)
  then obtain s1 where 1: "usb_uram_reg_op (usb_fpga 16 20) 0x10100 0 (bytes_of [7, 8]) usb0 = (Inr [], s1)"
    and 2: "\<forall>i<length [7 :: u32, 8]. fp_virt (gen_hw s1) (0x10100 - 0x10000 + of_nat i) = [7, 8] ! i" by blast
  from 2 [rule_format, of 1] have "fp_virt (gen_hw s1) 0x101 = 8" by simp
  with 1 show ?thesis by blast
qed

section \<open>Blocks of plain registers\<close>

lemma map_upt_split: "k \<le> n \<Longrightarrow> map f [0..<n] = map f [0..<k] @ map (\<lambda>i. f (k + i)) [0..<n - k]"
  by (rule nth_equalityI) (auto simp: nth_append)

lemma reg_in_from_64:
  "64 \<le> sz \<Longrightarrow> fst (usb_reg_in_from (usb_fpga ib dp) r sz rem s) =
    (if 64 dvd rem then Inr (map (\<lambda>i. fpga_get ib dp (r + of_nat i) (gen_hw s)) [0..<rem]) else Inl OUT_OF_BOUNDS) \<and>
   snd (usb_reg_in_from (usb_fpga ib dp) r sz rem s) = s"
proof (induction rem arbitrary: r sz rule: less_induct)
  case (less rem)
  consider "rem = 0" | "0 < rem" "rem < 64" | "64 \<le> rem" by linarith
  then show ?case
  proof cases
    case 3
    have n: "(if sz > 64 then 64 else sz) = 64" using less.prems by simp
    have IH: "fst (usb_reg_in_from (usb_fpga ib dp) (r + 64) 64 (rem - 64) s) =
       (if 64 dvd rem then Inr (map (\<lambda>i. fpga_get ib dp (r + of_nat (64 + i)) (gen_hw s)) [0..<rem - 64]) else Inl OUT_OF_BOUNDS)"
      "snd (usb_reg_in_from (usb_fpga ib dp) (r + 64) 64 (rem - 64) s) = s"
      using less.IH [of "rem - 64" 64 "r + 64"] 3 by (auto simp: add.assoc dvd_diff_nat dest: dvd_minus_self [THEN iffD1])
    have split: "map f [0..<rem] = map f [0..<64] @ map (\<lambda>i. f (64 + i)) [0..<rem - 64]" for f :: "nat \<Rightarrow> u32"
      using 3 by (rule map_upt_split)
    show ?thesis
    proof (cases "usb_reg_in_from (usb_fpga ib dp) (r + 64) 64 (rem - 64) s")
      case (Pair x s')
      then show ?thesis using 3 IH n split
        by (cases x) (auto simp: usb_reg_in_from.simps [of _ r sz rem] Let_def split: if_splits)
    qed
  qed (use less.prems in \<open>auto simp: usb_reg_in_from.simps [of _ r sz rem] usb_reg_in_from.simps [of _ r sz 0] Let_def dest: dvd_imp_le\<close>)
qed

text \<open>A block read of plain registers returns them all when it has at most 64 words or a multiple of 64; any other
  number of words is read past the end of the caller's array.\<close>

theorem usb_block_read:
  "fst (usb_uram_reg_in_n (usb_fpga ib dp) r n s) =
    (if n \<le> 64 \<or> 64 dvd n then Inr (map (\<lambda>i. fpga_get ib dp (r + of_nat i) (gen_hw s)) [0..<n]) else Inl OUT_OF_BOUNDS)"
proof (cases "n < 64")
  case True
  then show ?thesis
    by (auto simp: usb_uram_reg_in_n_def usb_reg_in_from.simps [of _ r n n] usb_reg_in_from.simps [of _ _ n 0] Let_def)
next
  case False
  then show ?thesis using reg_in_from_64 [of n ib dp r n s] by (auto simp: usb_uram_reg_in_n_def)
qed

text \<open>The core table of SPI is indexed by the whole address, which for the extended core holds its configuration.\<close>

lemma usb_spi_ext_outside:
  assumes "length (db_spi_core (gen_db s)) = 8" and "SPIEXT_LSOP_GET_BUS addr < db_spi_count (gen_db s)" and "8 \<le> addr"
  shows "usb_uram_ls_op ops \<lparr>rq_op = USDR_LSOP_SPI, rq_addr = addr, rq_insz = n, rq_out = d\<rparr> s = (Inl OUT_OF_BOUNDS, s)"
  using assms by (simp add: usb_uram_ls_op_def usb_spi_op_def array_at_def dlookup_def word_le_nat_alt not_le [symmetric])

end
