(* ===== verification/Mmcm.thy ===== *)
theory Mmcm
  imports Lowlevel
begin

text \<open>
  The clock manager of the FPGA (\<open>src/lib/ipblks/xlnx_mmcm.c\<close>): its registers are reached through
  the dynamic reconfiguration port and are always read, modified and written. \<open>drp_file\<close> says what
  the code relies on: a successful read returns what was written last.
\<close>

section \<open>The code\<close>

record mmcm_port_config_raw =
  pc_period_l :: int
  pc_period_h :: int
  pc_phase :: int
  pc_delay :: int

definition CLKOUT5_ClkReg1 :: u16 where "CLKOUT5_ClkReg1 = 0x06"
definition DIVCLK_DivReg :: u16 where "DIVCLK_DivReg = 0x16"
definition LockReg1 :: u16 where "LockReg1 = 0x18"
definition LockReg2 :: u16 where "LockReg2 = 0x19"
definition LockReg3 :: u16 where "LockReg3 = 0x1A"
definition PowerRegV7 :: u16 where "PowerRegV7 = 0x28"
definition FiltReg1 :: u16 where "FiltReg1 = 0x4E"
definition FiltReg2 :: u16 where "FiltReg2 = 0x4F"
definition DIG_DIV_MAX :: int where "DIG_DIV_MAX = 63"
definition DIG_DLY_MAX :: int where "DIG_DLY_MAX = 63"
definition CLKOUT_PORT_FB :: nat where "CLKOUT_PORT_FB = 7"
definition MAX_MMCM_PORTS :: nat where "MAX_MMCM_PORTS = CLKOUT_PORT_FB + 1"

lemmas mmcm_defs = CLKOUT5_ClkReg1_def DIVCLK_DivReg_def LockReg1_def LockReg2_def LockReg3_def PowerRegV7_def
  FiltReg1_def FiltReg2_def DIG_DIV_MAX_def DIG_DLY_MAX_def CLKOUT_PORT_FB_def MAX_MMCM_PORTS_def

definition mmcm_rom :: "u64 list" where
  "mmcm_rom =
    [0x3c088ffcfafa401, 0x2f0bc31be8fa401, 0x4f0bc31be8fa401, 0x5b0bc423e8fa401, 0x770bc5afe8fa401, 0xd709c73be8fa401,
     0xeb0ac8c7e8fa401, 0xed0b49cfe8fa401, 0xf308cb5be8fa401, 0xe5094ce7e8fa401, 0xf5094e73e8fa401, 0xf90a4fff84fa401,
     0xd10b8fff39fa401, 0xf90b8ffeeefa401, 0xf90b8ffebcfa401, 0xf90b8ffe8afa401, 0xf9084ffe71fa401, 0xf5084ffe3ffa401,
     0xf5084ffe26fa401, 0xc1098ffe0dfa401, 0xc1098ffdf4fa401, 0xc1098ffddbfa401, 0x5c098ffdc2fa401, 0x5c098ffda9fa401,
     0x5c098ffd90fa401, 0x5c098ffd90fa401, 0x340a8ffd77fa401, 0x340a8ffd5efa401, 0x340a8ffd5efa401, 0x340a8ffd45fa401,
     0x340a8ffd45fa401, 0x340b0ffd2cfa401, 0x340b0ffd2cfa401, 0x340b0ffd2cfa401, 0x340b0ffd13fa401, 0x340b0ffd13fa401,
     0x340b0ffd13fa401, 0x340b0ffcfafa401, 0x340b0ffcfafa401, 0x340b0ffcfafa401, 0x340b0ffcfafa401, 0x340b0ffcfafa401,
     0x280b0ffcfafa401, 0x280b0ffcfafa401, 0x280b0ffcfafa401, 0x280b0ffcfafa401, 0x280b0ffcfafa401, 0x710b0ffcfafa401,
     0x71088ffcfafa401, 0x4c088ffcfafa401, 0x4c088ffcfafa401, 0x4c088ffcfafa401, 0x4c088ffcfafa401, 0x61088ffcfafa401,
     0x61088ffcfafa401, 0x56088ffcfafa401, 0x56088ffcfafa401, 0x56088ffcfafa401, 0x24088ffcfafa401, 0x24088ffcfafa401,
     0x24088ffcfafa401, 0x24088ffcfafa401, 0x4a088ffcfafa401, 0x3c088ffcfafa401]"

definition mmcm_rom_at :: "int \<Rightarrow> u64 option" where
  "mmcm_rom_at d = (if 0 \<le> d \<and> d < 64 then Some (mmcm_rom ! nat d) else None)"

definition drp_modify :: "u32 \<Rightarrow> u16 \<Rightarrow> (u16 \<Rightarrow> u16) \<Rightarrow> (int + unit) io" where
  "drp_modify port a f = iobind (lowlevel_drp_rd16 port a) (\<lambda>v. lowlevel_drp_wr16 port a (f v))"

definition clk1_reg :: "mmcm_port_config_raw \<Rightarrow> u16 \<Rightarrow> u16" where
  "clk1_reg pc old =
    push_bit 13 (of_int (pc_phase pc) AND 7) OR (old AND push_bit 12 1) OR
    push_bit 6 (of_int (pc_period_h pc) AND 0x3f) OR (of_int (pc_period_l pc) AND 0x3f)"

definition clk2_reg :: "mmcm_port_config_raw \<Rightarrow> u16 \<Rightarrow> u16" where
  "clk2_reg pc old =
    (old AND 0xfc00) OR push_bit 7 (if pc_period_l pc - pc_period_h pc = 1 then 1 else 0) OR (of_int (pc_delay pc) AND 0x3f)"

definition mmcm_init_raw_clkout :: "u32 \<Rightarrow> u16 \<Rightarrow> mmcm_port_config_raw \<Rightarrow> (int + unit) io" where
  "mmcm_init_raw_clkout port reg pc =
    (if pc_period_h pc > DIG_DIV_MAX \<or> pc_period_l pc > DIG_DIV_MAX \<or> pc_delay pc > DIG_DLY_MAX then iofail (- EINVAL)
     else ioseq (drp_modify port reg (clk1_reg pc)) (drp_modify port (reg + 1) (clk2_reg pc)))"

text \<open>The only divider the library asks for is 1; negative ones are left out.\<close>

definition div_reg :: "nat \<Rightarrow> u16 \<Rightarrow> u16" where
  "div_reg d tmp =
    (tmp AND 0xC000) OR push_bit 13 (of_nat (d mod 2)) OR (if d \<le> 1 then push_bit 12 1 else 0) OR
    push_bit 6 (of_nat (d div 2) AND 0x3f) OR (of_nat ((d + 1) div 2) AND 0x3f)"

definition mmcm_init_raw_div :: "u32 \<Rightarrow> nat \<Rightarrow> (int + unit) io" where
  "mmcm_init_raw_div port d = drp_modify port DIVCLK_DivReg (div_reg d)"

definition lock1_reg :: "u64 \<Rightarrow> u16 \<Rightarrow> u16" where
  "lock1_reg v tmp = (tmp AND 0xfc00) OR ucast (drop_bit 20 v AND 0x3ff)"

definition lock23_reg :: "nat \<Rightarrow> nat \<Rightarrow> u64 \<Rightarrow> u16 \<Rightarrow> u16" where
  "lock23_reg hi lo v tmp =
    (tmp AND 0x8000) OR ucast (push_bit 10 (drop_bit hi v AND 0x1f)) OR ucast (drop_bit lo v AND 0x3ff)"

text \<open>The table is read after the register, outside the array for a divider of 64 or more.\<close>

definition with_rom :: "int \<Rightarrow> (u64 \<Rightarrow> (int + unit) io) \<Rightarrow> (int + unit) io" where
  "with_rom d f = (case mmcm_rom_at d of None \<Rightarrow> iofail OUT_OF_BOUNDS | Some v \<Rightarrow> f v)"

definition mmcm_init_raw_lock :: "u32 \<Rightarrow> int \<Rightarrow> (int + unit) io" where
  "mmcm_init_raw_lock port d =
    iobind (lowlevel_drp_rd16 port LockReg1) (\<lambda>tmp. with_rom d (\<lambda>v.
      iolist [lowlevel_drp_wr16 port LockReg1 (lock1_reg v tmp),
              drp_modify port LockReg2 (lock23_reg 30 0 v),
              drp_modify port LockReg3 (lock23_reg 35 10 v)]))"

definition filt1_reg :: "u32 \<Rightarrow> u16 \<Rightarrow> u16" where
  "filt1_reg t tmp =
    ucast (push_bit 15 (drop_bit 9 t AND 1)) OR (tmp AND 0x6000) OR ucast (push_bit 11 (drop_bit 7 t AND 3)) OR
    (tmp AND 0x0600) OR ucast (push_bit 8 (drop_bit 6 t AND 1)) OR (tmp AND 0x00ff)"

definition filt2_reg :: "u32 \<Rightarrow> u16 \<Rightarrow> u16" where
  "filt2_reg t tmp =
    ucast (push_bit 15 (drop_bit 5 t AND 1)) OR (tmp AND 0x6000) OR ucast (push_bit 11 (drop_bit 3 t AND 3)) OR
    (tmp AND 0x0600) OR ucast (push_bit 7 (drop_bit 1 t AND 3)) OR (tmp AND 0x0060) OR ucast (push_bit 4 (t AND 1)) OR
    (tmp AND 0x000f)"

definition mmcm_init_raw_filt :: "u32 \<Rightarrow> int \<Rightarrow> bool \<Rightarrow> (int + unit) io" where
  "mmcm_init_raw_filt port d h = with_rom d (\<lambda>v.
    let t = (if h then ucast (drop_bit 50 v) else ucast (drop_bit 40 v AND 0x3ff))
    in ioseq (drp_modify port FiltReg1 (filt1_reg t)) (drp_modify port FiltReg2 (filt2_reg t)))"

definition mmcm_set_phdigdelay_raw :: "u32 \<Rightarrow> u32 \<Rightarrow> u32 \<Rightarrow> (int + unit) io" where
  "mmcm_set_phdigdelay_raw drp_port port phdelay =
    (let reg = CLKOUT5_ClkReg1 + 2 * ucast port in
     ioseq (drp_modify drp_port reg (\<lambda>old. push_bit 13 (ucast (phdelay AND 7)) OR (old AND 0x1fff)))
       (drp_modify drp_port (reg + 1) (\<lambda>old. (old AND 0xffc0) OR ucast (drop_bit 3 phdelay AND 0x3f))))"

definition mmcm_set_digdelay_raw :: "u32 \<Rightarrow> u32 \<Rightarrow> u32 \<Rightarrow> (int + unit) io" where
  "mmcm_set_digdelay_raw drp_port port delay =
    drp_modify drp_port (CLKOUT5_ClkReg1 + 2 * ucast port + 1) (\<lambda>old. (old AND 0xffc0) OR ucast (delay AND 0x3f))"

definition clk_port_reg :: "nat \<Rightarrow> u16" where
  "clk_port_reg i = CLKOUT5_ClkReg1 + 2 * of_nat i"

definition mmcm_init_raw :: "u32 \<Rightarrow> mmcm_port_config_raw list \<Rightarrow> (int + unit) io" where
  "mmcm_init_raw drp_port ports =
    (let clkfbdiv = pc_period_h (ports ! CLKOUT_PORT_FB) + pc_period_l (ports ! CLKOUT_PORT_FB) in
     iolist
      [lowlevel_drp_wr16 drp_port PowerRegV7 0xffff,
       iolist (map (\<lambda>i. mmcm_init_raw_clkout drp_port (clk_port_reg i) (ports ! i)) [0..<MAX_MMCM_PORTS]),
       mmcm_init_raw_div drp_port 1,
       mmcm_init_raw_lock drp_port clkfbdiv,
       mmcm_init_raw_filt drp_port clkfbdiv True])"

section \<open>The registers behind the port\<close>

fun drp_step :: "u32 \<Rightarrow> event \<Rightarrow> (u16 \<Rightarrow> u16) \<Rightarrow> u16 \<Rightarrow> u16" where
  "drp_step port (LsOp r) regs =
    (if rq_op r = USDR_LSOP_DRP \<and> rq_insz r = 0 \<and> length (rq_out r) = 2 \<and> drop_bit 16 (rq_addr r) = take_bit 16 port
     then regs(ucast (rq_addr r) := of_le_bytes (rq_out r)) else regs)"
| "drp_step port (USleep n) regs = regs"

definition drp_regs :: "u32 \<Rightarrow> (u16 \<Rightarrow> u16) \<Rightarrow> trace \<Rightarrow> u16 \<Rightarrow> u16" where
  "drp_regs port r0 tr = fold (drp_step port) tr r0"

definition drp_file :: "u32 \<Rightarrow> (u16 \<Rightarrow> u16) \<Rightarrow> env \<Rightarrow> bool" where
  "drp_file port r0 env \<longleftrightarrow> (\<forall>tr a d.
    env tr \<lparr>rq_op = USDR_LSOP_DRP, rq_addr = push_bit 16 port OR ucast (a :: u16), rq_insz = 2, rq_out = []\<rparr> = (0, d) \<longrightarrow>
    d = le_bytes 2 (drp_regs port r0 tr a))"

lemma drp_addr:
  "drop_bit 16 (push_bit 16 (port :: u32) OR ucast (a :: u16)) = take_bit 16 port"
  "ucast (push_bit 16 (port :: u32) OR ucast (a :: u16)) = a"
  by (rule bit_word_eqI; auto simp: bit_simps dest: bit_imp_le_length)+

lemma drp_step_wr16: "drp_step port (ev_drp_wr16 port a w) regs = regs(a := w)"
  unfolding drp_step.simps lsreq.simps drp_addr by (simp add: of_le_bytes_le_bytes)

lemma drp_step_rd16: "drp_step port (ev_drp_rd16 p a) regs = regs"
  by simp

lemma drp_rd16_file:
  assumes "drp_file port r0 env" and "lowlevel_drp_rd16 port a env tr = (Inr v, tr')"
  shows "v = drp_regs port r0 tr a \<and> drp_regs port r0 tr' = drp_regs port r0 tr"
proof -
  obtain d where e: "env tr \<lparr>rq_op = USDR_LSOP_DRP, rq_addr = push_bit 16 port OR ucast a, rq_insz = 2, rq_out = []\<rparr> = (0, d)"
    and v: "v = of_le_bytes (fit 2 0 d)" and t: "tr' = tr @ [ev_drp_rd16 port a]"
    using assms(2) by (auto simp: lowlevel_drp_rd16_def lowlevel_ls_op_def iodefs Let_def split: if_splits prod.splits)
  have "d = le_bytes 2 (drp_regs port r0 tr a)" using assms(1) e by (simp add: drp_file_def)
  then show ?thesis by (simp add: v t drp_regs_def of_le_bytes_le_bytes)
qed

lemma drp_wr16_file:
  assumes "lowlevel_drp_wr16 port a w env tr = (Inr u, tr')"
  shows "drp_regs port r0 tr' = (drp_regs port r0 tr)(a := w)"
proof -
  have "tr' = tr @ [ev_drp_wr16 port a w]"
    using assms by (auto simp: lowlevel_drp_wr16_def lowlevel_ls_op_def iodefs Let_def split: if_splits prod.splits)
  then show ?thesis unfolding drp_regs_def by (simp only: fold_append comp_def fold_simps id_apply drp_step_wr16)
qed

lemma drp_modify_file:
  assumes "drp_file port r0 env" and "drp_modify port a f env tr = (Inr u, tr')"
  shows "drp_regs port r0 tr' = (drp_regs port r0 tr)(a := f (drp_regs port r0 tr a))"
  using assms drp_wr16_file drp_rd16_file [OF assms(1)] unfolding drp_modify_def iobind_Inr by metis


section \<open>Lemmas\<close>

text \<open>What a successful run leaves in the registers.\<close>

lemma clkout_file:
  assumes "drp_file port r0 env" and "mmcm_init_raw_clkout port a pc env tr = (Inr u, tr')" and "a + 1 \<noteq> a"
  shows "drp_regs port r0 tr' = (drp_regs port r0 tr)(a := clk1_reg pc (drp_regs port r0 tr a), a + 1 := clk2_reg pc (drp_regs port r0 tr (a + 1)))
    \<and> pc_period_h pc \<le> 63 \<and> pc_period_l pc \<le> 63 \<and> pc_delay pc \<le> 63"
  using assms(2,3) drp_modify_file [OF assms(1)]
  by (fastforce simp: mmcm_init_raw_clkout_def iosuccess mmcm_defs split: if_splits)

definition clk_regs :: "mmcm_port_config_raw list \<Rightarrow> nat \<Rightarrow> (u16 \<Rightarrow> u16) \<Rightarrow> u16 \<Rightarrow> u16" where
  "clk_regs ports n r a =
    (if 6 \<le> unat a \<and> unat a < 6 + 2 * n then
       (if even (unat a) then clk1_reg else clk2_reg) (ports ! ((unat a - 6) div 2)) (r a)
     else r a)"

lemma iolist_append_Inr:
  "iolist (xs @ ys) env tr = (Inr u, tr') \<longleftrightarrow> (\<exists>tr1. iolist xs env tr = (Inr (), tr1) \<and> iolist ys env tr1 = (Inr u, tr'))"
  by (induction xs arbitrary: tr) (auto simp: iosuccess)

lemma clk_port_unat:
  assumes "n < 8"
  shows "unat (clk_port_reg n) = 6 + 2 * n" and "unat (clk_port_reg n + 1) = 7 + 2 * n"
proof -
  have "unat (of_nat (6 + 2 * n) :: u16) = 6 + 2 * n" using assms by (intro unat_of_nat_fits) simp
  then show "unat (clk_port_reg n) = 6 + 2 * n" by (simp add: clk_port_reg_def mmcm_defs)
  have "unat (of_nat (7 + 2 * n) :: u16) = 7 + 2 * n" using assms by (intro unat_of_nat_fits) simp
  then show "unat (clk_port_reg n + 1) = 7 + 2 * n" by (simp add: clk_port_reg_def mmcm_defs add.commute add.left_commute)
qed

lemma clkouts_file:
  assumes "drp_file port r0 env" and "n \<le> 8"
    and "iolist (map (\<lambda>i. mmcm_init_raw_clkout port (clk_port_reg i) (ports ! i)) [0..<n]) env tr = (Inr u, tr')"
  shows "drp_regs port r0 tr' = clk_regs ports n (drp_regs port r0 tr) \<and>
    (\<forall>i<n. pc_period_h (ports ! i) \<le> 63 \<and> pc_period_l (ports ! i) \<le> 63 \<and> pc_delay (ports ! i) \<le> 63)"
  using assms(2,3)
proof (induction n arbitrary: tr')
  case 0
  then show ?case by (auto simp: iosuccess clk_regs_def fun_eq_iff)
next
  case (Suc n)
  obtain tr1 where 1: "iolist (map (\<lambda>i. mmcm_init_raw_clkout port (clk_port_reg i) (ports ! i)) [0..<n]) env tr = (Inr u, tr1)"
    and 2: "mmcm_init_raw_clkout port (clk_port_reg n) (ports ! n) env tr1 = (Inr (), tr')"
    using Suc.prems(2) by (auto simp: iolist_append_Inr iosuccess)
  have u: "unat (clk_port_reg n) = 6 + 2 * n" and u1: "unat (clk_port_reg n + 1) = 7 + 2 * n"
    using Suc.prems(1) by (simp_all only: clk_port_unat Suc_le_eq)
  have ne: "clk_port_reg n + 1 \<noteq> clk_port_reg n" by simp
  note h = clkout_file [OF assms(1) 2 ne] and IH = Suc.IH [OF _ 1]
  have r: "drp_regs port r0 tr1 = clk_regs ports n (drp_regs port r0 tr)" using IH Suc.prems(1) by simp
  have e: "a = clk_port_reg n \<longleftrightarrow> unat a = 6 + 2 * n" "a = clk_port_reg n + 1 \<longleftrightarrow> unat a = 7 + 2 * n" for a :: u16
    by (metis u unsigned_word_eqI) (metis u1 unsigned_word_eqI)
  have "drp_regs port r0 tr' = clk_regs ports (Suc n) (drp_regs port r0 tr)"
  proof
    fix a :: u16
    show "drp_regs port r0 tr' a = clk_regs ports (Suc n) (drp_regs port r0 tr) a"
    proof (cases "a = clk_port_reg n \<or> a = clk_port_reg n + 1")
      case True
      then show ?thesis using h by (auto simp: r clk_regs_def u u1)
    next
      case False
      then have "unat a \<noteq> 6 + 2 * n" "unat a \<noteq> 7 + 2 * n" using e by auto
      with False show ?thesis using h by (auto simp: r clk_regs_def)
    qed
  qed
  then show ?case using h IH Suc.prems(1) by (auto simp: less_Suc_eq)
qed

lemma with_rom_Inr [iosuccess]:
  "with_rom d f env tr = (Inr u, tr') \<longleftrightarrow> (\<exists>v. mmcm_rom_at d = Some v \<and> f v env tr = (Inr u, tr'))"
  by (simp add: with_rom_def iosuccess split: option.splits)

definition other_regs :: "u64 \<Rightarrow> (u16 \<Rightarrow> u16) \<Rightarrow> u16 \<Rightarrow> u16" where
  "other_regs v r = r(DIVCLK_DivReg := div_reg 1 (r DIVCLK_DivReg), LockReg1 := lock1_reg v (r LockReg1),
     LockReg2 := lock23_reg 30 0 v (r LockReg2), LockReg3 := lock23_reg 35 10 v (r LockReg3),
     FiltReg1 := filt1_reg (ucast (drop_bit 50 v)) (r FiltReg1), FiltReg2 := filt2_reg (ucast (drop_bit 50 v)) (r FiltReg2))"

lemma mmcm_init_file:
  assumes f: "drp_file port r0 env" and run: "mmcm_init_raw port ports env tr = (Inr u, tr')"
  obtains v where "mmcm_rom_at (pc_period_h (ports ! 7) + pc_period_l (ports ! 7)) = Some v"
    and "drp_regs port r0 tr' = other_regs v (clk_regs ports 8 ((drp_regs port r0 tr)(PowerRegV7 := 0xffff)))"
    and "\<forall>i<8. pc_period_h (ports ! i) \<le> 63 \<and> pc_period_l (ports ! i) \<le> 63 \<and> pc_delay (ports ! i) \<le> 63"
proof -
  let ?d = "pc_period_h (ports ! 7) + pc_period_l (ports ! 7)"
  note m = drp_modify_file [OF f] and w = drp_wr16_file [where ?r0.0 = r0]
  obtain t1 t2 t3 t4 t5 t6 t7 t8 v x where
    r: "lowlevel_drp_wr16 port PowerRegV7 0xffff env tr = (Inr (), t1)"
      "iolist (map (\<lambda>i. mmcm_init_raw_clkout port (clk_port_reg i) (ports ! i)) [0..<8]) env t1 = (Inr (), t2)"
      "drp_modify port DIVCLK_DivReg (div_reg 1) env t2 = (Inr (), t3)"
      "lowlevel_drp_rd16 port LockReg1 env t3 = (Inr x, t4)" "mmcm_rom_at ?d = Some v"
      "lowlevel_drp_wr16 port LockReg1 (lock1_reg v x) env t4 = (Inr (), t5)"
      "drp_modify port LockReg2 (lock23_reg 30 0 v) env t5 = (Inr (), t6)"
      "drp_modify port LockReg3 (lock23_reg 35 10 v) env t6 = (Inr (), t7)"
      "drp_modify port FiltReg1 (filt1_reg (ucast (drop_bit 50 v))) env t7 = (Inr (), t8)"
      "drp_modify port FiltReg2 (filt2_reg (ucast (drop_bit 50 v))) env t8 = (Inr (), tr')"
    using run unfolding mmcm_init_raw_def mmcm_init_raw_div_def mmcm_init_raw_lock_def mmcm_init_raw_filt_def
      MAX_MMCM_PORTS_def CLKOUT_PORT_FB_def Let_def
    by (auto simp: iosuccess)
  have "drp_regs port r0 tr' = other_regs v (clk_regs ports 8 ((drp_regs port r0 tr)(PowerRegV7 := 0xffff)))"
    using w [OF r(1)] clkouts_file [OF f _ r(2)] m [OF r(3)] drp_rd16_file [OF f r(4)] w [OF r(6)] m [OF r(7)] m [OF r(8)] m [OF r(9)] m [OF r(10)]
    by (simp add: other_regs_def mmcm_defs fun_upd_def)
  with r(5) clkouts_file [OF f _ r(2)] that show thesis by simp
qed

text \<open>The fields of the two registers of an output.\<close>

lemma field_of_int: "0 \<le> n \<Longrightarrow> n < 2 ^ k \<Longrightarrow> k \<le> 16 \<Longrightarrow> unat (take_bit k (of_int n :: u16)) = nat n"
proof -
  assume n: "0 \<le> n" "n < 2 ^ k" and k: "k \<le> 16"
  have l: "nat n < 2 ^ k" using n by (simp add: nat_less_iff)
  have "(of_int n :: u16) = of_nat (nat n)" using n by simp
  moreover have "unat (of_nat (nat n) :: u16) = nat n"
  proof (rule unat_of_nat_fits)
    show "nat n < 2 ^ LENGTH(16)" using less_le_trans [OF l power_increasing [of k 16 "2 :: nat"]] k by simp
  qed
  ultimately show ?thesis using l by (simp add: unsigned_take_bit_eq take_bit_nat_eq_self)
qed

lemma masks_mmcm_int:
  "(0xfc00 :: int) = push_bit 10 (mask 6)" "(0x7c00 :: int) = push_bit 10 (mask 5)" "(0x1000 :: int) = push_bit 12 (mask 1)"
  "(0x8000 :: int) = push_bit 15 (mask 1)"
  by (simp_all add: push_bit_eq_mult mask_eq_exp_minus_1)

lemma bit_masks_mmcm [bitfield]:
  "bit (0xfc00 :: int) n \<longleftrightarrow> 10 \<le> n \<and> n < 16" "bit (0x7c00 :: int) n \<longleftrightarrow> 10 \<le> n \<and> n < 15"
  "bit (0x1000 :: int) n \<longleftrightarrow> n = 12" "bit (0x8000 :: int) n \<longleftrightarrow> n = 15"
  unfolding masks_mmcm_int bit_push_bit_iff bit_mask_iff by auto

lemma clk1_fields:
  "fld 13 3 (clk1_reg pc old) = take_bit 3 (of_int (pc_phase pc))" "fld 6 6 (clk1_reg pc old) = take_bit 6 (of_int (pc_period_h pc))"
  "fld 0 6 (clk1_reg pc old) = take_bit 6 (of_int (pc_period_l pc))" "bit (clk1_reg pc old) 12 = bit old 12"
     apply (rule bit_word_eqI; auto simp: fld_def clk1_reg_def bit_simps bitfield)
    apply (rule bit_word_eqI; auto simp: fld_def clk1_reg_def bit_simps bitfield)
   apply (rule bit_word_eqI; auto simp: fld_def clk1_reg_def bit_simps bitfield)
  apply (auto simp: clk1_reg_def bit_simps bitfield)
  done

lemma clk2_fields:
  "fld 0 6 (clk2_reg pc old) = take_bit 6 (of_int (pc_delay pc))" "bit (clk2_reg pc old) 7 \<longleftrightarrow> pc_period_l pc - pc_period_h pc = 1"
  "fld 10 6 (clk2_reg pc old) = fld 10 6 old"
    apply (rule bit_word_eqI; auto simp: fld_def clk2_reg_def bit_simps bitfield)
   apply (auto simp: clk2_reg_def bit_simps bitfield)[1]
  apply (rule bit_word_eqI; auto simp: fld_def clk2_reg_def bit_simps bitfield)
  done

lemma lock_fields:
  "fld 0 10 (lock1_reg v old) = take_bit 10 (ucast (drop_bit 20 v))"
  "lo \<le> 54 \<Longrightarrow> fld 0 10 (lock23_reg hi lo v old) = take_bit 10 (ucast (drop_bit lo v))"
  "hi \<le> 59 \<Longrightarrow> fld 10 5 (lock23_reg hi lo v old) = take_bit 5 (ucast (drop_bit hi v))"
    apply (rule bit_word_eqI; auto simp: fld_def lock1_reg_def bit_simps bitfield)
   apply (rule bit_word_eqI; auto simp: fld_def lock23_reg_def bit_simps bitfield)
  apply (rule bit_word_eqI; auto simp: fld_def lock23_reg_def bit_simps bitfield)
  done

lemma lock_kept:
  "fld 10 6 (lock1_reg v old) = fld 10 6 old" "lo \<le> 54 \<Longrightarrow> hi \<le> 59 \<Longrightarrow> bit (lock23_reg hi lo v old) 15 = bit old 15"
   apply (rule bit_word_eqI; auto simp: fld_def lock1_reg_def bit_simps bitfield)
  apply (auto simp: lock23_reg_def bit_simps bitfield)
  done

text \<open>The divider of 1: high and low time 0 and 1, uneven and not counting; the top two bits are kept.\<close>

lemma div_fields:
  "fld 0 6 (div_reg 1 old) = 1" "fld 6 6 (div_reg 1 old) = 0" "fld 12 2 (div_reg 1 old) = 3" "fld 14 2 (div_reg 1 old) = fld 14 2 old"
     apply (rule bit_word_eqI; auto simp: fld_def div_reg_def bit_simps bitfield)
    apply (rule bit_word_eqI; auto simp: fld_def div_reg_def bit_simps bitfield)
   apply (rule bit_word_eqI; auto simp: fld_def div_reg_def bit_simps bitfield)
  apply (rule bit_word_eqI; auto simp: fld_def div_reg_def bit_simps bitfield)
  done

text \<open>The filter registers, bit by bit: where each of the ten bits of the table goes, and the bits that are kept.\<close>

lemma masks_filt:
  "(0x6000 :: u16) = push_bit 13 (mask 2)" "(0x0600 :: u16) = push_bit 9 (mask 2)" "(0x00ff :: u16) = mask 8"
  "(0x0060 :: u16) = push_bit 5 (mask 2)" "(0x000f :: u16) = mask 4" "(3 :: u32) = mask 2" "(1 :: u32) = mask 1"
  by (simp_all add: push_bit_eq_mult mask_eq_exp_minus_1)

lemma bit_moved:
  "bit (ucast (push_bit a (drop_bit b t AND mask n) :: u32) :: u16) k \<longleftrightarrow> k < 16 \<and> a \<le> k \<and> k < a + n \<and> bit (t :: u32) (k - a + b)"
  "bit (ucast (push_bit a (t AND mask n) :: u32) :: u16) k \<longleftrightarrow> k < 16 \<and> a \<le> k \<and> k < a + n \<and> bit (t :: u32) (k - a)"
  "bit (old AND push_bit a (mask n) :: u16) k \<longleftrightarrow> k < 16 \<and> a \<le> k \<and> k < a + n \<and> bit old k"
  "bit (old AND mask n :: u16) k \<longleftrightarrow> k < n \<and> bit old k"
  by (auto simp: bit_simps add.commute dest: bit_imp_le_length)

lemma below_16: "(k :: nat) < 16 \<Longrightarrow> k = 0 \<or> k = 1 \<or> k = 2 \<or> k = 3 \<or> k = 4 \<or> k = 5 \<or> k = 6 \<or> k = 7 \<or>
    k = 8 \<or> k = 9 \<or> k = 10 \<or> k = 11 \<or> k = 12 \<or> k = 13 \<or> k = 14 \<or> k = 15"
  by presburger

lemma filt1_bits:
  "k < 16 \<Longrightarrow> bit (filt1_reg t old) k =
    (if k = 15 then bit t 9 else if k \<in> {11, 12} then bit t (k - 4) else if k = 8 then bit t 6 else bit old k)"
  unfolding filt1_reg_def masks_filt bit_or_iff bit_moved(1,3,4) by (drule below_16, elim disjE) simp_all

lemma filt2_bits:
  "k < 16 \<Longrightarrow> bit (filt2_reg t old) k =
    (if k = 15 then bit t 5 else if k \<in> {11, 12} then bit t (k - 8) else if k \<in> {7, 8} then bit t (k - 6) else if k = 4 then bit t 0 else bit old k)"
  unfolding filt2_reg_def masks_filt bit_or_iff bit_moved(1,3,4) unfolding bit_moved(2) by (drule below_16, elim disjE) (simp_all add: numeral_2_eq_2)

text \<open>What the registers are to hold for output \<open>i\<close>, and that they else are as before.\<close>

definition mmcm_programmed :: "mmcm_port_config_raw list \<Rightarrow> nat \<Rightarrow> (u16 \<Rightarrow> u16) \<Rightarrow> (u16 \<Rightarrow> u16) \<Rightarrow> bool" where
  "mmcm_programmed ports i r r' \<longleftrightarrow>
    (let a = clk_port_reg i; p = ports ! i; v = mmcm_rom ! nat (pc_period_h (ports ! 7) + pc_period_l (ports ! 7)) in
    unat (fld 6 6 (r' a)) = nat (pc_period_h p) \<and> unat (fld 0 6 (r' a)) = nat (pc_period_l p) \<and>
    unat (fld 13 3 (r' a)) = nat (pc_phase p) \<and> bit (r' a) 12 = bit (r a) 12 \<and>
    unat (fld 0 6 (r' (a + 1))) = nat (pc_delay p) \<and> bit (r' (a + 1)) 7 = (pc_period_l p - pc_period_h p = 1) \<and>
    fld 10 6 (r' (a + 1)) = fld 10 6 (r (a + 1)) \<and>
    fld 0 10 (r' LockReg1) = take_bit 10 (ucast (drop_bit 20 v)) \<and>
    fld 10 5 (r' LockReg2) = take_bit 5 (ucast (drop_bit 30 v)) \<and> fld 0 10 (r' LockReg2) = take_bit 10 (ucast v) \<and>
    fld 10 5 (r' LockReg3) = take_bit 5 (ucast (drop_bit 35 v)) \<and> fld 0 10 (r' LockReg3) = take_bit 10 (ucast (drop_bit 10 v)) \<and>
    fld 10 6 (r' LockReg1) = fld 10 6 (r LockReg1) \<and> bit (r' LockReg2) 15 = bit (r LockReg2) 15 \<and> bit (r' LockReg3) 15 = bit (r LockReg3) 15 \<and>
    r' PowerRegV7 = 0xffff \<and> fld 0 6 (r' DIVCLK_DivReg) = 1 \<and> fld 6 6 (r' DIVCLK_DivReg) = 0 \<and>
    fld 12 2 (r' DIVCLK_DivReg) = 3 \<and> fld 14 2 (r' DIVCLK_DivReg) = fld 14 2 (r DIVCLK_DivReg) \<and>
    (\<forall>k<16. bit (r' FiltReg1) k = (if k = 15 then bit v 59 else if k \<in> {11, 12} then bit v (k + 46) else if k = 8 then bit v 56
       else bit (r FiltReg1) k)) \<and>
    (\<forall>k<16. bit (r' FiltReg2) k = (if k = 15 then bit v 55 else if k \<in> {11, 12} then bit v (k + 42) else if k \<in> {7, 8} then bit v (k + 44)
       else if k = 4 then bit v 50 else bit (r FiltReg2) k)) \<and>
    (\<forall>x. x \<notin> {0x06..0x16} \<union> {0x18, 0x19, 0x1a, 0x28, 0x4e, 0x4f} \<longrightarrow> r' x = r x))"

definition mmcm_port_ok :: "mmcm_port_config_raw \<Rightarrow> bool" where
  "mmcm_port_ok p \<longleftrightarrow> 0 \<le> pc_period_h p \<and> 0 \<le> pc_period_l p \<and> 0 \<le> pc_delay p \<and> 0 \<le> pc_phase p \<and> pc_phase p < 8"

lemma mmcm_init_regs:
  assumes "drp_file port r0 env" and "mmcm_init_raw port ports env tr = (Inr u, tr')" and "i < 8" and ok: "mmcm_port_ok (ports ! i)"
  shows "mmcm_programmed ports i (drp_regs port r0 tr) (drp_regs port r0 tr')"
proof -
  define v where "v = mmcm_rom ! nat (pc_period_h (ports ! 7) + pc_period_l (ports ! 7))"
  obtain v' where v: "mmcm_rom_at (pc_period_h (ports ! 7) + pc_period_l (ports ! 7)) = Some v'"
    and r: "drp_regs port r0 tr' = other_regs v' (clk_regs ports 8 ((drp_regs port r0 tr)(PowerRegV7 := 0xffff)))"
    and b: "\<forall>i<8. pc_period_h (ports ! i) \<le> 63 \<and> pc_period_l (ports ! i) \<le> 63 \<and> pc_delay (ports ! i) \<le> 63"
    by (rule mmcm_init_file [OF assms(1,2)])
  have v': "v' = v" using v by (simp add: v_def mmcm_rom_at_def split: if_splits)
  define a where "a = clk_port_reg i"
  define r where "r = drp_regs port r0 tr"
  define r' where "r' = drp_regs port r0 tr'"
  have u: "unat a = 6 + 2 * i" "unat (a + 1) = 7 + 2 * i" using clk_port_unat [OF assms(3)] by (simp_all add: a_def)
  have n: "x \<noteq> y" if "unat x \<noteq> unat y" for x y :: u16 using that by auto
  have ra: "r' a = clk1_reg (ports ! i) (r a)" "r' (a + 1) = clk2_reg (ports ! i) (r (a + 1))"
    using assms(3) u by (simp_all add: r'_def r_def r other_regs_def n clk_regs_def mmcm_defs)
  have rl: "\<exists>x. r' LockReg1 = lock1_reg v x" "\<exists>x. r' LockReg2 = lock23_reg 30 0 v x" "\<exists>x. r' LockReg3 = lock23_reg 35 10 v x"
    by (auto simp: r'_def r v' other_regs_def mmcm_defs)
  have rk: "r' LockReg1 = lock1_reg v (r LockReg1)" "r' LockReg2 = lock23_reg 30 0 v (r LockReg2)" "r' LockReg3 = lock23_reg 35 10 v (r LockReg3)"
    "r' PowerRegV7 = 0xffff" "r' DIVCLK_DivReg = div_reg 1 (r DIVCLK_DivReg)"
    "r' FiltReg1 = filt1_reg (ucast (drop_bit 50 v)) (r FiltReg1)" "r' FiltReg2 = filt2_reg (ucast (drop_bit 50 v)) (r FiltReg2)"
    by (auto simp: r'_def r_def r v' other_regs_def mmcm_defs clk_regs_def)
  have vb: "bit (ucast (drop_bit 50 v) :: u32) k = bit v (k + 50)" if "k < 32" for k
    using that by (auto simp: bit_simps add.commute dest: bit_imp_le_length)
  have lk: "fld 10 6 (r' LockReg1) = fld 10 6 (r LockReg1)" "bit (r' LockReg2) 15 = bit (r LockReg2) 15" "bit (r' LockReg3) 15 = bit (r LockReg3) 15"
    unfolding rk by (simp_all add: lock_kept)
  have fi: "\<forall>k<16. bit (r' FiltReg1) k = (if k = 15 then bit v 59 else if k \<in> {11, 12} then bit v (k + 46) else if k = 8 then bit v 56
       else bit (r FiltReg1) k)"
    "\<forall>k<16. bit (r' FiltReg2) k = (if k = 15 then bit v 55 else if k \<in> {11, 12} then bit v (k + 42) else if k \<in> {7, 8} then bit v (k + 44)
       else if k = 4 then bit v 50 else bit (r FiltReg2) k)"
    unfolding rk by (auto simp: filt1_bits filt2_bits vb)
  have ro: "r' x = r x" if "x \<notin> {0x06..0x16} \<union> {0x18, 0x19, 0x1a, 0x28, 0x4e, 0x4f}" for x
  proof -
    have "\<not> (6 \<le> unat x \<and> unat x < 22)" using that by (auto simp: word_le_nat_alt)
    then show ?thesis using that by (auto simp: r'_def r_def r other_regs_def mmcm_defs clk_regs_def)
  qed
  have "pc_period_h (ports ! i) \<le> 63" "pc_period_l (ports ! i) \<le> 63" "pc_delay (ports ! i) \<le> 63" using b assms(3) by auto
  then have f: "unat (take_bit 6 (of_int (pc_period_h (ports ! i)) :: u16)) = nat (pc_period_h (ports ! i))"
    "unat (take_bit 6 (of_int (pc_period_l (ports ! i)) :: u16)) = nat (pc_period_l (ports ! i))"
    "unat (take_bit 6 (of_int (pc_delay (ports ! i)) :: u16)) = nat (pc_delay (ports ! i))"
    "unat (take_bit 3 (of_int (pc_phase (ports ! i)) :: u16)) = nat (pc_phase (ports ! i))"
    using ok by (simp_all add: field_of_int mmcm_port_ok_def)
  have l: "fld 0 10 (r' LockReg1) = take_bit 10 (ucast (drop_bit 20 v))" "fld 10 5 (r' LockReg2) = take_bit 5 (ucast (drop_bit 30 v))"
    "fld 0 10 (r' LockReg2) = take_bit 10 (ucast v)" "fld 10 5 (r' LockReg3) = take_bit 5 (ucast (drop_bit 35 v))"
    "fld 0 10 (r' LockReg3) = take_bit 10 (ucast (drop_bit 10 v))"
    using rl lock_fields by auto
  show ?thesis
    unfolding mmcm_programmed_def Let_def v_def [symmetric] a_def [symmetric] r_def [symmetric] r'_def [symmetric] ra clk1_fields clk2_fields f
    using l lk rk(4) div_fields [of "r DIVCLK_DivReg", folded rk(5)] fi ro by blast
qed

text \<open>C6: A successful set-up leaves every output with the periods, the phase and the delay asked for, the input divider at 1,
  the lock and filter registers with the entry of the table for the feedback divider, the power register with all bits set, the
  reserved bits of all of them as they were, and all registers of no concern untouched.\<close>

theorem mmcm_init_raw_programs:
  assumes "drp_file port r0 env" and "mmcm_init_raw port ports env tr = (Inr u, tr')" and "i < 8" and "mmcm_port_ok (ports ! i)"
  shows "mmcm_programmed ports i (drp_regs port r0 tr) (drp_regs port r0 tr')"
  using assms by (rule mmcm_init_regs)

text \<open>A device that keeps what is written to the port, all registers 0 at first.\<close>

definition drp_device :: env where
  "drp_device = (\<lambda>tr r. (0, if rq_op r = USDR_LSOP_DRP \<and> rq_insz r = 2
     then le_bytes 2 (drp_regs 0 (\<lambda>_. 0) tr (ucast (rq_addr r))) else replicate (rq_insz r) 0))"

lemma drp_device_file: "drp_file 0 (\<lambda>_. 0) drp_device"
  using drp_addr(2) [of 0] by (simp add: drp_file_def drp_device_def)

lemma drp_device_accepts: "bus_accepts drp_device"
  by (simp add: bus_accepts_def drp_device_def)

text \<open>Programs that succeed on every device that accepts all requests.\<close>

definition runs :: "(int + 'a) io \<Rightarrow> bool" where
  "runs m \<longleftrightarrow> (\<forall>env tr. bus_accepts env \<longrightarrow> (\<exists>a tr'. m env tr = (Inr a, tr')))"

lemma runs_ops [intro]:
  "runs (lowlevel_drp_rd16 p a)" "runs (lowlevel_drp_wr16 p a w)" "runs (ioreturn x)"
  by (auto simp: runs_def bus_accepts_def lowlevel_drp_rd16_def lowlevel_drp_wr16_def lowlevel_ls_op_def iodefs Let_def split: prod.splits)
    (metis fst_conv)+

lemma runs_bind [intro]: "runs m \<Longrightarrow> (\<And>a. runs (k a)) \<Longrightarrow> runs (iobind m k)"
  unfolding runs_def iobind_Inr by metis

lemma runs_seq [intro]: "runs m \<Longrightarrow> runs k \<Longrightarrow> runs (ioseq m k)"
  unfolding ioseq_def by blast

lemma runs_list [intro]: "(\<And>m. m \<in> set ms \<Longrightarrow> runs m) \<Longrightarrow> runs (iolist ms)"
  by (induction ms) auto

definition halves :: "mmcm_port_config_raw" where
  "halves = \<lparr>pc_period_l = 5, pc_period_h = 4, pc_phase = 3, pc_delay = 9\<rparr>"

lemma mmcm_init_runs:
  assumes "\<forall>i<8. pc_period_h (ports ! i) \<le> 63 \<and> pc_period_l (ports ! i) \<le> 63 \<and> pc_delay (ports ! i) \<le> 63"
    and "0 \<le> pc_period_h (ports ! 7) + pc_period_l (ports ! 7)" "pc_period_h (ports ! 7) + pc_period_l (ports ! 7) < 64"
  shows "runs (mmcm_init_raw p ports)"
proof -
  obtain v where "mmcm_rom_at (pc_period_h (ports ! 7) + pc_period_l (ports ! 7)) = Some v"
    using assms(2,3) by (simp add: mmcm_rom_at_def)
  moreover have m: "runs (drp_modify p a f)" for a f unfolding drp_modify_def by blast
  moreover have "runs (mmcm_init_raw_clkout p a (ports ! i))" if "i < 8" for a i
    using assms(1) that m by (auto simp: mmcm_init_raw_clkout_def mmcm_defs not_less [symmetric])
  ultimately show ?thesis unfolding mmcm_init_raw_def Let_def
    by (auto simp: mmcm_init_raw_div_def mmcm_init_raw_lock_def mmcm_init_raw_filt_def with_rom_def MAX_MMCM_PORTS_def CLKOUT_PORT_FB_def Let_def
      intro!: runs_list runs_seq)
qed

lemma halves_runs: "runs (mmcm_init_raw p (replicate 8 halves))"
  by (rule mmcm_init_runs) (simp_all add: halves_def)

theorem mmcm_init_raw_programs_witness:
  "\<exists>tr'. mmcm_init_raw 0 (replicate 8 halves) drp_device [] = (Inr (), tr') \<and>
     unat (fld 6 6 (drp_regs 0 (\<lambda>_. 0) tr' 0x0a)) = 4 \<and> unat (fld 0 6 (drp_regs 0 (\<lambda>_. 0) tr' 0x0a)) = 5 \<and>
     drp_regs 0 (\<lambda>_. 0) tr' 0x28 = 0xffff \<and> fld 0 6 (drp_regs 0 (\<lambda>_. 0) tr' 0x16) = 1"
proof -
  obtain tr' where r: "mmcm_init_raw 0 (replicate 8 halves) drp_device [] = (Inr (), tr')"
    using halves_runs [of 0] drp_device_accepts unfolding runs_def by (metis (full_types) old.unit.exhaust)
  have "clk_port_reg 2 = 0x0a" by (simp add: clk_port_reg_def mmcm_defs)
  moreover have "replicate 8 halves ! 2 = halves" "replicate 8 halves ! 7 = halves" by simp_all
  moreover have "mmcm_port_ok halves" by (simp add: mmcm_port_ok_def halves_def)
  ultimately have "unat (fld 6 6 (drp_regs 0 (\<lambda>_. 0) tr' 0x0a)) = 4 \<and> unat (fld 0 6 (drp_regs 0 (\<lambda>_. 0) tr' 0x0a)) = 5 \<and>
      drp_regs 0 (\<lambda>_. 0) tr' 0x28 = 0xffff \<and> fld 0 6 (drp_regs 0 (\<lambda>_. 0) tr' 0x16) = 1"
    using mmcm_init_raw_programs [OF drp_device_file r, where i = 2]
    by (simp add: mmcm_programmed_def halves_def Let_def PowerRegV7_def DIVCLK_DivReg_def)
  with r show ?thesis by blast
qed

text \<open>C40: The 9-bit phase and delay of an output can be read back from its two registers, whose other
  bits stay as they were.\<close>

theorem mmcm_phase_delay:
  assumes "drp_file dp r0 env" and "mmcm_set_phdigdelay_raw dp port phdelay env tr = (Inr u, tr')" and "port < 8" and "phdelay < 512"
  shows "let r = drp_regs dp r0 tr; r' = drp_regs dp r0 tr'; a = clk_port_reg (unat port) in
    unat (fld 13 3 (r' a)) + 8 * unat (fld 0 6 (r' (a + 1))) = unat phdelay \<and> take_bit 13 (r' a) = take_bit 13 (r a) \<and>
    fld 6 10 (r' (a + 1)) = fld 6 10 (r (a + 1)) \<and> (\<forall>x. x \<noteq> a \<longrightarrow> x \<noteq> a + 1 \<longrightarrow> r' x = r x)"
proof -
  have a: "CLKOUT5_ClkReg1 + 2 * ucast port = clk_port_reg (unat port)"
  proof -
    have "unat port < 8" using assms(3) by (simp add: word_less_nat_alt)
    then have "(ucast port :: u16) = of_nat (unat port)" by (simp add: word_unat_eq_iff unsigned_ucast_eq unsigned_of_nat)
    then show ?thesis by (simp add: clk_port_reg_def)
  qed
  let ?a = "clk_port_reg (unat port)"
  define f where "f = (\<lambda>old. push_bit 13 (ucast (phdelay AND 7)) OR (old AND 0x1fff) :: u16)"
  define g where "g = (\<lambda>old. (old AND 0xffc0) OR ucast (drop_bit 3 phdelay AND 0x3f) :: u16)"
  define r where "r = drp_regs dp r0 tr"
  have r': "drp_regs dp r0 tr' = r(?a := f (r ?a), ?a + 1 := g (r (?a + 1)))"
    using assms(2) drp_modify_file [OF assms(1)]
    by (fastforce simp: mmcm_set_phdigdelay_raw_def a iosuccess r_def f_def [symmetric] g_def [symmetric] Let_def)
  have 1: "fld 13 3 (f old) = ucast (take_bit 3 phdelay)" "take_bit 13 (f old) = take_bit 13 old"
    "fld 0 6 (g old) = ucast (take_bit 6 (drop_bit 3 phdelay))" "fld 6 10 (g old) = fld 6 10 old" for old
       apply (rule bit_word_eqI; auto simp: fld_def f_def bit_simps bitfield)
      apply (rule bit_word_eqI; auto simp: f_def bit_simps bitfield)
     apply (rule bit_word_eqI; auto simp: fld_def g_def bit_simps bitfield)
    apply (rule bit_word_eqI; auto simp: fld_def g_def bit_simps bitfield)
    done
  have p: "unat phdelay < 512" using assms(4) by (simp add: word_less_nat_alt)
  have 2: "unat (ucast (take_bit 3 phdelay) :: u16) = unat phdelay mod 8"
    "unat (ucast (take_bit 6 (drop_bit 3 phdelay)) :: u16) = unat phdelay div 8"
    using p by (simp_all add: unsigned_ucast_eq unsigned_take_bit_eq take_bit_take_bit unsigned_drop_bit_eq drop_bit_eq_div take_bit_eq_mod unat_mod unat_div)
  show ?thesis unfolding Let_def r' r_def [symmetric] using 1 2 by simp
qed

theorem mmcm_phase_delay_witness:
  "\<exists>tr'. mmcm_set_phdigdelay_raw 0 2 300 drp_device [] = (Inr (), tr') \<and>
     unat (fld 13 3 (drp_regs 0 (\<lambda>_. 0) tr' 0x0a)) + 8 * unat (fld 0 6 (drp_regs 0 (\<lambda>_. 0) tr' 0x0b)) = 300"
proof -
  have "runs (mmcm_set_phdigdelay_raw 0 2 300)"
    unfolding mmcm_set_phdigdelay_raw_def drp_modify_def Let_def by (intro runs_seq runs_bind runs_ops)
  then obtain tr' where r: "mmcm_set_phdigdelay_raw 0 2 300 drp_device [] = (Inr (), tr')"
    using drp_device_accepts unfolding runs_def by (metis (full_types) old.unit.exhaust)
  have "clk_port_reg 2 = 0x0a" by (simp add: clk_port_reg_def mmcm_defs)
  then show ?thesis using r mmcm_phase_delay [OF drp_device_file r] by (auto simp: Let_def)
qed

text \<open>A feedback divider of 64 passes the checks of the outputs, but the table ends at 63.\<close>

theorem mmcm_div64_overruns:
  "fst (mmcm_init_raw 0 (replicate 8 \<lparr>pc_period_l = 32, pc_period_h = 32, pc_phase = 0, pc_delay = 0\<rparr>) accept_all []) = Inl OUT_OF_BOUNDS"
  by (simp add: mmcm_init_raw_def upt_rec mmcm_init_raw_clkout_def mmcm_defs drp_modify_def lowlevel_drp_rd16_def lowlevel_drp_wr16_def
    mmcm_init_raw_div_def mmcm_init_raw_lock_def with_rom_def mmcm_rom_at_def)

end
