(* ===== verification/UsbDrp.thy ===== *)
theory UsbDrp
  imports UsbUram Mmcm
begin

text \<open>
  The parts together: the clock manager is programmed by register updates over the reconfiguration port
  (\<open>Mmcm\<close>), each becomes a command word for the register of the port (\<open>DeviceBus\<close>), and that a transfer
  over USB (\<open>UsbUram\<close>). The library's contract for the port, \<open>drp_file\<close>, holds of the registers behind it.
\<close>

section \<open>Requests to the port\<close>

definition drp_req :: "u32 \<Rightarrow> lsreq \<Rightarrow> bool" where
  "drp_req port r \<longleftrightarrow> rq_op r = USDR_LSOP_DRP \<and> (\<exists>a :: u16. a < 256 \<and> rq_addr r = push_bit 16 port OR ucast a) \<and>
     (rq_insz r = 2 \<and> rq_out r = [] \<or> rq_insz r = 0 \<and> length (rq_out r) = 2)"

lemma asks_drp [asks_intros]:
  "a < 256 \<Longrightarrow> asks (drp_req port) (lowlevel_drp_rd16 port a)"
  "a < 256 \<Longrightarrow> asks (drp_req port) (lowlevel_drp_wr16 port a w)"
  unfolding lowlevel_drp_rd16_def lowlevel_drp_wr16_def
  by (intro asks_intros; auto simp: drp_req_def)+

lemma asks_modify [asks_intros]: "a < 256 \<Longrightarrow> asks (drp_req port) (drp_modify port a f)"
  unfolding drp_modify_def by (intro asks_intros)

lemma asks_with_rom [asks_intros]: "(\<And>v. asks P (f v)) \<Longrightarrow> asks P (with_rom d f)"
  by (simp add: with_rom_def asks_intros split: option.splits)

lemma asks_mmcm_init: "asks (drp_req port) (mmcm_init_raw port ports)"
proof -
  have "asks (drp_req port) (mmcm_init_raw_clkout port (clk_port_reg i) pc)" if "i < 8" for i pc
    using clk_port_unat [OF that] that unfolding mmcm_init_raw_clkout_def
    by (intro asks_intros) (auto simp: word_less_nat_alt)
  then show ?thesis
    unfolding mmcm_init_raw_def mmcm_init_raw_div_def mmcm_init_raw_lock_def mmcm_init_raw_filt_def Let_def
    by (auto intro!: asks_intros simp: mmcm_defs)
qed

section \<open>The port over USB\<close>

definition usb_drp_bus :: "u32 \<Rightarrow> u32 \<Rightarrow> u32 \<Rightarrow> u32 \<Rightarrow> device_bus \<Rightarrow> bool" where
  "usb_drp_bus port dp ib vb db \<longleftrightarrow> one_space ib vb db \<and> dp < vb \<and> port < db_drp_count db \<and> port < 0x10000 \<and>
     unat port < length (db_drp_base db) \<and> db_drp_base db ! unat port = dp"

definition drp_cmd :: "u16 \<Rightarrow> u16 option \<Rightarrow> u32" where
  "drp_cmd a w = (case w of None \<Rightarrow> 0x01000000 OR push_bit 16 (ucast a AND 0xff)
     | Some w \<Rightarrow> 0x81000000 OR push_bit 16 (ucast a AND 0xff) OR ucast w)"

lemma bit_drp_masks_int:
  "(0x01000000 :: int) = push_bit 24 (mask 1)" "(0x81000000 :: int) = push_bit 24 (mask 1) OR push_bit 31 (mask 1)"
  "(0x100 :: int) = push_bit 8 (mask 1)" "(0x8100 :: int) = push_bit 8 (mask 1) OR push_bit 15 (mask 1)"
  by code_simp+

lemma bit_drp_masks [bitfield]:
  "bit (0x01000000 :: int) n \<longleftrightarrow> n = 24" "bit (0x81000000 :: int) n \<longleftrightarrow> n = 24 \<or> n = 31"
  "bit (0x100 :: int) n \<longleftrightarrow> n = 8" "bit (0x8100 :: int) n \<longleftrightarrow> n = 8 \<or> n = 15"
  unfolding bit_drp_masks_int bit_or_iff bit_push_bit_iff bit_mask_iff by auto

lemma drp_cmd_fields:
  "ucast (drop_bit 16 (drp_cmd a x)) = (ucast a :: u8)" "ucast (drp_cmd a (Some w)) = w"
  "bit (drp_cmd a (Some w)) 31" "\<not> bit (drp_cmd a None) 31"
     apply (rule bit_word_eqI; cases x; auto simp: drp_cmd_def bit_simps bitfield dest: bit_imp_le_length)
    apply (rule bit_word_eqI; auto simp: drp_cmd_def bit_simps bitfield)
   apply (auto simp: drp_cmd_def bit_simps bitfield)
  done

lemma port_addr:
  fixes port :: u32
  assumes "port < 0x10000"
  shows "drop_bit 16 (push_bit 16 port OR ucast (a :: u16)) = port"
    and "(push_bit 16 port OR ucast a) AND 0xff = ucast a AND 0xff"
proof -
  have "unat port < 2 ^ 16" using assms by (simp add: word_less_nat_alt)
  then show "drop_bit 16 (push_bit 16 port OR ucast a) = port" using drp_addr(1) take_bit_fits by metis
  show "(push_bit 16 port OR ucast a) AND 0xff = ucast a AND 0xff"
    by (rule bit_word_eqI) (auto simp: bit_simps bitfield)
qed

lemma hwreg_wr_fpga:
  assumes "one_space ib vb (gen_db s)" and "dp < vb"
  shows "usb_hwreg (usb_fpga ib dp) \<lparr>rq_op = USDR_LSOP_HWREG, rq_addr = dp, rq_insz = 0, rq_out = le_bytes 4 w\<rparr> s =
    (Inr [], s\<lparr>gen_hw := fpga_set ib dp dp w (gen_hw s)\<rparr>)"
  using assms words_of_bytes_of [of "[w]"]
  by (simp add: usb_hwreg_def reg_op_one_space usb_plain_op_def bytes_of_def not_le [symmetric] del: le_bytes.simps)

lemma hwreg_rd_fpga:
  assumes "one_space ib vb (gen_db s)" and "dp < vb"
  shows "usb_hwreg (usb_fpga ib dp) \<lparr>rq_op = USDR_LSOP_HWREG, rq_addr = dp, rq_insz = 4, rq_out = []\<rparr> s =
    (Inr (le_bytes 4 (fpga_get ib dp dp (gen_hw s))), s)"
  using assms
  by (simp add: usb_hwreg_def reg_op_one_space usb_plain_op_def bytes_of_def words_of_def not_le [symmetric] del: le_bytes.simps)

lemma drp_program:
  assumes "usb_drp_bus port dp ib vb db"
  shows "device_bus_drp_generic_op db (push_bit 16 port OR ucast (a :: u16)) 0 d =
      (if length d = 2 then ioseq (lowlevel_reg_wr32 dp (drp_cmd a (Some (of_le_bytes d)))) (ioreturn []) else iofail (- EINVAL))"
    and "device_bus_drp_generic_op db (push_bit 16 port OR ucast a) 2 [] =
      ioseq (lowlevel_reg_wr32 dp (drp_cmd a None))
        (ioseq (usleep 1000) (iobind (lowlevel_reg_rd32 dp) (\<lambda>d. ioreturn (le_bytes 2 d))))"
proof -
  have b: "(port > db_drp_count db) = False" "array_at (db_drp_base db) port = Inr dp" "port < 0x10000"
    using assms by (auto simp: usb_drp_bus_def array_at_def)
  show "device_bus_drp_generic_op db (push_bit 16 port OR ucast a) 0 d =
      (if length d = 2 then ioseq (lowlevel_reg_wr32 dp (drp_cmd a (Some (of_le_bytes d)))) (ioreturn []) else iofail (- EINVAL))"
    "device_bus_drp_generic_op db (push_bit 16 port OR ucast a) 2 [] =
      ioseq (lowlevel_reg_wr32 dp (drp_cmd a None))
        (ioseq (usleep 1000) (iobind (lowlevel_reg_rd32 dp) (\<lambda>d. ioreturn (le_bytes 2 d))))"
    unfolding device_bus_drp_generic_op_def Let_def port_addr [OF b(3)] b(1,2) by (simp_all add: drp_cmd_def)
qed

lemma usb_drp_op:
  assumes "usb_drp_bus port dp ib vb (gen_db s)" 
  shows "usb_uram_ls_op (usb_fpga ib dp) \<lparr>rq_op = USDR_LSOP_DRP, rq_addr = push_bit 16 port OR ucast (a :: u16), rq_insz = 0, rq_out = d\<rparr> s =
      (if length d = 2 then (Inr [], s\<lparr>gen_hw := (gen_hw s)\<lparr>fp_drp := (fp_drp (gen_hw s))(ucast a := of_le_bytes d)\<rparr>\<rparr>) else (Inl (- EINVAL), s))"
    (is ?W)
    and "usb_uram_ls_op (usb_fpga ib dp) \<lparr>rq_op = USDR_LSOP_DRP, rq_addr = push_bit 16 port OR ucast a, rq_insz = 2, rq_out = []\<rparr> s =
      (Inr (le_bytes 2 (fp_drp (gen_hw s) (ucast a))), s\<lparr>gen_hw := (gen_hw s)\<lparr>fp_dsel := ucast a\<rparr>\<rparr>)" (is ?R)
proof -
  have b: "one_space ib vb (gen_db s)" "dp < vb" using assms by (auto simp: usb_drp_bus_def)
  note exec = run_over_def lowlevel_reg_wr32_def lowlevel_reg_rd32_def lowlevel_ls_op_def iodefs machine_env_def EINVAL_def
  have op: "usb_uram_ls_op ops \<lparr>rq_op = USDR_LSOP_DRP, rq_addr = x, rq_insz = n, rq_out = d\<rparr> s =
    run_over (usb_hwreg ops) (device_bus_drp_generic_op (gen_db s) x n d) s" for ops x n d
    by (simp add: usb_uram_ls_op_def)
  show ?W unfolding op drp_program [OF assms]
    by (simp add: exec hwreg_wr_fpga [OF b] fpga_set_def drp_cmd_fields del: le_bytes.simps)
  define s1 where "s1 = s\<lparr>gen_hw := fpga_set ib dp dp (drp_cmd a None) (gen_hw s)\<rparr>"
  have "one_space ib vb (gen_db s1)" using b(1) by (simp add: s1_def)
  note rd = hwreg_rd_fpga [OF this b(2)]
  have o: "of_le_bytes (le_bytes 4 v) = v" for v :: u32 by (rule of_le_bytes_le_bytes) simp
  have l: "le_bytes 2 (ucast x :: u32) = le_bytes 2 x" for x :: u16
    by (simp add: numeral_2_eq_2) (auto intro!: bit_word_eqI simp: bit_simps)
  show ?R unfolding op drp_program [OF assms]
    by (simp add: exec hwreg_wr_fpga [OF b] s1_def [symmetric] rd o l del: le_bytes.simps)
      (simp add: s1_def fpga_set_def fpga_get_def drp_cmd_fields l)
qed

section \<open>The registers behind the port\<close>

definition fpga_drp :: "fpga \<Rightarrow> u16 \<Rightarrow> u16" where
  "fpga_drp h a = fp_drp h (ucast a)"

lemma low_eq: "a < 256 \<Longrightarrow> b < 256 \<Longrightarrow> (ucast a :: u8) = ucast b \<longleftrightarrow> (a :: u16) = b"
proof -
  assume "a < 256" "b < 256"
  then have "unat a < 256" "unat b < 256" by (simp_all add: word_less_nat_alt)
  then have "unat (ucast a :: u8) = unat a" "unat (ucast b :: u8) = unat b" by (simp_all add: unsigned_ucast_eq take_bit_nat_eq_self)
  then show ?thesis by (metis unsigned_word_eqI)
qed

lemma drp_step_req:
  "drp_step port (LsOp \<lparr>rq_op = USDR_LSOP_DRP, rq_addr = push_bit 16 port OR ucast (a :: u16), rq_insz = 0, rq_out = d\<rparr>) regs =
     (if length d = 2 then regs(a := of_le_bytes d) else regs)"
  "drp_step port (LsOp \<lparr>rq_op = USDR_LSOP_DRP, rq_addr = x, rq_insz = 2, rq_out = d\<rparr>) regs = regs"
  unfolding drp_step.simps lsreq.simps drp_addr by simp_all

lemma drp_reqE:
  assumes "drp_req port r"
  obtains (wr) a d where "a < 256" "length d = 2"
      "r = \<lparr>rq_op = USDR_LSOP_DRP, rq_addr = push_bit 16 port OR ucast (a :: u16), rq_insz = 0, rq_out = d\<rparr>"
    | (rd) a where "a < 256" "r = \<lparr>rq_op = USDR_LSOP_DRP, rq_addr = push_bit 16 port OR ucast (a :: u16), rq_insz = 2, rq_out = []\<rparr>"
  using assms by (cases r) (auto simp: drp_req_def)

lemma usb_drp_replay:
  assumes "trace_of (drp_req port) tr" and "usb_drp_bus port dp ib vb (gen_db s)" and "\<forall>a<256. r0 a = fpga_drp (gen_hw s) a"
  shows "gen_db (replay (usb_uram_ls_op (usb_fpga ib dp)) tr s) = gen_db s \<and>
    (\<forall>a<256. drp_regs port r0 tr a = fpga_drp (gen_hw (replay (usb_uram_ls_op (usb_fpga ib dp)) tr s)) a)"
  using assms
proof (induction tr arbitrary: s r0)
  case Nil
  then show ?case by (simp add: drp_regs_def)
next
  case (Cons e tr)
  note tr = Cons.prems(1) and bus = Cons.prems(2) and r0 = Cons.prems(3)
  have tl: "trace_of (drp_req port) tr" using tr by (simp add: trace_of_def)
  show ?case
  proof (cases e)
    case (USleep n)
    then show ?thesis using Cons.IH [OF tl bus r0] by (simp add: drp_regs_def)
  next
    case (LsOp r)
    then have "drp_req port r" using tr by (simp add: trace_of_def)
    then show ?thesis
    proof (cases rule: drp_reqE)
      case (wr a d)
      define s1 where "s1 = s\<lparr>gen_hw := (gen_hw s)\<lparr>fp_drp := (fp_drp (gen_hw s))(ucast a := of_le_bytes d)\<rparr>\<rparr>"
      have "\<forall>x<256. (r0(a := of_le_bytes d)) x = fpga_drp (gen_hw s1) x"
        using r0 wr(1) low_eq by (auto simp: s1_def fpga_drp_def)
      moreover have "usb_drp_bus port dp ib vb (gen_db s1)" "gen_db s1 = gen_db s" using bus by (simp_all add: s1_def)
      moreover have "snd (usb_uram_ls_op (usb_fpga ib dp) r s) = s1" using usb_drp_op(1) [OF bus] wr by (simp add: s1_def)
      moreover have "drp_regs port r0 (e # tr) = drp_regs port (r0(a := of_le_bytes d)) tr"
        unfolding drp_regs_def fold_simps comp_def LsOp wr(3) drp_step_req using wr(2) by simp
      ultimately show ?thesis using Cons.IH [OF tl] LsOp by simp
    next
      case (rd a)
      define s1 where "s1 = s\<lparr>gen_hw := (gen_hw s)\<lparr>fp_dsel := ucast a\<rparr>\<rparr>"
      have "\<forall>x<256. r0 x = fpga_drp (gen_hw s1) x" "usb_drp_bus port dp ib vb (gen_db s1)" "gen_db s1 = gen_db s"
        using r0 bus by (simp_all add: s1_def fpga_drp_def)
      moreover have "snd (usb_uram_ls_op (usb_fpga ib dp) r s) = s1" using usb_drp_op(2) [OF bus] rd by (simp add: s1_def)
      moreover have "drp_regs port r0 (e # tr) = drp_regs port r0 tr"
        unfolding drp_regs_def fold_simps comp_def LsOp rd(2) drp_step_req by simp
      ultimately show ?thesis using Cons.IH [OF tl] LsOp by simp
    qed
  qed
qed

lemma usb_drp_answers:
  assumes "usb_drp_bus port dp ib vb (gen_db s)" and "trace_of (drp_req port) tr" and "drp_req port r"
  shows "fst (machine_env (usb_uram_ls_op (usb_fpga ib dp)) s tr r) = 0"
    and "r = \<lparr>rq_op = USDR_LSOP_DRP, rq_addr = push_bit 16 port OR ucast (a :: u16), rq_insz = 2, rq_out = []\<rparr> \<Longrightarrow>
      machine_env (usb_uram_ls_op (usb_fpga ib dp)) s tr r = (0, le_bytes 2 (drp_regs port (fpga_drp (gen_hw s)) tr a))"
proof -
  note rp = usb_drp_replay [OF assms(2,1), of "fpga_drp (gen_hw s)"]
  have bus: "usb_drp_bus port dp ib vb (gen_db (replay (usb_uram_ls_op (usb_fpga ib dp)) tr s))" using assms(1) rp by simp
  show "fst (machine_env (usb_uram_ls_op (usb_fpga ib dp)) s tr r) = 0"
    using assms(3) by (cases rule: drp_reqE) (simp_all add: machine_env_def usb_drp_op [OF bus])
  assume r: "r = \<lparr>rq_op = USDR_LSOP_DRP, rq_addr = push_bit 16 port OR ucast a, rq_insz = 2, rq_out = []\<rparr>"
  then have "a < 256" using assms(3) by (auto simp: drp_req_def) (metis drp_addr(2))
  then have "drp_regs port (fpga_drp (gen_hw s)) tr a = fp_drp (gen_hw (replay (usb_uram_ls_op (usb_fpga ib dp)) tr s)) (ucast a)"
    using rp by (simp add: fpga_drp_def)
  then show "machine_env (usb_uram_ls_op (usb_fpga ib dp)) s tr r = (0, le_bytes 2 (drp_regs port (fpga_drp (gen_hw s)) tr a))"
    by (simp add: machine_env_def r usb_drp_op [OF bus] del: le_bytes.simps)
qed

text \<open>C2: Over USB the clock manager of a device whose bus table has the port is programmed for every configuration
  within the limits: the run succeeds, and the registers behind the port hold what was asked for.\<close>

theorem mmcm_over_usb:
  assumes bus: "usb_drp_bus port dp ib vb (gen_db s)"
    and ok: "\<forall>i<8. mmcm_port_ok (ports ! i) \<and> pc_period_h (ports ! i) \<le> 63 \<and> pc_period_l (ports ! i) \<le> 63 \<and> pc_delay (ports ! i) \<le> 63"
    and fb: "pc_period_h (ports ! 7) + pc_period_l (ports ! 7) < 64"
  shows "\<exists>s' r'. run_over (usb_uram_ls_op (usb_fpga ib dp)) (mmcm_init_raw port ports) s = (Inr (), s') \<and> gen_db s' = gen_db s \<and>
    (\<forall>a<256. fpga_drp (gen_hw s') a = r' a) \<and> (\<forall>i<8. mmcm_programmed ports i (fpga_drp (gen_hw s)) r')"
proof -
  let ?m = "mmcm_init_raw port ports" and ?P = "drp_req port" and ?e = "machine_env (usb_uram_ls_op (usb_fpga ib dp)) s"
  let ?r0 = "fpga_drp (gen_hw s)"
  have t0: "trace_of ?P []" by (simp add: trace_of_def)
  note same = only_env_run [OF asks_mmcm_init t0]
  have "bus_accepts (only_env ?P 0 ?e)" using usb_drp_answers(1) [OF bus] by (simp add: bus_accepts_def only_env_def)
  moreover have "0 \<le> pc_period_h (ports ! 7) + pc_period_l (ports ! 7)" using ok by (auto simp: mmcm_port_ok_def)
  then have "runs ?m" using ok fb by (intro mmcm_init_runs) auto
  ultimately have "\<exists>a tr'. ?m (only_env ?P 0 ?e) [] = (Inr a, tr')" unfolding runs_def by blast
  then obtain tr' where run: "?m ?e [] = (Inr (), tr')" by (auto simp: same)
  have tr': "trace_of ?P tr'" using asks_trace [OF asks_mmcm_init t0 run] .
  have "drp_file port ?r0 (only_env ?P 1 ?e)"
    using usb_drp_answers(2) [OF bus] by (auto simp: drp_file_def only_env_def split: if_splits)
  then have prog: "mmcm_programmed ports i ?r0 (drp_regs port ?r0 tr')" if "i < 8" for i
    using mmcm_init_regs [of port ?r0 "only_env ?P 1 ?e" ports "[]" "()" tr' i] run ok that by (simp add: same drp_regs_def)
  have "gen_db (replay (usb_uram_ls_op (usb_fpga ib dp)) tr' s) = gen_db s \<and>
    (\<forall>a<256. drp_regs port ?r0 tr' a = fpga_drp (gen_hw (replay (usb_uram_ls_op (usb_fpga ib dp)) tr' s)) a)"
    by (rule usb_drp_replay [OF tr' bus]) simp
  then show ?thesis using run prog
    by (intro exI [of _ "replay (usb_uram_ls_op (usb_fpga ib dp)) tr' s"] exI [of _ "drp_regs port ?r0 tr'"]) (simp add: run_over_def)
qed

definition usb_clocks :: "fpga usb_uram_generic" where
  "usb_clocks = usb0\<lparr>gen_db := bus_one_space\<lparr>db_drp_count := 1, db_drp_base := [56, 0, 0, 0, 0, 0, 0, 0]\<rparr>\<rparr>"

lemma mmcm_over_usb_witness:
  "\<exists>s' r'. run_over (usb_uram_ls_op (usb_fpga 16 56)) (mmcm_init_raw 0 (replicate 8 halves)) usb_clocks = (Inr (), s') \<and>
    (\<forall>a<256. fpga_drp (gen_hw s') a = r' a) \<and> mmcm_programmed (replicate 8 halves) 2 (\<lambda>_. 0) r'"
proof -
  have "usb_drp_bus 0 56 16 0x10000 (gen_db usb_clocks)"
    by (simp add: usb_drp_bus_def one_space_def usb_clocks_def bus_one_space_def)
  moreover have "\<forall>i<8. mmcm_port_ok (replicate 8 halves ! i) \<and> pc_period_h (replicate 8 halves ! i) \<le> 63 \<and>
      pc_period_l (replicate 8 halves ! i) \<le> 63 \<and> pc_delay (replicate 8 halves ! i) \<le> 63"
    by (simp add: mmcm_port_ok_def halves_def)
  moreover have "pc_period_h (replicate 8 halves ! 7) + pc_period_l (replicate 8 halves ! 7) < 64" by (simp add: halves_def)
  moreover have "fpga_drp (gen_hw usb_clocks) = (\<lambda>_. 0)" by (simp add: fun_eq_iff fpga_drp_def usb_clocks_def usb0_def)
  ultimately obtain s' r' where "run_over (usb_uram_ls_op (usb_fpga 16 56)) (mmcm_init_raw 0 (replicate 8 halves)) usb_clocks = (Inr (), s')"
    "\<forall>a<256. fpga_drp (gen_hw s') a = r' a" "\<forall>i<8. mmcm_programmed (replicate 8 halves) i (\<lambda>_. 0) r'"
    using mmcm_over_usb [of 0 56 16 "0x10000" usb_clocks "replicate 8 halves"] by auto
  then show ?thesis by auto
qed

end
