(* ===== verification/StreamLime.thy ===== *)
theory StreamLime
  imports StreamInit
begin

text \<open>
  Streams of the LimeSDR boards (\<open>src/lib/ipblks/streams/stream_limesdr.c\<close>). A DMA buffer is a row of
  bursts, each with a header of 16 bytes that holds the time of its first sample. Receiving copies
  bursts into host packets of another size, keeps the place in a buffer between calls, and fills the time
  of lost bursts with zeros. Sending cuts a host buffer into bursts and writes their headers. The
  DMA driver is an argument; conversions, zero fills and releases are events.
\<close>

section \<open>State\<close>

record stream_partial_rx =
  pr_dma_buf :: "u8 list"
  pr_wire_cons_smpl :: u32
  pr_wire_cons_bytes :: u32
  pr_wire_bidx :: u32

record stream_limesdr =
  sl_host_pkt_symbs :: u32
  sl_tf :: "conv_function \<times> size_function"
  sl_ll_streamo :: u32
  sl_burst_count :: u32
  sl_burst_symbs :: u32
  sl_burst_bytes :: u32
  sl_burst_host_bytes :: u32
  sl_block_samples :: u32
  sl_tx_sampl_c :: u32
  sl_fd :: int
  sl_blk_time_prev :: u64
  sl_lag_remaining :: u64
  sl_outst :: "stream_partial_rx option"
  sl_rcnt :: u64
  sl_overruns :: u64

definition LIMESDR_STREAM_HDR :: u32 where "LIMESDR_STREAM_HDR = 16"
definition LIMESDR_RX :: u32 where "LIMESDR_RX = 0"
definition LIMESDR_TX :: u32 where "LIMESDR_TX = 1"

section \<open>Receive\<close>

text \<open>A conversion from the buffer (its bytes, where they start, how many) to the host, and a zero fill.\<close>

datatype lime_ev =
    LimeTake (tk_buf: "u8 list") (tk_woff: u32) (tk_wbytes: u32) (tk_hoff: u32) (tk_hbytes: u32)
  | LimeZero (z_hoff: u32) (z_bytes: u64)
  | LimeRelease "u8 list"

record lime_pos =
  lp_consumed :: u32
  lp_woff :: u32
  lp_bidx :: u32
  lp_time :: u64
  lp_hoff :: u32
  lp_hrem :: u32
  lp_fsym :: u64

definition buf_time :: "u8 list \<Rightarrow> u32 \<Rightarrow> int + u64" where
  "buf_time buf woff = (if unat woff + 16 > length buf then Inl OUT_OF_BOUNDS else Inr (of_le_bytes (take 8 (drop (unat woff + 8) buf))))"

text \<open>At the start of a burst its header is read; otherwise \<open>burst_symbs\<close> is what is left of it.\<close>

definition lime_header :: "stream_limesdr \<Rightarrow> u8 list \<Rightarrow> lime_pos \<Rightarrow> int + stream_limesdr \<times> lime_pos \<times> u32" where
  "lime_header s buf p =
    (if lp_woff p mod (sl_burst_bytes s + LIMESDR_STREAM_HDR) = 0 then
       (case buf_time buf (lp_woff p) of Inl e \<Rightarrow> Inl e
        | Inr t \<Rightarrow>
           let lag = (if sl_blk_time_prev s = - 1 then 0 else t - ucast (sl_block_samples s) - sl_blk_time_prev s)
           in Inr (s\<lparr>sl_blk_time_prev := t, sl_lag_remaining := lag\<rparr>,
                   p\<lparr>lp_time := t, lp_woff := lp_woff p + LIMESDR_STREAM_HDR, lp_bidx := lp_bidx p + 1\<rparr>, sl_burst_symbs s))
     else Inr (s, p, sl_burst_symbs s - lp_consumed p mod sl_burst_symbs s))"

definition lime_lag :: "u32 \<Rightarrow> stream_limesdr \<Rightarrow> lime_pos \<Rightarrow> int + stream_limesdr \<times> lime_pos \<times> lime_ev list" where
  "lime_lag host_bps s p =
    (let lag = sl_lag_remaining s in
     if lag = 0 then Inr (s, p, [])
     else if lp_hoff p = 0 then
       (if sl_host_pkt_symbs s = 0 then Inl CRASH_FPE
        else let l = lag mod ucast (sl_host_pkt_symbs s) in
          Inr (s\<lparr>sl_overruns := sl_overruns s + lag div ucast (sl_host_pkt_symbs s), sl_lag_remaining := 0\<rparr>,
               p\<lparr>lp_fsym := lp_time p - l, lp_hoff := lp_hoff p + ucast l * host_bps, lp_hrem := lp_hrem p - ucast l\<rparr>,
               [LimeZero (lp_hoff p) (l * ucast host_bps)]))
     else
       let n = (if lag > ucast (lp_hrem p) then lp_hrem p else ucast lag) in
       Inr (s\<lparr>sl_lag_remaining := lag - ucast n\<rparr>, p\<lparr>lp_hoff := lp_hoff p + n * host_bps, lp_hrem := lp_hrem p - n\<rparr>,
            [LimeZero (lp_hoff p) (ucast (n * host_bps))]))"

text \<open>One turn of the loop over a buffer; the flag says that it was left by \<open>break\<close>.\<close>

definition lime_take :: "u32 \<Rightarrow> u32 \<Rightarrow> stream_limesdr \<Rightarrow> u8 list \<Rightarrow> lime_pos \<Rightarrow> u32 \<Rightarrow> int + lime_pos \<times> lime_ev list \<times> bool" where
  "lime_take wire_bps host_bps s buf p burst_symbs =
    (let rest = sl_burst_count s * sl_burst_symbs s - lp_consumed p;
         wire_smpl_rem = (if rest > burst_symbs then burst_symbs else rest);
         n = (if lp_hrem p > wire_smpl_rem then wire_smpl_rem else lp_hrem p)
     in if n = 0 then Inr (p, [], True)
        else if lp_hoff p = 0 \<and> sl_block_samples s = 0 then Inl CRASH_FPE
        else Inr (p\<lparr>lp_fsym := (if lp_hoff p = 0 then lp_time p + ucast (lp_consumed p mod sl_block_samples s) else lp_fsym p),
                    lp_woff := lp_woff p + n * wire_bps, lp_hoff := lp_hoff p + n * host_bps, lp_hrem := lp_hrem p - n,
                    lp_consumed := lp_consumed p + n\<rparr>,
                  [LimeTake buf (lp_woff p) (n * wire_bps) (lp_hoff p) (n * host_bps)], False))"

definition lime_turn :: "u32 \<Rightarrow> u32 \<Rightarrow> stream_limesdr \<Rightarrow> u8 list \<Rightarrow> lime_pos \<Rightarrow> int + stream_limesdr \<times> lime_pos \<times> lime_ev list \<times> bool" where
  "lime_turn wire_bps host_bps s buf p =
    (case lime_header s buf p of Inl e \<Rightarrow> Inl e
     | Inr (s1, p1, bs) \<Rightarrow>
        (case lime_lag host_bps s1 p1 of Inl e \<Rightarrow> Inl e
         | Inr (s2, p2, ev1) \<Rightarrow>
            (case lime_take wire_bps host_bps s2 buf p2 bs of Inl e \<Rightarrow> Inl e
             | Inr (p3, ev2, brk) \<Rightarrow> Inr (s2, p3, ev1 @ ev2, brk))))"

partial_function (option) lime_buffer ::
  "u32 \<Rightarrow> u32 \<Rightarrow> stream_limesdr \<Rightarrow> u8 list \<Rightarrow> lime_pos \<Rightarrow> (int + stream_limesdr \<times> lime_pos \<times> lime_ev list) option" where
  "lime_buffer wire_bps host_bps s buf p =
    (case lime_turn wire_bps host_bps s buf p of Inl e \<Rightarrow> Some (Inl e)
     | Inr (s1, p1, ev, brk) \<Rightarrow>
        if brk \<or> lp_hrem p1 = 0 \<or> lp_consumed p1 = sl_burst_count s1 * sl_burst_symbs s1 then Some (Inr (s1, p1, ev))
        else Option.bind (lime_buffer wire_bps host_bps s1 buf p1) (\<lambda>r.
          case r of Inl e \<Rightarrow> Some (Inl e) | Inr (s2, p2, ev') \<Rightarrow> Some (Inr (s2, p2, ev @ ev'))))"

text \<open>The driver: result and buffer of the \<open>k\<close>-th wait, and the result of a release.\<close>

type_synonym lime_dma = "(nat \<Rightarrow> int \<times> u8 list) \<times> (u8 list \<Rightarrow> int)"

text \<open>One turn of the outer loop: the buffer kept from the last call, or the next one.\<close>

definition lime_fetch :: "lime_dma \<Rightarrow> nat \<Rightarrow> stream_limesdr \<Rightarrow> lime_pos \<Rightarrow> int + u8 list \<times> stream_limesdr \<times> lime_pos \<times> nat" where
  "lime_fetch dma k s p =
    (case sl_outst s of
       Some ou \<Rightarrow> Inr (pr_dma_buf ou, s, p\<lparr>lp_consumed := pr_wire_cons_smpl ou, lp_time := sl_blk_time_prev s,
          lp_woff := pr_wire_cons_bytes ou, lp_bidx := pr_wire_bidx ou\<rparr>, k)
     | None \<Rightarrow> (case fst dma k of (res, buf) \<Rightarrow>
         if res < 0 then Inl res
         else Inr (buf, s\<lparr>sl_rcnt := sl_rcnt s + 1\<rparr>, p\<lparr>lp_consumed := 0, lp_woff := 0, lp_bidx := - 1\<rparr>, k + 1)))"

text \<open>After the loop over a buffer: it is given back when it is used up; a failed release ends the call.\<close>

definition lime_keep :: "lime_dma \<Rightarrow> stream_limesdr \<Rightarrow> u8 list \<Rightarrow> lime_pos \<Rightarrow> int \<times> stream_limesdr \<times> lime_ev list" where
  "lime_keep dma s buf p =
    (if lp_consumed p = sl_burst_count s * sl_burst_symbs s
     then (snd dma buf, s\<lparr>sl_outst := None\<rparr>, [LimeRelease buf])
     else (0, s\<lparr>sl_outst := Some \<lparr>pr_dma_buf = buf, pr_wire_cons_smpl = lp_consumed p, pr_wire_cons_bytes = lp_woff p,
                                  pr_wire_bidx = lp_bidx p\<rparr>\<rparr>, []))"

partial_function (option) lime_packet ::
  "u32 \<Rightarrow> u32 \<Rightarrow> lime_dma \<Rightarrow> nat \<Rightarrow> stream_limesdr \<Rightarrow> lime_pos \<Rightarrow> (int \<times> stream_limesdr \<times> lime_pos \<times> lime_ev list) option" where
  "lime_packet wire_bps host_bps dma k s p =
    (case lime_fetch dma k s p of Inl e \<Rightarrow> Some (e, s, p, [])
     | Inr (buf, s1, p1, k1) \<Rightarrow>
        Option.bind (lime_buffer wire_bps host_bps s1 buf p1) (\<lambda>r.
         case r of Inl e \<Rightarrow> Some (e, s1, p1, [])
         | Inr (s2, p2, ev) \<Rightarrow>
            (case lime_keep dma s2 buf p2 of (res, s3, ev') \<Rightarrow>
              if res \<noteq> 0 then Some (res, s3, p2, ev @ ev')
              else if lp_hrem p2 = 0 then Some (0, s3, p2, ev @ ev')
              else Option.bind (lime_packet wire_bps host_bps dma k1 s3 p2) (\<lambda>(res, s4, p3, ev''). Some (res, s4, p3, ev @ ev' @ ev'')))))"

text \<open>The information of the packet: symbols and the time of the first.\<close>

definition limestr_stream_recv :: "lime_dma \<Rightarrow> stream_limesdr \<Rightarrow> (int \<times> (u32 \<times> u64) \<times> stream_limesdr \<times> lime_ev list) option" where
  "limestr_stream_recv dma s =
    (if sl_burst_symbs s = 0 then Some (CRASH_FPE, (0, 0), s, [])
     else
       Option.bind (lime_packet (sl_burst_bytes s div sl_burst_symbs s) (sl_burst_host_bytes s div sl_burst_symbs s) dma 0 s
         \<lparr>lp_consumed = 0, lp_woff = 0, lp_bidx = 0, lp_time = 0, lp_hoff = 0, lp_hrem = sl_host_pkt_symbs s, lp_fsym = - 1\<rparr>)
        (\<lambda>(res, s', p, ev). Some (res, (sl_host_pkt_symbs s - lp_hrem p, lp_fsym p), s', ev)))"

section \<open>Send\<close>

text \<open>What is written to the buffer: the header of a burst, and the conversion of its samples.\<close>

datatype lime_out =
    LimeHdr (h_off: u32) (h_bytes: "u8 list")
  | LimePut (p_hoff: u32) (p_hbytes: u32) (p_woff: u32) (p_wbytes: u32)

definition lime_hdr :: "u64 \<Rightarrow> u32 \<Rightarrow> u64 \<Rightarrow> u8 list" where
  "lime_hdr timestamp wire_proc_bytes ts =
    [if sint timestamp < 0 then 16 else 0, ucast (wire_proc_bytes AND 0xff), ucast (drop_bit 8 wire_proc_bytes AND 0xff), 0, 0, 0, 0, 0]
    @ le_bytes 8 ts"

partial_function (option) lime_bursts :: "stream_limesdr \<Rightarrow> u32 \<Rightarrow> u32 \<Rightarrow> u64 \<Rightarrow> u32 \<Rightarrow> u32 \<Rightarrow> u32 \<Rightarrow> u32 \<Rightarrow> (u32 \<times> lime_out list) option" where
  "lime_bursts st wire_bps host_bps timestamp samples s hoff woff =
    (if \<not> s < samples then Some (woff, [])
     else
       let n = (if samples - s > sl_block_samples st then sl_block_samples st else samples - s) in
       Option.bind (lime_bursts st wire_bps host_bps timestamp samples (s + sl_block_samples st) (hoff + n * host_bps)
          (woff + n * wire_bps + LIMESDR_STREAM_HDR))
        (\<lambda>(w, evs). Some (w, LimeHdr woff (lime_hdr timestamp (n * wire_bps) (timestamp + ucast s))
            # LimePut hoff (n * host_bps) (woff + LIMESDR_STREAM_HDR) (n * wire_bps) # evs)))"

text \<open>\<open>get\<close> and \<open>commit\<close> are the driver; the result, what was written and what is committed, with its time.\<close>

definition limestr_stream_send ::
  "int \<Rightarrow> (u32 \<Rightarrow> u64 \<Rightarrow> int) \<Rightarrow> stream_limesdr \<Rightarrow> u32 \<Rightarrow> u64 \<Rightarrow> (int \<times> stream_limesdr \<times> lime_out list) option" where
  "limestr_stream_send get commit s samples timestamp =
    (if sl_burst_symbs s = 0 then Some (CRASH_FPE, s, [])
     else if sl_burst_count s * sl_burst_symbs s < samples then Some (- EINVAL, s, [])
     else if sl_tx_sampl_c s = 0 then Some (CRASH_FPE, s, [])
     else if samples mod sl_tx_sampl_c s \<noteq> 0 then Some (- EINVAL, s, [])
     else if get < 0 then Some (get, s, [])
     else Option.bind (lime_bursts s (sl_burst_bytes s div sl_burst_symbs s) (sl_burst_host_bytes s div sl_burst_symbs s) timestamp samples 0 0 0)
       (\<lambda>(woff, evs). Some (commit woff timestamp, s\<lparr>sl_rcnt := sl_rcnt s + 1\<rparr>, evs)))"

section \<open>The other operations\<close>

definition limestr_stream_op :: "u32 \<Rightarrow> u64 \<Rightarrow> stream_limesdr \<Rightarrow> int" where
  "limestr_stream_op command tm s = 0"

definition limestr_stream_get :: "string \<Rightarrow> stream_limesdr \<Rightarrow> int + int" where
  "limestr_stream_get name s = (if name = ''fd'' then Inr (sl_fd s) else Inl (- EINVAL))"

definition limestr_stream_set :: "string \<Rightarrow> int \<Rightarrow> stream_limesdr \<Rightarrow> int" where
  "limestr_stream_set name v s = - EINVAL"

definition limestr_stream_stat :: "stream_limesdr \<Rightarrow> int + dms_nfo" where
  "limestr_stream_stat s =
    (if sl_burst_symbs s = 0 then Inl CRASH_FPE
     else Inr \<lparr>dn_rx = (sl_ll_streamo s = LIMESDR_RX), dn_channels = 1,
       dn_pktbszie = sl_host_pkt_symbs s * (sl_burst_host_bytes s div sl_burst_symbs s),
       dn_pktsyms = sl_host_pkt_symbs s, dn_burst_count = sl_burst_count s\<rparr>)"

section \<open>Creation\<close>

text \<open>The wire format: its name and its bits per sample of an I/Q pair; \<open>&\<close> allows a format that is not complex.\<close>

definition lime_format :: "string \<Rightarrow> int + string \<times> u32" where
  "lime_format f =
    (let cflat = fmt_raw f; sfmt = (if cflat then tl f else f); bfmt = get_bits_fmt sfmt in
     if \<not> bf_complex bfmt \<and> \<not> cflat then Inl (- EINVAL)
     else if bf_bits bfmt = 0 then Inr (''ci16'', 32)
     else if bf_bits bfmt = 12 \<or> bf_bits bfmt = 16 then Inr (sfmt, ucast (bf_bits bfmt) * 2)
     else Inl (- EINVAL))"

text \<open>Symbols and bursts of a packet, and the granularity of a transmission.\<close>

definition lime_packet_size :: "bool \<Rightarrow> u32 \<Rightarrow> u32 \<Rightarrow> u32 \<Rightarrow> int + u32 \<times> u32 \<times> u32" where
  "lime_packet_size rx wire_sample_size burst_smpl pktsyms =
    (if rx then
       Inr (pktsyms, if pktsyms mod burst_smpl \<noteq> 0 then 2 * pktsyms div burst_smpl div 5 else pktsyms div burst_smpl, 0)
     else
       let pkt = (if pktsyms = 0 then 32 * 1020 else pktsyms);
           pkt = (if pkt < 4096 then 4096 else pkt);
           c = (if wire_sample_size = 24 then 16 else 4)
       in if pkt mod c \<noteq> 0 then Inl (- EINVAL) else Inr (pkt, (pkt + burst_smpl - 1) div burst_smpl, c))"

definition create_limesdr_stream :: "(stream_params \<Rightarrow> stream_init) \<Rightarrow> u32 \<Rightarrow> string \<Rightarrow> u32 \<Rightarrow> u32 \<Rightarrow> int + stream_limesdr" where
  "create_limesdr_stream ll core_id dformat pktsyms flags =
    (if length dformat \<ge> 256 then Inl OUT_OF_BOUNDS
     else let pfmt = stream_parse_dformat dformat; rx = (core_id = LIMESDR_RX) in
     case (fmt_select pfmt, host_fmt pfmt) of
       (Some f, Some host) \<Rightarrow>
         (case lime_format f of Inl e \<Rightarrow> Inl e
          | Inr (sfmt, wire_sample_size) \<Rightarrow>
             (case (if rx then get_transform_fn sfmt host 1 1 else get_transform_fn host sfmt 1 1) of None \<Rightarrow> Inl (- EINVAL)
              | Some funcs \<Rightarrow>
                 let burst_smpl = (4096 - LIMESDR_STREAM_HDR) * 8 div wire_sample_size in
                 (case lime_packet_size rx wire_sample_size burst_smpl pktsyms of Inl e \<Rightarrow> Inl e
                  | Inr (pkt, bc, c) \<Rightarrow>
                     let burst_count = (if bc = 0 then 1 else bc);
                         ans = ll \<lparr>sp_streamno = core_id, sp_flags = (if flags AND DMS_FLAG_NEED_FD = DMS_FLAG_NEED_FD then LLSF_NEED_FDPOLL else 0),
                           sp_block_size = 4096 * burst_count, sp_buffer_count = 16, sp_channels = 0, sp_bits_per_sym = 0,
                           sp_dma_core_id = 0, sp_out_max_bursts = 0\<rparr>;
                         burst_bytes = 4096 - LIMESDR_STREAM_HDR
                     in if si_res ans \<noteq> 0 then Inl (si_res ans)
                        else Inr \<lparr>sl_host_pkt_symbs = pkt, sl_tf = funcs, sl_ll_streamo = si_sid ans, sl_burst_count = burst_count,
                          sl_burst_symbs = burst_bytes * 8 div wire_sample_size, sl_burst_bytes = burst_bytes,
                          sl_burst_host_bytes = snd funcs burst_bytes (\<not> rx), sl_block_samples = burst_smpl, sl_tx_sampl_c = c,
                          sl_fd = si_fd ans, sl_blk_time_prev = - 1, sl_lag_remaining = 0, sl_outst = None, sl_rcnt = 0, sl_overruns = 0\<rparr>)))
     | _ \<Rightarrow> Inl OUT_OF_BOUNDS)"

section \<open>Lemmas on widths\<close>

lemma of_nat_cases32:
  assumes "x < 2 ^ 32" "y < 2 ^ 32"
  shows "(of_nat x :: u32) = of_nat y \<longleftrightarrow> x = y" "(of_nat x :: u32) < of_nat y \<longleftrightarrow> x < y"
    "(of_nat x :: u32) mod of_nat y = of_nat (x mod y)" "(of_nat x :: u32) div of_nat y = of_nat (x div y)"
    "y \<le> x \<Longrightarrow> (of_nat x :: u32) - of_nat y = of_nat (x - y)"
proof -
  note u = unat_of_nat32 [OF assms(1)] unat_of_nat32 [OF assms(2)]
  show "(of_nat x :: u32) = of_nat y \<longleftrightarrow> x = y" using u by metis
  show "(of_nat x :: u32) < of_nat y \<longleftrightarrow> x < y" by (simp add: word_less_nat_alt u)
  have "x mod y < 2 ^ 32" "x div y < 2 ^ 32" using assms(1) by (meson div_le_dividend le_less_trans mod_less_eq_dividend)+
  then show "(of_nat x :: u32) mod of_nat y = of_nat (x mod y)" "(of_nat x :: u32) div of_nat y = of_nat (x div y)"
    by (simp_all add: word_unat_eq_iff unat_mod_distrib unat_div_distrib u unat_of_nat32)
  show "y \<le> x \<Longrightarrow> (of_nat x :: u32) - of_nat y = of_nat (x - y)" by (simp add: of_nat_diff)
qed

lemma min_of_nat32: "x < 2 ^ 32 \<Longrightarrow> y < 2 ^ 32 \<Longrightarrow> (if (of_nat x :: u32) > of_nat y then of_nat y else of_nat x) = (of_nat (min x y) :: u32)"
  by (simp only: of_nat_cases32(2)) (simp add: min_def)

lemma ucast_of_nat64: "x < 2 ^ 32 \<Longrightarrow> ucast (of_nat x :: u32) = (of_nat x :: u64)"
  by (simp add: word_unat_eq_iff unat_of_nat32 unat_of_nat64)

section \<open>Time in a packet\<close>

text \<open>The time in the header of burst \<open>b\<close>; a buffer of the driver has room for all bursts, and no time is \<open>-1\<close>.\<close>

definition burst_time :: "u8 list \<Rightarrow> nat \<Rightarrow> u64" where
  "burst_time buf b = of_le_bytes (take 8 (drop (b * 4096 + 8) buf))"

definition buf_ok :: "nat \<Rightarrow> u8 list \<Rightarrow> bool" where
  "buf_ok bc buf \<longleftrightarrow> length buf = bc * 4096 \<and> (\<forall>b<bc. burst_time buf b \<noteq> - 1)"

text \<open>The configuration in natural numbers: symbols in a burst, bytes per symbol on wire and host, bursts, symbols in a packet.\<close>

record lime_cfg =
  bs :: nat
  wb :: nat
  hb :: nat
  bc :: nat
  hp :: nat

definition cfg_ok :: "lime_cfg \<Rightarrow> stream_limesdr \<Rightarrow> bool" where
  "cfg_ok c s \<longleftrightarrow> sl_burst_symbs s = of_nat (bs c) \<and> sl_block_samples s = of_nat (bs c) \<and> sl_burst_bytes s = 4080 \<and>
     bs c * wb c = 4080 \<and> sl_burst_host_bytes s div sl_burst_symbs s = of_nat (hb c) \<and> 0 < hb c \<and>
     sl_burst_count s = of_nat (bc c) \<and> 0 < bc c \<and> bc c * 4096 < 2 ^ 32 \<and>
     sl_host_pkt_symbs s = of_nat (hp c) \<and> 0 < hp c \<and> hp c * hb c < 2 ^ 32"

lemma cfg_ok_updates [simp]:
  "cfg_ok c (s\<lparr>sl_overruns := x\<rparr>) = cfg_ok c s" "cfg_ok c (s\<lparr>sl_lag_remaining := y\<rparr>) = cfg_ok c s"
  "cfg_ok c (s\<lparr>sl_blk_time_prev := y\<rparr>) = cfg_ok c s" "cfg_ok c (s\<lparr>sl_outst := z\<rparr>) = cfg_ok c s" "cfg_ok c (s\<lparr>sl_rcnt := x\<rparr>) = cfg_ok c s"
  by (simp_all add: cfg_ok_def)

text \<open>What an event does to the host packet of which \<open>fsym\<close> is the time of the first sample.\<close>

fun ev_aligned :: "lime_cfg \<Rightarrow> u64 \<Rightarrow> lime_ev \<Rightarrow> bool" where
  "ev_aligned c fsym (LimeTake buf woff wn hoff hn) \<longleftrightarrow> (\<exists>b i n h. b < bc c \<and> i + n \<le> bs c \<and>
     unat woff = b * 4096 + 16 + i * wb c \<and> unat wn = n * wb c \<and> unat hoff = h * hb c \<and> unat hn = n * hb c \<and>
     burst_time buf b + of_nat i = fsym + of_nat h)"
| "ev_aligned c fsym (LimeZero hoff n) \<longleftrightarrow> True"
| "ev_aligned c fsym (LimeRelease buf) \<longleftrightarrow> True"

fun ev_span :: "lime_ev \<Rightarrow> (nat \<times> nat) list" where
  "ev_span (LimeTake buf woff wn hoff hn) = [(unat hoff, unat hn)]"
| "ev_span (LimeZero hoff n) = (if n = 0 then [] else [(unat hoff, unat n)])"
| "ev_span (LimeRelease buf) = []"

text \<open>Where the loop stands in a buffer, with \<open>h\<close> symbols in the host packet: before the header of burst \<open>b\<close>, or
  in it after \<open>i\<close> symbols, or after the last.\<close>

definition at_header :: "lime_cfg \<Rightarrow> nat \<Rightarrow> nat \<Rightarrow> stream_limesdr \<Rightarrow> lime_pos \<Rightarrow> bool" where
  "at_header c b h s p \<longleftrightarrow> b \<le> bc c \<and> h \<le> hp c \<and> lp_consumed p = of_nat (b * bs c) \<and> lp_woff p = of_nat (b * 4096) \<and>
     lp_hoff p = of_nat (h * hb c) \<and> lp_hrem p = of_nat (hp c - h) \<and>
     (h \<noteq> 0 \<longrightarrow> sl_blk_time_prev s \<noteq> - 1 \<and> lp_fsym p + of_nat h = sl_blk_time_prev s + of_nat (bs c))"

definition in_burst :: "lime_cfg \<Rightarrow> u8 list \<Rightarrow> nat \<Rightarrow> nat \<Rightarrow> nat \<Rightarrow> stream_limesdr \<Rightarrow> lime_pos \<Rightarrow> bool" where
  "in_burst c buf b i h s p \<longleftrightarrow> b < bc c \<and> i < bs c \<and> h \<le> hp c \<and> lp_consumed p = of_nat (b * bs c + i) \<and>
     lp_woff p = of_nat (b * 4096 + 16 + i * wb c) \<and> lp_hoff p = of_nat (h * hb c) \<and> lp_hrem p = of_nat (hp c - h) \<and>
     lp_time p = burst_time buf b \<and> sl_blk_time_prev s = lp_time p \<and> (sl_lag_remaining s \<noteq> 0 \<longrightarrow> i = 0) \<and>
     (h \<noteq> 0 \<longrightarrow> lp_fsym p + of_nat h + sl_lag_remaining s = lp_time p + of_nat i)"

lemma cfg_bounds:
  assumes "cfg_ok c s"
  shows "0 < bs c" "bs c \<le> 4080" "0 < wb c" "b \<le> bc c \<Longrightarrow> b * 4096 < 2 ^ 32" "b \<le> bc c \<Longrightarrow> b * bs c < 2 ^ 32"
    "h \<le> hp c \<Longrightarrow> h * hb c < 2 ^ 32" "hp c < 2 ^ 32"
proof -
  have e: "bs c * wb c = 4080" "bc c * 4096 < 2 ^ 32" "hp c * hb c < 2 ^ 32" "0 < hb c" using assms by (auto simp: cfg_ok_def)
  show 1: "0 < bs c" "0 < wb c" using e(1) by (metis mult_is_0 neq0_conv zero_neq_numeral)+
  show 2: "bs c \<le> 4080" using e(1) 1(2) by (metis dvd_imp_le dvd_triv_left zero_less_numeral)
  show 3: "b \<le> bc c \<Longrightarrow> b * 4096 < 2 ^ 32" using e(2) by linarith
  show "b \<le> bc c \<Longrightarrow> b * bs c < 2 ^ 32" using mult_le_mono [of b b "bs c" 4096] 2 3 by linarith
  show "h \<le> hp c \<Longrightarrow> h * hb c < 2 ^ 32" using e(3) by (meson le_less_trans mult_le_mono1)
  show "hp c < 2 ^ 32" using e(3,4) by (metis One_nat_def Suc_leI le_less_trans mult.right_neutral mult_le_mono2)
qed

lemma header_reads:
  assumes "cfg_ok c s" and "buf_ok (bc c) buf" and "at_header c b h s p" and "b < bc c"
  shows "\<exists>s1 p1. lime_header s buf p = Inr (s1, p1, of_nat (bs c)) \<and> cfg_ok c s1 \<and> in_burst c buf b 0 h s1 p1 \<and> sl_outst s1 = sl_outst s \<and>
    lp_fsym p1 = lp_fsym p"
proof -
  note bd = cfg_bounds [OF assms(1)]
  have b: "b * 4096 < 2 ^ 32" "b * 4096 + 4096 \<le> bc c * 4096" using bd(4) assms(4) by (auto simp: algebra_simps)
  have w: "lp_woff p = of_nat (b * 4096)" and u: "unat (lp_woff p) = b * 4096"
    using assms(3) b(1) by (auto simp only: at_header_def unat_of_nat32)
  have m: "lp_woff p mod (sl_burst_bytes s + LIMESDR_STREAM_HDR) = 0"
    using of_nat_cases32(3) [of "b * 4096" 4096] b(1) assms(1) by (simp add: w cfg_ok_def LIMESDR_STREAM_HDR_def)
  have t: "buf_time buf (lp_woff p) = Inr (burst_time buf b)"
    using assms(2,4) b by (simp add: buf_time_def buf_ok_def burst_time_def u)
  show ?thesis
    using assms bd(1) m t ucast_of_nat64 [OF order_le_less_trans [OF bd(2)]]
    by (auto simp: lime_header_def Let_def in_burst_def at_header_def cfg_ok_def w LIMESDR_STREAM_HDR_def ucast_of_nat64 buf_ok_def algebra_simps)
qed

lemma in_burst_bits:
  assumes "cfg_ok c s" and "in_burst c buf b i h s p"
  shows "lp_hoff p = 0 \<longleftrightarrow> h = 0" "lp_hrem p = 0 \<longleftrightarrow> h = hp c" "unat (lp_hoff p) = h * hb c" "unat (lp_hrem p) = hp c - h"
    "unat (lp_woff p) = b * 4096 + 16 + i * wb c" "unat (lp_consumed p) = b * bs c + i"
    "b * 4096 + 16 + i * wb c < 2 ^ 32" "b * bs c + bs c \<le> bc c * bs c" "i * wb c + wb c \<le> 4080"
proof -
  note bd = cfg_bounds [OF assms(1)]
  have e: "b < bc c" "i < bs c" "h \<le> hp c" "bs c * wb c = 4080" "0 < hb c" using assms by (auto simp: in_burst_def cfg_ok_def)
  show iw: "i * wb c + wb c \<le> 4080" using mult_le_mono1 [of "Suc i" "bs c" "wb c"] e(2,4) by simp
  have b1: "Suc b * 4096 < 2 ^ 32" "Suc b * bs c < 2 ^ 32" "Suc b * bs c \<le> bc c * bs c"
    using bd(4) [of "Suc b"] bd(5) [of "Suc b"] e(1) mult_le_mono1 [of "Suc b" "bc c" "bs c"] by auto
  show w: "b * 4096 + 16 + i * wb c < 2 ^ 32" using iw b1(1) bd(3) by simp
  show "b * bs c + bs c \<le> bc c * bs c" using b1(3) by simp
  have hh: "h * hb c < 2 ^ 32" "hp c - h < 2 ^ 32" using bd(6,7) e(3) by auto
  have o: "lp_hoff p = of_nat (h * hb c)" "lp_hrem p = of_nat (hp c - h)" "lp_woff p = of_nat (b * 4096 + 16 + i * wb c)"
    "lp_consumed p = of_nat (b * bs c + i)" using assms(2) by (simp_all only: in_burst_def)
  show u: "unat (lp_hoff p) = h * hb c" "unat (lp_hrem p) = hp c - h" "unat (lp_woff p) = b * 4096 + 16 + i * wb c"
    unfolding o using hh w by (simp_all only: unat_of_nat32)
  have "b * bs c + i < 2 ^ 32" using b1(2) e(2) by simp
  then show "unat (lp_consumed p) = b * bs c + i" unfolding o by (simp only: unat_of_nat32)
  show "lp_hoff p = 0 \<longleftrightarrow> h = 0" "lp_hrem p = 0 \<longleftrightarrow> h = hp c"
    using u(1,2) e(3,5) by (auto simp: unat_eq_0 [symmetric])
qed

text \<open>A stretch of the loop that takes the host packet from \<open>h\<close> to \<open>h1\<close> symbols.\<close>

definition fills :: "lime_cfg \<Rightarrow> nat \<Rightarrow> nat \<Rightarrow> lime_pos \<Rightarrow> lime_pos \<Rightarrow> lime_ev list \<Rightarrow> bool" where
  "fills c h h1 p p1 ev \<longleftrightarrow> h \<le> h1 \<and> tiles (h * hb c) (h1 * hb c) (concat (map ev_span ev)) \<and>
     (h \<noteq> 0 \<longrightarrow> lp_fsym p1 = lp_fsym p) \<and> (\<forall>e\<in>set ev. ev_aligned c (lp_fsym p1) e)"

lemma fills_none: "fills c h h p p []"
  by (simp add: fills_def)

lemma fills_trans:
  assumes "fills c h h1 p p1 ev" and "fills c h1 h2 p1 p2 ev'" and "h1 = 0 \<Longrightarrow> \<forall>e\<in>set ev. \<forall>f. ev_aligned c f e"
  shows "fills c h h2 p p2 (ev @ ev')"
  using assms tiles_append by (fastforce simp: fills_def)

lemma lag_fills:
  assumes cfg: "cfg_ok c s" and at: "in_burst c buf b i h s p" and h: "h < hp c"
  shows "\<exists>s1 p1 ev h1. lime_lag (of_nat (hb c)) s p = Inr (s1, p1, ev) \<and> cfg_ok c s1 \<and> in_burst c buf b i h1 s1 p1 \<and>
    fills c h h1 p p1 ev \<and> (\<forall>e\<in>set ev. \<forall>f. ev_aligned c f e) \<and> (h1 < hp c \<longrightarrow> sl_lag_remaining s1 = 0) \<and> sl_outst s1 = sl_outst s"
proof -
  note bits = in_burst_bits [OF cfg at] and bd = cfg_bounds [OF cfg]
  have hp: "sl_host_pkt_symbs s = of_nat (hp c)" "unat (sl_host_pkt_symbs s) = hp c" "hp c * hb c < 2 ^ 32"
    using cfg bd(7) by (simp_all add: cfg_ok_def unat_of_nat32)
  have hbs: "hb c < 2 ^ 32" using bd(6) [of 1] h by simp
  consider "sl_lag_remaining s = 0" | "sl_lag_remaining s \<noteq> 0" "h = 0" | "sl_lag_remaining s \<noteq> 0" "h \<noteq> 0" by blast
  then show ?thesis
  proof cases
    case 1
    then show ?thesis using cfg at fills_none [of c h p]
      by (intro exI [of _ s] exI [of _ p] exI [of _ "[]"] exI [of _ h]) (simp add: lime_lag_def)
  next
    case 2
    define l where "l = sl_lag_remaining s mod ucast (sl_host_pkt_symbs s)"
    define k where "k = unat l"
    have k: "k < hp c" using h by (simp add: k_def l_def unat_mod_distrib hp(2))
    have l: "l = of_nat k" "(ucast l :: u32) = of_nat k" by (simp_all add: k_def word_unat_eq_iff unsigned_ucast_eq unsigned_of_nat)
    have kb: "k * hb c < 2 ^ 32" using bd(6) k by simp
    have z: "unat (l * ucast (of_nat (hb c) :: u32)) = k * hb c"
    proof -
      have "l * ucast (of_nat (hb c) :: u32) = of_nat (k * hb c)" using hbs by (simp add: l(1) ucast_of_nat64)
      moreover have "unat (of_nat (k * hb c) :: u64) = k * hb c" using kb by (intro unat_of_nat64) simp
      ultimately show ?thesis by (simp only:)
    qed
    let ?s = "s\<lparr>sl_overruns := sl_overruns s + sl_lag_remaining s div ucast (sl_host_pkt_symbs s), sl_lag_remaining := 0\<rparr>"
    let ?p = "p\<lparr>lp_fsym := lp_time p - l, lp_hoff := lp_hoff p + of_nat k * of_nat (hb c), lp_hrem := lp_hrem p - of_nat k\<rparr>"
    have "lime_lag (of_nat (hb c)) s p = Inr (?s, ?p, [LimeZero (lp_hoff p) (l * ucast (of_nat (hb c) :: u32))])"
      using 2 h bits(1) hp(2) by (simp add: lime_lag_def Let_def l_def [symmetric] l(2) unat_eq_0 [symmetric])
    moreover have "cfg_ok c ?s" using cfg by simp
    moreover have "in_burst c buf b i k ?s ?p"
      using at 2 k by (simp add: in_burst_def l(1) of_nat_diff)
    moreover have "fills c h k p ?p [LimeZero (lp_hoff p) (l * ucast (of_nat (hb c) :: u32))]"
      using 2 z bits(3) by (auto simp: fills_def unat_eq_0 [symmetric])
    ultimately show ?thesis by (intro exI conjI) (assumption | simp)+
  next
    case 3
    define n where "n = (if sl_lag_remaining s > ucast (lp_hrem p) then lp_hrem p else ucast (sl_lag_remaining s))"
    define k where "k = unat n"
    have i: "i = 0" and t: "lp_fsym p + of_nat h + sl_lag_remaining s = lp_time p" using at 3 by (auto simp: in_burst_def)
    have un: "ucast n = (if sl_lag_remaining s > ucast (lp_hrem p) then ucast (lp_hrem p) else sl_lag_remaining s)"
    proof -
      have "\<not> sl_lag_remaining s > ucast (lp_hrem p) \<Longrightarrow> unat (sl_lag_remaining s) < 2 ^ 32"
        using unsigned_less [of "lp_hrem p", where ?'a = nat] by (simp add: word_less_nat_alt)
      then have "\<not> sl_lag_remaining s > ucast (lp_hrem p) \<Longrightarrow> ucast (ucast (sl_lag_remaining s) :: u32) = sl_lag_remaining s"
        using take_bit_fits [of "sl_lag_remaining s" 32] by (simp add: word_unat_eq_iff unsigned_ucast_eq)
      then show ?thesis by (simp add: n_def)
    qed
    have nk: "n = of_nat k" by (simp add: k_def)
    have nk64: "ucast n = (of_nat k :: u64)" unfolding k_def by (simp only: of_nat_unat)
    then have "k \<le> hp c - h \<and> 0 < k \<and> (k < hp c - h \<longrightarrow> sl_lag_remaining s = ucast n)"
    proof (cases "sl_lag_remaining s > ucast (lp_hrem p)")
      case True
      then have "k = hp c - h" using bits(4) by (simp add: k_def n_def)
      then show ?thesis using h by simp
    next
      case False
      then have e: "sl_lag_remaining s = ucast n" using un by simp
      then have "unat n \<le> unat (lp_hrem p)" using False by (simp add: word_less_nat_alt)
      moreover have "unat n \<noteq> 0" using e 3(1) by (auto simp: unat_eq_0)
      ultimately show ?thesis using e bits(4) by (simp add: k_def)
    qed
    then have k: "k \<le> hp c - h" "0 < k" "k < hp c - h \<Longrightarrow> sl_lag_remaining s = ucast n" by blast+
    have kb: "k * hb c < 2 ^ 32" using bd(6) [of k] k(1) by simp
    have z: "unat (ucast (n * of_nat (hb c)) :: u64) = k * hb c"
    proof -
      have "n * of_nat (hb c) = of_nat (k * hb c)" by (simp add: nk)
      moreover have "unat (of_nat (k * hb c) :: u32) = k * hb c" using kb by (rule unat_of_nat32)
      ultimately show ?thesis by (simp only: unat_ucast_up len_num1 len_bit0 len_bit1)
    qed
    let ?s = "s\<lparr>sl_lag_remaining := sl_lag_remaining s - ucast n\<rparr>"
    let ?p = "p\<lparr>lp_hoff := lp_hoff p + n * of_nat (hb c), lp_hrem := lp_hrem p - n\<rparr>"
    have "lime_lag (of_nat (hb c)) s p = Inr (?s, ?p, [LimeZero (lp_hoff p) (ucast (n * of_nat (hb c)))])"
      using 3 bits(1) by (simp add: lime_lag_def Let_def n_def [symmetric])
    moreover have "cfg_ok c ?s" using cfg by simp
    moreover have "in_burst c buf b i (h + k) ?s ?p"
      using at i t k(1) h by (simp add: in_burst_def nk nk64 [symmetric] of_nat_diff algebra_simps)
    moreover have "fills c h (h + k) p ?p [LimeZero (lp_hoff p) (ucast (n * of_nat (hb c)))]"
      using 3 z bits(3) k(2) cfg by (auto simp: fills_def cfg_ok_def algebra_simps unat_eq_0 [symmetric])
    moreover have "h + k < hp c \<Longrightarrow> sl_lag_remaining ?s = 0" using k(3) by simp
    ultimately show ?thesis by (intro exI conjI) (assumption | simp)+
  qed
qed


lemma take_fills:
  assumes cfg: "cfg_ok c s" and ok: "buf_ok (bc c) buf" and at: "in_burst c buf b i h s p" and lag: "h < hp c \<Longrightarrow> sl_lag_remaining s = 0"
  shows "\<exists>p1 ev n. lime_take (of_nat (wb c)) (of_nat (hb c)) s buf p (of_nat (bs c - i)) = Inr (p1, ev, h = hp c) \<and>
    fills c h (h + n) p p1 ev \<and> (h < hp c \<longrightarrow> 0 < n) \<and>
    (if i + n = bs c then at_header c (b + 1) (h + n) s p1 else in_burst c buf b (i + n) (h + n) s p1)"
proof -
  note bits = in_burst_bits [OF cfg at] and bd = cfg_bounds [OF cfg]
  have e: "b < bc c" "i < bs c" "h \<le> hp c" "bs c * wb c = 4080" "0 < hb c" using cfg at by (auto simp: in_burst_def cfg_ok_def)
  have o: "lp_hoff p = of_nat (h * hb c)" "lp_hrem p = of_nat (hp c - h)" "lp_woff p = of_nat (b * 4096 + 16 + i * wb c)"
    "lp_consumed p = of_nat (b * bs c + i)" "sl_burst_count s * sl_burst_symbs s = of_nat (bc c * bs c)"
    "sl_block_samples s = of_nat (bs c)" using at cfg by (simp_all only: in_burst_def cfg_ok_def of_nat_mult)
  define n where "n = min (hp c - h) (bs c - i)"
  have n: "n \<le> hp c - h" "i + n \<le> bs c" "h + n \<le> hp c" using e by (auto simp: n_def)
  have sm: "bc c * bs c < 2 ^ 32" "b * bs c + i \<le> bc c * bs c" "bs c < 2 ^ 32" "hp c - h < 2 ^ 32"
    using bd(2,5,7) bits(8) e by auto
  have rest: "sl_burst_count s * sl_burst_symbs s - lp_consumed p = of_nat (bc c * bs c - (b * bs c + i))"
    unfolding o using sm by (intro of_nat_cases32(5)) auto
  have w: "(if sl_burst_count s * sl_burst_symbs s - lp_consumed p > of_nat (bs c - i) then of_nat (bs c - i)
      else sl_burst_count s * sl_burst_symbs s - lp_consumed p) = (of_nat (bs c - i) :: u32)"
  proof -
    have "min (bc c * bs c - (b * bs c + i)) (bs c - i) = bs c - i" using bits(8) e(2) by simp
    then show ?thesis unfolding rest using sm by (subst min_of_nat32) (simp_all only: less_imp_diff_less)
  qed
  have hn: "(if lp_hrem p > of_nat (bs c - i) then of_nat (bs c - i) else lp_hrem p) = (of_nat n :: u32)"
    unfolding o n_def using sm by (intro min_of_nat32) simp_all
  have n32: "n < 2 ^ 32" using n(1) sm(4) by simp
  have n0: "of_nat n = (0 :: u32) \<longleftrightarrow> h = hp c"
    using of_nat_cases32(1) [of n 0] n32 e by (auto simp: n_def min_def)
  show ?thesis
  proof (cases "h = hp c")
    case True
    then have "n = 0" by (simp add: n_def)
    then show ?thesis using True at e fills_none [of c h p] hn n0
      by (intro exI [of _ p] exI [of _ "[]"] exI [of _ 0]) (simp only: lime_take_def Let_def w hn if_True add_0_right simp_thms, simp)
  next
    case False
    then have n1: "0 < n" and lg: "sl_lag_remaining s = 0" using e lag by (auto simp: n_def)
    have md: "lp_consumed p mod sl_block_samples s = of_nat i"
    proof -
      have "b * bs c + i < 2 ^ 32" using sm by simp
      then have "lp_consumed p mod sl_block_samples s = of_nat ((b * bs c + i) mod bs c)" unfolding o using sm by (intro of_nat_cases32(3)) auto
      then show ?thesis using e(2) by simp
    qed
    have i64: "ucast (of_nat i :: u32) = (of_nat i :: u64)" using e(2) sm(3) by (intro ucast_of_nat64) simp
    have nz: "sl_block_samples s \<noteq> 0" unfolding o using of_nat_cases32(1) [of "bs c" 0] sm bd(1) by simp
    define f where "f = (if lp_hoff p = 0 then lp_time p + of_nat i else lp_fsym p)"
    have f: "f + of_nat h = lp_time p + of_nat i" "h \<noteq> 0 \<Longrightarrow> f = lp_fsym p"
      using at bits(1) lg by (auto simp: f_def in_burst_def)
    let ?p = "p\<lparr>lp_fsym := f, lp_woff := lp_woff p + of_nat n * of_nat (wb c), lp_hoff := lp_hoff p + of_nat n * of_nat (hb c),
      lp_hrem := lp_hrem p - of_nat n, lp_consumed := lp_consumed p + of_nat n\<rparr>"
    let ?e = "LimeTake buf (lp_woff p) (of_nat n * of_nat (wb c)) (lp_hoff p) (of_nat n * of_nat (hb c))"
    have run: "lime_take (of_nat (wb c)) (of_nat (hb c)) s buf p (of_nat (bs c - i)) = Inr (?p, [?e], False)"
      unfolding lime_take_def Let_def w hn n0 md i64 using False nz by (simp add: f_def)
    have nw: "n * wb c \<le> 4080" using mult_le_mono1 [of n "bs c" "wb c"] n(2) e(4) by simp
    have nh: "n * hb c < 2 ^ 32" using bd(6) [of n] n(1) by simp
    have u: "unat (of_nat n * of_nat (wb c) :: u32) = n * wb c" "unat (of_nat n * of_nat (hb c) :: u32) = n * hb c"
      using nw nh unat_of_nat32 [of "n * wb c"] unat_of_nat32 [of "n * hb c"] by (simp_all only: of_nat_mult [symmetric]) simp
    have "burst_time buf b = lp_time p" using at by (simp add: in_burst_def)
    then have al: "ev_aligned c f ?e"
      using e(1) n(2) u bits(3,5) f(1) unfolding ev_aligned.simps
      by - (rule exI [of _ b], rule exI [of _ i], rule exI [of _ n], rule exI [of _ h], simp)
    have "fills c h (h + n) p ?p [?e]"
      using al u bits(3) n1 e(5) f(2) by (simp add: fills_def algebra_simps del: ev_aligned.simps)
    moreover have "at_header c (b + 1) (h + n) s ?p" if "i + n = bs c"
    proof -
      have "i * wb c + n * wb c = 4080" using that e(4) by (metis add_mult_distrib)
      then have "b * 4096 + 16 + i * wb c + n * wb c = (b + 1) * 4096" by simp
      then have 1: "lp_woff p + of_nat n * of_nat (wb c) = of_nat ((b + 1) * 4096)" unfolding o by (metis of_nat_add of_nat_mult)
      have "b * bs c + i + n = (b + 1) * bs c" using that by simp
      then have 2: "lp_consumed p + of_nat n = of_nat ((b + 1) * bs c)" unfolding o by (metis of_nat_add)
      have "(of_nat i :: u64) + of_nat n = of_nat (bs c)" using that by (metis of_nat_add)
      then have 3: "f + of_nat (h + n) = lp_time p + of_nat (bs c)" using f(1) by (simp add: add.assoc [symmetric])
      show ?thesis using at ok n(3) e(1) 1 2 3 by (simp add: at_header_def in_burst_def buf_ok_def of_nat_diff algebra_simps)
    qed
    moreover have "in_burst c buf b (i + n) (h + n) s ?p" if "i + n \<noteq> bs c"
      using at that n e lg f(1) by (auto simp: in_burst_def of_nat_diff algebra_simps)
    ultimately show ?thesis using run False n1 by (intro exI [of _ ?p] exI [of _ "[?e]"] exI [of _ n]) simp
  qed
qed


text \<open>A place in a buffer with something left to take from it.\<close>

definition in_buffer :: "lime_cfg \<Rightarrow> u8 list \<Rightarrow> nat \<Rightarrow> stream_limesdr \<Rightarrow> lime_pos \<Rightarrow> bool" where
  "in_buffer c buf h s p \<longleftrightarrow> (\<exists>b. b < bc c \<and> at_header c b h s p) \<or> (\<exists>b i. in_burst c buf b i h s p)"

lemma header_step:
  assumes cfg: "cfg_ok c s" and ok: "buf_ok (bc c) buf" and at: "in_buffer c buf h s p"
  shows "\<exists>s1 p1 b i. lime_header s buf p = Inr (s1, p1, of_nat (bs c - i)) \<and> cfg_ok c s1 \<and> in_burst c buf b i h s1 p1 \<and>
    sl_outst s1 = sl_outst s \<and> lp_fsym p1 = lp_fsym p"
proof (cases "\<exists>b i. in_burst c buf b i h s p")
  case False
  then show ?thesis using at header_reads [OF cfg ok] by (fastforce simp: in_buffer_def intro: exI [of _ 0])
next
  case True
  then obtain b i where bi: "in_burst c buf b i h s p" by blast
  note bits = in_burst_bits [OF cfg bi] and bd = cfg_bounds [OF cfg]
  have i: "i < bs c" "i * wb c < 4080" using bi bits(9) bd(3) by (auto simp: in_burst_def)
  have o: "sl_burst_bytes s = 4080" "sl_burst_symbs s = of_nat (bs c)" "lp_woff p = of_nat (b * 4096 + 16 + i * wb c)"
    "lp_consumed p = of_nat (b * bs c + i)" using cfg bi by (simp_all only: cfg_ok_def in_burst_def)
  have "(b * 4096 + 16 + i * wb c) mod 4096 = 16 + i * wb c" using i(2) by (simp add: add.assoc)
  then have m: "unat (lp_woff p mod (sl_burst_bytes s + LIMESDR_STREAM_HDR)) = 16 + i * wb c"
    using bits(5) by (simp add: unat_mod_distrib o(1) LIMESDR_STREAM_HDR_def)
  have m0: "lp_woff p mod (sl_burst_bytes s + LIMESDR_STREAM_HDR) \<noteq> 0"
  proof
    assume "lp_woff p mod (sl_burst_bytes s + LIMESDR_STREAM_HDR) = 0"
    then show False using m by simp
  qed
  have "b * bs c + i < 2 ^ 32" "bs c < 2 ^ 32" using bits(8) bd(2) bd(5) [of "bc c"] i(1) by auto
  then have "lp_consumed p mod sl_burst_symbs s = of_nat i"
    unfolding o by (subst of_nat_cases32(3)) (simp_all add: i(1) mod_less)
  then have "lime_header s buf p = Inr (s, p, of_nat (bs c - i))"
    using m0 i(1) by (simp add: lime_header_def o(2) of_nat_diff)
  then show ?thesis using cfg bi by blast
qed

lemma turn_fills:
  assumes cfg: "cfg_ok c s" and ok: "buf_ok (bc c) buf" and at: "in_buffer c buf h s p" and h: "h < hp c"
  shows "\<exists>s1 p1 ev brk h1. lime_turn (of_nat (wb c)) (of_nat (hb c)) s buf p = Inr (s1, p1, ev, brk) \<and> cfg_ok c s1 \<and>
    sl_outst s1 = sl_outst s \<and> fills c h h1 p p1 ev \<and> h < h1 \<and> (brk \<longrightarrow> h1 = hp c) \<and>
    (in_buffer c buf h1 s1 p1 \<or> at_header c (bc c) h1 s1 p1)"
proof -
  obtain s1 p1 b i where 1: "lime_header s buf p = Inr (s1, p1, of_nat (bs c - i))" "cfg_ok c s1" "in_burst c buf b i h s1 p1"
    "sl_outst s1 = sl_outst s" "lp_fsym p1 = lp_fsym p" using header_step [OF cfg ok at] by blast
  obtain s2 p2 ev h2 where 2: "lime_lag (of_nat (hb c)) s1 p1 = Inr (s2, p2, ev)" "cfg_ok c s2" "in_burst c buf b i h2 s2 p2"
    "fills c h h2 p1 p2 ev" "\<forall>e\<in>set ev. \<forall>f. ev_aligned c f e" "h2 < hp c \<Longrightarrow> sl_lag_remaining s2 = 0" "sl_outst s2 = sl_outst s1"
    using lag_fills [OF 1(2,3) h] by blast
  obtain p3 ev' n where 3: "lime_take (of_nat (wb c)) (of_nat (hb c)) s2 buf p2 (of_nat (bs c - i)) = Inr (p3, ev', h2 = hp c)"
    "fills c h2 (h2 + n) p2 p3 ev'" "h2 < hp c \<Longrightarrow> 0 < n"
    "if i + n = bs c then at_header c (b + 1) (h2 + n) s2 p3 else in_burst c buf b (i + n) (h2 + n) s2 p3"
    using take_fills [OF 2(2) ok 2(3,6)] by blast
  have "fills c h (h2 + n) p p3 (ev @ ev')" using fills_trans [OF 2(4) 3(2)] 2(5) 1(5) by (auto simp: fills_def)
  moreover have le: "b < bc c" "h2 \<le> hp c" "h \<le> h2" using 2(3,4) by (auto simp: in_burst_def fills_def)
  moreover have "h2 + n \<le> hp c" using 3(4) by (cases "i + n = bs c") (simp_all add: in_burst_def at_header_def)
  then have "h < h2 + n" "h2 = hp c \<longrightarrow> h2 + n = hp c" using h 3(3) le by (cases "h2 = hp c"; simp)+
  ultimately show ?thesis using 1 2 3(1,4)
    by (intro exI [of _ s2] exI [of _ p3] exI [of _ "ev @ ev'"] exI [of _ "h2 = hp c"] exI [of _ "h2 + n"])
      (cases "i + n = bs c"; cases "b + 1 = bc c"; auto simp: lime_turn_def in_buffer_def)
qed

lemma buffer_end:
  assumes cfg: "cfg_ok c s" and at: "in_buffer c buf h s p \<or> at_header c (bc c) h s p"
  shows "lp_consumed p = sl_burst_count s * sl_burst_symbs s \<longleftrightarrow> at_header c (bc c) h s p" "lp_hrem p = 0 \<longleftrightarrow> h = hp c"
proof -
  note bd = cfg_bounds [OF cfg]
  have e: "sl_burst_count s * sl_burst_symbs s = of_nat (bc c * bs c)" using cfg by (simp add: cfg_ok_def)
  have u: "unat (of_nat (b * bs c) :: u32) = b * bs c" if "b \<le> bc c" for b using bd(5) [OF that] by (rule unat_of_nat32)
  have hd: "unat (lp_consumed p) = b * bs c \<and> unat (lp_hrem p) = hp c - h \<and> h \<le> hp c" if "at_header c b h s p" for b
    using that u [of b] bd(7) unat_of_nat32 [of "hp c - h"] by (simp add: at_header_def del: of_nat_mult)
  have bu: "unat (lp_consumed p) = b * bs c + i \<and> unat (lp_hrem p) = hp c - h \<and> h \<le> hp c \<and> b * bs c + i < bc c * bs c"
    if "in_burst c buf b i h s p" for b i
    using in_burst_bits(4,6,8) [OF cfg that] that by (simp add: in_burst_def)
  have lt: "b * bs c < bc c * bs c" if "b < bc c" for b using that bd(1) by simp
  have c: "lp_consumed p = sl_burst_count s * sl_burst_symbs s \<longleftrightarrow> unat (lp_consumed p) = bc c * bs c"
    unfolding e using u [of "bc c"] by (metis word_unat_eq_iff order_refl)
  show "lp_consumed p = sl_burst_count s * sl_burst_symbs s \<longleftrightarrow> at_header c (bc c) h s p"
    unfolding c using at hd bu lt by (fastforce simp: in_buffer_def)
  show "lp_hrem p = 0 \<longleftrightarrow> h = hp c"
    using at hd bu unfolding unat_eq_0 [symmetric] in_buffer_def by fastforce
qed

lemma buffer_fills:
  assumes "cfg_ok c s" and "buf_ok (bc c) buf" and "in_buffer c buf h s p" and "h < hp c"
  shows "\<exists>s1 p1 ev h1. lime_buffer (of_nat (wb c)) (of_nat (hb c)) s buf p = Some (Inr (s1, p1, ev)) \<and> cfg_ok c s1 \<and>
    sl_outst s1 = sl_outst s \<and> fills c h h1 p p1 ev \<and> h < h1 \<and>
    (at_header c (bc c) h1 s1 p1 \<or> h1 = hp c \<and> in_buffer c buf h1 s1 p1)"
  using assms
proof (induction "hp c - h" arbitrary: h s p rule: less_induct)
  case less
  obtain s1 p1 ev brk h1 where t: "lime_turn (of_nat (wb c)) (of_nat (hb c)) s buf p = Inr (s1, p1, ev, brk)" "cfg_ok c s1"
    "sl_outst s1 = sl_outst s" "fills c h h1 p p1 ev" "h < h1" "brk \<Longrightarrow> h1 = hp c"
    "in_buffer c buf h1 s1 p1 \<or> at_header c (bc c) h1 s1 p1" using turn_fills [OF less.prems] by blast
  note en = buffer_end [OF t(2,7)]
  show ?case
  proof (cases "brk \<or> lp_hrem p1 = 0 \<or> lp_consumed p1 = sl_burst_count s1 * sl_burst_symbs s1")
    case True
    then show ?thesis using t en less.prems(4) by (subst lime_buffer.simps) auto
  next
    case False
    then have "in_buffer c buf h1 s1 p1" "h1 \<noteq> hp c" using t(7) en by auto
    moreover have "h1 \<le> hp c" using calculation(1) by (auto simp: in_buffer_def in_burst_def at_header_def)
    ultimately obtain s2 p2 ev' h2 where r: "lime_buffer (of_nat (wb c)) (of_nat (hb c)) s1 buf p1 = Some (Inr (s2, p2, ev'))" "cfg_ok c s2"
      "sl_outst s2 = sl_outst s1" "fills c h1 h2 p1 p2 ev'" "h1 < h2"
      "at_header c (bc c) h2 s2 p2 \<or> h2 = hp c \<and> in_buffer c buf h2 s2 p2"
      using less.hyps [OF _ t(2) less.prems(2), of h1 p1] t(5) by fastforce
    moreover have "fills c h h2 p p2 (ev @ ev')" using fills_trans [OF t(4) r(4)] t(5) by simp
    ultimately show ?thesis using t(1,3,5) False by (subst lime_buffer.simps) auto
  qed
qed


text \<open>Between two buffers, and between two calls: what is left of a buffer is a place in it.\<close>

definition at_pos :: "lime_cfg \<Rightarrow> nat \<Rightarrow> stream_limesdr \<Rightarrow> lime_pos \<Rightarrow> bool" where
  "at_pos c h s p \<longleftrightarrow> h \<le> hp c \<and> lp_hoff p = of_nat (h * hb c) \<and> lp_hrem p = of_nat (hp c - h) \<and>
     (h \<noteq> 0 \<longrightarrow> sl_blk_time_prev s \<noteq> - 1 \<and> lp_fsym p + of_nat h = sl_blk_time_prev s + of_nat (bs c))"

definition packet_start :: "stream_limesdr \<Rightarrow> lime_pos" where
  "packet_start s = \<lparr>lp_consumed = 0, lp_woff = 0, lp_bidx = 0, lp_time = 0, lp_hoff = 0, lp_hrem = sl_host_pkt_symbs s, lp_fsym = - 1\<rparr>"

definition resumed :: "stream_partial_rx \<Rightarrow> stream_limesdr \<Rightarrow> lime_pos \<Rightarrow> lime_pos" where
  "resumed ou s p = p\<lparr>lp_consumed := pr_wire_cons_smpl ou, lp_time := sl_blk_time_prev s, lp_woff := pr_wire_cons_bytes ou, lp_bidx := pr_wire_bidx ou\<rparr>"

definition resting :: "lime_cfg \<Rightarrow> stream_limesdr \<Rightarrow> bool" where
  "resting c s \<longleftrightarrow> cfg_ok c s \<and> (case sl_outst s of None \<Rightarrow> True
     | Some ou \<Rightarrow> buf_ok (bc c) (pr_dma_buf ou) \<and> in_buffer c (pr_dma_buf ou) 0 s (resumed ou s (packet_start s)))"

definition dma_ok :: "nat \<Rightarrow> lime_dma \<Rightarrow> bool" where
  "dma_ok n dma \<longleftrightarrow> (\<forall>k. 0 \<le> fst (fst dma k) \<and> buf_ok n (snd (fst dma k))) \<and> (\<forall>buf. snd dma buf = 0)"

lemma in_buffer_outst [simp]: "in_buffer c buf h (s\<lparr>sl_outst := z\<rparr>) p = in_buffer c buf h s p"
  by (simp add: in_buffer_def in_burst_def at_header_def)

lemma in_buffer_restart:
  assumes "in_buffer c buf h s p" and "lp_consumed p' = lp_consumed p" "lp_woff p' = lp_woff p" "lp_time p' = sl_blk_time_prev s"
    "lp_hoff p' = 0" "lp_hrem p' = of_nat (hp c)"
  shows "in_buffer c buf 0 s p'"
proof -
  have "at_header c b 0 s p'" if "at_header c b h s p" for b using that assms(2-) by (simp add: at_header_def)
  moreover have "in_burst c buf b i 0 s p'" if "in_burst c buf b i h s p" for b i using that assms(2-) by (simp add: in_burst_def)
  ultimately show ?thesis using assms(1) unfolding in_buffer_def by blast
qed

lemma in_buffer_resumed:
  assumes "in_buffer c buf 0 s (resumed ou s p)" and "at_pos c 0 s p'"
  shows "in_buffer c buf 0 s (resumed ou s p')"
  using assms(1) by (rule in_buffer_restart) (use assms(2) in \<open>simp_all add: at_pos_def resumed_def\<close>)

lemma fetch_places:
  assumes cfg: "cfg_ok c s" and dma: "dma_ok (bc c) dma" and pos: "at_pos c h s p" and out: "sl_outst s = None \<or> h = 0 \<and> resting c s"
  shows "\<exists>buf s1 p1 k1. lime_fetch dma k s p = Inr (buf, s1, p1, k1) \<and> cfg_ok c s1 \<and> buf_ok (bc c) buf \<and> in_buffer c buf h s1 p1 \<and> lp_fsym p1 = lp_fsym p"
proof (cases "sl_outst s")
  case None
  obtain r buf where k: "fst dma k = (r, buf)" by fastforce
  then have r: "0 \<le> r" "buf_ok (bc c) buf" using dma unfolding dma_ok_def by (metis fst_conv, metis snd_conv)
  have "at_header c 0 h (s\<lparr>sl_rcnt := sl_rcnt s + 1\<rparr>) (p\<lparr>lp_consumed := 0, lp_woff := 0, lp_bidx := - 1\<rparr>)"
    using pos by (simp add: at_header_def at_pos_def)
  then show ?thesis using None k r cfg by (simp add: lime_fetch_def in_buffer_def) (auto simp: cfg_ok_def)
next
  case (Some ou)
  then show ?thesis using out pos in_buffer_resumed [of c "pr_dma_buf ou" s ou] cfg
    by (auto simp: lime_fetch_def resting_def resumed_def)
qed

lemma fills_release: "fills c h h1 p p1 ev \<Longrightarrow> fills c h h1 p p1 (ev @ [LimeRelease buf])"
  by (simp add: fills_def)

lemma packet_fills:
  assumes "cfg_ok c s" and "dma_ok (bc c) dma" and "at_pos c h s p" and "sl_outst s = None \<or> h = 0 \<and> resting c s" and "h < hp c"
  shows "\<exists>s' p' ev. lime_packet (of_nat (wb c)) (of_nat (hb c)) dma k s p = Some (0, s', p', ev) \<and> resting c s' \<and>
    fills c h (hp c) p p' ev \<and> lp_hrem p' = 0"
  using assms
proof (induction "hp c - h" arbitrary: h s p k rule: less_induct)
  case less
  obtain buf s1 p1 k1 where f: "lime_fetch dma k s p = Inr (buf, s1, p1, k1)" "cfg_ok c s1" "buf_ok (bc c) buf" "in_buffer c buf h s1 p1"
    "lp_fsym p1 = lp_fsym p" using fetch_places [OF less.prems(1-4)] by blast
  obtain s2 p2 ev h2 where b: "lime_buffer (of_nat (wb c)) (of_nat (hb c)) s1 buf p1 = Some (Inr (s2, p2, ev))" "cfg_ok c s2"
    "fills c h h2 p1 p2 ev" "h < h2" "at_header c (bc c) h2 s2 p2 \<or> h2 = hp c \<and> in_buffer c buf h2 s2 p2"
    using buffer_fills [OF f(2,3,4) less.prems(5)] by blast
  have en: "lp_consumed p2 = sl_burst_count s2 * sl_burst_symbs s2 \<longleftrightarrow> at_header c (bc c) h2 s2 p2" "lp_hrem p2 = 0 \<longleftrightarrow> h2 = hp c"
    using buffer_end [OF b(2)] b(5) by blast+
  have fl: "fills c h h2 p p2 ev" using b(3) f(5) by (simp add: fills_def)
  have rel: "snd dma buf = 0" using less.prems(2) by (simp add: dma_ok_def)
  consider "at_header c (bc c) h2 s2 p2" "h2 = hp c" | "at_header c (bc c) h2 s2 p2" "h2 \<noteq> hp c" |
    "\<not> at_header c (bc c) h2 s2 p2" "h2 = hp c" "in_buffer c buf h2 s2 p2" using b(5) by blast
  then show ?case
  proof cases
    case 1
    then show ?thesis using f(1) b(1,2) en rel fills_release [OF fl]
      by (subst lime_packet.simps) (auto simp: lime_keep_def resting_def)
  next
    case 2
    let ?s = "s2\<lparr>sl_outst := None\<rparr>"
    have "at_pos c h2 ?s p2" "h2 < hp c" using 2 by (auto simp: at_pos_def at_header_def)
    then obtain s' p' ev' where r: "lime_packet (of_nat (wb c)) (of_nat (hb c)) dma k1 ?s p2 = Some (0, s', p', ev')" "resting c s'"
      "fills c h2 (hp c) p2 p' ev'" "lp_hrem p' = 0"
      using less.hyps [of h2 ?s p2 k1] b(2,4) less.prems(2) by fastforce
    have "fills c h (hp c) p p' ((ev @ [LimeRelease buf]) @ ev')" using fills_trans [OF fills_release [OF fl] r(3)] b(4) by simp
    then show ?thesis using f(1) b(1) en 2 rel r by (subst lime_packet.simps) (auto simp: lime_keep_def)
  next
    case 3
    let ?ou = "\<lparr>pr_dma_buf = buf, pr_wire_cons_smpl = lp_consumed p2, pr_wire_cons_bytes = lp_woff p2, pr_wire_bidx = lp_bidx p2\<rparr>"
    have "in_buffer c buf 0 s2 (resumed ?ou s2 (packet_start s2))"
      using 3(3) by (rule in_buffer_restart) (use b(2) in \<open>simp_all add: resumed_def packet_start_def cfg_ok_def\<close>)
    then have "resting c (s2\<lparr>sl_outst := Some ?ou\<rparr>)" using b(2) f(3) by (simp add: resting_def resumed_def packet_start_def)
    then show ?thesis using f(1) b(1) en 3 fl by (subst lime_packet.simps) (auto simp: lime_keep_def)
  qed
qed

lemma wire_bps:
  assumes "cfg_ok c s"
  shows "sl_burst_bytes s div sl_burst_symbs s = of_nat (wb c)" "sl_burst_symbs s \<noteq> 0"
proof -
  note bd = cfg_bounds [OF assms]
  have e: "bs c * wb c = 4080" "sl_burst_symbs s = of_nat (bs c)" "sl_burst_bytes s = 4080" using assms by (simp_all add: cfg_ok_def)
  have "(4080 :: u32) div of_nat (bs c) = of_nat (4080 div bs c)" using of_nat_cases32(4) [of 4080 "bs c"] bd(2) by simp
  moreover have "4080 div bs c = wb c" using e(1) bd(1) by (metis nonzero_mult_div_cancel_left less_not_refl)
  ultimately show "sl_burst_bytes s div sl_burst_symbs s = of_nat (wb c)" by (simp add: e)
  show "sl_burst_symbs s \<noteq> 0" using of_nat_cases32(1) [of "bs c" 0] bd(1,2) by (simp add: e(2))
qed

lemma limestr_recv_run:
  assumes "resting c s" and "dma_ok (bc c) dma"
  shows "\<exists>fsym s' ev. limestr_stream_recv dma s = Some (0, (of_nat (hp c), fsym), s', ev) \<and> resting c s' \<and>
    tiles 0 (hp c * hb c) (concat (map ev_span ev)) \<and> (\<forall>e\<in>set ev. ev_aligned c fsym e)"
proof -
  have cfg: "cfg_ok c s" using assms(1) by (simp add: resting_def)
  have e: "0 < hp c" "sl_host_pkt_symbs s = of_nat (hp c)" "sl_burst_host_bytes s div sl_burst_symbs s = of_nat (hb c)"
    using cfg unfolding cfg_ok_def by blast+
  have pos: "at_pos c 0 s (packet_start s)" by (simp add: at_pos_def packet_start_def e(2))
  obtain s' p' ev where r: "lime_packet (of_nat (wb c)) (of_nat (hb c)) dma 0 s (packet_start s) = Some (0, s', p', ev)" "resting c s'"
    "fills c 0 (hp c) (packet_start s) p' ev" "lp_hrem p' = 0"
    using packet_fills [OF cfg assms(2) pos _ e(1), of 0] assms(1) by blast
  have "limestr_stream_recv dma s = Some (0, (of_nat (hp c), lp_fsym p'), s', ev)"
    unfolding limestr_stream_recv_def wire_bps(1) [OF cfg] e(3) packet_start_def [symmetric] using r wire_bps(2) [OF cfg] e(2) by simp
  then show ?thesis using r by (auto simp: fills_def)
qed


section \<open>Created streams\<close>

lemma transform_size_cases:
  assumes "get_transform_fn from to 1 1 = Some (f, sz)"
  shows "sz \<in> {tr_dummy_sz, tr_conv_i12_f32_sz, tr_conv_f32_i12_sz, tr_conv_i16_f32_sz, tr_conv_f32_i16_sz, tr_conv_i12_i16_sz, tr_conv_i16_i12_sz}"
  using assms by (auto simp: get_transform_fn_def split: if_splits)

lemma host_bytes_bounds:
  assumes "get_transform_fn from to 1 1 = Some (f, sz)" and "bu = 1020 \<or> bu = 1360"
  shows "1 \<le> unat (sz 4080 d div bu)" "unat (sz 4080 d div bu) \<le> 10"
  using transform_size_cases [OF assms(1)] assms(2) by (cases d; auto simp: tr_sz_defs tr_dummy_sz_def push_bit_eq_mult drop_bit_eq_div)+

definition cfg_of :: "stream_limesdr \<Rightarrow> lime_cfg" where
  "cfg_of s = \<lparr>bs = unat (sl_burst_symbs s), wb = 4080 div unat (sl_burst_symbs s), hb = unat (sl_burst_host_bytes s div sl_burst_symbs s),
     bc = unat (sl_burst_count s), hp = unat (sl_host_pkt_symbs s)\<rparr>"

lemma packet_size_bounds:
  assumes "lime_packet_size rx w bu pktsyms = Inr (pkt, b, c)" and "bu = 1020 \<or> bu = 1360" and "pktsyms < 0x100000" and "rx \<Longrightarrow> 0 < pktsyms"
  shows "0 < unat pkt" "unat pkt < 2 ^ 20" "unat b < 2 ^ 20" "rx \<Longrightarrow> pkt = pktsyms" "\<not> rx \<Longrightarrow> c \<noteq> 0"
proof -
  have p: "unat pktsyms < 2 ^ 20" using assms(3) by (simp add: word_less_nat_alt)
  have d: "unat (x div bu) < 2 ^ 20" if "unat x < 2 ^ 24" for x :: u32 using assms(2) that by (auto simp: unat_div_distrib)
  have t: "unat (2 * pktsyms) = 2 * unat pktsyms" using p by (simp add: unat_mult_lem [THEN iffD1])
  show "0 < unat pkt" "unat pkt < 2 ^ 20" "rx \<Longrightarrow> pkt = pktsyms" "\<not> rx \<Longrightarrow> c \<noteq> 0"
    using assms p by (auto simp: lime_packet_size_def Let_def word_less_nat_alt split: if_splits)
  show "unat b < 2 ^ 20"
  proof (cases rx)
    case True
    then show ?thesis using assms(1) d [of pktsyms] d [of "2 * pktsyms"] p t
      by (auto simp: lime_packet_size_def Let_def unat_div_distrib split: if_splits)
  next
    case False
    then have "b = (pkt + bu - 1) div bu" using assms(1) by (auto simp: lime_packet_size_def Let_def split: if_splits)
    moreover have "unat (pkt + bu - 1) < 2 ^ 24"
      using assms(2) \<open>unat pkt < 2 ^ 20\<close> unat_add_lem [of pkt 1019] unat_add_lem [of pkt 1359] by (auto simp: add_diff_eq [symmetric])
    ultimately show ?thesis using d by simp
  qed
qed

lemma lime_format_size: "lime_format f = Inr (sfmt, w) \<Longrightarrow> w = 32 \<or> w = 24"
  by (auto simp: lime_format_def Let_def split: if_splits)

lemma created_cfg:
  assumes "create_limesdr_stream ll core_id dformat pktsyms flags = Inr s" and "pktsyms < 0x100000" and "core_id = LIMESDR_RX \<Longrightarrow> 0 < pktsyms"
  shows "cfg_ok (cfg_of s) s" "sl_outst s = None" "core_id \<noteq> LIMESDR_RX \<Longrightarrow> sl_tx_sampl_c s \<noteq> 0"
proof -
  let ?rx = "core_id = LIMESDR_RX"
  let ?p = "stream_parse_dformat dformat"
  have len: "\<not> length dformat \<ge> 256" using assms(1) by (auto simp: create_limesdr_stream_def)
  note c1 = assms(1) [unfolded create_limesdr_stream_def, unfolded if_not_P [OF len] Let_def]
  obtain f host where f: "fmt_select ?p = Some f" "host_fmt ?p = Some host"
    using c1 by (cases "fmt_select ?p"; cases "host_fmt ?p"; simp)
  obtain sfmt w where w: "lime_format f = Inr (sfmt, w)" using c1 f by (cases "lime_format f") auto
  define tr where "tr = (if ?rx then get_transform_fn sfmt host 1 1 else get_transform_fn host sfmt 1 1)"
  note c2 = c1 [unfolded f option.case prod.case w sum.case, folded tr_def]
  obtain fs where fs: "tr = Some fs" using c2 by (cases tr) simp_all
  obtain fromf tof where t: "get_transform_fn fromf tof 1 1 = Some fs" using fs unfolding tr_def by (cases ?rx) auto
  have w2: "w = 32 \<or> w = 24" using w by (rule lime_format_size)
  have sz: "(4096 - LIMESDR_STREAM_HDR) * 8 div w = 32640 div w" by (simp add: LIMESDR_STREAM_HDR_def)
  note c3 = c2 [unfolded fs option.case sz]
  obtain pkt b c where z: "lime_packet_size ?rx w (32640 div w) pktsyms = Inr (pkt, b, c)"
    using c3 by (cases "lime_packet_size ?rx w (32640 div w) pktsyms") auto
  have s: "sl_host_pkt_symbs s = pkt" "sl_burst_count s = (if b = 0 then 1 else b)" "sl_burst_symbs s = 32640 div w" "sl_burst_bytes s = 4080"
      "sl_burst_host_bytes s = snd fs 4080 (\<not> ?rx)" "sl_block_samples s = 32640 div w" "sl_tx_sampl_c s = c" "sl_outst s = None"
    using c3 [unfolded z sum.case prod.case] by (auto simp: LIMESDR_STREAM_HDR_def split: if_splits)
  show "sl_outst s = None" by (rule s(8))
  have bu: "32640 div w = 1020 \<or> 32640 div w = 1360" using w2 by auto
  note pb = packet_size_bounds [OF z bu assms(2,3)]
  show "core_id \<noteq> LIMESDR_RX \<Longrightarrow> sl_tx_sampl_c s \<noteq> 0" using pb(5) s(7) by simp
  have hbb: "1 \<le> unat (snd fs 4080 (\<not> ?rx) div (32640 div w))" "unat (snd fs 4080 (\<not> ?rx) div (32640 div w)) \<le> 10"
    using host_bytes_bounds [OF _ bu] t by (cases fs; auto)+
  have bc: "0 < unat (sl_burst_count s)" "unat (sl_burst_count s) < 2 ^ 20" using pb(3) by (auto simp: s(2) unat_gt_0)
  have "unat pkt * unat (snd fs 4080 (\<not> ?rx) div (32640 div w)) \<le> unat pkt * 10" using hbb(2) by (rule mult_le_mono2)
  moreover have "unat pkt * 10 < 2 ^ 32" using pb(2) by simp
  ultimately have "unat pkt * unat (snd fs 4080 (\<not> ?rx) div (32640 div w)) < 2 ^ 32" by (rule order_le_less_trans)
  then show "cfg_ok (cfg_of s) s"
    using bu bc pb(1) hbb(1) by (auto simp: cfg_ok_def cfg_of_def s(1,3,4,5,6))
qed

text \<open>A session of receives, each with what the driver answers in it.\<close>

fun lime_run :: "lime_dma list \<Rightarrow> stream_limesdr \<Rightarrow> ((int \<times> (u32 \<times> u64) \<times> lime_ev list) list \<times> stream_limesdr) option" where
  "lime_run [] s = Some ([], s)"
| "lime_run (d # ds) s = Option.bind (limestr_stream_recv d s) (\<lambda>(res, nfo, s1, ev).
     Option.bind (lime_run ds s1) (\<lambda>(rs, s2). Some ((res, nfo, ev) # rs, s2)))"

definition packet_good :: "lime_cfg \<Rightarrow> int \<times> (u32 \<times> u64) \<times> lime_ev list \<Rightarrow> bool" where
  "packet_good c = (\<lambda>(res, (n, fsym), ev). res = 0 \<and> n = of_nat (hp c) \<and> tiles 0 (hp c * hb c) (concat (map ev_span ev)) \<and>
     (\<forall>e\<in>set ev. ev_aligned c fsym e))"

lemma lime_run_good:
  assumes "resting c s" and "\<forall>d\<in>set ds. dma_ok (bc c) d"
  shows "\<exists>rs s'. lime_run ds s = Some (rs, s') \<and> length rs = length ds \<and> (\<forall>r\<in>set rs. packet_good c r)"
  using assms
proof (induction ds arbitrary: s)
  case (Cons d ds)
  obtain fsym s1 ev where r: "limestr_stream_recv d s = Some (0, (of_nat (hp c), fsym), s1, ev)" "resting c s1"
    "tiles 0 (hp c * hb c) (concat (map ev_span ev))" "\<forall>e\<in>set ev. ev_aligned c fsym e"
    using limestr_recv_run [OF Cons.prems(1)] Cons.prems(2) by (metis list.set_intros(1))
  then show ?case using Cons.IH [OF r(2)] Cons.prems(2) by (fastforce simp: packet_good_def)
qed simp


section \<open>What is sent\<close>

text \<open>Burst \<open>i\<close> of a transmission of \<open>m\<close> symbols, and all of them.\<close>

definition lime_bursts_needed :: "lime_cfg \<Rightarrow> nat \<Rightarrow> nat" where
  "lime_bursts_needed c m = (m + bs c - 1) div bs c"

definition lime_burst :: "lime_cfg \<Rightarrow> u64 \<Rightarrow> nat \<Rightarrow> nat \<Rightarrow> lime_out list" where
  "lime_burst c ts m i = (let n = min (bs c) (m - i * bs c) in
     [LimeHdr (of_nat (i * 4096)) (lime_hdr ts (of_nat (n * wb c)) (ts + of_nat (i * bs c))),
      LimePut (of_nat (i * bs c * hb c)) (of_nat (n * hb c)) (of_nat (i * 4096 + 16)) (of_nat (n * wb c))])"

lemma bursts_needed_less: "0 < bs c \<Longrightarrow> i < lime_bursts_needed c m \<longleftrightarrow> i * bs c < m"
proof -
  assume "0 < bs c"
  then have "i < (m + bs c - 1) div bs c \<longleftrightarrow> Suc i * bs c \<le> m + bs c - 1" by (simp add: less_eq_div_iff_mult_less_eq Suc_le_eq [symmetric] del: mult_Suc)
  then show ?thesis using \<open>0 < bs c\<close> by (auto simp: lime_bursts_needed_def)
qed

lemma bursts_stop: "\<not> i < m \<Longrightarrow> lime_bursts st w h ts m i hoff woff = Some (woff, [])"
  by (subst lime_bursts.simps) simp

lemma bursts_spec:
  assumes cfg: "cfg_ok c st" and m: "m \<le> bc c * bs c" and i: "i \<le> lime_bursts_needed c m"
  shows "lime_bursts st (of_nat (wb c)) (of_nat (hb c)) ts (of_nat m) (of_nat (i * bs c)) (of_nat (min m (i * bs c) * hb c)) (of_nat (min m (i * bs c) * wb c + 16 * i)) =
    Some (of_nat (m * wb c + 16 * lime_bursts_needed c m), concat (map (lime_burst c ts m) [i..<lime_bursts_needed c m]))"
  using i
proof (induction "lime_bursts_needed c m - i" arbitrary: i rule: less_induct)
  case less
  let ?nb = "lime_bursts_needed c m"
  note bd = cfg_bounds [OF cfg]
  have e: "bs c * wb c = 4080" "sl_block_samples st = of_nat (bs c)" using cfg by (simp_all add: cfg_ok_def)
  have m32: "m + bs c < 2 ^ 32"
  proof -
    have "bc c * bs c \<le> bc c * 4080" "bc c < 1048576" using bd(2) bd(4) [of "bc c"] by auto
    then have "m + bs c < 4294967296" using m bd(2) by linarith
    then show ?thesis by simp
  qed
  have ib: "i * bs c < m + bs c"
    using less.prems bursts_needed_less [OF bd(1), of "i - 1" m] bd(1) by (cases i) auto
  have cmp: "(of_nat (i * bs c) :: u32) < of_nat m \<longleftrightarrow> i * bs c < m" using ib m32 by (intro of_nat_cases32(2)) auto
  show ?case
  proof (cases "i * bs c < m")
    case False
    then have "i = ?nb" using less.prems bursts_needed_less [OF bd(1), of i m] by simp
    then have "[i..<?nb] = []" "min m (i * bs c) * wb c + 16 * i = m * wb c + 16 * ?nb" using False by auto
    then show ?thesis using bursts_stop [of "of_nat (i * bs c)" "of_nat m"] cmp False by (simp only: list.map concat.simps not_False_eq_True)
  next
    case True
    then have i: "i < ?nb" using bursts_needed_less [OF bd(1)] by simp
    define n where "n = min (bs c) (m - i * bs c)"
    have d: "(of_nat m - of_nat (i * bs c) :: u32) = of_nat (m - i * bs c)" using True by (simp add: of_nat_diff)
    have sel: "(if (of_nat m - of_nat (i * bs c) :: u32) > sl_block_samples st then sl_block_samples st else of_nat m - of_nat (i * bs c)) = of_nat n"
      unfolding d e(2) n_def using m32 by (subst min_of_nat32) (simp_all add: min.commute)
    have nx: "min m (Suc i * bs c) = i * bs c + n" "min m (i * bs c) = i * bs c" using True by (auto simp: n_def min_def)
    have w: "i * bs c * wb c + 16 * i = i * 4096" using e(1) by (simp add: mult.assoc)
    have u: "ucast (of_nat (i * bs c) :: u32) = (of_nat (i * bs c) :: u64)" using ib m32 by (intro ucast_of_nat64) simp
    have s1: "(of_nat (i * bs c) + sl_block_samples st :: u32) = of_nat (Suc i * bs c)" by (simp add: e(2))
    have h1: "(of_nat (i * bs c * hb c) + of_nat n * of_nat (hb c) :: u32) = of_nat (min m (Suc i * bs c) * hb c)" unfolding nx by (simp add: add_mult_distrib)
    have w1: "(of_nat (i * 4096) + of_nat n * of_nat (wb c) + LIMESDR_STREAM_HDR :: u32) = of_nat (min m (Suc i * bs c) * wb c + 16 * Suc i)"
    proof -
      have "i * 4096 + n * wb c + 16 = min m (Suc i * bs c) * wb c + 16 * Suc i" unfolding nx using w by (simp add: add_mult_distrib)
      then show ?thesis unfolding LIMESDR_STREAM_HDR_def by (metis of_nat_add of_nat_mult of_nat_numeral)
    qed
    note ih = less.hyps [of "Suc i", OF diff_less_mono2 [OF lessI i] Suc_leI [OF i]]
    have "lime_burst c ts m i = [LimeHdr (of_nat (i * 4096)) (lime_hdr ts (of_nat n * of_nat (wb c)) (ts + of_nat (i * bs c))),
      LimePut (of_nat (i * bs c * hb c)) (of_nat n * of_nat (hb c)) (of_nat (i * 4096) + LIMESDR_STREAM_HDR) (of_nat n * of_nat (wb c))]"
      by (simp add: lime_burst_def Let_def n_def LIMESDR_STREAM_HDR_def)
    moreover have "[i..<?nb] = i # [Suc i..<?nb]" using i by (rule upt_conv_Cons)
    ultimately show ?thesis
      unfolding nx(2) w by (subst lime_bursts.simps) (simp only: cmp True not_True_eq_False if_False Let_def sel u s1 h1 w1 ih bind.bind_lunit prod.case list.map concat.simps append_Cons append_Nil)
  qed
qed


section \<open>Properties\<close>

text \<open>C15: On a receive stream that was created every call returns as long as the driver delivers buffers: the host
  packet is covered without gap or overlap by samples and zeros, and every sample stands at its own time relative
  to the time reported, over lost bursts and buffers cut by packets.\<close>

theorem limestr_session:
  assumes "create_limesdr_stream ll LIMESDR_RX dformat pktsyms flags = Inr s" and "0 < pktsyms" and "pktsyms < 0x100000"
    and "\<forall>d\<in>set ds. dma_ok (unat (sl_burst_count s)) d"
  shows "\<exists>rs s'. lime_run ds s = Some (rs, s') \<and> length rs = length ds \<and> (\<forall>r\<in>set rs. packet_good (cfg_of s) r)"
proof (rule lime_run_good)
  show "resting (cfg_of s) s" using created_cfg [OF assms(1,3)] assms(2) by (simp add: resting_def)
  show "\<forall>d\<in>set ds. dma_ok (bc (cfg_of s)) d" using assms(4) by (simp add: cfg_of_def)
qed

definition lime_ll :: "stream_params \<Rightarrow> stream_init" where
  "lime_ll p = \<lparr>si_res = 0, si_sid = 0, si_fd = 7, si_out_mtu_size = 0, si_out_max_bursts = 0\<rparr>"


lemma created_ci16:
  assumes "lime_packet_size (core_id = LIMESDR_RX) 32 1020 pktsyms = Inr (pkt, n, c)" and "n \<noteq> 0"
  shows "\<exists>s. create_limesdr_stream lime_ll core_id ''ci16'' pktsyms 0 = Inr s \<and> sl_burst_count s = n \<and> sl_burst_symbs s = 1020 \<and> sl_tx_sampl_c s = c"
proof -
  have "stream_parse_dformat ''ci16'' = \<lparr>host_fmt = Some ''ci16'', wire_fmt = None\<rparr>" by code_simp
  moreover have "lime_format ''ci16'' = Inr (''ci16'', 32)" by (simp add: lime_format_def fmt_raw_def ci16_fmt)
  moreover have "get_transform_fn ''ci16'' ''ci16'' 1 1 = Some (Tr_dummy, tr_dummy_sz)"
    by (simp add: get_transform_fn_def fmt_tests strcaseeq_def tolower_def less_eq_char_def)
  ultimately show ?thesis
    using assms by (simp add: create_limesdr_stream_def Let_def fmt_select_def LIMESDR_STREAM_HDR_def lime_ll_def)
qed

definition zero_bursts :: "nat \<Rightarrow> lime_dma" where
  "zero_bursts n = (\<lambda>k. (0, replicate (n * 4096) 0), \<lambda>buf. 0)"

lemma zero_bursts_ok: "dma_ok n (zero_bursts n)"
proof -
  have "burst_time (replicate (n * 4096) 0) b = 0" if "b < n" for b
  proof -
    have "b * 4096 + 4096 \<le> n * 4096" using mult_le_mono1 [of "Suc b" n 4096] that by simp
    then show ?thesis by (simp add: burst_time_def min_def of_le_bytes_replicate)
  qed
  then show ?thesis by (simp add: dma_ok_def buf_ok_def zero_bursts_def)
qed

lemma limestr_session_witness:
  "\<exists>s rs s'. create_limesdr_stream lime_ll LIMESDR_RX ''ci16'' 3000 0 = Inr s \<and>
     lime_run [zero_bursts 1, zero_bursts 1] s = Some (rs, s') \<and> length rs = 2 \<and> (\<forall>r\<in>set rs. packet_good (cfg_of s) r)"
proof -
  have "lime_packet_size (LIMESDR_RX = LIMESDR_RX) 32 1020 3000 = Inr (3000, 1, 0)" by (simp add: lime_packet_size_def)
  from created_ci16 [OF this] obtain s where s: "create_limesdr_stream lime_ll LIMESDR_RX ''ci16'' 3000 0 = Inr s" "sl_burst_count s = 1" by auto
  have d: "\<forall>d\<in>set [zero_bursts 1, zero_bursts 1]. dma_ok (unat (sl_burst_count s)) d" using zero_bursts_ok [of 1] s(2) by simp
  from limestr_session [OF s(1) _ _ d] show ?thesis using s(1) by auto
qed

text \<open>C35: A transmission on a send stream that was created is refused when it is too long or off the grid of the
  stream; else it is cut into bursts that cover it, each with the time of its own first symbol and its length in its
  header, each at its own 4096 bytes of the block.\<close>

theorem limestr_send_bursts:
  assumes "create_limesdr_stream ll core_id dformat pktsyms flags = Inr s" and "core_id \<noteq> LIMESDR_RX" and "pktsyms < 0x100000"
  shows "limestr_stream_send get commit s samples ts =
      (if sl_burst_count s * sl_burst_symbs s < samples \<or> samples mod sl_tx_sampl_c s \<noteq> 0 then Some (- EINVAL, s, [])
       else if get < 0 then Some (get, s, [])
       else let c = cfg_of s; m = unat samples; n = lime_bursts_needed c m in
         Some (commit (of_nat (m * wb c + 16 * n)) ts, s\<lparr>sl_rcnt := sl_rcnt s + 1\<rparr>, concat (map (lime_burst c ts m) [0..<n]))) \<and>
    (samples \<le> sl_burst_count s * sl_burst_symbs s \<longrightarrow>
      unat samples * wb (cfg_of s) + 16 * lime_bursts_needed (cfg_of s) (unat samples) \<le> unat (sl_burst_count s) * 4096)"
proof -
  define c where "c = cfg_of s"
  have cfg: "cfg_ok c s" and tc: "sl_tx_sampl_c s \<noteq> 0" using created_cfg [OF assms(1,3)] assms(2) by (auto simp: c_def)
  note bd = cfg_bounds [OF cfg] and w = wire_bps [OF cfg]
  have hbps: "sl_burst_host_bytes s div sl_burst_symbs s = of_nat (hb c)" using cfg unfolding cfg_ok_def by blast
  have "sl_burst_count s * sl_burst_symbs s = of_nat (bc c * bs c)" "bc c * bs c < 2 ^ 32" using cfg bd(5) [of "bc c"] by (auto simp: cfg_ok_def)
  then have cap: "unat (sl_burst_count s * sl_burst_symbs s) = bc c * bs c" by (simp only: unat_of_nat32)
  have cmp: "sl_burst_count s * sl_burst_symbs s < samples \<longleftrightarrow> \<not> unat samples \<le> bc c * bs c" by (simp add: word_less_nat_alt cap not_le)
  have run: "lime_bursts s (of_nat (wb c)) (of_nat (hb c)) ts samples 0 0 0 =
    Some (of_nat (unat samples * wb c + 16 * lime_bursts_needed c (unat samples)), concat (map (lime_burst c ts (unat samples)) [0..<lime_bursts_needed c (unat samples)]))"
    if "unat samples \<le> bc c * bs c" using bursts_spec [OF cfg that, of 0] by simp
  have "unat samples * wb c + 16 * lime_bursts_needed c (unat samples) \<le> bc c * 4096" if m: "unat samples \<le> bc c * bs c"
  proof -
    have "unat samples * wb c \<le> bc c * (bs c * wb c)" using mult_le_mono1 [OF m, of "wb c"] by (simp add: mult.assoc)
    moreover have "lime_bursts_needed c (unat samples) \<le> bc c"
      using bursts_needed_less [OF bd(1), of "bc c" "unat samples"] m by (simp add: not_less)
    moreover have "bs c * wb c = 4080" using cfg by (simp add: cfg_ok_def)
    ultimately show ?thesis by simp
  qed
  moreover have "bc c = unat (sl_burst_count s)" by (simp add: c_def cfg_of_def)
  ultimately show ?thesis using cmp run tc w(2) not_less [of "sl_burst_count s * sl_burst_symbs s" samples]
    unfolding limestr_stream_send_def c_def [symmetric] w(1) hbps by (auto simp: Let_def)
qed

lemma limestr_send_bursts_witness:
  "\<exists>s. create_limesdr_stream lime_ll LIMESDR_TX ''ci16'' 4096 0 = Inr s \<and>
     limestr_stream_send 0 (\<lambda>w t. 0) s 1024 5000 = Some (0, s\<lparr>sl_rcnt := sl_rcnt s + 1\<rparr>, lime_burst (cfg_of s) 5000 1024 0 @ lime_burst (cfg_of s) 5000 1024 1)"
proof -
  have "lime_packet_size (LIMESDR_TX = LIMESDR_RX) 32 1020 4096 = Inr (4096, 5, 4)" by (simp add: lime_packet_size_def LIMESDR_TX_def LIMESDR_RX_def)
  from created_ci16 [OF this] obtain s where s: "create_limesdr_stream lime_ll LIMESDR_TX ''ci16'' 4096 0 = Inr s" "sl_burst_count s = 5" "sl_tx_sampl_c s = 4"
    and b: "sl_burst_symbs s = 1020" by auto
  have "lime_bursts_needed (cfg_of s) 1024 = 2" by (simp add: lime_bursts_needed_def cfg_of_def b)
  then show ?thesis using limestr_send_bursts [OF s(1), of 0 "\<lambda>w t. 0" 1024 5000] s b
    by (simp add: LIMESDR_TX_def LIMESDR_RX_def Let_def upt_rec)
qed

end
