(* ===== verification/ChipBus.thy ===== *)
theory ChipBus
  imports Transport
begin

text \<open>
  Chip drivers (\<open>src/lib/hw\<close>) over the transactions of \<open>lowlevel/usdr_lowlevel.h\<close>. A driver is a function over
  the state of whatever is behind the bus, given as one operation; a driver with a state of its own runs on a pair.
  \<open>field\<close> is a bit range of a register: \<open>src/hwparser/gen_h.py\<close> turns the register maps (\<open>.yaml\<close>) into macros that
  read, set and pack such fields.
\<close>

section \<open>Transactions\<close>

type_synonym 'h bus = "lsreq \<Rightarrow> ('h, u8 list) dev"

definition bus_op :: "'h bus \<Rightarrow> lowlevel_ls_ops \<Rightarrow> u32 \<Rightarrow> nat \<Rightarrow> u8 list \<Rightarrow> ('h, u8 list) dev" where
  "bus_op bus opc a n out = dbind (bus \<lparr>rq_op = opc, rq_addr = a, rq_insz = n, rq_out = out\<rparr>) (\<lambda>d. dreturn (fit n 0 d))"

text \<open>\<open>lowlevel_spi_tr32\<close> without and with a place for the answer.\<close>

definition spi_tr32 :: "'h bus \<Rightarrow> u32 \<Rightarrow> u32 \<Rightarrow> ('h, unit) dev" where
  "spi_tr32 bus a w = dbind (bus_op bus USDR_LSOP_SPI a 0 (le_bytes 4 w)) (\<lambda>_. dreturn ())"

definition spi_tr32_rd :: "'h bus \<Rightarrow> u32 \<Rightarrow> u32 \<Rightarrow> ('h, u32) dev" where
  "spi_tr32_rd bus a w = dbind (bus_op bus USDR_LSOP_SPI a 4 (le_bytes 4 w)) (\<lambda>d. dreturn (of_le_bytes d))"

text \<open>A register of an I2C chip.\<close>

definition i2c_tr :: "'h bus \<Rightarrow> u32 \<Rightarrow> nat \<Rightarrow> u8 list \<Rightarrow> ('h, u8 list) dev" where
  "i2c_tr bus a n out = bus_op bus USDR_LSOP_I2C_DEV a n out"

section \<open>Drivers with a state\<close>

definition on_hw :: "('h, 'a) dev \<Rightarrow> ('h \<times> 's, 'a) dev" where
  "on_hw m = (\<lambda>(h, s). case m h of (r, h') \<Rightarrow> (r, (h', s)))"

definition dget :: "('s \<Rightarrow> 'a) \<Rightarrow> ('h \<times> 's, 'a) dev" where
  "dget f = (\<lambda>(h, s). (Inr (f s), (h, s)))"

definition dmod :: "('s \<Rightarrow> 's) \<Rightarrow> ('h \<times> 's, unit) dev" where
  "dmod f = (\<lambda>(h, s). (Inr (), (h, f s)))"

text \<open>A C function that returns a state or an error code in one integer.\<close>

definition dcode :: "('s, int) dev \<Rightarrow> ('s, int) dev" where
  "dcode m = (\<lambda>s. case m s of (Inl e, s') \<Rightarrow> (Inr e, s') | (Inr v, s') \<Rightarrow> (Inr v, s'))"

text \<open>A call whose error code the caller looks at.\<close>

definition dtry :: "('s, 'a) dev \<Rightarrow> ('s, int + 'a) dev" where
  "dtry m = (\<lambda>s. case m s of (r, s') \<Rightarrow> (Inr r, s'))"

definition dignore :: "('s, 'a) dev \<Rightarrow> ('s, unit) dev" where
  "dignore m = dbind (dtry m) (\<lambda>_. dreturn ())"

lemma chip_simps [simp]:
  "m h = (r, h') \<Longrightarrow> on_hw m (h, s) = (r, (h', s))" "dget f (h, s) = (Inr (f s), (h, s))" "dmod g (h, s) = (Inr (), (h, g s))"
  "m' t = (Inl e, t') \<Longrightarrow> dcode m' t = (Inr e, t')" "m' t = (Inr v, t') \<Longrightarrow> dcode m' t = (Inr v, t')"
  by (simp_all add: on_hw_def dget_def dmod_def dcode_def)

section \<open>Register fields\<close>

type_synonym field = "nat \<times> nat"

definition fmask :: "field \<Rightarrow> 'a::len word" where
  "fmask f = push_bit (fst f) (mask (snd f))"

definition fget :: "field \<Rightarrow> 'a::len word \<Rightarrow> 'a word" where
  "fget f x = drop_bit (fst f) (x AND fmask f)"

definition fset :: "field \<Rightarrow> 'a::len word \<Rightarrow> 'a word \<Rightarrow> 'a word" where
  "fset f v x = (x AND NOT (fmask f)) OR (push_bit (fst f) v AND fmask f)"

primrec fpack :: "field list \<Rightarrow> 'a::len word list \<Rightarrow> 'a word" where
  "fpack [] vs = 0"
| "fpack (f # fs) vs = (push_bit (fst f) (hd vs) AND fmask f) OR fpack fs (tl vs)"

lemma bit_fmask: "bit (fmask f :: 'a::len word) n \<longleftrightarrow> fst f \<le> n \<and> n < fst f + snd f \<and> n < LENGTH('a)"
  by (auto simp: fmask_def bit_push_bit_iff bit_mask_iff)

lemma bit_fget: "bit (fget f (x :: 'a::len word)) n \<longleftrightarrow> n < snd f \<and> bit x (fst f + n)"
  by (auto simp: fget_def bit_drop_bit_eq bit_and_iff bit_fmask dest: bit_imp_le_length)

lemma bit_fset: "bit (fset f v (x :: 'a::len word)) n \<longleftrightarrow>
  (if fst f \<le> n \<and> n < fst f + snd f then n < LENGTH('a) \<and> bit v (n - fst f) else bit x n)"
  by (auto simp: fset_def bit_or_iff bit_and_iff bit_not_iff bit_push_bit_iff bit_fmask dest: bit_imp_le_length)

text \<open>What is set is what is read, and other fields keep their values.\<close>

lemma fget_fset: "fst f + snd f \<le> LENGTH('a) \<Longrightarrow> fget f (fset f v (x :: 'a::len word)) = v AND mask (snd f)"
  by (rule bit_word_eqI) (auto simp: bit_fget bit_fset bit_and_iff bit_mask_iff)

lemma fget_fset_other:
  "fst f + snd f \<le> fst g \<or> fst g + snd g \<le> fst f \<Longrightarrow> fget f (fset g v (x :: 'a::len word)) = fget f x"
  by (rule bit_word_eqI) (auto simp: bit_fget bit_fset)

lemma bit_fpack:
  "length vs = length fs \<Longrightarrow> bit (fpack fs vs :: 'a::len word) n \<longleftrightarrow>
    (\<exists>i<length fs. fst (fs ! i) \<le> n \<and> n < fst (fs ! i) + snd (fs ! i) \<and> n < LENGTH('a) \<and> bit (vs ! i) (n - fst (fs ! i)))"
proof (induction fs arbitrary: vs)
  case (Cons f fs)
  then obtain v vs' where vs: "vs = v # vs'" by (cases vs) auto
  then show ?case using Cons
    by (auto simp: vs less_Suc_eq_0_disj bit_or_iff bit_and_iff bit_push_bit_iff bit_fmask)
qed simp


text \<open>Packed fields that do not overlap are read back.\<close>

primrec fdisjoint :: "field list \<Rightarrow> bool" where
  "fdisjoint [] \<longleftrightarrow> True"
| "fdisjoint (f # fs) \<longleftrightarrow> (\<forall>g\<in>set fs. fst f + snd f \<le> fst g \<or> fst g + snd g \<le> fst f) \<and> fdisjoint fs"

lemma fpack_other:
  "\<forall>g\<in>set fs. fst f + snd f \<le> fst g \<or> fst g + snd g \<le> fst f \<Longrightarrow> fst f \<le> n \<Longrightarrow> n < fst f + snd f \<Longrightarrow>
    \<not> bit (fpack fs vs :: 'a::len word) n"
  by (induction fs arbitrary: vs) (auto simp: bit_or_iff bit_and_iff bit_fmask)

lemma bit_fpack_in:
  "fdisjoint fs \<Longrightarrow> i < length fs \<Longrightarrow> i < length vs \<Longrightarrow> fst (fs ! i) \<le> n \<Longrightarrow> n < fst (fs ! i) + snd (fs ! i) \<Longrightarrow> n < LENGTH('a) \<Longrightarrow>
    bit (fpack fs vs :: 'a::len word) n \<longleftrightarrow> bit (vs ! i) (n - fst (fs ! i))"
proof (induction fs arbitrary: vs i)
  case (Cons f fs)
  show ?case
  proof (cases i)
    case 0
    then show ?thesis using Cons.prems fpack_other [of fs f n "tl vs"]
      by (cases vs) (auto simp: bit_or_iff bit_and_iff bit_push_bit_iff bit_fmask)
  next
    case (Suc j)
    then have "fs ! j \<in> set fs" using Cons.prems by simp
    then have "fst f + snd f \<le> fst (fs ! j) \<or> fst (fs ! j) + snd (fs ! j) \<le> fst f" using Cons.prems(1) by simp
    then have "\<not> (fst f \<le> n \<and> n < fst f + snd f)" using Cons.prems(4,5) Suc by auto
    then show ?thesis using Cons.IH [of j "tl vs"] Cons.prems Suc
      by (cases vs) (auto simp: bit_or_iff bit_and_iff bit_fmask)
  qed
qed simp

lemma fget_fpack:
  assumes "fdisjoint fs" "i < length fs" "i < length vs" "fst (fs ! i) + snd (fs ! i) \<le> LENGTH('a)"
  shows "fget (fs ! i) (fpack fs vs :: 'a::len word) = vs ! i AND mask (snd (fs ! i))"
proof (rule bit_word_eqI)
  fix n assume "n < LENGTH('a)"
  show "bit (fget (fs ! i) (fpack fs vs) :: 'a word) n \<longleftrightarrow> bit (vs ! i AND mask (snd (fs ! i))) n"
    using bit_fpack_in [OF assms(1-3), of "fst (fs ! i) + n"] assms(4)
    by (auto simp: bit_fget bit_and_iff bit_mask_iff)
qed

end
