(* ===== verification/Lms7002mRegs.thy ===== *)
theory Lms7002mRegs
  imports ChipBus
begin

text \<open>
  The registers of the LMS7002M transceiver, from its register map (\<open>src/lib/hw/lms7002m/lms7002m.yaml\<close>): the address
  and the fields of each register the driver composes, in the order of the arguments of its macro, and the fields the
  driver changes in registers it keeps.
\<close>

section \<open>Registers and their fields\<close>

text \<open>The bit of a write, the address and the fields (\<open>MAKE_LMS7002M_...\<close> of \<open>gen_h.py\<close>).\<close>

definition lms_wr :: "u32 \<Rightarrow> u32 \<Rightarrow> u32" where
  "lms_wr a v = 0x80000000 OR push_bit 16 a OR (v AND 0xffff)"

definition lms_make :: "u32 \<times> field list \<Rightarrow> u32 list \<Rightarrow> u32" where
  "lms_make r vs = lms_wr (fst r) (fpack (snd r) vs)"

definition AFE_0x0082 :: "u32 \<times> field list" where "AFE_0x0082 = (0x0082, [(13, 3), (12, 1), (10, 2), (8, 2), (5, 1), (4, 1), (3, 1), (2, 1), (1, 1), (0, 1)])"
definition CGEN_0x0087 :: "u32 \<times> field list" where "CGEN_0x0087 = (0x0087, [(0, 16)])"
definition CGEN_0x0088 :: "u32 \<times> field list" where "CGEN_0x0088 = (0x0088, [(4, 10), (0, 4)])"
definition CGEN_0x0089 :: "u32 \<times> field list" where "CGEN_0x0089 = (0x0089, [(15, 1), (14, 1), (13, 1), (11, 2), (3, 8), (0, 3)])"
definition CGEN_0x008B :: "u32 \<times> field list" where "CGEN_0x008B = (0x008B, [(9, 5), (1, 8), (0, 1)])"
definition CGEN_ENABLE :: "u32 \<times> field list" where "CGEN_ENABLE = (0x0086, [(15, 1), (14, 1), (11, 1), (10, 1), (9, 1), (8, 1), (6, 1), (5, 1), (4, 1), (3, 1), (2, 1), (1, 1), (0, 1)])"
definition DC_0x05C2 :: "u32 \<times> field list" where "DC_0x05C2 = (0x05C2, [(15, 1), (14, 1), (13, 1), (12, 1), (11, 1), (10, 1), (9, 1), (8, 1), (7, 1), (6, 1), (5, 1), (4, 1), (3, 1), (2, 1), (1, 1), (0, 1)])"
definition DC_0x05CB :: "u32 \<times> field list" where "DC_0x05CB = (0x05CB, [(8, 8), (0, 8)])"
definition DC_PD :: "u32 \<times> field list" where "DC_PD = (0x05C0, [(15, 1), (7, 1), (6, 1), (5, 1), (4, 1), (3, 1), (2, 1), (1, 1), (0, 1)])"
definition LDO_0x0095 :: "u32 \<times> field list" where "LDO_0x0095 = (0x0095, [(15, 1), (14, 1), (13, 1), (12, 1), (11, 1), (10, 1), (9, 1), (8, 1), (7, 1), (2, 1), (1, 1), (0, 1)])"
definition LDO_0x0096 :: "u32 \<times> field list" where "LDO_0x0096 = (0x0096, [(15, 1), (14, 1), (13, 1), (12, 1), (11, 1), (10, 1), (9, 1), (8, 1), (7, 1), (6, 1), (5, 1), (4, 1), (3, 1), (2, 1), (1, 1), (0, 1)])"
definition LDO_0x00A6 :: "u32 \<times> field list" where "LDO_0x00A6 = (0x00A6, [(12, 1), (11, 1), (10, 1), (9, 1), (8, 1), (7, 1), (6, 1), (5, 1), (4, 1), (3, 1), (2, 1), (1, 1), (0, 1)])"
definition LML_0x0020 :: "u32 \<times> field list" where "LML_0x0020 = (0x0020, [(15, 1), (14, 1), (13, 1), (12, 1), (11, 1), (10, 1), (9, 1), (8, 1), (7, 1), (6, 1), (5, 1), (4, 1), (3, 1), (2, 1), (0, 2)])"
definition LML_0x0022 :: "u32 \<times> field list" where "LML_0x0022 = (0x0022, [(15, 1), (14, 1), (13, 1), (12, 1), (11, 1), (10, 1), (9, 1), (8, 1), (7, 1), (6, 1), (5, 1), (4, 1), (3, 1), (2, 1), (1, 1), (0, 1)])"
definition LML_0x0023 :: "u32 \<times> field list" where "LML_0x0023 = (0x0023, [(15, 1), (14, 1), (13, 1), (12, 1), (11, 1), (10, 1), (9, 1), (8, 1), (6, 1), (5, 1), (4, 1), (3, 1), (2, 1), (1, 1), (0, 1)])"
definition LML_0x0024 :: "u32 \<times> field list" where "LML_0x0024 = (0x0024, [(14, 2), (12, 2), (10, 2), (8, 2), (6, 2), (4, 2), (2, 2), (0, 2)])"
definition LML_0x0027 :: "u32 \<times> field list" where "LML_0x0027 = (0x0027, [(14, 2), (12, 2), (10, 2), (8, 2), (6, 2), (4, 2), (2, 2), (0, 2)])"
definition LML_0x002A :: "u32 \<times> field list" where "LML_0x002A = (0x002A, [(10, 2), (8, 2), (6, 2), (4, 2), (2, 2), (0, 2)])"
definition LML_0x002B :: "u32 \<times> field list" where "LML_0x002B = (0x002B, [(15, 1), (14, 1), (9, 1), (8, 1), (4, 2), (2, 2), (1, 1), (0, 1)])"
definition LML_0x002C :: "u32 \<times> field list" where "LML_0x002C = (0x002C, [(8, 8), (0, 8)])"
definition LML_0x002E :: "u32 \<times> field list" where "LML_0x002E = (0x002E, [(15, 1)])"
definition RBB_0x0115 :: "u32 \<times> field list" where "RBB_0x0115 = (0x0115, [(15, 1), (14, 1), (3, 1), (2, 1), (1, 1), (0, 1)])"
definition RBB_0x0116 :: "u32 \<times> field list" where "RBB_0x0116 = (0x0116, [(11, 5), (8, 3), (0, 8)])"
definition RBB_0x0117 :: "u32 \<times> field list" where "RBB_0x0117 = (0x0117, [(11, 3), (0, 11)])"
definition RBB_0x0118 :: "u32 \<times> field list" where "RBB_0x0118 = (0x0118, [(13, 3), (5, 5), (0, 5)])"
definition RBB_0x0119 :: "u32 \<times> field list" where "RBB_0x0119 = (0x0119, [(15, 1), (10, 5), (5, 5), (0, 5)])"
definition RBB_0x011A :: "u32 \<times> field list" where "RBB_0x011A = (0x011A, [(9, 5), (0, 8)])"
definition RFE_0x010C :: "u32 \<times> field list" where "RFE_0x010C = (0x010C, [(12, 4), (8, 4), (7, 1), (6, 1), (5, 1), (4, 1), (3, 1), (2, 1), (1, 1), (0, 1)])"
definition RFE_0x010D :: "u32 \<times> field list" where "RFE_0x010D = (0x010D, [(7, 2), (6, 1), (4, 1), (3, 1), (2, 1), (1, 1), (0, 1)])"
definition RFE_0x010F :: "u32 \<times> field list" where "RFE_0x010F = (0x010F, [(10, 5), (5, 5), (0, 5)])"
definition RFE_0x0113 :: "u32 \<times> field list" where "RFE_0x0113 = (0x0113, [(6, 4), (2, 4), (0, 2)])"
definition RXNCO_0x0440 :: "u32 \<times> field list" where "RXNCO_0x0440 = (0x0440, [(5, 4), (1, 4), (0, 1)])"
definition RXNCO_0x0442 :: "u32 \<times> field list" where "RXNCO_0x0442 = (0x0442, [(0, 16)])"
definition RXNCO_0x0443 :: "u32 \<times> field list" where "RXNCO_0x0443 = (0x0443, [(0, 16)])"
definition RXTSP_0x0400 :: "u32 \<times> field list" where "RXTSP_0x0400 = (0x0400, [(15, 1), (13, 2), (12, 1), (9, 1), (7, 2), (6, 1), (5, 1), (4, 1), (3, 1), (2, 1), (1, 1), (0, 1)])"
definition RXTSP_0x0401 :: "u32 \<times> field list" where "RXTSP_0x0401 = (0x0401, [(0, 11)])"
definition RXTSP_0x0402 :: "u32 \<times> field list" where "RXTSP_0x0402 = (0x0402, [(0, 11)])"
definition RXTSP_0x0404 :: "u32 \<times> field list" where "RXTSP_0x0404 = (0x0404, [(13, 3), (0, 3)])"
definition RXTSP_0x040C :: "u32 \<times> field list" where "RXTSP_0x040C = (0x040C, [(14, 2), (13, 1), (12, 1), (8, 1), (7, 1), (6, 1), (5, 1), (4, 1), (3, 1), (2, 1), (1, 1), (0, 1)])"
definition SXX_0x011C :: "u32 \<times> field list" where "SXX_0x011C = (0x011C, [(15, 1), (14, 1), (13, 1), (12, 1), (11, 1), (10, 1), (9, 1), (8, 1), (7, 1), (6, 1), (5, 1), (4, 1), (3, 1), (2, 1), (1, 1), (0, 1)])"
definition SXX_0x011D :: "u32 \<times> field list" where "SXX_0x011D = (0x011D, [(0, 16)])"
definition SXX_0x011E :: "u32 \<times> field list" where "SXX_0x011E = (0x011E, [(4, 10), (0, 4)])"
definition SXX_0x011F :: "u32 \<times> field list" where "SXX_0x011F = (0x011F, [(12, 3), (9, 3), (6, 3), (3, 3), (2, 1), (1, 1), (0, 1)])"
definition SXX_0x0120 :: "u32 \<times> field list" where "SXX_0x0120 = (0x0120, [(8, 8), (0, 8)])"
definition SXX_0x0121 :: "u32 \<times> field list" where "SXX_0x0121 = (0x0121, [(11, 5), (3, 8), (1, 2), (0, 1)])"
definition SXX_0x0122 :: "u32 \<times> field list" where "SXX_0x0122 = (0x0122, [(12, 1), (6, 6), (0, 6)])"
definition TBB_0x0105 :: "u32 \<times> field list" where "TBB_0x0105 = (0x0105, [(15, 1), (14, 1), (12, 2), (4, 1), (3, 1), (2, 1), (1, 1), (0, 1)])"
definition TBB_0x0108 :: "u32 \<times> field list" where "TBB_0x0108 = (0x0108, [(10, 6), (5, 5), (0, 5)])"
definition TBB_0x0109 :: "u32 \<times> field list" where "TBB_0x0109 = (0x0109, [(8, 8), (0, 8)])"
definition TBB_0x010A :: "u32 \<times> field list" where "TBB_0x010A = (0x010A, [(14, 2), (13, 1), (8, 5), (0, 8)])"
definition TBB_LPFS5 :: "u32 \<times> field list" where "TBB_LPFS5 = (0x010B, [(0, 1)])"
definition TRF_0x0100 :: "u32 \<times> field list" where "TRF_0x0100 = (0x0100, [(15, 1), (14, 1), (12, 2), (10, 2), (3, 1), (2, 1), (1, 1), (0, 1)])"
definition TRF_0x0101 :: "u32 \<times> field list" where "TRF_0x0101 = (0x0101, [(13, 3), (11, 2), (6, 5), (1, 5), (0, 1)])"
definition TRF_0x0103 :: "u32 \<times> field list" where "TRF_0x0103 = (0x0103, [(11, 1), (10, 1), (5, 5), (0, 5)])"
definition TXNCO_0x0240 :: "u32 \<times> field list" where "TXNCO_0x0240 = (0x0240, [(5, 4), (1, 4), (0, 1)])"
definition TXNCO_0x0242 :: "u32 \<times> field list" where "TXNCO_0x0242 = (0x0242, [(0, 16)])"
definition TXNCO_0x0243 :: "u32 \<times> field list" where "TXNCO_0x0243 = (0x0243, [(0, 16)])"
definition TXTSP_0x0200 :: "u32 \<times> field list" where "TXTSP_0x0200 = (0x0200, [(9, 1), (7, 2), (6, 1), (5, 1), (4, 1), (3, 1), (2, 1), (1, 1), (0, 1)])"
definition TXTSP_0x0201 :: "u32 \<times> field list" where "TXTSP_0x0201 = (0x0201, [(0, 11)])"
definition TXTSP_0x0202 :: "u32 \<times> field list" where "TXTSP_0x0202 = (0x0202, [(0, 11)])"
definition TXTSP_0x0208 :: "u32 \<times> field list" where "TXTSP_0x0208 = (0x0208, [(14, 2), (13, 1), (8, 1), (7, 1), (6, 1), (5, 1), (4, 1), (3, 1), (1, 1), (0, 1)])"
definition XBUF_0x0085 :: "u32 \<times> field list" where "XBUF_0x0085 = (0x0085, [(8, 1), (7, 1), (6, 1), (5, 1), (4, 1), (3, 1), (2, 1), (1, 1), (0, 1)])"

text \<open>Addresses of registers written as a whole, and fields of the registers the driver keeps or reads.\<close>

definition LDO_0x0092_addr :: u32 where "LDO_0x0092_addr = 0x0092"
definition LDO_0x0093_addr :: u32 where "LDO_0x0093_addr = 0x0093"
definition SXX_0x0124_addr :: u32 where "SXX_0x0124_addr = 0x0124"
definition DC_0x05C3_addr :: u32 where "DC_0x05C3_addr = 0x05C3"
definition RXTSP_0x0403_addr :: u32 where "RXTSP_0x0403_addr = 0x0403"
definition TXTSP_0x0203_addr :: u32 where "TXTSP_0x0203_addr = 0x0203"
definition RXTSP_0x040B_addr :: u32 where "RXTSP_0x040B_addr = 0x040B"
definition TXTSP_0x020C_addr :: u32 where "TXTSP_0x020C_addr = 0x020C"
definition CGEN_0x008C_addr :: u32 where "CGEN_0x008C_addr = 0x008C"
definition SXX_0x0123_addr :: u32 where "SXX_0x0123_addr = 0x0123"
definition LML_0x002F_addr :: u32 where "LML_0x002F_addr = 0x002F"
definition LML_LRST_TX_B :: field where "LML_LRST_TX_B = (15, 1)"
definition LML_MRST_TX_B :: field where "LML_MRST_TX_B = (14, 1)"
definition LML_LRST_TX_A :: field where "LML_LRST_TX_A = (13, 1)"
definition LML_MRST_TX_A :: field where "LML_MRST_TX_A = (12, 1)"
definition LML_LRST_RX_B :: field where "LML_LRST_RX_B = (11, 1)"
definition LML_MRST_RX_B :: field where "LML_MRST_RX_B = (10, 1)"
definition LML_LRST_RX_A :: field where "LML_LRST_RX_A = (9, 1)"
definition LML_MRST_RX_A :: field where "LML_MRST_RX_A = (8, 1)"
definition LML_SRST_RXFIFO :: field where "LML_SRST_RXFIFO = (7, 1)"
definition LML_SRST_TXFIFO :: field where "LML_SRST_TXFIFO = (6, 1)"
definition LML_MAC :: field where "LML_MAC = (0, 2)"
definition LML_VER :: field where "LML_VER = (11, 5)"
definition LML_REV :: field where "LML_REV = (6, 5)"
definition CGEN_VCO_CMPHO :: field where "CGEN_VCO_CMPHO = (13, 1)"
definition SXX_VCO_CMPHO :: field where "SXX_VCO_CMPHO = (13, 1)"
definition CGEN_VCO_CMPLO :: field where "CGEN_VCO_CMPLO = (12, 1)"
definition SXX_VCO_CMPLO :: field where "SXX_VCO_CMPLO = (12, 1)"
definition EN_DIR_SXX :: field where "EN_DIR_SXX = (4, 1)"
definition EN_DIR_RBB :: field where "EN_DIR_RBB = (3, 1)"
definition EN_DIR_RFE :: field where "EN_DIR_RFE = (2, 1)"
definition EN_DIR_TBB :: field where "EN_DIR_TBB = (1, 1)"
definition EN_DIR_TRF :: field where "EN_DIR_TRF = (0, 1)"
definition HBD_OVR :: field where "HBD_OVR = (12, 3)"
definition HBI_OVR :: field where "HBI_OVR = (12, 3)"
definition RX_IQCORR :: field where "RX_IQCORR = (0, 12)"
definition TX_IQCORR :: field where "TX_IQCORR = (0, 12)"
definition RX_CMIX_BYP :: field where "RX_CMIX_BYP = (7, 1)"
definition RX_CMIX_SC :: field where "RX_CMIX_SC = (13, 1)"
definition RX_DC_BYP :: field where "RX_DC_BYP = (2, 1)"
definition RX_GC_BYP :: field where "RX_GC_BYP = (1, 1)"
definition RX_PH_BYP :: field where "RX_PH_BYP = (0, 1)"
definition TX_CMIX_BYP :: field where "TX_CMIX_BYP = (8, 1)"
definition TX_ISINC_BYP :: field where "TX_ISINC_BYP = (7, 1)"
definition TSGDCLDI :: field where "TSGDCLDI = (5, 1)"
definition TSGDCLDQ :: field where "TSGDCLDQ = (6, 1)"

lemmas lms_layouts =
  AFE_0x0082_def CGEN_0x0087_def CGEN_0x0088_def CGEN_0x0089_def CGEN_0x008B_def CGEN_ENABLE_def DC_0x05C2_def
  DC_0x05CB_def DC_PD_def LDO_0x0095_def LDO_0x0096_def LDO_0x00A6_def LML_0x0020_def LML_0x0022_def LML_0x0023_def
  LML_0x0024_def LML_0x0027_def LML_0x002A_def LML_0x002B_def LML_0x002C_def LML_0x002E_def RBB_0x0115_def
  RBB_0x0116_def RBB_0x0117_def RBB_0x0118_def RBB_0x0119_def RBB_0x011A_def RFE_0x010C_def RFE_0x010D_def
  RFE_0x010F_def RFE_0x0113_def RXNCO_0x0440_def RXNCO_0x0442_def RXNCO_0x0443_def RXTSP_0x0400_def RXTSP_0x0401_def
  RXTSP_0x0402_def RXTSP_0x0404_def RXTSP_0x040C_def SXX_0x011C_def SXX_0x011D_def SXX_0x011E_def SXX_0x011F_def
  SXX_0x0120_def SXX_0x0121_def SXX_0x0122_def TBB_0x0105_def TBB_0x0108_def TBB_0x0109_def TBB_0x010A_def TBB_LPFS5_def
  TRF_0x0100_def TRF_0x0101_def TRF_0x0103_def TXNCO_0x0240_def TXNCO_0x0242_def TXNCO_0x0243_def TXTSP_0x0200_def
  TXTSP_0x0201_def TXTSP_0x0202_def TXTSP_0x0208_def XBUF_0x0085_def LDO_0x0092_addr_def LDO_0x0093_addr_def
  SXX_0x0124_addr_def DC_0x05C3_addr_def RXTSP_0x0403_addr_def TXTSP_0x0203_addr_def RXTSP_0x040B_addr_def
  TXTSP_0x020C_addr_def CGEN_0x008C_addr_def SXX_0x0123_addr_def LML_0x002F_addr_def

end
