(* ===== verification/Lms7002m.thy ===== *)
theory Lms7002m
  imports Lms7002mRegs
begin

text \<open>
  The driver of the LMS7002M transceiver (\<open>src/lib/hw/lms7002m/lms7002m.c\<close>). It keeps copies of the registers whose fields it
  changes one at a time, for the two channels. Commands go to the channels of the MAC field; a call that needs
  another one writes the field, the command and the field again. Arrays of two channels are functions. Delays and log messages have no effect
  here. The two functions that take a filter bandwidth through floating-point formulas are not modelled.
\<close>

section \<open>State\<close>

record lms_rfe =
  rf_path :: u32
  rf_lb :: bool
  rf_en :: bool
  rf_lna :: u32
  rf_lbg :: u32
  rf_tia :: u32

record lms_trf =
  tr_lb :: bool
  tr_en :: bool
  tr_path :: u32
  tr_gain :: u32
  tr_lbloss :: u32

record lms7002m_state =
  lm_lsaddr :: u32
  lm_rfe :: "nat \<Rightarrow> lms_rfe"
  lm_trf :: "nat \<Rightarrow> lms_trf"
  lm_temp :: u16
  lm_reg_mac :: u16
  lm_reg_amac :: u16
  lm_en_dir :: "nat \<Rightarrow> u16"
  lm_rx_dscpcfg :: "nat \<Rightarrow> u16"
  lm_rx_dscmode :: "nat \<Rightarrow> u16"
  lm_rx_hbdo_iq :: "nat \<Rightarrow> u16"
  lm_tx_dscpcfg :: "nat \<Rightarrow> u16"
  lm_tx_dscmode :: "nat \<Rightarrow> u16"
  lm_tx_hbdo_iq :: "nat \<Rightarrow> u16"
  lm_gc_corr :: "nat \<Rightarrow> int"
  lm_gc :: "nat \<Rightarrow> u8"

type_synonym ('h, 'a) lms = "('h \<times> lms7002m_state, 'a) dev"

datatype lms_tsp = LMS_TXTSP | LMS_RXTSP
datatype lms_sxx_path = SXX_RX | SXX_TX
datatype lms_gen = XXTSP_NORMAL | XXTSP_DC | XXTSP_TONE
datatype lms_rfe_mode = RFE_MODE_DISABLE | RFE_MODE_NORMAL | RFE_MODE_LOOPBACKRF
datatype lms_rfe_gain = RFE_GAIN_LNA | RFE_GAIN_TIA | RFE_GAIN_RFB | RFE_GAIN_NONE
datatype lms_trf_mode = TRF_MODE_DISABLE | TRF_MODE_NORMAL | TRF_MODE_LOOPBACK
datatype lms_trf_gain = TRF_GAIN_PAD | TRF_GAIN_LB
datatype lms_rbb_path = RBB_LBF | RBB_HBF | RBB_BYP | RBB_PDET
datatype lms_rbb_mode = RBB_MODE_DISABLE | RBB_MODE_NORMAL | RBB_MODE_LOOPBACK
datatype lms_tbb_path = TBB_BYP | TBB_LAD | TBB_HBF
datatype lms_tbb_mode = TBB_MODE_DISABLE | TBB_MODE_NORMAL | TBB_MODE_LOOPBACK | TBB_MODE_LOOPBACK_SWAPIQ

definition RFE_LNAH :: u32 where "RFE_LNAH = 1"
definition RFE_LNAL :: u32 where "RFE_LNAL = 2"
definition RFE_LNAW :: u32 where "RFE_LNAW = 3"
definition TRF_MUTE :: u32 where "TRF_MUTE = 0"
definition TRF_B1 :: u32 where "TRF_B1 = 1"
definition TRF_B2 :: u32 where "TRF_B2 = 2"

abbreviation b2w :: "bool \<Rightarrow> u32" where "b2w b \<equiv> of_bool b"

definition both :: "('a \<Rightarrow> 'a) \<Rightarrow> (nat \<Rightarrow> 'a) \<Rightarrow> nat \<Rightarrow> 'a" where
  "both f a = a(0 := f (a 0), 1 := f (a 1))"

section \<open>Access\<close>

primrec lms7002m_spi_post :: "'h bus \<Rightarrow> u32 list \<Rightarrow> ('h, unit) lms" where
  "lms7002m_spi_post bus [] = dreturn ()"
| "lms7002m_spi_post bus (r # rs) =
     dseq (dbind (dget lm_lsaddr) (\<lambda>a. on_hw (spi_tr32 bus a r)))
      (dseq (dmod (\<lambda>m. if drop_bit 16 r AND 0x7fff = fst LML_0x0020 then m\<lparr>lm_reg_amac := ucast r\<rparr> else m))
        (lms7002m_spi_post bus rs))"

definition lms_send :: "'h bus \<Rightarrow> (lms7002m_state \<Rightarrow> u32 list) \<Rightarrow> ('h, unit) lms" where
  "lms_send bus f = dbind (dget f) (lms7002m_spi_post bus)"

definition lms7002m_spi_rd :: "'h bus \<Rightarrow> u32 \<Rightarrow> ('h, u16) lms" where
  "lms7002m_spi_rd bus a = dbind (dget lm_lsaddr) (\<lambda>ls. dbind (on_hw (spi_tr32_rd bus ls (push_bit 16 a))) (\<lambda>w. dreturn (ucast w)))"

definition lms_mac :: "lms7002m_state \<Rightarrow> u16" where
  "lms_mac m = fget LML_MAC (lm_reg_mac m)"

definition lms_mac_reg :: "lms7002m_state \<Rightarrow> u16 \<Rightarrow> u32" where
  "lms_mac_reg m ch = lms_wr (fst LML_0x0020) (ucast (fset LML_MAC ch (lm_reg_mac m)))"

definition lms_mac_back :: "lms7002m_state \<Rightarrow> u32" where
  "lms_mac_back m = lms_wr (fst LML_0x0020) (ucast (lm_reg_mac m))"

definition lms7002m_check_chan :: "lms7002m_state \<Rightarrow> nat \<Rightarrow> bool" where
  "lms7002m_check_chan m i \<longleftrightarrow> lms_mac m AND of_nat (i + 1) \<noteq> 0"

definition lms7002m_is_none :: "lms7002m_state \<Rightarrow> bool" where
  "lms7002m_is_none m \<longleftrightarrow> lms_mac m = 0"

definition each_chan :: "lms7002m_state \<Rightarrow> ('a \<Rightarrow> 'a) \<Rightarrow> (nat \<Rightarrow> 'a) \<Rightarrow> nat \<Rightarrow> 'a" where
  "each_chan m f a = (\<lambda>i. if i < 2 \<and> lms7002m_check_chan m i then f (a i) else a i)"

definition lms7002m_mask_field_set :: "lms7002m_state \<Rightarrow> field \<Rightarrow> u16 \<Rightarrow> (nat \<Rightarrow> u16) \<Rightarrow> nat \<Rightarrow> u16" where
  "lms7002m_mask_field_set m f v reg = each_chan m (fset f v) reg"

section \<open>Start and end\<close>

definition lms_reset_regs :: "u32 \<Rightarrow> bool \<Rightarrow> u32 list" where
  "lms_reset_regs ldo_mask txrx_clk =
    [lms_make LML_0x0020 (replicate 14 0 @ [3]),
     lms_make LML_0x0020 (replicate 14 1 @ [3]),
     lms_make LML_0x002E [0],
     lms_wr LDO_0x0092_addr ldo_mask,
     lms_wr LDO_0x0093_addr (drop_bit 16 ldo_mask),
     lms_make LDO_0x0095 (replicate 12 0),
     lms_make LDO_0x0096 (replicate 16 0),
     lms_make LDO_0x00A6 (replicate 9 0 @ [1, 1, 1, 1]),
     lms_make XBUF_0x0085 [1, 1, 0, 0, b2w txrx_clk, b2w txrx_clk, 0, 0, 1],
     lms_make AFE_0x0082 [0, 0, 0, 0, 1, 1, 1, 1, 1, 0]]"

definition lms_fresh :: "lms7002m_state \<Rightarrow> lms7002m_state" where
  "lms_fresh m = m\<lparr>lm_reg_mac := ucast (lms_make LML_0x0020 (replicate 14 1 @ [3])),
     lm_rfe := both (\<lambda>r. \<lparr>rf_path = 0, rf_lb = False, rf_en = False, rf_lna = 12, rf_lbg = 0, rf_tia = 1\<rparr>) (lm_rfe m),
     lm_trf := both (\<lambda>r. \<lparr>tr_lb = False, tr_en = False, tr_path = 0, tr_gain = 0, tr_lbloss = 0\<rparr>) (lm_trf m),
     lm_en_dir := both (\<lambda>r. 0) (lm_en_dir m), lm_rx_dscpcfg := both (\<lambda>r. 0) (lm_rx_dscpcfg m),
     lm_rx_dscmode := both (\<lambda>r. 0) (lm_rx_dscmode m), lm_rx_hbdo_iq := both (\<lambda>r. 0) (lm_rx_hbdo_iq m),
     lm_tx_dscpcfg := both (\<lambda>r. 0) (lm_tx_dscpcfg m), lm_tx_dscmode := both (\<lambda>r. 0) (lm_tx_dscmode m),
     lm_tx_hbdo_iq := both (\<lambda>r. 0) (lm_tx_hbdo_iq m), lm_gc_corr := both (\<lambda>r. 0) (lm_gc_corr m), lm_gc := both (\<lambda>r. 12) (lm_gc m)\<rparr>"

definition lms7002m_create :: "'h bus \<Rightarrow> u32 \<Rightarrow> u32 \<Rightarrow> bool \<Rightarrow> ('h, unit) lms" where
  "lms7002m_create bus lsaddr ldo_mask txrx_clk =
    dseq (dmod (\<lambda>m. m\<lparr>lm_lsaddr := lsaddr\<rparr>))
     (dseq (lms7002m_spi_post bus (lms_reset_regs ldo_mask txrx_clk))
       (dbind (lms7002m_spi_rd bus LML_0x002F_addr) (\<lambda>ver.
         if fget LML_VER ver \<noteq> 7 then dfail (- ENODEV)
         else if fget LML_REV ver \<noteq> 1 then dfail (- ENODEV)
         else dmod lms_fresh)))"

definition lms7002m_destroy :: "'h bus \<Rightarrow> ('h, unit) lms" where
  "lms7002m_destroy bus =
    dseq (dmod (\<lambda>m. m\<lparr>lm_en_dir := both (\<lambda>r. 0) (lm_en_dir m)\<rparr>))
     (lms_send bus (\<lambda>m. concat (map (\<lambda>i. [lms_mac_reg m (of_nat i + 1), lms_wr SXX_0x0124_addr (ucast (lm_en_dir m i))]) [0, 1])
        @ [lms_make AFE_0x0082 [4, 0, 0, 0, 1, 1, 1, 1, 1, 0]]))"

section \<open>Channels and the digital port\<close>

definition lms7002m_mac_set :: "'h bus \<Rightarrow> u16 \<Rightarrow> ('h, unit) lms" where
  "lms7002m_mac_set bus mac = dbind (dget lms_mac) (\<lambda>c.
     if c = mac then dreturn ()
     else dseq (dmod (\<lambda>m. m\<lparr>lm_reg_mac := fset LML_MAC mac (lm_reg_mac m)\<rparr>)) (lms_send bus (\<lambda>m. [lms_mac_back m])))"

definition lms7002m_limelight_reset :: "'h bus \<Rightarrow> ('h, unit) lms" where
  "lms7002m_limelight_reset bus = lms_send bus (\<lambda>m.
     [lms_wr (fst LML_0x0020) (ucast (foldl (\<lambda>r f. fset f 1 r) (lm_reg_mac m)
        [LML_LRST_TX_B, LML_MRST_TX_B, LML_LRST_TX_A, LML_MRST_TX_A, LML_LRST_RX_B, LML_MRST_RX_B, LML_LRST_RX_A,
         LML_MRST_RX_A, LML_SRST_RXFIFO, LML_SRST_TXFIFO])), lms_mac_back m])"

record lms_limelight_conf =
  lc_rxsisoddr :: bool
  lc_txsisoddr :: bool
  lc_ds_high :: bool
  lc_rx_ext_rd_fclk :: bool
  lc_rx_lfsr :: bool
  lc_rx_tx_dig_loopback :: bool
  lc_rx_port :: bool
  lc_rxdiv :: u8
  lc_txdiv :: u8

definition lms7002m_limelight_configure :: "'h bus \<Rightarrow> lms_limelight_conf \<Rightarrow> ('h, unit) lms" where
  "lms7002m_limelight_configure bus p = lms_send bus (\<lambda>m.
     let txmclk = (if lc_txdiv p \<le> 1 then 2 else 0); rxmclk = (if lc_rxdiv p \<le> 1 then 3 else 1);
         rxmux = (if lc_rx_lfsr p then 2 else if lc_rx_tx_dig_loopback p then 1 else 0);
         rdclk = (if lc_rx_ext_rd_fclk p \<or> lc_rx_tx_dig_loopback p then (if lc_rx_port p then 2 else 3) else (if lc_rx_port p then 0 else 1))
     in [lms_make LML_0x0022 [0, b2w (if lc_rx_port p then lc_txsisoddr p else lc_rxsisoddr p), 0,
           b2w (if lc_rx_port p then lc_rxsisoddr p else lc_txsisoddr p), b2w (lc_ds_high p), 0, 0, 0, 0, 0, b2w (lc_ds_high p), 0, 0, 0, 0, 0],
         lms_make LML_0x0023 [0, 1, 0, 1, 0, 1, 0, 1, 1, 0, b2w (\<not> lc_rx_port p), 0, 0, b2w (lc_rx_port p), 0],
         lms_make LML_0x002A [rxmux, if lc_rx_port p then 1 else 0, 2, if lc_rx_port p then 1 else 0, rdclk, 2],
         lms_make LML_0x002B [0, 1, 0, 0, if lc_rx_port p then txmclk else rxmclk, if lc_rx_port p then rxmclk else txmclk,
           b2w (lc_txdiv p > 1), b2w (lc_rxdiv p > 1)],
         lms_make LML_0x002C [ucast (lc_txdiv p) div 2 - 1, ucast (lc_rxdiv p) div 2 - 1],
         lms_wr (fst LML_0x0020) (ucast (fset LML_SRST_TXFIFO 1 (fset LML_SRST_RXFIFO 1 (lm_reg_mac m)))),
         lms_mac_back m])"

text \<open>Position of each of the four streams in the frame; a map that names one twice leaves the others at 0.\<close>

definition lms7002m_fill_pos :: "u8 list \<Rightarrow> int + u8 list" where
  "lms7002m_fill_pos l =
    (if \<forall>i<4. l ! i < 4 then Inr (foldl (\<lambda>p i. p[unat (l ! i) := of_nat i]) [0, 0, 0, 0] [0..<4]) else Inl (- EINVAL))"

definition lms7002m_limelight_map :: "'h bus \<Rightarrow> u8 list \<Rightarrow> u8 list \<Rightarrow> ('h, unit) lms" where
  "lms7002m_limelight_map bus l1m l2m =
    (case lms7002m_fill_pos l1m of Inl e \<Rightarrow> dfail e
     | Inr l1p \<Rightarrow> (case lms7002m_fill_pos l2m of Inl e \<Rightarrow> dfail e
        | Inr l2p \<Rightarrow> lms7002m_spi_post bus
            [lms_make LML_0x0024 (map ucast (rev l1m @ rev l1p)), lms_make LML_0x0027 (map ucast (rev l2m @ rev l2p))]))"

section \<open>Frequencies\<close>

text \<open>The ratio of a fractional synthesizer: an integer and a fraction of 20 bits.\<close>

definition pll_calc :: "u32 \<Rightarrow> u32 \<Rightarrow> int + u32 \<times> u32" where
  "pll_calc fref vco =
    (if fref = 0 then Inl CRASH_FPE
     else let nint = vco div fref in
       Inr (nint, ucast (ucast (vco - nint * fref) * push_bit 20 1 div ucast fref :: u64)))"

definition VCO_LOW :: int where "VCO_LOW = 0"
definition VCO_FAIL :: int where "VCO_FAIL = 1"
definition VCO_OK :: int where "VCO_OK = 2"
definition VCO_HIGH :: int where "VCO_HIGH = 3"

text \<open>Try a capacitor of the oscillator and read the comparators; the result of C is a state or an error in one integer.\<close>

definition lms7002m_cgen_trim_vco :: "'h bus \<Rightarrow> int \<Rightarrow> ('h, int) lms" where
  "lms7002m_cgen_trim_vco bus cap = dcode
    (dseq (lms7002m_spi_post bus [lms_make CGEN_0x008B [15, of_int cap, 0]])
      (dbind (lms7002m_spi_rd bus CGEN_0x008C_addr) (\<lambda>reg.
        dreturn (uint (push_bit 1 (fget CGEN_VCO_CMPHO reg) OR fget CGEN_VCO_CMPLO reg)))))"

definition lms7002m_sxx_trim_vco :: "'h bus \<Rightarrow> int \<Rightarrow> ('h, int) lms" where
  "lms7002m_sxx_trim_vco bus cap = dcode
    (dseq (lms_send bus (\<lambda>m. [lms_make SXX_0x0121 [16, of_int cap, ucast (lm_temp m), 0]]))
      (dbind (lms7002m_spi_rd bus SXX_0x0123_addr) (\<lambda>reg.
        dreturn (uint (push_bit 1 (fget SXX_VCO_CMPHO reg) OR fget SXX_VCO_CMPLO reg)))))"

text \<open>The binary search for the lowest good capacitor, and the scan up from it.\<close>

primrec vco_bisect :: "(int \<Rightarrow> ('s, int) dev) \<Rightarrow> nat list \<Rightarrow> int \<Rightarrow> ('s, int) dev" where
  "vco_bisect f [] i = dreturn i"
| "vco_bisect f (j # js) i = dbind (f i) (\<lambda>r.
     if r = VCO_OK \<or> r = VCO_HIGH then vco_bisect f js (i - 2 ^ j)
     else if r = VCO_LOW then vco_bisect f js (i + 2 ^ j)
     else if r = VCO_FAIL then dfail (- EIO)
     else dfail r)"

primrec vco_scan :: "(int \<Rightarrow> ('s, int) dev) \<Rightarrow> nat \<Rightarrow> int \<Rightarrow> int \<Rightarrow> int \<Rightarrow> ('s, int \<times> int) dev" where
  "vco_scan f 0 i lo hi = dreturn (lo, hi)"
| "vco_scan f (Suc n) i lo hi = dbind (f i) (\<lambda>r.
     if r = VCO_OK then vco_scan f n (i + 1) (if lo > i then i else lo) i
     else if r = VCO_HIGH then dreturn (lo, if hi = - 1 then (if i = 0 then 0 else i - 1) else hi)
     else if r = VCO_LOW then vco_scan f n (i + 1) (i + 1) hi
     else if r = VCO_FAIL then dfail (- EIO)
     else dfail r)"

definition lms7002m_vco_range :: "(int \<Rightarrow> ('s, int) dev) \<Rightarrow> u32 \<Rightarrow> ('s, int \<times> int) dev" where
  "lms7002m_vco_range f start =
    dbind (if start > 255 then dbind (vco_bisect f [6, 5, 4, 3, 2, 1, 0] 128) (\<lambda>i. dreturn (i, if i > 1 then i - 1 else 0))
           else dreturn (0, uint start))
     (\<lambda>(lo, i). dbind (vco_scan f (nat (256 - i)) i lo (- 1)) (\<lambda>(lo, hi).
        dreturn (if hi = - 1 then 0 else hi, if lo > 255 then 255 else lo)))"

definition CGEN_VCO_MIN :: u32 where "CGEN_VCO_MIN = 2000000000"
definition CGEN_VCO_MAX :: u32 where "CGEN_VCO_MAX = 2700000000"
definition CGEN_VCO_MID :: u32 where "CGEN_VCO_MID = CGEN_VCO_MIN div 2 + CGEN_VCO_MAX div 2"

definition lms7002m_cgen_disable :: "'h bus \<Rightarrow> ('h, unit) lms" where
  "lms7002m_cgen_disable bus = lms7002m_spi_post bus [lms_make CGEN_ENABLE [0, 0, 0, 0, 0, 0, 0, 1, 1, 1, 1, 1, 0]]"

definition cgen_div2 :: "u32 \<Rightarrow> u32" where
  "cgen_div2 outfreq = (let d = (CGEN_VCO_MID div outfreq + 1) div 2 in if d < 1 then 1 else if d > 256 then 256 else d)"

definition lms7002m_cgen_tune :: "'h bus \<Rightarrow> u32 \<Rightarrow> u32 \<Rightarrow> u32 \<Rightarrow> ('h, unit) lms" where
  "lms7002m_cgen_tune bus fref outfreq txdiv_ord =
    (if outfreq = 0 then dfail CRASH_FPE
     else let div2 = cgen_div2 outfreq in
     (case pll_calc fref (div2 * outfreq * 2) of Inl e \<Rightarrow> dfail e
      | Inr (nint, frac) \<Rightarrow>
         dseq (lms7002m_spi_post bus
            [lms_make CGEN_ENABLE [0, 1, 0, 0, 0, 1, 0, 0, 0, 0, 0, 0, 1], lms_make CGEN_0x0087 [frac],
             lms_make CGEN_0x0088 [nint - 1, drop_bit 16 frac], lms_make CGEN_0x0089 [0, 0, 0, txdiv_ord, div2 - 1, 0]])
          (dbind (dtry (lms7002m_vco_range (lms7002m_cgen_trim_vco bus) (- 1))) (\<lambda>r.
            case r of Inl e \<Rightarrow> (if e < 0 then dfail e
                else dbind (lms7002m_cgen_trim_vco bus 127) (\<lambda>v. if v < 0 then dfail v else if v \<noteq> VCO_OK then dfail (- ERANGE) else dreturn ()))
            | Inr (hi, lo) \<Rightarrow>
               if hi < lo then dbind (dtry (lms7002m_cgen_disable bus)) (\<lambda>_. dfail (- ERANGE))
               else dbind (lms7002m_cgen_trim_vco bus ((hi + lo) div 2)) (\<lambda>v.
                 if v < 0 then dfail v else if v \<noteq> VCO_OK then dfail (- ERANGE) else dreturn ())))))"


section \<open>Local oscillators\<close>

definition SXX_VCOL_MIN :: u32 where "SXX_VCOL_MIN = 1900000000"
definition SXX_VCOL_MAX :: u32 where "SXX_VCOL_MAX = 2611000000"
definition SXX_VCOM_MIN :: u32 where "SXX_VCOM_MIN = 2481000000"
definition SXX_VCOM_MAX :: u32 where "SXX_VCOM_MAX = 3377000000"
definition SXX_VCOH_MIN :: u32 where "SXX_VCOH_MIN = 3153000000"
definition SXX_VCOH_MAX :: u32 where "SXX_VCOH_MAX = 3999000000"

definition sxx_idx :: "lms_sxx_path \<Rightarrow> nat" where
  "sxx_idx path = (case path of SXX_RX \<Rightarrow> 0 | SXX_TX \<Rightarrow> 1)"

definition en_dir_set :: "field \<Rightarrow> nat \<Rightarrow> bool \<Rightarrow> lms7002m_state \<Rightarrow> lms7002m_state" where
  "en_dir_set f i b m = m\<lparr>lm_en_dir := (lm_en_dir m)(i := fset f (of_bool b) (lm_en_dir m i))\<rparr>"

definition sxx_begin :: "lms_sxx_path \<Rightarrow> lms7002m_state \<Rightarrow> u32 list" where
  "sxx_begin path m = [lms_mac_reg m (of_nat (sxx_idx path) + 1), lms_wr SXX_0x0124_addr (ucast (lm_en_dir m (sxx_idx path)))]"

definition lms7002m_sxx_disable :: "'h bus \<Rightarrow> lms_sxx_path \<Rightarrow> ('h, unit) lms" where
  "lms7002m_sxx_disable bus path =
    dseq (dmod (en_dir_set EN_DIR_SXX (sxx_idx path) False)) (lms_send bus (\<lambda>m. sxx_begin path m @ [lms_mac_back m]))"

definition lms7002m_sxx_pll_vco_set :: "'h bus \<Rightarrow> u32 \<Rightarrow> u32 \<Rightarrow> ('h, unit) lms" where
  "lms7002m_sxx_pll_vco_set bus fref vco =
    (case pll_calc fref vco of Inl e \<Rightarrow> dfail e
     | Inr (nint, frac) \<Rightarrow> lms7002m_spi_post bus [lms_make SXX_0x011D [frac], lms_make SXX_0x011E [nint - 4, drop_bit 16 frac]])"

text \<open>Doublings from the local oscillator up to the range of the oscillators.\<close>

function sxx_div :: "nat \<Rightarrow> u32 \<Rightarrow> (nat \<times> u32) option" where
  "sxx_div d vco = (if vco < SXX_VCOL_MIN then (if d > 5 then None else sxx_div (d + 1) (push_bit 1 vco)) else Some (d, vco))"
  by auto
termination by (relation "measure (\<lambda>(d, vco). 6 - d)") auto

declare sxx_div.simps [simp del]

definition sxx_options :: "nat \<Rightarrow> u32 \<Rightarrow> bool list" where
  "sxx_options d vco =
    [SXX_VCOL_MIN < vco \<and> vco < SXX_VCOL_MAX, SXX_VCOM_MIN < vco \<and> vco < SXX_VCOM_MAX,
     SXX_VCOH_MIN < vco \<and> vco < SXX_VCOH_MAX, SXX_VCOH_MIN div 2 < vco \<and> vco < SXX_VCOH_MAX div 2 \<and> d < 6]"

definition vcono :: "nat \<Rightarrow> u16" where
  "vcono i = [0, 1, 2, 2] ! i"

definition sxx_fref :: "u32 \<Rightarrow> nat \<Rightarrow> u32" where
  "sxx_fref fref i = (if i = 3 then fref div 2 else fref)"

text \<open>Width and middle of the range of capacitors each oscillator locks with; 0 for one that is not tried.\<close>

primrec sxx_try :: "'h bus \<Rightarrow> u32 \<Rightarrow> u32 \<Rightarrow> bool list \<Rightarrow> nat list \<Rightarrow> ('h, (int \<times> int) list) lms" where
  "sxx_try bus fref vco opts [] = dreturn []"
| "sxx_try bus fref vco opts (i # js) =
    dbind
     (if \<not> opts ! i then dreturn (0, 0)
      else dseq (lms7002m_sxx_pll_vco_set bus (sxx_fref fref i) vco)
        (dseq (dmod (\<lambda>m. m\<lparr>lm_temp := vcono i\<rparr>))
          (dbind (lms7002m_vco_range (lms7002m_sxx_trim_vco bus) (- 1)) (\<lambda>(hi, lo).
            dreturn (if hi < lo then (0, 0) else (hi - lo + 1, (lo + hi) div 2))))))
     (\<lambda>r. dbind (sxx_try bus fref vco opts js) (\<lambda>rs. dreturn (r # rs)))"

definition sxx_best :: "(int \<times> int) list \<Rightarrow> nat \<times> int" where
  "sxx_best rs = foldl (\<lambda>(bi, bv) d. if bv < fst (rs ! d) then (d, fst (rs ! d)) else (bi, bv)) (0, 0) [0..<4]"

definition sxx_last :: "bool list \<Rightarrow> nat" where
  "sxx_last opts = foldl (\<lambda>l i. if opts ! i then i else l) 0 [0..<4]"

primrec sxx_search :: "'h bus \<Rightarrow> u32 \<Rightarrow> u32 \<Rightarrow> bool list \<Rightarrow> nat \<Rightarrow> ('h, (nat \<times> int) option) lms" where
  "sxx_search bus fref vco opts 0 = dreturn None"
| "sxx_search bus fref vco opts (Suc n) =
    dbind (sxx_try bus fref vco opts [0..<4]) (\<lambda>rs.
      case sxx_best rs of (bi, bv) \<Rightarrow>
        if bv > 0 then
          dseq (if bi \<noteq> sxx_last opts then lms7002m_sxx_pll_vco_set bus (sxx_fref fref bi) vco else dreturn ())
            (dreturn (Some (bi, snd (rs ! bi))))
        else sxx_search bus fref vco opts n)"

definition lms7002m_sxx_tune :: "'h bus \<Rightarrow> lms_sxx_path \<Rightarrow> u32 \<Rightarrow> u32 \<Rightarrow> bool \<Rightarrow> ('h, unit) lms" where
  "lms7002m_sxx_tune bus path fref lofreq lochen =
    dseq (dmod (en_dir_set EN_DIR_SXX (sxx_idx path) True))
     (if lofreq > SXX_VCOH_MAX then dfail (- ERANGE)
      else case sxx_div 0 lofreq of None \<Rightarrow> dfail (- ERANGE)
      | Some (d, vco) \<Rightarrow>
        dseq (lms_send bus (\<lambda>m. sxx_begin path m @
           [lms_make SXX_0x0120 [204, 192], lms_make SXX_0x0122 [0, 20, 20] OR push_bit 13 1,
            lms_make SXX_0x011C [1, 0, 0, 0, 1, 1, 0, 1, 0, b2w (\<not> lochen), 0, 0, 0, 0, 0, 1],
            lms_make SXX_0x011F [3, 3, 6, 0, 0, 0, 0]]))
         (dbind (sxx_search bus fref vco (sxx_options d vco) 8) (\<lambda>r. case r of
            None \<Rightarrow> dfail (- ERANGE)
          | Some (bi, cap) \<Rightarrow> lms_send bus (\<lambda>m.
              [lms_make SXX_0x011F [3, 3, of_nat (if bi = 3 then d + 1 else d), 0, 0, 0, 0],
               lms_make SXX_0x0121 [16, of_int cap, ucast (vcono bi), 0], lms_mac_back m]))))"

section \<open>Converters and DC correction\<close>

definition lms7002m_afe_enable :: "'h bus \<Rightarrow> bool \<Rightarrow> bool \<Rightarrow> bool \<Rightarrow> bool \<Rightarrow> ('h, unit) lms" where
  "lms7002m_afe_enable bus rxa rxb txa txb = lms7002m_spi_post bus
    [lms_make AFE_0x0082 [4, 0, 0, 0, 0, b2w (\<not> rxa), b2w (\<not> rxb), b2w (\<not> txa), b2w (\<not> txb), b2w (rxa \<or> rxb \<or> txa \<or> txb)]]"

definition lms7002m_dc_corr_en :: "'h bus \<Rightarrow> bool \<Rightarrow> bool \<Rightarrow> bool \<Rightarrow> bool \<Rightarrow> ('h, unit) lms" where
  "lms7002m_dc_corr_en bus rxa rxb txa txb = lms7002m_spi_post bus
    [lms_make DC_PD [b2w (rxa \<or> rxb \<or> txa \<or> txb), b2w (\<not> rxb), b2w (\<not> rxa), b2w (\<not> txb), b2w (\<not> txa),
       b2w (\<not> rxb), b2w (\<not> rxa), b2w (\<not> txb), b2w (\<not> txa)],
     lms_make DC_0x05C2 (replicate 16 0), lms_make DC_0x05CB [255, 255],
     lms_make DC_0x05C2 (replicate 8 0 @ map b2w [rxb, rxb, rxa, rxa, txb, txb, txa, txa])]"

definition lms7002m_dc_corr :: "'h bus \<Rightarrow> u32 \<Rightarrow> u16 \<Rightarrow> ('h, unit) lms" where
  "lms7002m_dc_corr bus p v =
    (if p > 7 then dfail (- EINVAL)
     else lms7002m_spi_post bus [lms_wr (DC_0x05C3_addr + p) (ucast v AND 0x7ff), lms_wr (DC_0x05C3_addr + p) ((ucast v AND 0x7ff) OR 0x8000)])"

definition lms7002m_cds_set :: "'h bus \<Rightarrow> bool \<Rightarrow> ('h, unit) lms" where
  "lms7002m_cds_set bus rxalml = lms7002m_spi_post bus [0x80AD03ff XOR push_bit 2 (b2w rxalml), 0x80AE0C00]"

section \<open>Digital signal processors\<close>

definition dscpcfg :: "lms_tsp \<Rightarrow> lms7002m_state \<Rightarrow> nat \<Rightarrow> u16" where
  "dscpcfg tsp m = (case tsp of LMS_RXTSP \<Rightarrow> lm_rx_dscpcfg m | LMS_TXTSP \<Rightarrow> lm_tx_dscpcfg m)"

definition dscpcfg_upd :: "lms_tsp \<Rightarrow> ((nat \<Rightarrow> u16) \<Rightarrow> nat \<Rightarrow> u16) \<Rightarrow> lms7002m_state \<Rightarrow> lms7002m_state" where
  "dscpcfg_upd tsp f m = (case tsp of LMS_RXTSP \<Rightarrow> m\<lparr>lm_rx_dscpcfg := f (lm_rx_dscpcfg m)\<rparr>
    | LMS_TXTSP \<Rightarrow> m\<lparr>lm_tx_dscpcfg := f (lm_tx_dscpcfg m)\<rparr>)"

definition hbdo_iq :: "lms_tsp \<Rightarrow> lms7002m_state \<Rightarrow> nat \<Rightarrow> u16" where
  "hbdo_iq tsp m = (case tsp of LMS_RXTSP \<Rightarrow> lm_rx_hbdo_iq m | LMS_TXTSP \<Rightarrow> lm_tx_hbdo_iq m)"

definition hbdo_iq_upd :: "lms_tsp \<Rightarrow> ((nat \<Rightarrow> u16) \<Rightarrow> nat \<Rightarrow> u16) \<Rightarrow> lms7002m_state \<Rightarrow> lms7002m_state" where
  "hbdo_iq_upd tsp f m = (case tsp of LMS_RXTSP \<Rightarrow> m\<lparr>lm_rx_hbdo_iq := f (lm_rx_hbdo_iq m)\<rparr>
    | LMS_TXTSP \<Rightarrow> m\<lparr>lm_tx_hbdo_iq := f (lm_tx_hbdo_iq m)\<rparr>)"

definition by_tsp :: "lms_tsp \<Rightarrow> 'a \<Rightarrow> 'a \<Rightarrow> 'a" where
  "by_tsp tsp r t = (case tsp of LMS_RXTSP \<Rightarrow> r | LMS_TXTSP \<Rightarrow> t)"

definition lms7002m_xxtsp_enable :: "'h bus \<Rightarrow> lms_tsp \<Rightarrow> bool \<Rightarrow> ('h, unit) lms" where
  "lms7002m_xxtsp_enable bus tsp enable =
    (let dsp = by_tsp tsp (lms_make RXTSP_0x040C [0, 0, 0, 0, 1, 1, 1, 1, 1, 1, 1, 1]) (lms_make TXTSP_0x0208 [0, 0, 0, 1, 1, 1, 1, 0, 1, 1]);
         md = by_tsp tsp (lms_make RXTSP_0x0400 [0, 0, 0, 0, 1, 0, 0, 0, 1, 0, 0, b2w enable]) (lms_make TXTSP_0x0200 [0, 1, 0, 0, 0, 1, 0, 0, b2w enable])
     in dseq (dmod (\<lambda>m. dscpcfg_upd tsp (each_chan m (\<lambda>_. ucast dsp)) m))
        (dseq (dmod (\<lambda>m. by_tsp tsp (m\<lparr>lm_rx_dscmode := each_chan m (\<lambda>_. ucast md) (lm_rx_dscmode m)\<rparr>)
                                     (m\<lparr>lm_tx_dscmode := each_chan m (\<lambda>_. ucast md) (lm_tx_dscmode m)\<rparr>)))
          (lms7002m_spi_post bus [dsp, md])))"

text \<open>The two channels in turn, and the selection of the caller again.\<close>

definition on_channels :: "(nat \<Rightarrow> u32 list) \<Rightarrow> lms7002m_state \<Rightarrow> u32 list" where
  "on_channels f m = lms_mac_reg m 1 # f 0 @ lms_mac_reg m 2 # f 1 @ [lms_mac_back m]"

definition lms7002m_xxtsp_int_dec :: "'h bus \<Rightarrow> lms_tsp \<Rightarrow> u32 \<Rightarrow> ('h, unit) lms" where
  "lms7002m_xxtsp_int_dec bus tsp ord = dbind (dget lms7002m_is_none) (\<lambda>none.
    if none then dfail (- EINVAL)
    else dseq (dmod (hbdo_iq_upd tsp (both (fset (by_tsp tsp HBD_OVR HBI_OVR) (ucast (ord - 1))))))
      (lms_send bus (\<lambda>m. on_channels (\<lambda>i. [lms_wr (by_tsp tsp RXTSP_0x0403_addr TXTSP_0x0203_addr) (ucast (hbdo_iq tsp m i))]) m)))"

definition lms7002m_xxtsp_wregwith_dspcfg :: "'h bus \<Rightarrow> lms_tsp \<Rightarrow> u32 list \<Rightarrow> ('h, unit) lms" where
  "lms7002m_xxtsp_wregwith_dspcfg bus tsp regs = dbind (dget lms7002m_is_none) (\<lambda>none.
    if none then dfail (- EINVAL)
    else lms_send bus (\<lambda>m.
      let cfg = (\<lambda>i. [lms_wr (fst (by_tsp tsp RXTSP_0x040C TXTSP_0x0208)) (ucast (dscpcfg tsp m i))])
      in regs @ (if lms_mac m = 3 then on_channels cfg m else if lms_mac m = 1 then cfg 0 else cfg 1)))"

definition dscp_field :: "lms_tsp \<Rightarrow> field \<Rightarrow> bool \<Rightarrow> lms7002m_state \<Rightarrow> lms7002m_state" where
  "dscp_field tsp f b m = dscpcfg_upd tsp (lms7002m_mask_field_set m f (of_bool b)) m"

definition lms7002m_rxtsp_dc_corr :: "'h bus \<Rightarrow> bool \<Rightarrow> u32 \<Rightarrow> ('h, unit) lms" where
  "lms7002m_rxtsp_dc_corr bus byp wnd = dseq (dmod (dscp_field LMS_RXTSP RX_DC_BYP byp))
     (lms7002m_xxtsp_wregwith_dspcfg bus LMS_RXTSP [lms_make RXTSP_0x0404 [0, wnd]])"

definition lms7002m_xxtsp_gen :: "'h bus \<Rightarrow> lms_tsp \<Rightarrow> lms_gen \<Rightarrow> u16 \<Rightarrow> u16 \<Rightarrow> ('h, unit) lms" where
  "lms7002m_xxtsp_gen bus tsp gen dci dcq =
    (let cfg = (ucast (lms_make RXTSP_0x0400 [0, 0, 0, b2w (dci = 0), if dcq = 0 then 2 else 1, 0, 0, 0, b2w (gen = XXTSP_DC),
           b2w (gen \<noteq> XXTSP_NORMAL), 0, 1]) :: u16);
         r = fst (by_tsp tsp RXTSP_0x0400 TXTSP_0x0200); dc = by_tsp tsp RXTSP_0x040B_addr TXTSP_0x020C_addr
     in lms7002m_spi_post bus (take (if gen = XXTSP_DC then 5 else 1)
          [lms_wr r (ucast cfg), lms_wr dc (ucast dci), lms_wr r (ucast (cfg OR fmask TSGDCLDI)),
           lms_wr dc (ucast dcq), lms_wr r (ucast (cfg OR fmask TSGDCLDQ))]))"

text \<open>The frequency is signed; the fields are those of the receiver for both directions.\<close>

definition lms7002m_xxtsp_cmix :: "'h bus \<Rightarrow> lms_tsp \<Rightarrow> u32 \<Rightarrow> ('h, unit) lms" where
  "lms7002m_xxtsp_cmix bus tsp freq =
    (let f = (if freq <s 0 then - freq else freq)
     in dseq (dmod (dscp_field tsp RX_CMIX_BYP (freq = 0)))
        (dseq (dmod (dscp_field tsp RX_CMIX_SC (freq <s 0)))
          (lms7002m_xxtsp_wregwith_dspcfg bus tsp
            [lms_make (by_tsp tsp RXNCO_0x0442 TXNCO_0x0242) [drop_bit 16 f], lms_make (by_tsp tsp RXNCO_0x0443 TXNCO_0x0243) [f],
             lms_make (by_tsp tsp RXNCO_0x0440 TXNCO_0x0240) [1, 0, 0]])))"

definition lms7002m_xxtsp_iq_gcorr :: "'h bus \<Rightarrow> lms_tsp \<Rightarrow> u32 \<Rightarrow> u32 \<Rightarrow> ('h, unit) lms" where
  "lms7002m_xxtsp_iq_gcorr bus tsp ig qg = dseq (dmod (dscp_field tsp RX_GC_BYP (ig = 0 \<and> qg = 0)))
     (lms7002m_xxtsp_wregwith_dspcfg bus tsp
        [lms_make (by_tsp tsp RXTSP_0x0401 TXTSP_0x0201) [qg], lms_make (by_tsp tsp RXTSP_0x0402 TXTSP_0x0202) [ig]])"

definition lms7002m_xxtsp_iq_phcorr :: "'h bus \<Rightarrow> lms_tsp \<Rightarrow> u32 \<Rightarrow> ('h, unit) lms" where
  "lms7002m_xxtsp_iq_phcorr bus tsp acorr =
    dseq (dmod (dscp_field tsp RX_PH_BYP (acorr = 0)))
     (dseq (dmod (\<lambda>m. hbdo_iq_upd tsp (each_chan m (fset (by_tsp tsp RX_IQCORR TX_IQCORR) (ucast acorr))) m))
       (lms_send bus (\<lambda>m. [lms_wr (by_tsp tsp RXTSP_0x0403_addr TXTSP_0x0203_addr)
          (ucast (hbdo_iq tsp m (if lms7002m_check_chan m 0 then 0 else 1)))])))"

section \<open>Receive front end\<close>

definition en_dir_pair :: "field \<Rightarrow> lms7002m_state \<Rightarrow> lms7002m_state" where
  "en_dir_pair f m = en_dir_set f 1 (rf_en (lm_rfe m 1)) (en_dir_set f 0 (rf_en (lm_rfe m 0) \<or> rf_en (lm_rfe m 1)) m)"

definition rfe_regs :: "lms7002m_state \<Rightarrow> nat \<Rightarrow> u32 list" where
  "rfe_regs m i =
    (let r = lm_rfe m i; lb = rf_lb r; en = rf_en r; l = rf_path r = RFE_LNAL; w = rf_path r = RFE_LNAW; h = rf_path r = RFE_LNAH
     in [lms_wr SXX_0x0124_addr (ucast (lm_en_dir m i)),
         lms_make RFE_0x010C [8, 8, b2w (en \<and> lb), b2w (en \<and> lb \<and> \<not> (w \<or> h)), b2w (en \<and> lb \<and> \<not> l), b2w (\<not> en), b2w (\<not> en), 1,
           b2w (\<not> en), b2w en],
         lms_make RFE_0x010D [rf_path r, 1, b2w (\<not> en \<or> lb \<and> \<not> (w \<or> h)), b2w (\<not> en \<or> lb \<and> \<not> l), b2w (\<not> en \<or> \<not> lb \<and> \<not> l),
           b2w (\<not> en \<or> \<not> lb \<and> \<not> w), b2w (i = 0 \<and> rf_en (lm_rfe m 1))],
         lms_make RFE_0x010F [if lb then 3 else 0, 2, 2]])"

definition lms7002m_rfe_path :: "'h bus \<Rightarrow> u32 \<Rightarrow> lms_rfe_mode \<Rightarrow> ('h, unit) lms" where
  "lms7002m_rfe_path bus p mode = dbind (dget lms7002m_is_none) (\<lambda>none.
    if none then dfail (- EINVAL)
    else dseq (dmod (\<lambda>m. m\<lparr>lm_rfe := each_chan m (\<lambda>r. r\<lparr>rf_en := mode \<noteq> RFE_MODE_DISABLE, rf_lb := mode = RFE_MODE_LOOPBACKRF,
        rf_path := p AND 3\<rparr>) (lm_rfe m)\<rparr>))
     (dseq (dmod (en_dir_pair EN_DIR_RFE)) (lms_send bus (\<lambda>m. on_channels (rfe_regs m) m))))"

definition lms7002m_rfe_update_gains :: "'h bus \<Rightarrow> ('h, unit) lms" where
  "lms7002m_rfe_update_gains bus = lms_send bus (\<lambda>m. on_channels (\<lambda>i. let r = lm_rfe m i in
     [lms_make RFE_0x0113 [if rf_lb r then 1 else rf_lna r, if rf_lb r then rf_lbg r else 0, rf_tia r]]) m)"

definition IGNORE_IDX :: int where "IGNORE_IDX = 100000"

text \<open>The first tap below the wanted attenuation, or the one after the list.\<close>

primrec find_idx :: "int \<Rightarrow> int list \<Rightarrow> nat" where
  "find_idx v [] = 0"
| "find_idx v (x # xs) = (if x \<noteq> IGNORE_IDX \<and> x < v then 0 else Suc (find_idx v xs))"

definition lna_attens :: "int list" where
  "lna_attens = [IGNORE_IDX, 300, 270, 240, 210, 180, 150, 120, 90, 60, 50, 40, 30, 20, 10, 0]"

definition tia_attens :: "int list" where
  "tia_attens = [IGNORE_IDX, 120, 30, 0]"

definition lb_attens :: "int list" where
  "lb_attens = [400, 240, 170, 140, 110, 90, 75, 62, 50, 40, 30, 24, 16, 10, 5, 0]"

definition rfe_tap :: "int list \<Rightarrow> int \<Rightarrow> nat \<times> int" where
  "rfe_tap l gainx10 = (let i = find_idx (- gainx10) (butlast l) in (i, - (l ! i)))"

text \<open>The gain that is set is returned, where the call sets one.\<close>

definition lms7002m_rfe_gain :: "'h bus \<Rightarrow> lms_rfe_gain \<Rightarrow> int \<Rightarrow> ('h, int option) lms" where
  "lms7002m_rfe_gain bus gain gainx10 =
    (let upd = (\<lambda>l f. case rfe_tap l gainx10 of (i, g) \<Rightarrow>
          dseq (dmod (\<lambda>m. m\<lparr>lm_rfe := each_chan m (f (of_nat i)) (lm_rfe m)\<rparr>))
            (dseq (lms7002m_rfe_update_gains bus) (dreturn (Some g))))
     in case gain of RFE_GAIN_LNA \<Rightarrow> upd lna_attens (\<lambda>x r. r\<lparr>rf_lna := x\<rparr>)
        | RFE_GAIN_TIA \<Rightarrow> upd tia_attens (\<lambda>x r. r\<lparr>rf_tia := x\<rparr>)
        | RFE_GAIN_RFB \<Rightarrow> upd lb_attens (\<lambda>x r. r\<lparr>rf_lbg := x\<rparr>)
        | RFE_GAIN_NONE \<Rightarrow> dseq (lms7002m_rfe_update_gains bus) (dreturn None))"

section \<open>Transmit front end\<close>

definition LB_LOSS_24 :: u32 where "LB_LOSS_24 = 24"
definition LB_LOSS_21 :: u32 where "LB_LOSS_21 = 21"
definition LB_LOSS_14 :: u32 where "LB_LOSS_14 = 14"
definition LB_LOSS_0 :: u32 where "LB_LOSS_0 = 0"

definition trf_pad :: "lms_trf \<Rightarrow> u32" where
  "trf_pad t = lms_make TRF_0x0101 [3, if tr_lb t then tr_lbloss t else LB_LOSS_24, tr_gain t, tr_gain t, b2w (tr_lb t)]"

definition lms7002m_trf_path :: "'h bus \<Rightarrow> u32 \<Rightarrow> lms_trf_mode \<Rightarrow> ('h, unit) lms" where
  "lms7002m_trf_path bus path mode = dbind (dget lms7002m_is_none) (\<lambda>none.
    if none then dfail (- EINVAL)
    else dseq (dmod (\<lambda>m. m\<lparr>lm_trf := each_chan m (\<lambda>t. t\<lparr>tr_en := mode \<noteq> TRF_MODE_DISABLE, tr_lb := mode = TRF_MODE_LOOPBACK,
        tr_path := path AND 3\<rparr>) (lm_trf m)\<rparr>))
     (dseq (dmod (en_dir_pair EN_DIR_TRF)) (lms_send bus (\<lambda>m.
        on_channels (\<lambda>i. let en1 = i = 0 \<and> tr_en (lm_trf m 1) in
          [lms_wr SXX_0x0124_addr (ucast (lm_en_dir m i)),
           lms_make TRF_0x0100 [0, b2w en1, 2, 1, 1, 0, 0, b2w (en1 \<or> tr_en (lm_trf m i))], trf_pad (lm_trf m i)]) m
        @ [lms_make TRF_0x0103 [b2w (path = TRF_B1), b2w (path = TRF_B2), 16, 18]]))))"

text \<open>The attenuation in dB (a quotient truncated towards 0) and its code, with the gain that is reported.\<close>

definition trf_atten :: "int \<Rightarrow> int" where
  "trf_atten gainx10 = (if gainx10 \<le> 0 then (- gainx10) div 10 else - (gainx10 div 10))"

definition trf_pad_code :: "int \<Rightarrow> int \<times> int" where
  "trf_pad_code gainx10 = (let a = trf_atten gainx10 in
     if a > 52 then (31, - 520)
     else if a > 10 then (let c = (a + 10) div 2 in (c, - 10 * (c * 2 - 10)))
     else (a, - 10 * a))"

definition trf_lb_code :: "int \<Rightarrow> u32" where
  "trf_lb_code gainx10 = (let a = trf_atten gainx10 in
     if a > 24 then LB_LOSS_24 else if a > 20 then LB_LOSS_21 else if a > 13 then LB_LOSS_14 else LB_LOSS_0)"

definition lms7002m_trf_gain :: "'h bus \<Rightarrow> lms_trf_gain \<Rightarrow> int \<Rightarrow> ('h, int option) lms" where
  "lms7002m_trf_gain bus gt gainx10 = dbind (dget lms7002m_is_none) (\<lambda>none.
    if none then dfail (- EINVAL)
    else dseq (dmod (\<lambda>m. m\<lparr>lm_trf := each_chan m (\<lambda>t.
           if gt = TRF_GAIN_PAD then t\<lparr>tr_gain := of_int (fst (trf_pad_code gainx10)) AND mask 5\<rparr>
           else t\<lparr>tr_lbloss := trf_lb_code gainx10 AND mask 3\<rparr>) (lm_trf m)\<rparr>))
      (dseq (lms_send bus (\<lambda>m. on_channels (\<lambda>i. [trf_pad (lm_trf m i)]) m))
        (dreturn (if gt = TRF_GAIN_PAD then Some (snd (trf_pad_code gainx10)) else None))))"

section \<open>Base band\<close>

definition en_dir_chans :: "field \<Rightarrow> bool \<Rightarrow> lms7002m_state \<Rightarrow> lms7002m_state" where
  "en_dir_chans f b m = m\<lparr>lm_en_dir := lms7002m_mask_field_set m f (of_bool b) (lm_en_dir m)\<rparr>"

definition lms7002m_rbb_path :: "'h bus \<Rightarrow> lms_rbb_path \<Rightarrow> lms_rbb_mode \<Rightarrow> ('h, unit) lms" where
  "lms7002m_rbb_path bus path mode =
    dseq (dmod (en_dir_chans EN_DIR_RBB (mode \<noteq> RBB_MODE_DISABLE)))
     (lms7002m_spi_post bus
       [lms_make RBB_0x0115 [b2w (mode = RBB_MODE_LOOPBACK \<and> path = RBB_HBF), b2w (mode = RBB_MODE_LOOPBACK \<and> path = RBB_LBF),
          b2w (path \<noteq> RBB_HBF), b2w (path \<noteq> RBB_LBF), 0, b2w (mode \<noteq> RBB_MODE_DISABLE)],
        lms_make RBB_0x0118 [if path = RBB_LBF then 0 else if path = RBB_HBF then 1
          else if mode = RBB_MODE_LOOPBACK \<and> path = RBB_BYP then 3 else 2, 24, 24]])"

definition rcc_corr :: "u32 list" where
  "rcc_corr = [31, 30, 29, 29, 28, 27, 26, 26, 25, 24, 24, 23, 23, 22, 22, 21, 21, 20, 20, 19, 19, 19, 18, 18, 18, 17, 17, 17, 16, 16, 16, 16]"

definition lms7002m_rbb_pga :: "'h bus \<Rightarrow> int \<Rightarrow> ('h, unit) lms" where
  "lms7002m_rbb_pga bus gainx10 =
    (let g = (if gainx10 < 0 then 0 else if gainx10 > 310 then 310 else gainx10) div 10
     in lms7002m_spi_post bus [lms_make RBB_0x0119 [0, 20, 20, of_int g],
          lms_make RBB_0x011A [rcc_corr ! nat g, if g < 8 then 3 else if g < 13 then 2 else if g < 21 then 1 else 0]])"

record lms_lpf_params =
  lpf_rcc :: u32
  lpf_r :: u32
  lpf_c :: u32

definition lms7002m_rbb_lpf_raw :: "'h bus \<Rightarrow> lms_lpf_params \<Rightarrow> ('h, unit) lms" where
  "lms7002m_rbb_lpf_raw bus p = lms7002m_spi_post bus
     [lms_make RBB_0x0116 [lpf_r p, lpf_rcc p, lpf_c p], lms_make RBB_0x0117 [lpf_rcc p, lpf_c p]]"

definition lms7002m_tbb_path :: "'h bus \<Rightarrow> lms_tbb_path \<Rightarrow> lms_tbb_mode \<Rightarrow> ('h, unit) lms" where
  "lms7002m_tbb_path bus path mode =
    dseq (dmod (en_dir_chans EN_DIR_TBB (mode \<noteq> TBB_MODE_DISABLE)))
     (lms7002m_spi_post bus
       [lms_make TBB_0x0105 [0, b2w (mode = TBB_MODE_LOOPBACK_SWAPIQ), if mode = TBB_MODE_NORMAL then 0 else 3, b2w (path \<noteq> TBB_HBF), 0,
          b2w (path \<noteq> TBB_LAD), b2w (path \<noteq> TBB_LAD), b2w (mode \<noteq> TBB_MODE_DISABLE)],
        lms_make TBB_0x010A [0, 0, 0, 0], lms_make TBB_LPFS5 [1]])"

text \<open>The sum of the kept correction and the given gain is unsigned in the first, signed in the second.\<close>

definition tbb_raw_gc :: "int \<Rightarrow> u32 \<Rightarrow> u32" where
  "tbb_raw_gc corr rcc = (let x = of_int corr + rcc in if x < 1 then 1 else if x > 63 then 63 else x)"

definition lms7002m_tbb_lpf_raw :: "'h bus \<Rightarrow> lms_lpf_params \<Rightarrow> ('h, unit) lms" where
  "lms7002m_tbb_lpf_raw bus p =
    dseq (dmod (\<lambda>m. m\<lparr>lm_gc := both (\<lambda>_. ucast (lpf_rcc p)) (lm_gc m)\<rparr>))
     (lms_send bus (\<lambda>m. [lms_make TBB_0x0109 [lpf_r p, lpf_r p], lms_make TBB_0x0108 [tbb_raw_gc (lm_gc_corr m 0) (lpf_rcc p), 12, 12]]))"

definition tbb_gain_gc :: "int \<Rightarrow> u8 \<Rightarrow> int" where
  "tbb_gain_gc gain gc = (let x = gain + uint gc in if x < 1 then 1 else if x > 63 then 63 else x)"

definition lms7002m_tbb_gain :: "'h bus \<Rightarrow> int \<Rightarrow> ('h, unit) lms" where
  "lms7002m_tbb_gain bus gain =
    dseq (dmod (\<lambda>m. m\<lparr>lm_gc_corr := both (\<lambda>_. gain) (lm_gc_corr m)\<rparr>))
     (lms_send bus (\<lambda>m. [lms_make TBB_0x0108 [of_int (tbb_gain_gc gain (lm_gc m 0)), 12, 12]]))"

definition lms7002m_trf_from_rfe_path :: "u32 \<Rightarrow> u32" where
  "lms7002m_trf_from_rfe_path p = (if p = RFE_LNAL then TRF_B2 else if p = RFE_LNAW \<or> p = RFE_LNAH then TRF_B1 else TRF_MUTE)"

end
