(* ===== verification/Lms7002mTune.thy ===== *)
theory Lms7002mTune
  imports Lms7002m
begin

text \<open>
  What the LMS7002M driver promises: the ratios and dividers of its synthesizers, the search for the capacitor of
  an oscillator, the tuning of the clock generator on a chip with registers, the plan of a local oscillator, and the
  channel selection that every call leaves as it found it.
\<close>

section \<open>Ratios and dividers\<close>

lemma pll_calc_value:
  assumes "fref \<noteq> 0"
  shows "\<exists>nint frac. pll_calc fref vco = Inr (nint, frac) \<and> unat frac < 2 ^ 20 \<and> unat nint = unat vco div unat fref \<and>
    unat frac = (unat vco mod unat fref) * 2 ^ 20 div unat fref"
proof -
  have f0: "0 < unat fref" using assms by (simp add: unat_gt_0)
  have n: "unat (vco div fref) = unat vco div unat fref" by (rule unat_div)
  have r: "vco - vco div fref * fref = vco mod fref" by (simp add: minus_div_mult_eq_mod)
  have m: "unat (vco mod fref) = unat vco mod unat fref" by (rule unat_mod)
  have lt: "unat vco mod unat fref < unat fref" using f0 by simp
  have l32: "unat fref < 2 ^ 32" using unsigned_less [of fref, where ?'a = nat] by simp
  have prod: "unat (ucast (vco mod fref) * 1048576 :: u64) = (unat vco mod unat fref) * 2 ^ 20"
  proof -
    have "(unat vco mod unat fref) * 2 ^ 20 < 2 ^ 64" using lt l32 by simp
    moreover have "unat vco mod unat fref mod 4294967296 = unat vco mod unat fref" using lt l32 by simp
    ultimately show ?thesis
      by (simp add: unat_mult_lem [THEN iffD1] unat_word_ariths take_bit_nat_eq_self unsigned_ucast_eq m)
  qed
  have t64: "take_bit 64 (unat fref) = unat fref" using l32 by (simp add: take_bit_nat_eq_self)
  have q: "(unat vco mod unat fref) * 2 ^ 20 div unat fref < 2 ^ 20"
    using lt by (simp add: div_less_iff_less_mult f0)
  have "unat (ucast (ucast (vco mod fref) * push_bit 20 1 div ucast fref :: u64) :: u32) = (unat vco mod unat fref) * 2 ^ 20 div unat fref"
    using q by (simp add: unsigned_ucast_eq unat_div prod t64 take_bit_nat_eq_self)
  then show ?thesis using assms q n unfolding pll_calc_def Let_def r by (auto simp: n)
qed


text \<open>The ratio reaches the wanted frequency from below, within one step of the fraction.\<close>

lemma pll_calc_accuracy:
  assumes "fref \<noteq> 0"
  shows "\<exists>nint frac. pll_calc fref vco = Inr (nint, frac) \<and> unat frac < 2 ^ 20 \<and>
    unat fref * (unat nint * 2 ^ 20 + unat frac) \<le> unat vco * 2 ^ 20 \<and>
    unat vco * 2 ^ 20 < unat fref * (unat nint * 2 ^ 20 + unat frac + 1)"
proof -
  obtain nint frac where p: "pll_calc fref vco = Inr (nint, frac)" "unat frac < 2 ^ 20" "unat nint = unat vco div unat fref"
    "unat frac = (unat vco mod unat fref) * 2 ^ 20 div unat fref" using pll_calc_value [OF assms] by blast
  define f r n where "f = unat fref" and "r = unat vco mod f" and "n = unat vco div f"
  have f0: "0 < f" using assms by (simp add: f_def unat_gt_0)
  have v: "unat vco = f * n + r" by (simp add: r_def n_def)
  have fr: "f * (r * 2 ^ 20 div f) \<le> r * 2 ^ 20" "r * 2 ^ 20 < f * (r * 2 ^ 20 div f + 1)"
    using f0 by (simp_all add: dividend_less_times_div)
  have "f * (n * 2 ^ 20 + r * 2 ^ 20 div f) \<le> unat vco * 2 ^ 20" "unat vco * 2 ^ 20 < f * (n * 2 ^ 20 + r * 2 ^ 20 div f + 1)"
    using fr by (simp_all add: v algebra_simps)
  then show ?thesis using p by (simp add: f_def r_def n_def)
qed

lemma cgen_div2_value:
  assumes "outfreq \<noteq> 0"
  shows "unat (cgen_div2 outfreq) = max 1 (min 256 ((2350000000 div unat outfreq + 1) div 2))"
proof -
  have "2350000000 div unat outfreq + 1 < 2 ^ 32"
    by (rule order_le_less_trans [where y = "2350000000 + 1"]) (simp_all add: div_le_dividend)
  then have u: "unat ((2350000000 div outfreq + 1) div 2 :: u32) = (2350000000 div unat outfreq + 1) div 2"
    by (simp add: unat_div unat_word_ariths)
  show ?thesis unfolding cgen_div2_def CGEN_VCO_MID_def CGEN_VCO_MIN_def CGEN_VCO_MAX_def
    by (auto simp: Let_def u word_less_nat_alt)
qed

text \<open>When some even divider puts the oscillator in its range, the chosen one does.\<close>

lemma cgen_div_in_range:
  assumes e: "1 \<le> e" "e \<le> 256" "2000000000 \<le> 2 * e * unat outfreq" "2 * e * unat outfreq \<le> 2700000000"
  shows "let d = cgen_div2 outfreq in 1 \<le> unat d \<and> unat d \<le> 256 \<and> unat (d * outfreq * 2) = 2 * unat d * unat outfreq \<and>
    CGEN_VCO_MIN \<le> d * outfreq * 2 \<and> d * outfreq * 2 \<le> CGEN_VCO_MAX"
proof -
  define q where "q = unat outfreq"
  define d where "d = unat (cgen_div2 outfreq)"
  have q: "0 < q" using e(3) unfolding q_def by (cases "unat outfreq = 0") auto
  have e': "2000000000 \<le> 2 * (e * q)" "2 * (e * q) \<le> 2700000000" using e by (simp_all add: q_def algebra_simps)
  have d: "d = max 1 (min 256 ((2350000000 div q + 1) div 2))"
    unfolding d_def q_def using q by (intro cgen_div2_value) (auto simp: q_def)
  have k: "2350000000 div q * q \<le> 2350000000" "2350000000 < (2350000000 div q + 1) * q"
    using q by (simp_all add: dividend_less_div_times)
  define k where "k = 2350000000 div q"
  define h where "h = (k + 1) div 2"
  have h: "2 * h \<le> k + 1" "k \<le> 2 * h" by (simp_all add: h_def)
  have hq: "2 * (h * q) \<le> k * q + q" "k * q \<le> 2 * (h * q)" 
    using mult_le_mono1 [OF h(1), of q] mult_le_mono1 [OF h(2), of q] by (simp_all add: algebra_simps)
  have kq: "k * q \<le> 2350000000" "2350000000 < k * q + q" using k by (simp_all add: k_def algebra_simps)
  have in_range: "2000000000 \<le> 2 * (d * q) \<and> 2 * (d * q) \<le> 2700000000 \<and> 1 \<le> d \<and> d \<le> 256"
  proof (cases "h < 1")
    case True
    then have "d = 1" "k = 0" using h by (simp_all add: d h_def k_def)
    then have "2350000000 < q" using kq by simp
    moreover have "q \<le> e * q" using e(1) by simp
    ultimately show ?thesis using e' by linarith
  next
    case False
    show ?thesis
    proof (cases "h > 256")
      case True
      then have d256: "d = 256" by (simp add: d h_def k_def)
      moreover have "256 * q \<le> h * q" using True by simp
      moreover have "e * q \<le> 256 * q" using e(2) by simp
      ultimately show ?thesis using hq kq e' q unfolding d256 by (intro conjI) linarith+
    next
      case h2: False
      then have dh: "d = h" using False by (simp add: d h_def k_def)
      consider "e < h" | "e = h" | "h < e" by linarith
      then have "2000000000 \<le> 2 * (h * q) \<and> 2 * (h * q) \<le> 2700000000"
      proof cases
        case 1
        then have "(e + 1) * q \<le> h * q" by (intro mult_le_mono1) simp
        then have "e * q + q \<le> h * q" by (simp add: algebra_simps)
        then show ?thesis using hq kq e' by linarith
      next
        case 2 then show ?thesis using e' by simp
      next
        case 3
        then have "(h + 1) * q \<le> e * q" by (intro mult_le_mono1) simp
        then have "h * q + q \<le> e * q" by (simp add: algebra_simps)
        then show ?thesis using hq kq e' by linarith
      qed
      then show ?thesis using dh False h2 by simp
    qed
  qed
  have v: "unat (cgen_div2 outfreq * outfreq * 2) = 2 * (d * q)"
  proof -
    have "d * q < 2 ^ 32" "d * q * 2 < 2 ^ 32" using in_range by auto
    then show ?thesis by (simp add: unat_word_ariths d_def [symmetric] q_def [symmetric] take_bit_nat_eq_self mod_mult_left_eq)
  qed
  show ?thesis using in_range v
    by (simp add: Let_def word_le_nat_alt CGEN_VCO_MIN_def CGEN_VCO_MAX_def d_def [symmetric] q_def [symmetric])
qed


section \<open>The search for a capacitor\<close>

text \<open>An oscillator that is too slow below a band of capacitors, locks on it and is too fast above.\<close>

definition vco_cmp :: "int \<Rightarrow> int \<Rightarrow> int \<Rightarrow> int" where
  "vco_cmp a b i = (if i < a then VCO_LOW else if i \<le> b then VCO_OK else VCO_HIGH)"

lemma vco_codes [simp]:
  "VCO_LOW \<noteq> VCO_OK" "VCO_LOW \<noteq> VCO_HIGH" "VCO_OK \<noteq> VCO_HIGH" "VCO_OK \<noteq> VCO_LOW" "VCO_HIGH \<noteq> VCO_OK" "VCO_HIGH \<noteq> VCO_LOW"
  by (simp_all add: VCO_LOW_def VCO_OK_def VCO_HIGH_def)

definition vco_works :: "(int \<Rightarrow> ('s, int) dev) \<Rightarrow> ('s \<Rightarrow> bool) \<Rightarrow> int \<Rightarrow> int \<Rightarrow> bool" where
  "vco_works f P a b \<longleftrightarrow> (\<forall>i s. 0 \<le> i \<longrightarrow> i \<le> 255 \<longrightarrow> P s \<longrightarrow> (\<exists>s'. f i s = (Inr (vco_cmp a b i), s') \<and> P s'))"

lemma vco_worksE:
  assumes "vco_works f P a b" "0 \<le> i" "i \<le> 255" "P s"
  obtains s' where "f i s = (Inr (vco_cmp a b i), s')" "P s'"
  using assms unfolding vco_works_def by blast

lemma vco_bisect_near:
  assumes f: "vco_works f P a b"
  shows "P s \<Longrightarrow> 2 ^ n \<le> i \<Longrightarrow> i \<le> 256 - 2 ^ n \<Longrightarrow> i - 2 ^ n \<le> a \<Longrightarrow> a \<le> i + 2 ^ n \<Longrightarrow>
    \<exists>j s'. vco_bisect f (rev [0..<n]) i s = (Inr j, s') \<and> P s' \<and> 1 \<le> j \<and> j \<le> 255 \<and> j - 1 \<le> a \<and> a \<le> j + 1"
proof (induction n arbitrary: i s)
  case 0 then show ?case by (auto simp: dreturn_def)
next
  case (Suc n)
  have p: "(0::int) < 2 ^ n" "(2::int) ^ Suc n = 2 * 2 ^ n" by simp_all
  have "0 \<le> i" "i \<le> 255" using Suc.prems(2,3) p by linarith+
  then obtain s' where s': "f i s = (Inr (vco_cmp a b i), s')" "P s'" using vco_worksE [OF f _ _ Suc.prems(1)] by blast
  show ?case
  proof (cases "i < a")
    case True
    show ?thesis using Suc.IH [OF s'(2), of "i + 2 ^ n"] Suc.prems True by (simp add: dbind_def s'(1) vco_cmp_def)
  next
    case False
    show ?thesis using Suc.IH [OF s'(2), of "i - 2 ^ n"] Suc.prems False by (auto simp: dbind_def s'(1) vco_cmp_def)
  qed
qed

lemma vco_scan_up:
  assumes f: "vco_works f P a b" and b: "b \<le> 255"
  shows "P s \<Longrightarrow> i + int n = 256 \<Longrightarrow> 0 \<le> a \<Longrightarrow> a < i \<Longrightarrow> i \<le> b + 1 \<Longrightarrow> \<exists>s'. vco_scan f n i a (i - 1) s = (Inr (a, b), s') \<and> P s'"
proof (induction n arbitrary: i s)
  case 0 then show ?case using b by (auto simp: dreturn_def)
next
  case (Suc n)
  obtain s' where s': "f i s = (Inr (vco_cmp a b i), s')" "P s'" using vco_worksE [OF f _ _ Suc.prems(1), of i] Suc.prems by auto
  show ?case
  proof (cases "i \<le> b")
    case True
    then show ?thesis using Suc.IH [OF s'(2), of "i + 1"] Suc.prems by (simp add: dbind_def s'(1) vco_cmp_def)
  next
    case False
    then show ?thesis using Suc.prems s'(2) by (auto simp: dbind_def dreturn_def s'(1) vco_cmp_def)
  qed
qed

lemma vco_scan_finds:
  assumes f: "vco_works f P a b" and b: "a \<le> b" "b \<le> 255"
  shows "P s \<Longrightarrow> i + int n = 256 \<Longrightarrow> 0 \<le> i \<Longrightarrow> i \<le> a \<Longrightarrow> lo = i \<or> lo = i + 1 \<Longrightarrow>
    \<exists>s'. vco_scan f n i lo (- 1) s = (Inr (a, b), s') \<and> P s'"
proof (induction n arbitrary: i lo s)
  case 0 then show ?case using b by simp
next
  case (Suc n)
  obtain s' where s': "f i s = (Inr (vco_cmp a b i), s')" "P s'" using vco_worksE [OF f _ _ Suc.prems(1), of i] Suc.prems by auto
  show ?case
  proof (cases "i < a")
    case True
    then show ?thesis using Suc.IH [OF s'(2), of "i + 1" "i + 1"] Suc.prems by (simp add: dbind_def s'(1) vco_cmp_def)
  next
    case False
    then have ia: "i = a" using Suc.prems by simp
    have l: "(if lo > i then i else lo) = a" using Suc.prems(5) ia by auto
    have k: "vco_cmp a b i = VCO_OK" using ia b(1) by (simp add: vco_cmp_def)
    obtain s2 where "vco_scan f n (i + 1) a i s' = (Inr (a, b), s2)" "P s2"
      using vco_scan_up [OF f b(2) s'(2), of "i + 1" n] Suc.prems ia b(1) by auto
    then show ?thesis by (simp add: dbind_def s'(1) k l)
  qed
qed

lemma vco_scan_empty:
  assumes f: "vco_works f P a b" and b: "b < a" "a \<le> 256"
  shows "P s \<Longrightarrow> i + int n = 256 \<Longrightarrow> 0 \<le> i \<Longrightarrow> i \<le> a \<Longrightarrow> lo = i \<or> lo = i + 1 \<Longrightarrow> 0 < lo \<Longrightarrow>
    \<exists>s' lo' hi'. vco_scan f n i lo (- 1) s = (Inr (lo', hi'), s') \<and> P s' \<and> 0 < lo' \<and> hi' < lo' \<and> hi' \<le> 254"
proof (induction n arbitrary: i lo s)
  case 0 then show ?case by (auto simp: dreturn_def)
next
  case (Suc n)
  obtain s' where s': "f i s = (Inr (vco_cmp a b i), s')" "P s'" using vco_worksE [OF f _ _ Suc.prems(1), of i] Suc.prems by auto
  show ?case
  proof (cases "i < a")
    case True
    then show ?thesis using Suc.IH [OF s'(2), of "i + 1" "i + 1"] Suc.prems by (simp add: dbind_def s'(1) vco_cmp_def)
  next
    case False
    then have k: "vco_cmp a b i = VCO_HIGH" using Suc.prems b by (simp add: vco_cmp_def)
    have "vco_scan f (Suc n) i lo (- 1) s = (Inr (lo, if i = 0 then 0 else i - 1), s')"
      by (simp add: dbind_def dreturn_def s'(1) k)
    then show ?thesis using Suc.prems s'(2) by auto
  qed
qed

lemma vco_range_finds:
  assumes f: "vco_works f P a b" and ab: "0 \<le> a" "a \<le> 256" "b \<le> 255" and P: "P s"
  shows "\<exists>hi lo s'. lms7002m_vco_range f (- 1) s = (Inr (hi, lo), s') \<and> P s' \<and> (if a \<le> b then hi = b \<and> lo = a else hi < lo)"
proof -
  have r: "[6, 5, 4, 3, 2, 1, 0] = rev [0..<7]" by (simp add: upt_rec)
  obtain j s1 where j: "vco_bisect f (rev [0..<7]) 128 s = (Inr j, s1)" "P s1" "1 \<le> j" "j \<le> 255" "j - 1 \<le> a" "a \<le> j + 1"
    using vco_bisect_near [OF f P, of 7 128] ab by auto
  have st: "(if j > 1 then j - 1 else 0) = j - 1" "j - 1 + int (nat (256 - (j - 1))) = 256" using j by auto
  note j1 = j(1) [folded r]
  show ?thesis
  proof (cases "a \<le> b")
    case True
    obtain s2 where "vco_scan f (nat (256 - (j - 1))) (j - 1) j (- 1) s1 = (Inr (a, b), s2)" "P s2"
      using vco_scan_finds [OF f True ab(3) j(2) st(2), of j] j by auto
    then show ?thesis using True ab
      by (simp add: lms7002m_vco_range_def dbind_def dreturn_def j1 st del: vco_bisect.simps One_nat_def)
  next
    case False
    obtain s2 lo hi where s2: "vco_scan f (nat (256 - (j - 1))) (j - 1) j (- 1) s1 = (Inr (lo, hi), s2)" "P s2" "0 < lo" "hi < lo" "hi \<le> 254"
      using vco_scan_empty [OF f _ ab(2) j(2) st(2), of j] j False by auto
    then show ?thesis using False
      by (auto simp: lms7002m_vco_range_def dbind_def dreturn_def j1 st simp del: vco_bisect.simps One_nat_def)
  qed
qed


section \<open>A chip of registers\<close>

lemma bit_lms_wr: "bit (lms_wr a v) n \<longleftrightarrow> n = 31 \<or> 16 \<le> n \<and> n < 32 \<and> bit a (n - 16) \<or> n < 16 \<and> bit v n"
proof -
  have m: "(0xffff :: u32) = mask 16" "(0x80000000 :: u32) = 2 ^ 31" by (simp_all add: mask_eq_exp_minus_1)
  have "bit (2 ^ 31 :: u32) n \<longleftrightarrow> n = 31" by (simp only: bit_exp_iff) auto
  then show ?thesis unfolding lms_wr_def m by (simp only: bit_or_iff bit_and_iff bit_push_bit_iff bit_mask_iff) auto
qed

lemma lms_addr_bit: "a AND 0x7fff = a \<Longrightarrow> bit (a :: u32) n \<Longrightarrow> n < 15"
proof -
  assume a: "a AND 0x7fff = a" and b: "bit a n"
  have m: "(0x7fff :: u32) = mask 15" by (simp add: mask_eq_exp_minus_1)
  show "n < 15" using arg_cong [OF a [unfolded m], of "\<lambda>x. bit x n"] b by (auto simp: bit_and_iff bit_mask_iff)
qed

lemma lms_wr_addr: "a AND 0x7fff = a \<Longrightarrow> drop_bit 16 (lms_wr a v) AND 0x7fff = a"
proof (rule bit_word_eqI)
  fix n assume a: "a AND 0x7fff = a" and n: "n < LENGTH(32)"
  have m: "(0x7fff :: u32) = mask 15" by (simp add: mask_eq_exp_minus_1)
  show "bit (drop_bit 16 (lms_wr a v) AND 0x7fff) n \<longleftrightarrow> bit a n"
    unfolding m using lms_addr_bit [OF a, of n] by (auto simp: bit_and_iff bit_drop_bit_eq bit_lms_wr bit_mask_iff)
qed

lemma lms_wr_value: "ucast (lms_wr a v) = (ucast v :: u16)"
  by (rule bit_word_eqI) (auto simp: bit_ucast_iff bit_lms_wr)

lemma lms_wr_top: "bit (lms_wr a v) 31"
  by (simp add: bit_lms_wr)

type_synonym lms_regs = "u32 \<Rightarrow> u16"

definition lms_poke :: "lms_regs \<Rightarrow> u32 \<Rightarrow> lms_regs" where
  "lms_poke h w = h(drop_bit 16 w AND 0x7fff := ucast w)"

text \<open>A chip keeps what is written and answers a read with a function of its registers.\<close>

definition lms_chip :: "(lms_regs \<Rightarrow> u32 \<Rightarrow> u16) \<Rightarrow> lms_regs bus" where
  "lms_chip rd = (\<lambda>rq h. let w = of_le_bytes (rq_out rq) :: u32 in
     if bit w 31 then (Inr (le_bytes 4 (0 :: u32)), lms_poke h w) else (Inr (le_bytes 4 (ucast (rd h (drop_bit 16 w)) :: u32)), h))"

lemma lms_post_chip:
  assumes "\<forall>r\<in>set rs. bit r 31 \<and> drop_bit 16 r AND 0x7fff \<noteq> fst LML_0x0020"
  shows "lms7002m_spi_post (lms_chip rd) rs (h, m) = (Inr (), (foldl lms_poke h rs, m))"
  using assms
proof (induction rs arbitrary: h)
  case (Cons r rs)
  have "spi_tr32 (lms_chip rd) a r h = (Inr (), lms_poke h r)" for a
    using Cons.prems by (simp add: spi_tr32_def bus_op_def lms_chip_def dbind_def of_le_bytes_le_bytes Let_def)
  then show ?case using Cons by (simp add: dbind_def dseq_def on_hw_def)
qed simp

lemma lms_rd_chip:
  assumes "a AND 0x7fff = a"
  shows "lms7002m_spi_rd (lms_chip rd) a (h, m) = (Inr (rd h a), (h, m))"
proof -
  note b = lms_addr_bit [OF assms]
  have p: "\<not> bit (push_bit 16 a) 31" using b [of 15] by (auto simp: bit_push_bit_iff)
  have d: "drop_bit 16 (push_bit 16 a) = a" by (rule bit_word_eqI) (use b in \<open>auto simp: bit_simps intro: less_trans\<close>)
  have u: "ucast (ucast (x :: u16) :: u32) = x" for x by (rule bit_word_eqI) (simp add: bit_ucast_iff)
  show ?thesis
    by (simp add: lms7002m_spi_rd_def spi_tr32_rd_def bus_op_def lms_chip_def dbind_def on_hw_def of_le_bytes_le_bytes Let_def p d u)
qed

text \<open>What a register holds after a write of its packed fields.\<close>

lemma lms_make_field:
  assumes "r = (a, fs)" "fdisjoint fs" "i < length fs" "i < length vs" "fst (fs ! i) + snd (fs ! i) \<le> 16"
  shows "fget (fs ! i) (ucast (lms_make r vs) :: u16) = ucast (vs ! i) AND mask (snd (fs ! i))"
proof (rule bit_word_eqI)
  fix n assume n: "n < LENGTH(16)"
  show "bit (fget (fs ! i) (ucast (lms_make r vs) :: u16)) n \<longleftrightarrow> bit (ucast (vs ! i) AND mask (snd (fs ! i)) :: u16) n"
    using bit_fpack_in [OF assms(2-4), of "fst (fs ! i) + n"] assms(5) n
    by (auto simp: assms(1) lms_make_def lms_wr_value bit_fget bit_ucast_iff bit_and_iff bit_mask_iff)
qed


section \<open>The clock generator\<close>

definition cgen_cap :: "lms_regs \<Rightarrow> int" where
  "cgen_cap h = uint (fget (1, 8) (h (fst CGEN_0x008B)))"

text \<open>The ratio in the registers, in steps of the fraction, and the output divider.\<close>

definition cgen_ratio :: "lms_regs \<Rightarrow> nat" where
  "cgen_ratio h = (unat (fget (4, 10) (h (fst CGEN_0x0088))) + 1) * 2 ^ 20 + unat (fget (0, 4) (h (fst CGEN_0x0088))) * 2 ^ 16 + unat (h (fst CGEN_0x0087))"

definition cgen_div :: "lms_regs \<Rightarrow> nat" where
  "cgen_div h = 2 * (unat (fget (3, 8) (h (fst CGEN_0x0089))) + 1)"

definition cgen_state :: "u16 \<Rightarrow> int" where
  "cgen_state reg = uint (push_bit 1 (fget CGEN_VCO_CMPHO reg) OR fget CGEN_VCO_CMPLO reg)"

text \<open>The comparators of the chip answer for the capacitor in its register, with a band that depends on the ratio.\<close>

definition cgen_chip :: "(lms_regs \<Rightarrow> u32 \<Rightarrow> u16) \<Rightarrow> (nat \<Rightarrow> int) \<Rightarrow> (nat \<Rightarrow> int) \<Rightarrow> bool" where
  "cgen_chip rd A B \<longleftrightarrow> (\<forall>h. cgen_state (rd h CGEN_0x008C_addr) = vco_cmp (A (cgen_ratio h)) (B (cgen_ratio h)) (cgen_cap h))"

lemmas cgen_regs = CGEN_ENABLE_def CGEN_0x0087_def CGEN_0x0088_def CGEN_0x0089_def CGEN_0x008B_def CGEN_0x008C_addr_def LML_0x0020_def

lemma lms_make_simps:
  "bit (lms_make (a, fs) vs) 31" "a AND 0x7fff = a \<Longrightarrow> drop_bit 16 (lms_make (a, fs) vs) AND 0x7fff = a"
  "a AND 0x7fff = a \<Longrightarrow> lms_poke h (lms_make (a, fs) vs) = h(a := ucast (lms_make (a, fs) vs))"
  by (simp_all add: lms_make_def lms_wr_top lms_wr_addr lms_poke_def)

lemma unat_lms_field:
  assumes "r = (a, fs)" "fdisjoint fs" "i < length fs" "i < length vs" "fst (fs ! i) + snd (fs ! i) \<le> 16"
  shows "unat (fget (fs ! i) (ucast (lms_make r vs) :: u16)) = unat (vs ! i) mod 2 ^ snd (fs ! i)"
  using assms(5) unfolding lms_make_field [OF assms]
  by (simp add: take_bit_eq_mask [symmetric] unsigned_take_bit_eq unsigned_ucast_eq min_absorb2 min_absorb1 flip: take_bit_eq_mod)

lemma fget_make_cap:
  assumes "0 \<le> i" "i \<le> 255"
  shows "uint (fget (1, 8) (ucast (lms_make CGEN_0x008B [15, of_int i, 0]) :: u16)) = i"
proof -
  have "unat (fget (1, 8) (ucast (lms_make CGEN_0x008B [15, of_int i, 0]) :: u16)) = unat (of_int i :: u32) mod 2 ^ 8"
    using unat_lms_field [OF CGEN_0x008B_def, of 1 "[15, of_int i, 0]"] by simp
  moreover obtain n where n: "i = int n" "n \<le> 255" using assms by (cases i) auto
  ultimately have "unat (fget (1, 8) (ucast (lms_make CGEN_0x008B [15, of_int i, 0]) :: u16)) = n"
    by (simp add: unsigned_of_nat take_bit_nat_eq_self)
  then show ?thesis using n(1) by (simp only: uint_nat)
qed

lemma cgen_trim_chip:
  assumes chip: "cgen_chip rd A B" and i: "0 \<le> i" "i \<le> 255"
  shows "\<exists>h'. lms7002m_cgen_trim_vco (lms_chip rd) i (h, m) = (Inr (vco_cmp (A (cgen_ratio h)) (B (cgen_ratio h)) i), (h', m)) \<and>
    (\<forall>a. a \<noteq> fst CGEN_0x008B \<longrightarrow> h' a = h a) \<and> cgen_cap h' = i"
proof -
  define h' where "h' = lms_poke h (lms_make CGEN_0x008B [15, of_int i, 0])"
  have h': "h' = h(fst CGEN_0x008B := ucast (lms_make CGEN_0x008B [15, of_int i, 0]))"
    by (simp add: h'_def CGEN_0x008B_def lms_make_simps)
  have cap: "cgen_cap h' = i" using fget_make_cap [OF i] by (simp add: cgen_cap_def h' del: One_nat_def)
  have rat: "cgen_ratio h' = cgen_ratio h" by (simp add: cgen_ratio_def h' cgen_regs)
  have "lms7002m_spi_post (lms_chip rd) [lms_make CGEN_0x008B [15, of_int i, 0]] (h, m) = (Inr (), (h', m))"
    by (subst lms_post_chip) (simp_all add: cgen_regs lms_make_simps h'_def)
  moreover have "lms7002m_spi_rd (lms_chip rd) CGEN_0x008C_addr (h', m) = (Inr (rd h' CGEN_0x008C_addr), (h', m))"
    by (rule lms_rd_chip) (simp add: cgen_regs)
  moreover have "cgen_state (rd h' CGEN_0x008C_addr) = vco_cmp (A (cgen_ratio h)) (B (cgen_ratio h)) i"
    using chip cap rat by (simp add: cgen_chip_def)
  ultimately have "lms7002m_cgen_trim_vco (lms_chip rd) i (h, m) = (Inr (vco_cmp (A (cgen_ratio h)) (B (cgen_ratio h)) i), (h', m))"
    by (simp add: lms7002m_cgen_trim_vco_def cgen_state_def del: lms7002m_spi_post.simps)
  then show ?thesis using cap h' by auto
qed


lemma cgen_setup_chip:
  assumes nint: "1 \<le> unat nint" "unat nint \<le> 1024" and frac: "unat frac < 2 ^ 20" and d: "1 \<le> unat div2" "unat div2 \<le> 256"
  shows "\<exists>h'. lms7002m_spi_post (lms_chip rd)
      [lms_make CGEN_ENABLE [0, 1, 0, 0, 0, 1, 0, 0, 0, 0, 0, 0, 1], lms_make CGEN_0x0087 [frac],
       lms_make CGEN_0x0088 [nint - 1, drop_bit 16 frac], lms_make CGEN_0x0089 [0, 0, 0, txdiv_ord, div2 - 1, 0]] (h, m) = (Inr (), (h', m)) \<and>
    cgen_ratio h' = unat nint * 2 ^ 20 + unat frac \<and> cgen_div h' = 2 * unat div2"
    (is "\<exists>h'. lms7002m_spi_post _ [?e, ?r87, ?r88, ?r89] _ = _ \<and> _ h' \<and> _ h'")
proof -
  define h' where "h' = foldl lms_poke h [?e, ?r87, ?r88, ?r89]"
  have post: "lms7002m_spi_post (lms_chip rd) [?e, ?r87, ?r88, ?r89] (h, m) = (Inr (), (h', m))"
    by (subst lms_post_chip) (simp_all add: cgen_regs lms_make_simps h'_def)
  have v: "h' (fst CGEN_0x0087) = ucast ?r87" "h' (fst CGEN_0x0088) = ucast ?r88" "h' (fst CGEN_0x0089) = ucast ?r89"
    by (simp_all add: h'_def cgen_regs lms_make_simps)
  have n1: "unat (nint - 1) = unat nint - 1" and d1: "unat (div2 - 1) = unat div2 - 1"
    using nint d by (simp_all add: unat_sub word_le_nat_alt)
  have frac16: "unat (drop_bit 16 frac) mod 16 = unat frac div 65536"
  proof -
    have "unat (drop_bit 16 frac) = unat frac div 65536" by (simp only: unat_drop_bit_eq) (simp add: drop_bit_eq_div)
    then show ?thesis using frac by (simp only:) (simp add: div_less_iff_less_mult)
  qed
  have f88: "unat (fget (4, 10) (ucast ?r88 :: u16)) = unat nint - 1" "unat (fget (0, 4) (ucast ?r88 :: u16)) = unat frac div 2 ^ 16"
    using unat_lms_field [OF CGEN_0x0088_def, of 0 "[nint - 1, drop_bit 16 frac]"]
      unat_lms_field [OF CGEN_0x0088_def, of 1 "[nint - 1, drop_bit 16 frac]"] nint frac
    by (simp_all add: n1 frac16)
  have f87: "unat (ucast ?r87 :: u16) = unat frac mod 2 ^ 16"
  proof -
    have "fget (0, 16) (ucast ?r87 :: u16) = ucast ?r87" by (rule bit_word_eqI) (simp add: bit_fget)
    then show ?thesis using unat_lms_field [OF CGEN_0x0087_def, of 0 "[frac]"] by simp
  qed
  have f89: "unat (fget (3, 8) (ucast ?r89 :: u16)) = unat div2 - 1"
    using unat_lms_field [OF CGEN_0x0089_def, of 4 "[0, 0, 0, txdiv_ord, div2 - 1, 0]"] d by (simp add: d1)
  have "cgen_ratio h' = unat nint * 2 ^ 20 + unat frac"
    using nint by (simp add: cgen_ratio_def v f88 f87 algebra_simps)
  moreover have "cgen_div h' = 2 * unat div2" using d by (simp add: cgen_div_def v f89)
  ultimately show ?thesis using post by blast
qed

text \<open>The registers the search and the last setting do not change.\<close>

lemma cgen_same:
  assumes "\<forall>a. a \<noteq> fst CGEN_0x008B \<longrightarrow> h' a = h a"
  shows "cgen_ratio h' = cgen_ratio h" "cgen_div h' = cgen_div h"
  using assms by (simp_all add: cgen_ratio_def cgen_div_def cgen_regs)

lemma cgen_works:
  assumes chip: "cgen_chip rd A B"
  shows "vco_works (lms7002m_cgen_trim_vco (lms_chip rd)) (\<lambda>s. \<exists>h'. s = (h', m) \<and> (\<forall>a. a \<noteq> fst CGEN_0x008B \<longrightarrow> h' a = h a))
    (A (cgen_ratio h)) (B (cgen_ratio h))"
  unfolding vco_works_def
proof (intro allI impI)
  fix i :: int and s assume i: "0 \<le> i" "i \<le> 255" and "\<exists>h'. s = (h', m) \<and> (\<forall>a. a \<noteq> fst CGEN_0x008B \<longrightarrow> h' a = h a)"
  then obtain h1 where h1: "s = (h1, m)" "\<forall>a. a \<noteq> fst CGEN_0x008B \<longrightarrow> h1 a = h a" by blast
  obtain h2 where "lms7002m_cgen_trim_vco (lms_chip rd) i (h1, m) = (Inr (vco_cmp (A (cgen_ratio h1)) (B (cgen_ratio h1)) i), (h2, m))"
    "\<forall>a. a \<noteq> fst CGEN_0x008B \<longrightarrow> h2 a = h1 a"
    using cgen_trim_chip [OF chip i] by blast
  then show "\<exists>s'. lms7002m_cgen_trim_vco (lms_chip rd) i s = (Inr (vco_cmp (A (cgen_ratio h)) (B (cgen_ratio h)) i), s') \<and>
      (\<exists>h'. s' = (h', m) \<and> (\<forall>a. a \<noteq> fst CGEN_0x008B \<longrightarrow> h' a = h a))"
    using h1 by (auto simp: cgen_same(1) [OF h1(2)])
qed

lemma cgen_tune_chip:
  assumes chip: "cgen_chip rd A B" and band: "\<And>R. 0 \<le> A R \<and> A R \<le> 256 \<and> B R \<le> 255"
    and e: "1 \<le> e" "e \<le> 256" "2000000000 \<le> 2 * e * unat outfreq" "2 * e * unat outfreq \<le> 2700000000"
    and fref: "3000000 \<le> unat fref" "unat fref \<le> 2000000000"
  shows "\<exists>h'. lms7002m_cgen_tune (lms_chip rd) fref outfreq txdiv_ord (h, m) =
      (if A (cgen_ratio h') \<le> B (cgen_ratio h') then Inr () else Inl (- ERANGE), (h', m)) \<and>
    (A (cgen_ratio h') \<le> B (cgen_ratio h') \<longrightarrow> cgen_cap h' = (A (cgen_ratio h') + B (cgen_ratio h')) div 2) \<and>
    2000000000 \<le> cgen_div h' * unat outfreq \<and> cgen_div h' * unat outfreq \<le> 2700000000 \<and>
    unat fref * cgen_ratio h' \<le> cgen_div h' * unat outfreq * 2 ^ 20 \<and>
    cgen_div h' * unat outfreq * 2 ^ 20 < unat fref * (cgen_ratio h' + 1)"
proof -
  define d where "d = cgen_div2 outfreq"
  have u: "unat (2000000000 :: u32) = 2000000000" "unat (2700000000 :: u32) = 2700000000" by simp_all
  have d: "1 \<le> unat d" "unat d \<le> 256" "unat (d * outfreq * 2) = 2 * unat d * unat outfreq"
    "2000000000 \<le> unat (d * outfreq * 2)" "unat (d * outfreq * 2) \<le> 2700000000"
    using cgen_div_in_range [OF e] unfolding Let_def d_def [symmetric] CGEN_VCO_MIN_def CGEN_VCO_MAX_def word_le_nat_alt u
    by blast+
  have f0: "fref \<noteq> 0" "outfreq \<noteq> 0" using fref e by auto
  obtain nint frac where p: "pll_calc fref (d * outfreq * 2) = Inr (nint, frac)" "unat frac < 2 ^ 20"
      "unat nint = unat (d * outfreq * 2) div unat fref"
    using pll_calc_value [OF f0(1)] by blast
  obtain nint' frac' where "pll_calc fref (d * outfreq * 2) = Inr (nint', frac')" 
     "unat fref * (unat nint' * 2 ^ 20 + unat frac') \<le> unat (d * outfreq * 2) * 2 ^ 20 \<and>
      unat (d * outfreq * 2) * 2 ^ 20 < unat fref * (unat nint' * 2 ^ 20 + unat frac' + 1)"
    using pll_calc_accuracy [OF f0(1), of "d * outfreq * 2"] by blast
  then have acc: "unat fref * (unat nint * 2 ^ 20 + unat frac) \<le> unat (d * outfreq * 2) * 2 ^ 20"
      "unat (d * outfreq * 2) * 2 ^ 20 < unat fref * (unat nint * 2 ^ 20 + unat frac + 1)" using p(1) by auto
  have nint: "1 \<le> unat nint" "unat nint \<le> 1024"
  proof -
    have "1 * unat fref \<le> unat (d * outfreq * 2)" using fref d by linarith
    then show "1 \<le> unat nint" unfolding p(3) using fref by (simp add: div_greater_zero_iff Suc_le_eq)
    have "unat (d * outfreq * 2) < 1025 * unat fref" using fref d by linarith
    then show "unat nint \<le> 1024" unfolding p(3) using fref by (simp add: div_less_iff_less_mult flip: less_Suc_eq_le)
  qed
  obtain h1 where h1: "lms7002m_spi_post (lms_chip rd)
      [lms_make CGEN_ENABLE [0, 1, 0, 0, 0, 1, 0, 0, 0, 0, 0, 0, 1], lms_make CGEN_0x0087 [frac],
       lms_make CGEN_0x0088 [nint - 1, drop_bit 16 frac], lms_make CGEN_0x0089 [0, 0, 0, txdiv_ord, d - 1, 0]] (h, m) = (Inr (), (h1, m))"
    "cgen_ratio h1 = unat nint * 2 ^ 20 + unat frac" "cgen_div h1 = 2 * unat d"
    using cgen_setup_chip [OF nint p(2) d(1,2)] by blast
  define a b where "a = A (cgen_ratio h1)" and "b = B (cgen_ratio h1)"
  obtain hi lo h2 where r: "lms7002m_vco_range (lms7002m_cgen_trim_vco (lms_chip rd)) (- 1) (h1, m) = (Inr (hi, lo), (h2, m))"
      "\<forall>x. x \<noteq> fst CGEN_0x008B \<longrightarrow> h2 x = h1 x" "if a \<le> b then hi = b \<and> lo = a else hi < lo"
    using vco_range_finds [OF cgen_works [OF chip, of m h1], of "(h1, m)"] band unfolding a_def b_def by blast
  have run: "lms7002m_cgen_tune (lms_chip rd) fref outfreq txdiv_ord (h, m) =
     (if hi < lo then dbind (dtry (lms7002m_cgen_disable (lms_chip rd))) (\<lambda>_. dfail (- ERANGE))
      else dbind (lms7002m_cgen_trim_vco (lms_chip rd) ((hi + lo) div 2)) (\<lambda>v.
        if v < 0 then dfail v else if v \<noteq> VCO_OK then dfail (- ERANGE) else dreturn ())) (h2, m)"
    by (simp add: lms7002m_cgen_tune_def Let_def f0 d_def [symmetric] p(1) h1(1) dtry_def r(1) dbind_def dseq_def del: lms7002m_spi_post.simps)
  have fin: "2000000000 \<le> cgen_div h' * unat outfreq \<and> cgen_div h' * unat outfreq \<le> 2700000000 \<and>
      unat fref * cgen_ratio h' \<le> cgen_div h' * unat outfreq * 2 ^ 20 \<and>
      cgen_div h' * unat outfreq * 2 ^ 20 < unat fref * (cgen_ratio h' + 1)"
    if "cgen_ratio h' = cgen_ratio h1" "cgen_div h' = cgen_div h1" for h'
    using that d acc by (simp add: h1)
  show ?thesis
  proof (cases "a \<le> b")
    case True
    have ab: "0 \<le> a" "b \<le> 255" using band by (simp_all add: a_def b_def)
    have hl: "hi = b" "lo = a" using r(3) True by auto
    have h2r: "cgen_ratio h2 = cgen_ratio h1" "cgen_div h2 = cgen_div h1" using cgen_same [OF r(2)] by auto
    have mid: "0 \<le> (b + a) div 2" "(b + a) div 2 \<le> 255" using ab True by linarith+
    obtain h3 where h3: "lms7002m_cgen_trim_vco (lms_chip rd) ((b + a) div 2) (h2, m) = (Inr (vco_cmp a b ((b + a) div 2)), (h3, m))"
        "\<forall>x. x \<noteq> fst CGEN_0x008B \<longrightarrow> h3 x = h2 x" "cgen_cap h3 = (b + a) div 2"
      using cgen_trim_chip [OF chip mid, of h2 m] unfolding h2r a_def [symmetric] b_def [symmetric] by blast
    have ok: "vco_cmp a b ((b + a) div 2) = VCO_OK" using True unfolding vco_cmp_def by auto
    have same: "cgen_ratio h3 = cgen_ratio h1" "cgen_div h3 = cgen_div h1" using cgen_same [OF h3(2)] h2r by auto
    have "lms7002m_cgen_tune (lms_chip rd) fref outfreq txdiv_ord (h, m) = (Inr (), (h3, m))"
      using True unfolding run by (simp add: hl h3(1) ok VCO_OK_def)
    then show ?thesis using fin [OF same] h3(3) True by (intro exI [of _ h3]) (simp add: same a_def b_def add.commute)
  next
    case False
    define h3 where "h3 = lms_poke h2 (lms_make CGEN_ENABLE [0, 0, 0, 0, 0, 0, 0, 1, 1, 1, 1, 1, 0])"
    have "lms7002m_cgen_disable (lms_chip rd) (h2, m) = (Inr (), (h3, m))"
      unfolding lms7002m_cgen_disable_def by (subst lms_post_chip) (simp_all add: cgen_regs lms_make_simps h3_def)
    then have "lms7002m_cgen_tune (lms_chip rd) fref outfreq txdiv_ord (h, m) = (Inl (- ERANGE), (h3, m))"
      using False r(3) unfolding run by (simp add: dtry_def dbind_def)
    moreover have same: "cgen_ratio h3 = cgen_ratio h1" "cgen_div h3 = cgen_div h1"
      using cgen_same [OF r(2)] by (simp_all add: h3_def cgen_ratio_def cgen_div_def cgen_regs lms_make_simps)
    ultimately show ?thesis using fin [OF same] False by (intro exI [of _ h3]) (simp add: same a_def b_def)
  qed
qed

section \<open>Tuning\<close>

text \<open>C16: the clock generator on a chip whose oscillator locks for a band of capacitors (which depends on the ratio in its
  registers). For a frequency some even divider can give, the driver leaves a divider that puts the oscillator between 2000 and
  2700 MHz, and a ratio that is within one step of the fraction below that frequency. With a band that is not empty it
  returns success and the capacitor is the middle of the band; else it returns an error.\<close>

theorem cgen_tune_locks:
  assumes "cgen_chip rd A B" and "\<And>R. 0 \<le> A R \<and> A R \<le> 256 \<and> B R \<le> 255"
    and "1 \<le> e" "e \<le> 256" "2000000000 \<le> 2 * e * unat outfreq" "2 * e * unat outfreq \<le> 2700000000"
    and "3000000 \<le> unat fref" "unat fref \<le> 2000000000"
  shows "\<exists>h'. lms7002m_cgen_tune (lms_chip rd) fref outfreq txdiv_ord (h, m) =
      (if A (cgen_ratio h') \<le> B (cgen_ratio h') then Inr () else Inl (- ERANGE), (h', m)) \<and>
    (A (cgen_ratio h') \<le> B (cgen_ratio h') \<longrightarrow> cgen_cap h' = (A (cgen_ratio h') + B (cgen_ratio h')) div 2) \<and>
    2000000000 \<le> cgen_div h' * unat outfreq \<and> cgen_div h' * unat outfreq \<le> 2700000000 \<and>
    unat fref * cgen_ratio h' \<le> cgen_div h' * unat outfreq * 2 ^ 20 \<and>
    cgen_div h' * unat outfreq * 2 ^ 20 < unat fref * (cgen_ratio h' + 1)"
  by (rule cgen_tune_chip [OF assms])

definition band_rd :: "lms_regs \<Rightarrow> u32 \<Rightarrow> u16" where
  "band_rd h a = (if cgen_cap h < 100 then 0 else if cgen_cap h \<le> 150 then 0x2000 else 0x3000)"

lemma band_chip: "cgen_chip band_rd (\<lambda>_. 100) (\<lambda>_. 150)"
  by (simp add: cgen_chip_def band_rd_def vco_cmp_def cgen_state_def fget_def fmask_def CGEN_VCO_CMPHO_def CGEN_VCO_CMPLO_def
    mask_eq_exp_minus_1 VCO_LOW_def VCO_OK_def VCO_HIGH_def)

theorem cgen_tune_locks_witness:
  "\<forall>h0 m0. \<exists>h'. lms7002m_cgen_tune (lms_chip band_rd) 40000000 80000000 0 (h0, m0) = (Inr (), (h', m0)) \<and> cgen_cap h' = 125"
  using cgen_tune_locks [OF band_chip, of 14 80000000 40000000 0] by auto

text \<open>C18: the search for a capacitor, for any comparator that answers low below a band, locked in it and high above it:
  it finds the ends of the band, and reports a range that is empty when the band is.\<close>

theorem vco_range_exact:
  assumes "vco_works f P a b" and "0 \<le> a" "a \<le> 256" "b \<le> 255" and "P s"
  shows "\<exists>hi lo s'. lms7002m_vco_range f (- 1) s = (Inr (hi, lo), s') \<and> P s' \<and> (if a \<le> b then hi = b \<and> lo = a else hi < lo)"
  by (rule vco_range_finds [OF assms])

theorem vco_range_exact_witness:
  "\<exists>hi lo s'. lms7002m_vco_range (\<lambda>i s. (Inr (vco_cmp 17 40 i), s)) (- 1) () = (Inr (hi, lo), s') \<and> hi = 40 \<and> lo = 17"
  using vco_range_exact [of "\<lambda>i s. (Inr (vco_cmp 17 40 i), s)" "\<lambda>_. True" 17 40 "()"] by (auto simp: vco_works_def)

end
