(* ===== verification/Lms7002mCalls.thy ===== *)
theory Lms7002mCalls
  imports Lms7002mTune
begin

text \<open>
  The calls of the LMS7002M driver in any order: the chip's active channels are those the driver keeps. A call that
  fails in the middle may break this; a local oscillator that cannot be tuned does.
\<close>

section \<open>Calls\<close>

datatype lms_call =
    L_mac_set u16 | L_limelight_reset | L_limelight_configure lms_limelight_conf | L_limelight_map "u8 list" "u8 list"
  | L_cgen_disable | L_cgen_tune u32 u32 u32 | L_sxx_disable lms_sxx_path | L_sxx_tune lms_sxx_path u32 u32 bool
  | L_afe_enable bool bool bool bool | L_dc_corr_en bool bool bool bool | L_dc_corr u32 u16 | L_cds_set bool
  | L_rxtsp_dc_corr bool u32 | L_xxtsp_enable lms_tsp bool | L_xxtsp_int_dec lms_tsp u32 | L_xxtsp_gen lms_tsp lms_gen u16 u16
  | L_xxtsp_cmix lms_tsp u32 | L_iq_gcorr lms_tsp u32 u32 | L_iq_phcorr lms_tsp u32
  | L_rfe_path u32 lms_rfe_mode | L_rfe_gain lms_rfe_gain int | L_trf_path u32 lms_trf_mode | L_trf_gain lms_trf_gain int
  | L_rbb_path lms_rbb_path lms_rbb_mode | L_rbb_pga int | L_rbb_lpf_raw lms_lpf_params
  | L_tbb_path lms_tbb_path lms_tbb_mode | L_tbb_lpf_raw lms_lpf_params | L_tbb_gain int

definition dvoid :: "('s, 'a) dev \<Rightarrow> ('s, unit) dev" where
  "dvoid m = dbind m (\<lambda>_. dreturn ())"

fun lms_run :: "'h bus \<Rightarrow> lms_call \<Rightarrow> ('h, unit) lms" where
  "lms_run bus (L_mac_set mac) = lms7002m_mac_set bus mac"
| "lms_run bus L_limelight_reset = lms7002m_limelight_reset bus"
| "lms_run bus (L_limelight_configure p) = lms7002m_limelight_configure bus p"
| "lms_run bus (L_limelight_map a b) = lms7002m_limelight_map bus a b"
| "lms_run bus L_cgen_disable = lms7002m_cgen_disable bus"
| "lms_run bus (L_cgen_tune fref f d) = lms7002m_cgen_tune bus fref f d"
| "lms_run bus (L_sxx_disable p) = lms7002m_sxx_disable bus p"
| "lms_run bus (L_sxx_tune p fref lo ch) = lms7002m_sxx_tune bus p fref lo ch"
| "lms_run bus (L_afe_enable a b c d) = lms7002m_afe_enable bus a b c d"
| "lms_run bus (L_dc_corr_en a b c d) = lms7002m_dc_corr_en bus a b c d"
| "lms_run bus (L_dc_corr p v) = lms7002m_dc_corr bus p v"
| "lms_run bus (L_cds_set a) = lms7002m_cds_set bus a"
| "lms_run bus (L_rxtsp_dc_corr b w) = lms7002m_rxtsp_dc_corr bus b w"
| "lms_run bus (L_xxtsp_enable t e) = lms7002m_xxtsp_enable bus t e"
| "lms_run bus (L_xxtsp_int_dec t n) = lms7002m_xxtsp_int_dec bus t n"
| "lms_run bus (L_xxtsp_gen t g i q) = lms7002m_xxtsp_gen bus t g i q"
| "lms_run bus (L_xxtsp_cmix t f) = lms7002m_xxtsp_cmix bus t f"
| "lms_run bus (L_iq_gcorr t i q) = lms7002m_xxtsp_iq_gcorr bus t i q"
| "lms_run bus (L_iq_phcorr t a) = lms7002m_xxtsp_iq_phcorr bus t a"
| "lms_run bus (L_rfe_path p md) = lms7002m_rfe_path bus p md"
| "lms_run bus (L_rfe_gain g x) = dvoid (lms7002m_rfe_gain bus g x)"
| "lms_run bus (L_trf_path p md) = lms7002m_trf_path bus p md"
| "lms_run bus (L_trf_gain g x) = dvoid (lms7002m_trf_gain bus g x)"
| "lms_run bus (L_rbb_path p md) = lms7002m_rbb_path bus p md"
| "lms_run bus (L_rbb_pga g) = lms7002m_rbb_pga bus g"
| "lms_run bus (L_rbb_lpf_raw p) = lms7002m_rbb_lpf_raw bus p"
| "lms_run bus (L_tbb_path p md) = lms7002m_tbb_path bus p md"
| "lms_run bus (L_tbb_lpf_raw p) = lms7002m_tbb_lpf_raw bus p"
| "lms_run bus (L_tbb_gain g) = lms7002m_tbb_gain bus g"

section \<open>The active channels\<close>

definition lms_synced :: "lms7002m_state \<Rightarrow> bool" where
  "lms_synced m \<longleftrightarrow> lm_reg_amac m = lm_reg_mac m"

definition mac_inv :: "('h, 'a) lms \<Rightarrow> bool" where
  "mac_inv op \<longleftrightarrow> (\<forall>s x s'. op s = (Inr x, s') \<longrightarrow> lms_synced (snd s) \<longrightarrow> lms_synced (snd s'))"

text \<open>A step that leaves both as they are, whatever it returns, and one that ends in sync wherever it starts.\<close>

definition mac_still :: "('h, 'a) lms \<Rightarrow> bool" where
  "mac_still op \<longleftrightarrow> (\<forall>s x s'. op s = (x, s') \<longrightarrow> lm_reg_amac (snd s') = lm_reg_amac (snd s) \<and> lm_reg_mac (snd s') = lm_reg_mac (snd s))"

definition mac_end :: "('h, 'a) lms \<Rightarrow> bool" where
  "mac_end op \<longleftrightarrow> (\<forall>s x s'. op s = (Inr x, s') \<longrightarrow> lms_synced (snd s'))"

definition lms_plain :: "u32 \<Rightarrow> bool" where
  "lms_plain r \<longleftrightarrow> drop_bit 16 r AND 0x7fff \<noteq> fst LML_0x0020"

primrec amac_after :: "u32 list \<Rightarrow> u16 \<Rightarrow> u16" where
  "amac_after [] a = a"
| "amac_after (r # rs) a = amac_after rs (if lms_plain r then a else ucast r)"

named_theorems mac_rules

lemma mac_still_inv: "mac_still op \<Longrightarrow> mac_inv op" and mac_end_inv: "mac_end op \<Longrightarrow> mac_inv op"
  unfolding mac_still_def mac_end_def mac_inv_def lms_synced_def by (metis, blast)

lemma dbind_cases:
  assumes "dbind m k s = (x, s')"
  obtains e where "m s = (Inl e, s')" "x = Inl e" | a s1 where "m s = (Inr a, s1)" "k a s1 = (x, s')"
  using assms unfolding dbind_def by (auto split: prod.splits sum.splits)

lemma mac_still_bind [mac_rules]:
  assumes "mac_still m" "\<And>a. mac_still (k a)" shows "mac_still (dbind m k)"
  unfolding mac_still_def
proof (intro allI impI)
  fix s x s' assume "dbind m k s = (x, s')"
  then show "lm_reg_amac (snd s') = lm_reg_amac (snd s) \<and> lm_reg_mac (snd s') = lm_reg_mac (snd s)"
    using assms unfolding mac_still_def by (cases rule: dbind_cases) metis+
qed

lemma mac_inv_bind:
  assumes "mac_inv m" "\<And>a. mac_inv (k a)" shows "mac_inv (dbind m k)"
  unfolding mac_inv_def
proof (intro allI impI)
  fix s x s' assume "dbind m k s = (Inr x, s')" "lms_synced (snd s)"
  then show "lms_synced (snd s')" using assms unfolding mac_inv_def by (cases rule: dbind_cases) (simp, blast)
qed

lemma mac_end_bind:
  assumes "\<And>a. mac_end (k a)" shows "mac_end (dbind m k)"
  unfolding mac_end_def
proof (intro allI impI)
  fix s x s' assume "dbind m k s = (Inr x, s')"
  then show "lms_synced (snd s')" using assms unfolding mac_end_def by (cases rule: dbind_cases) (simp, blast)
qed

lemma mac_bind_end: "mac_end m \<Longrightarrow> (\<And>a. mac_inv (k a)) \<Longrightarrow> mac_inv (dbind m k)"
  by (rule mac_inv_bind) (auto intro: mac_end_inv)

lemma mac_still_basic [mac_rules]:
  "mac_still (dreturn a)" "mac_still (dfail e)" "mac_still (dget f)" "mac_still (on_hw p)"
  "mac_still (Pair (Inr a))"
  by (auto simp: mac_still_def dreturn_def dfail_def dget_def on_hw_def split: prod.splits)

lemma mac_end_fail: "mac_end (dfail e)"
  by (simp add: mac_end_def)

lemma mac_still_mod: "(\<And>m. lm_reg_amac (f m) = lm_reg_amac m \<and> lm_reg_mac (f m) = lm_reg_mac m) \<Longrightarrow> mac_still (dmod f)"
  by (auto simp: mac_still_def dmod_def)

lemma mac_still_code [mac_rules]: "mac_still m \<Longrightarrow> mac_still (dcode m)"
  unfolding mac_still_def dcode_def by (auto split: prod.splits sum.splits)

lemma mac_still_try [mac_rules]: "mac_still m \<Longrightarrow> mac_still (dtry m)"
  unfolding mac_still_def dtry_def by (auto split: prod.splits)

lemma mac_still_seq [mac_rules]: "mac_still m \<Longrightarrow> mac_still k \<Longrightarrow> mac_still (dseq m k)"
  and mac_inv_seq: "mac_inv m \<Longrightarrow> mac_inv k \<Longrightarrow> mac_inv (dseq m k)"
  and mac_end_seq: "mac_end k \<Longrightarrow> mac_end (dseq m k)"
  by (simp_all add: dseq_def mac_still_bind mac_inv_bind mac_end_bind)

lemma mac_still_if [mac_rules]: "mac_still m \<Longrightarrow> mac_still k \<Longrightarrow> mac_still (if b then m else k)"
  and mac_inv_if: "mac_inv m \<Longrightarrow> mac_inv k \<Longrightarrow> mac_inv (if b then m else k)"
  and mac_end_if: "mac_end m \<Longrightarrow> mac_end k \<Longrightarrow> mac_end (if b then m else k)"
  by simp_all

lemma spi_post_amac:
  "lms7002m_spi_post bus rs (h, m) = (r, (h', m')) \<Longrightarrow> 
    lm_reg_mac m' = lm_reg_mac m \<and> (r = Inr () \<longrightarrow> lm_reg_amac m' = amac_after rs (lm_reg_amac m)) \<and>
    (list_all lms_plain rs \<longrightarrow> lm_reg_amac m' = lm_reg_amac m)"
proof (induction rs arbitrary: h m)
  case Nil then show ?case by simp
next
  case (Cons w rs)
  show ?case
  proof (cases "spi_tr32 bus (lm_lsaddr m) w h")
    case (Pair x h1)
    show ?thesis
    proof (cases x)
      case (Inl e)
      then show ?thesis using Cons.prems Pair by (auto simp: dseq_def dbind_def)
    next
      case (Inr u)
      define m1 where "m1 = (if drop_bit 16 w AND 0x7fff = fst LML_0x0020 then m\<lparr>lm_reg_amac := ucast w\<rparr> else m)"
      have "lms7002m_spi_post bus rs (h1, m1) = (r, (h', m'))"
        using Cons.prems Pair Inr by (simp add: dseq_def dbind_def dmod_def m1_def del: fun_upd_apply)
      from Cons.IH [OF this] show ?thesis by (auto simp: m1_def lms_plain_def)
    qed
  qed
qed

lemma amac_after_append: "amac_after (xs @ ys) a = amac_after ys (amac_after xs a)"
  by (induction xs arbitrary: a) auto

lemma amac_after_plain: "list_all lms_plain rs \<Longrightarrow> amac_after rs a = a"
  by (induction rs) auto

lemma mac_still_post: "list_all lms_plain rs \<Longrightarrow> mac_still (lms7002m_spi_post bus rs)"
  unfolding mac_still_def using spi_post_amac by (metis prod.collapse)

lemma mac_still_send: "(\<And>m. list_all lms_plain (f m)) \<Longrightarrow> mac_still (lms_send bus f)"
  unfolding lms_send_def dget_def mac_still_def dbind_def
  using spi_post_amac by (fastforce split: prod.splits)

lemma mac_end_send: "(\<And>m a. amac_after (f m) a = lm_reg_mac m) \<Longrightarrow> mac_end (lms_send bus f)"
  unfolding lms_send_def dget_def mac_end_def dbind_def lms_synced_def
  by (clarsimp split: prod.splits) (metis spi_post_amac old.unit.exhaust)


lemma mac_inv_send:
  assumes "\<And>m. amac_after (f m) (lm_reg_mac m) = lm_reg_mac m"
  shows "mac_inv (lms_send bus f)"
  unfolding mac_inv_def
proof (intro allI impI)
  fix s x s' assume r: "lms_send bus f s = (Inr x, s')" and a: "lms_synced (snd s)"
  obtain h m h' m' where s: "s = (h, m)" "s' = (h', m')" by (cases s, cases s')
  have "lms7002m_spi_post bus (f m) (h, m) = (Inr (), (h', m'))" using r by (simp add: s lms_send_def dget_def dbind_def)
  from spi_post_amac [OF this] show "lms_synced (snd s')" using a assms by (simp add: s lms_synced_def)
qed

section \<open>Every call\<close>

lemma lms_plain_wr: "a AND 0x7fff = a \<Longrightarrow> lms_plain (lms_wr a v) \<longleftrightarrow> a \<noteq> 0x20"
  by (simp add: lms_plain_def lms_wr_addr LML_0x0020_def)

lemma lms_plain_make: "a AND 0x7fff = a \<Longrightarrow> lms_plain (lms_make (a, fs) vs) \<longleftrightarrow> a \<noteq> 0x20"
  by (simp add: lms_make_def lms_plain_wr)

lemma ucast_mac [simp]: "ucast (lms_wr a (ucast (x :: u16))) = x"
  by (simp add: lms_wr_value) (rule bit_word_eqI, simp add: bit_ucast_iff)

lemma lms_mac_plain [simp]: "\<not> lms_plain (lms_mac_reg m ch)" "\<not> lms_plain (lms_mac_back m)"
  by (simp_all add: lms_mac_reg_def lms_mac_back_def lms_plain_wr LML_0x0020_def)

lemma amac_back [simp]: "ucast (lms_mac_back m) = lm_reg_mac m"
  by (simp add: lms_mac_back_def)

lemma amac_on_channels [simp]: "amac_after (on_channels f m) a = lm_reg_mac m"
  by (simp add: on_channels_def amac_after_append)

lemmas plain_regs = lms_layouts lms_plain_wr lms_plain_make

lemma cds_plain: "lms_plain (0x80AD03ff XOR push_bit 2 (b2w a))" "lms_plain 0x80AE0C00"
  by (cases a; simp add: lms_plain_def LML_0x0020_def)+

lemma dc_corr_plain: "p \<le> 7 \<Longrightarrow> lms_plain (lms_wr (DC_0x05C3_addr + p) v)"
proof -
  assume p: "p \<le> 7"
  then have "unat p \<le> 7" by (simp add: word_le_nat_alt)
  then have "unat p \<in> {0, 1, 2, 3, 4, 5, 6, 7}" by auto
  then have "p \<in> {0, 1, 2, 3, 4, 5, 6, 7}" by (simp add: word_unat_eq_iff)
  then show ?thesis by (auto simp: plain_regs)
qed

lemma sxx_122_plain: "lms_plain (lms_make SXX_0x0122 vs OR push_bit 13 1)"
proof -
  have "drop_bit 16 (lms_make SXX_0x0122 vs OR push_bit 13 1) = drop_bit 16 (lms_make SXX_0x0122 vs)"
    by (rule bit_word_eqI) (auto simp: bit_simps)
  then show ?thesis using lms_plain_make [of "0x122" "snd SXX_0x0122" vs] by (simp add: lms_plain_def SXX_0x0122_def)
qed

lemma mac_still_read [mac_rules]: "mac_still (lms7002m_spi_rd bus a)"
  unfolding lms7002m_spi_rd_def by (intro mac_rules)

lemma mac_still_bisect: "(\<And>i. mac_still (f i)) \<Longrightarrow> mac_still (vco_bisect f js i)"
  by (induction js arbitrary: i) (auto intro!: mac_rules)

lemma mac_still_scan: "(\<And>i. mac_still (f i)) \<Longrightarrow> mac_still (vco_scan f n i lo hi)"
  by (induction n arbitrary: i lo hi) (auto intro!: mac_rules)

lemma mac_still_range [mac_rules]: "(\<And>i. mac_still (f i)) \<Longrightarrow> mac_still (lms7002m_vco_range f st)"
  unfolding lms7002m_vco_range_def by (auto intro!: mac_rules mac_still_bisect mac_still_scan split: prod.splits)

lemma mac_still_trim [mac_rules]: "mac_still (lms7002m_cgen_trim_vco bus i)" "mac_still (lms7002m_sxx_trim_vco bus i)"
  unfolding lms7002m_cgen_trim_vco_def lms7002m_sxx_trim_vco_def
  by (intro mac_rules mac_still_post mac_still_send; simp add: plain_regs)+

lemma mac_still_pll [mac_rules]: "mac_still (lms7002m_sxx_pll_vco_set bus fref vco)"
  unfolding lms7002m_sxx_pll_vco_set_def
  by (auto intro!: mac_rules mac_still_post simp: plain_regs split: sum.splits prod.splits simp del: lms7002m_spi_post.simps)

lemma mac_still_sxx_try [mac_rules]: "mac_still (sxx_try bus fref vco opts js)"
  by (induction js) (auto intro!: mac_rules mac_still_mod split: prod.splits)

lemma mac_still_search [mac_rules]: "mac_still (sxx_search bus fref vco opts n)"
  by (induction n) (auto intro!: mac_rules split: prod.splits)

lemma mac_end_sxx_tune: "mac_end (lms7002m_sxx_tune bus path fref lo ch)"
  unfolding lms7002m_sxx_tune_def
  by (auto intro!: mac_end_seq mac_end_if mac_end_bind mac_end_fail mac_end_send split: option.splits prod.splits simp: plain_regs)

lemma mac_still_cgen_tune: "mac_still (lms7002m_cgen_tune bus fref f d)"
  unfolding lms7002m_cgen_tune_def lms7002m_cgen_disable_def Let_def
  by (auto intro!: mac_rules mac_still_post split: sum.splits prod.splits simp: plain_regs simp del: lms7002m_spi_post.simps)


lemma mac_still_dsp [mac_rules]:
  "mac_still (dmod (dscp_field t f b))" "mac_still (dmod (hbdo_iq_upd t g))" "mac_still (dmod (en_dir_chans f b))"
  "mac_still (dmod (en_dir_set f i b))" "mac_still (dmod (en_dir_pair f))"
  by (auto intro!: mac_still_mod simp: dscp_field_def dscpcfg_upd_def hbdo_iq_upd_def en_dir_chans_def en_dir_set_def en_dir_pair_def split: lms_tsp.splits)

lemma mac_inv_wregwith:
  assumes "list_all lms_plain regs"
  shows "mac_inv (lms7002m_xxtsp_wregwith_dspcfg bus t regs)"
proof -
  have k: "amac_after (regs @ (if lms_mac m = 3 then on_channels (cfg m) m else if lms_mac m = 1 then cfg m 0 else cfg m 1)) a =
      (if lms_mac m = 3 then lm_reg_mac m else a)" if "\<And>i. list_all lms_plain (cfg m i)" for cfg m a
    using assms that by (simp add: amac_after_append amac_after_plain)
  have p: "list_all lms_plain [lms_wr (fst (by_tsp t RXTSP_0x040C TXTSP_0x0208)) (ucast (dscpcfg t m i))]" for m i
    by (cases t) (simp_all add: by_tsp_def plain_regs)
  have s: "mac_inv (lms_send bus (\<lambda>m. let cfg = (\<lambda>i. [lms_wr (fst (by_tsp t RXTSP_0x040C TXTSP_0x0208)) (ucast (dscpcfg t m i))])
      in regs @ (if lms_mac m = 3 then on_channels cfg m else if lms_mac m = 1 then cfg 0 else cfg 1)))" (is "mac_inv (lms_send bus ?f)")
  proof -
    have f: "amac_after (?f m) a = (if lms_mac m = 3 then lm_reg_mac m else a)" for m a
      unfolding Let_def by (rule k) (rule p)
    show ?thesis by (rule mac_inv_send) (simp only: f if_cancel)
  qed
  show ?thesis unfolding lms7002m_xxtsp_wregwith_dspcfg_def
    by (intro mac_inv_bind mac_inv_if s mac_still_inv) (auto intro: mac_rules)
qed

lemmas mac_defs = lms7002m_limelight_reset_def lms7002m_limelight_configure_def lms7002m_limelight_map_def lms7002m_cgen_disable_def
  lms7002m_sxx_disable_def lms7002m_afe_enable_def lms7002m_dc_corr_en_def lms7002m_xxtsp_enable_def lms7002m_xxtsp_int_dec_def
  lms7002m_xxtsp_gen_def lms7002m_xxtsp_iq_phcorr_def lms7002m_rfe_path_def lms7002m_trf_path_def
  lms7002m_rbb_path_def lms7002m_rbb_pga_def lms7002m_rbb_lpf_raw_def lms7002m_tbb_path_def lms7002m_tbb_lpf_raw_def lms7002m_tbb_gain_def

lemma mac_still_mods [mac_rules]:
  "mac_still (dmod (\<lambda>m. m\<lparr>lm_rfe := g m\<rparr>))" "mac_still (dmod (\<lambda>m. m\<lparr>lm_trf := g1 m\<rparr>))"
  "mac_still (dmod (\<lambda>m. m\<lparr>lm_gc := g2 m\<rparr>))" "mac_still (dmod (\<lambda>m. m\<lparr>lm_gc_corr := g3 m\<rparr>))"
  "mac_still (dmod (\<lambda>m. dscpcfg_upd t (u m) m))" "mac_still (dmod (\<lambda>m. hbdo_iq_upd t (u m) m))"
  "mac_still (dmod (\<lambda>m. by_tsp t (m\<lparr>lm_rx_dscmode := v m\<rparr>) (m\<lparr>lm_tx_dscmode := w m\<rparr>)))"
  by (auto intro!: mac_still_mod simp: dscpcfg_upd_def hbdo_iq_upd_def by_tsp_def split: lms_tsp.splits)

lemma mac_inv_checked:
  assumes "mac_inv k" shows "mac_inv (dbind (dget g) (\<lambda>none. if none then dfail e else k))"
  by (intro mac_inv_bind mac_inv_if assms mac_still_inv mac_rules)

lemma mac_end_channels: "mac_end (lms_send bus (\<lambda>m. on_channels (f m) m))"
  by (rule mac_end_send) simp

lemma mac_inv_calls1:
  "mac_inv (lms7002m_mac_set bus mac)" "mac_inv (lms7002m_limelight_reset bus)" "mac_inv (lms7002m_limelight_configure bus p)"
  "mac_inv (lms7002m_limelight_map bus l1 l2)" "mac_inv (lms7002m_sxx_disable bus path)"
proof -
  show "mac_inv (lms7002m_mac_set bus mac)" unfolding lms7002m_mac_set_def
    by (intro mac_inv_bind mac_inv_if mac_end_inv [OF mac_end_seq] mac_end_send mac_still_inv mac_rules) simp
  show "mac_inv (lms7002m_limelight_reset bus)" unfolding lms7002m_limelight_reset_def
    by (intro mac_end_inv mac_end_send) simp
  show "mac_inv (lms7002m_limelight_configure bus p)" unfolding lms7002m_limelight_configure_def Let_def
    by (intro mac_end_inv mac_end_send) simp
  show "mac_inv (lms7002m_limelight_map bus l1 l2)" unfolding lms7002m_limelight_map_def
    by (auto intro!: mac_still_inv mac_rules mac_still_post simp: plain_regs simp del: lms7002m_spi_post.simps split: sum.splits)
  show "mac_inv (lms7002m_sxx_disable bus path)" unfolding lms7002m_sxx_disable_def
    by (intro mac_end_inv mac_end_seq mac_end_send) (simp add: amac_after_append)
qed

lemma mac_inv_calls2:
  "mac_inv (lms7002m_cgen_disable bus)" "mac_inv (lms7002m_afe_enable bus a b c d)" "mac_inv (lms7002m_dc_corr_en bus a b c d)"
  "mac_inv (lms7002m_dc_corr bus q v)" "mac_inv (lms7002m_cds_set bus a)" "mac_inv (lms7002m_xxtsp_enable bus t e)"
  "mac_inv (lms7002m_xxtsp_gen bus t g i0 q0)"
proof -
  show "mac_inv (lms7002m_cgen_disable bus)" "mac_inv (lms7002m_afe_enable bus a b c d)" "mac_inv (lms7002m_dc_corr_en bus a b c d)"
    unfolding mac_defs by (auto intro!: mac_still_inv mac_still_post simp: plain_regs simp del: lms7002m_spi_post.simps)
  show "mac_inv (lms7002m_cds_set bus a)" unfolding lms7002m_cds_set_def
    by (intro mac_still_inv mac_still_post) (use cds_plain in simp)
  show "mac_inv (lms7002m_dc_corr bus q v)" unfolding lms7002m_dc_corr_def
    by (cases "q > 7") (auto intro!: mac_still_inv mac_rules mac_still_post simp: dc_corr_plain not_less simp del: lms7002m_spi_post.simps)
  show "mac_inv (lms7002m_xxtsp_enable bus t e)" unfolding lms7002m_xxtsp_enable_def Let_def
    by (intro mac_still_inv mac_rules mac_still_post) (cases t; simp add: by_tsp_def plain_regs)
  show "mac_inv (lms7002m_xxtsp_gen bus t g i0 q0)" unfolding lms7002m_xxtsp_gen_def Let_def
    by (intro mac_still_inv mac_rules mac_still_post) (cases t; simp add: by_tsp_def plain_regs)
qed

lemma mac_inv_calls3:
  "mac_inv (lms7002m_rxtsp_dc_corr bus b w)" "mac_inv (lms7002m_xxtsp_int_dec bus t n)" "mac_inv (lms7002m_xxtsp_cmix bus t f)"
  "mac_inv (lms7002m_xxtsp_iq_gcorr bus t ig qg)" "mac_inv (lms7002m_xxtsp_iq_phcorr bus t ac)"
proof -
  show "mac_inv (lms7002m_rxtsp_dc_corr bus b w)" unfolding lms7002m_rxtsp_dc_corr_def
    by (intro mac_inv_seq mac_still_inv [OF mac_still_dsp(1)] mac_inv_wregwith) (simp add: plain_regs)
  show "mac_inv (lms7002m_xxtsp_cmix bus t f)" unfolding lms7002m_xxtsp_cmix_def Let_def
    by (intro mac_inv_seq mac_still_inv [OF mac_still_dsp(1)] mac_inv_wregwith) (cases t; simp add: by_tsp_def plain_regs)
  show "mac_inv (lms7002m_xxtsp_iq_gcorr bus t ig qg)" unfolding lms7002m_xxtsp_iq_gcorr_def
    by (intro mac_inv_seq mac_still_inv [OF mac_still_dsp(1)] mac_inv_wregwith) (cases t; simp add: by_tsp_def plain_regs)
  show "mac_inv (lms7002m_xxtsp_int_dec bus t n)" unfolding lms7002m_xxtsp_int_dec_def
    by (intro mac_inv_checked mac_end_inv mac_end_seq mac_end_channels)
  show "mac_inv (lms7002m_xxtsp_iq_phcorr bus t ac)" unfolding lms7002m_xxtsp_iq_phcorr_def
    by (intro mac_still_inv mac_rules mac_still_send) (cases t; simp add: by_tsp_def plain_regs)
qed

lemma mac_end_update_gains: "mac_end (lms7002m_rfe_update_gains bus)"
  unfolding lms7002m_rfe_update_gains_def by (rule mac_end_channels)

lemma mac_inv_calls4:
  "mac_inv (lms7002m_rfe_path bus p rm)" "mac_inv (dvoid (lms7002m_rfe_gain bus rg x))"
  "mac_inv (lms7002m_trf_path bus p tm)" "mac_inv (dvoid (lms7002m_trf_gain bus tg x))"
proof -
  show "mac_inv (lms7002m_rfe_path bus p rm)" unfolding lms7002m_rfe_path_def
    by (intro mac_inv_checked mac_end_inv mac_end_seq mac_end_channels)
  show "mac_inv (lms7002m_trf_path bus p tm)" unfolding lms7002m_trf_path_def
    by (intro mac_inv_checked mac_end_inv mac_end_seq mac_end_send) (simp add: amac_after_append plain_regs)
  show "mac_inv (dvoid (lms7002m_rfe_gain bus rg x))" unfolding lms7002m_rfe_gain_def dvoid_def Let_def
    by (cases rg; simp split: prod.splits;
      intro mac_inv_bind mac_inv_seq allI impI mac_end_inv [OF mac_end_update_gains] mac_still_inv mac_rules)
  show "mac_inv (dvoid (lms7002m_trf_gain bus tg x))" unfolding lms7002m_trf_gain_def dvoid_def
    by (intro mac_inv_bind mac_inv_if mac_inv_seq mac_end_inv [OF mac_end_channels] mac_still_inv mac_rules)
qed

lemma mac_inv_calls5:
  "mac_inv (lms7002m_rbb_path bus bp bm)" "mac_inv (lms7002m_rbb_pga bus x)" "mac_inv (lms7002m_rbb_lpf_raw bus lp)"
  "mac_inv (lms7002m_tbb_path bus up um)" "mac_inv (lms7002m_tbb_lpf_raw bus lp)" "mac_inv (lms7002m_tbb_gain bus x)"
  unfolding mac_defs Let_def
  by (intro mac_still_inv mac_rules mac_still_post mac_still_send; simp add: plain_regs)+

lemma mac_inv_run: "mac_inv (lms_run bus c)"
  by (cases c) (simp_all add: mac_inv_calls1 mac_inv_calls2 mac_inv_calls3 mac_inv_calls4 mac_inv_calls5 mac_end_inv [OF mac_end_sxx_tune]
    mac_still_inv [OF mac_still_cgen_tune])

lemma create_synced: "lms7002m_create bus a ldo clk (h, m) = (Inr (), (h', m')) \<Longrightarrow> lms_synced m'"
proof -
  assume "lms7002m_create bus a ldo clk (h, m) = (Inr (), (h', m'))"
  then obtain h1 m1 ver s2 where p: "lms7002m_spi_post bus (lms_reset_regs ldo clk) (h, m\<lparr>lm_lsaddr := a\<rparr>) = (Inr (), (h1, m1))"
    and v: "lms7002m_spi_rd bus LML_0x002F_addr (h1, m1) = (Inr ver, s2)" and f: "dmod lms_fresh s2 = (Inr (), (h', m'))"
    unfolding lms7002m_create_def dseq_def by (elim dbind_cases) (auto simp: dmod_def dfail_def elim!: dbind_cases split: if_splits)
  have "lm_reg_amac (snd s2) = lm_reg_amac m1" using v mac_still_read unfolding mac_still_def by (metis snd_conv)
  moreover have "lm_reg_amac m1 = amac_after (lms_reset_regs ldo clk) (lm_reg_amac m)" using spi_post_amac [OF p] by simp
  moreover have "amac_after (lms_reset_regs ldo clk) x = ucast (lms_make LML_0x0020 (replicate 14 1 @ [3]))" for x
    by (simp add: lms_reset_regs_def plain_regs)
  ultimately show ?thesis using f by (cases s2) (auto simp: dmod_def lms_synced_def lms_fresh_def)
qed

section \<open>Sequences of calls\<close>

lemma mac_inv_list: "mac_inv (dlist (map (lms_run bus) cs))"
  by (induction cs) (simp_all add: mac_inv_seq mac_inv_run mac_still_inv mac_rules)

text \<open>C17: after the driver is created, any calls that succeed, in any order and with any arguments, leave the chip with the
  channels active that the driver keeps, whatever the chip answers: a call that goes to one channel at a time restores
  the selection.\<close>

theorem lms_channels_kept:
  assumes "lms7002m_create bus a ldo clk (h, m) = (Inr (), s1)" and "dlist (map (lms_run bus) cs) s1 = (Inr (), (h', m'))"
  shows "lms_synced m'"
  using create_synced [of bus a ldo clk h m "fst s1" "snd s1"] assms mac_inv_list [of bus cs]
  unfolding mac_inv_def by (metis prod.collapse snd_conv)

lemma post_chip_succeeds:
  "\<forall>r\<in>set rs. bit r 31 \<Longrightarrow> \<exists>h' m'. lms7002m_spi_post (lms_chip rd) rs (h, m) = (Inr (), (h', m'))"
proof (induction rs arbitrary: h m)
  case (Cons r rs)
  have "spi_tr32 (lms_chip rd) a r h = (Inr (), lms_poke h r)" for a
    using Cons.prems by (simp add: spi_tr32_def bus_op_def lms_chip_def dbind_def of_le_bytes_le_bytes Let_def)
  then show ?case using Cons by (simp add: dbind_def dseq_def on_hw_def dmod_def)
qed simp

lemma send_chip_succeeds:
  "(\<And>m. \<forall>r\<in>set (f m). bit r 31) \<Longrightarrow> \<exists>h' m'. lms_send (lms_chip rd) f (h, m) = (Inr (), (h', m'))"
  using post_chip_succeeds by (simp add: lms_send_def dget_def dbind_def)

lemma create_chip:
  "\<exists>s1. lms7002m_create (lms_chip (\<lambda>h a. 0x3840)) a ldo clk (h, m) = (Inr (), s1)"
proof -
  have "\<forall>r\<in>set (lms_reset_regs ldo clk). bit r 31" by (simp add: lms_reset_regs_def lms_layouts lms_make_def lms_wr_top)
  then obtain h1 m1 where p: "lms7002m_spi_post (lms_chip (\<lambda>h a. 0x3840)) (lms_reset_regs ldo clk) (h, m\<lparr>lm_lsaddr := a\<rparr>) = (Inr (), (h1, m1))"
    using post_chip_succeeds by blast
  have r: "lms7002m_spi_rd (lms_chip (\<lambda>h a. 0x3840)) LML_0x002F_addr (h1, m1) = (Inr 0x3840, (h1, m1))"
    by (rule lms_rd_chip) (simp add: lms_layouts)
  have v: "fget LML_VER (0x3840 :: u16) = 7" "fget LML_REV (0x3840 :: u16) = 1" by (simp_all add: fget_def fmask_def LML_VER_def LML_REV_def mask_eq_exp_minus_1)
  show ?thesis by (simp add: lms7002m_create_def p r v dseq_def dbind_def dmod_def)
qed

theorem lms_channels_kept_witness:
  "\<forall>h0 m0. \<exists>s1 h' m'. lms7002m_create (lms_chip (\<lambda>h a. 0x3840)) 0 0 True (h0, m0) = (Inr (), s1) \<and>
    dlist (map (lms_run (lms_chip (\<lambda>h a. 0x3840))) [L_sxx_disable SXX_TX]) s1 = (Inr (), (h', m')) \<and> lms_synced m'"
proof (intro allI)
  fix h0 :: lms_regs and m0 :: lms7002m_state
  obtain h1 m1 where c: "lms7002m_create (lms_chip (\<lambda>h a. 0x3840)) 0 0 True (h0, m0) = (Inr (), (h1, m1))"
    using create_chip [of 0 0 True h0 m0] by auto
  have "\<forall>r\<in>set (sxx_begin SXX_TX m @ [lms_mac_back m]). bit r 31" for m
    by (simp add: sxx_begin_def lms_mac_reg_def lms_mac_back_def lms_wr_top)
  then obtain h2 m2 where d: "dlist (map (lms_run (lms_chip (\<lambda>h a. 0x3840))) [L_sxx_disable SXX_TX]) (h1, m1) = (Inr (), (h2, m2))"
    using send_chip_succeeds [of "\<lambda>m. sxx_begin SXX_TX m @ [lms_mac_back m]" "\<lambda>h a. 0x3840" h1 "en_dir_set EN_DIR_SXX 1 False m1"]
    by (auto simp: lms7002m_sxx_disable_def dseq_def dbind_def dmod_def sxx_idx_def)
  show "\<exists>s1 h' m'. lms7002m_create (lms_chip (\<lambda>h a. 0x3840)) 0 0 True (h0, m0) = (Inr (), s1) \<and>
    dlist (map (lms_run (lms_chip (\<lambda>h a. 0x3840))) [L_sxx_disable SXX_TX]) s1 = (Inr (), (h', m')) \<and> lms_synced m'"
    using lms_channels_kept [OF c d] c d by blast
qed

section \<open>The plan of a local oscillator\<close>

lemma sxx_div_value:
  "d \<le> 6 \<Longrightarrow> unat v \<le> 3999000000 \<Longrightarrow>
    (case sxx_div d v of None \<Rightarrow> unat v * 2 ^ (6 - d) < 1900000000
     | Some (d', v') \<Rightarrow> d \<le> d' \<and> d' \<le> 6 \<and> unat v' = unat v * 2 ^ (d' - d) \<and> 1900000000 \<le> unat v' \<and> unat v' \<le> 3999000000 \<and>
       (d < d' \<longrightarrow> unat v' < 3800000000))"
proof (induction d v rule: sxx_div.induct)
  case (1 d v)
  have m: "v < SXX_VCOL_MIN \<longleftrightarrow> unat v < 1900000000" by (simp add: SXX_VCOL_MIN_def word_less_nat_alt)
  show ?case
  proof (cases "v < SXX_VCOL_MIN")
    case False
    then show ?thesis using 1 by (subst sxx_div.simps) (simp add: m)
  next
    case True
    show ?thesis
    proof (cases "d > 5")
      case d: True
      then have "d = 6" using 1 by simp
      then show ?thesis using True by (subst sxx_div.simps) (simp add: m)
    next
      case d: False
      have u: "unat (push_bit 1 v :: u32) = 2 * unat v" using True by (simp add: m push_bit_eq_mult unat_word_ariths)
      have p: "2 ^ (6 - d) = 2 * (2 ^ (6 - (d + 1)) :: nat)" using d by (simp flip: power_Suc add: Suc_diff_le)
      have ih: "case sxx_div (d + 1) (push_bit 1 v) of None \<Rightarrow> unat (push_bit 1 v :: u32) * 2 ^ (6 - (d + 1)) < 1900000000
         | Some (d', v') \<Rightarrow> d + 1 \<le> d' \<and> d' \<le> 6 \<and> unat v' = unat (push_bit 1 v :: u32) * 2 ^ (d' - (d + 1)) \<and> 1900000000 \<le> unat v' \<and> unat v' \<le> 3999000000 \<and>
           (d + 1 < d' \<longrightarrow> unat v' < 3800000000)"
        using 1(1) [OF True d] d True u by (simp add: m)
      have s: "sxx_div d v = sxx_div (d + 1) (push_bit 1 v)" using True d by (subst sxx_div.simps) simp
      show ?thesis
      proof (cases "sxx_div (d + 1) (push_bit 1 v)")
        case None
        then show ?thesis using ih [unfolded None option.case u] unfolding s None option.case p by linarith
      next
        case (Some r)
        then obtain d' v' where r: "sxx_div (d + 1) (push_bit 1 v) = Some (d', v')" by (cases r) auto
        have i: "d + 1 \<le> d'" "d' \<le> 6" "unat v' = 2 * unat v * 2 ^ (d' - (d + 1))" "1900000000 \<le> unat v'" "unat v' \<le> 3999000000"
            "d + 1 < d' \<longrightarrow> unat v' < 3800000000"
          using ih [unfolded r option.case prod.case u] by blast+
        have "d' = d + 1 \<or> d + 1 < d'" using i(1) by auto
        then have "unat v' < 3800000000" using i(3,6) True by (auto simp: m)
        moreover have "2 ^ (d' - d) = 2 * (2 ^ (d' - (d + 1)) :: nat)" using i(1) by (simp flip: power_Suc add: Suc_diff_le)
        ultimately show ?thesis unfolding s r using i by simp
      qed
    qed
  qed
qed

text \<open>C36: a local oscillator below 3999 MHz and above 29.6875 MHz has a plan: the frequency doubled at most six times,
  without wrap, is in the range of the oscillators, at least one oscillator is tried, and each that is tried runs
  within its own range (the third at twice the frequency, with one more division that still fits the divider). Below
  29.6875 MHz there is none.\<close>

theorem sxx_plan:
  assumes "unat lo < 3999000000"
  shows "(29687500 < unat lo \<longrightarrow> (\<exists>d vco. sxx_div 0 lo = Some (d, vco) \<and> d \<le> 6 \<and> unat vco = unat lo * 2 ^ d \<and>
      (\<exists>i<4. sxx_options d vco ! i) \<and>
      (sxx_options d vco ! 0 \<longrightarrow> unat vco \<in> {1900000001..<2611000000}) \<and> (sxx_options d vco ! 1 \<longrightarrow> unat vco \<in> {2481000001..<3377000000}) \<and>
      (sxx_options d vco ! 2 \<longrightarrow> unat vco \<in> {3153000001..<3999000000}) \<and>
      (sxx_options d vco ! 3 \<longrightarrow> 2 * unat vco \<in> {3153000001..<3999000000} \<and> d + 1 \<le> 6))) \<and>
    (unat lo < 29687500 \<longrightarrow> sxx_div 0 lo = None)"
proof -
  have v0: "case sxx_div 0 lo of None \<Rightarrow> unat lo * 2 ^ (6 - 0) < 1900000000
     | Some (d', v') \<Rightarrow> 0 \<le> d' \<and> d' \<le> 6 \<and> unat v' = unat lo * 2 ^ (d' - 0) \<and> 1900000000 \<le> unat v' \<and> unat v' \<le> 3999000000 \<and>
       (0 < d' \<longrightarrow> unat v' < 3800000000)"
    using sxx_div_value [of 0 lo] assms by simp
  show ?thesis
  proof (cases "sxx_div 0 lo")
    case None
    then show ?thesis using v0 by simp
  next
    case (Some r)
    then obtain d vco where s: "sxx_div 0 lo = Some (d, vco)" by (cases r) auto
    have v: "d \<le> 6" "unat vco = unat lo * 2 ^ d" "1900000000 \<le> unat vco" "unat vco \<le> 3999000000" "0 < d \<longrightarrow> unat vco < 3800000000"
      using v0 [unfolded s option.case prod.case] by auto
    have "(2::nat) ^ d \<le> 2 ^ 6" using v(1) by (intro power_increasing) auto
    then have "unat vco \<le> unat lo * 64" using v(2) by simp
    then have lo: "29687500 \<le> unat lo" using v(3) by linarith
    have hi: "unat vco < 3999000000" using v assms by (cases "d = 0") auto
    have six: "d = 6 \<Longrightarrow> 29687500 < unat lo \<Longrightarrow> 1900000000 < unat vco" using v(2) by simp
    have o: "sxx_options d vco ! 0 \<longleftrightarrow> 1900000000 < unat vco \<and> unat vco < 2611000000"
      "sxx_options d vco ! 1 \<longleftrightarrow> 2481000000 < unat vco \<and> unat vco < 3377000000"
      "sxx_options d vco ! 2 \<longleftrightarrow> 3153000000 < unat vco \<and> unat vco < 3999000000"
      "sxx_options d vco ! 3 \<longleftrightarrow> 1576500000 < unat vco \<and> unat vco < 1999500000 \<and> d < 6"
      by (simp_all add: sxx_options_def SXX_VCOL_MIN_def SXX_VCOL_MAX_def SXX_VCOM_MIN_def SXX_VCOM_MAX_def SXX_VCOH_MIN_def
        SXX_VCOH_MAX_def word_less_nat_alt numeral_3_eq_3)
    have some: "\<exists>i<4. sxx_options d vco ! i" if "29687500 < unat lo"
    proof (cases "unat vco = 1900000000")
      case True
      then have "d < 6" using six that v(1) by (cases "d = 6") auto
      then show ?thesis using True o(4) by (intro exI [of _ 3]) simp
    next
      case False
      then consider "sxx_options d vco ! 0" | "sxx_options d vco ! 1" | "sxx_options d vco ! 2" using o v(3) hi by linarith
      then show ?thesis by cases (auto intro: exI [of _ 0] exI [of _ 1] exI [of _ 2])
    qed
    show ?thesis using some lo v o by (auto simp: s)
  qed
qed

theorem sxx_plan_witness:
  "\<exists>d vco. sxx_div 0 1000000000 = Some (d, vco) \<and> d \<le> 6 \<and> unat vco = 1000000000 * 2 ^ d \<and> (\<exists>i<4. sxx_options d vco ! i)"
  using sxx_plan [of 1000000000] by auto

text \<open>At the upper limit itself no oscillator is tried, and the chip is left with the other channel active.\<close>

lemma sxx_no_options: "\<forall>i<4. \<not> opts ! i \<Longrightarrow> sxx_search bus fref vco opts n s = (Inr None, s)"
proof (induction n)
  case (Suc n)
  have t: "sxx_try bus fref vco opts [0..<4] s = (Inr [(0, 0), (0, 0), (0, 0), (0, 0)], s)"
    using Suc.prems by (simp add: upt_rec dbind_def)
  have b: "sxx_best [(0, 0), (0, 0), (0, 0), (0, 0)] = (0, 0)" by (simp add: sxx_best_def upt_rec numeral_2_eq_2 numeral_3_eq_3)
  show ?case using Suc by (simp add: dbind_def t b)
qed simp

lemma sxx_tune_leaves_channel:
  assumes "lms_mac m = 3"
  shows "\<exists>h' m'. lms7002m_sxx_tune (lms_chip rd) SXX_RX fref 3999000000 ch (h, m) = (Inl (- ERANGE), (h', m')) \<and> \<not> lms_synced m'"
proof -
  have d: "sxx_div 0 3999000000 = Some (0, 3999000000)" by (subst sxx_div.simps) (simp add: SXX_VCOL_MIN_def)
  have o: "\<forall>i<4. \<not> sxx_options 0 3999000000 ! i"
  proof (intro allI impI)
    fix i :: nat assume "i < 4"
    then consider "i = 0" | "i = 1" | "i = 2" | "i = 3" by linarith
    then show "\<not> sxx_options 0 3999000000 ! i"
      by cases (simp_all add: sxx_options_def SXX_VCOL_MAX_def SXX_VCOM_MAX_def SXX_VCOH_MAX_def)
  qed
  define m1 where "m1 = en_dir_set EN_DIR_SXX 0 True m"
  define f where "f = (\<lambda>m. sxx_begin SXX_RX m @
           [lms_make SXX_0x0120 [204, 192], lms_make SXX_0x0122 [0, 20, 20] OR push_bit 13 1,
            lms_make SXX_0x011C [1, 0, 0, 0, 1, 1, 0, 1, 0, b2w (\<not> ch), 0, 0, 0, 0, 0, 1],
            lms_make SXX_0x011F [3, 3, 6, 0, 0, 0, 0]])"
  have top: "\<forall>r\<in>set (f m1). bit r 31"
    by (simp add: f_def sxx_begin_def lms_mac_reg_def lms_make_def lms_wr_top bit_or_iff)
  obtain h2 m2 where s: "lms7002m_spi_post (lms_chip rd) (f m1) (h, m1) = (Inr (), (h2, m2))" using post_chip_succeeds [OF top] by blast
  have am: "lm_reg_mac m2 = lm_reg_mac m1 \<and> lm_reg_amac m2 = fset LML_MAC 1 (lm_reg_mac m1)"
    using spi_post_amac [OF s] by (simp add: f_def sxx_begin_def lms_mac_reg_def plain_regs LML_0x0020_def sxx_idx_def
      sxx_122_plain [of "[0, 20, 20]", unfolded SXX_0x0122_def, simplified])
  have "fget LML_MAC (fset LML_MAC 1 (lm_reg_mac m)) = 1" by (subst fget_fset) (simp_all add: LML_MAC_def mask_eq_exp_minus_1)
  then have "\<not> lms_synced m2" using assms am by (auto simp: lms_synced_def lms_mac_def m1_def en_dir_set_def)
  moreover have "lms7002m_sxx_tune (lms_chip rd) SXX_RX fref 3999000000 ch (h, m) = (Inl (- ERANGE), (h2, m2))"
    unfolding lms7002m_sxx_tune_def f_def [symmetric]
    by (simp add: SXX_VCOH_MAX_def d dseq_def dbind_def dmod_def lms_send_def dget_def sxx_idx_def m1_def [symmetric] s sxx_no_options [OF o])
  ultimately show ?thesis by blast
qed

section \<open>Gains\<close>

lemma find_idx_bound: "find_idx v l \<le> length l"
  by (induction l) auto

lemma find_idx_first:
  "(\<forall>k<find_idx v l. l ! k = IGNORE_IDX \<or> v \<le> l ! k) \<and> (find_idx v l < length l \<longrightarrow> l ! find_idx v l \<noteq> IGNORE_IDX \<and> l ! find_idx v l < v)"
  by (induction l) (auto simp: less_Suc_eq_0_disj)

text \<open>The tap of a receive gain. The gain that is reported is that of the tap in the list, the tap fits its register field,
  the taps before it attenuate at least as much as asked (or are not allowed), and it attenuates less than asked unless it is the last one,
  which does not attenuate.\<close>

theorem rfe_tap_nearest:
  assumes "l \<in> {lna_attens, tia_attens, lb_attens}" and "rfe_tap l gainx10 = (i, g)"
  shows "i < length l \<and> length l \<le> 16 \<and> g = - (l ! i) \<and> l ! i \<noteq> IGNORE_IDX \<and> (\<forall>k<i. l ! k = IGNORE_IDX \<or> - gainx10 \<le> l ! k) \<and>
    (if i + 1 < length l then gainx10 < g else g = 0)"
proof -
  have l: "l \<noteq> []" "length l \<le> 16" "last l = 0" using assms(1) by (auto simp: lna_attens_def tia_attens_def lb_attens_def)
  have i: "i = find_idx (- gainx10) (butlast l)" "g = - (l ! i)" using assms(2) by (auto simp: rfe_tap_def Let_def)
  have b: "i \<le> length l - 1" using find_idx_bound [of "- gainx10" "butlast l"] by (simp add: i(1))
  have n: "butlast l ! k = l ! k" if "k < length l - 1" for k using that by (simp add: nth_butlast)
  have first: "\<forall>k<i. l ! k = IGNORE_IDX \<or> - gainx10 \<le> l ! k" "i < length l - 1 \<longrightarrow> l ! i \<noteq> IGNORE_IDX \<and> l ! i < - gainx10"
    using find_idx_first [of "- gainx10" "butlast l"] b by (auto simp: i(1) [symmetric] n)
  show ?thesis
  proof (cases "i < length l - 1")
    case True
    then show ?thesis using first l i by auto
  next
    case False
    then have "i = length l - 1" using b by simp
    then have "l ! i = 0" using l by (simp add: last_conv_nth)
    then show ?thesis using first l i False b by (auto simp: IGNORE_IDX_def)
  qed
qed

theorem rfe_tap_nearest_witness: "rfe_tap tia_attens (- 100) = (2, - 30) \<and> - 100 < (- 30 :: int)"
proof -
  have "rfe_tap tia_attens (- 100) = (2, - 30)" by (simp add: rfe_tap_def tia_attens_def IGNORE_IDX_def)
  with rfe_tap_nearest [of tia_attens "- 100" 2 "- 30"] show ?thesis by (simp add: tia_attens_def)
qed

text \<open>An attenuation that is in the list is not what the call chooses for it.\<close>

lemma rfe_tap_exact: "rfe_tap tia_attens (- 120) = (2, - 30)" "rfe_tap lna_attens (- 300) = (2, - 270)"
  by (simp_all add: rfe_tap_def tia_attens_def lna_attens_def IGNORE_IDX_def)

text \<open>The transmit pad: within its range the code fits the field of five bits and the reported gain is at most 2 dB above
  the one asked for. A gain above 0 wraps to a strong attenuation, and the loss of the loopback is cut to three bits.\<close>

lemma trf_pad_range:
  assumes "- 530 < gainx10" "gainx10 \<le> 0" "trf_pad_code gainx10 = (c, g)"
  shows "0 \<le> c \<and> c \<le> 31 \<and> gainx10 \<le> g \<and> g < gainx10 + 20"
proof -
  define a where "a = (- gainx10) div 10"
  have a: "10 * a \<le> - gainx10" "- gainx10 < 10 * a + 10" "0 \<le> a" "a \<le> 52" using assms by (simp_all add: a_def)
  show ?thesis
  proof (cases "a > 10")
    case True
    then have "c = (a + 10) div 2" "g = - 10 * (c * 2 - 10)" using assms a by (auto simp: trf_pad_code_def trf_atten_def a_def [symmetric] Let_def)
    moreover have "2 * ((a + 10) div 2) \<le> a + 10" "a + 9 \<le> 2 * ((a + 10) div 2)" by linarith+
    ultimately show ?thesis using a True by auto
  next
    case False
    then have "c = a" "g = - 10 * a" using assms a by (auto simp: trf_pad_code_def trf_atten_def a_def [symmetric] Let_def)
    then show ?thesis using a False by (intro conjI) linarith+
  qed
qed

lemma trf_pad_positive: "trf_pad_code 50 = (- 5, 50) \<and> (of_int (- 5) AND mask 5 :: u32) = 27"
  by (simp add: trf_pad_code_def trf_atten_def mask_eq_exp_minus_1)

lemma trf_lb_cut: "trf_lb_code (- 250) AND mask 3 = 0" "trf_lb_code (- 220) AND mask 3 = 5" "trf_lb_code (- 150) AND mask 3 = 6"
  by (simp_all add: trf_lb_code_def trf_atten_def LB_LOSS_24_def LB_LOSS_21_def LB_LOSS_14_def LB_LOSS_0_def mask_eq_exp_minus_1 Let_def)

lemma tbb_raw_negative: "tbb_raw_gc (- 5) 3 = 63" "tbb_gain_gc (- 5) 3 = 1"
  by (simp_all add: tbb_raw_gc_def tbb_gain_gc_def)

text \<open>The mixer of the transmitter is bypassed by bit 8, and by bit 7 the driver changes its inverse sinc filter.\<close>

lemma cmix_field_of_tx: "RX_CMIX_BYP = TX_ISINC_BYP" "RX_CMIX_BYP \<noteq> TX_CMIX_BYP"
  by (simp_all add: RX_CMIX_BYP_def TX_ISINC_BYP_def TX_CMIX_BYP_def)

end
