(* ===== verification/DeviceVfs.thy ===== *)
theory DeviceVfs
  imports DeviceBus Transport CString
begin

text \<open>
  The parameter tree of a device (\<open>src/lib/device/device_vfs.c\<close>, \<open>device.c\<close>): a folder of objects with paths and
  functions that read and write values, the search for a path, the constants a device publishes, and the registry of
  device types. An object's functions are kept with the object and its data already applied; \<open>'w\<close> is what they act
  on. The result of \<open>malloc\<close> and \<open>realloc\<close> is an argument.
\<close>

section \<open>\<open>fnmatch\<close>\<close>

text \<open>The pattern matching of the C library with \<open>FNM_NOESCAPE\<close>: \<open>*\<close>, \<open>?\<close> and bracket expressions of characters and
  ranges. A bracket that is not closed stands for itself.\<close>

definition fnm_range :: "string \<Rightarrow> char option \<times> string" where
  "fnm_range p = (case p of d # e # p' \<Rightarrow> if d = CHR ''-'' \<and> e \<noteq> CHR '']'' then (Some e, p') else (None, p) | _ \<Rightarrow> (None, p))"

lemma fnm_range_shorter [termination_simp]: "length (snd (fnm_range p)) \<le> length p"
  by (auto simp: fnm_range_def split: list.splits)

definition fnm_in :: "char \<Rightarrow> char option \<Rightarrow> char \<Rightarrow> bool" where
  "fnm_in c hi x = (case hi of None \<Rightarrow> x = c | Some e \<Rightarrow> c \<le> x \<and> x \<le> e)"

fun fnm_items :: "string \<Rightarrow> bool \<Rightarrow> ((char \<Rightarrow> bool) \<times> string) option" where
  "fnm_items [] first = None"
| "fnm_items (c # p) first =
    (if c = CHR '']'' \<and> \<not> first then Some (\<lambda>_. False, p)
     else map_option (\<lambda>(f, r). (\<lambda>x. fnm_in c (fst (fnm_range p)) x \<or> f x, r)) (fnm_items (snd (fnm_range p)) False))"

definition fnm_bracket :: "string \<Rightarrow> ((char \<Rightarrow> bool) \<times> string) option" where
  "fnm_bracket p = (case p of
     c # p' \<Rightarrow> if c = CHR ''!'' \<or> c = CHR ''^'' then map_option (\<lambda>(f, r). (\<lambda>x. \<not> f x, r)) (fnm_items p' True) else fnm_items p True
   | [] \<Rightarrow> None)"

lemma fnm_items_shorter: "fnm_items p b = Some (f, r) \<Longrightarrow> length r < length p"
proof (induction p b arbitrary: f r rule: fnm_items.induct)
  case (2 c p first)
  show ?case
  proof (cases "c = CHR '']'' \<and> \<not> first")
    case True then show ?thesis using 2(2) by simp
  next
    case False
    then obtain g where "fnm_items (snd (fnm_range p)) False = Some (g, r)" using 2(2) by auto
    then show ?thesis using 2(1) [OF False] fnm_range_shorter [of p] by fastforce
  qed
qed simp

lemma fnm_bracket_shorter: "fnm_bracket p = Some (f, r) \<Longrightarrow> length r < length p"
  unfolding fnm_bracket_def by (auto split: list.splits if_splits dest!: fnm_items_shorter simp del: fnm_items.simps)

function fnmatch :: "string \<Rightarrow> string \<Rightarrow> bool" where
  "fnmatch [] s \<longleftrightarrow> s = []"
| "fnmatch (c # p) s \<longleftrightarrow>
    (if c = CHR ''*'' then fnmatch p s \<or> (case s of [] \<Rightarrow> False | x # s' \<Rightarrow> fnmatch (c # p) s')
     else case s of [] \<Rightarrow> False
      | x # s' \<Rightarrow> if c = CHR ''?'' then fnmatch p s'
          else if c = CHR ''['' then (case fnm_bracket p of None \<Rightarrow> x = c \<and> fnmatch p s' | Some (f, r) \<Rightarrow> f x \<and> fnmatch r s')
          else x = c \<and> fnmatch p s')"
  by pat_completeness auto
termination
  by (relation "measure (\<lambda>(p, s). length p + length s)") (auto dest: fnm_bracket_shorter)

declare fnmatch.simps(2) [simp del]

definition literal :: "string \<Rightarrow> bool" where
  "literal p \<longleftrightarrow> list_all (\<lambda>c. c \<notin> {CHR ''*'', CHR ''?'', CHR ''[''}) p"

lemma fnmatch_literal: "literal p \<Longrightarrow> fnmatch p s \<longleftrightarrow> p = s"
proof (induction p arbitrary: s)
  case (Cons c p)
  then show ?case by (cases s) (auto simp: literal_def fnmatch.simps(2))
qed auto

lemma fnmatch_star: "fnmatch ''*'' s"
  by (induction s) (simp_all add: fnmatch.simps(2))

section \<open>Objects and folders\<close>

definition STD_FOLDER_QTY :: nat where "STD_FOLDER_QTY = 16"
definition MAX_PER_FOLDER :: nat where "MAX_PER_FOLDER = 0xffff"
definition VFS_MAX_PATH :: nat where "VFS_MAX_PATH = 128"

text \<open>The characters \<open>strncpy\<close> leaves of a path; one that fills the array has no end.\<close>

record 'w vfs_object =
  vo_path :: string
  vo_si64 :: "(u64 \<Rightarrow> ('w, unit) dev) option"
  vo_gi64 :: "('w, u64) dev option"
  vo_gstr :: "(nat \<Rightarrow> ('w, string) dev) option"
  vo_gai64 :: "(nat \<Rightarrow> ('w, u64 list) dev) option"

text \<open>\<open>eparam\<close> of a folder counts the objects used and the room for them.\<close>

record 'w vfs_folder =
  vf_total :: nat
  vf_nodes :: "'w vfs_object list"

definition vf_used :: "'w vfs_folder \<Rightarrow> nat" where "vf_used r = length (vf_nodes r)"

definition vfs_folder_init :: "bool \<Rightarrow> int + 'w vfs_folder" where
  "vfs_folder_init mem = (if mem then Inr \<lparr>vf_total = STD_FOLDER_QTY, vf_nodes = []\<rparr> else Inl (- ENOMEM))"

definition vfs_folder_destroy :: "'w vfs_folder \<Rightarrow> 'w vfs_folder" where
  "vfs_folder_destroy r = \<lparr>vf_total = 0, vf_nodes = []\<rparr>"

definition vfs_reserve :: "bool \<Rightarrow> nat \<Rightarrow> 'w vfs_folder \<Rightarrow> int + 'w vfs_folder" where
  "vfs_reserve mem extra r =
    (let avail = vf_total r - vf_used r in
     if extra \<le> avail then Inr r
     else if vf_total r = MAX_PER_FOLDER then Inl (- E2BIG)
     else let needq = extra - avail; newsz = min MAX_PER_FOLDER (max needq (3 * vf_total r div 2))
       in if mem then Inr (r\<lparr>vf_total := newsz\<rparr>) else Inl (- ENOMEM))"

definition vfs_alloc_object :: "bool \<Rightarrow> 'w vfs_object \<Rightarrow> string \<Rightarrow> 'w vfs_folder \<Rightarrow> int + 'w vfs_folder" where
  "vfs_alloc_object mem obj path r =
    (case vfs_reserve mem 1 r of Inl e \<Rightarrow> Inl e
     | Inr r \<Rightarrow> Inr (r\<lparr>vf_nodes := vf_nodes r @ [obj\<lparr>vo_path := take VFS_MAX_PATH path\<rparr>]\<rparr>))"

section \<open>Values\<close>

definition vfs_const_set :: "'v \<Rightarrow> ('w, unit) dev" where "vfs_const_set v = dfail (- EPERM)"

definition vfs_const_i64_get_i64 :: "u64 \<Rightarrow> ('w, u64) dev" where "vfs_const_i64_get_i64 v = dreturn v"

definition sdec :: "u64 \<Rightarrow> string" where
  "sdec v = (if v <s 0 then CHR ''-'' # dec (nat (- sint v)) else dec (nat (sint v)))"

definition vfs_i64_get_str :: "('w, u64) dev \<Rightarrow> nat \<Rightarrow> ('w, string) dev" where
  "vfs_i64_get_str gi64 max_str = dbind gi64 (\<lambda>v. dreturn (take (max_str - 1) (sdec v)))"

definition vfs_i64_get_ai64 :: "('w, u64) dev \<Rightarrow> nat \<Rightarrow> ('w, u64 list) dev" where
  "vfs_i64_get_ai64 gi64 maxcnt = (if maxcnt = 0 then dreturn [] else dbind gi64 (\<lambda>v. dreturn [v]))"

definition const_i64_object :: "u64 \<Rightarrow> 'w vfs_object" where
  "const_i64_object v = \<lparr>vo_path = [], vo_si64 = Some vfs_const_set, vo_gi64 = Some (vfs_const_i64_get_i64 v),
     vo_gstr = Some (vfs_i64_get_str (vfs_const_i64_get_i64 v)), vo_gai64 = Some (vfs_i64_get_ai64 (vfs_const_i64_get_i64 v))\<rparr>"

fun vfs_add_consts :: "bool list \<Rightarrow> (string \<times> u64) list \<Rightarrow> 'w vfs_folder \<Rightarrow> int + 'w vfs_folder" where
  "vfs_add_consts mems [] r = Inr r"
| "vfs_add_consts mems ((path, v) # ps) r =
    (case vfs_alloc_object (case mems of [] \<Rightarrow> True | m # _ \<Rightarrow> m) (const_i64_object v) path r of Inl e \<Rightarrow> Inl e
     | Inr r \<Rightarrow> vfs_add_consts (drop 1 mems) ps r)"

definition vfs_add_const_i64_vec :: "bool list \<Rightarrow> (string \<times> u64) list \<Rightarrow> 'w vfs_folder \<Rightarrow> int + 'w vfs_folder" where
  "vfs_add_const_i64_vec mems ps r =
    (case vfs_reserve (case mems of [] \<Rightarrow> True | m # _ \<Rightarrow> m) (length ps) r of Inl e \<Rightarrow> Inl e
     | Inr r \<Rightarrow> vfs_add_consts (drop 1 mems) ps r)"

text \<open>Text constants keep the address of the text where the getters of a number look: the objects are the same.\<close>

definition vfs_add_const_str_vec :: "bool list \<Rightarrow> (string \<times> u64) list \<Rightarrow> 'w vfs_folder \<Rightarrow> int + 'w vfs_folder" where
  "vfs_add_const_str_vec = vfs_add_const_i64_vec"

definition vfs_add_obj_i64 ::
  "bool \<Rightarrow> string \<Rightarrow> (u64 \<Rightarrow> ('w, unit) dev) option \<Rightarrow> ('w, u64) dev \<Rightarrow> 'w vfs_folder \<Rightarrow> int + 'w vfs_folder" where
  "vfs_add_obj_i64 mem path fs fg = vfs_alloc_object mem
     \<lparr>vo_path = [], vo_si64 = fs, vo_gi64 = Some fg, vo_gstr = Some (vfs_i64_get_str fg), vo_gai64 = Some (vfs_i64_get_ai64 fg)\<rparr> path"

section \<open>Looking up\<close>

definition vfs_ended :: "'w vfs_object \<Rightarrow> bool" where "vfs_ended n \<longleftrightarrow> length (vo_path n) < VFS_MAX_PATH"

fun vfs_find :: "string \<Rightarrow> 'w vfs_object list \<Rightarrow> int + 'w vfs_object" where
  "vfs_find flt [] = Inl (- ENOENT)"
| "vfs_find flt (n # ns) = (if \<not> vfs_ended n then Inl OUT_OF_BOUNDS else if fnmatch flt (vo_path n) then Inr n else vfs_find flt ns)"

definition usdr_device_vfs_get_by_path :: "'w vfs_folder \<Rightarrow> string \<Rightarrow> int + 'w vfs_object" where
  "usdr_device_vfs_get_by_path root flt = vfs_find flt (vf_nodes root)"

fun vfs_filter_nodes :: "string \<Rightarrow> nat \<Rightarrow> 'w vfs_object list \<Rightarrow> int + string list" where
  "vfs_filter_nodes flt 0 ns = Inr []"
| "vfs_filter_nodes flt n [] = Inr []"
| "vfs_filter_nodes flt (Suc n) (o1 # ns) =
    (if \<not> vfs_ended o1 then Inl OUT_OF_BOUNDS
     else if fnmatch flt (vo_path o1) then (case vfs_filter_nodes flt n ns of Inl e \<Rightarrow> Inl e | Inr ps \<Rightarrow> Inr (vo_path o1 # ps))
     else vfs_filter_nodes flt (Suc n) ns)"

definition usdr_device_vfs_filter :: "'w vfs_folder \<Rightarrow> string \<Rightarrow> nat \<Rightarrow> int + string list" where
  "usdr_device_vfs_filter root flt max_objects = vfs_filter_nodes flt max_objects (vf_nodes root)"

definition usdr_device_vfs_obj_val_set :: "'w vfs_object \<Rightarrow> u64 \<Rightarrow> ('w, unit) dev" where
  "usdr_device_vfs_obj_val_set n v = (case vo_si64 n of None \<Rightarrow> dfail (- ENOENT) | Some f \<Rightarrow> f v)"

definition usdr_device_vfs_obj_val_get :: "'w vfs_object \<Rightarrow> ('w, u64) dev" where
  "usdr_device_vfs_obj_val_get n = (case vo_gi64 n of None \<Rightarrow> dfail (- ENOENT) | Some f \<Rightarrow> f)"

definition usdr_device_vfs_obj_val_set_by_path :: "'w vfs_folder \<Rightarrow> string \<Rightarrow> u64 \<Rightarrow> ('w, unit) dev" where
  "usdr_device_vfs_obj_val_set_by_path root path v =
    (case usdr_device_vfs_get_by_path root path of Inl e \<Rightarrow> dfail e | Inr n \<Rightarrow> usdr_device_vfs_obj_val_set n v)"

definition usdr_device_vfs_obj_val_get_u64 :: "'w vfs_folder \<Rightarrow> string \<Rightarrow> ('w, u64) dev" where
  "usdr_device_vfs_obj_val_get_u64 root path =
    (case usdr_device_vfs_get_by_path root path of Inl e \<Rightarrow> dfail e | Inr n \<Rightarrow> usdr_device_vfs_obj_val_get n)"

definition usdr_device_vfs_obj_val_get_u32 :: "'w vfs_folder \<Rightarrow> string \<Rightarrow> ('w, u32) dev" where
  "usdr_device_vfs_obj_val_get_u32 root path = dbind (usdr_device_vfs_obj_val_get_u64 root path) (\<lambda>v. dreturn (ucast v))"

text \<open>A parameter with functions of the board; one of them may be missing.\<close>

record 'w usdr_dev_param_func =
  pf_fullpath :: string
  pf_val_set :: "(u64 \<Rightarrow> ('w, unit) dev) option"
  pf_val_get :: "('w, u64) dev option"

definition oapi_vfs_set_i64 :: "'w usdr_dev_param_func \<Rightarrow> u64 \<Rightarrow> ('w, unit) dev" where
  "oapi_vfs_set_i64 p v = (case pf_val_set p of None \<Rightarrow> dfail (- ENOENT) | Some f \<Rightarrow> f v)"

definition oapi_vfs_get_i64 :: "'w usdr_dev_param_func \<Rightarrow> ('w, u64) dev" where
  "oapi_vfs_get_i64 p = (case pf_val_get p of None \<Rightarrow> dfail (- ENOENT) | Some f \<Rightarrow> f)"

fun usdr_vfs_obj_param_init_array :: "bool list \<Rightarrow> 'w usdr_dev_param_func list \<Rightarrow> 'w vfs_folder \<Rightarrow> int + 'w vfs_folder" where
  "usdr_vfs_obj_param_init_array mems [] r = Inr r"
| "usdr_vfs_obj_param_init_array mems (p # ps) r =
    (case vfs_add_obj_i64 (case mems of [] \<Rightarrow> True | m # _ \<Rightarrow> m) (pf_fullpath p) (Some (oapi_vfs_set_i64 p)) (oapi_vfs_get_i64 p) r of
       Inl e \<Rightarrow> Inl e
     | Inr r \<Rightarrow> usdr_vfs_obj_param_init_array (drop 1 mems) ps r)"

section \<open>Types of devices\<close>

definition MAX_DEVS :: nat where "MAX_DEVS = 32"

definition usdr_device_register :: "u8 list \<Rightarrow> 'f \<Rightarrow> (u8 list \<times> 'f) list \<Rightarrow> int + (u8 list \<times> 'f) list" where
  "usdr_device_register devid ops d = (if length d \<ge> MAX_DEVS then Inl (- EINVAL) else Inr (d @ [(devid, ops)]))"

definition usdr_device_create :: "(u8 list \<times> (u8 list \<Rightarrow> int)) list \<Rightarrow> u8 list \<Rightarrow> int" where
  "usdr_device_create d devid = (case find (\<lambda>(i, _). i = devid) d of None \<Rightarrow> - ENOENT | Some (_, create) \<Rightarrow> create devid)"

definition hex_digit :: "nat \<Rightarrow> char" where
  "hex_digit n = (if n < 10 then char_of (48 + n) else char_of (87 + n))"

definition hex2 :: "u8 \<Rightarrow> string" where
  "hex2 b = [hex_digit (unat b div 16), hex_digit (unat b mod 16)]"

definition usdr_device_id_to_str :: "u8 list \<Rightarrow> string" where
  "usdr_device_id_to_str d = concat (map (\<lambda>i. (if i \<in> {4, 6, 8, 10} then ''-'' else []) @ hex2 (d ! i)) [0..<16])"

section \<open>Folders stay within their room\<close>

definition folder_ok :: "'w vfs_folder \<Rightarrow> bool" where
  "folder_ok r \<longleftrightarrow> vf_used r \<le> vf_total r \<and> vf_total r \<le> MAX_PER_FOLDER \<and> 2 \<le> vf_total r"

lemma folder_init_ok: "vfs_folder_init mem = Inr r \<Longrightarrow> folder_ok r \<and> vf_nodes r = []"
  by (auto simp: vfs_folder_init_def folder_ok_def vf_used_def STD_FOLDER_QTY_def MAX_PER_FOLDER_def split: if_splits)

lemma reserve_ok:
  assumes "folder_ok r" "vfs_reserve mem n r = Inr r'"
  shows "folder_ok r' \<and> vf_nodes r' = vf_nodes r \<and> vf_total r \<le> vf_total r' \<and> (0 < n \<longrightarrow> vf_used r < vf_total r')"
proof (cases "n \<le> vf_total r - vf_used r")
  case True
  then show ?thesis using assms by (auto simp: vfs_reserve_def folder_ok_def)
next
  case False
  then have r': "r' = r\<lparr>vf_total := min MAX_PER_FOLDER (max (n - (vf_total r - vf_used r)) (3 * vf_total r div 2))\<rparr>" and m: "vf_total r \<noteq> MAX_PER_FOLDER"
    using assms(2) by (auto simp: vfs_reserve_def Let_def split: if_splits)
  have ok: "vf_used r \<le> vf_total r" "vf_total r < MAX_PER_FOLDER" "2 \<le> vf_total r" using assms(1) m by (auto simp: folder_ok_def)
  have "vf_total r < 3 * vf_total r div 2" using ok(3) by linarith
  then have "vf_total r < max (n - (vf_total r - vf_used r)) (3 * vf_total r div 2)" by simp
  then show ?thesis using ok by (auto simp: r' folder_ok_def vf_used_def)
qed

lemma alloc_ok:
  assumes "folder_ok r" "vfs_alloc_object mem n path r = Inr r'"
  shows "folder_ok r' \<and> vf_nodes r' = vf_nodes r @ [n\<lparr>vo_path := take VFS_MAX_PATH path\<rparr>]"
proof -
  obtain r1 where r1: "vfs_reserve mem 1 r = Inr r1" "r' = r1\<lparr>vf_nodes := vf_nodes r1 @ [n\<lparr>vo_path := take VFS_MAX_PATH path\<rparr>]\<rparr>"
    using assms(2) by (auto simp: vfs_alloc_object_def split: sum.splits)
  show ?thesis using reserve_ok [OF assms(1) r1(1)] by (auto simp: r1(2) folder_ok_def vf_used_def)
qed

lemma alloc_works: "folder_ok r \<Longrightarrow> vf_used r < MAX_PER_FOLDER \<Longrightarrow> \<exists>r'. vfs_alloc_object True n path r = Inr r'"
  by (auto simp: vfs_alloc_object_def vfs_reserve_def Let_def folder_ok_def)

definition const_nodes :: "(string \<times> u64) list \<Rightarrow> 'w vfs_object list" where
  "const_nodes ps = map (\<lambda>(p, v). (const_i64_object v)\<lparr>vo_path := take VFS_MAX_PATH p\<rparr>) ps"

lemma add_consts_ok:
  "folder_ok r \<Longrightarrow> vfs_add_consts mems ps r = Inr r' \<Longrightarrow> folder_ok r' \<and> vf_nodes r' = vf_nodes r @ const_nodes ps"
proof (induction mems ps r rule: vfs_add_consts.induct)
  case (2 mems path v ps r)
  obtain r1 where a: "vfs_alloc_object (case mems of [] \<Rightarrow> True | m # _ \<Rightarrow> m) (const_i64_object v) path r = Inr r1"
    and b: "vfs_add_consts (drop 1 mems) ps r1 = Inr r'" using 2(3) by (auto split: sum.splits)
  show ?case using 2(1) [OF a _ b] alloc_ok [OF 2(2) a] by (simp add: const_nodes_def)
qed (simp add: const_nodes_def)

lemma add_vec_ok:
  assumes "folder_ok r" "vfs_add_const_i64_vec mems ps r = Inr r'"
  shows "folder_ok r' \<and> vf_nodes r' = vf_nodes r @ const_nodes ps"
proof -
  obtain r1 where a: "vfs_reserve (case mems of [] \<Rightarrow> True | m # _ \<Rightarrow> m) (length ps) r = Inr r1" and b: "vfs_add_consts (drop 1 mems) ps r1 = Inr r'"
    using assms(2) by (auto simp: vfs_add_const_i64_vec_def split: sum.splits)
  show ?thesis using reserve_ok [OF assms(1) a] add_consts_ok [OF _ b] by auto
qed

lemma add_consts_works:
  "folder_ok r \<Longrightarrow> vf_used r + length ps \<le> MAX_PER_FOLDER \<Longrightarrow> \<exists>r'. vfs_add_consts [] ps r = Inr r'"
proof (induction ps arbitrary: r)
  case (Cons p ps)
  obtain path v where p: "p = (path, v)" by (cases p)
  obtain r1 where r1: "vfs_alloc_object True (const_i64_object v) path r = Inr r1" using alloc_works Cons.prems by fastforce
  from alloc_ok [OF Cons.prems(1) r1] have "folder_ok r1" "vf_used r1 + length ps \<le> MAX_PER_FOLDER" using Cons.prems by (auto simp: vf_used_def)
  from Cons.IH [OF this] show ?case by (simp add: p r1)
qed simp

lemma add_vec_works:
  assumes "folder_ok r" "vf_used r + length ps \<le> MAX_PER_FOLDER"
  shows "\<exists>r'. vfs_add_const_i64_vec [] ps r = Inr r'"
proof (cases "ps = []")
  case True
  then show ?thesis by (simp add: vfs_add_const_i64_vec_def vfs_reserve_def)
next
  case False
  obtain r1 where r1: "vfs_reserve True (length ps) r = Inr r1"
    using assms False by (fastforce simp: vfs_reserve_def Let_def folder_ok_def vf_used_def split: if_splits)
  from reserve_ok [OF assms(1) r1] have "folder_ok r1" "vf_used r1 + length ps \<le> MAX_PER_FOLDER" using assms by (auto simp: vf_used_def)
  from add_consts_works [OF this] show ?thesis by (simp add: vfs_add_const_i64_vec_def r1)
qed

text \<open>The room that is reserved can be less than asked for: the new size is what is missing and not the sum.\<close>

lemma vfs_reserve_short:
  "vfs_reserve True 20 \<lparr>vf_total = 16, vf_nodes = replicate 16 n\<rparr> = Inr \<lparr>vf_total = 24, vf_nodes = replicate 16 n\<rparr>"
  by (simp add: vfs_reserve_def vf_used_def MAX_PER_FOLDER_def)

section \<open>The tree of a device\<close>

lemma find_const_nodes:
  assumes "literal name" "\<forall>(p, v)\<in>set ps. length p < VFS_MAX_PATH"
  shows "(case vfs_find name (const_nodes ps @ ns) of Inl e \<Rightarrow> dfail e | Inr n \<Rightarrow> usdr_device_vfs_obj_val_get n) w =
    (case map_of ps name of Some v \<Rightarrow> (Inr v, w)
     | None \<Rightarrow> (case vfs_find name ns of Inl e \<Rightarrow> dfail e | Inr n \<Rightarrow> usdr_device_vfs_obj_val_get n) w)"
  using assms(2)
proof (induction ps)
  case (Cons q ps)
  obtain p v where q: "q = (p, v)" by (cases q)
  then have "length p < VFS_MAX_PATH" using Cons.prems by simp
  then have "take VFS_MAX_PATH p = p" "vfs_ended ((const_i64_object v :: 'a vfs_object)\<lparr>vo_path := p\<rparr>)" by (simp_all add: vfs_ended_def)
  then show ?case using Cons
    by (auto simp: q const_nodes_def fnmatch_literal [OF assms(1)] usdr_device_vfs_obj_val_get_def const_i64_object_def vfs_const_i64_get_i64_def)
qed (simp add: const_nodes_def)

lemma const_tree_read:
  assumes "vfs_folder_init mem = Inr r0" "vfs_add_const_i64_vec mems ps r0 = Inr r"
    and "\<forall>(p, v)\<in>set ps. length p < VFS_MAX_PATH" "literal name"
  shows "usdr_device_vfs_obj_val_get_u64 r name w = (tree ps name, w)"
proof -
  have "vf_nodes r = const_nodes ps" using add_vec_ok [OF _ assms(2)] folder_init_ok [OF assms(1)] by simp
  then show ?thesis using find_const_nodes [OF assms(4,3), of "[] :: 'a vfs_object list" w]
    by (simp add: usdr_device_vfs_obj_val_get_u64_def usdr_device_vfs_get_by_path_def tree_def split: option.splits)
qed

text \<open>All names the bus table asks for are plain.\<close>

lemma literal_append [simp]: "literal (a @ b) \<longleftrightarrow> literal a \<and> literal b"
  by (simp add: literal_def)

lemma literal_dec [simp]: "literal (dec n)"
proof (induction n rule: dec.induct)
  case (1 n)
  have d: "literal [char_of (48 + k)]" if "k < 10" for k :: nat
  proof -
    have n: "of_char (char_of (48 + k) :: char) = 48 + k" using that by simp
    have "char_of (48 + k) \<noteq> c" if "of_char c < (48 :: nat) \<or> 57 < (of_char c :: nat)" for c
    proof
      assume "char_of (48 + k) = c"
      then have "of_char c = 48 + k" using n by simp
      then show False using that \<open>k < 10\<close> by simp
    qed
    from this [of "CHR ''*''"] this [of "CHR ''?''"] this [of "CHR ''[''"] show ?thesis by (simp add: literal_def)
  qed
  show ?case
  proof (cases "n < 10")
    case True then show ?thesis using d [OF True] by (subst dec.simps) simp
  next
    case False then show ?thesis using 1 d [of "n mod 10"] by (subst dec.simps) simp
  qed
qed

lemma literal_parts [simp]: "literal ''/ll/''" "literal ''/''" "literal ''_count''" "literal ''idx_regsp''" "literal ''virt_base''"
  by (simp_all add: literal_def)

lemma literal_names: "literal (DNLLC x) \<longleftrightarrow> literal x" "literal (DNLLFP_NAME b i x) \<longleftrightarrow> literal b \<and> literal x"
  unfolding DNLLC_def DNLLFP_NAME_def by (simp_all only: literal_append literal_parts literal_dec simp_thms)

lemma load_values_same:
  "(\<And>j. f (nm j) = g (nm j)) \<Longrightarrow> load_values f nm arr j n b = load_values g nm arr j n b"
  by (induction n arbitrary: j b) (auto split: sum.splits)

lemma load_rows_same:
  assumes "\<And>x. literal x \<Longrightarrow> f x = g x"
    and "\<forall>r\<in>set rs. literal (ep_count_path r) \<and> literal (ep_dev r) \<and> literal (ep_name r)"
  shows "load_rows f rs b = load_rows g rs b"
  using assms(2)
proof (induction rs arbitrary: b)
  case (Cons r rs)
  have c: "f (ep_count_path r) = g (ep_count_path r)" using assms(1) Cons.prems by simp
  have "f (DNLLFP_NAME (ep_dev r) j (ep_name r)) = g (DNLLFP_NAME (ep_dev r) j (ep_name r))" for j
    using assms(1) Cons.prems by (simp add: literal_names)
  then have "load_row f r b = load_row g r b"
    using load_values_same [of f "\<lambda>j. DNLLFP_NAME (ep_dev r) j (ep_name r)" g] unfolding load_row_def c by (simp only:)
  then show ?case using Cons by (simp split: sum.splits)
qed simp

lemma device_bus_init_same:
  assumes "\<And>x. literal x \<Longrightarrow> f x = g x"
  shows "device_bus_init f b = device_bus_init g b"
proof -
  have e: "f ''/ll/poll_event/in'' = g ''/ll/poll_event/in''" "f ''/ll/poll_event/out'' = g ''/ll/poll_event/out''"
    by (simp_all add: assms literal_def)
  have t: "\<forall>r\<in>set params_table. literal (ep_count_path r) \<and> literal (ep_dev r) \<and> literal (ep_name r)"
    by (simp add: params_table_def literal_names) (simp add: literal_def)
  have v: "load_values f (\<lambda>j. DNLLFP_NAME ''idx_regsp'' j ''virt_base'') arr j n b = load_values g (\<lambda>j. DNLLFP_NAME ''idx_regsp'' j ''virt_base'') arr j n b" for arr j n b
    by (rule load_values_same) (rule assms, simp add: literal_names)
  have rows: "load_rows f params_table b = load_rows g params_table b" for b by (rule load_rows_same [OF _ t]) (rule assms)
  show ?thesis unfolding device_bus_init_def e rows v ..
qed

text \<open>C37: a board publishes its constants and the bus table is loaded from the tree: with memory and at most 65535 constants
  with paths shorter than 128 characters both succeed like a table loaded from the list of constants (the first of
  equal names counts).\<close>

theorem device_tree_bus_table:
  assumes "vfs_folder_init True = Inr r0" "length ps \<le> MAX_PER_FOLDER" "\<forall>(p, v)\<in>set ps. length p < VFS_MAX_PATH"
  shows "\<exists>r. vfs_add_const_i64_vec [] ps r0 = Inr r \<and> folder_ok r \<and> vf_used r = length ps \<and>
    device_bus_init (\<lambda>name. fst (usdr_device_vfs_obj_val_get_u64 r name w)) b = device_bus_init (tree ps) b"
proof -
  obtain r where r: "vfs_add_const_i64_vec [] ps r0 = Inr r"
    using add_vec_works [of r0 ps] folder_init_ok [OF assms(1)] assms(2) by (auto simp: vf_used_def)
  have "folder_ok r" "vf_used r = length ps"
    using add_vec_ok [OF _ r] folder_init_ok [OF assms(1)] by (auto simp: vf_used_def const_nodes_def)
  moreover have "device_bus_init (\<lambda>name. fst (usdr_device_vfs_obj_val_get_u64 r name w)) b = device_bus_init (tree ps) b"
    by (rule device_bus_init_same) (simp add: const_tree_read [OF assms(1) r assms(3)])
  ultimately show ?thesis using r by blast
qed

theorem device_tree_bus_table_witness:
  "\<exists>r0 r. vfs_folder_init True = Inr r0 \<and> vfs_add_const_i64_vec [] [(''/ll/drp_count'', 1), (''/ll/drp/0/core'', 3), (''/ll/drp/0/base'', 0x40)] r0 = Inr r \<and>
    (\<exists>b'. device_bus_init (\<lambda>name. fst (usdr_device_vfs_obj_val_get_u64 r name ())) (bus0 0) = Inr b' \<and> db_drp_count b' = 1)"
proof -
  obtain r0 :: "unit vfs_folder" where r0: "vfs_folder_init True = Inr r0" by (simp add: vfs_folder_init_def)
  show ?thesis
    using device_tree_bus_table [OF r0, of "[(''/ll/drp_count'', 1), (''/ll/drp/0/core'', 3), (''/ll/drp/0/base'', 0x40)]" "()" "bus0 0"] r0 drp_tree_run
    by (auto simp: MAX_PER_FOLDER_def VFS_MAX_PATH_def drp_tree_def)
qed

text \<open>Text constants are read as numbers: the value of one is the address of its text.\<close>

lemma vfs_str_reads_address:
  assumes "vfs_folder_init True = Inr r0" "vfs_add_const_str_vec [] [(''/dm/name'', addr)] r0 = Inr r"
  shows "usdr_device_vfs_obj_val_get_u64 r ''/dm/name'' w = (Inr addr, w)"
  using const_tree_read [OF assms(1) assms(2) [unfolded vfs_add_const_str_vec_def], of "''/dm/name''" w]
  by (simp add: tree_def literal_def VFS_MAX_PATH_def)

text \<open>A path of 128 characters has no end in its object: the search runs past it.\<close>

lemma vfs_long_path:
  "length p = 128 \<Longrightarrow> usdr_device_vfs_obj_val_get_u64 \<lparr>vf_total = 16, vf_nodes = const_nodes [(p, v)]\<rparr> name w = (Inl OUT_OF_BOUNDS, w)"
  by (simp add: usdr_device_vfs_obj_val_get_u64_def usdr_device_vfs_get_by_path_def const_nodes_def vfs_ended_def VFS_MAX_PATH_def)

end
