(* ===== verification/Mdev.thy ===== *)
theory Mdev
  imports ChipBus StreamFormat "HOL-Library.Sublist"
begin

text \<open>
  Several boards as one device (\<open>src/lib/device/mdev.c\<close>): parameters are set on every board and read from the first,
  a stream of the whole is a stream on every board, each with its part of the caller's buffers. The boards are
  arguments: a record of the operations of one, over a state \<open>'w\<close> that holds them all; \<open>'s\<close> is a stream of a board.
\<close>

section \<open>Boards and streams\<close>

definition DEV_MAX :: nat where "DEV_MAX = 32"

datatype usdr_dms_type = USDR_DMS_TX | USDR_DMS_RX

record usdr_dms_nfo =
  nf_type :: usdr_dms_type
  nf_channels :: u32
  nf_pktbszie :: u32
  nf_pktsyms :: u32

record stream_args =
  sa_sid :: string
  sa_dformat :: string
  sa_pktsyms :: u32
  sa_flags :: u32
  sa_parameters :: string

record ('w, 's, 'r, 't) mdev_board =
  bd_create_stream :: "stream_args \<Rightarrow> usdr_channel_info \<Rightarrow> ('w, 's) dev"
  bd_destroy :: "('w, unit) dev"
  bd_unregister_stream :: "'s option \<Rightarrow> ('w, unit) dev"
  bd_timer_op :: "'s option list \<Rightarrow> string \<Rightarrow> ('w, unit) dev"
  bd_val_set :: "string \<Rightarrow> u64 \<Rightarrow> ('w, unit) dev"
  bd_val_get :: "string \<Rightarrow> ('w, u64) dev"
  bd_str_destroy :: "'s \<Rightarrow> ('w, unit) dev"
  bd_str_op :: "'s \<Rightarrow> u32 \<Rightarrow> u64 \<Rightarrow> ('w, unit) dev"
  bd_str_recv :: "'s \<Rightarrow> nat list \<Rightarrow> u32 \<Rightarrow> ('w, 'r) dev"
  bd_str_send :: "'s \<Rightarrow> nat list \<Rightarrow> u32 \<Rightarrow> u64 \<Rightarrow> u32 \<Rightarrow> ('w, 't) dev"
  bd_str_stat :: "'s \<Rightarrow> ('w, usdr_dms_nfo) dev"
  bd_str_fd :: "'s \<Rightarrow> ('w, int) dev"

record stream_mdev =
  sm_dev_mask :: "bool list"
  sm_poll_fd :: "(int \<times> bool) list"
  sm_dev_idx :: "nat list"
  sm_type :: usdr_dms_type
  sm_channels :: u32
  sm_pkt_bytes :: u32
  sm_pkt_symbs :: u32

record ('w, 's, 'r, 't) dev_multi =
  md_streams :: "stream_mdev list"
  md_real :: "('w, 's, 'r, 't) mdev_board list"
  md_rx_chans :: u32
  md_tx_chans :: u32
  md_str_rx :: "'s option list"
  md_str_tx :: "'s option list"

type_synonym ('w, 's, 'r, 't, 'a) mdev = "('w \<times> ('w, 's, 'r, 't) dev_multi, 'a) dev"

definition real_str :: "usdr_dms_type \<Rightarrow> ('w, 's, 'r, 't) dev_multi \<Rightarrow> 's option list" where
  "real_str ty m = (case ty of USDR_DMS_RX \<Rightarrow> md_str_rx m | USDR_DMS_TX \<Rightarrow> md_str_tx m)"

definition real_str_upd :: "usdr_dms_type \<Rightarrow> ('s option list \<Rightarrow> 's option list) \<Rightarrow> ('w, 's, 'r, 't) dev_multi \<Rightarrow> ('w, 's, 'r, 't) dev_multi" where
  "real_str_upd ty f m = (case ty of USDR_DMS_RX \<Rightarrow> m\<lparr>md_str_rx := f (md_str_rx m)\<rparr> | USDR_DMS_TX \<Rightarrow> m\<lparr>md_str_tx := f (md_str_tx m)\<rparr>)"

text \<open>A call of a board's stream; there is none at a NULL pointer.\<close>

definition on_stream :: "usdr_dms_type \<Rightarrow> nat \<Rightarrow> (('w, 's, 'r, 't) mdev_board \<Rightarrow> 's \<Rightarrow> ('w, 'a) dev) \<Rightarrow> ('w, 's, 'r, 't, 'a) mdev" where
  "on_stream ty i f = dbind (dget (\<lambda>m. (md_real m ! i, real_str ty m ! i))) (\<lambda>(b, s). case s of None \<Rightarrow> dfail OUT_OF_BOUNDS | Some s \<Rightarrow> on_hw (f b s))"

fun each :: "('x \<Rightarrow> ('s, 'a) dev) \<Rightarrow> 'x list \<Rightarrow> ('s, 'a list) dev" where
  "each f [] = dreturn []"
| "each f (x # xs) = dbind (f x) (\<lambda>a. dbind (each f xs) (\<lambda>as. dreturn (a # as)))"

section \<open>Parameters\<close>

definition mdev_obj_set_i64 :: "string \<Rightarrow> u64 \<Rightarrow> ('w, 's, 'r, 't, unit) mdev" where
  "mdev_obj_set_i64 path v = dbind (dget md_real) (\<lambda>bs. dbind (each (\<lambda>b. on_hw (bd_val_set b path v)) bs) (\<lambda>_. dreturn ()))"

definition mdev_obj_get_i64 :: "string \<Rightarrow> ('w, 's, 'r, 't, u64) mdev" where
  "mdev_obj_get_i64 path = dbind (dget md_real) (\<lambda>bs.
     if path = ''/ll/devices'' then dreturn (of_nat (length bs)) else on_hw (bd_val_get (hd bs) path))"

section \<open>Streams\<close>

definition step_of :: "stream_mdev \<Rightarrow> nat" where
  "step_of st = unat (sm_channels st) div length (sm_dev_idx st)"

definition masked :: "stream_mdev \<Rightarrow> nat list" where
  "masked st = filter (\<lambda>i. sm_dev_mask st ! i) [0..<length (sm_dev_mask st)]"

definition mstr_stream_destroy :: "nat \<Rightarrow> ('w, 's, 'r, 't, unit) mdev" where
  "mstr_stream_destroy k = dbind (dget (\<lambda>m. md_streams m ! k)) (\<lambda>st. dbind (each (\<lambda>i.
     dseq (on_stream (sm_type st) i (\<lambda>b s. dignore (bd_str_destroy b s)))
       (dmod (\<lambda>m. real_str_upd (sm_type st) (\<lambda>l. l[i := None])
          (m\<lparr>md_streams := (md_streams m)[k := (md_streams m ! k)\<lparr>sm_dev_mask := (sm_dev_mask (md_streams m ! k))[i := False]\<rparr>]\<rparr>))))
      (masked st)) (\<lambda>_. dreturn ()))"

definition mstr_stream_op :: "stream_mdev \<Rightarrow> u32 \<Rightarrow> u64 \<Rightarrow> ('w, 's, 'r, 't, unit) mdev" where
  "mstr_stream_op st cmd ts = dbind (each (\<lambda>i. on_stream (sm_type st) i (\<lambda>b s. bd_str_op b s cmd ts)) (masked st)) (\<lambda>_. dreturn ())"

text \<open>The report is that of the first board.\<close>

definition mstr_stream_recv :: "stream_mdev \<Rightarrow> nat list \<Rightarrow> u32 \<Rightarrow> ('w, 's, 'r, 't, 'r) mdev" where
  "mstr_stream_recv st bufs timeout = dbind (each (\<lambda>(i, idx). on_stream (sm_type st) idx (\<lambda>b s. bd_str_recv b s (drop (step_of st * i) bufs) timeout))
     (enumerate 0 (sm_dev_idx st))) (\<lambda>rs. dreturn (hd rs))"

definition mstr_stream_send :: "stream_mdev \<Rightarrow> nat list \<Rightarrow> u32 \<Rightarrow> u64 \<Rightarrow> u32 \<Rightarrow> ('w, 's, 'r, 't, 't) mdev" where
  "mstr_stream_send st bufs samples ts timeout = dbind (each (\<lambda>(i, idx). on_stream (sm_type st) idx
     (\<lambda>b s. bd_str_send b s (drop (step_of st * i) bufs) samples ts timeout)) (enumerate 0 (sm_dev_idx st))) (\<lambda>rs. dreturn (hd rs))"

definition mstr_stream_stat :: "stream_mdev \<Rightarrow> usdr_dms_nfo" where
  "mstr_stream_stat st = \<lparr>nf_type = sm_type st, nf_channels = sm_channels st, nf_pktbszie = sm_pkt_bytes st, nf_pktsyms = sm_pkt_symbs st\<rparr>"

definition mstr_stream_option :: "string \<Rightarrow> ('w, 's, 'r, 't, int) mdev" where
  "mstr_stream_option name = dfail (- EINVAL)"

section \<open>Creating a stream\<close>

text \<open>\<open>strstr\<close> compared with 0: true when the name does not contain the text.\<close>

definition strstr_is_0 :: "string \<Rightarrow> string \<Rightarrow> bool" where
  "strstr_is_0 needle s \<longleftrightarrow> \<not> sublist needle s"

definition mdev_sid_type :: "string \<Rightarrow> int + usdr_dms_type" where
  "mdev_sid_type sid =
    (let rx = strstr_is_0 ''rx/0'' sid; tx = strstr_is_0 ''tx/0'' sid
     in if \<not> rx \<and> \<not> tx then Inl (- EINVAL) else Inr (if rx then USDR_DMS_RX else USDR_DMS_TX))"

text \<open>The part of a list of channels for one board, in an array of 64.\<close>

definition chan_part :: "nat \<Rightarrow> nat \<Rightarrow> 'a list option \<Rightarrow> int + 'a list option" where
  "chan_part per i l = (case l of None \<Rightarrow> Inr None
     | Some xs \<Rightarrow> if per > 64 \<or> length xs < per * i + per then Inl OUT_OF_BOUNDS else Inr (Some (take per (drop (per * i) xs))))"

definition mdev_sub_channels :: "nat \<Rightarrow> nat \<Rightarrow> nat \<Rightarrow> usdr_channel_info \<Rightarrow> int + usdr_channel_info" where
  "mdev_sub_channels cnt per i c =
    (case chan_part per i (ci_names c) of Inl e \<Rightarrow> Inl e
     | Inr names \<Rightarrow> (case chan_part per i (ci_nums c) of Inl e \<Rightarrow> Inl e
        | Inr nums \<Rightarrow> Inr \<lparr>ci_count = ci_count c div cnt, ci_names = names, ci_nums = nums\<rparr>))"

definition mstr_idx :: "usdr_dms_type \<Rightarrow> nat" where
  "mstr_idx ty = (case ty of USDR_DMS_RX \<Rightarrow> 0 | USDR_DMS_TX \<Rightarrow> 1)"

definition mstr_upd :: "nat \<Rightarrow> (stream_mdev \<Rightarrow> stream_mdev) \<Rightarrow> ('w, 's, 'r, 't) dev_multi \<Rightarrow> ('w, 's, 'r, 't) dev_multi" where
  "mstr_upd k f m = m\<lparr>md_streams := (md_streams m)[k := f (md_streams m ! k)]\<rparr>"

definition mdev_create_one :: "usdr_dms_type \<Rightarrow> stream_args \<Rightarrow> usdr_channel_info \<Rightarrow> nat \<Rightarrow> ('w, 's, 'r, 't, int) mdev" where
  "mdev_create_one ty a chans i =
    dbind (dget (\<lambda>m. (length (md_real m), unat (if ty = USDR_DMS_RX then md_rx_chans m else md_tx_chans m), real_str ty m ! i, md_real m ! i)))
     (\<lambda>(cnt, per, old, b). case mdev_sub_channels cnt per i chans of Inl e \<Rightarrow> dfail e
      | Inr sub \<Rightarrow>
        dseq (dmod (mstr_upd (mstr_idx ty) (\<lambda>st. st\<lparr>sm_dev_mask := (sm_dev_mask st)[i := False]\<rparr>)))
         (if old \<noteq> None then dfail (- EBUSY)
          else dbind (on_hw (bd_create_stream b a sub)) (\<lambda>s.
            dseq (dmod (\<lambda>m. mstr_upd (mstr_idx ty) (\<lambda>st. st\<lparr>sm_dev_mask := (sm_dev_mask st)[i := True]\<rparr>)
                (real_str_upd ty (\<lambda>l. l[i := Some s]) m)))
             (dbind (on_hw (bd_str_fd b s)) (\<lambda>fd. if fd < 0 then dfail (- ENOTSUP) else dreturn fd)))))"

definition mdev_create_stream :: "stream_args \<Rightarrow> usdr_channel_info \<Rightarrow> ('w, 's, 'r, 't, nat) mdev" where
  "mdev_create_stream a chans =
    (case mdev_sid_type (sa_sid a) of Inl e \<Rightarrow> dfail e
     | Inr ty \<Rightarrow> dbind (dget (\<lambda>m. length (md_real m))) (\<lambda>cnt.
        dbind (each (mdev_create_one ty a chans) [0..<cnt]) (\<lambda>fds.
        dbind (on_stream ty 0 bd_str_stat) (\<lambda>nfo.
         dseq (dmod (mstr_upd (mstr_idx ty) (\<lambda>st. st\<lparr>sm_poll_fd := map (\<lambda>fd. (fd, ty = USDR_DMS_RX)) fds, sm_dev_idx := [0..<cnt],
              sm_type := ty, sm_channels := of_nat cnt * nf_channels nfo, sm_pkt_bytes := nf_pktbszie nfo, sm_pkt_symbs := nf_pktsyms nfo\<rparr>)))
           (dreturn (mstr_idx ty))))))"

section \<open>Synchronisation\<close>

definition mdev_stream_sync :: "stream_mdev option list \<Rightarrow> string \<Rightarrow> ('w, 's, 'r, 't, unit) mdev" where
  "mdev_stream_sync strs synctype =
    (if synctype = ''sysref+gen'' then dfail (- EINVAL)
     else if length strs > 2 \<or> strs = [] then dfail (- EINVAL)
     else dbind (dget (\<lambda>m. length (md_real m))) (\<lambda>cnt.
       dbind (each (\<lambda>i. if list_all (\<lambda>x. case x of None \<Rightarrow> True | Some st \<Rightarrow> sm_dev_mask st ! i) strs
            then dbind (dget (\<lambda>m. (md_real m ! i, map (\<lambda>x. case x of None \<Rightarrow> None | Some st \<Rightarrow> real_str (sm_type st) m ! i) strs)))
                   (\<lambda>(b, ss). on_hw (bd_timer_op b ss synctype))
            else dreturn ()) [0..<cnt])
        (\<lambda>_. if synctype = ''sysref'' then dbind (dget (\<lambda>m. hd (md_real m))) (\<lambda>b. on_hw (bd_timer_op b [] ''sysref+gen''))
             else dreturn ())))"

definition mdev_unregister_stream :: "stream_mdev \<Rightarrow> ('w, 's, 'r, 't, unit) mdev" where
  "mdev_unregister_stream st = dbind (each (\<lambda>(i, idx).
     dbind (dget (\<lambda>m. (md_real m ! i, real_str (sm_type st) m ! idx))) (\<lambda>(b, s).
       dseq (on_hw (dignore (bd_unregister_stream b s))) (dmod (real_str_upd (sm_type st) (\<lambda>l. l[idx := None])))))
     (enumerate 0 (sm_dev_idx st))) (\<lambda>_. dreturn ())"

section \<open>Creating the device\<close>

text \<open>Opening the boards: each is opened, its identity compared with the first's. The code that is returned when they
  differ is that of the last call, which is 0.\<close>

definition mdev_close :: "('w, 's, 'r, 't) mdev_board list \<Rightarrow> 'w \<Rightarrow> 'w" where
  "mdev_close bs w = foldl (\<lambda>w b. snd (bd_destroy b w)) w bs"

definition mdev_generic_destroy :: "('w, 's, 'r, 't) dev_multi \<Rightarrow> 'w \<Rightarrow> 'w" where
  "mdev_generic_destroy m = mdev_close (md_real m)"

fun mdev_open ::
  "('w, ('w, 's, 'r, 't) mdev_board) dev list \<Rightarrow> (('w, 's, 'r, 't) mdev_board \<Rightarrow> u8 list) \<Rightarrow> ('w, 's, 'r, 't) mdev_board list \<Rightarrow> 'w \<Rightarrow>
    (int + ('w, 's, 'r, 't) mdev_board list) \<times> 'w" where
  "mdev_open [] uuid bs w = (Inr bs, w)"
| "mdev_open (f # fs) uuid bs w =
    (case f w of (Inl e, w) \<Rightarrow> (Inl e, mdev_close bs w)
     | (Inr b, w) \<Rightarrow> if bs \<noteq> [] \<and> uuid b \<noteq> uuid (hd bs) then (Inl 0, mdev_close (bs @ [b]) w) else mdev_open fs uuid (bs @ [b]) w)"

text \<open>The code that is returned and the device, when one is stored.\<close>

definition mdev_create ::
  "('w, ('w, 's, 'r, 't) mdev_board) dev list \<Rightarrow> (('w, 's, 'r, 't) mdev_board \<Rightarrow> u8 list) \<Rightarrow> bool \<Rightarrow> u64 \<Rightarrow> 'w \<Rightarrow>
    (int \<times> ('w, 's, 'r, 't) dev_multi option) \<times> 'w" where
  "mdev_create buses uuid mem self w =
    (if buses = [] \<or> length buses > DEV_MAX then ((- EINVAL, None), w)
     else if \<not> mem then ((- ENOMEM, None), w)
     else case mdev_open buses uuid [] w of (Inl e, w) \<Rightarrow> ((e, None), w)
      | (Inr bs, w) \<Rightarrow> (case bd_val_get (hd bs) ''/ll/sdr/max_hw_rx_chans'' w of (Inl e, w) \<Rightarrow> ((e, None), mdev_close bs w)
        | (Inr rx, w) \<Rightarrow> (case bd_val_get (hd bs) ''/ll/sdr/max_hw_tx_chans'' w of (Inl e, w) \<Rightarrow> ((e, None), mdev_close bs w)
          | (Inr tx, w) \<Rightarrow> (case bd_val_set (hd bs) ''/ll/mdev'' self w of (Inl e, w) \<Rightarrow> ((e, None), mdev_close bs w)
            | (Inr _, w) \<Rightarrow> ((0, Some \<lparr>md_streams = replicate 2 \<lparr>sm_dev_mask = replicate (length bs) False, sm_poll_fd = [], sm_dev_idx = [], sm_type = USDR_DMS_TX,
                  sm_channels = 0, sm_pkt_bytes = 0, sm_pkt_symbs = 0\<rparr>, md_real = bs, md_rx_chans = ucast rx, md_tx_chans = ucast tx,
                md_str_rx = replicate (length bs) None, md_str_tx = replicate (length bs) None\<rparr>), w)))))"

section \<open>The boards share the buffers\<close>

lemma on_stream_some:
  "real_str ty m ! i = Some s \<Longrightarrow> f (md_real m ! i) s w = (r, w') \<Longrightarrow> on_stream ty i f (w, m) = (r, (w', m))"
  by (simp add: on_stream_def dbind_def dget_def on_hw_def)

lemma blocks_in_order:
  "concat (map (\<lambda>k. map (g k) (take ch (drop (ch * k) l))) [0..<n]) = map (\<lambda>j. g (j div ch) (l ! j)) [0..<n * ch]" if "n * ch \<le> length l"
  using that
proof (induction n)
  case (Suc n)
  have e: "[0..<Suc n * ch] = [0..<n * ch] @ map (\<lambda>j. n * ch + j) [0..<ch]"
    using upt_add_eq_append [of 0 "n * ch" ch] map_add_upt [of "n * ch" ch] by (simp add: add.commute)
  have "map (g n) (take ch (drop (ch * n) l)) = map (\<lambda>j. g ((n * ch + j) div ch) (l ! (n * ch + j))) [0..<ch]"
    using Suc.prems by (intro nth_equalityI) (auto simp: mult.commute)
  moreover have "n * ch \<le> length l" using Suc.prems by simp
  ultimately show ?case using Suc.IH by (simp add: e comp_def del: mult_Suc)
qed simp

text \<open>C38: every board of the joint device receives, once and in the order of the boards, on its own stream and into its own part of
  the caller's buffers. The boards are told apart: where board \<open>i\<close> notes itself, the stream and the time it is given with each of the
  \<open>ch\<close> buffers it fills, every buffer of the caller is noted once, in order, by the board whose part it is in and with the stream of that
  board; the result is that of the first board.\<close>

theorem mdev_recv_covers:
  fixes m :: "((nat \<times> 's \<times> u32 \<times> nat) list, 's, 'r, 't) dev_multi"
  assumes "\<And>i s l t w. i < n \<Longrightarrow> bd_str_recv (md_real m ! i) s l t w = (Inr (r i), w @ map (\<lambda>b. (i, s, t, b)) (take ch l))"
    and "\<And>i. i < n \<Longrightarrow> real_str (sm_type st) m ! i = Some (str i)"
    and "0 < n" "sm_dev_idx st = [0..<n]" "unat (sm_channels st) = n * ch" "length bufs = n * ch"
  shows "mstr_stream_recv st bufs t (w, m) = (Inr (r 0), (w @ map (\<lambda>j. (j div ch, str (j div ch), t, bufs ! j)) [0..<n * ch], m))"
proof -
  let ?f = "\<lambda>(i, idx). on_stream (sm_type st) idx (\<lambda>b s. bd_str_recv b s (drop (step_of st * i) bufs) t)"
  let ?own = "\<lambda>k. map (\<lambda>b. (k, str k, t, b)) (take ch (drop (ch * k) bufs))"
  have st: "step_of st = ch" using assms(3-5) by (simp add: step_of_def)
  have run: "each ?f (map (\<lambda>i. (i, i)) [k..<n]) (w, m) = (Inr (map r [k..<n]), (w @ concat (map ?own [k..<n]), m))" if "k \<le> n" for k w
    using that
  proof (induction "n - k" arbitrary: k w)
    case 0 then show ?case by simp
  next
    case (Suc d)
    then have k: "k < n" by simp
    have one: "?f (k, k) (w, m) = (Inr (r k), (w @ ?own k, m))"
      by (simp add: on_stream_some [OF assms(2) [OF k]] assms(1) [OF k] st)
    have ih: "each ?f (map (\<lambda>i. (i, i)) [Suc k..<n]) (w @ ?own k, m) =
      (Inr (map r [Suc k..<n]), ((w @ ?own k) @ concat (map ?own [Suc k..<n]), m))"
      using Suc by (intro Suc.hyps(1)) auto
    have u: "[k..<n] = k # [Suc k..<n]" using k by (simp add: upt_conv_Cons)
    show ?case unfolding u using one ih by (simp add: dbind_def)
  qed
  have en: "enumerate 0 [0..<n] = map (\<lambda>i. (i, i)) [0..<n]" by (rule nth_equalityI) (simp_all add: nth_enumerate_eq)
  have "each ?f (enumerate 0 (sm_dev_idx st)) (w, m) = (Inr (map r [0..<n]), (w @ concat (map ?own [0..<n]), m))"
    using run [of 0 w] by (simp add: assms(4) en)
  then show ?thesis using assms(3,6) blocks_in_order [of n ch bufs "\<lambda>k b. (k, str k, t, b)"]
    by (simp add: mstr_stream_recv_def dbind_def hd_map)
qed

text \<open>Receive and transmit are exchanged by name, and a name that is neither is taken for a receive stream.\<close>

lemma mdev_sid_exchanged:
  "mdev_sid_type ''/ll/srx/0'' = Inr USDR_DMS_TX" "mdev_sid_type ''/ll/stx/0'' = Inr USDR_DMS_RX" "mdev_sid_type ''/ll/adc'' = Inr USDR_DMS_RX"
  by (simp_all add: mdev_sid_type_def strstr_is_0_def sublist_Cons_right)

text \<open>Boards that are not of one kind are closed, and the call reports success without a device.\<close>

lemma mdev_mismatch_reported_as_success:
  assumes "f w = (Inr a, w1)" "g w1 = (Inr b, w2)" "uuid b \<noteq> uuid a"
  shows "\<exists>w'. mdev_create [f, g] uuid True self w = ((0, None), w')"
  using assms by (simp add: mdev_create_def DEV_MAX_def)

text \<open>A parameter that is set is set on every board, in order, up to the first that fails.\<close>

lemma mdev_set_all:
  assumes "\<And>i w. i < length bs \<Longrightarrow> bd_val_set (bs ! i) path v w = (Inr (), g i w)" "md_real m = bs"
  shows "mdev_obj_set_i64 path v (w, m) = (Inr (), (foldl (\<lambda>w i. g i w) w [0..<length bs], m))"
proof -
  have "each (\<lambda>b. on_hw (bd_val_set b path v)) (drop k bs) (w, m) = (Inr (replicate (length bs - k) ()), (foldl (\<lambda>w i. g i w) w [k..<length bs], m))" for k w
  proof (induction "length bs - k" arbitrary: k w)
    case 0 then show ?case by simp
  next
    case (Suc d)
    then have k: "k < length bs" by simp
    have rp: "replicate (length bs - k) () = () # replicate (length bs - Suc k) ()" using k by (simp flip: replicate_Suc add: Suc_diff_Suc)
    have ih: "each (\<lambda>b. on_hw (bd_val_set b path v)) (drop (Suc k) bs) (g k w, m) =
       (Inr (replicate (length bs - Suc k) ()), (foldl (\<lambda>w i. g i w) (g k w) [Suc k..<length bs], m))" using Suc by (intro Suc.hyps(1)) simp
    show ?case using ih assms(1) [OF k, of w] k
      by (simp add: Cons_nth_drop_Suc [symmetric] dbind_def on_hw_def rp upt_conv_Cons)
  qed
  from this [of 0 w] show ?thesis using assms(2) by (simp add: mdev_obj_set_i64_def dbind_def dget_def)
qed

definition log_board :: "nat \<Rightarrow> ((nat \<times> nat \<times> u32 \<times> nat) list, nat, nat, unit) mdev_board" where
  "log_board i = \<lparr>bd_create_stream = (\<lambda>a c. dreturn 0), bd_destroy = dreturn (), bd_unregister_stream = (\<lambda>s. dreturn ()), bd_timer_op = (\<lambda>s c. dreturn ()),
     bd_val_set = (\<lambda>p v. dreturn ()), bd_val_get = (\<lambda>p. dreturn 2), bd_str_destroy = (\<lambda>s. dreturn ()), bd_str_op = (\<lambda>s c t. dreturn ()),
     bd_str_recv = (\<lambda>s l t w. (Inr (i + 5), w @ map (\<lambda>b. (i, s, t, b)) (take 2 l))), bd_str_send = (\<lambda>s l n ts t. dreturn ()),
     bd_str_stat = (\<lambda>s. dreturn \<lparr>nf_type = USDR_DMS_RX, nf_channels = 2, nf_pktbszie = 0, nf_pktsyms = 0\<rparr>), bd_str_fd = (\<lambda>s. dreturn 3)\<rparr>"

definition two_boards :: "((nat \<times> nat \<times> u32 \<times> nat) list, nat, nat, unit) dev_multi" where
  "two_boards = \<lparr>md_streams = [], md_real = [log_board 0, log_board 1], md_rx_chans = 2, md_tx_chans = 2,
     md_str_rx = [Some 7, Some 8], md_str_tx = [None, None]\<rparr>"

theorem mdev_recv_covers_witness:
  "mstr_stream_recv \<lparr>sm_dev_mask = [True, True], sm_poll_fd = [], sm_dev_idx = [0, 1], sm_type = USDR_DMS_RX, sm_channels = 4, sm_pkt_bytes = 0, sm_pkt_symbs = 0\<rparr>
     [10, 11, 12, 13] 9 ([], two_boards) = (Inr 5, ([(0, 7, 9, 10), (0, 7, 9, 11), (1, 8, 9, 12), (1, 8, 9, 13)], two_boards))"
proof -
  have b: "bd_str_recv (md_real two_boards ! i) s l t w = (Inr (i + 5), w @ map (\<lambda>b. (i, s, t, b)) (take 2 l))" if "i < 2" for i s l t w
    using that by (auto simp: two_boards_def log_board_def less_2_cases_iff)
  have s: "real_str USDR_DMS_RX two_boards ! i = Some (i + 7)" if "i < 2" for i
    using that by (auto simp: two_boards_def real_str_def less_2_cases_iff)
  have four: "[0..<4] = [0, 1, 2, 3 :: nat]" by (simp add: upt_rec)
  show ?thesis
    using mdev_recv_covers [where n = 2 and m = two_boards and r = "\<lambda>i. i + 5" and str = "\<lambda>i. i + 7" and ch = 2 and bufs = "[10, 11, 12, 13]" and t = 9 and w = "[]"
        and st = "\<lparr>sm_dev_mask = [True, True], sm_poll_fd = [], sm_dev_idx = [0, 1], sm_type = USDR_DMS_RX, sm_channels = 4, sm_pkt_bytes = 0, sm_pkt_symbs = 0\<rparr>"] b s
    by (simp add: upt_rec four)
qed

end
