(* ===== verification/Lms7002mCtrl.thy ===== *)
theory Lms7002mCtrl
  imports Complex_Main Lms7002mCalls CString
begin

text \<open>
  The controller of an LMS7002M on a board (\<open>src/lib/device/m2_lm7_1/lms7002m_ctrl.c\<close>): gains, paths and bands,
  oscillator and mixer frequencies, the sample rates, starting and stopping of streams, and corrections. It keeps
  what it has set beside the state of the transceiver driver. The antenna switch and the map of the port belong to
  the board and are arguments, as are the two functions that turn a bandwidth into filter settings and the quotient
  of two doubles.
\<close>

section \<open>State\<close>

datatype rfic_lms7_rf_path = XSDR_RX_L | XSDR_RX_H | XSDR_RX_W | XSDR_RX_L_TX_B2_LB | XSDR_RX_W_TX_B1_LB | XSDR_RX_H_TX_B1_LB
  | XSDR_TX_B1 | XSDR_TX_B2 | XSDR_TX_W | XSDR_TX_H | XSDR_RX_AUTO | XSDR_TX_AUTO | XSDR_RX_ADC_EXT

datatype rfic_lms7_gain_types = RFIC_LMS7_RX_LNA_GAIN | RFIC_LMS7_RX_TIA_GAIN | RFIC_LMS7_RX_PGA_GAIN | RFIC_LMS7_RX_LB_GAIN
  | RFIC_LMS7_TX_PAD_GAIN | RFIC_LMS7_TX_LB_GAIN | RFIC_LMS7_TX_PGA_GAIN

datatype rfic_lms7_tune_types = RFIC_LMS7_TUNE_RX_FDD | RFIC_LMS7_TUNE_TX_FDD | RFIC_LMS7_TX_AND_RX_TDD

definition RFIC_LMS7_TX :: u32 where "RFIC_LMS7_TX = 1"
definition RFIC_LMS7_RX :: u32 where "RFIC_LMS7_RX = 2"

definition LMS7_CH_A :: u16 where "LMS7_CH_A = 1"
definition LMS7_CH_B :: u16 where "LMS7_CH_B = 2"
definition LMS7_CH_AB :: u16 where "LMS7_CH_AB = 3"

definition RFIC_SWAP_AB :: u32 where "RFIC_SWAP_AB = push_bit 0 1"
definition RFIC_SISO_MODE :: u32 where "RFIC_SISO_MODE = push_bit 2 1"
definition RFIC_SISO_SWITCH :: u32 where "RFIC_SISO_SWITCH = push_bit 3 1"
definition RFIC_DIGITAL_LB :: u32 where "RFIC_DIGITAL_LB = push_bit 11 1"
definition RFIC_LFSR :: u32 where "RFIC_LFSR = push_bit 12 1"
definition RFIC_NO_DC_COMP :: u32 where "RFIC_NO_DC_COMP = push_bit 23 1"

record freq_auto_band_map =
  fb_stop_freq :: u32
  fb_band :: u8
  fb_sw :: u8
  fb_swlb :: u8
  fb_name0 :: string
  fb_name1 :: string

text \<open>Values of the two channels are functions of 0 and 1; a value that was not set is \<open>None\<close>.\<close>

record lms7002_dev =
  ld_lms :: lms7002m_state
  ld_rx_cfg_path :: u8
  ld_tx_cfg_path :: u8
  ld_trf_lb_atten :: u8
  ld_tx_loss :: "nat \<Rightarrow> u8"
  ld_rxcgen_div :: u8
  ld_txcgen_div :: u8
  ld_rxtsp_div :: u8
  ld_txtsp_div :: u8
  ld_tx_host_inter :: u8
  ld_rx_host_decim :: u8
  ld_rx_path :: rfic_lms7_rf_path
  ld_tx_path :: rfic_lms7_rf_path
  ld_rx_run :: "nat \<Rightarrow> bool"
  ld_tx_run :: "nat \<Rightarrow> bool"
  ld_tx_bw :: "nat \<Rightarrow> u32 option"
  ld_rx_bw :: "nat \<Rightarrow> u32 option"
  ld_tx_dsp :: "nat \<Rightarrow> u32 option"
  ld_rx_dsp :: "nat \<Rightarrow> u32 option"
  ld_fref :: u32
  ld_cgen_clk :: u32
  ld_rx_lo :: u32
  ld_tx_lo :: u32
  ld_lml_mode :: lms_limelight_conf
  ld_map_rx :: "u8 list"
  ld_map_tx :: "u8 list"
  ld_lml_rx :: "u16 \<times> u32"
  ld_lml_tx :: "u16 \<times> u32"
  ld_cfg_rx :: "freq_auto_band_map list"
  ld_cfg_tx :: "freq_auto_band_map list"
  ld_lb_active :: bool

type_synonym ('h, 'a) rfic = "('h \<times> lms7002_dev, 'a) dev"

record 'h rfic_env =
  re_bus :: "'h bus"
  re_ant_sw :: "u32 \<Rightarrow> u8 \<Rightarrow> ('h, unit) rfic"
  re_portcfg :: "bool \<Rightarrow> u16 \<Rightarrow> u32 \<Rightarrow> u8 list"
  re_rbb_def :: "u32 \<Rightarrow> bool \<Rightarrow> int + lms_lpf_params"
  re_tbb_def :: "u32 \<Rightarrow> bool \<Rightarrow> int + lms_lpf_params"
  re_ddiv :: "int \<Rightarrow> u32 \<Rightarrow> rat"

definition on_lms :: "('h, 'a) lms \<Rightarrow> ('h, 'a) rfic" where
  "on_lms op = (\<lambda>(h, d). case op (h, ld_lms d) of (r, (h', l)) \<Rightarrow> (r, (h', d\<lparr>ld_lms := l\<rparr>)))"

definition dlift :: "int + 'a \<Rightarrow> ('s, 'a) dev" where
  "dlift r = (case r of Inl e \<Rightarrow> dfail e | Inr a \<Rightarrow> dreturn a)"

definition lms7002m_init :: "u32 \<Rightarrow> lms7002_dev \<Rightarrow> lms7002_dev" where
  "lms7002m_init refclk d = d\<lparr>ld_rx_cfg_path := 0, ld_tx_cfg_path := 0, ld_rx_path := XSDR_RX_AUTO, ld_tx_path := XSDR_TX_AUTO, ld_fref := refclk\<rparr>"

definition rfic_check_chan :: "u32 \<Rightarrow> int + unit" where
  "rfic_check_chan ch = (if ch > ucast LMS7_CH_AB then Inl (- EINVAL) else if ch = 0 then Inl (- EINVAL) else Inr ())"

definition ulog :: "u32 \<Rightarrow> u32" where
  "ulog d = (if d = 1 then 0 else if d = 2 then 1 else if d = 4 then 2 else if d = 8 then 3 else if d = 16 then 4 else 5)"

section \<open>Bands\<close>

definition get_antenna_cfg_by_name :: "string \<Rightarrow> freq_auto_band_map list \<Rightarrow> nat option" where
  "get_antenna_cfg_by_name name maps = map_option fst (find (\<lambda>(i, m). strcaseeq name (fb_name0 m) \<or> strcaseeq name (fb_name1 m)) (enumerate 0 maps))"

fun get_antenna_cfg_by_freq :: "u32 \<Rightarrow> freq_auto_band_map list \<Rightarrow> nat" where
  "get_antenna_cfg_by_freq freq (m # m' # ms) = (if freq < fb_stop_freq m then 0 else Suc (get_antenna_cfg_by_freq freq (m' # ms)))"
| "get_antenna_cfg_by_freq freq ms = 0"

definition get_antenna_cfg_by_band :: "u8 \<Rightarrow> freq_auto_band_map list \<Rightarrow> nat option" where
  "get_antenna_cfg_by_band band maps = map_option fst (find (\<lambda>(i, m). fb_band m = band) (enumerate 0 maps))"

definition lms7002m_set_lna_rx :: "'h rfic_env \<Rightarrow> nat \<Rightarrow> ('h, unit) rfic" where
  "lms7002m_set_lna_rx E idx = dbind (dget (\<lambda>d. (ld_cfg_rx d ! idx, ld_lb_active d))) (\<lambda>(cfg, lb).
     let band = ucast (fb_band cfg) in
     dseq (dmod (\<lambda>d. d\<lparr>ld_rx_cfg_path := of_nat idx\<rparr>))
      (dseq (on_lms (lms7002m_rfe_path (re_bus E) band (if lb then RFE_MODE_LOOPBACKRF else RFE_MODE_NORMAL)))
      (dseq (if lb then on_lms (lms7002m_trf_path (re_bus E) (lms7002m_trf_from_rfe_path band) TRF_MODE_LOOPBACK) else dreturn ())
       (re_ant_sw E RFIC_LMS7_RX (if lb then fb_swlb cfg else fb_sw cfg)))))"

definition lms7002m_set_lna_tx :: "'h rfic_env \<Rightarrow> nat \<Rightarrow> ('h, unit) rfic" where
  "lms7002m_set_lna_tx E idx = dbind (dget (\<lambda>d. (ld_cfg_tx d ! idx, ld_lb_active d))) (\<lambda>(cfg, lb).
     let band = ucast (fb_band cfg) in
     dseq (dmod (\<lambda>d. d\<lparr>ld_tx_cfg_path := of_nat idx\<rparr>))
      (dseq (if lb then on_lms (lms7002m_rfe_path (re_bus E) (if band = 1 then RFE_LNAW else RFE_LNAL) RFE_MODE_LOOPBACKRF) else dreturn ())
      (dseq (on_lms (lms7002m_trf_path (re_bus E) band (if lb then TRF_MODE_LOOPBACK else TRF_MODE_NORMAL)))
       (re_ant_sw E RFIC_LMS7_TX (if lb then fb_swlb cfg else fb_sw cfg)))))"

definition rx_lna_changed :: "'h rfic_env \<Rightarrow> ('h, unit) rfic" where
  "rx_lna_changed E = dbind (dget (\<lambda>d. (ld_rx_path d, get_antenna_cfg_by_freq (ld_rx_lo d) (ld_cfg_rx d)))) (\<lambda>(p, idx).
     if p = XSDR_RX_AUTO then lms7002m_set_lna_rx E idx else dreturn ())"

definition tx_lna_changed :: "'h rfic_env \<Rightarrow> ('h, unit) rfic" where
  "tx_lna_changed E = dbind (dget (\<lambda>d. (ld_tx_path d, get_antenna_cfg_by_freq (ld_tx_lo d) (ld_cfg_tx d)))) (\<lambda>(p, idx).
     if p = XSDR_TX_AUTO then lms7002m_set_lna_tx E idx else dreturn ())"

definition rx_lo_changed :: "'h rfic_env \<Rightarrow> ('h, unit) rfic" where
  "rx_lo_changed E = dseq (on_lms (lms7002m_mac_set (re_bus E) LMS7_CH_AB)) (rx_lna_changed E)"

definition tx_lo_changed :: "'h rfic_env \<Rightarrow> ('h, unit) rfic" where
  "tx_lo_changed E = dseq (on_lms (lms7002m_mac_set (re_bus E) LMS7_CH_AB)) (tx_lna_changed E)"

section \<open>Gains\<close>

definition tdiv :: "int \<Rightarrow> int \<Rightarrow> int" where
  "tdiv a b = (if a < 0 then - ((- a) div b) else a div b)"

definition clampi :: "int \<Rightarrow> int \<Rightarrow> int \<Rightarrow> int" where
  "clampi i lo hi = (if i < lo then lo else if i > hi then hi else i)"

definition on_both :: "u32 \<Rightarrow> 'a \<Rightarrow> (nat \<Rightarrow> 'a) \<Rightarrow> nat \<Rightarrow> 'a" where
  "on_both ch v f = (let f = (if ch AND 1 \<noteq> 0 then f(0 := v) else f) in if ch AND 2 \<noteq> 0 then f(1 := v) else f)"

text \<open>A gain type is one of those of the enumeration or another number (\<open>None\<close>); the gain that is reached is returned.\<close>

definition lms7002m_set_gain :: "'h rfic_env \<Rightarrow> u32 \<Rightarrow> rfic_lms7_gain_types option \<Rightarrow> int \<Rightarrow> ('h, int) rfic" where
  "lms7002m_set_gain E channel gain_type gain =
    (let bus = re_bus E; lb0 = (if gain > 0 then 0 else gain) in
     dseq (dlift (rfic_check_chan channel)) (dseq (on_lms (lms7002m_mac_set bus (ucast channel)))
      (case gain_type of None \<Rightarrow> dfail (- EINVAL)
       | Some RFIC_LMS7_RX_LNA_GAIN \<Rightarrow> dbind (on_lms (lms7002m_rfe_gain bus RFE_GAIN_LNA ((gain - 30) * 10))) (\<lambda>a. dreturn (tdiv (the a + 300) 10))
       | Some RFIC_LMS7_RX_TIA_GAIN \<Rightarrow> dbind (on_lms (lms7002m_rfe_gain bus RFE_GAIN_TIA (gain * 10))) (\<lambda>a. dreturn (tdiv (the a) 10))
       | Some RFIC_LMS7_RX_PGA_GAIN \<Rightarrow> let g = clampi gain 0 31 in dseq (on_lms (lms7002m_rbb_pga bus (g * 10))) (dreturn g)
       | Some RFIC_LMS7_RX_LB_GAIN \<Rightarrow> dbind (on_lms (lms7002m_rfe_gain bus RFE_GAIN_RFB (gain * 10))) (\<lambda>a. dreturn (tdiv (the a) 10))
       | Some RFIC_LMS7_TX_PAD_GAIN \<Rightarrow> dbind (on_lms (lms7002m_trf_gain bus TRF_GAIN_PAD (- 10 * lb0))) (\<lambda>a.
            dseq (dmod (\<lambda>d. d\<lparr>ld_tx_loss := on_both channel (of_int (- tdiv (the a) 10)) (ld_tx_loss d)\<rparr>)) (dreturn lb0))
       | Some RFIC_LMS7_TX_LB_GAIN \<Rightarrow> dseq (dmod (\<lambda>d. d\<lparr>ld_trf_lb_atten := of_int (- lb0) AND mask 6\<rparr>))
            (dbind (on_lms (lms7002m_trf_gain bus TRF_GAIN_LB (- 10 * lb0))) (\<lambda>_. dreturn lb0))
       | Some RFIC_LMS7_TX_PGA_GAIN \<Rightarrow> dseq (on_lms (lms7002m_tbb_gain bus (clampi gain (- 62) 63))) (dreturn 0))))"

section \<open>Frequencies\<close>

text \<open>The frequency is a double: a rational number. One out of the range of \<open>unsigned\<close> has no conversion.\<close>

definition to_unsigned :: "rat \<Rightarrow> int + u32" where
  "to_unsigned x = (let n = (if x < 0 then - \<lfloor>- x\<rfloor> else \<lfloor>x\<rfloor>) in if 0 \<le> n \<and> n < 2 ^ 32 then Inr (of_int n) else Inl OUT_OF_BOUNDS)"

definition any_run :: "(nat \<Rightarrow> bool) \<Rightarrow> bool" where
  "any_run r \<longleftrightarrow> r 0 \<or> r 1"

definition lms7002m_fe_set_freq :: "'h rfic_env \<Rightarrow> rfic_lms7_tune_types option \<Rightarrow> rat \<Rightarrow> ('h, rat) rfic" where
  "lms7002m_fe_set_freq E typ freq =
    (case typ of None \<Rightarrow> dfail (- EINVAL) | Some ty \<Rightarrow>
      let bus = re_bus E; path = (if ty = RFIC_LMS7_TUNE_RX_FDD then SXX_RX else SXX_TX); tdd = (ty = RFIC_LMS7_TX_AND_RX_TDD)
      in if freq = 0 then dseq (dignore (on_lms (lms7002m_sxx_disable bus path))) (dreturn 0)
         else dseq (if tdd then dignore (on_lms (lms7002m_sxx_disable bus SXX_RX)) else dreturn ())
          (dbind (dlift (to_unsigned freq)) (\<lambda>f.
           dbind (dget ld_fref) (\<lambda>fref.
           dseq (on_lms (lms7002m_sxx_tune bus path fref f tdd))
            (dseq (dmod (\<lambda>d. if tdd then d\<lparr>ld_rx_lo := f, ld_tx_lo := f\<rparr> else if path = SXX_TX then d\<lparr>ld_tx_lo := f\<rparr> else d\<lparr>ld_rx_lo := f\<rparr>))
              (dbind (dget (\<lambda>d. any_run (ld_rx_run d))) (\<lambda>rx.
               dseq (if (tdd \<or> ty = RFIC_LMS7_TUNE_RX_FDD) \<and> rx then rx_lo_changed E else dreturn ())
                (dbind (dget (\<lambda>d. any_run (ld_tx_run d))) (\<lambda>tx.
                 dseq (if (tdd \<or> ty = RFIC_LMS7_TUNE_TX_FDD) \<and> tx then tx_lo_changed E else dreturn ()) (dreturn freq)))))))))) "

section \<open>Paths\<close>

definition lms7002m_lb_status_changes :: "'h rfic_env \<Rightarrow> ('h, unit) rfic" where
  "lms7002m_lb_status_changes E = dbind (dget (\<lambda>d. d)) (\<lambda>d.
    let bus = re_bus E in
    dseq (if \<not> ld_lb_active d
          then dseq (on_lms (dvoid (lms7002m_trf_gain bus TRF_GAIN_PAD (- 10 * uint (ld_tx_loss d (if lm_reg_mac (ld_lms d) AND 1 \<noteq> 0 then 0 else 1))))))
                (lms7002m_set_lna_tx E (unat (ld_tx_cfg_path d)))
          else dseq (on_lms (dvoid (lms7002m_trf_gain bus TRF_GAIN_LB 0)))
                (on_lms (dvoid (lms7002m_trf_gain bus TRF_GAIN_PAD (- 10 * uint (ld_trf_lb_atten d))))))
     (on_lms (dvoid (lms7002m_rfe_gain bus RFE_GAIN_NONE 0))))"

definition rx_path_band :: "rfic_lms7_rf_path \<Rightarrow> (u32 option \<times> bool) option" where
  "rx_path_band path = (case path of
     XSDR_RX_L \<Rightarrow> Some (Some RFE_LNAL, False) | XSDR_RX_H \<Rightarrow> Some (Some RFE_LNAH, False) | XSDR_RX_W \<Rightarrow> Some (Some RFE_LNAW, False)
   | XSDR_RX_L_TX_B2_LB \<Rightarrow> Some (Some RFE_LNAL, True) | XSDR_RX_W_TX_B1_LB \<Rightarrow> Some (Some RFE_LNAW, True)
   | XSDR_RX_H_TX_B1_LB \<Rightarrow> Some (Some RFE_LNAH, True) | XSDR_RX_AUTO \<Rightarrow> Some (None, False) | _ \<Rightarrow> None)"

definition lms7002m_rfe_set_path :: "'h rfic_env \<Rightarrow> rfic_lms7_rf_path \<Rightarrow> ('h, unit) rfic" where
  "lms7002m_rfe_set_path E path =
    (case rx_path_band path of None \<Rightarrow> dfail (- EINVAL)
     | Some (band, lb) \<Rightarrow> dbind (dget ld_lb_active) (\<lambda>old.
        dseq (dmod (\<lambda>d. d\<lparr>ld_lb_active := lb, ld_rx_path := path\<rparr>))
         (dbind (dget (\<lambda>d. case band of None \<Rightarrow> Some (get_antenna_cfg_by_freq (ld_rx_lo d) (ld_cfg_rx d))
              | Some b \<Rightarrow> get_antenna_cfg_by_band (ucast b) (ld_cfg_rx d)))
          (\<lambda>idx. case idx of None \<Rightarrow> dfail (- EINVAL)
            | Some i \<Rightarrow> dseq (lms7002m_set_lna_rx E i) (if old \<noteq> lb then lms7002m_lb_status_changes E else dreturn ())))))"

definition lms7002m_tfe_set_path :: "'h rfic_env \<Rightarrow> rfic_lms7_rf_path \<Rightarrow> ('h, unit) rfic" where
  "lms7002m_tfe_set_path E path =
    (let go = (\<lambda>f. dbind (dget (\<lambda>d. f (ld_cfg_tx d))) (\<lambda>idx. case idx of None \<Rightarrow> dfail (- EINVAL)
            | Some i \<Rightarrow> dseq (dmod (\<lambda>d. d\<lparr>ld_tx_path := path\<rparr>)) (lms7002m_set_lna_tx E i)))
     in case path of XSDR_TX_B1 \<Rightarrow> go (get_antenna_cfg_by_band 1) | XSDR_TX_B2 \<Rightarrow> go (get_antenna_cfg_by_band 2)
        | XSDR_TX_W \<Rightarrow> go (get_antenna_cfg_by_name ''W'') | XSDR_TX_H \<Rightarrow> go (get_antenna_cfg_by_name ''H'')
        | XSDR_TX_AUTO \<Rightarrow> dseq (dmod (\<lambda>d. d\<lparr>ld_tx_path := XSDR_TX_AUTO, ld_lb_active := False\<rparr>)) (tx_lna_changed E)
        | _ \<Rightarrow> dfail (- EINVAL))"

definition lms7002m_fe_set_lna :: "'h rfic_env \<Rightarrow> u32 \<Rightarrow> rfic_lms7_rf_path option \<Rightarrow> ('h, unit) rfic" where
  "lms7002m_fe_set_lna E channel lna =
    dseq (on_lms (lms7002m_mac_set (re_bus E) (ucast channel)))
     (case lna of None \<Rightarrow> dfail (- EINVAL)
      | Some p \<Rightarrow> if p \<in> {XSDR_TX_B1, XSDR_TX_B2, XSDR_TX_AUTO} then lms7002m_tfe_set_path E p else lms7002m_rfe_set_path E p)"

section \<open>Base band\<close>

definition lms7002m_rbb_bandwidth :: "'h rfic_env \<Rightarrow> u32 \<Rightarrow> bool \<Rightarrow> ('h, unit) rfic" where
  "lms7002m_rbb_bandwidth E bw loopback =
    (let path = (if bw > 200000000 then RBB_BYP else if bw > 20000000 then RBB_HBF else RBB_LBF) in
     dbind (dlift (re_rbb_def E bw (path = RBB_LBF))) (\<lambda>p.
     dseq (on_lms (lms7002m_rbb_path (re_bus E) path (if loopback then RBB_MODE_LOOPBACK else RBB_MODE_NORMAL)))
      (on_lms (lms7002m_rbb_lpf_raw (re_bus E) p))))"

definition lms7002m_tbb_bandwidth :: "'h rfic_env \<Rightarrow> u32 \<Rightarrow> bool \<Rightarrow> ('h, unit) rfic" where
  "lms7002m_tbb_bandwidth E bw loopback =
    (let path = (if bw > 200000000 then TBB_BYP else if bw > 20000000 then TBB_HBF else TBB_LAD) in
     dbind (dlift (re_tbb_def E bw (path = TBB_LAD))) (\<lambda>p.
     dseq (on_lms (lms7002m_tbb_path (re_bus E) path (if loopback then TBB_MODE_LOOPBACK else TBB_MODE_NORMAL)))
      (on_lms (lms7002m_tbb_lpf_raw (re_bus E) p))))"

text \<open>The channels that are meant, one after the other; the result of the filter of the last one is the result.\<close>

definition chan_idx :: "u16 \<Rightarrow> nat" where "chan_idx j = (if j = LMS7_CH_A then 0 else 1)"

fun bb_channels :: "'h rfic_env \<Rightarrow> bool \<Rightarrow> u32 \<Rightarrow> u16 list \<Rightarrow> int + unit \<Rightarrow> ('h, unit) rfic" where
  "bb_channels E dir_tx bw [] r = dlift r"
| "bb_channels E dir_tx bw (j # js) r =
    dseq (on_lms (lms7002m_mac_set (re_bus E) j))
     (dseq (dmod (\<lambda>d. if dir_tx then d\<lparr>ld_tx_bw := (ld_tx_bw d)(chan_idx j := Some bw)\<rparr> else d\<lparr>ld_rx_bw := (ld_rx_bw d)(chan_idx j := Some bw)\<rparr>))
      (dbind (dtry (if dir_tx then lms7002m_tbb_bandwidth E bw False else lms7002m_rbb_bandwidth E bw False)) (bb_channels E dir_tx bw js)))"

definition lms7002m_bb_set_badwidth :: "'h rfic_env \<Rightarrow> u32 \<Rightarrow> bool \<Rightarrow> u32 \<Rightarrow> ('h, u32) rfic" where
  "lms7002m_bb_set_badwidth E channel dir_tx bw =
    dseq (dlift (rfic_check_chan channel))
     (dseq (bb_channels E dir_tx bw (filter (\<lambda>j. \<not> (channel = ucast LMS7_CH_A \<and> j = LMS7_CH_B) \<and> \<not> (channel = ucast LMS7_CH_B \<and> j = LMS7_CH_A))
          [LMS7_CH_A, LMS7_CH_B]) (Inr ())) (dreturn bw))"

text \<open>A quotient by a clock of 0 is an infinity, or no number when both are 0; \<open>(int)\<close> of a value out of range is undefined.\<close>

definition nco_word :: "'h rfic_env \<Rightarrow> int \<Rightarrow> u32 \<Rightarrow> int + u32" where
  "nco_word E freq conv =
    (if conv = 0 then (if freq = 0 then Inl OUT_OF_BOUNDS else Inl (- EINVAL))
     else let rel = re_ddiv E freq conv in
       if rel > 1 / 2 \<or> rel < - (1 / 2) then Inl (- EINVAL)
       else let p = rel * 4294967296; n = (if p < 0 then - \<lfloor>- p\<rfloor> else \<lfloor>p\<rfloor>) in if n < 2 ^ 31 then Inr (of_int n) else Inl OUT_OF_BOUNDS)"

definition lms7002m_bb_set_freq :: "'h rfic_env \<Rightarrow> u32 \<Rightarrow> bool \<Rightarrow> int \<Rightarrow> ('h, unit) rfic" where
  "lms7002m_bb_set_freq E channel dir_tx freq =
    dseq (dlift (rfic_check_chan channel))
     (dbind (dget (\<lambda>d. (ld_cgen_clk d, if dir_tx then ld_txcgen_div d else ld_rxcgen_div d, any_run (if dir_tx then ld_tx_run d else ld_rx_run d))))
      (\<lambda>(clk, dv, run). if dv = 0 then dfail CRASH_FPE else
       dbind (dlift (nco_word E freq (clk div ucast dv))) (\<lambda>pfreq.
       dseq (dmod (\<lambda>d. if dir_tx then d\<lparr>ld_tx_dsp := on_both channel (Some pfreq) (ld_tx_dsp d)\<rparr> else d\<lparr>ld_rx_dsp := on_both channel (Some pfreq) (ld_rx_dsp d)\<rparr>))
        (if run then dseq (on_lms (lms7002m_mac_set (re_bus E) (ucast channel)))
             (on_lms (lms7002m_xxtsp_cmix (re_bus E) (if dir_tx then LMS_TXTSP else LMS_RXTSP) pfreq))
         else dreturn ()))))"

section \<open>Streams\<close>

definition lms7002m_streaming_down :: "'h rfic_env \<Rightarrow> u32 \<Rightarrow> ('h, unit) rfic" where
  "lms7002m_streaming_down E dir =
    (let bus = re_bus E in
     dseq (dignore (on_lms (lms7002m_mac_set bus LMS7_CH_AB)))
     (dseq (if dir AND RFIC_LMS7_RX \<noteq> 0 then
          dseq (dignore (on_lms (lms7002m_xxtsp_enable bus LMS_RXTSP False)))
           (dseq (dignore (on_lms (lms7002m_rfe_path bus 0 RFE_MODE_DISABLE))) (dmod (\<lambda>d. d\<lparr>ld_rx_run := both (\<lambda>_. False) (ld_rx_run d)\<rparr>)))
        else dreturn ())
     (dseq (if dir AND RFIC_LMS7_TX \<noteq> 0 then
          dseq (dignore (on_lms (lms7002m_xxtsp_enable bus LMS_TXTSP False)))
           (dseq (dignore (on_lms (lms7002m_trf_path bus TRF_MUTE TRF_MODE_DISABLE))) (dmod (\<lambda>d. d\<lparr>ld_tx_run := both (\<lambda>_. False) (ld_tx_run d)\<rparr>)))
        else dreturn ())
      (dbind (dget (\<lambda>d. d)) (\<lambda>d. on_lms (lms7002m_afe_enable bus (ld_rx_run d 0) (ld_rx_run d 1) (ld_tx_run d 0) (ld_tx_run d 1)))))))"

definition corr_ch :: "u16 \<Rightarrow> u32 \<Rightarrow> u16" where
  "corr_ch mode flags =
    (if mode = LMS7_CH_AB \<and> flags AND RFIC_SISO_MODE \<noteq> 0 \<and> flags AND RFIC_SISO_SWITCH = 0
     then (if flags AND RFIC_SWAP_AB \<noteq> 0 then LMS7_CH_B else LMS7_CH_A) else mode)"

text \<open>The sample rate the filter of a channel falls back to.\<close>

definition host_rate :: "u32 \<Rightarrow> u8 \<Rightarrow> u8 \<Rightarrow> u8 \<Rightarrow> int + u32" where
  "host_rate clk a b c = (if a = 0 \<or> b = 0 \<or> c = 0 then Inl CRASH_FPE else Inr (clk div ucast a div ucast b div ucast c))"

definition rx_restore :: "'h rfic_env \<Rightarrow> nat \<Rightarrow> ('h, unit) rfic" where
  "rx_restore E ich =
    dseq (on_lms (lms7002m_mac_set (re_bus E) (if ich = 0 then LMS7_CH_A else LMS7_CH_B)))
     (dbind (dget (\<lambda>d. case ld_rx_bw d ich of Some b \<Rightarrow> Inr b | None \<Rightarrow> host_rate (ld_cgen_clk d) (ld_rxcgen_div d) (ld_rxtsp_div d) (ld_rx_host_decim d)))
      (\<lambda>b. dbind (dlift b) (\<lambda>bw. dseq (lms7002m_rbb_bandwidth E bw False)
        (dbind (dget (\<lambda>d. case ld_rx_dsp d ich of Some f \<Rightarrow> f | None \<Rightarrow> 0)) (\<lambda>f. on_lms (lms7002m_xxtsp_cmix (re_bus E) LMS_RXTSP f))))))"

definition tx_restore :: "'h rfic_env \<Rightarrow> nat \<Rightarrow> ('h, unit) rfic" where
  "tx_restore E ich =
    dseq (on_lms (lms7002m_mac_set (re_bus E) (if ich = 0 then LMS7_CH_A else LMS7_CH_B)))
     (dbind (dget (\<lambda>d. case ld_tx_bw d ich of Some b \<Rightarrow> Inr b | None \<Rightarrow> host_rate (ld_cgen_clk d) (ld_txcgen_div d) (ld_txtsp_div d) (ld_tx_host_inter d)))
      (\<lambda>b. dbind (dlift b) (\<lambda>bw. dseq (lms7002m_tbb_bandwidth E bw False)
        (dbind (dget (\<lambda>d. case ld_tx_dsp d ich of Some f \<Rightarrow> f | None \<Rightarrow> 0)) (\<lambda>f. on_lms (lms7002m_xxtsp_cmix (re_bus E) LMS_TXTSP f))))))"

definition chans_of :: "u16 \<Rightarrow> nat list" where
  "chans_of ch = filter (\<lambda>i. ch AND (if i = 0 then LMS7_CH_A else LMS7_CH_B) \<noteq> 0) [0, 1]"

definition rx_start :: "'h rfic_env \<Rightarrow> u16 \<Rightarrow> u32 \<Rightarrow> bool \<Rightarrow> bool \<Rightarrow> ('h, unit) rfic" where
  "rx_start E chs flags a b =
    (let bus = re_bus E in
     dseq (on_lms (lms7002m_mac_set bus chs))
     (dseq (dbind (dget ld_rxtsp_div) (\<lambda>v. on_lms (lms7002m_xxtsp_int_dec bus LMS_RXTSP (ulog (ucast v)))))
     (dseq (on_lms (lms7002m_xxtsp_enable bus LMS_RXTSP True))
     (dseq (on_lms (lms7002m_rbb_path bus RBB_LBF RBB_MODE_NORMAL))
     (dseq (on_lms (lms7002m_rxtsp_dc_corr bus (flags AND RFIC_NO_DC_COMP \<noteq> 0) 7))
     (dseq (dmod (\<lambda>d. d\<lparr>ld_rx_run := (ld_rx_run d)(0 := a, 1 := b)\<rparr>))
     (dseq (dbind (dget (\<lambda>d. (ld_rx_path d, unat (ld_rx_cfg_path d)))) (\<lambda>(p, idx). if p = XSDR_RX_AUTO then rx_lna_changed E else lms7002m_set_lna_rx E idx))
       (dlist (map (rx_restore E) (chans_of chs))))))))))"

definition tx_start :: "'h rfic_env \<Rightarrow> u16 \<Rightarrow> bool \<Rightarrow> bool \<Rightarrow> ('h, unit) rfic" where
  "tx_start E chs a b =
    (let bus = re_bus E in
     dseq (on_lms (lms7002m_mac_set bus chs))
     (dseq (dbind (dget ld_txtsp_div) (\<lambda>v. on_lms (lms7002m_xxtsp_int_dec bus LMS_TXTSP (ulog (ucast v)))))
     (dseq (on_lms (lms7002m_xxtsp_enable bus LMS_TXTSP True))
     (dseq (on_lms (lms7002m_tbb_path bus TBB_LAD TBB_MODE_NORMAL))
     (dseq (on_lms (lms7002m_trf_path bus TRF_MUTE TRF_MODE_NORMAL))
     (dseq (dlist (map (tx_restore E) (chans_of chs)))
     (dseq (dmod (\<lambda>d. d\<lparr>ld_tx_run := (ld_tx_run d)(0 := a, 1 := b)\<rparr>))
     (dseq (on_lms (lms7002m_mac_set bus chs))
       (dbind (dget (\<lambda>d. (ld_tx_path d, unat (ld_tx_cfg_path d)))) (\<lambda>(p, idx). if p = XSDR_TX_AUTO then tx_lna_changed E else lms7002m_set_lna_tx E idx))))))))))"

text \<open>A direction that is not started keeps what was set for it.\<close>

definition lms7002m_streaming_up :: "'h rfic_env \<Rightarrow> u32 \<Rightarrow> u16 \<Rightarrow> u32 \<Rightarrow> u16 \<Rightarrow> u32 \<Rightarrow> ('h, unit) rfic" where
  "lms7002m_streaming_up E dir rx_chs_i rx_flags tx_chs_i tx_flags =
    (let bus = re_bus E; rx = dir AND RFIC_LMS7_RX \<noteq> 0; tx = dir AND RFIC_LMS7_TX \<noteq> 0;
         rx_chs = corr_ch rx_chs_i rx_flags; tx_chs = corr_ch tx_chs_i tx_flags in
     dbind (dget (\<lambda>d. (ld_rx_run d, ld_tx_run d))) (\<lambda>(rr, tr).
     let ra = (if rx then rx_chs \<noteq> LMS7_CH_B else rr 0); rb = (if rx then rx_chs \<noteq> LMS7_CH_A else rr 1);
         ta = (if tx then tx_chs \<noteq> LMS7_CH_B else tr 0); tb = (if tx then tx_chs \<noteq> LMS7_CH_A else tr 1) in
     dseq (if rx then dseq (dlift (rfic_check_chan (ucast rx_chs_i)))
             (dmod (\<lambda>d. d\<lparr>ld_map_rx := re_portcfg E True rx_chs rx_flags, ld_lml_rx := (rx_chs, rx_flags)\<rparr>)) else dreturn ())
     (dseq (if tx then dseq (dlift (rfic_check_chan (ucast tx_chs_i)))
             (dmod (\<lambda>d. d\<lparr>ld_map_tx := re_portcfg E False tx_chs tx_flags, ld_lml_tx := (tx_chs, tx_flags)\<rparr>)) else dreturn ())
     (dseq (dbind (dget (\<lambda>d. (lc_rx_port (ld_lml_mode d), ld_map_rx d, ld_map_tx d))) (\<lambda>(p, mr, mt).
              on_lms (lms7002m_limelight_map bus (if p then mr else mt) (if p then mt else mr))))
     (dseq (on_lms (lms7002m_afe_enable bus (ra \<or> rb) rb (ta \<or> tb) tb))
     (dseq (if rx then rx_start E rx_chs rx_flags ra rb else dreturn ())
     (dseq (if tx then tx_start E tx_chs ta tb else dreturn ())
     (dseq (dbind (dget ld_lml_mode) (\<lambda>old.
              let new = (if rx_flags AND RFIC_DIGITAL_LB \<noteq> 0 then old\<lparr>lc_rx_tx_dig_loopback := True\<rparr> else old);
                  new = (if rx_flags AND RFIC_LFSR \<noteq> 0 then new\<lparr>lc_rx_lfsr := True\<rparr> else new)
              in if new \<noteq> old then dseq (on_lms (lms7002m_limelight_configure bus new)) (dmod (\<lambda>d. d\<lparr>ld_lml_mode := new\<rparr>)) else dreturn ()))
      (dbind (dget (\<lambda>d. d)) (\<lambda>d. on_lms (lms7002m_dc_corr_en bus (ld_rx_run d 0) (ld_rx_run d 1) (ld_tx_run d 0) (ld_tx_run d 1))))))))))))"

section \<open>Sample rates\<close>

definition XSDR_SR_MAXCONVRATE :: u32 where "XSDR_SR_MAXCONVRATE = 1"
definition XSDR_SR_EXTENDED_CGEN :: u32 where "XSDR_SR_EXTENDED_CGEN = 2"
definition XSDR_LML_SISO_DDR_RX :: u32 where "XSDR_LML_SISO_DDR_RX = 4"
definition XSDR_LML_EXT_FIFOCLK_RX :: u32 where "XSDR_LML_EXT_FIFOCLK_RX = 8"
definition XSDR_LML_EXT_FIFOCLK_TX :: u32 where "XSDR_LML_EXT_FIFOCLK_TX = 16"
definition XSDR_LML_SISO_DDR_TX :: u32 where "XSDR_LML_SISO_DDR_TX = 32"

definition LMS7_DECIM_MAX :: u32 where "LMS7_DECIM_MAX = 32"

definition check_lime_decimation :: "u32 \<Rightarrow> bool" where
  "check_lime_decimation decim \<longleftrightarrow> decim \<in> {1, 2, 4, 8, 16, 32}"

record sr_req =
  sr_rx :: u32
  sr_tx :: u32
  sr_adc :: u32
  sr_dac :: u32
  sr_flags :: u32

definition sr_has :: "sr_req \<Rightarrow> u32 \<Rightarrow> bool" where
  "sr_has q f \<longleftrightarrow> sr_flags q AND f = f"

text \<open>The converters run at a quarter of the clock generator. The decimation of a rate, at twice a clock and at a clock.\<close>

definition sr_ndiv :: "u32 \<Rightarrow> u32 \<Rightarrow> u32" where
  "sr_ndiv c rate = (if rate > 1 then (c * 2 div rate) div 4 else 0)"

definition sr_div :: "u32 \<Rightarrow> u32 \<Rightarrow> u32" where
  "sr_div c rate = (if rate > 1 then (c div rate) div 4 else 1)"

text \<open>The clock is doubled while the decimations at twice the clock are within reach. 32 rounds are enough for a clock
  that is not 0; one that is 0 stays so and the loop does not end.\<close>

primrec cgen_grow :: "u32 \<Rightarrow> u32 \<Rightarrow> u32 \<Rightarrow> nat \<Rightarrow> u32 \<Rightarrow> int + u32" where
  "cgen_grow hi rx tx 0 c = Inl HANG"
| "cgen_grow hi rx tx (Suc n) c =
    (if c > hi then Inr c else if sr_ndiv c rx > LMS7_DECIM_MAX \<or> sr_ndiv c tx > LMS7_DECIM_MAX then Inr c else cgen_grow hi rx tx n (c * 2))"

definition sr_min_rx :: "sr_req \<Rightarrow> u32" where
  "sr_min_rx q = (if sr_has q XSDR_LML_SISO_DDR_RX \<or> sr_has q XSDR_LML_EXT_FIFOCLK_RX then 1 else 2)"

definition sr_min_tx :: "sr_req \<Rightarrow> u32" where
  "sr_min_tx q = (if sr_has q XSDR_LML_SISO_DDR_TX \<or> sr_has q XSDR_LML_EXT_FIFOCLK_TX then 1 else 2)"

definition sr_slow :: "u32 \<Rightarrow> bool" where
  "sr_slow rate \<longleftrightarrow> rate > 1 \<and> rate < 2000000"

definition sr_cgen_max :: "sr_req \<Rightarrow> nat \<Rightarrow> u32" where
  "sr_cgen_max q citer = (if sr_has q XSDR_SR_EXTENDED_CGEN \<and> citer = 0 then 380000000 else 320000000)"

definition sr_cgen :: "sr_req \<Rightarrow> nat \<Rightarrow> int + u32" where
  "sr_cgen q citer =
    (let m = max (4 * sr_dac q) (4 * sr_adc q) in
     if m \<ge> 1 then Inr m
     else let c = max (sr_min_rx q * sr_rx q * 4) (sr_min_tx q * sr_tx q * 4) in
       if sr_slow (sr_rx q) \<or> sr_slow (sr_tx q) \<or> sr_has q XSDR_SR_MAXCONVRATE then cgen_grow (sr_cgen_max q citer) (sr_rx q) (sr_tx q) 32 c else Inr c)"

text \<open>The clock and the two dividers.\<close>

definition sr_plan :: "sr_req \<Rightarrow> nat \<Rightarrow> int + u32 \<times> u32 \<times> u32" where
  "sr_plan q citer =
    (case sr_cgen q citer of Inl e \<Rightarrow> Inl e
     | Inr c \<Rightarrow> let rxdiv = sr_div c (sr_rx q); txdiv = sr_div c (sr_tx q) in
        if sr_rx q > 1 \<and> \<not> check_lime_decimation rxdiv then Inl (- EINVAL)
        else if sr_tx q > 1 \<and> \<not> check_lime_decimation txdiv then Inl (- EINVAL)
        else Inr (c, rxdiv, txdiv))"

text \<open>Up to four tries; what stops the program is not tried again.\<close>

primrec cgen_tries :: "'h rfic_env \<Rightarrow> u32 \<Rightarrow> nat \<Rightarrow> ('h, bool) rfic" where
  "cgen_tries E rate 0 = dreturn False"
| "cgen_tries E rate (Suc n) = dbind (dget ld_fref) (\<lambda>fref. dbind (dtry (on_lms (lms7002m_cgen_tune (re_bus E) fref rate 2)))
     (\<lambda>r. case r of Inr _ \<Rightarrow> dreturn True | Inl e \<Rightarrow> if e = CRASH_FPE then dfail e else cgen_tries E rate n))"

fun sr_clock :: "'h rfic_env \<Rightarrow> sr_req \<Rightarrow> nat list \<Rightarrow> ('h, u32 \<times> u32 \<times> u32) rfic" where
  "sr_clock E q [] = dfail (- ERANGE)"
| "sr_clock E q (i # is) = dbind (dlift (sr_plan q i)) (\<lambda>(c, rxdiv, txdiv).
     dseq (dmod (\<lambda>d. d\<lparr>ld_rxcgen_div := 4, ld_txcgen_div := 4, ld_rxtsp_div := ucast rxdiv, ld_txtsp_div := ucast txdiv,
        ld_tx_host_inter := 1, ld_rx_host_decim := 1\<rparr>))
      (dbind (cgen_tries E c 4) (\<lambda>ok. if ok then dreturn (c, rxdiv, txdiv) else sr_clock E q is)))"

definition tsp_div :: "bool \<Rightarrow> u32 \<Rightarrow> u32" where
  "tsp_div siso v = (if siso then v else if v > 1 then v div 2 else 1)"

definition sr_bandwidths :: "'h rfic_env \<Rightarrow> u32 \<Rightarrow> u32 \<Rightarrow> nat \<Rightarrow> ('h, unit) rfic" where
  "sr_bandwidths E rxrate txrate i =
    (let ch = (if i = 0 then LMS7_CH_A else LMS7_CH_B) in
     dseq (dbind (dget (\<lambda>d. rxrate > 1 \<and> ld_rx_run d i \<and> ld_rx_bw d i = None)) (\<lambda>b. if b
            then dseq (on_lms (lms7002m_mac_set (re_bus E) ch)) (lms7002m_rbb_bandwidth E rxrate False) else dreturn ()))
      (dbind (dget (\<lambda>d. txrate > 1 \<and> ld_tx_run d i \<and> ld_tx_bw d i = None)) (\<lambda>b. if b
            then dseq (on_lms (lms7002m_mac_set (re_bus E) ch)) (dseq (lms7002m_tbb_bandwidth E txrate False)
              (dseq (dvoid (lms7002m_set_gain E (ucast ch) (Some RFIC_LMS7_TX_PGA_GAIN) 13)) (dvoid (lms7002m_set_gain E (ucast ch) (Some RFIC_LMS7_TX_PAD_GAIN) 0))))
            else dreturn ())))"

definition tsp_update :: "'h rfic_env \<Rightarrow> lms_tsp \<Rightarrow> ('h, unit) rfic" where
  "tsp_update E tsp = dbind (dget (\<lambda>d. (any_run (by_tsp tsp (ld_rx_run d) (ld_tx_run d)), by_tsp tsp (ld_rxtsp_div d) (ld_txtsp_div d))))
     (\<lambda>(run, v). if run then dseq (on_lms (lms7002m_mac_set (re_bus E) LMS7_CH_AB)) (on_lms (lms7002m_xxtsp_int_dec (re_bus E) tsp (ulog (ucast v))))
       else dreturn ())"

definition sr_rxtsp :: "sr_req \<Rightarrow> u32 \<Rightarrow> u32" where
  "sr_rxtsp q rxdiv = (if sr_rx q > 0 then tsp_div (sr_has q XSDR_LML_SISO_DDR_RX) rxdiv else 1)"

definition sr_txtsp :: "sr_req \<Rightarrow> u32 \<Rightarrow> u32" where
  "sr_txtsp q txdiv = (if sr_tx q > 1 then tsp_div (sr_has q XSDR_LML_SISO_DDR_TX) txdiv else 1)"

definition sr_conf :: "sr_req \<Rightarrow> bool \<Rightarrow> u32 \<Rightarrow> u32 \<Rightarrow> lms_limelight_conf" where
  "sr_conf q rx_port_1 rxdiv txdiv =
    \<lparr>lc_rxsisoddr = sr_has q XSDR_LML_SISO_DDR_RX, lc_txsisoddr = sr_has q XSDR_LML_SISO_DDR_TX,
     lc_ds_high = (sr_rx q > 40000000 \<or> sr_tx q > 40000000), lc_rx_ext_rd_fclk = (sr_rx q > 0 \<and> sr_has q XSDR_LML_EXT_FIFOCLK_RX),
     lc_rx_lfsr = False, lc_rx_tx_dig_loopback = False, lc_rx_port = rx_port_1,
     lc_rxdiv = ucast (sr_rxtsp q rxdiv), lc_txdiv = ucast (sr_txtsp q txdiv)\<rparr>"

definition sr_apply :: "'h rfic_env \<Rightarrow> sr_req \<Rightarrow> u32 \<Rightarrow> lms_limelight_conf \<Rightarrow> bool \<Rightarrow> ('h, unit) rfic" where
  "sr_apply E q c cfg bypass =
    dseq (dmod (\<lambda>d. d\<lparr>ld_cgen_clk := c\<rparr>))
     (dseq (tsp_update E LMS_RXTSP) (dseq (tsp_update E LMS_TXTSP)
     (dseq (on_lms (lms7002m_limelight_configure (re_bus E) cfg)) (dseq (on_lms (lms7002m_cds_set (re_bus E) bypass))
     (dseq (dmod (\<lambda>d. d\<lparr>ld_lml_mode := cfg\<rparr>))
       (dlist (map (sr_bandwidths E (sr_rx q) (sr_tx q)) [0, 1])))))))"

definition lms7002m_samplerate :: "'h rfic_env \<Rightarrow> sr_req \<Rightarrow> bool \<Rightarrow> ('h, unit) rfic" where
  "lms7002m_samplerate E q rx_port_1 =
    dbind (sr_clock E q (if sr_has q XSDR_SR_EXTENDED_CGEN then [0, 1] else [0])) (\<lambda>(c, rxdiv, txdiv).
     sr_apply E q c (sr_conf q rx_port_1 rxdiv txdiv) (sr_rxtsp q rxdiv = 1))"

section \<open>Tests and corrections\<close>

definition lms7002m_set_lmlrx_mode :: "'h rfic_env \<Rightarrow> u32 \<Rightarrow> ('h, unit) rfic" where
  "lms7002m_set_lmlrx_mode E mode =
    dseq (dmod (\<lambda>d. d\<lparr>ld_lml_mode := (if mode = 2 then (ld_lml_mode d)\<lparr>lc_rx_lfsr := True\<rparr>
         else if mode = 1 then (ld_lml_mode d)\<lparr>lc_rx_tx_dig_loopback := True\<rparr>
         else (ld_lml_mode d)\<lparr>lc_rx_lfsr := False, lc_rx_tx_dig_loopback := False\<rparr>)\<rparr>))
     (dbind (dget ld_lml_mode) (\<lambda>c. on_lms (lms7002m_limelight_configure (re_bus E) c)))"

definition CORR_PARAM_I :: u32 where "CORR_PARAM_I = 0"
definition CORR_PARAM_Q :: u32 where "CORR_PARAM_Q = 1"
definition CORR_PARAM_A :: u32 where "CORR_PARAM_A = 2"
definition CORR_PARAM_GIQ :: u32 where "CORR_PARAM_GIQ = 3"
definition CORR_OP_SET_FREQ :: u32 where "CORR_OP_SET_FREQ = 16"
definition CORR_OP_SET_BW :: u32 where "CORR_OP_SET_BW = 18"

definition dc_param :: "int \<Rightarrow> bool \<Rightarrow> u32 \<Rightarrow> u32" where
  "dc_param channel rx typ = (if channel = 1 then 2 else 0) + (if rx then 4 else 0) + (if typ = CORR_PARAM_Q then 1 else 0)"

definition giq_gains :: "int \<Rightarrow> u32 \<times> u32" where
  "giq_gains v = (if v < 0 then (2047, of_int (2047 + v)) else (of_int (2047 - v), 2047))"

definition lms7002m_set_corr_param :: "'h rfic_env \<Rightarrow> int \<Rightarrow> u32 \<Rightarrow> int \<Rightarrow> ('h, unit) rfic" where
  "lms7002m_set_corr_param E channel corr_type v =
    (let bus = re_bus E; typ = corr_type AND 0xff; rx = (drop_bit 24 corr_type = 0); tsp = (if rx then LMS_RXTSP else LMS_TXTSP);
         ch = (if channel = 0 then LMS7_CH_A else LMS7_CH_B) in
     dseq (on_lms (lms7002m_mac_set bus ch))
      (if typ = CORR_PARAM_I \<or> typ = CORR_PARAM_Q then on_lms (lms7002m_dc_corr bus (dc_param channel rx typ) (of_int v))
       else if typ = CORR_PARAM_A then on_lms (lms7002m_xxtsp_iq_phcorr bus tsp (of_int v))
       else if typ = CORR_PARAM_GIQ then (case giq_gains v of (ig, qg) \<Rightarrow> on_lms (lms7002m_xxtsp_iq_gcorr bus tsp ig qg))
       else if typ = CORR_OP_SET_FREQ then dbind (dget ld_fref) (\<lambda>fref.
         dseq (on_lms (lms7002m_sxx_tune bus (if rx then SXX_TX else SXX_RX) fref (of_int v) False)) (on_lms (lms7002m_mac_set bus ch)))
       else if typ = CORR_OP_SET_BW then (if rx then lms7002m_rbb_bandwidth E (of_int v) False else lms7002m_tbb_bandwidth E (of_int v) False)
       else dfail (- EINVAL)))"

text \<open>The offset is divided as an unsigned number.\<close>

definition lms7002m_set_tx_testsig :: "'h rfic_env \<Rightarrow> int \<Rightarrow> u32 \<Rightarrow> u32 \<Rightarrow> ('h, unit) rfic" where
  "lms7002m_set_tx_testsig E channel freqoffset pwr = dbind (dget ld_txtsp_div) (\<lambda>v.
     let scaling = ucast (v div 2) :: u32 in
     dseq (on_lms (lms7002m_mac_set (re_bus E) (if channel = 0 then LMS7_CH_A else LMS7_CH_B)))
      (dseq (on_lms (lms7002m_xxtsp_gen (re_bus E) LMS_TXTSP (if pwr = 0xffffffff then XXTSP_NORMAL else XXTSP_DC) (ucast (pwr AND 0x7fff)) (ucast (pwr AND 0x7fff))))
        (if scaling = 0 then dfail CRASH_FPE else on_lms (lms7002m_xxtsp_cmix (re_bus E) LMS_TXTSP (freqoffset div scaling)))))"

end
