(* ===== verification/Lms7002mCtrlProofs.thy ===== *)
theory Lms7002mCtrlProofs
  imports Lms7002mCtrl
begin

text \<open>
  What the controller of the LMS7002M promises: the band of a frequency, the clock of a pair of sample rates, and the
  selection of channels that its calls keep.
\<close>

section \<open>The plan of the clock\<close>

lemma antenna_cfg_by_freq:
  assumes "maps \<noteq> []"
  shows "get_antenna_cfg_by_freq f maps < length maps \<and> (\<forall>j<get_antenna_cfg_by_freq f maps. fb_stop_freq (maps ! j) \<le> f) \<and>
    (Suc (get_antenna_cfg_by_freq f maps) < length maps \<longrightarrow> f < fb_stop_freq (maps ! get_antenna_cfg_by_freq f maps))"
  using assms
proof (induction f maps rule: get_antenna_cfg_by_freq.induct)
  case (1 freq m m' ms)
  then show ?case by (auto simp: nth_Cons split: nat.splits)
qed simp_all

lemma double_no_wrap: "unat c < 2 ^ 31 \<Longrightarrow> unat (c * 2 :: u32) = 2 * unat c"
  by (simp add: unat_mult_lem [THEN iffD1])

lemma cgen_grow_power:
  "hi < 0x80000000 \<Longrightarrow> cgen_grow hi rx tx n c = Inr c' \<Longrightarrow> \<exists>k. unat c' = 2 ^ k * unat c"
proof (induction n arbitrary: c)
  case (Suc n)
  show ?case
  proof (cases "c > hi \<or> sr_ndiv c rx > LMS7_DECIM_MAX \<or> sr_ndiv c tx > LMS7_DECIM_MAX")
    case True
    then have "c' = c" using Suc.prems by (auto split: if_splits)
    then show ?thesis by (intro exI [of _ 0]) simp
  next
    case False
    then have "unat c < 2 ^ 31" using Suc.prems(1) by (simp add: word_less_nat_alt)
    moreover obtain k where "unat c' = 2 ^ k * unat (c * 2)" using Suc.IH [of "c * 2"] Suc.prems False by auto
    ultimately have "unat c' = 2 ^ Suc k * unat c" by (simp add: double_no_wrap)
    then show ?thesis by blast
  qed
qed simp

text \<open>The loop ends.\<close>

lemma cgen_grow_ends:
  assumes "hi < 0x80000000" "c \<noteq> 0"
  shows "\<exists>c'. cgen_grow hi rx tx 32 c = Inr c'"
proof -
  have "\<exists>c'. cgen_grow hi rx tx (Suc n) c = Inr c'" if "2 ^ 31 \<le> 2 ^ n * unat c" for n c
    using that
  proof (induction n arbitrary: c)
    case 0
    then have "hi < c" using assms(1) by (simp add: word_less_nat_alt)
    then show ?case by simp
  next
    case (Suc n)
    show ?case
    proof (cases "c > hi \<or> sr_ndiv c rx > LMS7_DECIM_MAX \<or> sr_ndiv c tx > LMS7_DECIM_MAX")
      case True then show ?thesis by auto
    next
      case False
      then have "unat (c * 2) = 2 * unat c" using assms(1) by (intro double_no_wrap) (simp add: word_less_nat_alt)
      then have "2 ^ 31 \<le> 2 ^ n * unat (c * 2)" using Suc.prems by simp
      then obtain c' where "cgen_grow hi rx tx (Suc n) (c * 2) = Inr c'" using Suc.IH by blast
      then show ?thesis using False by (subst cgen_grow.simps(2)) simp
    qed
  qed
  moreover have "2 ^ 31 \<le> 2 ^ 31 * unat c" using assms(2) by (simp add: unat_gt_0 Suc_le_eq)
  moreover have "(32 :: nat) = Suc 31" by simp
  ultimately show ?thesis by metis
qed

text \<open>A clock of 0 is doubled for ever.\<close>

lemma cgen_grow_hangs: "cgen_grow hi rx tx n 0 = Inl HANG"
  by (induction n) (simp_all add: sr_ndiv_def LMS7_DECIM_MAX_def)

lemma sr_cgen_power:
  assumes "sr_cgen q i = Inr c" "4 * sr_adc q = 0" "4 * sr_dac q = 0"
  shows "\<exists>k. unat c = 2 ^ k * unat (max (sr_min_rx q * sr_rx q * 4) (sr_min_tx q * sr_tx q * 4))"
proof -
  have "sr_cgen_max q i < 0x80000000" by (simp add: sr_cgen_max_def)
  from cgen_grow_power [OF this] assms show ?thesis
    by (auto simp: sr_cgen_def Let_def split: if_splits intro: exI [of _ 0])
qed

lemma min_no_wrap: "unat r < 2 ^ 29 \<Longrightarrow> m = 1 \<or> m = 2 \<Longrightarrow> unat (m * r * 4 :: u32) = unat m * unat r * 4"
  by (auto simp: unat_mult_lem [THEN iffD1])

lemma sr_min_12: "sr_min_rx q = 1 \<or> sr_min_rx q = 2" "sr_min_tx q = 1 \<or> sr_min_tx q = 2"
  by (simp_all add: sr_min_rx_def sr_min_tx_def)

lemma sr_div_exact:
  assumes "unat c = 2 ^ k * (unat m * unat r * 4)" "1 < r"
  shows "unat c = 4 * unat (sr_div c r) * unat r"
proof -
  have r: "0 < unat r" using assms(2) by (simp add: word_less_nat_alt)
  have "unat (c div r div 4) = 2 ^ k * unat m"
  proof -
    have "unat c = (2 ^ k * unat m * 4) * unat r" using assms(1) by simp
    then have "unat c div unat r = 2 ^ k * unat m * 4" using r by simp
    then show ?thesis by (simp add: unat_div)
  qed
  then show ?thesis using assms by (simp add: sr_div_def)
qed

text \<open>For the direction that needs the faster clock the plan is exact, and its divider is one of those there are.\<close>

lemma sr_plan_exact:
  assumes "sr_plan q i = Inr (c, rxdiv, txdiv)" "4 * sr_adc q = 0" "4 * sr_dac q = 0" "unat (sr_rx q) < 2 ^ 29" "unat (sr_tx q) < 2 ^ 29"
  shows "1 < sr_rx q \<Longrightarrow> sr_min_tx q * sr_tx q * 4 \<le> sr_min_rx q * sr_rx q * 4 \<Longrightarrow> unat c = 4 * unat rxdiv * unat (sr_rx q) \<and> rxdiv \<in> {1, 2, 4, 8, 16, 32}"
    and "1 < sr_tx q \<Longrightarrow> sr_min_rx q * sr_rx q * 4 \<le> sr_min_tx q * sr_tx q * 4 \<Longrightarrow> unat c = 4 * unat txdiv * unat (sr_tx q) \<and> txdiv \<in> {1, 2, 4, 8, 16, 32}"
proof -
  have c: "sr_cgen q i = Inr c" "rxdiv = sr_div c (sr_rx q)" "txdiv = sr_div c (sr_tx q)"
    "1 < sr_rx q \<Longrightarrow> check_lime_decimation rxdiv" "1 < sr_tx q \<Longrightarrow> check_lime_decimation txdiv"
    using assms(1) by (auto simp: sr_plan_def Let_def split: sum.splits if_splits)
  obtain k where k: "unat c = 2 ^ k * unat (max (sr_min_rx q * sr_rx q * 4) (sr_min_tx q * sr_tx q * 4))"
    using sr_cgen_power [OF c(1) assms(2,3)] by blast
  show "unat c = 4 * unat rxdiv * unat (sr_rx q) \<and> rxdiv \<in> {1, 2, 4, 8, 16, 32}"
    if "1 < sr_rx q" "sr_min_tx q * sr_tx q * 4 \<le> sr_min_rx q * sr_rx q * 4"
    using sr_div_exact [of c k "sr_min_rx q" "sr_rx q"] k that c(4) unfolding c(2)
    by (simp add: max_absorb1 min_no_wrap [OF assms(4) sr_min_12(1)] check_lime_decimation_def)
  show "unat c = 4 * unat txdiv * unat (sr_tx q) \<and> txdiv \<in> {1, 2, 4, 8, 16, 32}"
    if "1 < sr_tx q" "sr_min_rx q * sr_rx q * 4 \<le> sr_min_tx q * sr_tx q * 4"
    using sr_div_exact [of c k "sr_min_tx q" "sr_tx q"] k that c(5) unfolding c(3)
    by (simp add: max_absorb2 min_no_wrap [OF assms(5) sr_min_12(2)] check_lime_decimation_def)
qed

section \<open>What calls leave as it is\<close>

definition keeps :: "(lms7002_dev \<Rightarrow> 'b) \<Rightarrow> ('h, 'a) rfic \<Rightarrow> bool" where
  "keeps f op \<longleftrightarrow> (\<forall>s x s'. op s = (x, s') \<longrightarrow> f (snd s') = f (snd s))"

named_theorems keep_rules

lemma keeps_bind [keep_rules]: "keeps f m \<Longrightarrow> (\<And>a. keeps f (k a)) \<Longrightarrow> keeps f (dbind m k)"
  unfolding keeps_def by (metis (no_types, lifting) dbind_cases)

lemma keeps_seq [keep_rules]: "keeps f m \<Longrightarrow> keeps f k \<Longrightarrow> keeps f (dseq m k)"
  unfolding dseq_def by (rule keeps_bind)

lemma keeps_basic [keep_rules]: "keeps f (dreturn a)" "keeps f (dfail e)" "keeps f (dget g)" "keeps f (Pair (Inr b))"
  by (auto simp: keeps_def dreturn_def dfail_def dget_def)

lemma keeps_lift [keep_rules]: "keeps f (dlift r)"
  by (simp add: dlift_def keep_rules split: sum.split)

lemma keeps_if [keep_rules]: "keeps f m \<Longrightarrow> keeps f k \<Longrightarrow> keeps f (if b then m else k)"
  by simp

lemma keeps_lms: "(\<And>d l. f (d\<lparr>ld_lms := l\<rparr>) = f d) \<Longrightarrow> keeps f (on_lms op)"
  by (auto simp: keeps_def on_lms_def split: prod.splits)

lemma keeps_mod: "(\<And>d. f (g d) = f d) \<Longrightarrow> keeps f (dmod g)"
  by (auto simp: keeps_def dmod_def)

lemma keeps_try [keep_rules]: "keeps f m \<Longrightarrow> keeps f (dtry m)"
  unfolding keeps_def dtry_def by (auto split: prod.splits)

lemma keeps_list: "(\<And>m. m \<in> set ms \<Longrightarrow> keeps f m) \<Longrightarrow> keeps f (dlist ms)"
  by (induction ms) (auto intro!: keep_rules)

section \<open>The sample rate that is set\<close>

definition sr_dividers :: "lms7002_dev \<Rightarrow> u8 \<times> u8 \<times> u8 \<times> u8 \<times> u8 \<times> u8" where
  "sr_dividers d = (ld_rxcgen_div d, ld_txcgen_div d, ld_rxtsp_div d, ld_txtsp_div d, ld_tx_host_inter d, ld_rx_host_decim d)"

definition sr_view :: "lms7002_dev \<Rightarrow> u32 \<times> (u8 \<times> u8 \<times> u8 \<times> u8 \<times> u8 \<times> u8) \<times> lms_limelight_conf" where
  "sr_view d = (ld_cgen_clk d, sr_dividers d, ld_lml_mode d)"

lemma keeps_lms_rates [keep_rules]: "keeps sr_dividers (on_lms op)" "keeps sr_view (on_lms op)"
  by (rule keeps_lms; simp add: sr_dividers_def sr_view_def)+

lemma keeps_tries: "keeps sr_dividers (cgen_tries E c n)"
  by (induction n) (auto intro!: keep_rules split: sum.split)

lemma keeps_bandwidth [keep_rules]: "keeps sr_view (lms7002m_rbb_bandwidth E bw b)" "keeps sr_view (lms7002m_tbb_bandwidth E bw b)"
  unfolding lms7002m_rbb_bandwidth_def lms7002m_tbb_bandwidth_def Let_def by (intro keep_rules)+

lemma keeps_void: "keeps f m \<Longrightarrow> keeps f (dvoid m)"
  unfolding dvoid_def by (intro keep_rules)

lemma keeps_gain [keep_rules]: "keeps sr_view (lms7002m_set_gain E ch (Some gt) g)"
  unfolding lms7002m_set_gain_def Let_def
  by (cases gt) (auto intro!: keep_rules keeps_mod simp: sr_view_def sr_dividers_def)

lemma keeps_bandwidths: "keeps sr_view (sr_bandwidths E r t i)"
  unfolding sr_bandwidths_def Let_def by (intro keep_rules keeps_void)

lemma keeps_update: "keeps sr_dividers (tsp_update E tsp)" "keeps ld_cgen_clk (tsp_update E tsp)"
  unfolding tsp_update_def by (auto intro!: keep_rules keeps_lms)

lemma keepsD: "keeps f op \<Longrightarrow> op (h, d) = (x, (h', d')) \<Longrightarrow> f d' = f d"
  unfolding keeps_def by fastforce

lemma dseq_cases:
  assumes "dseq m k s = (Inr x, s')"
  obtains a s1 where "m s = (Inr a, s1)" "k s1 = (Inr x, s')"
  using assms unfolding dseq_def by (auto elim: dbind_cases)

lemma sr_clock_result:
  "sr_clock E q is (h, d) = (Inr (c, rxdiv, txdiv), (h', d')) \<Longrightarrow>
    \<exists>i. sr_plan q i = Inr (c, rxdiv, txdiv) \<and> sr_dividers d' = (4, 4, ucast rxdiv, ucast txdiv, 1, 1)"
proof (induction "is" arbitrary: h d)
  case (Cons i "is")
  obtain c1 r1 t1 where p: "sr_plan q i = Inr (c1, r1, t1)"
    using Cons.prems by (cases "sr_plan q i") (auto simp: dlift_def)
  define d1 where "d1 = d\<lparr>ld_rxcgen_div := 4, ld_txcgen_div := 4, ld_rxtsp_div := ucast r1, ld_txtsp_div := ucast t1, ld_tx_host_inter := 1, ld_rx_host_decim := 1\<rparr>"
  have r: "dbind (cgen_tries E c1 4) (\<lambda>ok. if ok then dreturn (c1, r1, t1) else sr_clock E q is) (h, d1) = (Inr (c, rxdiv, txdiv), (h', d'))"
    using Cons.prems by (simp add: p dlift_def dseq_def d1_def)
  from r show ?case
  proof (cases rule: dbind_cases)
    case (2 ok s1)
    obtain h1 d2 where s1: "s1 = (h1, d2)" by (cases s1)
    have d2: "sr_dividers d2 = (4, 4, ucast r1, ucast t1, 1, 1)"
      using keepsD [OF keeps_tries, of E c1 4 h d1 "Inr ok" h1 d2] 2(1) by (simp add: s1 d1_def sr_dividers_def)
    show ?thesis
    proof (cases ok)
      case True then show ?thesis using 2(2) p d2 by (auto simp: s1)
    next
      case False then show ?thesis using 2(2) Cons.IH [of h1 d2] by (simp add: s1)
    qed
  qed simp
qed (simp add: dfail_def)

lemma sr_apply_result:
  assumes "sr_apply E q c cfg byp (h1, d1) = (Inr (), (h', d'))"
  shows "ld_cgen_clk d' = c \<and> sr_dividers d' = sr_dividers d1 \<and> ld_lml_mode d' = cfg"
proof -
  have bw: "keeps sr_view (dlist (map (sr_bandwidths E (sr_rx q) (sr_tx q)) [0, 1]))"
    by (rule keeps_list) (auto intro: keeps_bandwidths)
  from assms obtain h2 d2 where d2: "d2 = d1\<lparr>ld_cgen_clk := c\<rparr>"
    and r: "dseq (tsp_update E LMS_RXTSP) (dseq (tsp_update E LMS_TXTSP)
     (dseq (on_lms (lms7002m_limelight_configure (re_bus E) cfg)) (dseq (on_lms (lms7002m_cds_set (re_bus E) byp))
     (dseq (dmod (\<lambda>d. d\<lparr>ld_lml_mode := cfg\<rparr>)) (dlist (map (sr_bandwidths E (sr_rx q) (sr_tx q)) [0, 1])))))) (h2, d2) = (Inr (), (h', d'))"
    unfolding sr_apply_def by (auto simp: dmod_def elim!: dseq_cases)
  from r obtain h3 d3 h4 d4 h5 d5 h6 d6 where
    3: "tsp_update E LMS_RXTSP (h2, d2) = (Inr (), (h3, d3))" and 4: "tsp_update E LMS_TXTSP (h3, d3) = (Inr (), (h4, d4))"
    and 5: "on_lms (lms7002m_limelight_configure (re_bus E) cfg) (h4, d4) = (Inr (), (h5, d5))"
    and 6: "on_lms (lms7002m_cds_set (re_bus E) byp) (h5, d5) = (Inr (), (h6, d6))"
    and 7: "dlist (map (sr_bandwidths E (sr_rx q) (sr_tx q)) [0, 1]) (h6, d6\<lparr>ld_lml_mode := cfg\<rparr>) = (Inr (), (h', d'))"
    by (elim dseq_cases) (auto simp: dmod_def)
  show ?thesis
    using keepsD [OF keeps_lms_rates(2) 5] keepsD [OF keeps_lms_rates(2) 6] keepsD [OF keeps_update(1) 3] keepsD [OF keeps_update(1) 4]
      keepsD [OF keeps_update(2) 3] keepsD [OF keeps_update(2) 4] keepsD [OF bw 7]
    by (simp add: d2 sr_view_def sr_dividers_def)
qed

lemma samplerate_result:
  assumes "lms7002m_samplerate E q port (h, d) = (Inr (), (h', d'))"
  shows "\<exists>i c rxdiv txdiv. sr_plan q i = Inr (c, rxdiv, txdiv) \<and> ld_cgen_clk d' = c \<and> sr_dividers d' = (4, 4, ucast rxdiv, ucast txdiv, 1, 1) \<and>
    ld_lml_mode d' = sr_conf q port rxdiv txdiv"
proof -
  obtain c rxdiv txdiv h1 d1 where a: "sr_clock E q (if sr_has q XSDR_SR_EXTENDED_CGEN then [0, 1] else [0]) (h, d) = (Inr (c, rxdiv, txdiv), (h1, d1))"
    and b: "sr_apply E q c (sr_conf q port rxdiv txdiv) (sr_rxtsp q rxdiv = 1) (h1, d1) = (Inr (), (h', d'))"
    using assms unfolding lms7002m_samplerate_def by (auto elim!: dbind_cases)
  show ?thesis using sr_clock_result [OF a] sr_apply_result [OF b] by auto
qed

text \<open>A divider of the chip fits the byte it is kept in, and the clock divided down is the rate again.\<close>

lemma rate_back:
  fixes c v r :: u32
  assumes "unat c = 4 * unat v * unat r" "v \<in> {1, 2, 4, 8, 16, 32}"
  shows "host_rate c 4 (ucast v) 1 = Inr r"
proof -
  have v: "unat (ucast (ucast v :: u8) :: u32) = unat v" "(ucast v :: u8) \<noteq> 0" "0 < unat v" using assms(2) by auto
  have "unat (c div 4 div ucast (ucast v :: u8)) = unat r"
    using assms(1) v by (simp add: unat_div)
  then have "c div 4 div ucast (ucast v :: u8) = r" by (simp only: word_unat_eq_iff)
  then show ?thesis using v(2) by (simp add: host_rate_def)
qed

lemma samplerate_rates:
  assumes "lms7002m_samplerate E q port (h, d) = (Inr (), (h', d'))"
    and "sr_adc q = 0" "sr_dac q = 0" "sr_rx q < 0x20000000" "sr_tx q < 0x20000000"
  shows "1 < sr_rx q \<longrightarrow> sr_min_tx q * sr_tx q * 4 \<le> sr_min_rx q * sr_rx q * 4 \<longrightarrow>
      host_rate (ld_cgen_clk d') (ld_rxcgen_div d') (ld_rxtsp_div d') (ld_rx_host_decim d') = Inr (sr_rx q) \<and>
      lc_rxdiv (ld_lml_mode d') = ucast (tsp_div (sr_has q XSDR_LML_SISO_DDR_RX) (ucast (ld_rxtsp_div d')))"
    and "1 < sr_tx q \<longrightarrow> sr_min_rx q * sr_rx q * 4 \<le> sr_min_tx q * sr_tx q * 4 \<longrightarrow>
      host_rate (ld_cgen_clk d') (ld_txcgen_div d') (ld_txtsp_div d') (ld_tx_host_inter d') = Inr (sr_tx q) \<and>
      lc_txdiv (ld_lml_mode d') = ucast (tsp_div (sr_has q XSDR_LML_SISO_DDR_TX) (ucast (ld_txtsp_div d')))"
proof -
  obtain i c rxdiv txdiv where p: "sr_plan q i = Inr (c, rxdiv, txdiv)" and c: "ld_cgen_clk d' = c"
    and v: "sr_dividers d' = (4, 4, ucast rxdiv, ucast txdiv, 1, 1)" and m: "ld_lml_mode d' = sr_conf q port rxdiv txdiv"
    using samplerate_result [OF assms(1)] by blast
  have s: "unat (sr_rx q) < 2 ^ 29" "unat (sr_tx q) < 2 ^ 29" using assms(4,5) by (simp_all add: word_less_nat_alt)
  have b: "ucast (ucast x :: u8) = x" if "x \<in> {1, 2, 4, 8, 16, 32}" for x :: u32 using that by auto
  show "1 < sr_rx q \<longrightarrow> sr_min_tx q * sr_tx q * 4 \<le> sr_min_rx q * sr_rx q * 4 \<longrightarrow>
      host_rate (ld_cgen_clk d') (ld_rxcgen_div d') (ld_rxtsp_div d') (ld_rx_host_decim d') = Inr (sr_rx q) \<and>
      lc_rxdiv (ld_lml_mode d') = ucast (tsp_div (sr_has q XSDR_LML_SISO_DDR_RX) (ucast (ld_rxtsp_div d')))"
  proof (intro impI)
    assume r: "1 < sr_rx q" "sr_min_tx q * sr_tx q * 4 \<le> sr_min_rx q * sr_rx q * 4"
    from sr_plan_exact(1) [OF p _ _ s r] assms(2,3) have e: "unat c = 4 * unat rxdiv * unat (sr_rx q)" "rxdiv \<in> {1, 2, 4, 8, 16, 32}" by simp_all
    have "0 < sr_rx q" using r(1) by (simp add: word_less_nat_alt)
    then show "host_rate (ld_cgen_clk d') (ld_rxcgen_div d') (ld_rxtsp_div d') (ld_rx_host_decim d') = Inr (sr_rx q) \<and>
      lc_rxdiv (ld_lml_mode d') = ucast (tsp_div (sr_has q XSDR_LML_SISO_DDR_RX) (ucast (ld_rxtsp_div d')))"
      using rate_back [OF e] c v b [OF e(2)] by (simp add: sr_dividers_def m sr_conf_def sr_rxtsp_def)
  qed
  show "1 < sr_tx q \<longrightarrow> sr_min_rx q * sr_rx q * 4 \<le> sr_min_tx q * sr_tx q * 4 \<longrightarrow>
      host_rate (ld_cgen_clk d') (ld_txcgen_div d') (ld_txtsp_div d') (ld_tx_host_inter d') = Inr (sr_tx q) \<and>
      lc_txdiv (ld_lml_mode d') = ucast (tsp_div (sr_has q XSDR_LML_SISO_DDR_TX) (ucast (ld_txtsp_div d')))"
  proof (intro impI)
    assume r: "1 < sr_tx q" "sr_min_rx q * sr_rx q * 4 \<le> sr_min_tx q * sr_tx q * 4"
    from sr_plan_exact(2) [OF p _ _ s r] assms(2,3) have e: "unat c = 4 * unat txdiv * unat (sr_tx q)" "txdiv \<in> {1, 2, 4, 8, 16, 32}" by simp_all
    show "host_rate (ld_cgen_clk d') (ld_txcgen_div d') (ld_txtsp_div d') (ld_tx_host_inter d') = Inr (sr_tx q) \<and>
      lc_txdiv (ld_lml_mode d') = ucast (tsp_div (sr_has q XSDR_LML_SISO_DDR_TX) (ucast (ld_txtsp_div d')))"
      using rate_back [OF e] c v b [OF e(2)] r(1) by (simp add: sr_dividers_def m sr_conf_def sr_txtsp_def)
  qed
qed

text \<open>On a chip the registers of the clock generator are those of the last tuning that succeeded, when no stream runs: what follows it
  writes other registers.\<close>

definition cgen_view :: "lms_regs \<Rightarrow> u16 \<times> u16 \<times> u16 \<times> u16" where
  "cgen_view h = (h (fst CGEN_0x0087), h (fst CGEN_0x0088), h (fst CGEN_0x0089), h (fst CGEN_0x008B))"

definition cgen_apart :: "u32 \<Rightarrow> bool" where
  "cgen_apart r \<longleftrightarrow> bit r 31 \<and> drop_bit 16 r AND 0x7fff \<notin> {0x87, 0x88, 0x89, 0x8b}"

lemma cgen_apart_make: "a AND 0x7fff = a \<Longrightarrow> cgen_apart (lms_make (a, fs) vs) \<longleftrightarrow> a \<notin> {0x87, 0x88, 0x89, 0x8b}"
  "a AND 0x7fff = a \<Longrightarrow> cgen_apart (lms_wr a v) \<longleftrightarrow> a \<notin> {0x87, 0x88, 0x89, 0x8b}"
  by (simp_all add: cgen_apart_def lms_make_simps lms_wr_top lms_wr_addr)

lemma poke_apart: "\<forall>r\<in>set rs. cgen_apart r \<Longrightarrow> cgen_view (foldl lms_poke h rs) = cgen_view h"
  by (induction rs arbitrary: h) (simp_all add: cgen_view_def cgen_apart_def lms_poke_def cgen_regs)

lemma post_chip_regs:
  "\<forall>r\<in>set rs. bit r 31 \<Longrightarrow> lms7002m_spi_post (lms_chip rd) rs (h, m) = (Inr u, (h', m')) \<Longrightarrow> h' = foldl lms_poke h rs"
proof (induction rs arbitrary: h m)
  case (Cons r rs)
  have "spi_tr32 (lms_chip rd) a r h = (Inr (), lms_poke h r)" for a
    using Cons.prems by (simp add: spi_tr32_def bus_op_def lms_chip_def dbind_def of_le_bytes_le_bytes Let_def)
  then show ?case using Cons by (auto simp: dbind_def dseq_def on_hw_def dmod_def split: if_splits)
qed simp

lemma post_chip_apart:
  assumes "\<forall>r\<in>set rs. cgen_apart r" and "lms7002m_spi_post (lms_chip rd) rs (h, m) = (Inr u, (h', m'))"
  shows "cgen_view h' = cgen_view h"
proof -
  have "\<forall>r\<in>set rs. bit r 31" using assms(1) by (auto simp: cgen_apart_def)
  from post_chip_regs [OF this assms(2)] poke_apart [OF assms(1)] show ?thesis by simp
qed

lemma configure_apart: "lms7002m_limelight_configure (lms_chip rd) p (h, m) = (Inr u, (h', m')) \<Longrightarrow> cgen_view h' = cgen_view h"
  unfolding lms7002m_limelight_configure_def lms_send_def dget_def dbind_def
  by (auto simp del: lms7002m_spi_post.simps elim!: post_chip_apart [rotated] simp: Let_def plain_regs cgen_apart_make lms_mac_back_def)

lemma cds_apart: "lms7002m_cds_set (lms_chip rd) b (h, m) = (Inr u, (h', m')) \<Longrightarrow> cgen_view h' = cgen_view h"
  unfolding lms7002m_cds_set_def
  by (erule post_chip_apart [rotated]) (cases b; simp add: cgen_apart_def bit_iff_odd)

text \<open>The clock generator of the chip runs at \<open>c\<close>: its oscillator is in its range and locked, with a capacitor in the middle of the
  band, and its frequency over the divider is \<open>c\<close> to within one step of the fraction.\<close>

definition cgen_made :: "(nat \<Rightarrow> int) \<Rightarrow> (nat \<Rightarrow> int) \<Rightarrow> u32 \<Rightarrow> u32 \<Rightarrow> lms_regs \<Rightarrow> bool" where
  "cgen_made A B fref c h \<longleftrightarrow> A (cgen_ratio h) \<le> B (cgen_ratio h) \<and> cgen_cap h = (A (cgen_ratio h) + B (cgen_ratio h)) div 2 \<and>
    2000000000 \<le> cgen_div h * unat c \<and> cgen_div h * unat c \<le> 2700000000 \<and>
    unat fref * cgen_ratio h \<le> cgen_div h * unat c * 2 ^ 20 \<and> cgen_div h * unat c * 2 ^ 20 < unat fref * (cgen_ratio h + 1)"

lemma cgen_made_view: "cgen_view h' = cgen_view h \<Longrightarrow> cgen_made A B fref c h' \<longleftrightarrow> cgen_made A B fref c h"
  by (simp add: cgen_view_def cgen_made_def cgen_ratio_def cgen_div_def cgen_cap_def)

definition tunable :: "(lms_regs \<Rightarrow> u32 \<Rightarrow> u16) \<Rightarrow> (nat \<Rightarrow> int) \<Rightarrow> (nat \<Rightarrow> int) \<Rightarrow> u32 \<Rightarrow> u32 \<Rightarrow> bool" where
  "tunable rd A B fref c \<longleftrightarrow> cgen_chip rd A B \<and> (\<forall>R. 0 \<le> A R \<and> A R \<le> 256 \<and> B R \<le> 255) \<and>
    (\<exists>e. 1 \<le> e \<and> e \<le> 256 \<and> 2000000000 \<le> 2 * e * unat c \<and> 2 * e * unat c \<le> 2700000000) \<and>
    3000000 \<le> unat fref \<and> unat fref \<le> 2000000000"

lemma tuned_made:
  assumes "tunable rd A B fref c" and "lms7002m_cgen_tune (lms_chip rd) fref c v (h, m) = (Inr u, (h', m'))"
  shows "cgen_made A B fref c h'"
proof -
  obtain e where t: "cgen_chip rd A B" "\<And>R. 0 \<le> A R \<and> A R \<le> 256 \<and> B R \<le> 255" "1 \<le> e" "e \<le> 256" "2000000000 \<le> 2 * e * unat c"
    "2 * e * unat c \<le> 2700000000" "3000000 \<le> unat fref" "unat fref \<le> 2000000000"
    using assms(1) by (auto simp: tunable_def)
  from cgen_tune_chip [OF t, of v h m] assms(2) show ?thesis by (auto simp: cgen_made_def split: if_splits)
qed

definition runs_of :: "lms7002_dev \<Rightarrow> u32 \<times> (nat \<Rightarrow> bool) \<times> (nat \<Rightarrow> bool)" where
  "runs_of d = (ld_fref d, ld_rx_run d, ld_tx_run d)"

lemma keeps_runs [keep_rules]: "keeps runs_of (on_lms op)"
  by (rule keeps_lms) (simp add: runs_of_def)

lemma tries_made:
  "re_bus E = lms_chip rd \<Longrightarrow> tunable rd A B (ld_fref d) c \<Longrightarrow> cgen_tries E c n (h, d) = (Inr True, (h', d')) \<Longrightarrow>
    cgen_made A B (ld_fref d) c h' \<and> runs_of d' = runs_of d"
proof (induction n arbitrary: h d)
  case (Suc n)
  obtain r h1 l1 where t: "lms7002m_cgen_tune (lms_chip rd) (ld_fref d) c 2 (h, ld_lms d) = (r, (h1, l1))" by (metis prod.collapse)
  show ?case
  proof (cases r)
    case (Inr u)
    with Suc.prems tuned_made [OF Suc.prems(2)] t show ?thesis
      by (auto simp: dbind_def dget_def dtry_def on_lms_def runs_of_def)
  next
    case (Inl e)
    let ?d = "d\<lparr>ld_lms := l1\<rparr>"
    have "cgen_tries E c n (h1, ?d) = (Inr True, (h', d'))"
      using Suc.prems(1,3) t Inl by (auto simp: dbind_def dget_def dtry_def on_lms_def dfail_def split: if_splits)
    from Suc.IH [OF Suc.prems(1) _ this] Suc.prems(2) show ?thesis by (simp add: runs_of_def)
  qed
qed simp

lemma sr_clock_made:
  "re_bus E = lms_chip rd \<Longrightarrow> tunable rd A B (ld_fref d) c \<Longrightarrow> sr_clock E q is (h, d) = (Inr (c, rxdiv, txdiv), (h', d')) \<Longrightarrow>
    cgen_made A B (ld_fref d) c h' \<and> runs_of d' = runs_of d"
proof (induction "is" arbitrary: h d)
  case (Cons i "is")
  obtain c1 r1 t1 where p: "sr_plan q i = Inr (c1, r1, t1)"
    using Cons.prems(3) by (cases "sr_plan q i") (auto simp: dlift_def)
  define d1 where "d1 = d\<lparr>ld_rxcgen_div := 4, ld_txcgen_div := 4, ld_rxtsp_div := ucast r1, ld_txtsp_div := ucast t1, ld_tx_host_inter := 1, ld_rx_host_decim := 1\<rparr>"
  have d1: "runs_of d1 = runs_of d" "ld_fref d1 = ld_fref d" by (simp_all add: d1_def runs_of_def)
  have r: "dbind (cgen_tries E c1 4) (\<lambda>ok. if ok then dreturn (c1, r1, t1) else sr_clock E q is) (h, d1) = (Inr (c, rxdiv, txdiv), (h', d'))"
    using Cons.prems(3) by (simp add: p dlift_def dseq_def d1_def)
  from r show ?case
  proof (cases rule: dbind_cases)
    case (2 ok s1)
    obtain h1 d2 where s1: "s1 = (h1, d2)" by (cases s1)
    have k: "keeps runs_of (cgen_tries E c1 n)" for n
      by (induction n) (auto intro!: keep_rules split: sum.split)
    have d2: "runs_of d2 = runs_of d" "ld_fref d2 = ld_fref d"
      using keepsD [OF k 2(1) [unfolded s1]] d1 by (simp_all add: runs_of_def)
    show ?thesis
    proof (cases ok)
      case True
      then have "c1 = c" "h' = h1" "d' = d2" using 2(2) by (simp_all add: s1)
      then show ?thesis using tries_made [OF Cons.prems(1), of A B d1 c 4 h h1 d2] Cons.prems(2) 2(1) True d1 d2 by (simp add: s1)
    next
      case False
      then show ?thesis using 2(2) Cons.IH [OF Cons.prems(1), of d2 h1] Cons.prems(2) d2 by (simp add: s1)
    qed
  qed simp
qed (simp add: dfail_def)

lemma sr_apply_made:
  fixes E :: "lms_regs rfic_env"
  assumes "re_bus E = lms_chip rd" and "sr_apply E q c cfg b (h, d) = (Inr (), (h', d'))" and "\<forall>i. \<not> ld_rx_run d i \<and> \<not> ld_tx_run d i"
  shows "cgen_view h' = cgen_view h"
proof -
  define bws where "bws = dlist (map (sr_bandwidths E (sr_rx q) (sr_tx q)) [0, 1])"
  let ?d = "d\<lparr>ld_cgen_clk := c\<rparr>"
  have u: "dseq (tsp_update E tsp) k (x, ?d) = k (x, ?d)" for tsp k x
    using assms(3) by (cases tsp) (simp_all add: dseq_def dbind_def tsp_update_def any_run_def by_tsp_def)
  have m: "dseq (dmod (\<lambda>d. d\<lparr>ld_cgen_clk := c\<rparr>)) k (h, d) = k (h, ?d)" for k by (simp add: dseq_def dbind_def dmod_def)
  have bw: "bws (x, e) = (Inr (), (x, e))" if "\<forall>i. \<not> ld_rx_run e i \<and> \<not> ld_tx_run e i" for x e
    using that by (simp add: bws_def sr_bandwidths_def dseq_def dbind_def)
  have "dseq (on_lms (lms7002m_limelight_configure (lms_chip rd) cfg)) (dseq (on_lms (lms7002m_cds_set (lms_chip rd) b))
     (dseq (dmod (\<lambda>d. d\<lparr>ld_lml_mode := cfg\<rparr>)) bws)) (h, ?d) = (Inr (), (h', d'))"
    using assms(2) unfolding sr_apply_def bws_def [symmetric] assms(1) m u .
  then obtain h1 d1 h2 d2 where 1: "on_lms (lms7002m_limelight_configure (lms_chip rd) cfg) (h, ?d) = (Inr (), (h1, d1))"
    and 2: "on_lms (lms7002m_cds_set (lms_chip rd) b) (h1, d1) = (Inr (), (h2, d2))"
    and 3: "bws (h2, d2\<lparr>ld_lml_mode := cfg\<rparr>) = (Inr (), (h', d'))"
    by (elim dseq_cases) (auto simp: dmod_def)
  have "runs_of d2 = runs_of ?d" using keepsD [OF keeps_runs 1] keepsD [OF keeps_runs 2] by simp
  then have "bws (h2, d2\<lparr>ld_lml_mode := cfg\<rparr>) = (Inr (), (h2, d2\<lparr>ld_lml_mode := cfg\<rparr>))"
    using assms(3) by (intro bw) (simp add: runs_of_def)
  with 3 have h: "h' = h2" by simp
  obtain l1 where a: "lms7002m_limelight_configure (lms_chip rd) cfg (h, ld_lms ?d) = (Inr (), (h1, l1))" "l1 = ld_lms d1"
    using 1 by (auto simp: on_lms_def split: prod.splits)
  obtain l2 where "lms7002m_cds_set (lms_chip rd) b (h1, l1) = (Inr (), (h2, l2))"
    using 2 unfolding a(2) by (auto simp: on_lms_def split: prod.splits)
  from configure_apart [OF a(1)] cds_apart [OF this] h show ?thesis by simp
qed

lemma samplerate_made:
  fixes E :: "lms_regs rfic_env"
  assumes "lms7002m_samplerate E q port (h, d) = (Inr (), (h', d'))" and "re_bus E = lms_chip rd"
    and "tunable rd A B (ld_fref d) (ld_cgen_clk d')" and idle: "\<forall>i. \<not> ld_rx_run d i \<and> \<not> ld_tx_run d i"
  shows "cgen_made A B (ld_fref d) (ld_cgen_clk d') h'"
proof -
  obtain c rxdiv txdiv h1 d1 where a: "sr_clock E q (if sr_has q XSDR_SR_EXTENDED_CGEN then [0, 1] else [0]) (h, d) = (Inr (c, rxdiv, txdiv), (h1, d1))"
    and b: "sr_apply E q c (sr_conf q port rxdiv txdiv) (sr_rxtsp q rxdiv = 1) (h1, d1) = (Inr (), (h', d'))"
    using assms(1) unfolding lms7002m_samplerate_def by (auto elim!: dbind_cases)
  have c: "ld_cgen_clk d' = c" using sr_apply_result [OF b] by blast
  note made = sr_clock_made [OF assms(2) assms(3) [unfolded c] a]
  have m: "cgen_made A B (ld_fref d) c h1" and r: "runs_of d1 = runs_of d" by (rule conjunct1 [OF made], rule conjunct2 [OF made])
  have "\<forall>i. \<not> ld_rx_run d1 i \<and> \<not> ld_tx_run d1 i" using r idle by (simp add: runs_of_def)
  from cgen_made_view [OF sr_apply_made [OF assms(2) b this]] m show ?thesis unfolding c by (rule iffD2)
qed

text \<open>For every direction the divider is the greatest with which the rate does not fall below the one asked for.\<close>

lemma sr_div_floor:
  assumes "1 < (r :: u32)" and "v = sr_div c r"
  shows "4 * unat v * unat r \<le> unat c \<and> unat c < 4 * (unat v + 1) * unat r"
proof -
  have r: "0 < unat r" using assms(1) by (simp add: word_less_nat_alt)
  have v: "unat v = unat c div (4 * unat r)" using assms by (simp add: sr_div_def unat_div div_mult2_eq mult.commute)
  have e: "unat c = 4 * unat r * unat v + unat c mod (4 * unat r)" by (simp add: v mult.commute)
  have "unat c mod (4 * unat r) < 4 * unat r" using r by simp
  then show ?thesis using e by (simp add: algebra_simps)
qed

lemma host_rate_div:
  fixes c v :: u32
  assumes "v \<in> {1, 2, 4, 8, 16, 32}"
  shows "host_rate c 4 (ucast v) 1 = Inr (of_nat (unat c div (4 * unat v)))"
proof -
  have v: "unat (ucast (ucast v :: u8) :: u32) = unat v" "(ucast v :: u8) \<noteq> 0" using assms by auto
  have "unat (c div 4 div ucast (ucast v :: u8)) = unat c div (4 * unat v)" by (simp add: unat_div v div_mult2_eq)
  then have "c div 4 div ucast (ucast v :: u8) = of_nat (unat c div (4 * unat v))" by (metis of_nat_unat ucast_id)
  then show ?thesis using v(2) by (simp add: host_rate_def)
qed

lemma samplerate_dividers:
  assumes "lms7002m_samplerate E q port (h, d) = (Inr (), (h', d'))"
  shows "1 < sr_rx q \<longrightarrow> unat (ld_rxtsp_div d') \<in> {1, 2, 4, 8, 16, 32} \<and>
      4 * unat (ld_rxtsp_div d') * unat (sr_rx q) \<le> unat (ld_cgen_clk d') \<and> unat (ld_cgen_clk d') < 4 * (unat (ld_rxtsp_div d') + 1) * unat (sr_rx q) \<and>
      host_rate (ld_cgen_clk d') (ld_rxcgen_div d') (ld_rxtsp_div d') (ld_rx_host_decim d') = Inr (of_nat (unat (ld_cgen_clk d') div (4 * unat (ld_rxtsp_div d')))) \<and>
      lc_rxdiv (ld_lml_mode d') = ucast (tsp_div (sr_has q XSDR_LML_SISO_DDR_RX) (ucast (ld_rxtsp_div d')))"
    and "1 < sr_tx q \<longrightarrow> unat (ld_txtsp_div d') \<in> {1, 2, 4, 8, 16, 32} \<and>
      4 * unat (ld_txtsp_div d') * unat (sr_tx q) \<le> unat (ld_cgen_clk d') \<and> unat (ld_cgen_clk d') < 4 * (unat (ld_txtsp_div d') + 1) * unat (sr_tx q) \<and>
      host_rate (ld_cgen_clk d') (ld_txcgen_div d') (ld_txtsp_div d') (ld_tx_host_inter d') = Inr (of_nat (unat (ld_cgen_clk d') div (4 * unat (ld_txtsp_div d')))) \<and>
      lc_txdiv (ld_lml_mode d') = ucast (tsp_div (sr_has q XSDR_LML_SISO_DDR_TX) (ucast (ld_txtsp_div d')))"
proof -
  obtain i c rxdiv txdiv where p: "sr_plan q i = Inr (c, rxdiv, txdiv)" and c: "ld_cgen_clk d' = c"
    and v: "sr_dividers d' = (4, 4, ucast rxdiv, ucast txdiv, 1, 1)" and m: "ld_lml_mode d' = sr_conf q port rxdiv txdiv"
    using samplerate_result [OF assms(1)] by blast
  have dv: "rxdiv = sr_div c (sr_rx q)" "txdiv = sr_div c (sr_tx q)"
    "1 < sr_rx q \<Longrightarrow> rxdiv \<in> {1, 2, 4, 8, 16, 32}" "1 < sr_tx q \<Longrightarrow> txdiv \<in> {1, 2, 4, 8, 16, 32}"
    using p by (auto simp: sr_plan_def Let_def check_lime_decimation_def split: sum.splits if_splits)
  have b: "ucast (ucast x :: u8) = x" "unat (ucast x :: u8) = unat x" "unat x \<in> {1, 2, 4, 8, 16, 32}" if "x \<in> {1, 2, 4, 8, 16, 32}" for x :: u32
    using that by auto
  have z: "1 < sr_rx q \<Longrightarrow> 0 < sr_rx q" by (simp add: word_less_nat_alt)
  show "1 < sr_rx q \<longrightarrow> unat (ld_rxtsp_div d') \<in> {1, 2, 4, 8, 16, 32} \<and>
      4 * unat (ld_rxtsp_div d') * unat (sr_rx q) \<le> unat (ld_cgen_clk d') \<and> unat (ld_cgen_clk d') < 4 * (unat (ld_rxtsp_div d') + 1) * unat (sr_rx q) \<and>
      host_rate (ld_cgen_clk d') (ld_rxcgen_div d') (ld_rxtsp_div d') (ld_rx_host_decim d') = Inr (of_nat (unat (ld_cgen_clk d') div (4 * unat (ld_rxtsp_div d')))) \<and>
      lc_rxdiv (ld_lml_mode d') = ucast (tsp_div (sr_has q XSDR_LML_SISO_DDR_RX) (ucast (ld_rxtsp_div d')))"
  proof
    assume r: "1 < sr_rx q"
    note f = sr_div_floor [OF r dv(1)] and k = b [OF dv(3) [OF r]] and hr = host_rate_div [OF dv(3) [OF r], of c]
    have e: "ld_rxcgen_div d' = 4" "ld_rxtsp_div d' = ucast rxdiv" "ld_rx_host_decim d' = 1" using v by (simp_all add: sr_dividers_def)
    show "unat (ld_rxtsp_div d') \<in> {1, 2, 4, 8, 16, 32} \<and>
      4 * unat (ld_rxtsp_div d') * unat (sr_rx q) \<le> unat (ld_cgen_clk d') \<and> unat (ld_cgen_clk d') < 4 * (unat (ld_rxtsp_div d') + 1) * unat (sr_rx q) \<and>
      host_rate (ld_cgen_clk d') (ld_rxcgen_div d') (ld_rxtsp_div d') (ld_rx_host_decim d') = Inr (of_nat (unat (ld_cgen_clk d') div (4 * unat (ld_rxtsp_div d')))) \<and>
      lc_rxdiv (ld_lml_mode d') = ucast (tsp_div (sr_has q XSDR_LML_SISO_DDR_RX) (ucast (ld_rxtsp_div d')))"
      unfolding e c m k(1,2) using f k(3) hr z [OF r] by (simp add: sr_conf_def sr_rxtsp_def)
  qed
  show "1 < sr_tx q \<longrightarrow> unat (ld_txtsp_div d') \<in> {1, 2, 4, 8, 16, 32} \<and>
      4 * unat (ld_txtsp_div d') * unat (sr_tx q) \<le> unat (ld_cgen_clk d') \<and> unat (ld_cgen_clk d') < 4 * (unat (ld_txtsp_div d') + 1) * unat (sr_tx q) \<and>
      host_rate (ld_cgen_clk d') (ld_txcgen_div d') (ld_txtsp_div d') (ld_tx_host_inter d') = Inr (of_nat (unat (ld_cgen_clk d') div (4 * unat (ld_txtsp_div d')))) \<and>
      lc_txdiv (ld_lml_mode d') = ucast (tsp_div (sr_has q XSDR_LML_SISO_DDR_TX) (ucast (ld_txtsp_div d')))"
  proof
    assume r: "1 < sr_tx q"
    note f = sr_div_floor [OF r dv(2)] and k = b [OF dv(4) [OF r]] and hr = host_rate_div [OF dv(4) [OF r], of c]
    have e: "ld_txcgen_div d' = 4" "ld_txtsp_div d' = ucast txdiv" "ld_tx_host_inter d' = 1" using v by (simp_all add: sr_dividers_def)
    show "unat (ld_txtsp_div d') \<in> {1, 2, 4, 8, 16, 32} \<and>
      4 * unat (ld_txtsp_div d') * unat (sr_tx q) \<le> unat (ld_cgen_clk d') \<and> unat (ld_cgen_clk d') < 4 * (unat (ld_txtsp_div d') + 1) * unat (sr_tx q) \<and>
      host_rate (ld_cgen_clk d') (ld_txcgen_div d') (ld_txtsp_div d') (ld_tx_host_inter d') = Inr (of_nat (unat (ld_cgen_clk d') div (4 * unat (ld_txtsp_div d')))) \<and>
      lc_txdiv (ld_lml_mode d') = ucast (tsp_div (sr_has q XSDR_LML_SISO_DDR_TX) (ucast (ld_txtsp_div d')))"
      unfolding e c m k(1,2) using f k(3) hr r by (simp add: sr_conf_def sr_txtsp_def)
  qed
qed

text \<open>C19: setting the sample rates without clocks of their own for the converters, when it succeeds, leaves for each direction that
  is used a divider of the chip with which its rate does not fall below the one asked for, and the next greater divider would; for
  the direction that needs the faster clock (both, when they need the same) the rate is exactly that one. The rate that channels
  without a bandwidth of their own are given when a stream starts is the clock over four times the divider, and the port of the chip
  is set for the same dividers. On a chip whose oscillator locks for a band of capacitors, with a clock some even divider can give
  and no stream running, the clock generator of the chip is left locked at that clock, to within a step of its fraction.\<close>

theorem samplerate_exact:
  fixes E :: "lms_regs rfic_env"
  assumes "lms7002m_samplerate E q port (h, d) = (Inr (), (h', d'))"
    and "sr_adc q = 0" "sr_dac q = 0" "sr_rx q < 0x20000000" "sr_tx q < 0x20000000"
  shows "(1 < sr_rx q \<longrightarrow> unat (ld_rxtsp_div d') \<in> {1, 2, 4, 8, 16, 32} \<and>
      4 * unat (ld_rxtsp_div d') * unat (sr_rx q) \<le> unat (ld_cgen_clk d') \<and> unat (ld_cgen_clk d') < 4 * (unat (ld_rxtsp_div d') + 1) * unat (sr_rx q) \<and>
      (sr_min_tx q * sr_tx q * 4 \<le> sr_min_rx q * sr_rx q * 4 \<longrightarrow>
       host_rate (ld_cgen_clk d') (ld_rxcgen_div d') (ld_rxtsp_div d') (ld_rx_host_decim d') = Inr (sr_rx q)) \<and>
      host_rate (ld_cgen_clk d') (ld_rxcgen_div d') (ld_rxtsp_div d') (ld_rx_host_decim d') = Inr (of_nat (unat (ld_cgen_clk d') div (4 * unat (ld_rxtsp_div d')))) \<and>
      lc_rxdiv (ld_lml_mode d') = ucast (tsp_div (sr_has q XSDR_LML_SISO_DDR_RX) (ucast (ld_rxtsp_div d')))) \<and>
    (1 < sr_tx q \<longrightarrow> unat (ld_txtsp_div d') \<in> {1, 2, 4, 8, 16, 32} \<and>
      4 * unat (ld_txtsp_div d') * unat (sr_tx q) \<le> unat (ld_cgen_clk d') \<and> unat (ld_cgen_clk d') < 4 * (unat (ld_txtsp_div d') + 1) * unat (sr_tx q) \<and>
      (sr_min_rx q * sr_rx q * 4 \<le> sr_min_tx q * sr_tx q * 4 \<longrightarrow>
       host_rate (ld_cgen_clk d') (ld_txcgen_div d') (ld_txtsp_div d') (ld_tx_host_inter d') = Inr (sr_tx q)) \<and>
      host_rate (ld_cgen_clk d') (ld_txcgen_div d') (ld_txtsp_div d') (ld_tx_host_inter d') = Inr (of_nat (unat (ld_cgen_clk d') div (4 * unat (ld_txtsp_div d')))) \<and>
      lc_txdiv (ld_lml_mode d') = ucast (tsp_div (sr_has q XSDR_LML_SISO_DDR_TX) (ucast (ld_txtsp_div d')))) \<and>
    (\<forall>rd A B. re_bus E = lms_chip rd \<longrightarrow> tunable rd A B (ld_fref d) (ld_cgen_clk d') \<longrightarrow> (\<forall>i. \<not> ld_rx_run d i \<and> \<not> ld_tx_run d i) \<longrightarrow>
      cgen_made A B (ld_fref d) (ld_cgen_clk d') h')"
  using samplerate_rates [OF assms] samplerate_dividers [OF assms(1)] samplerate_made [OF assms(1)] by blast

lemma on_lms_run: "op (h, ld_lms d) = (r, (h', l)) \<Longrightarrow> on_lms op (h, d) = (r, (h', d\<lparr>ld_lms := l\<rparr>))"
  by (simp add: on_lms_def)

lemma configure_chip: "\<exists>h' l. lms7002m_limelight_configure (lms_chip rd) p (h, m) = (Inr (), (h', l))"
  unfolding lms7002m_limelight_configure_def by (rule send_chip_succeeds) (simp add: Let_def plain_regs lms_make_simps lms_wr_top lms_mac_back_def)

lemma cds_chip: "\<exists>h' l. lms7002m_cds_set (lms_chip rd) b (h, m) = (Inr (), (h', l))"
  unfolding lms7002m_cds_set_def by (rule post_chip_succeeds) (cases b; simp add: bit_iff_odd)

definition rfic_chip :: "lms_regs rfic_env" where
  "rfic_chip = \<lparr>re_bus = lms_chip band_rd, re_ant_sw = (\<lambda>_ _. dreturn ()), re_portcfg = (\<lambda>_ _ _. [0, 1, 2, 3]),
     re_rbb_def = (\<lambda>_ _. Inl (- EINVAL)), re_tbb_def = (\<lambda>_ _. Inl (- EINVAL)), re_ddiv = (\<lambda>a b. of_int a / of_int (uint b))\<rparr>"

text \<open>Steps that succeed on this chip while no stream runs.\<close>

definition idle :: "lms7002_dev \<Rightarrow> bool" where
  "idle d \<longleftrightarrow> ld_fref d = 40000000 \<and> (\<forall>i. \<not> ld_rx_run d i \<and> \<not> ld_tx_run d i)"

definition goes :: "('h, 'a) rfic \<Rightarrow> 'a \<Rightarrow> bool" where
  "goes op a \<longleftrightarrow> (\<forall>h d. idle d \<longrightarrow> (\<exists>h' d'. op (h, d) = (Inr a, (h', d')) \<and> idle d'))"

lemma goes_bind: "goes m a \<Longrightarrow> goes (k a) b \<Longrightarrow> goes (dbind m k) b"
  unfolding goes_def by (metis dev_simps(3))

lemma goes_seq: "goes m a \<Longrightarrow> goes k b \<Longrightarrow> goes (dseq m k) b"
  unfolding dseq_def by (rule goes_bind)

lemma goes_unit: "goes m () \<Longrightarrow> goes k () \<Longrightarrow> goes (dseq m k) ()"
  by (rule goes_seq)

lemma goes_basic: "goes (dreturn a) a" "(\<And>d. idle d \<Longrightarrow> idle (f d)) \<Longrightarrow> goes (dmod f) ()"
  by (auto simp: goes_def dmod_def)

lemma goes_get: "(\<And>d. idle d \<Longrightarrow> f d = a) \<Longrightarrow> goes (dget f) a"
  by (auto simp: goes_def)

lemma goes_lms: "(\<And>h m. \<exists>h' m'. op (h, m) = (Inr a, (h', m'))) \<Longrightarrow> goes (on_lms op) a"
  unfolding goes_def
proof (intro allI impI)
  fix h d assume o: "\<And>h m. \<exists>h' m'. op (h, m) = (Inr a, (h', m'))" and d: "idle d"
  obtain h' m' where "op (h, ld_lms d) = (Inr a, (h', m'))" using o by blast
  then show "\<exists>h' d'. on_lms op (h, d) = (Inr a, (h', d')) \<and> idle d'" using d by (simp add: on_lms_def idle_def)
qed

lemma goes_chip:
  "goes (on_lms (lms7002m_cgen_tune (re_bus rfic_chip) 40000000 80000000 2)) ()"
  "goes (on_lms (lms7002m_limelight_configure (re_bus rfic_chip) p)) ()" "goes (on_lms (lms7002m_cds_set (re_bus rfic_chip) b)) ()"
proof -
  show "goes (on_lms (lms7002m_cgen_tune (re_bus rfic_chip) 40000000 80000000 2)) ()"
  proof (rule goes_lms)
    fix h m show "\<exists>h' m'. lms7002m_cgen_tune (re_bus rfic_chip) 40000000 80000000 2 (h, m) = (Inr (), (h', m'))"
      using cgen_tune_chip [OF band_chip, of 14 80000000 40000000 2 h m] by (auto simp: rfic_chip_def)
  qed
  show "goes (on_lms (lms7002m_limelight_configure (re_bus rfic_chip) p)) ()" "goes (on_lms (lms7002m_cds_set (re_bus rfic_chip) b)) ()"
    using configure_chip cds_chip by (auto intro!: goes_lms simp: rfic_chip_def)
qed

lemma goes_try: "goes m a \<Longrightarrow> goes (dtry m) (Inr a)"
  unfolding goes_def dtry_def by (metis (mono_tags, lifting) old.prod.case)

lemma goes_tries: "goes (cgen_tries rfic_chip 80000000 4) True"
proof -
  have "goes (cgen_tries rfic_chip 80000000 (Suc n)) True" for n
    unfolding cgen_tries.simps
    by (rule goes_bind [OF goes_get [where a = 40000000]], simp add: idle_def, rule goes_bind [OF goes_try [OF goes_chip(1)]]) (simp add: goes_basic)
  from this [of 3] show ?thesis by (simp add: numeral_eq_Suc)
qed

lemma goes_update: "goes (tsp_update E tsp) ()"
  by (cases tsp) (auto simp: goes_def tsp_update_def any_run_def by_tsp_def idle_def)

lemma goes_bandwidths: "goes (dlist (map (sr_bandwidths E r t) [0, 1])) ()"
  by (auto simp: goes_def sr_bandwidths_def idle_def dseq_def dbind_def)

lemma goes_apply: "goes (sr_apply rfic_chip q c cfg b) ()"
  unfolding sr_apply_def by (intro goes_unit goes_basic goes_update goes_chip goes_bandwidths) (simp_all add: idle_def)

text \<open>Receive at 7, transmit at 10 million samples per second: the clock is that of the transmitter, and the receiver gets 10 too.\<close>

theorem samplerate_exact_witness:
  "\<forall>h0 d0. \<exists>h' d'. lms7002m_samplerate rfic_chip \<lparr>sr_rx = 7000000, sr_tx = 10000000, sr_adc = 0, sr_dac = 0, sr_flags = 0\<rparr> True
      (h0, d0\<lparr>ld_fref := 40000000, ld_rx_run := \<lambda>_. False, ld_tx_run := \<lambda>_. False\<rparr>) = (Inr (), (h', d')) \<and>
    host_rate (ld_cgen_clk d') (ld_txcgen_div d') (ld_txtsp_div d') (ld_tx_host_inter d') = Inr 10000000 \<and>
    4 * unat (ld_rxtsp_div d') * 7000000 \<le> unat (ld_cgen_clk d') \<and> cgen_made (\<lambda>_. 100) (\<lambda>_. 150) 40000000 80000000 h'"
proof (intro allI)
  fix h0 :: lms_regs and d0 :: lms7002_dev
  let ?q = "\<lparr>sr_rx = 7000000, sr_tx = 10000000, sr_adc = 0, sr_dac = 0, sr_flags = 0\<rparr>" and ?d = "d0\<lparr>ld_fref := 40000000, ld_rx_run := \<lambda>_. False, ld_tx_run := \<lambda>_. False\<rparr>"
  have pl: "sr_plan ?q 0 = Inr (80000000, 2, 2)"
    by (simp add: sr_plan_def sr_cgen_def sr_min_rx_def sr_min_tx_def sr_has_def sr_slow_def sr_div_def check_lime_decimation_def
      XSDR_LML_SISO_DDR_RX_def XSDR_LML_EXT_FIFOCLK_RX_def XSDR_LML_SISO_DDR_TX_def XSDR_LML_EXT_FIFOCLK_TX_def XSDR_SR_MAXCONVRATE_def)
  have ext: "\<not> sr_has ?q XSDR_SR_EXTENDED_CGEN" by (simp add: sr_has_def XSDR_SR_EXTENDED_CGEN_def)
  have idle_ok: "idle ?d" by (simp add: idle_def)
  have "goes (sr_clock rfic_chip ?q (if sr_has ?q XSDR_SR_EXTENDED_CGEN then [0, 1] else [0])) (80000000, 2, 2)"
    by (simp add: ext pl dlift_def) (auto intro!: goes_seq goes_bind [OF goes_basic(1)] goes_bind [OF goes_tries] goes_basic simp: idle_def)
  then obtain h1 d1 where k: "sr_clock rfic_chip ?q (if sr_has ?q XSDR_SR_EXTENDED_CGEN then [0, 1] else [0]) (h0, ?d) = (Inr (80000000, 2, 2), (h1, d1))"
    and "idle d1" unfolding goes_def using idle_ok by blast
  then obtain h' d' where a: "sr_apply rfic_chip ?q 80000000 (sr_conf ?q True 2 2) (sr_rxtsp ?q 2 = 1) (h1, d1) = (Inr (), (h', d'))"
    using goes_apply unfolding goes_def by blast
  then have r: "lms7002m_samplerate rfic_chip ?q True (h0, ?d) = (Inr (), (h', d'))"
    unfolding lms7002m_samplerate_def using k by (simp add: dbind_def)
  have c: "ld_cgen_clk d' = 80000000" using sr_apply_result [OF a] by blast
  have m: "sr_min_rx ?q = 2" "sr_min_tx ?q = 2"
    by (simp_all add: sr_min_rx_def sr_min_tx_def sr_has_def XSDR_LML_SISO_DDR_RX_def XSDR_LML_EXT_FIFOCLK_RX_def XSDR_LML_SISO_DDR_TX_def XSDR_LML_EXT_FIFOCLK_TX_def)
  have t: "tunable band_rd (\<lambda>_. 100) (\<lambda>_. 150) 40000000 80000000"
    unfolding tunable_def using band_chip by (intro conjI exI [of _ 14]) simp_all
  have bus: "re_bus rfic_chip = lms_chip band_rd" by (simp add: rfic_chip_def)
  note ok = samplerate_exact [OF r]
  show "\<exists>h' d'. lms7002m_samplerate rfic_chip \<lparr>sr_rx = 7000000, sr_tx = 10000000, sr_adc = 0, sr_dac = 0, sr_flags = 0\<rparr> True
      (h0, d0\<lparr>ld_fref := 40000000, ld_rx_run := \<lambda>_. False, ld_tx_run := \<lambda>_. False\<rparr>) = (Inr (), (h', d')) \<and>
    host_rate (ld_cgen_clk d') (ld_txcgen_div d') (ld_txtsp_div d') (ld_tx_host_inter d') = Inr 10000000 \<and>
    4 * unat (ld_rxtsp_div d') * 7000000 \<le> unat (ld_cgen_clk d') \<and> cgen_made (\<lambda>_. 100) (\<lambda>_. 150) 40000000 80000000 h'"
  proof (intro exI conjI)
    show "lms7002m_samplerate rfic_chip ?q True (h0, ?d) = (Inr (), (h', d'))" by (rule r)
    show "host_rate (ld_cgen_clk d') (ld_txcgen_div d') (ld_txtsp_div d') (ld_tx_host_inter d') = Inr 10000000"
      "4 * unat (ld_rxtsp_div d') * 7000000 \<le> unat (ld_cgen_clk d')" using ok by (simp_all add: m)
    have "cgen_made (\<lambda>_. 100) (\<lambda>_. 150) (ld_fref ?d) (ld_cgen_clk d') h'"
      using ok t bus c by simp
    then show "cgen_made (\<lambda>_. 100) (\<lambda>_. 150) 40000000 80000000 h'" by (simp add: c)
  qed
qed

section \<open>The selection of channels\<close>

definition rfic_synced :: "lms7002_dev \<Rightarrow> bool" where
  "rfic_synced d \<longleftrightarrow> lms_synced (ld_lms d)"

definition macs :: "lms7002_dev \<Rightarrow> u16 \<times> u16" where
  "macs d = (lm_reg_amac (ld_lms d), lm_reg_mac (ld_lms d))"

definition sync_inv :: "('h, 'a) rfic \<Rightarrow> bool" where
  "sync_inv op \<longleftrightarrow> (\<forall>s x s'. op s = (Inr x, s') \<longrightarrow> rfic_synced (snd s) \<longrightarrow> rfic_synced (snd s'))"

definition sync_end :: "('h, 'a) rfic \<Rightarrow> bool" where
  "sync_end op \<longleftrightarrow> (\<forall>s x s'. op s = (Inr x, s') \<longrightarrow> rfic_synced (snd s'))"

named_theorems sync_rules

lemma sync_keeps: "keeps macs op \<Longrightarrow> sync_inv op"
  unfolding keeps_def sync_inv_def rfic_synced_def lms_synced_def macs_def by (metis prod.inject)

lemma sync_endI: "sync_end op \<Longrightarrow> sync_inv op"
  by (simp add: sync_inv_def sync_end_def)

lemma sync_lms: "mac_inv op \<Longrightarrow> sync_inv (on_lms op)"
  unfolding mac_inv_def sync_inv_def on_lms_def rfic_synced_def by (fastforce split: prod.splits)

lemma sync_end_lms: "mac_end op \<Longrightarrow> sync_end (on_lms op)"
  unfolding mac_end_def sync_end_def on_lms_def rfic_synced_def by (fastforce split: prod.splits)

lemma keeps_still: "mac_still op \<Longrightarrow> keeps macs (on_lms op)"
  unfolding mac_still_def keeps_def on_lms_def macs_def by (fastforce split: prod.splits)

lemma sync_bind [sync_rules]: "sync_inv m \<Longrightarrow> (\<And>a. sync_inv (k a)) \<Longrightarrow> sync_inv (dbind m k)"
  unfolding sync_inv_def
proof (intro allI impI)
  fix s x s' assume m: "\<forall>s x s'. m s = (Inr x, s') \<longrightarrow> rfic_synced (snd s) \<longrightarrow> rfic_synced (snd s')"
    and k: "\<And>a. \<forall>s x s'. k a s = (Inr x, s') \<longrightarrow> rfic_synced (snd s) \<longrightarrow> rfic_synced (snd s')"
    and r: "dbind m k s = (Inr x, s')" "rfic_synced (snd s)"
  from r(1) show "rfic_synced (snd s')" by (cases rule: dbind_cases) (use m k r(2) in \<open>auto, blast\<close>)
qed

lemma sync_end_bind: "(\<And>a. sync_end (k a)) \<Longrightarrow> sync_end (dbind m k)"
  unfolding sync_end_def by (metis dbind_cases sum.simps(4))

lemma sync_end_first: "sync_end m \<Longrightarrow> (\<And>a. sync_inv (k a)) \<Longrightarrow> sync_end (dbind m k)"
  unfolding sync_end_def sync_inv_def by (metis dbind_cases sum.simps(4))

lemma sync_seq [sync_rules]: "sync_inv m \<Longrightarrow> sync_inv k \<Longrightarrow> sync_inv (dseq m k)"
  unfolding dseq_def by (rule sync_bind)

lemma sync_if [sync_rules]: "sync_inv m \<Longrightarrow> sync_inv k \<Longrightarrow> sync_inv (if b then m else k)"
  by simp

lemma keeps_mod_macs [keep_rules]: "(\<And>d. ld_lms (f d) = ld_lms d) \<Longrightarrow> keeps macs (dmod f)"
  by (rule keeps_mod) (simp add: macs_def)

lemma sync_basic [sync_rules]: "sync_inv (dreturn a)" "sync_inv (dfail e)" "sync_inv (dget g)" "sync_inv (dlift r)" "sync_inv (Pair (Inr b))"
  by (rule sync_keeps keep_rules)+

lemma sync_fail [sync_rules]: "sync_inv (Pair (Inl e))"
  by (simp add: sync_inv_def)

lemma sync_mod [sync_rules]: "(\<And>d. ld_lms (f d) = ld_lms d) \<Longrightarrow> sync_inv (dmod f)"
  by (rule sync_keeps) (rule keep_rules)

lemma sync_list: "(\<And>m. m \<in> set ms \<Longrightarrow> sync_inv m) \<Longrightarrow> sync_inv (dlist ms)"
  by (induction ms) (auto intro!: sync_rules)

lemma sync_void [sync_rules]: "sync_inv m \<Longrightarrow> sync_inv (dvoid m)"
  unfolding dvoid_def by (intro sync_rules)

lemma sync_calls [sync_rules]:
  "sync_inv (on_lms (lms7002m_mac_set bus mac))" "sync_inv (on_lms (lms7002m_rfe_path bus p rm))" "sync_inv (on_lms (lms7002m_trf_path bus p tm))"
  "sync_inv (on_lms (dvoid (lms7002m_trf_gain bus tg x)))" "sync_inv (on_lms (dvoid (lms7002m_rfe_gain bus rg x)))" "sync_inv (on_lms (lms7002m_rbb_pga bus g))"
  "sync_inv (on_lms (lms7002m_tbb_gain bus g))" "sync_inv (on_lms (lms7002m_sxx_tune bus path fref f lo))"
  "sync_inv (on_lms (lms7002m_xxtsp_cmix bus t fq))" "sync_inv (on_lms (lms7002m_limelight_map bus l1 l2))" "sync_inv (on_lms (lms7002m_afe_enable bus b1 b2 b3 b4))"
  "sync_inv (on_lms (lms7002m_xxtsp_int_dec bus t n))" "sync_inv (on_lms (lms7002m_xxtsp_enable bus t b))" "sync_inv (on_lms (lms7002m_rbb_path bus bp bm))"
  "sync_inv (on_lms (lms7002m_tbb_path bus up um))" "sync_inv (on_lms (lms7002m_rxtsp_dc_corr bus b w))"
  "sync_inv (on_lms (lms7002m_limelight_configure bus cfg))" "sync_inv (on_lms (lms7002m_dc_corr_en bus b1 b2 b3 b4))" "sync_inv (on_lms (lms7002m_cds_set bus b))"
  "sync_inv (on_lms (lms7002m_dc_corr bus p4 v))" "sync_inv (on_lms (lms7002m_xxtsp_iq_phcorr bus t ac))" "sync_inv (on_lms (lms7002m_xxtsp_iq_gcorr bus t ig qg))"
  "sync_inv (on_lms (lms7002m_xxtsp_gen bus t gn di dq))"
  by (rule sync_lms mac_inv_calls1 mac_inv_calls2 mac_inv_calls3 mac_inv_calls4 mac_inv_calls5 mac_end_inv [OF mac_end_sxx_tune])+

text \<open>A call whose value is used ends in the same state as one whose value is dropped.\<close>

lemma mac_inv_void: "mac_inv (dvoid m) \<Longrightarrow> mac_inv m"
  unfolding mac_inv_def dvoid_def dbind_def by (fastforce simp: dreturn_def split: prod.splits sum.splits)

lemma sync_gains [sync_rules]: "sync_inv (on_lms (lms7002m_trf_gain bus tg x))" "sync_inv (on_lms (lms7002m_rfe_gain bus rg x))"
  by (rule sync_lms [OF mac_inv_void [OF mac_inv_calls4(4)]] sync_lms [OF mac_inv_void [OF mac_inv_calls4(2)]])+

lemma still_filters:
  "mac_still (lms7002m_rbb_path bus p m)" "mac_still (lms7002m_rbb_lpf_raw bus l)" "mac_still (lms7002m_tbb_path bus p' m')" "mac_still (lms7002m_tbb_lpf_raw bus l)"
  unfolding mac_defs Let_def by (intro mac_rules mac_still_post mac_still_send; simp add: plain_regs)+

lemma keeps_bandwidth_macs [keep_rules]: "keeps macs (lms7002m_rbb_bandwidth E bw b)" "keeps macs (lms7002m_tbb_bandwidth E bw b)"
  unfolding lms7002m_rbb_bandwidth_def lms7002m_tbb_bandwidth_def Let_def by (intro keep_rules keeps_still still_filters)+

lemmas sync_bandwidth [sync_rules] = keeps_bandwidth_macs [THEN sync_keeps]

lemma sync_tries [sync_rules]: "sync_inv (cgen_tries E c n)"
proof -
  have "keeps macs (cgen_tries E c n)"
    by (induction n) (auto intro!: keep_rules keeps_still mac_still_cgen_tune split: sum.split)
  then show ?thesis by (rule sync_keeps)
qed

text \<open>The operations of the controller. Two are left out, which ignore a failing call: stopping a stream, and the frequency 0.\<close>

datatype rfic_call =
    R_set_gain u32 "rfic_lms7_gain_types option" int | R_fe_set_freq "rfic_lms7_tune_types option" rat
  | R_rfe_set_path rfic_lms7_rf_path | R_tfe_set_path rfic_lms7_rf_path | R_fe_set_lna u32 "rfic_lms7_rf_path option"
  | R_bb_set_badwidth u32 bool u32 | R_bb_set_freq u32 bool int | R_streaming_up u32 u16 u32 u16 u32
  | R_samplerate sr_req bool | R_set_lmlrx_mode u32 | R_set_corr_param int u32 int | R_set_tx_testsig int u32 u32

fun rfic_run :: "'h rfic_env \<Rightarrow> rfic_call \<Rightarrow> ('h, unit) rfic" where
  "rfic_run E (R_set_gain ch gt g) = dvoid (lms7002m_set_gain E ch gt g)"
| "rfic_run E (R_fe_set_freq t f) = (if f = 0 then dfail (- EINVAL) else dvoid (lms7002m_fe_set_freq E t f))"
| "rfic_run E (R_rfe_set_path p) = lms7002m_rfe_set_path E p"
| "rfic_run E (R_tfe_set_path p) = lms7002m_tfe_set_path E p"
| "rfic_run E (R_fe_set_lna ch p) = lms7002m_fe_set_lna E ch p"
| "rfic_run E (R_bb_set_badwidth ch tx bw) = dvoid (lms7002m_bb_set_badwidth E ch tx bw)"
| "rfic_run E (R_bb_set_freq ch tx f) = lms7002m_bb_set_freq E ch tx f"
| "rfic_run E (R_streaming_up dir rc rf tc tf) = lms7002m_streaming_up E dir rc rf tc tf"
| "rfic_run E (R_samplerate q p) = lms7002m_samplerate E q p"
| "rfic_run E (R_set_lmlrx_mode m) = lms7002m_set_lmlrx_mode E m"
| "rfic_run E (R_set_corr_param ch t v) = lms7002m_set_corr_param E ch t v"
| "rfic_run E (R_set_tx_testsig ch f p) = lms7002m_set_tx_testsig E ch f p"

text \<open>What the controller needs of a board: its antenna switch leaves the transceiver alone.\<close>

definition switch_apart :: "'h rfic_env \<Rightarrow> bool" where
  "switch_apart E \<longleftrightarrow> (\<forall>dir sw s x s'. re_ant_sw E dir sw s = (x, s') \<longrightarrow> ld_lms (snd s') = ld_lms (snd s))"

locale rfic_board =
  fixes E :: "'h rfic_env"
  assumes apart: "switch_apart E"
begin

lemma sync_switch: "sync_inv (re_ant_sw E dir sw)"
  using apart by (intro sync_keeps) (auto simp: keeps_def switch_apart_def macs_def)

lemma sync_lna: "sync_inv (lms7002m_set_lna_rx E i)" "sync_inv (lms7002m_set_lna_tx E i)"
  unfolding lms7002m_set_lna_rx_def lms7002m_set_lna_tx_def Let_def
  by (auto intro!: sync_rules sync_switch split: prod.split)

lemma sync_changed: "sync_inv (rx_lna_changed E)" "sync_inv (tx_lna_changed E)" "sync_inv (rx_lo_changed E)" "sync_inv (tx_lo_changed E)"
proof -
  show r: "sync_inv (rx_lna_changed E)" "sync_inv (tx_lna_changed E)"
    unfolding rx_lna_changed_def tx_lna_changed_def by (auto intro!: sync_rules sync_lna split: prod.split)
  show "sync_inv (rx_lo_changed E)" "sync_inv (tx_lo_changed E)" unfolding rx_lo_changed_def tx_lo_changed_def by (intro sync_rules r)+
qed

lemma sync_set_gain: "sync_inv (lms7002m_set_gain E ch gt g)"
  unfolding lms7002m_set_gain_def Let_def
  by (auto intro!: sync_rules split: option.split rfic_lms7_gain_types.split)

text \<open>A tuning that succeeds ends with the selection written back, whatever happened before.\<close>

lemma sync_set_freq: "f \<noteq> 0 \<Longrightarrow> sync_inv (lms7002m_fe_set_freq E t f)"
proof -
  assume f: "f \<noteq> 0"
  have tune: "sync_end (on_lms (lms7002m_sxx_tune b p r x t))" for b :: "'h bus" and p r x t by (rule sync_end_lms [OF mac_end_sxx_tune])
  show ?thesis
  proof (cases t)
    case None then show ?thesis by (simp add: lms7002m_fe_set_freq_def sync_rules)
  next
    case (Some ty)
    have "sync_end (lms7002m_fe_set_freq E (Some ty) f)"
      unfolding lms7002m_fe_set_freq_def Let_def option.case if_not_P [OF f] dseq_def
      by (intro sync_end_bind sync_end_first [OF tune]) (auto intro!: sync_rules sync_changed)
    then show ?thesis using Some sync_endI by blast
  qed
qed

lemma sync_paths: "sync_inv (lms7002m_rfe_set_path E p)" "sync_inv (lms7002m_tfe_set_path E p)"
proof -
  have lb: "sync_inv (lms7002m_lb_status_changes E)"
    unfolding lms7002m_lb_status_changes_def Let_def by (auto intro!: sync_rules sync_lna)
  show "sync_inv (lms7002m_rfe_set_path E p)"
    unfolding lms7002m_rfe_set_path_def by (auto intro!: sync_rules sync_lna lb split: option.split prod.split)
  show "sync_inv (lms7002m_tfe_set_path E p)"
    unfolding lms7002m_tfe_set_path_def Let_def by (cases p) (auto intro!: sync_rules sync_lna sync_changed split: option.split)
qed

lemma sync_channels: "sync_inv (bb_channels E tx bw js r)"
  by (induction js arbitrary: r) (auto intro!: sync_rules sync_keeps [OF keeps_try] keep_rules)

lemma sync_restore: "sync_inv (rx_restore E i)" "sync_inv (tx_restore E i)"
  unfolding rx_restore_def tx_restore_def by (auto intro!: sync_rules)

lemma sync_start: "sync_inv (rx_start E chs fl a b)" "sync_inv (tx_start E chs a b)"
  unfolding rx_start_def tx_start_def Let_def by (auto intro!: sync_rules sync_changed sync_lna sync_list sync_restore split: prod.split)

lemma sync_up: "sync_inv (lms7002m_streaming_up E dir rc rf tc tf)"
  unfolding lms7002m_streaming_up_def Let_def by (auto intro!: sync_rules sync_start split: prod.split)

lemma sync_clock: "sync_inv (sr_clock E q is)"
  by (induction "is") (auto intro!: sync_rules split: prod.split)

lemma sync_samplerate: "sync_inv (lms7002m_samplerate E q p)"
  unfolding lms7002m_samplerate_def sr_apply_def tsp_update_def sr_bandwidths_def Let_def
  by (auto intro!: sync_rules sync_clock sync_set_gain split: prod.split)

lemma sync_set_lna: "sync_inv (lms7002m_fe_set_lna E ch p)"
  unfolding lms7002m_fe_set_lna_def by (auto intro!: sync_rules sync_paths split: option.split)

lemma sync_baseband: "sync_inv (lms7002m_bb_set_badwidth E ch tx bw)" "sync_inv (lms7002m_bb_set_freq E ch tx fq)"
  unfolding lms7002m_bb_set_badwidth_def lms7002m_bb_set_freq_def prod.case_eq_if by (intro sync_rules sync_channels; simp)+

lemma sync_tests: "sync_inv (lms7002m_set_lmlrx_mode E md)" "sync_inv (lms7002m_set_tx_testsig E c fo pw)"
  unfolding lms7002m_set_lmlrx_mode_def lms7002m_set_tx_testsig_def Let_def by (auto intro!: sync_rules)

lemma sync_corr: "sync_inv (lms7002m_set_corr_param E c t v)"
  unfolding lms7002m_set_corr_param_def Let_def prod.case_eq_if by (intro sync_rules)

lemma sync_run: "sync_inv (rfic_run E c)"
  by (cases c) (simp_all add: sync_set_gain sync_set_freq sync_paths sync_set_lna sync_baseband sync_up sync_samplerate sync_tests sync_corr sync_rules)

lemma sync_runs: "sync_inv (dlist (map (rfic_run E) cs))"
  by (rule sync_list) (auto simp: sync_run)

end

text \<open>Calls of the controller that succeed, in any order and with any arguments, keep the transceiver with the channels active
  that the driver keeps, also where a filter of the first channel fails unseen and where a clock is tried again, when the
  antenna switch of the board leaves the transceiver alone.\<close>

theorem rfic_channels_kept:
  assumes "switch_apart E" and "rfic_synced d" and "dlist (map (rfic_run E) cs) (h, d) = (Inr (), (h', d'))"
  shows "rfic_synced d'"
proof -
  have "sync_inv (dlist (map (rfic_run E) cs))" using assms(1) by (intro rfic_board.sync_runs rfic_board.intro)
  then show ?thesis using assms(2,3) unfolding sync_inv_def by (metis snd_conv)
qed

theorem rfic_channels_kept_witness:
  "\<forall>h0 d0. \<exists>h' d'. dlist (map (rfic_run rfic_chip) [R_set_lmlrx_mode 1]) (h0, d0\<lparr>ld_lms := (ld_lms d0)\<lparr>lm_reg_amac := 3, lm_reg_mac := 3\<rparr>\<rparr>) =
    (Inr (), (h', d')) \<and> rfic_synced d'"
proof (intro allI)
  fix h0 :: lms_regs and d0 :: lms7002_dev
  let ?d = "d0\<lparr>ld_lms := (ld_lms d0)\<lparr>lm_reg_amac := 3, lm_reg_mac := 3\<rparr>\<rparr>"
  have ap: "switch_apart rfic_chip" by (simp add: switch_apart_def rfic_chip_def)
  have sy: "rfic_synced ?d" by (simp add: rfic_synced_def lms_synced_def)
  have "\<exists>h' d'. on_lms (lms7002m_limelight_configure (lms_chip band_rd) c) (h, d) = (Inr (), (h', d'))" for c h d
    using configure_chip [of band_rd c h "ld_lms d"] by (auto simp: on_lms_def)
  from this [of "(ld_lml_mode d0)\<lparr>lc_rx_tx_dig_loopback := True\<rparr>" h0 "?d\<lparr>ld_lml_mode := (ld_lml_mode d0)\<lparr>lc_rx_tx_dig_loopback := True\<rparr>\<rparr>"]
  obtain h' d' where "dlist (map (rfic_run rfic_chip) [R_set_lmlrx_mode 1]) (h0, ?d) = (Inr (), (h', d'))"
    by (auto simp: lms7002m_set_lmlrx_mode_def rfic_chip_def dseq_def dbind_def)
  with rfic_channels_kept [OF ap sy this] show "\<exists>h' d'. dlist (map (rfic_run rfic_chip) [R_set_lmlrx_mode 1]) (h0, d0\<lparr>ld_lms := (ld_lms d0)\<lparr>lm_reg_amac := 3, lm_reg_mac := 3\<rparr>\<rparr>) =
    (Inr (), (h', d')) \<and> rfic_synced d'"
    by blast
qed

section \<open>Where the code does something else\<close>

lemmas sr_eval = sr_plan_def sr_cgen_def sr_min_rx_def sr_min_tx_def sr_has_def sr_slow_def sr_div_def sr_ndiv_def sr_cgen_max_def check_lime_decimation_def
  LMS7_DECIM_MAX_def XSDR_LML_SISO_DDR_RX_def XSDR_LML_EXT_FIFOCLK_RX_def XSDR_LML_SISO_DDR_TX_def XSDR_LML_EXT_FIFOCLK_TX_def
  XSDR_SR_MAXCONVRATE_def XSDR_SR_EXTENDED_CGEN_def

text \<open>A clock at the limit is doubled once more: 640 MHz where 320 MHz is the limit.\<close>

lemma sr_overshoots: "sr_plan \<lparr>sr_rx = 20000000, sr_tx = 20000000, sr_adc = 0, sr_dac = 0, sr_flags = 1\<rparr> 0 = Inr (640000000, 8, 8)"
proof -
  have "cgen_grow 320000000 20000000 20000000 (Suc (Suc (Suc n))) 160000000 = Inr 640000000" for n
    by (simp add: sr_ndiv_def LMS7_DECIM_MAX_def)
  moreover have "(32 :: nat) = Suc (Suc (Suc 29))" by simp
  ultimately have "cgen_grow 320000000 20000000 20000000 32 160000000 = Inr 640000000" by metis
  then show ?thesis by (simp add: sr_eval)
qed

text \<open>A rate that does not divide the clock is accepted: 9 MHz are asked for and 10 MHz set.\<close>

lemma sr_other_rate: "sr_plan \<lparr>sr_rx = 10000000, sr_tx = 9000000, sr_adc = 0, sr_dac = 0, sr_flags = 0\<rparr> 0 = Inr (80000000, 2, 2)"
  by (simp add: sr_eval)

text \<open>Without a rate the search for the greatest clock does not end.\<close>

lemma sr_without_rates: "sr_plan \<lparr>sr_rx = 0, sr_tx = 0, sr_adc = 0, sr_dac = 0, sr_flags = 1\<rparr> 0 = Inl HANG"
  using cgen_grow_hangs [of 320000000 0 0 32] by (simp add: sr_eval)

text \<open>A gain of -10 dB is handed on as +10 dB, whose code is cut to 22 of 31, an attenuation of 34 dB.\<close>

lemma pad_gain_sign: "trf_pad_code (- 10 * - 10) = (- 10, 100)" "(of_int (- 10) AND mask 5 :: u32) = 22"
  by (simp_all add: trf_pad_code_def trf_atten_def mask_eq_exp_minus_1)

text \<open>Without interpolation the test signal is a division by 0.\<close>

lemma testsig_crash: "ld_txtsp_div d = 1 \<Longrightarrow> fst (lms7002m_set_tx_testsig E ch f p (h, d)) \<noteq> Inr ()"
  by (auto simp: lms7002m_set_tx_testsig_def Let_def dseq_def dbind_def split: prod.splits sum.splits)

text \<open>Before a sample rate is set a mixer frequency is a division by 0.\<close>

lemma nco_before_rate: "ld_rxcgen_div d = 0 \<Longrightarrow> ch \<in> {1, 2, 3} \<Longrightarrow> fst (lms7002m_bb_set_freq E ch False f (h, d)) = Inl CRASH_FPE"
  by (auto simp: lms7002m_bb_set_freq_def rfic_check_chan_def dlift_def dseq_def LMS7_CH_AB_def)

end
