(* ===== verification/Lms8001.thy ===== *)
theory Lms8001
  imports Complex_Main Lms7002mCalls
begin

text \<open>
  The driver of the LMS8001 up/down converter (\<open>src/lib/hw/lms8001/lms8001.c\<close>): the plan of its synthesizer, tuning
  with and without copies of its registers, channels, centring of the tuning voltage, loop filter and fast lock. A
  register of a profile is its address in profile 0 with the field of the record that holds its copy. The filter
  components and the offset current come from floating-point formulas and are arguments, as is the temperature of a reading.
\<close>

section \<open>Plan\<close>

definition LMS8_VCO1_MIN :: u64 where "LMS8_VCO1_MIN = 4100000000"
definition LMS8_VCO3_MAX :: u64 where "LMS8_VCO3_MAX = 10400000000"
definition LMS8_MIN_NIQ :: u64 where "LMS8_MIN_NIQ = 520000000"
definition LMS8_MAX_NIQ :: u64 where "LMS8_MAX_NIQ = 9110000000"
definition LMS8_MIN_IQ :: u64 where "LMS8_MIN_IQ = LMS8_MIN_NIQ div 2"
definition LMS8_MAX_IQ :: u64 where "LMS8_MAX_IQ = LMS8_MAX_NIQ div 2"

definition LMS8001_INT_MODE :: u32 where "LMS8001_INT_MODE = 1"
definition LMS8001_IQ_GEN :: u32 where "LMS8001_IQ_GEN = 2"
definition LMS8001_PDIV2 :: u32 where "LMS8001_PDIV2 = 4"
definition LMS8001_SELF_BIAS_XBUF :: u32 where "LMS8001_SELF_BIAS_XBUF = 0x10000"

definition l8_flag :: "u32 \<Rightarrow> u32 \<Rightarrow> bool" where
  "l8_flag flags f \<longleftrightarrow> flags AND f = f"

definition lms8001_check_lo_range :: "u64 \<Rightarrow> bool \<Rightarrow> int + unit" where
  "lms8001_check_lo_range flo geniq =
    (if geniq \<and> \<not> (flo \<ge> LMS8_MIN_IQ \<and> flo \<le> LMS8_MAX_IQ) then Inl (- EINVAL)
     else if \<not> geniq \<and> \<not> (flo \<ge> LMS8_MIN_IQ \<and> flo \<le> LMS8_MAX_NIQ) then Inl (- EINVAL)
     else if \<not> geniq \<and> (flo \<ge> LMS8_MIN_IQ \<and> flo \<le> LMS8_MIN_NIQ) then Inl (- EINVAL)
     else Inr ())"

text \<open>The first power of two that lifts the frequency above the least one of the oscillators.\<close>

primrec lms8001_vco_divi :: "u64 \<Rightarrow> nat list \<Rightarrow> (u64 \<times> nat) option" where
  "lms8001_vco_divi outfreq [] = None"
| "lms8001_vco_divi outfreq (d # ds) = (if outfreq * 2 ^ d > LMS8_VCO1_MIN then Some (outfreq * 2 ^ d, d) else lms8001_vco_divi outfreq ds)"

definition lms8001_calc_vco :: "u64 \<Rightarrow> int + u64 \<times> nat" where
  "lms8001_calc_vco outfreq =
    (if outfreq > LMS8_VCO3_MAX then Inl (- EINVAL)
     else case lms8001_vco_divi outfreq [0, 1, 2, 3] of None \<Rightarrow> Inl (- EINVAL) | Some r \<Rightarrow> Inr r)"

record lms8001_pll =
  pl_nint :: u32
  pl_nfrac :: u32
  pl_nfix :: u32

definition lms8001_calc_pll :: "u64 \<Rightarrow> u32 \<Rightarrow> u32 \<Rightarrow> int + lms8001_pll" where
  "lms8001_calc_pll fvco fref flags =
    (let fvco = (if l8_flag flags LMS8001_PDIV2 then fvco div 2 else fvco); r = ucast fref :: u64;
         nfix = (if l8_flag flags LMS8001_PDIV2 then 2 else 1)
     in if fref = 0 then Inl CRASH_FPE
        else if l8_flag flags LMS8001_INT_MODE then Inr \<lparr>pl_nint = ucast ((fvco + ucast (fref div 2)) div r), pl_nfrac = 0, pl_nfix = nfix\<rparr>
        else let n = ucast (fvco div r) :: u32
          in Inr \<lparr>pl_nint = n, pl_nfrac = ucast ((fvco - ucast n * r) * 2 ^ 20 div r), pl_nfix = nfix\<rparr>)"

section \<open>State and registers\<close>

record lms8001_pll_configuration =
  c8_VREG :: u16
  c8_XBUF :: u16
  c8_AUTO1 :: u16
  c8_AUTO2 :: u16
  c8_AUTO3 :: u16
  c8_CFG :: u16

record lms8001_pll_state =
  p8_ENABLE :: u16
  p8_LPF_CFG1 :: u16
  p8_LPF_CFG2 :: u16
  p8_CP_CFG0 :: u16
  p8_CP_CFG1 :: u16
  p8_VCO_FREQ :: u16
  p8_VCO_CFG :: u16
  p8_FF_CFG :: u16
  p8_SDM_CFG :: u16
  p8_FRACMODL :: u16
  p8_FRACMODH :: u16
  p8_LODIST_CFG :: u16
  p8_FLOCK_CFG1 :: u16
  p8_FLOCK_CFG2 :: u16
  p8_FLOCK_CFG3 :: u16

record lms8001_state =
  l8_lsaddr :: u32
  l8_chan_mask :: u32
  l8_act_profile :: nat
  l8_pll :: lms8001_pll_configuration
  l8_profiles :: "nat \<Rightarrow> lms8001_pll_state"

type_synonym ('h, 'a) l8 = "('h \<times> lms8001_state, 'a) dev"

text \<open>A register with a copy: its address, how the copy is read and how it is changed.\<close>

type_synonym creg = "u32 \<times> (lms8001_pll_configuration \<Rightarrow> u16) \<times> ((u16 \<Rightarrow> u16) \<Rightarrow> lms8001_pll_configuration \<Rightarrow> lms8001_pll_configuration)"
type_synonym preg = "u32 \<times> (lms8001_pll_state \<Rightarrow> u16) \<times> ((u16 \<Rightarrow> u16) \<Rightarrow> lms8001_pll_state \<Rightarrow> lms8001_pll_state)"

definition C8_VREG :: creg where "C8_VREG = (0x4000, c8_VREG, c8_VREG_update)"
definition C8_XBUF :: creg where "C8_XBUF = (0x4001, c8_XBUF, c8_XBUF_update)"
definition C8_AUTO1 :: creg where "C8_AUTO1 = (0x4003, c8_AUTO1, c8_AUTO1_update)"
definition C8_AUTO2 :: creg where "C8_AUTO2 = (0x4004, c8_AUTO2, c8_AUTO2_update)"
definition C8_AUTO3 :: creg where "C8_AUTO3 = (0x4005, c8_AUTO3, c8_AUTO3_update)"
definition C8_CFG :: creg where "C8_CFG = (0x400b, c8_CFG, c8_CFG_update)"

definition P8_ENABLE :: preg where "P8_ENABLE = (0x4100, p8_ENABLE, p8_ENABLE_update)"
definition P8_LPF_CFG1 :: preg where "P8_LPF_CFG1 = (0x4101, p8_LPF_CFG1, p8_LPF_CFG1_update)"
definition P8_LPF_CFG2 :: preg where "P8_LPF_CFG2 = (0x4102, p8_LPF_CFG2, p8_LPF_CFG2_update)"
definition P8_CP_CFG0 :: preg where "P8_CP_CFG0 = (0x4103, p8_CP_CFG0, p8_CP_CFG0_update)"
definition P8_CP_CFG1 :: preg where "P8_CP_CFG1 = (0x4104, p8_CP_CFG1, p8_CP_CFG1_update)"
definition P8_VCO_FREQ :: preg where "P8_VCO_FREQ = (0x4105, p8_VCO_FREQ, p8_VCO_FREQ_update)"
definition P8_VCO_CFG :: preg where "P8_VCO_CFG = (0x4106, p8_VCO_CFG, p8_VCO_CFG_update)"
definition P8_FF_CFG :: preg where "P8_FF_CFG = (0x4107, p8_FF_CFG, p8_FF_CFG_update)"
definition P8_SDM_CFG :: preg where "P8_SDM_CFG = (0x4108, p8_SDM_CFG, p8_SDM_CFG_update)"
definition P8_FRACMODL :: preg where "P8_FRACMODL = (0x4109, p8_FRACMODL, p8_FRACMODL_update)"
definition P8_FRACMODH :: preg where "P8_FRACMODH = (0x410a, p8_FRACMODH, p8_FRACMODH_update)"
definition P8_LODIST_CFG :: preg where "P8_LODIST_CFG = (0x410b, p8_LODIST_CFG, p8_LODIST_CFG_update)"
definition P8_FLOCK_CFG1 :: preg where "P8_FLOCK_CFG1 = (0x410c, p8_FLOCK_CFG1, p8_FLOCK_CFG1_update)"
definition P8_FLOCK_CFG2 :: preg where "P8_FLOCK_CFG2 = (0x410d, p8_FLOCK_CFG2, p8_FLOCK_CFG2_update)"
definition P8_FLOCK_CFG3 :: preg where "P8_FLOCK_CFG3 = (0x410e, p8_FLOCK_CFG3, p8_FLOCK_CFG3_update)"

definition C8_REGS :: "creg list" where "C8_REGS = [C8_VREG, C8_XBUF, C8_AUTO1, C8_AUTO2, C8_AUTO3, C8_CFG]"

definition P8_REGS :: "preg list" where
  "P8_REGS = [P8_ENABLE, P8_LPF_CFG1, P8_LPF_CFG2, P8_CP_CFG0, P8_CP_CFG1, P8_VCO_FREQ, P8_VCO_CFG, P8_FF_CFG, P8_SDM_CFG, P8_FRACMODL,
     P8_FRACMODH, P8_LODIST_CFG, P8_FLOCK_CFG1, P8_FLOCK_CFG2, P8_FLOCK_CFG3]"

text \<open>The layouts of registers that are composed, in the order of the arguments of their macros.\<close>

definition L8_ENABLE :: "field list" where "L8_ENABLE = [(12, 1), (11, 1), (10, 1), (9, 1), (8, 1), (7, 1), (6, 1), (5, 1), (4, 1), (3, 1), (2, 1), (1, 1), (0, 1)]"
definition L8_CFG :: "field list" where "L8_CFG = [(9, 1), (7, 2), (6, 1), (5, 1), (4, 1), (3, 1), (0, 3)]"
definition L8_AUTO0 :: "field list" where "L8_AUTO0 = [(12, 1), (11, 1), (9, 2), (8, 1), (0, 8)]"
definition L8_AUTO1 :: "field list" where "L8_AUTO1 = [(13, 1), (11, 2), (8, 3), (0, 8)]"
definition L8_AUTO2 :: "field list" where "L8_AUTO2 = [(8, 4), (0, 8)]"
definition L8_AUTO3 :: "field list" where "L8_AUTO3 = [(8, 8), (0, 8)]"
definition L8_LDO :: "field list" where "L8_LDO = [(10, 1), (9, 1), (8, 1), (0, 8)]"
definition L8_HLMIX :: "field list" where "L8_HLMIX = [(7, 7), (2, 5), (1, 1), (0, 1)]"
definition L8_PD0 :: "field list" where "L8_PD0 = [(7, 1), (6, 1), (5, 1), (4, 1), (3, 1), (2, 1), (1, 1), (0, 1)]"
definition L8_LNA :: "field list" where "L8_LNA = [(11, 5), (6, 5), (4, 2), (0, 4)]"
definition L8_VCO_CFG :: "field list" where "L8_VCO_CFG = [(12, 1), (11, 1), (9, 2), (7, 2), (0, 7)]"
definition L8_LODIST :: "field list" where
  "L8_LODIST = [(12, 4), (11, 1), (10, 1), (9, 1), (8, 1), (7, 1), (6, 1), (5, 1), (4, 1), (3, 1), (2, 1), (1, 1), (0, 1)]"

definition LMS_LDO_1P25 :: u32 where "LMS_LDO_1P25 = 101"

primrec lms8001_spi_post :: "'h bus \<Rightarrow> u32 list \<Rightarrow> ('h, unit) l8" where
  "lms8001_spi_post bus [] = dreturn ()"
| "lms8001_spi_post bus (r # rs) = dseq (dbind (dget l8_lsaddr) (\<lambda>a. on_hw (spi_tr32 bus a r))) (lms8001_spi_post bus rs)"

definition lms8001_spi_get :: "'h bus \<Rightarrow> u32 \<Rightarrow> ('h, u16) l8" where
  "lms8001_spi_get bus addr = dbind (dget l8_lsaddr) (\<lambda>a. dbind (on_hw (spi_tr32_rd bus a (push_bit 16 addr))) (\<lambda>w. dreturn (ucast w)))"

definition c8_get :: "creg \<Rightarrow> lms8001_state \<Rightarrow> u16" where
  "c8_get R m = fst (snd R) (l8_pll m)"

definition p8_get :: "preg \<Rightarrow> lms8001_state \<Rightarrow> u16" where
  "p8_get R m = fst (snd R) (l8_profiles m (l8_act_profile m))"

definition c8_upd :: "creg \<Rightarrow> (u16 \<Rightarrow> u16) \<Rightarrow> lms8001_state \<Rightarrow> lms8001_state" where
  "c8_upd R f m = m\<lparr>l8_pll := snd (snd R) f (l8_pll m)\<rparr>"

definition p8_upd :: "preg \<Rightarrow> (u16 \<Rightarrow> u16) \<Rightarrow> lms8001_state \<Rightarrow> lms8001_state" where
  "p8_upd R f m = m\<lparr>l8_profiles := (l8_profiles m)(l8_act_profile m := snd (snd R) f (l8_profiles m (l8_act_profile m)))\<rparr>"

definition p8_addr :: "nat \<Rightarrow> preg \<Rightarrow> u32" where
  "p8_addr n R = of_nat n * 0x10 + fst R"

text \<open>The words that write the copies.\<close>

definition c8_word :: "creg \<Rightarrow> lms8001_state \<Rightarrow> u32" where
  "c8_word R m = lms_wr (fst R) (ucast (c8_get R m))"

definition mk_pav :: "preg \<Rightarrow> lms8001_state \<Rightarrow> u32" where
  "mk_pav R m = lms_wr (p8_addr (l8_act_profile m) R) (ucast (p8_get R m))"

definition l8_sends :: "'h bus \<Rightarrow> (lms8001_state \<Rightarrow> u32) list \<Rightarrow> ('h, unit) l8" where
  "l8_sends bus ws = dbind (dget (\<lambda>m. map (\<lambda>w. w m) ws)) (lms8001_spi_post bus)"

text \<open>Fields of copies that are set one after the other.\<close>

definition c8_set :: "creg \<Rightarrow> (field \<times> u16) list \<Rightarrow> ('h, unit) l8" where
  "c8_set R fs = dmod (c8_upd R (fold (\<lambda>(f, v). fset f v) fs))"

definition p8_set :: "preg \<Rightarrow> (field \<times> u16) list \<Rightarrow> ('h, unit) l8" where
  "p8_set R fs = dmod (p8_upd R (fold (\<lambda>(f, v). fset f v) fs))"

section \<open>Start and channels\<close>

definition l8_ldo :: "u32 \<Rightarrow> u32 \<Rightarrow> u32" where
  "l8_ldo addr en = lms_make (addr, L8_LDO) [0, 0, en, LMS_LDO_1P25]"

definition l8_chan :: "u32 \<Rightarrow> nat \<Rightarrow> u32" where
  "l8_chan chmask i = drop_bit i chmask AND 1"

definition lms8001_ch_enable :: "'h bus \<Rightarrow> u32 \<Rightarrow> ('h, unit) l8" where
  "lms8001_ch_enable bus chmask = dseq (dmod (\<lambda>m. m\<lparr>l8_chan_mask := chmask\<rparr>))
     (lms8001_spi_post bus
       (map (\<lambda>i. l8_ldo (0x0011 + of_nat i) (l8_chan chmask i)) [0..<4] @ map (\<lambda>i. l8_ldo (0x0015 + of_nat i) (l8_chan chmask i)) [0..<4] @
        map (\<lambda>i. lms_make (0x2000 + 0x10 * of_nat i, L8_HLMIX) [64, 16, of_bool (l8_chan chmask i = 0), of_bool (l8_chan chmask i = 0)]) [0..<4]))"

text \<open>The power-down bits of a channel: a loss of \<open>~0\<close> means that the amplifier is bypassed.\<close>

definition l8_pd0 :: "u32 \<Rightarrow> bool \<Rightarrow> u32 \<Rightarrow> u32 \<Rightarrow> u32" where
  "l8_pd0 addr off lna_loss pa_loss =
    (let lna_bp = (lna_loss = 0xffffffff); pa_bp = (pa_loss = 0xffffffff)
     in lms_make (addr, L8_PD0) [0, of_bool pa_bp, of_bool (pa_bp \<or> off), of_bool (\<not> lna_bp \<or> off), 1, of_bool (lna_bp \<or> off), 1, of_bool (lna_bp \<or> off)])"

definition lms8001a_ch_enable :: "'h bus \<Rightarrow> u32 \<Rightarrow> (nat \<Rightarrow> u32) \<Rightarrow> (nat \<Rightarrow> u32) \<Rightarrow> ('h, unit) l8" where
  "lms8001a_ch_enable bus chmask lna_loss pa_loss = dseq (dmod (\<lambda>m. m\<lparr>l8_chan_mask := chmask\<rparr>))
     (lms8001_spi_post bus
       (map (\<lambda>i. l8_ldo (0x0011 + of_nat i) (l8_chan chmask i)) [0..<4] @ map (\<lambda>i. l8_ldo (0x0015 + of_nat i) (l8_chan chmask i)) [0..<4] @
        map (\<lambda>i. l8_pd0 (0x1004 + 0x20 * of_nat i) (l8_chan chmask i = 0) (lna_loss i) (pa_loss i)) [0..<4] @
        map (\<lambda>i. lms_make (0x1008 + 0x20 * of_nat i, L8_LNA) [16, 16, 10, lna_loss i]) [0..<4] @
        map (\<lambda>i. lms_make (0x100c + 0x20 * of_nat i, [(4, 4), (0, 4)]) [pa_loss i, pa_loss i]) [0..<4]))"

definition lms8001a_ch_lna_pa_set :: "'h bus \<Rightarrow> u32 \<Rightarrow> u32 \<Rightarrow> u32 \<Rightarrow> ('h, unit) l8" where
  "lms8001a_ch_lna_pa_set bus chan lna_loss pa_loss =
    (if chan \<ge> 4 then dfail (- EINVAL)
     else let off = push_bit 16 (0x20 * chan)
       in lms8001_spi_post bus [l8_pd0 0x1004 False lna_loss pa_loss + off, lms_make (0x1008, L8_LNA) [16, 16, 10, lna_loss] + off,
            lms_make (0x100c, [(4, 4), (0, 4)]) [pa_loss, pa_loss] + off])"

definition lms8001b_hlmix_loss_set :: "'h bus \<Rightarrow> u32 \<Rightarrow> u32 \<Rightarrow> ('h, unit) l8" where
  "lms8001b_hlmix_loss_set bus chan loss =
    (if chan \<ge> 4 then dfail (- EINVAL)
     else lms8001_spi_post bus [lms_make (0x2004, [(2, 4), (0, 2)]) [loss, 0] + push_bit 16 (0x10 * chan)])"

definition l8_core :: "u32 \<Rightarrow> u32 list" where
  "l8_core en = [l8_ldo 0x001a en, l8_ldo 0x001b en, l8_ldo 0x001c en]"

definition lms8001_core_enable :: "'h bus \<Rightarrow> bool \<Rightarrow> ('h, unit) l8" where
  "lms8001_core_enable bus en = lms8001_spi_post bus (l8_core (of_bool en))"

definition l8_vreg :: u32 where "l8_vreg = lms_make (0x4000, [(11, 1), (10, 1), (9, 1), (8, 1), (0, 8)]) [1, 0, 1, 1, 32]"
definition l8_xbuf :: u32 where "l8_xbuf = lms_make (0x4001, [(2, 1), (1, 1), (0, 1)]) [1, 0, 1]"

definition l8_zero :: lms8001_pll_configuration where
  "l8_zero = \<lparr>c8_VREG = 0, c8_XBUF = 0, c8_AUTO1 = 0, c8_AUTO2 = 0, c8_AUTO3 = 0, c8_CFG = 0\<rparr>"

definition l8_zero_profile :: lms8001_pll_state where
  "l8_zero_profile = \<lparr>p8_ENABLE = 0, p8_LPF_CFG1 = 0, p8_LPF_CFG2 = 0, p8_CP_CFG0 = 0, p8_CP_CFG1 = 0, p8_VCO_FREQ = 0, p8_VCO_CFG = 0, p8_FF_CFG = 0,
     p8_SDM_CFG = 0, p8_FRACMODL = 0, p8_FRACMODH = 0, p8_LODIST_CFG = 0, p8_FLOCK_CFG1 = 0, p8_FLOCK_CFG2 = 0, p8_FLOCK_CFG3 = 0\<rparr>"

definition c8_load :: "'h bus \<Rightarrow> creg \<Rightarrow> ('h, unit) l8" where
  "c8_load bus R = dbind (lms8001_spi_get bus (fst R)) (\<lambda>v. dmod (c8_upd R (\<lambda>_. v)))"

definition p8_load :: "'h bus \<Rightarrow> preg \<Rightarrow> ('h, unit) l8" where
  "p8_load bus R = dbind (lms8001_spi_get bus (fst R)) (\<lambda>v. dmod (\<lambda>m. m\<lparr>l8_profiles := (l8_profiles m)(0 := snd (snd R) (\<lambda>_. v) (l8_profiles m 0))\<rparr>))"

definition lms8001_create :: "'h bus \<Rightarrow> u32 \<Rightarrow> ('h, unit) l8" where
  "lms8001_create bus lsaddr =
    dseq (dmod (\<lambda>m. m\<lparr>l8_lsaddr := lsaddr, l8_chan_mask := 0, l8_act_profile := 0,
        l8_pll := l8_zero\<lparr>c8_VREG := ucast l8_vreg, c8_XBUF := ucast l8_xbuf\<rparr>, l8_profiles := \<lambda>_. l8_zero_profile\<rparr>))
     (dseq (lms8001_spi_post bus (lms_make (0, [(6, 1), (5, 1), (4, 1), (3, 1), (2, 1), (1, 1), (0, 1)]) [1, 1, 1, 1, 1, 1, 1] # l8_core 1 @
        [l8_vreg, l8_xbuf, lms_make (0x4100, L8_ENABLE) [1, 0, 1, 1, 1, 1, 1, 1, 0, 0, 1, 1, 1]]))
     (dseq (lms8001_ch_enable bus 0xff)
     (dseq (dlist (map (c8_load bus) [C8_AUTO1, C8_AUTO2, C8_AUTO3, C8_CFG]))
       (dlist (map (p8_load bus) P8_REGS)))))"

section \<open>Tuning without copies\<close>

definition l8_fcal :: "u16 \<Rightarrow> (u16 \<times> u16) option" where
  "l8_fcal rb = (if fget (12, 1) rb = 0 \<and> fget (11, 1) rb = 1 \<and> fget (8, 1) rb = 1 then Some (fget (9, 2) rb, fget (0, 8) rb) else None)"

definition l8_tune_regs :: "lms8001_pll \<Rightarrow> u32 \<Rightarrow> u32 \<Rightarrow> u32 list" where
  "l8_tune_regs pll divi chmask =
    [lms_make (0x4101, [(12, 4), (8, 4), (4, 4), (0, 4)]) [1, 1, 8, 8],
     lms_make (0x4102, [(5, 2), (4, 1), (0, 4)]) [1, 0, 8],
     lms_make (0x4103, [(14, 1), (12, 2), (6, 6), (0, 6)]) [0, 0, 2, 1],
     lms_make (0x4104, [(5, 2), (0, 5)]) [2, 5],
     lms_make (0x4106, L8_VCO_CFG) [0, 1, 2, 3, 1],
     lms_make (0x4107, [(4, 1), (2, 2), (0, 2)]) [if divi = 0 then 0 else 1, divi, divi],
     lms_make (0x4108, [(14, 1), (13, 1), (12, 1), (11, 1), (0, 10)]) [if pl_nfrac pll = 0 then 1 else 0, 1, 0, 0, pl_nint pll],
     lms_make (0x4109, [(0, 16)]) [pl_nfrac pll],
     lms_make (0x410a, [(0, 4)]) [drop_bit 16 (pl_nfrac pll)],
     lms_make (0x400b, L8_CFG) [0, 3, 0, 1, 1, 0, 0],
     lms_make (0x400b, L8_CFG) [1, 3, 0, 1, 1, 0, 0],
     lms_make (0x4003, L8_AUTO1) [0, 2, 7, 0],
     lms_make (0x4004, L8_AUTO2) [4, 128],
     lms_make (0x4005, L8_AUTO3) [250, 5],
     lms_make (0x4100, L8_ENABLE) [1, 0, 1, 1, 1, 1, 1, 1, if divi = 0 then 0 else 1, 0, 1, 1, 1],
     lms_make (0x4002, L8_AUTO0) [1, 0, 0, 0, 0],
     lms_make (0x410b, L8_LODIST) [chmask, 1, 0, 0, 1, 0, 0, 1, 0, 0, 1, 0, 0]]"

definition lms8001_tune :: "'h bus \<Rightarrow> u32 \<Rightarrow> u64 \<Rightarrow> ('h, unit) l8" where
  "lms8001_tune bus fref out =
    (case lms8001_calc_vco out of Inl e \<Rightarrow> dfail e
     | Inr (fvco, divi) \<Rightarrow> case lms8001_calc_pll fvco fref 0 of Inl e \<Rightarrow> dfail e
     | Inr pll \<Rightarrow> if pl_nint pll > 1023 then dfail (- EINVAL)
       else dseq (dbind (dget (\<lambda>m. l8_tune_regs pll (of_nat divi) (l8_chan_mask m))) (lms8001_spi_post bus))
         (dbind (lms8001_spi_get bus 0x4002) (\<lambda>rb. case l8_fcal rb of None \<Rightarrow> dfail (- ERANGE)
           | Some (cal_vco, cal_freq) \<Rightarrow> lms8001_spi_post bus
              [lms_make (0x4106, L8_VCO_CFG) [0, 1, 2, ucast cal_vco, 1], lms_make (0x4105, [(0, 8)]) [ucast cal_freq],
               lms_make (0x400b, L8_CFG) [1, 3, 0, 0, 1, 0, 0]])))"

definition lms8001_destroy :: "('h, unit) l8" where
  "lms8001_destroy = dreturn ()"

section \<open>Tuning with copies\<close>

record lms80001_tune_settings =
  ts_vtune_vct :: u16
  ts_vco_sel_force :: u32
  ts_vco_sel_init :: u32
  ts_freq_init_pos :: u32
  ts_freq_init :: u32
  ts_freq_settling_N :: u32
  ts_vtune_wait_N :: u32
  ts_vco_sel_freq_max :: u32
  ts_vco_sel_freq_min :: u32

definition lms80001_tune_settings_def :: lms80001_tune_settings where
  "lms80001_tune_settings_def = \<lparr>ts_vtune_vct = 1, ts_vco_sel_force = 0, ts_vco_sel_init = 2, ts_freq_init_pos = 7, ts_freq_init = 0,
     ts_freq_settling_N = 4, ts_vtune_wait_N = 128, ts_vco_sel_freq_max = 250, ts_vco_sel_freq_min = 5\<rparr>"

text \<open>The number the oscillator frequency is of the reference.\<close>

definition l8_ratio :: "lms8001_pll \<Rightarrow> rat" where
  "l8_ratio pll = of_nat (unat (pl_nfix pll)) * (of_nat (unat (pl_nint pll)) + of_nat (unat (pl_nfrac pll)) / 2 ^ 20)"

definition l8_cfg_with :: "(u16 \<Rightarrow> u16) \<Rightarrow> lms8001_state \<Rightarrow> u32" where
  "l8_cfg_with f m = lms_wr (fst C8_CFG) (ucast (f (c8_get C8_CFG m)))"

definition lms8001_vco_tune :: "'h bus \<Rightarrow> u64 \<Rightarrow> u32 \<Rightarrow> u32 \<Rightarrow> lms80001_tune_settings \<Rightarrow> ('h, rat) l8" where
  "lms8001_vco_tune bus fvco fref flags s =
    (case lms8001_calc_pll fvco fref flags of Inl e \<Rightarrow> dfail e
     | Inr pll \<Rightarrow> let int_mode = l8_flag flags LMS8001_INT_MODE in
        dseq (c8_set C8_VREG [((11, 1), 1)])
       (dseq (c8_set C8_XBUF [((0, 1), 1), ((2, 1), of_bool (l8_flag flags LMS8001_SELF_BIAS_XBUF))])
       (dseq (p8_set P8_ENABLE [((10, 1), 1), ((9, 1), 1), ((8, 1), 1), ((7, 1), 1), ((5, 1), 1), ((4, 1), 1), ((1, 1), 1),
          ((3, 1), of_bool (l8_flag flags LMS8001_PDIV2)), ((0, 1), of_bool (\<not> int_mode))])
       (dseq (p8_set P8_LPF_CFG2 [((5, 2), ts_vtune_vct s)])
       (dseq (p8_set P8_SDM_CFG [((14, 1), of_bool int_mode), ((0, 10), ucast (pl_nint pll))])
       (dseq (p8_set P8_FRACMODL [((0, 16), ucast (pl_nfrac pll))])
       (dseq (p8_set P8_FRACMODH [((0, 4), ucast (drop_bit 16 (pl_nfrac pll)))])
       (dseq (c8_set C8_CFG [((9, 1), 1), ((7, 2), 3)])
       (dseq (dmod (c8_upd C8_AUTO1 (\<lambda>_. ucast (lms_make (fst C8_AUTO1, L8_AUTO1) [ts_vco_sel_force s, ts_vco_sel_init s, ts_freq_init_pos s, ts_freq_init s]))))
       (dseq (dmod (c8_upd C8_AUTO2 (\<lambda>_. ucast (lms_make (fst C8_AUTO2, L8_AUTO2) [ts_freq_settling_N s, ts_vtune_wait_N s]))))
       (dseq (dmod (c8_upd C8_AUTO3 (\<lambda>_. ucast (lms_make (fst C8_AUTO3, L8_AUTO3) [ts_vco_sel_freq_max s, ts_vco_sel_freq_min s]))))
       (dseq (l8_sends bus [c8_word C8_VREG, c8_word C8_XBUF, mk_pav P8_ENABLE, mk_pav P8_LPF_CFG2, mk_pav P8_SDM_CFG, mk_pav P8_FRACMODL,
          mk_pav P8_FRACMODH, l8_cfg_with (\<lambda>v. v AND NOT (2 ^ 9)), c8_word C8_CFG, l8_cfg_with (\<lambda>v. v OR 2 ^ 5), c8_word C8_AUTO1,
          c8_word C8_AUTO2, c8_word C8_AUTO3, \<lambda>_. lms_make (0x4002, L8_AUTO0) [1, 0, 0, 0, 0]])
        (dbind (lms8001_spi_get bus 0x4002) (\<lambda>rb. case l8_fcal rb of None \<Rightarrow> dfail (- ERANGE)
          | Some (vco, freq) \<Rightarrow>
             dseq (p8_set P8_VCO_CFG [((7, 2), vco)]) (dseq (p8_set P8_VCO_FREQ [((0, 8), freq)])
              (dseq (l8_sends bus [mk_pav P8_VCO_CFG, mk_pav P8_VCO_FREQ, c8_word C8_CFG])
                (dreturn (of_nat (unat fref) * l8_ratio pll))))))))))))))))))"

text \<open>The high and the low comparator of the tuning voltage, and the lock.\<close>

definition lms8001_lock_status :: "'h bus \<Rightarrow> ('h, bool \<times> bool \<times> bool) l8" where
  "lms8001_lock_status bus = dbind (lms8001_spi_get bus 0x400c) (\<lambda>rb. dreturn (bit rb 2, bit rb 1, bit rb 0))"

definition l8_centred :: "'h bus \<Rightarrow> ('h, bool) l8" where
  "l8_centred bus = dbind (lms8001_lock_status bus) (\<lambda>(high, low, lock). dreturn (\<not> high \<and> \<not> low))"

definition lms8001_change_pll_vco_cfg :: "'h bus \<Rightarrow> u64 \<Rightarrow> u32 \<Rightarrow> u32 \<Rightarrow> lms80001_tune_settings \<Rightarrow> ('h, bool) l8" where
  "lms8001_change_pll_vco_cfg bus fvco fref flags s =
    dseq (l8_sends bus [mk_pav P8_VCO_CFG]) (dseq (dvoid (lms8001_vco_tune bus fvco fref flags s)) (l8_centred bus))"

text \<open>Values of a field are tried, but for the one that was there.\<close>

primrec l8_try :: "'h bus \<Rightarrow> u64 \<Rightarrow> u32 \<Rightarrow> u32 \<Rightarrow> lms80001_tune_settings \<Rightarrow> (u16 \<Rightarrow> ('h, unit) l8) \<Rightarrow> u16 \<Rightarrow> u16 list \<Rightarrow> ('h, bool) l8" where
  "l8_try bus fvco fref flags s put v0 [] = dreturn False"
| "l8_try bus fvco fref flags s put v0 (v # vs) =
    (if v = v0 then l8_try bus fvco fref flags s put v0 vs
     else dseq (put v) (dbind (lms8001_change_pll_vco_cfg bus fvco fref flags s) (\<lambda>ok. if ok then dreturn True else l8_try bus fvco fref flags s put v0 vs)))"

definition l8_put_swvdd :: "u16 \<Rightarrow> ('h, unit) l8" where
  "l8_put_swvdd v = p8_set P8_VCO_CFG [((9, 2), v)]"

definition l8_put_amp :: "u16 \<Rightarrow> ('h, unit) l8" where
  "l8_put_amp v = p8_set P8_VCO_CFG [((0, 7), v), ((11, 1), 1)]"

definition l8_centre :: "'h bus \<Rightarrow> u64 \<Rightarrow> u32 \<Rightarrow> u32 \<Rightarrow> lms80001_tune_settings \<Rightarrow> u16 \<Rightarrow> u16 \<Rightarrow> ('h, bool) l8" where
  "l8_centre bus fvco fref flags s vcocfg freq =
    dbind (l8_try bus fvco fref flags s l8_put_swvdd (fget (9, 2) vcocfg) [3, 2, 1, 0]) (\<lambda>ok. if ok then dreturn True
     else dseq (p8_set P8_VCO_CFG [((9, 2), fget (9, 2) vcocfg)]) (dseq (p8_set P8_VCO_FREQ [((0, 8), freq)])
      (dseq (l8_sends bus [mk_pav P8_VCO_CFG, mk_pav P8_VCO_FREQ])
        (l8_try bus fvco fref flags s l8_put_amp (fget (0, 7) vcocfg) [3, 2, 1, 0]))))"

text \<open>A centring that fails puts everything back and looks once more.\<close>

definition lms8001_center_vtune :: "'h bus \<Rightarrow> u64 \<Rightarrow> u32 \<Rightarrow> u32 \<Rightarrow> ('h, unit) l8" where
  "lms8001_center_vtune bus fvco fref flags = dbind (dget (\<lambda>m. (p8_get P8_VCO_CFG m, fget (0, 8) (p8_get P8_VCO_FREQ m), c8_get C8_AUTO1 m))) (\<lambda>(vcocfg, freq, auto1).
     let s = lms80001_tune_settings_def\<lparr>ts_vtune_vct := 1, ts_vco_sel_force := 1, ts_freq_init_pos := 4, ts_vco_sel_init := ucast (fget (7, 2) vcocfg), ts_freq_init := ucast freq\<rparr> in
     dseq (l8_sends bus [l8_cfg_with (\<lambda>v. v AND NOT (2 ^ 9)), l8_cfg_with (\<lambda>v. v OR 2 ^ 9)])
      (dbind (l8_centred bus) (\<lambda>ok. if ok then dreturn ()
        else dbind (l8_centre bus fvco fref flags s vcocfg freq) (\<lambda>ok. if \<not> ok
          then dseq (p8_set P8_VCO_CFG [((0, 7), fget (0, 7) vcocfg), ((11, 1), fget (11, 1) vcocfg)]) (dseq (p8_set P8_VCO_FREQ [((0, 8), freq)])
            (dseq (l8_sends bus [mk_pav P8_VCO_CFG, mk_pav P8_VCO_FREQ])
              (dbind (l8_centred bus) (\<lambda>ok. if ok then dreturn () else dfail (- ERANGE)))))
          else dseq (c8_set C8_AUTO1 [((13, 1), fget (13, 1) auto1), ((11, 2), fget (11, 2) auto1), ((8, 3), fget (8, 3) auto1), ((0, 8), fget (0, 8) auto1)])
            (l8_sends bus [c8_word C8_AUTO1])))))"

section \<open>Loop filter, charge pump and fast lock\<close>

definition lms8001_pll_set_lpf :: "'h bus \<Rightarrow> int \<times> int \<times> int \<times> int \<times> int \<Rightarrow> ('h, unit) l8" where
  "lms8001_pll_set_lpf bus v = (case v of (C1, C2, R2, C3, R3) \<Rightarrow>
     dseq (p8_set P8_LPF_CFG1 [((12, 4), of_int R3), ((8, 4), of_int R2), ((4, 4), of_int C2), ((0, 4), of_int C1)])
      (dseq (p8_set P8_LPF_CFG2 [((0, 4), of_int C3)]) (l8_sends bus [mk_pav P8_LPF_CFG1, mk_pav P8_LPF_CFG2])))"

definition lms8001_pll_set_cp :: "'h bus \<Rightarrow> int \<Rightarrow> int \<Rightarrow> int \<Rightarrow> ('h, unit) l8" where
  "lms8001_pll_set_cp bus PULSE OFS ICT_CP =
    dseq (p8_set P8_CP_CFG0 [((6, 6), of_int PULSE), ((0, 6), of_int OFS)])
     (dseq (p8_set P8_CP_CFG1 [((0, 5), of_int ICT_CP)])
     (dseq (p8_set P8_ENABLE [((6, 1), of_bool (OFS \<ge> 1))]) (l8_sends bus [mk_pav P8_CP_CFG0, mk_pav P8_CP_CFG1, mk_pav P8_ENABLE])))"

text \<open>The codes of the filter for the oscillator, its setting, the current, the pulse and the ratio, where all of them can be built; the
  offset current for a current and a pulse.\<close>

record l8_analog =
  an_filter :: "u16 \<Rightarrow> u16 \<Rightarrow> u16 \<Rightarrow> int \<Rightarrow> rat \<Rightarrow> (int \<times> int \<times> int \<times> int \<times> int) option"
  an_ofs :: "u16 \<Rightarrow> u16 \<Rightarrow> int"

definition l8_first_filter :: "l8_analog \<Rightarrow> u16 \<Rightarrow> u16 \<Rightarrow> u16 \<Rightarrow> rat \<Rightarrow> (int \<times> int \<times> int \<times> int \<times> int \<times> int) option" where
  "l8_first_filter A sel freq ict N = map_option (\<lambda>p. (p, the (an_filter A sel freq ict p N)))
     (find (\<lambda>p. an_filter A sel freq ict p N \<noteq> None) (rev [4..63]))"

definition lms8001_optim_pll_loopbw :: "'h bus \<Rightarrow> l8_analog \<Rightarrow> rat \<Rightarrow> ('h, unit) l8" where
  "lms8001_optim_pll_loopbw bus A N = dbind (dget (\<lambda>m. m)) (\<lambda>m.
     let pulse = fget (6, 6) (p8_get P8_CP_CFG0 m); ofs = fget (0, 6) (p8_get P8_CP_CFG0 m); ict = fget (0, 5) (p8_get P8_CP_CFG1 m);
         sel = fget (7, 2) (p8_get P8_VCO_CFG m); freq = fget (0, 8) (p8_get P8_VCO_FREQ m)
     in if sel = 0 then dfail (- EINVAL)
        else case l8_first_filter A sel freq ict N of
          Some (p, v) \<Rightarrow> dseq (lms8001_pll_set_cp bus p (uint ofs) (uint ict)) (lms8001_pll_set_lpf bus v)
        | None \<Rightarrow> dseq (lms8001_pll_set_cp bus (uint pulse) (uint ofs) (uint ict)) (dfail (- ERANGE)))"

definition lms8001_pll_set_ld :: "'h bus \<Rightarrow> u16 \<Rightarrow> ('h, unit) l8" where
  "lms8001_pll_set_ld bus LD_VCT = dseq (p8_set P8_ENABLE [((9, 1), 1)])
     (dseq (p8_set P8_CP_CFG1 [((5, 2), LD_VCT)]) (l8_sends bus [mk_pav P8_ENABLE, mk_pav P8_CP_CFG1]))"

definition lms8001_optim_cp_ld :: "'h bus \<Rightarrow> l8_analog \<Rightarrow> ('h, unit) l8" where
  "lms8001_optim_cp_ld bus A = dbind (dget (\<lambda>m. m)) (\<lambda>m.
     let pulse = fget (6, 6) (p8_get P8_CP_CFG0 m); ict = fget (0, 5) (p8_get P8_CP_CFG1 m); intmod = bit (p8_get P8_SDM_CFG m) 14
     in dseq (lms8001_pll_set_cp bus (uint pulse) (if intmod then 0 else max 1 (an_ofs A ict pulse)) (uint ict))
         (lms8001_pll_set_ld bus (if intmod then 2 else 0)))"

definition l8_scaled :: "u16 \<Rightarrow> rat \<Rightarrow> int \<Rightarrow> u16" where
  "l8_scaled v k most = (let x = of_nat (unat v) * k in of_int (if x < of_int most then (if x < 0 then - \<lfloor>- x\<rfloor> else \<lfloor>x\<rfloor>) else most))"

definition lms8001_set_flock :: "'h bus \<Rightarrow> rat \<Rightarrow> int \<Rightarrow> ('h, unit) l8" where
  "lms8001_set_flock bus bwef flock_N = dbind (dget (\<lambda>m. (p8_get P8_LPF_CFG1 m, p8_get P8_LPF_CFG2 m, p8_get P8_CP_CFG0 m))) (\<lambda>(l1, l2, cp).
     dseq (p8_set P8_FLOCK_CFG1 [((12, 4), l8_scaled (fget (12, 4) l1) bwef 15), ((8, 4), l8_scaled (fget (8, 4) l1) bwef 15), ((4, 4), fget (4, 4) l1), ((0, 4), fget (0, 4) l1)])
    (dseq (p8_set P8_FLOCK_CFG2 [((12, 4), fget (0, 4) l2), ((6, 6), l8_scaled (fget (6, 6) cp) (bwef * bwef) 63), ((0, 6), fget (0, 6) cp)])
    (dseq (p8_set P8_FLOCK_CFG3 [((10, 1), 0), ((0, 10), of_int (min flock_N 1023))])
      (l8_sends bus [mk_pav P8_FLOCK_CFG1, mk_pav P8_FLOCK_CFG2, mk_pav P8_FLOCK_CFG3]))))"

section \<open>The whole tuning\<close>

definition lms8001_config_pll :: "'h bus \<Rightarrow> l8_analog \<Rightarrow> u64 \<Rightarrow> u32 \<Rightarrow> u32 \<Rightarrow> rat \<Rightarrow> int \<Rightarrow> ('h, unit) l8" where
  "lms8001_config_pll bus A flo fref flags bwef flock_N =
    (let iq = l8_flag flags LMS8001_IQ_GEN in
     case lms8001_check_lo_range flo iq of Inl e \<Rightarrow> dfail e
     | Inr _ \<Rightarrow> case lms8001_calc_vco (if iq then flo * 2 else flo) of Inl e \<Rightarrow> dfail e
     | Inr (_, divi) \<Rightarrow> let fvco = (if iq then flo * 2 ^ (divi + 1) else flo * 2 ^ divi) in
        dseq (p8_set P8_VCO_CFG [((9, 2), 2), ((0, 7), 3), ((11, 1), 1)])
       (dseq (p8_set P8_FF_CFG [((0, 2), of_nat divi), ((2, 2), of_nat divi), ((4, 1), of_bool (divi > 0))])
       (dseq (p8_set P8_ENABLE [((2, 1), of_bool (divi > 0))])
       (dseq (l8_sends bus [mk_pav P8_VCO_CFG, mk_pav P8_FF_CFG])
       (dbind (lms8001_vco_tune bus fvco fref flags lms80001_tune_settings_def) (\<lambda>actual.
        dseq (lms8001_center_vtune bus fvco fref flags)
       (dseq (lms8001_optim_pll_loopbw bus A (actual / of_nat (unat fref)))
       (dseq (lms8001_optim_cp_ld bus A) (lms8001_set_flock bus bwef flock_N)))))))))"

definition lms8001_smart_tune :: "'h bus \<Rightarrow> l8_analog \<Rightarrow> u32 \<Rightarrow> u64 \<Rightarrow> u32 \<Rightarrow> rat \<Rightarrow> int \<Rightarrow> ('h, unit) l8" where
  "lms8001_smart_tune bus A tune_flags flo fref bwef flock_N =
    (let flags = (if flo < LMS8_MIN_NIQ then tune_flags OR LMS8001_IQ_GEN else tune_flags); iq = l8_flag flags LMS8001_IQ_GEN in
     dseq (lms8001_config_pll bus A flo fref flags bwef flock_N)
    (dseq (dbind (dget l8_chan_mask) (\<lambda>c. p8_set P8_LODIST_CFG [((12, 4), ucast c), ((2, 1), of_bool (\<not> iq)), ((5, 1), of_bool (\<not> iq)),
        ((8, 1), of_bool (\<not> iq)), ((11, 1), of_bool (\<not> iq))]))
    (dseq (p8_set P8_ENABLE [((11, 1), of_bool iq), ((12, 1), 1)])
      (l8_sends bus [mk_pav P8_LODIST_CFG, mk_pav P8_ENABLE]))))"

section \<open>Single registers\<close>

text \<open>A register with a copy changes it; profiles are 16 registers apart.\<close>

definition l8_note :: "u16 \<Rightarrow> u16 \<Rightarrow> lms8001_state \<Rightarrow> lms8001_state" where
  "l8_note addr v m =
    (if addr \<ge> 0x4000 then (case find (\<lambda>R. fst R = ucast addr) C8_REGS of None \<Rightarrow> m | Some R \<Rightarrow> c8_upd R (\<lambda>_. v) m)
     else if addr \<ge> 0x4100 then
       (let profile = unat ((addr - 0x4100) div 0x10); norm = addr - of_nat profile * 0x10
        in if profile < 8 then (case find (\<lambda>R. fst R = ucast norm) P8_REGS of None \<Rightarrow> m
             | Some R \<Rightarrow> m\<lparr>l8_profiles := (l8_profiles m)(profile := snd (snd R) (\<lambda>_. v) (l8_profiles m profile))\<rparr>) else m)
     else m)"

definition lms8001_reg_set :: "'h bus \<Rightarrow> u16 \<Rightarrow> u16 \<Rightarrow> ('h, unit) l8" where
  "lms8001_reg_set bus addr v = dseq (dmod (l8_note addr v)) (lms8001_spi_post bus [lms_wr (ucast addr) (ucast v)])"

definition lms8001_reg_get :: "'h bus \<Rightarrow> u16 \<Rightarrow> ('h, u16) l8" where
  "lms8001_reg_get bus addr = lms8001_spi_get bus (ucast addr)"

definition lms8001_temp_start :: "'h bus \<Rightarrow> ('h, unit) l8" where
  "lms8001_temp_start bus = lms8001_spi_post bus [lms_make (0x000c, [(10, 1), (9, 1), (8, 1), (0, 8)]) [1, 1, 1, 0]]"

definition lms8001_temp_get :: "'h bus \<Rightarrow> (u16 \<Rightarrow> int) \<Rightarrow> ('h, int) l8" where
  "lms8001_temp_get bus temp = dbind (lms8001_spi_get bus 0x000c) (\<lambda>rb. dreturn (temp (fget (0, 8) rb)))"

section \<open>What the plan promises\<close>

lemma vco_divi_range:
  "\<forall>d\<in>set ds. d \<le> 3 \<Longrightarrow> unat f \<le> 10400000000 \<Longrightarrow> lms8001_vco_divi f ds = Some (v, d) \<Longrightarrow> d \<in> set ds \<and> unat v = unat f * 2 ^ d \<and> 4100000000 < unat v"
proof (induction ds)
  case (Cons e ds)
  have "e \<in> {0, 1, 2, 3}" using Cons.prems(1) by auto
  then have "unat (f * 2 ^ e) = unat f * 2 ^ e" using Cons.prems(2) by (auto simp: unat_mult_lem [THEN iffD1])
  then show ?case using Cons by (auto simp: LMS8_VCO1_MIN_def word_less_nat_alt split: if_splits)
qed simp

lemma unat_shifts:
  assumes "unat (f :: u64) \<le> 10400000000"
  shows "unat (f * 2) = unat f * 2" "unat (f * 4) = unat f * 4" "unat (f * 8) = unat f * 8"
  using assms by (simp_all add: unat_mult_lem [THEN iffD1])

text \<open>A frequency has a plan exactly when one of the oscillators reaches it.\<close>

lemma calc_vco_plan:
  "(case lms8001_calc_vco f of Inl e \<Rightarrow> unat f * 8 \<le> 4100000000 \<or> 10400000000 < unat f
    | Inr (v, d) \<Rightarrow> d \<le> 3 \<and> unat v = unat f * 2 ^ d \<and> 4100000000 < unat v \<and> unat v \<le> 10400000000)"
proof (cases "unat f \<le> 10400000000")
  case False
  then show ?thesis by (simp add: lms8001_calc_vco_def LMS8_VCO3_MAX_def word_less_nat_alt)
next
  case True
  note u = unat_shifts [OF True]
  show ?thesis using True
    by (auto simp: lms8001_calc_vco_def LMS8_VCO3_MAX_def LMS8_VCO1_MIN_def word_less_nat_alt u)
qed

lemma check_lo_plan:
  assumes "lms8001_check_lo_range flo iq = Inr ()"
  shows "\<exists>v d. lms8001_calc_vco (if iq then flo * 2 else flo) = Inr (v, d)"
proof -
  let ?f = "if iq then flo * 2 else flo"
  have "unat flo \<le> 9110000000" using assms
    by (auto simp: lms8001_check_lo_range_def LMS8_MIN_IQ_def LMS8_MAX_IQ_def LMS8_MIN_NIQ_def LMS8_MAX_NIQ_def word_le_nat_alt split: if_splits)
  then have "unat (flo * 2) = unat flo * 2" by (simp add: unat_mult_lem [THEN iffD1])
  then have "4100000000 < unat ?f * 8 \<and> unat ?f \<le> 10400000000" using assms
    by (auto simp: lms8001_check_lo_range_def LMS8_MIN_IQ_def LMS8_MAX_IQ_def LMS8_MIN_NIQ_def LMS8_MAX_NIQ_def word_le_nat_alt split: if_splits)
  then show ?thesis using calc_vco_plan [of ?f] by (auto split: sum.splits)
qed

lemma calc_pll_value:
  assumes "unat v \<le> 10400000000" "3000000 \<le> unat fref" "lms8001_calc_pll v fref 0 = Inr p"
  shows "unat fref * (unat (pl_nint p) * 2 ^ 20 + unat (pl_nfrac p)) \<le> unat v * 2 ^ 20 \<and>
    unat v * 2 ^ 20 < unat fref * (unat (pl_nint p) * 2 ^ 20 + unat (pl_nfrac p) + 1) \<and> unat (pl_nfrac p) < 2 ^ 20"
proof -
  define r where "r = unat fref"
  define q where "q = unat v div r"
  have r: "3000000 \<le> r" "r < 2 ^ 32" using assms(2) unsigned_less [of fref, where ?'a = nat] by (simp_all add: r_def)
  define w where "w = (ucast fref :: u64)"
  have rr: "unat w = r" using r(2) by (simp add: w_def r_def unsigned_ucast_eq take_bit_nat_eq_self)
  have "q \<le> 10400000000 div 3000000" unfolding q_def using assms(1) r(1) by (meson div_le_mono div_le_mono2 le_trans zero_less_numeral)
  then have q: "q \<le> 3466" by simp
  define m where "m = (ucast (v div w) :: u32)"
  have n: "unat m = q" using q by (simp add: m_def unsigned_ucast_eq unat_div rr q_def take_bit_nat_eq_self)
  have qr: "q * r \<le> unat v" "unat v - q * r < r" using r(1) by (simp_all add: q_def minus_div_mult_eq_mod)
  have n64: "unat (ucast m * w :: u64) = q * r"
  proof -
    have "unat (ucast m :: u64) = q" using q n by (simp add: unsigned_ucast_eq take_bit_nat_eq_self)
    then show ?thesis using qr(1) assms(1) by (subst unat_mult_lem [THEN iffD1]) (simp_all add: rr)
  qed
  define x where "x = unat v - q * r"
  have d: "unat (v - ucast m * w) = x"
    unfolding x_def using qr(1) by (subst unat_sub) (simp_all add: word_le_nat_alt n64)
  have x: "x < r" using qr by (simp add: x_def)
  have "x * 2 ^ 20 < 2 ^ 32 * 2 ^ 20" using x r(2) by (intro mult_strict_right_mono) auto
  then have shift: "unat ((v - ucast m * w) * 2 ^ 20 :: u64) = x * 2 ^ 20"
    by (subst unat_mult_lem [THEN iffD1]) (simp_all add: d)
  define k where "k = x * 2 ^ 20 div r"
  have k1: "k * r \<le> x * 2 ^ 20" "x * 2 ^ 20 < (k + 1) * r" using r(1) dividend_less_times_div [of r "x * 2 ^ 20"] by (simp_all add: k_def add.commute mult.commute)
  have "k * r < 2 ^ 20 * r" using k1(1) x by (metis le_less_trans mult.commute mult_less_mono2 zero_less_numeral zero_less_power)
  then have k: "k < 2 ^ 20" by simp
  have f: "unat (pl_nint p) = q" "unat (pl_nfrac p) = k"
    using assms(3) n shift k r(1)
    by (auto simp: lms8001_calc_pll_def l8_flag_def LMS8001_PDIV2_def LMS8001_INT_MODE_def Let_def unsigned_ucast_eq unat_div rr k_def w_def [symmetric] m_def [symmetric] take_bit_nat_eq_self split: if_splits)
  have v: "unat v = q * r + x" using qr by (simp add: x_def)
  show ?thesis unfolding f r_def [symmetric] v using k k1 by (simp add: algebra_simps)
qed

text \<open>C21: every frequency of the converter's local oscillator that is accepted, with or without quadrature, has a plan: one of at
  most three doublings lifts it into the range of the oscillators, and the ratio is the greatest one in steps of
  $2^{-20}$ that does not exceed it, for references from 3 MHz.\<close>

theorem lms8001_lo_plan:
  assumes "lms8001_check_lo_range flo iq = Inr ()" and "3000000 \<le> unat fref"
  shows "\<exists>v d p. lms8001_calc_vco (if iq then flo * 2 else flo) = Inr (v, d) \<and> lms8001_calc_pll v fref 0 = Inr p \<and>
    d \<le> 3 \<and> unat v = unat (if iq then flo * 2 else flo) * 2 ^ d \<and> 4100000000 < unat v \<and> unat v \<le> 10400000000 \<and>
    unat (pl_nfrac p) < 2 ^ 20 \<and> unat fref * (unat (pl_nint p) * 2 ^ 20 + unat (pl_nfrac p)) \<le> unat v * 2 ^ 20 \<and>
    unat v * 2 ^ 20 < unat fref * (unat (pl_nint p) * 2 ^ 20 + unat (pl_nfrac p) + 1)"
proof -
  obtain v d where c: "lms8001_calc_vco (if iq then flo * 2 else flo) = Inr (v, d)" using check_lo_plan [OF assms(1)] by blast
  then have v: "d \<le> 3" "unat v = unat (if iq then flo * 2 else flo) * 2 ^ d" "4100000000 < unat v" "unat v \<le> 10400000000"
    using calc_vco_plan [of "if iq then flo * 2 else flo"] by auto
  have "fref \<noteq> 0" using assms(2) by auto
  then obtain p where p: "lms8001_calc_pll v fref 0 = Inr p"
    by (auto simp: lms8001_calc_pll_def Let_def l8_flag_def LMS8001_PDIV2_def LMS8001_INT_MODE_def)
  show ?thesis using c v p calc_pll_value [OF v(4) assms(2) p] by auto
qed

theorem lms8001_lo_plan_witness:
  "\<exists>v d p. lms8001_calc_vco 3000000000 = Inr (v, d) \<and> lms8001_calc_pll v 26000000 0 = Inr p \<and> unat (pl_nfrac p) < 2 ^ 20"
proof -
  have "lms8001_check_lo_range 3000000000 False = Inr ()"
    by (simp add: lms8001_check_lo_range_def LMS8_MIN_IQ_def LMS8_MAX_NIQ_def LMS8_MIN_NIQ_def)
  from lms8001_lo_plan [OF this, of 26000000] show ?thesis by auto
qed

section \<open>Where the code does something else\<close>

text \<open>The copies of the profiles are never changed: their addresses are above those of the first branch too.\<close>

lemma reg_set_loses_profile: "l8_note 0x4106 v m = m"
  by (simp add: l8_note_def C8_REGS_def C8_VREG_def C8_XBUF_def C8_AUTO1_def C8_AUTO2_def C8_AUTO3_def C8_CFG_def)

text \<open>The tuning with copies does not check that the integer part fits its ten bits: 1800 becomes 776.\<close>

lemma smart_tune_ratio_cut:
  "lms8001_calc_pll 9000000000 5000000 0 = Inr \<lparr>pl_nint = 1800, pl_nfrac = 0, pl_nfix = 1\<rparr>" "fset (0, 10) (ucast (1800 :: u32)) 0 = (776 :: u16)"
  by (simp_all add: lms8001_calc_pll_def l8_flag_def LMS8001_PDIV2_def LMS8001_INT_MODE_def Let_def fset_def fmask_def mask_eq_exp_minus_1)

end
