(* ===== verification/PowerChips.thy ===== *)
theory PowerChips
  imports ChipBus
begin

text \<open>
  The small chips on the I2C buses of the boards (\<open>src/lib/hw\<close>): voltage regulators, digital-to-analogue
  converter, port expander, temperature sensors and a programmable oscillator. A chip is named by its bus address;
  a register is written with its number and read by writing the number first.
\<close>

section \<open>Registers\<close>

definition dwr8 :: "'h bus \<Rightarrow> u32 \<Rightarrow> u8 \<Rightarrow> u8 \<Rightarrow> ('h, unit) dev" where
  "dwr8 bus a reg v = dbind (i2c_tr bus a 0 [reg, v]) (\<lambda>_. dreturn ())"

definition drd8 :: "'h bus \<Rightarrow> u32 \<Rightarrow> u8 \<Rightarrow> ('h, u8) dev" where
  "drd8 bus a reg = dbind (i2c_tr bus a 1 [reg]) (\<lambda>d. dreturn (hd d))"

text \<open>Two bytes as the processor reads them from memory.\<close>

definition drd16 :: "'h bus \<Rightarrow> u32 \<Rightarrow> u8 \<Rightarrow> ('h, u16) dev" where
  "drd16 bus a reg = dbind (i2c_tr bus a 2 [reg]) (\<lambda>d. dreturn (of_le_bytes d))"

section \<open>LP8758\<close>

definition LP_DEV_REV :: u8 where "LP_DEV_REV = 0x00"
definition LP_OTP_REV :: u8 where "LP_OTP_REV = 0x01"
definition LP_BUCK_0_1_STAT :: u8 where "LP_BUCK_0_1_STAT = 0x1c"
definition LP_BUCK_2_3_STAT :: u8 where "LP_BUCK_2_3_STAT = 0x1d"
definition PMIC_CH_ENABLE :: u8 where "PMIC_CH_ENABLE = 0x88"
definition PMIC_CH_DISABLE :: u8 where "PMIC_CH_DISABLE = 0xc8"

definition lp8758_get_rev :: "'h bus \<Rightarrow> u32 \<Rightarrow> ('h, u16) dev" where
  "lp8758_get_rev bus a = dbind (drd8 bus a LP_DEV_REV) (\<lambda>v. dbind (drd8 bus a LP_OTP_REV) (\<lambda>d. dreturn (push_bit 8 (ucast d) OR ucast v)))"

definition lp8758_code :: "u32 \<Rightarrow> u8" where
  "lp8758_code vin =
    (if vin > 3330 then 0xff else if vin > 1400 then ucast (0x9d + (vin - 1400) div 20)
     else if vin > 730 then ucast (0x18 + (vin - 730) div 5) else if vin > 500 then ucast ((vin - 500) div 10) else 0)"

definition lp8758_vout_set :: "'h bus \<Rightarrow> u32 \<Rightarrow> u32 \<Rightarrow> u32 \<Rightarrow> ('h, unit) dev" where
  "lp8758_vout_set bus a ch vout = (if ch > 3 then dfail (- EINVAL) else dwr8 bus a ([0x0a, 0x0c, 0x0e, 0x10] ! unat ch) (lp8758_code vout))"

definition lp8758_vout_ctrl :: "'h bus \<Rightarrow> u32 \<Rightarrow> u32 \<Rightarrow> bool \<Rightarrow> bool \<Rightarrow> ('h, unit) dev" where
  "lp8758_vout_ctrl bus a ch en forcepwm = (if ch > 3 then dfail (- EINVAL)
     else dwr8 bus a ([0x02, 0x04, 0x06, 0x08] ! unat ch) (if en then PMIC_CH_ENABLE OR (if forcepwm then 2 else 0) else PMIC_CH_DISABLE))"

text \<open>The mask of the channels whose output is good.\<close>

definition lp8758_good :: "u8 \<Rightarrow> u8 \<Rightarrow> u32" where
  "lp8758_good st0 st1 = of_bool (bit st0 2) OR push_bit 1 (of_bool (bit st0 6)) OR push_bit 2 (of_bool (bit st1 2)) OR push_bit 3 (of_bool (bit st1 6))"

definition lp8758_check_pg :: "'h bus \<Rightarrow> u32 \<Rightarrow> u32 \<Rightarrow> ('h, bool) dev" where
  "lp8758_check_pg bus a chmsk = dbind (drd8 bus a LP_BUCK_0_1_STAT) (\<lambda>st0. dbind (drd8 bus a LP_BUCK_2_3_STAT) (\<lambda>st1.
     dreturn (chmsk AND lp8758_good st0 st1 = lp8758_good st0 st1)))"

definition lp8758_ss :: "'h bus \<Rightarrow> u32 \<Rightarrow> bool \<Rightarrow> ('h, unit) dev" where
  "lp8758_ss bus a en = dwr8 bus a 0x17 (if en then 0x09 else 0x08)"

section \<open>LP875484\<close>

definition LP875484_EN_DIS_B0 :: field where "LP875484_EN_DIS_B0 = (7, 1)"
definition LP875484_VSET_B0 :: field where "LP875484_VSET_B0 = (0, 7)"
definition LP875484_N_PG_B0 :: field where "LP875484_N_PG_B0 = (2, 1)"

definition lp875484_init :: "'h bus \<Rightarrow> u32 \<Rightarrow> ('h, unit) dev" where
  "lp875484_init bus a = dbind (drd8 bus a 0x18) (\<lambda>v. if v \<noteq> 0x84 then dfail (- ENODEV) else dreturn ())"

definition lp875484_set_vout :: "'h bus \<Rightarrow> u32 \<Rightarrow> u32 \<Rightarrow> ('h, unit) dev" where
  "lp875484_set_vout bus a out_mv =
    (let set = (\<lambda>en regv. dwr8 bus a 0x00 (ucast (fpack [LP875484_EN_DIS_B0, LP875484_VSET_B0] [en, regv] :: u32))) in
     if out_mv = 0 then set 0 10 else if out_mv < 600 \<or> out_mv > 1700 then dfail (- EINVAL) else set 1 ((out_mv - 500) div 10))"

definition lp875484_is_pg :: "'h bus \<Rightarrow> u32 \<Rightarrow> ('h, bool) dev" where
  "lp875484_is_pg bus a = dbind (drd8 bus a 0x0d) (\<lambda>v. dreturn (fget LP875484_N_PG_B0 v = 0))"

section \<open>TPS6381x\<close>

definition TPS6381X_CONTROL :: "field list" where "TPS6381X_CONTROL = [(6, 1), (5, 1), (3, 1), (2, 1), (0, 2)]"

definition tps6381x_init :: "'h bus \<Rightarrow> u32 \<Rightarrow> bool \<Rightarrow> bool \<Rightarrow> int \<Rightarrow> ('h, unit) dev" where
  "tps6381x_init bus a enable force_pwm vout_mv = dbind (drd8 bus a 0x03) (\<lambda>i.
     if i \<noteq> 0x04 then dfail (- ENODEV) else if vout_mv < 1800 \<or> vout_mv > 4975 then dfail (- ERANGE)
     else let v = of_int ((vout_mv - 1800) div 25) in
       dlist [dwr8 bus a 0x01 (ucast (fpack TPS6381X_CONTROL [0, of_bool enable, of_bool force_pwm, of_bool force_pwm, 0] :: u32)), dwr8 bus a 0x04 v, dwr8 bus a 0x05 v])"

section \<open>TPS6594\<close>

definition tps6594_buck_vout :: "u32 \<Rightarrow> u8" where
  "tps6594_buck_vout v = (if v < 300 then 0 else if v < 600 then ucast ((v - 300) div 20) else if v < 1100 then ucast ((v - 600) div 5 + 0x0f)
     else if v < 1660 then ucast ((v - 1100) div 10 + 0x73) else if v < 3340 then ucast ((v - 1660) div 20 + 0xab) else 0xff)"

definition tps6594_ldo123_vout :: "u32 \<Rightarrow> u8" where
  "tps6594_ldo123_vout v = (if v < 600 then 0x04 else if v < 3300 then ucast ((v - 600) div 50 + 0x04) else 0x3a)"

definition tps6594_ldo4_vout :: "u32 \<Rightarrow> u8" where
  "tps6594_ldo4_vout v = (if v < 1200 then 0x20 else if v < 3300 then ucast ((v - 1200) div 25 + 0x20) else 0x74)"

definition tps6594_check :: "'h bus \<Rightarrow> u32 \<Rightarrow> ('h, unit) dev" where
  "tps6594_check bus a = dlist (map (\<lambda>r. dbind (drd8 bus a r) (\<lambda>_. dreturn ())) [0x1, 0x2, 0x3])"

text \<open>Channels 0 to 4 are converters, 5 to 8 linear regulators.\<close>

definition tps6594_vout_set :: "'h bus \<Rightarrow> u32 \<Rightarrow> u32 \<Rightarrow> u32 \<Rightarrow> ('h, unit) dev" where
  "tps6594_vout_set bus a ch vout =
    (if ch < 5 then dwr8 bus a ([0x0e, 0x10, 0x12, 0x14, 0x16] ! unat ch) (tps6594_buck_vout vout)
     else if ch < 8 then dwr8 bus a ([0x23, 0x24, 0x25] ! (unat ch - 5)) (push_bit 1 (tps6594_ldo123_vout vout))
     else if ch = 8 then dwr8 bus a 0x26 (tps6594_ldo4_vout vout) else dfail (- EINVAL))"

definition tps6594_vout_ctrl :: "'h bus \<Rightarrow> u32 \<Rightarrow> u32 \<Rightarrow> bool \<Rightarrow> ('h, unit) dev" where
  "tps6594_vout_ctrl bus a ch en = (if ch > 8 then dfail (- EINVAL)
     else dwr8 bus a ([0x04, 0x06, 0x08, 0x0a, 0x0c, 0x1d, 0x1e, 0x1f, 0x20] ! unat ch)
       (push_bit 5 1 OR (if en then push_bit 0 1 OR push_bit 1 1 OR push_bit 4 1 else 0)))"

definition tps6594_reg_dump :: "'h bus \<Rightarrow> u32 \<Rightarrow> ('h, unit) dev" where
  "tps6594_reg_dump bus a = dlist (map (\<lambda>r. dbind (drd8 bus a (of_nat r)) (\<lambda>_. dreturn ())) [0x6d..<0x74])"

definition tps6594_set_fr :: "'h bus \<Rightarrow> u32 \<Rightarrow> ('h, unit) dev" where
  "tps6594_set_fr bus a = dseq (dignore (dwr8 bus a 0x8a 0x1f)) (dseq (dignore (dwr8 bus a 0x8b 0x5)) (dwr8 bus a 0x88 0x5))"

section \<open>DAC80501\<close>

definition dac80501_set_reg :: "'h bus \<Rightarrow> u32 \<Rightarrow> u8 \<Rightarrow> u16 \<Rightarrow> ('h, unit) dev" where
  "dac80501_set_reg bus a reg v = dbind (i2c_tr bus a 0 [reg, ucast (drop_bit 8 v), ucast v]) (\<lambda>_. dreturn ())"

definition DAC80501_GAIN :: "field list" where "DAC80501_GAIN = [(8, 1), (0, 1)]"

definition dac80501_init :: "'h bus \<Rightarrow> u32 \<Rightarrow> bool \<Rightarrow> ('h, unit) dev" where
  "dac80501_init bus a ref_div_gain_mul = dbind (drd16 bus a 1) (\<lambda>devid.
     if devid \<in> {0x0194, 0x0195, 0x1195, 0x2195, 0x0115, 0x1115, 0x2115}
     then (if ref_div_gain_mul then dac80501_set_reg bus a 4 (fpack DAC80501_GAIN [1, 1]) else dfail (- EINVAL))
     else if devid = 0 \<or> devid = 0xbeef then dfail (- ENODEV) else dfail (- EIO))"

definition dac80501_dac_set :: "'h bus \<Rightarrow> u32 \<Rightarrow> u16 \<Rightarrow> ('h, unit) dev" where
  "dac80501_dac_set bus a code = dac80501_set_reg bus a 8 code"

definition dac80501_dac_get :: "'h bus \<Rightarrow> u32 \<Rightarrow> ('h, u16) dev" where
  "dac80501_dac_get bus a = drd16 bus a 8"

section \<open>TCA6424A\<close>

definition tca6424a_reg8_set :: "'h bus \<Rightarrow> u32 \<Rightarrow> u8 \<Rightarrow> u8 \<Rightarrow> ('h, unit) dev" where
  "tca6424a_reg8_set = dwr8"

definition tca6424a_reg8_get :: "'h bus \<Rightarrow> u32 \<Rightarrow> u8 \<Rightarrow> ('h, u8) dev" where
  "tca6424a_reg8_get = drd8"

definition tca6424a_reg16_set :: "'h bus \<Rightarrow> u32 \<Rightarrow> u8 \<Rightarrow> u16 \<Rightarrow> ('h, unit) dev" where
  "tca6424a_reg16_set bus a reg v = dbind (i2c_tr bus a 0 [0x80 OR reg, ucast v, ucast (drop_bit 8 v)]) (\<lambda>_. dreturn ())"

definition tca6424a_reg16_get :: "'h bus \<Rightarrow> u32 \<Rightarrow> u8 \<Rightarrow> ('h, u16) dev" where
  "tca6424a_reg16_get bus a reg = dbind (i2c_tr bus a 2 [0x80 OR reg]) (\<lambda>d. dreturn (push_bit 8 (ucast (d ! 0)) OR ucast (d ! 1)))"

text \<open>Three bytes are stored into the caller's word, whose fourth byte stays.\<close>

definition tca6424a_reg24_get :: "'h bus \<Rightarrow> u32 \<Rightarrow> u8 \<Rightarrow> u32 \<Rightarrow> ('h, u32) dev" where
  "tca6424a_reg24_get bus a reg oval = dbind (i2c_tr bus a 3 [0x80 OR reg]) (\<lambda>d. dreturn (of_le_bytes (d @ drop 3 (le_bytes 4 oval))))"

section \<open>TMP108 and TMP114\<close>

definition tmp108_temp_get :: "'h bus \<Rightarrow> u32 \<Rightarrow> ('h, int) dev" where
  "tmp108_temp_get bus a = dbind (drd16 bus a 0) (\<lambda>v. dreturn (sint v))"

definition tmp114_temp_get :: "'h bus \<Rightarrow> u32 \<Rightarrow> ('h, int) dev" where
  "tmp114_temp_get bus a = dbind (drd16 bus a 0) (\<lambda>v. dreturn (2 * sint v))"

definition tmp114_devid_get :: "'h bus \<Rightarrow> u32 \<Rightarrow> ('h, int) dev" where
  "tmp114_devid_get bus a = dbind (drd16 bus a 0x0b) (\<lambda>v. dreturn (uint v))"

section \<open>Si549\<close>

definition si549_Fvco_min :: u64 where "si549_Fvco_min = 10800000000"
definition si549_Fvco_max :: u64 where "si549_Fvco_max = 12109728345"
definition si549_xtal :: u64 where "si549_xtal = 152600000"
definition si549_hsdiv_max :: u64 where "si549_hsdiv_max = 2046"

text \<open>The first power of two (up to 32) with which the greatest divider reaches the oscillator: its exponent, the divider, and
  the frequency of the oscillator. The loop ends with the last frequency when there is none.\<close>

definition si549_hsdiv :: "u64 \<Rightarrow> u32" where
  "si549_hsdiv f = (let h = ucast (si549_Fvco_max div f) :: u32; h = (if bit h 0 then h + 1 else h) in if ucast h > si549_hsdiv_max then 2046 else h)"

fun si549_div :: "u64 \<Rightarrow> nat list \<Rightarrow> u64 \<Rightarrow> nat \<times> u32 \<times> u64" where
  "si549_div out [] fvco = (6, 1, fvco)"
| "si549_div out (k # ks) fvco =
    (let f = out * 2 ^ k in
     if f * si549_hsdiv_max < si549_Fvco_min then si549_div out ks f
     else (k, si549_hsdiv f, f * ucast (si549_hsdiv f)))"

definition si549_fb :: "u64 \<Rightarrow> u32 \<times> u32" where
  "si549_fb fvco = (ucast (fvco div si549_xtal), ucast (push_bit 32 (fvco mod si549_xtal) div si549_xtal))"

definition si549_regs :: "nat \<Rightarrow> u32 \<Rightarrow> u32 \<Rightarrow> u32 \<Rightarrow> (u8 \<times> u8) list" where
  "si549_regs ls hsdiv fb frac =
    [(255, 0), (69, 0), (17, 0), (23, ucast hsdiv), (24, ucast (push_bit 4 (of_nat ls) OR (drop_bit 8 hsdiv AND 7) :: u32)),
     (26, ucast frac), (27, ucast (drop_bit 8 frac)), (28, ucast (drop_bit 16 frac)), (29, ucast (drop_bit 24 frac)),
     (30, ucast fb), (31, ucast (drop_bit 8 fb)), (7, 8), (17, 1)]"

definition si549_set_freq :: "'h bus \<Rightarrow> u32 \<Rightarrow> u32 \<Rightarrow> ('h, unit) dev" where
  "si549_set_freq bus a out =
    (if out < 200000 \<or> out > 800000000 then dfail (- ERANGE)
     else case si549_div (ucast out) [0, 1, 2, 3, 4, 5] 0 of (ls, hsdiv, fvco) \<Rightarrow> case si549_fb fvco of (fb, frac) \<Rightarrow>
       dbind (drd8 bus a 0) (\<lambda>i. if i \<noteq> 0x31 then dfail (- EIO)
         else dlist (map (\<lambda>(r, v). dwr8 bus a r v) (si549_regs ls hsdiv fb frac))))"

definition si549_enable :: "'h bus \<Rightarrow> u32 \<Rightarrow> bool \<Rightarrow> ('h, unit) dev" where
  "si549_enable bus a en = dwr8 bus a 17 (of_bool en)"

definition si549_dump :: "'h bus \<Rightarrow> u32 \<Rightarrow> ('h, unit) dev" where
  "si549_dump bus a = dlist (map (\<lambda>r. dbind (drd8 bus a r) (\<lambda>_. dreturn ())) [7, 17, 23, 24, 26, 27, 28, 29, 30, 31, 69, 255])"

section \<open>What they give\<close>

text \<open>A greater voltage gets a lower code where two ranges meet.\<close>

lemma lp8758_not_monotone: "lp8758_code 1400 = 0x9e" "lp8758_code 1401 = 0x9d"
  by (simp_all add: lp8758_code_def)

text \<open>Power counts as good when no output is good: the mask that is compared is that of the good outputs and not the one asked for.\<close>

lemma lp8758_pg_of_none: "chmsk AND lp8758_good 0 0 = lp8758_good 0 0"
  by (simp add: lp8758_good_def)

text \<open>A word is written to the expander low byte first and read back high byte first.\<close>

lemma tca6424a_swaps:
  assumes "bus \<lparr>rq_op = USDR_LSOP_I2C_DEV, rq_addr = a, rq_insz = 2, rq_out = [0x80 OR reg]\<rparr> h = (Inr [ucast v, ucast (drop_bit 8 v)], h')"
  shows "tca6424a_reg16_get bus a reg h = (Inr (push_bit 8 (ucast (ucast v :: u8)) OR ucast (ucast (drop_bit 8 v) :: u8)), h')"
  using assms by (simp add: tca6424a_reg16_get_def i2c_tr_def bus_op_def fit_def)

section \<open>The plan of the oscillator\<close>

definition si549_reach :: "u64 \<Rightarrow> nat \<Rightarrow> bool" where
  "si549_reach out k \<longleftrightarrow> si549_Fvco_min \<le> out * 2 ^ k * si549_hsdiv_max"

lemma si549_div_first:
  "find (si549_reach out) ks = Some k \<Longrightarrow> si549_div out ks f0 = (k, si549_hsdiv (out * 2 ^ k), out * 2 ^ k * ucast (si549_hsdiv (out * 2 ^ k)))"
  by (induction ks arbitrary: f0) (auto simp: si549_reach_def Let_def split: if_splits)

lemma si549_hsdiv_value:
  assumes "200000 \<le> unat f"
  shows "unat (si549_hsdiv f) = (let h = 12109728345 div unat f in min (if odd h then Suc h else h) 2046)"
proof -
  define q where "q = 12109728345 div unat f"
  have q: "q \<le> 60548"
    unfolding q_def using div_le_mono2 [of 200000 "unat f" 12109728345] assms by simp
  define h where "h = (ucast (si549_Fvco_max div f) :: u32)"
  have h: "unat h = q" using q by (simp add: h_def si549_Fvco_max_def unsigned_ucast_eq unat_div q_def [symmetric] take_bit_nat_eq_self)
  have b: "bit h 0 \<longleftrightarrow> odd q" using bit_unsigned_iff [of h 0, where ?'a = nat] h by (simp add: bit_0)
  have h1: "unat (if bit h 0 then h + 1 else h) = (if odd q then Suc q else q)" using h q b by (auto simp: unat_word_ariths)
  define h2 where "h2 = (if bit h 0 then h + 1 else h)"
  have h2: "unat h2 = (if odd q then Suc q else q)" unfolding h2_def by (rule h1)
  have "unat h2 \<le> 60549" using h2 q by simp
  then have "unat (ucast h2 :: u64) = unat h2" by (simp add: unsigned_ucast_eq take_bit_nat_eq_self)
  then have c: "ucast h2 > si549_hsdiv_max \<longleftrightarrow> 2046 < unat h2" by (simp add: si549_hsdiv_max_def word_less_nat_alt)
  have "si549_hsdiv f = (if ucast h2 > si549_hsdiv_max then 2046 else h2)" by (simp add: si549_hsdiv_def Let_def h_def h2_def)
  then show ?thesis using c h2 by (simp add: q_def Let_def min_def)
qed

lemma si549_step:
  assumes "unat out \<le> 800000000" "k \<le> 5"
  shows "unat (ucast (out :: u32) * 2 ^ k :: u64) = unat out * 2 ^ k"
    and "si549_reach (ucast out) k \<longleftrightarrow> 10800000000 \<le> unat out * 2 ^ k * 2046"
proof -
  have "(2 :: nat) ^ k \<le> 2 ^ 5" using assms(2) by (intro power_increasing) auto
  then have p: "(2 :: nat) ^ k \<le> 32" by simp
  then have l: "unat out * 2 ^ k \<le> 800000000 * 32" using assms(1) by (intro mult_le_mono) auto
  have u: "unat (ucast out :: u64) = unat out" using assms(1) by (simp add: unsigned_ucast_eq take_bit_nat_eq_self)
  have "k \<in> {0, 1, 2, 3, 4, 5}" using assms(2) by auto
  then have t: "unat (2 ^ k :: u64) = 2 ^ k" by auto
  have r: "unat (ucast out * 2 ^ k :: u64) = unat out * 2 ^ k" using l by (subst unat_mult_lem [THEN iffD1]) (simp_all add: u t)
  show "unat (ucast out * 2 ^ k :: u64) = unat out * 2 ^ k" by (rule r)
  have "unat (ucast out * 2 ^ k * 2046 :: u64) = unat out * 2 ^ k * 2046" using l by (subst unat_mult_lem [THEN iffD1]) (simp_all add: r)
  then show "si549_reach (ucast out) k \<longleftrightarrow> 10800000000 \<le> unat out * 2 ^ k * 2046"
    by (simp add: si549_reach_def si549_Fvco_min_def si549_hsdiv_max_def word_le_nat_alt)
qed

lemma si549_plan_bounds:
  assumes "200000 \<le> out" "out \<le> 800000000" "si549_div (ucast (out :: u32)) [0, 1, 2, 3, 4, 5] 0 = (ls, h, f)"
  shows "ls \<le> 5 \<and> even (unat h) \<and> 0 < unat h \<and> unat h \<le> 2046 \<and> unat f = unat out * 2 ^ ls * unat h \<and>
    10800000000 \<le> unat f \<and> unat f \<le> 12109728345 + unat out * 2 ^ ls"
proof -
  have o: "200000 \<le> unat out" "unat out \<le> 800000000" using assms(1,2) by (simp_all add: word_le_nat_alt)
  have ks: "[0, 1, 2, 3, 4, 5] = [0..<6]" by (simp add: upt_rec)
  have "si549_reach (ucast out) 5" using si549_step(2) [of out 5] o by simp
  then have "find (si549_reach (ucast out)) [0, 1, 2, 3, 4, 5] \<noteq> None" by (simp add: find_None_iff)
  then obtain k where k: "find (si549_reach (ucast out)) [0, 1, 2, 3, 4, 5] = Some k" by blast
  then obtain i where i: "i < 6" "si549_reach (ucast out) i" "k = i" "\<forall>j<i. \<not> si549_reach (ucast out) j"
    unfolding ks by (auto simp: find_Some_iff)
  define F where "F = unat out * 2 ^ k"
  have lk: "k \<le> 5" using i by simp
  have ls: "ls = k" "h = si549_hsdiv (ucast out * 2 ^ k)" "f = ucast out * 2 ^ k * ucast h"
    using si549_div_first [OF k, of 0] assms(3) by auto
  have F: "unat (ucast out * 2 ^ k :: u64) = F" using si549_step(1) [OF o(2) lk] by (simp add: F_def)
  have Fl: "200000 \<le> F" using o(1) by (simp add: F_def) (metis le_trans mult_le_mono2 nat_mult_1_right one_le_numeral one_le_power)
  have Fg: "10800000000 \<le> F * 2046" using i(2,3) si549_step(2) [OF o(2) lk] by (simp add: F_def)
  have Fu: "F \<le> 800000000"
  proof (cases k)
    case 0 then show ?thesis using o(2) by (simp add: F_def)
  next
    case (Suc j)
    then have "\<not> 10800000000 \<le> unat out * 2 ^ j * 2046" using i si549_step(2) [OF o(2), of j] lk by simp
    then show ?thesis using Suc by (simp add: F_def)
  qed
  define q where "q = 12109728345 div F"
  have h: "unat h = min (if odd q then Suc q else q) 2046" using si549_hsdiv_value [of "ucast out * 2 ^ k", unfolded F, OF Fl] by (simp only: ls(2) q_def Let_def)
  have q1: "F * q \<le> 12109728345" "12109728345 < F * q + F" using dividend_less_times_div [of F 12109728345] Fl by (simp_all add: q_def add.commute)
  have q15: "15 \<le> q"
  proof (rule ccontr)
    assume "\<not> 15 \<le> q"
    then have "F * q \<le> F * 14" by (intro mult_le_mono2) simp
    then show False using q1(2) Fu by linarith
  qed
  have h': "even (unat h)" "0 < unat h" "unat h \<le> 2046" "unat h \<le> q + 1" using h q15 by (auto simp: min_def)
  have Fh: "F * unat h \<le> F * q + F" using mult_le_mono2 [OF h'(4), of F] by simp
  have uh: "unat (ucast h :: u64) = unat h" using h'(3) by (simp add: unsigned_ucast_eq take_bit_nat_eq_self)
  have f: "unat f = F * unat h" unfolding ls(3) using Fh q1 Fu by (subst unat_mult_lem [THEN iffD1]) (simp_all add: F uh)
  have "10800000000 \<le> F * unat h"
  proof (cases "(if odd q then Suc q else q) \<le> 2046")
    case True
    then have "q \<le> unat h" using h by (auto simp: min_def)
    then have "F * q \<le> F * unat h" by simp
    then show ?thesis using q1(2) Fu by linarith
  next
    case False then show ?thesis using h Fg by (simp add: min_def)
  qed
  then show ?thesis using f h' Fh q1(1) lk ls(1) by (simp add: F_def)
qed

text \<open>A frequency the oscillator chip accepts is the oscillator's over an even divider of at most 2046 and a power of two of at
  most 32, and the oscillator runs above its least frequency. It can exceed the greatest one by as much as the frequency
  before the even divider: a divider that is odd is rounded up.\<close>

theorem si549_plan:
  assumes "200000 \<le> out" "out \<le> 800000000" "si549_div (ucast (out :: u32)) [0, 1, 2, 3, 4, 5] 0 = (ls, h, f)"
  shows "ls \<le> 5 \<and> even (unat h) \<and> 0 < unat h \<and> unat h \<le> 2046 \<and> unat f = unat out * 2 ^ ls * unat h \<and>
    10800000000 \<le> unat f \<and> unat f \<le> 12109728345 + unat out * 2 ^ ls"
  by (rule si549_plan_bounds [OF assms])

lemma si549_vco_above: "si549_div 800000000 [0, 1, 2, 3, 4, 5] 0 = (0, 16, 12800000000)"
proof -
  have h: "si549_hsdiv 800000000 = 16"
    by (simp add: si549_hsdiv_def si549_Fvco_max_def Let_def) (simp add: si549_hsdiv_max_def)
  have "si549_reach 800000000 0" by (simp add: si549_reach_def si549_Fvco_min_def si549_hsdiv_max_def)
  then have "find (si549_reach 800000000) [0, 1, 2, 3, 4, 5] = Some 0" by simp
  then have e: "si549_div 800000000 [0, 1, 2, 3, 4, 5] 0 = (0, si549_hsdiv (800000000 * 2 ^ 0), 800000000 * 2 ^ 0 * ucast (si549_hsdiv (800000000 * 2 ^ 0)))"
    by (rule si549_div_first)
  show ?thesis by (rule trans [OF e]) (simp add: h)
qed

theorem si549_plan_witness:
  "(0 :: nat) \<le> 5 \<and> even (unat (16 :: u32)) \<and> 0 < unat (16 :: u32) \<and> unat (16 :: u32) \<le> 2046 \<and>
    unat (12800000000 :: u64) = unat (800000000 :: u32) * 2 ^ 0 * unat (16 :: u32) \<and>
    10800000000 \<le> unat (12800000000 :: u64) \<and> unat (12800000000 :: u64) \<le> 12109728345 + unat (800000000 :: u32) * 2 ^ 0"
  using si549_plan [of 800000000 0 16 12800000000] si549_vco_above by (simp del: si549_div.simps One_nat_def)

end
