(* ===== verification/Xsdr.thy ===== *)
theory Xsdr
  imports Lms7002mCtrlProofs Lms8001 PowerChips Mdev
begin

text \<open>
  The boards with an LMS7002M (\<open>src/lib/device/m2_lm7_1/xsdr_ctrl.c\<close>): power, clocks and start-up of three board types,
  sample rates with the port to the FPGA, the routing of the channels over that port, antenna switches, the converter
  of the SSDR board, and calibration. A board keeps the state of the controller of its transceiver and of the
  converter. Environment variables, the name of the transport and the filter formulas are arguments; delays and log
  messages have no effect here. Not modelled: the clock manager of the port, which is never used, and the power reading.
\<close>

section \<open>State\<close>

text \<open>\<open>xd_mark\<close> is the union of \<open>pmic_ch145_valid\<close> and \<open>dac_old_r5\<close>.\<close>

record xsdr_dev =
  xd_base :: lms7002_dev
  xd_lms8 :: lms8001_state
  xd_hwid :: u32
  xd_dsp_rxcfg :: u8
  xd_hwchans_rx :: u8
  xd_hwchans_tx :: u8
  xd_s_rxrate :: u32
  xd_s_txrate :: u32
  xd_s_adcclk :: u32
  xd_s_dacclk :: u32
  xd_s_flags :: u32
  xd_lms7_lob :: u32
  xd_afe_active :: bool
  xd_siso_rx :: bool
  xd_siso_tx :: bool
  xd_pwr_en :: bool
  xd_new_rev :: bool
  xd_ssdr :: bool
  xd_mark :: bool

type_synonym ('h, 'a) xs = "('h \<times> xsdr_dev, 'a) dev"

datatype tx_switch_cfg = TX_SW_NORMAL | TX_SW_HARD_W | TX_SW_HARD_H

record 'h xsdr_env =
  xe_bus :: "'h bus"
  xe_rbb_def :: "u32 \<Rightarrow> bool \<Rightarrow> int + lms_lpf_params"
  xe_tbb_def :: "u32 \<Rightarrow> bool \<Rightarrow> int + lms_lpf_params"
  xe_ddiv :: "int \<Rightarrow> u32 \<Rightarrow> rat"
  xe_txcfg :: tx_switch_cfg
  xe_force :: bool
  xe_devname :: string

definition on_base :: "('h, 'a) rfic \<Rightarrow> ('h, 'a) xs" where
  "on_base op = (\<lambda>(h, x). case op (h, xd_base x) of (r, (h', b)) \<Rightarrow> (r, (h', x\<lparr>xd_base := b\<rparr>)))"

definition on_l8 :: "('h, 'a) l8 \<Rightarrow> ('h, 'a) xs" where
  "on_l8 op = (\<lambda>(h, x). case op (h, xd_lms8 x) of (r, (h', b)) \<Rightarrow> (r, (h', x\<lparr>xd_lms8 := b\<rparr>)))"

definition SSDR_DEV :: u32 where "SSDR_DEV = 0x31"
definition XSDR_DEV :: u32 where "XSDR_DEV = 0x30"
definition XTRX_DEV :: u32 where "XTRX_DEV = 0x2e"
definition XSDR_INT_REFCLK :: u32 where "XSDR_INT_REFCLK = 26000000"

definition IGPO_LMS_PWR :: u32 where "IGPO_LMS_PWR = 0"
definition IGPO_CLK_CFG :: u32 where "IGPO_CLK_CFG = 1"
definition IGPO_TXSW :: u32 where "IGPO_TXSW = 2"
definition IGPO_RXSW :: u32 where "IGPO_RXSW = 3"
definition IGPO_IOVCCSEL :: u32 where "IGPO_IOVCCSEL = 8"
definition IGPO_DSP_RST :: u32 where "IGPO_DSP_RST = 14"
definition IGPO_LMS8_CTRL :: u32 where "IGPO_LMS8_CTRL = 15"
definition IGPO_USB_CLK_EN :: u32 where "IGPO_USB_CLK_EN = 16"
definition IGPO_LDOLMS_EN :: u32 where "IGPO_LDOLMS_EN = 17"
definition IGPO_LED :: u32 where "IGPO_LED = 18"
definition IGPO_PHYCAL :: u32 where "IGPO_PHYCAL = 19"
definition IGPI_HWID :: u32 where "IGPI_HWID = 12"

section \<open>Registers of the FPGA and chips on the bus\<close>

definition hw_wr32 :: "'h bus \<Rightarrow> u32 \<Rightarrow> u32 \<Rightarrow> ('h, unit) dev" where
  "hw_wr32 bus addr v = dvoid (bus_op bus USDR_LSOP_HWREG addr 0 (le_bytes 4 v))"

definition hw_rd32 :: "'h bus \<Rightarrow> u32 \<Rightarrow> ('h, u32) dev" where
  "hw_rd32 bus addr = dbind (bus_op bus USDR_LSOP_HWREG addr 4 []) (\<lambda>d. dreturn (of_le_bytes d))"

definition dev_gpo_set :: "'h bus \<Rightarrow> u32 \<Rightarrow> u32 \<Rightarrow> ('h, unit) dev" where
  "dev_gpo_set bus bank v = hw_wr32 bus 0 (push_bit 24 (bank AND 0x7f) OR (v AND 0xff))"

definition dev_gpi_get32 :: "'h bus \<Rightarrow> u32 \<Rightarrow> ('h, u32) dev" where
  "dev_gpi_get32 bus bank = hw_rd32 bus (16 + bank div 4)"

definition REG_CFG_PHY_0 :: u32 where "REG_CFG_PHY_0 = 56"

definition MAKE_LSOP_I2C_ADDR :: "u32 \<Rightarrow> u32 \<Rightarrow> u32 \<Rightarrow> u32" where
  "MAKE_LSOP_I2C_ADDR i b a = push_bit 24 (i AND 0xff) OR push_bit 16 (b AND 0xff) OR (a AND 0xffff)"

definition I2C_BUS_LP8758_FPGA :: u32 where "I2C_BUS_LP8758_FPGA = MAKE_LSOP_I2C_ADDR 0 0 0x60"
definition I2C_BUS_LP8758_LMSINIT :: u32 where "I2C_BUS_LP8758_LMSINIT = MAKE_LSOP_I2C_ADDR 0 1 0x60"
definition I2C_BUS_TMP_108 :: u32 where "I2C_BUS_TMP_108 = MAKE_LSOP_I2C_ADDR 0 0 0x4a"
definition I2C_BUS_TMP_114 :: u32 where "I2C_BUS_TMP_114 = MAKE_LSOP_I2C_ADDR 0 0 0x4e"
definition I2C_BUS_DAC_MCP4725 :: u32 where "I2C_BUS_DAC_MCP4725 = MAKE_LSOP_I2C_ADDR 0 0 0x62"
definition I2C_BUS_DAC80501 :: u32 where "I2C_BUS_DAC80501 = MAKE_LSOP_I2C_ADDR 0 0 0x4b"

definition dac_mcp4725_set_vout :: "'h bus \<Rightarrow> u32 \<Rightarrow> ('h, unit) dev" where
  "dac_mcp4725_set_vout bus v = dvoid (i2c_tr bus I2C_BUS_DAC_MCP4725 0 [ucast (drop_bit 12 v AND 0x0f), ucast (drop_bit 4 v AND 0xff)])"

definition dac_mcp4725_get_vout :: "'h bus \<Rightarrow> ('h, u32) dev" where
  "dac_mcp4725_get_vout bus = dbind (i2c_tr bus I2C_BUS_DAC_MCP4725 4 []) (\<lambda>d. dreturn (of_le_bytes d))"

definition dac_x0501_set_reg :: "'h bus \<Rightarrow> u8 \<Rightarrow> u16 \<Rightarrow> ('h, unit) dev" where
  "dac_x0501_set_reg bus reg v = dvoid (i2c_tr bus I2C_BUS_DAC80501 0 [reg, ucast (drop_bit 8 v), ucast v])"

definition dac_x0501_get_reg :: "'h bus \<Rightarrow> u8 \<Rightarrow> ('h, u16) dev" where
  "dac_x0501_get_reg bus reg = dbind (i2c_tr bus I2C_BUS_DAC80501 2 [reg]) (\<lambda>d. dreturn (of_le_bytes d))"

definition xgpo :: "'h xsdr_env \<Rightarrow> u32 \<Rightarrow> u32 \<Rightarrow> ('h, unit) xs" where
  "xgpo X bank v = on_hw (dev_gpo_set (xe_bus X) bank v)"

section \<open>Switches and the port to the FPGA\<close>

definition xsdr_antenna_port_switch :: "'h bus \<Rightarrow> u32 \<Rightarrow> u8 \<Rightarrow> ('h, unit) rfic" where
  "xsdr_antenna_port_switch bus dir path =
    (if dir = RFIC_LMS7_TX then on_hw (dev_gpo_set bus IGPO_TXSW (ucast path))
     else if dir = RFIC_LMS7_RX then on_hw (dev_gpo_set bus IGPO_RXSW (ucast path)) else dfail (- EINVAL))"

definition xsdr_set_rx_port_switch :: "'h xsdr_env \<Rightarrow> u32 \<Rightarrow> ('h, unit) xs" where
  "xsdr_set_rx_port_switch X path = xgpo X IGPO_RXSW path"

definition xsdr_set_tx_port_switch :: "'h xsdr_env \<Rightarrow> u32 \<Rightarrow> ('h, unit) xs" where
  "xsdr_set_tx_port_switch X path = xgpo X IGPO_TXSW path"

definition RFIC_SWAP_IQ :: u32 where "RFIC_SWAP_IQ = push_bit 1 1"

definition stream_is_swap :: "u16 \<Rightarrow> u32 \<Rightarrow> bool" where
  "stream_is_swap chs flags \<longleftrightarrow> (chs = LMS7_CH_AB \<and> flags AND RFIC_SWAP_AB \<noteq> 0) \<or> chs = LMS7_CH_A"

definition stream_is_mimo :: "u16 \<Rightarrow> u32 \<Rightarrow> bool" where
  "stream_is_mimo chs flags \<longleftrightarrow> chs = LMS7_CH_AB \<and> flags AND RFIC_SISO_MODE = 0"

definition LML_AI :: u8 where "LML_AI = 0"
definition LML_AQ :: u8 where "LML_AQ = 1"
definition LML_BI :: u8 where "LML_BI = 2"
definition LML_BQ :: u8 where "LML_BQ = 3"

definition diqarray_rx :: "u8 list list" where
  "diqarray_rx = [[LML_AI, LML_AQ, LML_BI, LML_BQ], [LML_AQ, LML_AI, LML_BQ, LML_BI], [LML_BI, LML_BQ, LML_AI, LML_AQ], [LML_BQ, LML_BI, LML_AQ, LML_AI],
     [LML_AI, LML_AQ, LML_AI, LML_AQ], [LML_AQ, LML_AI, LML_AQ, LML_AI], [LML_BI, LML_BQ, LML_BI, LML_BQ], [LML_BQ, LML_BI, LML_BQ, LML_BI]]"

definition diqarray_tx :: "u8 list list" where
  "diqarray_tx = [[LML_AQ, LML_AI, LML_BQ, LML_BI], [LML_AI, LML_AQ, LML_BI, LML_BQ], [LML_BQ, LML_BI, LML_AQ, LML_AI], [LML_BI, LML_BQ, LML_AI, LML_AQ],
     [LML_AQ, LML_AI, LML_AQ, LML_AI], [LML_AI, LML_AQ, LML_AI, LML_AQ], [LML_BQ, LML_BI, LML_BQ, LML_BI], [LML_BI, LML_BQ, LML_BI, LML_BQ]]"

definition diqidx :: "u16 \<Rightarrow> u32 \<Rightarrow> bool \<Rightarrow> nat" where
  "diqidx chs flags no_siso_map = (if flags AND RFIC_SWAP_IQ \<noteq> 0 then 1 else 0) + (if stream_is_swap chs flags then 2 else 0) +
     (if \<not> no_siso_map \<and> \<not> stream_is_mimo chs flags then 4 else 0)"

definition lms7nfe_get_lml_portcfg :: "bool \<Rightarrow> u16 \<Rightarrow> u32 \<Rightarrow> bool \<Rightarrow> u8 list" where
  "lms7nfe_get_lml_portcfg rx chs flags no_siso_map = (if rx then diqarray_rx else diqarray_tx) ! diqidx chs flags no_siso_map"

definition xsdr_rfic :: "'h xsdr_env \<Rightarrow> 'h rfic_env" where
  "xsdr_rfic X = \<lparr>re_bus = xe_bus X, re_ant_sw = xsdr_antenna_port_switch (xe_bus X),
     re_portcfg = (\<lambda>rx chs flags. lms7nfe_get_lml_portcfg rx chs flags False), re_rbb_def = xe_rbb_def X, re_tbb_def = xe_tbb_def X, re_ddiv = xe_ddiv X\<rparr>"

definition xlms :: "('h, 'a) lms \<Rightarrow> ('h, 'a) xs" where
  "xlms op = on_base (on_lms op)"

definition xsdr_rfic_streaming_xflags :: "'h xsdr_env \<Rightarrow> u32 \<Rightarrow> u32 \<Rightarrow> ('h, unit) xs" where
  "xsdr_rfic_streaming_xflags X xor_rx xor_tx =
    dseq (dmod (\<lambda>x. x\<lparr>xd_dsp_rxcfg := ucast xor_rx AND 0xf\<rparr>))
     (dseq (dmod (\<lambda>x. let b = xd_base x; rxf = (if xd_hwchans_rx x = 1 then RFIC_SISO_MODE else 0); txf = (if xd_hwchans_tx x = 1 then RFIC_SISO_MODE else 0)
         in x\<lparr>xd_base := b\<lparr>
           ld_map_rx := lms7nfe_get_lml_portcfg True (fst (ld_lml_rx b)) (rxf OR (snd (ld_lml_rx b) XOR ucast (xd_dsp_rxcfg x))) False,
           ld_map_tx := lms7nfe_get_lml_portcfg False (fst (ld_lml_tx b)) (txf OR (snd (ld_lml_tx b) XOR xor_tx)) False\<rparr>\<rparr>))
      (dbind (dget xd_base) (\<lambda>b. let p = lc_rx_port (ld_lml_mode b) in
        xlms (lms7002m_limelight_map (xe_bus X) (if p then ld_map_rx b else ld_map_tx b) (if p then ld_map_tx b else ld_map_rx b)))))"

definition xsdr_hwchans_cnt :: "'h xsdr_env \<Rightarrow> bool \<Rightarrow> u32 \<Rightarrow> ('h, unit) xs" where
  "xsdr_hwchans_cnt X rx chans = dbind (dget (\<lambda>x. (xd_hwchans_rx x, xd_hwchans_tx x))) (\<lambda>old.
     dseq (dmod (\<lambda>x. if rx then x\<lparr>xd_hwchans_rx := ucast chans\<rparr> else x\<lparr>xd_hwchans_tx := ucast chans\<rparr>))
      (dbind (dget (\<lambda>x. (xd_hwchans_rx x, xd_hwchans_tx x))) (\<lambda>new.
        if new \<noteq> old then xsdr_rfic_streaming_xflags X 0 0 else dreturn ())))"

section \<open>Power and start-up\<close>

definition xsdr_pwren_revx :: "'h xsdr_env \<Rightarrow> bool \<Rightarrow> ('h, unit) xs" where
  "xsdr_pwren_revx X on = dbind (dget xd_mark) (\<lambda>pmic.
     if on \<and> \<not> pmic then dfail (- EIO) else xgpo X IGPO_LDOLMS_EN (if on then 1 else 0))"

definition xsdr_pwren_revo :: "bool \<Rightarrow> ('h, unit) xs" where
  "xsdr_pwren_revo on = dreturn ()"

definition xsdr_pwren :: "'h xsdr_env \<Rightarrow> bool \<Rightarrow> ('h, unit) xs" where
  "xsdr_pwren X on = dseq (xgpo X IGPO_LMS_PWR 0) (dbind (dget xd_new_rev) (\<lambda>new_rev.
     dseq (if new_rev then xsdr_pwren_revx X on else xsdr_pwren_revo on)
    (dseq (xgpo X IGPO_LMS_PWR 1)
    (dseq (xgpo X IGPO_LMS_PWR 9)
    (dseq (xlms (lms7002m_create (xe_bus X) 0 (if new_rev then 0 else 0x01B10D15) True))
      (dmod (\<lambda>x. x\<lparr>xd_pwr_en := on\<rparr>)))))))"

definition xsdr_checkpwr :: "'h xsdr_env \<Rightarrow> ('h, unit) xs" where
  "xsdr_checkpwr X = dbind (dget xd_pwr_en) (\<lambda>p. if p then dreturn () else xsdr_pwren X True)"

definition fbm :: "u32 \<Rightarrow> u8 \<Rightarrow> u8 \<Rightarrow> u8 \<Rightarrow> string \<Rightarrow> string \<Rightarrow> freq_auto_band_map" where
  "fbm stop band sw swlb n0 n1 = \<lparr>fb_stop_freq = stop, fb_band = band, fb_sw = sw, fb_swlb = swlb, fb_name0 = n0, fb_name1 = n1\<rparr>"

definition revx_rx :: "u32 \<Rightarrow> freq_auto_band_map list" where
  "revx_rx hwid = (if hwid = SSDR_DEV
     then [fbm 3000000000 3 1 0 ''LNAW'' ''W'', fbm 4000000000 1 0 1 ''LNAH'' ''H'', fbm 4000000000 2 1 0 ''LNAL'' ''EXT'']
     else [fbm 2200000000 3 0 1 ''LNAW'' ''W'', fbm 4000000000 1 1 0 ''LNAH'' ''H'', fbm 4000000000 2 1 0 ''LNAL'' ''EXT''])"

definition revx_tx :: "tx_switch_cfg \<Rightarrow> u32 \<Rightarrow> freq_auto_band_map list" where
  "revx_tx txcfg hwid = [fbm (if hwid = SSDR_DEV then 3000000000 else case txcfg of TX_SW_HARD_H \<Rightarrow> 0 | TX_SW_HARD_W \<Rightarrow> 4000000000 | _ \<Rightarrow> 2200000000) 1 1 0 ''W'' ''B1'',
     fbm 4000000000 2 0 1 ''H'' ''B2'']"

text \<open>Waiting for the voltages: 100 readings.\<close>

primrec xsdr_wait_pg :: "'h bus \<Rightarrow> u32 \<Rightarrow> nat \<Rightarrow> ('h, bool) dev" where
  "xsdr_wait_pg bus a 0 = dreturn False"
| "xsdr_wait_pg bus a (Suc n) = dbind (lp8758_check_pg bus a 0xf) (\<lambda>pg. if pg then dreturn True else xsdr_wait_pg bus a n)"

definition revx_supplies :: "'h bus \<Rightarrow> u32 \<Rightarrow> ('h, bool) dev" where
  "revx_supplies bus hwid = (let a = I2C_BUS_LP8758_FPGA in
     dseq (lp8758_vout_set bus a 1 (if hwid = SSDR_DEV then 2040 else 1480))
    (dseq (dlist [lp8758_vout_set bus a 2 1260, lp8758_vout_set bus a 3 1850, lp8758_vout_ctrl bus a 0 True True, lp8758_vout_ctrl bus a 1 True True,
        lp8758_vout_ctrl bus a 2 True True, lp8758_vout_ctrl bus a 3 True True]) (xsdr_wait_pg bus a 100)))"

definition ssdr_start :: "'h xsdr_env \<Rightarrow> ('h, unit) xs" where
  "ssdr_start X = dlist [xgpo X IGPO_LMS8_CTRL 0, xgpo X IGPO_LDOLMS_EN 1, xgpo X IGPO_LMS_PWR 9,
     on_hw (dvoid (spi_tr32_rd (xe_bus X) 0 0x002F0000)), xgpo X IGPO_LMS8_CTRL 0x81,
     on_hw (dvoid (spi_tr32_rd (xe_bus X) 0 0x800000ff)), on_hw (dvoid (spi_tr32_rd (xe_bus X) 0 0x000f0000)),
     on_l8 (lms8001_create (xe_bus X) 0), xgpo X IGPO_LMS8_CTRL 0x80]"

text \<open>A failure of the voltage regulator and a voltage that does not come up are the same error.\<close>

definition xsdr_init_revx :: "'h xsdr_env \<Rightarrow> u32 \<Rightarrow> ('h, unit) xs" where
  "xsdr_init_revx X hwid =
    dseq (dmod (\<lambda>x. x\<lparr>xd_base := (xd_base x)\<lparr>ld_cfg_rx := revx_rx hwid, ld_cfg_tx := revx_tx (xe_txcfg X) hwid\<rparr>\<rparr>))
   (dseq (xgpo X IGPO_LMS_PWR 0)
   (dbind (on_hw (lp8758_get_rev (xe_bus X) I2C_BUS_LP8758_FPGA)) (\<lambda>rev.
    dseq (dmod (\<lambda>x. if rev = 0xe001 then x\<lparr>xd_mark := True\<rparr> else x))
   (dbind (dtry (on_hw (revx_supplies (xe_bus X) hwid))) (\<lambda>r. if r \<noteq> Inr True then dfail (- EIO)
     else dseq (xgpo X IGPO_CLK_CFG 1) (if hwid = SSDR_DEV then ssdr_start X else dreturn ()))))))"

definition revo_rx :: "freq_auto_band_map list" where
  "revo_rx = [fbm 1100000000 2 1 3 ''LNAL'' ''L'', fbm 2700000000 3 0 3 ''LNAW'' ''W'', fbm 4000000000 1 2 3 ''LNAH'' ''H'']"

definition revo_tx :: "freq_auto_band_map list" where
  "revo_tx = [fbm 2200000000 2 0 1 ''W'' ''B2'', fbm 4000000000 1 1 0 ''H'' ''B1'']"

definition revo_supplies :: "'h bus \<Rightarrow> ('h, bool) dev" where
  "revo_supplies bus = (let a = I2C_BUS_LP8758_LMSINIT in
     dseq (dlist [lp8758_vout_set bus a 0 2060, lp8758_vout_set bus a 1 3360, lp8758_vout_set bus a 2 1760, lp8758_vout_set bus a 3 1500,
        lp8758_vout_ctrl bus a 0 True True, lp8758_vout_ctrl bus a 1 True True, lp8758_vout_ctrl bus a 2 True True, lp8758_vout_ctrl bus a 3 True True])
      (xsdr_wait_pg bus a 100))"

text \<open>The digital-to-analogue converter tells the revision of the board.\<close>

definition revo_dac :: "'h xsdr_env \<Rightarrow> ('h, unit) xs" where
  "revo_dac X = (let bus = xe_bus X in
     dbind (on_hw (dac_x0501_get_reg bus 1)) (\<lambda>devid.
      if devid = 0x0194 \<or> devid = 0x0195 \<or> devid = 0x2195
      then dseq (on_hw (dac_x0501_set_reg bus 4 0x0101)) (dseq (on_hw (dac_x0501_set_reg bus 8 43253)) (dmod (\<lambda>x. x\<lparr>xd_mark := True\<rparr>)))
      else if devid = 0xbeef \<or> devid = 0xffff
      then dseq (on_hw (dac_mcp4725_set_vout bus 36011)) (dseq (on_hw (dvoid (dac_mcp4725_get_vout bus))) (dmod (\<lambda>x. x\<lparr>xd_mark := False\<rparr>)))
      else dfail (- EIO)))"

definition xsdr_init_revo :: "'h xsdr_env \<Rightarrow> ('h, unit) xs" where
  "xsdr_init_revo X = (let bus = xe_bus X in
     dseq (dmod (\<lambda>x. x\<lparr>xd_base := (xd_base x)\<lparr>ld_cfg_rx := revo_rx, ld_cfg_tx := revo_tx\<rparr>\<rparr>))
    (dseq (xgpo X IGPO_IOVCCSEL 1) (dseq (xgpo X IGPO_LMS_PWR (push_bit 4 1))
    (dbind (on_hw (lp8758_get_rev bus I2C_BUS_LP8758_LMSINIT)) (\<lambda>rev. if rev \<noteq> 0xe001 then dfail (- EIO)
     else dbind (on_hw (revo_supplies bus)) (\<lambda>pg. if \<not> pg then dfail (- EIO)
     else dseq (xgpo X IGPO_LMS_PWR 0)
    (dbind (on_hw (lp8758_get_rev bus I2C_BUS_LP8758_FPGA)) (\<lambda>rev. if rev \<noteq> 0xe001 then dfail (- EIO)
     else dseq (on_hw (dlist [lp8758_vout_set bus I2C_BUS_LP8758_FPGA 1 3000, lp8758_vout_ctrl bus I2C_BUS_LP8758_FPGA 0 True True,
          lp8758_vout_ctrl bus I2C_BUS_LP8758_FPGA 1 True True, lp8758_vout_ctrl bus I2C_BUS_LP8758_FPGA 2 True True,
          lp8758_vout_ctrl bus I2C_BUS_LP8758_FPGA 3 True True])) (revo_dac X)))))))))"

definition xsdr_init :: "'h xsdr_env \<Rightarrow> ('h, unit) xs" where
  "xsdr_init X = dbind (on_hw (dev_gpi_get32 (xe_bus X) IGPI_HWID)) (\<lambda>hwid. let devid = drop_bit 16 hwid AND 0xff in
     dseq (dmod (\<lambda>x. x\<lparr>xd_hwid := hwid, xd_hwchans_rx := 2, xd_hwchans_tx := 2, xd_siso_rx := False, xd_siso_tx := False,
        xd_base := lms7002m_init XSDR_INT_REFCLK (xd_base x)\<rparr>))
    (dseq (if devid = XSDR_DEV then dmod (\<lambda>x. x\<lparr>xd_new_rev := True, xd_ssdr := False\<rparr>)
        else if devid = XTRX_DEV then dmod (\<lambda>x. x\<lparr>xd_new_rev := False, xd_ssdr := False\<rparr>)
        else if devid = SSDR_DEV then dmod (\<lambda>x. x\<lparr>xd_new_rev := True, xd_ssdr := True\<rparr>)
        else if xe_force X then dmod (\<lambda>x. x\<lparr>xd_new_rev := True\<rparr>) else dfail (- EINVAL))
      (dbind (dget xd_new_rev) (\<lambda>n. if n then xsdr_init_revx X devid else xsdr_init_revo X))))"

section \<open>Sample rates, streams and frequencies\<close>

definition lml_rx_valid :: "u32 \<Rightarrow> bool" where
  "lml_rx_valid pid \<longleftrightarrow> pid \<in> {3, 4, 5, 6, 7}"

definition xsdr_rx_port_1 :: "u32 \<Rightarrow> bool" where
  "xsdr_rx_port_1 hwid \<longleftrightarrow> \<not> (lml_rx_valid (drop_bit 4 hwid AND 7) \<and> \<not> lml_rx_valid (hwid AND 7))"

text \<open>Failures of enabling the converters and of the first two writes to the port are not seen.\<close>

definition xsdr_set_samplerate_ex :: "'h xsdr_env \<Rightarrow> u32 \<Rightarrow> u32 \<Rightarrow> u32 \<Rightarrow> u32 \<Rightarrow> u32 \<Rightarrow> ('h, unit) xs" where
  "xsdr_set_samplerate_ex X rx txrate adcclk dacclk flags =
    (let rxrate = (if rx = 0 \<and> txrate = 0 then 1000000 else rx); bus = xe_bus X in
     dseq (xsdr_checkpwr X)
      (dbind (dget (\<lambda>x. flags OR (if xd_siso_rx x \<and> xd_hwchans_rx x = 1 then XSDR_LML_SISO_DDR_RX else 0)
                          OR (if xd_siso_tx x \<and> xd_hwchans_tx x = 1 then XSDR_LML_SISO_DDR_TX else 0))) (\<lambda>m_flags.
       dbind (dget (\<lambda>x. xsdr_rx_port_1 (xd_hwid x))) (\<lambda>port1.
       dseq (on_base (lms7002m_samplerate (xsdr_rfic X) \<lparr>sr_rx = rxrate, sr_tx = txrate, sr_adc = adcclk, sr_dac = dacclk, sr_flags = m_flags\<rparr> port1))
      (dseq (dmod (\<lambda>x. x\<lparr>xd_s_rxrate := rxrate, xd_s_txrate := txrate, xd_s_adcclk := adcclk, xd_s_dacclk := dacclk, xd_s_flags := m_flags\<rparr>))
      (dseq (dbind (dget xd_afe_active) (\<lambda>a. if a then dreturn ()
               else dseq (dignore (xlms (lms7002m_afe_enable bus True True True True))) (dmod (\<lambda>x. x\<lparr>xd_afe_active := True\<rparr>))))
       (dbind (dget (\<lambda>x. if lc_rxsisoddr (ld_lml_mode (xd_base x)) then 8 else 0)) (\<lambda>siso.
         dseq (dignore (on_hw (hw_wr32 bus REG_CFG_PHY_0 (0x80000007 OR siso))))
        (dseq (dignore (on_hw (hw_wr32 bus REG_CFG_PHY_0 (0x80000000 OR siso))))
          (on_hw (hw_wr32 bus REG_CFG_PHY_0 0x02000000)))))))))))"

definition xsdr_set_samplerate :: "'h xsdr_env \<Rightarrow> u32 \<Rightarrow> u32 \<Rightarrow> u32 \<Rightarrow> u32 \<Rightarrow> ('h, unit) xs" where
  "xsdr_set_samplerate X rxrate txrate adcclk dacclk = xsdr_set_samplerate_ex X rxrate txrate adcclk dacclk 0"

definition xsdr_clk_debug_info :: "'h xsdr_env \<Rightarrow> ('h, unit) xs" where
  "xsdr_clk_debug_info X = dlist (map (\<lambda>b. on_hw (dvoid (dev_gpi_get32 (xe_bus X) b))) [16, 20, 24])"

definition xsdr_rfic_streaming_up :: "'h xsdr_env \<Rightarrow> u32 \<Rightarrow> u16 \<Rightarrow> u32 \<Rightarrow> u16 \<Rightarrow> u32 \<Rightarrow> ('h, unit) xs" where
  "xsdr_rfic_streaming_up X dir rx_chs rx_flags tx_chs tx_flags = on_base (lms7002m_streaming_up (xsdr_rfic X) dir rx_chs rx_flags tx_chs tx_flags)"

definition xsdr_rfic_streaming_down :: "'h xsdr_env \<Rightarrow> u32 \<Rightarrow> ('h, unit) xs" where
  "xsdr_rfic_streaming_down X dir = dseq (dmod (\<lambda>x. x\<lparr>xd_afe_active := False\<rparr>)) (on_base (lms7002m_streaming_down (xsdr_rfic X) dir))"

definition xsdr_rfic_bb_set_freq :: "'h xsdr_env \<Rightarrow> u32 \<Rightarrow> bool \<Rightarrow> int \<Rightarrow> ('h, unit) xs" where
  "xsdr_rfic_bb_set_freq X channel dir_tx freq = on_base (lms7002m_bb_set_freq (xsdr_rfic X) channel dir_tx freq)"

definition xsdr_rfic_bb_set_badwidth :: "'h xsdr_env \<Rightarrow> u32 \<Rightarrow> bool \<Rightarrow> u32 \<Rightarrow> ('h, u32) xs" where
  "xsdr_rfic_bb_set_badwidth X channel dir_tx bw = on_base (lms7002m_bb_set_badwidth (xsdr_rfic X) channel dir_tx bw)"

definition xsdr_rfic_set_gain :: "'h xsdr_env \<Rightarrow> u32 \<Rightarrow> rfic_lms7_gain_types option \<Rightarrow> int \<Rightarrow> ('h, int) xs" where
  "xsdr_rfic_set_gain X channel gain_type gain = on_base (lms7002m_set_gain (xsdr_rfic X) channel gain_type gain)"

definition xsdr_rfic_rfe_set_path :: "'h xsdr_env \<Rightarrow> rfic_lms7_rf_path \<Rightarrow> ('h, unit) xs" where
  "xsdr_rfic_rfe_set_path X path = on_base (lms7002m_rfe_set_path (xsdr_rfic X) path)"

definition xsdr_rfic_tfe_set_path :: "'h xsdr_env \<Rightarrow> rfic_lms7_rf_path \<Rightarrow> ('h, unit) xs" where
  "xsdr_rfic_tfe_set_path X path = on_base (lms7002m_tfe_set_path (xsdr_rfic X) path)"

definition xsdr_rfic_fe_set_lna :: "'h xsdr_env \<Rightarrow> u32 \<Rightarrow> rfic_lms7_rf_path option \<Rightarrow> ('h, unit) xs" where
  "xsdr_rfic_fe_set_lna X channel lna = on_base (lms7002m_fe_set_lna (xsdr_rfic X) channel lna)"

text \<open>Above 3.7 GHz the converter of the SSDR board brings the signal to 1.01 GHz.\<close>

definition SSDR_LOB :: u32 where "SSDR_LOB = 1010000000"

definition ssdr_lo :: "rat \<Rightarrow> int + u64" where
  "ssdr_lo freq = (let n = \<lfloor>freq - of_nat (unat SSDR_LOB)\<rfloor> in if 0 \<le> n \<and> n < 2 ^ 64 then Inr (of_int n) else Inl OUT_OF_BOUNDS)"

definition xsdr_rfic_fe_set_freq :: "'h xsdr_env \<Rightarrow> rfic_lms7_tune_types option \<Rightarrow> rat \<Rightarrow> ('h, rat) xs" where
  "xsdr_rfic_fe_set_freq X typ freq = dbind (dget xd_ssdr) (\<lambda>ssdr.
     if ssdr \<and> freq > 3700000000
     then dseq (dmod (\<lambda>x. x\<lparr>xd_lms7_lob := SSDR_LOB\<rparr>))
       (dbind (dlift (ssdr_lo freq)) (\<lambda>lo.
        dbind (dtry (dseq (xgpo X IGPO_LMS8_CTRL 0x81) (dbind (dget (\<lambda>x. ld_fref (xd_base x))) (\<lambda>fref. on_l8 (lms8001_tune (xe_bus X) fref lo))))) (\<lambda>r.
        dseq (dignore (xgpo X IGPO_LMS8_CTRL 0x80))
       (dseq (dlift r) (on_base (lms7002m_fe_set_freq (xsdr_rfic X) typ (of_nat (unat SSDR_LOB))))))))
     else dseq (dmod (\<lambda>x. x\<lparr>xd_lms7_lob := 0\<rparr>)) (on_base (lms7002m_fe_set_freq (xsdr_rfic X) typ freq)))"

definition xsdr_trspi_lms8 :: "'h xsdr_env \<Rightarrow> u32 \<Rightarrow> ('h, u32) xs" where
  "xsdr_trspi_lms8 X out = dbind (dget xd_ssdr) (\<lambda>ssdr. if \<not> ssdr then dfail (- EINVAL)
     else dseq (xgpo X IGPO_LMS8_CTRL 0x81) (dbind (on_hw (spi_tr32_rd (xe_bus X) 0 out)) (\<lambda>v. dseq (xgpo X IGPO_LMS8_CTRL 0x80) (dreturn v))))"

section \<open>Reference, preparation and end\<close>

definition xsdr_usbclk :: "'h xsdr_env \<Rightarrow> bool \<Rightarrow> ('h, unit) xs" where
  "xsdr_usbclk X uclk = xgpo X IGPO_USB_CLK_EN (if uclk then 1 else 0)"

definition xsdr_set_extref :: "'h xsdr_env \<Rightarrow> bool \<Rightarrow> u32 \<Rightarrow> ('h, unit) xs" where
  "xsdr_set_extref X ext freq =
    dseq (dmod (\<lambda>x. x\<lparr>xd_base := (xd_base x)\<lparr>ld_fref := (if ext then freq else XSDR_INT_REFCLK)\<rparr>\<rparr>))
     (xgpo X IGPO_CLK_CFG ((if sublist ''usb'' (xe_devname X) then 1 else 0) OR (if ext then 2 else 0)))"

definition xsdr_dtor :: "'h xsdr_env \<Rightarrow> ('h, unit) xs" where
  "xsdr_dtor X = dseq (xsdr_rfic_streaming_down X (RFIC_LMS7_RX OR RFIC_LMS7_TX))
    (dseq (xlms (lms7002m_destroy (xe_bus X)))
    (dseq (xgpo X IGPO_LMS_PWR 0) (dseq (xgpo X IGPO_LDOLMS_EN 0) (dseq (xgpo X IGPO_LED 0)
     (dbind (dget xd_ssdr) (\<lambda>ssdr. if ssdr then on_hw (dseq (lp8758_vout_set (xe_bus X) I2C_BUS_LP8758_FPGA 1 900)
        (lp8758_vout_ctrl (xe_bus X) I2C_BUS_LP8758_FPGA 1 False True)) else dreturn ()))))))"

definition lms_pwr_mask :: "bool \<Rightarrow> bool \<Rightarrow> u32" where
  "lms_pwr_mask rxen txen = 1 OR 8 OR (if rxen then 2 else 0) OR (if txen then 4 else 0)"

definition xsdr_prepare :: "'h xsdr_env \<Rightarrow> bool \<Rightarrow> bool \<Rightarrow> ('h, unit) xs" where
  "xsdr_prepare X rxen txen =
    dseq (dbind (dget (\<lambda>x. ld_cgen_clk (xd_base x))) (\<lambda>c. if c = 0
        then xsdr_set_samplerate_ex X (if rxen then 1000000 else 0) (if txen then 1000000 else 0) 0 0 (XSDR_SR_MAXCONVRATE OR XSDR_SR_EXTENDED_CGEN)
        else dreturn ()))
   (dseq (if rxen then dseq (xgpo X IGPO_DSP_RST 1) (xgpo X IGPO_DSP_RST 0) else dreturn ())
   (dseq (xgpo X IGPO_LMS_PWR (lms_pwr_mask rxen txen))
   (dseq (xgpo X IGPO_LED 1)
   (dseq (dmod (\<lambda>x. x\<lparr>xd_base := (xd_base x)\<lparr>ld_rx_run := (ld_rx_run (xd_base x))(0 := rxen, 1 := rxen), ld_tx_run := (ld_tx_run (xd_base x))(0 := txen, 1 := txen)\<rparr>\<rparr>))
   (dseq (xsdr_rfic_streaming_up X ((if rxen then RFIC_LMS7_RX else 0) OR (if txen then RFIC_LMS7_TX else 0)) LMS7_CH_AB 0 LMS7_CH_AB 0)
   (dseq (xgpo X IGPO_PHYCAL (0x40 OR 1))
   (dseq (xgpo X IGPO_PHYCAL (0x40 OR 0))
     (dignore (xlms (lms7002m_limelight_reset (xe_bus X)))))))))))"

section \<open>Calibration and the rest\<close>

definition xsdr_tx_antennat_port_cfg :: "u32 \<Rightarrow> ('h, unit) xs" where
  "xsdr_tx_antennat_port_cfg m = dfail (- ENOTSUP)"

definition xsdrcal_set_nco_offset :: "int \<Rightarrow> ('h, unit) xs" where
  "xsdrcal_set_nco_offset offset = dfail (- EINVAL)"

text \<open>The measurement fails before it measures.\<close>

definition xsdrcal_do_meas_nco_avg :: "('h, unit) xs" where
  "xsdrcal_do_meas_nco_avg = dfail (- EINVAL)"

definition xsdrcal_set_tx_testsig :: "'h xsdr_env \<Rightarrow> int \<Rightarrow> u32 \<Rightarrow> u32 \<Rightarrow> ('h, unit) xs" where
  "xsdrcal_set_tx_testsig X channel freqoffset pwr = on_base (lms7002m_set_tx_testsig (xsdr_rfic X) channel freqoffset pwr)"

definition xsdrcal_set_corr_param :: "'h xsdr_env \<Rightarrow> int \<Rightarrow> u32 \<Rightarrow> int \<Rightarrow> ('h, unit) xs" where
  "xsdrcal_set_corr_param X channel corr_type v = on_base (lms7002m_set_corr_param (xsdr_rfic X) channel corr_type v)"

text \<open>The rates of a calibration: quotients by the four dividers.\<close>

definition xsdrcal_init_calibrate :: "('h, unit) xs" where
  "xsdrcal_init_calibrate = dbind (dget xd_base) (\<lambda>b.
     if ld_rxcgen_div b = 0 \<or> ld_txcgen_div b = 0 \<or> ld_rxtsp_div b = 0 \<or> ld_txtsp_div b = 0 then dfail CRASH_FPE else dreturn ())"

definition XSDR_CAL_RXLO :: u32 where "XSDR_CAL_RXLO = 1"
definition XSDR_CAL_TXLO :: u32 where "XSDR_CAL_TXLO = 2"
definition XSDR_CAL_RXIQIMB :: u32 where "XSDR_CAL_RXIQIMB = 4"
definition XSDR_CAL_TXIQIMB :: u32 where "XSDR_CAL_TXIQIMB = 8"
definition XSDR_DONT_SETBACK :: u32 where "XSDR_DONT_SETBACK = 65536"

text \<open>The steps up to the first one that always fails; those behind it are never reached.\<close>

definition xsdr_calibrate :: "'h xsdr_env \<Rightarrow> u32 \<Rightarrow> u32 \<Rightarrow> ('h, unit) xs" where
  "xsdr_calibrate X channel param =
    (let norestore = (param AND XSDR_DONT_SETBACK = XSDR_DONT_SETBACK); ch = (if channel = 0 then LMS7_CH_A else LMS7_CH_B) in
     if channel > 1 then dfail (- EINVAL)
     else dbind (dget (\<lambda>x. (xd_dsp_rxcfg x, ld_rx_lo (xd_base x)))) (\<lambda>(old_rxcfg, rx_lo).
      dseq xsdrcal_init_calibrate
     (dseq (xsdr_rfic_streaming_xflags X (if channel = 1 then RFIC_SWAP_AB else 0) 0)
     (dseq (xlms (lms7002m_mac_set (xe_bus X) ch))
     (dseq (if param AND XSDR_CAL_RXLO \<noteq> 0 \<and> rx_lo > 0 then xsdrcal_set_nco_offset 0 else dreturn ())
      (if param AND (XSDR_CAL_TXLO OR XSDR_CAL_RXIQIMB OR XSDR_CAL_TXIQIMB) = 0
       then if norestore then dreturn ()
         else dseq xsdrcal_do_meas_nco_avg (dseq (xsdr_rfic_streaming_xflags X (ucast old_rxcfg) 0) (xsdrcal_set_tx_testsig X (uint channel) 0 0xffffffff))
       else xsdr_tx_antennat_port_cfg (if channel = 0 then 1 else 2)))))))"

definition xsdr_gettemp :: "'h xsdr_env \<Rightarrow> ('h, int) xs" where
  "xsdr_gettemp X = dbind (dget xd_new_rev) (\<lambda>n. on_hw (if n then tmp114_temp_get (xe_bus X) I2C_BUS_TMP_114 else tmp108_temp_get (xe_bus X) I2C_BUS_TMP_108))"

definition xsdr_trim_dac_vctcxo :: "'h xsdr_env \<Rightarrow> u16 \<Rightarrow> ('h, unit) xs" where
  "xsdr_trim_dac_vctcxo X v = dbind (dget (\<lambda>x. (xd_new_rev x, xd_mark x))) (\<lambda>(n, r5).
     if n then dfail (- ENOTSUP) else on_hw (if r5 then dac_x0501_set_reg (xe_bus X) 8 v else dac_mcp4725_set_vout (xe_bus X) (ucast v)))"

section \<open>The board and its controller\<close>

text \<open>The antenna switch is on registers of the FPGA: it leaves the transceiver alone.\<close>

lemma xsdr_switch_apart: "switch_apart (xsdr_rfic X)"
  by (auto simp: switch_apart_def xsdr_rfic_def xsdr_antenna_port_switch_def on_hw_def dfail_def split: prod.splits if_splits)

interpretation xsdr_board: rfic_board "xsdr_rfic X" for X :: "'h xsdr_env"
  by unfold_locales (rule xsdr_switch_apart)

definition xsynced :: "xsdr_dev \<Rightarrow> bool" where
  "xsynced x \<longleftrightarrow> rfic_synced (xd_base x)"

definition xinv :: "('h, 'a) xs \<Rightarrow> bool" where
  "xinv op \<longleftrightarrow> (\<forall>s v s'. op s = (Inr v, s') \<longrightarrow> xsynced (snd s) \<longrightarrow> xsynced (snd s'))"

text \<open>Calls that leave the two registers as they are, also when they fail.\<close>

definition xstill :: "('h, 'a) xs \<Rightarrow> bool" where
  "xstill op \<longleftrightarrow> (\<forall>s v s'. op s = (v, s') \<longrightarrow> macs (xd_base (snd s')) = macs (xd_base (snd s)))"

named_theorems xrules

lemma xinv_still: "xstill op \<Longrightarrow> xinv op"
  unfolding xstill_def xinv_def xsynced_def rfic_synced_def lms_synced_def macs_def by (metis prod.inject)

lemma xinv_bind [xrules]: "xinv m \<Longrightarrow> (\<And>a. xinv (k a)) \<Longrightarrow> xinv (dbind m k)"
  unfolding xinv_def
proof (intro allI impI)
  fix s v s' assume m: "\<forall>s v s'. m s = (Inr v, s') \<longrightarrow> xsynced (snd s) \<longrightarrow> xsynced (snd s')"
    and k: "\<And>a. \<forall>s v s'. k a s = (Inr v, s') \<longrightarrow> xsynced (snd s) \<longrightarrow> xsynced (snd s')"
    and r: "dbind m k s = (Inr v, s')" "xsynced (snd s)"
  from r(1) show "xsynced (snd s')" by (cases rule: dbind_cases) (use m k r(2) in \<open>auto, blast\<close>)
qed

lemma xinv_seq [xrules]: "xinv m \<Longrightarrow> xinv k \<Longrightarrow> xinv (dseq m k)"
  unfolding dseq_def by (rule xinv_bind)

lemma xinv_if [xrules]: "xinv m \<Longrightarrow> xinv k \<Longrightarrow> xinv (if b then m else k)"
  by simp

lemma xstill_basic: "xstill (dreturn a)" "xstill (dfail e)" "xstill (dget g)" "xstill (on_hw op)" "xstill (on_l8 lop)" "xstill (dlift r)"
  by (auto simp: xstill_def dreturn_def dfail_def dget_def on_hw_def on_l8_def dlift_def split: prod.splits sum.splits)

lemmas xinv_basic [xrules] = xstill_basic [THEN xinv_still]

lemma xstill_mod: "(\<And>x. macs (xd_base (f x)) = macs (xd_base x)) \<Longrightarrow> xstill (dmod f)"
  by (auto simp: xstill_def dmod_def)

lemma xinv_mod [xrules]: "(\<And>x. macs (xd_base (f x)) = macs (xd_base x)) \<Longrightarrow> xinv (dmod f)"
  by (rule xinv_still) (rule xstill_mod)

lemma xstill_bind: "xstill m \<Longrightarrow> (\<And>a. xstill (k a)) \<Longrightarrow> xstill (dbind m k)"
  unfolding xstill_def dbind_def by (auto split: prod.splits sum.splits)

lemma xstill_try: "xstill m \<Longrightarrow> xstill (dtry m)"
  unfolding xstill_def dtry_def by (auto split: prod.splits)

lemma xstill_ignore: "xstill m \<Longrightarrow> xstill (dignore m)"
  unfolding dignore_def by (intro xstill_bind xstill_try xstill_basic)

lemma xinv_base: "sync_inv op \<Longrightarrow> xinv (on_base op)"
  unfolding sync_inv_def xinv_def on_base_def xsynced_def by (fastforce split: prod.splits)

lemma xinv_lms: "mac_inv op \<Longrightarrow> xinv (xlms op)"
  unfolding xlms_def by (intro xinv_base sync_lms)

lemma xstill_lms: "mac_still op \<Longrightarrow> xstill (xlms op)"
  using keeps_still [of op] unfolding keeps_def xstill_def xlms_def on_base_def by (fastforce split: prod.splits)

lemma xinv_gpo [xrules]: "xinv (xgpo X b v)"
  unfolding xgpo_def by (rule xinv_basic)

lemma xstill_gpo: "xstill (xgpo X b v)"
  unfolding xgpo_def by (rule xstill_basic)

lemma xinv_list: "(\<And>m. m \<in> set ms \<Longrightarrow> xinv m) \<Longrightarrow> xinv (dlist ms)"
  by (induction ms) (auto intro!: xrules)

lemma xinv_void [xrules]: "xinv m \<Longrightarrow> xinv (dvoid m)"
  unfolding dvoid_def by (intro xrules)

lemma xinv_create: "xinv (xlms (lms7002m_create bus a ldo clk))"
  by (intro xinv_lms) (auto simp: mac_inv_def dest: create_synced)

lemma macs_maps [simp]: "macs (b\<lparr>ld_map_rx := a, ld_map_tx := c\<rparr>) = macs b" "macs (b\<lparr>ld_fref := r\<rparr>) = macs b"
  "macs (b\<lparr>ld_cfg_rx := u, ld_cfg_tx := v\<rparr>) = macs b" "macs (lms7002m_init refclk b) = macs b"
  by (simp_all add: macs_def lms7002m_init_def)

lemma xinv_xflags: "xinv (xsdr_rfic_streaming_xflags X a b)"
  unfolding xsdr_rfic_streaming_xflags_def Let_def by (intro xrules xinv_lms mac_inv_calls1) simp_all

lemma xinv_pwren: "xinv (xsdr_pwren X on)" "xinv (xsdr_checkpwr X)"
proof -
  show p: "xinv (xsdr_pwren X on)" for on
    unfolding xsdr_pwren_def xsdr_pwren_revx_def xsdr_pwren_revo_def by (intro xrules xinv_create) simp_all
  show "xinv (xsdr_checkpwr X)" unfolding xsdr_checkpwr_def by (intro xrules p)
qed

lemma afe_still: "mac_still (lms7002m_afe_enable bus a b c d)"
  unfolding lms7002m_afe_enable_def by (intro mac_still_post) (simp add: plain_regs)

lemma xinv_samplerate: "xinv (xsdr_set_samplerate_ex X r t a d f)"
  unfolding xsdr_set_samplerate_ex_def Let_def
  by (intro xrules xinv_pwren xinv_base xsdr_board.sync_samplerate xinv_still [OF xstill_ignore] xstill_lms afe_still xstill_basic) simp_all

lemma xinv_init: "xinv (xsdr_init X)"
proof -
  have s: "xinv (ssdr_start X)" unfolding ssdr_start_def by (rule xinv_list) (auto intro!: xrules)
  have d: "xinv (revo_dac X)" unfolding revo_dac_def Let_def by (intro xrules) simp_all
  have "xinv (xsdr_init_revx X w)" "xinv (xsdr_init_revo X)" for w
    unfolding xsdr_init_revx_def xsdr_init_revo_def Let_def
    by (intro xrules s d xinv_still [OF xstill_try] xstill_basic; simp)+
  then show ?thesis unfolding xsdr_init_def Let_def by (intro xrules) simp_all
qed

text \<open>The calls of a board. Left out are the ones that ignore a failing call: the end, stopping a stream, and the preparation, which ignores the
  last reset of the port; and the frequency 0.\<close>

datatype xsdr_call =
    X_init | X_pwren bool | X_samplerate u32 u32 u32 u32 u32 | X_hwchans bool u32 | X_xflags u32 u32 | X_rfic rfic_call
  | X_fe_set_freq "rfic_lms7_tune_types option" rat | X_trspi u32 | X_extref bool u32 | X_usbclk bool | X_switch bool u32
  | X_calibrate u32 u32 | X_gettemp | X_trim u16 | X_clkinfo

fun xsdr_run :: "'h xsdr_env \<Rightarrow> xsdr_call \<Rightarrow> ('h, unit) xs" where
  "xsdr_run X X_init = xsdr_init X"
| "xsdr_run X (X_pwren on) = xsdr_pwren X on"
| "xsdr_run X (X_samplerate r t a d f) = xsdr_set_samplerate_ex X r t a d f"
| "xsdr_run X (X_hwchans rx n) = xsdr_hwchans_cnt X rx n"
| "xsdr_run X (X_xflags r t) = xsdr_rfic_streaming_xflags X r t"
| "xsdr_run X (X_rfic c) = on_base (rfic_run (xsdr_rfic X) c)"
| "xsdr_run X (X_fe_set_freq t f) = (if f = 0 then dfail (- EINVAL) else dvoid (xsdr_rfic_fe_set_freq X t f))"
| "xsdr_run X (X_trspi w) = dvoid (xsdr_trspi_lms8 X w)"
| "xsdr_run X (X_extref ext f) = xsdr_set_extref X ext f"
| "xsdr_run X (X_usbclk u) = xsdr_usbclk X u"
| "xsdr_run X (X_switch rx p) = (if rx then xsdr_set_rx_port_switch X p else xsdr_set_tx_port_switch X p)"
| "xsdr_run X (X_calibrate ch p) = xsdr_calibrate X ch p"
| "xsdr_run X X_gettemp = dvoid (xsdr_gettemp X)"
| "xsdr_run X (X_trim v) = xsdr_trim_dac_vctcxo X v"
| "xsdr_run X X_clkinfo = xsdr_clk_debug_info X"

lemma xinv_freq: "f \<noteq> 0 \<Longrightarrow> xinv (xsdr_rfic_fe_set_freq X t f)"
  unfolding xsdr_rfic_fe_set_freq_def dseq_def
  by (intro xrules xinv_base xsdr_board.sync_set_freq xinv_still [OF xstill_try] xinv_still [OF xstill_ignore] xstill_bind xstill_gpo xstill_basic)
    (simp_all add: SSDR_LOB_def)

lemma xinv_calibrate: "xinv (xsdr_calibrate X ch p)"
  unfolding xsdr_calibrate_def Let_def prod.case_eq_if xsdrcal_init_calibrate_def xsdrcal_set_nco_offset_def xsdrcal_do_meas_nco_avg_def
    xsdr_tx_antennat_port_cfg_def xsdrcal_set_tx_testsig_def
  by (intro xrules xinv_xflags xinv_lms mac_inv_calls1 xinv_base xsdr_board.sync_tests)

lemma xinv_run: "xinv (xsdr_run X c)"
proof (cases c)
  case (X_fe_set_freq t f)
  then show ?thesis by (auto intro!: xrules xinv_freq)
next
  case (X_rfic r)
  then show ?thesis by (simp add: xinv_base xsdr_board.sync_run)
next
  case (X_hwchans rx n)
  then show ?thesis by (simp add: xsdr_hwchans_cnt_def) (intro xrules xinv_xflags; simp)
next
  case (X_extref ext f)
  have "xinv (xsdr_set_extref X ext f)" unfolding xsdr_set_extref_def by (intro xrules) simp
  then show ?thesis using X_extref by simp
qed (auto simp: xinv_init xinv_pwren xinv_samplerate xinv_xflags xinv_calibrate xsdr_trspi_lms8_def xsdr_usbclk_def xsdr_set_rx_port_switch_def
    xsdr_set_tx_port_switch_def xsdr_gettemp_def xsdr_trim_dac_vctcxo_def xsdr_clk_debug_info_def intro!: xrules)

text \<open>C20: calls of a board that succeed, of those listed in \<open>xsdr_call\<close> and of the controller's \<open>rfic_call\<close>, in any order and with
  any arguments, keep the transceiver with the channels active that its driver keeps, through powering it up, changing rates,
  setting gains, filters and calibrations and tuning by the second converter. Not among them are the calls that ignore failures of
  the transceiver: closing the board, preparing and stopping a stream, and a frequency of 0, which switches a synthesizer off.\<close>

theorem xsdr_channels_kept:
  assumes "xsynced x" and "dlist (map (xsdr_run X) cs) (h, x) = (Inr (), (h', x'))"
  shows "xsynced x'"
proof -
  have "xinv (dlist (map (xsdr_run X) cs))" by (rule xinv_list) (auto simp: xinv_run)
  then show ?thesis using assms unfolding xinv_def by (metis snd_conv)
qed

text \<open>A board with the transceiver that keeps what is written: a test signal is set on the first channel, which selects that channel
  alone where both were active.\<close>

definition chip_env :: "lms_regs xsdr_env" where
  "chip_env = \<lparr>xe_bus = lms_chip band_rd, xe_rbb_def = (\<lambda>_ _. Inl (- EINVAL)), xe_tbb_def = (\<lambda>_ _. Inl (- EINVAL)),
     xe_ddiv = (\<lambda>a b. of_int a / of_int (uint b)), xe_txcfg = TX_SW_NORMAL, xe_force = False, xe_devname = ''usb''\<rparr>"

text \<open>Steps that succeed on this chip and keep the channels.\<close>

definition chip_goes :: "(lms_regs, unit) lms \<Rightarrow> u16 \<Rightarrow> u16 \<Rightarrow> bool" where
  "chip_goes op mac mac' \<longleftrightarrow> (\<forall>h m. lm_reg_mac m = mac \<longrightarrow> (\<exists>h' m'. op (h, m) = (Inr (), (h', m')) \<and> lm_reg_mac m' = mac'))"

lemma chip_goes_seq: "chip_goes a x y \<Longrightarrow> chip_goes b y z \<Longrightarrow> chip_goes (dseq a b) x z"
  unfolding chip_goes_def dseq_def dbind_def
proof (intro allI impI)
  fix h and m :: lms7002m_state assume a: "\<forall>h m. lm_reg_mac m = x \<longrightarrow> (\<exists>h' m'. a (h, m) = (Inr (), h', m') \<and> lm_reg_mac m' = y)"
    and b: "\<forall>h m. lm_reg_mac m = y \<longrightarrow> (\<exists>h' m'. b (h, m) = (Inr (), h', m') \<and> lm_reg_mac m' = z)" and m: "lm_reg_mac m = x"
  obtain h1 m1 where "a (h, m) = (Inr (), h1, m1)" "lm_reg_mac m1 = y" using a m by blast
  then show "\<exists>h' m'. (case a (h, m) of (Inl e, s') \<Rightarrow> (Inl e, s') | (Inr a, s') \<Rightarrow> b s') = (Inr (), h', m') \<and> lm_reg_mac m' = z"
    using b by simp
qed

lemma chip_goes_mod: "(\<And>m. lm_reg_mac m = x \<Longrightarrow> lm_reg_mac (f m) = y) \<Longrightarrow> chip_goes (dmod f) x y"
  by (simp add: chip_goes_def dmod_def)

lemma chip_goes_post: "\<forall>r\<in>set rs. bit r 31 \<Longrightarrow> chip_goes (lms7002m_spi_post (lms_chip rd) rs) x x"
  unfolding chip_goes_def using post_chip_succeeds spi_post_amac by meson

lemma chip_goes_send: "(\<And>m. \<forall>r\<in>set (f m). bit r 31) \<Longrightarrow> chip_goes (lms_send (lms_chip rd) f) x x"
  using chip_goes_post by (simp add: lms_send_def chip_goes_def dget_def dbind_def)

lemma testsig_chip:
  assumes "lm_reg_mac (ld_lms d) = 3" "ld_txtsp_div d = 2"
  shows "\<exists>h' d'. rfic_run (xsdr_rfic chip_env) (R_set_tx_testsig 0 0 0xffffffff) (h, d) = (Inr (), (h', d')) \<and>
    lms_mac (ld_lms d') = LMS7_CH_A"
proof -
  have sel: "fset LML_MAC (1 :: u16) (3 :: u16) = 1" by code_simp
  have mac: "lms_mac m = 3" if "lm_reg_mac m = 3" for m
    using that by (simp add: lms_mac_def fget_def fmask_def LML_MAC_def mask_eq_exp_minus_1)
  have 1: "chip_goes (lms7002m_mac_set (lms_chip band_rd) LMS7_CH_A) 3 1"
  proof -
    have "chip_goes (dseq (dmod (\<lambda>m. m\<lparr>lm_reg_mac := fset LML_MAC 1 (lm_reg_mac m)\<rparr>)) (lms_send (lms_chip band_rd) (\<lambda>m. [lms_mac_back m]))) 3 1"
      by (rule chip_goes_seq [OF chip_goes_mod chip_goes_send]) (simp_all add: sel lms_mac_back_def lms_wr_top)
    then show ?thesis by (simp add: chip_goes_def lms7002m_mac_set_def dbind_def dget_def mac LMS7_CH_A_def)
  qed
  have 2: "chip_goes (lms7002m_xxtsp_gen (lms_chip band_rd) LMS_TXTSP XXTSP_NORMAL a b) x x" for a b x
    unfolding lms7002m_xxtsp_gen_def Let_def by (rule chip_goes_post) (simp add: lms_wr_top)
  have 3: "chip_goes (lms7002m_xxtsp_cmix (lms_chip band_rd) LMS_TXTSP f) 1 1" for f
  proof -
    have "lms_mac m = 1" if "lm_reg_mac m = 1" for m
      using that by (simp add: lms_mac_def fget_def fmask_def LML_MAC_def mask_eq_exp_minus_1)
    moreover have "chip_goes (lms_send (lms_chip band_rd) (\<lambda>m.
      let cfg = (\<lambda>i. [lms_wr (fst (by_tsp LMS_TXTSP RXTSP_0x040C TXTSP_0x0208)) (ucast (dscpcfg LMS_TXTSP m i))])
      in regs @ (if lms_mac m = 3 then on_channels cfg m else if lms_mac m = 1 then cfg 0 else cfg 1))) 1 1" if "\<forall>r\<in>set regs. bit r 31" for regs
      by (rule chip_goes_send) (use that in \<open>auto simp: Let_def lms_wr_top on_channels_def lms_mac_reg_def lms_mac_back_def\<close>)
    ultimately have "chip_goes (lms7002m_xxtsp_wregwith_dspcfg (lms_chip band_rd) LMS_TXTSP regs) 1 1" if "\<forall>r\<in>set regs. bit r 31" for regs
      using that by (simp add: chip_goes_def lms7002m_xxtsp_wregwith_dspcfg_def dbind_def dget_def lms7002m_is_none_def)
    then show ?thesis unfolding lms7002m_xxtsp_cmix_def Let_def
      by (intro chip_goes_seq [OF chip_goes_mod] chip_goes_seq [OF chip_goes_mod]) (auto simp: dscp_field_def dscpcfg_upd_def lms_layouts lms_make_def lms_wr_top by_tsp_def)
  qed
  obtain h1 m1 where a: "lms7002m_mac_set (lms_chip band_rd) LMS7_CH_A (h, ld_lms d) = (Inr (), (h1, m1))" "lm_reg_mac m1 = 1"
    using 1 assms(1) unfolding chip_goes_def by blast
  obtain h2 m2 where b: "lms7002m_xxtsp_gen (lms_chip band_rd) LMS_TXTSP XXTSP_NORMAL (ucast ((0xffffffff :: u32) AND 0x7fff)) (ucast ((0xffffffff :: u32) AND 0x7fff)) (h1, m1) = (Inr (), (h2, m2))" "lm_reg_mac m2 = 1"
    using 2 a(2) unfolding chip_goes_def by blast
  obtain h3 m3 where c: "lms7002m_xxtsp_cmix (lms_chip band_rd) LMS_TXTSP 0 (h2, m2) = (Inr (), (h3, m3))" "lm_reg_mac m3 = 1"
    using 3 b(2) unfolding chip_goes_def by blast
  have "rfic_run (xsdr_rfic chip_env) (R_set_tx_testsig 0 0 0xffffffff) (h, d) = (Inr (), (h3, d\<lparr>ld_lms := m3\<rparr>))"
    using on_lms_run [where op = "lms7002m_mac_set (lms_chip band_rd) LMS7_CH_A" and h = h and d = d, OF a(1)]
      on_lms_run [where op = "lms7002m_xxtsp_gen (lms_chip band_rd) LMS_TXTSP XXTSP_NORMAL (ucast ((0xffffffff :: u32) AND 0x7fff)) (ucast ((0xffffffff :: u32) AND 0x7fff))"
          and h = h1 and d = "d\<lparr>ld_lms := m1\<rparr>" and r = "Inr ()" and h' = h2 and l = m2] b(1)
      on_lms_run [where op = "lms7002m_xxtsp_cmix (lms_chip band_rd) LMS_TXTSP 0" and h = h2 and d = "d\<lparr>ld_lms := m2\<rparr>" and r = "Inr ()" and h' = h3 and l = m3] c(1) assms(2)
    by (simp add: lms7002m_set_tx_testsig_def dseq_def dbind_def dget_def xsdr_rfic_def chip_env_def)
  moreover have "lms_mac m3 = LMS7_CH_A" using c(2) by (simp add: lms_mac_def fget_def fmask_def LML_MAC_def mask_eq_exp_minus_1 LMS7_CH_A_def)
  ultimately show ?thesis by auto
qed
theorem xsdr_channels_kept_witness:
  "\<forall>h0 x. \<exists>h' x'. dlist (map (xsdr_run chip_env) [X_rfic (R_set_tx_testsig 0 0 0xffffffff)])
      (h0, x\<lparr>xd_base := (xd_base x)\<lparr>ld_txtsp_div := 2, ld_lms := (ld_lms (xd_base x))\<lparr>lm_reg_amac := 3, lm_reg_mac := 3\<rparr>\<rparr>\<rparr>) = (Inr (), (h', x')) \<and>
    xsynced x' \<and> lms_mac (ld_lms (xd_base x')) = LMS7_CH_A"
proof (intro allI)
  fix h0 :: lms_regs and x :: xsdr_dev
  let ?d = "(xd_base x)\<lparr>ld_txtsp_div := 2, ld_lms := (ld_lms (xd_base x))\<lparr>lm_reg_amac := 3, lm_reg_mac := 3\<rparr>\<rparr>"
  let ?x = "x\<lparr>xd_base := ?d\<rparr>"
  have s: "xsynced ?x" by (simp add: xsynced_def rfic_synced_def lms_synced_def)
  obtain h' d' where r: "rfic_run (xsdr_rfic chip_env) (R_set_tx_testsig 0 0 0xffffffff) (h0, ?d) = (Inr (), (h', d'))"
    and m: "lms_mac (ld_lms d') = LMS7_CH_A" using testsig_chip [of ?d h0] by auto
  have "dlist (map (xsdr_run chip_env) [X_rfic (R_set_tx_testsig 0 0 0xffffffff)]) (h0, ?x) = (Inr (), (h', ?x\<lparr>xd_base := d'\<rparr>))"
    using r by (simp add: on_base_def dseq_def dbind_def del: rfic_run.simps)
  from xsdr_channels_kept [OF s this] this m show "\<exists>h' x'. dlist (map (xsdr_run chip_env) [X_rfic (R_set_tx_testsig 0 0 0xffffffff)]) (h0, ?x) = (Inr (), (h', x')) \<and>
    xsynced x' \<and> lms_mac (ld_lms (xd_base x')) = LMS7_CH_A" by (intro exI [of _ h'] exI [of _ "?x\<lparr>xd_base := d'\<rparr>"]) simp
qed

section \<open>The lanes of the port\<close>

lemma diqidx_cases: "diqidx chs flags b \<in> {0, 1, 2, 3, 4, 5, 6, 7}"
  by (simp add: diqidx_def)

text \<open>The map of the four lanes of the port names lanes that exist. With two channels every lane is named once; with one, only the two
  of the same channel.\<close>

theorem lml_portcfg_lanes:
  "length (lms7nfe_get_lml_portcfg rx chs flags b) = 4 \<and> set (lms7nfe_get_lml_portcfg rx chs flags b) =
    (if b \<or> stream_is_mimo chs flags then {LML_AI, LML_AQ, LML_BI, LML_BQ} else if stream_is_swap chs flags then {LML_BI, LML_BQ} else {LML_AI, LML_AQ})"
  by (auto simp: lms7nfe_get_lml_portcfg_def diqidx_def diqarray_rx_def diqarray_tx_def)

section \<open>Where the code does something else\<close>

text \<open>A calibration succeeds only when there is nothing to do: no call of it measures or sets anything.\<close>

lemma calibrate_fails:
  assumes "xsdr_calibrate X ch p (h, x) = (Inr (), s')"
  shows "p AND (XSDR_CAL_TXLO OR XSDR_CAL_RXIQIMB OR XSDR_CAL_TXIQIMB) = 0 \<and> p AND XSDR_DONT_SETBACK = XSDR_DONT_SETBACK \<and>
    (p AND XSDR_CAL_RXLO = 0 \<or> ld_rx_lo (xd_base x) = 0)"
proof (cases "ch > 1")
  case True then show ?thesis using assms by (simp add: xsdr_calibrate_def Let_def dfail_def)
next
  case False
  let ?A = "if p AND XSDR_CAL_RXLO \<noteq> 0 \<and> ld_rx_lo (xd_base x) > 0 then xsdrcal_set_nco_offset 0 else dreturn ()"
  let ?B = "if p AND (XSDR_CAL_TXLO OR XSDR_CAL_RXIQIMB OR XSDR_CAL_TXIQIMB) = 0
       then if p AND XSDR_DONT_SETBACK = XSDR_DONT_SETBACK then dreturn ()
         else dseq xsdrcal_do_meas_nco_avg (dseq (xsdr_rfic_streaming_xflags X (ucast (xd_dsp_rxcfg x)) 0) (xsdrcal_set_tx_testsig X (uint ch) 0 0xffffffff))
       else xsdr_tx_antennat_port_cfg (if ch = 0 then 1 else 2)"
  obtain m1 m2 m3 :: "(_, unit) dev" where "dseq m1 (dseq m2 (dseq m3 (dseq ?A ?B))) (h, x) = (Inr (), s')"
    using assms False by (auto simp: xsdr_calibrate_def Let_def dbind_def dget_def cong: if_cong)
  then obtain s1 s2 where A: "?A s1 = (Inr (), s2)" and B: "?B s2 = (Inr (), s')" by (elim dseq_cases) simp
  have "\<not> (p AND XSDR_CAL_RXLO \<noteq> 0 \<and> ld_rx_lo (xd_base x) > 0)" using A by (auto simp: xsdrcal_set_nco_offset_def dfail_def)
  moreover have "p AND (XSDR_CAL_TXLO OR XSDR_CAL_RXIQIMB OR XSDR_CAL_TXIQIMB) = 0 \<and> p AND XSDR_DONT_SETBACK = XSDR_DONT_SETBACK"
    using B by (auto simp: xsdr_tx_antennat_port_cfg_def xsdrcal_do_meas_nco_avg_def dfail_def dseq_def dbind_def split: if_splits)
  ultimately show ?thesis using word_neq_0_conv [of "ld_rx_lo (xd_base x)"] by blast
qed

end
