(* ===== verification/Lms6002d.thy ===== *)
theory Lms6002d
  imports Lms7002mCtrlProofs
begin

text \<open>
  The driver of the LMS6002D transceiver (\<open>src/lib/hw/lms6002d/lms6002d.c\<close>): its registers of eight bits with the copies the
  driver keeps, tuning of the two synthesizers with the search for a capacitor, filters, gains, paths and calibration. A chip
  of registers obeys writes and answers reads through a function of its registers.
\<close>

section \<open>Registers\<close>

type_synonym reg6 = "u8 \<times> field list"

definition lms6_wr :: "u8 \<Rightarrow> u8 \<Rightarrow> u16" where
  "lms6_wr a v = 0x8000 OR push_bit 8 (ucast a) OR ucast v"

definition lms6_make :: "reg6 \<Rightarrow> u32 list \<Rightarrow> u16" where
  "lms6_make r vs = lms6_wr (fst r) (ucast (fpack (snd r) vs :: u32))"

definition ENOLCK :: int where "ENOLCK = 37"

definition TOP_DC_REG :: reg6 where "TOP_DC_REG = (0x00, [(0, 6)])"
definition TOP_DC_CAL :: u8 where "TOP_DC_CAL = 0x01"
definition TOP_DC_CAL_RC_LPF :: field where "TOP_DC_CAL_RC_LPF = (5, 3)"
definition TOP_DC_CAL_CLBR_DONE :: field where "TOP_DC_CAL_CLBR_DONE = (1, 1)"
definition TOP_DC_OP :: reg6 where "TOP_DC_OP = (0x03, [(5, 1), (4, 1), (3, 1), (0, 3)])"
definition TOP_CHIPID :: u8 where "TOP_CHIPID = 0x04"
definition TOP_ENCFG :: reg6 where "TOP_ENCFG = (0x05, [(7, 1), (5, 1), (4, 1), (3, 1), (2, 1), (1, 1)])"
definition TOP_ENCFG_STXEN :: field where "TOP_ENCFG_STXEN = (3, 1)"
definition TOP_ENCFG_SRXEN :: field where "TOP_ENCFG_SRXEN = (2, 1)"
definition TOP_LPF_CTRL :: reg6 where "TOP_LPF_CTRL = (0x06, [(3, 1), (2, 1), (1, 1), (0, 1)])"
definition TOP_LPF_CAL :: reg6 where "TOP_LPF_CAL = (0x07, [(7, 1), (4, 3), (0, 4)])"
definition TOP_ENREG :: reg6 where "TOP_ENREG = (0x09, [(7, 1), (6, 1), (5, 1), (4, 1), (3, 1), (2, 1), (1, 1), (0, 1)])"
definition TOP_ENREG_CLK_LPF_CAL :: field where "TOP_ENREG_CLK_LPF_CAL = (5, 1)"
definition TOP_ENREG_CLK_RX_VGA2_DCCAL :: field where "TOP_ENREG_CLK_RX_VGA2_DCCAL = (4, 1)"
definition TOP_ENREG_CLK_RX_RPL_DCCAL :: field where "TOP_ENREG_CLK_RX_RPL_DCCAL = (3, 1)"
definition TOP_ENREG_CLK_RX_DSM_SPI :: field where "TOP_ENREG_CLK_RX_DSM_SPI = (2, 1)"
definition TOP_ENREG_CLK_TX_RPL_DCCAL :: field where "TOP_ENREG_CLK_TX_RPL_DCCAL = (1, 1)"
definition TOP_ENREG_CLK_TX_DSM_SPI :: field where "TOP_ENREG_CLK_TX_DSM_SPI = (0, 1)"
definition TOP_POWER :: reg6 where "TOP_POWER = (0x0b, [(4, 1), (3, 1), (2, 1), (1, 1), (0, 1)])"

text \<open>The registers of the two synthesizers lie 16 apart.\<close>

definition pll6 :: "bool \<Rightarrow> reg6 \<Rightarrow> reg6" where
  "pll6 tx r = (if tx then r else (fst r + 0x10, snd r))"

definition PLL6_NINT_NFRAC :: "field list" where "PLL6_NINT_NFRAC = [(23, 9), (0, 23)]"
definition PLL6_CFG :: reg6 where "PLL6_CFG = (0x14, [(7, 1), (4, 3), (3, 1), (2, 1), (1, 1)])"
definition PLL6_VCO_DIV :: reg6 where "PLL6_VCO_DIV = (0x15, [(5, 3), (2, 3), (0, 2)])"
definition PLL6_PFD_UP :: reg6 where "PLL6_PFD_UP = (0x16, [(7, 1), (6, 1), (5, 1), (0, 5)])"
definition PLL6_VCO_REG_PFD_U :: reg6 where "PLL6_VCO_REG_PFD_U = (0x17, [(7, 1), (6, 1), (5, 1), (0, 5)])"
definition PLL6_VCO_REG_PFD_D :: reg6 where "PLL6_VCO_REG_PFD_D = (0x18, [(5, 3), (0, 5)])"
definition PLL6_CFG2 :: reg6 where "PLL6_CFG2 = (0x19, [(7, 1), (0, 6)])"
definition PLL6_VTUNE :: u8 where "PLL6_VTUNE = 0x1a"
definition PLL6_VTUNE_H :: field where "PLL6_VTUNE_H = (7, 1)"
definition PLL6_VTUNE_L :: field where "PLL6_VTUNE_L = (6, 1)"
definition PLL6_VCOCOMO :: u8 where "PLL6_VCOCOMO = 0x1b"
definition RXPLL_SELOUT :: field where "RXPLL_SELOUT = (0, 2)"

text \<open>\<open>MAKE_LMS6002D_TXPLL_NINT_NFRAC_BYk\<close>: a byte of the ratio, the highest one first.\<close>

definition pll6_by :: "bool \<Rightarrow> nat \<Rightarrow> u32 \<Rightarrow> u16" where
  "pll6_by tx k v = lms6_wr (fst (pll6 tx (0x10 + of_nat k, []))) (ucast (drop_bit (8 * (3 - k)) v))"

definition TXLPF_DACBP :: reg6 where "TXLPF_DACBP = (0x35, [(6, 1), (0, 6)])"
definition RXLPF_DACBP :: reg6 where "RXLPF_DACBP = (0x55, [(6, 1), (0, 6)])"
definition TRF_VGA1GAIN :: reg6 where "TRF_VGA1GAIN = (0x41, [(0, 5)])"
definition TRF_PA_CTRL :: reg6 where "TRF_PA_CTRL = (0x44, [(3, 2), (2, 1)])"
definition TRF_CTRL2 :: reg6 where "TRF_CTRL2 = (0x45, [(3, 5), (2, 1), (0, 2)])"
definition TRF_CTRL4 :: u8 where "TRF_CTRL4 = 0x47"
definition AFE_RX_CTRL2 :: u8 where "AFE_RX_CTRL2 = 0x59"
definition AFE_MISC_CTRL :: u8 where "AFE_MISC_CTRL = 0x5a"
definition AFE_MISC :: reg6 where "AFE_MISC = (0x5f, [(7, 1), (4, 1), (3, 1), (2, 1), (1, 1), (0, 1)])"
definition RXVGA2_CTRL :: reg6 where "RXVGA2_CTRL = (0x64, [(2, 4), (1, 1), (0, 1)])"
definition RXVGA2_GAIN_COMB :: reg6 where "RXVGA2_GAIN_COMB = (0x65, [(0, 5)])"
definition RXVGA2_GAIN :: reg6 where "RXVGA2_GAIN = (0x68, [(4, 4), (0, 4)])"
definition RXVGA2_PD_CALIB :: reg6 where "RXVGA2_PD_CALIB = (0x6e, [(7, 1), (6, 1)])"
definition RFE_CTRL :: u8 where "RFE_CTRL = 0x70"
definition RFE_IN1SEL_DCI :: reg6 where "RFE_IN1SEL_DCI = (0x71, [(7, 1), (0, 7)])"
definition RFE_INLOAD_DCQ :: reg6 where "RFE_INLOAD_DCQ = (0x72, [(7, 1), (0, 7)])"
definition RFE_GAIN_LNA_SEL :: u8 where "RFE_GAIN_LNA_SEL = 0x75"
definition RFE_G_LNA :: field where "RFE_G_LNA = (6, 2)"
definition RFE_LNASEL :: field where "RFE_LNASEL = (4, 2)"
definition RFE_RFB_TIA :: reg6 where "RFE_RFB_TIA = (0x76, [(0, 7)])"
definition RFE_CFB_TIA :: reg6 where "RFE_CFB_TIA = (0x77, [(0, 7)])"
definition RFE_RDLINT_LNA :: u8 where "RFE_RDLINT_LNA = 0x79"

section \<open>State and transactions\<close>

definition LPF_BANDS :: nat where "LPF_BANDS = 16"

record lms6002d_state =
  l6_lsaddr :: u32
  l6_fref :: u32
  l6_rclpfcal :: "u8 list"
  l6_top_encfg :: u8
  l6_top_enreg :: u8
  l6_rxpll_vco_div_bufsel :: u8
  l6_rfe_in1sel_dci :: u8
  l6_rfe_gain_lna_sel :: u8

type_synonym ('h, 'a) l6 = "('h \<times> lms6002d_state, 'a) dev"

definition lms6002d_spi_post :: "'h bus \<Rightarrow> u16 list \<Rightarrow> ('h, unit) l6" where
  "lms6002d_spi_post bus regs = dbind (dget l6_lsaddr) (\<lambda>a. on_hw (dlist (map (\<lambda>r. spi_tr32 bus a (ucast r)) regs)))"

definition lms6002d_spi_rd :: "'h bus \<Rightarrow> u8 \<Rightarrow> ('h, u8) l6" where
  "lms6002d_spi_rd bus addr = dbind (dget l6_lsaddr) (\<lambda>a. dbind (on_hw (spi_tr32_rd bus a (push_bit 8 (ucast addr)))) (\<lambda>rd. dreturn (ucast rd)))"

text \<open>Registers whose values come from the state.\<close>

definition lms6_send :: "'h bus \<Rightarrow> (lms6002d_state \<Rightarrow> u16 list) \<Rightarrow> ('h, unit) l6" where
  "lms6_send bus f = dbind (dget f) (lms6002d_spi_post bus)"

definition wr_enreg :: "lms6002d_state \<Rightarrow> u16" where "wr_enreg m = lms6_wr (fst TOP_ENREG) (l6_top_enreg m)"
definition wr_encfg :: "lms6002d_state \<Rightarrow> u16" where "wr_encfg m = lms6_wr (fst TOP_ENCFG) (l6_top_encfg m)"

definition set_enreg :: "field \<Rightarrow> u8 \<Rightarrow> ('h, unit) l6" where "set_enreg f v = dmod (l6_top_enreg_update (fset f v))"
definition set_encfg :: "field \<Rightarrow> u8 \<Rightarrow> ('h, unit) l6" where "set_encfg f v = dmod (l6_top_encfg_update (fset f v))"

definition lms6002d_create :: "'h bus \<Rightarrow> u32 \<Rightarrow> ('h, unit) l6" where
  "lms6002d_create bus lsaddr =
    dseq (dmod (\<lambda>m. m\<lparr>l6_lsaddr := lsaddr, l6_fref := 0, l6_rclpfcal := replicate LPF_BANDS 3,
        l6_top_encfg := ucast (lms6_make TOP_ENCFG [0, 1, 1, 0, 0, 1]), l6_top_enreg := ucast (lms6_make TOP_ENREG [0, 0, 0, 0, 0, 0, 0, 0]),
        l6_rxpll_vco_div_bufsel := ucast (lms6_make (pll6 False PLL6_VCO_DIV) [0, 0, 1]), l6_rfe_gain_lna_sel := 0xc0\<rparr>))
     (dbind (lms6002d_spi_rd bus TOP_CHIPID) (\<lambda>rev.
       dseq (lms6_send bus (\<lambda>m. [lms6_make TOP_ENCFG [0, 0, 0, 0, 0, 1], wr_encfg m, wr_enreg m, lms6_make TOP_POWER [0, 1, 0, 1, 0],
         lms6_wr (fst PLL6_VCO_REG_PFD_U) 0xe0, lms6_wr (fst (pll6 False PLL6_VCO_REG_PFD_U)) 0xe3, lms6_wr RFE_CTRL 0x01,
         lms6_wr TRF_CTRL4 0x40, lms6_wr AFE_RX_CTRL2 0x29, lms6_wr (fst RXVGA2_CTRL) 0x36, lms6_wr RFE_RDLINT_LNA 0x37,
         lms6_wr AFE_MISC_CTRL 0xb0]))
       (if rev \<noteq> 0xff then dreturn () else dfail (- ENODEV))))"

section \<open>Synthesizers\<close>

definition VCO_RANGES6 :: "(u32 \<times> u32 \<times> nat) list" where
  "VCO_RANGES6 =
    [(285625000, 4, 3), (336875000, 5, 3), (405000000, 6, 3), (465000000, 7, 3),
     (571250000, 4, 2), (673750000, 5, 2), (810000000, 6, 2), (930000000, 7, 2),
     (1142500000, 4, 1), (1347500000, 5, 1), (1620000000, 6, 1), (1860000000, 7, 1),
     (2285000000, 4, 0), (2695000000, 5, 0), (3240000000, 6, 0), (3720000000, 7, 0)]"

text \<open>The first line whose limit is not exceeded, else the last.\<close>

fun vco6_line :: "(u32 \<times> u32 \<times> nat) list \<Rightarrow> u32 \<Rightarrow> u32 \<times> nat" where
  "vco6_line [] freq = (0, 0)"
| "vco6_line [r] freq = snd r"
| "vco6_line (r # r' # rs) freq = (if freq \<le> fst r then snd r else vco6_line (r' # rs) freq)"

definition lms6002d_pll_calc :: "u32 \<Rightarrow> u64 \<Rightarrow> int + u32 \<times> u32" where
  "lms6002d_pll_calc fref vco =
    (let r = ucast fref :: u64 in
     if fref = 0 then Inl CRASH_FPE
     else let nint = ucast (vco div r) :: u32 in Inr (nint, ucast ((vco - ucast nint * r) * 2 ^ 23 div r)))"

definition VTUNE_CMP_OK :: int where "VTUNE_CMP_OK = 0"
definition VTUNE_CMP_HIGH :: int where "VTUNE_CMP_HIGH = 1"
definition VTUNE_CMP_LOW :: int where "VTUNE_CMP_LOW = 2"
definition VTUNE_CMP_FAIL :: int where "VTUNE_CMP_FAIL = 3"

definition cmp6_code :: "u8 \<Rightarrow> int" where
  "cmp6_code val = uint (push_bit 1 (fget PLL6_VTUNE_H val) OR fget PLL6_VTUNE_L val)"

definition lms6002d_get_comp :: "'h bus \<Rightarrow> bool \<Rightarrow> ('h, int) l6" where
  "lms6002d_get_comp bus tx = dcode (dbind (lms6002d_spi_rd bus (fst (pll6 tx (PLL6_VTUNE, [])))) (\<lambda>val. dreturn (cmp6_code val)))"

text \<open>A capacitor is set and the comparator read.\<close>

definition cap6_try :: "'h bus \<Rightarrow> bool \<Rightarrow> int \<Rightarrow> ('h, int) l6" where
  "cap6_try bus tx i = dseq (lms6002d_spi_post bus [lms6_make (pll6 tx PLL6_CFG2) [0, of_int i]]) (lms6002d_get_comp bus tx)"

primrec cap6_bisect :: "(int \<Rightarrow> ('s, int) dev) \<Rightarrow> nat list \<Rightarrow> int \<Rightarrow> ('s, int) dev" where
  "cap6_bisect f [] i = dreturn i"
| "cap6_bisect f (j # js) i = dbind (f i) (\<lambda>r.
     if r = VTUNE_CMP_OK \<or> r = VTUNE_CMP_HIGH then cap6_bisect f js (i - 2 ^ j)
     else if r = VTUNE_CMP_LOW then cap6_bisect f js (i + 2 ^ j)
     else if r = VTUNE_CMP_FAIL then dfail (- EIO)
     else dfail r)"

primrec cap6_scan :: "(int \<Rightarrow> ('s, int) dev) \<Rightarrow> nat \<Rightarrow> int \<Rightarrow> int \<Rightarrow> int \<Rightarrow> ('s, int \<times> int) dev" where
  "cap6_scan f 0 i lo hi = dreturn (lo, if hi = - 1 then 0 else hi)"
| "cap6_scan f (Suc n) i lo hi = dbind (f i) (\<lambda>r.
     if r = VTUNE_CMP_OK then cap6_scan f n (i + 1) lo i
     else if r = VTUNE_CMP_HIGH then dreturn (lo, if i = 0 then 0 else i - 1)
     else if r = VTUNE_CMP_LOW then cap6_scan f n (i + 1) (i + 1) hi
     else if r = VTUNE_CMP_FAIL then dfail (- EIO)
     else dfail r)"

definition lms6002d_find_vcocap :: "(int \<Rightarrow> ('s, int) dev) \<Rightarrow> ('s, int \<times> int) dev" where
  "lms6002d_find_vcocap f = dbind (cap6_bisect f [4, 3, 2, 1, 0] 32) (\<lambda>i. cap6_scan f (nat (64 - i)) i i (- 1))"

text \<open>The ratio is read back; a byte that cannot be read counts as 0.\<close>

definition rd_or_0 :: "'h bus \<Rightarrow> u8 \<Rightarrow> ('h, u8) l6" where
  "rd_or_0 bus a = dbind (dtry (lms6002d_spi_rd bus a)) (\<lambda>r. dreturn (case r of Inl _ \<Rightarrow> 0 | Inr v \<Rightarrow> v))"

primrec ratio_read :: "'h bus \<Rightarrow> bool \<Rightarrow> nat list \<Rightarrow> ('h, u8 list) l6" where
  "ratio_read bus tx [] = dreturn []"
| "ratio_read bus tx (k # ks) = dbind (rd_or_0 bus (fst (pll6 tx (0x10 + of_nat k, [])))) (\<lambda>v. dbind (ratio_read bus tx ks) (\<lambda>vs. dreturn (v # vs)))"

text \<open>The output selection is part of the receiver's divider register.\<close>

definition vco_div6 :: "bool \<Rightarrow> u32 \<Rightarrow> nat \<Rightarrow> lms6002d_state \<Rightarrow> u16" where
  "vco_div6 tx vcon vdiv m = lms6_make (pll6 tx PLL6_VCO_DIV) [vcon, of_nat vdiv OR 4, if tx then 0 else ucast (fget RXPLL_SELOUT (l6_rxpll_vco_div_bufsel m))]"

definition pll6_regs :: "bool \<Rightarrow> u32 \<Rightarrow> nat \<Rightarrow> u32 \<Rightarrow> lms6002d_state \<Rightarrow> u16 list" where
  "pll6_regs tx vcon vdiv ratio m =
    [wr_enreg m, pll6_by tx 0 ratio, pll6_by tx 1 ratio, pll6_by tx 2 ratio, pll6_by tx 3 ratio,
     lms6_make (pll6 tx PLL6_CFG) [1, 1, 1, 1, 0], lms6_make (pll6 tx PLL6_VCO_DIV) [vcon, 0, 0], vco_div6 tx vcon vdiv m,
     lms6_make (pll6 tx PLL6_PFD_UP) [1, 0, 0, 6], lms6_make (pll6 tx PLL6_VCO_REG_PFD_U) [1, 1, 0, 0],
     lms6_make (pll6 tx PLL6_VCO_REG_PFD_D) [0, 2], lms6_make (pll6 tx PLL6_CFG2) [0, 0x20],
     lms6_wr (fst (pll6 tx (PLL6_VCOCOMO, []))) 0x76]"

definition lms6002d_tune_pll :: "'h bus \<Rightarrow> bool \<Rightarrow> u32 \<Rightarrow> ('h, unit) l6" where
  "lms6002d_tune_pll bus tx freq =
    (if freq < 200000000 then dfail (- ERANGE)
     else let (vcon, vdiv) = vco6_line VCO_RANGES6 freq; vcofreq = (ucast freq :: u64) * 2 ^ (vdiv + 1) in
       dbind (dget l6_fref) (\<lambda>fref. case lms6002d_pll_calc fref vcofreq of Inl e \<Rightarrow> dfail e
        | Inr (nint, nfrac) \<Rightarrow> let ratio = fpack PLL6_NINT_NFRAC [nint, nfrac] in
           dseq (set_enreg (if tx then TOP_ENREG_CLK_TX_DSM_SPI else TOP_ENREG_CLK_RX_DSM_SPI) 1)
          (dseq (lms6_send bus (pll6_regs tx vcon vdiv ratio))
          (dbind (ratio_read bus tx [0, 1, 2, 3]) (\<lambda>wrreg.
             if wrreg \<noteq> map (\<lambda>k. ucast (pll6_by tx k ratio)) [0, 1, 2, 3] then dfail (- EIO)
             else dbind (lms6002d_find_vcocap (cap6_try bus tx)) (\<lambda>(lo, hi).
               dseq (lms6_send bus (\<lambda>m. [lms6_make (pll6 tx PLL6_CFG2) [0, of_int ((lo + hi) div 2)], vco_div6 tx vcon vdiv m, lms6_wr (fst (pll6 tx (PLL6_VCOCOMO, []))) 0x7e]))
              (dseq (dmod (\<lambda>m. if tx then m else m\<lparr>l6_rxpll_vco_div_bufsel := ucast (vco_div6 tx vcon vdiv m)\<rparr>))
               (if lo > hi \<and> hi = 0 then dfail (- ENOLCK) else dreturn ()))))))))"

section \<open>Filters, gains and paths\<close>

definition LPF6_LUT :: "(u32 \<times> u32 \<times> u32) list" where
  "LPF6_LUT =
    [(1030, 15, 7), (1190, 15, 6), (1333, 15, 5), (1500, 15, 4), (1650, 15, 3), (1700, 14, 4), (1870, 14, 3), (2250, 13, 5),
     (2750, 13, 4), (3000, 12, 4), (3250, 11, 4), (3650, 11, 3), (4170, 10, 4), (4650, 10, 3), (5200, 10, 2), (5500, 9, 4),
     (5750, 7, 5), (6000, 8, 4), (6500, 7, 4), (7250, 7, 3), (7550, 6, 4), (8400, 6, 3), (9400, 5, 4), (10400, 5, 3),
     (11650, 4, 4), (12400, 4, 3), (14400, 3, 4), (15200, 3, 3), (16650, 2, 4), (18900, 2, 3), (21150, 1, 5), (24000, 1, 4),
     (25650, 1, 3), (28650, 0, 5), (31900, 0, 4), (35400, 0, 3), (39150, 0, 2), (44650, 0, 1), (47000, 0, 0)]"

definition lpf6_line :: "u32 \<Rightarrow> (u32 \<times> u32) option" where
  "lpf6_line freq = map_option snd (find (\<lambda>r. freq div 1000 \<le> fst r) LPF6_LUT)"

definition lpf6_words :: "bool \<Rightarrow> u32 \<Rightarrow> u32 \<Rightarrow> u32 \<Rightarrow> u16 list" where
  "lpf6_words tx band lpfcal b =
    map ucast [(if tx then 0x3400 else 0x5400) OR 0x8000 OR push_bit 2 band OR (if b \<noteq> 0 then 0 else 2),
      (if tx then 0x3500 else 0x5500) OR 0x8000 OR push_bit 6 b OR 0x0c,
      (if tx then 0x3600 else 0x5600) OR 0x8000 OR push_bit 4 lpfcal]"

text \<open>Above the last line of the table the filter is bypassed.\<close>

definition lpf6_regs :: "bool \<Rightarrow> u32 \<Rightarrow> u16 list" where
  "lpf6_regs tx freq = (case lpf6_line freq of Some (band, rc) \<Rightarrow> lpf6_words tx band rc 0 | None \<Rightarrow> lpf6_words tx 0 0 1)"

definition lms6002d_set_bandwidth :: "'h bus \<Rightarrow> bool \<Rightarrow> u32 \<Rightarrow> ('h, unit) l6" where
  "lms6002d_set_bandwidth bus tx freq = lms6002d_spi_post bus (lpf6_regs tx freq)"

definition lms6002d_set_rxlna_gain :: "'h bus \<Rightarrow> u32 \<Rightarrow> ('h, unit) l6" where
  "lms6002d_set_rxlna_gain bus lnag = dseq (dmod (l6_rfe_gain_lna_sel_update (fset RFE_G_LNA (ucast lnag))))
     (lms6_send bus (\<lambda>m. [lms6_wr RFE_GAIN_LNA_SEL (l6_rfe_gain_lna_sel m)]))"

definition lms6002d_set_rxvga1_gain :: "'h bus \<Rightarrow> u32 \<Rightarrow> ('h, unit) l6" where
  "lms6002d_set_rxvga1_gain bus lnag = lms6002d_spi_post bus [lms6_make RFE_RFB_TIA [lnag]]"

definition lms6002d_set_txvga1_gain :: "'h bus \<Rightarrow> u32 \<Rightarrow> ('h, unit) l6" where
  "lms6002d_set_txvga1_gain bus vga = lms6002d_spi_post bus [lms6_make TRF_VGA1GAIN [vga]]"

definition lms6002d_set_txvga2_gain :: "'h bus \<Rightarrow> u32 \<Rightarrow> ('h, unit) l6" where
  "lms6002d_set_txvga2_gain bus vga = lms6002d_spi_post bus [lms6_make TRF_CTRL2 [vga, 0, 0]]"

definition lms6002d_set_rxvga2_gain :: "'h bus \<Rightarrow> u32 \<Rightarrow> ('h, unit) l6" where
  "lms6002d_set_rxvga2_gain bus vga = lms6002d_spi_post bus [lms6_make RXVGA2_GAIN_COMB [if vga > 20 then 20 else vga]]"

definition lms6002d_set_rxvga2ab_gain :: "'h bus \<Rightarrow> u32 \<Rightarrow> u32 \<Rightarrow> ('h, unit) l6" where
  "lms6002d_set_rxvga2ab_gain bus vga2a vga2b =
    lms6002d_spi_post bus [lms6_make RXVGA2_GAIN [if vga2b > 10 then 10 else vga2b, if vga2a > 10 then 10 else vga2a]]"

definition lms6002d_set_rx_extterm :: "'h bus \<Rightarrow> bool \<Rightarrow> ('h, unit) l6" where
  "lms6002d_set_rx_extterm bus extterm = lms6_send bus (\<lambda>m.
     [0x8000 OR 0x7100 OR ucast (l6_rfe_in1sel_dci m AND 0x7f) OR (if extterm then 0 else 0x80), 0x8000 OR 0x7c00 OR (if extterm then 4 else 0)])"

definition lms6002d_set_rx_path :: "'h bus \<Rightarrow> u32 \<Rightarrow> ('h, unit) l6" where
  "lms6002d_set_rx_path bus path =
    dseq (dmod (l6_rxpll_vco_div_bufsel_update (fset RXPLL_SELOUT (ucast path))))
    (dseq (dmod (l6_rfe_gain_lna_sel_update (fset RFE_LNASEL (ucast path))))
      (lms6_send bus (\<lambda>m. [lms6_wr (fst (pll6 False PLL6_VCO_DIV)) (l6_rxpll_vco_div_bufsel m), lms6_wr RFE_GAIN_LNA_SEL (l6_rfe_gain_lna_sel m)])))"

definition lms6002d_set_tx_path :: "'h bus \<Rightarrow> u32 \<Rightarrow> ('h, unit) l6" where
  "lms6002d_set_tx_path bus path = lms6002d_spi_post bus [lms6_make TRF_PA_CTRL [path, if path = 3 then 1 else 0]]"

definition lms6002d_trf_enable :: "'h bus \<Rightarrow> bool \<Rightarrow> ('h, unit) l6" where
  "lms6002d_trf_enable bus en = dseq (set_enreg TOP_ENREG_CLK_TX_DSM_SPI (of_bool en))
     (dseq (set_encfg TOP_ENCFG_STXEN (of_bool en)) (lms6_send bus (\<lambda>m. [wr_enreg m, wr_encfg m])))"

definition lms6002d_rfe_enable :: "'h bus \<Rightarrow> bool \<Rightarrow> ('h, unit) l6" where
  "lms6002d_rfe_enable bus en = dseq (set_enreg TOP_ENREG_CLK_RX_DSM_SPI (of_bool en))
     (dseq (set_encfg TOP_ENCFG_SRXEN (of_bool en)) (lms6_send bus (\<lambda>m. [wr_enreg m, wr_encfg m])))"

definition lms6002d_rxvga2_enable :: "'h bus \<Rightarrow> bool \<Rightarrow> ('h, unit) l6" where
  "lms6002d_rxvga2_enable bus en = lms6002d_spi_post bus [lms6_make RXVGA2_CTRL [7, of_bool en, 1]]"

definition lms6002d_set_rxfedc :: "'h bus \<Rightarrow> u8 \<Rightarrow> u8 \<Rightarrow> ('h, unit) l6" where
  "lms6002d_set_rxfedc bus dci dcq = lms6002d_spi_post bus [lms6_make RFE_IN1SEL_DCI [1, scast dci], lms6_make RFE_INLOAD_DCQ [1, scast dcq]]"

definition lms6002d_set_tia_cfb :: "'h bus \<Rightarrow> u8 \<Rightarrow> ('h, unit) l6" where
  "lms6002d_set_tia_cfb bus v = lms6002d_spi_post bus [lms6_make RFE_CFB_TIA [ucast v]]"

definition lms6002d_set_tia_rfb :: "'h bus \<Rightarrow> u8 \<Rightarrow> ('h, unit) l6" where
  "lms6002d_set_tia_rfb bus v = lms6002d_spi_post bus [lms6_make RFE_RFB_TIA [ucast v]]"

section \<open>Calibration\<close>

definition dc_start :: "u8 \<Rightarrow> u8 \<Rightarrow> u32 \<Rightarrow> u16 list" where
  "dc_start reg addr v =
    (let w16 = \<lambda>w. push_bit 8 (ucast reg) OR w in
     [w16 (lms6_make TOP_DC_REG [v]), w16 (lms6_make TOP_DC_OP [0, 0, 1, ucast addr]), w16 (lms6_make TOP_DC_OP [1, 0, 1, ucast addr]),
      w16 (lms6_make TOP_DC_OP [0, 0, 1, ucast addr])])"

text \<open>At most \<open>n\<close> readings; a value of 31 is the end of the range, and the search is started again from 0.\<close>

primrec dc_poll :: "'h bus \<Rightarrow> u8 \<Rightarrow> u8 \<Rightarrow> nat \<Rightarrow> ('h, u8) l6" where
  "dc_poll bus reg addr 0 = dfail (- EFAULT)"
| "dc_poll bus reg addr (Suc n) = dbind (lms6002d_spi_rd bus (reg OR TOP_DC_CAL)) (\<lambda>ulck.
     if fget TOP_DC_CAL_CLBR_DONE ulck \<noteq> 0 then dc_poll bus reg addr n
     else dbind (lms6002d_spi_rd bus (reg OR fst TOP_DC_REG)) (\<lambda>v. let ureg = v AND 0x1f in
       if ureg = 0x1f then dseq (lms6002d_spi_post bus (dc_start reg addr 0)) (dc_poll bus reg addr n) else dreturn ureg))"

definition lms6002d_calibration_loop :: "'h bus \<Rightarrow> u8 \<Rightarrow> u8 \<Rightarrow> ('h, u8) l6" where
  "lms6002d_calibration_loop bus reg addr = dseq (lms6002d_spi_post bus (dc_start reg addr 31)) (dc_poll bus reg addr 100)"

definition lms6002d_cal_lpf :: "'h bus \<Rightarrow> ('h, unit) l6" where
  "lms6002d_cal_lpf bus =
    dseq (set_enreg TOP_ENREG_CLK_LPF_CAL 1)
    (dseq (lms6_send bus (\<lambda>m. [lms6_make AFE_MISC [0, 1, 1, 1, 1, 1], wr_enreg m]))
    (dbind (dtry (lms6002d_calibration_loop bus 0 0)) (\<lambda>r.
       dseq (case r of Inl _ \<Rightarrow> dreturn () | Inr ureg \<Rightarrow> lms6002d_spi_post bus [lms6_make RXLPF_DACBP [0, ucast ureg], lms6_make TXLPF_DACBP [0, ucast ureg]])
      (dseq (set_enreg TOP_ENREG_CLK_LPF_CAL 0) (lms6_send bus (\<lambda>m. [lms6_make AFE_MISC [1, 1, 1, 1, 1, 1], wr_enreg m]))))))"

definition lms6002d_cal_txrxlpfdc :: "'h bus \<Rightarrow> bool \<Rightarrow> ('h, unit) l6" where
  "lms6002d_cal_txrxlpfdc bus tx =
    (let breg = (if tx then 0x30 else 0x50) in
     dseq (set_enreg TOP_ENREG_CLK_RX_RPL_DCCAL (of_bool (\<not> tx)))
    (dseq (set_enreg TOP_ENREG_CLK_TX_RPL_DCCAL (of_bool tx))
    (dseq (lms6_send bus (\<lambda>m. [wr_enreg m]))
    (dseq (dignore (dseq (lms6002d_calibration_loop bus breg 0) (lms6002d_calibration_loop bus breg 1)))
    (dseq (set_enreg TOP_ENREG_CLK_LPF_CAL 0)
    (dseq (set_enreg TOP_ENREG_CLK_RX_RPL_DCCAL 0)
    (dseq (set_enreg TOP_ENREG_CLK_TX_RPL_DCCAL 0) (lms6_send bus (\<lambda>m. [wr_enreg m])))))))))"

text \<open>On every path the third register of the first group is sent again.\<close>

definition lms6002d_cal_vga2 :: "'h bus \<Rightarrow> ('h, unit) l6" where
  "lms6002d_cal_vga2 bus =
    (let cal = (\<lambda>addr. dbind (lms6002d_calibration_loop bus 0x60 addr) (\<lambda>_. dreturn ()));
         gain = lms6_make RXVGA2_GAIN [0, 10] in
     dseq (set_enreg TOP_ENREG_CLK_RX_VGA2_DCCAL 1)
    (dseq (dignore (dseq (lms6_send bus (\<lambda>m. [lms6_make RXVGA2_PD_CALIB [0, 0], wr_enreg m, gain]))
        (dlist [cal 0, cal 1, cal 2, lms6002d_spi_post bus [lms6_make RXVGA2_GAIN [10, 0]], cal 3, cal 4])))
    (dseq (set_enreg TOP_ENREG_CLK_RX_VGA2_DCCAL 0)
      (lms6_send bus (\<lambda>m. [lms6_make RXVGA2_PD_CALIB [1, 1], wr_enreg m, gain])))))"

text \<open>The code of a band is stored whether or not the steps before succeed.\<close>

definition lms6002d_cal_lpf_bandwidth :: "'h bus \<Rightarrow> u32 \<Rightarrow> ('h, unit) l6" where
  "lms6002d_cal_lpf_bandwidth bus bcode =
    (if bcode \<ge> of_nat LPF_BANDS then dfail (- EINVAL)
     else dbind (dget (\<lambda>m. fget TOP_ENCFG_STXEN (l6_top_encfg m) \<noteq> 0)) (\<lambda>txen.
       dbind (dtry (dseq (lms6002d_trf_enable bus True) (dseq (lms6002d_tune_pll bus True 320000000)
          (dseq (lms6002d_spi_post bus [lms6_make TOP_LPF_CTRL [0, 0, 0, 0], lms6_make TOP_LPF_CAL [0, 0, bcode], lms6_make TOP_LPF_CAL [1, 0, bcode],
             lms6_make TOP_LPF_CTRL [0, 0, 0, 1], lms6_make TOP_LPF_CTRL [0, 0, 0, 0]])
           (lms6002d_spi_rd bus TOP_DC_CAL))))) (\<lambda>r.
         let rcal = (case r of Inl _ \<Rightarrow> 0xff | Inr v \<Rightarrow> v) in
         dseq (dmod (\<lambda>m. m\<lparr>l6_rclpfcal := (l6_rclpfcal m)[unat bcode := fget TOP_DC_CAL_RC_LPF rcal OR 0x80]\<rparr>))
        (dseq (if txen then dreturn () else set_encfg TOP_ENCFG_STXEN 0)
          (case r of Inl e \<Rightarrow> dfail e
           | Inr _ \<Rightarrow> lms6_send bus (\<lambda>m. [lms6_make TOP_LPF_CTRL [0, 1, 0, 0], lms6_make TOP_LPF_CAL [0, 0, bcode], wr_encfg m]))))))"

section \<open>The search for a capacitor\<close>

text \<open>An oscillator that is too slow below a band of capacitors, locks on it and is too fast above.\<close>

definition cmp6 :: "int \<Rightarrow> int \<Rightarrow> int \<Rightarrow> int" where
  "cmp6 a b i = (if i < a then VTUNE_CMP_LOW else if i \<le> b then VTUNE_CMP_OK else VTUNE_CMP_HIGH)"

lemma cmp6_codes [simp]:
  "VTUNE_CMP_LOW \<noteq> VTUNE_CMP_OK" "VTUNE_CMP_LOW \<noteq> VTUNE_CMP_HIGH" "VTUNE_CMP_OK \<noteq> VTUNE_CMP_HIGH"
  "VTUNE_CMP_OK \<noteq> VTUNE_CMP_LOW" "VTUNE_CMP_HIGH \<noteq> VTUNE_CMP_OK" "VTUNE_CMP_HIGH \<noteq> VTUNE_CMP_LOW"
  by (simp_all add: VTUNE_CMP_LOW_def VTUNE_CMP_OK_def VTUNE_CMP_HIGH_def)

definition cap6_works :: "(int \<Rightarrow> ('s, int) dev) \<Rightarrow> ('s \<Rightarrow> bool) \<Rightarrow> int \<Rightarrow> int \<Rightarrow> bool" where
  "cap6_works f P a b \<longleftrightarrow> (\<forall>i s. 0 \<le> i \<longrightarrow> i \<le> 63 \<longrightarrow> P s \<longrightarrow> (\<exists>s'. f i s = (Inr (cmp6 a b i), s') \<and> P s'))"

lemma cap6_worksE:
  assumes "cap6_works f P a b" "0 \<le> i" "i \<le> 63" "P s"
  obtains s' where "f i s = (Inr (cmp6 a b i), s')" "P s'"
  using assms unfolding cap6_works_def by blast

text \<open>Each step halves the interval that holds the lower end of the band.\<close>

lemma cap6_bisect_near:
  assumes f: "cap6_works f P a b"
  shows "P s \<Longrightarrow> 2 ^ n \<le> i \<Longrightarrow> i \<le> 64 - 2 ^ n \<Longrightarrow> i - 2 ^ n < a \<Longrightarrow> a \<le> i + 2 ^ n \<Longrightarrow>
    \<exists>j s'. cap6_bisect f (rev [0..<n]) i s = (Inr j, s') \<and> P s' \<and> 1 \<le> j \<and> j \<le> 63 \<and> j \<le> a \<and> a \<le> j + 1"
proof (induction n arbitrary: i s)
  case 0 then show ?case by (auto simp: dreturn_def)
next
  case (Suc n)
  have p: "(0::int) < 2 ^ n" "(2::int) ^ Suc n = 2 * 2 ^ n" by simp_all
  have "0 \<le> i" "i \<le> 63" using Suc.prems(2,3) p by linarith+
  then obtain s' where s': "f i s = (Inr (cmp6 a b i), s')" "P s'" using cap6_worksE [OF f _ _ Suc.prems(1)] by blast
  show ?case
  proof (cases "i < a")
    case True
    show ?thesis using Suc.IH [OF s'(2), of "i + 2 ^ n"] Suc.prems True by (simp add: dbind_def s'(1) cmp6_def)
  next
    case False
    show ?thesis using Suc.IH [OF s'(2), of "i - 2 ^ n"] Suc.prems False by (auto simp: dbind_def s'(1) cmp6_def)
  qed
qed

lemma cap6_scan_up:
  assumes f: "cap6_works f P a b" and b: "b \<le> 63" and a: "1 \<le> a"
  shows "P s \<Longrightarrow> i + int n = 64 \<Longrightarrow> a \<le> i \<Longrightarrow> i \<le> b + 1 \<Longrightarrow> hi = i - 1 \<or> i = a \<and> i \<noteq> 64 \<Longrightarrow>
    \<exists>s'. cap6_scan f n i lo hi s = (Inr (lo, b), s') \<and> P s'"
proof (induction n arbitrary: i hi s)
  case 0 then show ?case using a b by (auto simp: dreturn_def)
next
  case (Suc n)
  obtain s' where s': "f i s = (Inr (cmp6 a b i), s')" "P s'" using cap6_worksE [OF f _ _ Suc.prems(1), of i] Suc.prems a by auto
  show ?case
  proof (cases "i \<le> b")
    case True
    then show ?thesis using Suc.IH [OF s'(2), of "i + 1" i] Suc.prems by (simp add: dbind_def s'(1) cmp6_def)
  next
    case False
    then have k: "i - 1 = b" "i \<noteq> 0" "cmp6 a b i = VTUNE_CMP_HIGH" using Suc.prems a by (auto simp: cmp6_def)
    have "cap6_scan f (Suc n) i lo hi s = (Inr (lo, i - 1), s')" using k(2) by (simp add: dbind_def dreturn_def s'(1) k(3))
    then show ?thesis using s'(2) k(1) by simp
  qed
qed

lemma cap6_finds:
  assumes f: "cap6_works f P a b" and ab: "1 \<le> a" "a \<le> b + 1" "b \<le> 63" and P: "P s"
  shows "\<exists>s'. lms6002d_find_vcocap f s = (Inr (a, if a = 64 then 0 else b), s') \<and> P s'"
proof -
  have r: "[4, 3, 2, 1, 0] = rev [0..<5]" by (simp add: upt_rec)
  obtain j s1 where j: "cap6_bisect f (rev [0..<5]) 32 s = (Inr j, s1)" "P s1" "1 \<le> j" "j \<le> 63" "j \<le> a" "a \<le> j + 1"
    using cap6_bisect_near [OF f P, of 5 32] ab by auto
  have n: "j + int (nat (64 - j)) = 64" using j by simp
  have "\<exists>s2. cap6_scan f (nat (64 - j)) j j (- 1) s1 = (Inr (a, if a = 64 then 0 else b), s2) \<and> P s2"
  proof (cases "j = a")
    case True
    then show ?thesis using cap6_scan_up [OF f ab(3,1) j(2) n, of "- 1" j] ab j by auto
  next
    case False
    then have ja: "a = j + 1" "nat (64 - j) = Suc (nat (64 - a))" using j by auto
    obtain s2 where s2: "f j s1 = (Inr (cmp6 a b j), s2)" "P s2" using cap6_worksE [OF f _ _ j(2), of j] j by auto
    have st: "cap6_scan f (nat (64 - j)) j j (- 1) s1 = cap6_scan f (nat (64 - a)) a a (- 1) s2"
      by (simp add: ja(2) dbind_def s2(1) cmp6_def) (simp add: ja(1))
    show ?thesis
    proof (cases "a = 64")
      case True then show ?thesis using s2(2) by (simp add: st dreturn_def)
    next
      case False
      then show ?thesis using cap6_scan_up [OF f ab(3,1) s2(2), of a "nat (64 - a)" "- 1" a] ab j ja(1) by (simp add: st)
    qed
  qed
  then show ?thesis by (auto simp: lms6002d_find_vcocap_def dbind_def j(1) [folded r] simp del: cap6_bisect.simps One_nat_def)
qed

section \<open>A chip of registers\<close>

type_synonym lms6_regs = "u8 \<Rightarrow> u8"

definition lms6_poke :: "lms6_regs \<Rightarrow> u16 \<Rightarrow> lms6_regs" where
  "lms6_poke h w = h(ucast (drop_bit 8 w) AND 0x7f := ucast w)"

definition lms6_chip :: "(lms6_regs \<Rightarrow> u8 \<Rightarrow> u8) \<Rightarrow> lms6_regs bus" where
  "lms6_chip rd = (\<lambda>rq h. let w = of_le_bytes (rq_out rq) :: u32 in
     if bit w 15 then (Inr (le_bytes 4 (0 :: u32)), lms6_poke h (ucast w))
     else (Inr (le_bytes 4 (ucast (rd h (ucast (drop_bit 8 w))) :: u32)), h))"

lemma bit_lms6_wr: "bit (lms6_wr a v) n \<longleftrightarrow> n = 15 \<or> 8 \<le> n \<and> n < 16 \<and> bit a (n - 8) \<or> n < 8 \<and> bit v n"
proof -
  have "bit (0x8000 :: u16) n \<longleftrightarrow> n = 15" using bit_exp_iff [of 15 n, where ?'a = "16 word"] by (auto simp: possible_bit_word)
  then show ?thesis unfolding lms6_wr_def by (auto simp: bit_or_iff bit_push_bit_iff bit_ucast_iff dest: bit_imp_le_length)
qed

lemma u7_bit: "a AND 0x7f = a \<Longrightarrow> bit (a :: u8) n \<Longrightarrow> n < 7"
proof -
  assume a: "a AND 0x7f = a" and b: "bit a n"
  have m: "(0x7f :: u8) = mask 7" by (simp add: mask_eq_exp_minus_1)
  show "n < 7" using arg_cong [OF a [unfolded m], of "\<lambda>x. bit x n"] b by (auto simp: bit_and_iff bit_mask_iff)
qed

lemma lms6_wr_simps [simp]:
  "bit (lms6_wr a v) 15" "ucast (lms6_wr a v) = (v :: u8)"
  "a AND 0x7f = a \<Longrightarrow> lms6_poke h (lms6_wr a v) = h(a := v)"
proof -
  show "bit (lms6_wr a v) 15" by (simp add: bit_lms6_wr)
  show v: "ucast (lms6_wr a v) = v" by (rule bit_word_eqI) (auto simp: bit_ucast_iff bit_lms6_wr)
  assume a: "a AND 0x7f = a"
  have m: "(0x7f :: u8) = mask 7" by (simp add: mask_eq_exp_minus_1)
  have "ucast (drop_bit 8 (lms6_wr a v)) AND 0x7f = a"
    by (rule bit_word_eqI) (use u7_bit [OF a] in \<open>auto simp: m bit_and_iff bit_ucast_iff bit_drop_bit_eq bit_lms6_wr bit_mask_iff\<close>)
  then show "lms6_poke h (lms6_wr a v) = h(a := v)" by (simp add: lms6_poke_def v)
qed

lemma ucast_wide: "ucast (ucast (x :: u16) :: u32) = x" "ucast (ucast (y :: u8) :: u32) = y"
  by (rule bit_word_eqI, simp add: bit_ucast_iff)+

lemma lms6_post_chip:
  assumes "\<forall>r\<in>set rs. bit r 15"
  shows "lms6002d_spi_post (lms6_chip rd) rs (h, m) = (Inr (), (foldl lms6_poke h rs, m))"
  using assms
proof (induction rs arbitrary: h)
  case (Cons r rs)
  have "spi_tr32 (lms6_chip rd) a (ucast r) h = (Inr (), lms6_poke h r)" for a
    using Cons.prems by (simp add: spi_tr32_def bus_op_def lms6_chip_def dbind_def of_le_bytes_le_bytes Let_def bit_ucast_iff ucast_wide)
  then show ?case using Cons by (simp add: lms6002d_spi_post_def dbind_def dseq_def on_hw_def)
qed (simp add: lms6002d_spi_post_def on_hw_def)

lemma lms6_rd_chip:
  assumes "a AND 0x7f = a"
  shows "lms6002d_spi_rd (lms6_chip rd) a (h, m) = (Inr (rd h a), (h, m))"
proof -
  note b = u7_bit [OF assms]
  have p: "\<not> bit (push_bit 8 (ucast a :: u32)) 15" using b [of 7] by (auto simp: bit_push_bit_iff bit_ucast_iff)
  have d: "ucast (drop_bit 8 (push_bit 8 (ucast a :: u32))) = a"
    by (rule bit_word_eqI) (use b in \<open>auto simp: bit_simps intro: less_trans\<close>)
  show ?thesis
    by (simp add: lms6002d_spi_rd_def spi_tr32_rd_def bus_op_def lms6_chip_def dbind_def on_hw_def of_le_bytes_le_bytes Let_def p d ucast_wide)
qed

section \<open>Tuning\<close>

text \<open>The limits of the four oscillators in MHz.\<close>

fun vco6_limits :: "nat \<Rightarrow> nat \<times> nat" where
  "vco6_limits n = (if n = 7 then (6250, 8100) else if n = 6 then (5250, 6900) else if n = 5 then (4450, 5650)
     else if n = 4 then (3650, 4800) else (0, 0))"

lemma vco6_line_good:
  assumes "228125000 \<le> unat freq" "unat freq \<le> 3720000000"
  shows "\<exists>n d. vco6_line VCO_RANGES6 freq = (n, d) \<and> d \<le> 3 \<and> unat n < 8 \<and>
    fst (vco6_limits (unat n)) * 10 ^ 6 \<le> unat freq * 2 ^ (d + 1) \<and> unat freq * 2 ^ (d + 1) \<le> snd (vco6_limits (unat n)) * 10 ^ 6"
  using assms unfolding VCO_RANGES6_def by (auto simp: word_le_nat_alt not_le)

lemma pll6_calc_accuracy:
  assumes f: "fref \<noteq> 0" and v: "unat vco < 512 * unat fref"
  shows "\<exists>nint nfrac. lms6002d_pll_calc fref vco = Inr (nint, nfrac) \<and> unat nint < 2 ^ 9 \<and> unat nfrac < 2 ^ 23 \<and>
    unat fref * (unat nint * 2 ^ 23 + unat nfrac) \<le> unat vco * 2 ^ 23 \<and>
    unat vco * 2 ^ 23 < unat fref * (unat nint * 2 ^ 23 + unat nfrac + 1)"
proof -
  define q r n where "q = unat fref" and "r = unat vco mod q" and "n = unat vco div q"
  have q0: "0 < q" using f by (simp add: q_def unat_gt_0)
  have q32: "q < 2 ^ 32" using unsigned_less [of fref, where ?'a = nat] by (simp add: q_def)
  have n512: "n < 512" using v q0 by (simp add: n_def q_def div_less_iff_less_mult)
  have uq: "unat (ucast fref :: u64) = q" using q32 by (simp add: q_def unsigned_ucast_eq take_bit_nat_eq_self)
  define nw where "nw = (ucast (vco div ucast fref) :: u32)"
  have un: "unat nw = n"
  proof -
    have "unat (vco div ucast fref) = n" by (simp only: unat_div uq n_def)
    then show ?thesis using n512 by (simp only: nw_def unsigned_ucast_eq) (simp add: take_bit_nat_eq_self)
  qed
  have "n * q \<le> 512 * q" using n512 by simp
  then have "n * q < 2 ^ 64" using q32 n512 by (intro order_le_less_trans [of "n * q" "512 * q"]) simp_all
  moreover have "unat (ucast nw :: u64) = n" using n512 by (simp add: unsigned_ucast_eq un take_bit_nat_eq_self)
  ultimately have "unat (ucast nw * ucast fref :: u64) = n * q" by (subst unat_mult_lem [THEN iffD1]) (simp_all add: uq)
  moreover have vr: "unat vco = n * q + r" by (simp add: r_def n_def)
  ultimately have ur: "unat (vco - ucast nw * ucast fref) = r" by (simp add: unat_sub word_le_nat_alt)
  have rq: "r < q" using q0 by (simp add: r_def)
  define fw where "fw = (ucast ((vco - ucast nw * ucast fref) * 2 ^ 23 div ucast fref) :: u32)"
  have rd: "r * 2 ^ 23 div q < 2 ^ 23" using rq q0 by (simp add: div_less_iff_less_mult)
  have r64: "r * 2 ^ 23 < 2 ^ 64" using rq q32 by simp
  have um: "unat ((vco - ucast nw * ucast fref) * 2 ^ 23) = r * 2 ^ 23"
    using r64 by (subst unat_mult_lem [THEN iffD1]) (simp_all add: ur)
  have uf: "unat fw = r * 2 ^ 23 div q"
  proof -
    have "unat ((vco - ucast nw * ucast fref) * 2 ^ 23 div ucast fref) = r * 2 ^ 23 div q" by (simp only: unat_div um uq)
    then show ?thesis using rd by (simp only: fw_def unsigned_ucast_eq) (simp add: take_bit_nat_eq_self)
  qed
  have fr: "q * (r * 2 ^ 23 div q) \<le> r * 2 ^ 23" "r * 2 ^ 23 < q * (r * 2 ^ 23 div q + 1)"
    using q0 by (simp_all add: dividend_less_times_div)
  have "lms6002d_pll_calc fref vco = Inr (nw, fw)" using f by (simp add: lms6002d_pll_calc_def Let_def nw_def fw_def)
  moreover have "q * (n * 2 ^ 23 + r * 2 ^ 23 div q) \<le> unat vco * 2 ^ 23" "unat vco * 2 ^ 23 < q * (n * 2 ^ 23 + r * 2 ^ 23 div q + 1)"
    using fr by (simp_all add: vr algebra_simps)
  ultimately show ?thesis using n512 rd un uf by (auto simp: q_def)
qed

text \<open>What a synthesizer's registers hold.\<close>

definition pll6_word :: "bool \<Rightarrow> lms6_regs \<Rightarrow> nat" where
  "pll6_word tx h = unat (h (fst (pll6 tx (0x10, [])))) * 2 ^ 24 + unat (h (fst (pll6 tx (0x11, [])))) * 2 ^ 16 +
     unat (h (fst (pll6 tx (0x12, [])))) * 2 ^ 8 + unat (h (fst (pll6 tx (0x13, []))))"

definition vdiv6 :: "bool \<Rightarrow> lms6_regs \<Rightarrow> u8" where "vdiv6 tx h = h (fst (pll6 tx PLL6_VCO_DIV))"
definition cap6 :: "bool \<Rightarrow> lms6_regs \<Rightarrow> int" where "cap6 tx h = uint (fget (0, 6) (h (fst (pll6 tx PLL6_CFG2))))"

definition chip6 :: "(lms6_regs \<Rightarrow> u8 \<Rightarrow> u8) \<Rightarrow> bool \<Rightarrow> (nat \<Rightarrow> u8 \<Rightarrow> int) \<Rightarrow> (nat \<Rightarrow> u8 \<Rightarrow> int) \<Rightarrow> bool" where
  "chip6 rd tx A B \<longleftrightarrow>
    (\<forall>h. cmp6_code (rd h (fst (pll6 tx (PLL6_VTUNE, [])))) = cmp6 (A (pll6_word tx h) (vdiv6 tx h)) (B (pll6_word tx h) (vdiv6 tx h)) (cap6 tx h)) \<and>
    (\<forall>h. \<forall>k<4. rd h (fst (pll6 tx (0x10 + of_nat k, []))) = h (fst (pll6 tx (0x10 + of_nat k, []))))"

lemma lms6_make_field:
  assumes "fdisjoint fs" "i < length fs" "i < length vs" "fst (fs ! i) + snd (fs ! i) \<le> 8"
  shows "unat (fget (fs ! i) (ucast (fpack fs vs :: u32) :: u8)) = unat (vs ! i) mod 2 ^ snd (fs ! i)"
proof -
  have "fget (fs ! i) (ucast (fpack fs vs :: u32) :: u8) = ucast (vs ! i) AND mask (snd (fs ! i))"
  proof (rule bit_word_eqI)
    fix n assume n: "n < LENGTH(8)"
    show "bit (fget (fs ! i) (ucast (fpack fs vs :: u32) :: u8)) n \<longleftrightarrow> bit (ucast (vs ! i) AND mask (snd (fs ! i)) :: u8) n"
      using bit_fpack_in [OF assms(1-3), of "fst (fs ! i) + n"] assms(4) n
      by (auto simp: bit_fget bit_ucast_iff bit_and_iff bit_mask_iff)
  qed
  then show ?thesis using assms(4)
    by (simp add: take_bit_eq_mask [symmetric] unsigned_take_bit_eq unsigned_ucast_eq min_absorb2 min_absorb1 flip: take_bit_eq_mod)
qed

lemma bytes_of_word: "unat (ucast (drop_bit 24 v) :: u8) * 2 ^ 24 + unat (ucast (drop_bit 16 v) :: u8) * 2 ^ 16 +
   unat (ucast (drop_bit 8 v) :: u8) * 2 ^ 8 + unat (ucast v :: u8) = unat (v :: u32)"
proof -
  define n where "n = unat v"
  have n: "n < 2 ^ 32" using unsigned_less [of v, where ?'a = nat] by (simp add: n_def)
  have b: "unat (ucast (drop_bit k v) :: u8) = n div 2 ^ k mod 256" for k
    by (simp only: unsigned_ucast_eq unat_drop_bit_eq) (simp add: n_def drop_bit_eq_div take_bit_eq_mod)
  define x y z where "x = n div 256" and "y = x div 256" and "z = y div 256"
  have d: "n div 2 ^ 16 = y" "n div 2 ^ 24 = z" "n div 2 ^ 8 = x" by (simp_all add: x_def y_def z_def div_mult2_eq [symmetric])
  have z: "z mod 256 = z" using n by (simp add: x_def y_def z_def div_mult2_eq [symmetric] div_less_iff_less_mult)
  have "n = x * 256 + n mod 256" "x = y * 256 + x mod 256" "y = z * 256 + y mod 256" by (simp_all add: x_def y_def z_def)
  then show ?thesis using b [of 24] b [of 16] b [of 8] b [of 0] unfolding d z n_def [symmetric] by simp
qed

lemma pll6_ratio_word:
  assumes "unat nint < 2 ^ 9" "unat nfrac < 2 ^ 23"
  shows "unat (fpack PLL6_NINT_NFRAC [nint, nfrac] :: u32) = unat nint * 2 ^ 23 + unat nfrac"
proof -
  have low: "unat w < 2 ^ k \<Longrightarrow> bit w n \<Longrightarrow> n < k" for w :: u32 and k n
    by (metis bit_take_bit_iff take_bit_nat_eq_self bit_unsigned_iff unsigned_take_bit_eq word_eq_iff_unsigned)
  note b9 = low [OF assms(1)] and b23 = low [OF assms(2)]
  have e: "fpack PLL6_NINT_NFRAC [nint, nfrac] = push_bit 23 nint OR nfrac"
    by (rule bit_word_eqI) (use b9 b23 in \<open>auto simp: PLL6_NINT_NFRAC_def bit_or_iff bit_and_iff bit_push_bit_iff bit_fmask\<close>)
  have d: "push_bit 23 nint AND nfrac = 0"
    by (rule bit_word_eqI) (auto simp: bit_and_iff bit_push_bit_iff dest: b23)
  have u: "unat (push_bit 23 nint) = unat nint * 2 ^ 23"
    using assms(1) by (simp add: push_bit_eq_mult) (subst unat_mult_lem [THEN iffD1]; simp)
  have "push_bit 23 nint OR nfrac = push_bit 23 nint + nfrac" using d by (simp add: disjunctive_add_eq_or)
  then show ?thesis using assms u by (simp add: e unat_word_ariths)
qed

lemma bit_lms6_make [simp]: "bit (lms6_make r vs) 15" "bit (pll6_by tx k v) 15" "bit (wr_enreg m) 15" "bit (wr_encfg m) 15" "bit (vco_div6 tx n d m) 15"
  by (simp_all add: lms6_make_def pll6_by_def wr_enreg_def wr_encfg_def vco_div6_def)

lemmas pll6_regs_defs = PLL6_CFG_def PLL6_VCO_DIV_def PLL6_PFD_UP_def PLL6_VCO_REG_PFD_U_def PLL6_VCO_REG_PFD_D_def PLL6_CFG2_def
  PLL6_VCOCOMO_def PLL6_VTUNE_def pll6_def TOP_ENREG_def

lemma cap6_set:
  assumes "0 \<le> i" "i \<le> 63"
  shows "\<exists>v. lms6_poke h (lms6_make (pll6 tx PLL6_CFG2) [0, of_int i]) = h(fst (pll6 tx PLL6_CFG2) := v) \<and> uint (fget (0, 6) v) = i"
proof -
  define v where "v = (ucast (fpack (snd PLL6_CFG2) [0, of_int i] :: u32) :: u8)"
  have "unat (fget (snd PLL6_CFG2 ! 1) v) = unat (of_int i :: u32) mod 2 ^ snd (snd PLL6_CFG2 ! 1)"
    unfolding v_def using lms6_make_field [of "snd PLL6_CFG2" 1 "[0, of_int i]"] by (simp add: PLL6_CFG2_def)
  moreover obtain n where n: "i = int n" "n \<le> 63" using assms by (cases i) auto
  ultimately have "unat (fget (0, 6) v) = n" by (simp add: PLL6_CFG2_def unsigned_of_nat take_bit_nat_eq_self)
  then have "uint (fget (0, 6) v) = i" using n(1) by (simp only: uint_nat)
  moreover have "fst (pll6 tx PLL6_CFG2) AND 0x7f = fst (pll6 tx PLL6_CFG2)" by (cases tx) (simp_all add: pll6_regs_defs)
  ultimately show ?thesis by (simp add: lms6_make_def v_def) (cases tx; auto simp: pll6_def)
qed

lemma cap6_try_chip:
  assumes chip: "chip6 rd tx A B" and i: "0 \<le> i" "i \<le> 63"
  shows "\<exists>h'. cap6_try (lms6_chip rd) tx i (h, m) = (Inr (cmp6 (A (pll6_word tx h) (vdiv6 tx h)) (B (pll6_word tx h) (vdiv6 tx h)) i), (h', m)) \<and>
    (\<forall>a. a \<noteq> fst (pll6 tx PLL6_CFG2) \<longrightarrow> h' a = h a)"
proof -
  obtain v where v: "lms6_poke h (lms6_make (pll6 tx PLL6_CFG2) [0, of_int i]) = h(fst (pll6 tx PLL6_CFG2) := v)" "uint (fget (0, 6) v) = i"
    using cap6_set [OF i] by blast
  define h' where "h' = h(fst (pll6 tx PLL6_CFG2) := v)"
  have c: "cap6 tx h' = i" using v(2) by (simp add: cap6_def h'_def)
  have k: "pll6_word tx h' = pll6_word tx h" "vdiv6 tx h' = vdiv6 tx h"
    by (cases tx; simp add: pll6_word_def vdiv6_def h'_def pll6_regs_defs)+
  have "cmp6_code (rd h' (fst (pll6 tx (PLL6_VTUNE, [])))) = cmp6 (A (pll6_word tx h) (vdiv6 tx h)) (B (pll6_word tx h) (vdiv6 tx h)) i"
    using chip c k by (simp add: chip6_def)
  moreover have "lms6002d_spi_post (lms6_chip rd) [lms6_make (pll6 tx PLL6_CFG2) [0, of_int i]] (h, m) = (Inr (), (h', m))"
    by (subst lms6_post_chip) (simp_all add: v(1) h'_def)
  moreover have "lms6002d_spi_rd (lms6_chip rd) (fst (pll6 tx (PLL6_VTUNE, []))) (h', m) = (Inr (rd h' (fst (pll6 tx (PLL6_VTUNE, [])))), (h', m))"
    by (rule lms6_rd_chip) (cases tx; simp add: pll6_regs_defs)
  ultimately have "cap6_try (lms6_chip rd) tx i (h, m) = (Inr (cmp6 (A (pll6_word tx h) (vdiv6 tx h)) (B (pll6_word tx h) (vdiv6 tx h)) i), (h', m))"
    by (simp add: cap6_try_def lms6002d_get_comp_def)
  then show ?thesis by (auto simp: h'_def)
qed

lemma cap6_chip_works:
  assumes chip: "chip6 rd tx A B"
  shows "cap6_works (cap6_try (lms6_chip rd) tx) (\<lambda>s. \<exists>h'. s = (h', m) \<and> (\<forall>a. a \<noteq> fst (pll6 tx PLL6_CFG2) \<longrightarrow> h' a = h a))
    (A (pll6_word tx h) (vdiv6 tx h)) (B (pll6_word tx h) (vdiv6 tx h))"
  unfolding cap6_works_def
proof (intro allI impI)
  fix i :: int and s assume i: "0 \<le> i" "i \<le> 63" and "\<exists>h'. s = (h', m) \<and> (\<forall>a. a \<noteq> fst (pll6 tx PLL6_CFG2) \<longrightarrow> h' a = h a)"
  then obtain h1 where h1: "s = (h1, m)" "\<forall>a. a \<noteq> fst (pll6 tx PLL6_CFG2) \<longrightarrow> h1 a = h a" by blast
  have k: "pll6_word tx h1 = pll6_word tx h" "vdiv6 tx h1 = vdiv6 tx h"
    using h1(2) by (cases tx; simp add: pll6_word_def vdiv6_def pll6_regs_defs)+
  show "\<exists>s'. cap6_try (lms6_chip rd) tx i s = (Inr (cmp6 (A (pll6_word tx h) (vdiv6 tx h)) (B (pll6_word tx h) (vdiv6 tx h)) i), s') \<and>
      (\<exists>h'. s' = (h', m) \<and> (\<forall>a. a \<noteq> fst (pll6 tx PLL6_CFG2) \<longrightarrow> h' a = h a))"
    using cap6_try_chip [OF chip i, of h1 m] h1 k by auto
qed

lemma pll6_setup_chip:
  assumes r: "ratio = fpack PLL6_NINT_NFRAC [nint, nfrac]" "unat nint < 2 ^ 9" "unat nfrac < 2 ^ 23"
  shows "\<exists>h'. lms6_send (lms6_chip rd) (pll6_regs tx n d ratio) (h, m) = (Inr (), (h', m)) \<and> pll6_word tx h' = unat nint * 2 ^ 23 + unat nfrac \<and>
    vdiv6 tx h' = ucast (vco_div6 tx n d m) \<and> (\<forall>k\<in>{0, 1, 2, 3}. h' (fst (pll6 tx (0x10 + of_nat k, []))) = ucast (pll6_by tx k ratio))"
proof -
  define h' where "h' = foldl lms6_poke h (pll6_regs tx n d ratio m)"
  have "lms6_send (lms6_chip rd) (pll6_regs tx n d ratio) (h, m) = (Inr (), (h', m))"
    unfolding lms6_send_def h'_def by (simp, subst lms6_post_chip) (simp_all add: pll6_regs_def)
  moreover have b: "\<forall>k\<in>{0, 1, 2, 3}. h' (fst (pll6 tx (0x10 + of_nat k, []))) = ucast (pll6_by tx k ratio)"
    and v: "vdiv6 tx h' = ucast (vco_div6 tx n d m)"
    by (cases tx; simp add: h'_def pll6_regs_def wr_enreg_def lms6_make_def pll6_by_def vco_div6_def vdiv6_def pll6_regs_defs)+
  moreover have "pll6_word tx h' = unat nint * 2 ^ 23 + unat nfrac"
  proof -
    have "pll6_word tx h' = unat ratio" using b bytes_of_word [of ratio] by (simp add: pll6_word_def pll6_by_def)
    then show ?thesis by (simp only: r(1) pll6_ratio_word [OF r(2,3)])
  qed
  ultimately show ?thesis by blast
qed

lemma ratio_read_chip:
  assumes "\<forall>k\<in>set ks. k < 4" and "\<forall>h. \<forall>k<4. rd h (fst (pll6 tx (0x10 + of_nat k, []))) = h (fst (pll6 tx (0x10 + of_nat k, [])))"
  shows "ratio_read (lms6_chip rd) tx ks (h, m) = (Inr (map (\<lambda>k. h (fst (pll6 tx (0x10 + of_nat k, [])))) ks), (h, m))"
  using assms(1)
proof (induction ks)
  case (Cons k ks)
  have "k \<in> {0, 1, 2, 3}" using Cons.prems by auto
  then have "fst (pll6 tx (0x10 + of_nat k, [])) AND 0x7f = fst (pll6 tx (0x10 + of_nat k, []))"
    by (cases tx) (auto simp: pll6_regs_defs)
  then show ?case using Cons assms(2)
    by (simp add: rd_or_0_def dtry_def dbind_def lms6_rd_chip)
qed simp

lemma vco_div6_fields:
  assumes "d \<le> 3"
  shows "unat (fget (5, 3) (ucast (vco_div6 tx n d m) :: u8)) = unat n mod 8" "unat (fget (2, 2) (ucast (vco_div6 tx n d m) :: u8)) = d"
proof -
  define s where "s = (if tx then 0 else ucast (fget RXPLL_SELOUT (l6_rxpll_vco_div_bufsel m)) :: u32)"
  define w where "w = (ucast (fpack (snd PLL6_VCO_DIV) [n, of_nat d OR 4, s] :: u32) :: u8)"
  have v: "ucast (vco_div6 tx n d m) = w" by (cases tx) (simp_all add: vco_div6_def lms6_make_def pll6_def w_def s_def)
  show "unat (fget (5, 3) (ucast (vco_div6 tx n d m) :: u8)) = unat n mod 8"
    using lms6_make_field [of "snd PLL6_VCO_DIV" 0 "[n, of_nat d OR 4, s]"] by (simp add: v w_def PLL6_VCO_DIV_def)
  have "fget (2, 2) w = take_bit 2 (fget (2, 3) w)" by (rule bit_word_eqI) (auto simp: bit_fget bit_take_bit_iff)
  then have "unat (fget (2, 2) w) = unat (fget (2, 3) w) mod 4" by (simp add: take_bit_eq_mod unat_mod)
  moreover have "unat (fget (2, 3) w) = unat (of_nat d OR 4 :: u32) mod 8"
    using lms6_make_field [of "snd PLL6_VCO_DIV" 1 "[n, of_nat d OR 4, s]"] by (simp add: w_def PLL6_VCO_DIV_def)
  moreover have "d \<in> {0, 1, 2, 3}" using assms by auto
  ultimately show "unat (fget (2, 2) (ucast (vco_div6 tx n d m) :: u8)) = d" unfolding v by auto
qed

lemma tune_pll_chip:
  assumes chip: "chip6 rd tx A B" and band: "\<And>w v. 1 \<le> A w v \<and> A w v \<le> B w v \<and> B w v \<le> 63"
    and freq: "228125000 \<le> unat freq" "unat freq \<le> 3720000000" and fref: "16000000 \<le> unat (l6_fref m)"
  shows "\<exists>h' m'. lms6002d_tune_pll (lms6_chip rd) tx freq (h, m) = (Inr (), (h', m')) \<and>
    (let w = pll6_word tx h'; v = vdiv6 tx h'; vco = unat freq * 2 ^ (unat (fget (2, 2) v) + 1); lim = vco6_limits (unat (fget (5, 3) v)) in
      unat (l6_fref m) * w \<le> vco * 2 ^ 23 \<and> vco * 2 ^ 23 < unat (l6_fref m) * (w + 1) \<and>
      fst lim * 10 ^ 6 \<le> vco \<and> vco \<le> snd lim * 10 ^ 6 \<and> cap6 tx h' = (A w v + B w v) div 2)"
proof -
  obtain n d where nd: "vco6_line VCO_RANGES6 freq = (n, d)" "d \<le> 3" "unat n < 8"
    "fst (vco6_limits (unat n)) * 10 ^ 6 \<le> unat freq * 2 ^ (d + 1)" "unat freq * 2 ^ (d + 1) \<le> snd (vco6_limits (unat n)) * 10 ^ 6"
    using vco6_line_good [OF freq] by blast
  define fw vco where "fw = l6_fref m" and "vco = (ucast freq :: u64) * 2 ^ (d + 1)"
  have snd_lim: "snd (vco6_limits (unat n)) \<le> 8100" by simp
  have fx: "unat freq * 2 ^ (d + 1) \<le> 8100000000" by (rule order_trans [OF nd(5)]) (use snd_lim in \<open>simp del: vco6_limits.simps\<close>)
  have "unat (2 ^ (d + 1) :: u64) = 2 ^ (d + 1)" 
  proof -
    have "d \<in> {0, 1, 2, 3}" using nd(2) by auto
    then show ?thesis by auto
  qed
  moreover have "unat (ucast freq :: u64) = unat freq" using freq by (simp add: unsigned_ucast_eq take_bit_nat_eq_self)
  ultimately have uv: "unat vco = unat freq * 2 ^ (d + 1)" unfolding vco_def using fx by (subst unat_mult_lem [THEN iffD1]) (simp_all only: , simp)
  have f0: "fw \<noteq> 0" using fref by (auto simp: fw_def)
  have "unat vco < 512 * unat fw" using fx fref unfolding uv fw_def by linarith
  then obtain nint nfrac where p: "lms6002d_pll_calc fw vco = Inr (nint, nfrac)" "unat nint < 2 ^ 9" "unat nfrac < 2 ^ 23"
    "unat fw * (unat nint * 2 ^ 23 + unat nfrac) \<le> unat vco * 2 ^ 23" "unat vco * 2 ^ 23 < unat fw * (unat nint * 2 ^ 23 + unat nfrac + 1)"
    using pll6_calc_accuracy [OF f0] by blast
  define ratio where "ratio = (fpack PLL6_NINT_NFRAC [nint, nfrac] :: u32)"
  define m1 where "m1 = m\<lparr>l6_top_enreg := fset (if tx then TOP_ENREG_CLK_TX_DSM_SPI else TOP_ENREG_CLK_RX_DSM_SPI) 1 (l6_top_enreg m)\<rparr>"
  obtain h1 where h1: "lms6_send (lms6_chip rd) (pll6_regs tx n d ratio) (h, m1) = (Inr (), (h1, m1))"
    "pll6_word tx h1 = unat nint * 2 ^ 23 + unat nfrac" "vdiv6 tx h1 = ucast (vco_div6 tx n d m1)"
    "\<forall>k\<in>{0, 1, 2, 3}. h1 (fst (pll6 tx (0x10 + of_nat k, []))) = ucast (pll6_by tx k ratio)"
    using pll6_setup_chip [OF ratio_def p(2,3), of rd tx n d h m1] by blast
  define w v where "w = pll6_word tx h1" and "v = vdiv6 tx h1"
  have rdk: "ratio_read (lms6_chip rd) tx [0, 1, 2, 3] (h1, m1) = (Inr (map (\<lambda>k. ucast (pll6_by tx k ratio)) [0, 1, 2, 3]), (h1, m1))"
    using ratio_read_chip [of "[0, 1, 2, 3]" rd tx h1 m1] chip h1(4) by (simp add: chip6_def del: ratio_read.simps)
  obtain h2 where h2: "lms6002d_find_vcocap (cap6_try (lms6_chip rd) tx) (h1, m1) = (Inr (A w v, B w v), (h2, m1))"
    "\<forall>a. a \<noteq> fst (pll6 tx PLL6_CFG2) \<longrightarrow> h2 a = h1 a"
    using cap6_finds [OF cap6_chip_works [OF chip, of m1 h1], of "(h1, m1)"] band [of w v] unfolding w_def v_def by auto
  have c: "0 \<le> (A w v + B w v) div 2" "(A w v + B w v) div 2 \<le> 63" using band [of w v] by linarith+
  obtain cv where cv: "lms6_poke h2 (lms6_make (pll6 tx PLL6_CFG2) [0, of_int ((A w v + B w v) div 2)]) = h2(fst (pll6 tx PLL6_CFG2) := cv)"
    "uint (fget (0, 6) cv) = (A w v + B w v) div 2" using cap6_set [OF c] by blast
  define fin where "fin = (\<lambda>m. [lms6_make (pll6 tx PLL6_CFG2) [0, of_int ((A w v + B w v) div 2)], vco_div6 tx n d m, lms6_wr (fst (pll6 tx (PLL6_VCOCOMO, []))) 0x7e])"
  define h3 where "h3 = foldl lms6_poke h2 (fin m1)"
  define m3 where "m3 = (if tx then m1 else m1\<lparr>l6_rxpll_vco_div_bufsel := ucast (vco_div6 tx n d m1)\<rparr>)"
  have s3: "lms6_send (lms6_chip rd) fin (h2, m1) = (Inr (), (h3, m1))"
    unfolding lms6_send_def h3_def by (simp, subst lms6_post_chip) (simp_all add: fin_def)
  have vd: "pll6_word tx h3 = w" "vdiv6 tx h3 = v" "cap6 tx h3 = (A w v + B w v) div 2"
    using h2(2) h1(3) cv(2) unfolding h3_def fin_def foldl.simps cv(1)
    by (cases tx; simp add: w_def v_def pll6_word_def vdiv6_def cap6_def vco_div6_def lms6_make_def pll6_regs_defs)+
  have "lms6002d_tune_pll (lms6_chip rd) tx freq (h, m) = (Inr (), (h3, m3))"
  proof -
    have lt: "\<not> freq < 200000000" using freq(1) by (simp add: word_less_nat_alt)
    have s0: "dget l6_fref (h, m) = (Inr fw, (h, m))" by (simp add: fw_def)
    have s1: "set_enreg (if tx then TOP_ENREG_CLK_TX_DSM_SPI else TOP_ENREG_CLK_RX_DSM_SPI) 1 (h, m) = (Inr (), (h, m1))"
      by (simp add: set_enreg_def m1_def)
    have s4: "dmod (\<lambda>m. if tx then m else m\<lparr>l6_rxpll_vco_div_bufsel := ucast (vco_div6 tx n d m)\<rparr>) (h3, m1) = (Inr (), (h3, m3))"
      by (simp add: m3_def)
    have ok: "\<not> (A w v > B w v \<and> B w v = 0)" using band [of w v] by simp
    show ?thesis
      by (simp only: lms6002d_tune_pll_def nd(1) Let_def prod.case vco_def [symmetric] lt dev_simps s0 p(1) sum.case ratio_def [symmetric] s1 h1(1) rdk
        h2(1) fin_def [symmetric] s3 s4 ok if_False simp_thms)
  qed
  moreover have "unat (fget (5, 3) v) = unat n" "unat (fget (2, 2) v) = d" using vco_div6_fields [OF nd(2), of tx n m1] nd(3) h1(3) by (simp_all add: v_def)
  moreover note p(4,5) [folded h1(2), folded w_def]
  ultimately show ?thesis using nd(4,5) vd uv
    by (intro exI [of _ h3] exI [of _ m3]) (simp add: Let_def fw_def [symmetric] del: vco6_limits.simps)
qed

section \<open>What the calls promise\<close>

text \<open>C22: a synthesizer of the LMS6002D on a chip whose oscillators lock for a band of capacitors that depends on the
  ratio and the oscillator. For 228.125 to 3720 MHz tuning succeeds; the ratio left in the registers is within one step of
  the fraction below the frequency, the oscillator is within its limits, and the capacitor is the middle of the band.\<close>

theorem lms6002d_tune_locks:
  assumes "chip6 rd tx A B" and "\<And>w v. 1 \<le> A w v \<and> A w v \<le> B w v \<and> B w v \<le> 63"
    and "228125000 \<le> unat freq" "unat freq \<le> 3720000000" and "16000000 \<le> unat (l6_fref m)"
  shows "\<exists>h' m'. lms6002d_tune_pll (lms6_chip rd) tx freq (h, m) = (Inr (), (h', m')) \<and>
    (let w = pll6_word tx h'; v = vdiv6 tx h'; vco = unat freq * 2 ^ (unat (fget (2, 2) v) + 1); lim = vco6_limits (unat (fget (5, 3) v)) in
      unat (l6_fref m) * w \<le> vco * 2 ^ 23 \<and> vco * 2 ^ 23 < unat (l6_fref m) * (w + 1) \<and>
      fst lim * 10 ^ 6 \<le> vco \<and> vco \<le> snd lim * 10 ^ 6 \<and> cap6 tx h' = (A w v + B w v) div 2)"
  by (rule tune_pll_chip [OF assms])

text \<open>A chip whose comparators answer for the band from \<open>a\<close> to \<open>b\<close>.\<close>

definition band6_rd :: "int \<Rightarrow> int \<Rightarrow> lms6_regs \<Rightarrow> u8 \<Rightarrow> u8" where
  "band6_rd a b h r = (if r = 0x1a \<or> r = 0x2a then
     (let c = cap6 (r = 0x1a) h in if c < a then 0x80 else if c \<le> b then 0 else 0x40) else h r)"

lemma cmp6_code_values: "cmp6_code 0x80 = VTUNE_CMP_LOW" "cmp6_code 0x40 = VTUNE_CMP_HIGH" "cmp6_code 0 = VTUNE_CMP_OK"
  by (simp_all add: cmp6_code_def fget_def fmask_def PLL6_VTUNE_H_def PLL6_VTUNE_L_def mask_eq_exp_minus_1
    VTUNE_CMP_LOW_def VTUNE_CMP_OK_def VTUNE_CMP_HIGH_def)

lemma band6_chip: "chip6 (band6_rd a b) tx (\<lambda>_ _. a) (\<lambda>_ _. b)"
proof -
  have "band6_rd a b h (fst (pll6 tx (0x10 + of_nat k, []))) = h (fst (pll6 tx (0x10 + of_nat k, [])))" if "k < 4" for h k
  proof -
    have "k \<in> {0, 1, 2, 3}" using that by auto
    then show ?thesis by (cases tx) (auto simp: band6_rd_def pll6_def)
  qed
  moreover have "cmp6_code (band6_rd a b h (fst (pll6 tx (PLL6_VTUNE, [])))) = cmp6 a b (cap6 tx h)" for h
    by (cases tx) (auto simp: band6_rd_def pll6_def PLL6_VTUNE_def cmp6_def Let_def cmp6_code_values)
  ultimately show ?thesis by (simp add: chip6_def)
qed

theorem lms6002d_tune_locks_witness:
  "\<forall>h0 m0. \<exists>h' m'. lms6002d_tune_pll (lms6_chip (band6_rd 20 29)) False 900000000 (h0, m0\<lparr>l6_fref := 26000000\<rparr>) = (Inr (), (h', m')) \<and> cap6 False h' = 24"
proof (intro allI)
  fix h0 and m0 :: lms6002d_state
  show "\<exists>h' m'. lms6002d_tune_pll (lms6_chip (band6_rd 20 29)) False 900000000 (h0, m0\<lparr>l6_fref := 26000000\<rparr>) = (Inr (), (h', m')) \<and> cap6 False h' = 24"
    using lms6002d_tune_locks [OF band6_chip, of 20 29 900000000 "m0\<lparr>l6_fref := 26000000\<rparr>" False h0] by (auto simp: Let_def)
qed

text \<open>The last step of the halving leaves out capacitor 0: an oscillator that locks only there is reported as not locking.\<close>

lemma find_vcocap_misses_zero:
  "lms6002d_find_vcocap (\<lambda>i s. (Inr (cmp6 0 0 i), s)) () = (Inr (1, 0), ())"
  by (simp add: lms6002d_find_vcocap_def dbind_def dreturn_def cmp6_def numeral_eq_Suc)

text \<open>Without a lock the search gives an empty range, which is taken for success unless it ends at 0.\<close>

lemma find_vcocap_empty: "lms6002d_find_vcocap (\<lambda>i s. (Inr (cmp6 41 40 i), s)) () = (Inr (41, 40), ())"
  using cap6_finds [of "\<lambda>i s. (Inr (cmp6 41 40 i), s)" "\<lambda>_. True" 41 40 "()"] by (simp add: cap6_works_def)

lemma vco6_too_slow: "vco6_line VCO_RANGES6 200000000 = (4, 3) \<and> (200000000 * 2 ^ 4 :: nat) < fst (vco6_limits 4) * 10 ^ 6"
  by (simp add: VCO_RANGES6_def)

text \<open>Calibrations that never finish are reported as done.\<close>

lemma dc_poll_busy:
  assumes "\<And>h a. fget TOP_DC_CAL_CLBR_DONE (rd h a) \<noteq> 0" and "(reg OR TOP_DC_CAL) AND 0x7f = reg OR TOP_DC_CAL"
  shows "dc_poll (lms6_chip rd) reg addr n (h, m) = (Inl (- EFAULT), (h, m))"
  by (induction n) (simp_all add: lms6_rd_chip [OF assms(2)] assms(1))

lemma bit_dc_start: "r \<in> set (dc_start reg addr v) \<Longrightarrow> bit r 15"
  by (auto simp: dc_start_def bit_or_iff Let_def)

lemma cal_lpf_hides_failure:
  assumes "\<And>h a. fget TOP_DC_CAL_CLBR_DONE (rd h a) \<noteq> 0"
  shows "\<exists>s'. lms6002d_cal_lpf (lms6_chip rd) (h, m) = (Inr (), s')"
proof -
  have send: "(\<And>m. \<forall>r\<in>set (f m). bit r 15) \<Longrightarrow> \<exists>h'. lms6_send (lms6_chip rd) f (h, m) = (Inr (), (h', m))" for f h m
    by (simp add: lms6_send_def) (subst lms6_post_chip; simp)
  have "TOP_DC_CAL AND 0x7f = TOP_DC_CAL" by (simp add: TOP_DC_CAL_def)
  then have busy: "dc_poll (lms6_chip rd) 0 0 n (h, m) = (Inl (- EFAULT), (h, m))" for n h m
    using dc_poll_busy [of rd 0 0 n h m] assms by simp
  have post: "\<exists>h'. lms6002d_spi_post (lms6_chip rd) (dc_start 0 0 31) (h, m) = (Inr (), (h', m))" for h m
    using bit_dc_start by (subst lms6_post_chip) auto
  have c: "\<exists>h'. dtry (lms6002d_calibration_loop (lms6_chip rd) 0 0) (h, m) = (Inr (Inl (- EFAULT)), (h', m))" for h m
    using post [of h m] busy by (auto simp: lms6002d_calibration_loop_def dtry_def)
  define on off where "on = (\<lambda>m. [lms6_make AFE_MISC [0, 1, 1, 1, 1, 1], wr_enreg m])" and "off = (\<lambda>m. [lms6_make AFE_MISC [1, 1, 1, 1, 1, 1], wr_enreg m])"
  define m1 where "m1 = m\<lparr>l6_top_enreg := fset TOP_ENREG_CLK_LPF_CAL 1 (l6_top_enreg m)\<rparr>"
  define m2 where "m2 = m1\<lparr>l6_top_enreg := fset TOP_ENREG_CLK_LPF_CAL 0 (l6_top_enreg m1)\<rparr>"
  have e: "set_enreg TOP_ENREG_CLK_LPF_CAL 1 (h, m) = (Inr (), (h, m1))" "set_enreg TOP_ENREG_CLK_LPF_CAL 0 (h', m1) = (Inr (), (h', m2))" for h h'
    by (simp_all add: set_enreg_def m1_def m2_def)
  obtain h1 where h1: "lms6_send (lms6_chip rd) on (h, m1) = (Inr (), (h1, m1))" using send [of on h m1] by (auto simp: on_def)
  obtain h2 where h2: "dtry (lms6002d_calibration_loop (lms6_chip rd) 0 0) (h1, m1) = (Inr (Inl (- EFAULT)), (h2, m1))" using c by blast
  obtain h3 where h3: "lms6_send (lms6_chip rd) off (h2, m2) = (Inr (), (h3, m2))" using send [of off h2 m2] by (auto simp: off_def)
  show ?thesis
    by (simp add: lms6002d_cal_lpf_def on_def [symmetric] off_def [symmetric] e h1 h2 h3)
qed

text \<open>The offset set by \<open>lms6002d_set_rxfedc\<close> is not kept, and choosing the termination overwrites it.\<close>

lemma extterm_drops_offset:
  "lms6002d_set_rxfedc (lms6_chip rd) 5 0 (h, m\<lparr>l6_rfe_in1sel_dci := 0\<rparr>) = (Inr (), (h(0x71 := 0x85, 0x72 := 0x80), m\<lparr>l6_rfe_in1sel_dci := 0\<rparr>)) \<and>
   (\<exists>h'. lms6002d_set_rx_extterm (lms6_chip rd) False (h(0x71 := 0x85, 0x72 := 0x80), m\<lparr>l6_rfe_in1sel_dci := 0\<rparr>) =
     (Inr (), (h', m\<lparr>l6_rfe_in1sel_dci := 0\<rparr>)) \<and> h' 0x71 = 0x80)"
proof -
  have n: "(61829 :: u8) = 133" "(62080 :: u8) = 128" by simp_all
  show ?thesis
    by (simp add: lms6002d_set_rxfedc_def lms6002d_set_rx_extterm_def lms6_send_def lms6_post_chip lms6_make_def RFE_IN1SEL_DCI_def
      RFE_INLOAD_DCQ_def fmask_def mask_eq_exp_minus_1 lms6_poke_def lms6_wr_def push_bit_eq_mult drop_bit_eq_div n)
qed

section \<open>The copies of the enable registers\<close>

text \<open>What is known of the two copies: each of the flags says that the register holds its copy.\<close>

definition mirror6 :: "bool \<Rightarrow> bool \<Rightarrow> lms6_regs \<times> lms6002d_state \<Rightarrow> bool" where
  "mirror6 r c s \<longleftrightarrow> (r \<longrightarrow> fst s (fst TOP_ENREG) = l6_top_enreg (snd s)) \<and> (c \<longrightarrow> fst s (fst TOP_ENCFG) = l6_top_encfg (snd s))"

definition leads6 :: "bool \<times> bool \<Rightarrow> (lms6_regs, 'a) l6 \<Rightarrow> bool \<times> bool \<Rightarrow> bool" where
  "leads6 p op q \<longleftrightarrow> (\<forall>s x s'. mirror6 (fst p) (snd p) s \<longrightarrow> op s = (Inr x, s') \<longrightarrow> mirror6 (fst q) (snd q) s')"

text \<open>Whatever the result, the flags that hold stay.\<close>

definition still6 :: "bool \<times> bool \<Rightarrow> (lms6_regs, 'a) l6 \<Rightarrow> bool" where
  "still6 p op \<longleftrightarrow> (\<forall>s x s'. mirror6 (fst p) (snd p) s \<longrightarrow> op s = (x, s') \<longrightarrow> mirror6 (fst p) (snd p) s')"

named_theorems mirror_rules

lemma leadsD: "leads6 p op q \<Longrightarrow> mirror6 (fst p) (snd p) s \<Longrightarrow> op s = (Inr x, s') \<Longrightarrow> mirror6 (fst q) (snd q) s'"
  unfolding leads6_def by blast

lemma still_leads: "still6 p op \<Longrightarrow> leads6 p op p"
  unfolding still6_def leads6_def by blast

lemma leads_bind:
  assumes m: "leads6 p m q" and k: "\<And>a. leads6 q (k a) r"
  shows "leads6 p (dbind m k) r"
  unfolding leads6_def
proof (intro allI impI)
  fix s x s' assume s: "mirror6 (fst p) (snd p) s" "dbind m k s = (Inr x, s')"
  then obtain a t where t: "m s = (Inr a, t)" "k a t = (Inr x, s')" by (auto simp: dbind_def split: prod.splits sum.splits)
  then have "mirror6 (fst q) (snd q) t" using m s(1) unfolding leads6_def by blast
  then show "mirror6 (fst r) (snd r) s'" using k [of a] t(2) unfolding leads6_def by blast
qed

lemma leads_seq: "leads6 p m q \<Longrightarrow> leads6 q k r \<Longrightarrow> leads6 p (dseq m k) r"
  unfolding dseq_def by (rule leads_bind)

lemma still_bind [mirror_rules]:
  assumes m: "still6 p m" and k: "\<And>a. still6 p (k a)"
  shows "still6 p (dbind m k)"
  unfolding still6_def
proof (intro allI impI)
  fix s x s' assume s: "mirror6 (fst p) (snd p) s" "dbind m k s = (x, s')"
  obtain y t where t: "m s = (y, t)" by (cases "m s")
  then have "mirror6 (fst p) (snd p) t" using m s(1) unfolding still6_def by blast
  moreover have "y = Inl e \<Longrightarrow> s' = t" "y = Inr a \<Longrightarrow> k a t = (x, s')" for e a using s(2) t by (auto simp: dbind_def)
  ultimately show "mirror6 (fst p) (snd p) s'" using k unfolding still6_def by (cases y) blast+
qed

lemma still_seq [mirror_rules]: "still6 p m \<Longrightarrow> still6 p k \<Longrightarrow> still6 p (dseq m k)"
  unfolding dseq_def by (rule still_bind)

lemma still_basic [mirror_rules]: "still6 p (dreturn a)" "still6 p (dfail e)" "still6 p (dget f)"
  by (auto simp: still6_def dreturn_def dfail_def dget_def)

lemma still_if [mirror_rules]: "still6 p m \<Longrightarrow> still6 p k \<Longrightarrow> still6 p (if b then m else k)"
  by simp

lemma still_mod [mirror_rules]: "(\<And>m. l6_top_enreg (f m) = l6_top_enreg m \<and> l6_top_encfg (f m) = l6_top_encfg m) \<Longrightarrow> still6 p (dmod f)"
  by (auto simp: still6_def dmod_def mirror6_def)

lemma still_try [mirror_rules]: "still6 p m \<Longrightarrow> still6 p (dtry m)"
  unfolding still6_def dtry_def by (auto split: prod.splits)

lemma still_code [mirror_rules]: "still6 p m \<Longrightarrow> still6 p (dcode m)"
  unfolding still6_def dcode_def by (auto split: prod.splits sum.splits)

lemma still_list [mirror_rules]: "(\<And>m. m \<in> set ms \<Longrightarrow> still6 p m) \<Longrightarrow> still6 p (dlist ms)"
  by (induction ms) (auto intro!: mirror_rules)

lemma still_ignore [mirror_rules]: "still6 p m \<Longrightarrow> still6 p (dignore m)"
  unfolding dignore_def by (intro mirror_rules)

lemma post_still [mirror_rules]:
  assumes "\<forall>r\<in>set rs. bit r 15 \<and> ucast (drop_bit 8 r) AND (0x7f :: u8) \<notin> {fst TOP_ENREG, fst TOP_ENCFG}"
  shows "still6 p (lms6002d_spi_post (lms6_chip rd) rs)"
proof -
  have "\<forall>r\<in>set rs. ucast (drop_bit 8 r) AND (0x7f :: u8) \<notin> {fst TOP_ENREG, fst TOP_ENCFG} \<Longrightarrow>
      foldl lms6_poke h rs (fst TOP_ENREG) = h (fst TOP_ENREG) \<and> foldl lms6_poke h rs (fst TOP_ENCFG) = h (fst TOP_ENCFG)" for h
    by (induction rs arbitrary: h) (auto simp: lms6_poke_def)
  then show ?thesis using assms by (auto simp: still6_def mirror6_def lms6_post_chip)
qed

lemma rd_still [mirror_rules]: "a AND 0x7f = a \<Longrightarrow> still6 p (lms6002d_spi_rd (lms6_chip rd) a)"
  by (auto simp: still6_def lms6_rd_chip)

text \<open>Sending the copies makes the flags true; changing a copy gives its flag up.\<close>

lemma leads_set:
  "leads6 (r, c) (set_enreg f v) (False, c)" "leads6 (r, c) (set_encfg f v) (r, False)"
  by (auto simp: leads6_def set_enreg_def set_encfg_def dmod_def mirror6_def)

lemma leads_fail: "leads6 p (dfail e) q"
  by (auto simp: leads6_def dfail_def)

lemma leads_if: "leads6 p m q \<Longrightarrow> leads6 p k q \<Longrightarrow> leads6 p (if b then m else k) q"
  by simp

lemma leads_sum: "(\<And>a b. leads6 p (F a b) q) \<Longrightarrow> leads6 p (case x of Inl e \<Rightarrow> dfail e | Inr (a, b) \<Rightarrow> F a b) q"
  by (cases x) (auto simp: leads_fail split: prod.split)

lemma leads_weaken: "leads6 p op q \<Longrightarrow> (fst q' \<longrightarrow> fst q) \<and> (snd q' \<longrightarrow> snd q) \<Longrightarrow> leads6 p op q'"
  unfolding leads6_def mirror6_def by blast

lemma foldl_poke_none: "\<forall>r\<in>set rs. ucast (drop_bit 8 r) AND (0x7f :: u8) \<noteq> a \<Longrightarrow> foldl lms6_poke h rs a = h a"
  by (induction rs arbitrary: h) (auto simp: lms6_poke_def)

lemma send_mirrors:
  assumes "\<And>m. f m = g m @ wr_enreg m # k m" and "\<And>m. \<forall>r\<in>set (g m @ k m). bit r 15 \<and> ucast (drop_bit 8 r) AND (0x7f :: u8) \<notin> {fst TOP_ENREG, fst TOP_ENCFG}"
  shows "leads6 (r, c) (lms6_send (lms6_chip rd) f) (True, c)"
proof -
  have "lms6_send (lms6_chip rd) f (h, m) = (Inr (), (foldl lms6_poke h (f m), m))" for h m
    unfolding lms6_send_def using assms by (simp, subst lms6_post_chip) auto
  moreover have ne: "foldl lms6_poke h (g m) a = h a" "foldl lms6_poke h (k m) a = h a" if "a = fst TOP_ENREG \<or> a = fst TOP_ENCFG" for h m a
    using assms(2) [of m] that by (intro foldl_poke_none; auto)+
  moreover have "foldl lms6_poke h (f m) (fst TOP_ENREG) = l6_top_enreg m" "foldl lms6_poke h (f m) (fst TOP_ENCFG) = h (fst TOP_ENCFG)" for h m
    unfolding assms(1) using ne by (simp_all add: wr_enreg_def TOP_ENREG_def TOP_ENCFG_def)
  ultimately show ?thesis by (auto simp: leads6_def mirror6_def)
qed

lemma send_mirrors_both:
  "leads6 p (lms6_send (lms6_chip rd) (\<lambda>m. [wr_enreg m, wr_encfg m])) (True, True)"
  by (auto simp: leads6_def lms6_send_def lms6_post_chip mirror6_def wr_enreg_def wr_encfg_def TOP_ENREG_def TOP_ENCFG_def)

lemma make_addr: "fst r AND 0x7f = fst r \<Longrightarrow> ucast (drop_bit 8 (lms6_make r vs)) AND 0x7f = fst r"
  "a AND 0x7f = a \<Longrightarrow> ucast (drop_bit 8 (lms6_wr a v)) AND 0x7f = a"
proof -
  have m: "(0x7f :: u8) = mask 7" by (simp add: mask_eq_exp_minus_1)
  show w: "ucast (drop_bit 8 (lms6_wr a v)) AND 0x7f = a" if "a AND 0x7f = a" for a v
    by (rule bit_word_eqI) (use u7_bit [OF that] in \<open>auto simp: m bit_and_iff bit_ucast_iff bit_drop_bit_eq bit_lms6_wr bit_mask_iff\<close>)
  then show "ucast (drop_bit 8 (lms6_make r vs)) AND 0x7f = fst r" if "fst r AND 0x7f = fst r"
    by (simp add: lms6_make_def that)
qed

lemma dc_start_addr:
  assumes "reg \<in> {0, 0x30, 0x50, 0x60}" "r \<in> set (dc_start reg addr v)"
  shows "bit r 15 \<and> ucast (drop_bit 8 r) AND (0x7f :: u8) \<notin> {fst TOP_ENREG, fst TOP_ENCFG}"
proof -
  have w: "push_bit 8 (ucast reg) OR lms6_wr a u = lms6_wr (reg OR a) u" for a u
    by (simp add: lms6_wr_def unsigned_or_eq push_bit_or ac_simps)
  have "(reg OR 0) AND 0x7f = reg OR 0" "(reg OR 3) AND 0x7f = reg OR 3" "reg OR 0 \<notin> {9, 5}" "reg OR 3 \<notin> {9, 5}" using assms(1) by auto
  then show ?thesis using assms(2)
    by (auto simp: dc_start_def Let_def lms6_make_def TOP_DC_REG_def TOP_DC_OP_def w make_addr TOP_ENREG_def TOP_ENCFG_def)
qed

lemma calibration_still:
  assumes "reg \<in> {0, 0x30, 0x50, 0x60}"
  shows "still6 p (lms6002d_calibration_loop (lms6_chip rd) reg addr)"
proof -
  have post: "still6 p (lms6002d_spi_post (lms6_chip rd) (dc_start reg addr v))" for v
    using dc_start_addr [OF assms] by (intro post_still) blast
  have a: "(reg OR TOP_DC_CAL) AND 0x7f = reg OR TOP_DC_CAL" "(reg OR fst TOP_DC_REG) AND 0x7f = reg OR fst TOP_DC_REG"
    using assms by (auto simp: TOP_DC_CAL_def TOP_DC_REG_def)
  have "still6 p (dc_poll (lms6_chip rd) reg addr n)" for n
  proof (induction n)
    case 0 show ?case unfolding dc_poll.simps by (rule still_basic)
  next
    case (Suc n) show ?case unfolding dc_poll.simps Let_def by (intro mirror_rules post a Suc)
  qed
  then show ?thesis unfolding lms6002d_calibration_loop_def by (intro mirror_rules post)
qed

datatype lms6_call = M_tune_pll bool u32 | M_set_bandwidth bool u32 | M_set_rxlna_gain u32 | M_set_rxvga1_gain u32 | M_set_txvga1_gain u32
  | M_set_txvga2_gain u32 | M_set_rxvga2_gain u32 | M_set_rxvga2ab_gain u32 u32 | M_set_rx_extterm bool | M_set_rx_path u32 | M_set_tx_path u32
  | M_trf_enable bool | M_rfe_enable bool | M_rxvga2_enable bool | M_set_rxfedc u8 u8 | M_set_tia_cfb u8 | M_set_tia_rfb u8
  | M_cal_lpf | M_cal_txrxlpfdc bool | M_cal_vga2 | M_cal_lpf_bandwidth u32

fun lms6_run :: "'h bus \<Rightarrow> lms6_call \<Rightarrow> ('h, unit) l6" where
  "lms6_run bus (M_tune_pll tx f) = lms6002d_tune_pll bus tx f"
| "lms6_run bus (M_set_bandwidth tx f) = lms6002d_set_bandwidth bus tx f"
| "lms6_run bus (M_set_rxlna_gain g) = lms6002d_set_rxlna_gain bus g"
| "lms6_run bus (M_set_rxvga1_gain g) = lms6002d_set_rxvga1_gain bus g"
| "lms6_run bus (M_set_txvga1_gain g) = lms6002d_set_txvga1_gain bus g"
| "lms6_run bus (M_set_txvga2_gain g) = lms6002d_set_txvga2_gain bus g"
| "lms6_run bus (M_set_rxvga2_gain g) = lms6002d_set_rxvga2_gain bus g"
| "lms6_run bus (M_set_rxvga2ab_gain g k) = lms6002d_set_rxvga2ab_gain bus g k"
| "lms6_run bus (M_set_rx_extterm e) = lms6002d_set_rx_extterm bus e"
| "lms6_run bus (M_set_rx_path p) = lms6002d_set_rx_path bus p"
| "lms6_run bus (M_set_tx_path p) = lms6002d_set_tx_path bus p"
| "lms6_run bus (M_trf_enable e) = lms6002d_trf_enable bus e"
| "lms6_run bus (M_rfe_enable e) = lms6002d_rfe_enable bus e"
| "lms6_run bus (M_rxvga2_enable e) = lms6002d_rxvga2_enable bus e"
| "lms6_run bus (M_set_rxfedc i q) = lms6002d_set_rxfedc bus i q"
| "lms6_run bus (M_set_tia_cfb v) = lms6002d_set_tia_cfb bus v"
| "lms6_run bus (M_set_tia_rfb v) = lms6002d_set_tia_rfb bus v"
| "lms6_run bus M_cal_lpf = lms6002d_cal_lpf bus"
| "lms6_run bus (M_cal_txrxlpfdc tx) = lms6002d_cal_txrxlpfdc bus tx"
| "lms6_run bus M_cal_vga2 = lms6002d_cal_vga2 bus"
| "lms6_run bus (M_cal_lpf_bandwidth b) = lms6002d_cal_lpf_bandwidth bus b"

lemma send_still:
  assumes "\<And>m. \<forall>r\<in>set (f m). bit r 15 \<and> ucast (drop_bit 8 r) AND (0x7f :: u8) \<notin> {fst TOP_ENREG, fst TOP_ENCFG}"
  shows "still6 p (lms6_send (lms6_chip rd) f)"
proof -
  have "lms6_send (lms6_chip rd) f (h, m) = lms6002d_spi_post (lms6_chip rd) (f m) (h, m)" for h m by (simp add: lms6_send_def)
  then show ?thesis using post_still [OF assms, of p rd] by (auto simp: still6_def)
qed

lemmas reg6_addrs = TOP_DC_CAL_def TOP_LPF_CTRL_def TOP_LPF_CAL_def TOP_ENREG_def TOP_ENCFG_def TXLPF_DACBP_def RXLPF_DACBP_def TRF_VGA1GAIN_def
  TRF_PA_CTRL_def TRF_CTRL2_def AFE_MISC_def RXVGA2_CTRL_def RXVGA2_GAIN_COMB_def RXVGA2_GAIN_def RXVGA2_PD_CALIB_def RFE_IN1SEL_DCI_def
  RFE_INLOAD_DCQ_def RFE_GAIN_LNA_SEL_def RFE_RFB_TIA_def RFE_CFB_TIA_def

lemma tune_mirrors: "leads6 (r, c) (lms6002d_tune_pll (lms6_chip rd) tx freq) (True, c)"
proof -
  have rd4: "still6 q (ratio_read (lms6_chip rd) tx [0, 1, 2, 3])" for q
    by (cases tx) (auto simp: rd_or_0_def pll6_def intro!: mirror_rules)
  have cap_try: "still6 q (cap6_try (lms6_chip rd) tx i)" for q i
    unfolding cap6_try_def lms6002d_get_comp_def
    by (cases tx) (intro mirror_rules; simp add: pll6_def PLL6_CFG2_def PLL6_VTUNE_def reg6_addrs lms6_make_def make_addr)+
  have bis: "still6 q (cap6_bisect (cap6_try (lms6_chip rd) tx) js i)" for q js i
  proof (induction js arbitrary: i)
    case Nil show ?case unfolding cap6_bisect.simps by (rule still_basic)
  next
    case (Cons j js) show ?case unfolding cap6_bisect.simps by (intro mirror_rules cap_try Cons)
  qed
  have scan: "still6 q (cap6_scan (cap6_try (lms6_chip rd) tx) n i lo hi)" for q n i lo hi
  proof (induction n arbitrary: i lo hi)
    case 0 show ?case unfolding cap6_scan.simps by (rule still_basic)
  next
    case (Suc n) show ?case unfolding cap6_scan.simps by (intro mirror_rules cap_try Suc)
  qed
  have find: "still6 q (lms6002d_find_vcocap (cap6_try (lms6_chip rd) tx))" for q
    unfolding lms6002d_find_vcocap_def by (intro mirror_rules bis scan)
  have set: "leads6 (r, c) (lms6_send (lms6_chip rd) (pll6_regs tx n d ratio)) (True, c)" for r n d ratio
    by (rule send_mirrors [where g = "\<lambda>_. []" and k = "\<lambda>m. tl (pll6_regs tx n d ratio m)"], simp add: pll6_regs_def)
      (cases tx; simp add: pll6_regs_def vco_div6_def pll6_by_def lms6_make_def make_addr pll6_regs_defs reg6_addrs)
  have fin: "still6 q (lms6_send (lms6_chip rd) (\<lambda>m. [lms6_make (pll6 tx PLL6_CFG2) [0, x], vco_div6 tx n d m, lms6_wr (fst (pll6 tx (PLL6_VCOCOMO, []))) 0x7e]))" for q x n d
    by (rule send_still) (cases tx; simp add: vco_div6_def lms6_make_def make_addr pll6_regs_defs reg6_addrs)
  have "leads6 (r, c) (dseq (set_enreg f 1) (dseq (lms6_send (lms6_chip rd) (pll6_regs tx n d ratio)) (dbind (ratio_read (lms6_chip rd) tx [0, 1, 2, 3]) (\<lambda>w.
      if w \<noteq> ws then dfail (- EIO) else dbind (lms6002d_find_vcocap (cap6_try (lms6_chip rd) tx)) (\<lambda>(lo, hi).
        dseq (lms6_send (lms6_chip rd) (\<lambda>m. [lms6_make (pll6 tx PLL6_CFG2) [0, of_int ((lo + hi) div 2)], vco_div6 tx n d m, lms6_wr (fst (pll6 tx (PLL6_VCOCOMO, []))) 0x7e]))
        (dseq (dmod (\<lambda>m. if tx then m else m\<lparr>l6_rxpll_vco_div_bufsel := ucast (vco_div6 tx n d m)\<rparr>))
          (if lo > hi \<and> hi = 0 then dfail (- ENOLCK) else dreturn ()))))))) (True, c)" for f n d ratio ws
    by (intro leads_seq [OF leads_set(1)] leads_seq [OF set] leads_bind [OF still_leads [OF rd4]] leads_if leads_fail leads_bind [OF still_leads [OF find]])
      (auto split: prod.split intro!: still_leads fin mirror_rules)
  note run = this
  obtain n d where nd: "vco6_line VCO_RANGES6 freq = (n, d)" by (cases "vco6_line VCO_RANGES6 freq")
  show ?thesis
    unfolding lms6002d_tune_pll_def Let_def nd prod.case
    by (intro leads_if leads_fail leads_bind [OF still_leads [OF still_basic(3)]] leads_sum run)
qed

lemma mod_regs_still: "(\<And>m. l6_top_enreg (f m) = l6_top_enreg m \<and> l6_top_encfg (f m) = l6_top_encfg m) \<Longrightarrow>
   (\<And>m. \<forall>r\<in>set (g m). bit r 15 \<and> ucast (drop_bit 8 r) AND (0x7f :: u8) \<notin> {fst TOP_ENREG, fst TOP_ENCFG}) \<Longrightarrow>
   still6 p (dseq (dmod f) (lms6_send (lms6_chip rd) g))"
  by (intro still_seq still_mod send_still)

definition fails6 :: "(lms6_regs, 'a) l6 \<Rightarrow> bool" where
  "fails6 op \<longleftrightarrow> (\<forall>s x s'. op s \<noteq> (Inr x, s'))"

lemma fails_fail: "fails6 (dfail e)" and fails_seq: "fails6 k \<Longrightarrow> fails6 (dseq m k)"
  by (auto simp: fails6_def dfail_def dseq_def dbind_def split: prod.splits sum.splits)

text \<open>A call whose result decides how the caller goes on.\<close>

lemma leads_try:
  assumes m: "leads6 p m q" and k: "\<And>v. leads6 q (k (Inr v)) r" and e: "\<And>e. fails6 (k (Inl e))"
  shows "leads6 p (dbind (dtry m) k) r"
  unfolding leads6_def
proof (intro allI impI)
  fix s x s' assume s: "mirror6 (fst p) (snd p) s" and run: "dbind (dtry m) k s = (Inr x, s')"
  obtain y t where y: "m s = (y, t)" by (cases "m s")
  then have kt: "k y t = (Inr x, s')" using run by (simp add: dtry_def dbind_def)
  then obtain v where v: "y = Inr v" using e unfolding fails6_def by (cases y) auto
  then have "mirror6 (fst q) (snd q) t" using m s y unfolding leads6_def by blast
  then show "mirror6 (fst r) (snd r) s'" using k [of v] kt v unfolding leads6_def by blast
qed

lemma enable_mirrors: "leads6 p (lms6002d_trf_enable (lms6_chip rd) e) (True, True)" "leads6 p (lms6002d_rfe_enable (lms6_chip rd) e) (True, True)"
  unfolding lms6002d_trf_enable_def lms6002d_rfe_enable_def
  by (cases p; auto intro!: leads_seq [OF leads_set(1)] leads_seq [OF leads_set(2)] send_mirrors_both)+

lemma cal_lpf_mirrors: "leads6 (r, c) (lms6002d_cal_lpf (lms6_chip rd)) (True, c)"
proof -
  have s: "leads6 (r', c) (lms6_send (lms6_chip rd) (\<lambda>m. [lms6_make AFE_MISC vs, wr_enreg m])) (True, c)" for r' vs
    by (rule send_mirrors [where g = "\<lambda>_. [lms6_make AFE_MISC vs]" and k = "\<lambda>_. []"]) (simp_all add: make_addr reg6_addrs lms6_make_def)
  have d: "still6 q (case x of Inl e \<Rightarrow> dreturn () | Inr ureg \<Rightarrow> lms6002d_spi_post (lms6_chip rd) [lms6_make RXLPF_DACBP [0, ucast ureg], lms6_make TXLPF_DACBP [0, ucast ureg]])"
    for q :: "bool \<times> bool" and x :: "int + u8"
    by (cases x) (auto intro!: mirror_rules simp: make_addr reg6_addrs lms6_make_def simp del: dev_simps)
  show ?thesis unfolding lms6002d_cal_lpf_def
    by (intro leads_seq [OF leads_set(1)] leads_seq [OF s] leads_bind [OF still_leads [OF still_try [OF calibration_still]]] leads_seq [OF still_leads [OF d]] s) simp
qed

lemma cal_txrxlpfdc_mirrors: "leads6 (r, c) (lms6002d_cal_txrxlpfdc (lms6_chip rd) tx) (True, c)"
proof -
  have s: "leads6 (r', c) (lms6_send (lms6_chip rd) (\<lambda>m. [wr_enreg m])) (True, c)" for r'
    by (rule send_mirrors [where g = "\<lambda>_. []" and k = "\<lambda>_. []"]) simp_all
  have d: "still6 q (dignore (dseq (lms6002d_calibration_loop (lms6_chip rd) (if tx then 0x30 else 0x50) 0) (lms6002d_calibration_loop (lms6_chip rd) (if tx then 0x30 else 0x50) 1)))" for q
    by (intro mirror_rules calibration_still) auto
  show ?thesis unfolding lms6002d_cal_txrxlpfdc_def Let_def
    by (intro leads_seq [OF leads_set(1)] leads_seq [OF s] leads_seq [OF still_leads [OF d]] s)
qed

lemma cal_vga2_mirrors: "leads6 (r, c) (lms6002d_cal_vga2 (lms6_chip rd)) (True, c)"
proof -
  define f where "f = (\<lambda>x (m :: lms6002d_state). [lms6_make RXVGA2_PD_CALIB x, wr_enreg m, lms6_make RXVGA2_GAIN [0, 10]])"
  have s: "leads6 (r', c) (lms6_send (lms6_chip rd) (f x)) (True, c)" for r' x
    by (rule send_mirrors [where g = "\<lambda>_. [lms6_make RXVGA2_PD_CALIB x]" and k = "\<lambda>_. [lms6_make RXVGA2_GAIN [0, 10]]"])
      (simp_all add: make_addr reg6_addrs lms6_make_def f_def)
  have "lms6_send (lms6_chip rd) (f x) (h, m) = (Inr (), (foldl lms6_poke h (f x m), m))" for x h m
    unfolding lms6_send_def by (simp, subst lms6_post_chip) (simp_all add: f_def)
  then have ok: "lms6_send (lms6_chip rd) (f x) st = (z, st') \<Longrightarrow> \<exists>u. z = Inr u" for x st z st' by (cases st) auto
  have s0: "still6 (False, c) (lms6_send (lms6_chip rd) (f x))" for x
    unfolding still6_def
  proof (intro allI impI)
    fix st z st' assume m: "mirror6 (fst (False, c)) (snd (False, c)) st" and run: "lms6_send (lms6_chip rd) (f x) st = (z, st')"
    then obtain u where "z = Inr u" using ok by blast
    then have "mirror6 True c st'" using leadsD [OF s [of False x] m] run by simp
    then show "mirror6 (fst (False, c)) (snd (False, c)) st'" by (simp add: mirror6_def)
  qed
  have cal: "still6 q (lms6002d_calibration_loop (lms6_chip rd) 0x60 a)" for q a by (rule calibration_still) simp
  have g: "still6 q (lms6002d_spi_post (lms6_chip rd) [lms6_make RXVGA2_GAIN [10, 0]])" for q
    by (rule post_still) (simp add: make_addr reg6_addrs lms6_make_def)
  have d: "still6 (False, c) (dignore (dseq (lms6_send (lms6_chip rd) (f [0, 0])) (dlist [dbind (lms6002d_calibration_loop (lms6_chip rd) 0x60 0) (\<lambda>_. dreturn ()),
      dbind (lms6002d_calibration_loop (lms6_chip rd) 0x60 1) (\<lambda>_. dreturn ()), dbind (lms6002d_calibration_loop (lms6_chip rd) 0x60 2) (\<lambda>_. dreturn ()),
      lms6002d_spi_post (lms6_chip rd) [lms6_make RXVGA2_GAIN [10, 0]], dbind (lms6002d_calibration_loop (lms6_chip rd) 0x60 3) (\<lambda>_. dreturn ()),
      dbind (lms6002d_calibration_loop (lms6_chip rd) 0x60 4) (\<lambda>_. dreturn ())])))"
    unfolding dlist.simps by (intro still_ignore still_seq s0 mirror_rules cal g)
  have f: "(\<lambda>m. [lms6_make RXVGA2_PD_CALIB x, wr_enreg m, lms6_make RXVGA2_GAIN [0, 10]]) = f x" for x by (simp add: f_def)
  show ?thesis unfolding lms6002d_cal_vga2_def Let_def f
    by (intro leads_seq [OF leads_set(1)] leads_seq [OF still_leads [OF d]] s)
qed

lemma cal_lpf_bandwidth_mirrors: "leads6 (True, True) (lms6002d_cal_lpf_bandwidth (lms6_chip rd) b) (True, True)"
proof -
  define body where "body = dseq (lms6002d_trf_enable (lms6_chip rd) True) (dseq (lms6002d_tune_pll (lms6_chip rd) True 320000000)
          (dseq (lms6002d_spi_post (lms6_chip rd) [lms6_make TOP_LPF_CTRL [0, 0, 0, 0], lms6_make TOP_LPF_CAL [0, 0, b], lms6_make TOP_LPF_CAL [1, 0, b],
             lms6_make TOP_LPF_CTRL [0, 0, 0, 1], lms6_make TOP_LPF_CTRL [0, 0, 0, 0]])
           (lms6002d_spi_rd (lms6_chip rd) TOP_DC_CAL)))"
  have p: "still6 q (lms6002d_spi_post (lms6_chip rd) [lms6_make TOP_LPF_CTRL [0, 0, 0, 0], lms6_make TOP_LPF_CAL [0, 0, b], lms6_make TOP_LPF_CAL [1, 0, b],
             lms6_make TOP_LPF_CTRL [0, 0, 0, 1], lms6_make TOP_LPF_CTRL [0, 0, 0, 0]])" for q
    by (rule post_still) (simp add: make_addr reg6_addrs lms6_make_def)
  have r: "still6 q (lms6002d_spi_rd (lms6_chip rd) TOP_DC_CAL)" for q by (rule rd_still) (simp add: TOP_DC_CAL_def)
  have body: "leads6 (True, True) body (True, True)"
    unfolding body_def by (intro leads_seq [OF enable_mirrors(1)] leads_seq [OF tune_mirrors] leads_seq [OF still_leads [OF p]] still_leads [OF r])
  have fin: "leads6 (True, False) (lms6_send (lms6_chip rd) (\<lambda>m. [lms6_make TOP_LPF_CTRL [0, 1, 0, 0], lms6_make TOP_LPF_CAL [0, 0, b], wr_encfg m])) (True, True)"
    by (auto simp: leads6_def lms6_send_def lms6_post_chip mirror6_def wr_encfg_def lms6_make_def reg6_addrs)
  have rest: "leads6 (True, True) (dseq (dmod (\<lambda>m. m\<lparr>l6_rclpfcal := g m\<rparr>)) (dseq (if e then dreturn () else set_encfg TOP_ENCFG_STXEN 0)
     (lms6_send (lms6_chip rd) (\<lambda>m. [lms6_make TOP_LPF_CTRL [0, 1, 0, 0], lms6_make TOP_LPF_CAL [0, 0, b], wr_encfg m])))) (True, True)" for g e
  proof (rule leads_seq [OF still_leads [OF still_mod]])
    have "leads6 (True, True) (if e then dreturn () else set_encfg TOP_ENCFG_STXEN 0) (True, False)"
      by (intro leads_if leads_set leads_weaken [OF still_leads [OF still_basic(1), of "(True, True)"]]) simp
    then show "leads6 (True, True) (dseq (if e then dreturn () else set_encfg TOP_ENCFG_STXEN 0)
       (lms6_send (lms6_chip rd) (\<lambda>m. [lms6_make TOP_LPF_CTRL [0, 1, 0, 0], lms6_make TOP_LPF_CAL [0, 0, b], wr_encfg m]))) (True, True)"
      by (rule leads_seq [OF _ fin])
  qed simp
  show ?thesis unfolding lms6002d_cal_lpf_bandwidth_def body_def [symmetric] Let_def
    by (intro leads_if leads_fail leads_bind [OF still_leads [OF still_basic(3)]] leads_try [OF body]) (simp_all only: sum.case rest fails_seq fails_fail)
qed

lemma lpf6_addrs: "r \<in> set (lpf6_regs tx f) \<Longrightarrow> bit r 15 \<and> ucast (drop_bit 8 r) AND (0x7f :: u8) \<notin> {fst TOP_ENREG, fst TOP_ENCFG}"
proof -
  have w: "\<forall>p\<in>insert (0, 0) (set (map snd LPF6_LUT)). \<forall>b\<in>{0, 1}. \<forall>r\<in>set (lpf6_words tx (fst p) (snd p) b).
      bit r 15 \<and> ucast (drop_bit 8 r) AND (0x7f :: u8) \<notin> {fst TOP_ENREG, fst TOP_ENCFG}"
    by (cases tx) (simp_all add: LPF6_LUT_def lpf6_words_def TOP_ENREG_def TOP_ENCFG_def drop_bit_eq_div push_bit_eq_mult)
  have "lpf6_line f = Some p \<Longrightarrow> p \<in> set (map snd LPF6_LUT)" for p
    by (auto simp: lpf6_line_def find_Some_iff) (metis nth_mem image_eqI snd_conv)
  then show "r \<in> set (lpf6_regs tx f) \<Longrightarrow> ?thesis" using w by (cases "lpf6_line f") (auto simp: lpf6_regs_def)
qed

lemma call_mirrors: "leads6 (True, True) (lms6_run (lms6_chip rd) call) (True, True)"
proof (cases call)
  case (M_set_bandwidth tx f)
  then show ?thesis unfolding M_set_bandwidth lms6_run.simps lms6002d_set_bandwidth_def using lpf6_addrs by (intro still_leads post_still) blast
next
  case (M_set_rx_extterm e)
  have "0x8000 OR 0x7100 OR ucast v OR (if e then 0 else 0x80) = lms6_wr 0x71 (v OR (if e then 0 else 0x80))" for v
  proof -
    have "push_bit 8 (ucast (0x71 :: u8)) = (0x7100 :: u16)" by (simp add: push_bit_eq_mult)
    moreover have "ucast (v OR 0x80) = (ucast v OR 0x80 :: u16)" by (simp add: unsigned_or_eq)
    ultimately show ?thesis by (cases e) (simp_all add: lms6_wr_def or.assoc)
  qed
  moreover have "0x8000 OR 0x7c00 OR (if e then 4 else 0) = lms6_wr 0x7c (if e then 4 else 0)"
    by (cases e) (simp_all add: lms6_wr_def push_bit_eq_mult)
  ultimately show ?thesis unfolding M_set_rx_extterm lms6_run.simps lms6002d_set_rx_extterm_def
    by (intro still_leads send_still) (simp add: make_addr TOP_ENREG_def TOP_ENCFG_def)
next
  case (M_set_rx_path path)
  show ?thesis unfolding M_set_rx_path lms6_run.simps lms6002d_set_rx_path_def
    by (intro still_leads still_seq still_mod send_still) (simp_all add: make_addr reg6_addrs pll6_regs_defs)
qed (auto intro!: still_leads post_still mod_regs_still send_still leads_weaken [OF enable_mirrors(1)] leads_weaken [OF enable_mirrors(2)] tune_mirrors
    cal_lpf_mirrors cal_txrxlpfdc_mirrors cal_vga2_mirrors cal_lpf_bandwidth_mirrors
  simp: lms6002d_set_rxlna_gain_def lms6002d_set_rxvga1_gain_def lms6002d_set_txvga1_gain_def lms6002d_set_txvga2_gain_def lms6002d_set_rxvga2_gain_def
    lms6002d_set_rxvga2ab_gain_def lms6002d_set_tx_path_def lms6002d_rxvga2_enable_def lms6002d_set_rxfedc_def
    lms6002d_set_tia_cfb_def lms6002d_set_tia_rfb_def make_addr reg6_addrs lms6_make_def)

lemma runs_mirror: "leads6 (True, True) (dlist (map (lms6_run (lms6_chip rd)) cs)) (True, True)"
proof (induction cs)
  case Nil show ?case unfolding list.map dlist.simps by (rule still_leads [OF still_basic(1)])
next
  case (Cons c cs) show ?case unfolding list.map dlist.simps by (rule leads_seq [OF call_mirrors Cons])
qed

lemma create_mirrors: "leads6 (False, False) (lms6002d_create (lms6_chip rd) a) (True, True)"
proof -
  define f where "f = (\<lambda>m. [lms6_make TOP_ENCFG [0, 0, 0, 0, 0, 1], wr_encfg m, wr_enreg m, lms6_make TOP_POWER [0, 1, 0, 1, 0],
         lms6_wr (fst PLL6_VCO_REG_PFD_U) 0xe0, lms6_wr (fst (pll6 False PLL6_VCO_REG_PFD_U)) 0xe3, lms6_wr RFE_CTRL 0x01,
         lms6_wr TRF_CTRL4 0x40, lms6_wr AFE_RX_CTRL2 0x29, lms6_wr (fst RXVGA2_CTRL) 0x36, lms6_wr RFE_RDLINT_LNA 0x37,
         lms6_wr AFE_MISC_CTRL 0xb0])"
  have s: "leads6 (False, False) (lms6_send (lms6_chip rd) f) (True, True)"
    unfolding lms6_send_def leads6_def f_def
    by (auto simp: lms6_post_chip mirror6_def wr_encfg_def wr_enreg_def lms6_make_def reg6_addrs pll6_regs_defs TOP_POWER_def RFE_CTRL_def TRF_CTRL4_def
      AFE_RX_CTRL2_def RFE_RDLINT_LNA_def AFE_MISC_CTRL_def)
  have r: "still6 q (lms6002d_spi_rd (lms6_chip rd) TOP_CHIPID)" for q by (rule rd_still) (simp add: TOP_CHIPID_def)
  have m: "leads6 (False, False) (dmod g :: (lms6_regs, unit) l6) (False, False)" for g by (auto simp: leads6_def mirror6_def)
  show ?thesis unfolding lms6002d_create_def f_def [symmetric]
    by (intro leads_seq [OF m] leads_bind [OF still_leads [OF r]] leads_seq [OF s] leads_if leads_fail still_leads [OF still_basic(1)])
qed

text \<open>C24: the driver keeps copies of the two registers that enable the blocks of the chip and their clocks, and each call
  changes a copy and sends it. After the driver is created and any calls were made without error, the registers hold the copies.\<close>

theorem lms6_enables_mirrored:
  assumes "lms6002d_create (lms6_chip rd) a (h0, m0) = (Inr (), s)" and "dlist (map (lms6_run (lms6_chip rd)) cs) s = (Inr (), (h, m))"
  shows "h 0x05 = l6_top_encfg m \<and> h 0x09 = l6_top_enreg m"
  using leadsD [OF runs_mirror leadsD [OF create_mirrors _ assms(1)] assms(2)] by (simp add: mirror6_def TOP_ENREG_def TOP_ENCFG_def)

theorem lms6_enables_mirrored_witness:
  "\<forall>h0 m0. \<exists>s h m. lms6002d_create (lms6_chip (\<lambda>h r. 0)) 0 (h0, m0) = (Inr (), s) \<and>
    dlist (map (lms6_run (lms6_chip (\<lambda>h r. 0))) [M_trf_enable True]) s = (Inr (), (h, m)) \<and> h 0x05 = l6_top_encfg m \<and> h 0x09 = l6_top_enreg m"
proof (intro allI)
  fix h0 and m0 :: lms6002d_state
  obtain s where s: "lms6002d_create (lms6_chip (\<lambda>h r. 0)) 0 (h0, m0) = (Inr (), s)"
    by (simp add: lms6002d_create_def lms6_rd_chip TOP_CHIPID_def lms6_send_def lms6_post_chip)
  obtain h m where r: "dlist (map (lms6_run (lms6_chip (\<lambda>h r. 0))) [M_trf_enable True]) s = (Inr (), (h, m))"
    by (cases s) (simp add: lms6002d_trf_enable_def set_enreg_def set_encfg_def lms6_send_def lms6_post_chip)
  show "\<exists>s h m. lms6002d_create (lms6_chip (\<lambda>h r. 0)) 0 (h0, m0) = (Inr (), s) \<and>
      dlist (map (lms6_run (lms6_chip (\<lambda>h r. 0))) [M_trf_enable True]) s = (Inr (), (h, m)) \<and> h 0x05 = l6_top_encfg m \<and> h 0x09 = l6_top_enreg m"
    using s r lms6_enables_mirrored [OF s r] by blast
qed

text \<open>A band whose calibration fails is marked as calibrated, with the code 7.\<close>

lemma failed_band_is_marked:
  "lms6002d_cal_lpf_bandwidth (lms6_chip rd) 3 (h, m\<lparr>l6_fref := 0, l6_rclpfcal := replicate 16 3\<rparr>) = (x, (h', m')) \<Longrightarrow>
    x = Inl CRASH_FPE \<and> l6_rclpfcal m' ! 3 = 0x87"
  by (cases "fget TOP_ENCFG_STXEN (l6_top_encfg m) \<noteq> 0")
    (auto simp: lms6002d_cal_lpf_bandwidth_def LPF_BANDS_def lms6002d_trf_enable_def set_enreg_def set_encfg_def lms6_send_def lms6_post_chip
      lms6002d_tune_pll_def VCO_RANGES6_def lms6002d_pll_calc_def dtry_def dbind_def dseq_def fget_def fmask_def TOP_DC_CAL_RC_LPF_def mask_eq_exp_minus_1)

end
