(* ===== verification/Si5332.thy ===== *)
theory Si5332
  imports Xsdr
begin

text \<open>
  The clock generator SI5332 (\<open>src/lib/hw/si5332/si5332.c\<close>): start-up, choice of the reference, the plan of its oscillator and
  dividers for a requested clock, and the switching of the outputs for the mixer and the transmitter. It is programmed
  by pairs of a register and a value. The state is polled a hundred times at most.
\<close>

section \<open>Registers\<close>

definition USYS_CTRL :: u8 where "USYS_CTRL = 0x06"
definition USYS_STAT :: u8 where "USYS_STAT = 0x07"
definition VDD_OK :: u8 where "VDD_OK = 0x05"
definition DEVICE_PN_BASE :: u8 where "DEVICE_PN_BASE = 0x0D"
definition DESIGN_ID2 :: u8 where "DESIGN_ID2 = 0x15"
definition IMUX_SEL :: u8 where "IMUX_SEL = 0x24"
definition CLKIN_2_CLK_SEL :: u8 where "CLKIN_2_CLK_SEL = 0x73"
definition CLKIN_3_CLK_SEL :: u8 where "CLKIN_3_CLK_SEL = 0x74"
definition OMUX0_SEL10 :: u8 where "OMUX0_SEL10 = 0x25"
definition OMUX1_SEL10 :: u8 where "OMUX1_SEL10 = 0x26"
definition OMUX2_SEL10 :: u8 where "OMUX2_SEL10 = 0x27"
definition OMUX3_SEL10 :: u8 where "OMUX3_SEL10 = 0x28"
definition OMUX4_SEL10 :: u8 where "OMUX4_SEL10 = 0x29"
definition OMUX5_SEL10 :: u8 where "OMUX5_SEL10 = 0x2A"
definition OUT0_MODE :: u8 where "OUT0_MODE = 0x7A"
definition OUT0_DIV :: u8 where "OUT0_DIV = 0x7B"
definition OUT0_SKEW :: u8 where "OUT0_SKEW = 0x7C"
definition OUT0_CMOS_INV_Z :: u8 where "OUT0_CMOS_INV_Z = 0x7D"
definition OUT0_CMOS_SLEW :: u8 where "OUT0_CMOS_SLEW = 0x7E"
definition OUT1_MODE :: u8 where "OUT1_MODE = 0x7F"
definition OUT1_DIV :: u8 where "OUT1_DIV = 0x80"
definition OUT1_SKEW :: u8 where "OUT1_SKEW = 0x81"
definition OUT1_CMOS_INV_Z :: u8 where "OUT1_CMOS_INV_Z = 0x82"
definition OUT1_CMOS_SLEW :: u8 where "OUT1_CMOS_SLEW = 0x83"
definition OUT2_MODE :: u8 where "OUT2_MODE = 0x89"
definition OUT2_DIV :: u8 where "OUT2_DIV = 0x8A"
definition OUT2_SKEW :: u8 where "OUT2_SKEW = 0x8B"
definition OUT2_CMOS_INV_Z :: u8 where "OUT2_CMOS_INV_Z = 0x8C"
definition OUT2_CMOS_SLEW :: u8 where "OUT2_CMOS_SLEW = 0x8D"
definition OUT3_DIV :: u8 where "OUT3_DIV = 0x99"
definition OUT4_DIV :: u8 where "OUT4_DIV = 0xA8"
definition OUT5_MODE :: u8 where "OUT5_MODE = 0xAC"
definition OUT5_DIV :: u8 where "OUT5_DIV = 0xAD"
definition OUT5_SKEW :: u8 where "OUT5_SKEW = 0xAE"
definition OUT5_CMOS_INV_Z :: u8 where "OUT5_CMOS_INV_Z = 0xAF"
definition OUT5_CMOS_SLEW :: u8 where "OUT5_CMOS_SLEW = 0xB0"
definition OUT3_MODE :: u8 where "OUT3_MODE = 0x98"
definition OUT4_MODE :: u8 where "OUT4_MODE = 0xA7"
definition OUT3210_OE :: u8 where "OUT3210_OE = 0xB6"
definition OUT54_OE :: u8 where "OUT54_OE = 0xB7"
definition XOSC_CINT_ENA :: u8 where "XOSC_CINT_ENA = 0xBF"
definition XOSC_CTRIM_XIN :: u8 where "XOSC_CTRIM_XIN = 0xC0"
definition XOSC_CTRIM_XOUT :: u8 where "XOSC_CTRIM_XOUT = 0xC1"
definition IDPA_INTG_H :: u8 where "IDPA_INTG_H = 0x68"
definition IDPA_INTG_L :: u8 where "IDPA_INTG_L = 0x67"
definition IDPA_RES_H :: u8 where "IDPA_RES_H = 0x6A"
definition IDPA_RES_L :: u8 where "IDPA_RES_L = 0x69"
definition IDPA_DEN_H :: u8 where "IDPA_DEN_H = 0x6C"
definition IDPA_DEN_L :: u8 where "IDPA_DEN_L = 0x6B"
definition PDIV_DIV :: u8 where "PDIV_DIV = 0x75"
definition PLL_MODE :: u8 where "PLL_MODE = 0xBE"
definition HSDIV0A_DIV :: u8 where "HSDIV0A_DIV = 0x2B"
definition HSDIV0B_DIV :: u8 where "HSDIV0B_DIV = 0x2C"
definition HSDIV1A_DIV :: u8 where "HSDIV1A_DIV = 0x2D"
definition HSDIV2A_DIV :: u8 where "HSDIV2A_DIV = 0x2F"
definition HSDIV3A_DIV :: u8 where "HSDIV3A_DIV = 0x31"
definition HSDIV3B_DIV :: u8 where "HSDIV3B_DIV = 0x32"
definition IMUX_XOSC :: u8 where "IMUX_XOSC = 1"
definition IMUX_IN_2 :: u8 where "IMUX_IN_2 = 2"
definition IMUX_INX_DISABLED :: u8 where "IMUX_INX_DISABLED = 0"
definition IMUX_INX_CMOS_AC :: u8 where "IMUX_INX_CMOS_AC = 3"
definition OUTMODE_OFF :: u8 where "OUTMODE_OFF = 0"
definition OUTMODE_CMOS_P :: u8 where "OUTMODE_CMOS_P = 1"
definition OUTMODE_HCSL_50_INT :: u8 where "OUTMODE_HCSL_50_INT = 9"
definition OUTMODE_LVPECL :: u8 where "OUTMODE_LVPECL = 12"
definition OUMUXX_SEL0_PLL_REF :: u8 where "OUMUXX_SEL0_PLL_REF = 0"
definition OUMUXX_SEL1_HSDIV0 :: u8 where "OUMUXX_SEL1_HSDIV0 = 0"
definition OUMUXX_SEL1_HSDIV3 :: u8 where "OUMUXX_SEL1_HSDIV3 = 3"
definition OUMUXX_SEL1_OMUXS0 :: u8 where "OUMUXX_SEL1_OMUXS0 = 7"
definition B6_OUT0_OE :: u8 where "B6_OUT0_OE = 0x1"
definition B6_OUT1_OE :: u8 where "B6_OUT1_OE = 0x2"
definition B6_OUT2_OE :: u8 where "B6_OUT2_OE = 0x8"
definition B6_OUT3_OE :: u8 where "B6_OUT3_OE = 0x40"
definition B9_XOSC_DIS :: u8 where "B9_XOSC_DIS = 0x1"
definition B9_IBUF0_DIS :: u8 where "B9_IBUF0_DIS = 0x2"
definition BA_HSDIV1_DIS :: u8 where "BA_HSDIV1_DIS = 0x2"
definition BA_HSDIV2_DIS :: u8 where "BA_HSDIV2_DIS = 0x4"
definition BA_HSDIV3_DIS :: u8 where "BA_HSDIV3_DIS = 0x8"
definition BA_HSDIV4_DIS :: u8 where "BA_HSDIV4_DIS = 0x10"
definition BA_ID0_DIS :: u8 where "BA_ID0_DIS = 0x20"
definition BA_ID1_DIS :: u8 where "BA_ID1_DIS = 0x40"
definition BB_OMUX2_DIS :: u8 where "BB_OMUX2_DIS = 0x4"
definition BB_OMUX3_DIS :: u8 where "BB_OMUX3_DIS = 0x8"
definition BB_OMUX4_DIS :: u8 where "BB_OMUX4_DIS = 0x10"
definition BB_OMUX5_DIS :: u8 where "BB_OMUX5_DIS = 0x20"
definition BC_OUT2_DIS :: u8 where "BC_OUT2_DIS = 0x8"
definition BC_OUT3_DIS :: u8 where "BC_OUT3_DIS = 0x40"
definition BD_OUT4_DIS :: u8 where "BD_OUT4_DIS = 0x2"
definition BD_OUT5_DIS :: u8 where "BD_OUT5_DIS = 0x4"

definition MAKE_OUMUXX :: "u8 \<Rightarrow> u8 \<Rightarrow> u8" where "MAKE_OUMUXX s0 s1 = s0 OR push_bit 4 s1"

definition si5332_Fvco_min :: u32 where "si5332_Fvco_min = 2375000000"
definition si5332_Fvco_max :: u32 where "si5332_Fvco_max = 2625000000"
definition si5332_hsdiv_min :: u32 where "si5332_hsdiv_min = 8"
definition si5332_hsdiv_max :: u32 where "si5332_hsdiv_max = 255"

definition EILSEQ :: int where "EILSEQ = 84"

definition si5332_reg_rd :: "'h bus \<Rightarrow> u32 \<Rightarrow> u8 \<Rightarrow> ('h, u8) dev" where "si5332_reg_rd bus a reg = drd8 bus a reg"
definition si5332_reg_wr :: "'h bus \<Rightarrow> u32 \<Rightarrow> u8 \<Rightarrow> u8 \<Rightarrow> ('h, unit) dev" where "si5332_reg_wr bus a reg v = dwr8 bus a reg v"

definition si_program :: "'h bus \<Rightarrow> u32 \<Rightarrow> (u8 \<times> u8) list \<Rightarrow> ('h, unit) dev" where
  "si_program bus a rs = dlist (map (\<lambda>(r, v). si5332_reg_wr bus a r v) rs)"

section \<open>State of the chip\<close>

text \<open>A chip without a clock is an error after an operation and accepted before one.\<close>

primrec si_poll :: "'h bus \<Rightarrow> u32 \<Rightarrow> nat \<Rightarrow> u8 \<Rightarrow> ('h, u8) dev" where
  "si_poll bus a 0 st = dreturn st"
| "si_poll bus a (Suc n) st = dbind (si5332_reg_rd bus a USYS_STAT) (\<lambda>s. if s = 0x01 \<or> s = 0x02 \<or> s = 0x89 then dreturn s else si_poll bus a n s)"

definition si5532_get_state :: "'h bus \<Rightarrow> u32 \<Rightarrow> bool \<Rightarrow> ('h, unit) dev" where
  "si5532_get_state bus a before = dbind (si_poll bus a 100 0) (\<lambda>s. if s = 0x89 \<and> \<not> before then dfail (- EILSEQ) else dreturn ())"

section \<open>Start-up\<close>

definition si_init_regs :: "u32 \<Rightarrow> bool \<Rightarrow> bool \<Rightarrow> (u8 \<times> u8) list" where
  "si_init_regs div1 ext_in2 rv =
    (let off = MAKE_OUMUXX OUMUXX_SEL0_PLL_REF OUMUXX_SEL1_OMUXS0 in
     [(USYS_CTRL, 0x01), (IMUX_SEL, if ext_in2 then IMUX_IN_2 else IMUX_XOSC), (CLKIN_2_CLK_SEL, if ext_in2 then IMUX_INX_CMOS_AC else IMUX_INX_DISABLED),
      (CLKIN_3_CLK_SEL, 0), (0x3c, 0), (0x48, 0), (0x54, 0), (0x60, 0),
      (OMUX0_SEL10, off), (OMUX1_SEL10, off), (OMUX2_SEL10, off), (OMUX3_SEL10, off), (OMUX4_SEL10, off), (OMUX5_SEL10, off),
      (OUT0_MODE, if rv then OUTMODE_LVPECL else OUTMODE_CMOS_P), (OUT0_DIV, ucast div1), (OUT0_SKEW, 0), (OUT0_CMOS_INV_Z, 0), (OUT0_CMOS_SLEW, 3),
      (OUT1_MODE, if \<not> rv then OUTMODE_LVPECL else OUTMODE_CMOS_P), (OUT1_DIV, 1), (OUT1_SKEW, 0), (OUT1_CMOS_INV_Z, 0), (OUT1_CMOS_SLEW, 3),
      (OUT2_MODE, OUTMODE_CMOS_P), (OUT2_DIV, 1), (OUT2_SKEW, 0), (OUT2_CMOS_INV_Z, 0), (OUT2_CMOS_SLEW, 3),
      (OUT3_DIV, 0), (OUT4_DIV, 0), (OUT5_MODE, OUTMODE_OFF), (OUT5_DIV, 1), (OUT5_SKEW, 0), (OUT5_CMOS_INV_Z, 0), (OUT5_CMOS_SLEW, 3),
      (OUT3_MODE, OUTMODE_OFF), (OUT4_MODE, OUTMODE_OFF), (OUT3210_OE, 0xff), (OUT54_OE, 0xff),
      (0xb9, if ext_in2 then B9_XOSC_DIS else B9_IBUF0_DIS), (0xba, BA_HSDIV1_DIS OR BA_HSDIV2_DIS OR BA_HSDIV4_DIS OR BA_ID0_DIS OR BA_ID1_DIS),
      (0xbb, BB_OMUX4_DIS OR BB_OMUX5_DIS), (0xbc, 0), (0xbd, BD_OUT4_DIS OR BD_OUT5_DIS),
      (XOSC_CINT_ENA, 0), (XOSC_CTRIM_XIN, 0), (XOSC_CTRIM_XOUT, 0), (USYS_CTRL, 0x02)])"

primrec si_read_ids :: "'h bus \<Rightarrow> u32 \<Rightarrow> u8 list \<Rightarrow> ('h, u8 list) dev" where
  "si_read_ids bus a [] = dreturn []"
| "si_read_ids bus a (r # rs) = dbind (si5332_reg_rd bus a r) (\<lambda>v. dbind (si_read_ids bus a rs) (\<lambda>vs. dreturn (v # vs)))"

definition si5332_init :: "'h bus \<Rightarrow> u32 \<Rightarrow> u32 \<Rightarrow> bool \<Rightarrow> bool \<Rightarrow> ('h, unit) dev" where
  "si5332_init bus a div1 ext_in2 rv =
    dbind (si_read_ids bus a (map (\<lambda>i. DEVICE_PN_BASE + of_nat i) [0..<9])) (\<lambda>di. dbind (si5332_reg_rd bus a VDD_OK) (\<lambda>_.
      if take 6 di = replicate 6 0xff then dfail (- ENODEV)
      else dseq (si5532_get_state bus a True) (dseq (si_program bus a (si_init_regs div1 ext_in2 rv))
        (dseq (dignore (hw_rd32 bus 0xc)) (si5532_get_state bus a False)))))"

definition si_ext_regs :: "bool \<Rightarrow> (u8 \<times> u8) list" where
  "si_ext_regs flg = [(USYS_CTRL, 0x01), (IMUX_SEL, if flg then IMUX_IN_2 else IMUX_XOSC),
     (CLKIN_2_CLK_SEL, if flg then IMUX_INX_CMOS_AC else IMUX_INX_DISABLED), (0xb9, if flg then B9_XOSC_DIS else B9_IBUF0_DIS), (USYS_CTRL, 0x02)]"

definition si5532_set_ext_clock_sw :: "'h bus \<Rightarrow> u32 \<Rightarrow> bool \<Rightarrow> ('h, unit) dev" where
  "si5532_set_ext_clock_sw bus a flg = dseq (si5532_get_state bus a True) (dseq (si_program bus a (si_ext_regs flg)) (si5532_get_state bus a False))"

section \<open>The plan of a clock\<close>

record si_plan =
  si_hsdiv :: u32
  si_odiv :: u32
  si_vco :: u32
  si_prescaler :: u32
  si_intg :: u32
  si_res :: u32
  si_slow :: bool
  si_jdiv :: bool

text \<open>The least output divider with which the oscillator is below its limit.\<close>

primrec si_search :: "u32 \<Rightarrow> u32 \<Rightarrow> nat list \<Rightarrow> int + u32 \<times> u32 \<times> u32" where
  "si_search out imul [] = Inl (- ERANGE)"
| "si_search out imul (k # ks) =
    (let odiv = of_nat k; hsdiv = (imul + odiv - 1) div odiv; vco = out * hsdiv * odiv in
     if odiv = 0 then Inl CRASH_FPE else if hsdiv < si5332_hsdiv_min then Inl (- ERANGE)
     else if vco < si5332_Fvco_max then Inr (hsdiv, odiv, vco) else si_search out imul ks)"

definition si_vco_plan :: "u32 \<Rightarrow> int + u32 \<times> u32 \<times> u32" where
  "si_vco_plan out =
    (if out = 0 then Inl CRASH_FPE
     else let imul = (si5332_Fvco_min + out - 1) div out; first = (imul + si5332_hsdiv_max - 1) div si5332_hsdiv_max
       in si_search out imul [unat first..<64])"

text \<open>The last of the dividers 1 to 13 that gives the reference from the output, within 13 Hz.\<close>

definition si_direct :: "u32 \<Rightarrow> u32 \<Rightarrow> nat list" where
  "si_direct infreq out = filter (\<lambda>k. let diff = sint (out * of_nat k - infreq) in diff > - 14 \<and> diff < 14) [1..<14]"

definition si_layout :: "u32 \<Rightarrow> u32 \<Rightarrow> int + si_plan" where
  "si_layout infreq out =
    (case si_vco_plan out of Inl e \<Rightarrow> Inl e
     | Inr (hsdiv, odiv, vco) \<Rightarrow>
       let prescaler = (if infreq > 50000000 then 2 else 1); pllfreq = infreq div prescaler;
           v = 128 * ucast vco :: u64; intg = ucast (v div ucast pllfreq) :: u32; rest = ucast (v - ucast intg * ucast pllfreq) :: u32;
           ds = si_direct infreq out
       in if pllfreq = 0 then Inl CRASH_FPE
          else Inr \<lparr>si_hsdiv = hsdiv, si_odiv = (if ds = [] then odiv else of_nat (last ds)), si_vco = vco, si_prescaler = prescaler,
            si_intg = intg, si_res = ucast (32767 * ucast rest div ucast pllfreq :: u64), si_slow = \<not> pllfreq > 30000000, si_jdiv = (ds \<noteq> [])\<rparr>)"

definition si_layout_regs :: "si_plan \<Rightarrow> u32 \<Rightarrow> bool \<Rightarrow> u32 \<Rightarrow> (u8 \<times> u8) list" where
  "si_layout_regs p out old lodiv =
    (let slew = (if out > 50000000 then 1 else 2);
         mux = (if si_jdiv p then MAKE_OUMUXX OUMUXX_SEL0_PLL_REF OUMUXX_SEL1_OMUXS0 else MAKE_OUMUXX OUMUXX_SEL0_PLL_REF OUMUXX_SEL1_HSDIV0) in
     [(USYS_CTRL, 0x01), (IDPA_INTG_H, ucast (si_intg p)), (IDPA_INTG_L, ucast (drop_bit 8 (si_intg p))), (IDPA_RES_H, ucast (si_res p)),
      (IDPA_RES_L, ucast (drop_bit 8 (si_res p))), (IDPA_DEN_H, ucast (32767 :: u32)), (IDPA_DEN_L, ucast (drop_bit 8 (32767 :: u32))),
      (PDIV_DIV, ucast (si_prescaler p)), (PLL_MODE, if si_slow p then 4 else 11), (HSDIV0A_DIV, ucast (si_hsdiv p)), (HSDIV0B_DIV, ucast (si_hsdiv p)),
      (HSDIV1A_DIV, 0), (HSDIV2A_DIV, 0), (if old then OUT0_CMOS_SLEW else OUT1_CMOS_SLEW, slew), (OUT2_CMOS_SLEW, slew),
      (if old then OUT0_DIV else OUT1_DIV, ucast (si_odiv p)), (OUT2_DIV, ucast (si_odiv p)),
      (if old then OMUX0_SEL10 else OMUX1_SEL10, mux), (OMUX2_SEL10, mux), (HSDIV3A_DIV, ucast lodiv), (HSDIV3B_DIV, ucast lodiv),
      (OMUX3_SEL10, MAKE_OUMUXX OUMUXX_SEL0_PLL_REF OUMUXX_SEL1_HSDIV3), (OUT3_DIV, 1), (OUT3_MODE, OUTMODE_HCSL_50_INT), (USYS_CTRL, 0x02)])"

text \<open>The frequency of the oscillator is handed out before the chip is programmed.\<close>

definition si5332_set_layout :: "'h bus \<Rightarrow> u32 \<Rightarrow> si_plan \<Rightarrow> u32 \<Rightarrow> bool \<Rightarrow> u32 \<Rightarrow> ('h, unit) dev" where
  "si5332_set_layout bus a p out old lodiv =
    dseq (si5532_get_state bus a True) (dseq (si_program bus a (si_layout_regs p out old lodiv)) (si5532_get_state bus a False))"

definition si_port3_regs :: "bool \<Rightarrow> bool \<Rightarrow> (u8 \<times> u8) list" where
  "si_port3_regs loen txen =
    [(OUT3210_OE, (if loen then B6_OUT3_OE else 0) OR (if txen then B6_OUT2_OE else 0) OR B6_OUT0_OE OR B6_OUT1_OE), (USYS_CTRL, 0x01),
     (0xba, (if \<not> loen then BA_HSDIV3_DIS else 0) OR BA_HSDIV1_DIS OR BA_HSDIV2_DIS OR BA_HSDIV4_DIS OR BA_ID0_DIS OR BA_ID1_DIS),
     (0xbb, (if \<not> loen then BB_OMUX3_DIS else 0) OR (if \<not> txen then BB_OMUX2_DIS else 0) OR BB_OMUX4_DIS OR BB_OMUX5_DIS),
     (0xbc, (if \<not> loen then BC_OUT3_DIS else 0) OR (if \<not> txen then BC_OUT2_DIS else 0)), (USYS_CTRL, 0x02)]"

definition si5332_set_port3_en :: "'h bus \<Rightarrow> u32 \<Rightarrow> bool \<Rightarrow> bool \<Rightarrow> ('h, unit) dev" where
  "si5332_set_port3_en bus a loen txen = si_program bus a (si_port3_regs loen txen)"

section \<open>What the plan promises\<close>

lemma si_ceil:
  assumes "si_search out imul [a..<64] = Inr (h, d, v)" and i: "unat imul \<le> 2375000000" and a: "1 \<le> a"
  shows "\<exists>k. a \<le> k \<and> k < 64 \<and> unat d = k \<and> unat h = (unat imul + k - 1) div k \<and> 8 \<le> unat h \<and> v = out * h * d \<and> unat v < 2625000000"
  using assms(1) a
proof (induction "64 - a" arbitrary: a)
  case 0 then show ?case by simp
next
  case (Suc n)
  then have a64: "a < 64" by simp
  define hw where "hw = (imul + of_nat a - 1) div of_nat a"
  have ua: "unat (of_nat a :: u32) = a" using a64 by (intro unat_of_nat32) simp
  have s: "unat (imul + of_nat a) = unat imul + a" using i a64 by (simp add: unat_word_ariths ua take_bit_nat_eq_self)
  have "unat (imul + of_nat a - 1) = unat imul + a - 1" using s Suc.prems(2) by (subst unat_sub) (simp_all add: word_le_nat_alt)
  then have uh: "unat hw = (unat imul + a - 1) div a" by (simp add: hw_def unat_div ua)
  have nz: "(of_nat a :: u32) \<noteq> 0" using Suc.prems(2) ua by (metis not_one_le_zero unat_0)
  have split: "[a..<64] = a # [Suc a..<64]" using a64 by (simp add: upt_conv_Cons)
  show ?case
  proof (cases "hw < si5332_hsdiv_min \<or> out * hw * of_nat a < si5332_Fvco_max")
    case True
    then have "\<not> hw < si5332_hsdiv_min" "h = hw" "d = of_nat a" "v = out * hw * of_nat a" "v < si5332_Fvco_max"
      using Suc.prems(1) nz unfolding split by (auto simp: Let_def hw_def [symmetric] split: if_splits)
    then show ?thesis using ua uh a64
      by (intro exI [of _ a]) (simp add: si5332_hsdiv_min_def si5332_Fvco_max_def word_less_nat_alt not_less)
  next
    case False
    then have "si_search out imul [Suc a..<64] = Inr (h, d, v)"
      using Suc.prems(1) nz unfolding split by (simp add: Let_def hw_def [symmetric])
    moreover have "n = 64 - Suc a" using Suc.hyps(2) by simp
    ultimately have "\<exists>k\<ge>Suc a. k < 64 \<and> unat d = k \<and> unat h = (unat imul + k - 1) div k \<and> 8 \<le> unat h \<and> v = out * h * d \<and> unat v < 2625000000"
      using Suc.hyps(1) [of "Suc a"] by fastforce
    then show ?thesis by (meson Suc_leD)
  qed
qed

lemma ceil_div: "0 < k \<Longrightarrow> n \<le> ((n + k - 1) div k) * k" "0 < k \<Longrightarrow> ((n + k - 1) div k) * k \<le> n + k - 1" for n k :: nat
proof -
  assume k: "0 < k"
  show "((n + k - 1) div k) * k \<le> n + k - 1" by simp
  have "n + k - 1 = ((n + k - 1) div k) * k + (n + k - 1) mod k" by simp
  moreover have "(n + k - 1) mod k < k" using k by simp
  ultimately show "n \<le> ((n + k - 1) div k) * k" using k by linarith
qed

lemma si_vco_bounds:
  assumes "si_vco_plan out = Inr (h, d, v)"
  shows "2375000000 \<le> unat v \<and> unat v < 2625000000 \<and> unat v = unat out * unat h * unat d \<and> 8 \<le> unat h \<and> unat h \<le> 255 \<and> 1 \<le> unat d \<and> unat d < 64"
proof -
  define N imul where "N = unat out" and "imul = (si5332_Fvco_min + out - 1) div out"
  define first where "first = (imul + si5332_hsdiv_max - 1) div si5332_hsdiv_max"
  have o: "out \<noteq> 0" and run: "si_search out imul [unat first..<64] = Inr (h, d, v)"
    using assms by (auto simp: si_vco_plan_def Let_def imul_def first_def split: if_splits)
  have N0: "0 < N" using o by (simp add: N_def unat_gt_0)
  have N32: "N < 2 ^ 32" using unsigned_less [of out, where ?'a = nat] by (simp add: N_def)
  have nowrap: "2375000000 + N - 1 < 2 ^ 32"
  proof (rule ccontr)
    assume "\<not> 2375000000 + N - 1 < 2 ^ 32"
    then have w: "2 ^ 32 \<le> 2375000000 + N - 1" by simp
    have "unat (si5332_Fvco_min + out - 1) = 2375000000 + N - 1 - 2 ^ 32"
    proof -
      have "unat (2374999999 + out) = (2374999999 + N) mod 2 ^ 32" by (simp add: unat_word_ariths N_def)
      moreover have "(2374999999 + N) mod 2 ^ 32 = 2374999999 + N - 2 ^ 32" using w N32 by (subst mod_if) simp
      moreover have e: "si5332_Fvco_min + out - 1 = 2374999999 + out" by (simp add: si5332_Fvco_min_def)
      ultimately show ?thesis unfolding e by simp
    qed
    moreover have "2375000000 + N - 1 - 2 ^ 32 < N" using N0 by simp
    ultimately have "unat (si5332_Fvco_min + out - 1) < N" by simp
    then have "unat imul = 0" unfolding imul_def unat_div N_def [symmetric] by (rule div_less)
    then have "imul = 0" by (simp add: unat_eq_0)
    then have "unat first = 0" by (simp add: first_def si5332_hsdiv_max_def)
    then show False using run by (simp add: upt_conv_Cons Let_def)
  qed
  have um: "unat imul = (2375000000 + N - 1) div N"
  proof -
    have "unat (2374999999 + out) = 2374999999 + N" using nowrap by (simp add: unat_word_ariths N_def take_bit_nat_eq_self)
    moreover have e: "si5332_Fvco_min + out - 1 = 2374999999 + out" by (simp add: si5332_Fvco_min_def)
    ultimately show ?thesis unfolding imul_def unat_div e by (simp add: N_def)
  qed
  define M where "M = unat imul"
  have M: "2375000000 \<le> M * N" "M * N \<le> 2375000000 + N - 1" using ceil_div [OF N0, of 2375000000] by (simp_all add: M_def um)
  have M0: "1 \<le> M" using M(1) by (cases M) auto
  have M1: "M \<le> 2375000000"
  proof (rule ccontr)
    assume "\<not> M \<le> 2375000000"
    then have "2375000001 * N \<le> M * N" by (intro mult_le_mono1) simp
    then show False using M(2) N0 by linarith
  qed
  have uf: "unat first = (M + 255 - 1) div 255"
  proof -
    have "unat (imul + 255) = M + 255" using M1 by (simp add: unat_word_ariths M_def [symmetric] take_bit_nat_eq_self)
    then have "unat (imul + 255 - 1) = M + 255 - 1" by (subst unat_sub) (simp_all add: word_le_nat_alt)
    then show ?thesis by (simp add: first_def si5332_hsdiv_max_def unat_div)
  qed
  have f2: "M \<le> unat first * 255" unfolding uf by (rule ceil_div) simp
  have "unat first \<noteq> 0"
  proof
    assume "unat first = 0"
    then have "M \<le> 0 * 255" using f2 by metis
    then show False using M0 by simp
  qed
  then have f1: "1 \<le> unat first" by linarith
  obtain k where k: "unat first \<le> k" "k < 64" "unat d = k" "unat h = (M + k - 1) div k" "8 \<le> unat h" "v = out * h * d" "unat v < 2625000000"
    using si_ceil [OF run _ f1] M1 by (auto simp: M_def)
  define hn where "hn = unat h"
  have k0: "0 < k" using k(1) f1 by simp
  have hk: "M \<le> hn * k" "hn * k \<le> M + k - 1" using ceil_div [OF k0, of M] by (simp_all add: hn_def k(4))
  have "M \<le> 255 * k" using f2 mult_le_mono1 [OF k(1), of 255] by linarith
  then have h255: "hn \<le> 255"
  proof -
    assume le: "M \<le> 255 * k"
    have "hn * k < 256 * k" using hk(2) le k0 by linarith
    then have "hn < 256" using k0 by simp
    then show ?thesis by simp
  qed
  have "8 * k \<le> hn * k" using k(5) by (simp add: hn_def)
  then have k7: "7 * k \<le> M - 1" using hk(2) M0 by linarith
  have "7 * (k * N) \<le> (M - 1) * N" using mult_le_mono1 [OF k7, of N] by (simp add: mult.assoc)
  also have "(M - 1) * N = M * N - N" by (simp add: diff_mult_distrib)
  also have "\<dots> \<le> 2375000000" using M(2) by simp
  finally have kN: "7 * (k * N) \<le> 2375000000" .
  have "hn * k * N \<le> (M + k - 1) * N" using hk(2) by (intro mult_le_mono1)
  also have "\<dots> \<le> M * N + k * N" by (simp add: add_mult_distrib [symmetric] mult_le_mono1)
  also have "\<dots> < 2 ^ 32"
  proof -
    have "N \<le> k * N" using k0 by simp
    then have "M * N + k * N < 4294967296" using M(2) kN by linarith
    then show ?thesis by simp
  qed
  finally have P: "hn * k * N < 2 ^ 32" .
  have "N * hn < 2 ^ 32" using P k0 by (intro order_le_less_trans [OF _ P]) (simp add: mult.commute mult.left_commute)
  then have "unat (out * h) = N * hn" by (subst unat_mult_lem [THEN iffD1]) (simp_all add: N_def hn_def)
  then have uv: "unat v = N * hn * k" using P unfolding k(6) by (subst unat_mult_lem [THEN iffD1]) (simp_all add: k(3) mult.commute mult.left_commute)
  have "unat v = hn * k * N" unfolding uv by (simp only: ac_simps)
  then have "2375000000 \<le> unat v" using M(1) mult_le_mono1 [OF hk(1), of N] by linarith
  then show ?thesis using uv h255 k k0 by (simp add: N_def hn_def)
qed

text \<open>The feedback ratio as it is written: 128 times the oscillator over the reference, rounded down to steps of 1/32767.\<close>

lemma si_layout_ratio:
  assumes "si_layout infreq out = Inr p" and "10000000 \<le> unat infreq"
  shows "unat (si_intg p) < 2 ^ 16 \<and> unat (si_res p) < 2 ^ 15 \<and>
    (unat (si_intg p) * 32767 + unat (si_res p)) * (unat infreq div unat (si_prescaler p)) \<le> 128 * unat (si_vco p) * 32767 \<and>
    128 * unat (si_vco p) * 32767 < (unat (si_intg p) * 32767 + unat (si_res p) + 1) * (unat infreq div unat (si_prescaler p))"
proof -
  obtain h d v where hv: "si_vco_plan out = Inr (h, d, v)" using assms(1) by (auto simp: si_layout_def split: sum.splits)
  define pre pll where "pre = (if infreq > 50000000 then 2 else 1 :: u32)" and "pll = infreq div pre"
  define V where "V = (128 * ucast v :: u64)"
  define intg where "intg = (ucast (V div ucast pll) :: u32)"
  define rest where "rest = (ucast (V - ucast intg * ucast pll) :: u32)"
  define res where "res = (ucast (32767 * ucast rest div ucast pll :: u64) :: u32)"
  have p: "si_hsdiv p = h" "si_vco p = v" "si_prescaler p = pre" "si_intg p = intg" "si_res p = res" "\<not> si_jdiv p \<longrightarrow> si_odiv p = d"
    using assms(1) unfolding si_layout_def hv sum.case prod.case Let_def pre_def [symmetric] pll_def [symmetric]
    by (auto simp: V_def intg_def rest_def res_def split: if_splits)
  note b = si_vco_bounds [OF hv]
  define q n where "q = unat pll" and "n = unat v"
  have q: "q = unat infreq div unat pre" by (simp add: q_def pll_def unat_div)
  have qlo: "10000000 \<le> q" using assms(2) by (auto simp: q pre_def word_less_nat_alt)
  have q32: "q < 2 ^ 32" using unsigned_less [of pll, where ?'a = nat] by (simp add: q_def)
  have uq: "unat (ucast pll :: u64) = q" using q32 by (simp add: q_def unsigned_ucast_eq take_bit_nat_eq_self)
  have n: "n < 2625000000" using b by (simp add: n_def)
  have uV: "unat V = 128 * n" using n by (simp add: V_def n_def unat_word_ariths unsigned_ucast_eq take_bit_nat_eq_self)
  define i r where "i = 128 * n div q" and "r = 128 * n mod q"
  have i: "i < 2 ^ 16" unfolding i_def using n qlo by (simp add: div_less_iff_less_mult)
  have r: "r < q" using qlo by (simp add: r_def)
  have ui: "unat intg = i"
  proof -
    have "unat (V div ucast pll) = i" by (simp only: unat_div uV uq i_def)
    then show ?thesis using i by (simp only: intg_def unsigned_ucast_eq) (simp add: take_bit_nat_eq_self)
  qed
  have ui64: "unat (ucast intg :: u64) = i" using i by (simp add: unsigned_ucast_eq ui take_bit_nat_eq_self)
  have iq: "i * q \<le> 128 * n" by (simp add: i_def)
  have "i * q < 2 ^ 64" using iq n by simp
  then have "unat (ucast intg * ucast pll :: u64) = i * q" by (subst unat_mult_lem [THEN iffD1]) (simp_all add: ui64 uq)
  then have "unat (V - ucast intg * ucast pll) = 128 * n - i * q" using iq by (subst unat_sub) (simp_all add: word_le_nat_alt uV)
  also have "\<dots> = r" by (simp add: i_def r_def minus_div_mult_eq_mod)
  finally have ur: "unat rest = r" using r q32 by (simp only: rest_def unsigned_ucast_eq) (simp add: take_bit_nat_eq_self)
  have "unat (32767 * ucast rest :: u64) = 32767 * r"
    using r q32 by (simp add: unat_word_ariths unsigned_ucast_eq ur take_bit_nat_eq_self)
  then have "unat (32767 * ucast rest div ucast pll :: u64) = 32767 * r div q" by (simp only: unat_div uq)
  moreover have r15: "32767 * r div q < 2 ^ 15" using r by (simp add: div_less_iff_less_mult)
  ultimately have us: "unat res = 32767 * r div q" by (simp only: res_def unsigned_ucast_eq) (simp add: take_bit_nat_eq_self)
  have fr: "q * (32767 * r div q) \<le> 32767 * r" "32767 * r < q * (32767 * r div q + 1)" using qlo by (simp_all add: dividend_less_times_div)
  have nv: "128 * n = i * q + r" by (simp add: i_def r_def)
  have "(i * 32767 + 32767 * r div q) * q \<le> 128 * n * 32767" "128 * n * 32767 < (i * 32767 + 32767 * r div q + 1) * q"
    using fr unfolding nv by (simp_all add: algebra_simps)
  then show ?thesis using b i r15 p
    by (intro conjI) (auto simp: ui us n_def [symmetric] q [symmetric] intro!: exI [of _ "unat d"])
qed

text \<open>The differences that \<open>si_direct\<close> looks at are those of the frequencies themselves: a clock with a plan is so slow that
  13 times it does not wrap, and so fast that the reference does not exceed it by a whole turn.\<close>

lemma sint_near:
  fixes A F :: int
  assumes "0 \<le> F" "F < 2 ^ 32" "14 \<le> A" "A < 2 ^ 32 - 14"
  shows "(sint (word_of_int (A - F) :: u32) > - 14 \<and> sint (word_of_int (A - F) :: u32) < 14) = (\<bar>A - F\<bar> < 14)"
proof -
  have s: "sint (word_of_int (A - F) :: u32) = (A - F + 2147483648) mod 4294967296 - 2147483648"
    by (subst int_word_sint) simp
  consider "A - F < - 2147483648" | "- 2147483648 \<le> A - F" "A - F < 2147483648" | "2147483648 \<le> A - F" by linarith
  then show ?thesis
  proof cases
    case 1
    then have "(A - F + 2147483648) mod 4294967296 = A - F + 2147483648 + 4294967296"
      using assms by (subst mod_add_self2 [symmetric], subst mod_pos_pos_trivial) auto
    then show ?thesis unfolding s using 1 assms by auto
  next
    case 2
    then show ?thesis unfolding s by auto
  next
    case 3
    then have "(A - F + 2147483648) mod 4294967296 = A - F + 2147483648 - 4294967296"
      using assms by (subst minus_mod_self2 [symmetric], subst mod_pos_pos_trivial) auto
    then show ?thesis unfolding s using 3 assms by auto
  qed
qed

lemma si_direct_exact:
  assumes "si_vco_plan out = Inr hdv"
  shows "si_direct infreq out = filter (\<lambda>k. \<bar>int (unat out * k) - int (unat infreq)\<bar> < 14) [1..<14]"
proof -
  obtain h d v where "hdv = (h, d, v)" by (cases hdv)
  then have b: "2375000000 \<le> unat v" "unat v < 2625000000" "unat v = unat out * (unat h * unat d)" "8 \<le> unat h" "unat h \<le> 255" "1 \<le> unat d" "unat d < 64"
    using si_vco_bounds [of out h d v] assms by (simp_all add: mult.assoc)
  have "8 * 1 \<le> unat h * unat d" using b by (intro mult_le_mono) auto
  then have "unat out * 8 \<le> unat v" unfolding b(3) by (intro mult_le_mono2) simp
  then have hi: "unat out < 328125000" using b(2) by linarith
  have "unat h * unat d \<le> 255 * 63" using b by (intro mult_le_mono) auto
  then have "unat v \<le> unat out * 16065" unfolding b(3) by (intro mult_le_mono2) simp
  then have lo: "14 \<le> unat out" using b(1) by linarith
  have near: "(sint (out * of_nat k - infreq) > - 14 \<and> sint (out * of_nat k - infreq) < 14) = (\<bar>int (unat out * k) - int (unat infreq)\<bar> < 14)"
    if "1 \<le> k" "k < 14" for k
  proof -
    define m A F where "m = unat out * k" and "A = int (unat out * k)" and "F = int (unat infreq)"
    have "unat out * k \<le> 328124999 * 13" using hi that by (intro mult_le_mono) auto
    moreover have "14 * 1 \<le> unat out * k" using lo that by (intro mult_le_mono) auto
    ultimately have "14 \<le> m" "m \<le> 4265624987" by (simp_all add: m_def)
    then have A: "14 \<le> A" "A < 2 ^ 32 - 14" unfolding A_def m_def [symmetric] by simp_all
    have F: "0 \<le> F" "F < 2 ^ 32" using unsigned_less [of infreq, where ?'a = int] by (simp_all add: F_def)
    have "word_of_int A = out * of_nat k" "word_of_int F = infreq" by (simp_all add: A_def F_def)
    then have e: "out * of_nat k - infreq = word_of_int (A - F)" by (simp only: of_int_diff)
    show ?thesis unfolding e A_def [symmetric] F_def [symmetric] by (rule sint_near [OF F A])
  qed
  show ?thesis unfolding si_direct_def Let_def by (rule filter_cong [OF refl near]) simp_all
qed

text \<open>A chip that keeps what is written to it; \<open>st\<close> is what its state register reads.\<close>

type_synonym si_regs = "u8 \<Rightarrow> u8"

definition si_chip :: "(si_regs \<Rightarrow> u8) \<Rightarrow> si_regs bus" where
  "si_chip st = (\<lambda>rq h. case rq_out rq of [r] \<Rightarrow> (Inr [if r = USYS_STAT then st h else h r], h) | [r, v] \<Rightarrow> (Inr [], h(r := v)) | _ \<Rightarrow> (Inr [], h))"

lemma si_chip_wr: "si5332_reg_wr (si_chip st) a r v h = (Inr (), h(r := v))"
  by (simp add: si5332_reg_wr_def dwr8_def i2c_tr_def bus_op_def si_chip_def dbind_def dreturn_def)

lemma si_chip_rd: "si5332_reg_rd (si_chip st) a r h = (Inr (if r = USYS_STAT then st h else h r), h)"
  by (simp add: si5332_reg_rd_def drd8_def i2c_tr_def bus_op_def si_chip_def dbind_def dreturn_def fit_def)

lemma si_chip_program: "si_program (si_chip st) a rs h = (Inr (), fold (\<lambda>(r, v) h. h(r := v)) rs h)"
  by (induction rs arbitrary: h) (auto simp: si_program_def si_chip_wr dseq_def dbind_def dreturn_def)

lemma si_chip_poll: "\<exists>s. si_poll (si_chip st) a n z h = (Inr s, h)"
  by (induction n arbitrary: z) (auto simp: si_chip_rd dbind_def dreturn_def fit_def)

lemma si_chip_state:
  assumes "si5532_get_state (si_chip st) a before h = (Inr (), h')"
  shows "h' = h"
proof -
  obtain s where "si_poll (si_chip st) a 100 0 h = (Inr s, h)" using si_chip_poll by blast
  then show ?thesis using assms by (auto simp: si5532_get_state_def dbind_def dreturn_def dfail_def split: if_splits)
qed

lemma si_chip_last: "fold (\<lambda>(r, v) h. h(r := v)) rs h x = (case map_of (rev rs) x of Some v \<Rightarrow> v | None \<Rightarrow> h x)"
  by (induction rs rule: rev_induct) (auto split: prod.split)

lemma si_chip_layout:
  assumes "si5332_set_layout (si_chip st) a p out old lodiv h = (Inr (), h')"
  shows "h' = fold (\<lambda>(r, v) h. h(r := v)) (si_layout_regs p out old lodiv) h"
proof -
  obtain r h1 where 1: "si5532_get_state (si_chip st) a True h = (r, h1)" by fastforce
  then have r: "r = Inr ()" using assms by (cases r) (auto simp: si5332_set_layout_def dseq_def dbind_def)
  then have "h1 = h" using si_chip_state 1 by blast
  then show ?thesis using assms 1 r si_chip_state
    by (auto simp: si5332_set_layout_def dseq_def dbind_def si_chip_program)
qed

text \<open>What the chip holds afterwards of a plan: both halves of the first divider, and the divider and the source of the two outputs.\<close>

lemma si_layout_kept:
  assumes "si5332_set_layout (si_chip st) a p out old lodiv h = (Inr (), h')"
  shows "h' HSDIV0A_DIV = ucast (si_hsdiv p) \<and> h' HSDIV0B_DIV = ucast (si_hsdiv p) \<and>
    h' (if old then OUT0_DIV else OUT1_DIV) = ucast (si_odiv p) \<and> h' OUT2_DIV = ucast (si_odiv p) \<and>
    h' (if old then OMUX0_SEL10 else OMUX1_SEL10) = MAKE_OUMUXX OUMUXX_SEL0_PLL_REF (if si_jdiv p then OUMUXX_SEL1_OMUXS0 else OUMUXX_SEL1_HSDIV0) \<and>
    h' OMUX2_SEL10 = MAKE_OUMUXX OUMUXX_SEL0_PLL_REF (if si_jdiv p then OUMUXX_SEL1_OMUXS0 else OUMUXX_SEL1_HSDIV0)"
  unfolding si_chip_layout [OF assms] si_chip_last si_layout_regs_def Let_def
  by (cases old) (simp_all add: USYS_CTRL_def IDPA_INTG_H_def IDPA_INTG_L_def IDPA_RES_H_def IDPA_RES_L_def IDPA_DEN_H_def IDPA_DEN_L_def PDIV_DIV_def
      PLL_MODE_def HSDIV0A_DIV_def HSDIV0B_DIV_def HSDIV1A_DIV_def HSDIV2A_DIV_def OUT0_CMOS_SLEW_def OUT1_CMOS_SLEW_def OUT2_CMOS_SLEW_def
      OUT0_DIV_def OUT1_DIV_def OUT2_DIV_def OMUX0_SEL10_def OMUX1_SEL10_def OMUX2_SEL10_def HSDIV3A_DIV_def HSDIV3B_DIV_def OMUX3_SEL10_def
      OUT3_DIV_def OUT3_MODE_def)

text \<open>C39: on a chip that keeps what is written, a clock with a plan that is programmed without an error leaves the dividers of
  both outputs right in the registers of the chip. Where one of the dividers 1 to 13 takes the reference to the clock within 13 Hz,
  the outputs divide the reference by it; otherwise the oscillator runs at exactly the clock times the two dividers in the
  registers, between 2375 and 2625 MHz, and the first divider is 8 to 255 and the second 1 to 63.\<close>

theorem si5332_layout_plan:
  assumes "si_layout infreq out = Inr p" and "si5332_set_layout (si_chip st) a p out old lodiv h = (Inr (), h')"
    and "(n :: nat) \<in> {if old then 0 else 1, 2}" and "od = h' (if n = 2 then OUT2_DIV else if n = 1 then OUT1_DIV else OUT0_DIV)"
    and "mux = h' (if n = 2 then OMUX2_SEL10 else if n = 1 then OMUX1_SEL10 else OMUX0_SEL10)"
  shows "if \<exists>k. 1 \<le> k \<and> k \<le> 13 \<and> \<bar>int (unat out * k) - int (unat infreq)\<bar> < 14
    then 1 \<le> unat od \<and> unat od \<le> 13 \<and> \<bar>int (unat out * unat od) - int (unat infreq)\<bar> < 14 \<and> mux = MAKE_OUMUXX OUMUXX_SEL0_PLL_REF OUMUXX_SEL1_OMUXS0
    else unat (si_vco p) = unat out * unat (h' HSDIV0A_DIV) * unat od \<and> 2375000000 \<le> unat (si_vco p) \<and> unat (si_vco p) < 2625000000 \<and>
      8 \<le> unat (h' HSDIV0A_DIV) \<and> h' HSDIV0B_DIV = h' HSDIV0A_DIV \<and> 1 \<le> unat od \<and> unat od < 64 \<and> mux = MAKE_OUMUXX OUMUXX_SEL0_PLL_REF OUMUXX_SEL1_HSDIV0"
proof -
  obtain hs d v where hv: "si_vco_plan out = Inr (hs, d, v)" using assms(1) by (auto simp: si_layout_def split: sum.splits)
  define ds where "ds = filter (\<lambda>k. \<bar>int (unat out * k) - int (unat infreq)\<bar> < 14) [1..<14]"
  have p: "si_hsdiv p = hs" "si_vco p = v" "si_odiv p = (if ds = [] then d else of_nat (last ds))" "si_jdiv p = (ds \<noteq> [])"
    using assms(1) unfolding si_layout_def hv sum.case prod.case Let_def si_direct_exact [OF hv] ds_def [symmetric]
    by (auto split: if_splits)
  note b = si_vco_bounds [OF hv]
  note k = si_layout_kept [OF assms(2)]
  have od: "od = ucast (si_odiv p)" and mux: "mux = MAKE_OUMUXX OUMUXX_SEL0_PLL_REF (if si_jdiv p then OUMUXX_SEL1_OMUXS0 else OUMUXX_SEL1_HSDIV0)"
    using assms(3-5) k by (auto split: if_splits)
  have ds: "ds \<noteq> [] \<longleftrightarrow> (\<exists>k. 1 \<le> k \<and> k \<le> 13 \<and> \<bar>int (unat out * k) - int (unat infreq)\<bar> < 14)"
    unfolding ds_def filter_empty_conv by auto
  have uh: "unat (h' HSDIV0A_DIV) = unat hs" using b k unfolding p(1) by (simp add: unsigned_ucast_eq take_bit_nat_eq_self)
  show ?thesis
  proof (cases "ds = []")
    case True
    have "unat od = unat d" using b True unfolding od p(3) by (simp add: unsigned_ucast_eq take_bit_nat_eq_self)
    moreover have nk: "\<not> (\<exists>k. 1 \<le> k \<and> k \<le> 13 \<and> \<bar>int (unat out * k) - int (unat infreq)\<bar> < 14)" using ds True by blast
    moreover have "h' HSDIV0B_DIV = h' HSDIV0A_DIV" using k by argo
    ultimately show ?thesis unfolding if_not_P [OF nk] p(2) uh using b True mux p(4) by simp
  next
    case False
    then have l: "last ds \<in> set ds" by simp
    then have "1 \<le> last ds \<and> last ds \<le> 13 \<and> \<bar>int (unat out * last ds) - int (unat infreq)\<bar> < 14" by (simp add: ds_def)
    moreover from this have "unat od = last ds" using False unfolding od p(3) by (simp add: unsigned_ucast_eq unat_of_nat take_bit_nat_eq_self)
    moreover have ex: "\<exists>k. 1 \<le> k \<and> k \<le> 13 \<and> \<bar>int (unat out * k) - int (unat infreq)\<bar> < 14" using ds False by blast
    ultimately show ?thesis unfolding if_P [OF ex] using False mux p(4) by (simp del: of_nat_mult)
  qed
qed

lemma si_chip_ready: "si5532_get_state (si_chip (\<lambda>_. 2)) a before h = (Inr (), h)"
proof -
  have "si_poll (si_chip (\<lambda>_. 2)) a (Suc n) 0 h = (Inr 2, h)" for n by (simp add: si_chip_rd dbind_def dreturn_def)
  from this [of 99] show ?thesis by (simp add: si5532_get_state_def dbind_def dreturn_def)
qed

lemma si_chip_programmed:
  "si5332_set_layout (si_chip (\<lambda>_. 2)) a p out old lodiv h = (Inr (), fold (\<lambda>(r, v) h. h(r := v)) (si_layout_regs p out old lodiv) h)"
  by (simp add: si5332_set_layout_def si_chip_ready si_chip_program dseq_def dbind_def)

theorem si5332_layout_plan_witness:
  "(\<exists>p h'. si_layout 26000000 80000000 = Inr p \<and> si5332_set_layout (si_chip (\<lambda>_. 2)) 0 p 80000000 False 1 (\<lambda>_. 0) = (Inr (), h') \<and>
      unat (si_vco p) = 80000000 * unat (h' HSDIV0A_DIV) * unat (h' OUT1_DIV) \<and> unat (si_vco p) < 2625000000) \<and>
   (\<exists>p h'. si_layout 26000000 13000000 = Inr p \<and> si5332_set_layout (si_chip (\<lambda>_. 2)) 0 p 13000000 False 1 (\<lambda>_. 0) = (Inr (), h') \<and>
      \<bar>13000000 * int (unat (h' OUT2_DIV)) - 26000000\<bar> < 14)"
proof (intro conjI)
  note c = si_layout_def si_vco_plan_def si5332_Fvco_min_def si5332_Fvco_max_def si5332_hsdiv_min_def si5332_hsdiv_max_def Let_def
  obtain p where p: "si_layout 26000000 80000000 = Inr p" by (simp add: c upt_rec)
  have "\<not> (\<exists>k. 1 \<le> k \<and> k \<le> 13 \<and> \<bar>int (unat (80000000 :: u32) * k) - int (unat (26000000 :: u32))\<bar> < 14)" by auto
  then show "\<exists>p h'. si_layout 26000000 80000000 = Inr p \<and> si5332_set_layout (si_chip (\<lambda>_. 2)) 0 p 80000000 False 1 (\<lambda>_. 0) = (Inr (), h') \<and>
      unat (si_vco p) = 80000000 * unat (h' HSDIV0A_DIV) * unat (h' OUT1_DIV) \<and> unat (si_vco p) < 2625000000"
    using si5332_layout_plan [OF p si_chip_programmed [where a = 0 and old = False and lodiv = 1 and h = "\<lambda>_. 0"] _ refl refl, of 1] p
    by (auto simp: si_chip_programmed split: if_splits)
  obtain q where q: "si_layout 26000000 13000000 = Inr q" by (simp add: c upt_rec)
  have "\<exists>k. 1 \<le> k \<and> k \<le> 13 \<and> \<bar>int (unat (13000000 :: u32) * k) - int (unat (26000000 :: u32))\<bar> < 14" by (intro exI [of _ 2]) simp
  then show "\<exists>p h'. si_layout 26000000 13000000 = Inr p \<and> si5332_set_layout (si_chip (\<lambda>_. 2)) 0 p 13000000 False 1 (\<lambda>_. 0) = (Inr (), h') \<and>
      \<bar>13000000 * int (unat (h' OUT2_DIV)) - 26000000\<bar> < 14"
    using si5332_layout_plan [OF q si_chip_programmed [where a = 0 and old = False and lodiv = 1 and h = "\<lambda>_. 0"] _ refl refl, of 2] q
    by (auto simp: si_chip_programmed split: if_splits)
qed

text \<open>A chip that never reports a state it knows is taken for started.\<close>

lemma si_state_unknown: "si5532_get_state (\<lambda>rq h. (Inr [0x55], h)) a before h = (Inr (), h)"
proof -
  have "si_poll (\<lambda>rq h. (Inr [0x55], h)) a n st h = (Inr (if n = 0 then st else 0x55), h)" for n st
    by (induction n arbitrary: st) (auto simp: si5332_reg_rd_def drd8_def i2c_tr_def bus_op_def dbind_def dreturn_def fit_def)
  then show ?thesis by (simp add: si5532_get_state_def dbind_def dreturn_def)
qed

text \<open>A clock above 1919.97 MHz divides by 0.\<close>

lemma si_layout_crash: "si_layout 26000000 2000000000 = Inl CRASH_FPE"
  by (simp add: si_layout_def si_vco_plan_def si5332_Fvco_min_def si5332_hsdiv_max_def upt_conv_Cons Let_def)

end
