(* ===== verification/UsdrCtrl.thy ===== *)
theory UsdrCtrl
  imports Lms6002d Si5332
begin

text \<open>
  The uSDR board with an LMS6002D (\<open>src/lib/device/m2_lm6_1/usdr_ctrl.c\<close>): start-up of its supplies and clocks, sample rates,
  the local oscillators with the external mixer, bands, filters and gains. The gain of the first amplifier comes from a
  formula in floating point and is an argument, as is whether the device is to be left without initialisation.
  A frequency is a rational number.
\<close>

section \<open>State\<close>

definition USDR_INT_REFCLK :: u32 where "USDR_INT_REFCLK = 26000000"
definition I2C_BUS_LP8758 :: u32 where "I2C_BUS_LP8758 = MAKE_LSOP_I2C_ADDR 0 0 0x60"
definition I2C_BUS_SI5332A :: u32 where "I2C_BUS_SI5332A = MAKE_LSOP_I2C_ADDR 0 0 0x6a"
definition I2C_BUS_TPS63811 :: u32 where "I2C_BUS_TPS63811 = MAKE_LSOP_I2C_ADDR 0 0 0x75"
definition I2C_BUS_TEMP :: u32 where "I2C_BUS_TEMP = MAKE_LSOP_I2C_ADDR 0 0 0x4e"
definition SPI_LMS6 :: u32 where "SPI_LMS6 = 0"

definition USDR_REV_UNKNOWN :: u32 where "USDR_REV_UNKNOWN = 0"
definition USDR_REV_1 :: u32 where "USDR_REV_1 = 1"
definition USDR_REV_2 :: u32 where "USDR_REV_2 = 2"
definition USDR_REV_3 :: u32 where "USDR_REV_3 = 3"
definition USDR_RX_AUTO :: u8 where "USDR_RX_AUTO = 255"
definition USDR_TX_AUTO :: u8 where "USDR_TX_AUTO = 255"
definition USDR_ENABLE_EXT_MIXER :: u8 where "USDR_ENABLE_EXT_MIXER = 2"
definition RFIC_LMS6_TX :: u32 where "RFIC_LMS6_TX = 1"
definition RFIC_LMS6_RX :: u32 where "RFIC_LMS6_RX = 2"
definition RXPATH_LNA1 :: u8 where "RXPATH_LNA1 = 1"
definition RXPATH_LNA2 :: u8 where "RXPATH_LNA2 = 2"
definition RXPATH_LNA3 :: u8 where "RXPATH_LNA3 = 3"
definition TXPATH_PA1 :: u8 where "TXPATH_PA1 = 1"
definition TXPATH_PA2 :: u8 where "TXPATH_PA2 = 2"

definition UGPO_LMS_RST :: u32 where "UGPO_LMS_RST = 0"
definition UGPO_RXMIX_EN :: u32 where "UGPO_RXMIX_EN = 1"
definition UGPO_TXSW :: u32 where "UGPO_TXSW = 2"
definition UGPO_RXSW :: u32 where "UGPO_RXSW = 3"
definition UGPO_BOOSTER :: u32 where "UGPO_BOOSTER = 7"
definition UGPO_LED :: u32 where "UGPO_LED = 8"
definition UGPO_DCCORR :: u32 where "UGPO_DCCORR = 9"
definition UGPO_ENABLE_OSC :: u32 where "UGPO_ENABLE_OSC = 17"
definition IGPI_USR_ACCESS2 :: u32 where "IGPI_USR_ACCESS2 = 0"

datatype usdrgains = GAIN_RX_LNA | GAIN_RX_VGA1 | GAIN_RX_VGA2 | GAIN_RX_VGA2A | GAIN_RX_VGA2B | GAIN_RX_AUTO | GAIN_TX_VGA1 | GAIN_TX_VGA2 | GAIN_TX_AUTO

record usdr_dev =
  ud_lms :: lms6002d_state
  ud_hwid :: u32
  ud_board_rev :: u32
  ud_hasmixer :: bool
  ud_si_vco_div :: u32
  ud_si_vco_freq :: u32
  ud_refclkpath :: int
  ud_fref :: u32
  ud_rawsamplerate :: u32
  ud_rx_cfg_path :: u8
  ud_tx_cfg_path :: u8
  ud_rx_rfic_path :: u8
  ud_rx_rfic_lna :: u8
  ud_tx_rfic_path :: u8
  ud_tx_rfic_band :: u8
  ud_rx_lo :: u32
  ud_tx_lo :: u32
  ud_rx_lna :: u8
  ud_rx_vga1 :: u8
  ud_rx_vga2a :: u8
  ud_rx_vga2b :: u8
  ud_rx_run :: bool
  ud_tx_run :: bool
  ud_rx_pwren :: bool
  ud_tx_pwren :: bool
  ud_mexir_en :: bool
  ud_mixer_lo :: u32
  ud_rfic_rx_lo :: u32
  ud_tx_bw :: "u32 option"
  ud_rx_bw :: "u32 option"
  ud_cfg_rx :: "freq_auto_band_map list"
  ud_cfg_tx :: "freq_auto_band_map list"

type_synonym ('h, 'a) us = "('h \<times> usdr_dev, 'a) dev"

record 'h usdr_env =
  ue_bus :: "'h bus"
  ue_bare :: bool
  ue_vga1 :: "int \<Rightarrow> u8"

definition on_lms6 :: "('h, 'a) l6 \<Rightarrow> ('h, 'a) us" where
  "on_lms6 op = (\<lambda>(h, d). case op (h, ud_lms d) of (r, (h', l)) \<Rightarrow> (r, (h', d\<lparr>ud_lms := l\<rparr>)))"

definition ugpo :: "'h usdr_env \<Rightarrow> u32 \<Rightarrow> u32 \<Rightarrow> ('h, unit) us" where
  "ugpo E bank v = on_hw (dev_gpo_set (ue_bus E) bank v)"

text \<open>\<open>res = res ? res : ...\<close>: a step that is left out after an error.\<close>

definition unless_err :: "int + unit \<Rightarrow> ('s, unit) dev \<Rightarrow> ('s, int + unit) dev" where
  "unless_err r m = (case r of Inl e \<Rightarrow> dreturn (Inl e) | Inr _ \<Rightarrow> dtry m)"

section \<open>Gain tables\<close>

definition LNA_GAINS :: "(u32 \<times> int \<times> int) list" where
  "LNA_GAINS =
    [(230, 203, 51), (240, 200, 45), (250, 201, 42), (275, 188, 67), (300, 167, 101), (325, 172, 100), (350, 184, 88), (375, 188, 82),
     (400, 188, 79), (425, 187, 77), (450, 185, 76), (475, 182, 75), (500, 181, 74), (600, 177, 71), (700, 172, 68), (800, 162, 66),
     (900, 155, 64), (1000, 152, 61), (1100, 143, 60), (1200, 134, 59), (1300, 129, 58), (1400, 119, 58), (1500, 108, 58), (1600, 103, 56),
     (1700, 99, 55), (1800, 89, 55), (1900, 86, 54), (2000, 88, 53), (2100, 82, 53), (2200, 80, 51), (2300, 85, 51), (2400, 78, 52),
     (2500, 70, 51), (2600, 70, 51), (2700, 61, 52), (2800, 68, 52), (2900, 62, 50), (3000, 62, 50), (3100, 57, 50), (3200, 48, 49),
     (3300, 51, 48), (3400, 48, 48), (3500, 42, 48), (3600, 46, 47), (3700, 47, 46), (3800, 42, 45), (3850, 43, 45)]"

definition lerp :: "int \<Rightarrow> int \<Rightarrow> int \<Rightarrow> int \<Rightarrow> int" where
  "lerp a b imhz dmhz = tdiv ((b - a) * imhz) dmhz + a"

fun lna_between :: "u32 \<Rightarrow> (u32 \<times> int \<times> int) list \<Rightarrow> int \<times> int" where
  "lna_between freq ((f0, a0, b0) # (f1, a1, b1) # rs) =
    (if f1 \<ge> freq then (lerp a0 a1 (uint (freq - f0)) (uint (f1 - f0)), lerp b0 b1 (uint (freq - f0)) (uint (f1 - f0)))
     else lna_between freq ((f1, a1, b1) # rs))"
| "lna_between freq rs = (0, 0)"

definition interpolate_lan_gains :: "u32 \<Rightarrow> int \<times> int" where
  "interpolate_lan_gains freq =
    lna_between (if freq < fst (hd LNA_GAINS) then fst (hd LNA_GAINS) else if freq > fst (last LNA_GAINS) then fst (last LNA_GAINS) else freq) LNA_GAINS"

text \<open>How an overall gain is shared out: the stages of the low-noise amplifier, the two amplifiers and the gain that is reached.\<close>

definition rx_auto_gain :: "u32 \<Rightarrow> int \<Rightarrow> int \<times> int \<times> int \<times> int" where
  "rx_auto_gain mhz gain =
    (let (d1, d2) = interpolate_lan_gains mhz; n = clampi gain 0 85; both = (d1 + d2 + 5) div 10; one = (d1 + 5) div 10;
         (lna, n, actual) = (if n \<ge> both then (2, n - both, both) else if n \<ge> one then (1, n - one, one) else (0, n, 0));
         (vga2a, vga1) = (if n > 25 then ((n - 25 + 5) div 6, n - 6 * ((n - 25 + 5) div 6)) else (0, n))
     in (lna, vga1, vga2a, actual + vga1 + 6 * vga2a))"

section \<open>Switches and power\<close>

definition usdr_set_rx_port_switch :: "'h usdr_env \<Rightarrow> u32 \<Rightarrow> ('h, unit) us" where
  "usdr_set_rx_port_switch E path =
    dbind (dtry (dseq (ugpo E UGPO_RXSW (path AND 1)) (ugpo E UGPO_RXMIX_EN (drop_bit 1 path)))) (\<lambda>r.
      let mixer_en = drop_bit 1 path \<noteq> 0 in
      dbind (dget (\<lambda>d. (ud_mexir_en d, ud_tx_run d))) (\<lambda>(old, tx).
        if mixer_en = old then dlift r
        else dseq (dmod (\<lambda>d. d\<lparr>ud_mexir_en := mixer_en\<rparr>))
          (dbind (unless_err r (on_hw (si5332_set_port3_en (ue_bus E) I2C_BUS_SI5332A mixer_en tx))) dlift)))"

definition usdr_set_tx_port_switch :: "'h usdr_env \<Rightarrow> u32 \<Rightarrow> ('h, unit) us" where
  "usdr_set_tx_port_switch E path = ugpo E UGPO_TXSW path"

definition usdr_set_lna_rx :: "'h usdr_env \<Rightarrow> nat \<Rightarrow> ('h, unit) us" where
  "usdr_set_lna_rx E idx = dbind (dget (\<lambda>d. if idx < length (ud_cfg_rx d) then Some (ud_cfg_rx d ! idx) else None)) (\<lambda>c.
     case c of None \<Rightarrow> dfail OUT_OF_BOUNDS
     | Some cfg \<Rightarrow> dseq (dmod (\<lambda>d. d\<lparr>ud_rx_cfg_path := of_nat idx, ud_rx_rfic_lna := fb_band cfg\<rparr>))
        (dseq (on_lms6 (lms6002d_set_rx_path (ue_bus E) (ucast (fb_band cfg)))) (usdr_set_rx_port_switch E (ucast (fb_sw cfg)))))"

definition usdr_set_lna_tx :: "'h usdr_env \<Rightarrow> nat \<Rightarrow> ('h, unit) us" where
  "usdr_set_lna_tx E idx = dbind (dget (\<lambda>d. if idx < length (ud_cfg_tx d) then Some (ud_cfg_tx d ! idx) else None)) (\<lambda>c.
     case c of None \<Rightarrow> dfail OUT_OF_BOUNDS
     | Some cfg \<Rightarrow> dseq (dmod (\<lambda>d. d\<lparr>ud_tx_cfg_path := of_nat idx, ud_tx_rfic_band := fb_band cfg\<rparr>))
        (dseq (on_lms6 (lms6002d_set_tx_path (ue_bus E) (ucast (fb_band cfg)))) (usdr_set_tx_port_switch E (ucast (fb_sw cfg)))))"

text \<open>The power state is noted whether or not the transceiver could be reached.\<close>

definition usdr_pwr_state :: "'h usdr_env \<Rightarrow> bool \<Rightarrow> bool \<Rightarrow> ('h, unit) us" where
  "usdr_pwr_state E tx enable = dbind (dget (\<lambda>d. if tx then ud_tx_pwren d else ud_rx_pwren d)) (\<lambda>cur.
     if cur = enable then dreturn ()
     else if tx then dbind (dtry (on_lms6 (lms6002d_trf_enable (ue_bus E) enable))) (\<lambda>r. dseq (dmod (\<lambda>d. d\<lparr>ud_tx_pwren := enable\<rparr>)) (dlift r))
     else dbind (dtry (on_lms6 (lms6002d_rfe_enable (ue_bus E) enable))) (\<lambda>r. dseq (dmod (\<lambda>d. d\<lparr>ud_rx_pwren := enable\<rparr>))
       (dbind (unless_err r (on_lms6 (lms6002d_rxvga2_enable (ue_bus E) enable))) dlift)))"

definition usdr_rx_lna_changed :: "'h usdr_env \<Rightarrow> ('h, unit) us" where
  "usdr_rx_lna_changed E = dbind (dget (\<lambda>d. (ud_rx_rfic_path d, get_antenna_cfg_by_freq (ud_rx_lo d) (ud_cfg_rx d)))) (\<lambda>(p, idx).
     if p = USDR_RX_AUTO then usdr_set_lna_rx E idx else dreturn ())"

definition usdr_tx_lna_changed :: "'h usdr_env \<Rightarrow> ('h, unit) us" where
  "usdr_tx_lna_changed E = dbind (dget (\<lambda>d. (ud_tx_rfic_path d, get_antenna_cfg_by_freq (ud_tx_lo d) (ud_cfg_tx d)))) (\<lambda>(p, idx).
     if p = USDR_TX_AUTO then usdr_set_lna_tx E idx else dreturn ())"

definition usdr_rx_lo_changed :: "'h usdr_env \<Rightarrow> ('h, unit) us" where
  "usdr_rx_lo_changed E = dseq (dignore (usdr_pwr_state E False True)) (usdr_rx_lna_changed E)"

definition usdr_tx_lo_changed :: "'h usdr_env \<Rightarrow> ('h, unit) us" where
  "usdr_tx_lo_changed E = dseq (dignore (usdr_pwr_state E True True)) (usdr_tx_lna_changed E)"

definition usdr_samplerate_changed :: "'h usdr_env \<Rightarrow> ('h, unit) us" where
  "usdr_samplerate_changed E = dbind (dget (\<lambda>d. if ud_mexir_en d then
        (if unat (ud_rx_cfg_path d) < length (ud_cfg_rx d) then Inr (fb_band (ud_cfg_rx d ! unat (ud_rx_cfg_path d)) = RXPATH_LNA3) else Inl OUT_OF_BOUNDS)
      else Inr False)) (\<lambda>r. case r of Inl e \<Rightarrow> dfail e
     | Inr False \<Rightarrow> dreturn ()
     | Inr True \<Rightarrow> dseq (dmod (\<lambda>d. d\<lparr>ud_rfic_rx_lo := ud_mixer_lo d + ud_rx_lo d\<rparr>))
        (dbind (dget ud_rfic_rx_lo) (\<lambda>f. on_lms6 (lms6002d_tune_pll (ue_bus E) False f))))"

section \<open>Rates\<close>

text \<open>The oscillator frequency is noted when there is a plan, even if the chip then fails; the mixer frequency and the
  rate are noted in any case.\<close>

definition usdr_set_samplerate_ex :: "'h usdr_env \<Rightarrow> u32 \<Rightarrow> u32 \<Rightarrow> ('h, unit) us" where
  "usdr_set_samplerate_ex E rxrate txrate =
    (let rate = (if rxrate = 0 then txrate else rxrate); freq = push_bit 1 rate in
     dbind (dtry (usdr_pwr_state E False True)) (\<lambda>r.
     dbind (dget (\<lambda>d. (ud_fref d, ud_si_vco_div d, ud_board_rev d \<noteq> USDR_REV_3))) (\<lambda>(fref, vdiv, old).
     dbind (unless_err r (case si_layout fref freq of Inl e \<Rightarrow> dfail e
        | Inr p \<Rightarrow> dseq (dmod (\<lambda>d. d\<lparr>ud_si_vco_freq := si_vco p\<rparr>)) (on_hw (si5332_set_layout (ue_bus E) I2C_BUS_SI5332A p freq old vdiv)))) (\<lambda>r.
     if vdiv = 0 then dfail CRASH_FPE
     else dseq (dmod (\<lambda>d. d\<lparr>ud_mixer_lo := ud_si_vco_freq d div vdiv, ud_rawsamplerate := rate\<rparr>))
       (dbind (dget ud_mexir_en) (\<lambda>mix. dbind (if mix then unless_err r (usdr_samplerate_changed E) else dreturn r) (\<lambda>r.
        dbind (dget (\<lambda>d. ud_rx_bw d = None \<and> rxrate > 1)) (\<lambda>rx. dbind (if rx then unless_err r (on_lms6 (lms6002d_set_bandwidth (ue_bus E) False rxrate)) else dreturn r) (\<lambda>r.
        dbind (dget (\<lambda>d. ud_tx_bw d = None \<and> txrate > 1)) (\<lambda>tx. dbind (if tx then unless_err r (on_lms6 (lms6002d_set_bandwidth (ue_bus E) True txrate)) else dreturn r)
          dlift))))))))))"

text \<open>A quotient of integers as a \<open>float\<close>: exact below \<open>2 ^ 24\<close>, else rounded to even.\<close>

definition float_of_nat :: "nat \<Rightarrow> nat" where
  "float_of_nat q =
    (let e = length (takeWhile (\<lambda>e. q \<ge> 2 ^ (24 + e)) [0..<8]); m = q div 2 ^ e; r = q mod 2 ^ e
     in (if 2 * r > 2 ^ e \<or> 2 * r = 2 ^ e \<and> odd m then m + 1 else m) * 2 ^ e)"

definition usdr_set_lob_freq :: "'h usdr_env \<Rightarrow> u32 \<Rightarrow> ('h, unit) us" where
  "usdr_set_lob_freq E freqlob = dbind (dget (\<lambda>d. (ud_si_vco_freq d, ud_rawsamplerate d, ud_si_vco_div d))) (\<lambda>(vco, rate, old).
     if vco = 0 \<or> rate = 0 then dfail (- EINVAL)
     else if freqlob = 0 then dfail CRASH_FPE
     else let ceff = float_of_nat (unat (vco div freqlob)); dv = of_nat (if ceff < 8 then 8 else ceff) in
       if dv = old then dreturn () else dseq (dmod (\<lambda>d. d\<lparr>ud_si_vco_div := dv\<rparr>)) (usdr_set_samplerate_ex E rate rate))"

definition usdr_rfic_streaming_up :: "'h usdr_env \<Rightarrow> u32 \<Rightarrow> ('h, unit) us" where
  "usdr_rfic_streaming_up E dir =
    dbind (if dir AND RFIC_LMS6_TX \<noteq> 0 then dseq (dmod (\<lambda>d. d\<lparr>ud_tx_run := True\<rparr>)) (dtry (usdr_pwr_state E True True)) else dreturn (Inr ())) (\<lambda>r.
    dbind (if dir AND RFIC_LMS6_RX \<noteq> 0 then dseq (dmod (\<lambda>d. d\<lparr>ud_rx_run := True\<rparr>)) (unless_err r (usdr_pwr_state E False True)) else dreturn r) dlift)"

definition usdr_rfic_streaming_down :: "'h usdr_env \<Rightarrow> u32 \<Rightarrow> ('h, unit) us" where
  "usdr_rfic_streaming_down E dir =
    dbind (if dir AND RFIC_LMS6_TX \<noteq> 0 then dseq (dmod (\<lambda>d. d\<lparr>ud_tx_run := False\<rparr>)) (dtry (usdr_pwr_state E True False)) else dreturn (Inr ())) (\<lambda>r.
    dbind (if dir AND RFIC_LMS6_RX \<noteq> 0 then dseq (dmod (\<lambda>d. d\<lparr>ud_rx_run := False\<rparr>)) (unless_err r (usdr_pwr_state E False False)) else dreturn r) dlift)"

definition usdr_set_extref :: "'h usdr_env \<Rightarrow> bool \<Rightarrow> u32 \<Rightarrow> ('h, unit) us" where
  "usdr_set_extref E ext freq =
    dseq (dmod (\<lambda>d. let f = (if ext then freq else USDR_INT_REFCLK) in d\<lparr>ud_fref := f, ud_lms := ud_lms d\<lparr>l6_fref := f\<rparr>\<rparr>))
      (on_hw (si5532_set_ext_clock_sw (ue_bus E) I2C_BUS_SI5332A ext))"

section \<open>Start and end\<close>

definition lms6_zero :: lms6002d_state where
  "lms6_zero = \<lparr>l6_lsaddr = 0, l6_fref = 0, l6_rclpfcal = replicate LPF_BANDS 0, l6_top_encfg = 0, l6_top_enreg = 0, l6_rxpll_vco_div_bufsel = 0,
     l6_rfe_in1sel_dci = 0, l6_rfe_gain_lna_sel = 0\<rparr>"

definition usdr_ctor :: usdr_dev where
  "usdr_ctor = \<lparr>ud_lms = lms6_zero, ud_hwid = 0, ud_board_rev = 0, ud_hasmixer = False, ud_si_vco_div = 0, ud_si_vco_freq = 0, ud_refclkpath = 0,
     ud_fref = 0, ud_rawsamplerate = 0, ud_rx_cfg_path = 255, ud_tx_cfg_path = 255, ud_rx_rfic_path = USDR_RX_AUTO, ud_rx_rfic_lna = 0,
     ud_tx_rfic_path = USDR_TX_AUTO, ud_tx_rfic_band = 0, ud_rx_lo = 0, ud_tx_lo = 0, ud_rx_lna = 0, ud_rx_vga1 = 0, ud_rx_vga2a = 0,
     ud_rx_vga2b = 0, ud_rx_run = False, ud_tx_run = False, ud_rx_pwren = False, ud_tx_pwren = False, ud_mexir_en = False, ud_mixer_lo = 0,
     ud_rfic_rx_lo = 0, ud_tx_bw = None, ud_rx_bw = None, ud_cfg_rx = replicate 3 (fbm 0 0 0 0 '''' ''''), ud_cfg_tx = replicate 2 (fbm 0 0 0 0 '''' '''')\<rparr>"

definition usdr_rx_bands :: "bool \<Rightarrow> freq_auto_band_map list" where
  "usdr_rx_bands mixer = [fbm 230000000 RXPATH_LNA3 (if mixer then 1 OR USDR_ENABLE_EXT_MIXER else 1) 1 ''LNAL'' ''EXT'',
     fbm 2800000000 RXPATH_LNA1 0 0 ''LNAW'' ''W'', fbm 4000000000 RXPATH_LNA2 1 1 ''LNAH'' ''H'']"

definition usdr_tx_bands :: "freq_auto_band_map list" where
  "usdr_tx_bands = [fbm 2800000000 TXPATH_PA1 1 1 ''W'' ''B1'', fbm 4000000000 TXPATH_PA2 0 0 ''H'' ''B2'']"

definition usdr_supplies :: "'h bus \<Rightarrow> ('h, unit) dev" where
  "usdr_supplies bus = dlist [lp8758_ss bus I2C_BUS_LP8758 False, lp8758_vout_set bus I2C_BUS_LP8758 1 1800,
     lp8758_vout_ctrl bus I2C_BUS_LP8758 0 True True, lp8758_vout_ctrl bus I2C_BUS_LP8758 1 True True,
     lp8758_vout_ctrl bus I2C_BUS_LP8758 2 True True, lp8758_vout_ctrl bus I2C_BUS_LP8758 3 True True,
     tps6381x_init bus I2C_BUS_TPS63811 True True 3450]"

text \<open>On the third revision the result of starting the clock generator is lost.\<close>

definition usdr_clocks :: "'h usdr_env \<Rightarrow> u32 \<Rightarrow> int \<Rightarrow> ('h, int + unit) us" where
  "usdr_clocks E brev ext_clk = (let bus = ue_bus E; r3 = brev = USDR_REV_3 in
     dbind (dtry (on_hw (si5332_init bus I2C_BUS_SI5332A 1 (if ext_clk = - 1 then \<not> r3 else ext_clk \<noteq> 0) r3))) (\<lambda>r.
       if r3 then dtry (ugpo E UGPO_ENABLE_OSC (if ext_clk = 1 then 0 else 1)) else dreturn r))"

definition usdr_rfic_start :: "'h usdr_env \<Rightarrow> int + unit \<Rightarrow> ('h, unit) us" where
  "usdr_rfic_start E r =
    dseq (dlift r) (dseq (dlist [ugpo E UGPO_BOOSTER 1, ugpo E UGPO_LED 1, ugpo E UGPO_LMS_RST 1])
    (dseq (on_hw (spi_tr32_rd (ue_bus E) SPI_LMS6 0x0400)) (on_lms6 (lms6002d_create (ue_bus E) SPI_LMS6))))"

definition usdr_rfic_config :: "'h usdr_env \<Rightarrow> ('h, unit) us" where
  "usdr_rfic_config E = (let bus = ue_bus E in
    dbind (dget (\<lambda>d. (ud_cfg_rx d ! 1, ud_cfg_tx d ! 0))) (\<lambda>(rx, tx).
     dlist [on_lms6 (lms6002d_trf_enable bus False), on_lms6 (lms6002d_rfe_enable bus False), ugpo E UGPO_RXMIX_EN 0,
       usdr_set_rx_port_switch E (ucast (fb_sw rx)), usdr_set_tx_port_switch E (ucast (fb_sw tx)),
       on_lms6 (lms6002d_set_rx_path bus (ucast (fb_band rx))), on_lms6 (lms6002d_set_tx_path bus (ucast (fb_band tx))), ugpo E UGPO_DCCORR 1]))"

definition usdr_init :: "'h usdr_env \<Rightarrow> int \<Rightarrow> u32 \<Rightarrow> ('h, unit) us" where
  "usdr_init E ext_clk ext_fref = (let bus = ue_bus E in
    dseq (dmod (\<lambda>d. d\<lparr>ud_refclkpath := ext_clk, ud_fref := (if ext_clk \<noteq> 0 \<and> ext_fref \<noteq> 0 then ext_fref else USDR_INT_REFCLK),
        ud_cfg_rx := usdr_rx_bands False, ud_cfg_tx := usdr_tx_bands\<rparr>))
   (dbind (on_hw (dev_gpi_get32 bus IGPI_USR_ACCESS2)) (\<lambda>_. dbind (on_hw (dev_gpi_get32 bus IGPI_HWID)) (\<lambda>hwid.
      let brev = drop_bit 8 hwid AND 0xff; known = (brev = USDR_REV_1 \<or> brev = USDR_REV_2 \<or> brev = USDR_REV_3) in
      dseq (dmod (\<lambda>d. d\<lparr>ud_hwid := hwid, ud_si_vco_div := 8, ud_hasmixer := known, ud_board_rev := brev\<rparr>))
     (if \<not> known \<and> \<not> ue_bare E then dfail (- ENOTSUP)
      else dseq (dmod (\<lambda>d. d\<lparr>ud_board_rev := if known then brev else USDR_REV_UNKNOWN, ud_cfg_rx := usdr_rx_bands known\<rparr>))
       (dseq (ugpo E UGPO_LMS_RST 0)
        (if ue_bare E then dignore (ugpo E UGPO_LED 1)
         else dseq (if brev = USDR_REV_3 then dvoid (on_hw (tmp114_devid_get bus I2C_BUS_TEMP)) else dreturn ())
          (dbind (on_hw (lp8758_get_rev bus I2C_BUS_LP8758)) (\<lambda>prev.
             if prev \<noteq> 0xe001 then dfail (- EFAULT)
             else dseq (on_hw (usdr_supplies bus))
              (dbind (usdr_clocks E brev ext_clk) (\<lambda>r.
               dbind (dtry (usdr_rfic_start E r)) (\<lambda>r. case r of
                  Inl e \<Rightarrow> dseq (dlist [dignore (ugpo E UGPO_LED 0), dignore (ugpo E UGPO_LMS_RST 0), dignore (ugpo E UGPO_BOOSTER 0)]) (dfail e)
                | Inr _ \<Rightarrow> dseq (dmod (\<lambda>d. d\<lparr>ud_lms := ud_lms d\<lparr>l6_fref := ud_fref d\<rparr>\<rparr>)) (usdr_rfic_config E)))))))))))))"

definition usdr_dtor :: "'h usdr_env \<Rightarrow> ('h, unit) us" where
  "usdr_dtor E = dlist [dignore (ugpo E UGPO_LMS_RST 0), dignore (ugpo E UGPO_LED 0), dignore (ugpo E UGPO_BOOSTER 0)]"

section \<open>Calibration, frequencies, filters and gains\<close>

definition usdr_lms6002_dc_calib :: "'h usdr_env \<Rightarrow> ('h, unit) us" where
  "usdr_lms6002_dc_calib E = (let bus = ue_bus E in
     on_lms6 (dlist ([lms6002d_cal_lpf bus] @ map (\<lambda>i. lms6002d_cal_lpf_bandwidth bus (of_nat i)) [0..<16] @
       [lms6002d_cal_txrxlpfdc bus True, lms6002d_set_rx_extterm bus True, lms6002d_cal_txrxlpfdc bus False, lms6002d_cal_vga2 bus,
        lms6002d_set_rx_extterm bus False])))"

definition usdr_calib_dc :: "'h usdr_env \<Rightarrow> ('h, unit) us" where
  "usdr_calib_dc E = usdr_lms6002_dc_calib E"

text \<open>The frequency is noted as that of the receiver for a transmitter as well.\<close>

definition usdr_rfic_fe_set_freq :: "'h usdr_env \<Rightarrow> bool \<Rightarrow> rat \<Rightarrow> ('h, unit) us" where
  "usdr_rfic_fe_set_freq E dir_tx freq =
    dbind (dget (\<lambda>d. ud_tx_lo d = 0)) (\<lambda>first_tx. dbind (dlift (to_unsigned freq)) (\<lambda>f.
     dseq (dmod (\<lambda>d. if dir_tx then d\<lparr>ud_tx_lo := f\<rparr> else d\<lparr>ud_rx_lo := f\<rparr>))
    (dseq (dignore (if dir_tx then usdr_tx_lo_changed E else usdr_rx_lo_changed E))
    (dbind (dget (\<lambda>d. if ud_mexir_en d \<and> \<not> dir_tx then freq + of_nat (unat (ud_mixer_lo d)) else freq)) (\<lambda>x. dbind (dlift (to_unsigned x)) (\<lambda>f.
     dseq (dmod (\<lambda>d. d\<lparr>ud_rfic_rx_lo := f\<rparr>))
    (dbind (dtry (on_lms6 (lms6002d_tune_pll (ue_bus E) dir_tx f))) (\<lambda>r.
       if r = Inl (- ENOLCK)
       then dbind (dget (\<lambda>d. dir_tx \<and> first_tx \<and> ud_rx_lo d = 0)) (\<lambda>again.
          dseq (if again then dignore (on_lms6 (lms6002d_tune_pll (ue_bus E) False f)) else dreturn ())
            (on_lms6 (lms6002d_tune_pll (ue_bus E) dir_tx f)))
       else dlift r))))))))"

definition usdr_rfic_bb_set_badwidth :: "'h usdr_env \<Rightarrow> bool \<Rightarrow> u32 \<Rightarrow> ('h, unit) us" where
  "usdr_rfic_bb_set_badwidth E dir_tx bw = dseq (dmod (\<lambda>d. if dir_tx then d\<lparr>ud_tx_bw := Some bw\<rparr> else d\<lparr>ud_rx_bw := Some bw\<rparr>))
     (on_lms6 (lms6002d_set_bandwidth (ue_bus E) dir_tx bw))"

definition vga2ab :: "'h usdr_env \<Rightarrow> ('h, unit) us" where
  "vga2ab E = dbind (dget (\<lambda>d. (ud_rx_vga2a d, ud_rx_vga2b d))) (\<lambda>(a, b). on_lms6 (lms6002d_set_rxvga2ab_gain (ue_bus E) (ucast a) (ucast b)))"

definition usdr_rfic_set_gain :: "'h usdr_env \<Rightarrow> usdrgains option \<Rightarrow> int \<Rightarrow> ('h, int) us" where
  "usdr_rfic_set_gain E gain_type gain = (let bus = ue_bus E; with = (\<lambda>m (n :: int). dseq m (dreturn n)) in
    case gain_type of
      Some GAIN_RX_AUTO \<Rightarrow> dbind (dget (\<lambda>d. rx_auto_gain (ud_rx_lo d div 1000000) gain)) (\<lambda>(lna, vga1, vga2a, actual).
        dseq (dmod (\<lambda>d. d\<lparr>ud_rx_lna := of_int lna, ud_rx_vga1 := of_int vga1, ud_rx_vga2a := of_int vga2a, ud_rx_vga2b := 0\<rparr>))
       (dseq (on_lms6 (lms6002d_set_rxlna_gain bus (1 + of_int lna)))
       (dseq (on_lms6 (lms6002d_set_rxvga1_gain bus (scast (ue_vga1 E (5 + vga1))))) (with (vga2ab E) actual))))
    | Some GAIN_RX_LNA \<Rightarrow> let (n, v) = (if gain \<ge> 6 then (6, 3) else if gain \<ge> 3 then (3, 2) else (0, 1)) in
        with (on_lms6 (lms6002d_set_rxlna_gain bus v)) n
    | Some GAIN_RX_VGA1 \<Rightarrow> let n = clampi gain 5 31 in with (on_lms6 (lms6002d_set_rxvga1_gain bus (scast (ue_vga1 E n)))) n
    | Some GAIN_RX_VGA2 \<Rightarrow> let n = clampi gain 0 30 in
        dseq (dmod (\<lambda>d. d\<lparr>ud_rx_vga2a := of_int (n div 3), ud_rx_vga2b := 0\<rparr>)) (with (vga2ab E) n)
    | Some GAIN_RX_VGA2A \<Rightarrow> let n = clampi gain 0 30 in dseq (dmod (\<lambda>d. d\<lparr>ud_rx_vga2a := of_int (n div 3)\<rparr>)) (with (vga2ab E) n)
    | Some GAIN_RX_VGA2B \<Rightarrow> let n = clampi gain 0 30 in dseq (dmod (\<lambda>d. d\<lparr>ud_rx_vga2b := of_int (n div 3)\<rparr>)) (with (vga2ab E) n)
    | Some GAIN_TX_VGA1 \<Rightarrow> let n = clampi gain (- 35) (- 4) in with (on_lms6 (lms6002d_set_txvga1_gain bus (of_int (n + 35)))) n
    | Some GAIN_TX_AUTO \<Rightarrow> let n = clampi gain 0 25 in with (on_lms6 (lms6002d_set_txvga2_gain bus (of_int n))) n
    | Some GAIN_TX_VGA2 \<Rightarrow> let n = clampi gain 0 25 in with (on_lms6 (lms6002d_set_txvga2_gain bus (of_int n))) n
    | None \<Rightarrow> dfail (- EINVAL))"

definition usdr_rfic_fe_set_rxlna :: "'h usdr_env \<Rightarrow> string \<Rightarrow> ('h, unit) us" where
  "usdr_rfic_fe_set_rxlna E lna = dbind (dget (\<lambda>d. get_antenna_cfg_by_name lna (ud_cfg_rx d))) (\<lambda>r. case r of
     None \<Rightarrow> dseq (dmod (\<lambda>d. d\<lparr>ud_rx_rfic_path := USDR_RX_AUTO\<rparr>)) (usdr_rx_lna_changed E)
   | Some i \<Rightarrow> dseq (dmod (\<lambda>d. d\<lparr>ud_rx_rfic_path := of_nat i\<rparr>)) (usdr_set_lna_rx E (unat (of_nat i :: u8))))"

definition usdr_gettemp :: "'h usdr_env \<Rightarrow> ('h, int) us" where
  "usdr_gettemp E = on_hw (tmp114_temp_get (ue_bus E) I2C_BUS_TEMP)"

section \<open>Sharing out a gain\<close>

lemma tdiv_step:
  assumes "0 \<le> i" "i \<le> n" "0 < n"
  shows "min a b \<le> lerp a b i n" and "lerp a b i n \<le> max a b"
proof -
  have "min a b \<le> lerp a b i n \<and> lerp a b i n \<le> max a b"
  proof (cases "a \<le> b")
    case True
    have "(b - a) * i \<le> (b - a) * n" using True assms by (intro mult_left_mono) auto
    then have "(b - a) * i div n \<le> (b - a)" using assms(3) zdiv_mono1 [of "(b - a) * i" "(b - a) * n" n] by simp
    moreover have nn: "0 \<le> (b - a) * i" using True assms by simp
    then have "\<not> (b - a) * i < 0" "0 \<le> (b - a) * i div n" using assms(3) by (simp_all add: pos_imp_zdiv_nonneg_iff)
    ultimately show ?thesis using True by (simp add: lerp_def tdiv_def)
  next
    case False
    have "(a - b) * i \<le> (a - b) * n" using False assms by (intro mult_left_mono) auto
    then have le: "(a - b) * i div n \<le> (a - b)" using assms(3) zdiv_mono1 [of "(a - b) * i" "(a - b) * n" n] by simp
    have nn: "0 \<le> (a - b) * i" using False assms by simp
    have e: "- ((b - a) * i) = (a - b) * i" by (simp add: algebra_simps)
    have z: "(b - a) * i < 0 \<or> (b - a) * i = 0" using nn e by linarith
    have t: "tdiv ((b - a) * i) n = - ((a - b) * i div n)"
      using z e by (auto simp: tdiv_def)
    have "0 \<le> (a - b) * i div n" using nn assms(3) by (simp add: pos_imp_zdiv_nonneg_iff)
    then show ?thesis using False le by (simp add: lerp_def t)
  qed
  then show "min a b \<le> lerp a b i n" and "lerp a b i n \<le> max a b" by auto
qed

text \<open>Between two lines of the table the gains lie between those of the lines.\<close>

lemma lna_between_bounds:
  assumes "sorted (map (\<lambda>r. unat (fst r)) rs)" "distinct (map fst rs)" "2 \<le> length rs"
    and "unat (fst (hd rs)) \<le> unat f" "unat f \<le> unat (fst (last rs))"
    and "\<forall>r\<in>set rs. A \<le> fst (snd r) \<and> fst (snd r) \<le> A' \<and> B \<le> snd (snd r) \<and> snd (snd r) \<le> B'"
  shows "A \<le> fst (lna_between f rs) \<and> fst (lna_between f rs) \<le> A' \<and> B \<le> snd (lna_between f rs) \<and> snd (lna_between f rs) \<le> B'"
  using assms
proof (induction f rs rule: lna_between.induct)
  case (1 freq f0 a0 b0 f1 a1 b1 rs)
  show ?case
  proof (cases "f1 \<ge> freq")
    case True
    have o: "unat f0 \<le> unat freq" "unat freq \<le> unat f1" using "1.prems"(4) True by (auto simp: word_le_nat_alt)
    have d: "f0 \<noteq> f1" using "1.prems"(2) by simp
    then have "unat f0 \<noteq> unat f1" by (simp add: word_unat_eq_iff)
    then have lt: "unat f0 < unat f1" using o by linarith
    have u: "uint y \<le> uint x \<Longrightarrow> uint (x - y) = uint x - uint y" for x y :: "32 word" by (simp add: uint_sub_lem)
    have n: "uint f0 = int (unat f0)" "uint freq = int (unat freq)" "uint f1 = int (unat f1)" by (rule uint_nat)+
    have i: "uint (freq - f0) = int (unat freq) - int (unat f0)" "uint (f1 - f0) = int (unat f1) - int (unat f0)"
      using u [of f0 freq] u [of f0 f1] o n by linarith+
    define p q where "p = int (unat freq) - int (unat f0)" and "q = int (unat f1) - int (unat f0)"
    have pq: "0 \<le> p" "p \<le> q" "0 < q" unfolding p_def q_def using o lt by linarith+
    have v: "lna_between freq ((f0, a0, b0) # (f1, a1, b1) # rs) = (lerp a0 a1 p q, lerp b0 b1 p q)" using True by (simp add: i p_def q_def)
    have "A \<le> min a0 a1" "max a0 a1 \<le> A'" "B \<le> min b0 b1" "max b0 b1 \<le> B'" using "1.prems"(6) by simp_all
    then show ?thesis unfolding v fst_conv snd_conv
      using tdiv_step [OF pq, of a0 a1] tdiv_step [OF pq, of b0 b1] by linarith
  next
    case False
    have l: "2 \<le> length ((f1, a1, b1) # rs)"
    proof (cases rs)
      case Nil then show ?thesis using False "1.prems"(5) by (simp add: word_le_nat_alt)
    qed simp
    have "unat f1 \<le> unat freq" using False by (simp add: word_le_nat_alt)
    then show ?thesis using "1.IH" [OF False _ _ l] False "1.prems" by simp
  qed
qed auto

lemma lna_gains_bounds: "42 \<le> fst (interpolate_lan_gains mhz) \<and> fst (interpolate_lan_gains mhz) \<le> 203 \<and>
   42 \<le> snd (interpolate_lan_gains mhz) \<and> snd (interpolate_lan_gains mhz) \<le> 101"
  unfolding interpolate_lan_gains_def
  by (rule lna_between_bounds) (auto simp: LNA_GAINS_def word_less_nat_alt)

text \<open>How the overall gain of the receiver is shared out among the stages, with a step of the second amplifier counted as 6 dB as
  the code does (\<open>lms6002d.h\<close> gives 3 dB for it): the stages sum up to the gain asked for, cut to 0 to 85 dB.\<close>

lemma rx_auto_gain_sum:
  "(case rx_auto_gain mhz gain of (lna, vga1, vga2a, actual) \<Rightarrow>
     actual = clampi gain 0 85 \<and> 0 \<le> vga1 \<and> vga1 \<le> 25 \<and> 0 \<le> vga2a \<and> vga2a \<le> 10 \<and> lna \<in> {0, 1, 2} \<and>
     (let (d1, d2) = interpolate_lan_gains mhz in
       vga1 + 6 * vga2a + (if lna = 2 then (d1 + d2 + 5) div 10 else if lna = 1 then (d1 + 5) div 10 else 0) = actual))"
proof -
  obtain d1 d2 where d: "interpolate_lan_gains mhz = (d1, d2)" by (cases "interpolate_lan_gains mhz")
  have b: "42 \<le> d1" "d1 \<le> 203" "42 \<le> d2" "d2 \<le> 101" using lna_gains_bounds [of mhz] by (simp_all add: d)
  define n where "n = clampi gain 0 85"
  have n: "0 \<le> n" "n \<le> 85" by (auto simp: n_def clampi_def)
  have q: "8 \<le> (d1 + d2 + 5) div 10" "4 \<le> (d1 + 5) div 10" "(d1 + 5) div 10 \<le> (d1 + d2 + 5) div 10" using b by linarith+
  have s: "0 \<le> (m - 25 + 5) div 6 \<and> (m - 25 + 5) div 6 \<le> 10 \<and> 20 \<le> m - 6 * ((m - 25 + 5) div 6) \<and> m - 6 * ((m - 25 + 5) div 6) \<le> 25"
    if "25 < m" "m \<le> 85" for m :: int using that by presburger
  consider "n \<ge> (d1 + d2 + 5) div 10" | "n < (d1 + d2 + 5) div 10" "n \<ge> (d1 + 5) div 10" | "n < (d1 + d2 + 5) div 10" "n < (d1 + 5) div 10" by linarith
  then show ?thesis
  proof cases
    case 1
    then show ?thesis using n q s [of "n - (d1 + d2 + 5) div 10"] by (auto simp: rx_auto_gain_def d n_def [symmetric] Let_def)
  next
    case 2
    then show ?thesis using n q s [of "n - (d1 + 5) div 10"] by (auto simp: rx_auto_gain_def d n_def [symmetric] Let_def)
  next
    case 3
    then show ?thesis using n q s [of n] by (auto simp: rx_auto_gain_def d n_def [symmetric] Let_def)
  qed
qed

section \<open>Power\<close>

text \<open>The calls of the board's control in any order.\<close>

datatype usdr_call = U_set_samplerate u32 u32 | U_set_lob_freq u32 | U_streaming_up u32 | U_streaming_down u32 | U_set_extref bool u32
  | U_calib_dc | U_fe_set_freq bool rat | U_bb_set_badwidth bool u32 | U_set_gain "usdrgains option" int | U_fe_set_rxlna string | U_gettemp | U_dtor

fun usdr_run :: "'h usdr_env \<Rightarrow> usdr_call \<Rightarrow> ('h, unit) us" where
  "usdr_run E (U_set_samplerate r t) = usdr_set_samplerate_ex E r t"
| "usdr_run E (U_set_lob_freq f) = usdr_set_lob_freq E f"
| "usdr_run E (U_streaming_up d) = usdr_rfic_streaming_up E d"
| "usdr_run E (U_streaming_down d) = usdr_rfic_streaming_down E d"
| "usdr_run E (U_set_extref e f) = usdr_set_extref E e f"
| "usdr_run E U_calib_dc = usdr_calib_dc E"
| "usdr_run E (U_fe_set_freq tx f) = usdr_rfic_fe_set_freq E tx f"
| "usdr_run E (U_bb_set_badwidth tx b) = usdr_rfic_bb_set_badwidth E tx b"
| "usdr_run E (U_set_gain t g) = dvoid (usdr_rfic_set_gain E t g)"
| "usdr_run E (U_fe_set_rxlna l) = usdr_rfic_fe_set_rxlna E l"
| "usdr_run E U_gettemp = dvoid (usdr_gettemp E)"
| "usdr_run E U_dtor = usdr_dtor E"

text \<open>What holds of a driver's state after a program, whatever its result.\<close>

definition leaves :: "('m \<Rightarrow> bool) \<Rightarrow> ('h \<times> 'm, 'a) dev \<Rightarrow> ('m \<Rightarrow> bool) \<Rightarrow> bool" where
  "leaves P op Q \<longleftrightarrow> (\<forall>s x s'. op s = (x, s') \<longrightarrow> P (snd s) \<longrightarrow> Q (snd s'))"

abbreviation pres :: "('m \<Rightarrow> bool) \<Rightarrow> ('h \<times> 'm, 'a) dev \<Rightarrow> bool" where
  "pres P op \<equiv> leaves P op P"

named_theorems pres_rules

lemma leaves_bind: "leaves P m M \<Longrightarrow> (\<And>a. leaves M (k a) Q) \<Longrightarrow> (\<And>m. M m \<Longrightarrow> Q m) \<Longrightarrow> leaves P (dbind m k) Q"
  unfolding leaves_def by (metis (no_types, lifting) dbind_cases)

lemma leaves_seq: "leaves P m M \<Longrightarrow> leaves M k Q \<Longrightarrow> (\<And>m. M m \<Longrightarrow> Q m) \<Longrightarrow> leaves P (dseq m k) Q"
  unfolding dseq_def by (rule leaves_bind)

lemma leaves_get: "(\<And>a. leaves (\<lambda>m. P m \<and> f m = a) (k a) Q) \<Longrightarrow> leaves P (dbind (dget f) k) Q"
  by (auto simp: leaves_def dbind_def dget_def)

lemma leaves_try: "leaves P m M \<Longrightarrow> (\<And>r. leaves M (k r) Q) \<Longrightarrow> leaves P (dbind (dtry m) k) Q"
  unfolding leaves_def dbind_def dtry_def by (auto split: prod.splits sum.splits)

lemma leaves_mod: "(\<And>m. P m \<Longrightarrow> Q (f m)) \<Longrightarrow> leaves P (dmod f) Q"
  by (auto simp: leaves_def dmod_def)

lemma leaves_mod_seq: "leaves M k Q \<Longrightarrow> (\<And>m. P m \<Longrightarrow> M (f m)) \<Longrightarrow> leaves P (dseq (dmod f) k) Q"
  by (auto simp: leaves_def dmod_def dseq_def dbind_def)

lemma leaves_if: "leaves P m Q \<Longrightarrow> leaves P k Q \<Longrightarrow> leaves P (if b then m else k) Q"
  by simp

lemma leaves_mono: "leaves P op Q \<Longrightarrow> (\<And>m. P' m \<Longrightarrow> P m) \<Longrightarrow> (\<And>m. Q m \<Longrightarrow> Q' m) \<Longrightarrow> leaves P' op Q'"
  unfolding leaves_def by blast

lemma pres_bind [pres_rules]: "pres P m \<Longrightarrow> (\<And>a. pres P (k a)) \<Longrightarrow> pres P (dbind m k)"
  by (rule leaves_bind)

lemma pres_seq [pres_rules]: "pres P m \<Longrightarrow> pres P k \<Longrightarrow> pres P (dseq m k)"
  by (rule leaves_seq)

lemma pres_basic [pres_rules]: "pres P (dreturn a)" "pres P (dfail e)" "pres P (dget g)" "pres P (dlift r)" "pres P (Pair (Inr b))" "pres P (Pair (Inl e'))" "pres P (on_hw op)"
  by (auto simp: leaves_def dlift_def dreturn_def dfail_def dget_def on_hw_def split: prod.splits sum.splits)

lemma pres_if [pres_rules]: "pres P m \<Longrightarrow> pres P k \<Longrightarrow> pres P (if b then m else k)"
  by simp

lemma pres_try [pres_rules]: "pres P m \<Longrightarrow> pres P (dtry m)"
  unfolding leaves_def dtry_def by (auto split: prod.splits)

lemma pres_code [pres_rules]: "pres P m \<Longrightarrow> pres P (dcode m)"
  unfolding leaves_def dcode_def by (auto split: prod.splits sum.splits)

lemma pres_ignore [pres_rules]: "pres P m \<Longrightarrow> pres P (dignore m)"
  unfolding dignore_def by (intro pres_rules)

lemma pres_void [pres_rules]: "pres P m \<Longrightarrow> pres P (dvoid m)"
  unfolding dvoid_def by (intro pres_rules)

lemma pres_unless [pres_rules]: "pres P m \<Longrightarrow> pres P (unless_err r m)"
  unfolding unless_err_def by (auto intro!: pres_rules split: sum.splits)

lemma pres_list: "(\<And>m. m \<in> set ms \<Longrightarrow> pres P m) \<Longrightarrow> pres P (dlist ms)"
  by (induction ms) (auto intro!: pres_rules)

lemma pres_mod: "(\<And>m. P m \<Longrightarrow> P (f m)) \<Longrightarrow> pres P (dmod f)"
  by (rule leaves_mod)

text \<open>Whether the transmitter and the receiver are enabled in the driver's copy.\<close>

definition enb :: "lms6002d_state \<Rightarrow> bool \<times> bool" where
  "enb l = (fget TOP_ENCFG_STXEN (l6_top_encfg l) \<noteq> 0, fget TOP_ENCFG_SRXEN (l6_top_encfg l) \<noteq> 0)"

abbreviation quiet6 :: "bool \<times> bool \<Rightarrow> ('h, 'a) l6 \<Rightarrow> bool" where
  "quiet6 v op \<equiv> pres (\<lambda>l. enb l = v) op"

lemma quiet_mod [pres_rules]: "(\<And>l. l6_top_encfg (f l) = l6_top_encfg l) \<Longrightarrow> quiet6 v (dmod f)"
  by (rule pres_mod) (simp add: enb_def)

lemma quiet_send [pres_rules]: "quiet6 v (lms6002d_spi_post bus rs)" "quiet6 v (lms6_send bus f)" "quiet6 v (lms6002d_spi_rd bus a)" "quiet6 v (set_enreg fl x)"
  unfolding lms6_send_def lms6002d_spi_post_def lms6002d_spi_rd_def set_enreg_def by (auto intro!: pres_rules)

lemma quiet_bisect: "(\<And>i. quiet6 v (f i)) \<Longrightarrow> quiet6 v (cap6_bisect f js i)"
  by (induction js arbitrary: i) (auto intro!: pres_rules)

lemma quiet_scan: "(\<And>i. quiet6 v (f i)) \<Longrightarrow> quiet6 v (cap6_scan f n i lo hi)"
  by (induction n arbitrary: i lo hi) (auto intro!: pres_rules)

lemma quiet_ratio: "quiet6 v (ratio_read bus tx ks)"
  by (induction ks) (auto intro!: pres_rules simp: rd_or_0_def)

lemma quiet_try_cap: "quiet6 v (cap6_try bus tx i)"
  unfolding cap6_try_def lms6002d_get_comp_def by (intro pres_rules)

lemma quiet_tune [pres_rules]: "quiet6 v (lms6002d_tune_pll bus tx f)"
  unfolding lms6002d_tune_pll_def Let_def lms6002d_find_vcocap_def
  by (auto simp del: ratio_read.simps intro!: pres_rules quiet_ratio quiet_bisect quiet_scan quiet_try_cap split: prod.splits sum.splits)

lemma quiet_calls [pres_rules]:
  "quiet6 v (lms6002d_set_bandwidth bus tx u)" "quiet6 v (lms6002d_set_rxlna_gain bus g)" "quiet6 v (lms6002d_set_rxvga1_gain bus g)"
  "quiet6 v (lms6002d_set_txvga1_gain bus g)" "quiet6 v (lms6002d_set_txvga2_gain bus g)" "quiet6 v (lms6002d_set_rxvga2ab_gain bus g g')"
  "quiet6 v (lms6002d_set_rx_extterm bus e)" "quiet6 v (lms6002d_set_rx_path bus p)" "quiet6 v (lms6002d_set_tx_path bus p)"
  "quiet6 v (lms6002d_rxvga2_enable bus e)"
  unfolding lms6002d_set_bandwidth_def lms6002d_set_rxlna_gain_def lms6002d_set_rxvga1_gain_def lms6002d_set_txvga1_gain_def
    lms6002d_set_txvga2_gain_def lms6002d_set_rxvga2ab_gain_def lms6002d_set_rx_extterm_def lms6002d_set_rx_path_def lms6002d_set_tx_path_def
    lms6002d_rxvga2_enable_def
  by (intro pres_rules; simp)+

lemma quiet_poll: "quiet6 v (dc_poll bus r a n)"
  by (induction n) (auto intro!: pres_rules simp: Let_def)

lemma quiet_cal [pres_rules]: "quiet6 v (lms6002d_cal_lpf bus)" "quiet6 v (lms6002d_cal_txrxlpfdc bus tx)" "quiet6 v (lms6002d_cal_vga2 bus)"
  unfolding lms6002d_cal_lpf_def lms6002d_cal_txrxlpfdc_def lms6002d_cal_vga2_def lms6002d_calibration_loop_def Let_def
  by (auto intro!: pres_rules quiet_poll pres_list split: sum.splits)

lemma enb_set:
  "enb (l6_top_encfg_update (fset TOP_ENCFG_STXEN (of_bool b)) l) = (b, snd (enb l))"
  "enb (l6_top_encfg_update (fset TOP_ENCFG_SRXEN (of_bool b)) l) = (fst (enb l), b)"
  by (simp_all add: enb_def fget_fset fget_fset_other TOP_ENCFG_STXEN_def TOP_ENCFG_SRXEN_def)

lemma set_leaves:
  "leaves (\<lambda>l. enb l = v) (set_encfg TOP_ENCFG_STXEN (of_bool b)) (\<lambda>l. enb l = (b, snd v))"
  "leaves (\<lambda>l. enb l = v) (set_encfg TOP_ENCFG_SRXEN (of_bool b)) (\<lambda>l. enb l = (fst v, b))"
  unfolding set_encfg_def by (rule leaves_mod; simp only: enb_set)+

lemma enable_leaves:
  "leaves (\<lambda>l. enb l = v) (lms6002d_trf_enable bus b) (\<lambda>l. enb l = (b, snd v))"
  "leaves (\<lambda>l. enb l = v) (lms6002d_rfe_enable bus b) (\<lambda>l. enb l = (fst v, b))"
proof -
  have n: "leaves (\<lambda>l. enb l = v) (dseq (set_enreg f x) (dseq k m)) Q" if "leaves (\<lambda>l. enb l = v) k Q" "pres Q m" for f x k m Q
    unfolding set_enreg_def by (rule leaves_mod_seq [OF leaves_seq [OF that]]) (simp_all add: enb_def)
  show "leaves (\<lambda>l. enb l = v) (lms6002d_trf_enable bus b) (\<lambda>l. enb l = (b, snd v))"
    "leaves (\<lambda>l. enb l = v) (lms6002d_rfe_enable bus b) (\<lambda>l. enb l = (fst v, b))"
    unfolding lms6002d_trf_enable_def lms6002d_rfe_enable_def by (rule n set_leaves pres_rules)+
qed

text \<open>The calibration of a band enables the transmitter and puts its state back on every path.\<close>

lemma cal_band_quiet: "quiet6 v (lms6002d_cal_lpf_bandwidth bus b)"
proof -
  have body: "leaves (\<lambda>l. enb l = v \<and> (fget TOP_ENCFG_STXEN (l6_top_encfg l) \<noteq> 0) = tx)
     (dseq (lms6002d_trf_enable bus True) (dseq (lms6002d_tune_pll bus True f) (dseq (lms6002d_spi_post bus rs) (lms6002d_spi_rd bus a))))
     (\<lambda>l. enb l = (True, snd v) \<and> tx = fst v)" for tx f rs a
  proof (cases "tx = fst v")
    case True
    show ?thesis
      by (rule leaves_mono [where P = "\<lambda>l. enb l = v" and Q = "\<lambda>l. enb l = (True, snd v)"])
        (use True in \<open>auto intro!: leaves_seq [OF enable_leaves(1)] pres_rules\<close>)
  qed (auto simp: leaves_def enb_def)
  have off: "leaves (\<lambda>l. enb l = (True, snd v) \<and> tx = fst v) (if tx then dreturn () else set_encfg TOP_ENCFG_STXEN 0) (\<lambda>l. enb l = v)" for tx
  proof (cases tx)
    case True
    then show ?thesis by (auto simp: leaves_def dreturn_def prod_eq_iff)
  next
    case False
    have "leaves (\<lambda>l. enb l = (True, snd v)) (set_encfg TOP_ENCFG_STXEN 0) (\<lambda>l. enb l = (False, snd v))"
      using set_leaves(1) [of "(True, snd v)" False] by simp
    note sw = this
    show ?thesis
    proof (cases "fst v")
      case True
      then show ?thesis using False by (simp add: leaves_def)
    next
      case ff: False
      then have "v = (False, snd v)" by (cases v) auto
      then show ?thesis using False ff sw by (auto elim!: leaves_mono)
    qed
  qed
  have restore: "leaves (\<lambda>l. enb l = (True, snd v) \<and> tx = fst v) (dseq (dmod (\<lambda>m. m\<lparr>l6_rclpfcal := g m\<rparr>))
      (dseq (if tx then dreturn () else set_encfg TOP_ENCFG_STXEN 0) k)) (\<lambda>l. enb l = v)" if k: "quiet6 v k" for tx g k
    by (rule leaves_mod_seq [OF leaves_seq [OF off k]]) (simp_all add: enb_def)
  show ?thesis unfolding lms6002d_cal_lpf_bandwidth_def Let_def
    by (intro leaves_if pres_rules leaves_get leaves_try [OF body] restore) (auto intro!: pres_rules split: sum.splits)
qed

text \<open>The note of the power state agrees with the copy of the register.\<close>

definition pw_ok :: "usdr_dev \<Rightarrow> bool" where
  "pw_ok d \<longleftrightarrow> enb (ud_lms d) = (ud_tx_pwren d, ud_rx_pwren d)"

definition pw_off :: "usdr_dev \<Rightarrow> bool" where
  "pw_off d \<longleftrightarrow> enb (ud_lms d) = (False, False) \<and> \<not> ud_tx_pwren d \<and> \<not> ud_rx_pwren d"

lemma leaves_lms6:
  assumes "\<And>v. leaves (\<lambda>l. enb l = v) op (\<lambda>l. enb l = F v)" "\<And>d l. P d \<Longrightarrow> enb l = F (enb (ud_lms d)) \<Longrightarrow> Q (d\<lparr>ud_lms := l\<rparr>)"
  shows "leaves P (on_lms6 op) Q"
  unfolding leaves_def
proof (intro allI impI)
  fix s x s' assume run: "on_lms6 op s = (x, s')" and p: "P (snd s)"
  obtain h d where s: "s = (h, d)" by (cases s)
  obtain y h' l where o: "op (h, ud_lms d) = (y, (h', l))" by (cases "op (h, ud_lms d)") auto
  have "enb l = F (enb (ud_lms d))" using assms(1) [of "enb (ud_lms d)"] o unfolding leaves_def by fastforce
  then show "Q (snd s')" using assms(2) [of d l] p run by (auto simp: on_lms6_def s o)
qed

lemma pres_lms6 [pres_rules]:
  "(\<And>v. quiet6 v op) \<Longrightarrow> pres pw_ok (on_lms6 op)" "(\<And>v. quiet6 v op) \<Longrightarrow> pres pw_off (on_lms6 op)"
  by (rule leaves_lms6 [where F = "\<lambda>v. v"]; simp add: pw_ok_def pw_off_def)+

lemma pres_gpo [pres_rules]: "pres P (ugpo E b v)"
  unfolding ugpo_def by (rule pres_rules)

lemma pres_plain [pres_rules]:
  "(\<And>d. enb (ud_lms (f d)) = enb (ud_lms d) \<and> ud_tx_pwren (f d) = ud_tx_pwren d \<and> ud_rx_pwren (f d) = ud_rx_pwren d) \<Longrightarrow> pres pw_ok (dmod f)"
  "(\<And>d. enb (ud_lms (f d)) = enb (ud_lms d) \<and> ud_tx_pwren (f d) = ud_tx_pwren d \<and> ud_rx_pwren (f d) = ud_rx_pwren d) \<Longrightarrow> pres pw_off (dmod f)"
  by (rule pres_mod; simp add: pw_ok_def pw_off_def)+

lemma pwr_state_pres [pres_rules]: "pres pw_ok (usdr_pwr_state E tx en)"
proof -
  have t: "leaves pw_ok (on_lms6 (lms6002d_trf_enable bus en)) (\<lambda>d. enb (ud_lms d) = (en, ud_rx_pwren d))" for bus
    by (rule leaves_lms6 [OF enable_leaves(1)]) (simp add: pw_ok_def)
  have r: "leaves pw_ok (on_lms6 (lms6002d_rfe_enable bus en)) (\<lambda>d. enb (ud_lms d) = (ud_tx_pwren d, en))" for bus
    by (rule leaves_lms6 [OF enable_leaves(2)]) (simp add: pw_ok_def)
  show ?thesis unfolding usdr_pwr_state_def
    by (intro pres_rules leaves_try [OF t] leaves_try [OF r] leaves_mod_seq [where M = pw_ok]) (simp_all add: pw_ok_def)
qed

lemma port_switch_pres [pres_rules]: "pres pw_ok (usdr_set_rx_port_switch E p)" "pres pw_off (usdr_set_rx_port_switch E p)"
    "pres P (usdr_set_tx_port_switch E p)"
  unfolding usdr_set_rx_port_switch_def usdr_set_tx_port_switch_def Let_def by (auto intro!: pres_rules)

lemma lna_pres [pres_rules]: "pres pw_ok (usdr_set_lna_rx E i)" "pres pw_ok (usdr_set_lna_tx E i)"
  unfolding usdr_set_lna_rx_def usdr_set_lna_tx_def by (auto intro!: pres_rules split: option.splits)

lemma changed_pres [pres_rules]: "pres pw_ok (usdr_rx_lna_changed E)" "pres pw_ok (usdr_tx_lna_changed E)"
    "pres pw_ok (usdr_rx_lo_changed E)" "pres pw_ok (usdr_tx_lo_changed E)" "pres pw_ok (usdr_samplerate_changed E)"
  unfolding usdr_rx_lna_changed_def usdr_tx_lna_changed_def usdr_rx_lo_changed_def usdr_tx_lo_changed_def usdr_samplerate_changed_def
  by (auto intro!: pres_rules split: sum.splits bool.splits)

lemma rate_pres [pres_rules]: "pres pw_ok (usdr_set_samplerate_ex E r t)"
  unfolding usdr_set_samplerate_ex_def Let_def by (auto intro!: pres_rules split: sum.splits)

lemma dc_calib_pres [pres_rules]: "pres pw_ok (usdr_calib_dc E)"
  unfolding usdr_calib_dc_def usdr_lms6002_dc_calib_def Let_def
  by (rule pres_lms6) (auto intro!: pres_list pres_rules cal_band_quiet)

lemma fe_set_freq_pres [pres_rules]: "pres pw_ok (usdr_rfic_fe_set_freq E tx f)"
  unfolding usdr_rfic_fe_set_freq_def by (auto intro!: pres_rules)

lemma set_gain_pres [pres_rules]: "pres pw_ok (usdr_rfic_set_gain E t g)"
  unfolding usdr_rfic_set_gain_def vga2ab_def Let_def by (cases t; auto intro!: pres_rules split: usdrgains.splits)

lemma run_pres: "pres pw_ok (usdr_run E c)"
  by (cases c) (auto intro!: pres_rules pres_list simp: usdr_set_lob_freq_def Let_def usdr_rfic_streaming_up_def usdr_rfic_streaming_down_def
      usdr_set_extref_def usdr_rfic_bb_set_badwidth_def usdr_rfic_fe_set_rxlna_def usdr_gettemp_def usdr_dtor_def enb_def split: option.splits if_split_asm)

lemma create_leaves: "leaves (\<lambda>l. enb l = v) (lms6002d_create bus a) (\<lambda>l. enb l = (False, False))"
  unfolding lms6002d_create_def
proof (rule leaves_mod_seq [where M = "\<lambda>l. enb l = (False, False)"], goal_cases)
  case 1
  show ?case by (intro pres_rules)
next
  case (2 m)
  have "(ucast (lms6_make TOP_ENCFG [0, 1, 1, 0, 0, 1]) :: u8) = 0x32"
    by (simp add: lms6_make_def fpack_def fmask_def TOP_ENCFG_def lms6_wr_def)
  then show ?case by (simp add: enb_def fget_def fmask_def TOP_ENCFG_STXEN_def TOP_ENCFG_SRXEN_def)
qed

lemma start_pres [pres_rules]: "pres pw_off (usdr_rfic_start E r)"
  unfolding usdr_rfic_start_def
  by (intro pres_rules pres_list leaves_lms6 [OF create_leaves]) (auto intro!: pres_rules simp: pw_off_def)

lemma enable_off [pres_rules]:
  "pres pw_off (on_lms6 (lms6002d_trf_enable bus False))" "pres pw_off (on_lms6 (lms6002d_rfe_enable bus False))"
  by (rule leaves_lms6 [OF enable_leaves(1)] leaves_lms6 [OF enable_leaves(2)]; simp add: pw_off_def)+

lemma config_pres [pres_rules]: "pres pw_off (usdr_rfic_config E)"
  unfolding usdr_rfic_config_def Let_def by (auto intro!: pres_rules)

lemma init_pres: "pres pw_off (usdr_init E ext_clk ext_fref)"
  unfolding usdr_init_def Let_def usdr_clocks_def
  by (auto intro!: pres_rules simp: enb_def split: sum.splits)

text \<open>C23: the driver notes whether the transmitter and the receiver are powered, and leaves out the call to the transceiver when
  nothing would change. Once the board is started, and after any calls, with whatever results and on whatever bus, the note of each
  direction is the bit in the transceiver driver's copy of the register that powers it: a band calibration switches the
  transmitter on behind the note's back and puts it back even when it fails.\<close>

theorem usdr_power_tracked:
  assumes "usdr_init E ext_clk ext_fref (h0, usdr_ctor) = (r, s)" and "dlist (map (\<lambda>c. dignore (usdr_run E c)) cs) s = (r', (h, d))"
  shows "ud_tx_pwren d = (fget TOP_ENCFG_STXEN (l6_top_encfg (ud_lms d)) \<noteq> 0) \<and> ud_rx_pwren d = (fget TOP_ENCFG_SRXEN (l6_top_encfg (ud_lms d)) \<noteq> 0)"
proof -
  have "pw_off usdr_ctor" by (simp add: pw_off_def usdr_ctor_def lms6_zero_def enb_def fget_def)
  then have "pw_off (snd s)" using init_pres [of E ext_clk ext_fref] assms(1) unfolding leaves_def by fastforce
  then have "pw_ok (snd s)" by (simp add: pw_off_def pw_ok_def)
  moreover have "pres pw_ok (dlist (map (\<lambda>c. dignore (usdr_run E c)) cs))"
    by (rule pres_list) (auto intro!: pres_rules run_pres)
  ultimately have "pw_ok d" using assms(2) unfolding leaves_def by fastforce
  then show ?thesis by (simp add: pw_ok_def enb_def)
qed

text \<open>Streams that are switched on and off, with a calibration between them.\<close>

theorem usdr_power_tracked_witness:
  "\<exists>r s r' h d. usdr_init \<lparr>ue_bus = lms6_chip (\<lambda>h r. h r), ue_bare = True, ue_vga1 = (\<lambda>_. 0)\<rparr> 0 0 ((\<lambda>_. 0), usdr_ctor) = (r, s) \<and>
     dlist (map (\<lambda>c. dignore (usdr_run \<lparr>ue_bus = lms6_chip (\<lambda>h r. h r), ue_bare = True, ue_vga1 = (\<lambda>_. 0)\<rparr> c)) [U_streaming_up 3, U_calib_dc, U_streaming_down 1]) s = (r', (h, d)) \<and>
     ud_tx_pwren d = (fget TOP_ENCFG_STXEN (l6_top_encfg (ud_lms d)) \<noteq> 0) \<and> ud_rx_pwren d = (fget TOP_ENCFG_SRXEN (l6_top_encfg (ud_lms d)) \<noteq> 0)"
proof -
  let ?E = "\<lparr>ue_bus = lms6_chip (\<lambda>h r. h r), ue_bare = True, ue_vga1 = (\<lambda>_. 0)\<rparr>" and ?cs = "[U_streaming_up 3, U_calib_dc, U_streaming_down 1]"
  obtain r s where i: "usdr_init ?E 0 0 ((\<lambda>_. 0), usdr_ctor) = (r, s)" by (cases "usdr_init ?E 0 0 ((\<lambda>_. 0), usdr_ctor)")
  obtain r' h d where c: "dlist (map (\<lambda>c. dignore (usdr_run ?E c)) ?cs) s = (r', (h, d))"
    by (cases "dlist (map (\<lambda>c. dignore (usdr_run ?E c)) ?cs) s") (auto simp: prod_eq_iff)
  show ?thesis using i c usdr_power_tracked [OF i c] by blast
qed

end
