(* ===== verification/Spec2Isabelle.thy ===== *)
theory Spec2Isabelle
  imports EspiFlash CircBuf RingBuffer StreamFormat SfeRx SfeTx Conv StreamRecv StreamSend StreamInit
    Base64 ClockGen BusCores Lms64c UsbDrp StreamLime Lms7002mCalls DeviceVfs Mdev Xsdr UsdrCtrl
begin

text \<open>
  A verification library for the driver library of the USDR radios (\<open>src/lib\<close>, C).

  The program. A device (\<open>src/lib/device\<close>) is a set of FPGA cores and chips behind one transport. All
  accesses go through \<open>lowlevel_ops.ls_op\<close> (\<open>lowlevel/usdr_lowlevel.h\<close>); the cores have drivers in
  \<open>ipblks\<close>, the chips in \<open>hw\<close>. Samples travel in a stream (\<open>ipblks/streams\<close>): the front end core cuts
  the samples of a packet into bursts for its FIFO, the DMA core moves packets, the stream object
  converts between the formats of host and wire (\<open>xdsp/conv.c\<close>), counts lost packets and keeps time stamps.

  Theories and code.
  \<open>Prelude\<close>: machine integers as words, little-endian images, error numbers, hint collections.
  \<open>CString\<close>: the C string functions the code calls.
  \<open>Lowlevel\<close>: \<open>lowlevel/usdr_lowlevel.h\<close>. A driver is a program over an environment that answers requests from
  the history; \<open>fail_stop\<close> is the contract of all register code, and the locale \<open>checked_io\<close> its use.
  \<open>EspiFlash\<close>: \<open>ipblks/espi_flash.c\<close>; erase, read and write of the configuration flash against an observer
  that reads erased and programmed ranges off the trace.
  \<open>Bitstream\<close>: \<open>ipblks/xlnx_bitstream.c\<close>; the image header and the check before an update.
  \<open>CircBuf\<close>, \<open>RingBuffer\<close>: \<open>common/ring_circbuf.c\<close> and \<open>common/ring_buffer.c\<close>; the byte FIFO, and the item ring
  with its semaphores as counters and the interleavings of its two threads as a step relation.
  \<open>ClockGen\<close>, \<open>Mmcm\<close>: \<open>common/clock_gen.c\<close> and \<open>ipblks/xlnx_mmcm.c\<close>; choice of VCO and dividers, programming of
  the clock manager against a register file.
  \<open>DeviceBus\<close>: \<open>device/device_bus.c\<close>; the bus table of a device read from its parameter tree, and bus accesses.
  \<open>Transport\<close>: operations of a transport as functions on its state, and programs of \<open>Lowlevel\<close> run over them.
  \<open>UsbUram\<close>: \<open>lowlevel/usb_uram/usb_uram_generic.c\<close>; registers, transactions and start-up over USB.
  \<open>UsbDrp\<close>: the clock manager programmed through \<open>device_bus.c\<close> and the USB transport.
  \<open>BusCores\<close>: \<open>ipblks/si2c.c\<close>, \<open>spiext.c\<close>, \<open>gpio.c\<close>, \<open>uart.c\<close>.
  \<open>Lms64c\<close>: \<open>ipblks/lms64c_proto.c\<close>; packets of the LimeSDR control protocol.
  \<open>Base64\<close>: \<open>json_controller/base64.c\<close>.
  \<open>StreamFormat\<close>: \<open>ipblks/streams/streams.c\<close>, \<open>streams_api.c\<close>; formats and channel maps.
  \<open>SfeRx\<close>, \<open>SfeTx\<close>: \<open>sfe_rx_4.c\<close>, \<open>sfe_tx_4.c\<close>, \<open>dma_rx_32.c\<close>; burst plans, channel routing, descriptors.
  \<open>Conv\<close>: \<open>xdsp/conv.c\<close> and the portable integer kernels.
  \<open>StreamDma\<close>, \<open>StreamRecv\<close>, \<open>StreamSend\<close>, \<open>StreamInit\<close>: \<open>stream_sfetrx4_dma32.c\<close>; the stream object, what is
  proved of receiving and of sending, and the creation of streams.
  \<open>StreamLime\<close>: \<open>ipblks/streams/stream_limesdr.c\<close>; the streams of the LimeSDR boards and their start and stop.
  \<open>DeviceVfs\<close>: \<open>device/device_vfs.c\<close>, \<open>device.c\<close>; the parameter tree with its links and the device types.
  \<open>Mdev\<close>: \<open>device/mdev.c\<close>; several boards used as one, whose boards are records of operations.
  \<open>ChipBus\<close>: the macros of \<open>hwparser/gen_h.py\<close> for register fields, and the bus programs of the chip drivers
  with a device that obeys them.
  \<open>PowerChips\<close>: the power, DAC, port and sensor drivers of \<open>hw\<close> and the oscillator \<open>hw/si549\<close>.
  \<open>Lms7002mRegs\<close>, \<open>Lms7002m\<close>, \<open>Lms7002mTune\<close>, \<open>Lms7002mCalls\<close>: \<open>hw/lms7002m/lms7002m.c\<close>; the register layouts
  it uses, its operations, the search for the capacitor of the clock generator and of the synthesizers, and
  what the calls leave in the chip.
  \<open>Lms7002mCtrl\<close>, \<open>Lms7002mCtrlProofs\<close>: \<open>device/m2_lm7_1/lms7002m_ctrl.c\<close>; gains, ports, rates, streaming of that
  chip on a board, with the locale \<open>rfic_board\<close> for a board that holds a controller.
  \<open>Lms8001\<close>: \<open>hw/lms8001/lms8001.c\<close>; the frequency plan and the tuning of the converter.
  \<open>Xsdr\<close>: \<open>device/m2_lm7_1/xsdr_ctrl.c\<close>; the boards XSDR, XTRX and SSDR over the controller, an instance of
  \<open>rfic_board\<close>.
  \<open>Lms6002d\<close>, \<open>Si5332\<close>: \<open>hw/lms6002d/lms6002d.c\<close> and \<open>hw/si5332/si5332.c\<close>; the transceiver with the search for its
  capacitor and its calibrations, and the plan and programming of the clock generator.
  \<open>UsdrCtrl\<close>: \<open>device/m2_lm6_1/usdr_ctrl.c\<close>; the uSDR board over these two chips.

  State and errors. A C struct is a record with a prefix for its fields; an output parameter is part of the
  result; \<open>-E...\<close> codes are integers in \<open>Inl\<close>. Behaviour that C leaves undefined is its own result:
  \<open>OUT_OF_BOUNDS\<close> for an access outside an object, \<open>CRASH_FPE\<close> for a division by zero, \<open>ASSERT_ABORT\<close> for a
  failed assertion, \<open>HANG\<close> for a loop that does not end. Unsigned arithmetic is word arithmetic.

  What the lemmas show. Register programs: what is left in the hardware after success and that nothing is sent
  after a failure. Plans (bursts, packets, dividers, erase ranges): that the parts cover the request exactly
  and respect the limits of the hardware. Encodings: that reading back gives what was written. Tables: that
  what was loaded fits its arrays. Loops that are not structural: that they return, with the bound that is
  used. The theorems without hypotheses on inputs where the code fails record faults of the code.

  Bounds. The polling loops of the flash driver carry the bounds of the code. The VCO search is a partial
  function; \<open>find_best_vco_returns\<close> shows it defined for divider tables on their grid. A send request is cut
  by a recursion on the samples left; \<open>send_cuts_stream\<close> shows it ends. The loop that doubles the clock of
  \<open>lms7002m_samplerate\<close> runs on fuel of 32: a clock of at least 1 Hz passes the limit before that, and a clock
  of 0, with which the code does not end, is the result \<open>HANG\<close>. The calibrations of the LMS6002D and the state of the
  SI5332 are polled at most 100 times, as in the code.

  Not modelled. The kernel driver, the simulator and the libraries that move USB packets; they and the
  hardware are arguments. Vector variants and floating-point kernels of \<open>xdsp\<close>, values that drivers get from
  floating-point formulas (they are arguments of the model), the calibration search of \<open>cal\<close>, the remaining
  chips of \<open>hw\<close> and boards of \<open>device\<close>, the SoapySDR and web bindings, tools and tests. \<open>tiny-json\<close> is
  third-party code. Releasing memory, logging and delays have no effect in the model other than where they
  order events.
\<close>

end
